(* ===== verification/Prelude.thy ===== *)
theory Prelude
  imports Main "HOL-Library.Word" "HOL-Library.Monad_Syntax"
begin

text \<open>
  Shared vocabulary of the development: the C integer widths, byte buffers, the
  little-endian layout of packed structs, and the generic lemmas the component theories
  use. An unsigned C integer used as a count or an address is a \<^typ>\<open>nat\<close> whose
  wrap-around is written out with \<open>u8\<close>, \<open>u16\<close> or \<open>u32\<close>; a flag word is an
  \<open>'a word\<close>. A C pointer that is only read from is the function giving the byte at each
  offset, so that a read past the end of a buffer is a byte the caller did not choose and
  not an error that the code would not see.
\<close>

unbundle bit_operations_syntax

type_synonym byte = "8 word"
type_synonym cptr = "nat \<Rightarrow> byte"

definition u8 :: "nat \<Rightarrow> nat" where
  "u8 x = x mod 2 ^ 8"

definition u16 :: "nat \<Rightarrow> nat" where
  "u16 x = x mod 2 ^ 16"

definition u32 :: "nat \<Rightarrow> nat" where
  "u32 x = x mod 2 ^ 32"

text \<open>Unsigned 32-bit subtraction, which wraps below zero.\<close>

definition sub32 :: "nat \<Rightarrow> nat \<Rightarrow> nat" where
  "sub32 x y = (x + 2 ^ 32 - y mod 2 ^ 32) mod 2 ^ 32"

definition cbuf :: "byte list \<Rightarrow> cptr \<Rightarrow> cptr" where
  "cbuf xs rest i = (if i < length xs then xs ! i else rest (i - length xs))"

text \<open>Overwriting the first bytes of a buffer, as \<open>memcpy\<close> into it does.\<close>

definition overwrite :: "byte list \<Rightarrow> byte list \<Rightarrow> byte list" where
  "overwrite xs buf = xs @ drop (length xs) buf"

definition le16 :: "16 word \<Rightarrow> byte list" where
  "le16 w = [ucast w, ucast (drop_bit 8 w)]"

definition of_le16 :: "byte \<Rightarrow> byte \<Rightarrow> 16 word" where
  "of_le16 a b = ucast a OR push_bit 8 (ucast b)"

definition le32 :: "32 word \<Rightarrow> byte list" where
  "le32 w = [ucast w, ucast (drop_bit 8 w), ucast (drop_bit 16 w), ucast (drop_bit 24 w)]"

definition of_le32 :: "byte \<Rightarrow> byte \<Rightarrow> byte \<Rightarrow> byte \<Rightarrow> 32 word" where
  "of_le32 a b c d =
     ucast a OR push_bit 8 (ucast b) OR push_bit 16 (ucast c) OR push_bit 24 (ucast d)"

named_theorems wraps \<open>arithmetic that does not wrap\<close>

subsection \<open>Wrap-around\<close>

lemma div_small: "b < k \<Longrightarrow> (a * k + b) div k = a" "b < k \<Longrightarrow> (a * k + b) mod k = b" for a b k :: nat
  by simp_all

lemma u8_small [wraps]: "x < 256 \<Longrightarrow> u8 x = x"
  by (simp add: u8_def)

lemma u16_small [wraps]: "x < 65536 \<Longrightarrow> u16 x = x"
  by (simp add: u16_def)

lemma u32_small [wraps]: "x < 4294967296 \<Longrightarrow> u32 x = x"
  by (simp add: u32_def)

lemma u8_less [simp]: "u8 x < 256"
  by (simp add: u8_def)

lemma u16_less [simp]: "u16 x < 65536"
  by (simp add: u16_def)

lemma u32_less [simp]: "u32 x < 4294967296"
  by (simp add: u32_def)

lemma sub32_small [wraps]:
  assumes "y \<le> x" and "x < 4294967296"
  shows "sub32 x y = x - y"
proof -
  have "sub32 x y = ((x - y) + 2 ^ 32) mod 2 ^ 32"
    using assms by (simp add: sub32_def)
  then show ?thesis using assms by (simp del: add_diff_assoc2 Nat.add_diff_assoc2)
qed

subsection \<open>Little-endian layout\<close>

lemma le16_length [simp]: "length (le16 w) = 2"
  by (simp add: le16_def)

lemma le32_length [simp]: "length (le32 w) = 4"
  by (simp add: le32_def)

lemma of_le16_le16 [simp]: "of_le16 (ucast w) (ucast (drop_bit 8 w)) = w"
  unfolding of_le16_def by (rule bit_eqI) (auto simp: bit_simps)

lemma ucast_of_le16 [simp]:
  "(ucast (of_le16 a b) :: byte) = a" "(ucast (drop_bit 8 (of_le16 a b)) :: byte) = b"
  unfolding of_le16_def
  by (rule bit_eqI; auto simp: bit_simps dest: bit_imp_le_length)+

lemma of_le32_le32 [simp]:
  "of_le32 (ucast w) (ucast (drop_bit 8 w)) (ucast (drop_bit 16 w)) (ucast (drop_bit 24 w)) = w"
  unfolding of_le32_def
proof (rule bit_eqI, goal_cases)
  case (1 n)
  then consider "n < 8" | "8 \<le> n" "n < 16" | "16 \<le> n" "n < 24" | "24 \<le> n" "n < 32"
    by fastforce
  then show ?case
    by cases (auto simp: bit_simps)
qed

lemma of_le16_and: "of_le16 (a AND c) (b AND d) = of_le16 a b AND of_le16 c d"
  unfolding of_le16_def by (rule bit_eqI) (auto simp: bit_simps dest: bit_imp_le_length)

lemma unat_of_le16: "unat (of_le16 a b) = unat a + 256 * unat b"
proof -
  let ?x = "of_le16 a b"
  have "unat ?x mod 256 = unat (ucast ?x :: byte)" by (simp add: unsigned_ucast_eq take_bit_eq_mod del: ucast_of_le16)
  moreover have "unat ?x div 256 = unat (ucast (drop_bit 8 ?x) :: byte)"
  proof -
    have "unat (drop_bit 8 ?x) = unat ?x div 256" unfolding unat_drop_bit_eq by (simp add: drop_bit_eq_div)
    moreover have "unat ?x div 256 < 256" using unsigned_less[of ?x, where ?'a = nat] by (simp add: less_mult_imp_div_less)
    ultimately show ?thesis by (simp add: unsigned_ucast_eq take_bit_eq_mod del: ucast_of_le16)
  qed
  ultimately show ?thesis using mod_mult_div_eq[of "unat ?x" 256] by simp
qed
lemma xor_right_cancel: "(a XOR x = b XOR x) \<longleftrightarrow> a = (b :: 'a :: len word)"
proof
  assume e: "a XOR x = b XOR x"
  have "a = (a XOR x) XOR x" by (simp add: xor.assoc)
  also have "\<dots> = b" unfolding e by (simp add: xor.assoc)
  finally show "a = b" .
qed simp

lemma byte_and_255 [simp]: "(255 :: byte) AND x = x" "x AND (255 :: byte) = x"
proof -
  have "(255 :: byte) = - 1" by simp
  then show "(255 :: byte) AND x = x" "x AND (255 :: byte) = x" by (simp_all only: and.left_neutral and.right_neutral)
qed

subsection \<open>Buffers\<close>

lemma map_cbuf [simp]: "map (cbuf xs rest) [0..<length xs] = xs"
  by (rule nth_equalityI) (simp_all add: cbuf_def)

lemma map_cbuf_take: "n \<le> length xs \<Longrightarrow> map (cbuf xs rest) [0..<n] = take n xs"
  by (rule nth_equalityI) (simp_all add: cbuf_def)

lemma cbuf_nth [simp]: "i < length xs \<Longrightarrow> cbuf xs rest i = xs ! i"
  by (simp add: cbuf_def)

lemma length_overwrite: "length xs \<le> length buf \<Longrightarrow> length (overwrite xs buf) = length buf"
  by (simp add: overwrite_def)

end
