(* ===== verification/SpiFlash.thy ===== *)
theory SpiFlash
  imports Prelude
begin

text \<open>
  The SPI flash layer of \<^verbatim>\<open>src/open_esplibs/libmain/spi_flash.c\<close>. The mask-ROM routines it
  calls (\<^verbatim>\<open>SPI_page_program\<close>, \<^verbatim>\<open>SPI_read_data\<close>, \<^verbatim>\<open>SPI_sector_erase\<close> and so on) are not part
  of the repository: they are the fields of the record \<open>flashdev\<close>, over an arbitrary device
  state \<^typ>\<open>'d\<close>, together with the chip description they are handed. The boolean a ROM routine
  returns is its error result (a non-zero return value).

  The locale \<open>nor_rom\<close> states what the ROM routines promise of a NOR flash chip, page by page;
  the locale \<open>flash_io\<close> states the linear contract the clients of this layer use. The
  sublocale proof shows that the code of this file turns the one into the other.
\<close>

record sdk_flashchip_t =
  device_id :: nat
  chip_size :: nat
  block_size :: nat
  sector_size :: nat
  page_size :: nat
  status_mask :: nat

definition sdk_flashchip_init :: sdk_flashchip_t where
  "sdk_flashchip_init =
     \<lparr>device_id = 0x001640ef, chip_size = 4 * 1024 * 1024, block_size = 65536,
      sector_size = 4096, page_size = 256, status_mask = 0x0000ffff\<rparr>"

record 'd flashdev =
  sdk_flashchip :: sdk_flashchip_t
  SPI_page_program :: "sdk_flashchip_t \<Rightarrow> nat \<Rightarrow> cptr \<Rightarrow> nat \<Rightarrow> 'd \<Rightarrow> bool \<times> 'd"
  SPI_read_data :: "sdk_flashchip_t \<Rightarrow> nat \<Rightarrow> nat \<Rightarrow> 'd \<Rightarrow> bool \<times> byte list \<times> 'd"
  SPI_write_enable :: "sdk_flashchip_t \<Rightarrow> 'd \<Rightarrow> bool \<times> 'd"
  SPI_sector_erase :: "sdk_flashchip_t \<Rightarrow> nat \<Rightarrow> 'd \<Rightarrow> bool \<times> 'd"
  SPI_read_status :: "sdk_flashchip_t \<Rightarrow> 'd \<Rightarrow> nat \<times> nat \<times> 'd"
  SPI_write_status :: "sdk_flashchip_t \<Rightarrow> nat \<Rightarrow> 'd \<Rightarrow> nat \<times> 'd"
  Cache_Read_Disable :: "'d \<Rightarrow> 'd"
  Cache_Read_Enable :: "nat \<Rightarrow> nat \<Rightarrow> nat \<Rightarrow> 'd \<Rightarrow> 'd"

datatype sdk_SpiFlashOpResult =
  SPI_FLASH_RESULT_OK | SPI_FLASH_RESULT_ERR | SPI_FLASH_RESULT_TIMEOUT

section \<open>Operations\<close>

text \<open>The loop over the full pages of \<open>sdk_SPIWrite\<close>. The source pointer counts words, so
  the byte offset of the next page's data is four times \<^verbatim>\<open>pos / 4\<close>.\<close>

fun SPIWrite_pages ::
  "'d flashdev \<Rightarrow> nat \<Rightarrow> cptr \<Rightarrow> nat \<Rightarrow> nat \<Rightarrow> 'd \<Rightarrow> bool \<times> nat \<times> 'd" where
  "SPIWrite_pages fd des_addr src 0 pos d = (False, pos, d)"
| "SPIWrite_pages fd des_addr src (Suc k) pos d =
     (let psz = page_size (sdk_flashchip fd) in
      case SPI_page_program fd (sdk_flashchip fd) (u32 (des_addr + pos))
             (\<lambda>i. src (4 * (pos div 4) + i)) psz d of
        (err, d') \<Rightarrow>
          if err then (True, pos, d')
          else SPIWrite_pages fd des_addr src k (u32 (pos + psz)) d')"

definition sdk_SPIWrite ::
  "'d flashdev \<Rightarrow> nat \<Rightarrow> cptr \<Rightarrow> nat \<Rightarrow> 'd \<Rightarrow> sdk_SpiFlashOpResult \<times> 'd" where
  "sdk_SPIWrite fd des_addr src sz d =
     (let chip = sdk_flashchip fd;
          psz = page_size chip;
          first_page_portion = psz - des_addr mod psz in
      if \<not> u32 (des_addr + sz) \<le> chip_size chip then (SPI_FLASH_RESULT_ERR, d)
      else if sz < first_page_portion then
        (case SPI_page_program fd chip des_addr src sz d of
           (err, d1) \<Rightarrow> (if err then SPI_FLASH_RESULT_ERR else SPI_FLASH_RESULT_OK, d1))
      else
        (case SPI_page_program fd chip des_addr src first_page_portion d of
           (err, d1) \<Rightarrow>
             if err then (SPI_FLASH_RESULT_ERR, d1)
             else
               let full_pages = sub32 sz first_page_portion div psz in
               (case SPIWrite_pages fd des_addr src full_pages first_page_portion d1 of
                  (err, pos, d2) \<Rightarrow>
                    if err then (SPI_FLASH_RESULT_ERR, d2)
                    else
                      (case SPI_page_program fd chip (u32 (des_addr + pos))
                              (\<lambda>i. src (4 * (pos div 4) + i)) (sub32 sz pos) d2 of
                         (err, d3) \<Rightarrow>
                           (if err then SPI_FLASH_RESULT_ERR else SPI_FLASH_RESULT_OK, d3)))))"

definition sdk_SPIRead ::
  "'d flashdev \<Rightarrow> nat \<Rightarrow> nat \<Rightarrow> 'd \<Rightarrow> sdk_SpiFlashOpResult \<times> byte list \<times> 'd" where
  "sdk_SPIRead fd src_addr sz d =
     (case SPI_read_data fd (sdk_flashchip fd) src_addr sz d of
        (err, bs, d') \<Rightarrow> (if err then SPI_FLASH_RESULT_ERR else SPI_FLASH_RESULT_OK, bs, d'))"

definition sdk_SPIEraseSector ::
  "'d flashdev \<Rightarrow> nat \<Rightarrow> 'd \<Rightarrow> sdk_SpiFlashOpResult \<times> 'd" where
  "sdk_SPIEraseSector fd sec d =
     (let chip = sdk_flashchip fd in
      if sec \<ge> chip_size chip div sector_size chip then (SPI_FLASH_RESULT_ERR, d)
      else
        (case SPI_write_enable fd chip d of
           (err, d1) \<Rightarrow>
             if err then (SPI_FLASH_RESULT_ERR, d1)
             else
               (case SPI_sector_erase fd chip (u32 (sector_size chip * sec)) d1 of
                  (err, d2) \<Rightarrow>
                    (if err then SPI_FLASH_RESULT_ERR else SPI_FLASH_RESULT_OK, d2))))"

text \<open>The exported operations run with the flash cache off and interrupts masked. The masking
  does nothing to the state a sequential model has; the cache calls go to the ROM. A \<^verbatim>\<open>NULL\<close>
  source is \<^const>\<open>None\<close>; a \<^verbatim>\<open>NULL\<close> destination is the flag \<open>des_null\<close>.\<close>

definition sdk_spi_flash_erase_sector ::
  "'d flashdev \<Rightarrow> nat \<Rightarrow> 'd \<Rightarrow> sdk_SpiFlashOpResult \<times> 'd" where
  "sdk_spi_flash_erase_sector fd sec d =
     (case sdk_SPIEraseSector fd sec (Cache_Read_Disable fd d) of
        (result, d') \<Rightarrow> (result, Cache_Read_Enable fd 0 0 1 d'))"

definition sdk_spi_flash_write ::
  "'d flashdev \<Rightarrow> nat \<Rightarrow> cptr option \<Rightarrow> nat \<Rightarrow> 'd \<Rightarrow> sdk_SpiFlashOpResult \<times> 'd" where
  "sdk_spi_flash_write fd des_addr src sz d =
     (case src of
        None \<Rightarrow> (SPI_FLASH_RESULT_ERR, d)
      | Some p \<Rightarrow>
          let ssz = (if sz mod 4 \<noteq> 0 then u32 (4 * (sz div 4) + 4) else sz) in
          (case sdk_SPIWrite fd des_addr p ssz (Cache_Read_Disable fd d) of
             (result, d') \<Rightarrow> (result, Cache_Read_Enable fd 0 0 1 d')))"

definition sdk_spi_flash_read ::
  "'d flashdev \<Rightarrow> nat \<Rightarrow> bool \<Rightarrow> nat \<Rightarrow> 'd \<Rightarrow> sdk_SpiFlashOpResult \<times> byte list \<times> 'd" where
  "sdk_spi_flash_read fd src_addr des_null sz d =
     (if des_null then (SPI_FLASH_RESULT_ERR, [], d)
      else
        (case sdk_SPIRead fd src_addr sz (Cache_Read_Disable fd d) of
           (result, bs, d') \<Rightarrow> (result, bs, Cache_Read_Enable fd 0 0 1 d')))"

definition sdk_spi_flash_read_status :: "'d flashdev \<Rightarrow> 'd \<Rightarrow> nat \<times> nat \<times> 'd" where
  "sdk_spi_flash_read_status fd d =
     (case SPI_read_status fd (sdk_flashchip fd) (Cache_Read_Disable fd d) of
        (result, status, d') \<Rightarrow> (result, status, Cache_Read_Enable fd 0 0 1 d'))"

definition sdk_spi_flash_write_status :: "'d flashdev \<Rightarrow> nat \<Rightarrow> 'd \<Rightarrow> nat \<times> 'd" where
  "sdk_spi_flash_write_status fd status d =
     (case SPI_write_status fd (sdk_flashchip fd) status (Cache_Read_Disable fd d) of
        (result, d') \<Rightarrow> (result, Cache_Read_Enable fd 0 0 1 d'))"

section \<open>NOR memory\<close>

definition nor_write :: "nat \<Rightarrow> cptr \<Rightarrow> nat \<Rightarrow> cptr \<Rightarrow> cptr" where
  "nor_write a src n m i = (if a \<le> i \<and> i < a + n then m i AND src (i - a) else m i)"

definition nor_erase :: "nat \<Rightarrow> nat \<Rightarrow> cptr \<Rightarrow> cptr" where
  "nor_erase a n m i = (if a \<le> i \<and> i < a + n then 255 else m i)"

definition round4 :: "nat \<Rightarrow> nat" where
  "round4 n = 4 * ((n + 3) div 4)"

definition erased :: "cptr \<Rightarrow> nat \<Rightarrow> nat \<Rightarrow> bool" where
  "erased m a n \<longleftrightarrow> (\<forall>i. a \<le> i \<and> i < a + n \<longrightarrow> m i = 255)"

definition bytes_at :: "cptr \<Rightarrow> nat \<Rightarrow> nat \<Rightarrow> byte list" where
  "bytes_at m a n = map m [a..<a + n]"

text \<open>The simulated chip: the bytes programmed since the last erase, over an all-ones array.
  Its only purpose is to show that the ROM contract can hold.\<close>

type_synonym sim_dev = "(nat \<times> byte) list"

definition sim_mem :: "sim_dev \<Rightarrow> cptr" where
  "sim_mem d i = (case map_of d i of None \<Rightarrow> 255 | Some b \<Rightarrow> b)"

definition sim_flash :: "sim_dev flashdev" where
  "sim_flash =
     \<lparr>sdk_flashchip = sdk_flashchip_init,
      SPI_page_program = (\<lambda>chip a src n d.
        (False, map (\<lambda>i. (i, sim_mem d i AND src (i - a))) [a..<a + n] @ d)),
      SPI_read_data = (\<lambda>chip a n d. (False, map (sim_mem d) [a..<a + n], d)),
      SPI_write_enable = (\<lambda>chip d. (False, d)),
      SPI_sector_erase = (\<lambda>chip a d.
        (False, filter (\<lambda>(i, _). \<not> (a \<le> i \<and> i < a + sector_size chip)) d)),
      SPI_read_status = (\<lambda>chip d. (0, 0, d)),
      SPI_write_status = (\<lambda>chip s d. (0, d)),
      Cache_Read_Disable = (\<lambda>d. d),
      Cache_Read_Enable = (\<lambda>_ _ _ d. d)\<rparr>"

subsection \<open>Facts about NOR memory\<close>

lemma round4_ge: "n \<le> round4 n" "round4 n < n + 4" "4 dvd round4 n"
  by (auto simp: round4_def)

lemma round4_mult [simp]: "n mod 4 = 0 \<Longrightarrow> round4 n = n"
  by (auto simp: round4_def)

lemma nor_write_0 [simp]: "nor_write a src 0 m = m"
  by (rule ext) (auto simp: nor_write_def)

lemma nor_write_append:
  "nor_write (a + n) (\<lambda>i. src (n + i)) k (nor_write a src n m) = nor_write a src (n + k) m"
  by (rule ext) (auto simp: nor_write_def)

lemma nor_write_cong: "(\<And>i. i < n \<Longrightarrow> f i = g i) \<Longrightarrow> nor_write a f n m = nor_write a g n m"
  by (rule ext) (auto simp: nor_write_def)

lemma nor_write_erased:
  assumes "erased m a n"
  shows "i < n \<Longrightarrow> nor_write a src n m (a + i) = src i"
  using assms by (simp add: nor_write_def erased_def)

lemma nor_write_outside: "i < a \<or> a + n \<le> i \<Longrightarrow> nor_write a src n m i = m i"
  by (auto simp: nor_write_def)

lemma nor_write_self:
  "(\<And>i. i < n \<Longrightarrow> m (a + i) AND src i = src i) \<Longrightarrow>
     j < n \<Longrightarrow> nor_write a src n m (a + j) = src j"
  by (simp add: nor_write_def)

lemma bytes_at_length [simp]: "length (bytes_at m a n) = n"
  by (simp add: bytes_at_def)

lemma bytes_at_nth [simp]: "i < n \<Longrightarrow> bytes_at m a n ! i = m (a + i)"
  by (simp add: bytes_at_def)

lemma bytes_at_cong: "(\<And>i. i < n \<Longrightarrow> m (a + i) = m' (a + i)) \<Longrightarrow> bytes_at m a n = bytes_at m' a n"
  by (rule nth_equalityI) simp_all

lemma bytes_at_append: "bytes_at m a (n + k) = bytes_at m a n @ bytes_at m (a + n) k"
  by (rule nth_equalityI) (auto simp: nth_append)

lemma bytes_at_4: "bytes_at m a 4 = [m a, m (a + 1), m (a + 2), m (a + 3)]"
  by (simp add: bytes_at_def upt_rec eval_nat_numeral)

lemma bytes_at_8:
  "bytes_at m a 8 = [m a, m (a+1), m (a+2), m (a+3), m (a+4), m (a+5), m (a+6), m (a+7)]"
  by (simp add: bytes_at_def upt_rec eval_nat_numeral)

lemma erased_subset: "erased m a n \<Longrightarrow> a \<le> b \<Longrightarrow> b + k \<le> a + n \<Longrightarrow> erased m b k"
  by (auto simp: erased_def)

lemma erased_nor_erase: "erased (nor_erase a n m) a n"
  by (simp add: erased_def nor_erase_def)

lemma erased_nor_write:
  "b + k \<le> a \<or> a + n \<le> b \<Longrightarrow> erased (nor_write a src n m) b k = erased m b k"
proof -
  assume "b + k \<le> a \<or> a + n \<le> b"
  then have "nor_write a src n m i = m i" if "b \<le> i" "i < b + k" for i
    using that by (intro nor_write_outside) linarith
  then show ?thesis by (auto simp: erased_def)
qed

section \<open>The contracts\<close>

text \<open>What the ROM routines promise: within one page programming clears bits, reading returns
  the array, a sector erase after a write enable sets every bit, the cache calls leave the array
  alone. Flash addresses have at most 24 bits.\<close>

locale nor_rom =
  fixes fd :: "'d flashdev"
    and mem :: "'d \<Rightarrow> cptr"
    and wel :: "'d \<Rightarrow> bool"
  assumes page_pos: "0 < page_size (sdk_flashchip fd)"
    and page_words: "4 dvd page_size (sdk_flashchip fd)"
    and sector_pos: "0 < sector_size (sdk_flashchip fd)"
    and sector_words: "4 dvd sector_size (sdk_flashchip fd)"
    and chip_24bit: "chip_size (sdk_flashchip fd) \<le> 2 ^ 24"
    and program_ok: "a mod page_size (sdk_flashchip fd) + n \<le> page_size (sdk_flashchip fd) \<Longrightarrow>
        a + n \<le> chip_size (sdk_flashchip fd) \<Longrightarrow>
        \<not> fst (SPI_page_program fd (sdk_flashchip fd) a src n d)"
    and program_mem: "a mod page_size (sdk_flashchip fd) + n \<le> page_size (sdk_flashchip fd) \<Longrightarrow>
        a + n \<le> chip_size (sdk_flashchip fd) \<Longrightarrow>
        mem (snd (SPI_page_program fd (sdk_flashchip fd) a src n d)) = nor_write a src n (mem d)"
    and read_ok: "a + n \<le> chip_size (sdk_flashchip fd) \<Longrightarrow>
        \<not> fst (SPI_read_data fd (sdk_flashchip fd) a n d)"
    and read_bytes: "a + n \<le> chip_size (sdk_flashchip fd) \<Longrightarrow>
        fst (snd (SPI_read_data fd (sdk_flashchip fd) a n d)) = bytes_at (mem d) a n"
    and read_mem: "mem (snd (snd (SPI_read_data fd (sdk_flashchip fd) a n d))) = mem d"
    and enable_ok: "\<not> fst (SPI_write_enable fd (sdk_flashchip fd) d)"
    and enable_wel: "wel (snd (SPI_write_enable fd (sdk_flashchip fd) d))"
    and enable_mem: "mem (snd (SPI_write_enable fd (sdk_flashchip fd) d)) = mem d"
    and erase_ok: "wel d \<Longrightarrow> sector_size (sdk_flashchip fd) dvd a \<Longrightarrow>
        a + sector_size (sdk_flashchip fd) \<le> chip_size (sdk_flashchip fd) \<Longrightarrow>
        \<not> fst (SPI_sector_erase fd (sdk_flashchip fd) a d)"
    and erase_mem: "wel d \<Longrightarrow> sector_size (sdk_flashchip fd) dvd a \<Longrightarrow>
        a + sector_size (sdk_flashchip fd) \<le> chip_size (sdk_flashchip fd) \<Longrightarrow>
        mem (snd (SPI_sector_erase fd (sdk_flashchip fd) a d)) =
          nor_erase a (sector_size (sdk_flashchip fd)) (mem d)"
    and disable_mem: "mem (Cache_Read_Disable fd d) = mem d"
    and cache_mem: "mem (Cache_Read_Enable fd x y z d) = mem d"

text \<open>What the clients of this layer rely on: reads return the array, a write of any length to a
  word-aligned address programs the bytes up to the next word boundary, an erase clears one
  sector.\<close>

locale flash_io =
  fixes rd :: "nat \<Rightarrow> nat \<Rightarrow> 'd \<Rightarrow> sdk_SpiFlashOpResult \<times> byte list \<times> 'd"
    and wr :: "nat \<Rightarrow> cptr \<Rightarrow> nat \<Rightarrow> 'd \<Rightarrow> sdk_SpiFlashOpResult \<times> 'd"
    and er :: "nat \<Rightarrow> 'd \<Rightarrow> sdk_SpiFlashOpResult \<times> 'd"
    and mem :: "'d \<Rightarrow> cptr"
    and csize :: nat
    and ssize :: nat
  assumes rd_ok: "a + n \<le> csize \<Longrightarrow> fst (rd a n d) = SPI_FLASH_RESULT_OK"
    and rd_bytes: "a + n \<le> csize \<Longrightarrow> fst (snd (rd a n d)) = bytes_at (mem d) a n"
    and rd_mem: "mem (snd (snd (rd a n d))) = mem d"
    and wr_ok: "4 dvd a \<Longrightarrow> a + round4 n \<le> csize \<Longrightarrow> fst (wr a src n d) = SPI_FLASH_RESULT_OK"
    and wr_mem: "4 dvd a \<Longrightarrow> a + round4 n \<le> csize \<Longrightarrow>
        mem (snd (wr a src n d)) = nor_write a src (round4 n) (mem d)"
    and er_ok: "sec < csize div ssize \<Longrightarrow> fst (er sec d) = SPI_FLASH_RESULT_OK"
    and er_mem: "sec < csize div ssize \<Longrightarrow>
        mem (snd (er sec d)) = nor_erase (ssize * sec) ssize (mem d)"
begin

lemma read_back:
  assumes "4 dvd a" and "a + round4 n \<le> csize" and "erased (mem d) a n"
  shows "fst (snd (rd a n (snd (wr a src n d)))) = map src [0..<n]"
proof -
  have "a + n \<le> csize" using assms(2) round4_ge(1)[of n] by linarith
  moreover have "bytes_at (nor_write a src (round4 n) (mem d)) a n = map src [0..<n]"
    using assms(3) round4_ge(1)[of n]
    by (intro nth_equalityI) (auto simp: nor_write_def erased_def)
  ultimately show ?thesis
    using assms by (simp add: rd_bytes wr_mem)
qed

lemma clears_only:
  assumes "4 dvd a" and "a + round4 n \<le> csize"
  shows "mem (snd (wr a src n d)) i AND mem d i = mem (snd (wr a src n d)) i"
  using assms by (simp add: wr_mem nor_write_def and.assoc)
    (metis and.commute and.left_commute and.idem)

end

context nor_rom
begin

lemma no_wrap: "x \<le> chip_size (sdk_flashchip fd) \<Longrightarrow> u32 x = x"
  using chip_24bit by (auto intro: u32_small)

lemma SPIWrite_pages_mem:
  assumes "page_size (sdk_flashchip fd) dvd des + pos" and "4 dvd pos"
    and "des + pos + k * page_size (sdk_flashchip fd) \<le> chip_size (sdk_flashchip fd)"
    and "mem d = nor_write des src pos m"
  shows "\<not> fst (SPIWrite_pages fd des src k pos d)
    \<and> fst (snd (SPIWrite_pages fd des src k pos d)) = pos + k * page_size (sdk_flashchip fd)
    \<and> mem (snd (snd (SPIWrite_pages fd des src k pos d))) =
        nor_write des src (pos + k * page_size (sdk_flashchip fd)) m"
  using assms
proof (induction k arbitrary: pos d)
  case 0
  then show ?case by simp
next
  case (Suc k)
  let ?c = "sdk_flashchip fd"
  let ?p = "page_size ?c"
  let ?pp = "SPI_page_program fd ?c (des + pos) (\<lambda>i. src (pos + i)) ?p d"
  have fit: "des + pos + ?p \<le> chip_size ?c" using Suc.prems(3) by simp
  have pos4: "4 * (pos div 4) = pos" using Suc.prems(2) by simp
  have al: "(des + pos) mod ?p + ?p \<le> ?p" using Suc.prems(1) by simp
  have w: "u32 (des + pos) = des + pos" "u32 (pos + ?p) = pos + ?p"
    using fit by (auto intro: no_wrap)
  have ok: "\<not> fst ?pp" and m': "mem (snd ?pp) = nor_write des src (pos + ?p) m"
    using program_ok[OF al fit] program_mem[OF al fit] Suc.prems(4)
    by (auto simp: nor_write_append)
  have "?p dvd des + (pos + ?p)" using Suc.prems(1) by (simp add: add.assoc[symmetric])
  moreover have "4 dvd pos + ?p" using Suc.prems(2) page_words by simp
  moreover have "des + (pos + ?p) + k * ?p \<le> chip_size ?c" using Suc.prems(3) by simp
  ultimately have "\<not> fst (SPIWrite_pages fd des src k (pos + ?p) (snd ?pp))
      \<and> fst (snd (SPIWrite_pages fd des src k (pos + ?p) (snd ?pp))) = pos + ?p + k * ?p
      \<and> mem (snd (snd (SPIWrite_pages fd des src k (pos + ?p) (snd ?pp)))) =
          nor_write des src (pos + ?p + k * ?p) m"
    by (rule Suc.IH) (rule m')
  moreover have "SPIWrite_pages fd des src (Suc k) pos d =
      SPIWrite_pages fd des src k (pos + ?p) (snd ?pp)"
    using ok by (simp add: w pos4 split_beta Let_def)
  ultimately show ?case by (simp add: add.assoc)
qed

lemma SPIWrite_linear:
  assumes al: "4 dvd a" and n4: "4 dvd n" and fit: "a + n \<le> chip_size (sdk_flashchip fd)"
  shows "fst (sdk_SPIWrite fd a src n d) = SPI_FLASH_RESULT_OK"
    and "mem (snd (sdk_SPIWrite fd a src n d)) = nor_write a src n (mem d)"
proof -
  let ?c = "sdk_flashchip fd"
  let ?p = "page_size ?c"
  let ?f = "?p - a mod ?p"
  have modp: "a mod ?p < ?p" using page_pos by simp
  have wf: "u32 (a + n) = a + n" using fit by (rule no_wrap)
  have both: "fst (sdk_SPIWrite fd a src n d) = SPI_FLASH_RESULT_OK
      \<and> mem (snd (sdk_SPIWrite fd a src n d)) = nor_write a src n (mem d)"
  proof (cases "n < ?f")
    case True
    then have "a mod ?p + n \<le> ?p" by linarith
    from program_ok[OF this fit] program_mem[OF this fit] True fit wf show ?thesis
      by (simp add: sdk_SPIWrite_def Let_def split_beta)
  next
    case False
    define f where "f = ?p - a mod ?p"
    define k where "k = (n - f) div ?p"
    define q where "q = f + k * ?p"
    let ?d1 = "snd (SPI_page_program fd ?c a src f d)"
    let ?r = "SPIWrite_pages fd a src k f ?d1"
    have fn: "f \<le> n" using False by (simp add: f_def)
    have f1: "a mod ?p + f \<le> ?p" using modp by (simp add: f_def)
    have f2: "a + f \<le> chip_size ?c" using fn fit by linarith
    note first = program_ok[OF f1 f2, of src d] program_mem[OF f1 f2, of src d]
    have qn: "q \<le> n" and rest: "n - q < ?p"
      using fn page_pos div_mult_mod_eq[of "n - f" ?p] mod_less_divisor[of ?p "n - f"]
      unfolding q_def k_def by linarith+
    have "a + f = ?p * (a div ?p) + ?p"
      using modp mult_div_mod_eq[of ?p a] unfolding f_def by linarith
    then have dv: "?p dvd a + f" by (simp add: dvd_add_right_iff)
    have f4: "4 dvd f"
      using dvd_mod[OF al page_words] page_words by (simp add: dvd_diff_nat f_def)
    have fitq: "a + f + k * ?p \<le> chip_size ?c" using qn fit by (simp add: q_def)
    have r: "\<not> fst ?r" "fst (snd ?r) = q" "mem (snd (snd ?r)) = nor_write a src q (mem d)"
      using SPIWrite_pages_mem[OF dv f4 fitq first(2)] by (auto simp: q_def)
    have q4: "4 * (q div 4) = q" using f4 page_words by (simp add: q_def)
    have "?p dvd a + q" using dv by (simp add: q_def add.assoc[symmetric])
    then have "(a + q) mod ?p = 0" by (rule dvd_imp_mod_0)
    with rest have l1: "(a + q) mod ?p + (n - q) \<le> ?p" by linarith
    have l2: "a + q + (n - q) \<le> chip_size ?c" using qn fit by linarith
    note last = program_ok[OF l1 l2, of "\<lambda>i. src (q + i)" "snd (snd ?r)"]
      program_mem[OF l1 l2, of "\<lambda>i. src (q + i)" "snd (snd ?r)"]
    have n32: "n < 4294967296" using fit chip_24bit by simp
    have sf: "sub32 n f = n - f" and sq: "sub32 n q = n - q"
      using fn qn n32 by (auto intro: sub32_small)
    have wq: "u32 (a + q) = a + q" using l2 by (intro no_wrap) linarith
    have "sdk_SPIWrite fd a src n d =
        (if fst (SPI_page_program fd ?c (a + q) (\<lambda>i. src (q + i)) (n - q) (snd (snd ?r)))
         then SPI_FLASH_RESULT_ERR else SPI_FLASH_RESULT_OK,
         snd (SPI_page_program fd ?c (a + q) (\<lambda>i. src (q + i)) (n - q) (snd (snd ?r))))"
      unfolding sdk_SPIWrite_def Let_def split_beta f_def[symmetric] sf k_def[symmetric]
      using fn fit first r by (simp add: wf wq sq q4 not_less)
    with last r qn show ?thesis by (simp add: nor_write_append)
  qed
  from both show "fst (sdk_SPIWrite fd a src n d) = SPI_FLASH_RESULT_OK"
    and "mem (snd (sdk_SPIWrite fd a src n d)) = nor_write a src n (mem d)" by auto
qed

lemma erase_sector:
  assumes "sec < chip_size (sdk_flashchip fd) div sector_size (sdk_flashchip fd)"
  shows "fst (sdk_SPIEraseSector fd sec d) = SPI_FLASH_RESULT_OK"
    and "mem (snd (sdk_SPIEraseSector fd sec d)) =
      nor_erase (sector_size (sdk_flashchip fd) * sec) (sector_size (sdk_flashchip fd)) (mem d)"
proof -
  let ?c = "sdk_flashchip fd"
  have "Suc sec \<le> chip_size ?c div sector_size ?c" using assms by simp
  then have "Suc sec * sector_size ?c \<le> chip_size ?c"
    using sector_pos by (simp add: less_eq_div_iff_mult_less_eq)
  then have fit: "sector_size ?c * sec + sector_size ?c \<le> chip_size ?c"
    by (simp add: mult.commute)
  then have w: "u32 (sector_size ?c * sec) = sector_size ?c * sec" by (intro no_wrap) linarith
  have "sector_size ?c dvd sector_size ?c * sec" by simp
  note e = erase_ok[OF enable_wel this fit] erase_mem[OF enable_wel this fit]
  from assms e show "fst (sdk_SPIEraseSector fd sec d) = SPI_FLASH_RESULT_OK"
    by (simp add: sdk_SPIEraseSector_def Let_def split_beta enable_ok w)
  from assms e show "mem (snd (sdk_SPIEraseSector fd sec d)) =
      nor_erase (sector_size ?c * sec) (sector_size ?c) (mem d)"
    by (simp add: sdk_SPIEraseSector_def Let_def split_beta enable_ok enable_mem w)
qed

end

lemma round_size: "n \<le> 2 ^ 24 \<Longrightarrow>
  (if n mod 4 \<noteq> 0 then u32 (4 * (n div 4) + 4) else n) = round4 n"
proof -
  assume n: "n \<le> 2 ^ 24"
  have "4 * (n div 4) + 4 < 4294967296" using n by simp
  moreover have "n mod 4 \<noteq> 0 \<Longrightarrow> round4 n = 4 * (n div 4) + 4"
    unfolding round4_def by presburger
  ultimately show ?thesis by (auto simp: u32_small)
qed

lemma sdk_spi_flash_write_round:
  "n \<le> 2 ^ 24 \<Longrightarrow> sdk_spi_flash_write fd a (Some src) n d =
     map_prod id (Cache_Read_Enable fd 0 0 1)
       (sdk_SPIWrite fd a src (round4 n) (Cache_Read_Disable fd d))"
  unfolding sdk_spi_flash_write_def Let_def option.case
  by (simp only: round_size) (simp add: split_beta map_prod_def)

sublocale nor_rom \<subseteq> io: flash_io
  "\<lambda>a n. sdk_spi_flash_read fd a False n" "\<lambda>a src. sdk_spi_flash_write fd a (Some src)"
  "sdk_spi_flash_erase_sector fd" mem "chip_size (sdk_flashchip fd)" "sector_size (sdk_flashchip fd)"
proof (unfold_locales, goal_cases)
  case (1 a n d)
  then show ?case
    by (simp add: sdk_spi_flash_read_def sdk_SPIRead_def split_beta read_ok)
next
  case (2 a n d)
  then show ?case
    by (simp add: sdk_spi_flash_read_def sdk_SPIRead_def split_beta read_bytes disable_mem)
next
  case (3 a n d)
  then show ?case
    by (simp add: sdk_spi_flash_read_def sdk_SPIRead_def split_beta read_mem disable_mem cache_mem)
next
  case (4 a n src d)
  then have "n \<le> 2 ^ 24" using chip_24bit round4_ge(1)[of n] by linarith
  with SPIWrite_linear(1)[OF 4(1) round4_ge(3) 4(2)] show ?case
    by (simp add: sdk_spi_flash_write_round)
next
  case (5 a n src d)
  then have "n \<le> 2 ^ 24" using chip_24bit round4_ge(1)[of n] by linarith
  with SPIWrite_linear(2)[OF 5(1) round4_ge(3) 5(2)] show ?case
    by (simp add: sdk_spi_flash_write_round cache_mem disable_mem)
next
  case (6 sec d)
  then show ?case by (simp add: sdk_spi_flash_erase_sector_def split_beta erase_sector)
next
  case (7 sec d)
  then show ?case
    by (simp add: sdk_spi_flash_erase_sector_def split_beta erase_sector cache_mem disable_mem)
qed

lemma sim_mem_program:
  "sim_mem (map (\<lambda>i. (i, sim_mem d i AND src (i - a))) [a..<a + n] @ d) = nor_write a src n (sim_mem d)"
proof
  fix i
  have "map_of (map (\<lambda>i. (i, sim_mem d i AND src (i - a))) [a..<a + n]) i =
      (if a \<le> i \<and> i < a + n then Some (sim_mem d i AND src (i - a)) else None)"
    by (auto simp: map_of_map_restrict[of "\<lambda>i. sim_mem d i AND src (i - a)"] restrict_map_def)
  then show "sim_mem (map (\<lambda>i. (i, sim_mem d i AND src (i - a))) [a..<a + n] @ d) i =
      nor_write a src n (sim_mem d) i"
    by (auto simp: sim_mem_def nor_write_def map_add_def split: option.splits)
qed

lemma sim_mem_erase:
  "sim_mem (filter (\<lambda>(i, _). \<not> (a \<le> i \<and> i < a + n)) d) = nor_erase a n (sim_mem d)"
proof
  fix i
  have "map_of (filter (\<lambda>(i, _). \<not> (a \<le> i \<and> i < a + n)) d) i =
      (if a \<le> i \<and> i < a + n then None else map_of d i)"
    by (induction d) auto
  then show "sim_mem (filter (\<lambda>(i, _). \<not> (a \<le> i \<and> i < a + n)) d) i = nor_erase a n (sim_mem d) i"
    by (simp add: sim_mem_def nor_erase_def)
qed

interpretation sim: nor_rom sim_flash sim_mem "\<lambda>_. True"
  by unfold_locales
    (simp_all add: sim_flash_def sdk_flashchip_init_def sim_mem_program bytes_at_def
      sim_mem_erase[of _ 4096, simplified])

section \<open>Properties\<close>

context nor_rom
begin

lemma spi_flash_contract:
  assumes "4 dvd a" and "a + round4 n \<le> chip_size (sdk_flashchip fd)"
  shows "fst (sdk_spi_flash_write fd a (Some src) n d) = SPI_FLASH_RESULT_OK
    \<and> mem (snd (sdk_spi_flash_write fd a (Some src) n d)) = nor_write a src (round4 n) (mem d)"
  using io.wr_ok[OF assms] io.wr_mem[OF assms] by simp

lemma spi_flash_read_back:
  assumes "sec < chip_size (sdk_flashchip fd) div sector_size (sdk_flashchip fd)"
    and "n \<le> sector_size (sdk_flashchip fd)"
  shows "fst (snd (sdk_spi_flash_read fd (sector_size (sdk_flashchip fd) * sec) False n
      (snd (sdk_spi_flash_write fd (sector_size (sdk_flashchip fd) * sec) (Some src) n
        (snd (sdk_spi_flash_erase_sector fd sec d)))))) = map src [0..<n]"
proof (rule io.read_back)
  let ?s = "sector_size (sdk_flashchip fd)"
  show "4 dvd ?s * sec" using sector_words by simp
  have "round4 n \<le> ?s" using assms(2) sector_words unfolding round4_def by presburger
  moreover have "Suc sec * ?s \<le> chip_size (sdk_flashchip fd)"
    using assms(1) sector_pos by (simp add: less_eq_div_iff_mult_less_eq flip: Suc_le_eq)
  ultimately show "?s * sec + round4 n \<le> chip_size (sdk_flashchip fd)" by (simp add: mult.commute)
  show "erased (mem (snd (sdk_spi_flash_erase_sector fd sec d))) (?s * sec) n"
    using assms(2) by (simp add: io.er_mem[OF assms(1)] erased_def nor_erase_def)
qed

end

text \<open>C18: \<open>sdk_spi_flash_write\<close>, with its rounding to words and its splitting into page programs, is one
  linear write: on a word-aligned address inside the chip it succeeds, and the flash array is
  the old one with exactly the rounded range programmed (bits cleared) and nothing else changed.\<close>

theorem spi_flash_write_linear:
  assumes "nor_rom fd mem wel" and "4 dvd a" and "a + round4 n \<le> chip_size (sdk_flashchip fd)"
  shows "fst (sdk_spi_flash_write fd a (Some src) n d) = SPI_FLASH_RESULT_OK
    \<and> mem (snd (sdk_spi_flash_write fd a (Some src) n d)) = nor_write a src (round4 n) (mem d)"
  using assms by (rule nor_rom.spi_flash_contract)

theorem spi_flash_write_linear_witness:
  "sim_mem (snd (sdk_spi_flash_write sim_flash 252 (Some (\<lambda>i. word_of_nat i)) 7 [])) =
     nor_write 252 (\<lambda>i. word_of_nat i) 8 (\<lambda>_. 255)"
proof -
  have "round4 7 = 8" by (simp add: round4_def)
  moreover have "sim_mem [] = (\<lambda>_. 255)" by (rule ext) (simp add: sim_mem_def)
  ultimately show ?thesis
    using spi_flash_write_linear[OF sim.nor_rom_axioms, of 252 7 "\<lambda>i. word_of_nat i" "[]"]
    by (simp add: sim_flash_def sdk_flashchip_init_def)
qed

text \<open>erasing a sector, writing up to a sector of data to its start and reading it back gives the
  data, for every length (not only multiples of the word or page size).\<close>

theorem erase_write_read:
  assumes "nor_rom fd mem wel"
    and "sec < chip_size (sdk_flashchip fd) div sector_size (sdk_flashchip fd)"
    and "n \<le> sector_size (sdk_flashchip fd)"
  shows "fst (snd (sdk_spi_flash_read fd (sector_size (sdk_flashchip fd) * sec) False n
      (snd (sdk_spi_flash_write fd (sector_size (sdk_flashchip fd) * sec) (Some src) n
        (snd (sdk_spi_flash_erase_sector fd sec d)))))) = map src [0..<n]"
  using assms by (rule nor_rom.spi_flash_read_back)

theorem erase_write_read_witness:
  "fst (snd (sdk_spi_flash_read sim_flash 8192 False 5
      (snd (sdk_spi_flash_write sim_flash 8192 (Some (\<lambda>i. word_of_nat (i + 1))) 5
        (snd (sdk_spi_flash_erase_sector sim_flash 2 [(8193, 0)])))))) = map (\<lambda>i. word_of_nat (i + 1)) [0..<5]"
proof -
  have s: "sector_size (sdk_flashchip sim_flash) = 4096" "chip_size (sdk_flashchip sim_flash) = 4194304"
    by (simp_all add: sim_flash_def sdk_flashchip_init_def)
  have "4096 * 2 = (8192 :: nat)" by simp
  with erase_write_read[OF sim.nor_rom_axioms, of 2 5 "\<lambda>i. word_of_nat (i + 1)" "[(8193, 0)]", unfolded s]
  show ?thesis by simp
qed

end
