(* ===== verification/CString.thy ===== *)
theory CString
  imports Prelude
begin

text \<open>
  The C library routines on zero-terminated strings that the code calls: \<^verbatim>\<open>strlen\<close> (the length of
  the list), \<^verbatim>\<open>strcasecmp\<close>, \<^verbatim>\<open>strtol\<close> with base 0 and \<^verbatim>\<open>snprintf "%d"\<close>. A string is the list of
  its bytes without the terminator. \<^verbatim>\<open>long\<close> has 32 bits on the target.
\<close>

definition cstr :: "byte list \<Rightarrow> byte list" where
  "cstr buf = takeWhile (\<lambda>b. b \<noteq> 0) buf"

definition isspace :: "byte \<Rightarrow> bool" where
  "isspace c \<longleftrightarrow> c = 32 \<or> (9 \<le> c \<and> c \<le> 13)"

definition tolower :: "byte \<Rightarrow> byte" where
  "tolower c = (if 65 \<le> c \<and> c \<le> 90 then c + 32 else c)"

definition strcaseeq :: "byte list \<Rightarrow> byte list \<Rightarrow> bool" where
  "strcaseeq s t \<longleftrightarrow> map tolower s = map tolower t"

definition digit_val :: "byte \<Rightarrow> nat option" where
  "digit_val c =
     (if 48 \<le> c \<and> c \<le> 57 then Some (unat c - 48)
      else if 65 \<le> c \<and> c \<le> 90 then Some (unat c - 55)
      else if 97 \<le> c \<and> c \<le> 122 then Some (unat c - 87)
      else None)"

fun scan_digits :: "nat \<Rightarrow> nat \<Rightarrow> bool \<Rightarrow> byte list \<Rightarrow> nat \<times> bool \<times> byte list" where
  "scan_digits base acc any [] = (acc, any, [])"
| "scan_digits base acc any (c # cs) =
     (case digit_val c of
        None \<Rightarrow> (acc, any, c # cs)
      | Some v \<Rightarrow>
          if v < base then scan_digits base (acc * base + v) True cs else (acc, any, c # cs))"

definition strtol_sign :: "byte list \<Rightarrow> bool \<times> byte list" where
  "strtol_sign s =
     (case s of
        [] \<Rightarrow> (False, [])
      | c # r \<Rightarrow> if c = 45 then (True, r) else if c = 43 then (False, r) else (False, s))"

definition strtol_base :: "byte list \<Rightarrow> nat \<times> byte list" where
  "strtol_base s =
     (case s of
        [] \<Rightarrow> (10, s)
      | c # r \<Rightarrow>
          if c = 48 then
            (case r of
               x # r' \<Rightarrow> if x = 120 \<or> x = 88 then (16, r') else (8, s)
             | [] \<Rightarrow> (8, s))
          else (10, s))"

text \<open>The value and the rest of the string that \<^verbatim>\<open>endptr\<close> points to.\<close>

definition strtol :: "byte list \<Rightarrow> int \<times> byte list" where
  "strtol s =
     (case strtol_sign (dropWhile isspace s) of
        (neg, s1) \<Rightarrow>
          (case strtol_base s1 of
             (base, s2) \<Rightarrow>
               (case scan_digits base 0 False s2 of
                  (acc, any, rest) \<Rightarrow>
                    (if neg then (if acc > 2 ^ 31 then - (2 ^ 31) else - int acc)
                     else if acc > 2 ^ 31 - 1 then 2 ^ 31 - 1 else int acc,
                     if any then rest else s))))"

fun show_dec :: "nat \<Rightarrow> byte list" where
  "show_dec n =
     (if n < 10 then [word_of_nat (48 + n)]
      else show_dec (n div 10) @ [word_of_nat (48 + n mod 10)])"

declare show_dec.simps [simp del]

definition show_int :: "int \<Rightarrow> byte list" where
  "show_int v = (if v < 0 then 45 # show_dec (nat (- v)) else show_dec (nat v))"

section \<open>Printing and parsing agree\<close>

lemma unat_digit: "d < 10 \<Longrightarrow> unat (word_of_nat (48 + d) :: byte) = 48 + d"
  by (subst unat_of_nat) simp

lemma digit_val_digit [simp]: "d < 10 \<Longrightarrow> digit_val (word_of_nat (48 + d)) = Some d"
  using unat_digit[of d] by (simp add: digit_val_def word_le_nat_alt)

lemma scan_digits_show_dec:
  "scan_digits 10 acc any (show_dec n @ ys) =
     scan_digits 10 (acc * 10 ^ length (show_dec n) + n) True ys"
proof (induction n arbitrary: acc any ys rule: show_dec.induct)
  case (1 n)
  show ?case
  proof (cases "n < 10")
    case True
    then show ?thesis by (simp add: show_dec.simps[of n] del: of_nat_add)
  next
    case False
    have ar: "(acc * 10 ^ l + n div 10) * 10 + n mod 10 = acc * (10 * 10 ^ l) + n" for l
      by (simp add: algebra_simps)
    have "scan_digits 10 acc any (show_dec n @ ys) =
        scan_digits 10 acc any (show_dec (n div 10) @ (word_of_nat (48 + n mod 10) # ys))"
      using False by (simp add: show_dec.simps[of n] del: of_nat_add)
    also have "\<dots> = scan_digits 10 ((acc * 10 ^ length (show_dec (n div 10)) + n div 10) * 10 + n mod 10) True ys"
      using 1[OF False] by (simp del: of_nat_add)
    finally show ?thesis
      using False by (simp only: ar) (simp add: show_dec.simps[of n])
  qed
qed

lemma show_dec_head:
  "\<exists>d r. show_dec n = word_of_nat (48 + d) # r \<and> d < 10 \<and> (0 < n \<longrightarrow> 0 < d) \<and> (n = 0 \<longrightarrow> r = [])"
proof (induction n rule: show_dec.induct)
  case (1 n)
  show ?case
  proof (cases "n < 10")
    case True
    then show ?thesis by (subst show_dec.simps) (auto intro!: exI[of _ n])
  next
    case False
    obtain d r where "show_dec (n div 10) = word_of_nat (48 + d) # r" "d < 10"
      "0 < n div 10 \<longrightarrow> 0 < d" using 1[OF False] by metis
    with False show ?thesis
      by (subst show_dec.simps) (auto intro!: exI[of _ d] simp: div_greater_zero_iff)
  qed
qed

lemma digit_char:
  assumes "d < 10"
  shows "\<not> isspace (word_of_nat (48 + d))" "word_of_nat (48 + d) \<noteq> (45 :: byte)"
    "word_of_nat (48 + d) \<noteq> (43 :: byte)" "0 < d \<Longrightarrow> word_of_nat (48 + d) \<noteq> (48 :: byte)"
    "word_of_nat (48 + d) \<noteq> (0 :: byte)"
  using unat_digit[OF assms]
  by (auto simp: isspace_def word_le_nat_alt word_unat_eq_iff simp del: of_nat_add)

lemma isspace_minus [simp]: "\<not> isspace 45"
  by (simp add: isspace_def)

lemma strtol_unsigned:
  "strtol_base (show_dec n) = (b, s) \<Longrightarrow> scan_digits b 0 False s = (n, True, [])"
proof (cases "n = 0")
  case True
  assume "strtol_base (show_dec n) = (b, s)"
  then show ?thesis
    using True by (auto simp: strtol_base_def show_dec.simps[of 0] digit_val_def)
next
  case False
  assume b: "strtol_base (show_dec n) = (b, s)"
  obtain d r where "show_dec n = word_of_nat (48 + d) # r" "d < 10" "0 < d"
    using show_dec_head[of n] False by auto
  with b have "b = 10" "s = show_dec n"
    by (auto simp: strtol_base_def digit_char simp del: of_nat_add)
  then show ?thesis using scan_digits_show_dec[of 0 False n "[]"] by simp
qed

lemma strtol_show_int:
  assumes "- (2 ^ 31) \<le> v" and "v < 2 ^ 31"
  shows "strtol (show_int v) = (v, [])"
proof -
  let ?n = "nat \<bar>v\<bar>"
  obtain d r where h: "show_dec ?n = word_of_nat (48 + d) # r" "d < 10"
    using show_dec_head[of ?n] by blast
  obtain b s where b: "strtol_base (show_dec ?n) = (b, s)" by fastforce
  have sg: "strtol_sign (dropWhile isspace (show_int v)) = (v < 0, show_dec ?n)"
    using h by (auto simp: show_int_def strtol_sign_def digit_char isspace_minus simp del: of_nat_add)
  show ?thesis
    using assms b strtol_unsigned[OF b] sg by (auto simp: strtol_def)
qed

lemma show_dec_no_nul: "0 \<notin> set (show_dec n)"
proof (induction n rule: show_dec.induct)
  case (1 n)
  then show ?case
    by (subst show_dec.simps) (auto simp: digit_char(5)[symmetric] simp del: of_nat_add dest: sym)
qed

lemma cstr_terminated: "0 \<notin> set s \<Longrightarrow> cstr (s @ 0 # r) = s"
  by (induction s) (auto simp: cstr_def)

lemma show_int_nonempty [simp]: "show_int v \<noteq> []"
  using show_dec_head[of "nat (- v)"] show_dec_head[of "nat v"] by (auto simp: show_int_def)

lemma show_dec_length: "n < 10 ^ k \<Longrightarrow> 0 < k \<Longrightarrow> length (show_dec n) \<le> k"
proof (induction k arbitrary: n)
  case (Suc k)
  show ?case
  proof (cases "n < 10")
    case True
    then show ?thesis by (simp add: show_dec.simps[of n])
  next
    case False
    then have "0 < k" using Suc.prems(1) by (cases k) auto
    moreover have "n div 10 < 10 ^ k" using Suc.prems(1) by (simp add: less_mult_imp_div_less)
    ultimately show ?thesis using False Suc.IH by (simp add: show_dec.simps[of n])
  qed
qed simp

lemma show_int_length:
  assumes "- (2 ^ 31) \<le> v" and "v < 2 ^ 31"
  shows "length (show_int v) \<le> 11"
proof -
  have "nat v < 10 ^ 10" "nat (- v) < 10 ^ 10" using assms by (simp_all add: nat_less_iff)
  then show ?thesis
    using show_dec_length[of "nat v" 10] show_dec_length[of "nat (- v)" 10] by (auto simp: show_int_def)
qed

end
