(* ===== verification/Sysparam.thy ===== *)
theory Sysparam
  imports SpiFlash CString
begin

text \<open>
  The persistent parameter store, \<^verbatim>\<open>src/core/sysparam.c\<close>: data, operations and their
  composition, function by function. Values of the C code appear as follows.

  \<^item> The world \<open>spworld\<close> holds the flash device, the static \<^verbatim>\<open>_sysparam_info\<close>, the outcomes
    of the coming allocations (\<open>w_mallocs\<close>, consumed one per call; an exhausted list means
    success), the number of live heap blocks, the depth of the mutex, and the bytes that happen
    to follow a source buffer in memory (\<open>w_junk\<close>): a flash write is rounded up to a word, so it
    reads up to three of them.
  \<^item> A function that loops until it meets an entry takes fuel and returns \<^const>\<open>None\<close> when it
    runs out; \<open>Sysparam_Log\<close> shows how much is enough.
  \<^item> Status codes keep the numeric values of the header, so that \<^verbatim>\<open>status < 0\<close> reads as in C.
  \<^item> Debug output (compiled out, \<^verbatim>\<open>SYSPARAM_DEBUG\<close> is 0) is left out.
\<close>

section \<open>Constants and layout\<close>

definition SYSPARAM_MAGIC :: "32 word" where "SYSPARAM_MAGIC = 0x70524f45"
definition DEFAULT_ITER_BUF_SIZE :: nat where "DEFAULT_ITER_BUF_SIZE = 64"
definition SCAN_BUFFER_SIZE :: nat where "SCAN_BUFFER_SIZE = 8"
definition VERIFY_BUF_SIZE :: nat where "VERIFY_BUF_SIZE = 64"
definition REGION_HEADER_SIZE :: nat where "REGION_HEADER_SIZE = 8"
definition ENTRY_HEADER_SIZE :: nat where "ENTRY_HEADER_SIZE = 4"
definition MAX_KEY_LEN :: nat where "MAX_KEY_LEN = 0xffff"
definition MAX_VALUE_LEN :: nat where "MAX_VALUE_LEN = 0xffff"
definition MAX_KEY_ID :: "16 word" where "MAX_KEY_ID = 0x0ffe"
definition REGION_FLAG_SECOND :: "16 word" where "REGION_FLAG_SECOND = 0x8000"
definition REGION_FLAG_ACTIVE :: "16 word" where "REGION_FLAG_ACTIVE = 0x4000"
definition REGION_MASK_SIZE :: "16 word" where "REGION_MASK_SIZE = 0x0fff"
definition ENTRY_FLAG_ALIVE :: "16 word" where "ENTRY_FLAG_ALIVE = 0x8000"
definition ENTRY_FLAG_INVALID :: "16 word" where "ENTRY_FLAG_INVALID = 0x4000"
definition ENTRY_FLAG_VALUE :: "16 word" where "ENTRY_FLAG_VALUE = 0x2000"
definition ENTRY_FLAG_BINARY :: "16 word" where "ENTRY_FLAG_BINARY = 0x1000"
definition ENTRY_MASK_ID :: "16 word" where "ENTRY_MASK_ID = 0xfff"
definition ENTRY_ID_END :: "16 word" where "ENTRY_ID_END = 0xfff"
definition ENTRY_ID_ANY :: "16 word" where "ENTRY_ID_ANY = 0x1000"

definition ROUND_TO_WORD_BOUNDARY :: "nat \<Rightarrow> nat" where
  "ROUND_TO_WORD_BOUNDARY x = 4 * (u32 (x + 3) div 4)"

definition ENTRY_SIZE :: "nat \<Rightarrow> nat" where
  "ENTRY_SIZE payload_len = u32 (ENTRY_HEADER_SIZE + ROUND_TO_WORD_BOUNDARY payload_len)"

datatype sysparam_status_t =
  SYSPARAM_OK | SYSPARAM_NOTFOUND | SYSPARAM_PARSEFAILED | SYSPARAM_ERR_NOINIT
| SYSPARAM_ERR_BADVALUE | SYSPARAM_ERR_FULL | SYSPARAM_ERR_IO | SYSPARAM_ERR_CORRUPT
| SYSPARAM_ERR_NOMEM

fun status_code :: "sysparam_status_t \<Rightarrow> int" where
  "status_code SYSPARAM_OK = 0"
| "status_code SYSPARAM_NOTFOUND = 1"
| "status_code SYSPARAM_PARSEFAILED = 2"
| "status_code SYSPARAM_ERR_NOINIT = -1"
| "status_code SYSPARAM_ERR_BADVALUE = -2"
| "status_code SYSPARAM_ERR_FULL = -3"
| "status_code SYSPARAM_ERR_IO = -4"
| "status_code SYSPARAM_ERR_CORRUPT = -5"
| "status_code SYSPARAM_ERR_NOMEM = -6"

record region_header =
  rh_magic :: "32 word"
  rh_flags_size :: "16 word"
  rh_reserved :: "16 word"

record entry_header =
  e_idflags :: "16 word"
  e_len :: "16 word"

record sysparam_context =
  ctx_addr :: nat
  ctx_entry :: entry_header
  ctx_unused_keys :: int
  ctx_compactable :: nat
  ctx_max_key_id :: "16 word"

record sysparam_info =
  cur_base :: nat
  alt_base :: nat
  end_addr :: nat
  region_size :: nat
  force_compact :: bool
  sem :: bool

record sysparam_iter_t =
  it_key :: "byte list"
  it_value :: "byte list"
  it_key_len :: nat
  it_value_len :: nat
  it_binary :: bool
  it_bufsize :: nat
  it_ctx :: sysparam_context

record 'd spworld =
  w_flash :: 'd
  w_info :: sysparam_info
  w_mallocs :: "bool list"
  w_allocs :: int
  w_sem :: int
  w_junk :: cptr

definition zero_entry :: entry_header where
  "zero_entry = \<lparr>e_idflags = 0, e_len = 0\<rparr>"

definition zero_context :: sysparam_context where
  "zero_context = \<lparr>ctx_addr = 0, ctx_entry = zero_entry, ctx_unused_keys = 0,
     ctx_compactable = 0, ctx_max_key_id = 0\<rparr>"

definition zero_info :: sysparam_info where
  "zero_info = \<lparr>cur_base = 0, alt_base = 0, end_addr = 0, region_size = 0,
     force_compact = False, sem = False\<rparr>"

definition region_header_bytes :: "region_header \<Rightarrow> byte list" where
  "region_header_bytes h = le32 (rh_magic h) @ le16 (rh_flags_size h) @ le16 (rh_reserved h)"

definition entry_header_bytes :: "entry_header \<Rightarrow> byte list" where
  "entry_header_bytes e = le16 (e_idflags e) @ le16 (e_len e)"

text \<open>Reading a header into a struct variable: the bytes read replace the variable. (A read
  that fails part-way leaves what it had.)\<close>

definition region_header_of :: "byte list \<Rightarrow> region_header \<Rightarrow> region_header" where
  "region_header_of bs old =
     (case bs of
        [a, b, c, d, e, f, g, h] \<Rightarrow>
          \<lparr>rh_magic = of_le32 a b c d, rh_flags_size = of_le16 e f, rh_reserved = of_le16 g h\<rparr>
      | _ \<Rightarrow> old)"

definition entry_header_of :: "byte list \<Rightarrow> entry_header \<Rightarrow> entry_header" where
  "entry_header_of bs old =
     (case bs of
        [a, b, c, d] \<Rightarrow> \<lparr>e_idflags = of_le16 a b, e_len = of_le16 c d\<rparr>
      | _ \<Rightarrow> old)"

section \<open>Heap, mutex and flash calls\<close>

definition malloc :: "'d spworld \<Rightarrow> bool \<times> 'd spworld" where
  "malloc w =
     (case w_mallocs w of
        [] \<Rightarrow> (True, w\<lparr>w_allocs := w_allocs w + 1\<rparr>)
      | b # bs \<Rightarrow> (b, w\<lparr>w_mallocs := bs, w_allocs := w_allocs w + (if b then 1 else 0)\<rparr>))"

text \<open>\<^verbatim>\<open>realloc\<close> of a live block: on success the new block replaces the old one.\<close>

definition realloc :: "'d spworld \<Rightarrow> bool \<times> 'd spworld" where
  "realloc w =
     (case w_mallocs w of
        [] \<Rightarrow> (True, w)
      | b # bs \<Rightarrow> (b, w\<lparr>w_mallocs := bs\<rparr>))"

definition free :: "'d spworld \<Rightarrow> 'd spworld" where
  "free w = w\<lparr>w_allocs := w_allocs w - 1\<rparr>"

definition flash_read ::
  "'d flashdev \<Rightarrow> nat \<Rightarrow> nat \<Rightarrow> 'd spworld \<Rightarrow> sdk_SpiFlashOpResult \<times> byte list \<times> 'd spworld" where
  "flash_read fd a n w =
     (case sdk_spi_flash_read fd a False n (w_flash w) of
        (r, bs, d) \<Rightarrow> (r, bs, w\<lparr>w_flash := d\<rparr>))"

definition flash_write ::
  "'d flashdev \<Rightarrow> nat \<Rightarrow> cptr \<Rightarrow> nat \<Rightarrow> 'd spworld \<Rightarrow> sdk_SpiFlashOpResult \<times> 'd spworld" where
  "flash_write fd a src n w =
     (case sdk_spi_flash_write fd a (Some src) n (w_flash w) of
        (r, d) \<Rightarrow> (r, w\<lparr>w_flash := d\<rparr>))"

definition flash_erase ::
  "'d flashdev \<Rightarrow> nat \<Rightarrow> 'd spworld \<Rightarrow> sdk_SpiFlashOpResult \<times> 'd spworld" where
  "flash_erase fd sec w =
     (case sdk_spi_flash_erase_sector fd sec (w_flash w) of
        (r, d) \<Rightarrow> (r, w\<lparr>w_flash := d\<rparr>))"

abbreviation upd_info :: "(sysparam_info \<Rightarrow> sysparam_info) \<Rightarrow> 'd spworld \<Rightarrow> 'd spworld" where
  "upd_info f w \<equiv> w\<lparr>w_info := f (w_info w)\<rparr>"

section \<open>Internal routines\<close>

definition do_write ::
  "'d flashdev \<Rightarrow> nat \<Rightarrow> cptr \<Rightarrow> nat \<Rightarrow> 'd spworld \<Rightarrow> sysparam_status_t \<times> 'd spworld" where
  "do_write fd addr dat data_size w =
     (case flash_write fd addr dat data_size w of
        (r, w1) \<Rightarrow> (if r \<noteq> SPI_FLASH_RESULT_OK then SYSPARAM_ERR_IO else SYSPARAM_OK, w1))"

definition do_verify ::
  "'d flashdev \<Rightarrow> nat \<Rightarrow> cptr \<Rightarrow> nat \<Rightarrow> 'd spworld \<Rightarrow> sysparam_status_t \<times> 'd spworld" where
  "do_verify fd addr dat n w =
     (case flash_read fd addr n w of
        (r, buffer, w1) \<Rightarrow>
          if r \<noteq> SPI_FLASH_RESULT_OK then (SYSPARAM_ERR_IO, w1)
          else if map dat [0..<n] \<noteq> buffer then (SYSPARAM_ERR_IO, w1)
          else (SYSPARAM_OK, w1))"

function verify_loop ::
  "'d flashdev \<Rightarrow> nat \<Rightarrow> cptr \<Rightarrow> nat \<Rightarrow> nat \<Rightarrow> 'd spworld \<Rightarrow> sysparam_status_t \<times> 'd spworld" where
  "verify_loop fd addr dat data_size i w =
     (if i < data_size then
        (case do_verify fd (u32 (addr + i)) (\<lambda>j. dat (i + j))
                (min (data_size - i) VERIFY_BUF_SIZE) w of
           (status, w1) \<Rightarrow>
             if status \<noteq> SYSPARAM_OK then (status, w1)
             else verify_loop fd addr dat data_size (i + VERIFY_BUF_SIZE) w1)
      else (SYSPARAM_OK, w))"
  by pat_completeness auto
termination
  by (relation "measure (\<lambda>(fd, addr, dat, data_size, i, w). data_size - i)")
    (auto simp: VERIFY_BUF_SIZE_def)

definition write_and_verify ::
  "'d flashdev \<Rightarrow> nat \<Rightarrow> cptr \<Rightarrow> nat \<Rightarrow> 'd spworld \<Rightarrow> sysparam_status_t \<times> 'd spworld" where
  "write_and_verify fd addr dat data_size w =
     (case malloc w of
        (ok, w1) \<Rightarrow>
          if \<not> ok then (SYSPARAM_ERR_NOMEM, w1)
          else
            (case do_write fd addr dat data_size w1 of
               (status, w2) \<Rightarrow>
                 if status \<noteq> SYSPARAM_OK then (status, free w2)
                 else
                   (case verify_loop fd addr dat data_size 0 w2 of
                      (status, w3) \<Rightarrow> (status, free w3))))"

fun format_loop ::
  "'d flashdev \<Rightarrow> nat \<Rightarrow> nat \<Rightarrow> nat \<Rightarrow> 'd spworld \<Rightarrow> sysparam_status_t \<times> 'd spworld" where
  "format_loop fd sector i 0 w = (SYSPARAM_OK, w)"
| "format_loop fd sector i (Suc k) w =
     (case flash_erase fd (u16 (sector + i)) w of
        (r, w1) \<Rightarrow>
          if r \<noteq> SPI_FLASH_RESULT_OK then (SYSPARAM_ERR_IO, w1)
          else format_loop fd sector (Suc i) k w1)"

definition format_region ::
  "'d flashdev \<Rightarrow> nat \<Rightarrow> nat \<Rightarrow> 'd spworld \<Rightarrow> sysparam_status_t \<times> 'd spworld" where
  "format_region fd addr num_sectors w =
     format_loop fd (u16 (addr div sector_size (sdk_flashchip fd))) 0 num_sectors w"

definition region_flags :: "nat \<Rightarrow> nat \<Rightarrow> nat \<Rightarrow> bool \<Rightarrow> 16 word" where
  "region_flags ssz addr other active =
     (let flags_size =
        (if addr < other then word_of_nat ((other - addr) div ssz) AND REGION_MASK_SIZE
         else (word_of_nat ((addr - other) div ssz) AND REGION_MASK_SIZE) OR REGION_FLAG_SECOND)
      in if active then flags_size OR REGION_FLAG_ACTIVE else flags_size)"

definition write_region_header ::
  "'d flashdev \<Rightarrow> nat \<Rightarrow> nat \<Rightarrow> bool \<Rightarrow> 'd spworld \<Rightarrow> sysparam_status_t \<times> 'd spworld" where
  "write_region_header fd addr other active w =
     (let header = \<lparr>rh_magic = SYSPARAM_MAGIC,
                    rh_flags_size = region_flags (sector_size (sdk_flashchip fd)) addr other active,
                    rh_reserved = 0\<rparr> in
      case write_and_verify fd addr (cbuf (region_header_bytes header) (w_junk w)) REGION_HEADER_SIZE w of
        (status, w1) \<Rightarrow>
          if status \<noteq> SYSPARAM_OK then
            (case write_and_verify fd addr (cbuf (replicate 8 0) (w_junk w)) REGION_HEADER_SIZE w1 of
               (_, w2) \<Rightarrow> (SYSPARAM_ERR_IO, w2))
          else (SYSPARAM_OK, w1))"

definition init_context :: "'d spworld \<Rightarrow> sysparam_context" where
  "init_context w = zero_context\<lparr>ctx_addr := cur_base (w_info w)\<rparr>"

definition init_write_context ::
  "'d flashdev \<Rightarrow> 'd spworld \<Rightarrow> sysparam_status_t \<times> sysparam_context \<times> 'd spworld" where
  "init_write_context fd w =
     (let ctx = zero_context\<lparr>ctx_addr := end_addr (w_info w)\<rparr> in
      case flash_read fd (ctx_addr ctx) ENTRY_HEADER_SIZE w of
        (r, bs, w1) \<Rightarrow>
          (if r \<noteq> SPI_FLASH_RESULT_OK then SYSPARAM_ERR_IO else SYSPARAM_OK,
           ctx\<lparr>ctx_entry := entry_header_of bs (ctx_entry ctx)\<rparr>, w1))"

subsection \<open>Searching the log\<close>

text \<open>One pass of the loop of \<open>_find_entry\<close> in two halves: moving on to the next entry (the
  first result says that the loop breaks), and looking at the header just read.\<close>

definition find_entry_advance ::
  "sysparam_context \<Rightarrow> sysparam_info \<Rightarrow> bool \<times> sysparam_context \<times> sysparam_info" where
  "find_entry_advance ctx nfo =
     (if ctx_addr ctx = cur_base nfo then
        (False, ctx\<lparr>ctx_addr := u32 (ctx_addr ctx + REGION_HEADER_SIZE)\<rparr>, nfo)
      else
        let next_addr = u32 (ctx_addr ctx + ENTRY_SIZE (unat (e_len (ctx_entry ctx)))) in
        if next_addr > u32 (cur_base nfo + region_size nfo) then
          (True, ctx, nfo\<lparr>force_compact := True\<rparr>)
        else if next_addr = u32 (cur_base nfo + region_size nfo) then
          (True, ctx\<lparr>ctx_addr := next_addr\<rparr>, nfo)
        else (False, ctx\<lparr>ctx_addr := next_addr\<rparr>, nfo))"

definition find_entry_examine ::
  "sysparam_context \<Rightarrow> 16 word \<Rightarrow> bool \<Rightarrow> bool \<times> sysparam_context" where
  "find_entry_examine ctx match_id find_value =
     (let idflags = e_idflags (ctx_entry ctx);
          eid = idflags AND ENTRY_MASK_ID;
          matches = (eid = match_id \<or> match_id = ENTRY_ID_ANY) in
      if idflags AND (ENTRY_FLAG_ALIVE OR ENTRY_FLAG_INVALID) = ENTRY_FLAG_ALIVE then
        (if idflags AND ENTRY_FLAG_VALUE = 0 then
           (\<not> find_value \<and> matches,
            ctx\<lparr>ctx_max_key_id := eid, ctx_unused_keys := ctx_unused_keys ctx + 1\<rparr>)
         else
           (find_value \<and> matches, ctx\<lparr>ctx_unused_keys := ctx_unused_keys ctx - 1\<rparr>))
      else
        (False,
         ctx\<lparr>ctx_compactable :=
               u32 (ctx_compactable ctx + ENTRY_SIZE (unat (e_len (ctx_entry ctx))))\<rparr>))"

definition find_entry_exhausted ::
  "sysparam_context \<Rightarrow> 16 word \<Rightarrow> sysparam_status_t \<times> sysparam_context" where
  "find_entry_exhausted ctx match_id =
     (if match_id = ENTRY_ID_END then (SYSPARAM_OK, ctx)
      else (SYSPARAM_NOTFOUND, ctx\<lparr>ctx_entry := zero_entry\<rparr>))"

fun find_entry ::
  "nat \<Rightarrow> 'd flashdev \<Rightarrow> sysparam_context \<Rightarrow> 16 word \<Rightarrow> bool \<Rightarrow> 'd spworld \<Rightarrow>
     (sysparam_status_t \<times> sysparam_context \<times> 'd spworld) option" where
  "find_entry 0 fd ctx match_id find_value w = None"
| "find_entry (Suc fuel) fd ctx match_id find_value w =
     (case find_entry_advance ctx (w_info w) of
        (stop, ctx1, nfo) \<Rightarrow>
          let w1 = w\<lparr>w_info := nfo\<rparr> in
          if stop then
            (case find_entry_exhausted ctx1 match_id of (status, ctx2) \<Rightarrow> Some (status, ctx2, w1))
          else
            (case flash_read fd (ctx_addr ctx1) ENTRY_HEADER_SIZE w1 of
               (r, bs, w2) \<Rightarrow>
                 let ctx2 = ctx1\<lparr>ctx_entry := entry_header_of bs (ctx_entry ctx1)\<rparr> in
                 if r \<noteq> SPI_FLASH_RESULT_OK then Some (SYSPARAM_ERR_IO, ctx2, w2)
                 else if e_idflags (ctx_entry ctx2) = 0xffff then
                   (case find_entry_exhausted ctx2 match_id of
                      (status, ctx3) \<Rightarrow> Some (status, ctx3, w2))
                 else
                   (case find_entry_examine ctx2 match_id find_value of
                      (found, ctx3) \<Rightarrow>
                        if found then Some (SYSPARAM_OK, ctx3, w2)
                        else find_entry fuel fd ctx3 match_id find_value w2)))"

definition read_payload ::
  "'d flashdev \<Rightarrow> sysparam_context \<Rightarrow> nat \<Rightarrow> 'd spworld \<Rightarrow>
     sysparam_status_t \<times> byte list \<times> 'd spworld" where
  "read_payload fd ctx buffer_size w =
     (case flash_read fd (u32 (ctx_addr ctx + ENTRY_HEADER_SIZE))
             (min buffer_size (unat (e_len (ctx_entry ctx)))) w of
        (r, bs, w1) \<Rightarrow>
          (if r \<noteq> SPI_FLASH_RESULT_OK then SYSPARAM_ERR_IO else SYSPARAM_OK, bs, w1))"

text \<open>The working buffer of \<open>_find_key\<close> is the caller's; it comes back with what was read into
  it. A \<^verbatim>\<open>NULL\<close> key is \<^const>\<open>None\<close>.\<close>

fun find_key ::
  "nat \<Rightarrow> 'd flashdev \<Rightarrow> sysparam_context \<Rightarrow> byte list option \<Rightarrow> nat \<Rightarrow> byte list \<Rightarrow> 'd spworld \<Rightarrow>
     (sysparam_status_t \<times> sysparam_context \<times> byte list \<times> 'd spworld) option" where
  "find_key 0 fd ctx key key_len buffer w = None"
| "find_key (Suc fuel) fd ctx key key_len buffer w =
     do {
       (status, ctx1, w1) \<leftarrow> find_entry fuel fd ctx ENTRY_ID_ANY False w;
       if status \<noteq> SYSPARAM_OK then Some (status, ctx1, buffer, w1)
       else
         (case key of
            None \<Rightarrow> Some (SYSPARAM_OK, ctx1, buffer, w1)
          | Some k \<Rightarrow>
              if unat (e_len (ctx_entry ctx1)) = key_len then
                (case read_payload fd ctx1 key_len w1 of
                   (status, bs, w2) \<Rightarrow>
                     let buffer' = overwrite bs buffer in
                     if status_code status < 0 then Some (status, ctx1, buffer', w2)
                     else if take key_len k = take key_len buffer' then
                       Some (SYSPARAM_OK, ctx1, buffer', w2)
                     else find_key fuel fd ctx1 key key_len buffer' w2)
              else find_key fuel fd ctx1 key key_len buffer w1)
     }"

definition find_value ::
  "nat \<Rightarrow> 'd flashdev \<Rightarrow> sysparam_context \<Rightarrow> 16 word \<Rightarrow> 'd spworld \<Rightarrow>
     (sysparam_status_t \<times> sysparam_context \<times> 'd spworld) option" where
  "find_value fuel fd ctx id_field w =
     find_entry fuel fd ctx (id_field AND ENTRY_MASK_ID) True w"

subsection \<open>Writing and deleting entries\<close>

definition bump_end :: "nat \<Rightarrow> nat \<Rightarrow> 'd spworld \<Rightarrow> 'd spworld" where
  "bump_end addr n w =
     (if end_addr (w_info w) = addr
      then upd_info (\<lambda>i. i\<lparr>end_addr := u32 (end_addr i + n)\<rparr>) w else w)"

definition write_entry ::
  "'d flashdev \<Rightarrow> nat \<Rightarrow> 16 word \<Rightarrow> cptr \<Rightarrow> 16 word \<Rightarrow> 'd spworld \<Rightarrow>
     sysparam_status_t \<times> 'd spworld" where
  "write_entry fd addr eid payload plen w =
     (let idflags = eid OR ENTRY_FLAG_ALIVE OR ENTRY_FLAG_INVALID;
          entry = \<lparr>e_idflags = idflags, e_len = plen\<rparr> in
      case write_and_verify fd addr (cbuf (entry_header_bytes entry) (w_junk w)) ENTRY_HEADER_SIZE w of
        (status, w1) \<Rightarrow>
          if status = SYSPARAM_ERR_IO then
            (case write_and_verify fd addr (cbuf (entry_header_bytes zero_entry) (w_junk w1))
                    ENTRY_HEADER_SIZE w1 of
               (status, w2) \<Rightarrow>
                 if status \<noteq> SYSPARAM_OK then (status, w2)
                 else (SYSPARAM_ERR_IO, bump_end addr ENTRY_HEADER_SIZE w2))
          else if status \<noteq> SYSPARAM_OK then (status, w1)
          else
            let w2 = bump_end addr (ENTRY_SIZE (unat plen)) w1 in
            (case write_and_verify fd (u32 (addr + ENTRY_HEADER_SIZE)) payload (unat plen) w2 of
               (status, w3) \<Rightarrow>
                 if status \<noteq> SYSPARAM_OK then (status, w3)
                 else
                   let entry' = entry\<lparr>e_idflags := idflags AND NOT ENTRY_FLAG_INVALID\<rparr> in
                   write_and_verify fd addr (cbuf (entry_header_bytes entry') (w_junk w3))
                     ENTRY_HEADER_SIZE w3))"

definition delete_entry ::
  "'d flashdev \<Rightarrow> nat \<Rightarrow> 'd spworld \<Rightarrow> sysparam_status_t \<times> 'd spworld" where
  "delete_entry fd addr w =
     (case flash_read fd addr ENTRY_HEADER_SIZE w of
        (r, bs, w1) \<Rightarrow>
          if r \<noteq> SPI_FLASH_RESULT_OK then (SYSPARAM_ERR_IO, w1)
          else
            let entry = entry_header_of bs zero_entry;
                entry' = entry\<lparr>e_idflags := e_idflags entry AND NOT ENTRY_FLAG_ALIVE\<rparr> in
            (case flash_write fd addr (cbuf (entry_header_bytes entry') (w_junk w1)) ENTRY_HEADER_SIZE w1 of
               (r, w2) \<Rightarrow>
                 (if r \<noteq> SPI_FLASH_RESULT_OK then SYSPARAM_ERR_IO else SYSPARAM_OK, w2)))"

section \<open>Iteration\<close>

definition sysparam_iter_start ::
  "sysparam_iter_t \<Rightarrow> 'd spworld \<Rightarrow> sysparam_status_t \<times> sysparam_iter_t \<times> 'd spworld" where
  "sysparam_iter_start iter w =
     (if cur_base (w_info w) = 0 then (SYSPARAM_ERR_NOINIT, iter, w)
      else
        (case malloc w of
           (ok, w1) \<Rightarrow>
             if \<not> ok then (SYSPARAM_ERR_NOMEM, iter\<lparr>it_bufsize := 0\<rparr>, w1)
             else
               let iter1 = iter\<lparr>it_bufsize := DEFAULT_ITER_BUF_SIZE, it_key_len := 0,
                                it_value_len := 0\<rparr> in
               (case malloc w1 of
                  (ok, w2) \<Rightarrow>
                    if \<not> ok then (SYSPARAM_ERR_NOMEM, iter1\<lparr>it_bufsize := 0\<rparr>, free w2)
                    else (SYSPARAM_OK, iter1\<lparr>it_ctx := init_context w2\<rparr>, w2))))"

text \<open>Fetching the key and the value of the entry pair that was found.\<close>

definition iter_fetch ::
  "'d flashdev \<Rightarrow> sysparam_iter_t \<Rightarrow> sysparam_context \<Rightarrow> sysparam_context \<Rightarrow> 'd spworld \<Rightarrow>
     sysparam_status_t \<times> sysparam_iter_t \<times> 'd spworld" where
  "iter_fetch fd iter ctx value_ctx w =
     (let klen = unat (e_len (ctx_entry ctx));
          vlen = unat (e_len (ctx_entry value_ctx));
          key_space = ROUND_TO_WORD_BOUNDARY (klen + 1);
          required_len = key_space + vlen + 1 in
      case (if required_len > it_bufsize iter then realloc w else (True, w)) of
        (ok, w1) \<Rightarrow>
          if \<not> ok then (SYSPARAM_ERR_NOMEM, iter, w1)
          else
            let iter1 = (if required_len > it_bufsize iter
                         then iter\<lparr>it_bufsize := required_len\<rparr> else iter) in
            (case read_payload fd ctx (it_bufsize iter1) w1 of
               (status, kbs, w2) \<Rightarrow>
                 if status_code status < 0 then (status, iter1, w2)
                 else
                   let iter2 = iter1\<lparr>it_key := kbs, it_key_len := klen\<rparr> in
                   (case read_payload fd value_ctx (it_bufsize iter1 - key_space) w2 of
                      (status, vbs, w3) \<Rightarrow>
                        if status_code status < 0 then (status, iter2, w3)
                        else
                          (SYSPARAM_OK,
                           iter2\<lparr>it_value := vbs, it_value_len := vlen,
                             it_binary := (e_idflags (ctx_entry value_ctx) AND ENTRY_FLAG_BINARY \<noteq> 0)\<rparr>,
                           w3))))"

fun sysparam_iter_next ::
  "nat \<Rightarrow> 'd flashdev \<Rightarrow> sysparam_iter_t \<Rightarrow> 'd spworld \<Rightarrow>
     (sysparam_status_t \<times> sysparam_iter_t \<times> 'd spworld) option" where
  "sysparam_iter_next 0 fd iter w = None"
| "sysparam_iter_next (Suc fuel) fd iter w =
     do {
       (status, ctx, _, w1) \<leftarrow> find_key fuel fd (it_ctx iter) None 0 [0, 0] w;
       let iter1 = iter\<lparr>it_ctx := ctx\<rparr>;
       if status \<noteq> SYSPARAM_OK then Some (status, iter1, w1)
       else do {
         (status, value_ctx, w2) \<leftarrow> find_value fuel fd ctx (e_idflags (ctx_entry ctx)) w1;
         if status_code status < 0 then Some (status, iter1, w2)
         else if status = SYSPARAM_NOTFOUND then sysparam_iter_next fuel fd iter1 w2
         else Some (iter_fetch fd iter1 ctx value_ctx w2)
       }
     }"

definition sysparam_iter_end :: "'d spworld \<Rightarrow> 'd spworld" where
  "sysparam_iter_end w = free (free w)"

section \<open>Compaction\<close>

definition blank_iter :: sysparam_iter_t where
  "blank_iter = \<lparr>it_key = [], it_value = [], it_key_len = 0, it_value_len = 0, it_binary = False,
     it_bufsize = 0, it_ctx = zero_context\<rparr>"

text \<open>The copying loop. Its result carries the write position, the last key id used and the
  id of the caller's key in the new region.\<close>

fun compact_loop ::
  "nat \<Rightarrow> 'd flashdev \<Rightarrow> sysparam_iter_t \<Rightarrow> nat \<Rightarrow> 16 word \<Rightarrow> int \<Rightarrow> 'd spworld \<Rightarrow>
     (sysparam_status_t \<times> nat \<times> 16 word \<times> int \<times> 'd spworld) option" where
  "compact_loop 0 fd iter addr current_key_id key_id w = None"
| "compact_loop (Suc fuel) fd iter addr current_key_id key_id w =
     do {
       (status, iter1, w1) \<leftarrow> sysparam_iter_next fuel fd iter w;
       if status \<noteq> SYSPARAM_OK then Some (status, addr, current_key_id, key_id, w1)
       else
         let cid = current_key_id + 1;
             klen = it_key_len iter1 in
         (case write_entry fd addr cid (cbuf (it_key iter1 @ [0]) (w_junk w1)) (word_of_nat klen) w1 of
            (status, w2) \<Rightarrow>
              if status_code status < 0 then Some (status, addr, cid, key_id, w2)
              else
                let addr1 = u32 (addr + ENTRY_SIZE klen) in
                if int (unat (e_idflags (ctx_entry (it_ctx iter1)) AND ENTRY_MASK_ID)) = key_id then
                  compact_loop fuel fd iter1 addr1 cid (int (unat cid)) w2
                else
                  let binary_flag = (if it_binary iter1 then ENTRY_FLAG_BINARY else 0);
                      vlen = it_value_len iter1 in
                  (case write_entry fd addr1 (cid OR ENTRY_FLAG_VALUE OR binary_flag)
                          (cbuf (it_value iter1 @ [0]) (w_junk w2)) (word_of_nat vlen) w2 of
                     (status, w3) \<Rightarrow>
                       if status_code status < 0 then Some (status, addr1, cid, key_id, w3)
                       else
                         compact_loop fuel fd iter1 (u32 (addr1 + ENTRY_SIZE vlen)) cid key_id w3))
     }"

definition compact_params ::
  "nat \<Rightarrow> 'd flashdev \<Rightarrow> sysparam_context \<Rightarrow> int \<Rightarrow> 'd spworld \<Rightarrow>
     (sysparam_status_t \<times> sysparam_context \<times> int \<times> 'd spworld) option" where
  "compact_params fuel fd ctx key_id w =
     (let new_base = alt_base (w_info w);
          addr = u32 (new_base + REGION_HEADER_SIZE);
          num_sectors = u16 (region_size (w_info w) div sector_size (sdk_flashchip fd)) in
      case format_region fd new_base num_sectors w of
        (status, w1) \<Rightarrow>
          if status_code status < 0 then Some (status, ctx, key_id, w1)
          else
            (case sysparam_iter_start blank_iter w1 of
               (status, iter, w2) \<Rightarrow>
                 if status_code status < 0 then Some (status, ctx, key_id, w2)
                 else do {
                   (status, addr', cid, key_id', w3) \<leftarrow> compact_loop fuel fd iter addr 0 key_id w2;
                   let w4 = sysparam_iter_end w3;
                   if status_code status < 0 then Some (status, ctx, key_id', w4)
                   else
                     (case write_region_header fd new_base (cur_base (w_info w4)) True w4 of
                        (status, w5) \<Rightarrow>
                          if status_code status < 0 then Some (status, ctx, key_id', w5)
                          else
                            (case write_region_header fd (cur_base (w_info w5)) new_base False w5 of
                               (status, w6) \<Rightarrow>
                                 if status_code status < 0 then Some (status, ctx, key_id', w6)
                                 else
                                   Some (SYSPARAM_OK,
                                     zero_context\<lparr>ctx_addr := addr', ctx_max_key_id := cid\<rparr>,
                                     key_id',
                                     upd_info (\<lambda>i. i\<lparr>alt_base := cur_base i, cur_base := new_base,
                                       end_addr := addr', force_compact := False\<rparr>) w6)))
                 }))"

section \<open>Setting up the area\<close>

fun init_scan ::
  "nat \<Rightarrow> 'd flashdev \<Rightarrow> nat \<Rightarrow> nat \<Rightarrow> region_header \<Rightarrow> 'd spworld \<Rightarrow>
     (sysparam_status_t \<times> nat \<times> region_header \<times> 'd spworld) option" where
  "init_scan 0 fd addr0 top_addr header0 w = None"
| "init_scan (Suc fuel) fd addr0 top_addr header0 w =
     (if addr0 < top_addr then
        (case flash_read fd addr0 REGION_HEADER_SIZE w of
           (r, bs, w1) \<Rightarrow>
             let h = region_header_of bs header0 in
             if r \<noteq> SPI_FLASH_RESULT_OK then Some (SYSPARAM_ERR_IO, addr0, h, w1)
             else if rh_magic h = SYSPARAM_MAGIC then Some (SYSPARAM_OK, addr0, h, w1)
             else init_scan fuel fd (u32 (addr0 + sector_size (sdk_flashchip fd))) top_addr h w1)
      else Some (SYSPARAM_NOTFOUND, addr0, header0, w))"

text \<open>Checking, and where possible repairing, the other half of the area.\<close>

definition init_other_half ::
  "'d flashdev \<Rightarrow> nat \<Rightarrow> nat \<Rightarrow> nat \<Rightarrow> region_header \<Rightarrow> region_header \<Rightarrow> 'd spworld \<Rightarrow>
     sysparam_status_t \<times> 'd spworld" where
  "init_other_half fd addr0 addr1 num_sectors header0 header1 w =
     (if rh_magic header1 = SYSPARAM_MAGIC then
        (if rh_flags_size header0 AND REGION_FLAG_SECOND = rh_flags_size header1 AND REGION_FLAG_SECOND
         then (SYSPARAM_ERR_CORRUPT, w) else (SYSPARAM_OK, w))
      else if rh_flags_size header0 AND REGION_FLAG_ACTIVE \<noteq> 0 then
        (case format_region fd addr1 num_sectors w of
           (status, w1) \<Rightarrow>
             if status \<noteq> SYSPARAM_OK then (status, w1)
             else write_region_header fd addr1 addr0 False w1)
      else (SYSPARAM_ERR_CORRUPT, w))"

definition init_find_end ::
  "nat \<Rightarrow> 'd flashdev \<Rightarrow> 'd spworld \<Rightarrow> (sysparam_status_t \<times> 'd spworld) option" where
  "init_find_end fuel fd w =
     (let w1 = upd_info (\<lambda>i. i\<lparr>end_addr := u32 (cur_base i + region_size i),
                             force_compact := False\<rparr>) w in
      do {
        (status, ctx, w2) \<leftarrow> find_entry fuel fd (init_context w1) ENTRY_ID_END False w1;
        if status_code status < 0 then
          Some (status, upd_info (\<lambda>i. i\<lparr>cur_base := 0, alt_base := 0, end_addr := 0\<rparr>) w2)
        else
          let w3 = (if status = SYSPARAM_OK
                    then upd_info (\<lambda>i. i\<lparr>end_addr := ctx_addr ctx\<rparr>) w2 else w2) in
          (case malloc w3 of
             (created, w4) \<Rightarrow> Some (SYSPARAM_OK, upd_info (\<lambda>i. i\<lparr>sem := created\<rparr>) w4))
      })"

definition sysparam_init ::
  "nat \<Rightarrow> 'd flashdev \<Rightarrow> nat \<Rightarrow> nat \<Rightarrow> 'd spworld \<Rightarrow> (sysparam_status_t \<times> 'd spworld) option" where
  "sysparam_init fuel fd base_addr top_addr w =
     (let ssz = sector_size (sdk_flashchip fd);
          base = base_addr - base_addr mod ssz;
          top = (if top_addr = 0 \<or> top_addr = base then u32 (base + ssz) else top_addr);
          blank = \<lparr>rh_magic = 0, rh_flags_size = 0, rh_reserved = 0\<rparr> in
      do {
        (status, addr0, header0, w1) \<leftarrow> init_scan fuel fd base top blank w;
        if status \<noteq> SYSPARAM_OK then Some (status, w1)
        else
          let num_sectors = unat (rh_flags_size header0 AND REGION_MASK_SIZE);
              rsz = u32 (num_sectors * ssz);
              addr1 = (if rh_flags_size header0 AND REGION_FLAG_SECOND \<noteq> 0
                       then sub32 addr0 rsz else u32 (addr0 + rsz)) in
          (case flash_read fd addr1 REGION_HEADER_SIZE w1 of
             (r, bs, w2) \<Rightarrow>
               if r \<noteq> SPI_FLASH_RESULT_OK then Some (SYSPARAM_ERR_IO, w2)
               else
                 (case init_other_half fd addr0 addr1 num_sectors header0 (region_header_of bs blank) w2 of
                    (status, w3) \<Rightarrow>
                      if status \<noteq> SYSPARAM_OK then Some (status, w3)
                      else
                        init_find_end fuel fd
                          (upd_info (\<lambda>i.
                             if rh_flags_size header0 AND REGION_FLAG_ACTIVE \<noteq> 0
                             then i\<lparr>region_size := rsz, cur_base := addr0, alt_base := addr1\<rparr>
                             else i\<lparr>region_size := rsz, cur_base := addr1, alt_base := addr0\<rparr>) w3)))
      })"

text \<open>The emptiness scan: the loop moves on by \<^verbatim>\<open>SCAN_BUFFER_SIZE\<close> although each read covers
  four times as many bytes.\<close>

fun create_scan ::
  "nat \<Rightarrow> 'd flashdev \<Rightarrow> nat \<Rightarrow> nat \<Rightarrow> 'd spworld \<Rightarrow> (sysparam_status_t \<times> 'd spworld) option" where
  "create_scan 0 fd addr limit w = None"
| "create_scan (Suc fuel) fd addr limit w =
     (if addr < limit then
        (case flash_read fd addr (SCAN_BUFFER_SIZE * 4) w of
           (r, bs, w1) \<Rightarrow>
             if r \<noteq> SPI_FLASH_RESULT_OK then Some (SYSPARAM_ERR_IO, w1)
             else if \<exists>b \<in> set bs. b \<noteq> 255 then Some (SYSPARAM_NOTFOUND, w1)
             else create_scan fuel fd (u32 (addr + SCAN_BUFFER_SIZE)) limit w1)
      else Some (SYSPARAM_OK, w))"

definition create_format ::
  "'d flashdev \<Rightarrow> nat \<Rightarrow> nat \<Rightarrow> nat \<Rightarrow> 'd spworld \<Rightarrow> sysparam_status_t \<times> 'd spworld" where
  "create_format fd base_addr num_sectors rsz w =
     (let second = u32 (base_addr + rsz) in
      case format_region fd base_addr num_sectors w of
        (status, w1) \<Rightarrow>
          if status_code status < 0 then (status, w1)
          else
            (case format_region fd second num_sectors w1 of
               (status, w2) \<Rightarrow>
                 if status_code status < 0 then (status, w2)
                 else
                   (case write_region_header fd base_addr second True w2 of
                      (status, w3) \<Rightarrow>
                        if status_code status < 0 then (status, w3)
                        else
                          (case write_region_header fd second base_addr False w3 of
                             (status, w4) \<Rightarrow>
                               if status_code status < 0 then (status, w4)
                               else (SYSPARAM_OK, w4)))))"

definition sysparam_create_area ::
  "nat \<Rightarrow> 'd flashdev \<Rightarrow> nat \<Rightarrow> nat \<Rightarrow> bool \<Rightarrow> 'd spworld \<Rightarrow>
     (sysparam_status_t \<times> 'd spworld) option" where
  "sysparam_create_area fuel fd base_addr num_sectors force w =
     (if num_sectors < 1 \<or> odd num_sectors then Some (SYSPARAM_ERR_BADVALUE, w)
      else
        let n = num_sectors div 2;
            rsz = u32 (n * sector_size (sdk_flashchip fd)) in
        do {
          (status, w1) \<leftarrow> (if force then Some (SYSPARAM_OK, w)
                           else create_scan fuel fd base_addr (u32 (base_addr + rsz * 2)) w);
          if status \<noteq> SYSPARAM_OK then Some (status, w1)
          else
            let w2 = (if cur_base (w_info w1) = base_addr \<or> alt_base (w_info w1) = base_addr
                      then w1\<lparr>w_info := zero_info\<rparr> else w1) in
            Some (create_format fd base_addr n rsz w2)
        })"

definition sysparam_get_info ::
  "'d flashdev \<Rightarrow> 'd spworld \<Rightarrow> sysparam_status_t \<times> (nat \<times> nat) option" where
  "sysparam_get_info fd w =
     (if cur_base (w_info w) = 0 then (SYSPARAM_ERR_NOINIT, None)
      else
        (SYSPARAM_OK,
         Some (min (cur_base (w_info w)) (alt_base (w_info w)),
               u32 (region_size (w_info w) div sector_size (sdk_flashchip fd) * 2))))"

section \<open>Reading parameters\<close>

text \<open>Results: the status, what \<^verbatim>\<open>*destptr\<close> (with its terminating zero), \<^verbatim>\<open>*actual_length\<close> and
  \<^verbatim>\<open>*is_binary\<close> are set to (\<^const>\<open>None\<close>: left alone), and the world.\<close>

definition get_data_body ::
  "nat \<Rightarrow> 'd flashdev \<Rightarrow> byte list \<Rightarrow> 'd spworld \<Rightarrow>
     (sysparam_status_t \<times> (byte list \<times> nat \<times> bool) option \<times> 'd spworld) option" where
  "get_data_body fuel fd key w =
     do {
       (status, ctx, _, w1) \<leftarrow>
         find_key fuel fd (init_context w) (Some key) (u16 (length key))
           (map (w_junk w) [0..<length key + 2]) w;
       if status \<noteq> SYSPARAM_OK then Some (status, None, w1)
       else do {
         (status, vctx, w2) \<leftarrow> find_value fuel fd ctx (e_idflags (ctx_entry ctx)) w1;
         if status \<noteq> SYSPARAM_OK then Some (status, None, w2)
         else
           (case realloc w2 of
              (ok, w3) \<Rightarrow>
                if \<not> ok then Some (SYSPARAM_ERR_NOMEM, None, w3)
                else
                  let n = unat (e_len (ctx_entry vctx)) in
                  (case read_payload fd vctx n w3 of
                     (status, bs, w4) \<Rightarrow>
                       if status \<noteq> SYSPARAM_OK then Some (status, None, w4)
                       else
                         Some (SYSPARAM_OK,
                           Some (bs @ [0], n, e_idflags (ctx_entry vctx) AND ENTRY_FLAG_BINARY \<noteq> 0),
                           w4)))
       }
     }"

definition sysparam_get_data ::
  "nat \<Rightarrow> 'd flashdev \<Rightarrow> byte list \<Rightarrow> 'd spworld \<Rightarrow>
     (sysparam_status_t \<times> byte list option \<times> nat option \<times> bool option \<times> 'd spworld) option" where
  "sysparam_get_data fuel fd key w =
     (if cur_base (w_info w) = 0 then Some (SYSPARAM_ERR_NOINIT, None, None, None, w)
      else
        (case malloc w of
           (ok, w1) \<Rightarrow>
             if \<not> ok then Some (SYSPARAM_ERR_NOMEM, None, None, None, w1)
             else do {
               (status, out, w2) \<leftarrow> get_data_body fuel fd key w1;
               (case out of
                  Some (buf, n, bin) \<Rightarrow> Some (status, Some buf, Some n, Some bin, w2)
                | None \<Rightarrow> Some (status, None, Some 0, None, free w2))
             }))"

definition sysparam_get_data_static ::
  "nat \<Rightarrow> 'd flashdev \<Rightarrow> byte list \<Rightarrow> byte list \<Rightarrow> 'd spworld \<Rightarrow>
     (sysparam_status_t \<times> byte list \<times> nat option \<times> bool option \<times> 'd spworld) option" where
  "sysparam_get_data_static fuel fd key buffer w =
     (if cur_base (w_info w) = 0 then Some (SYSPARAM_ERR_NOINIT, buffer, None, None, w)
      else if length buffer < max (length key) 2 then Some (SYSPARAM_ERR_NOMEM, buffer, None, None, w)
      else do {
        (status, ctx, buffer1, w1) \<leftarrow>
          find_key fuel fd (init_context w) (Some key) (u16 (length key)) buffer w;
        if status \<noteq> SYSPARAM_OK then Some (status, buffer1, Some 0, None, w1)
        else do {
          (status, vctx, w2) \<leftarrow> find_value fuel fd ctx (e_idflags (ctx_entry ctx)) w1;
          if status \<noteq> SYSPARAM_OK then Some (status, buffer1, Some 0, None, w2)
          else
            (case read_payload fd vctx (length buffer) w2 of
               (status, bs, w3) \<Rightarrow>
                 let buffer2 = overwrite bs buffer1 in
                 if status \<noteq> SYSPARAM_OK then Some (status, buffer2, Some 0, None, w3)
                 else
                   Some (SYSPARAM_OK, buffer2, Some (unat (e_len (ctx_entry vctx))),
                     Some (e_idflags (ctx_entry vctx) AND ENTRY_FLAG_BINARY \<noteq> 0), w3))
        }
      })"

definition sysparam_get_string ::
  "nat \<Rightarrow> 'd flashdev \<Rightarrow> byte list \<Rightarrow> 'd spworld \<Rightarrow>
     (sysparam_status_t \<times> byte list option \<times> 'd spworld) option" where
  "sysparam_get_string fuel fd key w =
     do {
       (status, buf, _, bin, w1) \<leftarrow> sysparam_get_data fuel fd key w;
       if status \<noteq> SYSPARAM_OK then Some (status, None, w1)
       else if bin = Some True then Some (SYSPARAM_PARSEFAILED, None, free w1)
       else Some (SYSPARAM_OK, buf, w1)
     }"

definition sysparam_get_int ::
  "nat \<Rightarrow> 'd flashdev \<Rightarrow> byte list \<Rightarrow> 'd spworld \<Rightarrow>
     (sysparam_status_t \<times> int option \<times> 'd spworld) option" where
  "sysparam_get_int fuel fd key w =
     do {
       (status, buf, w1) \<leftarrow> sysparam_get_string fuel fd key w;
       (case buf of
          Some b \<Rightarrow>
            if status \<noteq> SYSPARAM_OK then Some (status, None, w1)
            else
              (case strtol (cstr b) of
                 (value, rest) \<Rightarrow>
                   if rest \<noteq> [] then Some (SYSPARAM_PARSEFAILED, None, free w1)
                   else Some (SYSPARAM_OK, Some value, free w1))
        | None \<Rightarrow> Some (status, None, w1))
     }"

definition str_y :: "byte list" where "str_y = [121]"
definition str_yes :: "byte list" where "str_yes = [121, 101, 115]"
definition str_t :: "byte list" where "str_t = [116]"
definition str_true :: "byte list" where "str_true = [116, 114, 117, 101]"
definition str_n :: "byte list" where "str_n = [110]"
definition str_no :: "byte list" where "str_no = [110, 111]"
definition str_f :: "byte list" where "str_f = [102]"
definition str_false :: "byte list" where "str_false = [102, 97, 108, 115, 101]"

definition parse_bool :: "byte list \<Rightarrow> bool option" where
  "parse_bool s =
     (if strcaseeq s str_y \<or> strcaseeq s str_yes \<or> strcaseeq s str_t \<or> strcaseeq s str_true
        \<or> s = [49] then Some True
      else if strcaseeq s str_n \<or> strcaseeq s str_no \<or> strcaseeq s str_f \<or> strcaseeq s str_false
        \<or> s = [48] then Some False
      else None)"

definition sysparam_get_bool ::
  "nat \<Rightarrow> 'd flashdev \<Rightarrow> byte list \<Rightarrow> 'd spworld \<Rightarrow>
     (sysparam_status_t \<times> bool option \<times> 'd spworld) option" where
  "sysparam_get_bool fuel fd key w =
     do {
       (status, buf, w1) \<leftarrow> sysparam_get_string fuel fd key w;
       (case buf of
          Some b \<Rightarrow>
            if status \<noteq> SYSPARAM_OK then Some (status, None, w1)
            else
              (case parse_bool (cstr b) of
                 Some v \<Rightarrow> Some (SYSPARAM_OK, Some v, free w1)
               | None \<Rightarrow> Some (SYSPARAM_PARSEFAILED, None, free w1))
        | None \<Rightarrow> Some (status, None, w1))
     }"

section \<open>Writing parameters\<close>

text \<open>The body of \<open>sysparam_set_data\<close> leaves its one-pass loop either early (\<^const>\<open>Inl\<close>: the
  \<^verbatim>\<open>break\<close> with the status to return) or with the values the next step needs (\<^const>\<open>Inr\<close>).\<close>

text \<open>Is the value to be written the one already there?\<close>

definition set_data_same ::
  "'d flashdev \<Rightarrow> nat \<Rightarrow> cptr \<Rightarrow> nat \<Rightarrow> 16 word \<Rightarrow> nat \<Rightarrow> sysparam_context \<Rightarrow> 'd spworld \<Rightarrow>
     (sysparam_status_t \<times> 'd spworld) + (sysparam_context \<times> 'd spworld)" where
  "set_data_same fd key_len val value_len binary_flag old_value_addr ctx w =
     (if old_value_addr = 0 then Inr (ctx, w)
      else
        let ctx' = ctx\<lparr>ctx_compactable :=
              u32 (ctx_compactable ctx + ENTRY_SIZE (unat (e_len (ctx_entry ctx))))\<rparr> in
        if e_idflags (ctx_entry ctx) AND ENTRY_FLAG_BINARY = binary_flag
           \<and> unat (e_len (ctx_entry ctx)) = value_len then
          (case (if value_len > key_len then realloc w else (True, w)) of
             (ok, w1) \<Rightarrow>
               if \<not> ok then Inl (SYSPARAM_ERR_NOMEM, w1)
               else
                 (case read_payload fd ctx value_len w1 of
                    (status, bs, w2) \<Rightarrow>
                      if status_code status < 0 then Inl (status, w2)
                      else if bs = map val [0..<value_len] then Inl (SYSPARAM_OK, w2)
                      else Inr (ctx', w2)))
        else Inr (ctx', w))"

definition free_space :: "'d spworld \<Rightarrow> nat" where
  "free_space w =
     sub32 (u32 (cur_base (w_info w) + region_size (w_info w))) (end_addr (w_info w))"

text \<open>Compacting when the entry does not fit.\<close>

definition set_data_room ::
  "nat \<Rightarrow> 'd flashdev \<Rightarrow> nat \<Rightarrow> sysparam_context \<Rightarrow> int \<Rightarrow> nat \<Rightarrow> 'd spworld \<Rightarrow>
     ((sysparam_status_t \<times> 'd spworld) + (sysparam_context \<times> int \<times> nat \<times> 'd spworld)) option" where
  "set_data_room fuel fd needed_space ctx key_id old_value_addr w =
     (if needed_space > free_space w then
        do {
          (_, ctx1, w1) \<leftarrow> find_entry fuel fd ctx ENTRY_ID_END False w;
          (if needed_space \<le> u32 (free_space w + ctx_compactable ctx1) \<or> ctx_unused_keys ctx1 > 0 then
             do {
               (status, ctx2, key_id', w2) \<leftarrow> compact_params fuel fd ctx1 key_id w1;
               if status_code status < 0 then Some (Inl (status, w2))
               else if needed_space > free_space w2 then Some (Inl (SYSPARAM_ERR_FULL, w2))
               else Some (Inr (ctx2, key_id', 0, w2))
             }
           else if needed_space > free_space w1 then Some (Inl (SYSPARAM_ERR_FULL, w1))
           else Some (Inr (ctx1, key_id, old_value_addr, w1)))
        }
      else Some (Inr (ctx, key_id, old_value_addr, w)))"

text \<open>Running out of key ids, and the compaction an inconsistency seen earlier calls for.\<close>

definition set_data_ids ::
  "nat \<Rightarrow> 'd flashdev \<Rightarrow> sysparam_context \<Rightarrow> int \<Rightarrow> nat \<Rightarrow> 'd spworld \<Rightarrow>
     ((sysparam_status_t \<times> 'd spworld) + (sysparam_context \<times> int \<times> nat \<times> 'd spworld)) option" where
  "set_data_ids fuel fd ctx key_id old_value_addr w =
     (if key_id < 0 \<and> ctx_max_key_id ctx \<ge> MAX_KEY_ID then
        (if ctx_unused_keys ctx > 0 then
           do {
             (status, ctx1, key_id', w1) \<leftarrow> compact_params fuel fd ctx key_id w;
             if status_code status < 0 then Some (Inl (status, w1))
             else Some (Inr (ctx1, key_id', 0, w1))
           }
         else Some (Inl (SYSPARAM_ERR_FULL, w)))
      else Some (Inr (ctx, key_id, old_value_addr, w)))"

definition set_data_force ::
  "nat \<Rightarrow> 'd flashdev \<Rightarrow> sysparam_context \<Rightarrow> int \<Rightarrow> 'd spworld \<Rightarrow>
     ((sysparam_status_t \<times> 'd spworld) + (sysparam_context \<times> int \<times> 'd spworld)) option" where
  "set_data_force fuel fd ctx key_id w =
     (if force_compact (w_info w) then
        do {
          (status, ctx1, key_id', w1) \<leftarrow> compact_params fuel fd ctx key_id w;
          if status_code status < 0 then Some (Inl (status, w1))
          else Some (Inr (ctx1, key_id', w1))
        }
      else Some (Inr (ctx, key_id, w)))"

text \<open>Appending the entries.\<close>

definition set_data_append ::
  "'d flashdev \<Rightarrow> byte list \<Rightarrow> nat \<Rightarrow> cptr \<Rightarrow> nat \<Rightarrow> 16 word \<Rightarrow> sysparam_context \<Rightarrow> int \<Rightarrow> 'd spworld \<Rightarrow>
     sysparam_status_t \<times> 'd spworld" where
  "set_data_append fd key key_len val value_len binary_flag ctx key_id w =
     (case init_write_context fd w of
        (_, write_ctx, w1) \<Rightarrow>
          let new_id = (if key_id < 0 then ctx_max_key_id ctx + 1 else word_of_int key_id) in
          (case (if key_id < 0
                 then write_entry fd (ctx_addr write_ctx) new_id (cbuf (key @ [0]) (w_junk w1))
                        (word_of_nat key_len) w1
                 else (SYSPARAM_OK, w1)) of
             (status, w2) \<Rightarrow>
               if status_code status < 0 then (status, w2)
               else
                 let addr1 = (if key_id < 0 then u32 (ctx_addr write_ctx + ENTRY_SIZE key_len)
                              else ctx_addr write_ctx) in
                 (case write_entry fd addr1 (new_id OR ENTRY_FLAG_VALUE OR binary_flag) val
                         (word_of_nat value_len) w2 of
                    (status, w3) \<Rightarrow>
                      if status_code status < 0 then (status, w3)
                      else
                        (status,
                         upd_info (\<lambda>i. i\<lparr>end_addr := u32 (addr1 + ENTRY_SIZE value_len)\<rparr>) w3))))"

definition set_data_delete_old ::
  "'d flashdev \<Rightarrow> sysparam_status_t \<Rightarrow> nat \<Rightarrow> 'd spworld \<Rightarrow> sysparam_status_t \<times> 'd spworld" where
  "set_data_delete_old fd status old_value_addr w =
     (if old_value_addr \<noteq> 0 then delete_entry fd old_value_addr w else (status, w))"

definition set_data_store ::
  "nat \<Rightarrow> 'd flashdev \<Rightarrow> byte list \<Rightarrow> nat \<Rightarrow> cptr \<Rightarrow> nat \<Rightarrow> bool \<Rightarrow> sysparam_context \<Rightarrow> int \<Rightarrow> nat \<Rightarrow>
     'd spworld \<Rightarrow> (sysparam_status_t \<times> 'd spworld) option" where
  "set_data_store fuel fd key key_len val value_len is_binary ctx key_id old_value_addr w =
     (let binary_flag = (if is_binary then ENTRY_FLAG_BINARY else 0) in
      case set_data_same fd key_len val value_len binary_flag old_value_addr ctx w of
        Inl res \<Rightarrow> Some res
      | Inr (ctx1, w1) \<Rightarrow>
          let key_len' = (if key_id < 0 then u16 (length key) else key_len);
              needed_space = (if key_id < 0
                then u32 (ENTRY_SIZE value_len + ENTRY_SIZE key_len') else ENTRY_SIZE value_len) in
          do {
            room \<leftarrow> set_data_room fuel fd needed_space ctx1 key_id old_value_addr w1;
            (case room of
               Inl res \<Rightarrow> Some res
             | Inr (ctx2, kid2, old2, w2) \<Rightarrow> do {
                 ids \<leftarrow> set_data_ids fuel fd ctx2 kid2 old2 w2;
                 (case ids of
                    Inl res \<Rightarrow> Some res
                  | Inr (ctx3, kid3, old3, w3) \<Rightarrow> do {
                      forced \<leftarrow> set_data_force fuel fd ctx3 kid3 w3;
                      (case forced of
                         Inl res \<Rightarrow> Some res
                       | Inr (ctx4, kid4, w4) \<Rightarrow>
                           (case set_data_append fd key key_len' val value_len binary_flag ctx4 kid4 w4 of
                              (status, w5) \<Rightarrow>
                                if status_code status < 0 then Some (status, w5)
                                else Some (set_data_delete_old fd status old3 w5)))
                    })
               })
          })"

definition set_data_body ::
  "nat \<Rightarrow> 'd flashdev \<Rightarrow> byte list \<Rightarrow> nat \<Rightarrow> cptr \<Rightarrow> nat \<Rightarrow> bool \<Rightarrow> 'd spworld \<Rightarrow>
     (sysparam_status_t \<times> 'd spworld) option" where
  "set_data_body fuel fd key key_len val value_len is_binary w =
     do {
       (kstatus, kctx, _, w1) \<leftarrow>
         find_key fuel fd (init_context w) (Some key) key_len (map (w_junk w) [0..<key_len]) w;
       (status, ctx, key_id, old_value_addr, w2) \<leftarrow>
         (if kstatus = SYSPARAM_OK then do {
            let kid = e_idflags (ctx_entry kctx) AND ENTRY_MASK_ID;
            (vstatus, vctx, w2) \<leftarrow> find_value fuel fd kctx kid w1;
            Some (vstatus, vctx, int (unat kid), if vstatus = SYSPARAM_OK then ctx_addr vctx else 0, w2)
          }
          else Some (kstatus, kctx, - 1, 0, w1));
       if status_code status < 0 then Some (status, w2)
       else if value_len \<noteq> 0 then
         set_data_store fuel fd key key_len val value_len is_binary ctx key_id old_value_addr w2
       else Some (set_data_delete_old fd status old_value_addr w2)
     }"

text \<open>The arguments: the key, what the value pointer points to (\<^const>\<open>None\<close>: \<^verbatim>\<open>NULL\<close>), whether
  that pointer is word-aligned, the length and the binary flag.\<close>

definition sysparam_set_data ::
  "nat \<Rightarrow> 'd flashdev \<Rightarrow> byte list \<Rightarrow> cptr option \<Rightarrow> bool \<Rightarrow> nat \<Rightarrow> bool \<Rightarrow> 'd spworld \<Rightarrow>
     (sysparam_status_t \<times> 'd spworld) option" where
  "sysparam_set_data fuel fd key val aligned value_len is_binary w =
     (let key_len = u16 (length key) in
      if cur_base (w_info w) = 0 then Some (SYSPARAM_ERR_NOINIT, w)
      else if key_len = 0 then Some (SYSPARAM_ERR_BADVALUE, w)
      else if key_len > MAX_KEY_LEN then Some (SYSPARAM_ERR_BADVALUE, w)
      else if value_len > MAX_VALUE_LEN then Some (SYSPARAM_ERR_BADVALUE, w)
      else
        let w0 = w\<lparr>w_sem := w_sem w + 1\<rparr>;
            give = (\<lambda>w. w\<lparr>w_sem := w_sem w - 1\<rparr>);
            n = (case val of None \<Rightarrow> 0 | Some _ \<Rightarrow> value_len);
            p = (case val of None \<Rightarrow> w_junk w | Some p \<Rightarrow> p);
            free_value = (n \<noteq> 0 \<and> \<not> aligned) in
        (case (if free_value then malloc w0 else (True, w0)) of
           (ok, w1) \<Rightarrow>
             if \<not> ok then Some (SYSPARAM_ERR_NOMEM, give w1)
             else
               let p1 = (if free_value then cbuf (map p [0..<n]) (w_junk w) else p);
                   cleanup = (\<lambda>w. if free_value then free w else w) in
               (case malloc w1 of
                  (ok, w2) \<Rightarrow>
                    if \<not> ok then Some (SYSPARAM_ERR_NOMEM, give (cleanup w2))
                    else do {
                      (status, w3) \<leftarrow> set_data_body fuel fd key key_len p1 n is_binary w2;
                      Some (status, give (free (cleanup w3)))
                    })))"

definition sysparam_set_string ::
  "nat \<Rightarrow> 'd flashdev \<Rightarrow> byte list \<Rightarrow> byte list \<Rightarrow> bool \<Rightarrow> 'd spworld \<Rightarrow>
     (sysparam_status_t \<times> 'd spworld) option" where
  "sysparam_set_string fuel fd key val aligned w =
     sysparam_set_data fuel fd key (Some (cbuf (val @ [0]) (w_junk w))) aligned (length val) False w"

definition sysparam_set_int ::
  "nat \<Rightarrow> 'd flashdev \<Rightarrow> byte list \<Rightarrow> int \<Rightarrow> bool \<Rightarrow> 'd spworld \<Rightarrow>
     (sysparam_status_t \<times> 'd spworld) option" where
  "sysparam_set_int fuel fd key val aligned w =
     (let buffer = show_int val in
      sysparam_set_data fuel fd key (Some (cbuf (buffer @ [0]) (w_junk w))) aligned (length buffer) False w)"

definition sysparam_set_bool ::
  "nat \<Rightarrow> 'd flashdev \<Rightarrow> byte list \<Rightarrow> bool \<Rightarrow> bool \<Rightarrow> 'd spworld \<Rightarrow>
     (sysparam_status_t \<times> 'd spworld) option" where
  "sysparam_set_bool fuel fd key val aligned w =
     do {
       (status, old_value, w1) \<leftarrow> sysparam_get_bool fuel fd key w;
       if status = SYSPARAM_OK \<and> old_value = Some val then Some (SYSPARAM_OK, w1)
       else
         sysparam_set_data fuel fd key
           (Some (cbuf [if val then 121 else 110, 255, 255, 255] (w_junk w1))) aligned 1 False w1
     }"

section \<open>A sample world\<close>

text \<open>An erased simulated chip with an initialised, empty store in the second and third
  sector: the concrete input at which the properties are instantiated.\<close>

definition sample_world :: "sim_dev spworld" where
  "sample_world =
     \<lparr>w_flash = [],
      w_info = \<lparr>cur_base = 4096, alt_base = 8192, end_addr = 4104, region_size = 4096,
        force_compact = False, sem = True\<rparr>,
      w_mallocs = [], w_allocs = 0, w_sem = 0, w_junk = (\<lambda>_. 0)\<rparr>"

end
