(* ===== verification/Sysparam_Flash.thy ===== *)
theory Sysparam_Flash
  imports Sysparam
begin

text \<open>
  What the write path of \<^verbatim>\<open>sysparam.c\<close> does to the flash array, given the ROM contract
  \<open>nor_rom\<close> and a heap that does not run out: verified writes, entries, deletion, formatting and
  region headers. Each lemma gives the resulting array and says that nothing else of the world
  changes.
\<close>

named_theorems layout \<open>header layout\<close>

definition entry_extent :: "nat \<Rightarrow> nat" where
  "entry_extent n = 4 + round4 n"

section \<open>Layout\<close>

lemma ROUND_round4: "n < 65537 \<Longrightarrow> ROUND_TO_WORD_BOUNDARY n = round4 n"
  by (simp add: ROUND_TO_WORD_BOUNDARY_def round4_def u32_def)

lemma ENTRY_SIZE_extent [layout]: "n < 65536 \<Longrightarrow> ENTRY_SIZE n = entry_extent n"
  using round4_ge(2)[of n]
  by (simp add: ENTRY_SIZE_def ROUND_round4 entry_extent_def ENTRY_HEADER_SIZE_def u32_def)

lemma entry_extent_bounds: "4 + n \<le> entry_extent n" "entry_extent n < n + 8" "4 dvd entry_extent n"
  using round4_ge[of n] by (auto simp: entry_extent_def)

lemma entry_header_bytes_length [simp]: "length (entry_header_bytes e) = 4"
  by (simp add: entry_header_bytes_def)

lemma region_header_bytes_length [simp]: "length (region_header_bytes h) = 8"
  by (simp add: region_header_bytes_def)

lemma entry_header_of_bytes [layout]: "entry_header_of (entry_header_bytes e) old = e"
  by (simp add: entry_header_of_def entry_header_bytes_def le16_def)

lemma region_header_of_bytes [layout]: "region_header_of (region_header_bytes h) old = h"
  by (simp add: region_header_of_def region_header_bytes_def le16_def le32_def)

lemma length_4E:
  assumes "length bs = 4"
  obtains a b c d where "bs = [a, b, c, d]"
  using assms by (auto simp: numeral_eq_Suc length_Suc_conv)

lemma entry_header_bytes_of:
  assumes "length bs = 4"
  shows "entry_header_bytes (entry_header_of bs old) = bs"
  using assms by (rule length_4E) (simp add: entry_header_of_def entry_header_bytes_def le16_def)

lemma entry_header_bytes_and:
  "i < 4 \<Longrightarrow> entry_header_bytes \<lparr>e_idflags = f, e_len = l\<rparr> ! i
      AND entry_header_bytes \<lparr>e_idflags = g, e_len = l\<rparr> ! i
    = entry_header_bytes \<lparr>e_idflags = f AND g, e_len = l\<rparr> ! i"
  by (auto simp: entry_header_bytes_def le16_def nth_Cons less_Suc_eq numeral_eq_Suc
      unsigned_and_eq drop_bit_and split: nat.splits)

lemma map_eq_bytes_at: "map src [0..<n] = bytes_at m a n \<longleftrightarrow> (\<forall>i<n. m (a + i) = src i)"
  by (auto simp: list_eq_iff_nth_eq)

lemma alive_invalid: "ENTRY_FLAG_ALIVE AND ENTRY_FLAG_INVALID = 0"
  by (simp add: ENTRY_FLAG_ALIVE_def ENTRY_FLAG_INVALID_def)

lemma clear_invalid:
  assumes "f AND ENTRY_FLAG_INVALID = 0"
  shows "(f OR ENTRY_FLAG_ALIVE OR ENTRY_FLAG_INVALID) AND NOT ENTRY_FLAG_INVALID =
    f OR ENTRY_FLAG_ALIVE"
proof (rule bit_eqI, goal_cases)
  case (1 k)
  have "\<not> (bit f k \<and> bit ENTRY_FLAG_INVALID k)"
    using arg_cong[OF assms, of "\<lambda>x. bit x k"] by (simp add: bit_simps)
  moreover have "\<not> (bit ENTRY_FLAG_ALIVE k \<and> bit ENTRY_FLAG_INVALID k)"
    using arg_cong[OF alive_invalid, of "\<lambda>x. bit x k"] by (simp add: bit_simps)
  ultimately show ?case using 1 by (auto simp: bit_simps)
qed

section \<open>Verified writes\<close>

context nor_rom
begin

abbreviation wmem :: "'d spworld \<Rightarrow> cptr" where
  "wmem w \<equiv> mem (w_flash w)"

abbreviation csize :: nat where
  "csize \<equiv> chip_size (sdk_flashchip fd)"

lemma small_addr: "a \<le> csize \<Longrightarrow> a < 4294967296 - 100000"
  using chip_24bit by simp

lemma flash_read_step:
  assumes "a + n \<le> csize"
  obtains d where "flash_read fd a n w = (SPI_FLASH_RESULT_OK, bytes_at (wmem w) a n, w\<lparr>w_flash := d\<rparr>)"
    and "mem d = wmem w"
proof
  let ?d = "snd (snd (sdk_spi_flash_read fd a False n (w_flash w)))"
  show "flash_read fd a n w = (SPI_FLASH_RESULT_OK, bytes_at (wmem w) a n, w\<lparr>w_flash := ?d\<rparr>)"
    using io.rd_ok[OF assms] io.rd_bytes[OF assms] by (simp add: flash_read_def split_beta)
  show "mem ?d = wmem w" by (rule io.rd_mem)
qed

lemma flash_write_step:
  assumes "4 dvd a" and "a + round4 n \<le> csize"
  obtains d where "flash_write fd a src n w = (SPI_FLASH_RESULT_OK, w\<lparr>w_flash := d\<rparr>)"
    and "mem d = nor_write a src (round4 n) (wmem w)"
proof
  let ?d = "snd (sdk_spi_flash_write fd a (Some src) n (w_flash w))"
  show "flash_write fd a src n w = (SPI_FLASH_RESULT_OK, w\<lparr>w_flash := ?d\<rparr>)"
    using io.wr_ok[OF assms] by (simp add: flash_write_def split_beta)
  show "mem ?d = nor_write a src (round4 n) (wmem w)" using assms by (rule io.wr_mem)
qed

lemma flash_erase_step:
  assumes "sec < csize div sector_size (sdk_flashchip fd)"
  obtains d where "flash_erase fd sec w = (SPI_FLASH_RESULT_OK, w\<lparr>w_flash := d\<rparr>)"
    and "mem d = nor_erase (sector_size (sdk_flashchip fd) * sec) (sector_size (sdk_flashchip fd)) (wmem w)"
proof
  let ?d = "snd (sdk_spi_flash_erase_sector fd sec (w_flash w))"
  show "flash_erase fd sec w = (SPI_FLASH_RESULT_OK, w\<lparr>w_flash := ?d\<rparr>)"
    using io.er_ok[OF assms] by (simp add: flash_erase_def split_beta)
  show "mem ?d = nor_erase (sector_size (sdk_flashchip fd) * sec) (sector_size (sdk_flashchip fd)) (wmem w)"
    using assms by (rule io.er_mem)
qed

lemma do_verify_step:
  assumes "a + n \<le> csize" and "\<And>i. i < n \<Longrightarrow> wmem w (a + i) = src i"
  obtains d where "do_verify fd a src n w = (SYSPARAM_OK, w\<lparr>w_flash := d\<rparr>)" and "mem d = wmem w"
proof -
  obtain d where "flash_read fd a n w = (SPI_FLASH_RESULT_OK, bytes_at (wmem w) a n, w\<lparr>w_flash := d\<rparr>)"
    and d: "mem d = wmem w"
    using assms(1) by (rule flash_read_step)
  moreover have "map src [0..<n] = bytes_at (wmem w) a n"
    using assms(2) by (simp add: map_eq_bytes_at)
  ultimately show ?thesis
    by (intro that[of d]) (simp_all add: do_verify_def)
qed

lemma verify_loop_step:
  assumes "a + n \<le> csize" and "\<And>i. i < n \<Longrightarrow> wmem w (a + i) = src i"
  shows "\<exists>d. verify_loop fd a src n i w = (SYSPARAM_OK, w\<lparr>w_flash := d\<rparr>) \<and> mem d = wmem w"
  using assms
proof (induction "n - i" arbitrary: i w rule: less_induct)
  case less
  show ?case
  proof (cases "i < n")
    case False
    then show ?thesis
      by (subst verify_loop.simps) (auto intro!: exI[of _ "w_flash w"])
  next
    case True
    let ?k = "min (n - i) VERIFY_BUF_SIZE"
    have k: "?k \<le> n - i" by simp
    obtain d where d: "do_verify fd (a + i) (\<lambda>j. src (i + j)) ?k w = (SYSPARAM_OK, w\<lparr>w_flash := d\<rparr>)"
      and m: "mem d = wmem w"
    proof (rule do_verify_step[of "a + i" ?k w "\<lambda>j. src (i + j)"])
      show "a + i + ?k \<le> csize" using less.prems(1) True k by linarith
      show "wmem w (a + i + j) = src (i + j)" if "j < ?k" for j
      proof -
        have "i + j < n" using that k by linarith
        then show ?thesis using less.prems(2)[of "i + j"] by (simp add: add.assoc)
      qed
    qed
    have "n - (i + VERIFY_BUF_SIZE) < n - i" using True by (simp add: VERIFY_BUF_SIZE_def)
    from less.hyps[OF this, of "w\<lparr>w_flash := d\<rparr>"] less.prems m obtain d' where
      "verify_loop fd a src n (i + VERIFY_BUF_SIZE) (w\<lparr>w_flash := d\<rparr>) =
         (SYSPARAM_OK, w\<lparr>w_flash := d'\<rparr>)" and "mem d' = wmem w"
      by auto
    moreover have "u32 (a + i) = a + i" using less.prems(1) True by (intro no_wrap) linarith
    ultimately show ?thesis
      using True d by (subst verify_loop.simps) auto
  qed
qed

text \<open>A write takes, and is read back as written, exactly when it clears no bit that the
  data needs set.\<close>

lemma write_and_verify_step:
  assumes "w_mallocs w = []" and "4 dvd a" and "a + round4 n \<le> csize"
    and "\<And>i. i < n \<Longrightarrow> wmem w (a + i) AND src i = src i"
  obtains d where "write_and_verify fd a src n w = (SYSPARAM_OK, w\<lparr>w_flash := d\<rparr>)"
    and "mem d = nor_write a src (round4 n) (wmem w)"
proof -
  let ?w1 = "w\<lparr>w_allocs := w_allocs w + 1\<rparr>"
  obtain d where d: "flash_write fd a src n ?w1 = (SPI_FLASH_RESULT_OK, ?w1\<lparr>w_flash := d\<rparr>)"
    and m: "mem d = nor_write a src (round4 n) (wmem w)"
    using flash_write_step[OF assms(2,3), of src ?w1] by auto
  have fit: "a + n \<le> csize" using assms(3) round4_ge(1)[of n] by linarith
  have "wmem (?w1\<lparr>w_flash := d\<rparr>) (a + i) = src i" if "i < n" for i
    using that assms(4)[OF that] round4_ge(1)[of n] m by (simp add: nor_write_def)
  from verify_loop_step[OF fit this, of 0] obtain d' where
    "verify_loop fd a src n 0 (?w1\<lparr>w_flash := d\<rparr>) = (SYSPARAM_OK, ?w1\<lparr>w_flash := d'\<rparr>)"
    and "mem d' = mem d" by auto
  with d m assms(1) show ?thesis
    by (intro that[of d']) (simp_all add: write_and_verify_def malloc_def do_write_def free_def)
qed

section \<open>Entries\<close>

lemma header_write_step:
  assumes "w_mallocs w = []" and "4 dvd a" and "a + 4 \<le> csize"
    and "\<And>i. i < 4 \<Longrightarrow> wmem w (a + i) AND entry_header_bytes e ! i = entry_header_bytes e ! i"
  obtains d where "write_and_verify fd a (cbuf (entry_header_bytes e) junk) ENTRY_HEADER_SIZE w =
      (SYSPARAM_OK, w\<lparr>w_flash := d\<rparr>)"
    and "bytes_at (mem d) a 4 = entry_header_bytes e"
    and "\<And>i. i < a \<or> a + 4 \<le> i \<Longrightarrow> mem d i = wmem w i"
proof -
  obtain d where d: "write_and_verify fd a (cbuf (entry_header_bytes e) junk) ENTRY_HEADER_SIZE w =
      (SYSPARAM_OK, w\<lparr>w_flash := d\<rparr>)"
    and m: "mem d = nor_write a (cbuf (entry_header_bytes e) junk) 4 (wmem w)"
    using write_and_verify_step[of w a 4 "cbuf (entry_header_bytes e) junk"] assms
    by (auto simp: ENTRY_HEADER_SIZE_def)
  show ?thesis
  proof (rule that[OF d])
    show "bytes_at (mem d) a 4 = entry_header_bytes e"
      using assms(4) by (intro nth_equalityI) (simp_all add: m nor_write_def)
    show "mem d i = wmem w i" if "i < a \<or> a + 4 \<le> i" for i
      using that by (simp add: m nor_write_outside)
  qed
qed

text \<open>\<open>_write_entry\<close> on erased flash: the entry is complete and valid, the rest of the array is
  untouched, and the end of the log moves when the entry is written at the end.\<close>

lemma write_entry_step:
  assumes "w_mallocs w = []" and "4 dvd a" and "a + entry_extent (unat plen) \<le> csize"
    and "erased (wmem w) a (entry_extent (unat plen))" and "eid AND ENTRY_FLAG_INVALID = 0"
  obtains d where "write_entry fd a eid payload plen w =
      (SYSPARAM_OK, (bump_end a (entry_extent (unat plen)) w)\<lparr>w_flash := d\<rparr>)"
    and "bytes_at (mem d) a 4 = entry_header_bytes \<lparr>e_idflags = eid OR ENTRY_FLAG_ALIVE, e_len = plen\<rparr>"
    and "bytes_at (mem d) (a + 4) (unat plen) = map payload [0..<unat plen]"
    and "\<And>i. i < a \<or> a + entry_extent (unat plen) \<le> i \<Longrightarrow> mem d i = wmem w i"
proof -
  let ?n = "unat plen"
  let ?f = "eid OR ENTRY_FLAG_ALIVE OR ENTRY_FLAG_INVALID"
  let ?e = "\<lparr>e_idflags = ?f, e_len = plen\<rparr>"
  let ?g = "eid OR ENTRY_FLAG_ALIVE"
  let ?e' = "\<lparr>e_idflags = ?g, e_len = plen\<rparr>"
  note fg = clear_invalid[OF assms(5)]
  have gf: "?f AND ?g = ?g" by (rule bit_eqI) (auto simp: bit_simps)
  have ext: "entry_extent ?n = 4 + round4 ?n" by (simp add: entry_extent_def)
  have fit4: "a + 4 \<le> csize" and fitp: "a + 4 + round4 ?n \<le> csize" using assms(3) ext by linarith+
  have "wmem w (a + i) = 255" if "i < 4" for i
    using assms(4) that ext by (simp add: erased_def)
  then obtain d1 where d1: "write_and_verify fd a (cbuf (entry_header_bytes ?e) (w_junk w)) ENTRY_HEADER_SIZE w =
      (SYSPARAM_OK, w\<lparr>w_flash := d1\<rparr>)"
    and h1: "bytes_at (mem d1) a 4 = entry_header_bytes ?e"
    and o1: "\<And>i. i < a \<or> a + 4 \<le> i \<Longrightarrow> mem d1 i = wmem w i"
    using header_write_step[OF assms(1,2) fit4, of ?e "w_junk w"] by auto
  let ?w1 = "w\<lparr>w_flash := d1\<rparr>"
  let ?w2 = "bump_end a (ENTRY_SIZE ?n) ?w1"
  have w2: "w_mallocs ?w2 = []" "w_flash ?w2 = d1" "w_junk ?w2 = w_junk w"
    using assms(1) by (simp_all add: bump_end_def)
  have "4 dvd a + 4" using assms(2) by simp
  moreover have "wmem ?w2 (a + 4 + i) AND payload i = payload i" if "i < ?n" for i
  proof -
    have "i < round4 ?n" using that round4_ge(1)[of ?n] by linarith
    then have "wmem w (a + 4 + i) = 255" using assms(4) by (simp add: erased_def ext)
    then show ?thesis using o1[of "a + 4 + i"] w2 by simp
  qed
  ultimately obtain d2 where d2: "write_and_verify fd (a + 4) payload ?n ?w2 = (SYSPARAM_OK, ?w2\<lparr>w_flash := d2\<rparr>)"
    and m2: "mem d2 = nor_write (a + 4) payload (round4 ?n) (mem d1)"
    using write_and_verify_step[OF w2(1) _ fitp, of payload] w2(2) by auto
  have p2: "mem d2 (a + 4 + i) = payload i" if "i < ?n" for i
  proof -
    have i: "i < round4 ?n" using that round4_ge(1)[of ?n] by linarith
    then have "mem d1 (a + 4 + i) = 255" using assms(4) o1[of "a + 4 + i"] by (simp add: erased_def ext)
    with i show ?thesis by (simp add: m2 nor_write_def)
  qed
  have h2: "mem d2 (a + i) = entry_header_bytes ?e ! i" if "i < 4" for i
    using that h1 m2 by (metis add.commute bytes_at_nth nat_add_left_cancel_less nor_write_outside)
  let ?w3 = "?w2\<lparr>w_flash := d2\<rparr>"
  have "w_mallocs ?w3 = []" using w2 by simp
  moreover have "wmem ?w3 (a + i) AND entry_header_bytes ?e' ! i = entry_header_bytes ?e' ! i" if "i < 4" for i
    using that h2 entry_header_bytes_and[OF that, of ?f plen ?g] gf by simp
  ultimately obtain d3 where d3: "write_and_verify fd a (cbuf (entry_header_bytes ?e') (w_junk ?w3)) ENTRY_HEADER_SIZE ?w3 =
      (SYSPARAM_OK, ?w3\<lparr>w_flash := d3\<rparr>)"
    and h3: "bytes_at (mem d3) a 4 = entry_header_bytes ?e'"
    and o3: "\<And>i. i < a \<or> a + 4 \<le> i \<Longrightarrow> mem d3 i = mem d2 i"
    using header_write_step[of ?w3 a ?e' "w_junk ?w3"] assms(2) fit4 by auto
  have n: "?n < 65536" using unsigned_less[of plen] by simp
  have wr: "u32 (a + ENTRY_HEADER_SIZE) = a + 4"
    using fit4 by (simp add: ENTRY_HEADER_SIZE_def no_wrap)
  show ?thesis
  proof (rule that[of d3])
    show "write_entry fd a eid payload plen w = (SYSPARAM_OK, (bump_end a (entry_extent ?n) w)\<lparr>w_flash := d3\<rparr>)"
      using d1 d2 d3 n wr fg by (simp add: write_entry_def Let_def ENTRY_SIZE_extent bump_end_def)
    show "bytes_at (mem d3) (a + 4) ?n = map payload [0..<?n]"
      using o3 p2 by (intro nth_equalityI) auto
    show "mem d3 i = wmem w i" if "i < a \<or> a + entry_extent ?n \<le> i" for i
      using that o1[of i] o3[of i] ext by (auto simp: m2 nor_write_outside)
  qed (rule h3)
qed

lemma delete_entry_step:
  assumes "4 dvd a" and "a + 4 \<le> csize"
    and "bytes_at (wmem w) a 4 = entry_header_bytes \<lparr>e_idflags = f, e_len = l\<rparr>"
  obtains d where "delete_entry fd a w = (SYSPARAM_OK, w\<lparr>w_flash := d\<rparr>)"
    and "bytes_at (mem d) a 4 = entry_header_bytes \<lparr>e_idflags = f AND NOT ENTRY_FLAG_ALIVE, e_len = l\<rparr>"
    and "\<And>i. i < a \<or> a + 4 \<le> i \<Longrightarrow> mem d i = wmem w i"
proof -
  let ?g = "f AND NOT ENTRY_FLAG_ALIVE"
  let ?e' = "\<lparr>e_idflags = ?g, e_len = l\<rparr>"
  obtain d1 where d1: "flash_read fd a 4 w = (SPI_FLASH_RESULT_OK, bytes_at (wmem w) a 4, w\<lparr>w_flash := d1\<rparr>)"
    and m1: "mem d1 = wmem w"
    using assms(2) by (rule flash_read_step)
  obtain d2 where d2: "flash_write fd a (cbuf (entry_header_bytes ?e') (w_junk w)) 4 (w\<lparr>w_flash := d1\<rparr>) =
      (SPI_FLASH_RESULT_OK, w\<lparr>w_flash := d2\<rparr>)"
    and m2: "mem d2 = nor_write a (cbuf (entry_header_bytes ?e') (w_junk w)) 4 (wmem w)"
    using flash_write_step[of a 4 "cbuf (entry_header_bytes ?e') (w_junk w)" "w\<lparr>w_flash := d1\<rparr>"] assms(1,2) m1
    by auto
  have gf: "f AND ?g = ?g" by (rule bit_eqI) (auto simp: bit_simps)
  have old: "wmem w (a + i) = entry_header_bytes \<lparr>e_idflags = f, e_len = l\<rparr> ! i" if "i < 4" for i
    using that assms(3) by (metis bytes_at_nth)
  show ?thesis
  proof (rule that[of d2])
    show "delete_entry fd a w = (SYSPARAM_OK, w\<lparr>w_flash := d2\<rparr>)"
      using d1 d2 assms(3) by (simp add: delete_entry_def ENTRY_HEADER_SIZE_def entry_header_of_bytes)
    show "bytes_at (mem d2) a 4 = entry_header_bytes ?e'"
      using old entry_header_bytes_and[of _ f l ?g] gf
      by (intro nth_equalityI) (simp_all add: m2 nor_write_def)
    show "mem d2 i = wmem w i" if "i < a \<or> a + 4 \<le> i" for i
      using that by (simp add: m2 nor_write_outside)
  qed
qed

end

end
