(* ===== verification/Sysparam_Log.thy ===== *)
theory Sysparam_Log
  imports Sysparam_Flash
begin

text \<open>
  The parameter region as a log: the list of entries that the flash array holds, and the search
  routines of \<^verbatim>\<open>sysparam.c\<close> as searches of that list. \<open>log_at\<close> relates an array to a list of
  entries; \<open>log_scan\<close> is what one call of \<open>_find_entry\<close> does to the list; \<open>log_lookup\<close> is the
  abstract store, the value a key has.
\<close>

section \<open>The abstract log\<close>

type_synonym entry = "16 word \<times> byte list"

definition live :: "16 word \<Rightarrow> bool" where
  "live f \<longleftrightarrow> f AND (ENTRY_FLAG_ALIVE OR ENTRY_FLAG_INVALID) = ENTRY_FLAG_ALIVE"

definition is_value :: "16 word \<Rightarrow> bool" where
  "is_value f \<longleftrightarrow> f AND ENTRY_FLAG_VALUE \<noteq> 0"

definition entry_id :: "16 word \<Rightarrow> 16 word" where
  "entry_id f = f AND ENTRY_MASK_ID"

definition entry_hdr :: "entry \<Rightarrow> entry_header" where
  "entry_hdr x = \<lparr>e_idflags = fst x, e_len = word_of_nat (length (snd x))\<rparr>"

definition log_size :: "entry list \<Rightarrow> nat" where
  "log_size es = sum_list (map (\<lambda>x. entry_extent (length (snd x))) es)"

fun log_at :: "cptr \<Rightarrow> nat \<Rightarrow> entry list \<Rightarrow> nat \<Rightarrow> bool" where
  "log_at m a [] e \<longleftrightarrow> e = a"
| "log_at m a (x # xs) e \<longleftrightarrow>
     bytes_at m a 4 = entry_header_bytes (entry_hdr x)
     \<and> bytes_at m (a + 4) (length (snd x)) = snd x
     \<and> fst x \<noteq> 0xffff \<and> length (snd x) < 65536
     \<and> log_at m (a + entry_extent (length (snd x))) xs e"

definition matches :: "16 word \<Rightarrow> bool \<Rightarrow> entry \<Rightarrow> bool" where
  "matches m fv x \<longleftrightarrow>
     live (fst x) \<and> is_value (fst x) = fv \<and> (entry_id (fst x) = m \<or> m = ENTRY_ID_ANY)"

fun log_scan ::
  "nat \<Rightarrow> entry list \<Rightarrow> 16 word \<Rightarrow> bool \<Rightarrow> sysparam_context \<Rightarrow> (entry \<times> entry list) option \<times> sysparam_context" where
  "log_scan a [] m fv ctx = (None, ctx\<lparr>ctx_addr := a\<rparr>)"
| "log_scan a (x # xs) m fv ctx =
     (case find_entry_examine (ctx\<lparr>ctx_addr := a, ctx_entry := entry_hdr x\<rparr>) m fv of
        (found, ctx') \<Rightarrow>
          if found then (Some (x, xs), ctx')
          else log_scan (a + entry_extent (length (snd x))) xs m fv ctx')"

text \<open>The id of the last live key, which the code takes for the largest.\<close>

fun last_key_id :: "16 word \<Rightarrow> entry list \<Rightarrow> 16 word" where
  "last_key_id d [] = d"
| "last_key_id d (x # xs) =
     last_key_id (if live (fst x) \<and> \<not> is_value (fst x) then entry_id (fst x) else d) xs"

text \<open>The abstract store: the first live key entry with the wanted name, then the first live
  value entry after it with the same id.\<close>

definition find_first :: "('a \<Rightarrow> bool) \<Rightarrow> 'a list \<Rightarrow> ('a \<times> 'a list) option" where
  "find_first P xs = (case dropWhile (\<lambda>x. \<not> P x) xs of [] \<Rightarrow> None | x # ys \<Rightarrow> Some (x, ys))"

definition log_value :: "16 word \<Rightarrow> entry list \<Rightarrow> (byte list \<times> bool) option" where
  "log_value i es =
     map_option (\<lambda>(x, _). (snd x, fst x AND ENTRY_FLAG_BINARY \<noteq> 0)) (find_first (matches i True) es)"

definition is_key :: "byte list \<Rightarrow> entry \<Rightarrow> bool" where
  "is_key k x \<longleftrightarrow> live (fst x) \<and> \<not> is_value (fst x) \<and> snd x = k"

definition log_lookup :: "entry list \<Rightarrow> byte list \<Rightarrow> (byte list \<times> bool) option" where
  "log_lookup es k =
     (case find_first (is_key k) es of
        None \<Rightarrow> None
      | Some (x, rest) \<Rightarrow> log_value (entry_id (fst x)) rest)"

text \<open>Well-formed logs, which the code keeps: the live keys have increasing ids up to the largest
  usable one and different names; at most one live value has a given id, and it stands after a
  live key with that id.\<close>

definition log_keys :: "entry list \<Rightarrow> entry list" where
  "log_keys es = filter (\<lambda>x. live (fst x) \<and> \<not> is_value (fst x)) es"

definition log_vals :: "entry list \<Rightarrow> entry list" where
  "log_vals es = filter (\<lambda>x. live (fst x) \<and> is_value (fst x)) es"

fun vals_after_keys :: "16 word set \<Rightarrow> entry list \<Rightarrow> bool" where
  "vals_after_keys ids [] = True"
| "vals_after_keys ids (x # xs) =
     (if live (fst x) then
        (if is_value (fst x) then entry_id (fst x) \<in> ids \<and> vals_after_keys ids xs
         else vals_after_keys (insert (entry_id (fst x)) ids) xs)
      else vals_after_keys ids xs)"

definition wf_log :: "entry list \<Rightarrow> bool" where
  "wf_log es \<longleftrightarrow>
     sorted_wrt (<) (map (\<lambda>x. entry_id (fst x)) (log_keys es))
     \<and> (\<forall>x \<in> set (log_keys es). entry_id (fst x) \<le> MAX_KEY_ID)
     \<and> distinct (map snd (log_keys es))
     \<and> distinct (map (\<lambda>x. entry_id (fst x)) (log_vals es))
     \<and> vals_after_keys {} es"

text \<open>The active region holds a log: aligned, inside the chip, the log ends where the code
  thinks it does, and the space after it is erased.\<close>

definition region_ok :: "nat \<Rightarrow> sysparam_info \<Rightarrow> bool" where
  "region_ok csz i \<longleftrightarrow>
     cur_base i \<noteq> 0 \<and> 4 dvd cur_base i \<and> 4 dvd region_size i \<and> 8 < region_size i
     \<and> cur_base i + region_size i \<le> csz"

definition holds_log :: "nat \<Rightarrow> cptr \<Rightarrow> sysparam_info \<Rightarrow> entry list \<Rightarrow> bool" where
  "holds_log csz m i es \<longleftrightarrow>
     region_ok csz i \<and> log_at m (cur_base i + 8) es (end_addr i)
     \<and> end_addr i \<le> cur_base i + region_size i
     \<and> erased m (end_addr i) (cur_base i + region_size i - end_addr i)"

text \<open>\<open>a\<close> is where the search goes on from a context: past the region header, or past the entry
  the context points to.\<close>

definition next_pos :: "sysparam_context \<Rightarrow> sysparam_info \<Rightarrow> nat \<Rightarrow> bool" where
  "next_pos ctx i a \<longleftrightarrow>
     (if ctx_addr ctx = cur_base i then a = cur_base i + 8
      else cur_base i + 8 \<le> ctx_addr ctx
        \<and> a = ctx_addr ctx + entry_extent (unat (e_len (ctx_entry ctx))))"

text \<open>What a search leaves: the flash array and the rest of the world as they were, the context
  as the scan of the log leaves it. (When the search ran off the end, the entry of the context is
  cleared unless the end was what was asked for.)\<close>

definition scan_outcome ::
  "('d \<Rightarrow> cptr) \<Rightarrow> 16 word \<Rightarrow> 'd spworld \<Rightarrow> 'r option \<times> sysparam_context \<Rightarrow>
     (sysparam_status_t \<times> sysparam_context \<times> 'd spworld) option \<Rightarrow> bool" where
  "scan_outcome mem m w rc res \<longleftrightarrow>
     (\<exists>d h. mem d = mem (w_flash w) \<and>
        res = (case rc of
            (Some _, c) \<Rightarrow> Some (SYSPARAM_OK, c, w\<lparr>w_flash := d\<rparr>)
          | (None, c) \<Rightarrow>
              (if m = ENTRY_ID_END then Some (SYSPARAM_OK, c\<lparr>ctx_entry := h\<rparr>, w\<lparr>w_flash := d\<rparr>)
               else Some (SYSPARAM_NOTFOUND, c\<lparr>ctx_entry := zero_entry\<rparr>, w\<lparr>w_flash := d\<rparr>))))"

section \<open>Lists\<close>

lemma find_first_Nil [simp]: "find_first P [] = None"
  by (simp add: find_first_def)

lemma find_first_Cons: "find_first P (x # xs) = (if P x then Some (x, xs) else find_first P xs)"
  by (simp add: find_first_def)

lemma find_first_None: "find_first P xs = None \<longleftrightarrow> (\<forall>x \<in> set xs. \<not> P x)"
  by (induction xs) (auto simp: find_first_Cons)

lemma find_first_Some:
  "find_first P xs = Some (x, ys) \<longleftrightarrow> (\<exists>pre. xs = pre @ x # ys \<and> P x \<and> (\<forall>y \<in> set pre. \<not> P y))"
proof (induction xs)
  case Nil
  then show ?case by simp
next
  case (Cons z zs)
  show ?case
  proof
    assume "find_first P (z # zs) = Some (x, ys)"
    then consider "P z" "x = z" "ys = zs" | "\<not> P z" "find_first P zs = Some (x, ys)"
      by (auto simp: find_first_Cons split: if_splits)
    then show "\<exists>pre. z # zs = pre @ x # ys \<and> P x \<and> (\<forall>y \<in> set pre. \<not> P y)"
    proof cases
      case 1
      then show ?thesis by (intro exI[of _ "[]"]) simp
    next
      case 2
      then obtain pre where "zs = pre @ x # ys" "P x" "\<forall>y \<in> set pre. \<not> P y"
        using Cons by blast
      with 2 show ?thesis by (intro exI[of _ "z # pre"]) simp
    qed
  next
    assume "\<exists>pre. z # zs = pre @ x # ys \<and> P x \<and> (\<forall>y \<in> set pre. \<not> P y)"
    then obtain pre where pre: "z # zs = pre @ x # ys" "P x" "\<forall>y \<in> set pre. \<not> P y" by blast
    with Cons show "find_first P (z # zs) = Some (x, ys)"
      by (cases pre) (auto simp: find_first_Cons)
  qed
qed

lemma find_first_append:
  "find_first P (xs @ ys) =
     (case find_first P xs of None \<Rightarrow> find_first P ys | Some (x, r) \<Rightarrow> Some (x, r @ ys))"
  by (induction xs) (auto simp: find_first_Cons split: option.splits)

lemma log_size_simps [simp]:
  "log_size [] = 0" "log_size (x # xs) = entry_extent (length (snd x)) + log_size xs"
  "log_size (xs @ ys) = log_size xs + log_size ys"
  by (simp_all add: log_size_def)

lemma log_at_end: "log_at m a es e \<Longrightarrow> e = a + log_size es"
proof (induction es arbitrary: a)
  case (Cons x xs)
  then have "e = a + entry_extent (length (snd x)) + log_size xs" by simp
  then show ?case by simp
qed simp

lemma log_at_append:
  "log_at m a (xs @ ys) e \<longleftrightarrow> log_at m a xs (a + log_size xs) \<and> log_at m (a + log_size xs) ys e"
  by (induction xs arbitrary: a) (auto simp: add.assoc)

lemma log_at_cong:
  assumes "\<And>i. a \<le> i \<Longrightarrow> i < a + log_size es \<Longrightarrow> m' i = m i"
  shows "log_at m' a es e = log_at m a es e"
  using assms
proof (induction es arbitrary: a)
  case Nil
  then show ?case by simp
next
  case (Cons x xs)
  let ?n = "length (snd x)"
  have ext: "4 + ?n \<le> entry_extent ?n" by (rule entry_extent_bounds)
  have "bytes_at m' a 4 = bytes_at m a 4" "bytes_at m' (a + 4) ?n = bytes_at m (a + 4) ?n"
    using ext by (auto intro!: bytes_at_cong Cons.prems)
  moreover have "log_at m' (a + entry_extent ?n) xs e = log_at m (a + entry_extent ?n) xs e"
    by (rule Cons.IH) (simp add: Cons.prems)
  ultimately show ?case by simp
qed

lemma last_key_id_append: "last_key_id d (xs @ ys) = last_key_id (last_key_id d xs) ys"
  by (induction xs arbitrary: d) auto

section \<open>One scan of the log\<close>

lemma examine_matches:
  "fst (find_entry_examine (ctx\<lparr>ctx_addr := a, ctx_entry := entry_hdr x\<rparr>) m fv) = matches m fv x"
  by (auto simp: find_entry_examine_def matches_def live_def is_value_def entry_id_def entry_hdr_def Let_def)

lemma examine_ctx:
  fixes ctx a x m fv
  defines "c \<equiv> snd (find_entry_examine (ctx\<lparr>ctx_addr := a, ctx_entry := entry_hdr x\<rparr>) m fv)"
  shows "ctx_addr c = a" "ctx_entry c = entry_hdr x"
    "ctx_max_key_id c =
       (if live (fst x) \<and> \<not> is_value (fst x) then entry_id (fst x) else ctx_max_key_id ctx)"
  by (auto simp: c_def find_entry_examine_def live_def is_value_def entry_id_def entry_hdr_def Let_def)

lemma log_scan_find: "fst (log_scan a es m fv ctx) = find_first (matches m fv) es"
proof (induction es arbitrary: a ctx)
  case (Cons x xs)
  then show ?case
    using examine_matches[of x a ctx m fv] by (auto simp: find_first_Cons split_beta)
qed simp

lemma log_scan_found:
  assumes "find_first (matches m fv) es = Some (x, rest)"
  obtains pre where "es = pre @ x # rest"
    and "ctx_addr (snd (log_scan a es m fv ctx)) = a + log_size pre"
    and "ctx_entry (snd (log_scan a es m fv ctx)) = entry_hdr x"
    and "ctx_max_key_id (snd (log_scan a es m fv ctx)) = last_key_id (ctx_max_key_id ctx) (pre @ [x])"
proof -
  have "\<exists>pre. es = pre @ x # rest \<and> ctx_addr (snd (log_scan a es m fv ctx)) = a + log_size pre
      \<and> ctx_entry (snd (log_scan a es m fv ctx)) = entry_hdr x
      \<and> ctx_max_key_id (snd (log_scan a es m fv ctx)) = last_key_id (ctx_max_key_id ctx) (pre @ [x])"
    using assms
  proof (induction es arbitrary: a ctx)
    case (Cons y ys)
    show ?case
    proof (cases "matches m fv y")
      case True
      with Cons.prems have "y = x" "ys = rest" by (auto simp: find_first_Cons)
      with True show ?thesis
        using examine_matches[of y a ctx m fv] examine_ctx[of y a ctx m fv]
        by (intro exI[of _ "[]"]) (simp add: split_beta)
    next
      case False
      let ?c = "snd (find_entry_examine (ctx\<lparr>ctx_addr := a, ctx_entry := entry_hdr y\<rparr>) m fv)"
      have "find_first (matches m fv) ys = Some (x, rest)"
        using Cons.prems False by (simp add: find_first_Cons)
      from Cons.IH[OF this] obtain pre where "ys = pre @ x # rest"
        "ctx_addr (snd (log_scan (a + entry_extent (length (snd y))) ys m fv ?c)) =
           a + entry_extent (length (snd y)) + log_size pre"
        "ctx_entry (snd (log_scan (a + entry_extent (length (snd y))) ys m fv ?c)) = entry_hdr x"
        "ctx_max_key_id (snd (log_scan (a + entry_extent (length (snd y))) ys m fv ?c)) =
           last_key_id (ctx_max_key_id ?c) (pre @ [x])"
        by blast
      with False show ?thesis
        using examine_matches[of y a ctx m fv] examine_ctx(3)[of y a ctx m fv]
        by (intro exI[of _ "y # pre"]) (simp add: split_beta)
    qed
  qed simp
  then show ?thesis using that by blast
qed

lemma log_scan_none:
  assumes "find_first (matches m fv) es = None"
  shows "ctx_addr (snd (log_scan a es m fv ctx)) = a + log_size es"
    and "ctx_max_key_id (snd (log_scan a es m fv ctx)) = last_key_id (ctx_max_key_id ctx) es"
proof -
  have "ctx_addr (snd (log_scan a es m fv ctx)) = a + log_size es \<and>
      ctx_max_key_id (snd (log_scan a es m fv ctx)) = last_key_id (ctx_max_key_id ctx) es"
    using assms
  proof (induction es arbitrary: a ctx)
    case (Cons y ys)
    then have "\<not> matches m fv y" "find_first (matches m fv) ys = None"
      by (auto simp: find_first_Cons split: if_splits)
    with Cons.IH[OF this(2)] show ?case
      using examine_matches[of y a ctx m fv] examine_ctx(3)[of y a ctx m fv]
      by (simp add: split_beta add.assoc)
  qed simp
  then show "ctx_addr (snd (log_scan a es m fv ctx)) = a + log_size es"
    and "ctx_max_key_id (snd (log_scan a es m fv ctx)) = last_key_id (ctx_max_key_id ctx) es"
    by auto
qed

section \<open>The search routines search the log\<close>

lemma unat_len [simp]: "length p < 65536 \<Longrightarrow> unat (word_of_nat (length p) :: 16 word) = length p"
  by (simp add: unat_of_nat)

lemma len16: "unat (l :: 16 word) < 65536"
  using unsigned_less[of l] by simp

lemma entry_hdr_sel [simp]:
  "e_idflags (entry_hdr x) = fst x" "e_len (entry_hdr x) = word_of_nat (length (snd x))"
  by (simp_all add: entry_hdr_def)

lemma erased_header:
  assumes "erased m a 4"
  shows "e_idflags (entry_header_of (bytes_at m a 4) old) = 0xffff"
proof -
  have "bytes_at m a 4 = [255, 255, 255, 255]"
    using assms by (simp add: bytes_at_4 erased_def)
  then show ?thesis by (simp add: entry_header_of_def of_le16_def)
qed

lemma next_pos_entry:
  assumes "cur_base i + 8 \<le> a" and "length p < 65536"
    and "ctx_addr c = a" and "ctx_entry c = entry_hdr (f, p)"
  shows "next_pos c i (a + entry_extent (length p))"
  using assms by (auto simp: next_pos_def)

lemma scan_outcome_flash:
  "scan_outcome mem m (w\<lparr>w_flash := d\<rparr>) rc res \<Longrightarrow> mem d = mem (w_flash w) \<Longrightarrow>
     scan_outcome mem m w rc res"
proof -
  assume "scan_outcome mem m (w\<lparr>w_flash := d\<rparr>) rc res" and d: "mem d = mem (w_flash w)"
  then obtain d' h where "mem d' = mem (w_flash w)"
    and "res = (case rc of
        (Some _, c) \<Rightarrow> Some (SYSPARAM_OK, c, w\<lparr>w_flash := d, w_flash := d'\<rparr>)
      | (None, c) \<Rightarrow>
          (if m = ENTRY_ID_END then Some (SYSPARAM_OK, c\<lparr>ctx_entry := h\<rparr>, w\<lparr>w_flash := d, w_flash := d'\<rparr>)
           else Some (SYSPARAM_NOTFOUND, c\<lparr>ctx_entry := zero_entry\<rparr>, w\<lparr>w_flash := d, w_flash := d'\<rparr>)))"
    unfolding scan_outcome_def by auto
  then show ?thesis
    unfolding scan_outcome_def
    by (intro exI[of _ d'] exI[of _ h]) (simp split: prod.split option.split)
qed

context nor_rom
begin

lemma advance_step:
  assumes "region_ok csize i" and "next_pos ctx i a" and "a \<le> cur_base i + region_size i"
  shows "find_entry_advance ctx i =
    (a = cur_base i + region_size i, ctx\<lparr>ctx_addr := a\<rparr>, i)"
proof -
  let ?lim = "cur_base i + region_size i"
  have lim: "?lim \<le> csize" and big: "8 < region_size i" using assms(1) by (auto simp: region_ok_def)
  have wl: "u32 ?lim = ?lim" and wa: "u32 a = a" using lim assms(3) by (auto intro: no_wrap)
  show ?thesis
  proof (cases "ctx_addr ctx = cur_base i")
    case True
    then have "a = cur_base i + 8" using assms(2) by (simp add: next_pos_def)
    with True wa big show ?thesis
      by (simp add: find_entry_advance_def REGION_HEADER_SIZE_def)
  next
    case False
    then have a: "a = ctx_addr ctx + ENTRY_SIZE (unat (e_len (ctx_entry ctx)))"
      using assms(2) by (simp add: next_pos_def ENTRY_SIZE_extent len16)
    show ?thesis
      using False assms(3) by (simp add: find_entry_advance_def Let_def wl a[symmetric] wa)
  qed
qed

lemma find_entry_log:
  assumes "region_ok csize (w_info w)"
    and "cur_base (w_info w) + 8 \<le> a" and "next_pos ctx (w_info w) a"
    and "log_at (wmem w) a es e" and "e \<le> cur_base (w_info w) + region_size (w_info w)"
    and "e < cur_base (w_info w) + region_size (w_info w) \<Longrightarrow>
      e + 4 \<le> cur_base (w_info w) + region_size (w_info w) \<and> erased (wmem w) e 4"
    and "length es < fuel"
  shows "scan_outcome mem m w (log_scan a es m fv ctx) (find_entry fuel fd ctx m fv w)"
  using assms
proof (induction es arbitrary: a ctx w fuel)
  case Nil
  let ?i = "w_info w"
  let ?lim = "cur_base ?i + region_size ?i"
  have e: "e = a" using Nil.prems(4) by simp
  obtain f where f: "fuel = Suc f" using Nil.prems(7) by (cases fuel) auto
  have adv: "find_entry_advance ctx ?i = (a = ?lim, ctx\<lparr>ctx_addr := a\<rparr>, ?i)"
    using Nil.prems e by (intro advance_step) auto
  show ?case
  proof (cases "a = ?lim")
    case True
    then show ?thesis
      using adv f
      by (auto simp: scan_outcome_def find_entry_exhausted_def
          intro!: exI[of _ "w_flash w"] exI[of _ "ctx_entry ctx"])
  next
    case False
    then have rd: "a + 4 \<le> ?lim" "erased (wmem w) a 4" using Nil.prems(5,6) e by auto
    then have "a + 4 \<le> csize" using Nil.prems(1) by (auto simp: region_ok_def)
    then obtain d where "flash_read fd a 4 w = (SPI_FLASH_RESULT_OK, bytes_at (wmem w) a 4, w\<lparr>w_flash := d\<rparr>)"
      and "mem d = wmem w" by (rule flash_read_step)
    with False adv f erased_header[OF rd(2)] show ?thesis
      by (auto simp: scan_outcome_def find_entry_exhausted_def ENTRY_HEADER_SIZE_def Let_def
          intro!: exI[of _ d])
  qed
next
  case (Cons x xs)
  let ?i = "w_info w"
  let ?lim = "cur_base ?i + region_size ?i"
  let ?b = "a + entry_extent (length (snd x))"
  let ?c1 = "ctx\<lparr>ctx_addr := a, ctx_entry := entry_hdr x\<rparr>"
  obtain f where f: "fuel = Suc f" "length xs < f" using Cons.prems(7) by (cases fuel) auto
  have x: "bytes_at (wmem w) a 4 = entry_header_bytes (entry_hdr x)" "fst x \<noteq> 0xffff"
    "length (snd x) < 65536" "log_at (wmem w) ?b xs e"
    using Cons.prems(4) by auto
  have ext: "a + 4 \<le> ?b" "?b \<le> e" using entry_extent_bounds(1)[of "length (snd x)"] log_at_end[OF x(4)] by auto
  have adv: "find_entry_advance ctx ?i = (False, ctx\<lparr>ctx_addr := a\<rparr>, ?i)"
    using advance_step[OF Cons.prems(1,3)] Cons.prems(5) ext by auto
  have "a + 4 \<le> csize" using ext Cons.prems(1,5) by (auto simp: region_ok_def)
  then obtain d where d: "flash_read fd a 4 w = (SPI_FLASH_RESULT_OK, bytes_at (wmem w) a 4, w\<lparr>w_flash := d\<rparr>)"
    and md: "mem d = wmem w" by (rule flash_read_step)
  let ?ex = "find_entry_examine ?c1 m fv"
  have unf: "find_entry fuel fd ctx m fv w =
      (if fst ?ex then Some (SYSPARAM_OK, snd ?ex, w\<lparr>w_flash := d\<rparr>)
       else find_entry f fd (snd ?ex) m fv (w\<lparr>w_flash := d\<rparr>))"
    using f(1) adv d x(1,2)
    by (simp add: ENTRY_HEADER_SIZE_def Let_def entry_header_of_bytes split_beta)
  show ?case
  proof (cases "fst ?ex")
    case True
    then show ?thesis using unf md by (auto simp: scan_outcome_def split_beta)
  next
    case False
    have pos: "next_pos (snd ?ex) ?i ?b"
      using Cons.prems(2) x(3) examine_ctx[of x a ctx m fv]
      by (intro next_pos_entry[of _ a "snd x" _ "fst x"]) auto
    have "scan_outcome mem m (w\<lparr>w_flash := d\<rparr>) (log_scan ?b xs m fv (snd ?ex))
        (find_entry f fd (snd ?ex) m fv (w\<lparr>w_flash := d\<rparr>))"
      using Cons.prems md pos x(4) f(2) by (intro Cons.IH) auto
    then have "scan_outcome mem m w (log_scan ?b xs m fv (snd ?ex))
        (find_entry f fd (snd ?ex) m fv (w\<lparr>w_flash := d\<rparr>))"
      using md by (rule scan_outcome_flash)
    moreover have "log_scan a (x # xs) m fv ctx = log_scan ?b xs m fv (snd ?ex)"
      using False by (simp add: split_beta)
    ultimately show ?thesis using unf False by simp
  qed
qed

end

end
