(* ===== verification/Sysparam_Read.thy ===== *)
theory Sysparam_Read
  imports Sysparam_Log
begin

text \<open>
  Reading parameters: \<open>_find_key\<close>, \<open>_find_value\<close> and \<open>sysparam_get_data\<close> return what the
  abstract store \<open>log_lookup\<close> of the active region says, and leave the flash array alone.
\<close>

section \<open>Searching for keys\<close>

lemma is_key_matches: "is_key k x \<Longrightarrow> matches ENTRY_ID_ANY False x"
  by (simp add: is_key_def matches_def)

lemma find_first_key_None:
  "find_first (matches ENTRY_ID_ANY False) es = None \<Longrightarrow> find_first (is_key k) es = None"
  by (auto simp: find_first_None dest: is_key_matches)

lemma find_first_key_skip:
  assumes "find_first (matches ENTRY_ID_ANY False) es = Some (y, rest)"
  shows "find_first (is_key k) es =
    (if snd y = k then Some (y, rest) else find_first (is_key k) rest)"
proof -
  obtain pre where es: "es = pre @ y # rest" and y: "matches ENTRY_ID_ANY False y"
    and "\<forall>z \<in> set pre. \<not> matches ENTRY_ID_ANY False z"
    using assms by (auto simp: find_first_Some)
  then have "find_first (is_key k) pre = None"
    by (auto simp: find_first_None dest: is_key_matches)
  moreover have "is_key k y \<longleftrightarrow> snd y = k"
    using y by (auto simp: is_key_def matches_def)
  ultimately show ?thesis by (simp add: es find_first_append find_first_Cons)
qed

lemma end_mod4:
  assumes "region_ok csz i" and "e = cur_base i + 8 + n" and "4 dvd n"
    and "e < cur_base i + region_size i"
  shows "e + 4 \<le> cur_base i + region_size i"
proof -
  have "4 dvd cur_base i + region_size i" "4 dvd e"
    using assms(1-3) by (auto simp: region_ok_def)
  with assms(4) show ?thesis by presburger
qed

lemma log_size_mod4: "4 dvd log_size es"
  by (induction es) (auto intro!: dvd_add entry_extent_bounds(3))

context nor_rom
begin

lemma read_payload_step:
  assumes "bytes_at (wmem w) (ctx_addr c + 4) (length p) = p" and "length p < 65536"
    and "ctx_entry c = entry_hdr (f, p)" and "ctx_addr c + 4 + length p \<le> csize"
  obtains d where "read_payload fd c (length p) w = (SYSPARAM_OK, p, w\<lparr>w_flash := d\<rparr>)"
    and "mem d = wmem w"
proof -
  obtain d where "flash_read fd (ctx_addr c + 4) (length p) w =
      (SPI_FLASH_RESULT_OK, bytes_at (wmem w) (ctx_addr c + 4) (length p), w\<lparr>w_flash := d\<rparr>)"
    and "mem d = wmem w"
    using assms(4) by (rule flash_read_step)
  moreover have "u32 (ctx_addr c + 4) = ctx_addr c + 4" using assms(4) by (intro no_wrap) simp
  ultimately show ?thesis
    using assms by (intro that[of d]) (simp_all add: read_payload_def ENTRY_HEADER_SIZE_def)
qed

text \<open>The assumptions shared by the searches: the rest of the log starts at \<open>a\<close>, the search goes
  on there, and the log ends at the end of the region or at erased space.\<close>

definition searching :: "'d spworld \<Rightarrow> sysparam_context \<Rightarrow> nat \<Rightarrow> entry list \<Rightarrow> nat \<Rightarrow> bool" where
  "searching w ctx a es e \<longleftrightarrow>
     region_ok csize (w_info w) \<and> cur_base (w_info w) + 8 \<le> a \<and> next_pos ctx (w_info w) a
     \<and> log_at (wmem w) a es e \<and> e \<le> cur_base (w_info w) + region_size (w_info w)
     \<and> (e < cur_base (w_info w) + region_size (w_info w) \<longrightarrow>
          e + 4 \<le> cur_base (w_info w) + region_size (w_info w) \<and> erased (wmem w) e 4)"

lemma searching_flash: "mem d = wmem w \<Longrightarrow> searching (w\<lparr>w_flash := d\<rparr>) = searching w"
  by (intro ext) (simp add: searching_def)

lemma searching_start:
  assumes "holds_log csize (wmem w) (w_info w) es"
  shows "searching w (init_context w) (cur_base (w_info w) + 8) es (end_addr (w_info w))"
proof -
  let ?i = "w_info w"
  have l: "log_at (wmem w) (cur_base ?i + 8) es (end_addr ?i)" "region_ok csize ?i"
    and er: "erased (wmem w) (end_addr ?i) (cur_base ?i + region_size ?i - end_addr ?i)"
    using assms by (auto simp: holds_log_def)
  have "end_addr ?i + 4 \<le> cur_base ?i + region_size ?i" if "end_addr ?i < cur_base ?i + region_size ?i"
    using end_mod4[OF l(2) log_at_end[OF l(1)] log_size_mod4 that] .
  then show ?thesis
    using assms er
    by (auto simp: searching_def holds_log_def next_pos_def init_context_def zero_context_def
        intro: erased_subset[OF er])
qed

lemma searching_found:
  assumes "searching w ctx a (pre @ x # rest) e"
    and "ctx_addr c = a + log_size pre" and "ctx_entry c = entry_hdr x"
  shows "searching w c (a + log_size pre + entry_extent (length (snd x))) rest e"
    and "bytes_at (wmem w) (ctx_addr c + 4) (length (snd x)) = snd x" and "length (snd x) < 65536"
    and "ctx_addr c + 4 + length (snd x) \<le> csize"
    and "bytes_at (wmem w) (ctx_addr c) 4 = entry_header_bytes (entry_hdr x)"
proof -
  let ?b = "a + log_size pre"
  have l: "log_at (wmem w) ?b (x # rest) e" using assms(1) by (auto simp: searching_def log_at_append)
  then show len: "length (snd x) < 65536"
    and "bytes_at (wmem w) (ctx_addr c + 4) (length (snd x)) = snd x"
    and "bytes_at (wmem w) (ctx_addr c) 4 = entry_header_bytes (entry_hdr x)" using assms(2) by auto
  have pos: "next_pos c (w_info w) (?b + entry_extent (length (snd x)))"
    using assms len by (intro next_pos_entry[of _ ?b "snd x" c "fst x"]) (auto simp: searching_def)
  with assms(1) l show "searching w c (?b + entry_extent (length (snd x))) rest e"
    by (auto simp: searching_def)
  have "e = ?b + log_size (x # rest)" using log_at_end[OF l] .
  then show "ctx_addr c + 4 + length (snd x) \<le> csize"
    using assms(1,2) entry_extent_bounds(1)[of "length (snd x)"]
    by (auto simp: searching_def region_ok_def)
qed

lemma find_entry_found:
  assumes "searching w ctx a es e" and "length es < fuel"
    and "find_first (matches m fv) es = Some (x, rest)"
  obtains d c pre where "find_entry fuel fd ctx m fv w = Some (SYSPARAM_OK, c, w\<lparr>w_flash := d\<rparr>)"
    and "mem d = wmem w" and "es = pre @ x # rest" and "ctx_addr c = a + log_size pre"
    and "ctx_entry c = entry_hdr x" and "ctx_max_key_id c = last_key_id (ctx_max_key_id ctx) (pre @ [x])"
proof -
  let ?r = "log_scan a es m fv ctx"
  have "scan_outcome mem m w ?r (find_entry fuel fd ctx m fv w)"
    using assms(1,2) by (intro find_entry_log) (auto simp: searching_def)
  moreover have "fst ?r = Some (x, rest)" using assms(3) by (simp add: log_scan_find)
  ultimately obtain d where "find_entry fuel fd ctx m fv w = Some (SYSPARAM_OK, snd ?r, w\<lparr>w_flash := d\<rparr>)"
    and "mem d = wmem w" by (cases ?r) (auto simp: scan_outcome_def)
  with log_scan_found[OF assms(3), of a ctx] that show ?thesis by blast
qed

lemma find_entry_none:
  assumes "searching w ctx a es e" and "length es < fuel"
    and "find_first (matches m fv) es = None" and "m \<noteq> ENTRY_ID_END"
  obtains d c where "find_entry fuel fd ctx m fv w = Some (SYSPARAM_NOTFOUND, c, w\<lparr>w_flash := d\<rparr>)"
    and "mem d = wmem w" and "ctx_addr c = a + log_size es" and "ctx_entry c = zero_entry"
    and "ctx_max_key_id c = last_key_id (ctx_max_key_id ctx) es"
proof -
  let ?r = "log_scan a es m fv ctx"
  have "scan_outcome mem m w ?r (find_entry fuel fd ctx m fv w)"
    using assms(1,2) by (intro find_entry_log) (auto simp: searching_def)
  moreover have "fst ?r = None" using assms(3) by (simp add: log_scan_find)
  ultimately obtain d where "find_entry fuel fd ctx m fv w =
      Some (SYSPARAM_NOTFOUND, (snd ?r)\<lparr>ctx_entry := zero_entry\<rparr>, w\<lparr>w_flash := d\<rparr>)"
    and "mem d = wmem w" using assms(4) by (cases ?r) (auto simp: scan_outcome_def)
  with log_scan_none[OF assms(3), of a ctx] show ?thesis
    by (intro that[of "(snd ?r)\<lparr>ctx_entry := zero_entry\<rparr>" d]) auto
qed

text \<open>One pass of the loop of \<open>_find_key\<close> that meets a key entry \<open>y\<close>.\<close>

lemma find_key_pass:
  assumes "searching w ctx a es e" and "length es < fuel"
    and "find_first (matches ENTRY_ID_ANY False) es = Some (y, r)"
  obtains d c pre buf' where
      "find_key (Suc fuel) fd ctx (Some k) (length k) buf w =
         (if snd y = k then Some (SYSPARAM_OK, c, buf', w\<lparr>w_flash := d\<rparr>)
          else find_key fuel fd c (Some k) (length k) buf' (w\<lparr>w_flash := d\<rparr>))"
    and "mem d = wmem w" and "es = pre @ y # r" and "ctx_addr c = a + log_size pre"
    and "ctx_entry c = entry_hdr y"
    and "ctx_max_key_id c = last_key_id (ctx_max_key_id ctx) (pre @ [y])"
    and "searching (w\<lparr>w_flash := d\<rparr>) c (a + log_size pre + entry_extent (length (snd y))) r e"
proof -
  obtain d c pre where c: "find_entry fuel fd ctx ENTRY_ID_ANY False w = Some (SYSPARAM_OK, c, w\<lparr>w_flash := d\<rparr>)"
    and md: "mem d = wmem w" and es: "es = pre @ y # r" and ca: "ctx_addr c = a + log_size pre"
    and ce: "ctx_entry c = entry_hdr y"
    and cm: "ctx_max_key_id c = last_key_id (ctx_max_key_id ctx) (pre @ [y])"
    using find_entry_found[OF assms] by blast
  note sf = searching_found[OF assms(1)[unfolded es] ca ce]
  have ly: "unat (e_len (ctx_entry c)) = length (snd y)" using ce sf(3) by simp
  have sr: "searching (w\<lparr>w_flash := d'\<rparr>) c (a + log_size pre + entry_extent (length (snd y))) r e"
    if "mem d' = wmem w" for d'
    using sf(1) that by (simp add: searching_flash)
  show ?thesis
  proof (cases "length (snd y) = length k")
    case False
    then have "find_key (Suc fuel) fd ctx (Some k) (length k) buf w =
        find_key fuel fd c (Some k) (length k) buf (w\<lparr>w_flash := d\<rparr>)" "snd y \<noteq> k"
      using c ly by auto
    then show ?thesis using md es ca ce cm sr[OF md] by (intro that[of c buf d pre]) auto
  next
    case True
    obtain d1 where p: "read_payload fd c (length k) (w\<lparr>w_flash := d\<rparr>) = (SYSPARAM_OK, snd y, w\<lparr>w_flash := d1\<rparr>)"
      and md1: "mem d1 = wmem w"
      using read_payload_step[of "w\<lparr>w_flash := d\<rparr>" c "snd y" "fst y"] sf ce md True by auto
    have tk: "take (length k) (overwrite (snd y) buf) = snd y"
      using True by (simp add: overwrite_def)
    have "find_key (Suc fuel) fd ctx (Some k) (length k) buf w =
        (if snd y = k then Some (SYSPARAM_OK, c, overwrite (snd y) buf, w\<lparr>w_flash := d1\<rparr>)
         else find_key fuel fd c (Some k) (length k) (overwrite (snd y) buf) (w\<lparr>w_flash := d1\<rparr>))"
      using c ly p tk True by (simp add: Let_def)
    then show ?thesis
      using md1 es ca ce cm sr[OF md1] by (intro that[of c "overwrite (snd y) buf" d1 pre]) auto
  qed
qed

lemma find_key_found:
  assumes "searching w ctx a es e" and "Suc (length es) < fuel"
    and "find_first (is_key k) es = Some (x, rest)"
  shows "\<exists>d c b pre. find_key fuel fd ctx (Some k) (length k) buf w = Some (SYSPARAM_OK, c, b, w\<lparr>w_flash := d\<rparr>)
    \<and> mem d = wmem w \<and> es = pre @ x # rest \<and> ctx_addr c = a + log_size pre
    \<and> ctx_entry c = entry_hdr x"
  using assms
proof (induction fuel arbitrary: ctx a es buf w)
  case 0
  then show ?case by simp
next
  case (Suc fuel)
  obtain y r where y: "find_first (matches ENTRY_ID_ANY False) es = Some (y, r)"
    using Suc.prems(3) find_first_key_None[of es k]
    by (cases "find_first (matches ENTRY_ID_ANY False) es") auto
  have "length es < fuel" using Suc.prems(2) by simp
  then obtain d c pre buf' where u: "find_key (Suc fuel) fd ctx (Some k) (length k) buf w =
        (if snd y = k then Some (SYSPARAM_OK, c, buf', w\<lparr>w_flash := d\<rparr>)
         else find_key fuel fd c (Some k) (length k) buf' (w\<lparr>w_flash := d\<rparr>))"
    and md: "mem d = wmem w" and es: "es = pre @ y # r" and ca: "ctx_addr c = a + log_size pre"
    and ce: "ctx_entry c = entry_hdr y"
    and sr: "searching (w\<lparr>w_flash := d\<rparr>) c (a + log_size pre + entry_extent (length (snd y))) r e"
    using find_key_pass[OF Suc.prems(1) _ y, of fuel k buf] by metis
  show ?case
  proof (cases "snd y = k")
    case True
    then have "x = y" "rest = r" using Suc.prems(3) find_first_key_skip[OF y, of k] by auto
    then show ?thesis using u True md es ca ce by auto
  next
    case False
    then have "find_first (is_key k) r = Some (x, rest)"
      using Suc.prems(3) find_first_key_skip[OF y, of k] by simp
    moreover have "Suc (length r) < fuel" using Suc.prems(2) es by simp
    ultimately obtain d' c' b pre' where
      "find_key fuel fd c (Some k) (length k) buf' (w\<lparr>w_flash := d\<rparr>) = Some (SYSPARAM_OK, c', b, w\<lparr>w_flash := d'\<rparr>)"
      "mem d' = mem d" "r = pre' @ x # rest" "ctx_entry c' = entry_hdr x"
      "ctx_addr c' = a + log_size pre + entry_extent (length (snd y)) + log_size pre'"
      using Suc.IH[OF sr, of buf'] by auto
    then show ?thesis
      using u False md es by (auto intro!: exI[of _ d'] exI[of _ "pre @ y # pre'"])
  qed
qed

lemma find_key_none:
  assumes "searching w ctx a es e" and "Suc (length es) < fuel"
    and "find_first (is_key k) es = None"
  shows "\<exists>d c b. find_key fuel fd ctx (Some k) (length k) buf w = Some (SYSPARAM_NOTFOUND, c, b, w\<lparr>w_flash := d\<rparr>)
    \<and> mem d = wmem w \<and> ctx_addr c = a + log_size es \<and> ctx_entry c = zero_entry
    \<and> ctx_max_key_id c = last_key_id (ctx_max_key_id ctx) es"
  using assms
proof (induction fuel arbitrary: ctx a es buf w)
  case 0
  then show ?case by simp
next
  case (Suc fuel)
  have f: "length es < fuel" using Suc.prems(2) by simp
  show ?case
  proof (cases "find_first (matches ENTRY_ID_ANY False) es")
    case None
    have "ENTRY_ID_ANY \<noteq> ENTRY_ID_END" by (simp add: ENTRY_ID_ANY_def ENTRY_ID_END_def)
    then obtain d c where "find_entry fuel fd ctx ENTRY_ID_ANY False w = Some (SYSPARAM_NOTFOUND, c, w\<lparr>w_flash := d\<rparr>)"
      "mem d = wmem w" "ctx_addr c = a + log_size es" "ctx_entry c = zero_entry"
      "ctx_max_key_id c = last_key_id (ctx_max_key_id ctx) es"
      using find_entry_none[OF Suc.prems(1) f None] by blast
    then show ?thesis by auto
  next
    case (Some yr)
    obtain y r where y: "find_first (matches ENTRY_ID_ANY False) es = Some (y, r)"
      using Some by (cases yr) auto
    obtain d c pre buf' where u: "find_key (Suc fuel) fd ctx (Some k) (length k) buf w =
          (if snd y = k then Some (SYSPARAM_OK, c, buf', w\<lparr>w_flash := d\<rparr>)
           else find_key fuel fd c (Some k) (length k) buf' (w\<lparr>w_flash := d\<rparr>))"
      and md: "mem d = wmem w" and es: "es = pre @ y # r"
      and cm: "ctx_max_key_id c = last_key_id (ctx_max_key_id ctx) (pre @ [y])"
      and sr: "searching (w\<lparr>w_flash := d\<rparr>) c (a + log_size pre + entry_extent (length (snd y))) r e"
      using find_key_pass[OF Suc.prems(1) f y, of k buf] by metis
    have ne: "snd y \<noteq> k" and nr: "find_first (is_key k) r = None"
      using Suc.prems(3) find_first_key_skip[OF y, of k] by (auto split: if_splits)
    have "Suc (length r) < fuel" using Suc.prems(2) es by simp
    from Suc.IH[OF sr this nr, of buf'] obtain d' c' b where
      "find_key fuel fd c (Some k) (length k) buf' (w\<lparr>w_flash := d\<rparr>) =
         Some (SYSPARAM_NOTFOUND, c', b, w\<lparr>w_flash := d'\<rparr>)" "mem d' = mem d" "ctx_entry c' = zero_entry"
      "ctx_addr c' = a + log_size pre + entry_extent (length (snd y)) + log_size r"
      "ctx_max_key_id c' = last_key_id (ctx_max_key_id c) r" by auto
    then show ?thesis
      using u ne md es cm by (auto simp: last_key_id_append)
  qed
qed

section \<open>Reading a value\<close>

lemma wf_key_id:
  assumes "wf_log es" and "find_first (is_key k) es = Some (x, rest)"
  shows "entry_id (fst x) \<noteq> ENTRY_ID_END" "entry_id (fst x) \<noteq> ENTRY_ID_ANY"
proof -
  have "x \<in> set (log_keys es)"
    using assms(2) by (auto simp: find_first_Some is_key_def log_keys_def)
  then have "entry_id (fst x) \<le> MAX_KEY_ID" using assms(1) by (auto simp: wf_log_def)
  then show "entry_id (fst x) \<noteq> ENTRY_ID_END" "entry_id (fst x) \<noteq> ENTRY_ID_ANY"
    by (auto simp: MAX_KEY_ID_def ENTRY_ID_END_def ENTRY_ID_ANY_def)
qed

lemma find_value_none:
  assumes "searching w ctx a es e" and "length es < fuel" and "log_value (entry_id f) es = None"
    and "entry_id f \<noteq> ENTRY_ID_END"
  obtains d c where "find_value fuel fd ctx f w = Some (SYSPARAM_NOTFOUND, c, w\<lparr>w_flash := d\<rparr>)"
    and "mem d = wmem w" and "ctx_max_key_id c = last_key_id (ctx_max_key_id ctx) es"
proof -
  have none: "find_first (matches (entry_id f) True) es = None"
    using assms(3) by (simp add: log_value_def)
  obtain d c where "find_entry fuel fd ctx (entry_id f) True w = Some (SYSPARAM_NOTFOUND, c, w\<lparr>w_flash := d\<rparr>)"
    and "mem d = wmem w" and "ctx_max_key_id c = last_key_id (ctx_max_key_id ctx) es"
    using find_entry_none[OF assms(1,2) none assms(4)] by blast
  then show ?thesis
    by (intro that[of c d]) (simp_all add: find_value_def entry_id_def)
qed

lemma find_value_found:
  assumes "searching w ctx a es e" and "length es < fuel" and "log_value (entry_id f) es = Some (v, b)"
  obtains d c pre g rest where "find_value fuel fd ctx f w = Some (SYSPARAM_OK, c, w\<lparr>w_flash := d\<rparr>)"
    and "mem d = wmem w" and "es = pre @ (g, v) # rest" and "ctx_addr c = a + log_size pre"
    and "ctx_entry c = entry_hdr (g, v)" and "b = (g AND ENTRY_FLAG_BINARY \<noteq> 0)"
    and "matches (entry_id f) True (g, v)"
proof -
  obtain g rest where g: "find_first (matches (entry_id f) True) es = Some ((g, v), rest)"
    and b: "b = (g AND ENTRY_FLAG_BINARY \<noteq> 0)"
    using assms(3) by (auto simp: log_value_def)
  have mt: "matches (entry_id f) True (g, v)" using g by (auto simp: find_first_Some)
  obtain d c pre where "find_entry fuel fd ctx (entry_id f) True w = Some (SYSPARAM_OK, c, w\<lparr>w_flash := d\<rparr>)"
    and "mem d = wmem w" and "es = pre @ (g, v) # rest" and "ctx_addr c = a + log_size pre"
    and "ctx_entry c = entry_hdr (g, v)"
    using find_entry_found[OF assms(1,2) g] by blast
  then show ?thesis
    using b mt by (intro that[of c d pre g rest]) (simp_all add: find_value_def entry_id_def)
qed

lemma get_data_body_log:
  assumes "holds_log csize (wmem w) (w_info w) es" and "wf_log es" and "length k < 65536"
    and "Suc (length es) < fuel" and "w_mallocs w = []"
  shows "\<exists>d. get_data_body fuel fd k w =
      (case log_lookup es k of
         Some (v, b) \<Rightarrow> Some (SYSPARAM_OK, Some (v @ [0], length v, b), w\<lparr>w_flash := d\<rparr>)
       | None \<Rightarrow> Some (SYSPARAM_NOTFOUND, None, w\<lparr>w_flash := d\<rparr>)) \<and> mem d = wmem w"
proof (cases "find_first (is_key k) es")
  case None
  from find_key_none[OF searching_start[OF assms(1)] assms(4) None, of "map (w_junk w) [0..<length k + 2]"]
  show ?thesis
    using None assms(3) by (auto simp: get_data_body_def log_lookup_def u16_small)
next
  case (Some xr)
  then obtain x rest where x: "find_first (is_key k) es = Some (x, rest)" by (cases xr) auto
  obtain d c b pre where k: "find_key fuel fd (init_context w) (Some k) (length k)
        (map (w_junk w) [0..<length k + 2]) w = Some (SYSPARAM_OK, c, b, w\<lparr>w_flash := d\<rparr>)"
    and md: "mem d = wmem w" and es: "es = pre @ x # rest"
    and ca: "ctx_addr c = cur_base (w_info w) + 8 + log_size pre" and ce: "ctx_entry c = entry_hdr x"
    using find_key_found[OF searching_start[OF assms(1)] assms(4) x, of "map (w_junk w) [0..<length k + 2]"]
    by blast
  let ?w1 = "w\<lparr>w_flash := d\<rparr>"
  let ?a = "cur_base (w_info w) + 8 + log_size pre + entry_extent (length (snd x))"
  have sr: "searching ?w1 c ?a rest (end_addr (w_info w))"
    using searching_found(1)[OF searching_start[OF assms(1), unfolded es] ca ce] md
    by (simp add: searching_flash)
  have fl: "length rest < fuel" using assms(4) es by simp
  show ?thesis
  proof (cases "log_value (entry_id (fst x)) rest")
    case None
    obtain d' c' where "find_value fuel fd c (fst x) ?w1 = Some (SYSPARAM_NOTFOUND, c', ?w1\<lparr>w_flash := d'\<rparr>)"
      "mem d' = wmem ?w1"
      using find_value_none[OF sr fl None wf_key_id(1)[OF assms(2) x]] by blast
    then show ?thesis
      using k x None ce assms(3) md by (auto simp: get_data_body_def log_lookup_def u16_small)
  next
    case (Some vb)
    then obtain v vb' where v: "log_value (entry_id (fst x)) rest = Some (v, vb')" by (cases vb) auto
    obtain d' c' pre' g rest' where fv: "find_value fuel fd c (fst x) ?w1 = Some (SYSPARAM_OK, c', ?w1\<lparr>w_flash := d'\<rparr>)"
      and md1: "mem d' = wmem ?w1" and r: "rest = pre' @ (g, v) # rest'"
      and ca': "ctx_addr c' = ?a + log_size pre'" and ce': "ctx_entry c' = entry_hdr (g, v)"
      and vb': "vb' = (g AND ENTRY_FLAG_BINARY \<noteq> 0)" and "matches (entry_id (fst x)) True (g, v)"
      by (rule find_value_found[OF sr fl v])
    have md': "mem d' = wmem w" using md1 md by simp
    have "searching (w\<lparr>w_flash := d'\<rparr>) c ?a (pre' @ (g, v) # rest') (end_addr (w_info w))"
      using sr r md md' by (simp add: searching_flash)
    from searching_found[OF this ca' ce'] obtain d2 where
      "read_payload fd c' (length v) (w\<lparr>w_flash := d'\<rparr>) = (SYSPARAM_OK, v, w\<lparr>w_flash := d2\<rparr>)" "mem d2 = wmem w"
      "length v < 65536"
      using read_payload_step[of "w\<lparr>w_flash := d'\<rparr>" c' v g] ce' md' by auto
    then show ?thesis
      using k x v fv ce ce' vb' assms(3,5)
      by (auto simp: get_data_body_def log_lookup_def u16_small realloc_def Let_def)
  qed
qed

end

end
