(* ===== verification/Sysparam_Store.thy ===== *)
theory Sysparam_Store
  imports Sysparam_Log
begin

text \<open>
  The abstract store under updates: what appending a key entry, appending a value entry and
  killing a value entry do to the map \<open>log_lookup\<close> that a log stands for, and that they keep the
  log well formed. No flash here, lists of entries only.
\<close>

unbundle bit_operations_syntax

definition kill :: "entry \<Rightarrow> entry" where
  "kill x = (fst x AND NOT ENTRY_FLAG_ALIVE, snd x)"

definition key_id_of :: "entry list \<Rightarrow> byte list \<Rightarrow> 16 word option" where
  "key_id_of es k = map_option (\<lambda>(x, _). entry_id (fst x)) (find_first (is_key k) es)"

definition key_entry :: "16 word \<Rightarrow> byte list \<Rightarrow> entry" where
  "key_entry i k = (i OR ENTRY_FLAG_ALIVE, k)"

definition value_entry :: "16 word \<Rightarrow> bool \<Rightarrow> byte list \<Rightarrow> entry" where
  "value_entry i b v =
     (i OR ENTRY_FLAG_VALUE OR (if b then ENTRY_FLAG_BINARY else 0) OR ENTRY_FLAG_ALIVE, v)"

definition ids :: "entry list \<Rightarrow> 16 word set" where
  "ids es = (\<lambda>x. entry_id (fst x)) ` set es"

section \<open>Flags of new and killed entries\<close>

lemmas flag_defs = ENTRY_FLAG_ALIVE_def ENTRY_FLAG_INVALID_def ENTRY_FLAG_VALUE_def
  ENTRY_FLAG_BINARY_def ENTRY_MASK_ID_def

lemma id_masked:
  fixes i :: "16 word"
  assumes "i \<le> MAX_KEY_ID"
  shows "i AND 0xfff = i"
proof -
  have "unat i < 4096" using assms by (simp add: MAX_KEY_ID_def word_le_nat_alt)
  then have "take_bit 12 i = i"
    by (subst word_unat_eq_iff) (simp add: unsigned_take_bit_eq take_bit_nat_eq_self)
  moreover have "(mask 12 :: 16 word) = 0xfff" by (simp add: mask_eq_exp_minus_1)
  ultimately show ?thesis by (metis take_bit_eq_mask)
qed

lemma id_no_flags:
  fixes i :: "16 word"
  assumes "i \<le> MAX_KEY_ID" and "0xfff AND c = 0"
  shows "i AND c = 0"
proof -
  have "i AND c = (i AND 0xfff) AND c" using id_masked[OF assms(1)] by simp
  also have "\<dots> = i AND (0xfff AND c)" by (simp only: and.assoc)
  finally show ?thesis using assms(2) by simp
qed

lemma key_entry_flags:
  assumes "i \<le> MAX_KEY_ID"
  shows "live (fst (key_entry i k))" "\<not> is_value (fst (key_entry i k))"
    "entry_id (fst (key_entry i k)) = i" "fst (key_entry i k) \<noteq> 0xffff" "snd (key_entry i k) = k"
proof -
  show "live (fst (key_entry i k))"
    using id_no_flags[OF assms, where c = "0xC000"] by (simp add: live_def key_entry_def flag_defs bit.conj_disj_distrib2)
  show "\<not> is_value (fst (key_entry i k))"
    using id_no_flags[OF assms, where c = "0x2000"] by (simp add: is_value_def key_entry_def flag_defs bit.conj_disj_distrib2)
  show "entry_id (fst (key_entry i k)) = i"
    using id_masked[OF assms] by (simp add: entry_id_def key_entry_def flag_defs bit.conj_disj_distrib2)
  show "fst (key_entry i k) \<noteq> 0xffff"
  proof
    assume "fst (key_entry i k) = 0xffff"
    from arg_cong[OF this, of "\<lambda>x. x AND 0x2000"] id_no_flags[OF assms, where c = "0x2000"] show False
      by (simp add: key_entry_def flag_defs bit.conj_disj_distrib2)
  qed
qed (simp add: key_entry_def)

lemma value_entry_flags:
  assumes "i \<le> MAX_KEY_ID"
  shows "live (fst (value_entry i b v))" "is_value (fst (value_entry i b v))"
    "entry_id (fst (value_entry i b v)) = i" "fst (value_entry i b v) \<noteq> 0xffff" "snd (value_entry i b v) = v"
    "(fst (value_entry i b v) AND ENTRY_FLAG_BINARY \<noteq> 0) = b"
proof -
  show "live (fst (value_entry i b v))"
    using id_no_flags[OF assms, where c = "0xC000"] by (simp add: live_def value_entry_def flag_defs bit.conj_disj_distrib2)
  show "is_value (fst (value_entry i b v))"
    using id_no_flags[OF assms, where c = "0x2000"] by (simp add: is_value_def value_entry_def flag_defs bit.conj_disj_distrib2)
  show "entry_id (fst (value_entry i b v)) = i"
    using id_masked[OF assms] by (simp add: entry_id_def value_entry_def flag_defs bit.conj_disj_distrib2)
  show "(fst (value_entry i b v) AND ENTRY_FLAG_BINARY \<noteq> 0) = b"
    using id_no_flags[OF assms, where c = "0x1000"] by (simp add: value_entry_def flag_defs bit.conj_disj_distrib2)
  show "fst (value_entry i b v) \<noteq> 0xffff"
  proof
    assume "fst (value_entry i b v) = 0xffff"
    from arg_cong[OF this, of "\<lambda>x. x AND 0x4000"] id_no_flags[OF assms, where c = "0x4000"] show False
      by (simp add: value_entry_def flag_defs bit.conj_disj_distrib2 split: if_splits)
  qed
qed (simp add: value_entry_def)

lemma kill_flags:
  "\<not> live (fst (kill x))" "snd (kill x) = snd x" "fst (kill x) \<noteq> 0xffff"
proof -
  have z: "(fst x AND NOT ENTRY_FLAG_ALIVE) AND ENTRY_FLAG_ALIVE = 0"
    by (rule bit_eqI) (simp add: bit_simps)
  show "\<not> live (fst (kill x))"
  proof
    assume "live (fst (kill x))"
    then have "(fst (kill x) AND (ENTRY_FLAG_ALIVE OR ENTRY_FLAG_INVALID)) AND ENTRY_FLAG_ALIVE = ENTRY_FLAG_ALIVE"
      by (simp add: live_def)
    moreover have "(f AND (ENTRY_FLAG_ALIVE OR ENTRY_FLAG_INVALID)) AND ENTRY_FLAG_ALIVE = f AND ENTRY_FLAG_ALIVE" for f
      by (rule bit_eqI) (auto simp: bit_simps)
    ultimately show False using z by (simp add: kill_def ENTRY_FLAG_ALIVE_def)
  qed
  show "snd (kill x) = snd x" by (simp add: kill_def)
  show "fst (kill x) \<noteq> 0xffff"
    using z arg_cong[of "fst (kill x)" "0xffff" "\<lambda>y. y AND ENTRY_FLAG_ALIVE"]
    by (auto simp: kill_def ENTRY_FLAG_ALIVE_def)
qed

section \<open>Keys, values and ids of a log\<close>

lemma log_keys_simps [simp]:
  "log_keys [] = []" "log_keys (xs @ ys) = log_keys xs @ log_keys ys"
  "log_keys (x # xs) = (if live (fst x) \<and> \<not> is_value (fst x) then x # log_keys xs else log_keys xs)"
  by (simp_all add: log_keys_def)

lemma log_vals_simps [simp]:
  "log_vals [] = []" "log_vals (xs @ ys) = log_vals xs @ log_vals ys"
  "log_vals (x # xs) = (if live (fst x) \<and> is_value (fst x) then x # log_vals xs else log_vals xs)"
  by (simp_all add: log_vals_def)

lemma ids_simps [simp]:
  "ids [] = {}" "ids (x # xs) = insert (entry_id (fst x)) (ids xs)" "ids (xs @ ys) = ids xs \<union> ids ys"
  by (auto simp: ids_def)

lemma ids_set: "ids es = set (map (\<lambda>x. entry_id (fst x)) es)"
  by (simp add: ids_def)

lemma vals_after_keys_append:
  "vals_after_keys S (xs @ ys) \<longleftrightarrow> vals_after_keys S xs \<and> vals_after_keys (S \<union> ids (log_keys xs)) ys"
  by (induction xs arbitrary: S) auto

lemma vals_after_keys_ids: "vals_after_keys S xs \<Longrightarrow> ids (log_vals xs) \<subseteq> S \<union> ids (log_keys xs)"
  by (induction xs arbitrary: S) (fastforce split: if_splits)+

lemma log_value_append:
  "log_value i (xs @ ys) = (case log_value i xs of None \<Rightarrow> log_value i ys | Some r \<Rightarrow> Some r)"
  by (auto simp: log_value_def find_first_append split: option.splits)

lemma log_value_None: "i \<noteq> ENTRY_ID_ANY \<Longrightarrow> log_value i es = None \<longleftrightarrow> i \<notin> ids (log_vals es)"
  by (auto simp: log_value_def find_first_None matches_def ids_def log_vals_def)

lemma log_value_single:
  "log_value i [x] = (if matches i True x then Some (snd x, fst x AND ENTRY_FLAG_BINARY \<noteq> 0) else None)"
  by (simp add: log_value_def find_first_Cons)

lemma last_key_id_keys:
  "last_key_id d es = (if log_keys es = [] then d else entry_id (fst (last (log_keys es))))"
  by (induction es arbitrary: d) auto

lemma key_id_of_entry:
  assumes "key_id_of es k = Some i"
  obtains x where "x \<in> set (log_keys es)" and "entry_id (fst x) = i" and "snd x = k"
proof -
  obtain x rest where "find_first (is_key k) es = Some (x, rest)" and i: "i = entry_id (fst x)"
    using assms by (auto simp: key_id_of_def)
  then have "x \<in> set es" "is_key k x" by (auto simp: find_first_Some)
  then show ?thesis using i by (intro that[of x]) (auto simp: is_key_def log_keys_def)
qed

lemma key_id_of_mem:
  assumes "key_id_of es k = Some i"
  shows "i \<in> ids (log_keys es)"
  using assms by (rule key_id_of_entry) (auto simp: ids_def)

lemma wf_key_ids:
  assumes "wf_log es" and "i \<in> ids (log_keys es)"
  shows "i \<le> MAX_KEY_ID" "i \<noteq> ENTRY_ID_ANY" "i \<noteq> ENTRY_ID_END"
proof -
  show "i \<le> MAX_KEY_ID" using assms by (auto simp: wf_log_def ids_def)
  then show "i \<noteq> ENTRY_ID_ANY" "i \<noteq> ENTRY_ID_END"
    by (auto simp: MAX_KEY_ID_def ENTRY_ID_ANY_def ENTRY_ID_END_def)
qed

text \<open>In a well-formed log a value can be looked up by id in the whole log.\<close>

lemma log_lookup_wf:
  assumes "wf_log es"
  shows "log_lookup es k = Option.bind (key_id_of es k) (\<lambda>i. log_value i es)"
proof (cases "find_first (is_key k) es")
  case None
  then show ?thesis by (simp add: log_lookup_def key_id_of_def)
next
  case (Some xr)
  then obtain x rest where x: "find_first (is_key k) es = Some (x, rest)" by (cases xr) auto
  then obtain pre where es: "es = pre @ x # rest" and kx: "is_key k x" by (auto simp: find_first_Some)
  let ?i = "entry_id (fst x)"
  have lx: "live (fst x)" "\<not> is_value (fst x)" using kx by (auto simp: is_key_def)
  have "sorted_wrt (<) (map (\<lambda>x. entry_id (fst x)) (log_keys es))" using assms by (simp add: wf_log_def)
  then have "?i \<notin> ids (log_keys pre)" using lx by (auto simp: es sorted_wrt_append ids_def)
  moreover have "ids (log_vals pre) \<subseteq> ids (log_keys pre)"
    using assms vals_after_keys_ids[of "{}" pre] by (simp add: wf_log_def es vals_after_keys_append)
  moreover have "?i \<noteq> ENTRY_ID_ANY" using wf_key_ids(2)[OF assms, of ?i] lx by (simp add: es)
  ultimately have "log_value ?i pre = None" by (auto simp: log_value_None)
  moreover have "log_value ?i (x # rest) = log_value ?i rest"
    using lx by (simp add: log_value_def find_first_Cons matches_def)
  ultimately show ?thesis using x by (simp add: log_lookup_def key_id_of_def es log_value_append)
qed

lemma key_id_of_append:
  "key_id_of (xs @ ys) k = (case key_id_of xs k of None \<Rightarrow> key_id_of ys k | Some i \<Rightarrow> Some i)"
  by (auto simp: key_id_of_def find_first_append split: option.splits)

lemma key_id_of_single:
  "key_id_of [x] k = (if is_key k x then Some (entry_id (fst x)) else None)"
  by (simp add: key_id_of_def find_first_Cons)

lemma wf_log_ids_sorted: "wf_log es \<Longrightarrow> sorted_wrt (<) (map (\<lambda>x. entry_id (fst x)) (log_keys es))"
  by (simp add: wf_log_def)

text \<open>Different keys have different ids.\<close>

lemma key_id_of_inj:
  assumes "wf_log es" and "key_id_of es k = Some i" and "key_id_of es k' = Some i"
  shows "k = k'"
proof -
  have "distinct (map (\<lambda>x. entry_id (fst x)) (log_keys es))"
    using wf_log_ids_sorted[OF assms(1)] by (simp add: strict_sorted_iff)
  then have "inj_on (\<lambda>x. entry_id (fst x)) (set (log_keys es))" by (simp add: distinct_map)
  moreover obtain x where "x \<in> set (log_keys es)" "entry_id (fst x) = i" "snd x = k"
    using assms(2) by (rule key_id_of_entry)
  moreover obtain y where "y \<in> set (log_keys es)" "entry_id (fst y) = i" "snd y = k'"
    using assms(3) by (rule key_id_of_entry)
  ultimately show ?thesis by (auto dest: inj_onD)
qed

section \<open>Adding, replacing and deleting, on the log\<close>

lemma last_key_id_greatest:
  assumes "wf_log es" and "i \<in> ids (log_keys es)"
  shows "i \<le> last_key_id d es"
proof -
  let ?is = "map (\<lambda>x. entry_id (fst x)) (log_keys es)"
  have ne: "log_keys es \<noteq> []" using assms(2) by (auto simp: ids_def)
  have s: "sorted ?is" using wf_log_ids_sorted[OF assms(1)] by (simp add: strict_sorted_iff)
  obtain j where "j < length ?is" "?is ! j = i" using assms(2) by (auto simp: ids_set in_set_conv_nth)
  moreover have "?is ! j \<le> ?is ! (length ?is - 1)"
    using calculation(1) s by (intro sorted_nth_mono) auto
  ultimately have "i \<le> ?is ! (length ?is - 1)" by simp
  then show ?thesis using ne by (simp add: last_key_id_keys last_conv_nth)
qed

lemma wf_add_value:
  assumes "wf_log es" and "key_id_of es k = Some i" and "log_value i es = None"
  shows "wf_log (es @ [value_entry i b v])"
    and "log_lookup (es @ [value_entry i b v]) = (log_lookup es)(k \<mapsto> (v, b))"
proof -
  let ?y = "value_entry i b v"
  have i: "i \<in> ids (log_keys es)" by (rule key_id_of_mem) (rule assms(2))
  note ok = wf_key_ids[OF assms(1) i]
  note fl = value_entry_flags[OF ok(1)]
  have "i \<notin> ids (log_vals es)" using assms(3) ok(2) by (simp add: log_value_None)
  then show wf: "wf_log (es @ [?y])"
    using assms(1) fl i by (simp add: wf_log_def vals_after_keys_append ids_set)
  show "log_lookup (es @ [?y]) = (log_lookup es)(k \<mapsto> (v, b))"
  proof
    fix k'
    have nk: "\<not> is_key k' ?y" using fl by (simp add: is_key_def)
    have val: "log_value j (es @ [?y]) = (if j = i then Some (v, b) else log_value j es)"
      if "j \<noteq> ENTRY_ID_ANY" for j
      using that assms(3) fl by (auto simp: log_value_append log_value_single matches_def split: option.splits)
    have kid: "key_id_of (es @ [?y]) k' = key_id_of es k'"
      using nk by (simp add: key_id_of_append key_id_of_single split: option.splits)
    show "log_lookup (es @ [?y]) k' = ((log_lookup es)(k \<mapsto> (v, b))) k'"
    proof (cases "key_id_of es k'")
      case None
      then show ?thesis using assms(2) wf kid by (auto simp: log_lookup_wf assms(1))
    next
      case (Some j)
      then have "j \<noteq> ENTRY_ID_ANY" using wf_key_ids(2)[OF assms(1) key_id_of_mem] by blast
      moreover have "j = i \<longleftrightarrow> k' = k" using Some assms(2) key_id_of_inj[OF assms(1)] by auto
      ultimately show ?thesis using Some wf kid val by (simp add: log_lookup_wf assms(1))
    qed
  qed
qed

lemma wf_add_key:
  assumes "wf_log es" and "key_id_of es k = None" and "last_key_id 0 es < MAX_KEY_ID"
  shows "wf_log (es @ [key_entry (last_key_id 0 es + 1) k])"
    and "log_lookup (es @ [key_entry (last_key_id 0 es + 1) k]) = log_lookup es"
    and "key_id_of (es @ [key_entry (last_key_id 0 es + 1) k]) k = Some (last_key_id 0 es + 1)"
    and "log_value (last_key_id 0 es + 1) (es @ [key_entry (last_key_id 0 es + 1) k]) = None"
proof -
  let ?l = "last_key_id 0 es"
  let ?i = "?l + 1"
  let ?x = "key_entry ?i k"
  have li: "?l < ?i" and im: "?i \<le> MAX_KEY_ID"
    using assms(3) by (auto simp: word_less_nat_alt word_le_nat_alt unat_word_ariths MAX_KEY_ID_def)
  note fl = key_entry_flags[OF im]
  have new: "j < ?i" if "j \<in> ids (log_keys es)" for j
    using last_key_id_greatest[OF assms(1) that, of 0] li by simp
  have nv: "?i \<notin> ids (log_vals es)"
    using assms(1) vals_after_keys_ids[of "{}" es] new by (fastforce simp: wf_log_def)
  have any: "?i \<noteq> ENTRY_ID_ANY" using im by (auto simp: MAX_KEY_ID_def ENTRY_ID_ANY_def)
  have nk: "k \<notin> snd ` set (log_keys es)"
    using assms(2) by (auto simp: key_id_of_def find_first_None is_key_def log_keys_def)
  show wf: "wf_log (es @ [?x])"
    using assms(1) fl new im nk
    by (auto simp: wf_log_def vals_after_keys_append sorted_wrt_append ids_def)
  show "key_id_of (es @ [?x]) k = Some ?i"
    using assms(2) fl by (simp add: key_id_of_append key_id_of_single is_key_def)
  have val: "log_value j (es @ [?x]) = log_value j es" for j
    using fl by (simp add: log_value_append log_value_single matches_def split: option.splits)
  then show "log_value ?i (es @ [?x]) = None" using nv any by (simp add: log_value_None)
  show "log_lookup (es @ [?x]) = log_lookup es"
  proof
    fix k'
    show "log_lookup (es @ [?x]) k' = log_lookup es k'"
      using wf assms(1,2) val fl nv any
      by (cases "key_id_of es k'")
        (auto simp: log_lookup_wf key_id_of_append key_id_of_single is_key_def log_value_None)
  qed
qed

lemma wf_kill:
  assumes "wf_log (pre @ y # post)" and "live (fst y)" and "is_value (fst y)"
    and "key_id_of (pre @ y # post) k = Some (entry_id (fst y))"
  shows "wf_log (pre @ kill y # post)"
    and "log_lookup (pre @ kill y # post) = (log_lookup (pre @ y # post))(k := None)"
    and "key_id_of (pre @ kill y # post) = key_id_of (pre @ y # post)"
    and "log_value (entry_id (fst y)) (pre @ kill y # post) = None"
proof -
  let ?es = "pre @ y # post"
  let ?es' = "pre @ kill y # post"
  let ?i = "entry_id (fst y)"
  note kf = kill_flags[of y]
  have keys: "log_keys ?es' = log_keys ?es" using assms(2,3) kf by simp
  show wf: "wf_log ?es'"
    using assms(1-3) kf by (auto simp: wf_log_def vals_after_keys_append)
  show kid: "key_id_of ?es' = key_id_of ?es"
    using assms(3) kf by (auto simp: key_id_of_def fun_eq_iff find_first_append find_first_Cons is_key_def
        split: option.splits)
  have any: "?i \<noteq> ENTRY_ID_ANY" using wf_key_ids(2)[OF assms(1) key_id_of_mem[OF assms(4)]] .
  have "?i \<notin> ids (log_vals ?es')"
    using assms(1-3) kf by (auto simp: wf_log_def ids_set)
  then show none: "log_value ?i ?es' = None" using any by (simp add: log_value_None)
  have other: "log_value j ?es' = log_value j ?es" if "j \<noteq> ?i" "j \<noteq> ENTRY_ID_ANY" for j
    using that kf by (simp add: log_value_def find_first_append find_first_Cons matches_def split: option.splits)
  show "log_lookup ?es' = (log_lookup ?es)(k := None)"
  proof
    fix k'
    show "log_lookup ?es' k' = ((log_lookup ?es)(k := None)) k'"
    proof (cases "key_id_of ?es k'")
      case None
      then show ?thesis using wf assms(1) kid by (simp add: log_lookup_wf)
    next
      case (Some j)
      have "j \<noteq> ENTRY_ID_ANY" using wf_key_ids(2)[OF assms(1) key_id_of_mem[OF Some]] .
      moreover have "j = ?i \<longleftrightarrow> k' = k" using Some assms(4) key_id_of_inj[OF assms(1)] by auto
      ultimately show ?thesis
        using Some wf assms(1) kid none other by (cases "k' = k") (auto simp: log_lookup_wf)
    qed
  qed
qed

end
