(* ===== verification/Sysparam_Write.thy ===== *)
theory Sysparam_Write
  imports Sysparam_Read Sysparam_Store
begin

text \<open>
  Writing parameters: what \<open>_write_entry\<close>, \<open>_delete_entry\<close> and \<open>sysparam_set_data\<close> do to the log
  in flash when the region has room, so that no compaction happens. The result is the update of
  the abstract store that \<open>Sysparam_Store\<close> describes.
\<close>

unbundle bit_operations_syntax

definition put_space :: "entry list \<Rightarrow> byte list \<Rightarrow> nat \<Rightarrow> nat" where
  "put_space es k n =
     entry_extent n + (if key_id_of es k = None then entry_extent (length k) else 0)"

abbreviation log_room :: "sysparam_info \<Rightarrow> nat" where
  "log_room i \<equiv> cur_base i + region_size i - end_addr i"

lemma id_word_flags:
  fixes i :: "16 word"
  assumes "i \<le> MAX_KEY_ID"
  shows "i AND ENTRY_FLAG_INVALID = 0"
    and "(i OR ENTRY_FLAG_VALUE OR (if b then ENTRY_FLAG_BINARY else 0)) AND ENTRY_FLAG_INVALID = 0"
  using id_no_flags[OF assms, where c = "0x4000"] by (simp_all add: flag_defs bit.conj_disj_distrib2)

context nor_rom
begin

lemma append_entry_step:
  assumes "holds_log csize (wmem w) (w_info w) es" and "w_mallocs w = []"
    and "entry_extent (length p) \<le> log_room (w_info w)" and "length p < 65536"
    and "eid AND ENTRY_FLAG_INVALID = 0" and "eid OR ENTRY_FLAG_ALIVE \<noteq> 0xffff"
    and "map payload [0..<length p] = p"
  obtains d e where "write_entry fd (end_addr (w_info w)) eid payload (word_of_nat (length p)) w =
      (SYSPARAM_OK, w\<lparr>w_flash := d, w_info := (w_info w)\<lparr>end_addr := e\<rparr>\<rparr>)"
    and "e = end_addr (w_info w) + entry_extent (length p)"
    and "holds_log csize (mem d) ((w_info w)\<lparr>end_addr := e\<rparr>) (es @ [(eid OR ENTRY_FLAG_ALIVE, p)])"
proof -
  let ?i = "w_info w"
  let ?a = "end_addr ?i"
  let ?n = "entry_extent (length p)"
  let ?lim = "cur_base ?i + region_size ?i"
  have ok: "region_ok csize ?i" and l: "log_at (wmem w) (cur_base ?i + 8) es ?a" and le: "?a \<le> ?lim"
    and er: "erased (wmem w) ?a (?lim - ?a)" using assms(1) by (auto simp: holds_log_def)
  have fit: "?a + ?n \<le> ?lim" using assms(3) le by linarith
  have "4 dvd ?a" using log_at_end[OF l] log_size_mod4[of es] ok by (auto simp: region_ok_def)
  moreover have "?a + ?n \<le> csize" using fit ok by (auto simp: region_ok_def)
  moreover have "erased (wmem w) ?a ?n" using assms(3) by (intro erased_subset[OF er]) auto
  moreover have un: "unat (word_of_nat (length p) :: 16 word) = length p" using assms(4) by simp
  ultimately obtain d where wr: "write_entry fd ?a eid payload (word_of_nat (length p)) w =
      (SYSPARAM_OK, (bump_end ?a ?n w)\<lparr>w_flash := d\<rparr>)"
    and h: "bytes_at (mem d) ?a 4 = entry_header_bytes \<lparr>e_idflags = eid OR ENTRY_FLAG_ALIVE, e_len = word_of_nat (length p)\<rparr>"
    and b: "bytes_at (mem d) (?a + 4) (length p) = p"
    and out: "\<And>i. i < ?a \<or> ?a + ?n \<le> i \<Longrightarrow> mem d i = wmem w i"
    using write_entry_step[OF assms(2), of ?a "word_of_nat (length p)" eid payload] assms(5,7)
    by (auto simp: un)
  have "u32 (?a + ?n) = ?a + ?n" using \<open>?a + ?n \<le> csize\<close> by (rule no_wrap)
  then have bump: "(bump_end ?a ?n w)\<lparr>w_flash := d\<rparr> = w\<lparr>w_flash := d, w_info := ?i\<lparr>end_addr := ?a + ?n\<rparr>\<rparr>"
    by (simp add: bump_end_def)
  have l': "log_at (mem d) (cur_base ?i + 8) es ?a"
    using l log_at_end[OF l] out by (subst log_at_cong[where m = "wmem w"]) auto
  then have "log_at (mem d) (cur_base ?i + 8) (es @ [(eid OR ENTRY_FLAG_ALIVE, p)]) (?a + ?n)"
    using log_at_end[OF l] h b assms(4,6) by (simp add: log_at_append entry_hdr_def)
  moreover have "erased (mem d) (?a + ?n) (?lim - (?a + ?n))"
    using er out fit by (auto simp: erased_def)
  ultimately have "holds_log csize (mem d) (?i\<lparr>end_addr := ?a + ?n\<rparr>) (es @ [(eid OR ENTRY_FLAG_ALIVE, p)])"
    using ok fit by (auto simp: holds_log_def region_ok_def)
  with wr bump show ?thesis by (intro that[of "?a + ?n" d]) auto
qed

lemma kill_entry_step:
  assumes "holds_log csize (wmem w) (w_info w) (pre @ y # post)"
  shows "\<exists>d. delete_entry fd (cur_base (w_info w) + 8 + log_size pre) w = (SYSPARAM_OK, w\<lparr>w_flash := d\<rparr>)
    \<and> holds_log csize (mem d) (w_info w) (pre @ kill y # post)"
proof -
  let ?i = "w_info w"
  let ?b = "cur_base ?i + 8"
  let ?a = "?b + log_size pre"
  let ?n = "entry_extent (length (snd y))"
  have ok: "region_ok csize ?i" and l: "log_at (wmem w) ?b (pre @ y # post) (end_addr ?i)"
    and le: "end_addr ?i \<le> cur_base ?i + region_size ?i"
    using assms by (auto simp: holds_log_def)
  have lp: "log_at (wmem w) ?b pre ?a" and ly: "log_at (wmem w) ?a (y # post) (end_addr ?i)"
    using l by (auto simp: log_at_append)
  have n: "4 + length (snd y) \<le> ?n" by (rule entry_extent_bounds)
  have fit: "?a + ?n \<le> end_addr ?i" using log_at_end[OF ly] by simp
  have "4 dvd ?a" using log_size_mod4[of pre] ok by (auto simp: region_ok_def)
  moreover have "?a + 4 \<le> csize" using fit n le ok by (auto simp: region_ok_def)
  moreover have "bytes_at (wmem w) ?a 4 = entry_header_bytes \<lparr>e_idflags = fst y, e_len = word_of_nat (length (snd y))\<rparr>"
    using ly by (simp add: entry_hdr_def)
  ultimately obtain d where del: "delete_entry fd ?a w = (SYSPARAM_OK, w\<lparr>w_flash := d\<rparr>)"
    and h: "bytes_at (mem d) ?a 4 = entry_header_bytes (entry_hdr (kill y))"
    and out: "\<And>i. i < ?a \<or> ?a + 4 \<le> i \<Longrightarrow> mem d i = wmem w i"
    by (rule delete_entry_step) (auto simp: entry_hdr_def kill_def)
  have "log_at (mem d) ?b pre ?a" using lp out by (subst log_at_cong[where m = "wmem w"]) auto
  moreover have "log_at (mem d) (?a + ?n) post (end_addr ?i)"
    using ly out n by (subst log_at_cong[where m = "wmem w"]) auto
  moreover have "bytes_at (mem d) (?a + 4) (length (snd y)) = bytes_at (wmem w) (?a + 4) (length (snd y))"
    using out by (intro bytes_at_cong) auto
  ultimately have "log_at (mem d) ?b (pre @ kill y # post) (end_addr ?i)"
    using ly h kill_flags[of y] by (simp add: log_at_append)
  moreover have "erased (mem d) (end_addr ?i) (cur_base ?i + region_size ?i - end_addr ?i)"
    using assms out fit n by (auto simp: holds_log_def erased_def)
  ultimately have "holds_log csize (mem d) ?i (pre @ kill y # post)"
    using ok le by (simp add: holds_log_def)
  with del show ?thesis by blast
qed

lemma holds_log_flash:
  assumes "holds_log csize (wmem w) (w_info w) es" and "mem d = wmem w"
  shows "holds_log csize (wmem (w\<lparr>w_flash := d\<rparr>)) (w_info (w\<lparr>w_flash := d\<rparr>)) es"
  using assms by simp

lemma init_write_context_step:
  assumes "end_addr (w_info w) + 4 \<le> csize"
  shows "\<exists>d s c. init_write_context fd w = (s, c, w\<lparr>w_flash := d\<rparr>) \<and> mem d = wmem w
    \<and> ctx_addr c = end_addr (w_info w)"
proof -
  obtain d where "flash_read fd (end_addr (w_info w)) 4 w =
      (SPI_FLASH_RESULT_OK, bytes_at (wmem w) (end_addr (w_info w)) 4, w\<lparr>w_flash := d\<rparr>)"
    and "mem d = wmem w" using assms by (rule flash_read_step)
  then show ?thesis
    by (intro exI[of _ d]) (simp add: init_write_context_def Let_def ENTRY_HEADER_SIZE_def zero_context_def)
qed

lemma room_fits:
  assumes "holds_log csize m i es" and "entry_extent n \<le> log_room i"
  shows "end_addr i + entry_extent n \<le> csize" "end_addr i + 4 \<le> csize"
proof -
  have "end_addr i \<le> cur_base i + region_size i" "cur_base i + region_size i \<le> csize"
    using assms(1) by (auto simp: holds_log_def region_ok_def)
  then show "end_addr i + entry_extent n \<le> csize" using assms(2) by linarith
  then show "end_addr i + 4 \<le> csize" using entry_extent_bounds(1)[of n] by linarith
qed

text \<open>\<open>extends w es n r es'\<close>: the call returned \<open>r\<close>, an OK whose world differs from \<open>w\<close> in the flash
  array and in the end of the log, \<open>n\<close> bytes further, and holds the log \<open>es'\<close>.\<close>

definition extends :: "'d spworld \<Rightarrow> nat \<Rightarrow> entry list \<Rightarrow> sysparam_status_t \<times> 'd spworld \<Rightarrow> bool" where
  "extends w n es' r \<longleftrightarrow>
     (\<exists>d. r = (SYSPARAM_OK, w\<lparr>w_flash := d, w_info := (w_info w)\<lparr>end_addr := end_addr (w_info w) + n\<rparr>\<rparr>)
        \<and> holds_log csize (mem d) ((w_info w)\<lparr>end_addr := end_addr (w_info w) + n\<rparr>) es')"

lemma append_value_step:
  assumes "holds_log csize (wmem w) (w_info w) es" and "w_mallocs w = []" and "i \<le> MAX_KEY_ID"
    and "entry_extent (length v) \<le> log_room (w_info w)" and "length v < 65536"
    and "map val [0..<length v] = v"
  shows "extends w (entry_extent (length v)) (es @ [value_entry i b v])
    (write_entry fd (end_addr (w_info w))
        (i OR ENTRY_FLAG_VALUE OR (if b then ENTRY_FLAG_BINARY else 0)) val (word_of_nat (length v)) w)"
proof -
  let ?f = "i OR ENTRY_FLAG_VALUE OR (if b then ENTRY_FLAG_BINARY else 0)"
  have ve: "value_entry i b v = (?f OR ENTRY_FLAG_ALIVE, v)" by (simp add: value_entry_def or.assoc)
  then have "?f OR ENTRY_FLAG_ALIVE \<noteq> 0xffff" using value_entry_flags(4)[OF assms(3), of b v] by simp
  from append_entry_step[OF assms(1,2,4,5) id_word_flags(2)[OF assms(3), of b] this assms(6)] ve
  show ?thesis unfolding extends_def by metis
qed

lemma append_key_step:
  assumes "holds_log csize (wmem w) (w_info w) es" and "w_mallocs w = []" and "i \<le> MAX_KEY_ID"
    and "entry_extent (length k) \<le> log_room (w_info w)" and "length k < 65536"
  shows "extends w (entry_extent (length k)) (es @ [key_entry i k])
    (write_entry fd (end_addr (w_info w)) i (cbuf (k @ [0]) junk) (word_of_nat (length k)) w)"
proof -
  have "i OR ENTRY_FLAG_ALIVE \<noteq> 0xffff" using key_entry_flags(4)[OF assms(3), of k] by (simp add: key_entry_def)
  moreover have "map (cbuf (k @ [0]) junk) [0..<length k] = k"
    by (intro nth_equalityI) (auto simp: cbuf_def nth_append)
  ultimately show ?thesis
    using append_entry_step[OF assms(1,2,4,5) id_word_flags(1)[OF assms(3)]]
    unfolding extends_def by (metis key_entry_def)
qed

text \<open>The last step of \<open>sysparam_set_data\<close>, for a key that exists and for a new one.\<close>

lemma set_data_append_old:
  assumes "holds_log csize (wmem w) (w_info w) es" and "w_mallocs w = []" and "i \<le> MAX_KEY_ID"
    and "entry_extent (length v) \<le> log_room (w_info w)" and "length v < 65536"
    and "map val [0..<length v] = v"
  shows "extends w (entry_extent (length v)) (es @ [value_entry i b v])
    (set_data_append fd k n val (length v) (if b then ENTRY_FLAG_BINARY else 0) ctx (int (unat i)) w)"
proof -
  note fits = room_fits[OF assms(1,4)]
  obtain d0 s c where ic: "init_write_context fd w = (s, c, w\<lparr>w_flash := d0\<rparr>)"
    and m0: "mem d0 = wmem w" and ca: "ctx_addr c = end_addr (w_info w)"
    using init_write_context_step[OF fits(2)] by blast
  let ?w1 = "w\<lparr>w_flash := d0\<rparr>"
  have "extends ?w1 (entry_extent (length v)) (es @ [value_entry i b v])
    (write_entry fd (end_addr (w_info ?w1))
        (i OR ENTRY_FLAG_VALUE OR (if b then ENTRY_FLAG_BINARY else 0)) val (word_of_nat (length v)) ?w1)"
    using assms m0 by (intro append_value_step) auto
  moreover have "u32 (end_addr (w_info w) + ENTRY_SIZE (length v)) = end_addr (w_info w) + entry_extent (length v)"
    using fits(1) assms(5) by (simp add: ENTRY_SIZE_extent no_wrap)
  ultimately show ?thesis
    using ic ca by (auto simp: set_data_append_def Let_def extends_def)
qed

lemma set_data_append_new:
  assumes "holds_log csize (wmem w) (w_info w) es" and "w_mallocs w = []" and "i \<le> MAX_KEY_ID"
    and "entry_extent (length k) + entry_extent (length v) \<le> log_room (w_info w)"
    and "length k < 65536" and "length v < 65536" and "map val [0..<length v] = v"
    and "ctx_max_key_id ctx + 1 = i"
  shows "extends w (entry_extent (length k) + entry_extent (length v)) (es @ [key_entry i k, value_entry i b v])
    (set_data_append fd k (length k) val (length v) (if b then ENTRY_FLAG_BINARY else 0) ctx (- 1) w)"
proof -
  let ?a = "end_addr (w_info w)"
  let ?e = "?a + entry_extent (length k)"
  have rk: "entry_extent (length k) \<le> log_room (w_info w)" using assms(4) by linarith
  note fits = room_fits[OF assms(1) rk]
  obtain d0 s c where ic: "init_write_context fd w = (s, c, w\<lparr>w_flash := d0\<rparr>)"
    and m0: "mem d0 = wmem w" and ca: "ctx_addr c = ?a"
    using init_write_context_step[OF fits(2)] by blast
  let ?w1 = "w\<lparr>w_flash := d0\<rparr>"
  have "extends ?w1 (entry_extent (length k)) (es @ [key_entry i k])
      (write_entry fd (end_addr (w_info ?w1)) i (cbuf (k @ [0]) (w_junk w)) (word_of_nat (length k)) ?w1)"
    using assms m0 rk by (intro append_key_step) auto
  then obtain d1 where wk: "write_entry fd ?a i (cbuf (k @ [0]) (w_junk w)) (word_of_nat (length k)) ?w1 =
      (SYSPARAM_OK, w\<lparr>w_flash := d1, w_info := (w_info w)\<lparr>end_addr := ?e\<rparr>\<rparr>)"
    and h1: "holds_log csize (mem d1) ((w_info w)\<lparr>end_addr := ?e\<rparr>) (es @ [key_entry i k])"
    by (auto simp: extends_def)
  let ?w2 = "w\<lparr>w_flash := d1, w_info := (w_info w)\<lparr>end_addr := ?e\<rparr>\<rparr>"
  have h2: "holds_log csize (wmem ?w2) (w_info ?w2) (es @ [key_entry i k])" using h1 by simp
  have rv: "entry_extent (length v) \<le> log_room (w_info ?w2)" using assms(4) by simp
  have "extends ?w2 (entry_extent (length v)) ((es @ [key_entry i k]) @ [value_entry i b v])
      (write_entry fd (end_addr (w_info ?w2)) (i OR ENTRY_FLAG_VALUE OR (if b then ENTRY_FLAG_BINARY else 0))
        val (word_of_nat (length v)) ?w2)"
    using assms h2 rv by (intro append_value_step) auto
  moreover have "u32 (?a + ENTRY_SIZE (length k)) = ?e"
    "u32 (?e + ENTRY_SIZE (length v)) = ?e + entry_extent (length v)"
    using fits(1) room_fits(1)[OF h2 rv] assms(5,6) by (simp_all add: ENTRY_SIZE_extent no_wrap)
  ultimately show ?thesis
    using ic wk ca assms(8) by (auto simp: set_data_append_def Let_def extends_def add.assoc)
qed

section \<open>Storing a value\<close>

lemma entry_id_idem [simp]: "entry_id (entry_id f) = entry_id f"
  by (rule bit_eqI) (auto simp: entry_id_def bit_simps)

lemma free_space_room:
  assumes "holds_log csize m (w_info w) es"
  shows "free_space w = log_room (w_info w)"
proof -
  let ?lim = "cur_base (w_info w) + region_size (w_info w)"
  have "?lim \<le> csize" "end_addr (w_info w) \<le> ?lim" using assms by (auto simp: holds_log_def region_ok_def)
  then show ?thesis using small_addr[of ?lim] by (simp add: free_space_def no_wrap sub32_small)
qed

text \<open>With room in the region, a free id and no inconsistency seen, no compaction happens.\<close>

lemma set_data_store_roomy:
  assumes "set_data_same fd klen val n (if b then ENTRY_FLAG_BINARY else 0) old ctx w = Inr (ctx1, w1)"
    and "(if kid < 0 then entry_extent n + entry_extent (length k) else entry_extent n) \<le> free_space w1"
    and "n < 65536" and "length k < 65536" and "klen = length k"
    and "kid < 0 \<longrightarrow> ctx_max_key_id ctx1 < MAX_KEY_ID" and "\<not> force_compact (w_info w1)"
  shows "set_data_store fuel fd k klen val n b ctx kid old w =
    (case set_data_append fd k klen val n (if b then ENTRY_FLAG_BINARY else 0) ctx1 kid w1 of
       (status, w5) \<Rightarrow> if status_code status < 0 then Some (status, w5)
         else Some (set_data_delete_old fd status old w5))"
proof -
  have "entry_extent n < 65544" "entry_extent (length k) < 65544"
    using entry_extent_bounds(2)[of n] entry_extent_bounds(2)[of "length k"] assms(3,4) by linarith+
  then have sz: "u32 (ENTRY_SIZE n + ENTRY_SIZE (length k)) = entry_extent n + entry_extent (length k)"
    using assms(3,4) by (simp add: ENTRY_SIZE_extent u32_small)
  have room: "set_data_room fuel fd (if kid < 0 then u32 (ENTRY_SIZE n + ENTRY_SIZE (length k)) else ENTRY_SIZE n)
      ctx1 kid old w1 = Some (Inr (ctx1, kid, old, w1))"
    unfolding set_data_room_def using assms(2-4) sz by (auto simp: ENTRY_SIZE_extent)
  have nids: "set_data_ids fuel fd ctx1 kid old w1 = Some (Inr (ctx1, kid, old, w1))"
    unfolding set_data_ids_def using assms(6) by auto
  have nforce: "set_data_force fuel fd ctx1 kid w1 = Some (Inr (ctx1, kid, w1))"
    unfolding set_data_force_def using assms(7) by simp
  have klen: "u16 (length k) = length k" using assms(4) by (simp add: u16_small)
  show ?thesis
    using room unfolding set_data_store_def Let_def assms(1)
    by (cases "kid < 0") (simp_all add: nids nforce klen assms(5))
qed

text \<open>Comparing with the value that is there.\<close>

lemma set_data_same_step:
  assumes "searching w c0 a (pre @ (g, v0) # rest) e" and "ctx_addr ctx = a + log_size pre"
    and "ctx_entry ctx = entry_hdr (g, v0)" and "w_mallocs w = []"
  shows "\<exists>d ctx1. mem d = wmem w \<and> ctx_max_key_id ctx1 = ctx_max_key_id ctx
    \<and> set_data_same fd klen val n f (ctx_addr ctx) ctx w =
        (if g AND ENTRY_FLAG_BINARY = f \<and> v0 = map val [0..<n] then Inl (SYSPARAM_OK, w\<lparr>w_flash := d\<rparr>)
         else Inr (ctx1, w\<lparr>w_flash := d\<rparr>))"
proof -
  note sf = searching_found[OF assms(1-3)]
  let ?c1 = "ctx\<lparr>ctx_compactable := u32 (ctx_compactable ctx + ENTRY_SIZE (length v0))\<rparr>"
  have a0: "ctx_addr ctx \<noteq> 0" using assms(1,2) by (auto simp: searching_def)
  have ln: "unat (e_len (ctx_entry ctx)) = length v0" using assms(3) sf(3) by simp
  show ?thesis
  proof (cases "g AND ENTRY_FLAG_BINARY = f \<and> length v0 = n")
    case False
    then have "\<not> (g AND ENTRY_FLAG_BINARY = f \<and> v0 = map val [0..<n])" by auto
    with False a0 ln assms(3) show ?thesis
      by (intro exI[of _ "w_flash w"] exI[of _ ?c1]) (auto simp: set_data_same_def Let_def)
  next
    case True
    obtain d where "read_payload fd ctx (length v0) w = (SYSPARAM_OK, v0, w\<lparr>w_flash := d\<rparr>)" and "mem d = wmem w"
      using read_payload_step[of w ctx v0 g] sf assms(3) by auto
    with True a0 ln assms(3,4) show ?thesis
      by (intro exI[of _ d] exI[of _ ?c1]) (auto simp: set_data_same_def Let_def realloc_def)
  qed
qed

definition put_done ::
  "'d spworld \<Rightarrow> entry list \<Rightarrow> byte list \<Rightarrow> (byte list \<times> bool) option \<Rightarrow> nat \<Rightarrow>
     (sysparam_status_t \<times> 'd spworld) option \<Rightarrow> bool" where
  "put_done w es k x n r \<longleftrightarrow>
     (\<exists>d e es'. r = Some (SYSPARAM_OK, w\<lparr>w_flash := d, w_info := (w_info w)\<lparr>end_addr := e\<rparr>\<rparr>)
        \<and> holds_log csize (mem d) ((w_info w)\<lparr>end_addr := e\<rparr>) es' \<and> wf_log es'
        \<and> log_lookup es' = (log_lookup es)(k := x)
        \<and> length es' \<le> length es + 2 \<and> e \<le> end_addr (w_info w) + n)"

lemma put_doneI:
  assumes "r = Some (SYSPARAM_OK, w\<lparr>w_flash := d, w_info := (w_info w)\<lparr>end_addr := e\<rparr>\<rparr>)"
    and "holds_log csize (mem d) ((w_info w)\<lparr>end_addr := e\<rparr>) es'" and "wf_log es'"
    and "log_lookup es' = (log_lookup es)(k := x)"
    and "length es' \<le> length es + 2" and "e \<le> end_addr (w_info w) + n"
  shows "put_done w es k x n r"
  unfolding put_done_def using assms by blast

text \<open>Where \<open>_find_key\<close> and \<open>_find_value\<close> leave the search in \<open>sysparam_set_data\<close>.\<close>

lemma set_data_find_new:
  assumes "holds_log csize (wmem w) (w_info w) es" and "Suc (length es) < fuel" and "key_id_of es k = None"
  shows "\<exists>d c buf'. find_key fuel fd (init_context w) (Some k) (length k) buf w =
      Some (SYSPARAM_NOTFOUND, c, buf', w\<lparr>w_flash := d\<rparr>) \<and> mem d = wmem w
      \<and> ctx_max_key_id c = last_key_id 0 es"
proof -
  have "find_first (is_key k) es = None" using assms(3) by (simp add: key_id_of_def)
  from find_key_none[OF searching_start[OF assms(1)] assms(2) this, of buf]
  show ?thesis by (auto simp: init_context_def zero_context_def)
qed

lemma set_data_find_old:
  assumes "holds_log csize (wmem w) (w_info w) es" and "Suc (length es) < fuel"
    and "key_id_of es k = Some i" and "wf_log es"
  obtains d c b pre x rest where
      "find_key fuel fd (init_context w) (Some k) (length k) buf w = Some (SYSPARAM_OK, c, b, w\<lparr>w_flash := d\<rparr>)"
    and "mem d = wmem w" and "es = pre @ x # rest" and "ctx_entry c = entry_hdr x" and "entry_id (fst x) = i"
    and "searching w c (cur_base (w_info w) + 8 + log_size pre + entry_extent (length (snd x))) rest
           (end_addr (w_info w))"
    and "log_value i rest = log_value i es"
proof -
  obtain x rest where x: "find_first (is_key k) es = Some (x, rest)" and i: "entry_id (fst x) = i"
    using assms(3) by (auto simp: key_id_of_def)
  obtain d c b pre where 1: "find_key fuel fd (init_context w) (Some k) (length k) buf w =
      Some (SYSPARAM_OK, c, b, w\<lparr>w_flash := d\<rparr>)" "mem d = wmem w" "es = pre @ x # rest"
    "ctx_addr c = cur_base (w_info w) + 8 + log_size pre" "ctx_entry c = entry_hdr x"
    using find_key_found[OF searching_start[OF assms(1)] assms(2) x, of buf] by blast
  have "log_value i rest = log_value i es"
    using log_lookup_wf[OF assms(4), of k] assms(3) x i by (simp add: log_lookup_def)
  with 1 i searching_found(1)[OF searching_start[OF assms(1), unfolded 1(3)] 1(4,5)] that
  show ?thesis by blast
qed

lemma put_new:
  assumes "holds_log csize (wmem w) (w_info w) es" and "wf_log es" and "w_mallocs w = []"
    and "\<not> force_compact (w_info w)" and "length k < 65536" and "v \<noteq> []" and "length v < 65536"
    and "map val [0..<length v] = v" and "Suc (length es) < fuel"
    and "key_id_of es k = None" and "last_key_id 0 es < MAX_KEY_ID"
    and "entry_extent (length v) + entry_extent (length k) \<le> log_room (w_info w)"
  shows "put_done w es k (Some (v, b)) (entry_extent (length v) + entry_extent (length k))
    (set_data_body fuel fd k (length k) val (length v) b w)"
proof -
  let ?i = "last_key_id 0 es + 1"
  let ?f = "if b then ENTRY_FLAG_BINARY else 0"
  obtain d c buf where k: "find_key fuel fd (init_context w) (Some k) (length k) (map (w_junk w) [0..<length k]) w =
      Some (SYSPARAM_NOTFOUND, c, buf, w\<lparr>w_flash := d\<rparr>)" and md: "mem d = wmem w"
    and cm: "ctx_max_key_id c = last_key_id 0 es"
    using set_data_find_new[OF assms(1,9,10)] by blast
  let ?w1 = "w\<lparr>w_flash := d\<rparr>"
  have h1: "holds_log csize (wmem ?w1) (w_info ?w1) es" using assms(1) md by simp
  have same: "set_data_same fd (length k) val (length v) ?f 0 c ?w1 = Inr (c, ?w1)"
    by (simp add: set_data_same_def)
  have im: "?i \<le> MAX_KEY_ID"
    using assms(11) by (auto simp: word_less_nat_alt word_le_nat_alt unat_word_ariths MAX_KEY_ID_def)
  note add = wf_add_key[OF assms(2,10,11)]
  have "extends ?w1 (entry_extent (length k) + entry_extent (length v)) (es @ [key_entry ?i k, value_entry ?i b v])
      (set_data_append fd k (length k) val (length v) ?f c (- 1) ?w1)"
    using assms cm im h1 by (intro set_data_append_new) (auto simp: add.commute)
  moreover have "set_data_store fuel fd k (length k) val (length v) b c (- 1) 0 ?w1 =
      (case set_data_append fd k (length k) val (length v) ?f c (- 1) ?w1 of
       (status, w5) \<Rightarrow> if status_code status < 0 then Some (status, w5)
         else Some (set_data_delete_old fd status 0 w5))"
    using assms cm free_space_room[OF h1] by (intro set_data_store_roomy[OF same]) auto
  moreover have "wf_log (es @ [key_entry ?i k, value_entry ?i b v])"
    "log_lookup (es @ [key_entry ?i k, value_entry ?i b v]) = (log_lookup es)(k \<mapsto> (v, b))"
    using wf_add_value[OF add(1,3,4), of b v] add(2) by simp_all
  ultimately show ?thesis
    using k assms(6)
    by (auto simp: extends_def set_data_body_def set_data_delete_old_def simp del: fun_upd_apply intro!: put_doneI)
qed

lemma set_data_find_no_value:
  assumes "holds_log csize (wmem w) (w_info w) es" and "Suc (length es) < fuel"
    and "key_id_of es k = Some i" and "wf_log es" and "log_value i es = None"
  obtains d c buf c2 d2 x where
      "find_key fuel fd (init_context w) (Some k) (length k) bf w = Some (SYSPARAM_OK, c, buf, w\<lparr>w_flash := d\<rparr>)"
    and "ctx_entry c = entry_hdr x" and "entry_id (fst x) = i"
    and "find_value fuel fd c i (w\<lparr>w_flash := d\<rparr>) = Some (SYSPARAM_NOTFOUND, c2, w\<lparr>w_flash := d2\<rparr>)"
    and "mem d2 = wmem w"
proof -
  note ok = wf_key_ids[OF assms(4) key_id_of_mem[OF assms(3)]]
  obtain d c buf pre x rest where
      k: "find_key fuel fd (init_context w) (Some k) (length k) bf w = Some (SYSPARAM_OK, c, buf, w\<lparr>w_flash := d\<rparr>)"
    and md: "mem d = wmem w" and es: "es = pre @ x # rest" and ce: "ctx_entry c = entry_hdr x" and i: "entry_id (fst x) = i"
    and sr: "searching w c (cur_base (w_info w) + 8 + log_size pre + entry_extent (length (snd x))) rest (end_addr (w_info w))"
    and lv: "log_value i rest = log_value i es"
    by (rule set_data_find_old[OF assms(1-4)])
  let ?w1 = "w\<lparr>w_flash := d\<rparr>"
  have ii: "entry_id i = i" using i by auto
  have "searching ?w1 c (cur_base (w_info w) + 8 + log_size pre + entry_extent (length (snd x))) rest (end_addr (w_info w))"
    using sr md by (simp add: searching_flash)
  moreover have "length rest < fuel" using assms(2) es by simp
  moreover have "log_value (entry_id i) rest = None" "entry_id i \<noteq> ENTRY_ID_END"
    using ii lv assms(5) ok by simp_all
  ultimately obtain d2 c2 where "find_value fuel fd c i ?w1 = Some (SYSPARAM_NOTFOUND, c2, ?w1\<lparr>w_flash := d2\<rparr>)"
    and md2: "mem d2 = wmem ?w1" by (rule find_value_none)
  then have fv: "find_value fuel fd c i ?w1 = Some (SYSPARAM_NOTFOUND, c2, w\<lparr>w_flash := d2\<rparr>)" by simp
  have "mem d2 = wmem w" using md md2 by simp
  from that[OF k ce i fv this] show ?thesis .
qed

lemma put_first_value:
  assumes "holds_log csize (wmem w) (w_info w) es" and "wf_log es" and "w_mallocs w = []"
    and "\<not> force_compact (w_info w)" and "length k < 65536" and "v \<noteq> []" and "length v < 65536"
    and "map val [0..<length v] = v" and "Suc (length es) < fuel"
    and "key_id_of es k = Some i" and "log_value i es = None"
    and "entry_extent (length v) \<le> log_room (w_info w)"
  shows "put_done w es k (Some (v, b)) (entry_extent (length v))
    (set_data_body fuel fd k (length k) val (length v) b w)"
proof -
  let ?f = "if b then ENTRY_FLAG_BINARY else 0"
  note ok = wf_key_ids[OF assms(2) key_id_of_mem[OF assms(10)]]
  obtain d c buf c2 d2 x where
      k: "find_key fuel fd (init_context w) (Some k) (length k) (map (w_junk w) [0..<length k]) w = Some (SYSPARAM_OK, c, buf, w\<lparr>w_flash := d\<rparr>)"
    and ce: "ctx_entry c = entry_hdr x" and i: "entry_id (fst x) = i"
    and fv: "find_value fuel fd c i (w\<lparr>w_flash := d\<rparr>) = Some (SYSPARAM_NOTFOUND, c2, w\<lparr>w_flash := d2\<rparr>)"
    and md2: "mem d2 = wmem w"
    by (rule set_data_find_no_value[OF assms(1,9,10,2,11)])
  let ?w2 = "w\<lparr>w_flash := d2\<rparr>"
  have h2: "holds_log csize (wmem ?w2) (w_info ?w2) es" using assms(1) md2 by simp
  have same: "set_data_same fd (length k) val (length v) ?f 0 c2 ?w2 = Inr (c2, ?w2)"
    by (simp add: set_data_same_def)
  have "extends ?w2 (entry_extent (length v)) (es @ [value_entry i b v])
      (set_data_append fd k (length k) val (length v) ?f c2 (int (unat i)) ?w2)"
    using assms h2 ok by (intro set_data_append_old) auto
  moreover have "set_data_store fuel fd k (length k) val (length v) b c2 (int (unat i)) 0 ?w2 =
      (case set_data_append fd k (length k) val (length v) ?f c2 (int (unat i)) ?w2 of
       (status, w5) \<Rightarrow> if status_code status < 0 then Some (status, w5)
         else Some (set_data_delete_old fd status 0 w5))"
    using assms free_space_room[OF h2] by (intro set_data_store_roomy[OF same]) auto
  ultimately show ?thesis
    using k fv ce i assms(6) wf_add_value[OF assms(2,10,11), of b v]
    by (auto simp: extends_def set_data_body_def set_data_delete_old_def entry_id_def
        simp del: fun_upd_apply intro!: put_doneI)
qed

text \<open>The key has a value: \<open>_find_value\<close> stops at it.\<close>

lemma set_data_find_value:
  assumes "holds_log csize (wmem w) (w_info w) es" and "Suc (length es) < fuel"
    and "key_id_of es k = Some i" and "wf_log es" and "log_value i es = Some (v0, b0)"
  obtains d c buf c2 d2 pre g rest x where
      "find_key fuel fd (init_context w) (Some k) (length k) bf w = Some (SYSPARAM_OK, c, buf, w\<lparr>w_flash := d\<rparr>)"
    and "ctx_entry c = entry_hdr x" and "entry_id (fst x) = i"
    and "find_value fuel fd c i (w\<lparr>w_flash := d\<rparr>) = Some (SYSPARAM_OK, c2, w\<lparr>w_flash := d2\<rparr>)"
    and "mem d2 = wmem w" and "es = pre @ (g, v0) # rest"
    and "ctx_addr c2 = cur_base (w_info w) + 8 + log_size pre" and "ctx_entry c2 = entry_hdr (g, v0)"
    and "b0 = (g AND ENTRY_FLAG_BINARY \<noteq> 0)" and "live g" and "is_value g" and "entry_id g = i"
proof -
  note ok = wf_key_ids[OF assms(4) key_id_of_mem[OF assms(3)]]
  obtain d c buf pre x rest where
      k: "find_key fuel fd (init_context w) (Some k) (length k) bf w = Some (SYSPARAM_OK, c, buf, w\<lparr>w_flash := d\<rparr>)"
    and md: "mem d = wmem w" and es: "es = pre @ x # rest" and ce: "ctx_entry c = entry_hdr x" and i: "entry_id (fst x) = i"
    and sr: "searching w c (cur_base (w_info w) + 8 + log_size pre + entry_extent (length (snd x))) rest (end_addr (w_info w))"
    and lv: "log_value i rest = log_value i es"
    by (rule set_data_find_old[OF assms(1-4)])
  let ?w1 = "w\<lparr>w_flash := d\<rparr>"
  have ii: "entry_id i = i" using i by auto
  have s1: "searching ?w1 c (cur_base (w_info w) + 8 + log_size pre + entry_extent (length (snd x))) rest (end_addr (w_info w))"
    using sr md by (simp add: searching_flash)
  have f: "length rest < fuel" using assms(2) es by simp
  have v: "log_value (entry_id i) rest = Some (v0, b0)" using ii lv assms(5) by simp
  obtain d2 c2 pre' g rest' where fv: "find_value fuel fd c i ?w1 = Some (SYSPARAM_OK, c2, ?w1\<lparr>w_flash := d2\<rparr>)"
    and md2: "mem d2 = wmem ?w1" and r: "rest = pre' @ (g, v0) # rest'"
    and ca: "ctx_addr c2 = cur_base (w_info w) + 8 + log_size pre + entry_extent (length (snd x)) + log_size pre'"
    and ce2: "ctx_entry c2 = entry_hdr (g, v0)" and b0: "b0 = (g AND ENTRY_FLAG_BINARY \<noteq> 0)"
    and m: "matches (entry_id i) True (g, v0)"
    by (rule find_value_found[OF s1 f v])
  have g: "live g" "is_value g" "entry_id g = i" using m ii ok by (auto simp: matches_def)
  have es2: "es = (pre @ x # pre') @ (g, v0) # rest'" using es r by simp
  have ca2: "ctx_addr c2 = cur_base (w_info w) + 8 + log_size (pre @ x # pre')" using ca by simp
  have fv2: "find_value fuel fd c i ?w1 = Some (SYSPARAM_OK, c2, w\<lparr>w_flash := d2\<rparr>)" using fv by simp
  have "mem d2 = wmem w" using md md2 by simp
  from that[OF k ce i fv2 this es2 ca2 ce2 b0 g] show ?thesis .
qed

lemma put_replace:
  assumes "holds_log csize (wmem w) (w_info w) es" and "wf_log es" and "w_mallocs w = []"
    and "\<not> force_compact (w_info w)" and "length k < 65536" and "v \<noteq> []" and "length v < 65536"
    and "map val [0..<length v] = v" and "Suc (length es) < fuel"
    and "key_id_of es k = Some i" and "log_value i es = Some (v0, b0)"
    and "entry_extent (length v) \<le> log_room (w_info w)"
  shows "put_done w es k (Some (v, b)) (entry_extent (length v))
    (set_data_body fuel fd k (length k) val (length v) b w)"
proof -
  let ?f = "if b then ENTRY_FLAG_BINARY else 0"
  note ok = wf_key_ids[OF assms(2) key_id_of_mem[OF assms(10)]]
  obtain d c buf c2 d2 pre g rest x where
      k: "find_key fuel fd (init_context w) (Some k) (length k) (map (w_junk w) [0..<length k]) w = Some (SYSPARAM_OK, c, buf, w\<lparr>w_flash := d\<rparr>)"
    and ce: "ctx_entry c = entry_hdr x" and i: "entry_id (fst x) = i"
    and fv: "find_value fuel fd c i (w\<lparr>w_flash := d\<rparr>) = Some (SYSPARAM_OK, c2, w\<lparr>w_flash := d2\<rparr>)"
    and md2: "mem d2 = wmem w" and es: "es = pre @ (g, v0) # rest"
    and ca: "ctx_addr c2 = cur_base (w_info w) + 8 + log_size pre" and ce2: "ctx_entry c2 = entry_hdr (g, v0)"
    and b0: "b0 = (g AND ENTRY_FLAG_BINARY \<noteq> 0)" and g: "live g" "is_value g" "entry_id g = i"
    by (rule set_data_find_value[OF assms(1,9,10,2,11)])
  let ?w2 = "w\<lparr>w_flash := d2\<rparr>"
  let ?a = "cur_base (w_info w) + 8 + log_size pre"
  have h2: "holds_log csize (wmem ?w2) (w_info ?w2) es" using assms(1) md2 by simp
  have s2: "searching ?w2 (init_context ?w2) (cur_base (w_info w) + 8) (pre @ (g, v0) # rest) (end_addr (w_info w))"
    using searching_start[OF h2] es by simp
  have body: "set_data_body fuel fd k (length k) val (length v) b w =
      set_data_store fuel fd k (length k) val (length v) b c2 (int (unat i)) ?a ?w2"
    using k fv ce i ca assms(6) by (simp add: set_data_body_def entry_id_def)
  obtain d3 c3 where md3: "mem d3 = wmem w" and same: "set_data_same fd (length k) val (length v) ?f ?a c2 ?w2 =
      (if g AND ENTRY_FLAG_BINARY = ?f \<and> v0 = v then Inl (SYSPARAM_OK, ?w2\<lparr>w_flash := d3\<rparr>)
       else Inr (c3, ?w2\<lparr>w_flash := d3\<rparr>))"
    using set_data_same_step[OF s2 _ ce2, of "length k" val "length v" ?f] ca assms(3,8) md2 by auto
  show ?thesis
  proof (cases "g AND ENTRY_FLAG_BINARY = ?f \<and> v0 = v")
    case True
    then have "log_lookup es k = Some (v, b)"
      using b0 assms(10,11) by (auto simp: log_lookup_wf[OF assms(2)] flag_defs split: if_splits)
    then have "log_lookup es = (log_lookup es)(k \<mapsto> (v, b))" by (simp add: fun_upd_idem)
    with True same body show ?thesis
      using assms(1,2) md3 by (intro put_doneI[where d = d3 and e = "end_addr (w_info w)" and es' = es]) (auto simp: set_data_store_def)
  next
    case False
    let ?w3 = "w\<lparr>w_flash := d3\<rparr>"
    let ?y = "(g, v0)" and ?z = "value_entry i b v"
    have h3: "holds_log csize (wmem ?w3) (w_info ?w3) es" using assms(1) md3 by simp
    have "set_data_same fd (length k) val (length v) ?f ?a c2 ?w2 = Inr (c3, ?w3)" using same False by auto
    then have store: "set_data_store fuel fd k (length k) val (length v) b c2 (int (unat i)) ?a ?w2 =
      (case set_data_append fd k (length k) val (length v) ?f c3 (int (unat i)) ?w3 of
       (status, w5) \<Rightarrow> if status_code status < 0 then Some (status, w5)
         else Some (set_data_delete_old fd status ?a w5))"
      using assms free_space_room[OF h3] by (intro set_data_store_roomy) auto
    have "extends ?w3 (entry_extent (length v)) (es @ [?z])
        (set_data_append fd k (length k) val (length v) ?f c3 (int (unat i)) ?w3)"
      using assms h3 ok by (intro set_data_append_old) auto
    then obtain d4 where ap: "set_data_append fd k (length k) val (length v) ?f c3 (int (unat i)) ?w3 =
        (SYSPARAM_OK, w\<lparr>w_flash := d4, w_info := (w_info w)\<lparr>end_addr := end_addr (w_info w) + entry_extent (length v)\<rparr>\<rparr>)"
      and h4: "holds_log csize (mem d4) ((w_info w)\<lparr>end_addr := end_addr (w_info w) + entry_extent (length v)\<rparr>) (es @ [?z])"
      by (auto simp: extends_def)
    let ?w4 = "w\<lparr>w_flash := d4, w_info := (w_info w)\<lparr>end_addr := end_addr (w_info w) + entry_extent (length v)\<rparr>\<rparr>"
    have "holds_log csize (wmem ?w4) (w_info ?w4) (pre @ ?y # (rest @ [?z]))" using h4 es by simp
    then obtain d5 where del: "delete_entry fd ?a ?w4 = (SYSPARAM_OK, ?w4\<lparr>w_flash := d5\<rparr>)"
      and h5: "holds_log csize (mem d5) (w_info ?w4) (pre @ kill ?y # (rest @ [?z]))"
      using kill_entry_step[of ?w4 pre ?y "rest @ [?z]"] by auto
    have "wf_log (pre @ kill ?y # rest)" "log_lookup (pre @ kill ?y # rest) = (log_lookup es)(k := None)"
      "key_id_of (pre @ kill ?y # rest) k = Some i" "log_value i (pre @ kill ?y # rest) = None"
      using wf_kill[of pre ?y rest k] assms(2,10) g es by auto
    from wf_add_value[OF this(1,3,4), of b v] this(2)
    have wf5: "wf_log (pre @ kill ?y # (rest @ [?z]))"
      "log_lookup (pre @ kill ?y # (rest @ [?z])) = (log_lookup es)(k \<mapsto> (v, b))" by simp_all
    have "set_data_body fuel fd k (length k) val (length v) b w = Some (SYSPARAM_OK, ?w4\<lparr>w_flash := d5\<rparr>)"
      using body store ap del by (simp add: set_data_delete_old_def)
    then show ?thesis using h5 wf5 es by (intro put_doneI) auto
  qed
qed

lemma set_data_body_put:
  assumes "holds_log csize (wmem w) (w_info w) es" and "wf_log es" and "w_mallocs w = []"
    and "\<not> force_compact (w_info w)" and "length k < 65536" and "v \<noteq> []" and "length v < 65536"
    and "map val [0..<length v] = v" and "Suc (length es) < fuel"
    and "put_space es k (length v) \<le> log_room (w_info w)"
    and "key_id_of es k = None \<longrightarrow> last_key_id 0 es < MAX_KEY_ID"
  shows "put_done w es k (Some (v, b)) (put_space es k (length v))
    (set_data_body fuel fd k (length k) val (length v) b w)"
proof (cases "key_id_of es k")
  case None
  then show ?thesis using assms put_new[OF assms(1-9)] by (simp add: put_space_def)
next
  case (Some i)
  then show ?thesis
    using assms put_first_value[OF assms(1-9) Some] put_replace[OF assms(1-9) Some]
    by (cases "log_value i es") (auto simp: put_space_def)
qed

lemma set_data_body_delete:
  assumes "holds_log csize (wmem w) (w_info w) es" and "wf_log es" and "Suc (length es) < fuel"
    and "log_lookup es k \<noteq> None"
  shows "put_done w es k None 0 (set_data_body fuel fd k (length k) val 0 b w)"
proof -
  obtain i v0 b0 where i: "key_id_of es k = Some i" and v: "log_value i es = Some (v0, b0)"
    using assms(4) by (auto simp: log_lookup_wf[OF assms(2)] bind_eq_Some_conv)
  obtain d c buf c2 d2 pre g rest x where
      k: "find_key fuel fd (init_context w) (Some k) (length k) (map (w_junk w) [0..<length k]) w = Some (SYSPARAM_OK, c, buf, w\<lparr>w_flash := d\<rparr>)"
    and ce: "ctx_entry c = entry_hdr x" and ix: "entry_id (fst x) = i"
    and fv: "find_value fuel fd c i (w\<lparr>w_flash := d\<rparr>) = Some (SYSPARAM_OK, c2, w\<lparr>w_flash := d2\<rparr>)"
    and md2: "mem d2 = wmem w" and es: "es = pre @ (g, v0) # rest"
    and ca: "ctx_addr c2 = cur_base (w_info w) + 8 + log_size pre" and ce2: "ctx_entry c2 = entry_hdr (g, v0)"
    and b0: "b0 = (g AND ENTRY_FLAG_BINARY \<noteq> 0)" and g: "live g" "is_value g" "entry_id g = i"
    by (rule set_data_find_value[OF assms(1,3) i assms(2) v])
  let ?w2 = "w\<lparr>w_flash := d2\<rparr>"
  have "holds_log csize (wmem ?w2) (w_info ?w2) (pre @ (g, v0) # rest)" using assms(1) md2 es by simp
  then obtain d3 where del: "delete_entry fd (cur_base (w_info w) + 8 + log_size pre) ?w2 = (SYSPARAM_OK, w\<lparr>w_flash := d3\<rparr>)"
    and h3: "holds_log csize (mem d3) (w_info w) (pre @ kill (g, v0) # rest)"
    using kill_entry_step[of ?w2 pre "(g, v0)" rest] by auto
  have "set_data_body fuel fd k (length k) val 0 b w = Some (SYSPARAM_OK, w\<lparr>w_flash := d3\<rparr>)"
    using k fv ce ix ca del by (simp add: set_data_body_def entry_id_def set_data_delete_old_def)
  then show ?thesis
    using h3 wf_kill[of pre "(g, v0)" rest k] assms(2) i g es
    by (intro put_doneI[where d = d3 and e = "end_addr (w_info w)" and es' = "pre @ kill (g, v0) # rest"]) auto
qed

lemma set_data_body_delete_missing:
  assumes "holds_log csize (wmem w) (w_info w) es" and "wf_log es" and "Suc (length es) < fuel"
    and "log_lookup es k = None"
  shows "\<exists>d. set_data_body fuel fd k (length k) val 0 b w = Some (SYSPARAM_NOTFOUND, w\<lparr>w_flash := d\<rparr>) \<and> mem d = wmem w"
proof (cases "key_id_of es k")
  case None
  from set_data_find_new[OF assms(1,3) None, of "map (w_junk w) [0..<length k]"] show ?thesis
    by (auto simp: set_data_body_def set_data_delete_old_def)
next
  case (Some i)
  then have "log_value i es = None" using assms(4) by (simp add: log_lookup_wf[OF assms(2)])
  then obtain d c buf c2 d2 x where
      "find_key fuel fd (init_context w) (Some k) (length k) (map (w_junk w) [0..<length k]) w = Some (SYSPARAM_OK, c, buf, w\<lparr>w_flash := d\<rparr>)"
    and "ctx_entry c = entry_hdr x" and "entry_id (fst x) = i"
    and "find_value fuel fd c i (w\<lparr>w_flash := d\<rparr>) = Some (SYSPARAM_NOTFOUND, c2, w\<lparr>w_flash := d2\<rparr>)"
    and "mem d2 = wmem w"
    by (rule set_data_find_no_value[OF assms(1,3) Some assms(2)])
  then show ?thesis by (auto simp: set_data_body_def set_data_delete_old_def entry_id_def)
qed

end

end
