(* ===== verification/Sysparam_Api.thy ===== *)
theory Sysparam_Api
  imports Sysparam_Write
begin

text \<open>
  The parameter store as its clients see it: a finite map from keys to values. The locale
  \<open>kv_store\<close> is the contract (reading returns what the map says, storing and deleting update it);
  every flash device that meets the ROM contract \<open>nor_rom\<close> gives a model of it, with the region
  log as the representation. The typed accessors for integers and booleans follow.
\<close>

definition store_ok :: "nat \<Rightarrow> ('d \<Rightarrow> cptr) \<Rightarrow> 'd spworld \<Rightarrow> entry list \<Rightarrow> bool" where
  "store_ok csz mem w es \<longleftrightarrow>
     holds_log csz (mem (w_flash w)) (w_info w) es \<and> wf_log es
     \<and> w_mallocs w = [] \<and> \<not> force_compact (w_info w)"

definition store_fits :: "'d spworld \<Rightarrow> entry list \<Rightarrow> byte list \<Rightarrow> nat \<Rightarrow> bool" where
  "store_fits w es k n \<longleftrightarrow>
     put_space es k n \<le> log_room (w_info w)
     \<and> (key_id_of es k = None \<longrightarrow> last_key_id 0 es < MAX_KEY_ID)"

definition key_ok :: "byte list \<Rightarrow> bool" where
  "key_ok k \<longleftrightarrow> 0 < length k \<and> length k < 65536"

definition value_ok :: "byte list \<times> bool \<Rightarrow> bool" where
  "value_ok x \<longleftrightarrow> 0 < length (fst x) \<and> length (fst x) < 65536"

text \<open>The calls as a client uses them: the value found (data without the terminator that
  \<open>sysparam_get_data\<close> adds, and the binary flag), and the new state when a change was made.\<close>

definition get_param :: "nat \<Rightarrow> 'd flashdev \<Rightarrow> byte list \<Rightarrow> 'd spworld \<Rightarrow> ((byte list \<times> bool) option \<times> 'd spworld) option" where
  "get_param fuel fd k w =
     (case sysparam_get_data fuel fd k w of
        Some (SYSPARAM_OK, Some buf, Some n, Some b, w') \<Rightarrow> Some (Some (take n buf, b), w')
      | Some (SYSPARAM_NOTFOUND, _, _, _, w') \<Rightarrow> Some (None, w')
      | _ \<Rightarrow> None)"

definition put_param :: "nat \<Rightarrow> 'd flashdev \<Rightarrow> bool \<Rightarrow> byte list \<Rightarrow> byte list \<times> bool \<Rightarrow> 'd spworld \<Rightarrow> 'd spworld option" where
  "put_param fuel fd aligned k x w =
     (case sysparam_set_data fuel fd k (Some (cbuf (fst x) (w_junk w))) aligned (length (fst x)) (snd x) w of
        Some (SYSPARAM_OK, w') \<Rightarrow> Some w'
      | _ \<Rightarrow> None)"

definition del_param :: "nat \<Rightarrow> 'd flashdev \<Rightarrow> byte list \<Rightarrow> 'd spworld \<Rightarrow> 'd spworld option" where
  "del_param fuel fd k w =
     (case sysparam_set_data fuel fd k None True 0 False w of
        Some (SYSPARAM_OK, w') \<Rightarrow> Some w'
      | Some (SYSPARAM_NOTFOUND, w') \<Rightarrow> Some w'
      | _ \<Rightarrow> None)"

text \<open>What \<open>sysparam_get_bool\<close> makes of a stored value.\<close>

definition bool_view :: "(byte list \<times> bool) option \<Rightarrow> sysparam_status_t \<times> bool option" where
  "bool_view x =
     (case x of
        None \<Rightarrow> (SYSPARAM_NOTFOUND, None)
      | Some (v, bin) \<Rightarrow>
          if bin then (SYSPARAM_PARSEFAILED, None)
          else (case parse_bool (cstr (v @ [0])) of
                  None \<Rightarrow> (SYSPARAM_PARSEFAILED, None)
                | Some r \<Rightarrow> (SYSPARAM_OK, Some r)))"

text \<open>A chip that holds one parameter, the key \<^verbatim>\<open>k\<close> with the value \<^verbatim>\<open>v\<close>.\<close>

definition one_param_world :: "sim_dev spworld" where
  "one_param_world = sample_world\<lparr>
     w_flash := [(4104, 0x01), (4105, 0x80), (4106, 1), (4107, 0), (4108, 107),
                 (4112, 0x01), (4113, 0xa0), (4114, 1), (4115, 0), (4116, 118)],
     w_info := (w_info sample_world)\<lparr>end_addr := 4120\<rparr>\<rparr>"

definition one_param_log :: "entry list" where
  "one_param_log = [(0x8001, [107]), (0xa001, [118])]"

locale kv_store =
  fixes rep :: "'s \<Rightarrow> 'l \<Rightarrow> bool" and view :: "'l \<Rightarrow> 'k \<Rightarrow> 'v option"
    and key :: "'k \<Rightarrow> bool" and val :: "'v \<Rightarrow> bool"
    and fits :: "'s \<Rightarrow> 'l \<Rightarrow> 'k \<Rightarrow> 'v \<Rightarrow> bool"
    and get :: "'k \<Rightarrow> 's \<Rightarrow> ('v option \<times> 's) option"
    and put :: "'k \<Rightarrow> 'v \<Rightarrow> 's \<Rightarrow> 's option"
    and del :: "'k \<Rightarrow> 's \<Rightarrow> 's option"
  assumes get_view: "rep s l \<Longrightarrow> key k \<Longrightarrow> \<exists>s'. get k s = Some (view l k, s') \<and> rep s' l"
    and put_view: "rep s l \<Longrightarrow> key k \<Longrightarrow> val x \<Longrightarrow> fits s l k x \<Longrightarrow>
      \<exists>s' l'. put k x s = Some s' \<and> rep s' l' \<and> view l' = (view l)(k \<mapsto> x)"
    and del_view: "rep s l \<Longrightarrow> key k \<Longrightarrow>
      \<exists>s' l'. del k s = Some s' \<and> rep s' l' \<and> view l' = (view l)(k := None)"
begin

text \<open>Read your own write, and nobody else's value changes.\<close>

lemma put_get:
  assumes "rep s l" and "key k" and "key k'" and "val x" and "fits s l k x"
  obtains s1 s2 where "put k x s = Some s1" and "get k' s1 = Some (if k' = k then Some x else view l k', s2)"
proof -
  obtain s1 l1 where p: "put k x s = Some s1" and r: "rep s1 l1" and v: "view l1 = (view l)(k \<mapsto> x)"
    using put_view[OF assms(1,2,4,5)] by blast
  from get_view[OF r assms(3)] v p that show ?thesis by auto
qed

lemma del_get:
  assumes "rep s l" and "key k" and "key k'"
  obtains s1 s2 where "del k s = Some s1" and "get k' s1 = Some (if k' = k then None else view l k', s2)"
proof -
  obtain s1 l1 where p: "del k s = Some s1" and r: "rep s1 l1" and v: "view l1 = (view l)(k := None)"
    using del_view[OF assms(1,2)] by blast
  from get_view[OF r assms(3)] v p that show ?thesis by auto
qed

text \<open>A second write of the same key hides the first.\<close>

lemma put_put_get:
  assumes "rep s l" and "key k" and "val x" and "val y" and "fits s l k x"
    and "\<And>s1 l1. put k x s = Some s1 \<Longrightarrow> rep s1 l1 \<Longrightarrow> fits s1 l1 k y"
  obtains s1 s2 s3 where "put k x s = Some s1" and "put k y s1 = Some s2" and "get k s2 = Some (Some y, s3)"
proof -
  obtain s1 l1 where p: "put k x s = Some s1" and r: "rep s1 l1"
    using put_view[OF assms(1,2,3,5)] by blast
  then obtain s2 s3 where "put k y s1 = Some s2" "get k s2 = Some (Some y, s3)"
    using put_get[OF r assms(2) assms(2) assms(4) assms(6)[OF p r]] by auto
  with p that show ?thesis by blast
qed

end

context nor_rom
begin

lemma log_length:
  assumes "holds_log csize m i es"
  shows "4 * length es + 8 \<le> csize" "Suc (length es) < csize"
proof -
  have "4 * length es \<le> log_size es"
  proof (induction es)
    case (Cons x xs)
    then show ?case using entry_extent_bounds(1)[of "length (snd x)"] by simp
  qed simp
  moreover have "end_addr i = cur_base i + 8 + log_size es" "end_addr i \<le> cur_base i + region_size i"
    "cur_base i + region_size i \<le> csize" "8 < region_size i"
    using assms log_at_end by (auto simp: holds_log_def region_ok_def)
  ultimately show "4 * length es + 8 \<le> csize" "Suc (length es) < csize" by linarith+
qed

lemma get_data_log:
  assumes "store_ok csize mem w es" and "length k < 65536" and "csize \<le> fuel"
  shows "\<exists>d. mem d = wmem w \<and> sysparam_get_data fuel fd k w =
      (case log_lookup es k of
         Some (v, b) \<Rightarrow> Some (SYSPARAM_OK, Some (v @ [0]), Some (length v), Some b,
                           w\<lparr>w_flash := d, w_allocs := w_allocs w + 1\<rparr>)
       | None \<Rightarrow> Some (SYSPARAM_NOTFOUND, None, Some 0, None, w\<lparr>w_flash := d\<rparr>))"
proof -
  let ?w1 = "w\<lparr>w_allocs := w_allocs w + 1\<rparr>"
  have h: "holds_log csize (wmem w) (w_info w) es" "wf_log es" "w_mallocs w = []"
    using assms(1) by (auto simp: store_ok_def)
  have "Suc (length es) < fuel" using log_length(2)[OF h(1)] assms(3) by linarith
  with get_data_body_log[of ?w1 es k fuel] h assms(2) obtain d where "mem d = wmem w"
    "get_data_body fuel fd k ?w1 = (case log_lookup es k of
         Some (v, b) \<Rightarrow> Some (SYSPARAM_OK, Some (v @ [0], length v, b), ?w1\<lparr>w_flash := d\<rparr>)
       | None \<Rightarrow> Some (SYSPARAM_NOTFOUND, None, ?w1\<lparr>w_flash := d\<rparr>))" by auto
  moreover have "cur_base (w_info w) \<noteq> 0" using h(1) by (auto simp: holds_log_def region_ok_def)
  ultimately show ?thesis
    using h(3) by (intro exI[of _ d]) (auto simp: sysparam_get_data_def malloc_def free_def split: option.splits)
qed

text \<open>The frame of \<open>sysparam_set_data\<close>: argument checks, mutex, the buffers.\<close>

lemma set_data_frame:
  assumes "w_mallocs w = []" and "cur_base (w_info w) \<noteq> 0" and "key_ok k" and "n < 65536"
  shows "sysparam_set_data fuel fd k val aligned n b w =
    map_option (\<lambda>(s, w3). (s, w3\<lparr>w_sem := w_sem w3 - 1,
        w_allocs := w_allocs w3 - (if val \<noteq> None \<and> n \<noteq> 0 \<and> \<not> aligned then 2 else 1)\<rparr>))
      (set_data_body fuel fd k (length k)
        (case val of None \<Rightarrow> w_junk w
         | Some p \<Rightarrow> if n \<noteq> 0 \<and> \<not> aligned then cbuf (map p [0..<n]) (w_junk w) else p)
        (case val of None \<Rightarrow> 0 | Some _ \<Rightarrow> n) b
        (w\<lparr>w_sem := w_sem w + 1,
           w_allocs := w_allocs w + (if val \<noteq> None \<and> n \<noteq> 0 \<and> \<not> aligned then 2 else 1)\<rparr>))"
proof -
  have "\<not> MAX_KEY_LEN < length k" "\<not> MAX_VALUE_LEN < n" "u16 (length k) = length k" "k \<noteq> []"
    using assms(3,4) by (auto simp: MAX_KEY_LEN_def MAX_VALUE_LEN_def u16_small key_ok_def)
  then show ?thesis
    using assms(1,2)
    by (auto simp: sysparam_set_data_def Let_def malloc_def free_def map_conv_bind_option add.commute split: option.split
       intro!: arg_cong2[where f = Option.bind])
qed

lemma set_data_put:
  assumes "store_ok csize mem w es" and "key_ok k" and "value_ok (v, b)" and "map p [0..<length v] = v"
    and "store_fits w es k (length v)" and "csize \<le> fuel"
  shows "\<exists>w' es'. sysparam_set_data fuel fd k (Some p) aligned (length v) b w = Some (SYSPARAM_OK, w')
    \<and> store_ok csize mem w' es' \<and> log_lookup es' = (log_lookup es)(k \<mapsto> (v, b))
    \<and> w_allocs w' = w_allocs w \<and> w_sem w' = w_sem w
    \<and> log_room (w_info w) \<le> log_room (w_info w') + put_space es k (length v)"
proof -
  let ?n = "if length v \<noteq> 0 \<and> \<not> aligned then 2 else 1 :: int"
  let ?p = "if length v \<noteq> 0 \<and> \<not> aligned then cbuf (map p [0..<length v]) (w_junk w) else p"
  let ?w1 = "w\<lparr>w_sem := w_sem w + 1, w_allocs := w_allocs w + ?n\<rparr>"
  have h: "holds_log csize (wmem w) (w_info w) es" "wf_log es" "w_mallocs w = []" "\<not> force_compact (w_info w)"
    using assms(1) by (auto simp: store_ok_def)
  have f: "Suc (length es) < fuel" using log_length(2)[OF h(1)] assms(6) by linarith
  have "map ?p [0..<length v] = v" using assms(4) by (auto simp: map_cbuf)
  then have "put_done ?w1 es k (Some (v, b)) (put_space es k (length v))
      (set_data_body fuel fd k (length k) ?p (length v) b ?w1)"
    using h f assms(2,3,5) by (intro set_data_body_put) (auto simp: key_ok_def value_ok_def store_fits_def)
  then obtain d e es' where body: "set_data_body fuel fd k (length k) ?p (length v) b ?w1 =
      Some (SYSPARAM_OK, ?w1\<lparr>w_flash := d, w_info := (w_info w)\<lparr>end_addr := e\<rparr>\<rparr>)"
    and h': "holds_log csize (mem d) ((w_info w)\<lparr>end_addr := e\<rparr>) es'" "wf_log es'"
    and l': "log_lookup es' = (log_lookup es)(k \<mapsto> (v, b))"
    and e: "e \<le> end_addr (w_info w) + put_space es k (length v)"
    unfolding put_done_def by auto
  let ?w' = "w\<lparr>w_flash := d, w_info := (w_info w)\<lparr>end_addr := e\<rparr>\<rparr>"
  have "cur_base (w_info w) \<noteq> 0" using h(1) by (auto simp: holds_log_def region_ok_def)
  moreover have "length v < 65536" using assms(3) by (simp add: value_ok_def)
  ultimately have "sysparam_set_data fuel fd k (Some p) aligned (length v) b w = Some (SYSPARAM_OK, ?w')"
    using set_data_frame[OF h(3) _ assms(2), of "length v" fuel "Some p" aligned b] body by simp
  moreover have "store_ok csize mem ?w' es'" using h h' by (simp add: store_ok_def)
  ultimately show ?thesis using l' e by (intro exI[of _ ?w'] exI[of _ es']) auto
qed

lemma set_data_delete:
  assumes "store_ok csize mem w es" and "key_ok k" and "csize \<le> fuel" and "n < 65536"
  shows "\<exists>w' es'. sysparam_set_data fuel fd k None aligned n b w =
      Some (if log_lookup es k = None then SYSPARAM_NOTFOUND else SYSPARAM_OK, w')
    \<and> store_ok csize mem w' es' \<and> log_lookup es' = (log_lookup es)(k := None)
    \<and> w_allocs w' = w_allocs w \<and> w_sem w' = w_sem w"
proof -
  let ?w1 = "w\<lparr>w_sem := w_sem w + 1, w_allocs := w_allocs w + 1\<rparr>"
  have h: "holds_log csize (wmem w) (w_info w) es" "wf_log es" "w_mallocs w = []" "\<not> force_compact (w_info w)"
    using assms(1) by (auto simp: store_ok_def)
  have h1: "holds_log csize (wmem ?w1) (w_info ?w1) es" using h(1) by simp
  have f: "Suc (length es) < fuel" using log_length(2)[OF h(1)] assms(3) by linarith
  have "cur_base (w_info w) \<noteq> 0" using h(1) by (auto simp: holds_log_def region_ok_def)
  note frame = set_data_frame[OF h(3) this assms(2,4), of fuel None aligned b]
  show ?thesis
  proof (cases "log_lookup es k = None")
    case True
    obtain d where "set_data_body fuel fd k (length k) (w_junk w) 0 b ?w1 = Some (SYSPARAM_NOTFOUND, ?w1\<lparr>w_flash := d\<rparr>)"
      and "mem d = wmem w"
      using set_data_body_delete_missing[OF h1 h(2) f True, of "w_junk w" b] by auto
    with True frame show ?thesis
      using h by (intro exI[of _ "w\<lparr>w_flash := d\<rparr>"] exI[of _ es]) (auto simp: store_ok_def fun_upd_idem)
  next
    case False
    from set_data_body_delete[OF h1 h(2) f False, of "w_junk w" b] obtain d e es' where
      "set_data_body fuel fd k (length k) (w_junk w) 0 b ?w1 =
        Some (SYSPARAM_OK, ?w1\<lparr>w_flash := d, w_info := (w_info w)\<lparr>end_addr := e\<rparr>\<rparr>)"
      and "holds_log csize (mem d) ((w_info w)\<lparr>end_addr := e\<rparr>) es'" "wf_log es'"
      and "log_lookup es' = (log_lookup es)(k := None)"
      unfolding put_done_def by auto
    with False frame h show ?thesis
      by (intro exI[of _ "w\<lparr>w_flash := d, w_info := (w_info w)\<lparr>end_addr := e\<rparr>\<rparr>"] exI[of _ es'])
        (auto simp: store_ok_def)
  qed
qed

end

sublocale nor_rom \<subseteq> kv: kv_store
  "store_ok (chip_size (sdk_flashchip fd)) mem" log_lookup key_ok value_ok
  "\<lambda>w es k x. store_fits w es k (length (fst x))"
  "get_param (chip_size (sdk_flashchip fd)) fd" "put_param (chip_size (sdk_flashchip fd)) fd False"
  "del_param (chip_size (sdk_flashchip fd)) fd"
proof (unfold_locales, goal_cases)
  case (1 w es k)
  then obtain d where "mem d = wmem w" "sysparam_get_data csize fd k w =
      (case log_lookup es k of
         Some (v, b) \<Rightarrow> Some (SYSPARAM_OK, Some (v @ [0]), Some (length v), Some b,
                           w\<lparr>w_flash := d, w_allocs := w_allocs w + 1\<rparr>)
       | None \<Rightarrow> Some (SYSPARAM_NOTFOUND, None, Some 0, None, w\<lparr>w_flash := d\<rparr>))"
    using get_data_log[of w es k csize] by (auto simp: key_ok_def)
  with 1 show ?case
    by (auto simp: get_param_def store_ok_def split: option.splits)
next
  case (2 w es k x)
  obtain v b where x: "x = (v, b)" by (cases x)
  from 2 x have "\<exists>w' es'. sysparam_set_data csize fd k (Some (cbuf v (w_junk w))) False (length v) b w = Some (SYSPARAM_OK, w')
    \<and> store_ok csize mem w' es' \<and> log_lookup es' = (log_lookup es)(k \<mapsto> (v, b))
    \<and> w_allocs w' = w_allocs w \<and> w_sem w' = w_sem w
    \<and> log_room (w_info w) \<le> log_room (w_info w') + put_space es k (length v)"
    by (intro set_data_put) (auto simp: map_cbuf)
  then show ?case by (auto simp: put_param_def x)
next
  case (3 w es k)
  from set_data_delete[OF 3, of csize 0 True False] show ?case
    by (auto simp: del_param_def split: if_splits)
qed

context nor_rom
begin

lemma axioms_kv:
  "kv_store (store_ok (chip_size (sdk_flashchip fd)) mem) log_lookup key_ok value_ok
      (\<lambda>w es k x. store_fits w es k (length (fst x))) (get_param (chip_size (sdk_flashchip fd)) fd)
      (put_param (chip_size (sdk_flashchip fd)) fd False) (del_param (chip_size (sdk_flashchip fd)) fd)"
  by (rule kv.kv_store_axioms)

end

section \<open>Typed accessors\<close>

context nor_rom
begin

lemma get_string_log:
  assumes "store_ok csize mem w es" and "length k < 65536" and "csize \<le> fuel"
    and "log_lookup es k = Some (v, False)"
  shows "\<exists>d. mem d = wmem w \<and> sysparam_get_string fuel fd k w =
    Some (SYSPARAM_OK, Some (v @ [0]), w\<lparr>w_flash := d, w_allocs := w_allocs w + 1\<rparr>)"
  using get_data_log[OF assms(1-3)] assms(4) by (auto simp: sysparam_get_string_def)

lemma set_int_get_int:
  assumes "store_ok csize mem w es" and "key_ok k" and "- (2 ^ 31) \<le> x" and "x < 2 ^ 31"
    and "store_fits w es k (length (show_int x))" and "csize \<le> fuel"
  shows "\<exists>w' w''. sysparam_set_int fuel fd k x aligned w = Some (SYSPARAM_OK, w')
    \<and> sysparam_get_int fuel fd k w' = Some (SYSPARAM_OK, Some x, w'')
    \<and> w_allocs w'' = w_allocs w \<and> mem (w_flash w'') = wmem w'"
proof -
  let ?v = "show_int x"
  have nz: "0 \<notin> set ?v" using show_dec_no_nul by (auto simp: show_int_def)
  have "length ?v < 65536" "0 < length ?v"
    using show_int_length[OF assms(3,4)] show_int_nonempty[of x] by auto
  then have "value_ok (?v, False)" by (simp add: value_ok_def)
  moreover have "map (cbuf (?v @ [0]) (w_junk w)) [0..<length ?v] = ?v"
    by (intro nth_equalityI) (auto simp: cbuf_def nth_append)
  ultimately obtain w' es' where put: "sysparam_set_int fuel fd k x aligned w = Some (SYSPARAM_OK, w')"
    and st: "store_ok csize mem w' es'" and lk: "log_lookup es' k = Some (?v, False)" and al: "w_allocs w' = w_allocs w"
    using set_data_put[OF assms(1,2) _ _ assms(5,6), of False "cbuf (?v @ [0]) (w_junk w)" aligned]
    by (auto simp: sysparam_set_int_def)
  have "length k < 65536" using assms(2) by (simp add: key_ok_def)
  from get_string_log[OF st this assms(6) lk] obtain d where md: "mem d = wmem w'"
    and g: "sysparam_get_string fuel fd k w' =
      Some (SYSPARAM_OK, Some (?v @ [0]), w'\<lparr>w_flash := d, w_allocs := w_allocs w' + 1\<rparr>)" by blast
  have "cstr (?v @ [0]) = ?v" using cstr_terminated[OF nz, of "[]"] by simp
  then have "sysparam_get_int fuel fd k w' = Some (SYSPARAM_OK, Some x, w'\<lparr>w_flash := d\<rparr>)"
    using g strtol_show_int[OF assms(3,4)] by (simp add: sysparam_get_int_def free_def)
  with put md al show ?thesis by auto
qed

lemma get_bool_log:
  assumes "store_ok csize mem w es" and "length k < 65536" and "csize \<le> fuel"
  shows "\<exists>d. mem d = wmem w \<and> sysparam_get_bool fuel fd k w =
    Some (fst (bool_view (log_lookup es k)), snd (bool_view (log_lookup es k)), w\<lparr>w_flash := d\<rparr>)"
proof -
  obtain d where md: "mem d = wmem w" and g: "sysparam_get_data fuel fd k w =
      (case log_lookup es k of
         Some (v, b) \<Rightarrow> Some (SYSPARAM_OK, Some (v @ [0]), Some (length v), Some b,
                           w\<lparr>w_flash := d, w_allocs := w_allocs w + 1\<rparr>)
       | None \<Rightarrow> Some (SYSPARAM_NOTFOUND, None, Some 0, None, w\<lparr>w_flash := d\<rparr>))"
    using get_data_log[OF assms] by blast
  have "sysparam_get_bool fuel fd k w =
    Some (fst (bool_view (log_lookup es k)), snd (bool_view (log_lookup es k)), w\<lparr>w_flash := d\<rparr>)"
    using g by (auto simp: sysparam_get_bool_def sysparam_get_string_def bool_view_def free_def split: option.splits)
  with md show ?thesis by blast
qed

lemma parse_bool_written: "parse_bool (cstr ([if x then 121 else 110] @ [0])) = Some x"
  by (simp add: parse_bool_def cstr_def str_y_def str_n_def str_yes_def str_t_def str_true_def
      strcaseeq_def tolower_def)

lemma set_bool_get_bool:
  assumes "store_ok csize mem w es" and "key_ok k" and "store_fits w es k 1" and "csize \<le> fuel"
  shows "\<exists>w' w''. sysparam_set_bool fuel fd k x aligned w = Some (SYSPARAM_OK, w')
    \<and> sysparam_get_bool fuel fd k w' = Some (SYSPARAM_OK, Some x, w'')
    \<and> w_allocs w' = w_allocs w"
proof -
  have kl: "length k < 65536" using assms(2) by (simp add: key_ok_def)
  obtain d where md: "mem d = wmem w" and g: "sysparam_get_bool fuel fd k w =
    Some (fst (bool_view (log_lookup es k)), snd (bool_view (log_lookup es k)), w\<lparr>w_flash := d\<rparr>)"
    using get_bool_log[OF assms(1) kl assms(4)] by blast
  let ?w1 = "w\<lparr>w_flash := d\<rparr>"
  have st1: "store_ok csize mem ?w1 es" using assms(1) md by (simp add: store_ok_def)
  show ?thesis
  proof (cases "bool_view (log_lookup es k) = (SYSPARAM_OK, Some x)")
    case True
    then have "sysparam_set_bool fuel fd k x aligned w = Some (SYSPARAM_OK, ?w1)"
      using g by (simp add: sysparam_set_bool_def)
    moreover have "\<exists>w''. sysparam_get_bool fuel fd k ?w1 = Some (SYSPARAM_OK, Some x, w'')"
      using get_bool_log[OF st1 kl assms(4)] True by auto
    ultimately show ?thesis by auto
  next
    case False
    let ?v = "[if x then 121 else 110 :: byte]"
    let ?p = "cbuf [if x then 121 else 110, 255, 255, 255] (w_junk ?w1)"
    have v: "value_ok (?v, False)" and p: "map ?p [0..<length ?v] = ?v" by (simp_all add: value_ok_def cbuf_def)
    have "store_fits ?w1 es k (length ?v)" using assms(3) by (simp add: store_fits_def)
    then obtain w' es' where put: "sysparam_set_data fuel fd k (Some ?p) aligned (length ?v) False ?w1 = Some (SYSPARAM_OK, w')"
      and st: "store_ok csize mem w' es'" and lk: "log_lookup es' = (log_lookup es)(k \<mapsto> (?v, False))"
      and al: "w_allocs w' = w_allocs ?w1"
      using set_data_put[OF st1 assms(2) v p _ assms(4), of aligned] by blast
    have "sysparam_set_bool fuel fd k x aligned w = Some (SYSPARAM_OK, w')"
      using g False put by (auto simp: sysparam_set_bool_def prod_eq_iff)
    moreover have "bool_view (log_lookup es' k) = (SYSPARAM_OK, Some x)"
      using lk parse_bool_written[of x] by (simp add: bool_view_def)
    ultimately show ?thesis using get_bool_log[OF st kl assms(4)] al by auto
  qed
qed

end

section \<open>Properties\<close>

lemma chip_sim: "chip_size (sdk_flashchip sim_flash) = 0x400000"
  by (simp add: sim_flash_def sdk_flashchip_init_def)

lemma sample_ok: "store_ok (chip_size (sdk_flashchip sim_flash)) sim_mem sample_world []"
  by (simp add: store_ok_def holds_log_def sample_world_def region_ok_def chip_sim wf_log_def log_keys_def log_vals_def erased_def sim_mem_def)

lemma sample_fits: "n < 100 \<Longrightarrow> store_fits sample_world [] [107] n"
  using entry_extent_bounds(2)[of n] entry_extent_bounds(2)[of 1]
  by (simp add: store_fits_def put_space_def key_id_of_def sample_world_def MAX_KEY_ID_def)

lemma one_param_at: "log_at (sim_mem (w_flash one_param_world)) 4104 one_param_log 4120"
  by (simp add: one_param_log_def one_param_world_def sim_mem_def entry_extent_def round4_def bytes_at_4
      entry_hdr_def entry_header_bytes_def le16_def bytes_at_def)

lemma one_param_erased: "erased (sim_mem (w_flash one_param_world)) 4120 4072"
  by (auto simp: one_param_world_def sim_mem_def erased_def)

lemma one_param_wf: "wf_log one_param_log"
  by (simp add: wf_log_def one_param_log_def live_def is_value_def flag_defs entry_id_def MAX_KEY_ID_def)

lemma one_param_lookup: "log_lookup one_param_log [107] = Some ([118], False)"
  by (simp add: one_param_log_def log_lookup_def find_first_Cons is_key_def live_def is_value_def flag_defs
      entry_id_def log_value_def matches_def)

lemma one_param_ok: "store_ok (chip_size (sdk_flashchip sim_flash)) sim_mem one_param_world one_param_log"
proof -
  have "w_info one_param_world = \<lparr>cur_base = 4096, alt_base = 8192, end_addr = 4120, region_size = 4096,
      force_compact = False, sem = True\<rparr>" "w_mallocs one_param_world = []"
    by (simp_all add: one_param_world_def sample_world_def)
  then show ?thesis
    using one_param_at one_param_erased one_param_wf
    by (simp add: store_ok_def holds_log_def region_ok_def chip_sim)
qed

text \<open>C11: on a device that keeps the ROM contract, \<open>sysparam_get_data\<close> returns exactly what the
  abstract store says: the value of the key followed by a zero byte, its length and its binary
  flag, or \<^const>\<open>SYSPARAM_NOTFOUND\<close> and no value; the flash array is not changed. Steps bounded by the
  chip size are enough.\<close>

theorem get_data_correct:
  assumes "nor_rom fd mem wel" and "store_ok (chip_size (sdk_flashchip fd)) mem w es"
    and "length k < 65536" and "chip_size (sdk_flashchip fd) \<le> fuel"
  shows "\<exists>d. mem d = mem (w_flash w) \<and> sysparam_get_data fuel fd k w =
      (case log_lookup es k of
         Some (v, b) \<Rightarrow> Some (SYSPARAM_OK, Some (v @ [0]), Some (length v), Some b,
                           w\<lparr>w_flash := d, w_allocs := w_allocs w + 1\<rparr>)
       | None \<Rightarrow> Some (SYSPARAM_NOTFOUND, None, Some 0, None, w\<lparr>w_flash := d\<rparr>))"
  using assms by (rule nor_rom.get_data_log)

theorem get_data_correct_witness:
  "\<exists>d. sysparam_get_data 0x400000 sim_flash [107] one_param_world =
     Some (SYSPARAM_OK, Some [118, 0], Some 1, Some False, one_param_world\<lparr>w_flash := d, w_allocs := 1\<rparr>)"
proof -
  have "w_allocs one_param_world = 0" by (simp add: one_param_world_def sample_world_def)
  then show ?thesis
    using get_data_correct[OF sim.nor_rom_axioms one_param_ok, of "[107]" "0x400000"] one_param_lookup
    by (auto simp: chip_sim)
qed

text \<open>C1: storing a non-empty value under a key, when the region has room for it and a key id is
  free, succeeds and updates the abstract store at that key only; the log stays well formed, the
  heap and the mutex are as before, and no more space is used than the new entries take. This
  covers a new key, a key without a value, replacing a value and writing the same value again.\<close>

theorem set_data_correct:
  assumes "nor_rom fd mem wel" and "store_ok (chip_size (sdk_flashchip fd)) mem w es"
    and "key_ok k" and "value_ok (v, b)" and "map p [0..<length v] = v"
    and "store_fits w es k (length v)" and "chip_size (sdk_flashchip fd) \<le> fuel"
  shows "\<exists>w' es'. sysparam_set_data fuel fd k (Some p) aligned (length v) b w = Some (SYSPARAM_OK, w')
    \<and> store_ok (chip_size (sdk_flashchip fd)) mem w' es' \<and> log_lookup es' = (log_lookup es)(k \<mapsto> (v, b))
    \<and> w_allocs w' = w_allocs w \<and> w_sem w' = w_sem w
    \<and> log_room (w_info w) \<le> log_room (w_info w') + put_space es k (length v)"
  using assms by (rule nor_rom.set_data_put)

theorem set_data_correct_witness:
  "\<exists>w' es'. sysparam_set_data 0x400000 sim_flash [107] (Some (cbuf [1, 2, 3] (\<lambda>_. 0))) False 3 True one_param_world =
       Some (SYSPARAM_OK, w')
     \<and> store_ok (chip_size (sdk_flashchip sim_flash)) sim_mem w' es' \<and> log_lookup es' [107] = Some ([1, 2, 3], True)"
proof -
  have "store_fits one_param_world one_param_log [107] (length [1, 2, 3 :: byte])"
    by (simp add: store_fits_def put_space_def key_id_of_def one_param_world_def sample_world_def
        one_param_log_def find_first_Cons is_key_def live_def is_value_def flag_defs entry_extent_def round4_def)
  from set_data_correct[OF sim.nor_rom_axioms one_param_ok _ _ _ this, of True "cbuf [1, 2, 3] (\<lambda>_. 0)" "0x400000" False]
  obtain w' es' where "sysparam_set_data 0x400000 sim_flash [107] (Some (cbuf [1, 2, 3] (\<lambda>_. 0))) False 3 True one_param_world =
       Some (SYSPARAM_OK, w')" "store_ok (chip_size (sdk_flashchip sim_flash)) sim_mem w' es'"
     "log_lookup es' = (log_lookup one_param_log)([107] \<mapsto> ([1, 2, 3], True))"
    by (auto simp: chip_sim key_ok_def value_ok_def map_cbuf numeral_3_eq_3)
  then show ?thesis by (intro exI[of _ w'] exI[of _ es']) simp
qed

text \<open>C14: storing a null value deletes: the key then has no value, every other key keeps its own; the
  status is \<^const>\<open>SYSPARAM_NOTFOUND\<close> when there was nothing to delete. No room is needed.\<close>

theorem set_data_delete_correct:
  assumes "nor_rom fd mem wel" and "store_ok (chip_size (sdk_flashchip fd)) mem w es"
    and "key_ok k" and "chip_size (sdk_flashchip fd) \<le> fuel" and "n < 65536"
  shows "\<exists>w' es'. sysparam_set_data fuel fd k None aligned n b w =
      Some (if log_lookup es k = None then SYSPARAM_NOTFOUND else SYSPARAM_OK, w')
    \<and> store_ok (chip_size (sdk_flashchip fd)) mem w' es' \<and> log_lookup es' = (log_lookup es)(k := None)
    \<and> w_allocs w' = w_allocs w \<and> w_sem w' = w_sem w"
  using assms by (rule nor_rom.set_data_delete)

theorem set_data_delete_correct_witness:
  "\<exists>w' es'. sysparam_set_data 0x400000 sim_flash [107] None True 0 False one_param_world = Some (SYSPARAM_OK, w')
     \<and> store_ok (chip_size (sdk_flashchip sim_flash)) sim_mem w' es' \<and> log_lookup es' [107] = None"
proof -
  obtain w' es' where "sysparam_set_data 0x400000 sim_flash [107] None True 0 False one_param_world = Some (SYSPARAM_OK, w')"
    "store_ok (chip_size (sdk_flashchip sim_flash)) sim_mem w' es'"
    "log_lookup es' = (log_lookup one_param_log)([107] := None)"
    using set_data_delete_correct[OF sim.nor_rom_axioms one_param_ok, of "[107]" "0x400000" 0 True False] one_param_lookup
    by (auto simp: chip_sim key_ok_def)
  then show ?thesis by (intro exI[of _ w'] exI[of _ es']) simp
qed

text \<open>reading after storing, through the public calls: the stored key reads back as stored, any
  other key as before.\<close>

theorem put_then_get:
  assumes "nor_rom fd mem wel" and "store_ok (chip_size (sdk_flashchip fd)) mem w es"
    and "key_ok k" and "key_ok k'" and "value_ok x" and "store_fits w es k (length (fst x))"
  shows "\<exists>w1 w2. put_param (chip_size (sdk_flashchip fd)) fd False k x w = Some w1
    \<and> get_param (chip_size (sdk_flashchip fd)) fd k' w1 = Some (if k' = k then Some x else log_lookup es k', w2)"
proof -
  from assms(1) have "kv_store (store_ok (chip_size (sdk_flashchip fd)) mem) log_lookup key_ok value_ok
      (\<lambda>w es k x. store_fits w es k (length (fst x))) (get_param (chip_size (sdk_flashchip fd)) fd)
      (put_param (chip_size (sdk_flashchip fd)) fd False) (del_param (chip_size (sdk_flashchip fd)) fd)"
    by (rule nor_rom.axioms_kv)
  from kv_store.put_get[OF this assms(2-6)] show ?thesis by blast
qed

theorem put_then_get_witness:
  "\<exists>w1 w2. put_param 0x400000 sim_flash False [107] ([9, 9], True) sample_world = Some w1
    \<and> get_param 0x400000 sim_flash [107] w1 = Some (Some ([9, 9], True), w2)"
  using put_then_get[OF sim.nor_rom_axioms sample_ok, of "[107]" "[107]" "([9, 9], True)"] sample_fits[of 2]
  by (auto simp: chip_sim key_ok_def value_ok_def numeral_2_eq_2)

text \<open>a stored 32-bit integer reads back as the same integer: \<open>sysparam_set_int\<close> followed by
  \<open>sysparam_get_int\<close>, printing and parsing included, and the reading call frees its buffer.\<close>

theorem set_int_get_int_roundtrip:
  assumes "nor_rom fd mem wel" and "store_ok (chip_size (sdk_flashchip fd)) mem w es"
    and "key_ok k" and "- (2 ^ 31) \<le> x" and "x < 2 ^ 31"
    and "store_fits w es k (length (show_int x))" and "chip_size (sdk_flashchip fd) \<le> fuel"
  shows "\<exists>w' w''. sysparam_set_int fuel fd k x aligned w = Some (SYSPARAM_OK, w')
    \<and> sysparam_get_int fuel fd k w' = Some (SYSPARAM_OK, Some x, w'')
    \<and> w_allocs w'' = w_allocs w \<and> mem (w_flash w'') = mem (w_flash w')"
  using assms by (rule nor_rom.set_int_get_int)

theorem set_int_get_int_roundtrip_witness:
  "\<exists>w' w''. sysparam_set_int 0x400000 sim_flash [107] (- 2147483648) True sample_world = Some (SYSPARAM_OK, w')
    \<and> sysparam_get_int 0x400000 sim_flash [107] w' = Some (SYSPARAM_OK, Some (- 2147483648), w'')"
proof -
  have "store_fits sample_world [] [107] (length (show_int (- 2147483648)))"
    using show_int_length[of "- 2147483648"] by (intro sample_fits) simp
  from set_int_get_int_roundtrip[OF sim.nor_rom_axioms sample_ok _ _ _ this, of "0x400000" True]
  show ?thesis by (auto simp: chip_sim key_ok_def)
qed

text \<open>A stored boolean reads back as the same boolean, whatever was stored under the key before
  (when it already reads as that boolean nothing is written).\<close>

theorem set_bool_get_bool_roundtrip:
  assumes "nor_rom fd mem wel" and "store_ok (chip_size (sdk_flashchip fd)) mem w es"
    and "key_ok k" and "store_fits w es k 1" and "chip_size (sdk_flashchip fd) \<le> fuel"
  shows "\<exists>w' w''. sysparam_set_bool fuel fd k x aligned w = Some (SYSPARAM_OK, w')
    \<and> sysparam_get_bool fuel fd k w' = Some (SYSPARAM_OK, Some x, w'')
    \<and> w_allocs w' = w_allocs w"
  using assms by (rule nor_rom.set_bool_get_bool)

theorem set_bool_get_bool_roundtrip_witness:
  "\<exists>w' w''. sysparam_set_bool 0x400000 sim_flash [107] True False sample_world = Some (SYSPARAM_OK, w')
    \<and> sysparam_get_bool 0x400000 sim_flash [107] w' = Some (SYSPARAM_OK, Some True, w'')"
  using set_bool_get_bool_roundtrip[OF sim.nor_rom_axioms sample_ok _ sample_fits, of "0x400000" True False]
  by (auto simp: chip_sim key_ok_def)

end
