(* ===== verification/Sysparam_Area.thy ===== *)
theory Sysparam_Area
  imports Sysparam_Api
begin

text \<open>
  Creating and opening a parameter area: what \<open>_format_region\<close> and \<open>_write_region_header\<close> leave in the
  flash array, the area that \<open>sysparam_create_area\<close> writes, and what \<open>sysparam_init\<close> makes of it.
\<close>

lemma nor_erase_append: "nor_erase (a + n) k (nor_erase a n m) = nor_erase a (n + k) m"
  by (rule ext) (auto simp: nor_erase_def)

lemma nor_erase_0 [simp]: "nor_erase a 0 m = m"
  by (rule ext) (auto simp: nor_erase_def)

lemma size_masked:
  assumes "n < 4096"
  shows "(word_of_nat n AND REGION_MASK_SIZE :: 16 word) = word_of_nat n"
proof -
  have "(word_of_nat n :: 16 word) \<le> MAX_KEY_ID \<or> n = 4095"
    using assms by (auto simp: MAX_KEY_ID_def word_le_nat_alt unat_of_nat)
  then show ?thesis using id_masked[of "word_of_nat n"] by (auto simp: REGION_MASK_SIZE_def)
qed

lemma size_no_flags:
  assumes "n < 4096" and "0xfff AND c = (0 :: 16 word)"
  shows "word_of_nat n AND c = 0"
proof -
  have "word_of_nat n AND c = (word_of_nat n AND 0xfff) AND c"
    using size_masked[OF assms(1)] by (simp add: REGION_MASK_SIZE_def)
  also have "\<dots> = word_of_nat n AND (0xfff AND c)" by (simp only: and.assoc)
  finally show ?thesis using assms(2) by simp
qed

lemma unat_size: "n < 4096 \<Longrightarrow> unat (word_of_nat n :: 16 word) = n"
  by (simp add: unat_of_nat)

lemmas region_flag_defs = REGION_FLAG_SECOND_def REGION_FLAG_ACTIVE_def REGION_MASK_SIZE_def

text \<open>The header of either half, read back: number of sectors, position, activity.\<close>

lemma region_flags_fields:
  fixes active :: bool
  assumes "0 < ssz" and "n < 4096" and "0 < n" and "if second then addr = other + n * ssz else other = addr + n * ssz"
  defines "f \<equiv> region_flags ssz addr other active"
  shows "unat (f AND REGION_MASK_SIZE) = n" "(f AND REGION_FLAG_SECOND \<noteq> 0) = second"
    "(f AND REGION_FLAG_ACTIVE \<noteq> 0) = active"
proof -
  have f: "f = word_of_nat n OR (if second then REGION_FLAG_SECOND else 0) OR (if active then REGION_FLAG_ACTIVE else 0)"
    using assms(1,3,4) size_masked[OF assms(2)] unfolding f_def region_flags_def
    by (cases second) (simp_all add: Let_def or.assoc)
  show "unat (f AND REGION_MASK_SIZE) = n"
    using size_masked[OF assms(2)] unat_size[OF assms(2)]
    by (simp add: f bit.conj_disj_distrib2 region_flag_defs)
  show "(f AND REGION_FLAG_SECOND \<noteq> 0) = second" "(f AND REGION_FLAG_ACTIVE \<noteq> 0) = active"
    using size_no_flags[OF assms(2), of "0x8000"] size_no_flags[OF assms(2), of "0x4000"]
    by (simp_all add: f bit.conj_disj_distrib2 region_flag_defs)
qed

context nor_rom
begin

abbreviation ssize :: nat where
  "ssize \<equiv> sector_size (sdk_flashchip fd)"

lemma format_loop_step:
  assumes "ssize * (sec + i + k) \<le> csize" and "csize div ssize < 65536"
  shows "\<exists>d. format_loop fd sec i k w = (SYSPARAM_OK, w\<lparr>w_flash := d\<rparr>)
    \<and> mem d = nor_erase (ssize * (sec + i)) (ssize * k) (wmem w)"
  using assms(1)
proof (induction k arbitrary: i w)
  case 0
  then show ?case by (auto intro!: exI[of _ "w_flash w"])
next
  case (Suc k)
  have "Suc (sec + i) * ssize \<le> csize" using Suc.prems by (simp add: algebra_simps)
  then have "sec + i < csize div ssize"
    using sector_pos by (metis Suc_le_eq less_eq_div_iff_mult_less_eq)
  moreover from this have "u16 (sec + i) = sec + i" using assms(2) by (simp add: u16_small)
  ultimately obtain d where er: "flash_erase fd (u16 (sec + i)) w = (SPI_FLASH_RESULT_OK, w\<lparr>w_flash := d\<rparr>)"
    and md: "mem d = nor_erase (ssize * (sec + i)) ssize (wmem w)"
    using flash_erase_step[of "sec + i" w] by metis
  have "ssize * (sec + Suc i + k) \<le> csize" using Suc.prems by (simp add: algebra_simps)
  from Suc.IH[OF this, of "w\<lparr>w_flash := d\<rparr>"] obtain d' where
    "format_loop fd sec (Suc i) k (w\<lparr>w_flash := d\<rparr>) = (SYSPARAM_OK, w\<lparr>w_flash := d'\<rparr>)"
    and "mem d' = nor_erase (ssize * (sec + Suc i)) (ssize * k) (mem d)" by auto
  moreover from this(2) have "mem d' = nor_erase (ssize * (sec + i)) (ssize * Suc k) (wmem w)"
    using nor_erase_append[of "ssize * (sec + i)" ssize "ssize * k" "wmem w"] by (simp add: md add.commute)
  ultimately show ?case using er by (intro exI[of _ d']) simp
qed

lemma format_region_step:
  assumes "ssize * (s + n) \<le> csize" and "csize div ssize < 65536" and "0 < n"
  shows "\<exists>d. format_region fd (ssize * s) n w = (SYSPARAM_OK, w\<lparr>w_flash := d\<rparr>)
    \<and> mem d = nor_erase (ssize * s) (ssize * n) (wmem w)"
proof -
  have "s * ssize \<le> csize" using assms(1) by (simp add: algebra_simps)
  then have "s \<le> csize div ssize" using sector_pos by (simp add: less_eq_div_iff_mult_less_eq)
  then have "u16 (ssize * s div ssize) = s" using assms(2) sector_pos by (simp add: u16_small)
  then show ?thesis using format_loop_step[of s 0 n w] assms by (simp add: format_region_def)
qed

lemma write_region_header_step:
  assumes "w_mallocs w = []" and "4 dvd a" and "a + 8 \<le> csize" and "erased (wmem w) a 8"
  shows "\<exists>d. write_region_header fd a other active w = (SYSPARAM_OK, w\<lparr>w_flash := d\<rparr>)
    \<and> bytes_at (mem d) a 8 = region_header_bytes \<lparr>rh_magic = SYSPARAM_MAGIC,
         rh_flags_size = region_flags ssize a other active, rh_reserved = 0\<rparr>
    \<and> (\<forall>i. i < a \<or> a + 8 \<le> i \<longrightarrow> mem d i = wmem w i)"
proof -
  let ?h = "region_header_bytes \<lparr>rh_magic = SYSPARAM_MAGIC, rh_flags_size = region_flags ssize a other active, rh_reserved = 0\<rparr>"
  have "wmem w (a + i) = 255" if "i < 8" for i using assms(4) that by (simp add: erased_def)
  then obtain d where d: "write_and_verify fd a (cbuf ?h (w_junk w)) 8 w = (SYSPARAM_OK, w\<lparr>w_flash := d\<rparr>)"
    and m: "mem d = nor_write a (cbuf ?h (w_junk w)) 8 (wmem w)"
    using write_and_verify_step[OF assms(1,2), of 8 "cbuf ?h (w_junk w)"] assms(3) by auto
  have "bytes_at (mem d) a 8 = ?h"
    using assms(4) by (intro nth_equalityI) (simp_all add: m nor_write_def erased_def)
  moreover have "\<forall>i. i < a \<or> a + 8 \<le> i \<longrightarrow> mem d i = wmem w i" by (simp add: m nor_write_outside)
  ultimately show ?thesis
    using d by (intro exI[of _ d]) (simp add: write_region_header_def Let_def REGION_HEADER_SIZE_def)
qed

text \<open>A freshly created area: both headers in place, everything else erased.\<close>

definition fresh_area :: "cptr \<Rightarrow> nat \<Rightarrow> nat \<Rightarrow> bool" where
  "fresh_area m s n \<longleftrightarrow>
     bytes_at m (ssize * s) 8 = region_header_bytes \<lparr>rh_magic = SYSPARAM_MAGIC,
       rh_flags_size = region_flags ssize (ssize * s) (ssize * (s + n)) True, rh_reserved = 0\<rparr>
     \<and> bytes_at m (ssize * (s + n)) 8 = region_header_bytes \<lparr>rh_magic = SYSPARAM_MAGIC,
       rh_flags_size = region_flags ssize (ssize * (s + n)) (ssize * s) False, rh_reserved = 0\<rparr>
     \<and> erased m (ssize * s + 8) (ssize * n - 8)
     \<and> erased m (ssize * (s + n) + 8) (ssize * n - 8)"

lemma create_format_step:
  assumes "w_mallocs w = []" and "ssize * (s + 2 * n) \<le> csize" and "csize div ssize < 65536" and "0 < n"
    and "8 < ssize"
  shows "\<exists>d. create_format fd (ssize * s) n (ssize * n) w = (SYSPARAM_OK, w\<lparr>w_flash := d\<rparr>)
    \<and> fresh_area (mem d) s n"
proof -
  let ?a = "ssize * s" and ?b = "ssize * (s + n)"
  have ba: "?b = ?a + ssize * n" by (simp add: algebra_simps)
  have tot: "?b + ssize * n \<le> csize" using assms(2) by (simp add: algebra_simps)
  have big: "8 < ssize * n" using assms(4,5) by (metis less_le_trans mult_le_mono2 mult.right_neutral Suc_leI One_nat_def)
  have al: "4 dvd ?a" "4 dvd ?b" using sector_words by auto
  have wb: "u32 (?a + ssize * n) = ?b" using tot ba by (metis add_leD1 no_wrap)
  obtain d1 where 1: "format_region fd ?a n w = (SYSPARAM_OK, w\<lparr>w_flash := d1\<rparr>)"
    and m1: "mem d1 = nor_erase ?a (ssize * n) (wmem w)"
    using format_region_step[of s n w] assms(3,4) tot ba by (auto simp: algebra_simps)
  obtain d2 where 2: "format_region fd ?b n (w\<lparr>w_flash := d1\<rparr>) = (SYSPARAM_OK, w\<lparr>w_flash := d2\<rparr>)"
    and m2: "mem d2 = nor_erase ?b (ssize * n) (mem d1)"
    using format_region_step[of "s + n" n "w\<lparr>w_flash := d1\<rparr>"] assms(3,4) tot by (auto simp: algebra_simps)
  have e: "erased (mem d2) ?a (ssize * n)" "erased (mem d2) ?b (ssize * n)"
    by (simp_all add: m1 m2 ba erased_def nor_erase_def)
  have "erased (mem d2) ?a 8" using big by (intro erased_subset[OF e(1)]) auto
  then obtain d3 where 3: "write_region_header fd ?a ?b True (w\<lparr>w_flash := d2\<rparr>) = (SYSPARAM_OK, w\<lparr>w_flash := d3\<rparr>)"
    and h3: "bytes_at (mem d3) ?a 8 = region_header_bytes \<lparr>rh_magic = SYSPARAM_MAGIC,
         rh_flags_size = region_flags ssize ?a ?b True, rh_reserved = 0\<rparr>"
    and o3: "\<And>i. i < ?a \<or> ?a + 8 \<le> i \<Longrightarrow> mem d3 i = mem d2 i"
    using write_region_header_step[of "w\<lparr>w_flash := d2\<rparr>" ?a ?b True] assms(1) al(1) tot ba big by auto
  have e3: "erased (mem d3) ?b 8" using e(2) o3 ba big by (auto simp: erased_def)
  obtain d4 where 4: "write_region_header fd ?b ?a False (w\<lparr>w_flash := d3\<rparr>) = (SYSPARAM_OK, w\<lparr>w_flash := d4\<rparr>)"
    and h4: "bytes_at (mem d4) ?b 8 = region_header_bytes \<lparr>rh_magic = SYSPARAM_MAGIC,
         rh_flags_size = region_flags ssize ?b ?a False, rh_reserved = 0\<rparr>"
    and o4: "\<And>i. i < ?b \<or> ?b + 8 \<le> i \<Longrightarrow> mem d4 i = mem d3 i"
    using write_region_header_step[of "w\<lparr>w_flash := d3\<rparr>" ?b ?a False] assms(1) al(2) tot big e3 by auto
  have "bytes_at (mem d4) ?a 8 = bytes_at (mem d3) ?a 8" using o4 ba big by (intro bytes_at_cong) auto
  moreover have "erased (mem d4) (x + 8) (ssize * n - 8)" if "x = ?a \<or> x = ?b" for x
    unfolding erased_def
  proof (intro allI impI)
    fix i assume i: "x + 8 \<le> i \<and> i < x + 8 + (ssize * n - 8)"
    have "i < x + ssize * n" using i big by linarith
    moreover have "mem d4 i = mem d2 i"
    proof -
      have "i < ?b \<or> ?b + 8 \<le> i" "i < ?a \<or> ?a + 8 \<le> i" using i that calculation ba by linarith+
      then show ?thesis using o3[of i] o4[of i] by simp
    qed
    moreover have "x \<le> i" using i by linarith
    ultimately show "mem d4 i = 255" using e that by (auto simp: erased_def)
  qed
  ultimately have "fresh_area (mem d4) s n" using h3 h4 by (simp add: fresh_area_def)
  then show ?thesis using 1 2 3 4 wb by (intro exI[of _ d4]) (simp add: create_format_def Let_def)
qed

lemma init_find_end_empty:
  assumes "region_ok csize (w_info w)" and "w_mallocs w = []"
    and "erased (wmem w) (cur_base (w_info w) + 8) (region_size (w_info w) - 8)"
  shows "\<exists>d. init_find_end (Suc fuel) fd w = Some (SYSPARAM_OK, w\<lparr>w_flash := d, w_allocs := w_allocs w + 1,
      w_info := (w_info w)\<lparr>end_addr := cur_base (w_info w) + 8, force_compact := False, sem := True\<rparr>\<rparr>)
    \<and> mem d = wmem w"
proof -
  let ?i = "w_info w"
  let ?lim = "cur_base ?i + region_size ?i"
  let ?w1 = "upd_info (\<lambda>i. i\<lparr>end_addr := u32 (cur_base i + region_size i), force_compact := False\<rparr>) w"
  let ?a = "cur_base ?i + 8"
  have ok: "8 < region_size ?i" "4 dvd cur_base ?i" "4 dvd region_size ?i" "?lim \<le> csize"
    using assms(1) by (auto simp: region_ok_def)
  have "?a + 4 \<le> ?lim" using ok by presburger
  then have er: "erased (wmem w) ?a 4" by (intro erased_subset[OF assms(3)]) auto
  have l: "log_at (wmem ?w1) ?a [] ?a" by simp
  have "scan_outcome mem ENTRY_ID_END ?w1 (log_scan ?a [] ENTRY_ID_END False (init_context ?w1))
      (find_entry (Suc fuel) fd (init_context ?w1) ENTRY_ID_END False ?w1)"
    using assms(1) ok \<open>?a + 4 \<le> ?lim\<close> er
    by (intro find_entry_log[OF _ _ _ l])
      (auto simp: region_ok_def next_pos_def init_context_def zero_context_def)
  then obtain d h where "find_entry (Suc fuel) fd (init_context ?w1) ENTRY_ID_END False ?w1 =
      Some (SYSPARAM_OK, (init_context ?w1)\<lparr>ctx_addr := ?a, ctx_entry := h\<rparr>, ?w1\<lparr>w_flash := d\<rparr>)" "mem d = wmem w"
    by (auto simp: scan_outcome_def simp del: find_entry.simps)
  then show ?thesis
    using assms(2) by (intro exI[of _ d]) (simp add: init_find_end_def Let_def malloc_def del: find_entry.simps)
qed

lemma init_fresh:
  assumes "fresh_area (wmem w) s n" and "w_mallocs w = []" and "ssize * (s + 2 * n) \<le> csize"
    and "0 < n" and "n < 4096" and "8 < ssize" and "0 < s" and "top_addr = 0 \<or> ssize * s \<le> top_addr"
  shows "\<exists>w'. sysparam_init (Suc fuel) fd (ssize * s) top_addr w = Some (SYSPARAM_OK, w')
    \<and> store_ok csize mem w' [] \<and> mem (w_flash w') = wmem w
    \<and> cur_base (w_info w') = ssize * s \<and> alt_base (w_info w') = ssize * (s + n)
    \<and> region_size (w_info w') = ssize * n \<and> sem (w_info w')"
proof -
  let ?a = "ssize * s" and ?b = "ssize * (s + n)"
  let ?blank = "\<lparr>rh_magic = 0, rh_flags_size = 0, rh_reserved = 0\<rparr>"
  let ?top = "if top_addr = 0 \<or> top_addr = ?a then u32 (?a + ssize) else top_addr"
  let ?h0 = "\<lparr>rh_magic = SYSPARAM_MAGIC, rh_flags_size = region_flags ssize ?a ?b True, rh_reserved = 0\<rparr>"
  let ?h1 = "\<lparr>rh_magic = SYSPARAM_MAGIC, rh_flags_size = region_flags ssize ?b ?a False, rh_reserved = 0\<rparr>"
  have ba: "?b = ?a + ssize * n" by (simp add: algebra_simps)
  have tot: "?b + ssize * n \<le> csize" using assms(3) by (simp add: algebra_simps)
  have big: "ssize \<le> ssize * n" using assms(4) by simp
  have big8: "8 < ssize * n" using big assms(6) by linarith
  have wr: "u32 (?a + ssize) = ?a + ssize" "u32 (n * ssize) = ssize * n" "u32 (?a + ssize * n) = ?b"
  proof -
    have "?a + ssize \<le> csize" "?a + ssize * n \<le> csize" "ssize * n \<le> csize" using tot ba big by linarith+
    then show "u32 (?a + ssize) = ?a + ssize" "u32 (n * ssize) = ssize * n" "u32 (?a + ssize * n) = ?b"
      using ba by (metis no_wrap mult.commute)+
  qed
  have f0: "unat (rh_flags_size ?h0 AND REGION_MASK_SIZE) = n" "rh_flags_size ?h0 AND REGION_FLAG_SECOND = 0"
    "rh_flags_size ?h0 AND REGION_FLAG_ACTIVE \<noteq> 0"
    using region_flags_fields[of ssize n False ?a ?b True] sector_pos assms(4,5) ba by (simp_all add: mult.commute)
  have f1: "rh_flags_size ?h1 AND REGION_FLAG_SECOND \<noteq> 0"
    using region_flags_fields[of ssize n True ?b ?a False] sector_pos assms(4,5) ba by (simp add: mult.commute)
  obtain d1 where r1: "flash_read fd ?a 8 w = (SPI_FLASH_RESULT_OK, bytes_at (wmem w) ?a 8, w\<lparr>w_flash := d1\<rparr>)"
    and m1: "mem d1 = wmem w" using flash_read_step[of ?a 8 w] tot ba big assms(6) by auto
  have scan: "init_scan (Suc fuel) fd ?a ?top ?blank w = Some (SYSPARAM_OK, ?a, ?h0, w\<lparr>w_flash := d1\<rparr>)"
    using r1 assms(1,8) sector_pos wr
    by (auto simp: fresh_area_def Let_def REGION_HEADER_SIZE_def region_header_of_bytes)
  obtain d2 where r2: "flash_read fd ?b 8 (w\<lparr>w_flash := d1\<rparr>) =
      (SPI_FLASH_RESULT_OK, bytes_at (wmem w) ?b 8, w\<lparr>w_flash := d2\<rparr>)" and m2: "mem d2 = wmem w"
    using flash_read_step[of ?b 8 "w\<lparr>w_flash := d1\<rparr>"] tot big assms(6) m1 by auto
  have other: "init_other_half fd ?a ?b n ?h0 ?h1 (w\<lparr>w_flash := d2\<rparr>) = (SYSPARAM_OK, w\<lparr>w_flash := d2\<rparr>)"
    using f0 f1 by (simp add: init_other_half_def)
  let ?w3 = "w\<lparr>w_flash := d2, w_info := (w_info w)\<lparr>region_size := ssize * n, cur_base := ?a, alt_base := ?b\<rparr>\<rparr>"
  have ok3: "region_ok csize (w_info ?w3)"
    using assms(6,7) tot ba big8 sector_words by (auto simp: region_ok_def)
  have er3: "erased (wmem ?w3) (cur_base (w_info ?w3) + 8) (region_size (w_info ?w3) - 8)"
    using assms(1) m2 by (simp add: fresh_area_def)
  obtain d4 where fe: "init_find_end (Suc fuel) fd ?w3 = Some (SYSPARAM_OK, ?w3\<lparr>w_flash := d4, w_allocs := w_allocs w + 1,
      w_info := (w_info ?w3)\<lparr>end_addr := ?a + 8, force_compact := False, sem := True\<rparr>\<rparr>)" and m4: "mem d4 = wmem w"
    using init_find_end_empty[OF ok3 _ er3, of fuel] assms(2) m2 by auto
  have "sysparam_init (Suc fuel) fd ?a top_addr w = init_find_end (Suc fuel) fd ?w3"
    using scan r2 other f0 wr assms(1)
    by (cases "top_addr = 0 \<or> top_addr = ?a")
      (auto simp: sysparam_init_def Let_def REGION_HEADER_SIZE_def fresh_area_def region_header_of_bytes
        simp del: init_scan.simps)
  moreover have "store_ok csize mem (?w3\<lparr>w_flash := d4, w_allocs := w_allocs w + 1,
      w_info := (w_info ?w3)\<lparr>end_addr := ?a + 8, force_compact := False, sem := True\<rparr>\<rparr>) []"
    using ok3 er3 assms(2) m2 m4 big8
    by (simp add: store_ok_def holds_log_def region_ok_def wf_log_def)
  ultimately show ?thesis using fe m4 by auto
qed

lemma create_area_step:
  assumes "w_mallocs w = []" and "ssize * (s + 2 * n) \<le> csize" and "csize div ssize < 65536" and "0 < n"
    and "8 < ssize"
  shows "\<exists>w'. sysparam_create_area fuel fd (ssize * s) (2 * n) True w = Some (SYSPARAM_OK, w')
    \<and> fresh_area (wmem w') s n \<and> w_mallocs w' = [] \<and> w_allocs w' = w_allocs w
    \<and> (cur_base (w_info w) = ssize * s \<or> alt_base (w_info w) = ssize * s \<longrightarrow> w_info w' = zero_info)"
proof -
  let ?z = "cur_base (w_info w) = ssize * s \<or> alt_base (w_info w) = ssize * s"
  let ?w1 = "if ?z then w\<lparr>w_info := zero_info\<rparr> else w"
  have "ssize * n \<le> csize" using assms(2) by (simp add: algebra_simps)
  then have "u32 (n * ssize) = ssize * n" by (metis no_wrap mult.commute)
  moreover have m1: "w_mallocs ?w1 = []" using assms(1) by simp
  moreover obtain d where "create_format fd (ssize * s) n (ssize * n) ?w1 = (SYSPARAM_OK, ?w1\<lparr>w_flash := d\<rparr>)"
    and "fresh_area (mem d) s n"
    using create_format_step[OF m1 assms(2-5)] by blast
  ultimately show ?thesis
    using assms(1,4) by (intro exI[of _ "?w1\<lparr>w_flash := d\<rparr>"]) (simp add: sysparam_create_area_def Let_def)
qed

end

section \<open>Property\<close>

text \<open>creating an area and initialising from it gives an empty store: \<open>sysparam_create_area\<close> (forced)
  writes both region headers, \<open>sysparam_init\<close> at its address then finds them, and the state it sets
  up is a well-formed store with no parameters, the first half active and the second one spare.\<close>

theorem create_then_init:
  assumes "nor_rom fd mem wel" and "w_mallocs w = []"
    and "sector_size (sdk_flashchip fd) * (s + 2 * n) \<le> chip_size (sdk_flashchip fd)"
    and "chip_size (sdk_flashchip fd) div sector_size (sdk_flashchip fd) < 65536"
    and "0 < s" and "0 < n" and "n < 4096" and "8 < sector_size (sdk_flashchip fd)" and "0 < fuel"
  shows "\<exists>w1 w2. sysparam_create_area fuel fd (sector_size (sdk_flashchip fd) * s) (2 * n) True w = Some (SYSPARAM_OK, w1)
    \<and> sysparam_init fuel fd (sector_size (sdk_flashchip fd) * s) 0 w1 = Some (SYSPARAM_OK, w2)
    \<and> store_ok (chip_size (sdk_flashchip fd)) mem w2 []
    \<and> sysparam_get_info fd w2 = (SYSPARAM_OK, Some (sector_size (sdk_flashchip fd) * s, 2 * n))"
proof -
  let ?ss = "sector_size (sdk_flashchip fd)"
  obtain f where f: "fuel = Suc f" using assms(9) by (cases fuel) auto
  obtain w1 where w1: "sysparam_create_area fuel fd (?ss * s) (2 * n) True w = Some (SYSPARAM_OK, w1)"
    and fa: "nor_rom.fresh_area fd (mem (w_flash w1)) s n" and m1: "w_mallocs w1 = []"
    using nor_rom.create_area_step[OF assms(1,2,3,4,6,8), of fuel] by blast
  obtain w2 where w2: "sysparam_init (Suc f) fd (?ss * s) 0 w1 = Some (SYSPARAM_OK, w2)"
    and st: "store_ok (chip_size (sdk_flashchip fd)) mem w2 []"
    and i2: "cur_base (w_info w2) = ?ss * s" "alt_base (w_info w2) = ?ss * (s + n)" "region_size (w_info w2) = ?ss * n"
    using nor_rom.init_fresh[OF assms(1) fa m1 assms(3,6,7,8,5), of 0 f] by auto
  have "u32 (n * 2) = n * 2" using assms(7) by (simp add: u32_small)
  then have "sysparam_get_info fd w2 = (SYSPARAM_OK, Some (?ss * s, 2 * n))"
    using i2 assms(5,8) by (simp add: sysparam_get_info_def min_def)
  with w1 w2 st f show ?thesis by blast
qed

theorem create_then_init_witness:
  "\<exists>w1 w2. sysparam_create_area 1 sim_flash 8192 8 True sample_world = Some (SYSPARAM_OK, w1)
    \<and> sysparam_init 1 sim_flash 8192 0 w1 = Some (SYSPARAM_OK, w2)
    \<and> sysparam_get_info sim_flash w2 = (SYSPARAM_OK, Some (8192, 8))"
proof -
  have s: "sector_size (sdk_flashchip sim_flash) = 4096" by (simp add: sim_flash_def sdk_flashchip_init_def)
  have "w_mallocs sample_world = []" by (simp add: sample_world_def)
  from create_then_init[OF sim.nor_rom_axioms this, of 2 4 1] show ?thesis
    unfolding s chip_sim by auto
qed

end
