(* ===== verification/Sysparam_Resources.thy ===== *)
theory Sysparam_Resources
  imports Sysparam
begin

text \<open>
  Heap blocks and the mutex. Whatever the flash device and the allocator do, every internal
  routine of \<^verbatim>\<open>sysparam.c\<close> gives back the blocks it takes; the only one that keeps a pair of
  blocks is a successful \<open>sysparam_iter_start\<close>, and \<open>sysparam_iter_end\<close> releases it.
\<close>

definition held :: "'d spworld \<Rightarrow> int \<times> int" where
  "held w = (w_allocs w, w_sem w)"

definition span :: "'d spworld \<Rightarrow> nat \<times> nat \<times> nat" where
  "span w = (cur_base (w_info w), alt_base (w_info w), region_size (w_info w))"

named_theorems bal \<open>routines that keep a view of the world\<close>

text \<open>What the low-level routines keep is shown once, for every view of the world that their
  elementary actions keep.\<close>

locale preserved =
  fixes view :: "'d spworld \<Rightarrow> 'v"
  assumes flash_view [simp]: "view (w\<lparr>w_flash := d\<rparr>) = view w"
    and end_view [simp]: "view (w\<lparr>w_info := (w_info w)\<lparr>end_addr := e\<rparr>\<rparr>) = view w"
    and force_view: "view (w\<lparr>w_info := (w_info w)\<lparr>force_compact := True\<rparr>\<rparr>) = view w"
    and realloc_bal [bal]: "realloc w = (ok, w') \<Longrightarrow> view w' = view w"
    and malloc_fail: "malloc w = (False, w1) \<Longrightarrow> view w1 = view w"
    and malloc_free: "malloc w = (True, w1) \<Longrightarrow> view w2 = view w1 \<Longrightarrow> view (free w2) = view w"
begin

lemma advance_view: "find_entry_advance c (w_info w) = (stop, c1, nfo) \<Longrightarrow> view (w\<lparr>w_info := nfo\<rparr>) = view w"
  by (auto simp: find_entry_advance_def Let_def force_view split: if_splits)

lemma flash_read_bal [bal]: "flash_read fd a n w = (r, bs, w') \<Longrightarrow> view w' = view w"
  by (auto simp: flash_read_def split: prod.splits)

lemma flash_write_bal [bal]: "flash_write fd a src n w = (r, w') \<Longrightarrow> view w' = view w"
  by (auto simp: flash_write_def split: prod.splits)

lemma flash_erase_bal [bal]: "flash_erase fd s w = (r, w') \<Longrightarrow> view w' = view w"
  by (auto simp: flash_erase_def split: prod.splits)

lemma do_write_bal [bal]: "do_write fd a p n w = (s, w') \<Longrightarrow> view w' = view w"
  by (auto simp: do_write_def split: prod.splits dest: bal)

lemma do_verify_bal [bal]: "do_verify fd a p n w = (s, w') \<Longrightarrow> view w' = view w"
  by (auto simp: do_verify_def split: prod.splits if_splits dest: bal)

lemma verify_loop_bal [bal]: "verify_loop fd a p n i w = (s, w') \<Longrightarrow> view w' = view w"
proof (induction fd a p n i w rule: verify_loop.induct)
  case (1 fd a p n i w)
  show ?case
  proof (cases "i < n")
    case False
    then show ?thesis using "1.prems" by (simp add: verify_loop.simps)
  next
    case True
    obtain s1 w1 where v: "do_verify fd (u32 (a + i)) (\<lambda>j. p (i + j)) (min (n - i) VERIFY_BUF_SIZE) w = (s1, w1)"
      by fastforce
    show ?thesis
    proof (cases "s1 = SYSPARAM_OK")
      case False
      then show ?thesis using "1.prems" True v by (auto simp: verify_loop.simps[of _ _ _ _ i] dest: bal)
    next
      case ok: True
      then have "verify_loop fd a p n (i + VERIFY_BUF_SIZE) w1 = (s, w')"
        using "1.prems" True v by (simp add: verify_loop.simps[of _ _ _ _ i])
      then have "view w' = view w1" using "1.IH"[OF True v[symmetric]] ok by simp
      then show ?thesis using do_verify_bal[OF v] by simp
    qed
  qed
qed

lemma write_and_verify_bal [bal]:
  assumes "write_and_verify fd a p n w = (s, w')"
  shows "view w' = view w"
proof -
  obtain ok w1 where m: "malloc w = (ok, w1)" by fastforce
  obtain s2 w2 where wr: "do_write fd a p n w1 = (s2, w2)" by fastforce
  obtain s3 w3 where ver: "verify_loop fd a p n 0 w2 = (s3, w3)" by fastforce
  have "view w2 = view w1" "view w3 = view w1"
    using do_write_bal[OF wr] verify_loop_bal[OF ver] by simp_all
  then show ?thesis
    using assms m wr ver m malloc_fail malloc_free
    by (auto simp: write_and_verify_def split: if_splits)
qed

lemma format_loop_bal: "format_loop fd sec i k w = (s, w') \<Longrightarrow> view w' = view w"
proof (induction k arbitrary: i w)
  case (Suc k)
  then show ?case by (auto split: prod.splits if_splits dest!: flash_erase_bal Suc.IH)
qed simp

lemma format_region_bal [bal]: "format_region fd a n w = (s, w') \<Longrightarrow> view w' = view w"
  unfolding format_region_def by (rule format_loop_bal)

lemma write_region_header_bal [bal]: "write_region_header fd a o' act w = (s, w') \<Longrightarrow> view w' = view w"
  by (auto simp: write_region_header_def Let_def split: prod.splits if_splits dest!: write_and_verify_bal)

lemma bump_end_bal [simp]: "view (bump_end a n w) = view w"
  by (simp add: bump_end_def)

lemma write_entry_bal [bal]:
  assumes "write_entry fd a eid p n w = (s, w')"
  shows "view w' = view w"
  using assms
  by (auto simp: write_entry_def Let_def split: prod.splits if_splits dest!: write_and_verify_bal)

lemma delete_entry_bal [bal]: "delete_entry fd a w = (s, w') \<Longrightarrow> view w' = view w"
  by (auto simp: delete_entry_def Let_def split: prod.splits if_splits dest!: bal)

lemma init_write_context_bal [bal]: "init_write_context fd w = (s, c, w') \<Longrightarrow> view w' = view w"
  by (auto simp: init_write_context_def Let_def split: prod.splits dest: bal)

lemma read_payload_bal [bal]: "read_payload fd c n w = (s, bs, w') \<Longrightarrow> view w' = view w"
  by (auto simp: read_payload_def split: prod.splits dest: bal)

lemma find_entry_bal [bal]: "find_entry fuel fd c m fv w = Some (s, c', w') \<Longrightarrow> view w' = view w"
proof (induction fuel arbitrary: c w)
  case (Suc fuel)
  then show ?case
    by (auto simp: Let_def split: prod.splits if_splits dest!: flash_read_bal advance_view Suc.IH)
qed simp

lemma find_key_bal [bal]: "find_key fuel fd c k n buf w = Some (s, c', buf', w') \<Longrightarrow> view w' = view w"
proof (induction fuel arbitrary: c k n buf w)
  case (Suc fuel)
  obtain s1 c1 w1 where f: "find_entry fuel fd c ENTRY_ID_ANY False w = Some (s1, c1, w1)"
    using Suc.prems by (auto simp: bind_eq_Some_conv)
  obtain s2 bs w2 where r: "read_payload fd c1 n w1 = (s2, bs, w2)" by (cases "read_payload fd c1 n w1")
  note b = find_entry_bal[OF f] read_payload_bal[OF r]
  show ?case
    using Suc.prems f r b
    by (auto simp: Let_def split: option.splits if_splits dest!: Suc.IH)
qed simp

lemma find_value_bal [bal]: "find_value fuel fd c f w = Some (s, c', w') \<Longrightarrow> view w' = view w"
  unfolding find_value_def by (rule find_entry_bal)

lemma iter_fetch_bal [bal]:
  assumes "iter_fetch fd it c vc w = (s, it', w')"
  shows "view w' = view w"
  using assms unfolding iter_fetch_def Let_def
  by (auto split: prod.splits if_splits dest!: read_payload_bal realloc_bal)

lemma iter_next_bal [bal]: "sysparam_iter_next fuel fd it w = Some (s, it', w') \<Longrightarrow> view w' = view w"
proof (induction fuel arbitrary: it w)
  case (Suc fuel)
  obtain s1 c1 b1 w1 where k: "find_key fuel fd (it_ctx it) None 0 [0, 0] w = Some (s1, c1, b1, w1)"
    using Suc.prems by (auto simp: bind_eq_Some_conv)
  note bk = find_key_bal[OF k]
  show ?case
  proof (cases "s1 = SYSPARAM_OK")
    case False
    then show ?thesis using Suc.prems k bk by simp
  next
    case True
    then obtain s2 c2 w2 where v: "find_value fuel fd c1 (e_idflags (ctx_entry c1)) w1 = Some (s2, c2, w2)"
      using Suc.prems k by (auto simp: bind_eq_Some_conv Let_def)
    then show ?thesis
      using Suc.prems True k bk find_value_bal[OF v]
      by (auto simp: Let_def split: if_splits dest!: Suc.IH iter_fetch_bal)
  qed
qed simp

lemma compact_loop_bal [bal]:
  "compact_loop fuel fd it a cid kid w = Some (s, a', cid', kid', w') \<Longrightarrow> view w' = view w"
proof (induction fuel arbitrary: it a cid kid w)
  case (Suc fuel)
  obtain s1 it1 w1 where n: "sysparam_iter_next fuel fd it w = Some (s1, it1, w1)"
    using Suc.prems by (auto simp: bind_eq_Some_conv)
  show ?case
    using Suc.prems n iter_next_bal[OF n]
    by (auto simp: Let_def split: prod.splits if_splits dest!: Suc.IH write_entry_bal)
qed simp

end

interpretation held: preserved held
  by unfold_locales (auto simp: held_def realloc_def malloc_def free_def split: list.splits)

section \<open>Compaction and storing\<close>

lemma held_info [simp]: "held (w\<lparr>w_info := i\<rparr>) = held w"
  by (simp add: held_def)

lemma iter_start_held:
  assumes "sysparam_iter_start it w = (s, it', w')"
  shows "status_code s < 0 \<Longrightarrow> held w' = held w"
    and "\<not> status_code s < 0 \<Longrightarrow> held w2 = held w' \<Longrightarrow> held (sysparam_iter_end w2) = held w"
  using assms
  by (auto simp: sysparam_iter_start_def sysparam_iter_end_def malloc_def free_def held_def Let_def
      split: list.splits if_splits)

lemma compact_params_bal [bal]:
  assumes "compact_params fuel fd ctx kid w = Some (s, ctx', kid', w')"
  shows "held w' = held w"
proof -
  obtain s1 w1 where f: "format_region fd (alt_base (w_info w))
      (u16 (region_size (w_info w) div sector_size (sdk_flashchip fd))) w = (s1, w1)" by fastforce
  obtain s2 it w2 where i: "sysparam_iter_start blank_iter w1 = (s2, it, w2)"
    by (cases "sysparam_iter_start blank_iter w1")
  note i1 = held.format_region_bal[OF f] and i2 = iter_start_held[OF i]
  show ?thesis
  proof (cases "status_code s1 < 0 \<or> status_code s2 < 0")
    case True
    then show ?thesis using assms f i i1 i2(1) by (auto simp: compact_params_def Let_def split: if_splits)
  next
    case False
    then obtain s3 a3 cid3 kid3 w3 where l: "compact_loop fuel fd it
        (u32 (alt_base (w_info w) + REGION_HEADER_SIZE)) 0 kid w2 = Some (s3, a3, cid3, kid3, w3)"
      using assms f i by (auto simp: compact_params_def Let_def bind_eq_Some_conv)
    have "held (sysparam_iter_end w3) = held w"
      using i2(2)[OF _ held.compact_loop_bal[OF l]] False i1 by simp
    then show ?thesis
      using False assms f i l
      by (auto simp: compact_params_def Let_def split: prod.splits if_splits dest!: held.write_region_header_bal)
  qed
qed

lemma set_data_same_bal [bal]:
  "set_data_same fd kl p n f old ctx w = Inl (s, w') \<Longrightarrow> held w' = held w"
  "set_data_same fd kl p n f old ctx w = Inr (ctx', w') \<Longrightarrow> held w' = held w"
  unfolding set_data_same_def Let_def
  by (auto split: prod.splits if_splits dest!: held.read_payload_bal held.realloc_bal)

lemma set_data_room_bal [bal]:
  "set_data_room fuel fd need ctx kid old w = Some (Inl (s, w')) \<Longrightarrow> held w' = held w"
  "set_data_room fuel fd need ctx kid old w = Some (Inr (ctx', kid', old', w')) \<Longrightarrow> held w' = held w"
  unfolding set_data_room_def
  by (auto simp: bind_eq_Some_conv split: prod.splits if_splits dest!: held.find_entry_bal compact_params_bal)

lemma set_data_ids_bal [bal]:
  "set_data_ids fuel fd ctx kid old w = Some (Inl (s, w')) \<Longrightarrow> held w' = held w"
  "set_data_ids fuel fd ctx kid old w = Some (Inr (ctx', kid', old', w')) \<Longrightarrow> held w' = held w"
  unfolding set_data_ids_def
  by (auto simp: bind_eq_Some_conv split: prod.splits if_splits dest!: compact_params_bal)

lemma set_data_force_bal [bal]:
  "set_data_force fuel fd ctx kid w = Some (Inl (s, w')) \<Longrightarrow> held w' = held w"
  "set_data_force fuel fd ctx kid w = Some (Inr (ctx', kid', w')) \<Longrightarrow> held w' = held w"
  unfolding set_data_force_def
  by (auto simp: bind_eq_Some_conv split: prod.splits if_splits dest!: compact_params_bal)

lemma set_data_append_bal [bal]:
  "set_data_append fd k kl p n f ctx kid w = (s, w') \<Longrightarrow> held w' = held w"
  unfolding set_data_append_def Let_def
  by (auto split: prod.splits if_splits dest!: held.init_write_context_bal held.write_entry_bal)

lemma set_data_delete_old_bal [bal]:
  "set_data_delete_old fd s old w = (s', w') \<Longrightarrow> held w' = held w"
  by (auto simp: set_data_delete_old_def split: if_splits dest: held.delete_entry_bal)

text \<open>A chain of steps each of which may break off.\<close>

lemma break_bal:
  assumes "(case r of Inl x \<Rightarrow> Some x | Inr y \<Rightarrow> f y) = Some (s, w')"
    and "\<And>s1 w1. r = Inl (s1, w1) \<Longrightarrow> held w1 = h"
    and "\<And>y. r = Inr y \<Longrightarrow> f y = Some (s, w') \<Longrightarrow> held w' = h"
  shows "held w' = h"
  using assms by (cases r) auto

lemma bind_break_bal:
  assumes "r \<bind> case_sum Some f = Some (s, w')"
    and "\<And>s1 w1. r = Some (Inl (s1, w1)) \<Longrightarrow> held w1 = h"
    and "\<And>y. r = Some (Inr y) \<Longrightarrow> f y = Some (s, w') \<Longrightarrow> held w' = h"
  shows "held w' = h"
  using assms by (cases r) (auto split: sum.splits)

lemma set_data_store_bal [bal]:
  assumes "set_data_store fuel fd k kl p n b ctx kid old w = Some (s, w')"
  shows "held w' = held w"
proof (rule break_bal[OF assms[unfolded set_data_store_def Let_def]], goal_cases)
  case (1 s1 w1)
  then show ?case by (rule set_data_same_bal)
next
  case (2 y)
  obtain c1 w1 where y: "y = (c1, w1)" by (cases y)
  have w1: "held w1 = held w" using 2(1) y by (auto dest: bal)
  show ?case
  proof (rule bind_break_bal[OF 2(2)[unfolded y prod.case]], goal_cases)
    case (1 s2 w2)
    then show ?case using w1 by (auto dest: bal)
  next
    case r2: (2 y2)
    obtain c2 k2 o2 w2 where y2: "y2 = (c2, k2, o2, w2)" by (cases y2)
    have w2: "held w2 = held w" using r2(1) y2 w1 by (auto dest: bal)
    show ?case
    proof (rule bind_break_bal[OF r2(2)[unfolded y2 prod.case]], goal_cases)
      case (1 s3 w3)
      then show ?case using w2 by (auto dest: bal)
    next
      case r3: (2 y3)
      obtain c3 k3 o3 w3 where y3: "y3 = (c3, k3, o3, w3)" by (cases y3)
      have w3: "held w3 = held w" using r3(1) y3 w2 by (auto dest: bal)
      show ?case
      proof (rule bind_break_bal[OF r3(2)[unfolded y3 prod.case]], goal_cases)
        case (1 s4 w4)
        then show ?case using w3 by (auto dest: bal)
      next
        case (2 y4)
        then show ?case using w3 by (cases y4) (auto split: prod.splits if_splits dest!: bal)
      qed
    qed
  qed
qed

lemma set_data_body_bal [bal]:
  "set_data_body fuel fd k kl p n b w = Some (s, w') \<Longrightarrow> held w' = held w"
  unfolding set_data_body_def
  by (auto simp: bind_eq_Some_conv Let_def split: prod.splits if_splits dest!: bal)

lemma held_free: "held (free w) = (fst (held w) - 1, snd (held w))"
  by (simp add: held_def free_def)

lemma held_malloc: "malloc w = (ok, w') \<Longrightarrow> held w' = (fst (held w) + (if ok then 1 else 0), snd (held w))"
  by (auto simp: malloc_def held_def split: list.splits)

interpretation span: preserved span
  by unfold_locales (auto simp: span_def realloc_def malloc_def free_def split: list.splits)

text \<open>\<open>sysparam_set_data\<close> releases every heap block it allocates and the mutex it takes, on every
  path: whatever the flash device answers, whichever allocation fails, with or without
  compaction.\<close>

lemma set_data_held:
  assumes "sysparam_set_data fuel fd key val aligned n b w = Some (s, w')"
  shows "w_allocs w' = w_allocs w \<and> w_sem w' = w_sem w"
proof -
  have "held w' = held w"
    using assms unfolding sysparam_set_data_def Let_def
    by (auto simp: bind_eq_Some_conv held_free split: prod.splits if_splits
        dest!: held_malloc set_data_body_bal) (auto simp: held_def free_def)
  then show ?thesis by (simp add: held_def)
qed

end
