(* ===== verification/Sysparam_Total.thy ===== *)
theory Sysparam_Total
  imports Sysparam_Resources
begin

text \<open>
  Every operation of the parameter store returns, whatever the flash holds and whatever the
  device answers: the searches move forward inside the region, so a bounded number of steps
  (the fuel of the model) is always enough. Nothing is assumed about the device here.
\<close>

text \<open>The region lies low enough for the address arithmetic not to wrap.\<close>

definition region_low :: "nat \<Rightarrow> nat \<Rightarrow> bool" where
  "region_low base rsz \<longleftrightarrow> base + rsz + 70000 < 2 ^ 32 \<and> 8 < rsz"

definition info_low :: "'d spworld \<Rightarrow> bool" where
  "info_low w \<longleftrightarrow>
     region_low (cur_base (w_info w)) (region_size (w_info w))
     \<and> region_low (alt_base (w_info w)) (region_size (w_info w))"

abbreviation limit :: "'d spworld \<Rightarrow> nat" where
  "limit w \<equiv> cur_base (w_info w) + region_size (w_info w)"

definition inside :: "'d spworld \<Rightarrow> sysparam_context \<Rightarrow> bool" where
  "inside w c \<longleftrightarrow> cur_base (w_info w) \<le> ctx_addr c \<and> ctx_addr c \<le> limit w"

section \<open>Searches\<close>

lemma info_low_span: "span w' = span w \<Longrightarrow> info_low w' = info_low w"
  by (simp add: info_low_def span_def)

lemma span_limit: "span w' = span w \<Longrightarrow> limit w' = limit w"
  by (simp add: span_def)

lemma span_inside: "span w' = span w \<Longrightarrow> inside w' = inside w"
  by (intro ext) (simp add: inside_def span_def)

lemma ENTRY_SIZE_bounds: "n < 65536 \<Longrightarrow> 4 \<le> ENTRY_SIZE n \<and> ENTRY_SIZE n < 65544"
  by (simp add: ENTRY_SIZE_def ROUND_TO_WORD_BOUNDARY_def ENTRY_HEADER_SIZE_def u32_def)

lemma advance_inside:
  assumes "info_low w" and "inside w c" and "find_entry_advance c (w_info w) = (stop, c1, nfo)"
  shows "inside w c1" and "\<not> stop \<Longrightarrow> ctx_addr c < ctx_addr c1"
proof -
  let ?n = "ENTRY_SIZE (unat (e_len (ctx_entry c)))"
  let ?i = "w_info w"
  have n: "4 \<le> ?n" "?n < 65544" using ENTRY_SIZE_bounds[of "unat (e_len (ctx_entry c))"] unsigned_less[of "e_len (ctx_entry c)"] by auto
  have low: "limit w + 70000 < 4294967296" "8 < region_size ?i" using assms(1) by (auto simp: info_low_def region_low_def)
  have w1: "u32 (ctx_addr c + ?n) = ctx_addr c + ?n" "u32 (limit w) = limit w"
    "u32 (ctx_addr c + REGION_HEADER_SIZE) = ctx_addr c + 8"
    using assms(2) n low by (auto simp: u32_small inside_def REGION_HEADER_SIZE_def)
  show "inside w c1" and "\<not> stop \<Longrightarrow> ctx_addr c < ctx_addr c1"
    using assms(2,3) n low w1 by (auto simp: find_entry_advance_def inside_def Let_def split: if_splits)
qed

lemma examine_addr: "find_entry_examine c m fv = (found, c') \<Longrightarrow> ctx_addr c' = ctx_addr c"
  by (auto simp: find_entry_examine_def Let_def split: if_splits)

lemma exhausted_addr: "find_entry_exhausted c m = (s, c') \<Longrightarrow> ctx_addr c' = ctx_addr c \<and> (s = SYSPARAM_OK \<longrightarrow> m = ENTRY_ID_END)"
  by (auto simp: find_entry_exhausted_def split: if_splits)

lemma find_entry_total:
  assumes "info_low w" and "inside w c" and "limit w - ctx_addr c < fuel"
  shows "\<exists>s c' w'. find_entry fuel fd c m fv w = Some (s, c', w') \<and> span w' = span w \<and> inside w c'
    \<and> (s = SYSPARAM_OK \<longrightarrow> m \<noteq> ENTRY_ID_END \<longrightarrow> ctx_addr c < ctx_addr c')"
  using assms
proof (induction fuel arbitrary: c w)
  case (Suc fuel)
  obtain stop c1 nfo where adv: "find_entry_advance c (w_info w) = (stop, c1, nfo)"
    by (cases "find_entry_advance c (w_info w)")
  note in1 = advance_inside[OF Suc.prems(1,2) adv]
  let ?w1 = "w\<lparr>w_info := nfo\<rparr>"
  have sp1: "span ?w1 = span w" using adv by (rule span.advance_view)
  show ?case
  proof (cases stop)
    case True
    obtain s2 c2 where ex: "find_entry_exhausted c1 m = (s2, c2)" by fastforce
    with True show ?thesis
      using adv in1 sp1 exhausted_addr[OF ex] by (auto simp: inside_def)
  next
    case False
    obtain r bs w2 where rd: "flash_read fd (ctx_addr c1) ENTRY_HEADER_SIZE ?w1 = (r, bs, w2)"
      by (cases "flash_read fd (ctx_addr c1) ENTRY_HEADER_SIZE ?w1")
    have sp2: "span w2 = span w" using span.flash_read_bal[OF rd] sp1 by simp
    let ?c2 = "c1\<lparr>ctx_entry := entry_header_of bs (ctx_entry c1)\<rparr>"
    obtain s3 c3 where ex: "find_entry_exhausted ?c2 m = (s3, c3)" by fastforce
    obtain found c4 where em: "find_entry_examine ?c2 m fv = (found, c4)" by fastforce
    have in2: "inside w ?c2" using in1(1) by (simp add: inside_def)
    have in4: "inside w c3" "inside w c4" "ctx_addr c < ctx_addr c3" "ctx_addr c < ctx_addr c4"
      using in1 False exhausted_addr[OF ex] examine_addr[OF em] by (auto simp: inside_def)
    have "limit w - ctx_addr c4 < fuel" using Suc.prems(3) in4 unfolding inside_def by linarith
    then have "\<exists>s c' w'. find_entry fuel fd c4 m fv w2 = Some (s, c', w') \<and> span w' = span w2 \<and> inside w2 c'
        \<and> (s = SYSPARAM_OK \<longrightarrow> m \<noteq> ENTRY_ID_END \<longrightarrow> ctx_addr c4 < ctx_addr c')"
      using Suc.prems(1) in4 by (intro Suc.IH) (simp_all add: info_low_span[OF sp2] span_limit[OF sp2] span_inside[OF sp2])
    then show ?thesis
      using adv False rd ex em sp2 in1 in2 in4 exhausted_addr[OF ex]
      by (cases "r = SPI_FLASH_RESULT_OK"; cases "e_idflags (ctx_entry ?c2) = 0xffff"; cases found)
        (auto simp: Let_def span_inside[OF sp2])
  qed
qed simp

lemma find_key_total:
  assumes "info_low w" and "inside w c" and "Suc (limit w - ctx_addr c) < fuel"
  shows "\<exists>s c' b w'. find_key fuel fd c k n buf w = Some (s, c', b, w') \<and> span w' = span w \<and> inside w c'
    \<and> (s = SYSPARAM_OK \<longrightarrow> ctx_addr c < ctx_addr c')"
  using assms
proof (induction fuel arbitrary: c buf w)
  case (Suc fuel)
  have "ENTRY_ID_ANY \<noteq> ENTRY_ID_END" by (simp add: ENTRY_ID_ANY_def ENTRY_ID_END_def)
  with find_entry_total[OF Suc.prems(1,2), of fuel fd ENTRY_ID_ANY False] Suc.prems(3)
  obtain s1 c1 w1 where f: "find_entry fuel fd c ENTRY_ID_ANY False w = Some (s1, c1, w1)"
    and sp1: "span w1 = span w" and in1: "inside w c1" and mv: "s1 = SYSPARAM_OK \<longrightarrow> ctx_addr c < ctx_addr c1"
    by auto
  show ?case
  proof (cases "s1 = SYSPARAM_OK")
    case False
    then show ?thesis using f sp1 in1 by simp
  next
    case True
    obtain s2 bs w2 where r: "read_payload fd c1 n w1 = (s2, bs, w2)" by (cases "read_payload fd c1 n w1")
    have sp2: "span w2 = span w" using span.read_payload_bal[OF r] sp1 by simp
    have lim: "Suc (limit w - ctx_addr c1) < fuel" using Suc.prems(3) mv True in1 unfolding inside_def by linarith
    have step: "\<exists>s c' b w''. find_key fuel fd c1 k n buf' w' = Some (s, c', b, w'') \<and> span w'' = span w \<and> inside w c'
        \<and> (s = SYSPARAM_OK \<longrightarrow> ctx_addr c < ctx_addr c')" if "span w' = span w" for buf' w'
    proof -
      have "\<exists>s c' b w''. find_key fuel fd c1 k n buf' w' = Some (s, c', b, w'') \<and> span w'' = span w' \<and> inside w' c'
          \<and> (s = SYSPARAM_OK \<longrightarrow> ctx_addr c1 < ctx_addr c')"
        using Suc.prems(1) in1 lim by (intro Suc.IH) (simp_all add: info_low_span[OF that] span_limit[OF that] span_inside[OF that])
      then show ?thesis using that mv True span_inside[OF that] by fastforce
    qed
    show ?thesis
      using f True r sp1 sp2 in1 mv step[OF sp1, of buf] step[OF sp2, of "overwrite bs buf"]
      by (cases k) (auto simp: Let_def)
  qed
qed simp

lemma find_value_total:
  assumes "info_low w" and "inside w c" and "limit w - ctx_addr c < fuel"
  shows "\<exists>s c' w'. find_value fuel fd c f w = Some (s, c', w') \<and> span w' = span w \<and> inside w c'"
  using find_entry_total[OF assms] unfolding find_value_def by blast

section \<open>Iteration and compaction\<close>

lemma iter_fetch_ctx: "iter_fetch fd it c vc w = (s, it', w') \<Longrightarrow> it_ctx it' = it_ctx it"
  unfolding iter_fetch_def Let_def by (auto split: prod.splits if_splits)

lemma iter_next_total:
  assumes "info_low w" and "inside w (it_ctx it)" and "limit w - ctx_addr (it_ctx it) + 2 < fuel"
  shows "\<exists>s it' w'. sysparam_iter_next fuel fd it w = Some (s, it', w') \<and> span w' = span w
    \<and> inside w (it_ctx it') \<and> (s = SYSPARAM_OK \<longrightarrow> ctx_addr (it_ctx it) < ctx_addr (it_ctx it'))"
  using assms
proof (induction fuel arbitrary: it w)
  case (Suc fuel)
  have "Suc (limit w - ctx_addr (it_ctx it)) < fuel" using Suc.prems(3) by simp
  from find_key_total[OF Suc.prems(1,2) this, of fd None 0 "[0, 0]"]
  obtain s1 c1 b1 w1 where k: "find_key fuel fd (it_ctx it) None 0 [0, 0] w = Some (s1, c1, b1, w1)"
    and sp1: "span w1 = span w" and in1: "inside w c1" and mv: "s1 = SYSPARAM_OK \<longrightarrow> ctx_addr (it_ctx it) < ctx_addr c1"
    by auto
  show ?case
  proof (cases "s1 = SYSPARAM_OK")
    case False
    then show ?thesis using k sp1 in1 by simp
  next
    case True
    have "\<exists>s c' w'. find_value fuel fd c1 (e_idflags (ctx_entry c1)) w1 = Some (s, c', w') \<and> span w' = span w1 \<and> inside w1 c'"
      using Suc.prems(1,3) in1 mv True
      by (intro find_value_total) (simp_all add: info_low_span[OF sp1] span_limit[OF sp1] span_inside[OF sp1])
    then obtain s2 c2 w2 where v: "find_value fuel fd c1 (e_idflags (ctx_entry c1)) w1 = Some (s2, c2, w2)"
      and sp2: "span w2 = span w" using sp1 by auto
    let ?it = "it\<lparr>it_ctx := c1\<rparr>"
    have "limit w - ctx_addr (it_ctx ?it) + 2 < fuel"
      using Suc.prems(3) mv True in1 unfolding inside_def by simp linarith
    then have "\<exists>s it' w'. sysparam_iter_next fuel fd ?it w2 = Some (s, it', w') \<and> span w' = span w2
        \<and> inside w2 (it_ctx it') \<and> (s = SYSPARAM_OK \<longrightarrow> ctx_addr (it_ctx ?it) < ctx_addr (it_ctx it'))"
      using Suc.prems(1) in1
      by (intro Suc.IH) (simp_all add: info_low_span[OF sp2] span_limit[OF sp2] span_inside[OF sp2])
    moreover obtain s3 it3 w3 where fe: "iter_fetch fd ?it c1 c2 w2 = (s3, it3, w3)"
      by (cases "iter_fetch fd ?it c1 c2 w2")
    moreover have "span w3 = span w" using span.iter_fetch_bal[OF fe] sp2 by simp
    ultimately show ?thesis
      using k True v sp2 in1 mv iter_fetch_ctx[OF fe] span_inside[OF sp2] by (auto simp: Let_def)
  qed
qed simp

lemma compact_loop_total:
  assumes "info_low w" and "inside w (it_ctx it)" and "limit w - ctx_addr (it_ctx it) + 3 < fuel"
  shows "\<exists>s a' cid' kid' w'. compact_loop fuel fd it a cid kid w = Some (s, a', cid', kid', w') \<and> span w' = span w"
  using assms
proof (induction fuel arbitrary: it a cid kid w)
  case (Suc fuel)
  have "limit w - ctx_addr (it_ctx it) + 2 < fuel" using Suc.prems(3) by simp
  from iter_next_total[OF Suc.prems(1,2) this, of fd]
  obtain s1 it1 w1 where n: "sysparam_iter_next fuel fd it w = Some (s1, it1, w1)" and sp1: "span w1 = span w"
    and in1: "inside w (it_ctx it1)" and mv: "s1 = SYSPARAM_OK \<longrightarrow> ctx_addr (it_ctx it) < ctx_addr (it_ctx it1)"
    by auto
  have go: "\<exists>s a' cid' kid' w''. compact_loop fuel fd it1 b c k w' = Some (s, a', cid', kid', w'') \<and> span w'' = span w"
    if "span w' = span w" "s1 = SYSPARAM_OK" for b c k w'
  proof -
    have "limit w - ctx_addr (it_ctx it1) + 3 < fuel"
      using Suc.prems(3) mv that(2) in1 unfolding inside_def by linarith
    then show ?thesis
      using Suc.IH[of w' it1 b c k] Suc.prems(1) in1 that
      by (simp add: info_low_span[OF that(1)] span_limit[OF that(1)] span_inside[OF that(1)])
  qed
  have wr: "\<exists>s w''. write_entry fd b e p l w' = (s, w'') \<and> span w'' = span w" if "span w' = span w" for b e p l w'
    using that by (cases "write_entry fd b e p l w'") (auto dest: span.write_entry_bal)
  show ?case
  proof (cases "s1 = SYSPARAM_OK")
    case False
    then show ?thesis using n sp1 by simp
  next
    case True
    obtain s2 w2 where w2: "write_entry fd a (cid + 1) (cbuf (it_key it1 @ [0]) (w_junk w1)) (word_of_nat (it_key_len it1)) w1 = (s2, w2)"
      and sp2: "span w2 = span w" using wr[OF sp1] by blast
    let ?a1 = "u32 (a + ENTRY_SIZE (it_key_len it1))"
    obtain s3 w3 where w3: "write_entry fd ?a1 ((cid + 1) OR ENTRY_FLAG_VALUE OR (if it_binary it1 then ENTRY_FLAG_BINARY else 0))
        (cbuf (it_value it1 @ [0]) (w_junk w2)) (word_of_nat (it_value_len it1)) w2 = (s3, w3)"
      and sp3: "span w3 = span w" using wr[OF sp2] by blast
    show ?thesis
      using n True w2 w3 sp2 sp3 go[OF sp2 True] go[OF sp3 True] by (simp add: Let_def)
  qed
qed simp

lemma iter_start_ctx:
  "sysparam_iter_start it w = (s, it', w') \<Longrightarrow> \<not> status_code s < 0 \<Longrightarrow>
     it_ctx it' = init_context w' \<and> w_info w' = w_info w"
  by (auto simp: sysparam_iter_start_def malloc_def init_context_def Let_def split: list.splits if_splits)

lemma iter_start_span: "sysparam_iter_start it w = (s, it', w') \<Longrightarrow> span w' = span w"
  by (auto simp: sysparam_iter_start_def malloc_def free_def span_def Let_def split: list.splits if_splits)

lemma init_context_inside: "info_low w \<Longrightarrow> inside w (init_context w)"
  by (simp add: inside_def init_context_def zero_context_def)

text \<open>Compaction swaps the two halves, or leaves them.\<close>

definition halves_kept :: "'d spworld \<Rightarrow> 'd spworld \<Rightarrow> bool" where
  "halves_kept w w' \<longleftrightarrow> region_size (w_info w') = region_size (w_info w)
     \<and> {cur_base (w_info w'), alt_base (w_info w')} = {cur_base (w_info w), alt_base (w_info w)}"

lemma halves_low: "halves_kept w w' \<Longrightarrow> info_low w \<Longrightarrow> info_low w'"
  by (auto simp: halves_kept_def info_low_def doubleton_eq_iff)

lemma halves_span: "span w' = span w \<Longrightarrow> halves_kept w w'"
  by (simp add: halves_kept_def span_def)

lemma compact_params_total:
  assumes "info_low w" and "region_size (w_info w) + 3 < fuel"
  shows "\<exists>s c' kid' w'. compact_params fuel fd c kid w = Some (s, c', kid', w') \<and> halves_kept w w'"
proof -
  obtain s1 w1 where f: "format_region fd (alt_base (w_info w))
      (u16 (region_size (w_info w) div sector_size (sdk_flashchip fd))) w = (s1, w1)" by fastforce
  obtain s2 it w2 where i: "sysparam_iter_start blank_iter w1 = (s2, it, w2)"
    by (cases "sysparam_iter_start blank_iter w1")
  have sp1: "span w1 = span w" and sp2: "span w2 = span w"
    using span.format_region_bal[OF f] iter_start_span[OF i] by simp_all
  note h1 = halves_span[OF sp1] and h2 = halves_span[OF sp2]
  show ?thesis
  proof (cases "status_code s1 < 0 \<or> status_code s2 < 0")
    case True
    then show ?thesis using f i h1 h2 by (auto simp: compact_params_def Let_def)
  next
    case False
    let ?a = "u32 (alt_base (w_info w) + REGION_HEADER_SIZE)"
    have ci: "it_ctx it = init_context w2" using iter_start_ctx[OF i] False by simp
    have low2: "info_low w2" using assms(1) info_low_span[OF sp2] by simp
    have "inside w2 (it_ctx it)" using ci init_context_inside[OF low2] by simp
    moreover have "limit w2 - ctx_addr (it_ctx it) + 3 < fuel"
      using ci assms(2) sp2 by (simp add: init_context_def zero_context_def span_def)
    ultimately obtain s3 a3 cid3 kid3 w3 where l: "compact_loop fuel fd it ?a 0 kid w2 = Some (s3, a3, cid3, kid3, w3)"
      and sp3': "span w3 = span w2" using compact_loop_total[OF low2] by blast
    let ?w4 = "sysparam_iter_end w3"
    have sp4: "span ?w4 = span w" using sp3' sp2 by (simp add: span_def sysparam_iter_end_def free_def)
    obtain s5 w5 where r5: "write_region_header fd (alt_base (w_info w)) (cur_base (w_info ?w4)) True ?w4 = (s5, w5)" by fastforce
    obtain s6 w6 where r6: "write_region_header fd (cur_base (w_info w5)) (alt_base (w_info w)) False w5 = (s6, w6)" by fastforce
    have sp5: "span w5 = span w" and sp6: "span w6 = span w"
      using span.write_region_header_bal[OF r5] span.write_region_header_bal[OF r6] sp4 by simp_all
    have h7: "halves_kept w (upd_info (\<lambda>i. i\<lparr>alt_base := cur_base i, cur_base := alt_base (w_info w),
        end_addr := a3, force_compact := False\<rparr>) w6)"
      using sp6 by (auto simp: halves_kept_def span_def)
    show ?thesis
      using f i l r5 r6 False halves_span[OF sp4] halves_span[OF sp5] halves_span[OF sp6] h7
      by (auto simp: compact_params_def Let_def)
  qed
qed

section \<open>Public operations\<close>

definition returns :: "'a option \<Rightarrow> bool" where
  "returns r \<longleftrightarrow> r \<noteq> None"

lemma returns_simps [simp]: "returns (Some x)" "\<not> returns None"
  by (simp_all add: returns_def)

lemma set_data_room_total:
  assumes "info_low w" and "inside w c" and "region_size (w_info w) + 3 < fuel"
  shows "\<exists>r. set_data_room fuel fd need c kid old w = Some r
    \<and> (\<forall>c' kid' old' w'. r = Inr (c', kid', old', w') \<longrightarrow> halves_kept w w')"
proof -
  have "limit w - ctx_addr c < fuel" using assms(2,3) unfolding inside_def by linarith
  from find_entry_total[OF assms(1,2) this] obtain s1 c1 w1 where
    f: "find_entry fuel fd c ENTRY_ID_END False w = Some (s1, c1, w1)" and sp1: "span w1 = span w" by blast
  have low1: "info_low w1" "region_size (w_info w1) + 3 < fuel"
    using info_low_span[OF sp1] assms(1,3) sp1 by (simp_all add: span_def)
  obtain s2 c2 k2 w2 where cp: "compact_params fuel fd c1 kid w1 = Some (s2, c2, k2, w2)" and h2: "halves_kept w1 w2"
    using compact_params_total[OF low1, of fd c1 kid] by blast
  have "halves_kept w w1" using halves_span[OF sp1] .
  moreover have "halves_kept w w2" using h2 sp1 by (simp add: halves_kept_def span_def)
  moreover have "halves_kept w w" by (simp add: halves_kept_def)
  ultimately show ?thesis using f cp by (simp add: set_data_room_def)
qed

lemma set_data_ids_total:
  assumes "info_low w" and "region_size (w_info w) + 3 < fuel"
  shows "\<exists>r. set_data_ids fuel fd c kid old w = Some r
    \<and> (\<forall>c' kid' old' w'. r = Inr (c', kid', old', w') \<longrightarrow> halves_kept w w')"
proof -
  have "halves_kept w w" by (simp add: halves_kept_def)
  with compact_params_total[OF assms, of fd c kid] show ?thesis by (auto simp: set_data_ids_def)
qed

lemma set_data_force_total:
  assumes "info_low w" and "region_size (w_info w) + 3 < fuel"
  shows "returns (set_data_force fuel fd c kid w)"
  using compact_params_total[OF assms, of fd c kid] by (auto simp: set_data_force_def)

lemma set_data_store_total:
  assumes "info_low w" and "inside w c" and "region_size (w_info w) + 3 < fuel"
  shows "returns (set_data_store fuel fd k kl p n b c kid old w)"
proof (cases "set_data_same fd kl p n (if b then ENTRY_FLAG_BINARY else 0) old c w")
  case (Inl r)
  then show ?thesis by (simp add: set_data_store_def)
next
  case (Inr y)
  obtain c1 w1 where same: "set_data_same fd kl p n (if b then ENTRY_FLAG_BINARY else 0) old c w = Inr (c1, w1)"
    using Inr by (cases y) auto
  have "span w1 = span w \<and> ctx_addr c1 = ctx_addr c"
    using same unfolding set_data_same_def Let_def
    by (auto split: prod.splits if_splits dest!: span.read_payload_bal span.realloc_bal)
  then have sp1: "span w1 = span w" and a1: "ctx_addr c1 = ctx_addr c" by auto
  have low1: "info_low w1" "inside w1 c1" "region_size (w_info w1) + 3 < fuel"
    using assms a1 info_low_span[OF sp1] sp1 by (simp_all add: span_def inside_def)
  let ?kl = "if kid < 0 then u16 (length k) else kl"
  let ?need = "if kid < 0 then u32 (ENTRY_SIZE n + ENTRY_SIZE ?kl) else ENTRY_SIZE n"
  obtain r2 where r2: "set_data_room fuel fd ?need c1 kid old w1 = Some r2"
    and h2: "\<And>c' kid' old' w'. r2 = Inr (c', kid', old', w') \<Longrightarrow> halves_kept w1 w'"
    using set_data_room_total[OF low1] by blast
  have step3: "\<exists>r. set_data_ids fuel fd c2 k2 o2 w2 = Some r
      \<and> (\<forall>c' kid' old' w'. r = Inr (c', kid', old', w') \<longrightarrow> returns (set_data_force fuel fd c' kid' w'))"
    if "r2 = Inr (c2, k2, o2, w2)" for c2 k2 o2 w2
  proof -
    have l2: "info_low w2" "region_size (w_info w2) + 3 < fuel"
      using halves_low[OF h2[OF that]] h2[OF that] low1 by (auto simp: halves_kept_def)
    from set_data_ids_total[OF l2, of fd c2 k2 o2] obtain r where r: "set_data_ids fuel fd c2 k2 o2 w2 = Some r"
      and h: "\<And>c' kid' old' w'. r = Inr (c', kid', old', w') \<Longrightarrow> halves_kept w2 w'" by blast
    have "returns (set_data_force fuel fd c' kid' w')" if "r = Inr (c', kid', old', w')" for c' kid' old' w'
      using halves_low[OF h[OF that]] h[OF that] l2 by (intro set_data_force_total) (auto simp: halves_kept_def)
    with r show ?thesis by blast
  qed
  show ?thesis
  proof (cases r2)
    case (Inl x)
    then show ?thesis using same r2 by (simp add: set_data_store_def Let_def)
  next
    case (Inr y)
    obtain c2 k2 o2 w2 where y: "r2 = Inr (c2, k2, o2, w2)" using Inr by (cases y) auto
    from step3[OF y] show ?thesis
      using same r2 y by (auto simp: set_data_store_def Let_def returns_def split: sum.splits prod.splits)
  qed
qed

lemma set_data_body_total:
  assumes "info_low w" and "region_size (w_info w) + 3 < fuel"
  shows "returns (set_data_body fuel fd k kl p n b w)"
proof -
  let ?buf = "map (w_junk w) [0..<kl]"
  have "Suc (limit w - ctx_addr (init_context w)) < fuel"
    using assms(2) by (simp add: init_context_def zero_context_def)
  from find_key_total[OF assms(1) init_context_inside[OF assms(1)] this]
  obtain s1 c1 b1 w1 where f: "find_key fuel fd (init_context w) (Some k) kl ?buf w = Some (s1, c1, b1, w1)"
    and sp1: "span w1 = span w" and in1: "inside w c1" by blast
  have low1: "info_low w1" "inside w1 c1" "region_size (w_info w1) + 3 < fuel"
    using assms in1 info_low_span[OF sp1] span_inside[OF sp1] sp1 by (simp_all add: span_def)
  have "limit w1 - ctx_addr c1 < fuel" using low1 unfolding inside_def by linarith
  from find_value_total[OF low1(1,2) this] obtain s2 c2 w2 where
    v: "find_value fuel fd c1 (e_idflags (ctx_entry c1) AND ENTRY_MASK_ID) w1 = Some (s2, c2, w2)"
    and sp2: "span w2 = span w1" and in2: "inside w1 c2" by blast
  have low2: "info_low w2" "inside w2 c2" "region_size (w_info w2) + 3 < fuel"
    using low1 in2 info_low_span[OF sp2] span_inside[OF sp2] sp2 by (simp_all add: span_def)
  show ?thesis
    using f v set_data_store_total[OF low1] set_data_store_total[OF low2]
    by (auto simp: set_data_body_def Let_def)
qed

lemma malloc_info: "malloc w = (ok, w') \<Longrightarrow> w_info w' = w_info w"
  by (auto simp: malloc_def split: list.splits)

lemma get_data_body_total:
  assumes "info_low w" and "region_size (w_info w) + 3 < fuel"
  shows "returns (get_data_body fuel fd k w)"
proof -
  have "Suc (limit w - ctx_addr (init_context w)) < fuel"
    using assms(2) by (simp add: init_context_def zero_context_def)
  from find_key_total[OF assms(1) init_context_inside[OF assms(1)] this]
  obtain s1 c1 b1 w1 where f: "find_key fuel fd (init_context w) (Some k) (u16 (length k))
      (map (w_junk w) [0..<length k + 2]) w = Some (s1, c1, b1, w1)"
    and sp1: "span w1 = span w" and in1: "inside w c1" by blast
  have low1: "info_low w1" "inside w1 c1" "region_size (w_info w1) + 3 < fuel"
    using assms in1 info_low_span[OF sp1] span_inside[OF sp1] sp1 by (simp_all add: span_def)
  have "limit w1 - ctx_addr c1 < fuel" using low1 unfolding inside_def by linarith
  from find_value_total[OF low1(1,2) this] obtain s2 c2 w2 where
    v: "find_value fuel fd c1 (e_idflags (ctx_entry c1)) w1 = Some (s2, c2, w2)" by blast
  show ?thesis
    using f v by (simp add: get_data_body_def Let_def returns_def split: prod.split)
qed

lemma get_data_body_out:
  assumes "get_data_body fuel fd k w = Some (s, out, w')"
  shows "held w' = held w" and "s = SYSPARAM_OK \<longleftrightarrow> out \<noteq> None"
proof -
  obtain s1 c1 b1 w1 where f: "find_key fuel fd (init_context w) (Some k) (u16 (length k))
      (map (w_junk w) [0..<length k + 2]) w = Some (s1, c1, b1, w1)"
    using assms by (auto simp: get_data_body_def bind_eq_Some_conv)
  have "held w' = held w \<and> (s = SYSPARAM_OK \<longleftrightarrow> out \<noteq> None)"
  proof (cases "s1 = SYSPARAM_OK")
    case False
    then show ?thesis using assms f held.find_key_bal[OF f] by (auto simp: get_data_body_def)
  next
    case True
    obtain s2 c2 w2 where v: "find_value fuel fd c1 (e_idflags (ctx_entry c1)) w1 = Some (s2, c2, w2)"
      using assms f True by (auto simp: get_data_body_def bind_eq_Some_conv)
    obtain ok w3 where r: "realloc w2 = (ok, w3)" by fastforce
    obtain s4 bs w4 where p: "read_payload fd c2 (unat (e_len (ctx_entry c2))) w3 = (s4, bs, w4)"
      by (cases "read_payload fd c2 (unat (e_len (ctx_entry c2))) w3")
    show ?thesis
      using assms f True v r p held.find_key_bal[OF f] held.find_value_bal[OF v] held.realloc_bal[OF r]
        held.read_payload_bal[OF p]
      by (auto simp: get_data_body_def Let_def split: if_splits)
  qed
  then show "held w' = held w" and "s = SYSPARAM_OK \<longleftrightarrow> out \<noteq> None" by auto
qed

lemma set_data_total:
  assumes "region_low (cur_base (w_info w)) (region_size (w_info w))"
    and "region_low (alt_base (w_info w)) (region_size (w_info w))"
    and "region_size (w_info w) + 3 < fuel"
  shows "\<exists>s w'. sysparam_set_data fuel fd key val aligned n b w = Some (s, w')"
proof -
  have tot: "returns (set_data_body fuel fd key kl p m b w1)" if "w_info w1 = w_info w" for kl p m w1
    using assms that by (intro set_data_body_total) (simp_all add: info_low_def)
  have fin: "returns (set_data_body fuel fd key kl p m b w1 \<bind> (\<lambda>(s, w'). Some (s, f w')))"
    if "w_info w1 = w_info w" for kl p m w1 f
    using tot[OF that, of kl p m] by (cases "set_data_body fuel fd key kl p m b w1") auto
  have "returns (sysparam_set_data fuel fd key val aligned n b w)"
    unfolding sysparam_set_data_def Let_def
    by (simp add: fin split: prod.split) (auto intro!: fin dest!: malloc_info)
  then show ?thesis by (cases "sysparam_set_data fuel fd key val aligned n b w") auto
qed

text \<open>C15: \<open>sysparam_set_data\<close> always returns: for any contents of the flash, any answers of the device
  and any allocation failures, a number of steps bounded by the size of the region is enough,
  compaction included.\<close>

theorem set_data_returns:
  assumes "region_low (cur_base (w_info w)) (region_size (w_info w))"
    and "region_low (alt_base (w_info w)) (region_size (w_info w))"
    and "region_size (w_info w) + 3 < fuel"
  shows "\<exists>s w'. sysparam_set_data fuel fd key val aligned n b w = Some (s, w')"
  using set_data_total[OF assms] .

theorem set_data_returns_witness:
  "\<exists>s w'. sysparam_set_data 5000 sim_flash [1, 2] (Some (\<lambda>_. 7)) True 3 False sample_world = Some (s, w')"
  by (rule set_data_returns) (simp_all add: sample_world_def region_low_def)

text \<open>C23: \<open>sysparam_set_data\<close> returns, within a number of steps bounded by the size of the region, and has then released every heap block it allocated and the
  mutex it took, on every path: whatever the flash holds and the device answers, whichever allocation fails, with or without compaction.\<close>

theorem set_data_balanced:
  assumes "region_low (cur_base (w_info w)) (region_size (w_info w))"
    and "region_low (alt_base (w_info w)) (region_size (w_info w))"
    and "region_size (w_info w) + 3 < fuel"
  shows "\<exists>s w'. sysparam_set_data fuel fd key val aligned n b w = Some (s, w') \<and> w_allocs w' = w_allocs w \<and> w_sem w' = w_sem w"
  using set_data_total[OF assms] set_data_held by blast

theorem set_data_balanced_witness:
  "(\<exists>s w'. sysparam_set_data 5000 sim_flash [1, 2] (Some (\<lambda>_. 7)) True 3 False sample_world = Some (s, w')
      \<and> w_allocs w' = w_allocs sample_world \<and> w_sem w' = w_sem sample_world)
   \<and> (\<exists>s w'. sysparam_set_data 5000 sim_flash [1, 2] (Some (\<lambda>_. 7)) False 3 False (sample_world\<lparr>w_mallocs := [True, False]\<rparr>) = Some (s, w')
      \<and> w_allocs w' = w_allocs sample_world \<and> w_sem w' = w_sem sample_world)"
  using set_data_balanced[of sample_world 5000 sim_flash "[1, 2]" "Some (\<lambda>_. 7)" True 3 False]
    set_data_balanced[of "sample_world\<lparr>w_mallocs := [True, False]\<rparr>" 5000 sim_flash "[1, 2]" "Some (\<lambda>_. 7)" False 3 False]
  by (simp add: sample_world_def region_low_def)

text \<open>\<open>sysparam_get_data\<close> always returns, in the same sense; and when it does not return \<^const>\<open>SYSPARAM_OK\<close>
  it gives no data and keeps no heap block, while a successful call keeps exactly the block of
  the returned value.\<close>

theorem get_data_returns:
  assumes "region_low (cur_base (w_info w)) (region_size (w_info w))"
    and "region_low (alt_base (w_info w)) (region_size (w_info w))"
    and "region_size (w_info w) + 3 < fuel"
  shows "\<exists>s buf n bin w'. sysparam_get_data fuel fd key w = Some (s, buf, n, bin, w')
    \<and> (s = SYSPARAM_OK \<longleftrightarrow> buf \<noteq> None)
    \<and> w_allocs w' = w_allocs w + (if s = SYSPARAM_OK then 1 else 0)"
proof (cases "cur_base (w_info w) = 0")
  case True
  then show ?thesis by (simp add: sysparam_get_data_def)
next
  case False
  obtain ok w1 where m: "malloc w = (ok, w1)" by fastforce
  have "returns (get_data_body fuel fd key w1)"
    using assms malloc_info[OF m] by (intro get_data_body_total) (simp_all add: info_low_def)
  then obtain s out w2 where g: "get_data_body fuel fd key w1 = Some (s, out, w2)"
    by (cases "get_data_body fuel fd key w1") (auto simp: returns_def)
  note get_data_body_out[OF g]
  moreover have "w_allocs w1 = w_allocs w + (if ok then 1 else 0)"
    using held_malloc[OF m] by (simp add: held_def)
  ultimately show ?thesis
    using False m g by (auto simp: sysparam_get_data_def held_def free_def split: option.split)
qed

theorem get_data_returns_witness:
  "\<exists>s buf n bin w'. sysparam_get_data 5000 sim_flash [1, 2] sample_world = Some (s, buf, n, bin, w')
    \<and> (s = SYSPARAM_OK \<longleftrightarrow> buf \<noteq> None)
    \<and> w_allocs w' = w_allocs sample_world + (if s = SYSPARAM_OK then 1 else 0)"
  by (rule get_data_returns) (simp_all add: sample_world_def region_low_def)

end
