(* ===== verification/Gpio.thy ===== *)
theory Gpio
  imports Prelude
begin

text \<open>
  The pins, the delay routine and the critical-section calls that the bit-banging drivers use, as
  operations on a device state: what a read returns and how the outside world reacts to a level
  or to the passing of time is the device's business.
\<close>

datatype gpio_direction_t = GPIO_INPUT | GPIO_OUTPUT | GPIO_OUT_OPEN_DRAIN

record 'g gpiodev =
  gpio_enable :: "nat \<Rightarrow> gpio_direction_t \<Rightarrow> 'g \<Rightarrow> 'g"
  gpio_set_pullup :: "nat \<Rightarrow> bool \<Rightarrow> bool \<Rightarrow> 'g \<Rightarrow> 'g"
  gpio_write :: "nat \<Rightarrow> bool \<Rightarrow> 'g \<Rightarrow> 'g"
  gpio_read :: "nat \<Rightarrow> 'g \<Rightarrow> bool \<times> 'g"
  os_delay_us :: "nat \<Rightarrow> 'g \<Rightarrow> 'g"
  ENTER_CRITICAL :: "'g \<Rightarrow> 'g"
  EXIT_CRITICAL :: "'g \<Rightarrow> 'g"
  vTaskDelay_ms :: "nat \<Rightarrow> 'g \<Rightarrow> 'g"

section \<open>Bytes as bits\<close>

text \<open>The bits of a byte in the order they go over a wire, and the byte that is shifted together from bits.\<close>

definition msb_bits :: "byte \<Rightarrow> bool list" where
  "msb_bits v = [bit v 7, bit v 6, bit v 5, bit v 4, bit v 3, bit v 2, bit v 1, bit v 0]"

fun bits_value :: "byte \<Rightarrow> bool list \<Rightarrow> byte" where
  "bits_value v [] = v"
| "bits_value v (b # bs) = bits_value (push_bit 1 v OR of_bool b) bs"

lemma msb_bits_length [simp]: "length (msb_bits v) = 8"
  by (simp add: msb_bits_def)

lemma bits_value_msb: "bits_value 0 (msb_bits v) = v"
proof (rule bit_word_eqI)
  fix n assume "n < LENGTH(8)"
  then have "n \<in> {0, 1, 2, 3, 4, 5, 6, 7}" by auto
  then show "bit (bits_value 0 (msb_bits v)) n = bit v n"
    by (elim insertE emptyE) (simp_all add: msb_bits_def bit_simps bit_or_iff)
qed

lemma top_bit: "(v :: byte) AND 0x80 \<noteq> 0 \<longleftrightarrow> bit v 7"
  using and_exp_eq_0_iff_not_bit[of v 7] by simp

end
