(* ===== verification/OneWire.thy ===== *)
theory OneWire
  imports Gpio
begin

text \<open>
  The 1-Wire bus master, \<^verbatim>\<open>src/extras/onewire/onewire.c\<close>: bit slots, bytes, device selection, the
  ROM search and the two CRCs, function by function. The bit mask of a loop over the bits of a
  byte is represented by its exponent (\<^verbatim>\<open>bitMask <<= 1\<close> becomes zero after the eighth shift).
\<close>

section \<open>Bit slots\<close>

definition ONEWIRE_SELECT_ROM :: byte where "ONEWIRE_SELECT_ROM = 0x55"
definition ONEWIRE_SKIP_ROM :: byte where "ONEWIRE_SKIP_ROM = 0xcc"
definition ONEWIRE_SEARCH :: byte where "ONEWIRE_SEARCH = 0xf0"

type_synonym onewire_addr_t = "64 word"

definition ONEWIRE_NONE :: onewire_addr_t where "ONEWIRE_NONE = 0xffffffffffffffff"

fun wait_loop :: "'g gpiodev \<Rightarrow> nat \<Rightarrow> nat \<Rightarrow> 'g \<Rightarrow> 'g" where
  "wait_loop gp pin 0 g = g"
| "wait_loop gp pin (Suc k) g =
     (case gpio_read gp pin g of
        (hi, g1) \<Rightarrow> if hi then g1 else wait_loop gp pin k (os_delay_us gp 5 g1))"

definition onewire_wait_for_bus :: "'g gpiodev \<Rightarrow> nat \<Rightarrow> nat \<Rightarrow> 'g \<Rightarrow> bool \<times> 'g" where
  "onewire_wait_for_bus gp pin max_wait g =
     (case gpio_read gp pin (wait_loop gp pin ((max_wait + 4) div 5) g) of
        (state, g1) \<Rightarrow> (state, os_delay_us gp 1 g1))"

definition onewire_reset :: "'g gpiodev \<Rightarrow> nat \<Rightarrow> 'g \<Rightarrow> bool \<times> 'g" where
  "onewire_reset gp pin g =
     (case onewire_wait_for_bus gp pin 250 (gpio_write gp pin True (gpio_enable gp pin GPIO_OUT_OPEN_DRAIN g)) of
        (up, g1) \<Rightarrow>
          if \<not> up then (False, g1)
          else
            let g2 = os_delay_us gp 480 (gpio_write gp pin False g1);
                g3 = os_delay_us gp 70 (gpio_write gp pin True (ENTER_CRITICAL gp g2)) in
            (case gpio_read gp pin g3 of
               (level, g4) \<Rightarrow>
                 (case onewire_wait_for_bus gp pin 410 (EXIT_CRITICAL gp g4) of
                    (up, g5) \<Rightarrow> if \<not> up then (False, g5) else (\<not> level, g5))))"

definition onewire_write_bit :: "'g gpiodev \<Rightarrow> nat \<Rightarrow> bool \<Rightarrow> 'g \<Rightarrow> bool \<times> 'g" where
  "onewire_write_bit gp pin v g =
     (case onewire_wait_for_bus gp pin 10 g of
        (up, g1) \<Rightarrow>
          if \<not> up then (False, g1)
          else
            let low = gpio_write gp pin False (ENTER_CRITICAL gp g1);
                g2 = (if v
                      then os_delay_us gp 55 (EXIT_CRITICAL gp (gpio_write gp pin True (os_delay_us gp 10 low)))
                      else EXIT_CRITICAL gp (gpio_write gp pin True (os_delay_us gp 65 low))) in
            (True, os_delay_us gp 1 g2))"

definition onewire_read_bit :: "'g gpiodev \<Rightarrow> nat \<Rightarrow> 'g \<Rightarrow> int \<times> 'g" where
  "onewire_read_bit gp pin g =
     (case onewire_wait_for_bus gp pin 10 g of
        (up, g1) \<Rightarrow>
          if \<not> up then (- 1, g1)
          else
            let g2 = os_delay_us gp 2 (gpio_write gp pin False (ENTER_CRITICAL gp g1));
                g3 = os_delay_us gp 11 (gpio_write gp pin True g2) in
            (case gpio_read gp pin g3 of
               (r, g4) \<Rightarrow> (if r then 1 else 0, os_delay_us gp 48 (EXIT_CRITICAL gp g4))))"

section \<open>Bytes\<close>

fun onewire_write_bits :: "'g gpiodev \<Rightarrow> nat \<Rightarrow> byte \<Rightarrow> nat \<Rightarrow> nat \<Rightarrow> 'g \<Rightarrow> bool \<times> 'g" where
  "onewire_write_bits gp pin v i 0 g = (True, g)"
| "onewire_write_bits gp pin v i (Suc k) g =
     (case onewire_write_bit gp pin (push_bit i 1 AND v \<noteq> 0) g of
        (ok, g1) \<Rightarrow> if \<not> ok then (False, g1) else onewire_write_bits gp pin v (Suc i) k g1)"

definition onewire_write :: "'g gpiodev \<Rightarrow> nat \<Rightarrow> byte \<Rightarrow> 'g \<Rightarrow> bool \<times> 'g" where
  "onewire_write gp pin v g = onewire_write_bits gp pin v 0 8 g"

fun onewire_write_bytes :: "'g gpiodev \<Rightarrow> nat \<Rightarrow> byte list \<Rightarrow> 'g \<Rightarrow> bool \<times> 'g" where
  "onewire_write_bytes gp pin [] g = (True, g)"
| "onewire_write_bytes gp pin (b # buf) g =
     (case onewire_write gp pin b g of
        (ok, g1) \<Rightarrow> if \<not> ok then (False, g1) else onewire_write_bytes gp pin buf g1)"

fun onewire_read_bits :: "'g gpiodev \<Rightarrow> nat \<Rightarrow> nat \<Rightarrow> nat \<Rightarrow> byte \<Rightarrow> 'g \<Rightarrow> int \<times> 'g" where
  "onewire_read_bits gp pin i 0 r g = (uint r, g)"
| "onewire_read_bits gp pin i (Suc k) r g =
     (case onewire_read_bit gp pin g of
        (bt, g1) \<Rightarrow>
          if bt < 0 then (- 1, g1)
          else onewire_read_bits gp pin (Suc i) k (if bt \<noteq> 0 then r OR push_bit i 1 else r) g1)"

definition onewire_read :: "'g gpiodev \<Rightarrow> nat \<Rightarrow> 'g \<Rightarrow> int \<times> 'g" where
  "onewire_read gp pin g = onewire_read_bits gp pin 0 8 0 g"

text \<open>The bytes stored before a failure are in the buffer; the result is those that were read.\<close>

fun onewire_read_bytes :: "'g gpiodev \<Rightarrow> nat \<Rightarrow> nat \<Rightarrow> 'g \<Rightarrow> bool \<times> byte list \<times> 'g" where
  "onewire_read_bytes gp pin 0 g = (True, [], g)"
| "onewire_read_bytes gp pin (Suc k) g =
     (case onewire_read gp pin g of
        (b, g1) \<Rightarrow>
          if b < 0 then (False, [], g1)
          else (case onewire_read_bytes gp pin k g1 of
                  (ok, bs, g2) \<Rightarrow> (ok, word_of_int b # bs, g2)))"

fun select_bytes :: "'g gpiodev \<Rightarrow> nat \<Rightarrow> onewire_addr_t \<Rightarrow> nat \<Rightarrow> 'g \<Rightarrow> bool \<times> 'g" where
  "select_bytes gp pin addr 0 g = (True, g)"
| "select_bytes gp pin addr (Suc k) g =
     (case onewire_write gp pin (ucast (addr AND 0xff)) g of
        (ok, g1) \<Rightarrow> if \<not> ok then (False, g1) else select_bytes gp pin (drop_bit 8 addr) k g1)"

definition onewire_select :: "'g gpiodev \<Rightarrow> nat \<Rightarrow> onewire_addr_t \<Rightarrow> 'g \<Rightarrow> bool \<times> 'g" where
  "onewire_select gp pin addr g =
     (case onewire_write gp pin ONEWIRE_SELECT_ROM g of
        (ok, g1) \<Rightarrow> if \<not> ok then (False, g1) else select_bytes gp pin addr 8 g1)"

definition onewire_skip_rom :: "'g gpiodev \<Rightarrow> nat \<Rightarrow> 'g \<Rightarrow> bool \<times> 'g" where
  "onewire_skip_rom gp pin g = onewire_write gp pin ONEWIRE_SKIP_ROM g"

definition onewire_power :: "'g gpiodev \<Rightarrow> nat \<Rightarrow> 'g \<Rightarrow> bool \<times> 'g" where
  "onewire_power gp pin g =
     (case onewire_wait_for_bus gp pin 10 g of
        (up, g1) \<Rightarrow>
          if \<not> up then (False, g1)
          else (True, gpio_write gp pin True (gpio_enable gp pin GPIO_OUTPUT g1)))"

definition onewire_depower :: "'g gpiodev \<Rightarrow> nat \<Rightarrow> 'g \<Rightarrow> 'g" where
  "onewire_depower gp pin g = gpio_enable gp pin GPIO_OUT_OPEN_DRAIN g"

section \<open>The ROM search\<close>

record onewire_search_t =
  rom_no :: "byte list"
  last_discrepancy :: nat
  last_device_found :: bool

definition onewire_search_start :: onewire_search_t where
  "onewire_search_start = \<lparr>rom_no = replicate 8 0, last_discrepancy = 0, last_device_found = False\<rparr>"

definition onewire_search_prefix :: "byte \<Rightarrow> onewire_search_t" where
  "onewire_search_prefix family_code =
     \<lparr>rom_no = family_code # replicate 7 0, last_discrepancy = 64, last_device_found = False\<rparr>"

text \<open>Which way to go at one bit, from the two bits read (unsigned bytes: a failed read is 255);
  also whether a zero was picked at a discrepancy.\<close>

definition search_choice ::
  "onewire_search_t \<Rightarrow> nat \<Rightarrow> nat \<Rightarrow> nat \<Rightarrow> byte \<Rightarrow> byte \<Rightarrow> bool \<times> bool" where
  "search_choice s id_bit_number rom_byte_number rom_bit id_bit cmp_id_bit =
     (if id_bit \<noteq> cmp_id_bit then (id_bit \<noteq> 0, False)
      else
        let search_direction =
          (if id_bit_number < last_discrepancy s
           then rom_no s ! rom_byte_number AND push_bit rom_bit 1 > 0
           else id_bit_number = last_discrepancy s)
        in (search_direction, \<not> search_direction))"

definition set_rom_bit :: "onewire_search_t \<Rightarrow> nat \<Rightarrow> nat \<Rightarrow> bool \<Rightarrow> onewire_search_t" where
  "set_rom_bit s rom_byte_number rom_bit search_direction =
     s\<lparr>rom_no := (rom_no s)[rom_byte_number :=
         (if search_direction then rom_no s ! rom_byte_number OR push_bit rom_bit 1
          else rom_no s ! rom_byte_number AND NOT (push_bit rom_bit 1))]\<rparr>"

function search_loop ::
  "'g gpiodev \<Rightarrow> nat \<Rightarrow> onewire_search_t \<Rightarrow> nat \<Rightarrow> nat \<Rightarrow> nat \<Rightarrow> nat \<Rightarrow> 'g \<Rightarrow>
     onewire_search_t \<times> nat \<times> nat \<times> 'g" where
  "search_loop gp pin s id_bit_number last_zero rom_byte_number rom_bit g =
     (if rom_byte_number < 8 then
        (case onewire_read_bit gp pin g of
           (r1, g1) \<Rightarrow>
             (case onewire_read_bit gp pin g1 of
                (r2, g2) \<Rightarrow>
                  let id_bit = (word_of_int r1 :: byte);
                      cmp_id_bit = (word_of_int r2 :: byte) in
                  if id_bit = 1 \<and> cmp_id_bit = 1 then (s, id_bit_number, last_zero, g2)
                  else
                    (case search_choice s id_bit_number rom_byte_number rom_bit id_bit cmp_id_bit of
                       (search_direction, zero_picked) \<Rightarrow>
                         let last_zero' = (if zero_picked then id_bit_number else last_zero);
                             s' = set_rom_bit s rom_byte_number rom_bit search_direction in
                         (case onewire_write_bit gp pin search_direction g2 of
                            (_, g3) \<Rightarrow>
                              if 8 \<le> Suc rom_bit
                              then search_loop gp pin s' (id_bit_number + 1) last_zero' (Suc rom_byte_number) 0 g3
                              else search_loop gp pin s' (id_bit_number + 1) last_zero' rom_byte_number (Suc rom_bit) g3))))
      else (s, id_bit_number, last_zero, g))"
  by pat_completeness auto
termination
  by (relation "measures [\<lambda>(gp, pin, s, n, z, b, j, g). 8 - b, \<lambda>(gp, pin, s, n, z, b, j, g). 8 - j]") auto

declare search_loop.simps [simp del]

fun rom_addr :: "byte list \<Rightarrow> onewire_addr_t" where
  "rom_addr [] = 0"
| "rom_addr (b # bs) = push_bit 8 (rom_addr bs) OR ucast b"

definition search_finish :: "onewire_search_t \<Rightarrow> bool \<Rightarrow> onewire_addr_t \<times> onewire_search_t" where
  "search_finish s search_result =
     (if \<not> search_result \<or> rom_no s ! 0 = 0
      then (ONEWIRE_NONE, s\<lparr>last_discrepancy := 0, last_device_found := False\<rparr>)
      else (rom_addr (rom_no s), s))"

definition onewire_search_next ::
  "'g gpiodev \<Rightarrow> nat \<Rightarrow> onewire_search_t \<Rightarrow> 'g \<Rightarrow> onewire_addr_t \<times> onewire_search_t \<times> 'g" where
  "onewire_search_next gp pin s g =
     (if last_device_found s then
        (case search_finish s False of (addr, s') \<Rightarrow> (addr, s', g))
      else
        (case onewire_reset gp pin g of
           (present, g1) \<Rightarrow>
             if \<not> present then (ONEWIRE_NONE, s\<lparr>last_discrepancy := 0, last_device_found := False\<rparr>, g1)
             else
               (case onewire_write gp pin ONEWIRE_SEARCH g1 of
                  (_, g2) \<Rightarrow>
                    (case search_loop gp pin s 1 0 0 0 g2 of
                       (s1, id_bit_number, last_zero, g3) \<Rightarrow>
                         let s2 = (if \<not> id_bit_number < 65
                                   then s1\<lparr>last_discrepancy := last_zero,
                                          last_device_found := (last_zero = 0 \<or> last_device_found s1)\<rparr>
                                   else s1) in
                         (case search_finish s2 (\<not> id_bit_number < 65) of (addr, s') \<Rightarrow> (addr, s', g3))))))"

section \<open>Checksums\<close>

definition dscrc_table :: "byte list" where
  "dscrc_table =
    [  0, 94,188,226, 97, 63,221,131,194,156,126, 32,163,253, 31, 65,
     157,195, 33,127,252,162, 64, 30, 95,  1,227,189, 62, 96,130,220,
      35,125,159,193, 66, 28,254,160,225,191, 93,  3,128,222, 60, 98,
     190,224,  2, 92,223,129, 99, 61,124, 34,192,158, 29, 67,161,255,
      70, 24,250,164, 39,121,155,197,132,218, 56,102,229,187, 89,  7,
     219,133,103, 57,186,228,  6, 88, 25, 71,165,251,120, 38,196,154,
     101, 59,217,135,  4, 90,184,230,167,249, 27, 69,198,152,122, 36,
     248,166, 68, 26,153,199, 37,123, 58,100,134,216, 91,  5,231,185,
     140,210, 48,110,237,179, 81, 15, 78, 16,242,172, 47,113,147,205,
      17, 79,173,243,112, 46,204,146,211,141,111, 49,178,236, 14, 80,
     175,241, 19, 77,206,144,114, 44,109, 51,209,143, 12, 82,176,238,
      50,108,142,208, 83, 13,239,177,240,174, 76, 18,145,207, 45,115,
     202,148,118, 40,171,245, 23, 73,  8, 86,180,234,105, 55,213,139,
      87,  9,235,181, 54,104,138,212,149,203, 41,119,244,170, 72, 22,
     233,183, 85, 11,136,214, 52,106, 43,117,151,201, 74, 20,246,168,
     116, 42,200,150, 21, 75,169,247,182,232, 10, 84,215,137,107, 53]"

text \<open>Both variants of \<open>onewire_crc8\<close>: with \<^verbatim>\<open>ONEWIRE_CRC8_TABLE\<close> and, the default, without. The
  length argument is a \<^verbatim>\<open>uint8_t\<close>; the list is the data it covers.\<close>

fun crc8_table_loop :: "byte \<Rightarrow> byte list \<Rightarrow> byte" where
  "crc8_table_loop crc [] = crc"
| "crc8_table_loop crc (x # xs) = crc8_table_loop (dscrc_table ! unat (crc XOR x)) xs"

definition onewire_crc8_table :: "byte list \<Rightarrow> byte" where
  "onewire_crc8_table xs = crc8_table_loop 0 xs"

fun crc8_bits :: "nat \<Rightarrow> byte \<Rightarrow> byte \<Rightarrow> byte" where
  "crc8_bits 0 crc inbyte = crc"
| "crc8_bits (Suc i) crc inbyte =
     (let mix = (crc XOR inbyte) AND 1;
          crc' = drop_bit 1 crc in
      crc8_bits i (if mix \<noteq> 0 then crc' XOR 0x8c else crc') (drop_bit 1 inbyte))"

fun crc8_loop :: "byte \<Rightarrow> byte list \<Rightarrow> byte" where
  "crc8_loop crc [] = crc"
| "crc8_loop crc (x # xs) = crc8_loop (crc8_bits 8 crc x) xs"

definition onewire_crc8 :: "byte list \<Rightarrow> byte" where
  "onewire_crc8 xs = crc8_loop 0 xs"

definition oddparity :: "bool list" where
  "oddparity = [False, True, True, False, True, False, False, True, True, False, False, True,
                False, True, True, False]"

definition crc16_step :: "16 word \<Rightarrow> byte \<Rightarrow> 16 word" where
  "crc16_step crc x =
     (let cdata = (ucast x XOR crc) AND 0xff;
          crc1 = drop_bit 8 crc;
          crc2 = (if oddparity ! unat (cdata AND 0x0f) \<noteq> oddparity ! unat (drop_bit 4 cdata)
                  then crc1 XOR 0xc001 else crc1);
          crc3 = crc2 XOR push_bit 6 cdata in
      crc3 XOR push_bit 1 (push_bit 6 cdata))"

fun crc16_loop :: "16 word \<Rightarrow> byte list \<Rightarrow> 16 word" where
  "crc16_loop crc [] = crc"
| "crc16_loop crc (x # xs) = crc16_loop (crc16_step crc x) xs"

text \<open>The loop counter of \<open>onewire_crc16\<close> has 16 bits, so it ends for up to 65535 bytes.\<close>

definition onewire_crc16 :: "byte list \<Rightarrow> 16 word \<Rightarrow> 16 word" where
  "onewire_crc16 input crc_iv = crc16_loop crc_iv input"

definition onewire_check_crc16 :: "byte list \<Rightarrow> byte \<Rightarrow> byte \<Rightarrow> 16 word \<Rightarrow> bool" where
  "onewire_check_crc16 input c0 c1 crc_iv =
     (let crc = NOT (onewire_crc16 input crc_iv) in
      crc AND 0xff = ucast c0 \<and> drop_bit 8 crc = ucast c1)"

text \<open>The specification of CRC-16 (reflected polynomial \<^verbatim>\<open>0xA001\<close>), one bit at a time.\<close>

definition crc16_bit :: "16 word \<Rightarrow> 16 word" where
  "crc16_bit v = (if bit v 0 then drop_bit 1 v XOR 0xa001 else drop_bit 1 v)"

fun crc16_spec :: "16 word \<Rightarrow> byte list \<Rightarrow> 16 word" where
  "crc16_spec crc [] = crc"
| "crc16_spec crc (x # xs) = crc16_spec ((crc16_bit ^^ 8) (crc XOR ucast x)) xs"

end
