(* ===== verification/OneWire_Search.thy ===== *)
theory OneWire_Search
  imports OneWire
begin

text \<open>
  The ROM search enumerates the bus. The locale \<open>onewire_bus\<close> states how the devices on the wire
  answer the slots that \<open>onewire_reset\<close>, \<open>onewire_write\<close>, \<open>onewire_read_bit\<close> and \<open>onewire_write_bit\<close> make
  (the wired-AND of the participating devices, first the bit, then its complement; those that
  disagree with the written direction drop out). In it, one call of \<open>onewire_search_next\<close> finds the
  next device in the order that compares the bits from the first one on, and a scan finds every
  device once.
\<close>

section \<open>The search order\<close>

definition rom_found :: "onewire_search_t \<Rightarrow> onewire_addr_t" where
  "rom_found s = rom_addr (rom_no s)"

definition agree :: "onewire_addr_t \<Rightarrow> onewire_addr_t \<Rightarrow> nat \<Rightarrow> bool" where
  "agree x y n \<longleftrightarrow> (\<forall>k<n. bit x k = bit y k)"

definition disc :: "onewire_addr_t set \<Rightarrow> onewire_addr_t \<Rightarrow> nat \<Rightarrow> bool" where
  "disc D x k \<longleftrightarrow> (\<exists>d \<in> D. agree d x k \<and> bit d k \<noteq> bit x k)"

text \<open>The position of the last discrepancy below \<open>n\<close> at which \<open>x\<close> goes the zero way.\<close>

fun lz :: "onewire_addr_t set \<Rightarrow> onewire_addr_t \<Rightarrow> nat \<Rightarrow> nat" where
  "lz D x 0 = 0"
| "lz D x (Suc n) = (if disc D x n \<and> \<not> bit x n then Suc n else lz D x n)"

text \<open>The choices made below \<open>n\<close>, given the previous ROM \<open>r\<close> and its last discrepancy \<open>L\<close>.\<close>

definition choices :: "onewire_addr_t set \<Rightarrow> nat \<Rightarrow> onewire_addr_t \<Rightarrow> onewire_addr_t \<Rightarrow> nat \<Rightarrow> bool" where
  "choices D L r x n \<longleftrightarrow>
     (\<forall>k<n. disc D x k \<longrightarrow> bit x k = (if Suc k < L then bit r k else Suc k = L))"

definition before :: "onewire_addr_t \<Rightarrow> onewire_addr_t \<Rightarrow> bool" where
  "before x y \<longleftrightarrow> (\<exists>k<64. agree x y k \<and> \<not> bit x k \<and> bit y k)"

definition above :: "onewire_addr_t set \<Rightarrow> onewire_addr_t \<Rightarrow> onewire_addr_t set" where
  "above D x = {d \<in> D. before x d}"

lemma agree_sym: "agree x y n = agree y x n"
  by (auto simp: agree_def)

lemma agree_mono: "agree x y n \<Longrightarrow> m \<le> n \<Longrightarrow> agree x y m"
  by (auto simp: agree_def)

lemma agree_Suc: "agree x y (Suc n) \<longleftrightarrow> agree x y n \<and> bit x n = bit y n"
  by (auto simp: agree_def less_Suc_eq)

lemma agree_0 [simp]: "agree x y 0"
  by (simp add: agree_def)

lemma agree_all: "agree x y 64 \<Longrightarrow> x = y"
  by (rule bit_eqI) (simp add: agree_def)

lemma agree_trans: "agree x y n \<Longrightarrow> agree y z n \<Longrightarrow> agree x z n"
  by (auto simp: agree_def)

lemma agree_cong: "agree x y n \<Longrightarrow> k \<le> n \<Longrightarrow> agree d x k = agree d y k"
  by (auto simp: agree_def)

lemma first_difference:
  assumes "x \<noteq> y"
  obtains k where "k < 64" and "agree x y k" and "bit x k \<noteq> bit y k"
proof -
  have ex: "\<exists>k. k < 64 \<and> bit x k \<noteq> bit y k" using assms agree_all[of x y] by (auto simp: agree_def)
  define k where "k = (LEAST k. k < 64 \<and> bit x k \<noteq> bit y k)"
  have k: "k < 64 \<and> bit x k \<noteq> bit y k" unfolding k_def using ex by (rule LeastI_ex)
  have "agree x y k" unfolding agree_def
  proof (intro allI impI)
    fix m assume "m < k"
    then show "bit x m = bit y m" using k not_less_Least[of m "\<lambda>k. k < 64 \<and> bit x k \<noteq> bit y k"] by (auto simp: k_def)
  qed
  with k that show ?thesis by blast
qed

lemma before_total: "x \<noteq> y \<Longrightarrow> before x y \<or> before y x"
  by (rule first_difference[of x y]) (auto simp: before_def agree_sym)

lemma before_trans: "before x y \<Longrightarrow> before y z \<Longrightarrow> before x z"
proof -
  assume "before x y" "before y z"
  then obtain j k where j: "j < 64" "agree x y j" "\<not> bit x j" "bit y j"
    and k: "k < 64" "agree y z k" "\<not> bit y k" "bit z k" by (auto simp: before_def)
  show ?thesis
  proof (cases "j < k")
    case True
    then have "agree x z j" using j(2) agree_mono[OF k(2)] by (meson agree_trans less_imp_le)
    moreover have "bit z j" using k(2) j(4) True by (simp add: agree_def)
    ultimately show ?thesis using j by (auto simp: before_def)
  next
    case False
    with j(4) k(3) have "k < j" by (cases "k = j") auto
    then have "agree x z k" using k(2) agree_mono[OF j(2)] by (meson agree_trans less_imp_le)
    moreover have "\<not> bit x k" using j(2) k(3) \<open>k < j\<close> by (simp add: agree_def)
    ultimately show ?thesis using k by (auto simp: before_def)
  qed
qed

lemma before_asym: "before x y \<Longrightarrow> \<not> before y x"
proof
  assume "before x y" "before y x"
  then obtain j k where j: "agree x y j" "\<not> bit x j" "bit y j"
    and k: "agree y x k" "\<not> bit y k" "bit x k" by (auto simp: before_def)
  then show False by (metis agree_def linorder_neqE_nat)
qed

lemma before_irrefl [simp]: "\<not> before x x"
  using before_asym by blast

lemma lz_above: "lz D x n < Suc k \<Longrightarrow> k < n \<Longrightarrow> disc D x k \<Longrightarrow> bit x k"
  by (induction n) (auto split: if_splits simp: less_Suc_eq)

lemma lz_disc: "lz D x n = Suc k \<Longrightarrow> k < n \<and> disc D x k \<and> \<not> bit x k"
  by (induction n) (auto split: if_splits)

lemma lz_more: "lz D r 64 \<noteq> 0 \<Longrightarrow> above D r \<noteq> {}"
  using lz_disc[of D r 64 "lz D r 64 - 1"] by (auto simp: above_def before_def disc_def agree_sym)

lemma before_disc:
  assumes "d \<in> D" and "before r d"
  obtains n where "n < 64" and "agree d r n" and "\<not> bit r n" and "bit d n" and "disc D r n"
  using assms by (auto simp: before_def disc_def agree_sym)

lemma last_device: "lz D r 64 = 0 \<Longrightarrow> above D r = {}"
proof -
  assume z: "lz D r 64 = 0"
  have "\<not> before r d" if "d \<in> D" for d
  proof
    assume "before r d"
    with that obtain n where "n < 64" "\<not> bit r n" "disc D r n" by (rule before_disc)
    then show False using lz_above[of D r 64 n] z by simp
  qed
  then show ?thesis by (auto simp: above_def)
qed

lemma first_pass:
  assumes "x \<in> D" and "choices D 0 r x 64"
  shows "above D x = D - {x}"
proof -
  have "before x d" if d: "d \<in> D" "d \<noteq> x" for d
  proof -
    obtain k where k: "k < 64" "agree x d k" "bit x k \<noteq> bit d k" using first_difference d(2) by metis
    then have "disc D x k" using d(1) by (auto simp: disc_def agree_sym)
    then have "\<not> bit x k" using assms(2) k(1) by (simp add: choices_def)
    then show ?thesis using k by (auto simp: before_def)
  qed
  then show ?thesis by (auto simp: above_def)
qed

lemma next_agrees:
  assumes "r \<in> D" and "choices D L r x 64" and "L \<le> 64" and "n < L"
  shows "agree x r n"
  using assms(4)
proof (induction n)
  case (Suc n)
  then have a: "agree x r n" by simp
  have "bit x n = bit r n"
  proof (rule ccontr)
    assume ne: "bit x n \<noteq> bit r n"
    then have "disc D x n" using a assms(1) by (auto simp: disc_def agree_sym)
    then show False using assms(2,3) Suc.prems ne by (simp add: choices_def)
  qed
  with a show ?case by (simp add: agree_Suc)
qed simp

lemma next_pass:
  assumes "r \<in> D" and "x \<in> D" and "L = lz D r 64" and "0 < L" and "choices D L r x 64"
  shows "x \<in> above D r" and "above D x = above D r - {x}"
proof -
  obtain m where L: "L = Suc m" using assms(4) by (cases L) auto
  have m: "m < 64" "disc D r m" "\<not> bit r m" using lz_disc[of D r 64 m] assms(3) L by auto
  have ag: "agree x r m" using next_agrees[OF assms(1,5), of m] m L by simp
  have xm: "bit x m"
  proof (rule ccontr)
    assume n: "\<not> bit x m"
    obtain d where "d \<in> D" "agree d r m" "bit d m" using m by (auto simp: disc_def)
    then have "disc D x m" using n agree_cong[OF ag, of m d] by (auto simp: disc_def)
    then show False using assms(5) n m(1) L by (simp add: choices_def)
  qed
  then have rx: "before r x" using ag m by (auto simp: before_def agree_sym)
  then show "x \<in> above D r" using assms(2) by (simp add: above_def)
  have least: "before x d" if d: "d \<in> D" "before r d" "d \<noteq> x" for d
  proof -
    obtain n where n: "n < 64" "agree d r n" "\<not> bit r n" "bit d n" "disc D r n"
      using before_disc[OF d(1,2)] by blast
    have "\<not> lz D r 64 < Suc n" using lz_above[of D r 64 n] n by blast
    then have "n \<le> m" using assms(3) L by simp
    show ?thesis
    proof (cases "n < m")
      case True
      then have "agree x d n" "\<not> bit x n"
        using agree_mono[OF ag, of n] n ag by (auto simp: agree_def)
      then show ?thesis using n by (auto simp: before_def)
    next
      case False
      then have "n = m" using \<open>n \<le> m\<close> by simp
      then have "agree x d m" using ag n(2) by (metis agree_trans agree_sym)
      then have sm: "agree x d (Suc m)" using xm n(4) \<open>n = m\<close> by (simp add: agree_Suc)
      obtain k where k: "k < 64" "agree x d k" "bit x k \<noteq> bit d k" using first_difference d(3) by metis
      then have "m < k" using sm by (metis agree_def not_less_eq linorder_neqE_nat lessI)
      moreover have "disc D x k" using k d(1) by (auto simp: disc_def agree_sym)
      ultimately have "\<not> bit x k" using assms(5) k(1) L by (simp add: choices_def)
      then show ?thesis using k by (auto simp: before_def)
    qed
  qed
  show "above D x = above D r - {x}"
    using least before_trans[OF rx] by (auto simp: above_def)
qed

section \<open>ROM bytes and ROM bits\<close>

lemma bit_rom_addr:
  "bit (rom_addr bs) i \<longleftrightarrow> i < 64 \<and> i div 8 < length bs \<and> bit (bs ! (i div 8)) (i mod 8)"
proof (induction bs arbitrary: i)
  case (Cons b bs)
  show ?case
  proof (cases "i < 8")
    case True
    then show ?thesis by (auto simp: bit_simps)
  next
    case False
    then have "\<not> bit b i" using bit_imp_le_length[of b i] by auto
    moreover have "i div 8 = Suc ((i - 8) div 8)" "i mod 8 = (i - 8) mod 8" using False by (simp_all add: le_div_geq le_mod_geq)
    ultimately show ?thesis using False Cons.IH[of "i - 8"] by (auto simp: bit_simps)
  qed
qed simp

lemma set_rom_bit_simps [simp]:
  "length (rom_no (set_rom_bit s b j v)) = length (rom_no s)"
  "last_discrepancy (set_rom_bit s b j v) = last_discrepancy s"
  "last_device_found (set_rom_bit s b j v) = last_device_found s"
  by (simp_all add: set_rom_bit_def)

lemma bit_set_rom_bit:
  assumes "length (rom_no s) = 8" and "b < 8" and "j < 8"
  shows "bit (rom_addr (rom_no (set_rom_bit s b j v))) i \<longleftrightarrow>
    (if i = 8 * b + j then v else bit (rom_addr (rom_no s)) i)"
proof (cases "i div 8 = b")
  case True
  have i: "i = 8 * b + i mod 8" using True by (metis mult_div_mod_eq)
  have "i = 8 * b + j \<longleftrightarrow> i mod 8 = j" using i by linarith
  moreover have "i < 64" using i assms(2) pos_mod_bound[of 8 "int i"] mod_less_divisor[of 8 i] by linarith
  moreover have "bit (rom_no (set_rom_bit s b j v) ! b) (i mod 8) \<longleftrightarrow> (if i mod 8 = j then v else bit (rom_no s ! b) (i mod 8))"
    using assms by (cases v) (simp_all add: set_rom_bit_def bit_simps)
  ultimately show ?thesis
    using True assms(1,2) by (simp add: bit_rom_addr)
next
  case False
  then have "i \<noteq> 8 * b + j" using assms(3) by auto
  then show ?thesis using False assms by (auto simp: bit_rom_addr set_rom_bit_def)
qed

lemma rom_test:
  assumes "length (rom_no s) = 8" and "b < 8" and "j < 8"
  shows "rom_no s ! b AND push_bit j 1 > 0 \<longleftrightarrow> bit (rom_addr (rom_no s)) (8 * b + j)"
proof -
  have "rom_no s ! b AND push_bit j 1 > 0 \<longleftrightarrow> rom_no s ! b AND push_bit j 1 \<noteq> 0" by (simp add: word_gt_0)
  also have "\<dots> \<longleftrightarrow> bit (rom_no s ! b) j"
    using and_exp_eq_0_iff_not_bit[of "rom_no s ! b" j] by simp
  finally show ?thesis using assms by (auto simp: bit_rom_addr)
qed

section \<open>The bus\<close>

locale onewire_bus =
  fixes gp :: "'g gpiodev" and pin :: nat and D :: "onewire_addr_t set"
    and ready :: "'g \<Rightarrow> bool" and commanded :: "'g \<Rightarrow> bool"
    and searching choosing :: "'g \<Rightarrow> onewire_addr_t set \<Rightarrow> nat \<Rightarrow> bool"
  assumes finite_devices: "finite D"
    and reset_slot: "ready g \<Longrightarrow>
        \<exists>g'. onewire_reset gp pin g = (D \<noteq> {}, g') \<and> ready g' \<and> (D \<noteq> {} \<longrightarrow> commanded g')"
    and search_command: "commanded g \<Longrightarrow> \<exists>ok g'. onewire_write gp pin ONEWIRE_SEARCH g = (ok, g') \<and> searching g' D 0"
    and read_slots: "searching g P i \<Longrightarrow> i < 64 \<Longrightarrow> P \<noteq> {} \<Longrightarrow>
        \<exists>g1 g2. onewire_read_bit gp pin g = (if \<forall>r \<in> P. bit r i then 1 else 0, g1)
          \<and> onewire_read_bit gp pin g1 = (if \<forall>r \<in> P. \<not> bit r i then 1 else 0, g2) \<and> choosing g2 P i"
    and write_slot: "choosing g P i \<Longrightarrow>
        \<exists>ok g'. onewire_write_bit gp pin v g = (ok, g') \<and> searching g' {r \<in> P. bit r i = v} (Suc i)"
    and searching_ready: "searching g P i \<Longrightarrow> ready g"
begin

text \<open>One pass over the 64 bits.\<close>

lemma search_choice_step:
  assumes "length (rom_no s) = 8" and "b < 8" and "j < 8" and "i = 8 * b + j" and "P \<noteq> {}"
    and "P = {d \<in> D. agree d x i}" and "\<And>k. i \<le> k \<Longrightarrow> bit x k = bit (rom_found s) k"
    and "c = search_choice s (Suc i) b j (word_of_int (if \<forall>r \<in> P. bit r i then 1 else 0))
          (word_of_int (if \<forall>r \<in> P. \<not> bit r i then 1 else 0))"
  shows "\<exists>d \<in> P. bit d i = fst c"
    and "(\<exists>d \<in> P. bit d i \<noteq> fst c) \<longrightarrow>
      fst c = (if Suc i < last_discrepancy s then bit (rom_found s) i else Suc i = last_discrepancy s)"
    and "snd c \<longleftrightarrow> (\<exists>d \<in> P. bit d i \<noteq> fst c) \<and> \<not> fst c"
proof -
  note rt = rom_test[OF assms(1-3)]
  have "(\<exists>d \<in> P. bit d i = fst c) \<and> ((\<exists>d \<in> P. bit d i \<noteq> fst c) \<longrightarrow>
      fst c = (if Suc i < last_discrepancy s then bit (rom_found s) i else Suc i = last_discrepancy s))
    \<and> (snd c \<longleftrightarrow> (\<exists>d \<in> P. bit d i \<noteq> fst c) \<and> \<not> fst c)"
  proof (cases "\<forall>r \<in> P. bit r i")
    case True
    then have "\<not> (\<forall>r \<in> P. \<not> bit r i)" using assms(5) by auto
    with True show ?thesis using assms(5,8) by (auto simp: search_choice_def)
  next
    case one: False
    show ?thesis
    proof (cases "\<forall>r \<in> P. \<not> bit r i")
      case True
      with one show ?thesis using assms(5,8) by (auto simp: search_choice_def)
    next
      case False
      have "c = search_choice s (Suc i) b j (word_of_int 0) (word_of_int 0)"
        using assms(8) one False by (simp only: if_False)
      then have "c = (let v = (if Suc i < last_discrepancy s then bit (rom_found s) i else Suc i = last_discrepancy s) in (v, \<not> v))"
        using assms(4) rt by (simp add: search_choice_def rom_found_def Let_def)
      with one False show ?thesis by (auto simp: Let_def)
    qed
  qed
  then show "\<exists>d \<in> P. bit d i = fst c"
    and "(\<exists>d \<in> P. bit d i \<noteq> fst c) \<longrightarrow>
      fst c = (if Suc i < last_discrepancy s then bit (rom_found s) i else Suc i = last_discrepancy s)"
    and "snd c \<longleftrightarrow> (\<exists>d \<in> P. bit d i \<noteq> fst c) \<and> \<not> fst c" by blast+
qed

lemma search_loop_pass:
  assumes "searching g P i" and "i = 8 * b + j" and "b \<le> 8" and "j < 8" and "b = 8 \<longrightarrow> j = 0"
    and "length (rom_no s) = 8" and "P = {d \<in> D. agree d (rom_found s) i}" and "P \<noteq> {}"
    and "choices D (last_discrepancy s) r (rom_found s) i"
    and "\<And>k. i \<le> k \<Longrightarrow> bit (rom_found s) k = bit r k"
  shows "\<exists>s' g'. search_loop gp pin s (Suc i) (lz D (rom_found s) i) b j g = (s', 65, lz D (rom_found s') 64, g')
    \<and> rom_found s' \<in> D \<and> choices D (last_discrepancy s) r (rom_found s') 64
    \<and> length (rom_no s') = 8 \<and> last_discrepancy s' = last_discrepancy s
    \<and> last_device_found s' = last_device_found s \<and> ready g'"
  using assms
proof (induction "64 - i" arbitrary: i b j s P g rule: less_induct)
  case less
  let ?x = "rom_found s"
  show ?case
  proof (cases "b < 8")
    case False
    then have i: "i = 64" "b = 8" "j = 0" using less.prems(2,3,5) by auto
    then obtain d where "d \<in> D" "agree d ?x 64" using less.prems(7,8) by auto
    then have "?x \<in> D" using agree_all[of d ?x] by simp
    then show ?thesis
      using i less.prems(6,9) searching_ready[OF less.prems(1)] by (auto simp: search_loop.simps)
  next
    case True
    have i64: "i < 64" using True less.prems(2,4) by linarith
    obtain g1 g2 where r1: "onewire_read_bit gp pin g = (if \<forall>r \<in> P. bit r i then 1 else 0, g1)"
      and r2: "onewire_read_bit gp pin g1 = (if \<forall>r \<in> P. \<not> bit r i then 1 else 0, g2)" and ch: "choosing g2 P i"
      using read_slots[OF less.prems(1) i64 less.prems(8)] by blast
    let ?b1 = "word_of_int (if \<forall>r \<in> P. bit r i then 1 else 0) :: byte"
    let ?b2 = "word_of_int (if \<forall>r \<in> P. \<not> bit r i then 1 else 0) :: byte"
    have nb: "\<not> (?b1 = 1 \<and> ?b2 = 1)" using less.prems(8) by auto
    obtain v zp where c: "search_choice s (Suc i) b j ?b1 ?b2 = (v, zp)" by fastforce
    note sc = search_choice_step[OF less.prems(6) True less.prems(4,2,8,7) refl c[symmetric], simplified]
    let ?s1 = "set_rom_bit s b j v"
    let ?y = "rom_found ?s1"
    have y: "bit ?y k \<longleftrightarrow> (if k = i then v else bit ?x k)" for k
      using bit_set_rom_bit[OF less.prems(6) True less.prems(4)] less.prems(2) by (simp add: rom_found_def)
    have xy: "agree ?y ?x i" by (simp add: agree_def y)
    have P': "{r \<in> P. bit r i = v} = {d \<in> D. agree d ?y (Suc i)}"
      using less.prems(7) agree_cong[OF xy order_refl] by (auto simp: agree_Suc y)
    have dk: "disc D ?y k = disc D ?x k" if "k < i" for k
      using agree_cong[OF xy, of k] that by (simp add: disc_def y)
    have di: "disc D ?y i \<longleftrightarrow> (\<exists>d \<in> P. bit d i \<noteq> v)"
      using less.prems(7) agree_cong[OF xy order_refl] by (auto simp: disc_def y)
    have lzk: "lz D ?y k = lz D ?x k" if "k \<le> i" for k
      using that by (induction k) (auto simp: dk y)
    have lzi: "lz D ?y (Suc i) = (if zp then Suc i else lz D ?x i)"
      using sc(3) di lzk[of i] y[of i] by (cases v) auto
    have "choices D (last_discrepancy s) r ?y (Suc i)"
      using less.prems(9) sc(2) di dk less.prems(10)[of i] by (auto simp: choices_def less_Suc_eq y)
    moreover have "bit ?y k = bit r k" if "Suc i \<le> k" for k using that less.prems(10)[of k] by (simp add: y)
    moreover obtain ok g3 where w: "onewire_write_bit gp pin v g2 = (ok, g3)" and s3: "searching g3 {r \<in> P. bit r i = v} (Suc i)"
      using write_slot[OF ch, of v] by blast
    moreover have "{r \<in> P. bit r i = v} \<noteq> {}" using sc(1) by blast
    moreover define b' where "b' = (if 8 \<le> Suc j then Suc b else b)"
    moreover define j' where "j' = (if 8 \<le> Suc j then 0 else Suc j)"
    ultimately have "\<exists>s' g'. search_loop gp pin ?s1 (Suc (Suc i)) (lz D ?y (Suc i)) b' j' g3 = (s', 65, lz D (rom_found s') 64, g')
      \<and> rom_found s' \<in> D \<and> choices D (last_discrepancy ?s1) r (rom_found s') 64
      \<and> length (rom_no s') = 8 \<and> last_discrepancy s' = last_discrepancy ?s1
      \<and> last_device_found s' = last_device_found ?s1 \<and> ready g'"
      using less.prems(2,4,6) True i64 P' by (intro less.hyps[OF _ s3]) auto
    moreover have "search_loop gp pin s (Suc i) (lz D ?x i) b j g =
        search_loop gp pin ?s1 (Suc (Suc i)) (lz D ?y (Suc i)) b' j' g3"
      using True r1 r2 nb c w unfolding lzi b'_def j'_def
      by (subst search_loop.simps) (simp only: if_True if_False prod.case Let_def, auto)
    ultimately show ?thesis by simp
  qed
qed

text \<open>One call finds the device the choices lead to.\<close>

lemma search_next_step:
  assumes "ready g" and "D \<noteq> {}" and "\<And>d. d \<in> D \<Longrightarrow> (ucast d :: byte) \<noteq> 0"
    and "length (rom_no s) = 8" and "\<not> last_device_found s"
  obtains s' g' where "onewire_search_next gp pin s g = (rom_found s', s', g')"
    and "rom_found s' \<in> D" and "choices D (last_discrepancy s) (rom_found s) (rom_found s') 64"
    and "length (rom_no s') = 8" and "last_discrepancy s' = lz D (rom_found s') 64"
    and "last_device_found s' \<longleftrightarrow> lz D (rom_found s') 64 = 0" and "ready g'"
proof -
  obtain g1 where r: "onewire_reset gp pin g = (True, g1)" and c: "commanded g1"
    using reset_slot[OF assms(1)] assms(2) by auto
  obtain ok g2 where w: "onewire_write gp pin ONEWIRE_SEARCH g1 = (ok, g2)" and s2: "searching g2 D 0"
    using search_command[OF c] by blast
  have "\<exists>s' g'. search_loop gp pin s (Suc 0) (lz D (rom_found s) 0) 0 0 g2 = (s', 65, lz D (rom_found s') 64, g')
    \<and> rom_found s' \<in> D \<and> choices D (last_discrepancy s) (rom_found s) (rom_found s') 64
    \<and> length (rom_no s') = 8 \<and> last_discrepancy s' = last_discrepancy s
    \<and> last_device_found s' = last_device_found s \<and> ready g'"
    using assms(2,4) by (intro search_loop_pass[OF s2]) (simp_all add: choices_def)
  then obtain s' g' where l: "search_loop gp pin s 1 0 0 0 g2 = (s', 65, lz D (rom_found s') 64, g')"
    and s': "rom_found s' \<in> D" "choices D (last_discrepancy s) (rom_found s) (rom_found s') 64"
      "length (rom_no s') = 8" "\<not> last_device_found s'" "ready g'" using assms(5) by auto
  let ?z = "lz D (rom_found s') 64"
  let ?s = "s'\<lparr>last_discrepancy := ?z, last_device_found := (?z = 0 \<or> last_device_found s')\<rparr>"
  have rs: "rom_found (s'\<lparr>last_discrepancy := n, last_device_found := l\<rparr>) = rom_found s'" for n l
    by (simp add: rom_found_def)
  have "rom_no s' ! 0 = ucast (rom_found s')"
    using s'(3) by (intro bit_eqI) (auto simp: bit_simps rom_found_def bit_rom_addr)
  then have nz: "rom_no s' ! 0 \<noteq> 0" using assms(3)[OF s'(1)] by simp
  then have "onewire_search_next gp pin s g = (rom_found ?s, ?s, g')"
    using assms(5) r w l by (simp add: onewire_search_next_def search_finish_def rs) (simp add: rom_found_def)
  with s' show ?thesis by (intro that[of ?s g']) (simp_all add: rs)
qed

lemma search_next_over:
  assumes "last_device_found s"
  shows "onewire_search_next gp pin s g = (ONEWIRE_NONE, s\<lparr>last_discrepancy := 0, last_device_found := False\<rparr>, g)"
  using assms by (simp add: onewire_search_next_def search_finish_def)

lemma search_next_nobody:
  assumes "ready g" and "D = {}" and "\<not> last_device_found s"
  obtains g' where "onewire_search_next gp pin s g = (ONEWIRE_NONE, s\<lparr>last_discrepancy := 0, last_device_found := False\<rparr>, g')"
    and "ready g'"
  using reset_slot[OF assms(1)] assms(2,3) that by (auto simp: onewire_search_next_def)

text \<open>The devices still to come after a call.\<close>

definition remaining :: "onewire_search_t \<Rightarrow> onewire_addr_t set" where
  "remaining s = (if last_device_found s then {} else if last_discrepancy s = 0 then D else above D (rom_found s))"

lemma search_next_remaining:
  assumes "ready g" and "\<And>d. d \<in> D \<Longrightarrow> (ucast d :: byte) \<noteq> 0" and "length (rom_no s) = 8"
    and "last_discrepancy s = 0 \<or> rom_found s \<in> D \<and> last_discrepancy s = lz D (rom_found s) 64"
    and "remaining s \<noteq> {}"
  obtains s' g' where "onewire_search_next gp pin s g = (rom_found s', s', g')" and "ready g'"
    and "rom_found s' \<in> remaining s" and "remaining s' = remaining s - {rom_found s'}"
    and "length (rom_no s') = 8" and "rom_found s' \<in> D \<and> last_discrepancy s' = lz D (rom_found s') 64"
proof -
  have nl: "\<not> last_device_found s" and ne: "D \<noteq> {}" using assms(5) by (auto simp: remaining_def above_def split: if_splits)
  obtain s' g' where n: "onewire_search_next gp pin s g = (rom_found s', s', g')" and x: "rom_found s' \<in> D"
    and ch: "choices D (last_discrepancy s) (rom_found s) (rom_found s') 64"
    and s': "length (rom_no s') = 8" "last_discrepancy s' = lz D (rom_found s') 64"
      "last_device_found s' \<longleftrightarrow> lz D (rom_found s') 64 = 0" "ready g'"
    by (rule search_next_step[OF assms(1) ne assms(2,3) nl])
  have rem': "remaining s' = above D (rom_found s')"
    using s' last_device[of D "rom_found s'"] by (auto simp: remaining_def)
  have "rom_found s' \<in> remaining s \<and> above D (rom_found s') = remaining s - {rom_found s'}"
  proof (cases "last_discrepancy s = 0")
    case True
    then show ?thesis using first_pass[OF x, of "rom_found s"] ch x nl by (simp add: remaining_def)
  next
    case False
    then show ?thesis
      using next_pass[of "rom_found s" D "rom_found s'" "last_discrepancy s"] assms(4) ch x nl by (simp add: remaining_def)
  qed
  with n s' x rem' that show ?thesis by auto
qed

end

end
