(* ===== verification/OneWire_Crc.thy ===== *)
theory OneWire_Crc
  imports OneWire
begin

text \<open>
  The 1-Wire checksums: the table and the bitwise CRC-8 agree, the residue of a block with its
  checksum, and the parity-table CRC-16 against its bit-serial specification.
\<close>

text \<open>Building a table of a linear function from its values at the powers of two.\<close>

fun doubled :: "byte list \<Rightarrow> byte list \<Rightarrow> byte list" where
  "doubled [] ts = ts"
| "doubled (b # bs) ts = doubled bs (ts @ map (\<lambda>x. x XOR b) ts)"

section \<open>Facts about the checksums\<close>

lemma and_1_bit: "v AND 1 \<noteq> 0 \<longleftrightarrow> bit (v :: 'a :: len word) 0"
  by (simp add: and_one_eq bit_0 even_iff_mod_2_eq_zero odd_iff_mod_2_eq_one)

lemma drop_bit_xor': "drop_bit n (x XOR y) = drop_bit n x XOR (drop_bit n y :: 'a :: len word)"
  by (rule bit_eqI) (simp add: bit_simps)

lemma crc8_bits_xor: "crc8_bits n crc x = crc8_bits n (crc XOR x) 0 XOR drop_bit n x"
proof (induction n arbitrary: crc x)
  case 0
  show ?case by (simp add: xor.assoc)
next
  case (Suc n)
  let ?m = "if (crc XOR x) AND 1 \<noteq> 0 then 0x8c else 0 :: byte"
  have l: "crc8_bits (Suc n) crc x = crc8_bits n (drop_bit 1 crc XOR ?m) (drop_bit 1 x)"
    and r: "crc8_bits (Suc n) (crc XOR x) 0 = crc8_bits n (drop_bit 1 (crc XOR x) XOR ?m) 0"
    by (simp_all add: Let_def)
  have "drop_bit 1 crc XOR ?m XOR drop_bit 1 x = drop_bit 1 (crc XOR x) XOR ?m"
    by (simp only: drop_bit_xor' ac_simps)
  moreover have "drop_bit n (drop_bit 1 x) = drop_bit (Suc n) x" by (simp add: drop_bit_drop_bit)
  ultimately show ?case
    unfolding l r using Suc.IH[of "drop_bit 1 crc XOR ?m" "drop_bit 1 x"] by (simp only: xor.assoc)
qed

lemma drop_bit_8 [simp]: "drop_bit 8 (x :: byte) = 0"
  by (rule bit_eqI) (simp add: bit_simps)

lemma crc8_byte: "crc8_bits 8 crc x = crc8_bits 8 (crc XOR x) 0"
  using crc8_bits_xor[of 8 crc x] by simp

text \<open>The table is linear, so eight of its entries determine it.\<close>

lemma crc8_bits_linear: "crc8_bits n (a XOR b) 0 = crc8_bits n a 0 XOR crc8_bits n b 0"
proof (induction n arbitrary: a b)
  case (Suc n)
  let ?m = "\<lambda>c :: byte. if c AND 1 \<noteq> 0 then 0x8c else 0 :: byte"
  have u: "crc8_bits (Suc n) c 0 = crc8_bits n (drop_bit 1 c XOR ?m c) 0" for c
    by (simp add: Let_def)
  have m: "?m (a XOR b) = ?m a XOR ?m b" by (simp only: and_1_bit) (simp add: bit_simps)
  show ?case
    unfolding u m drop_bit_xor' Suc.IH[symmetric] by (simp only: ac_simps)
qed simp

lemma word_of_nat_add_power:
  assumes "j < 2 ^ k"
  shows "(word_of_nat (2 ^ k + j) :: byte) = word_of_nat j XOR push_bit k 1"
proof -
  have d: "\<not> bit (word_of_nat j :: byte) k"
    using assms by (simp add: bit_of_nat_iff bit_iff_odd[of j k])
  have "(word_of_nat (2 ^ k + j) :: byte) = push_bit k 1 + word_of_nat j"
    by (simp add: push_bit_eq_mult)
  also have "\<dots> = push_bit k 1 OR word_of_nat j"
    using d by (intro disjunctive_add) (auto simp: bit_simps)
  also have "\<dots> = word_of_nat j XOR push_bit k 1"
    using d by (intro bit_eqI) (auto simp: bit_simps)
  finally show ?thesis .
qed

lemma doubled_table:
  assumes "length ts = 2 ^ k" and "\<forall>i < 2 ^ k. ts ! i = crc8_bits 8 (word_of_nat i) 0"
    and "bs = map (\<lambda>i. crc8_bits 8 (push_bit i 1) 0) [k..<k + n]"
  shows "length (doubled bs ts) = 2 ^ (k + n) \<and> (\<forall>i < 2 ^ (k + n). doubled bs ts ! i = crc8_bits 8 (word_of_nat i) 0)"
  using assms
proof (induction n arbitrary: k bs ts)
  case (Suc n)
  let ?b = "crc8_bits 8 (push_bit k 1) 0"
  let ?ts = "ts @ map (\<lambda>x. x XOR ?b) ts"
  have bs: "bs = ?b # map (\<lambda>i. crc8_bits 8 (push_bit i 1) 0) [Suc k..<Suc k + n]"
    using Suc.prems(3) by (simp add: upt_rec)
  have "?ts ! i = crc8_bits 8 (word_of_nat i) 0" if "i < 2 ^ Suc k" for i
  proof (cases "i < 2 ^ k")
    case True
    then show ?thesis using Suc.prems by (simp add: nth_append)
  next
    case False
    define j where "j = i - 2 ^ k"
    have j: "i = 2 ^ k + j" "j < 2 ^ k" using False that by (simp_all add: j_def)
    then have "?ts ! i = crc8_bits 8 (word_of_nat j) 0 XOR ?b"
      using Suc.prems(1,2) by (simp add: nth_append)
    also have "\<dots> = crc8_bits 8 (word_of_nat i) 0"
      unfolding j(1) word_of_nat_add_power[OF j(2)] crc8_bits_linear ..
    finally show ?thesis .
  qed
  then show ?case
    using Suc.IH[of ?ts "Suc k"] Suc.prems(1) bs by simp
qed simp

lemma table_basis:
  "map (\<lambda>i. crc8_bits 8 (push_bit i 1) 0) [0..<8] = [94, 188, 97, 194, 157, 35, 70, 140]"
  by code_simp

lemma table_doubled: "dscrc_table = doubled [94, 188, 97, 194, 157, 35, 70, 140] [0]"
  by (simp add: dscrc_table_def)

lemma table_entry: "dscrc_table ! unat v = crc8_bits 8 v 0"
proof -
  have "unat v < 2 ^ (0 + 8)" using unsigned_less[of v] by simp
  moreover have "crc8_bits 8 0 0 = 0" by code_simp
  ultimately show ?thesis
    using doubled_table[of "[0]" 0 _ 8] table_basis table_doubled by simp
qed

lemma crc8_loop_append: "crc8_loop c (xs @ ys) = crc8_loop (crc8_loop c xs) ys"
  by (induction xs arbitrary: c) auto

lemma crc16_bit_linear: "crc16_bit (a XOR b) = crc16_bit a XOR crc16_bit b"
  by (auto simp: crc16_bit_def drop_bit_xor' bit_simps ac_simps)

lemma crc16_bits_linear: "(crc16_bit ^^ n) (a XOR b) = (crc16_bit ^^ n) a XOR (crc16_bit ^^ n) b"
  by (induction n) (simp_all add: crc16_bit_linear)

lemma crc16_high: "(\<And>i. i < n \<Longrightarrow> \<not> bit v i) \<Longrightarrow> (crc16_bit ^^ n) v = drop_bit n v"
proof (induction n)
  case (Suc n)
  then have "(crc16_bit ^^ n) v = drop_bit n v" by simp
  moreover have "\<not> bit (drop_bit n v) 0" using Suc.prems[of n] by (simp add: bit_simps)
  ultimately show ?case by (simp add: crc16_bit_def[of "drop_bit n v"] drop_bit_drop_bit)
qed simp

lemma nibble_low: "list_all (\<lambda>i. (crc16_bit ^^ 8) (word_of_nat i) =
    (if oddparity ! i then 0xc001 else 0) XOR push_bit 6 (word_of_nat i) XOR push_bit 7 (word_of_nat i)) [0..<16]"
  by code_simp

lemma nibble_high: "list_all (\<lambda>i. (crc16_bit ^^ 8) (push_bit 4 (word_of_nat i)) =
    (if oddparity ! i then 0xc001 else 0) XOR push_bit 10 (word_of_nat i) XOR push_bit 11 (word_of_nat i)) [0..<16]"
  by code_simp

lemma nibble_cases:
  fixes a :: "16 word"
  assumes "unat a < 16"
  shows "(crc16_bit ^^ 8) a = (if oddparity ! unat a then 0xc001 else 0) XOR push_bit 6 a XOR push_bit 7 a"
    and "(crc16_bit ^^ 8) (push_bit 4 a) = (if oddparity ! unat a then 0xc001 else 0) XOR push_bit 10 a XOR push_bit 11 a"
proof -
  have m: "unat a \<in> set [0..<16]" using assms by simp
  have e: "word_of_nat (unat a) = a" by simp
  show "(crc16_bit ^^ 8) a = (if oddparity ! unat a then 0xc001 else 0) XOR push_bit 6 a XOR push_bit 7 a"
    using nibble_low[unfolded list_all_iff, rule_format, OF m] by (simp only: e)
  show "(crc16_bit ^^ 8) (push_bit 4 a) = (if oddparity ! unat a then 0xc001 else 0) XOR push_bit 10 a XOR push_bit 11 a"
    using nibble_high[unfolded list_all_iff, rule_format, OF m] by (simp only: e)
qed

lemma crc16_step_spec: "(crc16_bit ^^ 8) (crc XOR ucast x) = crc16_step crc x"
proof -
  define c where "c = (ucast x XOR crc) AND (0xff :: 16 word)"
  define a where "a = c AND 0x0f"
  define b where "b = drop_bit 4 c"
  have m8: "0xff = (mask 8 :: 16 word)" and m4: "0x0f = (mask 4 :: 16 word)" by (simp_all add: mask_eq_exp_minus_1)
  have bits: "bit c i \<longleftrightarrow> i < 8 \<and> (bit x i \<noteq> bit crc i)" "bit a i \<longleftrightarrow> i < 4 \<and> bit c i" for i
    unfolding a_def c_def m8 m4 by (auto simp: bit_simps)
  have x8: "\<not> bit x i" if "8 \<le> i" for i using that bit_imp_le_length[of x i] by auto
  have hi: "crc XOR ucast x = (push_bit 8 (drop_bit 8 crc)) XOR c"
    by (rule bit_eqI) (auto simp: bit_simps bits not_less x8)
  have ca: "c = a XOR push_bit 4 b" by (rule bit_eqI) (auto simp: bit_simps bits b_def)
  have la: "unat a < 16" "unat b < 16"
  proof -
    have "a = take_bit 4 a" "b = take_bit 4 b" by (rule bit_eqI; auto simp: bit_simps bits b_def)+
    then have "unat a = take_bit 4 (unat a)" "unat b = take_bit 4 (unat b)" by (metis unsigned_take_bit_eq)+
    then show "unat a < 16" "unat b < 16"
      using take_bit_nat_less_exp[of 4 "unat a"] take_bit_nat_less_exp[of 4 "unat b"] by simp_all
  qed
  have h8: "(crc16_bit ^^ 8) (push_bit 8 (drop_bit 8 crc)) = drop_bit 8 crc"
  proof (subst crc16_high)
    show "drop_bit 8 (push_bit 8 (drop_bit 8 crc)) = drop_bit 8 crc"
      by (rule bit_eqI) (auto simp: bit_simps dest: bit_imp_le_length)
  qed (simp add: bit_simps)
  have "(crc16_bit ^^ 8) c = (if oddparity ! unat a then 0xc001 else 0) XOR push_bit 6 a XOR push_bit 7 a
      XOR ((if oddparity ! unat b then 0xc001 else 0) XOR push_bit 10 b XOR push_bit 11 b)"
    unfolding ca crc16_bits_linear using nibble_cases la by (simp only: xor.assoc)
  also have "\<dots> = (if oddparity ! unat a \<noteq> oddparity ! unat b then 0xc001 else 0) XOR push_bit 6 c XOR push_bit 7 c"
    by (rule bit_eqI) (auto simp: ca bit_simps)
  finally have c8: "(crc16_bit ^^ 8) c = (if oddparity ! unat a \<noteq> oddparity ! unat b then 0xc001 else 0) XOR push_bit 6 c XOR push_bit 7 c" .
  have "push_bit 1 (push_bit 6 c) = push_bit 7 c" by (simp add: push_bit_push_bit)
  then show ?thesis
    unfolding hi crc16_bits_linear h8 c8
    by (simp add: crc16_step_def Let_def c_def[symmetric] a_def[symmetric] b_def[symmetric] xor.assoc)
qed

lemma xor_zero_iff: "a XOR b = 0 \<longleftrightarrow> a = (b :: 'a :: len word)"
proof
  assume z: "a XOR b = 0"
  show "a = b"
  proof (rule bit_eqI)
    fix n
    show "bit a n \<longleftrightarrow> bit b n"
      using arg_cong[OF z, of "\<lambda>x. bit x n"] by (simp add: bit_xor_iff)
  qed
qed simp

lemma crc8_bits_00: "crc8_bits n 0 0 = 0"
  by (induction n) (simp_all add: Let_def)

lemma crc8_bits_zero: "crc8_bits n v 0 = 0 \<Longrightarrow> v = 0"
proof (induction n arbitrary: v)
  case (Suc n)
  let ?m = "if v AND 1 \<noteq> 0 then 0x8c else 0 :: byte"
  have "crc8_bits n (drop_bit 1 v XOR ?m) 0 = 0" using Suc.prems by (auto simp: Let_def split: if_splits)
  then have "drop_bit 1 v XOR ?m = 0" by (rule Suc.IH)
  then have e: "drop_bit 1 v = ?m" by (simp only: xor_zero_iff)
  have "\<not> bit (drop_bit 1 v) 7" using bit_imp_le_length[of v 8] by (auto simp: bit_simps)
  then have n7: "\<not> bit ?m 7" by (simp only: e not_False_eq_True)
  have "v AND 1 = 0"
  proof (rule ccontr)
    assume "v AND 1 \<noteq> 0"
    then have "?m = 0x8c" by (rule if_P)
    with n7 have "\<not> bit (0x8c :: byte) 7" by (simp only: not_False_eq_True)
    then show False by simp
  qed
  then have "drop_bit 1 v = 0" "\<not> bit v 0" using e and_1_bit[of v] by auto
  show ?case
  proof (rule bit_eqI)
    fix i
    show "bit v i \<longleftrightarrow> bit 0 i"
      using arg_cong[OF \<open>drop_bit 1 v = 0\<close>, of "\<lambda>x. bit x (i - 1)"] \<open>\<not> bit v 0\<close>
      by (cases i) (simp_all add: bit_simps)
  qed
qed simp

lemma split_le16:
  "(n AND 0xff = ucast c0 \<and> drop_bit 8 n = ucast c1) \<longleftrightarrow> of_le16 c0 c1 = (n :: 16 word)"
proof -
  have m8: "0xff = (mask 8 :: 16 word)" by (simp add: mask_eq_exp_minus_1)
  have n: "n = (n AND 0xff) OR push_bit 8 (drop_bit 8 n)"
    unfolding m8
  proof (rule bit_eqI, goal_cases)
    case (1 i)
    then show ?case by (cases "i < 8") (auto simp: bit_simps)
  qed
  have "of_le16 c0 c1 AND 0xff = ucast c0" "drop_bit 8 (of_le16 c0 c1) = ucast c1"
    unfolding m8 of_le16_def by (rule bit_eqI; auto simp: bit_simps dest: bit_imp_le_length)+
  then show ?thesis using n by (auto simp: of_le16_def)
qed

text \<open>the two variants of \<open>onewire_crc8\<close> in the source, the table lookup and the bitwise loop, compute
  the same checksum of every byte sequence.\<close>

theorem crc8_table_correct: "onewire_crc8_table xs = onewire_crc8 xs"
proof -
  have "crc8_table_loop c xs = crc8_loop c xs" for c
    by (induction xs arbitrary: c) (simp_all add: table_entry crc8_byte[symmetric])
  then show ?thesis by (simp add: onewire_crc8_table_def onewire_crc8_def)
qed

text \<open>A block followed by its CRC-8 has checksum zero, and no other last byte does: the check of a
  ROM or scratchpad accepts exactly the right byte.\<close>

theorem crc8_residue: "onewire_crc8 (xs @ [b]) = 0 \<longleftrightarrow> b = onewire_crc8 xs"
proof -
  have "crc8_bits 8 v 0 = 0 \<longleftrightarrow> v = 0" for v
    using crc8_bits_zero crc8_bits_00 by auto
  moreover have "onewire_crc8 (xs @ [b]) = crc8_bits 8 (onewire_crc8 xs XOR b) 0"
    by (simp add: onewire_crc8_def crc8_loop_append crc8_byte[of "crc8_loop 0 xs"])
  moreover have "onewire_crc8 xs XOR b = 0 \<longleftrightarrow> b = onewire_crc8 xs" by (auto simp: xor_zero_iff)
  ultimately show ?thesis by simp
qed

text \<open>the byte-at-a-time \<open>onewire_crc16\<close>, with its parity table, is the bit-serial CRC-16 with the
  reflected polynomial \<^verbatim>\<open>0xA001\<close>, for every start value; and \<open>onewire_check_crc16\<close> accepts exactly the
  inverted checksum, low byte first.\<close>

theorem crc16_correct:
  "onewire_crc16 xs iv = crc16_spec iv xs
   \<and> (onewire_check_crc16 xs c0 c1 iv \<longleftrightarrow> of_le16 c0 c1 = NOT (crc16_spec iv xs))"
proof -
  have eq: "onewire_crc16 xs iv = crc16_spec iv xs"
    unfolding onewire_crc16_def by (induction xs arbitrary: iv) (simp_all add: crc16_step_spec)
  moreover have "(n AND 0xff = ucast c0 \<and> drop_bit 8 n = ucast c1) \<longleftrightarrow> of_le16 c0 c1 = n" for n :: "16 word"
    by (rule split_le16)
  ultimately show ?thesis by (simp add: onewire_check_crc16_def Let_def)
qed

end
