(* ===== verification/DS18B20.thy ===== *)
theory DS18B20
  imports Complex_Main OneWire_Search OneWire_Crc
begin

text \<open>
  The DS18B20 temperature sensor driver, \<^verbatim>\<open>src/extras/ds18b20/ds18b20.c\<close>, over the 1-Wire
  master. A \<^verbatim>\<open>float\<close> result is a \<open>rat option\<close>, \<open>None\<close> being \<^verbatim>\<open>NAN\<close>: a reading is a 16-bit count of
  sixteenths of a degree, which the \<^verbatim>\<open>double\<close> expression and the \<^verbatim>\<open>float\<close> result hold exactly. The
  loops over the devices on the bus end only when the bus says so, so they are partial functions
  whose value is \<open>None\<close> when they run forever. A tick is 10 ms, so the waits are whole ticks.
\<close>

definition DS18B20_READ_SCRATCHPAD :: byte where "DS18B20_READ_SCRATCHPAD = 0xbe"
definition DS18B20_CONVERT_T :: byte where "DS18B20_CONVERT_T = 0x44"
definition DS18B20_ANY :: onewire_addr_t where "DS18B20_ANY = ONEWIRE_NONE"

type_synonym celsius = "rat option"

record ds_sensor_t =
  ds_id :: byte
  ds_value :: rat

definition addr_bytes :: "onewire_addr_t \<Rightarrow> byte list" where
  "addr_bytes addr = map (\<lambda>k. ucast (drop_bit (8 * k) addr)) [0..<8]"

text \<open>The loop reading the scratchpad: a failed read (-1) is stored as 255.\<close>

fun read_loop :: "'g gpiodev \<Rightarrow> nat \<Rightarrow> nat \<Rightarrow> 'g \<Rightarrow> byte list \<times> 'g" where
  "read_loop gp pin 0 g = ([], g)"
| "read_loop gp pin (Suc k) g =
     (case onewire_read gp pin g of
        (b, g1) \<Rightarrow> (case read_loop gp pin k g1 of (bs, g2) \<Rightarrow> (word_of_int b # bs, g2)))"

text \<open>The bytes \<open>temp_msb << 8 | temp_lsb\<close> in a \<^verbatim>\<open>uint16_t\<close> or a non-negative \<^verbatim>\<open>int\<close>.\<close>

definition raw_temp :: "byte list \<Rightarrow> 16 word" where
  "raw_temp get = push_bit 8 (ucast (get ! 1)) OR ucast (get ! 0)"

definition temp_celsius :: "16 word \<Rightarrow> rat" where
  "temp_celsius temp = (of_nat (unat temp) * 625) / 10000"

definition convert_and_read :: "'g gpiodev \<Rightarrow> nat \<Rightarrow> ('g \<Rightarrow> bool \<times> 'g) \<Rightarrow> 'g \<Rightarrow> byte list \<times> 'g" where
  "convert_and_read gp pin select g =
     (let g1 = snd (onewire_reset gp pin g);
          g2 = snd (select g1);
          g3 = snd (onewire_write gp pin DS18B20_CONVERT_T g2);
          g4 = snd (onewire_power gp pin g3);
          g5 = vTaskDelay_ms gp 750 g4;
          g6 = snd (onewire_reset gp pin g5);
          g7 = snd (select g6);
          g8 = snd (onewire_write gp pin DS18B20_READ_SCRATCHPAD g7) in
      read_loop gp pin 9 g8)"

text \<open>\<open>result\<close> is the caller's array, indexed by the \<^verbatim>\<open>uint8_t\<close> counter of sensors.\<close>

partial_function (option) read_all_loop ::
  "'g gpiodev \<Rightarrow> nat \<Rightarrow> onewire_search_t \<Rightarrow> byte \<Rightarrow> (nat \<Rightarrow> ds_sensor_t option) \<Rightarrow> 'g \<Rightarrow>
     (byte \<times> (nat \<Rightarrow> ds_sensor_t option) \<times> 'g) option" where
  "read_all_loop gp pin search sensor_id result g =
     (case onewire_search_next gp pin search g of
        (addr, search', g1) \<Rightarrow>
          if addr = ONEWIRE_NONE then Some (sensor_id, result, g1)
          else if ucast (onewire_crc8 (take 7 (addr_bytes addr))) \<noteq> drop_bit 56 addr then Some (0, result, g1)
          else
            (case convert_and_read gp pin (onewire_select gp pin addr) g1 of
               (get, g2) \<Rightarrow>
                 if onewire_crc8 (take 8 get) \<noteq> get ! 8 then Some (0, result, g2)
                 else
                   read_all_loop gp pin search' (sensor_id + 1)
                     (result(unat sensor_id \<mapsto> \<lparr>ds_id = sensor_id, ds_value = temp_celsius (raw_temp get)\<rparr>)) g2))"

definition ds18b20_read_all ::
  "'g gpiodev \<Rightarrow> nat \<Rightarrow> (nat \<Rightarrow> ds_sensor_t option) \<Rightarrow> 'g \<Rightarrow> (byte \<times> (nat \<Rightarrow> ds_sensor_t option) \<times> 'g) option" where
  "ds18b20_read_all gp pin result g = read_all_loop gp pin onewire_search_start 0 result g"

text \<open>A checksum failure returns 0 degrees.\<close>

definition ds18b20_read_single :: "'g gpiodev \<Rightarrow> nat \<Rightarrow> 'g \<Rightarrow> rat \<times> 'g" where
  "ds18b20_read_single gp pin g =
     (case convert_and_read gp pin (onewire_skip_rom gp pin) g of
        (get, g1) \<Rightarrow> (if onewire_crc8 (take 8 get) \<noteq> get ! 8 then 0 else temp_celsius (raw_temp get), g1))"

definition select_any :: "'g gpiodev \<Rightarrow> nat \<Rightarrow> onewire_addr_t \<Rightarrow> 'g \<Rightarrow> 'g" where
  "select_any gp pin addr g =
     (if addr = DS18B20_ANY then snd (onewire_skip_rom gp pin g) else snd (onewire_select gp pin addr g))"

definition ds18b20_measure :: "'g gpiodev \<Rightarrow> nat \<Rightarrow> onewire_addr_t \<Rightarrow> bool \<Rightarrow> 'g \<Rightarrow> bool \<times> 'g" where
  "ds18b20_measure gp pin addr wait g =
     (case onewire_reset gp pin g of
        (present, g1) \<Rightarrow>
          if \<not> present then (False, g1)
          else
            let g2 = ENTER_CRITICAL gp (select_any gp pin addr g1);
                g3 = snd (onewire_write gp pin DS18B20_CONVERT_T g2);
                g4 = EXIT_CRITICAL gp (snd (onewire_power gp pin g3)) in
            (True, if wait then onewire_depower gp pin (vTaskDelay_ms gp 750 g4) else g4))"

text \<open>The buffer is filled whatever the checksum says.\<close>

definition ds18b20_read_scratchpad ::
  "'g gpiodev \<Rightarrow> nat \<Rightarrow> onewire_addr_t \<Rightarrow> byte list \<Rightarrow> 'g \<Rightarrow> bool \<times> byte list \<times> 'g" where
  "ds18b20_read_scratchpad gp pin addr buffer g =
     (case onewire_reset gp pin g of
        (present, g1) \<Rightarrow>
          if \<not> present then (False, buffer, g1)
          else
            (case read_loop gp pin 8 (snd (onewire_write gp pin DS18B20_READ_SCRATCHPAD (select_any gp pin addr g1))) of
               (buffer', g2) \<Rightarrow>
                 (case onewire_read gp pin g2 of
                    (crc, g3) \<Rightarrow> (word_of_int crc = onewire_crc8 buffer', buffer', g3))))"

definition ds18b20_read_temperature :: "'g gpiodev \<Rightarrow> nat \<Rightarrow> onewire_addr_t \<Rightarrow> 'g \<Rightarrow> celsius \<times> 'g" where
  "ds18b20_read_temperature gp pin addr g =
     (case ds18b20_read_scratchpad gp pin addr (replicate 8 0) g of
        (ok, scratchpad, g1) \<Rightarrow> (if \<not> ok then None else Some (temp_celsius (raw_temp scratchpad)), g1))"

definition ds18b20_measure_and_read :: "'g gpiodev \<Rightarrow> nat \<Rightarrow> onewire_addr_t \<Rightarrow> 'g \<Rightarrow> celsius \<times> 'g" where
  "ds18b20_measure_and_read gp pin addr g =
     (case ds18b20_measure gp pin addr True g of
        (ok, g1) \<Rightarrow> if \<not> ok then (None, g1) else ds18b20_read_temperature gp pin addr g1)"

fun ds18b20_read_temp_multi ::
  "'g gpiodev \<Rightarrow> nat \<Rightarrow> onewire_addr_t list \<Rightarrow> 'g \<Rightarrow> bool \<times> celsius list \<times> 'g" where
  "ds18b20_read_temp_multi gp pin [] g = (True, [], g)"
| "ds18b20_read_temp_multi gp pin (addr # addr_list) g =
     (case ds18b20_read_temperature gp pin addr g of
        (t, g1) \<Rightarrow>
          (case ds18b20_read_temp_multi gp pin addr_list g1 of
             (result, ts, g2) \<Rightarrow> (t \<noteq> None \<and> result, t # ts, g2)))"

definition ds18b20_measure_and_read_multi ::
  "'g gpiodev \<Rightarrow> nat \<Rightarrow> onewire_addr_t list \<Rightarrow> 'g \<Rightarrow> bool \<times> celsius list \<times> 'g" where
  "ds18b20_measure_and_read_multi gp pin addr_list g =
     (case ds18b20_measure gp pin DS18B20_ANY True g of
        (ok, g1) \<Rightarrow>
          if \<not> ok then (False, map (\<lambda>_. None) addr_list, g1)
          else ds18b20_read_temp_multi gp pin addr_list g1)"

partial_function (option) scan_loop ::
  "'g gpiodev \<Rightarrow> nat \<Rightarrow> onewire_search_t \<Rightarrow> onewire_addr_t list \<Rightarrow> nat \<Rightarrow> nat \<Rightarrow> 'g \<Rightarrow>
     (nat \<times> onewire_addr_t list \<times> 'g) option" where
  "scan_loop gp pin search addr_list addr_count found g =
     (case onewire_search_next gp pin search g of
        (addr, search', g1) \<Rightarrow>
          if addr = ONEWIRE_NONE then Some (found, addr_list, g1)
          else scan_loop gp pin search' (if found < addr_count then addr_list[found := addr] else addr_list)
                 addr_count (found + 1) g1)"

definition ds18b20_scan_devices ::
  "'g gpiodev \<Rightarrow> nat \<Rightarrow> onewire_addr_t list \<Rightarrow> nat \<Rightarrow> 'g \<Rightarrow> (nat \<times> onewire_addr_t list \<times> 'g) option" where
  "ds18b20_scan_devices gp pin addr_list addr_count g =
     scan_loop gp pin onewire_search_start addr_list addr_count 0 g"

end
