(* ===== verification/OneWire_Sim.thy ===== *)
theory OneWire_Sim
  imports DS18B20
begin

text \<open>
  The device scan finds every device exactly once, on any bus that keeps the 1-Wire slot
  protocol, and a bus of simulated devices at the level of pin writes and delays that keeps it.
\<close>

section \<open>A simulated bus\<close>

text \<open>
  The devices share one open-drain line. The master pulling it low for 480 us is a reset, which
  present devices answer by holding the line; a shorter low pulse is a slot, whose length is the
  bit the master writes. After the search command each device answers, for the next bit of its
  ROM, the bit and its complement (the line is the conjunction of the answers, a zero is a device
  holding the line for a while), reads the master's choice, and drops out if it disagrees.
\<close>

datatype sim_phase =
    Sim_Idle
  | Sim_Command "bool list"
  | Sim_Bit "onewire_addr_t list" nat
  | Sim_Complement "onewire_addr_t list" nat
  | Sim_Choice "onewire_addr_t list" nat
  | Sim_Function "bool list"
  | Sim_Send "bool list"

record sim_bus =
  sim_low :: bool
  sim_time :: nat
  sim_hold :: nat
  sim_phase :: sim_phase

definition byte_bits :: "byte \<Rightarrow> bool list" where
  "byte_bits b = map (bit b) [0..<8]"

text \<open>\<open>ds\<close> are the devices; the one addressed by Skip ROM sends \<open>fr\<close> as its scratchpad.\<close>

fun sim_slot :: "onewire_addr_t list \<Rightarrow> byte list \<Rightarrow> bool \<Rightarrow> sim_phase \<Rightarrow> nat \<times> sim_phase" where
  "sim_slot ds fr v Sim_Idle = (0, Sim_Idle)"
| "sim_slot ds fr v (Sim_Command bs) =
     (0, if length bs < 7 then Sim_Command (bs @ [v])
         else if bs @ [v] = [False, False, False, False, True, True, True, True] then Sim_Bit ds 0
         else if bs @ [v] = [False, False, True, True, False, False, True, True] then Sim_Function []
         else Sim_Idle)"
| "sim_slot ds fr v (Sim_Bit P i) = (if list_all (\<lambda>r. bit r i) P then 0 else 25, Sim_Complement P i)"
| "sim_slot ds fr v (Sim_Complement P i) = (if list_all (\<lambda>r. \<not> bit r i) P then 0 else 25, Sim_Choice P i)"
| "sim_slot ds fr v (Sim_Choice P i) = (0, Sim_Bit (filter (\<lambda>r. bit r i = v) P) (Suc i))"
| "sim_slot ds fr v (Sim_Function bs) =
     (0, if length bs < 7 then Sim_Function (bs @ [v])
         else if bs @ [v] = [False, True, True, True, True, True, False, True] then Sim_Send (concat (map byte_bits fr))
         else Sim_Idle)"
| "sim_slot ds fr v (Sim_Send bs) = (if bs = [] \<or> hd bs then 0 else 25, Sim_Send (tl bs))"

definition sim_release :: "onewire_addr_t list \<Rightarrow> byte list \<Rightarrow> sim_bus \<Rightarrow> sim_bus" where
  "sim_release ds fr g =
     (if 480 \<le> sim_time g
      then \<lparr>sim_low = False, sim_time = 0, sim_hold = (if ds = [] then 0 else 120), sim_phase = Sim_Command []\<rparr>
      else (case sim_slot ds fr (sim_time g < 15) (sim_phase g) of
              (h, p) \<Rightarrow> \<lparr>sim_low = False, sim_time = 0, sim_hold = h, sim_phase = p\<rparr>))"

definition sim_write :: "onewire_addr_t list \<Rightarrow> byte list \<Rightarrow> bool \<Rightarrow> sim_bus \<Rightarrow> sim_bus" where
  "sim_write ds fr v g =
     (if v then (if sim_low g then sim_release ds fr g else g)
      else (if sim_low g then g else g\<lparr>sim_low := True, sim_time := 0\<rparr>))"

definition sim_delay :: "nat \<Rightarrow> sim_bus \<Rightarrow> sim_bus" where
  "sim_delay n g =
     (if sim_low g then g\<lparr>sim_time := sim_time g + n, sim_hold := sim_hold g - n\<rparr>
      else g\<lparr>sim_hold := sim_hold g - n\<rparr>)"

definition sim :: "onewire_addr_t list \<Rightarrow> byte list \<Rightarrow> sim_bus gpiodev" where
  "sim ds fr = \<lparr>gpio_enable = (\<lambda>_ _ g. g), gpio_set_pullup = (\<lambda>_ _ _ g. g), gpio_write = (\<lambda>_. sim_write ds fr),
     gpio_read = (\<lambda>_ g. (\<not> sim_low g \<and> sim_hold g = 0, g)), os_delay_us = sim_delay,
     ENTER_CRITICAL = (\<lambda>g. g), EXIT_CRITICAL = (\<lambda>g. g), vTaskDelay_ms = (\<lambda>n. sim_delay (1000 * n))\<rparr>"

definition sim_released :: "sim_phase \<Rightarrow> sim_bus" where
  "sim_released p = \<lparr>sim_low = False, sim_time = 0, sim_hold = 0, sim_phase = p\<rparr>"

section \<open>The slots of the simulated bus\<close>

lemma sim_ops [simp]:
  "gpio_enable (sim ds fr) pin m g = g" "gpio_write (sim ds fr) pin v g = sim_write ds fr v g"
  "gpio_read (sim ds fr) pin g = (\<not> sim_low g \<and> sim_hold g = 0, g)" "os_delay_us (sim ds fr) n g = sim_delay n g"
  "ENTER_CRITICAL (sim ds fr) g = g" "EXIT_CRITICAL (sim ds fr) g = g"
  by (simp_all add: sim_def)

lemma sim_wait [simp]: "onewire_wait_for_bus (sim ds fr) pin n (sim_released p) = (True, sim_released p)"
  by (cases "(n + 4) div 5") (simp_all add: onewire_wait_for_bus_def sim_released_def sim_delay_def)

lemma sim_wait_hold:
  "onewire_wait_for_bus (sim ds fr) pin n \<lparr>sim_low = False, sim_time = 0, sim_hold = h, sim_phase = p\<rparr> = (True, sim_released p)"
  if "h \<le> 5 * ((n + 4) div 5)"
proof -
  have "wait_loop (sim ds fr) pin k \<lparr>sim_low = False, sim_time = 0, sim_hold = h, sim_phase = p\<rparr> = sim_released p"
    if "h \<le> 5 * k" for k h
    using that
  proof (induction k arbitrary: h)
    case (Suc k)
    then show ?case by (auto simp: sim_delay_def sim_released_def)
  qed (simp add: sim_released_def)
  from this[OF that] show ?thesis
    by (simp add: onewire_wait_for_bus_def) (simp add: sim_delay_def sim_released_def)
qed

lemma sim_write_bit:
  assumes "fst (sim_slot ds fr v p) = 0"
  shows "onewire_write_bit (sim ds fr) pin v (sim_released p) = (True, sim_released (snd (sim_slot ds fr v p)))"
  using assms by (cases "sim_slot ds fr v p"; cases v)
    (simp_all add: onewire_write_bit_def Let_def, simp_all add: sim_released_def sim_delay_def sim_write_def sim_release_def)

lemma sim_read_bit:
  assumes "fst (sim_slot ds fr True p) = (if b then 0 else 25)"
  shows "onewire_read_bit (sim ds fr) pin (sim_released p) = (if b then 1 else 0, sim_released (snd (sim_slot ds fr True p)))"
  using assms by (cases "sim_slot ds fr True p"; cases b)
    (simp_all add: onewire_read_bit_def Let_def, simp_all add: sim_released_def sim_delay_def sim_write_def sim_release_def)

lemma sim_reset: "onewire_reset (sim ds fr) pin (sim_released p) = (ds \<noteq> [], sim_released (Sim_Command []))"
proof -
  have up: "sim_write ds fr True (sim_released p) = sim_released p" by (simp add: sim_write_def sim_released_def)
  have pulse: "sim_delay 70 (sim_write ds fr True (sim_delay 480 (sim_write ds fr False (sim_released p)))) =
      \<lparr>sim_low = False, sim_time = 0, sim_hold = (if ds = [] then 0 else 50), sim_phase = Sim_Command []\<rparr>"
    by (simp add: sim_write_def sim_released_def sim_delay_def sim_release_def)
  show ?thesis by (simp add: onewire_reset_def up pulse Let_def sim_wait_hold)
qed

text \<open>Writing the bits \<open>vs\<close> in phase \<open>p\<close>: the phase after them, \<open>None\<close> if a device drives the line meanwhile.\<close>

fun sim_run :: "onewire_addr_t list \<Rightarrow> byte list \<Rightarrow> bool list \<Rightarrow> sim_phase \<Rightarrow> sim_phase option" where
  "sim_run ds fr [] p = Some p"
| "sim_run ds fr (v # vs) p = (case sim_slot ds fr v p of (h, q) \<Rightarrow> if h = 0 then sim_run ds fr vs q else None)"

lemma sim_run_append: "sim_run ds fr (vs @ ws) p = (case sim_run ds fr vs p of None \<Rightarrow> None | Some q \<Rightarrow> sim_run ds fr ws q)"
  by (induction vs arbitrary: p) (auto split: prod.splits)

lemma bit_test: "i < 8 \<Longrightarrow> push_bit i 1 AND (v :: byte) \<noteq> 0 \<longleftrightarrow> bit v i"
  using and_exp_eq_0_iff_not_bit[of v i] by (simp add: and.commute)

lemma sim_write_bits:
  "sim_run ds fr (map (bit v) [i..<i + k]) p = Some q \<Longrightarrow> i + k \<le> 8 \<Longrightarrow>
    onewire_write_bits (sim ds fr) pin v i k (sim_released p) = (True, sim_released q)"
proof (induction k arbitrary: i p)
  case (Suc k)
  have u: "[i..<i + Suc k] = i # [Suc i..<Suc i + k]" by (simp add: upt_rec)
  from Suc.prems(1) have "fst (sim_slot ds fr (bit v i) p) = 0"
    "sim_run ds fr (map (bit v) [Suc i..<Suc i + k]) (snd (sim_slot ds fr (bit v i) p)) = Some q"
    unfolding u by (auto split: prod.splits if_splits)
  then have "onewire_write_bits (sim ds fr) pin v (Suc i) k (sim_released (snd (sim_slot ds fr (bit v i) p))) = (True, sim_released q)"
    and "onewire_write_bit (sim ds fr) pin (push_bit i 1 AND v \<noteq> 0) (sim_released p) =
      (True, sim_released (snd (sim_slot ds fr (bit v i) p)))"
    using Suc.IH[of "Suc i"] Suc.prems(2) bit_test[of i v] by (simp_all add: sim_write_bit)
  then show ?case by simp
qed simp

lemma sim_write_byte:
  "sim_run ds fr (byte_bits v) p = Some q \<Longrightarrow> onewire_write (sim ds fr) pin v (sim_released p) = (True, sim_released q)"
  using sim_write_bits[of ds fr v 0 8] by (simp add: onewire_write_def byte_bits_def)

lemma command_bits:
  "byte_bits ONEWIRE_SEARCH = [False, False, False, False, True, True, True, True]"
  "byte_bits ONEWIRE_SKIP_ROM = [False, False, True, True, False, False, True, True]"
  "byte_bits DS18B20_READ_SCRATCHPAD = [False, True, True, True, True, True, False, True]"
  unfolding byte_bits_def ONEWIRE_SEARCH_def ONEWIRE_SKIP_ROM_def DS18B20_READ_SCRATCHPAD_def by code_simp+

lemma sim_search:
  "onewire_write (sim ds fr) pin ONEWIRE_SEARCH (sim_released (Sim_Command [])) = (True, sim_released (Sim_Bit ds 0))"
  by (rule sim_write_byte) (simp add: command_bits)

definition sim_searching :: "sim_bus \<Rightarrow> onewire_addr_t set \<Rightarrow> nat \<Rightarrow> bool" where
  "sim_searching g P i \<longleftrightarrow> (\<exists>ps. g = sim_released (Sim_Bit ps i) \<and> set ps = P)"

definition sim_choosing :: "sim_bus \<Rightarrow> onewire_addr_t set \<Rightarrow> nat \<Rightarrow> bool" where
  "sim_choosing g P i \<longleftrightarrow> (\<exists>ps. g = sim_released (Sim_Choice ps i) \<and> set ps = P)"

interpretation sim: onewire_bus "sim ds fr" pin "set ds" "\<lambda>g. \<exists>p. g = sim_released p"
  "\<lambda>g. g = sim_released (Sim_Command [])" sim_searching sim_choosing
proof
  fix g P i
  assume "sim_searching g P i" and "P \<noteq> {}"
  then obtain ps where "g = sim_released (Sim_Bit ps i)" "set ps = P" by (auto simp: sim_searching_def)
  then show "\<exists>g1 g2. onewire_read_bit (sim ds fr) pin g = (if \<forall>r \<in> P. bit r i then 1 else 0, g1)
    \<and> onewire_read_bit (sim ds fr) pin g1 = (if \<forall>r \<in> P. \<not> bit r i then 1 else 0, g2) \<and> sim_choosing g2 P i"
    using sim_read_bit[of ds fr "Sim_Bit ps i" "\<forall>r \<in> P. bit r i" pin]
      sim_read_bit[of ds fr "Sim_Complement ps i" "\<forall>r \<in> P. \<not> bit r i" pin]
    by (simp add: list_all_iff sim_choosing_def) blast
next
  fix g P i v
  assume "sim_choosing g P i"
  then obtain ps where "g = sim_released (Sim_Choice ps i)" "set ps = P" by (auto simp: sim_choosing_def)
  then show "\<exists>ok g'. onewire_write_bit (sim ds fr) pin v g = (ok, g') \<and> sim_searching g' {r \<in> P. bit r i = v} (Suc i)"
    using sim_write_bit[of ds fr v "Sim_Choice ps i" pin]
    by (auto simp: sim_searching_def)
next
  fix g :: sim_bus
  assume "g = sim_released (Sim_Command [])"
  then show "\<exists>ok g'. onewire_write (sim ds fr) pin ONEWIRE_SEARCH g = (ok, g') \<and> sim_searching g' (set ds) 0"
    using sim_search by (auto simp: sim_searching_def)
qed (auto simp: sim_reset sim_searching_def)

section \<open>The scan\<close>

text \<open>What the loop leaves in the caller's array of \<open>n\<close> entries.\<close>

context onewire_bus
begin

lemma scan_loop_finds:
  assumes "\<And>d. d \<in> D \<Longrightarrow> (ucast d :: byte) \<noteq> 0 \<and> d \<noteq> ONEWIRE_NONE" and "ready g" and "length (rom_no s) = 8"
    and "last_discrepancy s = 0 \<or> rom_found s \<in> D \<and> last_discrepancy s = lz D (rom_found s) 64"
    and "length al = n" and "D = {} \<longrightarrow> last_discrepancy s = 0"
  shows "\<exists>xs g'. scan_loop gp pin s al n found g =
      Some (found + length xs, take n (take found al @ xs) @ drop (found + length xs) al, g')
    \<and> distinct xs \<and> set xs = remaining s \<and> ready g'"
  using assms(2-6)
proof (induction "card (remaining s)" arbitrary: s g al found)
  case 0
  have "finite (remaining s)" using finite_devices by (simp add: remaining_def above_def)
  with 0 have e: "remaining s = {}" by simp
  have "\<exists>s' g'. onewire_search_next gp pin s g = (ONEWIRE_NONE, s', g') \<and> ready g'"
  proof (cases "last_device_found s")
    case True
    then show ?thesis using search_next_over[OF True] 0(2) by auto
  next
    case False
    then have "D = {}" using e lz_more[of D "rom_found s"] 0 by (auto simp: remaining_def split: if_splits)
    then show ?thesis using search_next_nobody[OF 0(2) _ False] by metis
  qed
  moreover have "al = take n (take found al) @ drop found al" using 0(5) by (cases "found \<le> n") simp_all
  ultimately show ?case using e by (subst scan_loop.simps) (auto intro!: exI[of _ "[]"])
next
  case (Suc k)
  have fin: "finite (remaining s)" using finite_devices by (simp add: remaining_def above_def)
  have "remaining s \<noteq> {}" using Suc.hyps(2) by auto
  from search_next_remaining[OF Suc.prems(1) _ Suc.prems(2,3) this] assms(1)
  obtain s' g' where n: "onewire_search_next gp pin s g = (rom_found s', s', g')" and r: "ready g'"
    and m: "rom_found s' \<in> remaining s" "remaining s' = remaining s - {rom_found s'}"
    and l: "length (rom_no s') = 8" "rom_found s' \<in> D \<and> last_discrepancy s' = lz D (rom_found s') 64" by metis
  let ?a = "rom_found s'" and ?al = "if found < n then al[found := rom_found s'] else al"
  have "k = card (remaining s')" using Suc.hyps(2) m fin by simp
  moreover have "length ?al = n" using Suc.prems(4) by simp
  moreover have "D = {} \<longrightarrow> last_discrepancy s' = 0" using l(2) by auto
  ultimately obtain xs g2 where x: "scan_loop gp pin s' ?al n (found + 1) g' =
      Some (found + 1 + length xs, take n (take (found + 1) ?al @ xs) @ drop (found + 1 + length xs) ?al, g2)"
    "distinct xs" "set xs = remaining s'" "ready g2" using Suc.hyps(1)[of s' g' ?al "found + 1"] r l by blast
  have "take n (take (found + 1) ?al @ xs) @ drop (found + 1 + length xs) ?al =
      take n (take found al @ ?a # xs) @ drop (found + length (?a # xs)) al"
    using Suc.prems(4) by (auto simp: take_Suc_conv_app_nth drop_update_cancel take_Cons')
  moreover have "?a \<noteq> ONEWIRE_NONE" using assms(1) l(2) by auto
  ultimately have "scan_loop gp pin s al n found g =
      Some (found + length (?a # xs), take n (take found al @ ?a # xs) @ drop (found + length (?a # xs)) al, g2)"
    using x(1) n by (subst scan_loop.simps) simp
  then show ?case using x(2-4) m by (intro exI[of _ "?a # xs"]) auto
qed

end

section \<open>The scratchpad\<close>

lemma crc8_loop_inject: "crc8_loop a xs = crc8_loop b xs \<Longrightarrow> a = b"
proof (induction xs arbitrary: a b)
  case (Cons x xs)
  then have "crc8_bits 8 (a XOR x) 0 = crc8_bits 8 (b XOR x) 0" by (simp add: crc8_byte[of _ x])
  then have "crc8_bits 8 ((a XOR x) XOR (b XOR x)) 0 = 0" by (simp add: crc8_bits_linear)
  then show ?case using crc8_bits_zero[of 8 "(a XOR x) XOR (b XOR x)"] by (simp add: xor_zero_iff xor_right_cancel)
qed simp

lemma crc8_one_byte:
  assumes "k < length xs" and "onewire_crc8 (xs[k := b]) = onewire_crc8 xs"
  shows "b = xs ! k"
proof -
  have e: "onewire_crc8 (take k xs @ c # drop (Suc k) xs) =
      crc8_loop (crc8_bits 8 (crc8_loop 0 (take k xs) XOR c) 0) (drop (Suc k) xs)" for c
    by (simp add: onewire_crc8_def crc8_loop_append crc8_byte[of _ c])
  let ?c = "crc8_loop 0 (take k xs)"
  have "crc8_bits 8 (?c XOR b) 0 = crc8_bits 8 (?c XOR xs ! k) 0"
    using assms e[of b] e[of "xs ! k"] crc8_loop_inject by (metis id_take_nth_drop upd_conv_take_nth_drop)
  then have "crc8_bits 8 ((?c XOR b) XOR (?c XOR xs ! k)) 0 = 0" by (simp add: crc8_bits_linear)
  then show ?thesis using crc8_bits_zero[of 8 "(?c XOR b) XOR (?c XOR xs ! k)"]
    by (simp add: xor_zero_iff xor.commute[of ?c] xor_right_cancel)
qed

lemma read_loop_snoc:
  "read_loop gp pin (Suc n) g = (case read_loop gp pin n g of (bs, g1) \<Rightarrow>
     (case onewire_read gp pin g1 of (b, g2) \<Rightarrow> (bs @ [word_of_int b], g2)))"
proof (induction n arbitrary: g)
  case (Suc n)
  obtain b g1 where 1: "onewire_read gp pin g = (b, g1)" by fastforce
  obtain bs g2 where 2: "read_loop gp pin n g1 = (bs, g2)" by fastforce
  obtain c g3 where 3: "onewire_read gp pin g2 = (c, g3)" by fastforce
  have "read_loop gp pin (Suc n) g1 = (bs @ [word_of_int c], g3)" unfolding Suc.IH by (simp add: 2 3)
  then show ?case using 1 2 3 by simp
qed (auto split: prod.splits)

lemma read_loop_length: "length (fst (read_loop gp pin n g)) = n"
  by (induction n arbitrary: g) (simp_all add: case_prod_beta)

lemma raw_temp_value: "temp_celsius (raw_temp bs) = (of_nat (unat (bs ! 0)) + 256 * of_nat (unat (bs ! 1))) / 16"
proof -
  have "unat (raw_temp bs) = unat (bs ! 0) + 256 * unat (bs ! 1)"
    using unat_of_le16[of "bs ! 0" "bs ! 1"] by (simp add: raw_temp_def of_le16_def or.commute)
  then show ?thesis by (simp add: temp_celsius_def)
qed

lemma read_temperature_frame:
  assumes "onewire_reset gp pin g = (True, g1)"
    and "read_loop gp pin 9 (snd (onewire_write gp pin DS18B20_READ_SCRATCHPAD (select_any gp pin addr g1))) = (frame, g2)"
  shows "ds18b20_read_temperature gp pin addr g =
    (if frame ! 8 = onewire_crc8 (take 8 frame) then Some (temp_celsius (raw_temp (take 8 frame))) else None, g2)"
proof -
  let ?g = "snd (onewire_write gp pin DS18B20_READ_SCRATCHPAD (select_any gp pin addr g1))"
  obtain bs g3 where r: "read_loop gp pin 8 ?g = (bs, g3)" by fastforce
  obtain c g4 where c: "onewire_read gp pin g3 = (c, g4)" by fastforce
  have l: "length bs = 8" using read_loop_length[of gp pin 8 ?g] r by simp
  have "(frame, g2) = (bs @ [word_of_int c], g4)"
    using assms(2) read_loop_snoc[of gp pin 8 ?g] r c by simp
  with l show ?thesis
    using assms(1) r c by (simp add: ds18b20_read_temperature_def ds18b20_read_scratchpad_def nth_append)
qed

section \<open>A sensor on the line\<close>

text \<open>The slots of one DS18B20 on the bus, from its data sheet. It answers a reset and then listens: \<open>hearing bs\<close> says that \<open>bs\<close> are the bits
  written since. After the bits of Skip ROM and Read Scratchpad it answers read slots, with the bits \<open>frame\<close> of its scratchpad as they
  arrive at the master.\<close>

definition scratchpad_command :: "bool list" where
  "scratchpad_command = byte_bits ONEWIRE_SKIP_ROM @ byte_bits DS18B20_READ_SCRATCHPAD"

locale ds18b20_line =
  fixes gp :: "'g gpiodev" and pin :: nat and frame :: "byte list"
    and ready :: "'g \<Rightarrow> bool" and hearing sending :: "bool list \<Rightarrow> 'g \<Rightarrow> bool"
  assumes presence: "ready g \<Longrightarrow> \<exists>g'. onewire_reset gp pin g = (True, g') \<and> hearing [] g'"
    and hear: "hearing bs g \<Longrightarrow> scratchpad_command = bs @ v # rest \<Longrightarrow> \<exists>g'. onewire_write_bit gp pin v g = (True, g') \<and> hearing (bs @ [v]) g'"
    and asked: "hearing scratchpad_command g \<Longrightarrow> sending (concat (map byte_bits frame)) g"
    and send: "sending (b # bs) g \<Longrightarrow> \<exists>g'. onewire_read_bit gp pin g = (if b then 1 else 0, g') \<and> sending bs g'"
    and sending_ready: "sending bs g \<Longrightarrow> ready g"
begin

lemma hear_bits:
  "hearing bs g \<Longrightarrow> scratchpad_command = bs @ map (bit v) [i..<i + k] @ rest \<Longrightarrow> i + k \<le> 8 \<Longrightarrow>
    \<exists>g'. onewire_write_bits gp pin v i k g = (True, g') \<and> hearing (bs @ map (bit v) [i..<i + k]) g'"
proof (induction k arbitrary: i g bs)
  case (Suc k)
  have u: "[i..<i + Suc k] = i # [Suc i..<Suc i + k]" by (simp add: upt_rec)
  obtain g1 where g1: "onewire_write_bit gp pin (bit v i) g = (True, g1)" "hearing (bs @ [bit v i]) g1"
    using hear[OF Suc.prems(1)] Suc.prems(2) unfolding u by fastforce
  obtain g2 where "onewire_write_bits gp pin v (Suc i) k g1 = (True, g2)" "hearing ((bs @ [bit v i]) @ map (bit v) [Suc i..<Suc i + k]) g2"
    using Suc.IH[OF g1(2), of "Suc i"] Suc.prems(2,3) unfolding u by auto
  then show ?case using g1(1) Suc.prems(3) bit_test[of i v] unfolding u by simp
qed simp

lemma hear_byte:
  assumes "hearing bs g" and "scratchpad_command = bs @ byte_bits v @ rest"
  shows "\<exists>g'. onewire_write gp pin v g = (True, g') \<and> hearing (bs @ byte_bits v) g'"
  using hear_bits[OF assms(1), of v 0 8 rest] assms(2) by (simp add: onewire_write_def byte_bits_def)

lemma send_bits:
  "sending (map (bit (b :: byte)) [i..<i + k] @ bs) g \<Longrightarrow> i + k \<le> 8 \<Longrightarrow>
    \<exists>g'. onewire_read_bits gp pin i k r g = (uint (r OR (push_bit i (take_bit k (drop_bit i b)))), g') \<and> sending bs g'"
proof (induction k arbitrary: i r g)
  case (Suc k)
  let ?r = "if bit b i then r OR push_bit i 1 else r"
  have u: "[i..<i + Suc k] = i # [Suc i..<Suc i + k]" by (simp add: upt_rec)
  have "?r OR push_bit (Suc i) (take_bit k (drop_bit (Suc i) b)) = r OR push_bit i (take_bit (Suc k) (drop_bit i b))"
  proof (rule bit_word_eqI)
    fix n assume "n < LENGTH(8)"
    have "n = i \<or> Suc i \<le> n \<or> n < i" by linarith
    then show "bit (?r OR push_bit (Suc i) (take_bit k (drop_bit (Suc i) b))) n =
        bit (r OR push_bit i (take_bit (Suc k) (drop_bit i b))) n"
      using \<open>n < LENGTH(8)\<close> by (auto simp: bit_simps simp del: push_bit_Suc)
  qed
  moreover obtain g1 where "onewire_read_bit gp pin g = (if bit b i then 1 else 0, g1)" "sending (map (bit b) [Suc i..<Suc i + k] @ bs) g1"
    using send[of "bit b i" "map (bit b) [Suc i..<Suc i + k] @ bs" g] Suc.prems(1) unfolding u by auto
  ultimately show ?case using Suc.IH[of "Suc i" g1 ?r] Suc.prems(2) by (cases "bit b i") simp_all
qed simp

lemma send_byte:
  assumes "sending (byte_bits b @ bs) g"
  shows "\<exists>g'. onewire_read gp pin g = (uint b, g') \<and> sending bs g'"
  using send_bits[of b 0 8 bs g 0] assms take_bit_length_eq[of b] by (simp add: onewire_read_def byte_bits_def)

lemma send_frame:
  "sending (concat (map byte_bits fs)) g \<Longrightarrow> \<exists>g'. read_loop gp pin (length fs) g = (fs, g') \<and> sending [] g'"
proof (induction fs arbitrary: g)
  case (Cons f fs)
  obtain g1 where "onewire_read gp pin g = (uint f, g1)" "sending (concat (map byte_bits fs)) g1"
    using send_byte[of f "concat (map byte_bits fs)" g] Cons.prems by auto
  then show ?case using Cons.IH[of g1] by auto
qed simp

lemma frame_read:
  assumes "ready g" and "length frame = 9"
  shows "\<exists>g1 g'. onewire_reset gp pin g = (True, g1) \<and> sending [] g'
    \<and> read_loop gp pin 9 (snd (onewire_write gp pin DS18B20_READ_SCRATCHPAD (select_any gp pin DS18B20_ANY g1))) = (frame, g')"
proof -
  obtain g1 where g1: "onewire_reset gp pin g = (True, g1)" "hearing [] g1" using presence[OF assms(1)] by blast
  obtain g2 where g2: "onewire_write gp pin ONEWIRE_SKIP_ROM g1 = (True, g2)" "hearing (byte_bits ONEWIRE_SKIP_ROM) g2"
    using hear_byte[OF g1(2), of ONEWIRE_SKIP_ROM] by (auto simp: scratchpad_command_def)
  obtain g3 where g3: "onewire_write gp pin DS18B20_READ_SCRATCHPAD g2 = (True, g3)" "hearing scratchpad_command g3"
    using hear_byte[OF g2(2), of DS18B20_READ_SCRATCHPAD "[]"] by (auto simp: scratchpad_command_def)
  obtain g' where "read_loop gp pin 9 g3 = (frame, g')" "sending [] g'" using send_frame[OF asked[OF g3(2)]] assms(2) by auto
  then show ?thesis using g1(1) g2(1) g3(1) by (auto simp: select_any_def onewire_skip_rom_def)
qed

end

text \<open>The simulated device keeps the contract.\<close>

lemma sim_command: "sim_run ds fr scratchpad_command (Sim_Command []) = Some (Sim_Send (concat (map byte_bits fr)))"
  by (simp add: scratchpad_command_def command_bits)

interpretation sim_line: ds18b20_line "sim [d] fr" pin fr "\<lambda>g. \<exists>p. g = sim_released p"
  "\<lambda>bs g. \<exists>p. g = sim_released p \<and> sim_run [d] fr bs (Sim_Command []) = Some p" "\<lambda>bs g. g = sim_released (Sim_Send bs)"
proof
  fix bs v rest g
  assume "\<exists>p. g = sim_released p \<and> sim_run [d] fr bs (Sim_Command []) = Some p" and c: "scratchpad_command = bs @ v # rest"
  then obtain p where p: "g = sim_released p" "sim_run [d] fr bs (Sim_Command []) = Some p" by blast
  have z: "fst (sim_slot [d] fr v p) = 0" using sim_command[of "[d]" fr] p(2) unfolding c sim_run_append by (auto split: prod.splits if_splits)
  then have "sim_run [d] fr (bs @ [v]) (Sim_Command []) = Some (snd (sim_slot [d] fr v p))"
    using p(2) unfolding sim_run_append by (cases "sim_slot [d] fr v p") simp
  then show "\<exists>g'. onewire_write_bit (sim [d] fr) pin v g = (True, g')
      \<and> (\<exists>q. g' = sim_released q \<and> sim_run [d] fr (bs @ [v]) (Sim_Command []) = Some q)"
    using sim_write_bit[OF z, of pin] p(1) by auto
next
  fix b bs g assume "g = sim_released (Sim_Send (b # bs))"
  then show "\<exists>g'. onewire_read_bit (sim [d] fr) pin g = (if b then 1 else 0, g') \<and> g' = sim_released (Sim_Send bs)"
    using sim_read_bit[of "[d]" fr "Sim_Send (b # bs)" b pin] by simp
qed (auto simp: sim_reset sim_command)

section \<open>Properties\<close>

text \<open>C9: On every bus that keeps the 1-Wire slot protocol, with devices whose family code is not zero
  and whose ROM is not the reserved all-ones address, \<open>ds18b20_scan_devices\<close> terminates and returns the
  number of devices, and the array holds the first of them, each device exactly once: the whole
  bus is enumerated without repetition, and entries past the capacity given are not written.\<close>

theorem scan_devices_finds_all:
  assumes "onewire_bus gp pin D ready commanded searching choosing"
    and "\<And>d. d \<in> D \<Longrightarrow> (ucast d :: byte) \<noteq> 0 \<and> d \<noteq> ONEWIRE_NONE"
    and "ready g" and "length addr_list = addr_count"
  shows "\<exists>xs g'. ds18b20_scan_devices gp pin addr_list addr_count g =
      Some (card D, take addr_count xs @ drop (card D) addr_list, g')
    \<and> distinct xs \<and> set xs = D \<and> ready g'"
proof -
  have start: "onewire_bus.remaining D onewire_search_start = D" "length (rom_no onewire_search_start) = 8"
    "last_discrepancy onewire_search_start = 0"
    using onewire_bus.remaining_def[OF assms(1)] by (simp_all add: onewire_search_start_def)
  from onewire_bus.scan_loop_finds[OF assms(1,2,3) start(2) _ assms(4), where found = 0] start
  obtain xs g' where "scan_loop gp pin onewire_search_start addr_list addr_count 0 g =
      Some (length xs, take addr_count xs @ drop (length xs) addr_list, g')" "distinct xs" "set xs = D" "ready g'" by auto
  then show ?thesis using distinct_card[of xs] by (auto simp: ds18b20_scan_devices_def)
qed

theorem scan_devices_finds_all_witness:
  "\<exists>xs g'. ds18b20_scan_devices (sim [0x3c00000123456728, 0x5a00000123456728, 0x1100000000000010] []) 4 [7, 7] 2 (sim_released Sim_Idle) =
      Some (3, take 2 xs, g')
    \<and> distinct xs \<and> set xs = {0x3c00000123456728, 0x5a00000123456728, 0x1100000000000010}"
proof -
  let ?ds = "[0x3c00000123456728, 0x5a00000123456728, 0x1100000000000010] :: onewire_addr_t list"
  have "(ucast d :: byte) \<noteq> 0 \<and> d \<noteq> ONEWIRE_NONE" if "d \<in> set ?ds" for d
    using that by (auto simp: ONEWIRE_NONE_def)
  moreover have "\<exists>p. sim_released Sim_Idle = sim_released p" by blast
  ultimately have "\<exists>xs g'. ds18b20_scan_devices (sim ?ds []) 4 [7, 7] 2 (sim_released Sim_Idle) =
      Some (card (set ?ds), take 2 xs @ drop (card (set ?ds)) [7, 7], g') \<and> distinct xs \<and> set xs = set ?ds \<and> (\<exists>p. g' = sim_released p)"
    by (intro scan_devices_finds_all[OF sim.onewire_bus_axioms]) simp_all
  then obtain xs g' where "ds18b20_scan_devices (sim ?ds []) 4 [7, 7] 2 (sim_released Sim_Idle) =
      Some (card (set ?ds), take 2 xs @ drop (card (set ?ds)) [7, 7], g')" "distinct xs" "set xs = set ?ds" by blast
  moreover have "card (set ?ds) = 3" by simp
  ultimately show ?thesis by (intro exI[of _ xs] exI[of _ g']) (simp only: set_simps, simp)
qed

text \<open>The temperature in a scratchpad, from the data sheet: a count of sixteenths of a degree in two's complement.\<close>

definition sensor_celsius :: "byte list \<Rightarrow> rat" where
  "sensor_celsius sent = (of_nat (unat (sent ! 0)) + 256 * of_nat (unat (sent ! 1)) - (if 128 \<le> unat (sent ! 1) then 65536 else 0)) / 16"

lemma temp_celsius_sensor: "temp_celsius (raw_temp sent) = sensor_celsius sent + (if sensor_celsius sent < 0 then 4096 else 0)"
proof -
  have b: "unat (sent ! 0) < 256" "unat (sent ! 1) < 256" using unsigned_less[of "sent ! 0"] unsigned_less[of "sent ! 1"] by simp_all
  have n: "sensor_celsius sent < 0 \<longleftrightarrow> 128 \<le> unat (sent ! 1)"
  proof (cases "128 \<le> unat (sent ! 1)")
    case True
    have "unat (sent ! 0) + 256 * unat (sent ! 1) < 65536" using b by linarith
    then have "(of_nat (unat (sent ! 0) + 256 * unat (sent ! 1)) :: rat) < 65536" by (metis of_nat_less_iff of_nat_numeral)
    then show ?thesis using True by (simp add: sensor_celsius_def)
  next
    case False
    have "(0 :: rat) \<le> of_nat (unat (sent ! 0) + 256 * unat (sent ! 1))" by (rule of_nat_0_le_iff)
    then show ?thesis using False by (simp add: sensor_celsius_def)
  qed
  show ?thesis unfolding n raw_temp_value by (simp add: sensor_celsius_def field_simps)
qed

lemma checksum_one_byte:
  assumes "onewire_crc8 (take 8 sent) = sent ! 8" and "length sent = 9" and "k < 9"
  shows "sent[k := b] ! 8 = onewire_crc8 (take 8 (sent[k := b])) \<longleftrightarrow> b = sent ! k"
proof (cases "k = 8")
  case True
  then show ?thesis using assms(1,2) by auto
next
  case False
  then have "take 8 (sent[k := b]) = (take 8 sent)[k := b]" "k < 8" using assms(3) by (auto simp: take_update_swap)
  moreover have "onewire_crc8 ((take 8 sent)[k := b]) = onewire_crc8 (take 8 sent) \<longleftrightarrow> b = sent ! k"
    using crc8_one_byte[of k "take 8 sent" b] assms(2) \<open>k < 8\<close> list_update_id[of "take 8 sent" k] by auto
  ultimately show ?thesis using assms(1) by auto
qed

lemma read_temperature_sent:
  assumes "ds18b20_line gp pin (sent[k := b]) ready hearing sending" and "ready g"
    and "onewire_crc8 (take 8 sent) = sent ! 8" and "length sent = 9" and "k < 9"
  shows "\<exists>g'. ds18b20_read_temperature gp pin DS18B20_ANY g = (if b = sent ! k then Some (temp_celsius (raw_temp sent)) else None, g') \<and> ready g'"
proof -
  have "length (sent[k := b]) = 9" using assms(4) by simp
  from ds18b20_line.frame_read[OF assms(1,2) this] obtain g1 g' where f: "onewire_reset gp pin g = (True, g1)" "sending [] g'"
      "read_loop gp pin 9 (snd (onewire_write gp pin DS18B20_READ_SCRATCHPAD (select_any gp pin DS18B20_ANY g1))) = (sent[k := b], g')"
    by blast
  have "temp_celsius (raw_temp (take 8 sent)) = temp_celsius (raw_temp sent)" using assms(4) by (simp add: raw_temp_def)
  then show ?thesis
    using read_temperature_frame[OF f(1,3)] checksum_one_byte[OF assms(3-5), of b] ds18b20_line.sending_ready[OF assms(1) f(2)] by auto
qed

text \<open>Below zero the reading is off by 4096 degrees.\<close>

lemma read_temperature_negative:
  assumes "ds18b20_line gp pin sent ready hearing sending" and "ready g"
    and "onewire_crc8 (take 8 sent) = sent ! 8" and "length sent = 9" and "sensor_celsius sent < 0"
  shows "\<exists>g'. ds18b20_read_temperature gp pin DS18B20_ANY g = (Some (sensor_celsius sent + 4096), g')"
  using read_temperature_sent[of gp pin sent 0 "sent ! 0" ready hearing sending g] assms by (auto simp: temp_celsius_sensor)

text \<open>C17: A temperature of zero or more is read as it is, or as \<^verbatim>\<open>NAN\<close>. On every line on which one sensor keeps the slot protocol of its data
  sheet, let the sensor send the nine bytes \<open>sent\<close> of a scratchpad with a right checksum and a temperature that is not
  negative, of which at most the byte at \<open>k\<close> arrives changed, to \<open>b\<close>. Then \<open>ds18b20_read_temperature\<close>, called with \<^verbatim>\<open>DS18B20_ANY\<close>,
  returns the temperature in degrees Celsius when the byte arrived intact, and \<^verbatim>\<open>NAN\<close> for every corruption of it, and the bus is
  ready for the next call.\<close>

theorem read_temperature_checked:
  assumes "ds18b20_line gp pin (sent[k := b]) ready hearing sending" and "ready g"
    and "onewire_crc8 (take 8 sent) = sent ! 8" and "length sent = 9" and "k < 9" and "0 \<le> sensor_celsius sent"
  shows "\<exists>g'. ds18b20_read_temperature gp pin DS18B20_ANY g = (if b = sent ! k then Some (sensor_celsius sent) else None, g') \<and> ready g'"
proof -
  have "temp_celsius (raw_temp sent) = sensor_celsius sent" using assms(6) by (simp add: temp_celsius_sensor)
  then show ?thesis using read_temperature_sent[OF assms(1-5)] by (simp only:)
qed

theorem read_temperature_checked_witness:
  "(\<exists>g'. ds18b20_read_temperature (sim [5] [0x91, 0x01, 0x4b, 0x46, 0x7f, 0xff, 0x0f, 0x10, 0x25]) 4 DS18B20_ANY (sim_released Sim_Idle) =
     (Some (401 / 16), g'))
   \<and> (\<exists>g'. ds18b20_read_temperature (sim [5] [0x91, 0x01, 0x4b, 0x46, 0x7f, 0xff, 0x0d, 0x10, 0x25]) 4 DS18B20_ANY (sim_released Sim_Idle) =
     (None, g'))"
proof -
  let ?s = "[0x91, 0x01, 0x4b, 0x46, 0x7f, 0xff, 0x0f, 0x10, 0x25] :: byte list"
  have c: "onewire_crc8 (take 8 ?s) = ?s ! 8" by (simp add: onewire_crc8_def Let_def) code_simp
  have t: "sensor_celsius ?s = 401 / 16" by (simp add: sensor_celsius_def)
  have u: "?s[6 := 0x0f] = ?s" "?s[6 := 0x0d] = [0x91, 0x01, 0x4b, 0x46, 0x7f, 0xff, 0x0d, 0x10, 0x25]" by simp_all
  have l: "length ?s = 9" "6 < (9 :: nat)" "0 \<le> sensor_celsius ?s" by (simp_all add: t)
  have "\<exists>g'. ds18b20_read_temperature (sim [5] (?s[6 := b])) 4 DS18B20_ANY (sim_released Sim_Idle) =
    (if b = ?s ! 6 then Some (sensor_celsius ?s) else None, g')" for b
    using read_temperature_checked[OF sim_line.ds18b20_line_axioms _ c l, of "sim_released Sim_Idle"] by blast
  from this[of "0x0f"] this[of "0x0d"] show ?thesis unfolding u t by simp
qed

end
