(* ===== verification/I2C.thy ===== *)
theory I2C
  imports Gpio
begin

text \<open>
  The bit-banged I2C master, \<^verbatim>\<open>src/extras/i2c/i2c.c\<close>, function by function: its file-scope
  variables are a record that also holds the state of the pins. Both lines are open drain with the output
  latch at zero, so a pin configured as an input is released and one configured as an output is
  pulled low. The messages about lost arbitration are not modelled; nothing depends on them.
\<close>

record 'g i2c_state =
  started :: bool
  g_scl_pin :: nat
  g_sda_pin :: nat
  i2c_pins :: 'g

definition CLK_HALF_PERIOD_US :: nat where "CLK_HALF_PERIOD_US = 1"
definition CLK_STRETCH :: nat where "CLK_STRETCH = 10"

definition i2c_init :: "'g gpiodev \<Rightarrow> nat \<Rightarrow> nat \<Rightarrow> 'g i2c_state \<Rightarrow> 'g i2c_state" where
  "i2c_init gp scl_pin sda_pin s =
     s\<lparr>started := False, g_scl_pin := scl_pin, g_sda_pin := sda_pin,
       i2c_pins :=
         gpio_write gp sda_pin False (gpio_write gp scl_pin False
           (gpio_enable gp scl_pin GPIO_INPUT (gpio_enable gp scl_pin GPIO_INPUT
             (gpio_set_pullup gp sda_pin True True (gpio_set_pullup gp scl_pin True True (i2c_pins s))))))\<rparr>"

definition i2c_delay :: "'g gpiodev \<Rightarrow> 'g i2c_state \<Rightarrow> 'g i2c_state" where
  "i2c_delay gp s = s\<lparr>i2c_pins := os_delay_us gp CLK_HALF_PERIOD_US (i2c_pins s)\<rparr>"

definition read_scl :: "'g gpiodev \<Rightarrow> 'g i2c_state \<Rightarrow> bool \<times> 'g i2c_state" where
  "read_scl gp s =
     (case gpio_read gp (g_scl_pin s) (gpio_enable gp (g_scl_pin s) GPIO_INPUT (i2c_pins s)) of
        (level, g) \<Rightarrow> (level, s\<lparr>i2c_pins := g\<rparr>))"

definition read_sda :: "'g gpiodev \<Rightarrow> 'g i2c_state \<Rightarrow> bool \<times> 'g i2c_state" where
  "read_sda gp s =
     (let s1 = i2c_delay gp (s\<lparr>i2c_pins := gpio_enable gp (g_sda_pin s) GPIO_INPUT (i2c_pins s)\<rparr>) in
      (case gpio_read gp (g_sda_pin s) (i2c_pins s1) of
         (level, g) \<Rightarrow> (level, s1\<lparr>i2c_pins := g\<rparr>)))"

definition clear_scl :: "'g gpiodev \<Rightarrow> 'g i2c_state \<Rightarrow> 'g i2c_state" where
  "clear_scl gp s = s\<lparr>i2c_pins := gpio_enable gp (g_scl_pin s) GPIO_OUT_OPEN_DRAIN (i2c_pins s)\<rparr>"

definition clear_sda :: "'g gpiodev \<Rightarrow> 'g i2c_state \<Rightarrow> 'g i2c_state" where
  "clear_sda gp s = s\<lparr>i2c_pins := gpio_enable gp (g_sda_pin s) GPIO_OUT_OPEN_DRAIN (i2c_pins s)\<rparr>"

text \<open>The loop \<open>while (read_scl() == 0 && clk_stretch--)\<close>: the clock is read once more than the count.\<close>

fun stretch :: "'g gpiodev \<Rightarrow> nat \<Rightarrow> 'g i2c_state \<Rightarrow> 'g i2c_state" where
  "stretch gp 0 s = snd (read_scl gp s)"
| "stretch gp (Suc clk_stretch) s =
     (case read_scl gp s of (level, s1) \<Rightarrow> if level then s1 else stretch gp clk_stretch s1)"

definition i2c_start :: "'g gpiodev \<Rightarrow> 'g i2c_state \<Rightarrow> 'g i2c_state" where
  "i2c_start gp s =
     (let s1 = (if started s
                then i2c_delay gp (stretch gp CLK_STRETCH (i2c_delay gp (snd (read_sda gp s))))
                else s);
          s2 = snd (read_sda gp s1);
          s3 = clear_scl gp (i2c_delay gp (clear_sda gp s2)) in
      s3\<lparr>started := True\<rparr>)"

definition i2c_stop :: "'g gpiodev \<Rightarrow> 'g i2c_state \<Rightarrow> 'g i2c_state" where
  "i2c_stop gp s =
     (let s1 = i2c_delay gp (stretch gp CLK_STRETCH (i2c_delay gp (clear_sda gp s)));
          s2 = i2c_delay gp (snd (read_sda gp s1)) in
      s2\<lparr>started := False\<rparr>)"

definition i2c_write_bit :: "'g gpiodev \<Rightarrow> bool \<Rightarrow> 'g i2c_state \<Rightarrow> 'g i2c_state" where
  "i2c_write_bit gp b s =
     (let s1 = (if b then snd (read_sda gp s) else clear_sda gp s);
          s2 = stretch gp CLK_STRETCH (i2c_delay gp s1);
          s3 = (if b then snd (read_sda gp s2) else s2) in
      clear_scl gp (i2c_delay gp s3))"

definition i2c_read_bit :: "'g gpiodev \<Rightarrow> 'g i2c_state \<Rightarrow> bool \<times> 'g i2c_state" where
  "i2c_read_bit gp s =
     (case read_sda gp (stretch gp CLK_STRETCH (i2c_delay gp (snd (read_sda gp s)))) of
        (b, s1) \<Rightarrow> (b, clear_scl gp (i2c_delay gp s1)))"

fun write_bits :: "'g gpiodev \<Rightarrow> nat \<Rightarrow> byte \<Rightarrow> 'g i2c_state \<Rightarrow> 'g i2c_state" where
  "write_bits gp 0 v s = s"
| "write_bits gp (Suc k) v s = write_bits gp k (push_bit 1 v) (i2c_write_bit gp (v AND 0x80 \<noteq> 0) s)"

definition i2c_write :: "'g gpiodev \<Rightarrow> byte \<Rightarrow> 'g i2c_state \<Rightarrow> bool \<times> 'g i2c_state" where
  "i2c_write gp v s = (case i2c_read_bit gp (write_bits gp 8 v s) of (nack, s1) \<Rightarrow> (\<not> nack, s1))"

fun read_bits :: "'g gpiodev \<Rightarrow> nat \<Rightarrow> byte \<Rightarrow> 'g i2c_state \<Rightarrow> byte \<times> 'g i2c_state" where
  "read_bits gp 0 v s = (v, s)"
| "read_bits gp (Suc k) v s =
     (case i2c_read_bit gp s of (b, s1) \<Rightarrow> read_bits gp k (push_bit 1 v OR of_bool b) s1)"

definition i2c_read :: "'g gpiodev \<Rightarrow> bool \<Rightarrow> 'g i2c_state \<Rightarrow> byte \<times> 'g i2c_state" where
  "i2c_read gp ack s = (case read_bits gp 8 0 s of (v, s1) \<Rightarrow> (v, i2c_write_bit gp ack s1))"

text \<open>The data loop stops at the first byte that is not acknowledged.\<close>

fun write_data :: "'g gpiodev \<Rightarrow> byte list \<Rightarrow> 'g i2c_state \<Rightarrow> 'g i2c_state" where
  "write_data gp [] s = s"
| "write_data gp (b # bs) s =
     (case i2c_write gp b s of (ack, s1) \<Rightarrow> if \<not> ack then s1 else write_data gp bs s1)"

fun read_data :: "'g gpiodev \<Rightarrow> nat \<Rightarrow> 'g i2c_state \<Rightarrow> byte list \<times> 'g i2c_state" where
  "read_data gp 0 s = ([], s)"
| "read_data gp (Suc len) s =
     (case i2c_read gp (Suc len = 1) s of
        (b, s1) \<Rightarrow> (case read_data gp len s1 of (bs, s2) \<Rightarrow> (b # bs, s2)))"

text \<open>The number of bytes is a \<^verbatim>\<open>uint8_t\<close>: a caller's length is taken modulo 256.\<close>

definition i2c_slave_write :: "'g gpiodev \<Rightarrow> byte \<Rightarrow> byte list \<Rightarrow> 'g i2c_state \<Rightarrow> bool \<times> 'g i2c_state" where
  "i2c_slave_write gp slave_addr data s =
     (case i2c_write gp (push_bit 1 slave_addr) (i2c_start gp s) of
        (ack, s1) \<Rightarrow> if \<not> ack then (False, s1) else (True, i2c_stop gp (write_data gp (take (u8 (length data)) data) s1)))"

definition i2c_slave_word_write ::
  "'g gpiodev \<Rightarrow> 16 word \<Rightarrow> 16 word \<Rightarrow> byte list \<Rightarrow> 'g i2c_state \<Rightarrow> bool \<times> 'g i2c_state" where
  "i2c_slave_word_write gp slave_addr regID data s =
     (case i2c_write gp (ucast (push_bit 1 slave_addr AND 0xfe)) (i2c_start gp s) of
        (ack, s1) \<Rightarrow>
          if \<not> ack then (False, s1)
          else
            let s2 = snd (i2c_write gp (ucast (drop_bit 8 regID)) s1);
                s3 = snd (i2c_write gp (ucast (regID AND 0x00ff)) s2) in
            (True, i2c_stop gp (write_data gp (take (u8 (length data)) data) s3)))"

text \<open>The common tail of the two reading functions: address the slave for reading, read, stop. A
  buffer that was not read into is unchanged.\<close>

definition slave_fetch :: "'g gpiodev \<Rightarrow> byte \<Rightarrow> byte list \<Rightarrow> nat \<Rightarrow> 'g i2c_state \<Rightarrow> bool \<times> byte list \<times> 'g i2c_state" where
  "slave_fetch gp slave_addr buf len s =
     (case i2c_write gp (push_bit 1 slave_addr OR 1) (i2c_start gp s) of
        (ack, s1) \<Rightarrow>
          if \<not> ack then (False, buf, i2c_stop gp s1)
          else (case read_data gp len s1 of
                  (bs, s2) \<Rightarrow> (True, overwrite bs buf, i2c_stop gp s2)))"

definition i2c_slave_read ::
  "'g gpiodev \<Rightarrow> byte \<Rightarrow> byte \<Rightarrow> byte list \<Rightarrow> nat \<Rightarrow> 'g i2c_state \<Rightarrow> bool \<times> byte list \<times> 'g i2c_state" where
  "i2c_slave_read gp slave_addr data buf len s =
     (case i2c_write gp (push_bit 1 slave_addr) (i2c_start gp s) of
        (ack, s1) \<Rightarrow>
          if \<not> ack then (False, buf, i2c_stop gp s1)
          else slave_fetch gp slave_addr buf len (i2c_stop gp (snd (i2c_write gp data s1))))"

definition i2c_slave_word_read ::
  "'g gpiodev \<Rightarrow> byte \<Rightarrow> 16 word \<Rightarrow> byte list \<Rightarrow> nat \<Rightarrow> 'g i2c_state \<Rightarrow> bool \<times> byte list \<times> 'g i2c_state" where
  "i2c_slave_word_read gp slave_addr data buf len s =
     (case i2c_write gp (push_bit 1 slave_addr) (i2c_start gp s) of
        (ack, s1) \<Rightarrow>
          if \<not> ack then (False, buf, i2c_stop gp s1)
          else
            let s2 = snd (i2c_write gp (ucast (drop_bit 8 data)) s1);
                s3 = snd (i2c_write gp (ucast (data AND 0x00ff)) s2) in
            slave_fetch gp slave_addr buf len (i2c_stop gp s3))"

end
