(* ===== verification/DS3231.thy ===== *)
theory DS3231
  imports Complex_Main I2C
begin

text \<open>
  The DS3231 real-time clock driver, \<^verbatim>\<open>src/extras/ds3231/ds3231.c\<close>, over the I2C master. An \<^verbatim>\<open>int16_t\<close>
  or \<^verbatim>\<open>int8_t\<close> is a word read with \<open>sint\<close>; a temperature in quarters of a degree is exact in a \<^verbatim>\<open>float\<close>,
  so it is a \<open>rat\<close>. Output parameters are passed in and returned.
\<close>

record tm =
  tm_sec :: int
  tm_min :: int
  tm_hour :: int
  tm_mday :: int
  tm_mon :: int
  tm_year :: int
  tm_wday :: int
  tm_yday :: int
  tm_isdst :: int

definition DS3231_ADDR :: byte where "DS3231_ADDR = 0x68"
definition DS3231_STAT_OSCILLATOR :: byte where "DS3231_STAT_OSCILLATOR = 0x80"
definition DS3231_STAT_32KHZ :: byte where "DS3231_STAT_32KHZ = 0x08"
definition DS3231_CTRL_SQWAVE_8192HZ :: byte where "DS3231_CTRL_SQWAVE_8192HZ = 0x18"
definition DS3231_CTRL_ALARM_INTS :: byte where "DS3231_CTRL_ALARM_INTS = 0x04"
definition DS3231_ALARM_WDAY :: byte where "DS3231_ALARM_WDAY = 0x40"
definition DS3231_ALARM_NOTSET :: byte where "DS3231_ALARM_NOTSET = 0x80"
definition DS3231_ADDR_TIME :: byte where "DS3231_ADDR_TIME = 0x00"
definition DS3231_ADDR_ALARM1 :: byte where "DS3231_ADDR_ALARM1 = 0x07"
definition DS3231_ADDR_ALARM2 :: byte where "DS3231_ADDR_ALARM2 = 0x0b"
definition DS3231_ADDR_CONTROL :: byte where "DS3231_ADDR_CONTROL = 0x0e"
definition DS3231_ADDR_STATUS :: byte where "DS3231_ADDR_STATUS = 0x0f"
definition DS3231_ADDR_TEMP :: byte where "DS3231_ADDR_TEMP = 0x11"
definition DS3231_12HOUR_FLAG :: byte where "DS3231_12HOUR_FLAG = 0x40"
definition DS3231_12HOUR_MASK :: byte where "DS3231_12HOUR_MASK = 0x1f"
definition DS3231_PM_FLAG :: byte where "DS3231_PM_FLAG = 0x20"
definition DS3231_MONTH_MASK :: byte where "DS3231_MONTH_MASK = 0x1f"

definition DS3231_SET :: byte where "DS3231_SET = 0"
definition DS3231_CLEAR :: byte where "DS3231_CLEAR = 1"
definition DS3231_REPLACE :: byte where "DS3231_REPLACE = 2"

definition DS3231_ALARM_1 :: byte where "DS3231_ALARM_1 = 1"
definition DS3231_ALARM_2 :: byte where "DS3231_ALARM_2 = 2"
definition DS3231_ALARM_BOTH :: byte where "DS3231_ALARM_BOTH = 3"

definition DS3231_ALARM1_MATCH_SEC :: byte where "DS3231_ALARM1_MATCH_SEC = 1"
definition DS3231_ALARM1_MATCH_SECMIN :: byte where "DS3231_ALARM1_MATCH_SECMIN = 2"
definition DS3231_ALARM1_MATCH_SECMINHOUR :: byte where "DS3231_ALARM1_MATCH_SECMINHOUR = 3"
definition DS3231_ALARM1_MATCH_SECMINHOURDAY :: byte where "DS3231_ALARM1_MATCH_SECMINHOURDAY = 4"
definition DS3231_ALARM1_MATCH_SECMINHOURDATE :: byte where "DS3231_ALARM1_MATCH_SECMINHOURDATE = 5"

definition DS3231_ALARM2_MATCH_MIN :: byte where "DS3231_ALARM2_MATCH_MIN = 1"
definition DS3231_ALARM2_MATCH_MINHOUR :: byte where "DS3231_ALARM2_MATCH_MINHOUR = 2"
definition DS3231_ALARM2_MATCH_MINHOURDAY :: byte where "DS3231_ALARM2_MATCH_MINHOURDAY = 3"
definition DS3231_ALARM2_MATCH_MINHOURDATE :: byte where "DS3231_ALARM2_MATCH_MINHOURDATE = 4"

text \<open>An \<^verbatim>\<open>int\<close> passed as a \<^verbatim>\<open>uint8_t\<close> is truncated.\<close>

definition decToBcd :: "byte \<Rightarrow> byte" where
  "decToBcd dec = (dec div 10) * 16 + dec mod 10"

definition bcdToDec :: "byte \<Rightarrow> byte" where
  "bcdToDec bcd = (bcd div 16) * 10 + bcd mod 16"

definition ds3231_send :: "'g gpiodev \<Rightarrow> byte list \<Rightarrow> 'g i2c_state \<Rightarrow> bool \<times> 'g i2c_state" where
  "ds3231_send gp data s = i2c_slave_write gp DS3231_ADDR data s"

definition ds3231_recv :: "'g gpiodev \<Rightarrow> byte list \<Rightarrow> nat \<Rightarrow> 'g i2c_state \<Rightarrow> bool \<times> byte list \<times> 'g i2c_state" where
  "ds3231_recv gp data len s = i2c_slave_read gp DS3231_ADDR (data ! 0) data len s"

definition time_bytes :: "tm \<Rightarrow> byte list" where
  "time_bytes time =
     [decToBcd (word_of_int (tm_sec time)), decToBcd (word_of_int (tm_min time)),
      decToBcd (word_of_int (tm_hour time)), decToBcd (word_of_int (tm_wday time + 1)),
      decToBcd (word_of_int (tm_mday time)), decToBcd (word_of_int (tm_mon time + 1)),
      decToBcd (word_of_int (tm_year time - 100))]"

definition ds3231_setTime :: "'g gpiodev \<Rightarrow> tm \<Rightarrow> 'g i2c_state \<Rightarrow> bool \<times> 'g i2c_state" where
  "ds3231_setTime gp time s = ds3231_send gp (DS3231_ADDR_TIME # time_bytes time) s"

definition alarm1_bytes :: "tm \<Rightarrow> byte \<Rightarrow> byte list" where
  "alarm1_bytes time1 option1 =
     [if option1 \<ge> DS3231_ALARM1_MATCH_SEC then decToBcd (word_of_int (tm_sec time1)) else DS3231_ALARM_NOTSET,
      if option1 \<ge> DS3231_ALARM1_MATCH_SECMIN then decToBcd (word_of_int (tm_min time1)) else DS3231_ALARM_NOTSET,
      if option1 \<ge> DS3231_ALARM1_MATCH_SECMINHOUR then decToBcd (word_of_int (tm_hour time1)) else DS3231_ALARM_NOTSET,
      if option1 = DS3231_ALARM1_MATCH_SECMINHOURDAY
      then decToBcd (word_of_int (tm_wday time1 + 1)) AND DS3231_ALARM_WDAY
      else if option1 = DS3231_ALARM1_MATCH_SECMINHOURDATE then decToBcd (word_of_int (tm_mday time1))
      else DS3231_ALARM_NOTSET]"

definition alarm2_bytes :: "tm \<Rightarrow> byte \<Rightarrow> byte list" where
  "alarm2_bytes time2 option2 =
     [if option2 \<ge> DS3231_ALARM2_MATCH_MIN then decToBcd (word_of_int (tm_min time2)) else DS3231_ALARM_NOTSET,
      if option2 \<ge> DS3231_ALARM2_MATCH_MINHOUR then decToBcd (word_of_int (tm_hour time2)) else DS3231_ALARM_NOTSET,
      if option2 = DS3231_ALARM2_MATCH_MINHOURDAY
      then decToBcd (word_of_int (tm_wday time2 + 1)) AND DS3231_ALARM_WDAY
      else if option2 = DS3231_ALARM2_MATCH_MINHOURDATE then decToBcd (word_of_int (tm_mday time2))
      else DS3231_ALARM_NOTSET]"

definition ds3231_setAlarm ::
  "'g gpiodev \<Rightarrow> byte \<Rightarrow> tm \<Rightarrow> byte \<Rightarrow> tm \<Rightarrow> byte \<Rightarrow> 'g i2c_state \<Rightarrow> bool \<times> 'g i2c_state" where
  "ds3231_setAlarm gp alarms time1 option1 time2 option2 s =
     (let start = (if alarms = DS3231_ALARM_2 then DS3231_ADDR_ALARM2 else DS3231_ADDR_ALARM1);
          a1 = (if alarms \<noteq> DS3231_ALARM_2 then alarm1_bytes time1 option1 else []);
          a2 = (if alarms \<noteq> DS3231_ALARM_1 then alarm2_bytes time2 option2 else []) in
      ds3231_send gp (start # a1 @ a2) s)"

definition ds3231_getFlag ::
  "'g gpiodev \<Rightarrow> byte \<Rightarrow> byte \<Rightarrow> byte \<Rightarrow> 'g i2c_state \<Rightarrow> bool \<times> byte \<times> 'g i2c_state" where
  "ds3231_getFlag gp addr mask' flag s =
     (case ds3231_send gp [addr] s of
        (ok, s1) \<Rightarrow>
          if \<not> ok then (False, flag, s1)
          else (case ds3231_recv gp [addr] 1 s1 of
                  (ok, data, s2) \<Rightarrow> if \<not> ok then (False, flag, s2) else (True, data ! 0 AND mask', s2)))"

text \<open>
  \<open>junk\<close> is the uninitialised \<open>data[1]\<close>: \<open>ds3231_recv(data+1, 1)\<close> takes the register to read from
  its first byte, before it is overwritten with the byte read.
\<close>

definition ds3231_setFlag :: "'g gpiodev \<Rightarrow> byte \<Rightarrow> byte \<Rightarrow> byte \<Rightarrow> byte \<Rightarrow> 'g i2c_state \<Rightarrow> bool \<times> 'g i2c_state" where
  "ds3231_setFlag gp junk addr bits mode s =
     (case ds3231_send gp [addr] s of
        (ok, s1) \<Rightarrow>
          if \<not> ok then (False, s1)
          else (case ds3231_recv gp [junk] 1 s1 of
                  (ok, data1, s2) \<Rightarrow>
                    if \<not> ok then (False, s2)
                    else
                      ds3231_send gp
                        [addr,
                         if mode = DS3231_REPLACE then bits
                         else if mode = DS3231_SET then data1 ! 0 OR bits
                         else data1 ! 0 AND NOT bits] s2))"

definition ds3231_getOscillatorStopFlag :: "'g gpiodev \<Rightarrow> bool \<Rightarrow> 'g i2c_state \<Rightarrow> bool \<times> bool \<times> 'g i2c_state" where
  "ds3231_getOscillatorStopFlag gp flag s =
     (case ds3231_getFlag gp DS3231_ADDR_STATUS DS3231_STAT_OSCILLATOR 0 s of
        (ok, f, s1) \<Rightarrow> if ok then (True, f \<noteq> 0, s1) else (False, flag, s1))"

definition ds3231_clearOscillatorStopFlag :: "'g gpiodev \<Rightarrow> byte \<Rightarrow> 'g i2c_state \<Rightarrow> bool \<times> 'g i2c_state" where
  "ds3231_clearOscillatorStopFlag gp junk s =
     ds3231_setFlag gp junk DS3231_ADDR_STATUS DS3231_STAT_OSCILLATOR DS3231_CLEAR s"

definition ds3231_getAlarmFlags :: "'g gpiodev \<Rightarrow> byte \<Rightarrow> 'g i2c_state \<Rightarrow> bool \<times> byte \<times> 'g i2c_state" where
  "ds3231_getAlarmFlags gp alarms s = ds3231_getFlag gp DS3231_ADDR_STATUS DS3231_ALARM_BOTH alarms s"

definition ds3231_clearAlarmFlags :: "'g gpiodev \<Rightarrow> byte \<Rightarrow> byte \<Rightarrow> 'g i2c_state \<Rightarrow> bool \<times> 'g i2c_state" where
  "ds3231_clearAlarmFlags gp junk alarms s = ds3231_setFlag gp junk DS3231_ADDR_STATUS alarms DS3231_CLEAR s"

definition ds3231_enableAlarmInts :: "'g gpiodev \<Rightarrow> byte \<Rightarrow> byte \<Rightarrow> 'g i2c_state \<Rightarrow> bool \<times> 'g i2c_state" where
  "ds3231_enableAlarmInts gp junk alarms s =
     ds3231_setFlag gp junk DS3231_ADDR_CONTROL (DS3231_CTRL_ALARM_INTS OR alarms) DS3231_SET s"

definition ds3231_disableAlarmInts :: "'g gpiodev \<Rightarrow> byte \<Rightarrow> byte \<Rightarrow> 'g i2c_state \<Rightarrow> bool \<times> 'g i2c_state" where
  "ds3231_disableAlarmInts gp junk alarms s = ds3231_setFlag gp junk DS3231_ADDR_CONTROL alarms DS3231_CLEAR s"

definition ds3231_enable32khz :: "'g gpiodev \<Rightarrow> byte \<Rightarrow> 'g i2c_state \<Rightarrow> bool \<times> 'g i2c_state" where
  "ds3231_enable32khz gp junk s = ds3231_setFlag gp junk DS3231_ADDR_STATUS DS3231_STAT_32KHZ DS3231_SET s"

definition ds3231_disable32khz :: "'g gpiodev \<Rightarrow> byte \<Rightarrow> 'g i2c_state \<Rightarrow> bool \<times> 'g i2c_state" where
  "ds3231_disable32khz gp junk s = ds3231_setFlag gp junk DS3231_ADDR_STATUS DS3231_STAT_32KHZ DS3231_CLEAR s"

definition ds3231_enableSquarewave :: "'g gpiodev \<Rightarrow> byte \<Rightarrow> 'g i2c_state \<Rightarrow> bool \<times> 'g i2c_state" where
  "ds3231_enableSquarewave gp junk s = ds3231_setFlag gp junk DS3231_ADDR_CONTROL DS3231_CTRL_ALARM_INTS DS3231_CLEAR s"

definition ds3231_disableSquarewave :: "'g gpiodev \<Rightarrow> byte \<Rightarrow> 'g i2c_state \<Rightarrow> bool \<times> 'g i2c_state" where
  "ds3231_disableSquarewave gp junk s = ds3231_setFlag gp junk DS3231_ADDR_CONTROL DS3231_CTRL_ALARM_INTS DS3231_SET s"

definition ds3231_setSquarewaveFreq :: "'g gpiodev \<Rightarrow> byte \<Rightarrow> byte \<Rightarrow> 'g i2c_state \<Rightarrow> bool \<times> 'g i2c_state" where
  "ds3231_setSquarewaveFreq gp junk freq s =
     (case ds3231_getFlag gp DS3231_ADDR_CONTROL 0xff 0 s of
        (ok, flag, s1) \<Rightarrow>
          if \<not> ok then (False, s1)
          else ds3231_setFlag gp junk DS3231_ADDR_CONTROL
                 ((flag AND NOT DS3231_CTRL_SQWAVE_8192HZ) OR freq) DS3231_REPLACE s1)"

definition ds3231_getRawTemp :: "'g gpiodev \<Rightarrow> 16 word \<Rightarrow> 'g i2c_state \<Rightarrow> bool \<times> 16 word \<times> 'g i2c_state" where
  "ds3231_getRawTemp gp temp s =
     (case ds3231_send gp [DS3231_ADDR_TEMP] s of
        (ok, s1) \<Rightarrow>
          if \<not> ok then (False, temp, s1)
          else (case ds3231_recv gp [DS3231_ADDR_TEMP, 0] 2 s1 of
                  (ok, data, s2) \<Rightarrow>
                    if \<not> ok then (False, temp, s2)
                    else (True, push_bit 2 (scast (data ! 0)) OR ucast (drop_bit 6 (data ! 1)), s2)))"

definition ds3231_getTempInteger :: "'g gpiodev \<Rightarrow> byte \<Rightarrow> 'g i2c_state \<Rightarrow> bool \<times> byte \<times> 'g i2c_state" where
  "ds3231_getTempInteger gp temp s =
     (case ds3231_getRawTemp gp 0 s of
        (ok, tInt, s1) \<Rightarrow> if ok then (True, ucast (signed_drop_bit 2 tInt), s1) else (False, temp, s1))"

definition ds3231_getTempFloat :: "'g gpiodev \<Rightarrow> rat \<Rightarrow> 'g i2c_state \<Rightarrow> bool \<times> rat \<times> 'g i2c_state" where
  "ds3231_getTempFloat gp temp s =
     (case ds3231_getRawTemp gp 0 s of
        (ok, tInt, s1) \<Rightarrow> if ok then (True, of_int (sint tInt) * (1 / 4), s1) else (False, temp, s1))"

definition hour_of :: "byte \<Rightarrow> int" where
  "hour_of d =
     (if d AND DS3231_12HOUR_FLAG \<noteq> 0
      then uint (bcdToDec (d AND DS3231_12HOUR_MASK)) + (if d AND DS3231_PM_FLAG \<noteq> 0 then 12 else 0)
      else uint (bcdToDec d))"

definition ds3231_getTime :: "'g gpiodev \<Rightarrow> tm \<Rightarrow> 'g i2c_state \<Rightarrow> bool \<times> tm \<times> 'g i2c_state" where
  "ds3231_getTime gp time s =
     (case ds3231_send gp [DS3231_ADDR_TIME] s of
        (ok, s1) \<Rightarrow>
          if \<not> ok then (False, time, s1)
          else (case ds3231_recv gp (DS3231_ADDR_TIME # replicate 6 0) 7 s1 of
                  (ok, data, s2) \<Rightarrow>
                    if \<not> ok then (False, time, s2)
                    else
                      (True,
                       time\<lparr>tm_sec := uint (bcdToDec (data ! 0)), tm_min := uint (bcdToDec (data ! 1)),
                            tm_hour := hour_of (data ! 2), tm_wday := uint (bcdToDec (data ! 3)) - 1,
                            tm_mday := uint (bcdToDec (data ! 4)),
                            tm_mon := uint (bcdToDec (data ! 5 AND DS3231_MONTH_MASK)) - 1,
                            tm_year := uint (bcdToDec (data ! 6)) + 100, tm_isdst := 0\<rparr>, s2)))"

definition ds3231_Init :: "'g gpiodev \<Rightarrow> nat \<Rightarrow> nat \<Rightarrow> 'g i2c_state \<Rightarrow> 'g i2c_state" where
  "ds3231_Init gp scl sda s = i2c_init gp scl sda s"

end
