(* ===== verification/I2C_Bus.thy ===== *)
theory I2C_Bus
  imports I2C
begin

text \<open>
  What a register slave on the I2C bus sees of the master in \<open>I2C\<close>: a slave at the level of the two
  lines (start and stop conditions, a bit sampled on each rising clock edge, its own output changed on each
  falling edge) is run against the bit-banged master. The locale \<open>reg_slave\<close> is the contract that the
  device drivers rely on; it is proved here of the simulated slave, so of the master's code.
\<close>

section \<open>A register slave\<close>

text \<open>\<open>Ack p\<close>: the slave pulls the line for one clock and then goes on as \<open>p\<close>. \<open>Receive True\<close>
  awaits the register number, \<open>Receive False\<close> a byte for the current register.\<close>

datatype slave_phase =
    Quiet
  | Address "bool list"
  | Receive bool "bool list"
  | Ack slave_phase
  | Send "bool list"
  | Master_Ack "bool option"

record slave =
  drive :: bool
  phase :: slave_phase
  regs :: "byte \<Rightarrow> byte"
  reg_ptr :: byte

definition on_rise :: "bool \<Rightarrow> slave \<Rightarrow> slave" where
  "on_rise v sl =
     (case phase sl of
        Address bs \<Rightarrow> sl\<lparr>phase := Address (bs @ [v])\<rparr>
      | Receive first bs \<Rightarrow> sl\<lparr>phase := Receive first (bs @ [v])\<rparr>
      | Master_Ack _ \<Rightarrow> sl\<lparr>phase := Master_Ack (Some v)\<rparr>
      | _ \<Rightarrow> sl)"

definition send_next :: "slave \<Rightarrow> slave" where
  "send_next sl =
     sl\<lparr>drive := hd (msb_bits (regs sl (reg_ptr sl))), phase := Send (tl (msb_bits (regs sl (reg_ptr sl)))),
        reg_ptr := reg_ptr sl + 1\<rparr>"

definition on_fall :: "byte \<Rightarrow> slave \<Rightarrow> slave" where
  "on_fall a sl =
     (case phase sl of
        Address bs \<Rightarrow>
          if length bs < 8 then sl
          else if bits_value 0 bs = push_bit 1 a then sl\<lparr>drive := False, phase := Ack (Receive True [])\<rparr>
          else if bits_value 0 bs = push_bit 1 a OR 1 then sl\<lparr>drive := False, phase := Ack (Send [])\<rparr>
          else sl\<lparr>phase := Quiet\<rparr>
      | Receive first bs \<Rightarrow>
          if length bs < 8 then sl
          else if first then sl\<lparr>drive := False, phase := Ack (Receive False []), reg_ptr := bits_value 0 bs\<rparr>
          else sl\<lparr>drive := False, phase := Ack (Receive False []), regs := (regs sl)(reg_ptr sl := bits_value 0 bs),
                  reg_ptr := reg_ptr sl + 1\<rparr>
      | Ack (Send _) \<Rightarrow> send_next sl
      | Ack p \<Rightarrow> sl\<lparr>drive := True, phase := p\<rparr>
      | Send (b # bs) \<Rightarrow> sl\<lparr>drive := b, phase := Send bs\<rparr>
      | Send [] \<Rightarrow> sl\<lparr>drive := True, phase := Master_Ack None\<rparr>
      | Master_Ack (Some False) \<Rightarrow> send_next sl
      | Master_Ack _ \<Rightarrow> sl\<lparr>phase := Quiet\<rparr>
      | Quiet \<Rightarrow> sl)"

section \<open>The two lines\<close>

record lines =
  scl :: bool
  sda :: bool
  device :: slave

definition set_scl :: "byte \<Rightarrow> bool \<Rightarrow> lines \<Rightarrow> lines" where
  "set_scl a v g =
     (if v = scl g then g
      else if v then g\<lparr>scl := True, device := on_rise (sda g \<and> drive (device g)) (device g)\<rparr>
      else g\<lparr>scl := False, device := on_fall a (device g)\<rparr>)"

text \<open>The data line changing while the clock is high is a start or a stop condition.\<close>

definition set_sda :: "bool \<Rightarrow> lines \<Rightarrow> lines" where
  "set_sda v g =
     (if scl g \<and> drive (device g) \<and> v \<noteq> sda g
      then g\<lparr>sda := v, device := (device g)\<lparr>drive := True, phase := (if v then Quiet else Address [])\<rparr>\<rparr>
      else g\<lparr>sda := v\<rparr>)"

text \<open>Pin 0 is the clock; both output latches are zero.\<close>

definition wires :: "byte \<Rightarrow> lines gpiodev" where
  "wires a = \<lparr>gpio_enable = (\<lambda>pin m g. if pin = 0 then set_scl a (m = GPIO_INPUT) g else set_sda (m = GPIO_INPUT) g),
     gpio_set_pullup = (\<lambda>_ _ _ g. g), gpio_write = (\<lambda>_ _ g. g),
     gpio_read = (\<lambda>pin g. (if pin = 0 then scl g else sda g \<and> drive (device g), g)), os_delay_us = (\<lambda>_ g. g),
     ENTER_CRITICAL = (\<lambda>g. g), EXIT_CRITICAL = (\<lambda>g. g), vTaskDelay_ms = (\<lambda>_ g. g)\<rparr>"

definition bus :: "bool \<Rightarrow> bool \<Rightarrow> bool \<Rightarrow> slave \<Rightarrow> lines i2c_state" where
  "bus st c d sl = \<lparr>started = st, g_scl_pin = 0, g_sda_pin = 1, i2c_pins = \<lparr>scl = c, sda = d, device = sl\<rparr>\<rparr>"

section \<open>The master's routines on the lines\<close>

lemma wire_ops [simp]:
  "read_scl (wires a) (bus st c d sl) = (True, bus st True d (if c then sl else on_rise (d \<and> drive sl) sl))"
  "clear_scl (wires a) (bus st c d sl) = bus st False d (if c then on_fall a sl else sl)"
  "i2c_delay (wires a) s = s"
  by (simp_all add: read_scl_def clear_scl_def i2c_delay_def bus_def wires_def set_scl_def)

lemma sda_low_clock [simp]:
  "read_sda (wires a) (bus st False d sl) = (drive sl, bus st False True sl)"
  "clear_sda (wires a) (bus st False d sl) = bus st False False sl"
  by (simp_all add: read_sda_def clear_sda_def i2c_delay_def bus_def wires_def set_sda_def)

lemma sda_high_clock:
  "read_sda (wires a) (bus st True True sl) = (drive sl, bus st True True sl)"
  "drive sl \<Longrightarrow> read_sda (wires a) (bus st True False sl) = (True, bus st True True (sl\<lparr>drive := True, phase := Quiet\<rparr>))"
  "drive sl \<Longrightarrow> clear_sda (wires a) (bus st True True sl) = bus st True False (sl\<lparr>drive := True, phase := Address []\<rparr>)"
  by (simp_all add: read_sda_def clear_sda_def i2c_delay_def bus_def wires_def set_sda_def)

lemma stretch_once [simp]: "stretch (wires a) n (bus st c d sl) = bus st True d (if c then sl else on_rise (d \<and> drive sl) sl)"
  by (cases n) simp_all

text \<open>One clock: the slave samples the line and then moves on.\<close>

definition clock :: "byte \<Rightarrow> bool \<Rightarrow> slave \<Rightarrow> slave" where
  "clock a v sl = on_fall a (on_rise v sl)"

lemma on_rise_drive [simp]: "drive (on_rise v sl) = drive sl"
  by (simp add: on_rise_def split: slave_phase.splits)

lemma write_bit_clock [simp]:
  "i2c_write_bit (wires a) b (bus st False d sl) = bus st False b (clock a (b \<and> drive sl) sl)"
  by (cases b) (simp_all add: i2c_write_bit_def Let_def sda_high_clock clock_def)

lemma read_bit_clock [simp]:
  "i2c_read_bit (wires a) (bus st False d sl) = (drive sl, bus st False True (clock a (drive sl) sl))"
  by (simp add: i2c_read_bit_def sda_high_clock clock_def)

lemma start_condition:
  "drive sl \<Longrightarrow> i2c_start (wires a) (bus False True True sl) = bus True False False (sl\<lparr>drive := True, phase := Address []\<rparr>)"
  by (simp add: i2c_start_def Let_def sda_high_clock) (simp add: bus_def on_fall_def)

lemma stop_condition:
  "drive sl \<Longrightarrow> i2c_stop (wires a) (bus st False d sl) = bus False True True ((on_rise False sl)\<lparr>drive := True, phase := Quiet\<rparr>)"
  by (simp add: i2c_stop_def Let_def sda_high_clock) (simp add: bus_def)

section \<open>Bytes\<close>

text \<open>The slave stays silent while it is being written to.\<close>

fun clocks :: "byte \<Rightarrow> bool list \<Rightarrow> slave \<Rightarrow> slave" where
  "clocks a [] sl = sl"
| "clocks a (b # bs) sl = clocks a bs (clock a b sl)"

fun silent :: "byte \<Rightarrow> bool list \<Rightarrow> slave \<Rightarrow> bool" where
  "silent a [] sl = True"
| "silent a (b # bs) sl = (drive sl \<and> silent a bs (clock a b sl))"

lemma write_bits_clocks:
  "silent a (map (\<lambda>i. bit v (7 - i)) [0..<k]) sl \<Longrightarrow> k \<le> 8 \<Longrightarrow>
    \<exists>d'. write_bits (wires a) k v (bus st False d sl) = bus st False d' (clocks a (map (\<lambda>i. bit v (7 - i)) [0..<k]) sl)"
proof (induction k arbitrary: v d sl)
  case (Suc k)
  have m: "map (\<lambda>i. bit (push_bit 1 v) (7 - i)) [0..<k] = map (\<lambda>i. bit v (6 - i)) [0..<k]"
  proof (rule map_cong[OF refl])
    fix i assume "i \<in> set [0..<k]"
    then show "bit (push_bit 1 v) (7 - i) = bit v (6 - i)"
      using Suc.prems(2) unfolding bit_push_bit_iff by auto
  qed
  have u: "map (\<lambda>i. bit v (7 - i)) [0..<Suc k] = bit v 7 # map (\<lambda>i. bit (push_bit 1 v) (7 - i)) [0..<k]"
    unfolding m by (simp add: upt_conv_Cons map_Suc_upt[symmetric] del: upt_Suc)
  with Suc.prems(1) have "drive sl" "silent a (map (\<lambda>i. bit (push_bit 1 v) (7 - i)) [0..<k]) (clock a (bit v 7) sl)"
    by (simp_all del: upt_Suc)
  then show ?case
    using Suc.IH[of "push_bit 1 v" "clock a (bit v 7) sl" "bit v 7"] Suc.prems(2)
    unfolding u by (simp add: top_bit)
qed auto

lemma write_byte_clocks:
  assumes "silent a (msb_bits v) sl"
  shows "i2c_write (wires a) v (bus st False d sl) =
    (let sl' = clocks a (msb_bits v) sl in (\<not> drive sl', bus st False True (clock a (drive sl') sl')))"
proof -
  have "map (\<lambda>i. bit v (7 - i)) [0..<8] = msb_bits v" by (simp add: msb_bits_def upt_rec)
  then show ?thesis
    using write_bits_clocks[of a v 8 sl st d] assms by (auto simp: i2c_write_def Let_def)
qed

lemma clock_receive:
  "phase sl = Receive first bs \<Longrightarrow> length bs < 7 \<Longrightarrow> clock a v sl = sl\<lparr>phase := Receive first (bs @ [v])\<rparr>"
  "phase sl = Address bs \<Longrightarrow> length bs < 7 \<Longrightarrow> clock a v sl = sl\<lparr>phase := Address (bs @ [v])\<rparr>"
  by (simp_all add: clock_def on_rise_def on_fall_def)

text \<open>A byte written to a receiving slave is acknowledged.\<close>

lemma eight_clocks:
  assumes "drive sl" and "phase sl = C []" and "C = Address \<or> C = Receive first"
  shows "silent a (msb_bits v) sl" and "clocks a (msb_bits v) sl = on_fall a (sl\<lparr>phase := C (msb_bits v)\<rparr>)"
  using assms by (auto simp: msb_bits_def clock_receive) (simp_all add: clock_def on_rise_def)

lemma write_acked:
  assumes "drive sl" and "phase sl = C []" and "C = Address \<or> C = Receive first"
    and "on_fall a (sl\<lparr>phase := C (msb_bits v)\<rparr>) = sl'\<lparr>drive := False, phase := Ack p\<rparr>"
  shows "i2c_write (wires a) v (bus st False d sl) =
    (True, bus st False True (on_fall a (sl'\<lparr>drive := False, phase := Ack p\<rparr>)))"
  using eight_clocks[OF assms(1-3)] assms(4)
  by (simp add: write_byte_clocks Let_def) (simp add: clock_def on_rise_def)

definition receiving :: "bool \<Rightarrow> (byte \<Rightarrow> byte) \<Rightarrow> byte \<Rightarrow> slave" where
  "receiving first r n = \<lparr>drive = True, phase = Receive first [], regs = r, reg_ptr = n\<rparr>"

definition idle :: "(byte \<Rightarrow> byte) \<Rightarrow> byte \<Rightarrow> slave" where
  "idle r n = \<lparr>drive = True, phase = Quiet, regs = r, reg_ptr = n\<rparr>"

definition addressed :: "(byte \<Rightarrow> byte) \<Rightarrow> byte \<Rightarrow> slave" where
  "addressed r n = \<lparr>drive = True, phase = Address [], regs = r, reg_ptr = n\<rparr>"

lemma write_address:
  "i2c_write (wires a) (push_bit 1 a) (bus st False d (addressed r n)) = (True, bus st False True (receiving True r n))"
  using write_acked[of "addressed r n" Address True a "push_bit 1 a" "Receive True []" "addressed r n" st d]
  by (simp add: addressed_def receiving_def on_fall_def bits_value_msb)

lemma write_register:
  "i2c_write (wires a) v (bus st False d (receiving True r n)) = (True, bus st False True (receiving False r v))"
  using write_acked[of "receiving True r n" "Receive True" True a v "Receive False []" "receiving True r v" st d]
  by (simp add: receiving_def on_fall_def bits_value_msb)

lemma write_value:
  "i2c_write (wires a) v (bus st False d (receiving False r n)) = (True, bus st False True (receiving False (r(n := v)) (n + 1)))"
  using write_acked[of "receiving False r n" "Receive False" False a v "Receive False []" "receiving False (r(n := v)) (n + 1)" st d]
  by (simp add: receiving_def on_fall_def bits_value_msb)

lemma write_read_address:
  "i2c_write (wires a) (push_bit 1 a OR 1) (bus st False d (addressed r n)) = (True, bus st False True (send_next (addressed r n)))"
proof -
  have "push_bit 1 a OR 1 \<noteq> push_bit 1 a"
  proof
    assume "push_bit 1 a OR 1 = push_bit 1 a"
    from arg_cong[OF this, of "\<lambda>x. bit x 0"] show False by (simp add: bit_or_iff bit_push_bit_iff del: push_bit_Suc push_bit_numeral)
  qed
  then show ?thesis
    using write_acked[of "addressed r n" Address True a "push_bit 1 a OR 1" "Send []" "addressed r n" st d]
    by (simp add: addressed_def on_fall_def bits_value_msb send_next_def)
qed

text \<open>A sending slave presents its byte, most significant bit first.\<close>

lemma read_bits_send:
  "phase sl = Send bs \<Longrightarrow> \<exists>d'. read_bits (wires a) (Suc (length bs)) v (bus st False d sl) =
     (bits_value v (drive sl # bs), bus st False d' (sl\<lparr>drive := True, phase := Master_Ack None\<rparr>))"
proof (induction bs arbitrary: v d sl)
  case Nil
  then show ?case by (auto simp: clock_def on_rise_def on_fall_def)
next
  case (Cons b bs)
  have c: "clock a (drive sl) sl = sl\<lparr>drive := b, phase := Send bs\<rparr>"
    using Cons.prems by (simp add: clock_def on_rise_def on_fall_def)
  show ?case using Cons.IH[of "sl\<lparr>drive := b, phase := Send bs\<rparr>" "push_bit 1 v OR of_bool (drive sl)" True]
    by (simp add: c)
qed

lemma read_byte:
  "i2c_read (wires a) fin (bus st False d (send_next sl)) =
     (regs sl (reg_ptr sl), bus st False fin
       (if fin then (send_next sl)\<lparr>drive := True, phase := Quiet\<rparr>
        else send_next ((send_next sl)\<lparr>drive := True, phase := Master_Ack (Some False)\<rparr>)))"
proof -
  let ?v = "regs sl (reg_ptr sl)"
  have b: "bits_value 0 (drive (send_next sl) # tl (msb_bits ?v)) = ?v"
    using bits_value_msb[of ?v] by (simp add: send_next_def msb_bits_def)
  have "Suc (length (tl (msb_bits ?v))) = 8" by simp
  with read_bits_send[of "send_next sl" "tl (msb_bits ?v)" a 0 st d]
  obtain d' where "read_bits (wires a) 8 0 (bus st False d (send_next sl)) =
      (?v, bus st False d' ((send_next sl)\<lparr>drive := True, phase := Master_Ack None\<rparr>))"
    unfolding b by (auto simp: send_next_def)
  then show ?thesis
    by (simp add: i2c_read_def) (simp add: clock_def on_rise_def on_fall_def)
qed

section \<open>Transactions\<close>

text \<open>Writing and reading consecutive registers; the register number wraps.\<close>

fun store :: "(byte \<Rightarrow> byte) \<Rightarrow> byte \<Rightarrow> byte list \<Rightarrow> byte \<Rightarrow> byte" where
  "store r n [] = r"
| "store r n (b # bs) = store (r(n := b)) (n + 1) bs"

fun fetch :: "(byte \<Rightarrow> byte) \<Rightarrow> byte \<Rightarrow> nat \<Rightarrow> byte list" where
  "fetch r n 0 = []"
| "fetch r n (Suc k) = r n # fetch r (n + 1) k"

lemma store_outside: "(\<And>k. k < length bs \<Longrightarrow> m \<noteq> n + of_nat k) \<Longrightarrow> store r n bs m = r m"
proof (induction bs arbitrary: r n)
  case (Cons b bs)
  have "m \<noteq> n" using Cons.prems[of 0] by simp
  have "m \<noteq> n + 1 + of_nat k" if "k < length bs" for k
    using Cons.prems[of "Suc k"] that by (simp add: ac_simps)
  then have "store (r(n := b)) (n + 1) bs m = (r(n := b)) m" by (rule Cons.IH)
  with \<open>m \<noteq> n\<close> show ?case by simp
qed simp

lemma fetch_store: "length bs \<le> 256 \<Longrightarrow> fetch (store r n bs) n (length bs) = bs"
proof (induction bs arbitrary: r n)
  case (Cons b bs)
  have "n \<noteq> n + 1 + of_nat k" if "k < length bs" for k
  proof -
    have "(of_nat (Suc k) :: byte) \<noteq> 0" using that Cons.prems by (simp only: word_of_nat_eq_0_iff) (auto dest!: dvd_imp_le)
    then show ?thesis by (simp add: add.assoc)
  qed
  then show ?case using Cons by (simp add: store_outside)
qed simp

lemma write_data_store:
  "write_data (wires a) bs (bus st False True (receiving False r n)) =
     bus st False True (receiving False (store r n bs) (n + of_nat (length bs)))"
  by (induction bs arbitrary: r n) (simp_all add: write_value add.assoc)

lemma stop_receiving: "i2c_stop (wires a) (bus st False d (receiving first r n)) = bus False True True (idle r n)"
  by (simp add: stop_condition receiving_def idle_def on_rise_def)

lemma start_idle: "i2c_start (wires a) (bus False True True (idle r n)) = bus True False False (addressed r n)"
  by (simp add: start_condition idle_def addressed_def)

definition sending :: "(byte \<Rightarrow> byte) \<Rightarrow> byte \<Rightarrow> slave" where
  "sending r n = send_next (idle r n)"

lemma send_next_sending: "send_next sl = sending (regs sl) (reg_ptr sl)"
  by (simp add: sending_def idle_def send_next_def)

lemma read_sending:
  "i2c_read (wires a) fin (bus st False d (sending r n)) =
     (r n, bus st False fin (if fin then idle r (n + 1) else sending r (n + 1)))"
proof -
  have i: "regs (idle r n) = r" "reg_ptr (idle r n) = n" by (simp_all add: idle_def)
  have "(sending r n)\<lparr>drive := True, phase := Quiet\<rparr> = idle r (n + 1)"
    "regs (sending r n) = r" "reg_ptr (sending r n) = n + 1"
    by (simp_all add: sending_def send_next_def idle_def)
  then show ?thesis
    using read_byte[of a fin st d "idle r n"] unfolding sending_def[symmetric] i
    by (simp add: send_next_sending)
qed

lemma read_data_fetch:
  "0 < k \<Longrightarrow> \<exists>d' n'. read_data (wires a) k (bus st False d (sending r n)) = (fetch r n k, bus st False d' (idle r n'))"
proof (induction k arbitrary: n d)
  case (Suc k)
  show ?case
  proof (cases "k = 0")
    case False
    then obtain d' n' where "read_data (wires a) k (bus st False False (sending r (n + 1))) = (fetch r (n + 1) k, bus st False d' (idle r n'))"
      using Suc.IH by blast
    then show ?thesis using False by (auto simp: read_sending)
  qed (auto simp: read_sending)
qed simp

lemma stop_idle: "i2c_stop (wires a) (bus st False d (idle r n)) = bus False True True (idle r n)"
  by (simp add: stop_condition idle_def on_rise_def)

lemma slave_write_wires:
  assumes "length bs < 255"
  shows "i2c_slave_write (wires a) a (n # bs) (bus False True True (idle r m)) =
     (True, bus False True True (idle (store r n bs) (n + of_nat (length bs))))"
  using assms by (simp add: u8_small i2c_slave_write_def start_idle write_address write_register write_data_store stop_receiving
    del: One_nat_def push_bit_Suc)

lemma slave_read_wires:
  assumes "0 < k"
  shows "\<exists>m'. i2c_slave_read (wires a) a n buf k (bus False True True (idle r m)) =
     (True, overwrite (fetch r n k) buf, bus False True True (idle r m'))"
proof -
  have "i2c_write (wires a) (push_bit 1 a OR 1) (bus True False False (addressed r n)) = (True, bus True False True (sending r n))"
    using write_read_address[of a True False r n] by (simp add: send_next_sending addressed_def)
  then show ?thesis
    using read_data_fetch[OF assms, of a True True r n]
    by (auto simp: i2c_slave_read_def slave_fetch_def start_idle write_address write_register stop_receiving stop_idle
        simp del: One_nat_def push_bit_Suc)
qed

section \<open>The contract\<close>

locale reg_slave =
  fixes gp :: "'g gpiodev" and a :: byte and holds :: "'g i2c_state \<Rightarrow> (byte \<Rightarrow> byte) \<Rightarrow> bool"
  assumes write_regs: "holds s r \<Longrightarrow> length bs < 255 \<Longrightarrow> \<exists>s'. i2c_slave_write gp a (n # bs) s = (True, s') \<and> holds s' (store r n bs)"
    and read_regs: "holds s r \<Longrightarrow> 0 < k \<Longrightarrow>
      \<exists>s'. i2c_slave_read gp a n buf k s = (True, overwrite (fetch r n k) buf, s') \<and> holds s' r"

interpretation wires: reg_slave "wires a" a "\<lambda>s r. \<exists>n. s = bus False True True (idle r n)"
proof
  fix s r n and bs :: "byte list"
  assume "\<exists>n. s = bus False True True (idle r n)" and "length bs < 255"
  then show "\<exists>s'. i2c_slave_write (wires a) a (n # bs) s = (True, s') \<and> (\<exists>m. s' = bus False True True (idle (store r n bs) m))"
    by (auto simp: slave_write_wires)
next
  fix s r n buf and k :: nat
  assume "\<exists>n. s = bus False True True (idle r n)" and "0 < k"
  then show "\<exists>s'. i2c_slave_read (wires a) a n buf k s = (True, overwrite (fetch r n k) buf, s') \<and> (\<exists>m. s' = bus False True True (idle r m))"
    using slave_read_wires by metis
qed

section \<open>Properties\<close>

lemma write_nacked:
  assumes "push_bit 1 b \<noteq> push_bit 1 a"
  shows "i2c_write (wires a) (push_bit 1 b) (bus st False d (addressed r n)) = (False, bus st False True (idle r n))"
proof -
  have "push_bit 1 b \<noteq> push_bit 1 a OR 1"
  proof
    assume "push_bit 1 b = push_bit 1 a OR 1"
    from arg_cong[OF this, of "\<lambda>x. bit x 0"] show False
      by (simp add: bit_or_iff bit_push_bit_iff del: push_bit_Suc push_bit_numeral)
  qed
  then have "on_fall a ((addressed r n)\<lparr>phase := Address (msb_bits (push_bit 1 b))\<rparr>) = idle r n"
    using assms by (simp add: on_fall_def addressed_def idle_def bits_value_msb del: One_nat_def push_bit_Suc)
  then have e: "silent a (msb_bits (push_bit 1 b)) (addressed r n)" "clocks a (msb_bits (push_bit 1 b)) (addressed r n) = idle r n"
    using eight_clocks[of "addressed r n" Address True a "push_bit 1 b"] by (simp_all only:) (simp_all add: addressed_def)
  moreover have "drive (idle r n)" "clock a True (idle r n) = idle r n" by (simp_all add: idle_def clock_def on_rise_def on_fall_def)
  ultimately show ?thesis using write_byte_clocks[OF e(1), of st d] by (simp only: Let_def not_True_eq_False)
qed

text \<open>C24: The I2C master's line activity carries data to a slave and back: a block of 1 to 254 bytes written with
  \<open>i2c_slave_write\<close> to consecutive registers of a slave that decodes start and stop conditions and clock edges is
  acknowledged, changes those registers only, and is what \<open>i2c_slave_read\<close> then returns into the buffer.\<close>

theorem i2c_block_roundtrip:
  assumes "bs \<noteq> []" and "length bs < 255"
  shows "\<exists>m m'. i2c_slave_write (wires a) a (n # bs) (bus False True True (idle r k)) =
      (True, bus False True True (idle (store r n bs) m))
    \<and> i2c_slave_read (wires a) a n buf (length bs) (bus False True True (idle (store r n bs) m)) =
      (True, overwrite bs buf, bus False True True (idle (store r n bs) m'))"
  using slave_read_wires[of "length bs" a n buf "store r n bs"] assms
  by (simp add: slave_write_wires fetch_store) blast

theorem i2c_block_roundtrip_witness:
  "\<exists>m m'. i2c_slave_write (wires 0x68) 0x68 [0x0e, 0x1c, 0x08] (bus False True True (idle (\<lambda>_. 0) 0)) =
      (True, bus False True True (idle (store (\<lambda>_. 0) 0x0e [0x1c, 0x08]) m))
    \<and> i2c_slave_read (wires 0x68) 0x68 0x0e [7, 7, 7] 2 (bus False True True (idle (store (\<lambda>_. 0) 0x0e [0x1c, 0x08]) m)) =
      (True, [0x1c, 0x08, 7], bus False True True (idle (store (\<lambda>_. 0) 0x0e [0x1c, 0x08]) m'))"
  using i2c_block_roundtrip[of "[0x1c, 0x08]" "0x68" "0x0e" "\<lambda>_. 0" 0 "[7, 7, 7]"]
  by (simp add: overwrite_def numeral_2_eq_2 del: store.simps)

text \<open>A slave address that nobody answers: both transfers report failure and no register or buffer
  changes; \<open>i2c_slave_read\<close> releases the bus with a stop condition, \<open>i2c_slave_write\<close> returns without one and leaves the
  clock line pulled low and the transfer marked as started.\<close>

theorem i2c_absent_slave:
  assumes "push_bit 1 b \<noteq> push_bit 1 a"
  shows "i2c_slave_write (wires a) b bs (bus False True True (idle r n)) = (False, bus True False True (idle r n))
    \<and> i2c_slave_read (wires a) b reg buf len (bus False True True (idle r n)) = (False, buf, bus False True True (idle r n))"
  using assms
  by (simp add: i2c_slave_write_def i2c_slave_read_def start_idle write_nacked stop_idle del: One_nat_def push_bit_Suc)

theorem i2c_absent_slave_witness:
  "i2c_slave_write (wires 0x68) 0x3c [0, 1] (bus False True True (idle (\<lambda>_. 0) 0)) = (False, bus True False True (idle (\<lambda>_. 0) 0))
    \<and> i2c_slave_read (wires 0x68) 0x3c 0 [5] 1 (bus False True True (idle (\<lambda>_. 0) 0)) = (False, [5], bus False True True (idle (\<lambda>_. 0) 0))"
  using i2c_absent_slave[of "0x3c" "0x68" "[0, 1]" "\<lambda>_. 0" 0 0 "[5]" 1] by simp

end
