(* ===== verification/DS3231_Regs.thy ===== *)
theory DS3231_Regs
  imports DS3231 I2C_Bus
begin

text \<open>
  What the DS3231 driver does to the registers of the clock chip, for every slave that keeps the
  contract \<open>reg_slave\<close>; the properties are instantiated with the simulated slave in the witnesses.
\<close>

section \<open>Binary coded decimals\<close>

lemma bcd_table: "list_all (\<lambda>i. bcdToDec (decToBcd (word_of_int i)) = word_of_int i) [0..99]"
  by code_simp

lemma bcd_inverse: "0 \<le> i \<Longrightarrow> i < 100 \<Longrightarrow> uint (bcdToDec (decToBcd (word_of_int i))) = i"
  using bcd_table by (simp add: list_all_iff uint_word_of_int)

lemma bcd_hour:
  assumes "0 \<le> i" and "i < 24"
  shows "hour_of (decToBcd (word_of_int i)) = i"
proof -
  have "list_all (\<lambda>i. decToBcd (word_of_int i) AND DS3231_12HOUR_FLAG = 0) [0..23]" by code_simp
  then have "decToBcd (word_of_int i) AND DS3231_12HOUR_FLAG = 0" using assms by (simp add: list_all_iff)
  then show ?thesis using assms by (simp add: hour_of_def bcd_inverse)
qed

lemma bcd_month:
  assumes "1 \<le> i" and "i \<le> 12"
  shows "uint (bcdToDec (decToBcd (word_of_int i) AND DS3231_MONTH_MASK)) = i"
proof -
  have "list_all (\<lambda>i. decToBcd (word_of_int i) AND DS3231_MONTH_MASK = decToBcd (word_of_int i)) [1..12]" by code_simp
  then have "decToBcd (word_of_int i) AND DS3231_MONTH_MASK = decToBcd (word_of_int i)" using assms by (simp add: list_all_iff)
  then show ?thesis using assms by (simp add: bcd_inverse)
qed

lemma bcd_weekday:
  assumes "0 \<le> i" and "i < 7"
  shows "decToBcd (word_of_int (i + 1)) AND DS3231_ALARM_WDAY = 0"
proof -
  have "list_all (\<lambda>i. decToBcd (word_of_int (i + 1)) AND DS3231_ALARM_WDAY = 0) [0..6]" by code_simp
  then show ?thesis using assms by (simp add: list_all_iff)
qed

section \<open>The driver on the registers\<close>

definition valid_time :: "tm \<Rightarrow> bool" where
  "valid_time t \<longleftrightarrow>
     tm_sec t \<in> {0..59} \<and> tm_min t \<in> {0..59} \<and> tm_hour t \<in> {0..23} \<and> tm_wday t \<in> {0..6}
     \<and> tm_mday t \<in> {1..31} \<and> tm_mon t \<in> {0..11} \<and> tm_year t \<in> {100..199}"

lemma fetch_length [simp]: "length (fetch r n k) = k"
  by (induction k arbitrary: n) simp_all

lemma overwrite_all: "length buf = length xs \<Longrightarrow> overwrite xs buf = xs"
  by (simp add: overwrite_def)

lemma store_time: "fetch (store r DS3231_ADDR_TIME (time_bytes t)) DS3231_ADDR_TIME 7 = time_bytes t"
proof -
  have "length (time_bytes t) = 7" by (simp add: time_bytes_def)
  then show ?thesis using fetch_store[of "time_bytes t" r DS3231_ADDR_TIME] by simp
qed

locale rtc = reg_slave gp DS3231_ADDR holds
  for gp :: "'g gpiodev" and holds :: "'g i2c_state \<Rightarrow> (byte \<Rightarrow> byte) \<Rightarrow> bool"
begin

lemma send_regs: "holds s r \<Longrightarrow> length bs < 255 \<Longrightarrow> \<exists>s'. ds3231_send gp (n # bs) s = (True, s') \<and> holds s' (store r n bs)"
  unfolding ds3231_send_def by (rule write_regs)

lemma recv_regs:
  "holds s r \<Longrightarrow> 0 < k \<Longrightarrow> length buf = k \<Longrightarrow>
    \<exists>s'. ds3231_recv gp buf k s = (True, fetch r (buf ! 0) k, s') \<and> holds s' r"
  using read_regs[of s r k "buf ! 0" buf] by (simp add: ds3231_recv_def overwrite_all)

lemma select_and_read:
  assumes "holds s r" and "0 < k" and "length buf = k"
  shows "\<exists>s1 s2. ds3231_send gp [n] s = (True, s1) \<and> ds3231_recv gp buf k s1 = (True, fetch r (buf ! 0) k, s2) \<and> holds s2 r"
  using send_regs[OF assms(1), of "[]" n] recv_regs[OF _ assms(2,3)] by fastforce

end

interpretation rtc_wires: rtc "wires DS3231_ADDR" "\<lambda>s r. \<exists>n. s = bus False True True (idle r n)"
  by unfold_locales

section \<open>Temperatures\<close>

lemma raw_temp_word:
  "push_bit 2 (scast (d0 :: byte)) OR ucast (drop_bit 6 (d1 :: byte)) = (word_of_int (4 * sint d0 + uint d1 div 64) :: 16 word)"
proof -
  let ?a = "push_bit 2 (scast d0) :: 16 word" and ?b = "ucast (drop_bit 6 d1) :: 16 word"
  have "\<not> bit ?a n \<or> \<not> bit ?b n" for n
  proof (cases "n < 2")
    case True
    then show ?thesis by (simp add: bit_push_bit_iff del: push_bit_numeral)
  next
    case False
    then have "\<not> bit d1 (6 + n)" using bit_imp_le_length[of d1 "6 + n"] by auto
    then show ?thesis by (simp add: bit_ucast_iff bit_drop_bit_eq)
  qed
  then have o: "?a OR ?b = ?a + ?b" by (rule disjunctive_add[symmetric])
  have a: "?a = word_of_int (4 * sint d0)"
    unfolding push_bit_eq_mult scast_eq[of d0] by simp
  have b: "?b = word_of_int (uint d1 div 64)"
    unfolding ucast_eq unsigned_drop_bit_eq using uint_lt2p[of d1] by (simp add: drop_bit_eq_div take_bit_int_eq_self)
  show ?thesis by (simp only: o) (simp only: a b of_int_add)
qed

lemma raw_temp_sint:
  "sint (word_of_int (4 * sint (d0 :: byte) + uint (d1 :: byte) div 64) :: 16 word) = 4 * sint d0 + uint d1 div 64"
proof -
  have "- 128 \<le> sint d0" "sint d0 < 128" using sint_ge[of d0] sint_lt[of d0] by simp_all
  moreover have "0 \<le> uint d1 div 64" "uint d1 div 64 < 4" using uint_lt2p[of d1] by (simp_all add: pos_imp_zdiv_nonneg_iff)
  ultimately have "signed_take_bit 15 (4 * sint d0 + uint d1 div 64) = 4 * sint d0 + uint d1 div 64"
    by (intro signed_take_bit_int_eq_self) simp_all
  then show ?thesis unfolding sint_sbintrunc' by simp
qed

lemma raw_temp_integer:
  "ucast (signed_drop_bit 2 (word_of_int (4 * sint (d0 :: byte) + uint (d1 :: byte) div 64) :: 16 word)) = d0"
proof -
  let ?w = "word_of_int (4 * sint d0 + uint d1 div 64) :: 16 word"
  have "uint d1 div 64 < 4" "0 \<le> uint d1 div 64" using uint_lt2p[of d1] by (simp_all add: pos_imp_zdiv_nonneg_iff)
  then have "sint (signed_drop_bit 2 ?w) = sint d0"
    unfolding sint_signed_drop_bit_eq raw_temp_sint by (simp add: drop_bit_eq_div)
  moreover have "signed_drop_bit 2 ?w = word_of_int (sint (signed_drop_bit 2 ?w))" by (simp add: scast_id)
  ultimately have "signed_drop_bit 2 ?w = scast d0" by (simp only: scast_eq[of d0])
  moreover have "ucast (scast d0 :: 16 word) = d0" by (rule bit_word_eqI) (auto simp: bit_simps)
  ultimately show ?thesis by (simp only:)
qed

section \<open>Properties\<close>

lemma time_bytes_inverse:
  assumes "valid_time t"
  shows "uint (bcdToDec (time_bytes t ! 0)) = tm_sec t" "uint (bcdToDec (time_bytes t ! 1)) = tm_min t"
    "hour_of (time_bytes t ! 2) = tm_hour t" "uint (bcdToDec (time_bytes t ! 3)) = tm_wday t + 1"
    "uint (bcdToDec (time_bytes t ! 4)) = tm_mday t"
    "uint (bcdToDec (time_bytes t ! 5 AND DS3231_MONTH_MASK)) = tm_mon t + 1"
    "uint (bcdToDec (time_bytes t ! 6)) = tm_year t - 100"
  using assms bcd_inverse[of "tm_wday t + 1"] bcd_inverse[of "tm_year t - 100"] bcd_month[of "tm_mon t + 1"]
  by (simp_all add: valid_time_def time_bytes_def bcd_inverse bcd_hour)

text \<open>C16: The time set with \<open>ds3231_setTime\<close> is the time read with \<open>ds3231_getTime\<close>, on every I2C slave that
  keeps the register contract (the registers are what was last written to them: the clock has not ticked in between): for
  every calendar time of the years 2000 to 2099 the seven fields come back, \<open>tm_isdst\<close> is cleared and the
  day of the year is left alone.\<close>

theorem set_time_get_time:
  assumes "rtc gp holds" and "holds s r" and "valid_time t"
  shows "\<exists>s1 s2. ds3231_setTime gp t s = (True, s1)
    \<and> ds3231_getTime gp u s1 =
      (True, u\<lparr>tm_sec := tm_sec t, tm_min := tm_min t, tm_hour := tm_hour t, tm_mday := tm_mday t, tm_mon := tm_mon t,
         tm_year := tm_year t, tm_wday := tm_wday t, tm_isdst := 0\<rparr>, s2)
    \<and> holds s2 (store r DS3231_ADDR_TIME (time_bytes t))"
proof -
  let ?r = "store r DS3231_ADDR_TIME (time_bytes t)"
  obtain s1 where w: "ds3231_setTime gp t s = (True, s1)" "holds s1 ?r"
    using rtc.send_regs[OF assms(1), OF assms(2), of "time_bytes t" DS3231_ADDR_TIME] by (auto simp: ds3231_setTime_def time_bytes_def)
  have "\<exists>s2 s3. ds3231_send gp [DS3231_ADDR_TIME] s1 = (True, s2)
    \<and> ds3231_recv gp (DS3231_ADDR_TIME # replicate 6 0) 7 s2 =
      (True, fetch ?r ((DS3231_ADDR_TIME # replicate 6 0) ! 0) 7, s3) \<and> holds s3 ?r"
    by (rule rtc.select_and_read[OF assms(1), OF w(2)]) simp_all
  then obtain s2 s3 where "ds3231_send gp [DS3231_ADDR_TIME] s1 = (True, s2)"
    "ds3231_recv gp (DS3231_ADDR_TIME # replicate 6 0) 7 s2 = (True, time_bytes t, s3)" "holds s3 ?r"
    unfolding nth_Cons_0 store_time by blast
  then show ?thesis using w(1) time_bytes_inverse[OF assms(3)] by (simp add: ds3231_getTime_def)
qed

theorem set_time_get_time_witness:
  "\<exists>s1 s2. ds3231_setTime (wires DS3231_ADDR) \<lparr>tm_sec = 59, tm_min = 7, tm_hour = 23, tm_mday = 31, tm_mon = 11, tm_year = 116,
        tm_wday = 6, tm_yday = 365, tm_isdst = 1\<rparr> (bus False True True (idle (\<lambda>_. 0) 0)) = (True, s1)
    \<and> ds3231_getTime (wires DS3231_ADDR) \<lparr>tm_sec = 0, tm_min = 0, tm_hour = 0, tm_mday = 0, tm_mon = 0, tm_year = 0,
        tm_wday = 0, tm_yday = 4, tm_isdst = 1\<rparr> s1 =
      (True, \<lparr>tm_sec = 59, tm_min = 7, tm_hour = 23, tm_mday = 31, tm_mon = 11, tm_year = 116,
        tm_wday = 6, tm_yday = 4, tm_isdst = 0\<rparr>, s2)"
proof -
  let ?t = "\<lparr>tm_sec = 59, tm_min = 7, tm_hour = 23, tm_mday = 31, tm_mon = 11, tm_year = 116, tm_wday = 6, tm_yday = 365, tm_isdst = 1\<rparr>"
  let ?u = "\<lparr>tm_sec = 0, tm_min = 0, tm_hour = 0, tm_mday = 0, tm_mon = 0, tm_year = 0, tm_wday = 0, tm_yday = 4, tm_isdst = 1\<rparr>"
  have "valid_time ?t" by (simp add: valid_time_def)
  from set_time_get_time[OF rtc_wires.rtc_axioms _ this, of "bus False True True (idle (\<lambda>_. 0) 0)" "\<lambda>_. 0" ?u]
  show ?thesis by auto
qed

text \<open>The temperature is read from the two temperature registers at full precision: \<open>ds3231_getTempFloat\<close>
  returns the signed integer part plus the quarters in the two top bits of the next register, below zero
  too, and \<open>ds3231_getTempInteger\<close> the integer part, rounded towards minus infinity.\<close>

theorem get_temp_correct:
  assumes "rtc gp holds" and "holds s r"
  shows "(\<exists>s1. ds3231_getTempFloat gp t s = (True, of_int (sint (r 0x11)) + of_int (uint (r 0x12) div 64) / 4, s1) \<and> holds s1 r)
    \<and> (\<exists>s1. ds3231_getTempInteger gp i s = (True, r 0x11, s1) \<and> holds s1 r)"
proof -
  let ?w = "word_of_int (4 * sint (r 0x11) + uint (r 0x12) div 64) :: 16 word"
  have "\<exists>s1 s2. ds3231_send gp [DS3231_ADDR_TEMP] s = (True, s1)
    \<and> ds3231_recv gp [DS3231_ADDR_TEMP, 0] 2 s1 = (True, fetch r ([DS3231_ADDR_TEMP, 0] ! 0) 2, s2) \<and> holds s2 r"
    by (rule rtc.select_and_read[OF assms(1), OF assms(2)]) simp_all
  moreover have "fetch r ([DS3231_ADDR_TEMP, 0] ! 0) 2 = [r 0x11, r 0x12]"
    by (simp add: DS3231_ADDR_TEMP_def numeral_2_eq_2)
  ultimately obtain s2 where raw: "ds3231_getRawTemp gp 0 s = (True, ?w, s2)" and h: "holds s2 r"
    unfolding raw_temp_word[symmetric] by (auto simp: ds3231_getRawTemp_def)
  have "\<exists>s1. ds3231_getTempFloat gp t s = (True, of_int (sint (r 0x11)) + of_int (uint (r 0x12) div 64) / 4, s1) \<and> holds s1 r"
    using raw h raw_temp_sint[of "r 0x11" "r 0x12"] by (simp only: ds3231_getTempFloat_def prod.case if_True) (simp add: field_simps)
  moreover have "\<exists>s1. ds3231_getTempInteger gp i s = (True, r 0x11, s1) \<and> holds s1 r"
    using raw h raw_temp_integer[of "r 0x11" "r 0x12"] by (simp only: ds3231_getTempInteger_def prod.case if_True) simp
  ultimately show ?thesis ..
qed

theorem get_temp_correct_witness:
  "\<exists>s1. ds3231_getTempFloat (wires DS3231_ADDR) 0 (bus False True True (idle ((\<lambda>_. 0)(0x11 := 0xe6, 0x12 := 0xc0)) 3)) =
     (True, - 101 / 4, s1)"
  using get_temp_correct[OF rtc_wires.rtc_axioms, of "bus False True True (idle ((\<lambda>_. 0)(0x11 := 0xe6, 0x12 := 0xc0)) 3)"
      "(\<lambda>_. 0)(0x11 := 0xe6, 0x12 := 0xc0)" 0]
  by auto

text \<open>\<open>ds3231_setFlag\<close> writes to the register asked for, but what it sets or clears bits in is the value of
  the register whose number happens to be in the uninitialised byte \<open>junk\<close>: with \<^verbatim>\<open>DS3231_REPLACE\<close>
  the register becomes the bits given; otherwise it becomes the other register's value with the bits set or cleared. All
  other registers keep their values.\<close>

theorem set_flag_effect:
  assumes "rtc gp holds" and "holds s r"
  shows "\<exists>s1. ds3231_setFlag gp junk addr bits mode s = (True, s1)
    \<and> holds s1 (r(addr := if mode = DS3231_REPLACE then bits else if mode = DS3231_SET then r junk OR bits
                         else r junk AND NOT bits))"
proof -
  obtain s1 s2 where s: "ds3231_send gp [addr] s = (True, s1)"
    "ds3231_recv gp [junk] 1 s1 = (True, [r junk], s2)" and h: "holds s2 r"
    using rtc.select_and_read[OF assms(1), OF assms(2), of 1 "[junk]" addr] by auto
  let ?v = "if mode = DS3231_REPLACE then bits else if mode = DS3231_SET then r junk OR bits else r junk AND NOT bits"
  obtain s3 where "ds3231_send gp [addr, ?v] s2 = (True, s3)" "holds s3 (r(addr := ?v))"
    using rtc.send_regs[OF assms(1), OF h, of "[?v]" addr] by auto
  then show ?thesis
    using s by (cases "mode = DS3231_REPLACE"; cases "mode = DS3231_SET") (auto simp: ds3231_setFlag_def)
qed

theorem set_flag_effect_witness:
  "\<exists>s1. ds3231_setFlag (wires DS3231_ADDR) 0x02 0x0f 0x80 DS3231_CLEAR
      (bus False True True (idle ((\<lambda>_. 0)(0x02 := 0x23, 0x0f := 0x88)) 0)) = (True, s1)
    \<and> (\<exists>n. s1 = bus False True True (idle ((\<lambda>_. 0)(0x02 := 0x23, 0x0f := 0x23)) n))"
  using set_flag_effect[OF rtc_wires.rtc_axioms, of "bus False True True (idle ((\<lambda>_. 0)(0x02 := 0x23, 0x0f := 0x88)) 0)"
      "(\<lambda>_. 0)(0x02 := 0x23, 0x0f := 0x88)" "0x02" "0x0f" "0x80" DS3231_CLEAR]
  by (auto simp: DS3231_CLEAR_def DS3231_REPLACE_def DS3231_SET_def)

text \<open>An alarm 1 that is set for a weekday never carries the weekday: for every day the
  day/date register is written as zero (the day and the selector bit are combined with \<^verbatim>\<open>&\<close>), while seconds,
  minutes and hours arrive as given; with the day of the month all four fields arrive.\<close>

theorem set_alarm1_effect:
  assumes "rtc gp holds" and "holds s r" and "valid_time t"
    and "opt = DS3231_ALARM1_MATCH_SECMINHOURDAY \<or> opt = DS3231_ALARM1_MATCH_SECMINHOURDATE"
  shows "\<exists>s1. ds3231_setAlarm gp DS3231_ALARM_1 t opt u opt2 s = (True, s1)
    \<and> holds s1 (store r 0x07 [decToBcd (word_of_int (tm_sec t)), decToBcd (word_of_int (tm_min t)), decToBcd (word_of_int (tm_hour t)),
        if opt = DS3231_ALARM1_MATCH_SECMINHOURDAY then 0 else decToBcd (word_of_int (tm_mday t))])"
proof -
  have "alarm1_bytes t opt = [decToBcd (word_of_int (tm_sec t)), decToBcd (word_of_int (tm_min t)), decToBcd (word_of_int (tm_hour t)),
      if opt = DS3231_ALARM1_MATCH_SECMINHOURDAY then 0 else decToBcd (word_of_int (tm_mday t))]"
    using assms(4) bcd_weekday[of "tm_wday t"] assms(3)
    unfolding alarm1_bytes_def valid_time_def DS3231_ALARM1_MATCH_SEC_def DS3231_ALARM1_MATCH_SECMIN_def
      DS3231_ALARM1_MATCH_SECMINHOUR_def DS3231_ALARM1_MATCH_SECMINHOURDAY_def DS3231_ALARM1_MATCH_SECMINHOURDATE_def
    by auto
  then show ?thesis
    using rtc.send_regs[OF assms(1), OF assms(2), of "alarm1_bytes t opt" "0x07"]
    by (simp only: ds3231_setAlarm_def Let_def) (simp add: DS3231_ALARM_1_def DS3231_ALARM_2_def DS3231_ADDR_ALARM1_def)
qed

theorem set_alarm1_effect_witness:
  "\<exists>s1 n. ds3231_setAlarm (wires DS3231_ADDR) DS3231_ALARM_1
       \<lparr>tm_sec = 30, tm_min = 15, tm_hour = 8, tm_mday = 31, tm_mon = 11, tm_year = 116, tm_wday = 3, tm_yday = 0, tm_isdst = 0\<rparr>
       DS3231_ALARM1_MATCH_SECMINHOURDAY
       \<lparr>tm_sec = 0, tm_min = 0, tm_hour = 0, tm_mday = 0, tm_mon = 0, tm_year = 0, tm_wday = 0, tm_yday = 0, tm_isdst = 0\<rparr> 0
       (bus False True True (idle (\<lambda>_. 0x99) 0)) = (True, s1)
    \<and> s1 = bus False True True (idle (store (\<lambda>_. 0x99) 0x07 [0x30, 0x15, 0x08, 0x00]) n)"
proof -
  let ?t = "\<lparr>tm_sec = 30, tm_min = 15, tm_hour = 8, tm_mday = 31, tm_mon = 11, tm_year = 116, tm_wday = 3, tm_yday = 0, tm_isdst = 0\<rparr>"
  let ?u = "\<lparr>tm_sec = 0, tm_min = 0, tm_hour = 0, tm_mday = 0, tm_mon = 0, tm_year = 0, tm_wday = 0, tm_yday = 0, tm_isdst = 0\<rparr>"
  have v: "valid_time ?t" by (simp add: valid_time_def)
  have b: "decToBcd 30 = 0x30" "decToBcd 15 = 0x15" "decToBcd 8 = 0x08" by code_simp+
  show ?thesis
    using set_alarm1_effect[OF rtc_wires.rtc_axioms _ v, of "bus False True True (idle (\<lambda>_. 0x99) 0)" "\<lambda>_. 0x99"
        DS3231_ALARM1_MATCH_SECMINHOURDAY ?u 0]
    by (simp add: b del: store.simps) metis
qed

end
