(* ===== verification/Rboot.thy ===== *)
theory Rboot
  imports SpiFlash
begin

text \<open>
  The boot loader, \<^verbatim>\<open>src/bootloader/rboot/rboot.c\<close> and the loader stage
  \<^verbatim>\<open>src/bootloader/rboot/rboot-stage2a.c\<close>. The mask-ROM routines and the peripheral registers are the
  fields of \<open>bootrom\<close>; the preprocessor options are the record \<open>boot_options\<close>, so every variant of the build is
  a value of it. Addresses are 32-bit and wrap. The configuration is a view of the sector buffer, as
  the pointer casts in the source make it: a ROM number past the end of \<open>roms\<close> reads the bytes that follow.
  Messages are not modelled.
\<close>

record 'd bootrom =
  SPIRead :: "nat \<Rightarrow> nat \<Rightarrow> 'd \<Rightarrow> nat \<times> byte list \<times> 'd"
  SPIEraseSector :: "nat \<Rightarrow> 'd \<Rightarrow> nat \<times> 'd"
  SPIWrite :: "nat \<Rightarrow> byte list \<Rightarrow> 'd \<Rightarrow> nat \<times> 'd"
  READ_PERI_REG :: "nat \<Rightarrow> 'd \<Rightarrow> 32 word \<times> 'd"
  WRITE_PERI_REG :: "nat \<Rightarrow> 32 word \<Rightarrow> 'd \<Rightarrow> 'd"
  ets_delay_us :: "nat \<Rightarrow> 'd \<Rightarrow> 'd"

record boot_options =
  BOOT_BIG_FLASH :: bool
  BOOT_CONFIG_CHKSUM :: bool
  BOOT_GPIO_ENABLED :: bool
  BOOT_RTC_ENABLED :: bool
  BOOT_IROM_CHKSUM :: bool
  BOOT_GPIO_NUM :: nat

text \<open>The options the repository builds its boot loader with.\<close>

definition repo_options :: boot_options where
  "repo_options = \<lparr>BOOT_BIG_FLASH = True, BOOT_CONFIG_CHKSUM = False, BOOT_GPIO_ENABLED = False,
     BOOT_RTC_ENABLED = True, BOOT_IROM_CHKSUM = False, BOOT_GPIO_NUM = 16\<rparr>"

definition CHKSUM_INIT :: byte where "CHKSUM_INIT = 0xef"
definition SECTOR_SIZE :: nat where "SECTOR_SIZE = 0x1000"
definition BOOT_CONFIG_SECTOR :: nat where "BOOT_CONFIG_SECTOR = 1"
definition BOOT_CONFIG_MAGIC :: byte where "BOOT_CONFIG_MAGIC = 0xe1"
definition BOOT_CONFIG_VERSION :: byte where "BOOT_CONFIG_VERSION = 0x01"
definition MODE_STANDARD :: byte where "MODE_STANDARD = 0x00"
definition MODE_GPIO_ROM :: byte where "MODE_GPIO_ROM = 0x01"
definition MODE_TEMP_ROM :: byte where "MODE_TEMP_ROM = 0x02"
definition MODE_GPIO_ERASES_SDKCONFIG :: byte where "MODE_GPIO_ERASES_SDKCONFIG = 0x04"
definition RBOOT_RTC_MAGIC :: "32 word" where "RBOOT_RTC_MAGIC = 0x2334ae68"
definition RBOOT_RTC_READ :: nat where "RBOOT_RTC_READ = 1"
definition RBOOT_RTC_WRITE :: nat where "RBOOT_RTC_WRITE = 0"
definition RBOOT_RTC_ADDR :: int where "RBOOT_RTC_ADDR = 64"
definition ROM_MAGIC :: byte where "ROM_MAGIC = 0xe9"
definition ROM_MAGIC_NEW1 :: byte where "ROM_MAGIC_NEW1 = 0xea"
definition ROM_MAGIC_NEW2 :: byte where "ROM_MAGIC_NEW2 = 0x04"
definition BUFFER_SIZE :: nat where "BUFFER_SIZE = 0x100"

definition word_at :: "byte list \<Rightarrow> nat \<Rightarrow> nat" where
  "word_at buf i = unat (of_le32 (buf ! i) (buf ! (i + 1)) (buf ! (i + 2)) (buf ! (i + 3)))"

section \<open>Checking an image\<close>

text \<open>The blocks of a section: the new read position and checksum, or \<open>None\<close> after a failed read.\<close>

function check_blocks :: "'d bootrom \<Rightarrow> nat \<Rightarrow> nat \<Rightarrow> byte \<Rightarrow> 'd \<Rightarrow> (nat \<times> byte) option \<times> 'd" where
  "check_blocks br readpos remaining chksum d =
     (if remaining > 0 then
        let readlen = (if remaining < BUFFER_SIZE then remaining else BUFFER_SIZE) in
        (case SPIRead br readpos readlen d of
           (st, buffer, d1) \<Rightarrow>
             if st \<noteq> 0 then (None, d1)
             else check_blocks br (u32 (readpos + readlen)) (remaining - readlen) (foldl (XOR) chksum buffer) d1)
      else (Some (readpos, chksum), d))"
  by pat_completeness auto
termination
  by (relation "measure (\<lambda>(br, readpos, remaining, chksum, d). remaining)") (auto simp: BUFFER_SIZE_def)

declare check_blocks.simps [simp del]

text \<open>The loop over the sections; with \<open>BOOT_IROM_CHKSUM\<close> a section count of 255 stands for
  the \<^verbatim>\<open>irom\<close> section, after which the real header is read. Both counters are \<^verbatim>\<open>uint8_t\<close>, so the
  second bound always holds.\<close>

function check_sections ::
  "boot_options \<Rightarrow> 'd bootrom \<Rightarrow> nat \<Rightarrow> nat \<Rightarrow> nat \<Rightarrow> byte \<Rightarrow> 'd \<Rightarrow> (nat \<times> byte) option \<times> 'd" where
  "check_sections opt br sectcurrent sectcount readpos chksum d =
     (if sectcurrent < sectcount \<and> sectcurrent < 255 then
        (case SPIRead br readpos 8 d of
           (st, section, d1) \<Rightarrow>
             if st \<noteq> 0 then (None, d1)
             else
               (case check_blocks br (u32 (readpos + 8)) (word_at section 4) chksum d1 of
                  (None, d2) \<Rightarrow> (None, d2)
                | (Some (readpos1, chksum1), d2) \<Rightarrow>
                    if BOOT_IROM_CHKSUM opt \<and> sectcount = 0xff then
                      (case SPIRead br readpos1 8 d2 of
                         (st, header, d3) \<Rightarrow>
                           if st \<noteq> 0 then (None, d3)
                           else check_sections opt br (sectcurrent + 1) (u8 (unat (header ! 1) + 1))
                                  (u32 (readpos1 + 8)) chksum1 d3)
                    else check_sections opt br (sectcurrent + 1) sectcount readpos1 chksum1 d2))
      else (Some (readpos, chksum), d))"
  by pat_completeness auto
termination
  by (relation "measure (\<lambda>(opt, br, sectcurrent, sectcount, readpos, chksum, d). 255 - sectcurrent)") auto

declare check_sections.simps [simp del]

text \<open>From the first section header on: the sections, then the stored checksum.\<close>

definition check_body :: "boot_options \<Rightarrow> 'd bootrom \<Rightarrow> nat \<Rightarrow> nat \<Rightarrow> nat \<Rightarrow> 'd \<Rightarrow> nat \<times> 'd" where
  "check_body opt br romaddr sectcount readpos d =
     (case check_sections opt br 0 sectcount readpos CHKSUM_INIT d of
        (None, d1) \<Rightarrow> (0, d1)
      | (Some (readpos1, chksum), d1) \<Rightarrow>
          (case SPIRead br (unat ((of_nat readpos1 :: 32 word) OR 0x0f)) 1 d1 of
             (st, buffer, d2) \<Rightarrow>
               if st \<noteq> 0 then (0, d2)
               else if buffer ! 0 \<noteq> chksum then (0, d2)
               else (romaddr, d2)))"

definition check_image :: "boot_options \<Rightarrow> 'd bootrom \<Rightarrow> nat \<Rightarrow> 'd \<Rightarrow> nat \<times> 'd" where
  "check_image opt br readpos d =
     (if readpos = 0 \<or> readpos = 0xffffffff then (0, d)
      else
        (case SPIRead br readpos 16 d of
           (st, header, d1) \<Rightarrow>
             if st \<noteq> 0 then (0, d1)
             else if header ! 0 = ROM_MAGIC then
               check_body opt br readpos (unat (header ! 1)) (u32 (readpos + 8)) d1
             else if header ! 0 = ROM_MAGIC_NEW1 \<and> header ! 1 = ROM_MAGIC_NEW2 then
               let romaddr = u32 (readpos + word_at header 12 + 16) in
               if BOOT_IROM_CHKSUM opt then check_body opt br romaddr 0xff (u32 (readpos + 8)) d1
               else
                 (case SPIRead br romaddr 8 d1 of
                    (st, header, d2) \<Rightarrow>
                      if st \<noteq> 0 then (0, d2)
                      else check_body opt br romaddr (unat (header ! 1)) (u32 (romaddr + 8)) d2)
             else (0, d1)))"

section \<open>Pins and RTC memory\<close>

definition reg_modify :: "'d bootrom \<Rightarrow> nat \<Rightarrow> (32 word \<Rightarrow> 32 word) \<Rightarrow> 'd \<Rightarrow> 'd" where
  "reg_modify br addr f d = (case READ_PERI_REG br addr d of (v, d1) \<Rightarrow> WRITE_PERI_REG br addr (f v) d1)"

definition get_gpio16 :: "'d bootrom \<Rightarrow> 'd \<Rightarrow> 32 word \<times> 'd" where
  "get_gpio16 br d =
     (let d1 = reg_modify br 0x60000768 (\<lambda>v. (v AND 0xfffffffe) OR 1) d;
          d2 = reg_modify br 0x600007a0 (\<lambda>v. (v AND 0xffffffbc) OR 1) d1;
          d3 = reg_modify br 0x60000790 (\<lambda>v. (v AND 0xfffffffe) OR 0) d2;
          d4 = reg_modify br 0x60000774 (\<lambda>v. v AND 0xfffffffe) d3 in
      (case READ_PERI_REG br 0x6000078c d4 of (v, d5) \<Rightarrow> (v AND 1, d5)))"

definition IOMUX_REG_OFFS :: "nat list" where
  "IOMUX_REG_OFFS = [0x34, 0x18, 0x38, 0x14, 0x3c, 0x40, 0x1c, 0x20, 0x24, 0x28, 0x2c, 0x30, 0x04, 0x08, 0x0c, 0x10]"

definition IOMUX_GPIO_FUNC :: "32 word list" where
  "IOMUX_GPIO_FUNC = [0x00, 0x30, 0x00, 0x30, 0x00, 0x00, 0x30, 0x30, 0x30, 0x30, 0x30, 0x30, 0x30, 0x30, 0x30, 0x30]"

definition get_gpio :: "'d bootrom \<Rightarrow> nat \<Rightarrow> 'd \<Rightarrow> nat \<times> 'd" where
  "get_gpio br gpio_num d =
     (case READ_PERI_REG br 0x6000030c d of
        (old_out, d1) \<Rightarrow>
          let d2 = WRITE_PERI_REG br 0x6000030c (old_out AND NOT (push_bit gpio_num 1)) d1;
              iomux_reg = 0x60000800 + IOMUX_REG_OFFS ! gpio_num in
          (case READ_PERI_REG br iomux_reg d2 of
             (old_iomux, d3) \<Rightarrow>
               let new_iomux = (old_iomux AND NOT 0x0130) OR IOMUX_GPIO_FUNC ! gpio_num OR 0x80;
                   d4 = ets_delay_us br 10 (WRITE_PERI_REG br iomux_reg new_iomux d3) in
               (case READ_PERI_REG br 0x60000318 d4 of
                  (inp, d5) \<Rightarrow>
                    (if inp AND push_bit gpio_num 1 \<noteq> 0 then 1 else 0,
                     WRITE_PERI_REG br 0x6000030c old_out (WRITE_PERI_REG br iomux_reg old_iomux d5)))))"

text \<open>The test \<^verbatim>\<open>romconf->mode & MODE_GPIO_ROM == 0\<close> compares first.\<close>

definition perform_gpio_boot :: "boot_options \<Rightarrow> 'd bootrom \<Rightarrow> byte \<Rightarrow> 'd \<Rightarrow> bool \<times> 'd" where
  "perform_gpio_boot opt br mode d =
     (if mode AND of_bool (MODE_GPIO_ROM = 0) \<noteq> 0 then (False, d)
      else if BOOT_GPIO_NUM opt = 16 then (case get_gpio16 br d of (v, d1) \<Rightarrow> (v = 0, d1))
      else (case get_gpio br (BOOT_GPIO_NUM opt) d of (v, d1) \<Rightarrow> (v = 0, d1)))"

text \<open>\<open>ptr\<close> is the address of the caller's buffer, \<open>buff\<close> its bytes; the words are copied from the last to
  the first.\<close>

fun rtc_copy :: "'d bootrom \<Rightarrow> nat \<Rightarrow> nat \<Rightarrow> nat \<Rightarrow> byte list \<Rightarrow> 'd \<Rightarrow> byte list \<times> 'd" where
  "rtc_copy br addr md 0 buff d = (buff, d)"
| "rtc_copy br addr md (Suc blocks) buff d =
     (let rtc = 0x60001100 + 4 * (addr + blocks) in
      if md = RBOOT_RTC_WRITE then
        rtc_copy br addr md blocks buff (WRITE_PERI_REG br rtc (of_nat (word_at buff (4 * blocks))) d)
      else
        (case READ_PERI_REG br rtc d of
           (v, d1) \<Rightarrow> rtc_copy br addr md blocks (take (4 * blocks) buff @ le32 v @ drop (4 * blocks + 4) buff) d1))"

definition system_rtc_mem ::
  "'d bootrom \<Rightarrow> int \<Rightarrow> nat \<Rightarrow> byte list \<Rightarrow> int \<Rightarrow> nat \<Rightarrow> 'd \<Rightarrow> bool \<times> byte list \<times> 'd" where
  "system_rtc_mem br addr ptr buff len md d =
     (if addr < 64 \<or> ptr = 0 \<or> ptr mod 4 \<noteq> 0 \<or> len mod 4 \<noteq> 0 \<or> len > 0x300 - addr * 4 then (False, buff, d)
      else (case rtc_copy br (nat addr) md (nat (len div 4)) buff d of (buff', d1) \<Rightarrow> (True, buff', d1)))"

definition calc_chksum :: "byte list \<Rightarrow> byte" where
  "calc_chksum bs = foldl (XOR) CHKSUM_INIT bs"

section \<open>The configuration sector\<close>

text \<open>Fields of the configuration at the start of the sector buffer.\<close>

definition conf_mode :: "byte list \<Rightarrow> byte" where "conf_mode buf = buf ! 2"
definition conf_current_rom :: "byte list \<Rightarrow> byte" where "conf_current_rom buf = buf ! 3"
definition conf_gpio_rom :: "byte list \<Rightarrow> byte" where "conf_gpio_rom buf = buf ! 4"
definition conf_count :: "byte list \<Rightarrow> byte" where "conf_count buf = buf ! 5"
definition conf_rom :: "byte list \<Rightarrow> int \<Rightarrow> nat" where "conf_rom buf i = word_at buf (nat (8 + 4 * i))"

definition config_valid :: "boot_options \<Rightarrow> byte list \<Rightarrow> bool" where
  "config_valid opt buf \<longleftrightarrow>
     buf ! 0 = BOOT_CONFIG_MAGIC \<and> buf ! 1 = BOOT_CONFIG_VERSION
     \<and> (BOOT_CONFIG_CHKSUM opt \<longrightarrow> buf ! 24 = calc_chksum (take 24 buf))"

definition set_chksum :: "boot_options \<Rightarrow> byte list \<Rightarrow> byte list" where
  "set_chksum opt buf = (if BOOT_CONFIG_CHKSUM opt then buf[24 := calc_chksum (take 24 buf)] else buf)"

definition flash_size :: "boot_options \<Rightarrow> byte \<Rightarrow> nat" where
  "flash_size opt flag =
     (if flag = 0 then 0x80000
      else if flag = 1 then 0x40000
      else if flag = 2 then 0x100000
      else if flag = 3 then (if BOOT_BIG_FLASH opt then 0x200000 else 0x100000)
      else if flag = 4 then (if BOOT_BIG_FLASH opt then 0x400000 else 0x100000)
      else 0x80000)"

definition default_config :: "boot_options \<Rightarrow> nat \<Rightarrow> byte list \<Rightarrow> byte list" where
  "default_config opt flashsize buf =
     set_chksum opt
       ([BOOT_CONFIG_MAGIC, BOOT_CONFIG_VERSION, 0, 0, 0, 2, 0, 0]
        @ le32 (of_nat (SECTOR_SIZE * (BOOT_CONFIG_SECTOR + 1)))
        @ le32 (of_nat (flashsize div 2 + SECTOR_SIZE * (BOOT_CONFIG_SECTOR + 1)))
        @ replicate (if BOOT_CONFIG_CHKSUM opt then 12 else 8) 0
        @ drop (if BOOT_CONFIG_CHKSUM opt then 28 else 24) buf)"

definition write_config :: "'d bootrom \<Rightarrow> byte list \<Rightarrow> 'd \<Rightarrow> 'd" where
  "write_config br buf d =
     snd (SPIWrite br (BOOT_CONFIG_SECTOR * SECTOR_SIZE) buf (snd (SPIEraseSector br BOOT_CONFIG_SECTOR d)))"

definition read_config :: "boot_options \<Rightarrow> 'd bootrom \<Rightarrow> nat \<Rightarrow> 'd \<Rightarrow> byte list \<times> 'd" where
  "read_config opt br flashsize d =
     (case SPIRead br (BOOT_CONFIG_SECTOR * SECTOR_SIZE) SECTOR_SIZE d of
        (_, buf, d1) \<Rightarrow>
          if config_valid opt buf then (buf, d1)
          else let buf' = default_config opt flashsize buf in (buf', write_config br buf' d1))"

section \<open>Choosing and booting a ROM\<close>

text \<open>The RTC structure is its twelve bytes: magic, \<open>next_mode\<close>, \<open>last_mode\<close>, \<open>last_rom\<close>, \<open>temp_rom\<close>,
  checksum, padding. The result is \<open>None\<close> for an invalid temporary ROM.\<close>

definition temp_select ::
  "boot_options \<Rightarrow> 'd bootrom \<Rightarrow> nat \<Rightarrow> byte list \<Rightarrow> byte list \<Rightarrow> 'd \<Rightarrow> int option option \<times> byte list \<times> 'd" where
  "temp_select opt br rtc_ptr rtc buf d =
     (if \<not> BOOT_RTC_ENABLED opt then (Some None, rtc, d)
      else
        (case system_rtc_mem br RBOOT_RTC_ADDR rtc_ptr rtc 12 RBOOT_RTC_READ d of
           (ok, rtc1, d1) \<Rightarrow>
             if ok \<and> rtc1 ! 8 = calc_chksum (take 8 rtc1) \<and> rtc1 ! 4 AND MODE_TEMP_ROM \<noteq> 0
             then if rtc1 ! 7 \<ge> conf_count buf then (None, rtc1, d1) else (Some (Some (int (unat (rtc1 ! 7)))), rtc1, d1)
             else (Some None, rtc1, d1)))"

fun erase_down :: "'d bootrom \<Rightarrow> nat \<Rightarrow> nat \<Rightarrow> nat \<Rightarrow> 'd \<Rightarrow> 'd" where
  "erase_down br last_sec sec 0 d = d"
| "erase_down br last_sec sec (Suc k) d = erase_down br last_sec (sec + 1) k (snd (SPIEraseSector br (last_sec - sec) d))"

text \<open>Whether a pin asks for the GPIO ROM; \<open>None\<close> for an invalid one.\<close>

definition gpio_select :: "boot_options \<Rightarrow> 'd bootrom \<Rightarrow> nat \<Rightarrow> byte list \<Rightarrow> 'd \<Rightarrow> bool option \<times> 'd" where
  "gpio_select opt br flashsize buf d =
     (if \<not> BOOT_GPIO_ENABLED opt then (Some False, d)
      else
        (case perform_gpio_boot opt br (conf_mode buf) d of
           (gpio, d1) \<Rightarrow>
             if \<not> gpio then (Some False, d1)
             else if conf_gpio_rom buf \<ge> conf_count buf then (None, d1)
             else if conf_mode buf AND MODE_GPIO_ERASES_SDKCONFIG \<noteq> 0
             then (Some True, erase_down br (flashsize div SECTOR_SIZE) 1 4 d1)
             else (Some True, d1)))"

text \<open>The search for a good ROM, backwards from the one that failed. The result is the address to run (0 if
  all are bad), the ROM number and whether the loop was entered. With a count of zero the loop need not end:
  it has \<open>fuel\<close>, and \<open>None\<close> means that it was still running.\<close>

fun rom_loop ::
  "nat \<Rightarrow> boot_options \<Rightarrow> 'd bootrom \<Rightarrow> byte list \<Rightarrow> nat \<Rightarrow> int \<Rightarrow> bool \<Rightarrow> 'd \<Rightarrow> (nat \<times> int \<times> bool \<times> 'd) option" where
  "rom_loop 0 opt br buf runAddr romToBoot upd d = None"
| "rom_loop (Suc fuel) opt br buf runAddr romToBoot upd d =
     (if runAddr \<noteq> 0 then Some (runAddr, romToBoot, upd, d)
      else
        let r1 = romToBoot - 1;
            r2 = (if r1 < 0 then int (unat (conf_count buf)) - 1 else r1) in
        if r2 = int (unat (conf_current_rom buf)) then Some (0, r2, True, d)
        else (case check_image opt br (conf_rom buf r2) d of
                (runAddr', d1) \<Rightarrow> rom_loop fuel opt br buf runAddr' r2 True d1))"

definition rtc_store :: "boot_options \<Rightarrow> 'd bootrom \<Rightarrow> nat \<Rightarrow> byte list \<Rightarrow> 'd \<Rightarrow> 'd" where
  "rtc_store opt br rtc_ptr rtc d =
     (if BOOT_RTC_ENABLED opt
      then snd (snd (system_rtc_mem br RBOOT_RTC_ADDR rtc_ptr (rtc[8 := calc_chksum (take 8 rtc)]) 12 RBOOT_RTC_WRITE d))
      else d)"

text \<open>Starting the ROM found: update the configuration and the RTC data, return the address.\<close>

definition boot_rom ::
  "boot_options \<Rightarrow> 'd bootrom \<Rightarrow> nat \<Rightarrow> byte list \<Rightarrow> byte list \<Rightarrow> bool \<Rightarrow> bool \<Rightarrow> bool \<Rightarrow> int \<Rightarrow> nat \<Rightarrow> 'd \<Rightarrow> nat \<times> 'd" where
  "boot_rom opt br rtc_ptr rtc buf upd temp_boot gpio_boot romToBoot runAddr d =
     (let d1 = (if upd then write_config br (set_chksum opt (buf[3 := word_of_int romToBoot])) d else d);
          last_mode = (MODE_STANDARD OR (if temp_boot then MODE_TEMP_ROM else 0) OR (if gpio_boot then MODE_GPIO_ROM else 0));
          rtc' = le32 RBOOT_RTC_MAGIC @ [MODE_STANDARD, last_mode, word_of_int romToBoot, 0] @ drop 8 rtc in
      (runAddr, rtc_store opt br rtc_ptr rtc' d1))"

text \<open>From the selection on: reset an invalid ROM number, check the image, fall back.\<close>

definition boot_selected ::
  "nat \<Rightarrow> boot_options \<Rightarrow> 'd bootrom \<Rightarrow> nat \<Rightarrow> byte list \<Rightarrow> byte list \<Rightarrow> bool \<Rightarrow> bool \<Rightarrow> int \<Rightarrow> 'd \<Rightarrow> (nat \<times> 'd) option" where
  "boot_selected fuel opt br rtc_ptr rtc buf temp_boot gpio_boot romToBoot d =
     (let invalid = conf_current_rom buf \<ge> conf_count buf;
          rom = (if invalid then 0 else romToBoot);
          buf1 = (if invalid then buf[3 := 0] else buf) in
      case check_image opt br (conf_rom buf1 rom) d of
        (runAddr, d1) \<Rightarrow>
          if gpio_boot \<and> runAddr = 0 then Some (0, d1)
          else if temp_boot \<and> runAddr = 0 then
            Some (0, rtc_store opt br rtc_ptr (rtc[4 := MODE_STANDARD]) d1)
          else
            (case rom_loop fuel opt br buf1 runAddr rom (gpio_boot \<or> invalid) d1 of
               None \<Rightarrow> None
             | Some (runAddr1, rom1, upd, d2) \<Rightarrow>
                 if runAddr1 = 0 then Some (0, d2)
                 else Some (boot_rom opt br rtc_ptr rtc buf1 upd temp_boot gpio_boot rom1 runAddr1 d2)))"

definition find_image :: "nat \<Rightarrow> boot_options \<Rightarrow> 'd bootrom \<Rightarrow> nat \<Rightarrow> byte list \<Rightarrow> 'd \<Rightarrow> (nat \<times> 'd) option" where
  "find_image fuel opt br rtc_ptr rtc d =
     (case SPIRead br 0 8 d of
        (_, header, d1) \<Rightarrow>
          let flashsize = flash_size opt (drop_bit 4 (header ! 3)) in
          (case read_config opt br flashsize d1 of
             (buf, d2) \<Rightarrow>
               (case temp_select opt br rtc_ptr rtc buf d2 of
                  (None, _, d3) \<Rightarrow> Some (0, d3)
                | (Some temp, rtc1, d3) \<Rightarrow>
                    let rom1 = (case temp of None \<Rightarrow> int (unat (conf_current_rom buf)) | Some r \<Rightarrow> r) in
                    (case gpio_select opt br flashsize buf d3 of
                       (None, d4) \<Rightarrow> Some (0, d4)
                     | (Some gpio_boot, d4) \<Rightarrow>
                         boot_selected fuel opt br rtc_ptr rtc1 buf (temp \<noteq> None) gpio_boot
                           (if gpio_boot then int (unat (conf_gpio_rom buf)) else rom1) d4))))"

section \<open>Loading the ROM\<close>

text \<open>\<open>load_rom\<close> of the second stage: the sections are copied to memory; \<open>mem\<close> is the memory.\<close>

function load_blocks :: "'d bootrom \<Rightarrow> nat \<Rightarrow> nat \<Rightarrow> nat \<Rightarrow> (nat \<Rightarrow> byte) \<Rightarrow> 'd \<Rightarrow> nat \<times> (nat \<Rightarrow> byte) \<times> 'd" where
  "load_blocks br readpos writepos remaining mem d =
     (if remaining > 0 then
        let readlen = (if remaining < BUFFER_SIZE then remaining else BUFFER_SIZE) in
        (case SPIRead br readpos readlen d of
           (_, buffer, d1) \<Rightarrow>
             load_blocks br (u32 (readpos + readlen)) (u32 (writepos + readlen)) (remaining - readlen)
               (\<lambda>a. if writepos \<le> a \<and> a < writepos + readlen then buffer ! (a - writepos) else mem a) d1)
      else (readpos, mem, d))"
  by pat_completeness auto
termination
  by (relation "measure (\<lambda>(br, readpos, writepos, remaining, mem, d). remaining)") (auto simp: BUFFER_SIZE_def)

declare load_blocks.simps [simp del]

fun load_sections :: "'d bootrom \<Rightarrow> nat \<Rightarrow> nat \<Rightarrow> (nat \<Rightarrow> byte) \<Rightarrow> 'd \<Rightarrow> (nat \<Rightarrow> byte) \<times> 'd" where
  "load_sections br 0 readpos mem d = (mem, d)"
| "load_sections br (Suc sectcount) readpos mem d =
     (case SPIRead br readpos 8 d of
        (_, section, d1) \<Rightarrow>
          (case load_blocks br (u32 (readpos + 8)) (word_at section 0) (word_at section 4) mem d1 of
             (readpos1, mem1, d2) \<Rightarrow> load_sections br sectcount readpos1 mem1 d2))"

definition load_rom :: "'d bootrom \<Rightarrow> nat \<Rightarrow> (nat \<Rightarrow> byte) \<Rightarrow> 'd \<Rightarrow> nat \<times> (nat \<Rightarrow> byte) \<times> 'd" where
  "load_rom br readpos mem d =
     (case SPIRead br readpos 8 d of
        (_, header, d1) \<Rightarrow>
          (case load_sections br (unat (header ! 1)) (u32 (readpos + 8)) mem d1 of
             (mem1, d2) \<Rightarrow> (word_at header 4, mem1, d2)))"

text \<open>The two stages: find an image, then load it and jump to its entry point (the result), or return.\<close>

definition call_user_start ::
  "nat \<Rightarrow> boot_options \<Rightarrow> 'd bootrom \<Rightarrow> nat \<Rightarrow> byte list \<Rightarrow> (nat \<Rightarrow> byte) \<Rightarrow> 'd \<Rightarrow> (nat option \<times> (nat \<Rightarrow> byte) \<times> 'd) option" where
  "call_user_start fuel opt br rtc_ptr rtc mem d =
     (case find_image fuel opt br rtc_ptr rtc d of
        None \<Rightarrow> None
      | Some (addr, d1) \<Rightarrow>
          if addr \<noteq> 0 then (case load_rom br addr mem d1 of (entry, mem1, d2) \<Rightarrow> Some (Some entry, mem1, d2))
          else Some (None, mem, d1))"

end
