(* ===== verification/Rboot_Boot.thy ===== *)
theory Rboot_Boot
  imports Rboot
begin

text \<open>
  The boot loader on a flash chip: what \<open>check_image\<close> accepts, which ROM \<open>find_image\<close> boots, and what the
  loader stage puts into memory. The locale \<open>boot_hw\<close> states what the mask-ROM routines and the RTC memory do.
\<close>

section \<open>The hardware\<close>

locale boot_hw =
  fixes br :: "'d bootrom" and mem :: "'d \<Rightarrow> cptr" and rtcw :: "'d \<Rightarrow> nat \<Rightarrow> 32 word" and csize :: nat
  assumes chip: "0x2000 \<le> csize" "csize \<le> 0x1000000"
    and rd: "a + n \<le> csize \<Longrightarrow> \<exists>d'. SPIRead br a n d = (0, bytes_at (mem d) a n, d') \<and> mem d' = mem d \<and> rtcw d' = rtcw d"
    and er: "4096 * sec + 4096 \<le> csize \<Longrightarrow>
        \<exists>d'. SPIEraseSector br sec d = (0, d') \<and> mem d' = nor_erase (4096 * sec) 4096 (mem d) \<and> rtcw d' = rtcw d"
    and wr: "4 dvd a \<Longrightarrow> 4 dvd length bs \<Longrightarrow> a + length bs \<le> csize \<Longrightarrow>
        \<exists>d'. SPIWrite br a bs d = (0, d') \<and> mem d' = nor_write a (\<lambda>i. bs ! i) (length bs) (mem d) \<and> rtcw d' = rtcw d"
    and rr: "0x60001100 \<le> a \<Longrightarrow> a < 0x60001400 \<Longrightarrow>
        \<exists>d'. READ_PERI_REG br a d = (rtcw d a, d') \<and> mem d' = mem d \<and> rtcw d' = rtcw d"
    and ww: "0x60001100 \<le> a \<Longrightarrow> a < 0x60001400 \<Longrightarrow>
        mem (WRITE_PERI_REG br a v d) = mem d \<and> rtcw (WRITE_PERI_REG br a v d) = (rtcw d)(a := v)"

section \<open>What is a good image\<close>

definition mword :: "cptr \<Rightarrow> nat \<Rightarrow> nat" where
  "mword m a = unat (of_le32 (m a) (m (a + 1)) (m (a + 2)) (m (a + 3)))"

text \<open>The bytes of \<open>k\<close> sections stored from \<open>pos\<close> on, and the position after them.\<close>

fun payload :: "cptr \<Rightarrow> nat \<Rightarrow> nat \<Rightarrow> byte list \<times> nat" where
  "payload m 0 pos = ([], pos)"
| "payload m (Suc k) pos =
     (case payload m k (pos + 8 + mword m (pos + 4)) of
        (bs, e) \<Rightarrow> (bytes_at m (pos + 8) (mword m (pos + 4)) @ bs, e))"

definition sum_pos :: "nat \<Rightarrow> nat" where
  "sum_pos e = 16 * (e div 16) + 15"

text \<open>An image proper: a header with the section count, the sections, and at the end of the
  16-byte line after them the checksum.\<close>

definition image_end :: "cptr \<Rightarrow> nat \<Rightarrow> nat" where
  "image_end m a = sum_pos (snd (payload m (unat (m (a + 1))) (a + 8)))"

definition image_sum_ok :: "cptr \<Rightarrow> nat \<Rightarrow> bool" where
  "image_sum_ok m a \<longleftrightarrow> m (image_end m a) = calc_chksum (fst (payload m (unat (m (a + 1))) (a + 8)))"

text \<open>Where the image proper of the ROM at \<open>a\<close> starts: a new-style ROM has an \<^verbatim>\<open>irom\<close> section first.\<close>

definition image_start :: "cptr \<Rightarrow> nat \<Rightarrow> nat option" where
  "image_start m a =
     (if a = 0 \<or> a = 0xffffffff then None
      else if m a = ROM_MAGIC then Some a
      else if m a = ROM_MAGIC_NEW1 \<and> m (a + 1) = ROM_MAGIC_NEW2 then Some (a + mword m (a + 12) + 16)
      else None)"

definition run_addr :: "cptr \<Rightarrow> nat \<Rightarrow> nat" where
  "run_addr m a =
     (case image_start m a of None \<Rightarrow> 0 | Some s \<Rightarrow> if image_sum_ok m s then s else 0)"

text \<open>The ROM lies within the chip.\<close>

definition image_fits :: "nat \<Rightarrow> cptr \<Rightarrow> nat \<Rightarrow> bool" where
  "image_fits csize m a \<longleftrightarrow>
     (a = 0 \<or> a = 0xffffffff \<or> a + 16 \<le> csize \<and> (case image_start m a of None \<Rightarrow> True | Some s \<Rightarrow> image_end m s < csize))"

lemma payload_mono: "pos \<le> snd (payload m k pos)"
proof (induction k arbitrary: pos)
  case (Suc k)
  show ?case using Suc[of "pos + 8 + mword m (pos + 4)"] by (auto split: prod.splits)
qed simp

lemma sum_pos_ge: "e \<le> sum_pos e"
  unfolding sum_pos_def by linarith

lemma sum_pos_word: "e < 0x100000000 \<Longrightarrow> unat ((of_nat e :: 32 word) OR 0x0f) = sum_pos e"
proof -
  assume e: "e < 0x100000000"
  have m: "(15 :: nat) = mask 4" by (simp add: mask_eq_exp_minus_1)
  have "unat ((of_nat e :: 32 word) OR 0x0f) = e OR mask 4"
    using e by (simp add: unsigned_or_eq unsigned_of_nat take_bit_nat_eq_self flip: m)
  also have "\<dots> = push_bit 4 (drop_bit 4 e) OR mask 4"
    by (rule bit_eqI) (auto simp: bit_simps)
  also have "\<dots> = push_bit 4 (drop_bit 4 e) + mask 4"
    by (rule disjunctive_add[symmetric]) (auto simp: bit_simps)
  also have "\<dots> = sum_pos e" by (simp add: sum_pos_def push_bit_eq_mult drop_bit_eq_div flip: m)
  finally show ?thesis .
qed

lemma word_at_bytes: "i + 4 \<le> n \<Longrightarrow> word_at (bytes_at m a n) i = mword m (a + i)"
  by (simp add: word_at_def mword_def add.assoc)

context boot_hw
begin

lemma check_blocks_sum:
  assumes "pos + n \<le> csize"
  shows "\<exists>d'. check_blocks br pos n c d = (Some (pos + n, foldl (XOR) c (bytes_at (mem d) pos n)), d')
    \<and> mem d' = mem d \<and> rtcw d' = rtcw d"
  using assms
proof (induction n arbitrary: pos c d rule: less_induct)
  case (less n)
  show ?case
  proof (cases "n = 0")
    case True
    then show ?thesis by (simp add: check_blocks.simps bytes_at_def)
  next
    case False
    let ?k = "if n < BUFFER_SIZE then n else BUFFER_SIZE"
    have k: "0 < ?k" "?k \<le> n" using False by (auto simp: BUFFER_SIZE_def)
    obtain d1 where r: "SPIRead br pos ?k d = (0, bytes_at (mem d) pos ?k, d1)" "mem d1 = mem d" "rtcw d1 = rtcw d"
      using rd[of pos ?k d] k less.prems by auto
    let ?c = "foldl (XOR) c (bytes_at (mem d) pos ?k)"
    have u: "u32 (pos + ?k) = pos + ?k" using k less.prems chip(2) by (intro u32_small) linarith
    have "\<exists>d'. check_blocks br (pos + ?k) (n - ?k) ?c d1 =
        (Some (pos + ?k + (n - ?k), foldl (XOR) ?c (bytes_at (mem d1) (pos + ?k) (n - ?k))), d')
      \<and> mem d' = mem d1 \<and> rtcw d' = rtcw d1"
      using k less.prems by (intro less.IH) auto
    moreover have "bytes_at (mem d) pos n = bytes_at (mem d) pos ?k @ bytes_at (mem d) (pos + ?k) (n - ?k)"
      using bytes_at_append[of "mem d" pos ?k "n - ?k"] k by simp
    moreover have "check_blocks br pos n c d = check_blocks br (pos + ?k) (n - ?k) ?c d1"
      using False by (subst check_blocks.simps) (simp add: Let_def r(1) u)
    ultimately show ?thesis using r k by simp
  qed
qed

lemma check_sections_sum:
  assumes "snd (payload (mem d) k pos) \<le> csize" and "i + k \<le> 255" and "\<not> BOOT_IROM_CHKSUM opt"
  shows "\<exists>d'. check_sections opt br i (i + k) pos c d =
      (Some (snd (payload (mem d) k pos), foldl (XOR) c (fst (payload (mem d) k pos))), d')
    \<and> mem d' = mem d \<and> rtcw d' = rtcw d"
  using assms(1,2)
proof (induction k arbitrary: i pos c d)
  case 0
  then show ?case by (simp add: check_sections.simps)
next
  case (Suc k)
  let ?n = "mword (mem d) (pos + 4)"
  obtain bs e where p: "payload (mem d) k (pos + 8 + ?n) = (bs, e)" by fastforce
  have le: "pos + 8 + ?n \<le> e" "e \<le> csize" using payload_mono[of "pos + 8 + ?n" "mem d" k] p Suc.prems(1) by simp_all
  obtain d1 where r: "SPIRead br pos 8 d = (0, bytes_at (mem d) pos 8, d1)" "mem d1 = mem d" "rtcw d1 = rtcw d"
    using rd[of pos 8 d] le by auto
  have u: "u32 (pos + 8) = pos + 8" using le chip(2) by (intro u32_small) linarith
  obtain d2 where b: "check_blocks br (pos + 8) ?n c d1 = (Some (pos + 8 + ?n, foldl (XOR) c (bytes_at (mem d) (pos + 8) ?n)), d2)"
    "mem d2 = mem d" "rtcw d2 = rtcw d"
    using check_blocks_sum[of "pos + 8" ?n c d1] le r by auto
  let ?c = "foldl (XOR) c (bytes_at (mem d) (pos + 8) ?n)"
  have "\<exists>d'. check_sections opt br (i + 1) (i + 1 + k) (pos + 8 + ?n) ?c d2 =
      (Some (snd (payload (mem d2) k (pos + 8 + ?n)), foldl (XOR) ?c (fst (payload (mem d2) k (pos + 8 + ?n)))), d')
    \<and> mem d' = mem d2 \<and> rtcw d' = rtcw d2"
    using p b le Suc.prems(2) by (intro Suc.IH) auto
  moreover have "check_sections opt br i (i + Suc k) pos c d = check_sections opt br (i + 1) (i + 1 + k) (pos + 8 + ?n) ?c d2"
    using Suc.prems(2) assms(3) r(1) b(1) u
    by (subst check_sections.simps) (simp add: word_at_bytes)
  ultimately show ?case using p b by simp
qed

lemma check_body_sum:
  assumes "image_end (mem d) s < csize" and "\<not> BOOT_IROM_CHKSUM opt"
  shows "\<exists>d'. check_body opt br r (unat (mem d (s + 1))) (s + 8) d = (if image_sum_ok (mem d) s then r else 0, d')
    \<and> mem d' = mem d \<and> rtcw d' = rtcw d"
proof -
  define k where "k = unat (mem d (s + 1))"
  obtain bs e where p: "payload (mem d) k (s + 8) = (bs, e)" by fastforce
  have e: "e < csize" "sum_pos e < csize"
    using assms(1) sum_pos_ge[of e] p unfolding image_end_def k_def[symmetric] by simp_all
  have "k \<le> 255" using unsigned_less[of "mem d (s + 1)", where ?'a = nat] by (simp add: k_def)
  with e(1) assms(2) p obtain d1 where c: "check_sections opt br 0 k (s + 8) CHKSUM_INIT d =
      (Some (e, foldl (XOR) CHKSUM_INIT bs), d1)" "mem d1 = mem d" "rtcw d1 = rtcw d"
    using check_sections_sum[of d k "s + 8" 0 opt CHKSUM_INIT] by auto
  have w: "unat ((of_nat e :: 32 word) OR 0x0f) = sum_pos e" using e chip(2) by (intro sum_pos_word) linarith
  obtain d2 where r: "SPIRead br (sum_pos e) 1 d1 = (0, bytes_at (mem d) (sum_pos e) 1, d2)" "mem d2 = mem d" "rtcw d2 = rtcw d"
    using rd[of "sum_pos e" 1 d1] e c by auto
  have "image_sum_ok (mem d) s \<longleftrightarrow> mem d (sum_pos e) = foldl (XOR) CHKSUM_INIT bs"
    unfolding image_sum_ok_def image_end_def k_def[symmetric] p by (simp add: calc_chksum_def)
  then show ?thesis unfolding k_def[symmetric] using c r by (simp add: check_body_def w)
qed

lemma image_end_gt: "a + 8 \<le> image_end m a"
  using payload_mono[of "a + 8" m "unat (m (a + 1))"] sum_pos_ge by (auto simp: image_end_def intro: order_trans)

lemma check_image_run:
  assumes "image_fits csize (mem d) a" and "\<not> BOOT_IROM_CHKSUM opt"
  shows "\<exists>d'. check_image opt br a d = (run_addr (mem d) a, d') \<and> mem d' = mem d \<and> rtcw d' = rtcw d"
proof (cases "a = 0 \<or> a = 0xffffffff")
  case True
  then show ?thesis by (auto simp: check_image_def run_addr_def image_start_def)
next
  case False
  then have a: "a + 16 \<le> csize" and f: "\<And>s. image_start (mem d) a = Some s \<Longrightarrow> image_end (mem d) s < csize"
    using assms(1) by (auto simp: image_fits_def)
  obtain d1 where r: "SPIRead br a 16 d = (0, bytes_at (mem d) a 16, d1)" "mem d1 = mem d" "rtcw d1 = rtcw d"
    using rd[of a 16 d] a by auto
  have u: "u32 (a + 8) = a + 8" using a chip(2) by (intro u32_small) linarith
  consider (old) "mem d a = ROM_MAGIC" | (new) "mem d a \<noteq> ROM_MAGIC" "mem d a = ROM_MAGIC_NEW1" "mem d (a + 1) = ROM_MAGIC_NEW2"
    | (bad) "mem d a \<noteq> ROM_MAGIC" "\<not> (mem d a = ROM_MAGIC_NEW1 \<and> mem d (a + 1) = ROM_MAGIC_NEW2)" by blast
  then show ?thesis
  proof cases
    case old
    then have s: "image_start (mem d) a = Some a" using False by (simp add: image_start_def)
    then show ?thesis using old False r u check_body_sum[of d1 a opt a] f assms(2)
      by (auto simp: check_image_def run_addr_def)
  next
    case new
    let ?s = "a + mword (mem d) (a + 12) + 16"
    have s: "image_start (mem d) a = Some ?s" using new False by (simp add: image_start_def)
    then have e: "image_end (mem d) ?s < csize" by (rule f)
    then have "?s + 8 \<le> csize" using image_end_gt[of ?s "mem d"] by linarith
    then obtain d2 where h: "SPIRead br ?s 8 d1 = (0, bytes_at (mem d) ?s 8, d2)" "mem d2 = mem d" "rtcw d2 = rtcw d"
      using rd[of ?s 8 d1] r by auto
    have u': "u32 ?s = ?s" "u32 (?s + 8) = ?s + 8" using \<open>?s + 8 \<le> csize\<close> chip(2) by (auto intro!: u32_small)
    show ?thesis using new False r h s u' e check_body_sum[of d2 ?s opt ?s] assms(2)
      by (auto simp: check_image_def run_addr_def word_at_bytes Let_def)
  next
    case bad
    then show ?thesis using False r by (auto simp: check_image_def run_addr_def image_start_def)
  qed
qed

end

section \<open>Which ROM is booted\<close>

text \<open>The ROMs in the order they are tried: downwards from the current one, wrapping.\<close>

definition boot_order :: "nat \<Rightarrow> nat \<Rightarrow> nat list" where
  "boot_order n c = map (\<lambda>k. nat ((int c - int k) mod int n)) [0..<n]"

definition slot_addr :: "cptr \<Rightarrow> byte list \<Rightarrow> nat \<Rightarrow> nat" where
  "slot_addr m buf i = run_addr m (conf_rom buf (int i))"

definition boot_choice :: "cptr \<Rightarrow> byte list \<Rightarrow> nat option" where
  "boot_choice m buf =
     find (\<lambda>i. slot_addr m buf i \<noteq> 0) (boot_order (unat (conf_count buf)) (unat (conf_current_rom buf)))"

definition with_config :: "byte list \<Rightarrow> cptr \<Rightarrow> cptr" where
  "with_config buf m i = (if 0x1000 \<le> i \<and> i < 0x2000 then buf ! (i - 0x1000) else m i)"

definition rtc_bytes :: "(nat \<Rightarrow> 32 word) \<Rightarrow> byte list" where
  "rtc_bytes w = le32 (w 0x60001200) @ le32 (w 0x60001204) @ le32 (w 0x60001208)"

definition temp_requested :: "(nat \<Rightarrow> 32 word) \<Rightarrow> bool" where
  "temp_requested w \<longleftrightarrow> rtc_bytes w ! 8 = calc_chksum (take 8 (rtc_bytes w)) \<and> rtc_bytes w ! 4 AND MODE_TEMP_ROM \<noteq> 0"

lemma boot_order_first: "c < n \<Longrightarrow> \<exists>xs. boot_order n c = c # xs"
  by (simp add: boot_order_def upt_conv_Cons)

lemma find_map_comp: "find P (map f xs) = map_option f (find (P \<circ> f) xs)"
  by (induction xs) simp_all

lemma previous_rom:
  assumes "0 < n" and "r = (c - k) mod int n"
  shows "(if r - 1 < 0 then int n - 1 else r - 1) = (c - (k + 1)) mod int n"
proof -
  have b: "0 \<le> r" "r < int n" using assms by simp_all
  have "(c - (k + 1)) mod int n = (r - 1) mod int n" unfolding assms(2) by (simp add: mod_diff_left_eq algebra_simps)
  also have "\<dots> = (if r - 1 < 0 then int n - 1 else r - 1)"
  proof (cases "r = 0")
    case True
    then show ?thesis using assms(1) by (simp add: zmod_minus1)
  next
    case False
    then show ?thesis using b by (simp add: mod_pos_pos_trivial)
  qed
  finally show ?thesis by simp
qed

lemma not_yet_around:
  assumes "c < n" and "0 < j" and "j < n"
  shows "(int c - int j) mod int n \<noteq> int c"
proof
  assume "(int c - int j) mod int n = int c"
  moreover have "int c mod int n = int c" using assms(1) by simp
  ultimately have "int n dvd (int c - int j) - int c" by (metis mod_eq_dvd_iff)
  then have "int n dvd int j" by simp
  then show False using assms(2,3) zdvd_imp_le[of "int n" "int j"] by simp
qed

lemma rom_loop_next:
  assumes "(if r - 1 < 0 then int (unat (conf_count buf)) - 1 else r - 1) = r2"
  shows "rom_loop (Suc f) opt br buf 0 r upd d =
    (if r2 = int (unat (conf_current_rom buf)) then Some (0, r2, True, d)
     else (case check_image opt br (conf_rom buf r2) d of (a, d1) \<Rightarrow> rom_loop f opt br buf a r2 True d1))"
  unfolding rom_loop.simps Let_def assms by simp

context boot_hw
begin

lemma rom_loop_result:
  fixes buf opt m
  defines "n \<equiv> unat (conf_count buf)" and "c \<equiv> unat (conf_current_rom buf)"
  defines "at \<equiv> \<lambda>k. nat ((int c - int k) mod int n)"
  assumes "c < n" and "\<And>i. i < n \<Longrightarrow> image_fits csize m (conf_rom buf (int i))" and "\<not> BOOT_IROM_CHKSUM opt"
  shows "k < n \<Longrightarrow> n - k \<le> f \<Longrightarrow> mem d = m \<Longrightarrow>
    \<exists>d'. rom_loop (Suc f) opt br buf (slot_addr m buf (at k)) (int (at k)) upd d =
      (case find (\<lambda>j. slot_addr m buf (at j) \<noteq> 0) [k..<n] of
         None \<Rightarrow> Some (0, int c, True, d')
       | Some j \<Rightarrow> Some (slot_addr m buf (at j), int (at j), upd \<or> k < j, d'))
      \<and> mem d' = m \<and> rtcw d' = rtcw d"
proof (induction "n - k" arbitrary: k f upd d)
  case 0
  then show ?case by simp
next
  case (Suc x)
  have n: "0 < n" using assms(4) by simp
  have at: "int (at k) = (int c - int k) mod int n" for k using n by (simp add: at_def)
  have u: "[k..<n] = k # [Suc k..<n]" using Suc.prems(1) by (rule upt_conv_Cons)
  show ?case
  proof (cases "slot_addr m buf (at k) = 0")
    case False
    then show ?thesis using Suc.prems(3) by (auto simp: u)
  next
    case True
    have r2: "(if int (at k) - 1 < 0 then int n - 1 else int (at k) - 1) = int (at (Suc k))"
      using previous_rom[OF n at, of k] at[of "Suc k"] by (simp add: algebra_simps)
    show ?thesis
    proof (cases "Suc k = n")
      case last: True
      have "int (at (Suc k)) = int c" using at[of "Suc k"] assms(4) last by simp
      then show ?thesis using True Suc.prems(3) last
        by (simp add: rom_loop_next[OF r2[unfolded n_def]] u c_def del: rom_loop.simps)
    next
      case False
      then have k: "Suc k < n" using Suc.prems(1) by simp
      have ne: "int (at (Suc k)) \<noteq> int c" using not_yet_around[OF assms(4) _ k] at[of "Suc k"] by simp
      have "at (Suc k) < n" using at[of "Suc k"] n by (simp add: at_def nat_less_iff)
      then obtain d1 where ch: "check_image opt br (conf_rom buf (int (at (Suc k)))) d = (slot_addr m buf (at (Suc k)), d1)"
        "mem d1 = m" "rtcw d1 = rtcw d"
        using check_image_run[of d "conf_rom buf (int (at (Suc k)))" opt] assms(5,6) Suc.prems(3) by (auto simp: slot_addr_def)
      obtain g where g: "f = Suc g" using Suc.prems(1,2) by (cases f) auto
      let ?F = "find (\<lambda>j. slot_addr m buf (at j) \<noteq> 0) [Suc k..<n]"
      have "\<exists>d'. rom_loop (Suc g) opt br buf (slot_addr m buf (at (Suc k))) (int (at (Suc k))) True d1 =
        (case find (\<lambda>j. slot_addr m buf (at j) \<noteq> 0) [Suc k..<n] of
           None \<Rightarrow> Some (0, int c, True, d')
         | Some j \<Rightarrow> Some (slot_addr m buf (at j), int (at j), True \<or> Suc k < j, d'))
        \<and> mem d' = m \<and> rtcw d' = rtcw d1"
        using Suc.hyps(2) Suc.prems(2) k g ch(2) by (intro Suc.hyps(1)) auto
      then obtain d' where lp: "rom_loop (Suc g) opt br buf (slot_addr m buf (at (Suc k))) (int (at (Suc k))) True d1 =
        (case ?F of None \<Rightarrow> Some (0, int c, True, d')
         | Some j \<Rightarrow> Some (slot_addr m buf (at j), int (at j), True \<or> Suc k < j, d'))"
        and d': "mem d' = m" "rtcw d' = rtcw d" unfolding ch(3) by blast
      have st: "rom_loop (Suc f) opt br buf (slot_addr m buf (at k)) (int (at k)) upd d =
          rom_loop (Suc g) opt br buf (slot_addr m buf (at (Suc k))) (int (at (Suc k))) True d1"
        unfolding g True rom_loop_next[OF r2[unfolded n_def]] using ne ch(1) by (simp add: c_def del: rom_loop.simps)
      have "k < j" if "?F = Some j" for j
        using that by (auto simp: find_Some_iff)
      then have "(case ?F of None \<Rightarrow> Some (0, int c, True, d')
          | Some j \<Rightarrow> Some (slot_addr m buf (at j), int (at j), True \<or> Suc k < j, d')) =
        (case find (\<lambda>j. slot_addr m buf (at j) \<noteq> 0) [k..<n] of None \<Rightarrow> Some (0, int c, True, d')
          | Some j \<Rightarrow> Some (slot_addr m buf (at j), int (at j), upd \<or> k < j, d'))"
        using True by (cases ?F) (simp_all add: u)
      then show ?thesis using d' unfolding st lp by blast
    qed
  qed
qed

lemma rtc_copy_read:
  assumes "length buff = 12"
  shows "\<exists>d'. rtc_copy br 64 RBOOT_RTC_READ 3 buff d = (rtc_bytes (rtcw d), d') \<and> mem d' = mem d \<and> rtcw d' = rtcw d"
proof -
  obtain d1 where 1: "READ_PERI_REG br 0x60001208 d = (rtcw d 0x60001208, d1)" "mem d1 = mem d" "rtcw d1 = rtcw d"
    using rr[of "0x60001208" d] by auto
  obtain d2 where 2: "READ_PERI_REG br 0x60001204 d1 = (rtcw d 0x60001204, d2)" "mem d2 = mem d" "rtcw d2 = rtcw d"
    using rr[of "0x60001204" d1] 1 by auto
  obtain d3 where 3: "READ_PERI_REG br 0x60001200 d2 = (rtcw d 0x60001200, d3)" "mem d3 = mem d" "rtcw d3 = rtcw d"
    using rr[of "0x60001200" d2] 2 by auto
  show ?thesis
    using assms 1 2 3
    by (simp add: numeral_3_eq_3 RBOOT_RTC_READ_def RBOOT_RTC_WRITE_def Let_def rtc_bytes_def le32_def)
qed

lemma rtc_copy_write: "mem (snd (rtc_copy br 64 RBOOT_RTC_WRITE 3 buff d)) = mem d"
  using ww by (simp add: numeral_3_eq_3 RBOOT_RTC_WRITE_def Let_def)

lemma rtc_store_mem: "mem (rtc_store opt br ptr rtc d) = mem d"
  using rtc_copy_write by (auto simp: rtc_store_def system_rtc_mem_def RBOOT_RTC_ADDR_def split: prod.splits)

lemma temp_select_none:
  assumes "length rtc = 12" and "ptr \<noteq> 0" and "4 dvd ptr" and "BOOT_RTC_ENABLED opt \<longrightarrow> \<not> temp_requested (rtcw d)"
  shows "\<exists>rtc1 d'. temp_select opt br ptr rtc buf d = (Some None, rtc1, d') \<and> mem d' = mem d \<and> rtcw d' = rtcw d"
proof (cases "BOOT_RTC_ENABLED opt")
  case True
  obtain d' where "rtc_copy br 64 RBOOT_RTC_READ 3 rtc d = (rtc_bytes (rtcw d), d')" "mem d' = mem d" "rtcw d' = rtcw d"
    using rtc_copy_read[OF assms(1)] by blast
  then show ?thesis
    using True assms by (simp add: temp_select_def system_rtc_mem_def RBOOT_RTC_ADDR_def temp_requested_def dvd_eq_mod_eq_0)
qed (simp add: temp_select_def)

lemma write_config_mem:
  assumes "length buf = 4096"
  shows "mem (write_config br buf d) = with_config buf (mem d)" "rtcw (write_config br buf d) = rtcw d"
proof -
  obtain d1 where e: "SPIEraseSector br 1 d = (0, d1)" "mem d1 = nor_erase 4096 4096 (mem d)" "rtcw d1 = rtcw d"
    using er[of 1 d] chip(1) by auto
  obtain d2 where w: "SPIWrite br 4096 buf d1 = (0, d2)" "mem d2 = nor_write 4096 (\<lambda>i. buf ! i) 4096 (mem d1)" "rtcw d2 = rtcw d1"
    using wr[of 4096 buf d1] chip(1) assms by auto
  show "mem (write_config br buf d) = with_config buf (mem d)" "rtcw (write_config br buf d) = rtcw d"
    using e w by (auto simp: write_config_def BOOT_CONFIG_SECTOR_def SECTOR_SIZE_def with_config_def nor_write_def nor_erase_def)
qed

lemma set_chksum_length [simp]: "length (set_chksum opt buf) = length buf"
  by (simp add: set_chksum_def)

lemma boot_selected_standard:
  fixes buf opt
  assumes "length buf = 4096" and "0 < conf_count buf" and "conf_current_rom buf < conf_count buf"
    and "\<And>i. i < unat (conf_count buf) \<Longrightarrow> image_fits csize (mem d) (conf_rom buf (int i))"
    and "\<not> BOOT_IROM_CHKSUM opt" and "unat (conf_count buf) < fuel"
  shows "\<exists>d'. boot_selected fuel opt br ptr rtc buf False False (int (unat (conf_current_rom buf))) d =
      Some (case boot_choice (mem d) buf of None \<Rightarrow> 0 | Some i \<Rightarrow> slot_addr (mem d) buf i, d')
    \<and> mem d' = (case boot_choice (mem d) buf of None \<Rightarrow> mem d
        | Some i \<Rightarrow> if i = unat (conf_current_rom buf) then mem d
                    else with_config (set_chksum opt (buf[3 := of_nat i])) (mem d))"
proof -
  define n where "n = unat (conf_count buf)"
  define c where "c = unat (conf_current_rom buf)"
  define at where "at k = nat ((int c - int k) mod int n)" for k
  define m where "m = mem d"
  have cn: "c < n" using assms(3) by (simp add: n_def c_def word_less_nat_alt)
  have at0: "at 0 = c" using cn by (simp add: at_def)
  obtain d1 where ch: "check_image opt br (conf_rom buf (int c)) d = (slot_addr m buf c, d1)" "mem d1 = m" "rtcw d1 = rtcw d"
    using check_image_run[of d "conf_rom buf (int c)" opt] assms(4)[of c] cn assms(5) by (auto simp: slot_addr_def n_def m_def)
  obtain f where f: "fuel = Suc f" "n \<le> f" using assms(6) by (cases fuel) (auto simp: n_def)
  have "\<exists>d2. rom_loop (Suc f) opt br buf (slot_addr m buf (at 0)) (int (at 0)) False d1 =
      (case find (\<lambda>j. slot_addr m buf (at j) \<noteq> 0) [0..<n] of
         None \<Rightarrow> Some (0, int c, True, d2)
       | Some j \<Rightarrow> Some (slot_addr m buf (at j), int (at j), False \<or> 0 < j, d2))
      \<and> mem d2 = m \<and> rtcw d2 = rtcw d1"
    unfolding at_def n_def c_def
    using cn f(2) ch(2) assms(4,5) by (intro rom_loop_result) (simp_all add: n_def c_def m_def)
  then obtain d2 where lp: "rom_loop fuel opt br buf (slot_addr m buf c) (int c) False d1 =
      (case find (\<lambda>j. slot_addr m buf (at j) \<noteq> 0) [0..<n] of
         None \<Rightarrow> Some (0, int c, True, d2)
       | Some j \<Rightarrow> Some (slot_addr m buf (at j), int (at j), False \<or> 0 < j, d2))" and d2: "mem d2 = m"
    unfolding f(1) at0 by blast
  have bc: "boot_choice m buf = map_option at (find (\<lambda>j. slot_addr m buf (at j) \<noteq> 0) [0..<n])"
    unfolding boot_choice_def boot_order_def n_def[symmetric] c_def[symmetric]
    by (simp add: find_map_comp comp_def at_def[abs_def])
  have inv: "\<not> conf_current_rom buf \<ge> conf_count buf" using assms(3) by simp
  note unf = boot_selected_def Let_def c_def[symmetric] m_def[symmetric] bc
  show ?thesis
  proof (cases "find (\<lambda>j. slot_addr m buf (at j) \<noteq> 0) [0..<n]")
    case None
    then show ?thesis using inv ch lp d2 unfolding unf by simp
  next
    case (Some j)
    then have j: "j < n" "slot_addr m buf (at j) \<noteq> 0" by (auto simp: find_Some_iff)
    have "int (at j) = (int c - int j) mod int n" using cn by (simp add: at_def)
    then have "at j = c \<longleftrightarrow> j = 0" using not_yet_around[OF cn, of j] j(1) at0 by (cases "j = 0") auto
    moreover have "mem (write_config br (set_chksum opt (buf[3 := word_of_int (int (at j))])) d2) =
        with_config (set_chksum opt (buf[3 := word_of_nat (at j)])) m"
      using write_config_mem(1)[of "set_chksum opt (buf[3 := word_of_nat (at j)])" d2] assms(1) d2 by simp
    ultimately show ?thesis
      using inv Some ch lp d2 j(2) unfolding unf by (auto simp: boot_rom_def Let_def rtc_store_mem)
  qed
qed

lemma find_image_standard:
  fixes opt d
  defines "buf \<equiv> bytes_at (mem d) 0x1000 4096"
  assumes "config_valid opt buf" and "conf_current_rom buf < conf_count buf"
    and "\<And>i. i < unat (conf_count buf) \<Longrightarrow> image_fits csize (mem d) (conf_rom buf (int i))"
    and "\<not> BOOT_IROM_CHKSUM opt" and "\<not> BOOT_GPIO_ENABLED opt" and "BOOT_RTC_ENABLED opt \<longrightarrow> \<not> temp_requested (rtcw d)"
    and "length rtc = 12" and "ptr \<noteq> 0" and "4 dvd ptr" and "unat (conf_count buf) < fuel"
  shows "\<exists>d'. find_image fuel opt br ptr rtc d =
      Some (case boot_choice (mem d) buf of None \<Rightarrow> 0 | Some i \<Rightarrow> slot_addr (mem d) buf i, d')
    \<and> mem d' = (case boot_choice (mem d) buf of None \<Rightarrow> mem d
        | Some i \<Rightarrow> if i = unat (conf_current_rom buf) then mem d
                    else with_config (set_chksum opt (buf[3 := of_nat i])) (mem d))"
proof -
  obtain d1 where h: "SPIRead br 0 8 d = (0, bytes_at (mem d) 0 8, d1)" "mem d1 = mem d" "rtcw d1 = rtcw d"
    using rd[of 0 8 d] chip(1) by auto
  obtain d2 where r: "SPIRead br 4096 4096 d1 = (0, buf, d2)" "mem d2 = mem d" "rtcw d2 = rtcw d"
    using rd[of 4096 4096 d1] chip(1) h unfolding buf_def by auto
  then have c: "read_config opt br fs d1 = (buf, d2)" for fs
    using assms(2) by (simp add: read_config_def BOOT_CONFIG_SECTOR_def SECTOR_SIZE_def)
  obtain rtc1 d3 where t: "temp_select opt br ptr rtc buf d2 = (Some None, rtc1, d3)" "mem d3 = mem d"
    using temp_select_none[OF assms(8-10), of opt d2 buf] assms(7) r by auto
  have "0 < conf_count buf" using assms(3) by (metis word_gt_0 word_not_simps(1))
  then have "\<exists>d'. boot_selected fuel opt br ptr rtc1 buf False False (int (unat (conf_current_rom buf))) d3 =
      Some (case boot_choice (mem d3) buf of None \<Rightarrow> 0 | Some i \<Rightarrow> slot_addr (mem d3) buf i, d')
    \<and> mem d' = (case boot_choice (mem d3) buf of None \<Rightarrow> mem d3
        | Some i \<Rightarrow> if i = unat (conf_current_rom buf) then mem d3
                    else with_config (set_chksum opt (buf[3 := of_nat i])) (mem d3))"
    using assms(3-5,11) t(2) by (intro boot_selected_standard) (simp_all add: buf_def)
  note this[unfolded t(2)]
  moreover have "gpio_select opt br fs buf d3 = (Some False, d3)" for fs using assms(6) by (simp add: gpio_select_def)
  ultimately show ?thesis using h c t by (simp add: find_image_def Let_def)
qed

lemma rom_loop_zero_count:
  assumes "conf_count buf = 0" and "conf_rom buf (- 1) = 0" and "conf_current_rom buf = 0"
  shows "r = - 1 \<or> r = 0 \<Longrightarrow> rom_loop fuel opt br buf 0 r upd d = None"
proof (induction fuel arbitrary: r upd)
  case (Suc fuel)
  have "(if r - 1 < 0 then int (unat (conf_count buf)) - 1 else r - 1) = - 1" using Suc.prems assms(1) by auto
  then have "rom_loop (Suc fuel) opt br buf 0 r upd d = (case check_image opt br 0 d of (a, d1) \<Rightarrow> rom_loop fuel opt br buf a (- 1) True d1)"
    using rom_loop_next[of r buf "- 1" fuel opt br upd d] assms(2,3) by simp
  then show ?case using Suc.IH[of "- 1" True] by (simp add: check_image_def del: rom_loop.simps)
qed simp

lemma find_image_zero_count:
  fixes opt d
  defines "buf \<equiv> bytes_at (mem d) 0x1000 4096"
  assumes "config_valid opt buf" and "conf_count buf = 0" and "conf_rom buf (- 1) = 0"
    and "image_fits csize (mem d) (conf_rom buf 0)" and "run_addr (mem d) (conf_rom buf 0) = 0"
    and "\<not> BOOT_IROM_CHKSUM opt" and "\<not> BOOT_GPIO_ENABLED opt" and "BOOT_RTC_ENABLED opt \<longrightarrow> \<not> temp_requested (rtcw d)"
    and "length rtc = 12" and "ptr \<noteq> 0" and "4 dvd ptr"
  shows "find_image fuel opt br ptr rtc d = None"
proof -
  obtain d1 where h: "SPIRead br 0 8 d = (0, bytes_at (mem d) 0 8, d1)" "mem d1 = mem d" "rtcw d1 = rtcw d"
    using rd[of 0 8 d] chip(1) by auto
  obtain d2 where r: "SPIRead br 4096 4096 d1 = (0, buf, d2)" "mem d2 = mem d" "rtcw d2 = rtcw d"
    using rd[of 4096 4096 d1] chip(1) h unfolding buf_def by auto
  then have c: "read_config opt br fs d1 = (buf, d2)" for fs
    using assms(2) by (simp add: read_config_def BOOT_CONFIG_SECTOR_def SECTOR_SIZE_def)
  obtain rtc1 d3 where t: "temp_select opt br ptr rtc buf d2 = (Some None, rtc1, d3)" "mem d3 = mem d"
    using temp_select_none[OF assms(10-12), of opt d2 buf] assms(9) r by auto
  let ?b = "buf[3 := 0]"
  have b: "conf_count ?b = 0" "conf_rom ?b (- 1) = 0" "conf_current_rom ?b = 0" "conf_rom ?b 0 = conf_rom buf 0"
    using assms(3,4) by (simp_all add: conf_count_def conf_rom_def word_at_def conf_current_rom_def buf_def)
  obtain d4 where k: "check_image opt br (conf_rom buf 0) d3 = (0, d4)"
    using check_image_run[of d3 "conf_rom buf 0" opt] assms(5-7) t(2) by auto
  have "boot_selected fuel opt br ptr rtc1 buf False False r d3 = None" for r
    using assms(3) k rom_loop_zero_count[OF b(1-3), of 0] by (simp add: boot_selected_def b(4))
  moreover have "gpio_select opt br fs buf d3 = (Some False, d3)" for fs using assms(8) by (simp add: gpio_select_def)
  ultimately show ?thesis using h c t by (simp add: find_image_def Let_def)
qed

end

section \<open>Loading\<close>

text \<open>Memory after copying the \<open>n\<close> bytes stored at \<open>p\<close> to the address \<open>a\<close>, and after loading \<open>k\<close> sections.\<close>

definition copied :: "cptr \<Rightarrow> nat \<Rightarrow> nat \<Rightarrow> nat \<Rightarrow> (nat \<Rightarrow> byte) \<Rightarrow> nat \<Rightarrow> byte" where
  "copied m p a n ram x = (if a \<le> x \<and> x < a + n then m (p + (x - a)) else ram x)"

fun loaded :: "cptr \<Rightarrow> nat \<Rightarrow> nat \<Rightarrow> (nat \<Rightarrow> byte) \<Rightarrow> nat \<Rightarrow> byte" where
  "loaded m 0 pos ram = ram"
| "loaded m (Suc k) pos ram =
     loaded m k (pos + 8 + mword m (pos + 4)) (copied m (pos + 8) (mword m pos) (mword m (pos + 4)) ram)"

text \<open>No section runs past the end of the address space.\<close>

fun sections_ok :: "cptr \<Rightarrow> nat \<Rightarrow> nat \<Rightarrow> bool" where
  "sections_ok m 0 pos = True"
| "sections_ok m (Suc k) pos =
     (mword m pos + mword m (pos + 4) < 0x100000000 \<and> sections_ok m k (pos + 8 + mword m (pos + 4)))"

lemma copied_none: "copied m p a 0 ram = ram"
  by (rule ext) (auto simp: copied_def)

context boot_hw
begin

lemma load_blocks_copied:
  assumes "pos + n \<le> csize" and "a + n < 0x100000000"
  shows "\<exists>d'. load_blocks br pos a n ram d = (pos + n, copied (mem d) pos a n ram, d') \<and> mem d' = mem d"
  using assms
proof (induction n arbitrary: pos a ram d rule: less_induct)
  case (less n)
  show ?case
  proof (cases "n = 0")
    case True
    then show ?thesis by (auto simp: load_blocks.simps copied_none)
  next
    case False
    let ?k = "if n < BUFFER_SIZE then n else BUFFER_SIZE"
    have k: "0 < ?k" "?k \<le> n" using False by (auto simp: BUFFER_SIZE_def)
    obtain d1 where r: "SPIRead br pos ?k d = (0, bytes_at (mem d) pos ?k, d1)" "mem d1 = mem d"
      using rd[of pos ?k d] k less.prems by auto
    let ?ram = "\<lambda>x. if a \<le> x \<and> x < a + ?k then bytes_at (mem d) pos ?k ! (x - a) else ram x"
    have u: "u32 (pos + ?k) = pos + ?k" "u32 (a + ?k) = a + ?k"
      using k less.prems chip(2) by (auto intro!: u32_small)
    have "\<exists>d'. load_blocks br (pos + ?k) (a + ?k) (n - ?k) ?ram d1 =
        (pos + ?k + (n - ?k), copied (mem d1) (pos + ?k) (a + ?k) (n - ?k) ?ram, d') \<and> mem d' = mem d1"
      using k less.prems by (intro less.IH) auto
    moreover have "copied (mem d) (pos + ?k) (a + ?k) (n - ?k) ?ram = copied (mem d) pos a n ram"
      using k(2) by (intro ext) (auto simp: copied_def)
    moreover have "load_blocks br pos a n ram d = load_blocks br (pos + ?k) (a + ?k) (n - ?k) ?ram d1"
      using False by (subst load_blocks.simps) (simp add: Let_def r(1) u)
    ultimately show ?thesis using r k by simp
  qed
qed

lemma load_sections_loaded:
  assumes "snd (payload (mem d) k pos) \<le> csize" and "sections_ok (mem d) k pos"
  shows "\<exists>d'. load_sections br k pos ram d = (loaded (mem d) k pos ram, d') \<and> mem d' = mem d"
  using assms
proof (induction k arbitrary: pos ram d)
  case (Suc k)
  let ?n = "mword (mem d) (pos + 4)" and ?a = "mword (mem d) pos"
  obtain bs e where p: "payload (mem d) k (pos + 8 + ?n) = (bs, e)" by fastforce
  have le: "pos + 8 + ?n \<le> e" "e \<le> csize" using payload_mono[of "pos + 8 + ?n" "mem d" k] p Suc.prems(1) by simp_all
  obtain d1 where r: "SPIRead br pos 8 d = (0, bytes_at (mem d) pos 8, d1)" "mem d1 = mem d"
    using rd[of pos 8 d] le by auto
  have u: "u32 (pos + 8) = pos + 8" using le chip(2) by (intro u32_small) linarith
  obtain d2 where b: "load_blocks br (pos + 8) ?a ?n ram d1 = (pos + 8 + ?n, copied (mem d) (pos + 8) ?a ?n ram, d2)" "mem d2 = mem d"
    using load_blocks_copied[of "pos + 8" ?n ?a ram d1] le r Suc.prems(2) by auto
  have w: "word_at (bytes_at (mem d) pos 8) 0 = ?a" "word_at (bytes_at (mem d) pos 8) 4 = ?n"
    by (simp_all add: word_at_bytes)
  have "\<exists>d'. load_sections br k (pos + 8 + ?n) (copied (mem d) (pos + 8) ?a ?n ram) d2 =
      (loaded (mem d2) k (pos + 8 + ?n) (copied (mem d) (pos + 8) ?a ?n ram), d') \<and> mem d' = mem d2"
    using p b le Suc.prems by (intro Suc.IH) auto
  then show ?case using r b w u by simp
qed simp

lemma load_rom_loaded:
  assumes "image_end (mem d) s < csize" and "sections_ok (mem d) (unat (mem d (s + 1))) (s + 8)"
  shows "\<exists>d'. load_rom br s ram d = (mword (mem d) (s + 4), loaded (mem d) (unat (mem d (s + 1))) (s + 8) ram, d') \<and> mem d' = mem d"
proof -
  have e: "snd (payload (mem d) (unat (mem d (s + 1))) (s + 8)) \<le> csize"
    using assms(1) sum_pos_ge[of "snd (payload (mem d) (unat (mem d (s + 1))) (s + 8))"] unfolding image_end_def by linarith
  have s: "s + 8 \<le> csize" using assms(1) image_end_gt[of s "mem d"] by linarith
  obtain d1 where r: "SPIRead br s 8 d = (0, bytes_at (mem d) s 8, d1)" "mem d1 = mem d"
    using rd[of s 8 d] s by auto
  have u: "u32 (s + 8) = s + 8" using s chip(2) by (intro u32_small) linarith
  show ?thesis
    using load_sections_loaded[of d1 "unat (mem d (s + 1))" "s + 8" ram] e assms(2) r u
    by (auto simp: load_rom_def word_at_bytes)
qed
end

section \<open>A simulated chip\<close>

type_synonym sim_boot = "cptr \<times> (nat \<Rightarrow> 32 word)"

definition sim_bootrom :: "sim_boot bootrom" where
  "sim_bootrom =
     \<lparr>SPIRead = (\<lambda>a n (m, w). (0, bytes_at m a n, (m, w))),
      SPIEraseSector = (\<lambda>sec (m, w). (0, (nor_erase (4096 * sec) 4096 m, w))),
      SPIWrite = (\<lambda>a bs (m, w). (0, (nor_write a (\<lambda>i. bs ! i) (length bs) m, w))),
      READ_PERI_REG = (\<lambda>a (m, w). (w a, (m, w))),
      WRITE_PERI_REG = (\<lambda>a v (m, w). (m, w(a := v))),
      ets_delay_us = (\<lambda>_ d. d)\<rparr>"

interpretation sim_boot: boot_hw sim_bootrom fst snd "0x400000"
  by unfold_locales (auto simp: sim_bootrom_def)

text \<open>A chip with a configuration for two ROMs, the second current; the image of the first is the
  smallest there is (no sections), the second is erased flash.\<close>

definition sample_chip :: cptr where
  "sample_chip = (\<lambda>_. 255)
     (0x1000 := 0xe1, 0x1001 := 0x01, 0x1002 := 0, 0x1003 := 1, 0x1004 := 0, 0x1005 := 2, 0x1006 := 0, 0x1007 := 0,
      0x1008 := 0, 0x1009 := 0x20, 0x100a := 0, 0x100b := 0, 0x100c := 0, 0x100d := 0x80, 0x100e := 0, 0x100f := 0,
      0x2000 := 0xe9, 0x2001 := 0, 0x200f := 0xef)"

section \<open>Properties\<close>

text \<open>C25: \<open>check_image\<close> accepts a ROM exactly when its image is intact. For a ROM that lies within the chip it
  returns the address of the image proper (behind the \<^verbatim>\<open>irom\<close> section of a new-style ROM) if the
  exclusive-or of all bytes of all its sections, read in whatever block sizes, equals the checksum at the end
  of the last 16-byte line, and 0 otherwise: for no magic number, a wrong checksum, or an unset slot.\<close>

theorem check_image_correct:
  assumes "boot_hw br mem rtcw csize" and "image_fits csize (mem d) a" and "\<not> BOOT_IROM_CHKSUM opt"
  shows "\<exists>d'. check_image opt br a d =
      (case image_start (mem d) a of None \<Rightarrow> 0 | Some s \<Rightarrow> if image_sum_ok (mem d) s then s else 0, d')
    \<and> mem d' = mem d"
  using boot_hw.check_image_run[OF assms(1), OF assms(2), OF assms(3)] by (auto simp: run_addr_def)

lemma repo_options_off: "\<not> BOOT_IROM_CHKSUM repo_options" "\<not> BOOT_GPIO_ENABLED repo_options" "\<not> BOOT_CONFIG_CHKSUM repo_options"
  by (simp_all add: repo_options_def)

lemma sample_config:
  "config_valid repo_options (bytes_at sample_chip 4096 4096)" "conf_count (bytes_at sample_chip 4096 4096) = 2"
  "conf_current_rom (bytes_at sample_chip 4096 4096) = 1"
  "conf_rom (bytes_at sample_chip 4096 4096) 0 = 0x2000" "conf_rom (bytes_at sample_chip 4096 4096) 1 = 0x8000"
  by (simp_all add: config_valid_def conf_count_def conf_current_rom_def conf_rom_def word_at_def sample_chip_def
      BOOT_CONFIG_MAGIC_def BOOT_CONFIG_VERSION_def repo_options_def of_le32_def)

lemma sample_images:
  "image_start sample_chip 0x2000 = Some 0x2000" "image_end sample_chip 0x2000 = 0x200f" "image_sum_ok sample_chip 0x2000"
  "image_start sample_chip 0x8000 = None"
  by (simp_all add: image_start_def image_end_def image_sum_ok_def sum_pos_def sample_chip_def ROM_MAGIC_def
      ROM_MAGIC_NEW1_def calc_chksum_def CHKSUM_INIT_def)

theorem check_image_correct_witness:
  "(\<exists>d'. check_image repo_options sim_bootrom 0x2000 (sample_chip, \<lambda>_. 0) = (0x2000, d') \<and> fst d' = sample_chip)
    \<and> (\<exists>d'. check_image repo_options sim_bootrom 0x8000 (sample_chip, \<lambda>_. 0) = (0, d') \<and> fst d' = sample_chip)"
  using check_image_correct[OF sim_boot.boot_hw_axioms, of "(sample_chip, \<lambda>_. 0)" "0x2000" repo_options]
    check_image_correct[OF sim_boot.boot_hw_axioms, of "(sample_chip, \<lambda>_. 0)" "0x8000" repo_options]
  by (simp add: image_fits_def sample_images repo_options_off)

text \<open>C12: The boot loader boots the first intact ROM. With a valid configuration whose current ROM number is in
  range, whose ROMs lie within the chip, and no temporary or pin-selected ROM, \<open>find_image\<close> ends (within one step per
  ROM) and returns the address of the first ROM with an intact image in the order current, current - 1, ..., wrapping
  around; it returns 0 only when none is intact. If that is not the current ROM, the configuration sector is
  rewritten with its number, and nothing else on the chip changes.\<close>

theorem find_image_boots:
  assumes "boot_hw br mem rtcw csize" and "buf = bytes_at (mem d) 0x1000 4096"
    and "config_valid opt buf" and "conf_current_rom buf < conf_count buf"
    and "\<And>i. i < unat (conf_count buf) \<Longrightarrow> image_fits csize (mem d) (conf_rom buf (int i))"
    and "\<not> BOOT_IROM_CHKSUM opt" and "\<not> BOOT_GPIO_ENABLED opt" and "BOOT_RTC_ENABLED opt \<longrightarrow> \<not> temp_requested (rtcw d)"
    and "length rtc = 12" and "ptr \<noteq> 0" and "4 dvd ptr" and "unat (conf_count buf) < fuel"
  shows "\<exists>d'. find_image fuel opt br ptr rtc d =
      Some (case boot_choice (mem d) buf of None \<Rightarrow> 0 | Some i \<Rightarrow> slot_addr (mem d) buf i, d')
    \<and> mem d' = (case boot_choice (mem d) buf of None \<Rightarrow> mem d
        | Some i \<Rightarrow> if i = unat (conf_current_rom buf) then mem d
                    else with_config (set_chksum opt (buf[3 := of_nat i])) (mem d))"
  using boot_hw.find_image_standard[OF assms(1), of opt d rtc ptr fuel] assms(3-12) unfolding assms(2) by simp

theorem find_image_boots_witness:
  "\<exists>d'. find_image 10 repo_options sim_bootrom 0x3ffe0000 (replicate 12 0) (sample_chip, \<lambda>_. 0) = Some (0x2000, d')
    \<and> fst d' = with_config ((bytes_at sample_chip 0x1000 4096)[3 := 0]) sample_chip"
proof -
  have o: "boot_order 2 1 = [1, 0]" by code_simp
  have c: "boot_choice sample_chip (bytes_at sample_chip 4096 4096) = Some 0"
    "slot_addr sample_chip (bytes_at sample_chip 4096 4096) 0 = 0x2000"
    by (simp_all add: boot_choice_def slot_addr_def sample_config run_addr_def sample_images o[simplified])
  have f: "image_fits 0x400000 sample_chip (conf_rom (bytes_at sample_chip 4096 4096) (int i))" if "i < 2" for i
    using that by (auto simp: less_2_cases_iff sample_config image_fits_def sample_images)
  have "\<not> temp_requested (\<lambda>_. 0)" by (simp add: temp_requested_def rtc_bytes_def le32_def)
  then show ?thesis
    using find_image_boots[OF sim_boot.boot_hw_axioms refl, of repo_options "(sample_chip, \<lambda>_. 0)" "replicate 12 0" "0x3ffe0000" 10]
    by (simp add: sample_config c f repo_options_off set_chksum_def)
qed

text \<open>A configuration that counts no ROMs hangs the boot loader. If the sector holds a valid configuration with a
  count of zero (and zero in the bytes around it, which the loop reads as the address of ROM -1) and no
  intact image in the first slot, the search for a good ROM never ends: no number of steps is enough.\<close>

theorem find_image_zero_roms:
  assumes "boot_hw br mem rtcw csize" and "buf = bytes_at (mem d) 0x1000 4096"
    and "config_valid opt buf" and "conf_count buf = 0" and "conf_rom buf (- 1) = 0"
    and "image_fits csize (mem d) (conf_rom buf 0)" and "run_addr (mem d) (conf_rom buf 0) = 0"
    and "\<not> BOOT_IROM_CHKSUM opt" and "\<not> BOOT_GPIO_ENABLED opt" and "BOOT_RTC_ENABLED opt \<longrightarrow> \<not> temp_requested (rtcw d)"
    and "length rtc = 12" and "ptr \<noteq> 0" and "4 dvd ptr"
  shows "find_image fuel opt br ptr rtc d = None"
  using boot_hw.find_image_zero_count[OF assms(1), of opt d rtc ptr fuel] assms(2-13) by simp

theorem find_image_zero_roms_witness:
  "find_image 1000 repo_options sim_bootrom 0x3ffe0000 (replicate 12 0)
     (sample_chip(0x1003 := 0, 0x1005 := 0, 0x1009 := 0x80), \<lambda>_. 0) = None"
proof -
  let ?m = "sample_chip(0x1003 := 0, 0x1005 := 0, 0x1009 := 0x80)"
  have b: "config_valid repo_options (bytes_at ?m 4096 4096)" "conf_count (bytes_at ?m 4096 4096) = 0"
    "conf_rom (bytes_at ?m 4096 4096) (- 1) = 0" "conf_rom (bytes_at ?m 4096 4096) 0 = 0x8000"
    by (simp_all add: config_valid_def conf_count_def conf_rom_def word_at_def sample_chip_def
        BOOT_CONFIG_MAGIC_def BOOT_CONFIG_VERSION_def repo_options_def of_le32_def)
  have "image_start ?m 0x8000 = None"
    by (simp add: image_start_def sample_chip_def ROM_MAGIC_def ROM_MAGIC_NEW1_def)
  moreover have "\<not> temp_requested (\<lambda>_. 0)" by (simp add: temp_requested_def rtc_bytes_def le32_def)
  ultimately show ?thesis
    using find_image_zero_roms[OF sim_boot.boot_hw_axioms refl, of repo_options "(?m, \<lambda>_. 0)" "replicate 12 0" "0x3ffe0000" 1000] b
    by (simp add: image_fits_def run_addr_def repo_options_off)
qed

text \<open>What is started is what was checked. When the current ROM is intact, the two stages of the boot loader
  return its entry point, with memory holding every section of the image at its load address, copied
  in order, and everything else as it was; the chip is not changed.\<close>

theorem boot_loads_current:
  assumes "boot_hw br mem rtcw csize" and "buf = bytes_at (mem d) 0x1000 4096"
    and "config_valid opt buf" and "conf_current_rom buf < conf_count buf"
    and "\<And>i. i < unat (conf_count buf) \<Longrightarrow> image_fits csize (mem d) (conf_rom buf (int i))"
    and "\<not> BOOT_IROM_CHKSUM opt" and "\<not> BOOT_GPIO_ENABLED opt" and "BOOT_RTC_ENABLED opt \<longrightarrow> \<not> temp_requested (rtcw d)"
    and "length rtc = 12" and "ptr \<noteq> 0" and "4 dvd ptr" and "unat (conf_count buf) < fuel"
    and "image_start (mem d) (conf_rom buf (int (unat (conf_current_rom buf)))) = Some s" and "image_sum_ok (mem d) s"
    and "image_end (mem d) s < csize" and "sections_ok (mem d) (unat (mem d (s + 1))) (s + 8)" and "s \<noteq> 0"
  shows "\<exists>d'. call_user_start fuel opt br ptr rtc ram d =
      Some (Some (mword (mem d) (s + 4)), loaded (mem d) (unat (mem d (s + 1))) (s + 8) ram, d') \<and> mem d' = mem d"
proof -
  let ?c = "unat (conf_current_rom buf)"
  have r: "slot_addr (mem d) buf ?c = s" using assms(13,14) by (simp add: slot_addr_def run_addr_def)
  have "?c < unat (conf_count buf)" using assms(4) by (simp add: word_less_nat_alt)
  then have "boot_choice (mem d) buf = Some ?c"
    using r assms(17) boot_order_first[of ?c "unat (conf_count buf)"] by (auto simp: boot_choice_def)
  then obtain d1 where f: "find_image fuel opt br ptr rtc d = Some (s, d1)" "mem d1 = mem d"
    using boot_hw.find_image_standard[OF assms(1), of opt d rtc ptr fuel] assms(3-12) r unfolding assms(2) by auto
  then show ?thesis
    using boot_hw.load_rom_loaded[OF assms(1), of d1 s ram] assms(15-17) by (auto simp: call_user_start_def)
qed

theorem boot_loads_current_witness:
  "\<exists>d'. call_user_start 10 repo_options sim_bootrom 0x3ffe0000 (replicate 12 0) (\<lambda>_. 7) (sample_chip(0x1003 := 0), \<lambda>_. 0) =
     Some (Some 0xffffffff, (\<lambda>_. 7), d') \<and> fst d' = sample_chip(0x1003 := 0)"
proof -
  let ?m = "sample_chip(0x1003 := 0)"
  have b: "config_valid repo_options (bytes_at ?m 4096 4096)" "conf_count (bytes_at ?m 4096 4096) = 2"
    "conf_current_rom (bytes_at ?m 4096 4096) = 0" "conf_rom (bytes_at ?m 4096 4096) 0 = 0x2000"
    "conf_rom (bytes_at ?m 4096 4096) 1 = 0x8000"
    by (simp_all add: config_valid_def conf_count_def conf_current_rom_def conf_rom_def word_at_def sample_chip_def
        BOOT_CONFIG_MAGIC_def BOOT_CONFIG_VERSION_def repo_options_def of_le32_def)
  have i: "image_start ?m 0x2000 = Some 0x2000" "image_end ?m 0x2000 = 0x200f" "image_sum_ok ?m 0x2000"
    "image_start ?m 0x8000 = None" "mword ?m 0x2004 = 0xffffffff" "?m 0x2001 = 0"
    by (simp_all add: image_start_def image_end_def image_sum_ok_def sum_pos_def sample_chip_def ROM_MAGIC_def
        ROM_MAGIC_NEW1_def calc_chksum_def CHKSUM_INIT_def mword_def) (simp add: of_le32_def)
  have f: "image_fits 0x400000 ?m (conf_rom (bytes_at ?m 4096 4096) (int k))" if "k < 2" for k
    using that by (auto simp: less_2_cases_iff b image_fits_def i)
  have "\<not> temp_requested (\<lambda>_. 0)" by (simp add: temp_requested_def rtc_bytes_def le32_def)
  then show ?thesis
    using boot_loads_current[OF sim_boot.boot_hw_axioms refl, of repo_options "(?m, \<lambda>_. 0)" "replicate 12 0" "0x3ffe0000" 10 "0x2000" "\<lambda>_. 7"]
    by (simp add: b i f repo_options_off del: fun_upd_apply)
qed

end
