(* ===== verification/RbootApi.thy ===== *)
theory RbootApi
  imports Rboot
begin

text \<open>
  The application's side of the boot loader, \<^verbatim>\<open>src/extras/rboot-ota/rboot-api.c\<close>: reading and writing the boot
  configuration, writing an update to flash, the RTC data shared with the boot loader, and verifying an image;
  with the RTC memory access of \<^verbatim>\<open>src/open_esplibs/libmain/user_interface.c\<close> that it calls. The state is the flash
  device and the RTC memory, word by word at its addresses. \<open>alloc\<close> is what the allocation of a buffer answers.
\<close>

record 'd api_state =
  api_flash :: 'd
  api_rtc :: "nat \<Rightarrow> 32 word"

section \<open>The configuration\<close>

text \<open>\<open>BOOT_CONFIG_CHKSUM\<close> is defined, so the structure has a checksum at offset 24 and three bytes of padding.\<close>

record rboot_config =
  rc_magic :: byte
  rc_version :: byte
  rc_mode :: byte
  rc_current_rom :: byte
  rc_gpio_rom :: byte
  rc_count :: byte
  rc_unused :: "byte list"
  rc_roms :: "32 word list"
  rc_chksum :: byte
  rc_pad :: "byte list"

definition config_body :: "rboot_config \<Rightarrow> byte list" where
  "config_body c =
     [rc_magic c, rc_version c, rc_mode c, rc_current_rom c, rc_gpio_rom c, rc_count c] @ rc_unused c
     @ concat (map le32 (rc_roms c))"

definition config_bytes :: "rboot_config \<Rightarrow> byte list" where
  "config_bytes c = config_body c @ [rc_chksum c] @ rc_pad c"

definition config_of :: "byte list \<Rightarrow> rboot_config" where
  "config_of bs =
     \<lparr>rc_magic = bs ! 0, rc_version = bs ! 1, rc_mode = bs ! 2, rc_current_rom = bs ! 3, rc_gpio_rom = bs ! 4,
      rc_count = bs ! 5, rc_unused = [bs ! 6, bs ! 7],
      rc_roms = map (\<lambda>i. of_le32 (bs ! (8 + 4 * i)) (bs ! (9 + 4 * i)) (bs ! (10 + 4 * i)) (bs ! (11 + 4 * i))) [0..<4],
      rc_chksum = bs ! 24, rc_pad = [bs ! 25, bs ! 26, bs ! 27]\<rparr>"

definition rboot_get_config :: "'d flashdev \<Rightarrow> 'd \<Rightarrow> rboot_config \<times> 'd" where
  "rboot_get_config fd d =
     (case sdk_spi_flash_read fd (BOOT_CONFIG_SECTOR * SECTOR_SIZE) False 28 d of
        (_, bs, d1) \<Rightarrow> (config_of bs, d1))"

text \<open>The structure passed in gets its checksum updated; it is part of the result.\<close>

definition rboot_set_config :: "'d flashdev \<Rightarrow> bool \<Rightarrow> rboot_config \<Rightarrow> 'd \<Rightarrow> bool \<times> rboot_config \<times> 'd" where
  "rboot_set_config fd alloc conf d =
     (if \<not> alloc then (False, conf, d)
      else
        let conf1 = conf\<lparr>rc_chksum := calc_chksum (config_body conf)\<rparr> in
        (case sdk_spi_flash_read fd (BOOT_CONFIG_SECTOR * SECTOR_SIZE) False SECTOR_SIZE d of
           (_, buffer, d1) \<Rightarrow>
             let buffer1 = overwrite (config_bytes conf1) buffer;
                 d2 = snd (sdk_spi_flash_erase_sector fd BOOT_CONFIG_SECTOR d1);
                 d3 = snd (sdk_spi_flash_write fd (BOOT_CONFIG_SECTOR * SECTOR_SIZE) (Some (\<lambda>i. buffer1 ! i)) SECTOR_SIZE d2) in
             (True, conf1, d3)))"

definition rboot_get_current_rom :: "'d flashdev \<Rightarrow> 'd \<Rightarrow> byte \<times> 'd" where
  "rboot_get_current_rom fd d = (case rboot_get_config fd d of (conf, d1) \<Rightarrow> (rc_current_rom conf, d1))"

definition rboot_set_current_rom :: "'d flashdev \<Rightarrow> bool \<Rightarrow> byte \<Rightarrow> 'd \<Rightarrow> bool \<times> 'd" where
  "rboot_set_current_rom fd alloc rom d =
     (case rboot_get_config fd d of
        (conf, d1) \<Rightarrow>
          if rom \<ge> rc_count conf then (False, d1)
          else (case rboot_set_config fd alloc (conf\<lparr>rc_current_rom := rom\<rparr>) d1 of (ok, _, d2) \<Rightarrow> (ok, d2)))"

definition rboot_get_slot_offset :: "'d flashdev \<Rightarrow> byte \<Rightarrow> 'd \<Rightarrow> nat \<times> 'd" where
  "rboot_get_slot_offset fd slot d =
     (case rboot_get_config fd d of
        (conf, d1) \<Rightarrow> if slot \<ge> rc_count conf then (0xffffffff, d1) else (unat (rc_roms conf ! unat slot), d1))"

section \<open>Writing an update\<close>

record rboot_write_status =
  start_addr :: nat
  start_sector :: nat
  last_sector_erased :: int
  extra_count :: nat
  extra_bytes :: "byte list"

definition rboot_write_init :: "nat \<Rightarrow> rboot_write_status" where
  "rboot_write_init addr =
     \<lparr>start_addr = addr, start_sector = addr div SECTOR_SIZE, last_sector_erased = int (addr div SECTOR_SIZE) - 1,
      extra_count = 0, extra_bytes = replicate 4 0\<rparr>"

text \<open>The loop that erases up to the last sector; the sector number is passed as a \<^verbatim>\<open>uint16_t\<close>.\<close>

fun erase_from :: "'d flashdev \<Rightarrow> nat \<Rightarrow> int \<Rightarrow> 'd \<Rightarrow> 'd" where
  "erase_from fd 0 lse d = d"
| "erase_from fd (Suc k) lse d = erase_from fd k (lse + 1) (snd (sdk_spi_flash_erase_sector fd (u16 (nat (lse + 1))) d))"

text \<open>\<open>data\<close> is \<open>None\<close> for a \<^verbatim>\<open>NULL\<close> pointer; the length is a \<^verbatim>\<open>uint16_t\<close> and so is the sum with
  the bytes left over from the last call. What follows the buffer in memory is \<open>rest\<close>.\<close>

definition rboot_write_flash ::
  "'d flashdev \<Rightarrow> bool \<Rightarrow> cptr \<Rightarrow> rboot_write_status \<Rightarrow> byte list option \<Rightarrow> 'd \<Rightarrow> bool \<times> rboot_write_status \<times> 'd" where
  "rboot_write_flash fd alloc rest status data d =
     (case data of
        None \<Rightarrow> (True, status, d)
      | Some bs \<Rightarrow>
          if bs = [] then (True, status, d)
          else if \<not> alloc then (False, status, d)
          else
            let buffer = take (extra_count status) (extra_bytes status) @ bs;
                len0 = u16 (length bs + extra_count status);
                extra = len0 mod 4;
                len = len0 - extra;
                st1 = status\<lparr>extra_count := extra, extra_bytes := overwrite (take extra (drop len buffer)) (extra_bytes status)\<rparr>;
                lastsect = int (sub32 (start_addr status + len) 1 div SECTOR_SIZE);
                k = nat (lastsect - last_sector_erased status);
                d1 = erase_from fd k (last_sector_erased status) d;
                st2 = st1\<lparr>last_sector_erased := max lastsect (last_sector_erased status)\<rparr> in
            (case sdk_spi_flash_write fd (start_addr status) (Some (cbuf buffer rest)) len d1 of
               (res, d2) \<Rightarrow>
                 if res = SPI_FLASH_RESULT_OK then (True, st2\<lparr>start_addr := u32 (start_addr status + len)\<rparr>, d2)
                 else (False, st2, d2)))"

section \<open>RTC data\<close>

definition RTCMEM_SYSTEM :: nat where "RTCMEM_SYSTEM = 0x60001100"

text \<open>The block number is checked and then not used. \<open>ptr\<close> is the address of the caller's buffer.\<close>

definition sdk_system_rtc_mem_write :: "nat \<Rightarrow> nat \<Rightarrow> byte list \<Rightarrow> nat \<Rightarrow> 'd api_state \<Rightarrow> bool \<times> 'd api_state" where
  "sdk_system_rtc_mem_write des_addr ptr src save_size s =
     (if des_addr > 191 \<or> ptr mod 4 \<noteq> 0 \<or> 768 - des_addr * 4 < save_size then (False, s)
      else
        let sz = (if save_size mod 4 \<noteq> 0 then 4 * (save_size div 4) + 4 else save_size) in
        (True, s\<lparr>api_rtc := (\<lambda>a. if \<exists>i < sz div 4. a = RTCMEM_SYSTEM + 4 * i
                                then of_nat (word_at src (a - RTCMEM_SYSTEM)) else api_rtc s a)\<rparr>))"

definition sdk_system_rtc_mem_read :: "nat \<Rightarrow> nat \<Rightarrow> byte list \<Rightarrow> nat \<Rightarrow> 'd api_state \<Rightarrow> bool \<times> byte list" where
  "sdk_system_rtc_mem_read src_addr ptr dest save_size s =
     (if src_addr > 191 \<or> ptr mod 4 \<noteq> 0 \<or> 768 - src_addr * 4 < save_size then (False, dest)
      else
        let sz = (if save_size mod 4 \<noteq> 0 then 4 * (save_size div 4) + 4 else save_size) in
        (True, overwrite (concat (map (\<lambda>i. le32 (api_rtc s (RTCMEM_SYSTEM + 4 * i))) [0..<sz div 4])) dest))"

text \<open>The RTC structure is its twelve bytes, as in the boot loader.\<close>

definition rboot_get_rtc_data :: "nat \<Rightarrow> byte list \<Rightarrow> 'd api_state \<Rightarrow> bool \<times> byte list" where
  "rboot_get_rtc_data ptr rtc s =
     (case sdk_system_rtc_mem_read 64 ptr rtc 12 s of
        (ok, rtc1) \<Rightarrow> (ok \<and> rtc1 ! 8 = calc_chksum (take 8 rtc1), rtc1))"

definition rboot_set_rtc_data :: "nat \<Rightarrow> byte list \<Rightarrow> 'd api_state \<Rightarrow> bool \<times> 'd api_state" where
  "rboot_set_rtc_data ptr rtc s = sdk_system_rtc_mem_write 64 ptr (rtc[8 := calc_chksum (take 8 rtc)]) 12 s"

text \<open>\<open>rtc\<close> is the uninitialised structure on the stack.\<close>

definition rboot_set_temp_rom :: "nat \<Rightarrow> byte list \<Rightarrow> byte \<Rightarrow> 'd api_state \<Rightarrow> bool \<times> 'd api_state" where
  "rboot_set_temp_rom ptr rtc rom s =
     (case rboot_get_rtc_data ptr rtc s of
        (ok, rtc1) \<Rightarrow>
          let rtc2 = (if \<not> ok then (overwrite (le32 RBOOT_RTC_MAGIC) rtc1)[5 := MODE_STANDARD, 6 := 0] else rtc1) in
          rboot_set_rtc_data ptr (rtc2[4 := MODE_TEMP_ROM, 7 := rom]) s)"

definition rboot_get_last_boot_rom :: "nat \<Rightarrow> byte list \<Rightarrow> 'd api_state \<Rightarrow> byte option" where
  "rboot_get_last_boot_rom ptr rtc s =
     (case rboot_get_rtc_data ptr rtc s of (ok, rtc1) \<Rightarrow> if ok then Some (rtc1 ! 6) else None)"

definition rboot_get_last_boot_mode :: "nat \<Rightarrow> byte list \<Rightarrow> 'd api_state \<Rightarrow> byte option" where
  "rboot_get_last_boot_mode ptr rtc s =
     (case rboot_get_rtc_data ptr rtc s of (ok, rtc1) \<Rightarrow> if ok then Some (rtc1 ! 5) else None)"

section \<open>Verifying an image\<close>

datatype verify_error =
    Unaligned_flash_offset | Flash_fail | Missing_initial_magic | Header_length_not_modulo_4
  | Bad_second_magic | Image_truncated | Invalid_checksum

text \<open>The checksum of a section: a 16-byte chunk is read whenever the index is a multiple of 16; the result of
  that read is not checked.\<close>

function verify_sum :: "'d flashdev \<Rightarrow> nat \<Rightarrow> nat \<Rightarrow> nat \<Rightarrow> byte list \<Rightarrow> byte \<Rightarrow> 'd \<Rightarrow> byte \<times> 'd" where
  "verify_sum fd offset i len chunk checksum d =
     (if i < len then
        (case (if i mod 16 = 0
               then (case sdk_spi_flash_read fd (u32 (offset + i)) False 16 d of (_, bs, d1) \<Rightarrow> (bs, d1))
               else (chunk, d)) of
           (chunk1, d1) \<Rightarrow> verify_sum fd offset (i + 1) len chunk1 (checksum XOR chunk1 ! (i mod 16)) d1)
      else (checksum, d))"
  by pat_completeness auto
termination
  by (relation "measure (\<lambda>(fd, offset, i, len, chunk, checksum, d). len - i)") auto

declare verify_sum.simps [simp del]

definition align :: "nat \<Rightarrow> nat \<Rightarrow> nat" where
  "align k x = u32 (k * (u32 (x + (k - 1)) div k))"

text \<open>The loop over the sections; the result is an error, or the sections left over, the offset and the checksum.
  The offset reached is returned with an error as well.\<close>

function verify_loop ::
  "'d flashdev \<Rightarrow> nat \<Rightarrow> bool \<Rightarrow> nat \<Rightarrow> nat \<Rightarrow> byte \<Rightarrow> 'd \<Rightarrow> verify_error option \<times> nat \<times> nat \<times> byte \<times> 'd" where
  "verify_loop fd end_limit is_new remaining offset checksum d =
     (if \<not> (remaining > 0 \<and> offset < end_limit) then (None, remaining, offset, checksum, d)
      else
        (case sdk_spi_flash_read fd offset False 8 d of
           (res, header, d1) \<Rightarrow>
             if res \<noteq> SPI_FLASH_RESULT_OK then (Some Flash_fail, remaining, offset, checksum, d1)
             else
               let len = word_at header 4;
                   off1 = u32 (offset + 8) in
               if u32 (len + off1) > end_limit then (None, remaining, off1, checksum, d1)
               else if len mod 4 \<noteq> 0 then (Some Header_length_not_modulo_4, remaining, off1, checksum, d1)
               else
                 (case (if \<not> is_new then verify_sum fd off1 0 len [] checksum d1 else (checksum, d1)) of
                    (checksum1, d2) \<Rightarrow>
                      let off2 = align 4 (u32 (off1 + len)) in
                      if is_new then
                        let off3 = align 16 off2 in
                        (case sdk_spi_flash_read fd off3 False 8 d2 of
                           (_, image_header, d3) \<Rightarrow>
                             if image_header ! 0 \<noteq> 0xe9
                             then (Some Bad_second_magic, remaining - 1, u32 (off3 + 8), checksum1, d3)
                             else verify_loop fd end_limit False (unat (image_header ! 1)) (u32 (off3 + 8)) checksum1 d3)
                      else verify_loop fd end_limit False (remaining - 1) off2 checksum1 d2)))"
  by pat_completeness auto
termination
  by (relation "measures [\<lambda>(fd, end_limit, is_new, remaining, offset, checksum, d). of_bool is_new,
      \<lambda>(fd, end_limit, is_new, remaining, offset, checksum, d). remaining]") auto

declare verify_loop.simps [simp del]

text \<open>The result: the error or success, and the image length (the offset reached).\<close>

definition rboot_verify_image :: "'d flashdev \<Rightarrow> nat \<Rightarrow> 'd \<Rightarrow> (verify_error + unit) \<times> nat \<times> 'd" where
  "rboot_verify_image fd initial_offset d =
     (if initial_offset mod 4 \<noteq> 0 then (Inl Unaligned_flash_offset, 0, d)
      else
        (case sdk_spi_flash_read fd initial_offset False 8 d of
           (res, image_header, d1) \<Rightarrow>
             if res \<noteq> SPI_FLASH_RESULT_OK then (Inl Flash_fail, 0, d1)
             else if image_header ! 0 \<noteq> 0xe9 \<and> image_header ! 0 \<noteq> 0xea then (Inl Missing_initial_magic, 8, d1)
             else
               (case verify_loop fd (u32 (initial_offset + 0x100000)) (image_header ! 0 = 0xea)
                       (unat (image_header ! 1)) (u32 (initial_offset + 8)) CHKSUM_INIT d1 of
                  (Some err, _, offset, _, d2) \<Rightarrow> (Inl err, sub32 offset initial_offset, d2)
                | (None, remaining, offset, checksum, d2) \<Rightarrow>
                    if remaining > 0 then (Inl Image_truncated, sub32 offset initial_offset, d2)
                    else
                      let off = align 16 (u32 (offset + 1)) in
                      (case sdk_spi_flash_read fd (sub32 off 1) False 1 d2 of
                         (_, bs, d3) \<Rightarrow>
                           (if bs ! 0 \<noteq> checksum then Inl Invalid_checksum else Inr (), sub32 off initial_offset, d3)))))"

text \<open>The digest loop: \<open>update_fn\<close> is handed 32 bytes at a time, fewer at the end.\<close>

function rboot_digest_image ::
  "'d flashdev \<Rightarrow> ('c \<Rightarrow> byte list \<Rightarrow> 'c) \<Rightarrow> nat \<Rightarrow> nat \<Rightarrow> nat \<Rightarrow> 'c \<Rightarrow> 'd \<Rightarrow> bool \<times> 'c \<times> 'd" where
  "rboot_digest_image fd update_fn i offset image_length ctx d =
     (if i < image_length then
        (case sdk_spi_flash_read fd (u32 (offset + i)) False 32 d of
           (res, buf, d1) \<Rightarrow>
             if res \<noteq> SPI_FLASH_RESULT_OK then (False, ctx, d1)
             else
               let digest_len = (if i + 32 > image_length then image_length - i else 32) in
               rboot_digest_image fd update_fn (i + 32) offset image_length (update_fn ctx (take digest_len buf)) d1)
      else (True, ctx, d))"
  by pat_completeness auto
termination
  by (relation "measure (\<lambda>(fd, update_fn, i, offset, image_length, ctx, d). image_length - i)") auto

declare rboot_digest_image.simps [simp del]

end
