(* ===== verification/Rboot_Update.thy ===== *)
theory Rboot_Update
  imports Rboot_Boot RbootApi
begin

text \<open>
  The application's side of the boot loader on a flash chip: the configuration is stored and read back, an update
  arrives as it was sent, the application and the boot loader agree on good images, and a verified update is what
  boots next. The locale \<open>ota_flash\<close> is the ROM contract of \<open>nor_rom\<close> for a chip with sectors of 4096 bytes.
\<close>

section \<open>The flash device\<close>

locale ota_flash = nor_rom +
  assumes sector_4k: "sector_size (sdk_flashchip fd) = 4096" and chip_min: "0x2000 \<le> chip_size (sdk_flashchip fd)"
begin

lemma read_all:
  assumes "a + n \<le> chip_size (sdk_flashchip fd)"
  shows "\<exists>d'. sdk_spi_flash_read fd a False n d = (SPI_FLASH_RESULT_OK, bytes_at (mem d) a n, d') \<and> mem d' = mem d"
  using io.rd_ok[OF assms, of d] io.rd_bytes[OF assms, of d] io.rd_mem[of a n d]
  by (cases "sdk_spi_flash_read fd a False n d") auto

lemma write_all:
  assumes "4 dvd a" and "4 dvd n" and "a + n \<le> chip_size (sdk_flashchip fd)"
  shows "\<exists>d'. sdk_spi_flash_write fd a (Some src) n d = (SPI_FLASH_RESULT_OK, d') \<and> mem d' = nor_write a src n (mem d)"
  using assms io.wr_ok[of a n src d] io.wr_mem[of a n src d]
  by (cases "sdk_spi_flash_write fd a (Some src) n d") (simp add: dvd_imp_mod_0)

lemma erase_one:
  assumes "4096 * sec + 4096 \<le> chip_size (sdk_flashchip fd)"
  shows "\<exists>d'. sdk_spi_flash_erase_sector fd sec d = (SPI_FLASH_RESULT_OK, d') \<and> mem d' = nor_erase (4096 * sec) 4096 (mem d)"
proof -
  have "sec < chip_size (sdk_flashchip fd) div 4096" using assms by (simp add: less_eq_div_iff_mult_less_eq Suc_le_eq[symmetric])
  then show ?thesis using io.er_ok[of sec d] io.er_mem[of sec d] sector_4k
    by (cases "sdk_spi_flash_erase_sector fd sec d") simp
qed

end

interpretation sim_ota: ota_flash sim_flash sim_mem "\<lambda>_. True"
  by unfold_locales (simp_all add: sim_flash_def sdk_flashchip_init_def)

section \<open>The configuration\<close>

definition config_ok :: "rboot_config \<Rightarrow> bool" where
  "config_ok c \<longleftrightarrow> length (rc_unused c) = 2 \<and> length (rc_roms c) = 4 \<and> length (rc_pad c) = 3"

lemma list2: "length xs = 2 \<Longrightarrow> xs = [xs ! 0, xs ! 1]"
  by (cases xs; cases "tl xs") auto

lemma list3: "length xs = 3 \<Longrightarrow> xs = [xs ! 0, xs ! 1, xs ! 2]"
  by (intro nth_equalityI) (auto simp: less_Suc_eq numeral_eq_Suc)

lemma list4: "length xs = 4 \<Longrightarrow> xs = [xs ! 0, xs ! 1, xs ! 2, xs ! 3]"
  by (intro nth_equalityI) (auto simp: less_Suc_eq numeral_eq_Suc)

lemma upt4: "[0..<4] = [0, 1, 2, 3 :: nat]" by (simp add: upt_rec)

lemma config_body_length: "config_ok c \<Longrightarrow> length (config_body c) = 24"
  using list4[of "rc_roms c"] by (simp add: config_ok_def config_body_def length_concat comp_def sum_list_triv)

lemma config_bytes_length: "config_ok c \<Longrightarrow> length (config_bytes c) = 28"
  using config_body_length[of c] by (simp add: config_bytes_def) (simp add: config_ok_def)

lemma config_of_bytes:
  assumes "config_ok c"
  shows "config_of (config_bytes c @ xs) = c"
proof -
  obtain u0 u1 where u: "rc_unused c = [u0, u1]" using assms list2 unfolding config_ok_def by blast
  obtain r0 r1 r2 r3 where r: "rc_roms c = [r0, r1, r2, r3]" using assms list4 unfolding config_ok_def by blast
  obtain p0 p1 p2 where p: "rc_pad c = [p0, p1, p2]" using assms list3 unfolding config_ok_def by blast
  show ?thesis
    by (cases c) (use u r p in \<open>simp add: config_of_def config_bytes_def config_body_def le32_def upt4\<close>)
qed

lemma config_of_cong: "take 28 bs = take 28 bs' \<Longrightarrow> config_of bs = config_of bs'"
proof -
  assume e: "take 28 bs = take 28 bs'"
  have "bs ! i = bs' ! i" if "i < 28" for i using e that by (metis nth_take)
  then show ?thesis by (simp add: config_of_def upt4)
qed

context ota_flash
begin

lemma get_config_run:
  "\<exists>d'. rboot_get_config fd d = (config_of (bytes_at (mem d) 0x1000 28), d') \<and> mem d' = mem d"
  using read_all[of 4096 28 d] chip_min
  by (auto simp: rboot_get_config_def BOOT_CONFIG_SECTOR_def SECTOR_SIZE_def)

lemma set_config_run:
  fixes c d
  defines "c' \<equiv> c\<lparr>rc_chksum := calc_chksum (config_body c)\<rparr>"
  assumes "config_ok c"
  shows "\<exists>d'. rboot_set_config fd True c d = (True, c', d')
    \<and> mem d' = with_config (overwrite (config_bytes c') (bytes_at (mem d) 0x1000 4096)) (mem d)"
proof -
  have ok: "config_ok c'" using assms by (simp add: config_ok_def)
  let ?buf = "overwrite (config_bytes c') (bytes_at (mem d) 0x1000 4096)"
  obtain d1 where r: "sdk_spi_flash_read fd 4096 False 4096 d = (SPI_FLASH_RESULT_OK, bytes_at (mem d) 4096 4096, d1)" "mem d1 = mem d"
    using read_all[of 4096 4096 d] chip_min by auto
  obtain d2 where e: "sdk_spi_flash_erase_sector fd 1 d1 = (SPI_FLASH_RESULT_OK, d2)" "mem d2 = nor_erase 4096 4096 (mem d)"
    using erase_one[of 1 d1] chip_min r by auto
  obtain d3 where w: "sdk_spi_flash_write fd 4096 (Some (\<lambda>i. ?buf ! i)) 4096 d2 = (SPI_FLASH_RESULT_OK, d3)"
      "mem d3 = nor_write 4096 (\<lambda>i. ?buf ! i) 4096 (mem d2)"
    using write_all[of 4096 4096 "\<lambda>i. ?buf ! i" d2] chip_min by auto
  have "mem d3 = with_config ?buf (mem d)"
    by (rule ext) (auto simp: w e with_config_def nor_write_def nor_erase_def)
  then show ?thesis using r e w
    by (simp add: rboot_set_config_def BOOT_CONFIG_SECTOR_def SECTOR_SIZE_def Let_def c'_def)
qed

end

lemma config_chksum_bytes:
  assumes "config_ok c" and "rc_chksum c = calc_chksum (config_body c)"
  shows "config_bytes c ! 24 = calc_chksum (take 24 (config_bytes c))"
  using config_body_length[OF assms(1)] assms(2) by (simp add: config_bytes_def nth_append)

lemma config_fields:
  assumes "config_ok c"
  shows "config_bytes c ! 0 = rc_magic c" "config_bytes c ! 1 = rc_version c" "config_bytes c ! 3 = rc_current_rom c"
    "config_bytes c ! 5 = rc_count c"
  by (simp_all add: config_bytes_def config_body_def)

lemma with_config_bytes:
  "length buf = 4096 \<Longrightarrow> bytes_at (with_config buf m) 0x1000 4096 = buf"
  by (rule nth_equalityI) (simp_all add: with_config_def)

lemma config_valid_stored:
  assumes "config_ok c" and "rc_chksum c = calc_chksum (config_body c)" and "28 \<le> length buf"
  shows "config_valid opt (overwrite (config_bytes c) buf) \<longleftrightarrow> rc_magic c = BOOT_CONFIG_MAGIC \<and> rc_version c = BOOT_CONFIG_VERSION"
  using config_chksum_bytes[OF assms(1,2)] config_fields[OF assms(1)] config_bytes_length[OF assms(1)]
  by (auto simp: config_valid_def overwrite_def nth_append)

text \<open>Setting the boot configuration. \<open>rboot_set_config\<close> stores the structure, with its checksum, at the start of
  the configuration sector; every other byte of the sector and of the chip keeps its value, although the sector
  is erased on the way. \<open>rboot_get_config\<close> then returns the structure stored, and the boot loader, built
  with or without the configuration checksum, accepts it exactly when its magic number and version are right.\<close>

theorem set_config_get_config:
  assumes "ota_flash fd mem wel" and "config_ok c"
  shows "\<exists>d' d''. rboot_set_config fd True c d = (True, c\<lparr>rc_chksum := calc_chksum (config_body c)\<rparr>, d')
    \<and> rboot_get_config fd d' = (c\<lparr>rc_chksum := calc_chksum (config_body c)\<rparr>, d'')
    \<and> (\<forall>i. mem d' i = (if 0x1000 \<le> i \<and> i < 0x101c
          then config_bytes (c\<lparr>rc_chksum := calc_chksum (config_body c)\<rparr>) ! (i - 0x1000) else mem d i))
    \<and> (\<forall>opt. config_valid opt (bytes_at (mem d') 0x1000 4096) \<longleftrightarrow> rc_magic c = BOOT_CONFIG_MAGIC \<and> rc_version c = BOOT_CONFIG_VERSION)"
proof -
  define c' where "c' = c\<lparr>rc_chksum := calc_chksum (config_body c)\<rparr>"
  define buf where "buf = overwrite (config_bytes c') (bytes_at (mem d) 0x1000 4096)"
  have ok: "config_ok c'" "rc_chksum c' = calc_chksum (config_body c')"
    using assms(2) by (simp_all add: config_ok_def c'_def config_body_def)
  have len: "length (config_bytes c') = 28" "length buf = 4096"
    using config_bytes_length[OF ok(1)] by (simp_all add: buf_def overwrite_def)
  obtain d1 where s: "rboot_set_config fd True c d = (True, c', d1)" "mem d1 = with_config buf (mem d)"
    using ota_flash.set_config_run[OF assms(1), OF assms(2), of d] unfolding c'_def[symmetric] buf_def[symmetric] by blast
  obtain d2 where g: "rboot_get_config fd d1 = (config_of (bytes_at (mem d1) 0x1000 28), d2)"
    using ota_flash.get_config_run[OF assms(1), of d1] by blast
  have "bytes_at (mem d1) 0x1000 28 = config_bytes c'"
    by (rule nth_equalityI) (auto simp: len s with_config_def buf_def overwrite_def nth_append)
  then have "config_of (bytes_at (mem d1) 0x1000 28) = c'" using config_of_bytes[OF ok(1), of "[]"] by simp
  moreover have "mem d1 i = (if 0x1000 \<le> i \<and> i < 0x101c then config_bytes c' ! (i - 0x1000) else mem d i)" for i
    by (auto simp: s with_config_def buf_def overwrite_def nth_append len)
  moreover have "bytes_at (mem d1) 0x1000 4096 = buf" using with_config_bytes[OF len(2)] s by simp
  moreover have "config_valid opt buf \<longleftrightarrow> rc_magic c = BOOT_CONFIG_MAGIC \<and> rc_version c = BOOT_CONFIG_VERSION" for opt
    using config_valid_stored[OF ok, of "bytes_at (mem d) 0x1000 4096" opt] by (simp add: buf_def c'_def)
  ultimately show ?thesis using s g unfolding c'_def by auto
qed

definition sample_config_rec :: rboot_config where
  "sample_config_rec = \<lparr>rc_magic = 0xe1, rc_version = 1, rc_mode = 0, rc_current_rom = 0, rc_gpio_rom = 0, rc_count = 2,
     rc_unused = [0, 0], rc_roms = [0x2000, 0x102000, 0, 0], rc_chksum = 0, rc_pad = [0, 0, 0]\<rparr>"

theorem set_config_get_config_witness:
  "\<exists>d' d''. rboot_get_config sim_flash d' = (sample_config_rec\<lparr>rc_chksum := 0x1d\<rparr>, d'')
     \<and> rboot_set_config sim_flash True sample_config_rec [(0x1400, 7)] = (True, sample_config_rec\<lparr>rc_chksum := 0x1d\<rparr>, d')
     \<and> sim_mem d' 0x1400 = 7 \<and> sim_mem d' 0x1018 = 0x1d \<and> config_valid repo_options (bytes_at (sim_mem d') 0x1000 4096)"
proof -
  have ok: "config_ok sample_config_rec" by (simp add: config_ok_def sample_config_rec_def)
  have c: "calc_chksum (config_body sample_config_rec) = 0x1d" by (simp add: sample_config_rec_def config_body_def le32_def calc_chksum_def CHKSUM_INIT_def)
  have "rc_magic sample_config_rec = BOOT_CONFIG_MAGIC" "rc_version sample_config_rec = BOOT_CONFIG_VERSION"
    by (simp_all add: sample_config_rec_def BOOT_CONFIG_MAGIC_def BOOT_CONFIG_VERSION_def)
  moreover have "config_bytes (sample_config_rec\<lparr>rc_chksum := 0x1d\<rparr>) ! 24 = 0x1d"
    by (simp add: sample_config_rec_def config_bytes_def config_body_def le32_def)
  moreover have "sim_mem [(0x1400, 7)] 0x1400 = 7" by (simp add: sim_mem_def)
  ultimately show ?thesis
    using set_config_get_config[OF sim_ota.ota_flash_axioms ok, of "[(0x1400, 7)]"] unfolding c by auto
qed

section \<open>Writing an update\<close>

definition sector_end :: "nat \<Rightarrow> nat" where
  "sector_end x = 4096 * ((x - 1) div 4096 + 1)"

definition whole :: "byte list \<Rightarrow> nat" where
  "whole D = 4 * (length D div 4)"

text \<open>What the status and the chip hold after the bytes \<open>D\<close> have been handed over, starting at \<open>a\<close> on
  a chip that held \<open>m0\<close>.\<close>

definition write_inv :: "nat \<Rightarrow> cptr \<Rightarrow> byte list \<Rightarrow> rboot_write_status \<Rightarrow> cptr \<Rightarrow> bool" where
  "write_inv a m0 D st m \<longleftrightarrow>
     start_addr st = a + whole D \<and> extra_count st = length D mod 4 \<and> length (extra_bytes st) = 4
   \<and> take (extra_count st) (extra_bytes st) = drop (whole D) D
   \<and> last_sector_erased st = int ((a + whole D - 1) div 4096)
   \<and> bytes_at m a (whole D) = take (whole D) D
   \<and> (\<forall>i. a + whole D \<le> i \<and> i < sector_end (a + whole D) \<longrightarrow> m i = 255)
   \<and> (\<forall>i. i < a \<or> sector_end (a + whole D) \<le> i \<longrightarrow> m i = m0 i)"

lemma sector_end_mono: "x \<le> y \<Longrightarrow> sector_end x \<le> sector_end y"
  by (simp add: sector_end_def div_le_mono)

lemma sector_end_ge: "0 < x \<Longrightarrow> x \<le> sector_end x"
proof -
  assume "0 < x"
  then show ?thesis
    using mult_div_mod_eq[of 4096 "x - 1"] mod_less_divisor[of 4096 "x - 1"] unfolding sector_end_def by fastforce
qed

lemma sector_end_aligned: "0 < a \<Longrightarrow> 4096 dvd a \<Longrightarrow> sector_end a = a \<and> int ((a - 1) div 4096) = int (a div 4096) - 1"
proof -
  assume "0 < a" "4096 dvd a"
  then obtain q where q: "a = 4096 * Suc q" by (metis dvd_def gr0_implies_Suc mult_0_right not_gr_zero)
  have "4096 * Suc q - 1 = 4095 + 4096 * q" by simp
  then have "(4096 * Suc q - 1) div 4096 = q" by simp
  then show ?thesis unfolding q sector_end_def by simp
qed

lemma write_init_inv: "0 < a \<Longrightarrow> 4096 dvd a \<Longrightarrow> write_inv a m [] (rboot_write_init a) m"
  using sector_end_aligned[of a]
  by (auto simp: write_inv_def whole_def rboot_write_init_def SECTOR_SIZE_def bytes_at_def)

lemma whole_append:
  assumes "x = length D mod 4" and "n = x + length bs"
  shows "whole (D @ bs) = whole D + (n - n mod 4)" "length (D @ bs) mod 4 = n mod 4"
    "take (whole (D @ bs)) (D @ bs) = take (whole D) D @ take (n - n mod 4) (drop (whole D) D @ bs)"
    "drop (whole (D @ bs)) (D @ bs) = drop (n - n mod 4) (drop (whole D) D @ bs)"
proof -
  have l: "length D = whole D + x" using assms(1) mult_div_mod_eq[of 4 "length D"] by (simp add: whole_def)
  have w: "whole D mod 4 = 0" by (simp add: whole_def)
  have ln: "length (D @ bs) = whole D + n" using l assms(2) by simp
  show m: "length (D @ bs) mod 4 = n mod 4"
    unfolding ln using w by (metis add.left_neutral mod_add_left_eq)
  show q: "whole (D @ bs) = whole D + (n - n mod 4)"
    using m ln mult_div_mod_eq[of 4 "length (D @ bs)"] mult_div_mod_eq[of 4 n] unfolding whole_def[of "D @ bs"] by linarith
  have "D @ bs = take (whole D) D @ (drop (whole D) D @ bs)" by simp
  moreover have tl: "length (take (whole D) D) = whole D" using l by simp
  ultimately show "take (whole (D @ bs)) (D @ bs) = take (whole D) D @ take (n - n mod 4) (drop (whole D) D @ bs)"
    "drop (whole (D @ bs)) (D @ bs) = drop (n - n mod 4) (drop (whole D) D @ bs)"
    unfolding q by (metis take_append take_all add_diff_cancel_left' le_add1, metis drop_append drop_all add_diff_cancel_left' le_add1 append_Nil)
qed

context ota_flash
begin

lemma erase_from_mem:
  assumes "4096 * (s + k) \<le> chip_size (sdk_flashchip fd)"
  shows "mem (erase_from fd k (int s - 1) d) = nor_erase (4096 * s) (4096 * k) (mem d)"
  using assms
proof (induction k arbitrary: s d)
  case 0
  then show ?case by (intro ext) (auto simp: nor_erase_def)
next
  case (Suc k)
  obtain d1 where e: "sdk_spi_flash_erase_sector fd s d = (SPI_FLASH_RESULT_OK, d1)" "mem d1 = nor_erase (4096 * s) 4096 (mem d)"
    using erase_one[of s d] Suc.prems by auto
  have "u16 s = s" using Suc.prems chip_24bit by (intro u16_small) simp
  moreover have "mem (erase_from fd k (int (Suc s) - 1) d1) = nor_erase (4096 * Suc s) (4096 * k) (mem d1)"
    using Suc.prems by (intro Suc.IH) simp
  ultimately show ?case using e by (intro ext) (auto simp: nor_erase_def)
qed

lemma write_flash_step:
  assumes inv: "write_inv a m0 D st (mem d)" and a: "0 < a" "4096 dvd a"
    and bs: "bs \<noteq> []" "length bs < 65533" and fit: "sector_end (a + length (D @ bs)) \<le> chip_size (sdk_flashchip fd)"
  shows "\<exists>st' d'. rboot_write_flash fd True rest st (Some bs) d = (True, st', d') \<and> write_inv a m0 (D @ bs) st' (mem d')"
proof -
  define x where "x = extra_count st"
  define n where "n = x + length bs"
  define len where "len = n - n mod 4"
  define buf where "buf = drop (whole D) D @ bs"
  define b where "b = a + whole D"
  have x: "x = length D mod 4" "x < 4" using inv by (simp_all add: write_inv_def x_def)
  note wa = whole_append[OF x(1) n_def, folded len_def buf_def]
  have lb: "length buf = n" using x(1) mult_div_mod_eq[of 4 "length D"] by (simp add: buf_def n_def whole_def minus_mult_div_eq_mod)
  have len: "len \<le> n" "4 dvd len" by (simp_all add: len_def dvd_minus_mod)
  have b: "b + len = a + whole (D @ bs)" "4 dvd b" "0 < b"
    using a wa(1) dvd_trans[of 4 4096 a] by (simp_all add: b_def) (simp add: whole_def)
  define E where "E = sector_end b"
  define E' where "E' = sector_end (b + len)"
  have "whole (D @ bs) \<le> length (D @ bs)" by (simp add: whole_def)
  then have Ec: "E' \<le> chip_size (sdk_flashchip fd)" using fit sector_end_mono[of "b + len" "a + length (D @ bs)"] b(1) by (simp add: E'_def)
  have EE: "E \<le> E'" "b + len \<le> E'" "b \<le> E"
    using sector_end_mono[of b "b + len"] sector_end_ge[of b] sector_end_ge[of "b + len"] b(3) by (simp_all add: E_def E'_def)
  define s where "s = (b - 1) div 4096 + 1"
  define k where "k = (b + len - 1) div 4096 + 1 - s"
  have mono: "(b - 1) div 4096 \<le> (b + len - 1) div 4096" using b by (intro div_le_mono) simp
  have s: "last_sector_erased st = int s - 1" using inv by (simp add: write_inv_def b_def s_def)
  have sk: "E = 4096 * s" "E' = 4096 * (s + k)" using mono by (simp_all add: E_def E'_def sector_end_def s_def k_def)
  have c24: "chip_size (sdk_flashchip fd) \<le> 16777216" using chip_24bit by simp
  have arith: "u16 (length bs + x) = n" "sub32 (b + len) 1 = b + len - 1" "u32 (b + len) = b + len"
    using bs(2) x(2) EE Ec c24 b(3) by (simp_all add: n_def u16_small sub32_small u32_small)
  have start: "start_addr st = b" "take x (extra_bytes st) = drop (whole D) D" "length (extra_bytes st) = 4"
    using inv unfolding write_inv_def b_def x_def by blast+
  define d1 where "d1 = erase_from fd k (int s - 1) d"
  have d1: "mem d1 = nor_erase E (E' - E) (mem d)"
    using erase_from_mem[of s k d] Ec sk EE unfolding d1_def by simp
  obtain d2 where w: "sdk_spi_flash_write fd b (Some (cbuf buf rest)) len d1 = (SPI_FLASH_RESULT_OK, d2)"
      "mem d2 = nor_write b (cbuf buf rest) len (mem d1)"
    using write_all[of b len "cbuf buf rest" d1] b(2) len(2) EE Ec by auto
  define st' where "st' = st\<lparr>extra_count := n mod 4, extra_bytes := overwrite (take (n mod 4) (drop len buf)) (extra_bytes st),
      last_sector_erased := int ((b + len - 1) div 4096), start_addr := b + len\<rparr>"
  have mx: "max (int ((b + len - 1) div 4096)) (int s - 1) = int ((b + len - 1) div 4096)"
    "nat (int ((b + len - 1) div 4096) - (int s - 1)) = k"
    using mono by (simp_all add: s_def k_def nat_diff_distrib)
  have run: "rboot_write_flash fd True rest st (Some bs) d = (True, st', d2)"
    using bs(1) w(1)
    unfolding rboot_write_flash_def st'_def d1_def Let_def option.case SECTOR_SIZE_def arith(1) start(1) s
      x_def[symmetric] start(2) buf_def[symmetric] len_def[symmetric] arith(2,3) mx
    by simp
  have tl: "take (n mod 4) (drop len buf) = drop len buf" "length (drop len buf) = n mod 4"
    using lb len by (simp_all add: len_def)
  have "n mod 4 < 4" by simp
  then have ex: "length (extra_bytes st') = 4" "take (extra_count st') (extra_bytes st') = drop len buf"
    using tl start(3) by (simp_all add: st'_def overwrite_def)
  have old: "mem d i = 255" if "b \<le> i" "i < E" for i using inv that by (simp add: write_inv_def b_def E_def)
  have old0: "mem d i = m0 i" if "i < a \<or> E \<le> i" for i using inv that by (auto simp: write_inv_def b_def E_def)
  have m1: "mem d1 i = 255" if "b \<le> i" "i < E'" for i
    using old[of i] that EE by (auto simp: d1 nor_erase_def)
  have low: "bytes_at (mem d2) a (whole D) = take (whole D) D"
  proof -
    have "bytes_at (mem d2) a (whole D) = bytes_at (mem d) a (whole D)"
      using EE by (intro bytes_at_cong) (auto simp: w d1 nor_write_def nor_erase_def b_def)
    then show ?thesis using inv by (simp add: write_inv_def)
  qed
  have high: "bytes_at (mem d2) b len = take len buf"
    using m1 EE lb len by (intro nth_equalityI) (auto simp: w nor_write_def)
  have "bytes_at (mem d2) a (whole (D @ bs)) = take (whole (D @ bs)) (D @ bs)"
    unfolding wa(1) bytes_at_append low using high wa(3) by (simp add: b_def wa(1))
  moreover have "mem d2 i = 255" if "b + len \<le> i" "i < E'" for i
    using m1[of i] that by (simp add: w nor_write_def)
  moreover have "mem d2 i = m0 i" if "i < a \<or> E' \<le> i" for i
    using old0[of i] that EE by (auto simp: w d1 nor_write_def nor_erase_def b_def)
  ultimately have "write_inv a m0 (D @ bs) st' (mem d2)"
    using ex wa(2,4) b(1) unfolding write_inv_def b(1)[symmetric] E'_def[symmetric]
    by (simp add: st'_def)
  then show ?thesis using run by blast
qed

end

text \<open>A client handing over an update chunk by chunk, stopping at the first failure.\<close>

fun write_chunks :: "'d flashdev \<Rightarrow> cptr \<Rightarrow> rboot_write_status \<Rightarrow> byte list list \<Rightarrow> 'd \<Rightarrow> bool \<times> rboot_write_status \<times> 'd" where
  "write_chunks fd rest st [] d = (True, st, d)"
| "write_chunks fd rest st (b # bs) d =
     (case rboot_write_flash fd True rest st (Some b) d of
        (ok, st', d') \<Rightarrow> if ok then write_chunks fd rest st' bs d' else (False, st', d'))"

context ota_flash
begin

lemma write_chunks_inv:
  assumes "write_inv a m0 D st (mem d)" and "0 < a" "4096 dvd a" and "\<forall>b \<in> set bs. length b < 65533"
    and "sector_end (a + length (D @ concat bs)) \<le> chip_size (sdk_flashchip fd)"
  shows "\<exists>st' d'. write_chunks fd rest st bs d = (True, st', d') \<and> write_inv a m0 (D @ concat bs) st' (mem d')"
  using assms
proof (induction bs arbitrary: D st d)
  case (Cons b bs)
  have "sector_end (a + length (D @ b)) \<le> chip_size (sdk_flashchip fd)"
    using Cons.prems(5) sector_end_mono[of "a + length (D @ b)" "a + length (D @ concat (b # bs))"] by simp
  then have "\<exists>st' d'. rboot_write_flash fd True rest st (Some b) d = (True, st', d') \<and> write_inv a m0 (D @ b) st' (mem d')"
    using write_flash_step[of a m0 D st d b rest] Cons.prems by (cases "b = []") (simp_all add: rboot_write_flash_def)
  then obtain st' d' where s: "rboot_write_flash fd True rest st (Some b) d = (True, st', d')" "write_inv a m0 (D @ b) st' (mem d')"
    by blast
  with Cons.IH[OF s(2)] Cons.prems show ?case by simp
qed simp

end

text \<open>C13: An update arrives as it was sent. From a fresh status for a sector boundary, handing over the data in
  chunks, each shorter than 65533 bytes, makes every call succeed and leaves the whole 32-bit words of the concatenation of the chunks
  on the chip, whatever the chip held there before; the bytes left over, up to three, are in the status, and every byte outside the sectors
  touched is as it was.\<close>

theorem write_flash_stream:
  assumes "ota_flash fd mem wel" and "0 < a" and "4096 dvd a" and "\<forall>b \<in> set bs. length b < 65533"
    and "sector_end (a + length (concat bs)) \<le> chip_size (sdk_flashchip fd)"
  shows "\<exists>st' d'. write_chunks fd rest (rboot_write_init a) bs d = (True, st', d')
    \<and> bytes_at (mem d') a (whole (concat bs)) = take (whole (concat bs)) (concat bs)
    \<and> take (extra_count st') (extra_bytes st') = drop (whole (concat bs)) (concat bs)
    \<and> (\<forall>i. i < a \<or> sector_end (a + whole (concat bs)) \<le> i \<longrightarrow> mem d' i = mem d i)"
  using ota_flash.write_chunks_inv[OF assms(1), OF write_init_inv[OF assms(2,3)], of bs rest d] assms(2-5)
  by (auto simp: write_inv_def)

theorem write_flash_stream_witness:
  "\<exists>st' d'. write_chunks sim_flash (\<lambda>_. 0) (rboot_write_init 0x2000) [[1, 2, 3], [4, 5], [6, 7, 8, 9]] [(0x1fff, 42)] = (True, st', d')
    \<and> bytes_at (sim_mem d') 0x2000 8 = [1, 2, 3, 4, 5, 6, 7, 8] \<and> take (extra_count st') (extra_bytes st') = [9]
    \<and> sim_mem d' 0x1fff = 42"
proof -
  let ?bs = "[[1, 2, 3], [4, 5], [6, 7, 8, 9]] :: byte list list"
  have w: "whole (concat ?bs) = 8" "sector_end (0x2000 + length (concat ?bs)) \<le> chip_size (sdk_flashchip sim_flash)"
    by (simp_all add: whole_def sector_end_def sim_flash_def sdk_flashchip_init_def)
  have m: "sim_mem [(0x1fff, 42)] 0x1fff = 42" by (simp add: sim_mem_def)
  show ?thesis
    using write_flash_stream[OF sim_ota.ota_flash_axioms, of "0x2000" ?bs "\<lambda>_. 0" "[(0x1fff, 42)]"] w(2) m
    unfolding w(1) by auto
qed

section \<open>Verifying an image\<close>

text \<open>Section lengths that are whole words.\<close>

fun word_sections :: "cptr \<Rightarrow> nat \<Rightarrow> nat \<Rightarrow> bool" where
  "word_sections m 0 pos = True"
| "word_sections m (Suc k) pos = (4 dvd mword m (pos + 4) \<and> word_sections m k (pos + 8 + mword m (pos + 4)))"

text \<open>What \<open>rboot_verify_image\<close> takes for granted of an image: a word-aligned ROM address, sections of whole words, the
  image proper of a new-style ROM on a 16-byte line with the old magic number, and an end within a megabyte and
  before the last 16 bytes of the chip.\<close>

definition verifiable :: "nat \<Rightarrow> cptr \<Rightarrow> nat \<Rightarrow> nat \<Rightarrow> bool" where
  "verifiable csize m a s \<longleftrightarrow>
     image_start m a = Some s \<and> 4 dvd a \<and> m s = ROM_MAGIC \<and> word_sections m (unat (m (s + 1))) (s + 8)
   \<and> (s \<noteq> a \<longrightarrow> 16 dvd s \<and> 4 dvd mword m (a + 12))
   \<and> image_end m s + 16 \<le> csize \<and> image_end m s \<le> a + 0x100000"

context ota_flash
begin

lemma verify_sum_xor:
  assumes "i \<le> len" and "off + len + 16 \<le> chip_size (sdk_flashchip fd)" and "i mod 16 \<noteq> 0 \<longrightarrow> chunk = bytes_at (mem d) (off + 16 * (i div 16)) 16"
  shows "\<exists>d'. verify_sum fd off i len chunk c d = (foldl (XOR) c (bytes_at (mem d) (off + i) (len - i)), d') \<and> mem d' = mem d"
  using assms
proof (induction "len - i" arbitrary: i chunk c d)
  case 0
  then show ?case by (simp add: verify_sum.simps bytes_at_def)
next
  case (Suc n)
  then have i: "i < len" by simp
  have u: "u32 (off + i) = off + i" using Suc.prems i by (intro no_wrap) simp
  obtain d1 where r: "(if i mod 16 = 0
      then (case sdk_spi_flash_read fd (u32 (off + i)) False 16 d of (_, bs, d1) \<Rightarrow> (bs, d1)) else (chunk, d))
      = (bytes_at (mem d) (off + 16 * (i div 16)) 16, d1)" "mem d1 = mem d"
  proof (cases "i mod 16 = 0")
    case True
    then have "16 * (i div 16) = i" by presburger
    then show ?thesis using that read_all[of "off + i" 16 d] True u i Suc.prems by auto
  next
    case False
    then show ?thesis using that[of d] Suc.prems by simp
  qed
  let ?ch = "bytes_at (mem d) (off + 16 * (i div 16)) 16"
  have "?ch ! (i mod 16) = mem d (off + 16 * (i div 16) + i mod 16)" by (intro bytes_at_nth) simp
  then have b: "?ch ! (i mod 16) = mem d (off + i)" by (simp only: add.assoc mult_div_mod_eq)
  have "(i + 1) mod 16 \<noteq> 0 \<longrightarrow> (i + 1) div 16 = i div 16" by (simp add: div_Suc)
  then have "\<exists>d'. verify_sum fd off (i + 1) len ?ch (c XOR mem d (off + i)) d1 =
      (foldl (XOR) (c XOR mem d (off + i)) (bytes_at (mem d1) (off + (i + 1)) (len - (i + 1))), d') \<and> mem d' = mem d1"
    using Suc.hyps(2) Suc.prems i r(2) by (intro Suc.hyps(1)) auto
  moreover have "bytes_at (mem d) (off + i) (len - i) = mem d (off + i) # bytes_at (mem d) (off + (i + 1)) (len - (i + 1))"
    using i by (simp add: bytes_at_def upt_conv_Cons)
  ultimately show ?case
    using i r b by (subst verify_sum.simps) (auto simp del: bytes_at_nth)
qed

lemma align_mult: "x < 0xfffff000 \<Longrightarrow> 0 < k \<Longrightarrow> k \<le> 16 \<Longrightarrow> k dvd x \<Longrightarrow> align k x = x"
proof -
  assume a: "x < 0xfffff000" "0 < k" "k \<le> 16" "k dvd x"
  then obtain q where q: "x = k * q" by blast
  have "(k - 1) div k = 0" using a(2) by simp
  then have "(k * q + (k - 1)) div k = q" using a(2) by (metis add_0_right div_mult_self4 not_gr_zero)
  then show ?thesis using a q by (simp add: align_def u32_small)
qed

lemma verify_loop_old:
  assumes "snd (payload (mem d) k pos) + 16 \<le> chip_size (sdk_flashchip fd)" and "snd (payload (mem d) k pos) \<le> lim"
    and "word_sections (mem d) k pos" and "4 dvd pos"
  shows "\<exists>d'. verify_loop fd lim False k pos c d =
      (None, 0, snd (payload (mem d) k pos), foldl (XOR) c (fst (payload (mem d) k pos)), d') \<and> mem d' = mem d"
  using assms
proof (induction k arbitrary: pos c d)
  case 0
  then show ?case by (simp add: verify_loop.simps)
next
  case (Suc k)
  define n where "n = mword (mem d) (pos + 4)"
  obtain bs e where p: "payload (mem d) k (pos + 8 + n) = (bs, e)" by fastforce
  have e: "snd (payload (mem d) (Suc k) pos) = e" using p by (simp add: n_def)
  have le: "pos + 8 + n \<le> e" "e + 16 \<le> chip_size (sdk_flashchip fd)" "e \<le> lim"
    using payload_mono[of "pos + 8 + n" "mem d" k] p Suc.prems(1,2) unfolding e by simp_all
  have c24: "chip_size (sdk_flashchip fd) \<le> 16777216" using chip_24bit by simp
  obtain d1 where r: "sdk_spi_flash_read fd pos False 8 d = (SPI_FLASH_RESULT_OK, bytes_at (mem d) pos 8, d1)" "mem d1 = mem d"
    using read_all[of pos 8 d] le by auto
  obtain d2 where v: "verify_sum fd (pos + 8) 0 n [] c d1 = (foldl (XOR) c (bytes_at (mem d) (pos + 8) n), d2)" "mem d2 = mem d"
    using verify_sum_xor[of 0 n "pos + 8" "[]" d1 c] le r by auto
  have dv: "4 dvd n" "4 dvd pos + 8 + n" using Suc.prems(3,4) by (simp_all add: n_def)
  have u: "u32 (pos + 8) = pos + 8" "u32 (n + (pos + 8)) = n + (pos + 8)" "u32 (pos + 8 + n) = pos + 8 + n"
    "align 4 (pos + 8 + n) = pos + 8 + n"
    using le c24 dv by (simp_all add: u32_small align_mult)
  have w: "word_at (bytes_at (mem d) pos 8) 4 = n" by (simp add: word_at_bytes n_def)
  have run: "verify_loop fd lim False (Suc k) pos c d =
      verify_loop fd lim False k (pos + 8 + n) (foldl (XOR) c (bytes_at (mem d) (pos + 8) n)) d2"
    using r(1) v(1) le dv(1) by (subst verify_loop.simps) (simp add: Let_def w u)
  have "\<exists>d'. verify_loop fd lim False k (pos + 8 + n) (foldl (XOR) c (bytes_at (mem d) (pos + 8) n)) d2 =
      (None, 0, snd (payload (mem d2) k (pos + 8 + n)),
       foldl (XOR) (foldl (XOR) c (bytes_at (mem d) (pos + 8) n)) (fst (payload (mem d2) k (pos + 8 + n))), d') \<and> mem d' = mem d2"
    using le dv Suc.prems(3) v(2) p by (intro Suc.IH) (auto simp: n_def)
  then show ?case unfolding run using v(2) p by (auto simp: n_def)
qed

lemma verify_loop_new:
  fixes d a
  defines "s \<equiv> a + mword (mem d) (a + 12) + 16"
  assumes "16 dvd s" and "4 dvd mword (mem d) (a + 12)" and "mem d s = ROM_MAGIC" and "0 < r"
    and "s + 24 \<le> chip_size (sdk_flashchip fd)" and "s \<le> lim"
  shows "\<exists>d'. verify_loop fd lim True r (a + 8) c d = verify_loop fd lim False (unat (mem d (s + 1))) (s + 8) c d' \<and> mem d' = mem d"
proof -
  have c24: "chip_size (sdk_flashchip fd) \<le> 16777216" using chip_24bit by simp
  define n where "n = mword (mem d) (a + 12)"
  have s: "s = a + 8 + 8 + n" by (simp add: s_def n_def)
  obtain d1 where r: "sdk_spi_flash_read fd (a + 8) False 8 d = (SPI_FLASH_RESULT_OK, bytes_at (mem d) (a + 8) 8, d1)" "mem d1 = mem d"
    using read_all[of "a + 8" 8 d] assms(6) s by auto
  obtain d2 where h: "sdk_spi_flash_read fd s False 8 d1 = (SPI_FLASH_RESULT_OK, bytes_at (mem d) s 8, d2)" "mem d2 = mem d"
    using read_all[of s 8 d1] assms(6) r by auto
  have "4 dvd s" using assms(2) dvd_trans[of 4 16 s] by simp
  then have u: "u32 (16 + a) = 16 + a" "u32 (n + (16 + a)) = s" "u32 (16 + a + n) = s" "align 4 s = s" "align 16 s = s" "u32 (s + 8) = s + 8"
    using assms(2,6) c24 s by (simp_all add: u32_small align_mult)
  have w: "word_at (bytes_at (mem d) (a + 8) 8) 4 = n" by (simp add: word_at_bytes n_def add.commute)
  have lim: "a + 8 < lim" "\<not> lim < s" using assms(7) s by simp_all
  have "verify_loop fd lim True r (a + 8) c d = verify_loop fd lim False (unat (mem d (s + 1))) (s + 8) c d2"
    using lim r(1) h(1) assms(4,5) assms(3)[folded n_def]
    by (subst verify_loop.simps) (simp add: Let_def w u ROM_MAGIC_def)
  then show ?thesis using h(2) by blast
qed

lemma align_sum_pos: "e < 0xfffff000 \<Longrightarrow> align 16 (e + 1) = sum_pos e + 1"
proof -
  assume e: "e < 0xfffff000"
  have q: "(16 + e) div 16 = e div 16 + 1" by simp
  have "16 * (e div 16) \<le> e" by simp
  then have "16 * (e div 16 + 1) < 4294967296" using e by (simp add: algebra_simps)
  then show ?thesis using e q by (simp add: align_def u32_small sum_pos_def)
qed

lemma verify_image_run:
  assumes "verifiable (chip_size (sdk_flashchip fd)) (mem d) a s"
  shows "\<exists>d'. rboot_verify_image fd a d =
      (if image_sum_ok (mem d) s then Inr () else Inl Invalid_checksum, image_end (mem d) s + 1 - a, d') \<and> mem d' = mem d"
proof -
  have c24: "chip_size (sdk_flashchip fd) \<le> 16777216" using chip_24bit by simp
  define k where "k = unat (mem d (s + 1))"
  define lim where "lim = a + 0x100000"
  obtain bs e where p: "payload (mem d) k (s + 8) = (bs, e)" by fastforce
  have v: "image_start (mem d) a = Some s" "4 dvd a" "mem d s = ROM_MAGIC" "word_sections (mem d) k (s + 8)"
    "sum_pos e + 16 \<le> chip_size (sdk_flashchip fd)" "sum_pos e \<le> lim" "s \<noteq> a \<Longrightarrow> 16 dvd s \<and> 4 dvd mword (mem d) (a + 12)"
    using assms p by (auto simp: verifiable_def image_end_def k_def lim_def)
  have e: "e \<le> sum_pos e" "s + 8 \<le> e" using sum_pos_ge payload_mono[of "s + 8" "mem d" k] p by simp_all
  have as: "a \<le> s" using v(1) by (auto simp: image_start_def split: if_splits)
  have s4: "4 dvd s + 8" using v(2,7) dvd_trans[of 4 16 s] by (cases "s = a") auto
  obtain d1 where r: "sdk_spi_flash_read fd a False 8 d = (SPI_FLASH_RESULT_OK, bytes_at (mem d) a 8, d1)" "mem d1 = mem d"
    using read_all[of a 8 d] as e v(5) by auto
  have old: "\<exists>d'. verify_loop fd lim False k (s + 8) CHKSUM_INIT d2 = (None, 0, e, calc_chksum bs, d') \<and> mem d' = mem d"
    if "mem d2 = mem d" for d2
    using verify_loop_old[of d2 k "s + 8" lim CHKSUM_INIT] p v(4-6) e s4 that by (simp add: calc_chksum_def)
  have loop: "\<exists>d'. verify_loop fd lim (mem d a = 0xea) (unat (mem d (a + 1))) (a + 8) CHKSUM_INIT d1 = (None, 0, e, calc_chksum bs, d')
      \<and> mem d' = mem d"
  proof (cases "s = a")
    case True
    then have "mem d a \<noteq> 0xea" using v(3) by (simp add: ROM_MAGIC_def)
    then show ?thesis using old[of d1] r(2) True by (simp add: k_def)
  next
    case False
    then have n: "mem d a = 0xea" "mem d (a + 1) = 4" "s = a + mword (mem d) (a + 12) + 16"
      using v(1) by (auto simp: image_start_def ROM_MAGIC_NEW1_def ROM_MAGIC_NEW2_def split: if_splits)
    obtain d2 where "verify_loop fd lim True (unat (mem d (a + 1))) (a + 8) CHKSUM_INIT d1 = verify_loop fd lim False k (s + 8) CHKSUM_INIT d2"
        "mem d2 = mem d"
      using verify_loop_new[of a d1 "unat (mem d (a + 1))" lim CHKSUM_INIT] v(3,5,6) v(7)[OF False] n e r(2) unfolding k_def by auto
    then show ?thesis using old[of d2] n(1) by simp
  qed
  then obtain d3 where l: "verify_loop fd lim (mem d a = 0xea) (unat (mem d (a + 1))) (a + 8) CHKSUM_INIT d1 = (None, 0, e, calc_chksum bs, d3)"
    "mem d3 = mem d" by blast
  obtain d4 where c: "sdk_spi_flash_read fd (sum_pos e) False 1 d3 = (SPI_FLASH_RESULT_OK, bytes_at (mem d) (sum_pos e) 1, d4)" "mem d4 = mem d"
    using read_all[of "sum_pos e" 1 d3] v(5) l(2) by auto
  have u: "u32 (a + 0x100000) = lim" "u32 (a + 8) = a + 8" "u32 (e + 1) = e + 1" "align 16 (e + 1) = sum_pos e + 1"
      "sub32 (sum_pos e + 1) 1 = sum_pos e" "sub32 (sum_pos e + 1) a = sum_pos e + 1 - a"
    using c24 as e v(5) align_sum_pos[of e] by (simp_all add: u32_small sub32_small lim_def)
  have m: "mem d a = 0xe9 \<or> mem d a = 0xea" "a mod 4 = 0" "bytes_at (mem d) a 8 ! 0 = mem d a" "bytes_at (mem d) a 8 ! 1 = mem d (a + 1)"
    using v(1,2) by (auto simp: image_start_def ROM_MAGIC_def ROM_MAGIC_NEW1_def split: if_splits)
  have ie: "image_end (mem d) s = sum_pos e" "image_sum_ok (mem d) s \<longleftrightarrow> mem d (sum_pos e) = calc_chksum bs"
    using p by (simp_all add: image_end_def image_sum_ok_def k_def)
  have "rboot_verify_image fd a d =
      (if mem d (sum_pos e) \<noteq> calc_chksum bs then Inl Invalid_checksum else Inr (), sum_pos e + 1 - a, d4)"
    using m(1,2) r(1) l(1) c(1) unfolding rboot_verify_image_def u Let_def by (simp add: m(3,4) u[simplified])
  then show ?thesis using c(2) unfolding ie by auto
qed

end

text \<open>The application and the boot loader agree on what a good image is. On an image laid out as the build
  lays it out, in either format, \<open>rboot_verify_image\<close> succeeds exactly when the boot loader's \<open>check_image\<close>, run on
  the same chip, accepts the ROM; the only error left is the checksum error; the length reported reaches to the
  end of the 16-byte line with the checksum.\<close>

theorem verify_agrees_with_boot:
  assumes "ota_flash fd mem wel" and "verifiable (chip_size (sdk_flashchip fd)) (mem d) a s"
    and "boot_hw br bmem rtcw (chip_size (sdk_flashchip fd))" and "bmem b = mem d" and "\<not> BOOT_IROM_CHKSUM opt"
  shows "\<exists>r d' b'. rboot_verify_image fd a d = (r, image_end (mem d) s + 1 - a, d') \<and> mem d' = mem d
    \<and> (r = Inr () \<or> r = Inl Invalid_checksum)
    \<and> check_image opt br a b = (if r = Inr () then s else 0, b') \<and> bmem b' = mem d"
proof -
  have v: "image_start (mem d) a = Some s" "image_end (mem d) s < chip_size (sdk_flashchip fd)"
      "a + 16 \<le> image_end (mem d) s + 16" "image_end (mem d) s + 16 \<le> chip_size (sdk_flashchip fd)"
    using assms(2) boot_hw.image_end_gt[OF assms(3), of s "mem d"]
    by (auto simp: verifiable_def image_start_def split: if_splits)
  obtain d1 where r: "rboot_verify_image fd a d =
      (if image_sum_ok (mem d) s then Inr () else Inl Invalid_checksum, image_end (mem d) s + 1 - a, d1)" "mem d1 = mem d"
    using ota_flash.verify_image_run[OF assms(1), OF assms(2)] by blast
  have "image_fits (chip_size (sdk_flashchip fd)) (bmem b) a" using v assms(4) by (simp add: image_fits_def)
  from boot_hw.check_image_run[OF assms(3), OF this, OF assms(5)] obtain b1
    where c: "check_image opt br a b = (if image_sum_ok (mem d) s then s else 0, b1)" "bmem b1 = mem d"
    using v(1) assms(4) by (auto simp: run_addr_def)
  show ?thesis using r c by (cases "image_sum_ok (mem d) s") simp_all
qed

text \<open>A chip with one two-section ROM of the old format; each section holds one word.\<close>

definition sample_rom :: sim_dev where
  "sample_rom =
     [(0x2000, 0xe9), (0x2001, 1), (0x2002, 0), (0x2003, 0), (0x2004, 0), (0x2005, 0), (0x2006, 0x10), (0x2007, 0x40),
      (0x2008, 0), (0x2009, 0), (0x200a, 0x10), (0x200b, 0x40), (0x200c, 4), (0x200d, 0), (0x200e, 0), (0x200f, 0),
      (0x2010, 1), (0x2011, 2), (0x2012, 4), (0x2013, 8), (0x201f, 0xe0)]"

lemma sample_rom_image:
  "image_start (sim_mem sample_rom) 0x2000 = Some 0x2000" "mword (sim_mem sample_rom) 0x200c = 4"
  "image_end (sim_mem sample_rom) 0x2000 = 0x201f" "sim_mem sample_rom 0x2000 = ROM_MAGIC" "sim_mem sample_rom 0x2001 = 1"
proof -
  show m: "mword (sim_mem sample_rom) 0x200c = 4" "sim_mem sample_rom 0x2000 = ROM_MAGIC" "sim_mem sample_rom 0x2001 = 1"
    by (simp_all add: mword_def sim_mem_def sample_rom_def of_le32_def ROM_MAGIC_def)
  then show "image_start (sim_mem sample_rom) 0x2000 = Some 0x2000" by (simp add: image_start_def)
  show "image_end (sim_mem sample_rom) 0x2000 = 0x201f" using m by (simp add: image_end_def sum_pos_def)
qed

lemma sample_rom_verifiable: "verifiable (chip_size (sdk_flashchip sim_flash)) (sim_mem sample_rom) 0x2000 0x2000"
  using sample_rom_image by (simp add: verifiable_def sim_flash_def sdk_flashchip_init_def)

lemma sample_rom_boot: "boot_hw sim_bootrom fst snd (chip_size (sdk_flashchip sim_flash))"
  using sim_boot.boot_hw_axioms by (simp add: sim_flash_def sdk_flashchip_init_def)

theorem verify_agrees_with_boot_witness:
  "\<exists>r d' b'. rboot_verify_image sim_flash 0x2000 sample_rom = (r, 0x20, d') \<and> sim_mem d' = sim_mem sample_rom
    \<and> (r = Inr () \<or> r = Inl Invalid_checksum)
    \<and> check_image repo_options sim_bootrom 0x2000 (sim_mem sample_rom, \<lambda>_. 0) = (if r = Inr () then 0x2000 else 0, b')"
  using verify_agrees_with_boot[OF sim_ota.ota_flash_axioms sample_rom_verifiable sample_rom_boot, of "(sim_mem sample_rom, \<lambda>_. 0)" repo_options]
  by (auto simp: repo_options_off sample_rom_image)

section \<open>From an update to the next boot\<close>

lemma le32_of_le32: "le32 (of_le32 a b c d) = [a, b, c, d]"
proof -
  have "\<not> bit x (8 + n)" "\<not> bit x (16 + n)" "\<not> bit x (24 + n)" for x :: byte and n
    by (auto dest: bit_imp_le_length)
  then show ?thesis unfolding le32_def of_le32_def by (auto intro!: bit_eqI simp: bit_simps)
qed

lemma config_of_ok [simp]: "config_ok (config_of bs)" "config_ok (c\<lparr>rc_current_rom := r\<rparr>) = config_ok c"
  by (simp_all add: config_ok_def config_of_def)

lemma config_of_body:
  assumes "24 \<le> length bs"
  shows "config_body (config_of bs\<lparr>rc_current_rom := r\<rparr>) = (take 24 bs)[3 := r]"
proof -
  have t: "take 24 bs = map (\<lambda>i. bs ! i) [0..<24]" using assms by (intro nth_equalityI) simp_all
  show ?thesis unfolding t by (simp add: config_body_def config_of_def le32_of_le32 upt_rec) (simp add: eval_nat_numeral)
qed

lemma payload_cong:
  "(\<And>i. b \<le> i \<Longrightarrow> m i = m' i) \<Longrightarrow> b \<le> pos \<Longrightarrow> payload m k pos = payload m' k pos"
proof (induction k arbitrary: pos)
  case (Suc k)
  have "mword m (pos + 4) = mword m' (pos + 4)" "bytes_at m (pos + 8) n = bytes_at m' (pos + 8) n" for n
    using Suc.prems by (auto simp: mword_def intro!: bytes_at_cong)
  then show ?case using Suc by simp
qed simp

lemma image_cong:
  assumes "\<And>i. b \<le> i \<Longrightarrow> m i = m' i" and "b \<le> a"
  shows "image_start m a = image_start m' a" "image_end m a = image_end m' a" "image_sum_ok m a = image_sum_ok m' a"
proof -
  have p: "payload m k (a + 8) = payload m' k (a + 8)" for k using assms by (intro payload_cong[where b = b]) auto
  have e: "a + 8 \<le> image_end m' a"
    using payload_mono[of "a + 8" m' "unat (m' (a + 1))"] sum_pos_ge unfolding image_end_def by (rule order_trans)
  show "image_start m a = image_start m' a" using assms by (simp add: image_start_def mword_def)
  show ie: "image_end m a = image_end m' a" using assms p by (simp add: image_end_def)
  show "image_sum_ok m a = image_sum_ok m' a" unfolding image_sum_ok_def ie using assms p e by simp
qed

lemma image_start_ge: "image_start m a = Some s \<Longrightarrow> a \<le> s"
  by (auto simp: image_start_def split: if_splits)

lemma run_addr_cong:
  assumes "\<And>i. b \<le> i \<Longrightarrow> m i = m' i" and "b \<le> a"
  shows "run_addr m a = run_addr m' a" "image_fits csize m a = image_fits csize m' a"
  using image_cong[OF assms] image_cong(2,3)[OF assms(1), of b] image_start_ge[of m' a] assms(2)
  by (auto simp: run_addr_def image_fits_def split: option.splits intro: image_cong)

context ota_flash
begin

lemma set_current_rom_run:
  fixes d rom
  defines "buf \<equiv> bytes_at (mem d) 0x1000 4096"
  assumes "rom < conf_count buf"
  shows "\<exists>d' buf'. rboot_set_current_rom fd True rom d = (True, d') \<and> mem d' = with_config buf' (mem d) \<and> length buf' = 4096
    \<and> take 24 buf' = (take 24 buf)[3 := rom] \<and> buf' ! 24 = calc_chksum (take 24 buf')"
proof -
  define bs where "bs = bytes_at (mem d) 0x1000 28"
  define c where "c = config_of bs\<lparr>rc_current_rom := rom\<rparr>"
  define c' where "c' = c\<lparr>rc_chksum := calc_chksum (config_body c)\<rparr>"
  obtain d1 where g: "rboot_get_config fd d = (config_of bs, d1)" "mem d1 = mem d"
    using get_config_run[of d] unfolding bs_def by blast
  have "rc_count (config_of bs) = conf_count buf" by (simp add: config_of_def bs_def buf_def conf_count_def)
  then have lt: "\<not> rc_count (config_of bs) \<le> rom" using assms(2) by simp
  obtain d2 where s: "rboot_set_config fd True c d1 = (True, c', d2)"
      "mem d2 = with_config (overwrite (config_bytes c') buf) (mem d)"
    using set_config_run[of c d1] g(2) unfolding c_def c'_def buf_def by auto
  have ok: "config_ok c'" "rc_chksum c' = calc_chksum (config_body c')" "config_body c' = config_body c"
    by (simp_all add: c'_def c_def config_ok_def config_of_def config_body_def)
  have len: "length (config_bytes c') = 28" "length (config_body c') = 24" using config_bytes_length config_body_length ok(1) by auto
  have b: "config_body c = (take 24 buf)[3 := rom]"
    using config_of_body[of bs rom] unfolding c_def by (simp add: bs_def buf_def bytes_at_def take_map)
  have "take 24 (overwrite (config_bytes c') buf) = config_body c'" using len by (simp add: overwrite_def config_bytes_def)
  moreover have "overwrite (config_bytes c') buf ! 24 = calc_chksum (config_body c')"
    using len ok(2) by (simp add: overwrite_def config_bytes_def nth_append)
  moreover have "length (overwrite (config_bytes c') buf) = 4096" using len by (simp add: overwrite_def buf_def)
  moreover have "rboot_set_current_rom fd True rom d = (True, d2)"
    using g(1) s(1) lt by (simp add: rboot_set_current_rom_def c_def)
  ultimately show ?thesis using s(2) ok(3) b by (intro exI[of _ d2] exI[of _ "overwrite (config_bytes c') buf"]) simp
qed

end

lemma conf_fields_take:
  assumes "take 24 buf' = (take 24 buf)[3 := rom]" and "24 \<le> length buf" and "24 \<le> length buf'"
  shows "i < 24 \<Longrightarrow> i \<noteq> 3 \<Longrightarrow> buf' ! i = buf ! i" "buf' ! 3 = rom"
proof -
  have "buf' ! i = (take 24 buf)[3 := rom] ! i" if "i < 24" for i using assms(1) that by (metis nth_take)
  then show "i < 24 \<Longrightarrow> i \<noteq> 3 \<Longrightarrow> buf' ! i = buf ! i" "buf' ! 3 = rom" using assms(2) by simp_all
qed

context ota_flash
begin

lemma verified_boot:
  assumes "buf = bytes_at (mem d) 0x1000 4096" and "config_valid opt buf"
    and "unat (conf_count buf) \<le> 4" and "rom < conf_count buf"
    and "\<And>i. i < unat (conf_count buf) \<Longrightarrow> conf_rom buf (int i) \<in> {0, 0xffffffff} \<union> {0x2000..}
           \<and> image_fits (chip_size (sdk_flashchip fd)) (mem d) (conf_rom buf (int i))"
    and "verifiable (chip_size (sdk_flashchip fd)) (mem d) (conf_rom buf (int (unat rom))) s"
    and "fst (rboot_verify_image fd (conf_rom buf (int (unat rom))) d) = Inr ()"
    and "boot_hw br bmem rtcw (chip_size (sdk_flashchip fd))" and "BOOT_RTC_ENABLED opt \<longrightarrow> \<not> temp_requested (rtcw b)"
    and "\<not> BOOT_IROM_CHKSUM opt" and "\<not> BOOT_GPIO_ENABLED opt"
    and "bmem b = mem (snd (rboot_set_current_rom fd True rom d))"
    and "length rtc = 12" and "ptr \<noteq> 0" and "4 dvd ptr" and "4 < fuel"
  shows "fst (rboot_set_current_rom fd True rom d)
    \<and> (\<exists>b'. find_image fuel opt br ptr rtc b = Some (s, b') \<and> bmem b' = bmem b)"
proof -
  let ?cs = "chip_size (sdk_flashchip fd)"
  define a where "a = conf_rom buf (int (unat rom))"
  obtain d1 buf' where s: "rboot_set_current_rom fd True rom d = (True, d1)" "mem d1 = with_config buf' (mem d)" "length buf' = 4096"
      "take 24 buf' = (take 24 buf)[3 := rom]" "buf' ! 24 = calc_chksum (take 24 buf')"
    using set_current_rom_run[of rom d] assms(1,4) by auto
  have lb: "length buf = 4096" using assms(1) by simp
  have f: "buf' ! i = buf ! i" if "i < 24" "i \<noteq> 3" for i using conf_fields_take(1)[OF s(4)] lb s(3) that by simp
  have f3: "buf' ! 3 = rom" using conf_fields_take(2)[OF s(4)] lb s(3) by simp
  have bm: "bmem b = with_config buf' (mem d)" using assms(12) s(1,2) by simp
  have b': "bytes_at (bmem b) 0x1000 4096 = buf'" unfolding bm by (rule with_config_bytes[OF s(3)])
  have valid: "config_valid opt buf'" using assms(2) s(5) by (simp add: config_valid_def f)
  have cnt: "conf_count buf' = conf_count buf" "conf_current_rom buf' = rom"
    by (simp_all add: conf_count_def conf_current_rom_def f f3)
  have roms: "conf_rom buf' (int i) = conf_rom buf (int i)" if "i < 4" for i
    using that by (simp add: conf_rom_def word_at_def f nat_add_distrib nat_mult_distrib)
  have high: "bmem b i = mem d i" if "0x2000 \<le> i" for i using that by (simp add: bm with_config_def)
  have fits: "image_fits ?cs (bmem b) (conf_rom buf' (int i))" if i: "i < unat (conf_count buf')" for i
  proof -
    have i4: "i < 4" using i assms(3) by (simp add: cnt)
    consider "conf_rom buf (int i) \<in> {0, 0xffffffff}" | "0x2000 \<le> conf_rom buf (int i)" using assms(5)[of i] i cnt(1) by auto
    then show ?thesis
    proof cases
      case 1
      then show ?thesis by (auto simp: image_fits_def roms[OF i4])
    next
      case 2
      from run_addr_cong(2)[OF high this, where csize = ?cs] assms(5)[of i] i cnt(1) show ?thesis by (simp add: roms[OF i4])
    qed
  qed
  have rl: "unat rom < unat (conf_count buf)" "unat rom < 4" using assms(3,4) by (simp_all add: word_less_nat_alt)
  have st: "image_start (mem d) a = Some s" using assms(6) by (simp add: verifiable_def a_def)
  then have a2: "0x2000 \<le> a" using assms(5)[OF rl(1)] by (auto simp: image_start_def a_def)
  have "image_sum_ok (mem d) s"
    using verify_image_run[OF assms(6)] assms(7) by (auto split: if_splits)
  then have "run_addr (mem d) a = s" using st by (simp add: run_addr_def)
  then have run: "slot_addr (bmem b) buf' (unat rom) = s"
    using run_addr_cong(1)[OF high a2] roms[OF rl(2)] by (simp add: slot_addr_def a_def)
  have "s \<noteq> 0" using image_start_ge[OF st] a2 by simp
  then have "boot_choice (bmem b) buf' = Some (unat rom)"
    using run boot_order_first[OF rl(1)] by (auto simp: boot_choice_def cnt)
  then have "\<exists>b'. find_image fuel opt br ptr rtc b = Some (s, b') \<and> bmem b' = bmem b"
    using boot_hw.find_image_standard[OF assms(8), of opt b rtc ptr fuel, unfolded b'] valid cnt assms(3,4,9-11,13-16) fits run
    by auto
  then show ?thesis using s(1) by simp
qed

end

text \<open>C3: A verified update is what boots next. Take a chip with a valid configuration of at most four ROMs, each
  unset or behind the configuration sector and within the chip, and in slot \<open>rom\<close> an image in a layout on which the application and the boot
  loader agree (\<open>verifiable\<close>): at a word-aligned address, either of the old style, or behind a new-style header with the magic byte 0xEA and
  the count 4 whose irom section has whole words and ends on a 16-byte line, where the image proper with the old magic byte begins;
  all its sections have whole words, and it ends within a megabyte and before the last 16 bytes of the chip. If
  \<open>rboot_verify_image\<close> accepts this image and the application then calls \<open>rboot_set_current_rom\<close>, the call succeeds, and the boot
  loader, built without the irom checksum and without booting by GPIO and started on that chip with no temporary ROM asked for, returns the
  address of this image at once and leaves the chip as it is. The layout is a condition on the image that \<open>rboot_verify_image\<close> itself does
  not check in full: of a new-style header it does not look at the count, and it rounds the end of the irom section up to 16
  bytes where the boot loader adds the length as it is.\<close>

theorem verified_update_boots:
  assumes "ota_flash fd mem wel" and "buf = bytes_at (mem d) 0x1000 4096" and "config_valid opt buf"
    and "unat (conf_count buf) \<le> 4" and "rom < conf_count buf"
    and "\<And>i. i < unat (conf_count buf) \<Longrightarrow> conf_rom buf (int i) \<in> {0, 0xffffffff} \<union> {0x2000..}
           \<and> image_fits (chip_size (sdk_flashchip fd)) (mem d) (conf_rom buf (int i))"
    and "verifiable (chip_size (sdk_flashchip fd)) (mem d) (conf_rom buf (int (unat rom))) s"
    and "fst (rboot_verify_image fd (conf_rom buf (int (unat rom))) d) = Inr ()"
    and "boot_hw br bmem rtcw (chip_size (sdk_flashchip fd))" and "BOOT_RTC_ENABLED opt \<longrightarrow> \<not> temp_requested (rtcw b)"
    and "\<not> BOOT_IROM_CHKSUM opt" and "\<not> BOOT_GPIO_ENABLED opt"
    and "bmem b = mem (snd (rboot_set_current_rom fd True rom d))"
    and "length rtc = 12" and "ptr \<noteq> 0" and "4 dvd ptr" and "4 < fuel"
  shows "fst (rboot_set_current_rom fd True rom d)
    \<and> (\<exists>b'. find_image fuel opt br ptr rtc b = Some (s, b') \<and> bmem b' = bmem b)"
proof -
  note run = ota_flash.verified_boot[OF assms(1), OF assms(2), OF assms(3), OF assms(4), OF assms(5), OF _ assms(7), OF _ assms(8)]
  show ?thesis by (rule run[OF assms(6) assms(9-17)])
qed

definition sample_update :: sim_dev where
  "sample_update = [(0x1000, 0xe1), (0x1001, 1), (0x1002, 0), (0x1003, 0), (0x1005, 1), (0x1008, 0), (0x1009, 0x20), (0x100a, 0), (0x100b, 0)]
     @ sample_rom"

lemma sample_update_mem: "0x2000 \<le> i \<Longrightarrow> sim_mem sample_update i = sim_mem sample_rom i"
  by (simp add: sim_mem_def sample_update_def)

lemma sample_update_rom:
  "verifiable (chip_size (sdk_flashchip sim_flash)) (sim_mem sample_update) 0x2000 0x2000" "image_sum_ok (sim_mem sample_update) 0x2000"
  "image_fits (chip_size (sdk_flashchip sim_flash)) (sim_mem sample_update) 0x2000"
proof -
  note cong = image_cong[OF sample_update_mem, of "0x2000"]
  have m: "sim_mem sample_update 0x2001 = 1" "sim_mem sample_update 0x2000 = ROM_MAGIC" "mword (sim_mem sample_update) 0x200c = 4"
    "sim_mem sample_update 0x201f = 0xe0" "bytes_at (sim_mem sample_update) 0x2010 4 = [1, 2, 4, 8]"
    by (simp_all add: sim_mem_def sample_update_def sample_rom_def mword_def of_le32_def bytes_at_4 ROM_MAGIC_def)
  have s: "image_start (sim_mem sample_update) 0x2000 = Some 0x2000" "image_end (sim_mem sample_update) 0x2000 = 0x201f"
    using cong sample_rom_image by simp_all
  show "image_sum_ok (sim_mem sample_update) 0x2000"
    unfolding image_sum_ok_def s by (simp add: m calc_chksum_def CHKSUM_INIT_def)
  show "verifiable (chip_size (sdk_flashchip sim_flash)) (sim_mem sample_update) 0x2000 0x2000"
    "image_fits (chip_size (sdk_flashchip sim_flash)) (sim_mem sample_update) 0x2000"
    using s m by (simp_all add: verifiable_def image_fits_def sim_flash_def sdk_flashchip_init_def)
qed

theorem verified_update_boots_witness:
  "\<exists>b'. find_image 10 repo_options sim_bootrom 0x3ffe0000 (replicate 12 0)
     (sim_mem (snd (rboot_set_current_rom sim_flash True 0 sample_update)), \<lambda>_. 0) = Some (0x2000, b')"
proof -
  let ?buf = "bytes_at (sim_mem sample_update) 0x1000 4096"
  have c: "config_valid repo_options ?buf" "conf_count ?buf = 1" "conf_rom ?buf 0 = 0x2000"
    by (simp_all add: config_valid_def conf_count_def conf_rom_def word_at_def sim_mem_def sample_update_def
        BOOT_CONFIG_MAGIC_def BOOT_CONFIG_VERSION_def repo_options_def of_le32_def)
  have v: "fst (rboot_verify_image sim_flash 0x2000 sample_update) = Inr ()"
    using sim_ota.verify_image_run[OF sample_update_rom(1)] sample_update_rom(2) by auto
  have t: "\<not> temp_requested (\<lambda>_. 0)" by (simp add: temp_requested_def rtc_bytes_def le32_def)
  show ?thesis
    using verified_update_boots[OF sim_ota.ota_flash_axioms refl, of repo_options sample_update 0 "0x2000" sim_bootrom fst snd
        "(sim_mem (snd (rboot_set_current_rom sim_flash True 0 sample_update)), \<lambda>_. 0)" "replicate 12 0" "0x3ffe0000" 10]
      c v t sample_update_rom sample_rom_boot repo_options_off by auto
qed

text \<open>A temporary boot never reaches the boot loader. \<open>rboot_set_temp_rom\<close> reports success for every ROM number,
  but the RTC words the boot loader reads its request from are unchanged: the routine that writes RTC memory checks the
  block number and then always writes from block 0.\<close>

theorem set_temp_rom_not_seen:
  assumes "4 dvd ptr" and "length rtc = 12"
  shows "fst (rboot_set_temp_rom ptr rtc rom s)
    \<and> rtc_bytes (api_rtc (snd (rboot_set_temp_rom ptr rtc rom s))) = rtc_bytes (api_rtc s)
    \<and> temp_requested (api_rtc (snd (rboot_set_temp_rom ptr rtc rom s))) = temp_requested (api_rtc s)"
proof -
  have w: "\<exists>src. rboot_set_temp_rom ptr rtc rom s = sdk_system_rtc_mem_write 64 ptr src 12 s"
    by (auto simp: rboot_set_temp_rom_def rboot_set_rtc_data_def Let_def split: prod.splits)
  have r: "rtc_bytes (api_rtc (snd (sdk_system_rtc_mem_write 64 ptr src 12 s))) = rtc_bytes (api_rtc s)"
    "fst (sdk_system_rtc_mem_write 64 ptr src 12 s)" for src
    using assms by (auto simp: sdk_system_rtc_mem_write_def Let_def rtc_bytes_def RTCMEM_SYSTEM_def)
  then have "temp_requested (api_rtc (snd (sdk_system_rtc_mem_write 64 ptr src 12 s))) = temp_requested (api_rtc s)" for src
    by (simp add: temp_requested_def)
  then show ?thesis using w r by auto
qed

theorem set_temp_rom_not_seen_witness:
  "\<not> temp_requested (api_rtc (snd (rboot_set_temp_rom 0x3ffe0000 (replicate 12 0) 1 \<lparr>api_flash = (), api_rtc = \<lambda>_. 0\<rparr>)))"
proof -
  have "\<not> temp_requested (\<lambda>_. 0)" by (simp add: temp_requested_def rtc_bytes_def le32_def)
  then show ?thesis
    using set_temp_rom_not_seen[of "0x3ffe0000" "replicate 12 0" 1 "\<lparr>api_flash = (), api_rtc = \<lambda>_. 0\<rparr>"] by simp
qed

section \<open>The digest\<close>

context ota_flash
begin

lemma bytes_at_Nil [simp]: "bytes_at m a n = [] \<longleftrightarrow> n = 0"
  by (auto simp: bytes_at_def)

lemma digest_run:
  assumes "i \<le> n" and "off + n + 32 \<le> chip_size (sdk_flashchip fd)"
  shows "\<exists>d' bss. rboot_digest_image fd upd i off n ctx d = (True, foldl upd ctx bss, d') \<and> mem d' = mem d
    \<and> concat bss = bytes_at (mem d) (off + i) (n - i) \<and> (\<forall>bs \<in> set bss. 0 < length bs \<and> length bs \<le> 32)"
  using assms
proof (induction "n - i" arbitrary: i ctx d rule: less_induct)
  case less
  show ?case
  proof (cases "i < n")
    case False
    then show ?thesis using less.prems by (intro exI[of _ d] exI[of _ "[]"]) (simp add: rboot_digest_image.simps bytes_at_def)
  next
    case True
    define k where "k = (if i + 32 > n then n - i else 32)"
    have k: "0 < k" "k \<le> 32" "i + k \<le> n" using True by (auto simp: k_def)
    have u: "u32 (off + i) = off + i" using less.prems True by (intro no_wrap) simp
    obtain d1 where r: "sdk_spi_flash_read fd (off + i) False 32 d = (SPI_FLASH_RESULT_OK, bytes_at (mem d) (off + i) 32, d1)" "mem d1 = mem d"
      using read_all[of "off + i" 32 d] less.prems True by auto
    have t: "take k (bytes_at (mem d) (off + i) 32) = bytes_at (mem d) (off + i) k" using k by (intro nth_equalityI) simp_all
    let ?c = "upd ctx (bytes_at (mem d) (off + i) k)"
    have run: "rboot_digest_image fd upd i off n ctx d = rboot_digest_image fd upd (i + 32) off n ?c d1"
      using True r(1) by (subst rboot_digest_image.simps) (simp add: u Let_def k_def[symmetric] t)
    show ?thesis
    proof (cases "i + 32 \<le> n")
      case True
      then have k32: "k = 32" by (simp add: k_def)
      obtain d2 bss where "rboot_digest_image fd upd (i + 32) off n ?c d1 = (True, foldl upd ?c bss, d2)" "mem d2 = mem d"
        "concat bss = bytes_at (mem d) (off + (i + 32)) (n - (i + 32))" "\<forall>bs \<in> set bss. 0 < length bs \<and> length bs \<le> 32"
        using less.hyps[of "i + 32" ?c d1, OF diff_less_mono2] less.prems True \<open>i < n\<close> r(2) by fastforce
      moreover have "bytes_at (mem d) (off + i) (n - i) = bytes_at (mem d) (off + i) 32 @ bytes_at (mem d) (off + (i + 32)) (n - (i + 32))"
        using bytes_at_append[of "mem d" "off + i" 32 "n - (i + 32)"] True by (simp add: add.assoc)
      ultimately show ?thesis unfolding run k32
        by (intro exI[of _ d2] exI[of _ "bytes_at (mem d) (off + i) 32 # bss"]) simp
    next
      case False
      then have "k = n - i" by (simp add: k_def)
      moreover have "rboot_digest_image fd upd (i + 32) off n ?c d1 = (True, ?c, d1)"
        using False by (simp add: rboot_digest_image.simps)
      ultimately show ?thesis unfolding run using r(2) k
        by (intro exI[of _ d1] exI[of _ "[bytes_at (mem d) (off + i) k]"]) simp
    qed
  qed
qed

end

text \<open>\<open>rboot_digest_image\<close> hands the image to the digest once, in order and completely: for every update function that
  does not depend on how its input is split, the result is that of one call with all the bytes.\<close>

theorem digest_image_all:
  assumes "ota_flash fd mem wel" and "off + n + 32 \<le> chip_size (sdk_flashchip fd)"
    and "\<And>c xs ys. upd (upd c xs) ys = upd c (xs @ ys)" and "\<And>c. upd c [] = c"
  shows "\<exists>d'. rboot_digest_image fd upd 0 off n ctx d = (True, upd ctx (bytes_at (mem d) off n), d') \<and> mem d' = mem d"
proof -
  have f: "foldl upd c bss = upd c (concat bss)" for c bss by (induction bss arbitrary: c) (simp_all add: assms(3,4))
  show ?thesis using ota_flash.digest_run[OF assms(1), of 0 n off upd ctx d] assms(2) by (auto simp: f)
qed

theorem digest_image_all_witness:
  "\<exists>d'. rboot_digest_image sim_flash (\<lambda>c bs. foldl (XOR) c bs) 0 0x2010 4 0 sample_rom = (True, 0x0f, d')"
proof -
  have b: "bytes_at (sim_mem sample_rom) 0x2010 4 = [1, 2, 4, 8]" by (simp add: bytes_at_4 sim_mem_def sample_rom_def)
  have c: "0x2010 + 4 + 32 \<le> chip_size (sdk_flashchip sim_flash)" by (simp add: sim_flash_def sdk_flashchip_init_def)
  show ?thesis
    using digest_image_all[OF sim_ota.ota_flash_axioms c, of "\<lambda>c bs. foldl (XOR) c bs" 0 sample_rom] by (auto simp: b)
qed

end
