(* ===== verification/SpiffsFlash.thy ===== *)
theory SpiffsFlash
  imports SpiFlash
begin

text \<open>
  The flash driver of the SPIFFS port, \<^verbatim>\<open>src/extras/spiffs/esp_spiffs_flash.c\<close>, and the three routines of
  \<^verbatim>\<open>src/extras/spiffs/esp_spiffs.c\<close> the file system is given. It drives the registers of the SPI controller
  itself: they extend the record \<open>flashdev\<close> of ROM routines. Writing the command register and polling it
  until the controller clears it is one operation; the data registers are their bytes in order. The two copy
  routines are those of \<^verbatim>\<open>src/extras/spiffs/unaligned_memcpy.S\<close>. The file system itself is a library.
\<close>

record 'd spi_regs = "'d flashdev" +
  Wait_SPI_Idle :: "sdk_flashchip_t \<Rightarrow> 'd \<Rightarrow> 'd"
  SPI_ADDR :: "32 word \<Rightarrow> 'd \<Rightarrow> 'd"
  SPI_W_store :: "byte list \<Rightarrow> 'd \<Rightarrow> 'd"
  SPI_W_load :: "nat \<Rightarrow> 'd \<Rightarrow> byte list"
  SPI_CMD :: "32 word \<Rightarrow> 'd \<Rightarrow> 'd"

definition ESP_SPIFFS_FLASH_OK :: nat where "ESP_SPIFFS_FLASH_OK = 0"
definition ESP_SPIFFS_FLASH_ERROR :: nat where "ESP_SPIFFS_FLASH_ERROR = 1"
definition SPI_WRITE_MAX_SIZE :: nat where "SPI_WRITE_MAX_SIZE = 64"
definition SPI_READ_MAX_SIZE :: nat where "SPI_READ_MAX_SIZE = 60"
definition SPI_CMD_READ :: "32 word" where "SPI_CMD_READ = push_bit 31 1"
definition SPI_CMD_PP :: "32 word" where "SPI_CMD_PP = push_bit 25 1"
definition SPI_CMD_SE :: "32 word" where "SPI_CMD_SE = push_bit 24 1"

section \<open>Writing\<close>

definition memcpy_unaligned_src :: "'d spi_regs \<Rightarrow> cptr \<Rightarrow> nat \<Rightarrow> 'd \<Rightarrow> 'd" where
  "memcpy_unaligned_src fd src words d = SPI_W_store fd (map src [0..<4 * words]) d"

definition spi_write_data :: "'d spi_regs \<Rightarrow> nat \<Rightarrow> cptr \<Rightarrow> nat \<Rightarrow> 'd \<Rightarrow> 'd" where
  "spi_write_data fd addr buf sz d =
     (let words = (if sz mod 4 \<noteq> 0 then sz div 4 + 1 else sz div 4);
          d1 = Wait_SPI_Idle fd (sdk_flashchip fd) d;
          d2 = SPI_ADDR fd ((of_nat addr AND 0x00FFFFFF) OR push_bit 24 (of_nat sz)) d1;
          d3 = memcpy_unaligned_src fd buf (u8 words) d2;
          d4 = snd (SPI_write_enable fd (sdk_flashchip fd) d3) in
      SPI_CMD fd SPI_CMD_PP d4)"

text \<open>The blocks of a page. The loop returns when nothing is left after a full block.\<close>

function write_blocks :: "'d spi_regs \<Rightarrow> nat \<Rightarrow> cptr \<Rightarrow> nat \<Rightarrow> 'd \<Rightarrow> 'd" where
  "write_blocks fd dest_addr buf sz d =
     (if sz \<ge> SPI_WRITE_MAX_SIZE then
        let d1 = spi_write_data fd dest_addr buf SPI_WRITE_MAX_SIZE d in
        if sz - SPI_WRITE_MAX_SIZE < 1 then d1
        else write_blocks fd (u32 (dest_addr + SPI_WRITE_MAX_SIZE)) (\<lambda>i. buf (SPI_WRITE_MAX_SIZE + i)) (sz - SPI_WRITE_MAX_SIZE) d1
      else spi_write_data fd dest_addr buf sz d)"
  by pat_completeness auto
termination
  by (relation "measure (\<lambda>(fd, dest_addr, buf, sz, d). sz)") (auto simp: SPI_WRITE_MAX_SIZE_def)

declare write_blocks.simps [simp del]

definition spi_write_page :: "'d spi_regs \<Rightarrow> nat \<Rightarrow> cptr \<Rightarrow> nat \<Rightarrow> 'd \<Rightarrow> nat \<times> 'd" where
  "spi_write_page fd dest_addr buf sz d =
     (if page_size (sdk_flashchip fd) < u32 (sz + dest_addr mod page_size (sdk_flashchip fd)) then (ESP_SPIFFS_FLASH_ERROR, d)
      else if sz < 1 then (ESP_SPIFFS_FLASH_OK, d)
      else (ESP_SPIFFS_FLASH_OK, write_blocks fd dest_addr buf sz d))"

text \<open>The loop over the full pages: its counter is a \<^verbatim>\<open>uint8_t\<close> compared with \<^verbatim>\<open>!=\<close>, so it has fuel and \<open>None\<close>
  means that it was still running.\<close>

fun write_pages :: "nat \<Rightarrow> 'd spi_regs \<Rightarrow> nat \<Rightarrow> cptr \<Rightarrow> nat \<Rightarrow> nat \<Rightarrow> nat \<Rightarrow> 'd \<Rightarrow> (bool \<times> nat \<times> 'd) option" where
  "write_pages 0 fd addr dst i pages_to_write offset d = None"
| "write_pages (Suc fuel) fd addr dst i pages_to_write offset d =
     (if i \<noteq> pages_to_write then
        (case spi_write_page fd (u32 (addr + offset)) (\<lambda>j. dst (offset + j)) (page_size (sdk_flashchip fd)) d of
           (r, d1) \<Rightarrow>
             if r \<noteq> 0 then Some (True, offset, d1)
             else write_pages fuel fd addr dst (u8 (i + 1)) pages_to_write (u32 (offset + page_size (sdk_flashchip fd))) d1)
      else Some (False, offset, d))"

definition spi_write :: "nat \<Rightarrow> 'd spi_regs \<Rightarrow> nat \<Rightarrow> cptr \<Rightarrow> nat \<Rightarrow> 'd \<Rightarrow> (nat \<times> 'd) option" where
  "spi_write fuel fd addr dst sz d =
     (if chip_size (sdk_flashchip fd) < u32 (addr + sz) then Some (ESP_SPIFFS_FLASH_ERROR, d)
      else
        let write_bytes_to_page = page_size (sdk_flashchip fd) - addr mod page_size (sdk_flashchip fd) in
        if sz < write_bytes_to_page then
          (case spi_write_page fd addr dst sz d of
             (r, d1) \<Rightarrow> Some (if r \<noteq> 0 then ESP_SPIFFS_FLASH_ERROR else ESP_SPIFFS_FLASH_OK, d1))
        else
          (case spi_write_page fd addr dst write_bytes_to_page d of
             (r, d1) \<Rightarrow>
               if r \<noteq> 0 then Some (ESP_SPIFFS_FLASH_ERROR, d1)
               else
                 let pages_to_write = (sz - write_bytes_to_page) div page_size (sdk_flashchip fd) in
                 (case write_pages fuel fd addr dst 0 pages_to_write write_bytes_to_page d1 of
                    None \<Rightarrow> None
                  | Some (err, offset, d2) \<Rightarrow>
                      if err then Some (ESP_SPIFFS_FLASH_ERROR, d2)
                      else
                        (case spi_write_page fd (u32 (addr + offset)) (\<lambda>j. dst (offset + j)) (sub32 sz offset) d2 of
                           (r, d3) \<Rightarrow> Some (if r \<noteq> 0 then ESP_SPIFFS_FLASH_ERROR else ESP_SPIFFS_FLASH_OK, d3)))))"

definition esp_spiffs_flash_write :: "nat \<Rightarrow> 'd spi_regs \<Rightarrow> nat \<Rightarrow> cptr option \<Rightarrow> nat \<Rightarrow> 'd \<Rightarrow> (nat \<times> 'd) option" where
  "esp_spiffs_flash_write fuel fd addr buf sz d =
     (case buf of
        None \<Rightarrow> Some (ESP_SPIFFS_FLASH_ERROR, d)
      | Some p \<Rightarrow>
          (case spi_write fuel fd addr p sz (Cache_Read_Disable fd d) of
             None \<Rightarrow> None
           | Some (result, d1) \<Rightarrow> Some (result, Cache_Read_Enable fd 0 0 1 (Wait_SPI_Idle fd (sdk_flashchip fd) d1))))"

section \<open>Reading and erasing\<close>

text \<open>The copy out of the data registers takes the loop that stores words if the number of bytes is a multiple of four, whatever the destination address is, and the loop that
  stores single bytes otherwise. Storing a word at an address that is not a multiple of four is an exception of the processor, here \<open>None\<close>.\<close>

definition memcpy_unaligned_dst :: "'d spi_regs \<Rightarrow> nat \<Rightarrow> nat \<Rightarrow> 'd \<Rightarrow> byte list option" where
  "memcpy_unaligned_dst fd dst bytes d =
     (if bytes = 0 then Some []
      else if bytes mod 4 = 0 then (if dst mod 4 = 0 then Some (SPI_W_load fd bytes d) else None)
      else Some (SPI_W_load fd bytes d))"

definition read_block :: "'d spi_regs \<Rightarrow> nat \<Rightarrow> nat \<Rightarrow> nat \<Rightarrow> 'd \<Rightarrow> (byte list \<times> 'd) option" where
  "read_block fd addr buf sz d =
     (let d1 = SPI_ADDR fd ((of_nat addr AND 0x00FFFFFF) OR push_bit 24 (of_nat sz)) d;
          d2 = SPI_CMD fd SPI_CMD_READ d1 in
      map_option (\<lambda>bs. (bs, d2)) (memcpy_unaligned_dst fd buf (u8 sz) d2))"

function read_blocks :: "'d spi_regs \<Rightarrow> nat \<Rightarrow> nat \<Rightarrow> nat \<Rightarrow> 'd \<Rightarrow> (byte list \<times> 'd) option" where
  "read_blocks fd addr dst sz d =
     (if sz \<ge> SPI_READ_MAX_SIZE then
        (case read_block fd addr dst SPI_READ_MAX_SIZE d of
           None \<Rightarrow> None
         | Some (bs, d1) \<Rightarrow>
             map_option (\<lambda>(bs', d2). (bs @ bs', d2)) (read_blocks fd (u32 (addr + SPI_READ_MAX_SIZE)) (dst + SPI_READ_MAX_SIZE) (sz - SPI_READ_MAX_SIZE) d1))
      else if sz > 0 then read_block fd addr dst sz d
      else Some ([], d))"
  by pat_completeness auto
termination
  by (relation "measure (\<lambda>(fd, addr, dst, sz, d). sz)") (auto simp: SPI_READ_MAX_SIZE_def)

declare read_blocks.simps [simp del]

text \<open>The bytes stored into the buffer are part of the result; the buffer is given by its address.\<close>

definition read_data :: "'d spi_regs \<Rightarrow> nat \<Rightarrow> nat \<Rightarrow> nat \<Rightarrow> 'd \<Rightarrow> (nat \<times> byte list \<times> 'd) option" where
  "read_data fd addr dst sz d =
     (if sz < 1 then Some (ESP_SPIFFS_FLASH_OK, [], d)
      else if u32 (addr + sz) > chip_size (sdk_flashchip fd) then Some (ESP_SPIFFS_FLASH_ERROR, [], d)
      else map_option (\<lambda>(bs, d1). (ESP_SPIFFS_FLASH_OK, bs, d1)) (read_blocks fd addr dst sz d))"

definition esp_spiffs_flash_read :: "'d spi_regs \<Rightarrow> nat \<Rightarrow> nat option \<Rightarrow> nat \<Rightarrow> 'd \<Rightarrow> (nat \<times> byte list \<times> 'd) option" where
  "esp_spiffs_flash_read fd dest_addr buf sz d =
     (case buf of
        None \<Rightarrow> Some (ESP_SPIFFS_FLASH_ERROR, [], d)
      | Some p \<Rightarrow> map_option (\<lambda>(result, bs, d1). (result, bs, Cache_Read_Enable fd 0 0 1 d1)) (read_data fd dest_addr p sz (Cache_Read_Disable fd d)))"

definition esp_spiffs_flash_erase_sector :: "'d spi_regs \<Rightarrow> nat \<Rightarrow> 'd \<Rightarrow> nat \<times> 'd" where
  "esp_spiffs_flash_erase_sector fd addr d =
     (if u32 (addr + sector_size (sdk_flashchip fd)) > chip_size (sdk_flashchip fd) then (ESP_SPIFFS_FLASH_ERROR, d)
      else if (of_nat addr :: 32 word) AND 0xFFF \<noteq> 0 then (ESP_SPIFFS_FLASH_ERROR, d)
      else
        let d1 = Cache_Read_Disable fd d;
            d2 = snd (SPI_write_enable fd (sdk_flashchip fd) d1);
            d3 = SPI_ADDR fd (of_nat addr AND 0x00FFFFFF) d2;
            d4 = SPI_CMD fd SPI_CMD_SE d3;
            d5 = Wait_SPI_Idle fd (sdk_flashchip fd) d4 in
        (ESP_SPIFFS_FLASH_OK, Cache_Read_Enable fd 0 0 1 d5))"

section \<open>The routines handed to the file system\<close>

definition SPIFFS_OK :: int where "SPIFFS_OK = 0"
definition SPIFFS_ERR_INTERNAL :: int where "SPIFFS_ERR_INTERNAL = -10050"
definition SPI_FLASH_SEC_SIZE :: nat where "SPI_FLASH_SEC_SIZE = 4096"

definition esp_spiffs_read :: "'d spi_regs \<Rightarrow> nat \<Rightarrow> nat \<Rightarrow> nat option \<Rightarrow> 'd \<Rightarrow> (int \<times> byte list \<times> 'd) option" where
  "esp_spiffs_read fd addr sz dst d =
     map_option (\<lambda>(r, bs, d1). (if r = ESP_SPIFFS_FLASH_ERROR then SPIFFS_ERR_INTERNAL else SPIFFS_OK, bs, d1)) (esp_spiffs_flash_read fd addr dst sz d)"

definition esp_spiffs_write :: "nat \<Rightarrow> 'd spi_regs \<Rightarrow> nat \<Rightarrow> nat \<Rightarrow> cptr option \<Rightarrow> 'd \<Rightarrow> (int \<times> 'd) option" where
  "esp_spiffs_write fuel fd addr sz src d =
     (case esp_spiffs_flash_write fuel fd addr src sz d of
        None \<Rightarrow> None
      | Some (r, d1) \<Rightarrow> Some (if r = ESP_SPIFFS_FLASH_ERROR then SPIFFS_ERR_INTERNAL else SPIFFS_OK, d1))"

fun erase_sectors :: "'d spi_regs \<Rightarrow> nat \<Rightarrow> nat \<Rightarrow> nat \<Rightarrow> 'd \<Rightarrow> int \<times> 'd" where
  "erase_sectors fd addr i 0 d = (SPIFFS_OK, d)"
| "erase_sectors fd addr i (Suc k) d =
     (case esp_spiffs_flash_erase_sector fd (u32 (addr + SPI_FLASH_SEC_SIZE * i)) d of
        (r, d1) \<Rightarrow> if r = ESP_SPIFFS_FLASH_ERROR then (SPIFFS_ERR_INTERNAL, d1) else erase_sectors fd addr (i + 1) k d1)"

definition esp_spiffs_erase :: "'d spi_regs \<Rightarrow> nat \<Rightarrow> nat \<Rightarrow> 'd \<Rightarrow> int \<times> 'd" where
  "esp_spiffs_erase fd addr sz d = erase_sectors fd addr 0 (sz div SPI_FLASH_SEC_SIZE) d"

end
