(* ===== verification/Spiffs_Chip.thy ===== *)
theory Spiffs_Chip
  imports SpiffsFlash
begin

text \<open>
  The SPIFFS flash driver on a chip. The locale \<open>spiffs_hw\<close> states what the SPI controller and the chip behind it do:
  a page-program command takes up to 64 bytes from the data registers, needs the write-enable bit and an
  idle chip, and leaves the chip busy. The driver turns that into byte-exact reads, writes and erases.
\<close>

text \<open>Buffers the copy loop can store into: aligned ones, and for the last part of a read of less than a block also others, if its length is not a multiple of four.\<close>

definition storable :: "nat \<Rightarrow> nat \<Rightarrow> bool" where
  "storable p n \<longleftrightarrow> 4 dvd p \<or> n = 0 \<or> n < SPI_READ_MAX_SIZE \<and> \<not> 4 dvd n"

section \<open>The controller and the chip\<close>

text \<open>What the address register means to the controller: 24 bits of flash address, the byte count above.\<close>

definition adr_of :: "32 word \<Rightarrow> nat" where "adr_of v = unat (v AND 0x00FFFFFF)"
definition count_of :: "32 word \<Rightarrow> nat" where "count_of v = unat (drop_bit 24 v)"

lemma adr_word:
  assumes "a < 0x1000000" and "n < 256"
  shows "adr_of ((of_nat a AND 0x00FFFFFF) OR push_bit 24 (of_nat n)) = a"
    "count_of ((of_nat a AND 0x00FFFFFF) OR push_bit 24 (of_nat n)) = n"
    "adr_of (of_nat a AND 0x00FFFFFF) = a"
proof -
  have m: "(0x00FFFFFF :: 32 word) = mask 24" by (simp add: mask_eq_exp_minus_1)
  let ?v = "(of_nat a AND 0x00FFFFFF) OR push_bit 24 (of_nat n) :: 32 word"
  have "?v AND 0x00FFFFFF = take_bit 24 (of_nat a)"
    unfolding m by (rule bit_word_eqI) (auto simp: bit_simps)
  moreover have t: "unat (take_bit 24 (of_nat a :: 32 word)) = a"
    using assms(1) by (simp add: unsigned_take_bit_eq unsigned_of_nat take_bit_nat_eq_self)
  ultimately show "adr_of ?v = a" by (simp add: adr_of_def)
  have "(of_nat a AND 0x00FFFFFF) AND (0x00FFFFFF :: 32 word) = take_bit 24 (of_nat a)"
    unfolding m by (rule bit_word_eqI) (auto simp: bit_simps)
  then show "adr_of (of_nat a AND 0x00FFFFFF) = a" by (simp only: adr_of_def t)
  have "drop_bit 24 ?v = take_bit 8 (of_nat n)"
    unfolding m by (rule bit_word_eqI) (auto simp: bit_simps)
  moreover have "unat (take_bit 8 (of_nat n :: 32 word)) = n"
    using assms(2) by (simp add: unsigned_take_bit_eq unsigned_of_nat take_bit_nat_eq_self)
  ultimately show "count_of ?v = n" by (simp add: count_of_def)
qed

text \<open>The state of the chip and of the controller a client can tell: the array, the busy and the write-enable bit,
  the address register and the bytes of the data registers.\<close>

locale spiffs_hw =
  fixes fd :: "'d spi_regs" and mem :: "'d \<Rightarrow> cptr" and busy wel :: "'d \<Rightarrow> bool"
    and adr :: "'d \<Rightarrow> 32 word" and wbuf :: "'d \<Rightarrow> cptr"
  assumes page: "0 < page_size (sdk_flashchip fd)" "page_size (sdk_flashchip fd) < 0x10000"
    and chip_24: "chip_size (sdk_flashchip fd) \<le> 0x1000000"
    and sector: "sector_size (sdk_flashchip fd) = 4096"
    and wait: "mem (Wait_SPI_Idle fd (sdk_flashchip fd) d) = mem d" "\<not> busy (Wait_SPI_Idle fd (sdk_flashchip fd) d)"
    and enable: "\<not> busy d \<Longrightarrow> wel (snd (SPI_write_enable fd (sdk_flashchip fd) d))
        \<and> \<not> busy (snd (SPI_write_enable fd (sdk_flashchip fd) d)) \<and> mem (snd (SPI_write_enable fd (sdk_flashchip fd) d)) = mem d
        \<and> adr (snd (SPI_write_enable fd (sdk_flashchip fd) d)) = adr d \<and> wbuf (snd (SPI_write_enable fd (sdk_flashchip fd) d)) = wbuf d"
    and set_adr: "adr (SPI_ADDR fd v d) = v" "mem (SPI_ADDR fd v d) = mem d" "busy (SPI_ADDR fd v d) = busy d"
        "wel (SPI_ADDR fd v d) = wel d"
    and store: "length bs \<le> 64 \<Longrightarrow> i < length bs \<Longrightarrow> wbuf (SPI_W_store fd bs d) i = bs ! i"
        "adr (SPI_W_store fd bs d) = adr d" "mem (SPI_W_store fd bs d) = mem d" "busy (SPI_W_store fd bs d) = busy d"
    and pp: "\<not> busy d \<Longrightarrow> wel d \<Longrightarrow> count_of (adr d) \<le> 64 \<Longrightarrow>
        adr_of (adr d) mod page_size (sdk_flashchip fd) + count_of (adr d) \<le> page_size (sdk_flashchip fd) \<Longrightarrow>
        adr_of (adr d) + count_of (adr d) \<le> chip_size (sdk_flashchip fd) \<Longrightarrow>
        mem (SPI_CMD fd SPI_CMD_PP d) = nor_write (adr_of (adr d)) (wbuf d) (count_of (adr d)) (mem d)"
    and rdc: "\<not> busy d \<Longrightarrow> count_of (adr d) \<le> 64 \<Longrightarrow> adr_of (adr d) + count_of (adr d) \<le> chip_size (sdk_flashchip fd) \<Longrightarrow>
        SPI_W_load fd (count_of (adr d)) (SPI_CMD fd SPI_CMD_READ d) = bytes_at (mem d) (adr_of (adr d)) (count_of (adr d))"
        "mem (SPI_CMD fd SPI_CMD_READ d) = mem d" "busy (SPI_CMD fd SPI_CMD_READ d) = busy d"
    and se: "\<not> busy d \<Longrightarrow> wel d \<Longrightarrow> 4096 dvd adr_of (adr d) \<Longrightarrow> adr_of (adr d) + 4096 \<le> chip_size (sdk_flashchip fd) \<Longrightarrow>
        mem (SPI_CMD fd SPI_CMD_SE d) = nor_erase (adr_of (adr d)) 4096 (mem d)"
    and cache: "mem (Cache_Read_Disable fd d) = mem d" "busy (Cache_Read_Disable fd d) = busy d"
        "mem (Cache_Read_Enable fd x y z d) = mem d" "busy (Cache_Read_Enable fd x y z d) = busy d"
begin

lemma write_data_mem:
  assumes "0 < n" and "n \<le> 64" and "a mod page_size (sdk_flashchip fd) + n \<le> page_size (sdk_flashchip fd)"
    and "a + n \<le> chip_size (sdk_flashchip fd)"
  shows "mem (spi_write_data fd a buf n d) = nor_write a buf n (mem d)"
proof -
  let ?w = "if n mod 4 \<noteq> 0 then n div 4 + 1 else n div 4"
  let ?v = "(of_nat a AND 0x00FFFFFF) OR push_bit 24 (of_nat n) :: 32 word"
  let ?d1 = "Wait_SPI_Idle fd (sdk_flashchip fd) d"
  let ?d3 = "SPI_W_store fd (map buf [0..<4 * ?w]) (SPI_ADDR fd ?v ?d1)"
  let ?d4 = "snd (SPI_write_enable fd (sdk_flashchip fd) ?d3)"
  have "?w \<le> 16" using assms(2) mult_div_mod_eq[of 4 n] by (split if_split) linarith
  then have w: "u8 ?w = ?w" "4 * ?w \<le> 64" by (auto simp: u8_small)
  have nw: "n \<le> 4 * ?w" by (cases "n mod 4 = 0") auto
  have a: "adr_of ?v = a" "count_of ?v = n" using adr_word[of a n] assms chip_24 by auto
  have d4: "wel ?d4" "\<not> busy ?d4" "mem ?d4 = mem d" "adr ?d4 = ?v" "wbuf ?d4 = wbuf ?d3"
    using enable[of ?d3] by (simp_all add: store(2-4) set_adr wait)
  have b: "wbuf ?d4 i = buf i" if "i < n" for i
    using store(1)[of "map buf [0..<4 * ?w]" i "SPI_ADDR fd ?v ?d1"] that w(2) nw unfolding d4(5) by simp
  have "spi_write_data fd a buf n d = SPI_CMD fd SPI_CMD_PP ?d4"
    unfolding spi_write_data_def Let_def memcpy_unaligned_src_def w(1) ..
  then have "mem (spi_write_data fd a buf n d) = nor_write a (wbuf ?d4) n (mem d)"
    using pp[of ?d4] d4 assms by (simp add: a)
  also have "\<dots> = nor_write a buf n (mem d)" using b by (rule nor_write_cong)
  finally show ?thesis .
qed

lemma write_blocks_mem:
  assumes "0 < n" and "a mod page_size (sdk_flashchip fd) + n \<le> page_size (sdk_flashchip fd)"
    and "a + n \<le> chip_size (sdk_flashchip fd)"
  shows "mem (write_blocks fd a buf n d) = nor_write a buf n (mem d)"
  using assms
proof (induction n arbitrary: a buf d rule: less_induct)
  case (less n)
  let ?p = "page_size (sdk_flashchip fd)"
  show ?case
  proof (cases "n \<le> 64")
    case True
    then have "write_blocks fd a buf n d = spi_write_data fd a buf n d"
      by (subst write_blocks.simps) (auto simp: SPI_WRITE_MAX_SIZE_def)
    then show ?thesis using write_data_mem[of n a buf d] True less.prems by simp
  next
    case False
    let ?d1 = "spi_write_data fd a buf 64 d"
    have d1: "mem ?d1 = nor_write a buf 64 (mem d)" using write_data_mem[of 64 a buf d] False less.prems by simp
    have u: "u32 (a + 64) = a + 64" using less.prems False chip_24 by (intro u32_small) linarith
    have "(a + 64) mod ?p = a mod ?p + 64"
      using False less.prems(2) by (intro mod_nat_eqI) (auto simp: mod_add_left_eq)
    then have "(a + 64) mod ?p + (n - 64) \<le> ?p" using less.prems(2) False by simp
    then have "mem (write_blocks fd (a + 64) (\<lambda>i. buf (64 + i)) (n - 64) ?d1) = nor_write (a + 64) (\<lambda>i. buf (64 + i)) (n - 64) (mem ?d1)"
      using less.prems False by (intro less.IH) auto
    moreover have "write_blocks fd a buf n d = write_blocks fd (a + 64) (\<lambda>i. buf (64 + i)) (n - 64) ?d1"
      using False by (subst write_blocks.simps) (simp add: SPI_WRITE_MAX_SIZE_def u)
    ultimately show ?thesis using False by (simp add: d1 nor_write_append)
  qed
qed

lemma write_page_mem:
  assumes "a mod page_size (sdk_flashchip fd) + n \<le> page_size (sdk_flashchip fd)" and "a + n \<le> chip_size (sdk_flashchip fd)"
  shows "\<exists>d'. spi_write_page fd a buf n d = (ESP_SPIFFS_FLASH_OK, d') \<and> mem d' = nor_write a buf n (mem d)"
proof -
  have "u32 (n + a mod page_size (sdk_flashchip fd)) = n + a mod page_size (sdk_flashchip fd)"
    using assms page by (intro u32_small) linarith
  then show ?thesis using assms write_blocks_mem[of n a buf d] by (cases "n = 0") (simp_all add: spi_write_page_def)
qed

lemma write_pages_mem:
  assumes "page_size (sdk_flashchip fd) dvd a + off" and "a + off + k * page_size (sdk_flashchip fd) \<le> chip_size (sdk_flashchip fd)"
    and "i + k < 256" and "k < fuel" and "mem d = nor_write a buf off m"
  shows "\<exists>d'. write_pages fuel fd a buf i (i + k) off d = Some (False, off + k * page_size (sdk_flashchip fd), d')
    \<and> mem d' = nor_write a buf (off + k * page_size (sdk_flashchip fd)) m"
  using assms
proof (induction k arbitrary: fuel i off d)
  case 0
  then show ?case by (cases fuel) simp_all
next
  case (Suc k)
  let ?p = "page_size (sdk_flashchip fd)"
  obtain f where f: "fuel = Suc f" using Suc.prems(4) by (cases fuel) auto
  have u: "u32 (a + off) = a + off" "u32 (off + ?p) = off + ?p" "u8 (i + 1) = i + 1"
    using Suc.prems(2,3) chip_24 by (simp_all add: u32_small u8_small)
  have "(a + off) mod ?p = 0" using Suc.prems(1) by (rule dvd_imp_mod_0)
  then obtain d1 where w: "spi_write_page fd (a + off) (\<lambda>j. buf (off + j)) ?p d = (ESP_SPIFFS_FLASH_OK, d1)"
      "mem d1 = nor_write (a + off) (\<lambda>j. buf (off + j)) ?p (mem d)"
    using write_page_mem[of "a + off" ?p "\<lambda>j. buf (off + j)" d] Suc.prems(2) by auto
  have m: "mem d1 = nor_write a buf (off + ?p) m" using w(2) Suc.prems(5) by (simp add: nor_write_append)
  have "\<exists>d'. write_pages f fd a buf (i + 1) (i + 1 + k) (off + ?p) d1 = Some (False, off + ?p + k * ?p, d')
      \<and> mem d' = nor_write a buf (off + ?p + k * ?p) m"
    using Suc.prems f m by (intro Suc.IH) (auto simp: add.assoc[symmetric])
  moreover have "write_pages fuel fd a buf i (i + Suc k) off d = write_pages f fd a buf (i + 1) (i + 1 + k) (off + ?p) d1"
    unfolding f using w(1) u by (simp add: ESP_SPIFFS_FLASH_OK_def)
  ultimately show ?case by (simp add: add.assoc)
qed

lemma write_pages_hang:
  assumes "page_size (sdk_flashchip fd) dvd a + off" and "page_size (sdk_flashchip fd) dvd 2 ^ 32"
    and "256 \<le> k" and "i < 256"
  shows "write_pages fuel fd a buf i k off d = None"
  using assms
proof (induction fuel arbitrary: i off d)
  case (Suc fuel)
  let ?p = "page_size (sdk_flashchip fd)"
  have "(a + off) mod ?p = 0" using Suc.prems(1) by (rule dvd_imp_mod_0)
  then have "u32 (a + off) mod ?p = 0" unfolding u32_def using Suc.prems(2) by (simp add: mod_mod_cancel)
  moreover have "u32 ?p = ?p" using page by (intro u32_small) simp
  ultimately obtain d1 where w: "spi_write_page fd (u32 (a + off)) (\<lambda>j. buf (off + j)) ?p d = (ESP_SPIFFS_FLASH_OK, d1)"
    using page by (simp add: spi_write_page_def)
  have "(a + u32 (off + ?p)) mod ?p = (a + (off + ?p)) mod ?p"
    unfolding u32_def using Suc.prems(2) by (metis mod_add_right_eq mod_mod_cancel)
  also have "\<dots> = 0" using Suc.prems(1) by (simp add: add.assoc[symmetric])
  finally have "?p dvd a + u32 (off + ?p)" by (rule mod_0_imp_dvd)
  then have "write_pages fuel fd a buf (u8 (i + 1)) k (u32 (off + ?p)) d1 = None"
    using Suc.prems by (intro Suc.IH) auto
  then show ?case using Suc.prems(3,4) w by (simp add: ESP_SPIFFS_FLASH_OK_def)
qed simp

lemma spi_write_mem:
  assumes "a + n \<le> chip_size (sdk_flashchip fd)" and "n div page_size (sdk_flashchip fd) < 256" and "n div page_size (sdk_flashchip fd) < fuel"
  shows "\<exists>d'. spi_write fuel fd a buf n d = Some (ESP_SPIFFS_FLASH_OK, d') \<and> mem d' = nor_write a buf n (mem d)"
proof -
  let ?p = "page_size (sdk_flashchip fd)"
  define f where "f = ?p - a mod ?p"
  have u: "u32 (a + n) = a + n" "u32 n = n" using assms(1) chip_24 by (simp_all add: u32_small)
  have f: "a mod ?p + f = ?p" "0 < f" using page mod_less_divisor[OF page(1), of a] unfolding f_def by linarith+
  show ?thesis
  proof (cases "n < f")
    case True
    then obtain d1 where "spi_write_page fd a buf n d = (ESP_SPIFFS_FLASH_OK, d1)" "mem d1 = nor_write a buf n (mem d)"
      using write_page_mem[of a n buf d] f assms(1) by auto
    then show ?thesis using True assms(1) u by (simp add: spi_write_def Let_def f_def ESP_SPIFFS_FLASH_OK_def)
  next
    case False
    define k where "k = (n - f) div ?p"
    define q where "q = f + k * ?p"
    have k: "k \<le> n div ?p" unfolding k_def by (rule div_le_mono) simp
    have q: "q \<le> n" "n - q < ?p"
      using False page div_mult_mod_eq[of "n - f" ?p] mod_less_divisor[OF page(1), of "n - f"] unfolding q_def k_def by linarith+
    obtain d1 where w1: "spi_write_page fd a buf f d = (ESP_SPIFFS_FLASH_OK, d1)" "mem d1 = nor_write a buf f (mem d)"
      using write_page_mem[of a f buf d] f False assms(1) by auto
    have "a + f = ?p * (a div ?p) + ?p" using f mult_div_mod_eq[of ?p a] by linarith
    then have dv: "?p dvd a + f" by (simp add: dvd_add_right_iff)
    obtain d2 where w2: "write_pages fuel fd a buf 0 k f d1 = Some (False, q, d2)" "mem d2 = nor_write a buf q (mem d)"
      using write_pages_mem[of a f k 0 fuel d1 buf "mem d"] dv k q assms w1(2) unfolding q_def by auto
    have "?p dvd a + q" using dv by (simp add: q_def add.assoc[symmetric])
    then have "(a + q) mod ?p = 0" by (rule dvd_imp_mod_0)
    then obtain d3 where w3: "spi_write_page fd (a + q) (\<lambda>j. buf (q + j)) (n - q) d2 = (ESP_SPIFFS_FLASH_OK, d3)"
        "mem d3 = nor_write (a + q) (\<lambda>j. buf (q + j)) (n - q) (mem d2)"
      using write_page_mem[of "a + q" "n - q" "\<lambda>j. buf (q + j)" d2] q assms(1) by auto
    have v: "u32 (a + q) = a + q" "sub32 n q = n - q" using q assms(1) chip_24 by (simp_all add: u32_small sub32_small)
    have "spi_write fuel fd a buf n d = Some (ESP_SPIFFS_FLASH_OK, d3)"
      unfolding spi_write_def Let_def f_def[symmetric] k_def[symmetric] u(1)
      using False assms(1) w1(1) w2(1) w3(1) v by (simp add: ESP_SPIFFS_FLASH_OK_def)
    moreover have "mem d3 = nor_write a buf n (mem d)" using w3(2) w2(2) q by (simp add: nor_write_append)
    ultimately show ?thesis by blast
  qed
qed

lemma flash_write_mem:
  assumes "a + n \<le> chip_size (sdk_flashchip fd)" and "n div page_size (sdk_flashchip fd) < 256" and "n div page_size (sdk_flashchip fd) < fuel"
  shows "\<exists>d'. esp_spiffs_flash_write fuel fd a (Some buf) n d = Some (ESP_SPIFFS_FLASH_OK, d')
    \<and> mem d' = nor_write a buf n (mem d) \<and> \<not> busy d'"
proof -
  obtain d1 where "spi_write fuel fd a buf n (Cache_Read_Disable fd d) = Some (ESP_SPIFFS_FLASH_OK, d1)" "mem d1 = nor_write a buf n (mem d)"
    using spi_write_mem[OF assms, of buf "Cache_Read_Disable fd d"] cache by auto
  then show ?thesis by (simp add: esp_spiffs_flash_write_def cache wait)
qed

lemma read_block_bytes:
  assumes "n \<le> 64" and "a + n \<le> chip_size (sdk_flashchip fd)" and "\<not> busy d" and "0 < n"
  shows "4 dvd p \<or> \<not> 4 dvd n \<Longrightarrow> \<exists>d'. read_block fd a p n d = Some (bytes_at (mem d) a n, d') \<and> mem d' = mem d \<and> \<not> busy d'"
    "\<not> 4 dvd p \<Longrightarrow> 4 dvd n \<Longrightarrow> read_block fd a p n d = None"
proof -
  let ?v = "(of_nat a AND 0x00FFFFFF) OR push_bit 24 (of_nat n) :: 32 word"
  have v: "adr_of ?v = a" "count_of ?v = n" using adr_word[of a n] assms chip_24 by auto
  have u: "u8 n = n" using assms(1) by (simp add: u8_small)
  have copy: "memcpy_unaligned_dst fd p n x = (if 4 dvd p \<or> \<not> 4 dvd n then Some (SPI_W_load fd n x) else None)" for x
    using assms(4) unfolding memcpy_unaligned_dst_def dvd_eq_mod_eq_0 by simp
  show "4 dvd p \<or> \<not> 4 dvd n \<Longrightarrow> \<exists>d'. read_block fd a p n d = Some (bytes_at (mem d) a n, d') \<and> mem d' = mem d \<and> \<not> busy d'"
    using rdc(1)[of "SPI_ADDR fd ?v d"] assms rdc(2,3) by (simp add: read_block_def copy set_adr v u)
  show "\<not> 4 dvd p \<Longrightarrow> 4 dvd n \<Longrightarrow> read_block fd a p n d = None" by (simp add: read_block_def copy u)
qed

lemma read_blocks_bytes:
  assumes "a + n \<le> chip_size (sdk_flashchip fd)" and "\<not> busy d" and "storable p n"
  shows "\<exists>d'. read_blocks fd a p n d = Some (bytes_at (mem d) a n, d') \<and> mem d' = mem d \<and> \<not> busy d'"
  using assms
proof (induction n arbitrary: a d p rule: less_induct)
  case (less n)
  show ?case
  proof (cases "60 \<le> n")
    case True
    then have p: "4 dvd p" using less.prems(3) by (auto simp: storable_def SPI_READ_MAX_SIZE_def)
    obtain d1 where r: "read_block fd a p 60 d = Some (bytes_at (mem d) a 60, d1)" "mem d1 = mem d" "\<not> busy d1"
      using read_block_bytes(1)[of 60 a d p] less.prems True p by auto
    have u: "u32 (a + 60) = a + 60" using less.prems True chip_24 by (intro u32_small) linarith
    have "storable (p + 60) (n - 60)" using p by (simp add: storable_def)
    then obtain d2 where "read_blocks fd (a + 60) (p + 60) (n - 60) d1 = Some (bytes_at (mem d) (a + 60) (n - 60), d2)" "mem d2 = mem d" "\<not> busy d2"
      using less.IH[of "n - 60" "a + 60" d1 "p + 60"] r True less.prems by auto
    moreover have "bytes_at (mem d) a n = bytes_at (mem d) a 60 @ bytes_at (mem d) (a + 60) (n - 60)"
      using bytes_at_append[of "mem d" a 60 "n - 60"] True by simp
    ultimately show ?thesis using True r by (subst read_blocks.simps) (simp add: SPI_READ_MAX_SIZE_def u)
  next
    case False
    then show ?thesis using read_block_bytes(1)[of n a d p] less.prems
      by (subst read_blocks.simps) (auto simp: SPI_READ_MAX_SIZE_def bytes_at_def storable_def)
  qed
qed

lemma flash_read_bytes:
  assumes "a + n \<le> chip_size (sdk_flashchip fd)" and "\<not> busy d" and "storable p n"
  shows "\<exists>d'. esp_spiffs_flash_read fd a (Some p) n d = Some (ESP_SPIFFS_FLASH_OK, bytes_at (mem d) a n, d') \<and> mem d' = mem d \<and> \<not> busy d'"
proof -
  have u: "u32 (a + n) = a + n" using assms(1) chip_24 by (simp add: u32_small)
  show ?thesis
    using read_blocks_bytes[of a n "Cache_Read_Disable fd d" p] assms u
    by (cases "n = 0") (auto simp: esp_spiffs_flash_read_def read_data_def cache bytes_at_def)
qed

text \<open>Into every other buffer the copy ends in an exception.\<close>

lemma flash_read_traps:
  assumes "a + n \<le> chip_size (sdk_flashchip fd)" and "\<not> busy d" and "\<not> storable p n"
  shows "esp_spiffs_flash_read fd a (Some p) n d = None"
proof -
  have u: "u32 (a + n) = a + n" using assms(1) chip_24 by (simp add: u32_small)
  have n: "\<not> 4 dvd p" "n > 0" "n \<ge> 60 \<or> 4 dvd n" using assms(3) by (auto simp: storable_def SPI_READ_MAX_SIZE_def)
  have "read_blocks fd a p n (Cache_Read_Disable fd d) = None"
    using read_block_bytes(2)[of 60 a "Cache_Read_Disable fd d" p] read_block_bytes(2)[of n a "Cache_Read_Disable fd d" p] n assms(1,2)
    by (subst read_blocks.simps) (auto simp: SPI_READ_MAX_SIZE_def cache)
  then show ?thesis using n(2) u assms(1) by (simp add: esp_spiffs_flash_read_def read_data_def)
qed

lemma flash_erase_mem:
  assumes "a + 4096 \<le> chip_size (sdk_flashchip fd)" and "4096 dvd a" and "\<not> busy d"
  shows "\<exists>d'. esp_spiffs_flash_erase_sector fd a d = (ESP_SPIFFS_FLASH_OK, d') \<and> mem d' = nor_erase a 4096 (mem d) \<and> \<not> busy d'"
proof -
  have u: "u32 (a + 4096) = a + 4096" using assms(1) chip_24 by (simp add: u32_small)
  have "(0xFFF :: 32 word) = mask 12" by (simp add: mask_eq_exp_minus_1)
  then have "(of_nat a :: 32 word) AND 0xFFF = take_bit 12 (of_nat a)" by (simp add: take_bit_eq_mask)
  also have "\<dots> = of_nat (take_bit 12 a)" by (rule bit_word_eqI) (auto simp: bit_simps)
  also have "take_bit 12 a = 0" using assms(2) by (simp add: take_bit_eq_mod)
  finally have al: "(of_nat a :: 32 word) AND 0xFFF = 0" by simp
  let ?d2 = "snd (SPI_write_enable fd (sdk_flashchip fd) (Cache_Read_Disable fd d))"
  let ?d3 = "SPI_ADDR fd (of_nat a AND 0x00FFFFFF) ?d2"
  have "\<not> busy ?d3" "wel ?d3" "mem ?d3 = mem d" "adr_of (adr ?d3) = a"
    using enable[of "Cache_Read_Disable fd d"] assms adr_word(3)[of a 0] chip_24 by (simp_all add: cache set_adr)
  then show ?thesis using se[of ?d3] assms u al sector
    by (simp add: esp_spiffs_flash_erase_sector_def Let_def cache wait)
qed

lemma erase_sectors_mem:
  assumes "4096 dvd a" and "a + 4096 * (i + k) \<le> chip_size (sdk_flashchip fd)" and "\<not> busy d"
  shows "\<exists>d'. erase_sectors fd a i k d = (SPIFFS_OK, d') \<and> mem d' = nor_erase (a + 4096 * i) (4096 * k) (mem d) \<and> \<not> busy d'"
  using assms
proof (induction k arbitrary: i d)
  case 0
  have "nor_erase b 0 m = m" for b m by (rule ext) (auto simp: nor_erase_def)
  then show ?case using 0 by simp
next
  case (Suc k)
  have u: "u32 (a + 4096 * i) = a + 4096 * i" using Suc.prems(2) chip_24 by (simp add: u32_small)
  obtain d1 where e: "esp_spiffs_flash_erase_sector fd (a + 4096 * i) d = (ESP_SPIFFS_FLASH_OK, d1)"
      "mem d1 = nor_erase (a + 4096 * i) 4096 (mem d)" "\<not> busy d1"
    using flash_erase_mem[of "a + 4096 * i" d] Suc.prems by auto
  obtain d2 where s: "erase_sectors fd a (i + 1) k d1 = (SPIFFS_OK, d2)"
      "mem d2 = nor_erase (a + 4096 * (i + 1)) (4096 * k) (mem d1)" "\<not> busy d2"
    using Suc.IH[of "i + 1" d1] Suc.prems e(3) by auto
  have "mem d2 = nor_erase (a + 4096 * i) (4096 * Suc k) (mem d)"
    by (rule ext) (auto simp: s(2) e(2) nor_erase_def)
  then show ?case using e(1) s(1,3) by (simp add: SPI_FLASH_SEC_SIZE_def u ESP_SPIFFS_FLASH_OK_def ESP_SPIFFS_FLASH_ERROR_def)
qed

lemma spiffs_erase_mem:
  assumes "4096 dvd a" and "a + n \<le> chip_size (sdk_flashchip fd)" and "4096 dvd n" and "\<not> busy d"
  shows "\<exists>d'. esp_spiffs_erase fd a n d = (SPIFFS_OK, d') \<and> mem d' = nor_erase a n (mem d) \<and> \<not> busy d'"
  using erase_sectors_mem[of a 0 "n div 4096" d] assms by (simp add: esp_spiffs_erase_def SPI_FLASH_SEC_SIZE_def)

lemma spiffs_write_mem:
  assumes "a + n \<le> chip_size (sdk_flashchip fd)" and "n div page_size (sdk_flashchip fd) < 256" and "n div page_size (sdk_flashchip fd) < fuel"
  shows "\<exists>d'. esp_spiffs_write fuel fd a n (Some buf) d = Some (SPIFFS_OK, d') \<and> mem d' = nor_write a buf n (mem d) \<and> \<not> busy d'"
  using flash_write_mem[OF assms, of buf d] by (auto simp: esp_spiffs_write_def ESP_SPIFFS_FLASH_OK_def ESP_SPIFFS_FLASH_ERROR_def)

lemma spiffs_read_bytes:
  assumes "a + n \<le> chip_size (sdk_flashchip fd)" and "\<not> busy d"
  shows "storable p n \<Longrightarrow> \<exists>d'. esp_spiffs_read fd a n (Some p) d = Some (SPIFFS_OK, bytes_at (mem d) a n, d') \<and> mem d' = mem d"
    "\<not> storable p n \<Longrightarrow> esp_spiffs_read fd a n (Some p) d = None"
  using flash_read_bytes[OF assms, of p] flash_read_traps[OF assms, of p] by (auto simp: esp_spiffs_read_def ESP_SPIFFS_FLASH_OK_def ESP_SPIFFS_FLASH_ERROR_def)

lemma spiffs_write_hang:
  assumes "u32 (a + n) \<le> chip_size (sdk_flashchip fd)" and "page_size (sdk_flashchip fd) dvd 2 ^ 32"
    and "257 * page_size (sdk_flashchip fd) \<le> n"
  shows "esp_spiffs_write fuel fd a n (Some buf) d = None"
proof -
  let ?p = "page_size (sdk_flashchip fd)"
  define f where "f = ?p - a mod ?p"
  have f: "a mod ?p + f = ?p" using mod_less_divisor[OF page(1), of a] unfolding f_def by linarith
  have "256 * ?p \<le> n - f" "f \<le> n" using f assms(3) by linarith+
  then have k: "256 \<le> (n - f) div ?p" using page(1) by (simp add: less_eq_div_iff_mult_less_eq)
  have "a + f = ?p * (a div ?p) + ?p" using f mult_div_mod_eq[of ?p a] by linarith
  then have dv: "?p dvd a + f" by (simp add: dvd_add_right_iff)
  have "u32 (f + a mod ?p) = ?p" using f page by (simp add: u32_small add.commute)
  then obtain d1 where w: "spi_write_page fd a buf f (Cache_Read_Disable fd d) = (ESP_SPIFFS_FLASH_OK, d1)"
    by (cases "f = 0") (auto simp: spi_write_page_def)
  have "spi_write fuel fd a buf n (Cache_Read_Disable fd d) = None"
    unfolding spi_write_def Let_def f_def[symmetric]
    using assms(1) \<open>f \<le> n\<close> w write_pages_hang[OF dv assms(2) k, of 0 fuel buf d1] by (simp add: ESP_SPIFFS_FLASH_OK_def)
  then show ?thesis by (simp add: esp_spiffs_write_def esp_spiffs_flash_write_def)
qed

end

section \<open>A simulated controller\<close>

record sim_spi =
  ss_mem :: cptr
  ss_busy :: bool
  ss_wel :: bool
  ss_adr :: "32 word"
  ss_w :: cptr

definition sim_spi_cmd :: "32 word \<Rightarrow> sim_spi \<Rightarrow> sim_spi" where
  "sim_spi_cmd c s =
     (let a = adr_of (ss_adr s); n = count_of (ss_adr s) in
      if c = SPI_CMD_PP then s\<lparr>ss_mem := nor_write a (ss_w s) n (ss_mem s), ss_busy := True, ss_wel := False\<rparr>
      else if c = SPI_CMD_SE then s\<lparr>ss_mem := nor_erase a 4096 (ss_mem s), ss_busy := True, ss_wel := False\<rparr>
      else s\<lparr>ss_w := (\<lambda>i. ss_mem s (a + i))\<rparr>)"

definition sim_spi_regs :: "sim_spi spi_regs" where
  "sim_spi_regs =
     \<lparr>sdk_flashchip = sdk_flashchip_init,
      SPI_page_program = (\<lambda>_ _ _ _ d. (False, d)), SPI_read_data = (\<lambda>_ _ _ d. (False, [], d)),
      SPI_write_enable = (\<lambda>_ d. (False, d\<lparr>ss_wel := True\<rparr>)), SPI_sector_erase = (\<lambda>_ _ d. (False, d)),
      SPI_read_status = (\<lambda>_ d. (0, 0, d)), SPI_write_status = (\<lambda>_ _ d. (0, d)),
      Cache_Read_Disable = (\<lambda>d. d), Cache_Read_Enable = (\<lambda>_ _ _ d. d),
      Wait_SPI_Idle = (\<lambda>_ d. d\<lparr>ss_busy := False\<rparr>), SPI_ADDR = (\<lambda>v d. d\<lparr>ss_adr := v\<rparr>),
      SPI_W_store = (\<lambda>bs d. d\<lparr>ss_w := cbuf bs (\<lambda>i. ss_w d (length bs + i))\<rparr>),
      SPI_W_load = (\<lambda>n d. map (ss_w d) [0..<n]), SPI_CMD = sim_spi_cmd\<rparr>"

lemma spi_cmds_differ: "SPI_CMD_PP \<noteq> SPI_CMD_SE" "SPI_CMD_READ \<noteq> SPI_CMD_PP" "SPI_CMD_READ \<noteq> SPI_CMD_SE"
  by (simp_all add: SPI_CMD_PP_def SPI_CMD_SE_def SPI_CMD_READ_def)

interpretation sim_spi: spiffs_hw sim_spi_regs ss_mem ss_busy ss_wel ss_adr ss_w
  using spi_cmds_differ
  by unfold_locales (auto simp: sim_spi_regs_def sdk_flashchip_init_def sim_spi_cmd_def Let_def bytes_at_def
      intro!: nth_equalityI)

definition sim_spi_zero :: sim_spi where
  "sim_spi_zero = \<lparr>ss_mem = \<lambda>_. 0, ss_busy = False, ss_wel = False, ss_adr = 0, ss_w = \<lambda>_. 0\<rparr>"

lemma sim_spi_chip: "chip_size (sdk_flashchip sim_spi_regs) = 0x400000" "page_size (sdk_flashchip sim_spi_regs) = 256"
  "\<not> ss_busy sim_spi_zero" "ss_mem sim_spi_zero i = 0"
  by (simp_all add: sim_spi_regs_def sdk_flashchip_init_def sim_spi_zero_def)

section \<open>Properties\<close>

text \<open>C26: The file system gets back what it writes. After \<open>esp_spiffs_erase\<close> of some sectors, writing any range of
  bytes inside them, at any alignment and of fewer than 256 pages, returns within one step per page; reading the range,
  into a word-aligned buffer or, if it has fewer than 60 bytes and not a multiple of four of them, into any buffer, gives the bytes written; every other byte of the sectors is erased and every byte outside them is as it was; the
  chip is left idle.\<close>

theorem spiffs_write_read:
  assumes "spiffs_hw fd mem busy wel adr wbuf" and "\<not> busy d" and "4096 dvd s" and "4096 dvd n"
    and "s + n \<le> chip_size (sdk_flashchip fd)" and "s \<le> a" and "a + length bs \<le> s + n"
    and "length bs div page_size (sdk_flashchip fd) < 256" and "length bs div page_size (sdk_flashchip fd) < fuel" and "storable p (length bs)"
  shows "\<exists>d1 d2 d3. esp_spiffs_erase fd s n d = (SPIFFS_OK, d1)
    \<and> esp_spiffs_write fuel fd a (length bs) (Some (cbuf bs rest)) d1 = Some (SPIFFS_OK, d2)
    \<and> esp_spiffs_read fd a (length bs) (Some p) d2 = Some (SPIFFS_OK, bs, d3) \<and> \<not> busy d2
    \<and> (\<forall>i. i < a \<or> a + length bs \<le> i \<longrightarrow> mem d2 i = (if s \<le> i \<and> i < s + n then 255 else mem d i))"
proof -
  have fit: "a + length bs \<le> chip_size (sdk_flashchip fd)" using assms(5,7) by linarith
  obtain d1 where e: "esp_spiffs_erase fd s n d = (SPIFFS_OK, d1)" "mem d1 = nor_erase s n (mem d)" "\<not> busy d1"
    using spiffs_hw.spiffs_erase_mem[OF assms(1), OF assms(3), OF assms(5), OF assms(4), OF assms(2)] by blast
  obtain d2 where w: "esp_spiffs_write fuel fd a (length bs) (Some (cbuf bs rest)) d1 = Some (SPIFFS_OK, d2)"
      "mem d2 = nor_write a (cbuf bs rest) (length bs) (mem d1)" "\<not> busy d2"
    using spiffs_hw.spiffs_write_mem[OF assms(1), OF fit, OF assms(8), OF assms(9), of "cbuf bs rest" d1] by blast
  obtain d3 where r: "esp_spiffs_read fd a (length bs) (Some p) d2 = Some (SPIFFS_OK, bytes_at (mem d2) a (length bs), d3)"
    using spiffs_hw.spiffs_read_bytes(1)[OF assms(1), OF fit, OF w(3), OF assms(10)] by blast
  have "bytes_at (mem d2) a (length bs) = bs"
    using assms(6,7) by (intro nth_equalityI) (auto simp: w(2) e(2) nor_write_def nor_erase_def)
  moreover have "mem d2 i = (if s \<le> i \<and> i < s + n then 255 else mem d i)" if "i < a \<or> a + length bs \<le> i" for i
    using that by (auto simp: w(2) e(2) nor_write_def nor_erase_def)
  ultimately show ?thesis using e w r by auto
qed

theorem spiffs_write_read_witness:
  "\<exists>d1 d2 d3. esp_spiffs_erase sim_spi_regs 0x1000 0x1000 sim_spi_zero = (SPIFFS_OK, d1)
    \<and> esp_spiffs_write 1 sim_spi_regs 0x10ff 3 (Some (cbuf [1, 2, 3] (\<lambda>_. 9))) d1 = Some (SPIFFS_OK, d2)
    \<and> esp_spiffs_read sim_spi_regs 0x10ff 3 (Some 0x3ffe8001) d2 = Some (SPIFFS_OK, [1, 2, 3], d3) \<and> ss_mem d2 0x1102 = 255 \<and> ss_mem d2 0x2000 = 0"
proof -
  have l: "length [1, 2, 3 :: byte] = 3" by simp
  obtain d1 d2 d3 where r: "esp_spiffs_erase sim_spi_regs 0x1000 0x1000 sim_spi_zero = (SPIFFS_OK, d1)"
      "esp_spiffs_write 1 sim_spi_regs 0x10ff 3 (Some (cbuf [1, 2, 3] (\<lambda>_. 9))) d1 = Some (SPIFFS_OK, d2)"
      "esp_spiffs_read sim_spi_regs 0x10ff 3 (Some 0x3ffe8001) d2 = Some (SPIFFS_OK, [1, 2, 3], d3)"
      "\<forall>i. i < 0x10ff \<or> 0x10ff + 3 \<le> i \<longrightarrow> ss_mem d2 i = (if 0x1000 \<le> i \<and> i < 0x1000 + 0x1000 then 255 else ss_mem sim_spi_zero i)"
    using spiffs_write_read[OF sim_spi.spiffs_hw_axioms sim_spi_chip(3), of "0x1000" "0x1000" "0x10ff" "[1, 2, 3]" 1 "0x3ffe8001" "\<lambda>_. 9"]
    unfolding l sim_spi_chip by (auto simp: storable_def SPI_READ_MAX_SIZE_def)
  then have "ss_mem d2 0x1102 = 255" "ss_mem d2 0x2000 = 0" by (simp_all add: sim_spi_chip)
  then show ?thesis using r by blast
qed

text \<open>A read into any other buffer ends in an exception, although the header file says that the buffer does not have to be aligned.\<close>

lemma spiffs_read_traps:
  assumes "spiffs_hw fd mem busy wel adr wbuf" and "a + n \<le> chip_size (sdk_flashchip fd)" and "\<not> busy d" and "\<not> storable p n"
  shows "esp_spiffs_read fd a n (Some p) d = None"
  using spiffs_hw.spiffs_read_bytes(2)[OF assms(1), OF assms(2), OF assms(3), OF assms(4)] .

text \<open>A write of 257 pages or more never returns. The page counter is eight bits wide and compared for equality with
  a count of 256 or more, so no number of steps is enough; every write of a page succeeds.\<close>

theorem spiffs_large_write_hangs:
  assumes "spiffs_hw fd mem busy wel adr wbuf" and "u32 (a + n) \<le> chip_size (sdk_flashchip fd)"
    and "page_size (sdk_flashchip fd) dvd 2 ^ 32" and "257 * page_size (sdk_flashchip fd) \<le> n"
  shows "esp_spiffs_write fuel fd a n (Some buf) d = None"
  using spiffs_hw.spiffs_write_hang[OF assms(1), OF assms(2), OF assms(3), OF assms(4)] .

theorem spiffs_large_write_hangs_witness:
  "esp_spiffs_write 1000000 sim_spi_regs 0x100000 0x10100 (Some (\<lambda>_. 0))
     sim_spi_zero = None"
  using spiffs_large_write_hangs[OF sim_spi.spiffs_hw_axioms, of "0x100000" "0x10100" 1000000]
  by (simp add: sim_spi_chip u32_def)

end
