(* ===== verification/MQTTPacket.thy ===== *)
theory MQTTPacket
  imports CString
begin

text \<open>
  The common part of the MQTT packet codec, \<^verbatim>\<open>src/extras/paho_mqtt_c/MQTTPacket.c\<close>. A serializer writes behind
  a pointer that starts at the beginning of the buffer: its state is the list of bytes written so far, and
  \<^verbatim>\<open>ptr - buf\<close> is the length of that list. A deserializer reads from a buffer by position; what lies behind the
  buffer is part of the function it is read through. A transport callback is a function of the number of bytes
  wanted and the state of the transport, returning its result, the bytes stored and the new state. A C string is the
  list of its bytes. Lengths are naturals: the code never stores a negative one.
\<close>

definition MQTTPACKET_BUFFER_TOO_SHORT :: int where "MQTTPACKET_BUFFER_TOO_SHORT = -2"
definition MQTTPACKET_READ_ERROR :: int where "MQTTPACKET_READ_ERROR = -1"
definition MAX_NO_OF_REMAINING_LENGTH_BYTES :: nat where "MAX_NO_OF_REMAINING_LENGTH_BYTES = 4"

definition CONNECT :: nat where "CONNECT = 1"
definition CONNACK :: nat where "CONNACK = 2"
definition PUBLISH :: nat where "PUBLISH = 3"
definition PUBACK :: nat where "PUBACK = 4"
definition PUBREL :: nat where "PUBREL = 6"
definition PUBCOMP :: nat where "PUBCOMP = 7"
definition SUBSCRIBE :: nat where "SUBSCRIBE = 8"
definition SUBACK :: nat where "SUBACK = 9"
definition UNSUBSCRIBE :: nat where "UNSUBSCRIBE = 10"
definition UNSUBACK :: nat where "UNSUBACK = 11"
definition PINGREQ :: nat where "PINGREQ = 12"
definition DISCONNECT :: nat where "DISCONNECT = 14"

text \<open>The header byte is a union of the byte and its bit fields; storing a field keeps its low bits.\<close>

definition MQTTHeader :: "nat \<Rightarrow> nat \<Rightarrow> int \<Rightarrow> nat \<Rightarrow> byte" where
  "MQTTHeader type dup qos retain = of_nat (retain mod 2 + 2 * nat (qos mod 4) + 8 * (dup mod 2) + 16 * (type mod 16))"

definition header_type :: "byte \<Rightarrow> nat" where "header_type b = unat b div 16"
definition header_dup :: "byte \<Rightarrow> nat" where "header_dup b = unat b div 8 mod 2"
definition header_qos :: "byte \<Rightarrow> nat" where "header_qos b = unat b div 2 mod 4"
definition header_retain :: "byte \<Rightarrow> nat" where "header_retain b = unat b mod 2"

text \<open>A string given by pointer and length, or as a C string; a null pointer is \<^const>\<open>None\<close>.\<close>

record MQTTString =
  cstring :: "byte list option"
  lenstring_len :: nat
  lenstring_data :: "cptr option"

section \<open>The remaining length\<close>

fun MQTTPacket_encode :: "nat \<Rightarrow> byte list" where
  "MQTTPacket_encode len =
     (if len div 128 > 0 then (of_nat (len mod 128) OR 0x80) # MQTTPacket_encode (len div 128)
      else [of_nat (len mod 128)])"

declare MQTTPacket_encode.simps [simp del]

text \<open>\<open>len\<close> counts the bytes read so far; the results are the new count, the value and the transport.\<close>

function MQTTPacket_decode_loop ::
  "('s \<Rightarrow> int \<times> byte \<times> 's) \<Rightarrow> nat \<Rightarrow> nat \<Rightarrow> nat \<Rightarrow> 's \<Rightarrow> nat \<times> nat \<times> 's" where
  "MQTTPacket_decode_loop getcharfn len multiplier value s =
     (if len + 1 > MAX_NO_OF_REMAINING_LENGTH_BYTES then (len + 1, value, s)
      else
        (case getcharfn s of
           (rc, c, s1) \<Rightarrow>
             if rc \<noteq> 1 then (len + 1, value, s1)
             else
               let value1 = value + unat (c AND 127) * multiplier in
               if c AND 128 \<noteq> 0 then MQTTPacket_decode_loop getcharfn (len + 1) (multiplier * 128) value1 s1
               else (len + 1, value1, s1)))"
  by pat_completeness auto
termination
  by (relation "measure (\<lambda>(getcharfn, len, multiplier, value, s). 4 - len)") (auto simp: MAX_NO_OF_REMAINING_LENGTH_BYTES_def)

declare MQTTPacket_decode_loop.simps [simp del]

definition MQTTPacket_decode :: "('s \<Rightarrow> int \<times> byte \<times> 's) \<Rightarrow> 's \<Rightarrow> nat \<times> nat \<times> 's" where
  "MQTTPacket_decode getcharfn s = MQTTPacket_decode_loop getcharfn 0 1 0 s"

definition MQTTPacket_len :: "nat \<Rightarrow> nat" where
  "MQTTPacket_len rem_len =
     (let r = rem_len + 1 in
      if r < 128 then r + 1 else if r < 16384 then r + 2 else if r < 2097151 then r + 3 else r + 4)"

definition bufchar :: "cptr \<Rightarrow> nat \<Rightarrow> int \<times> byte \<times> nat" where
  "bufchar buf bufptr = (1, buf bufptr, bufptr + 1)"

definition MQTTPacket_decodeBuf :: "cptr \<Rightarrow> nat \<Rightarrow> nat \<times> nat" where
  "MQTTPacket_decodeBuf buf pos = (case MQTTPacket_decode (bufchar buf) pos of (len, value, _) \<Rightarrow> (len, value))"

section \<open>Reading and writing fields\<close>

definition readInt :: "cptr \<Rightarrow> nat \<Rightarrow> nat \<times> nat" where
  "readInt buf ptr = (256 * unat (buf ptr) + unat (buf (ptr + 1)), ptr + 2)"

definition readChar :: "cptr \<Rightarrow> nat \<Rightarrow> byte \<times> nat" where
  "readChar buf ptr = (buf ptr, ptr + 1)"

definition writeChar :: "byte \<Rightarrow> byte list \<Rightarrow> byte list" where
  "writeChar c out = out @ [c]"

definition writeInt :: "nat \<Rightarrow> byte list \<Rightarrow> byte list" where
  "writeInt anInt out = out @ [of_nat (anInt div 256), of_nat (anInt mod 256)]"

definition writeCString :: "byte list \<Rightarrow> byte list \<Rightarrow> byte list" where
  "writeCString str out = writeInt (length str) out @ str"

definition getLenStringLen :: "cptr \<Rightarrow> nat" where
  "getLenStringLen ptr = 256 * unat (ptr 0) + unat (ptr 1)"

text \<open>Copying from a null data pointer faults; the copy is then of zeros.\<close>

definition lenstring_bytes :: "MQTTString \<Rightarrow> byte list" where
  "lenstring_bytes s =
     (case lenstring_data s of
        Some p \<Rightarrow> map p [0..<lenstring_len s]
      | None \<Rightarrow> replicate (lenstring_len s) 0)"

definition writeMQTTString :: "MQTTString \<Rightarrow> byte list \<Rightarrow> byte list" where
  "writeMQTTString s out =
     (if lenstring_len s > 0 then writeInt (lenstring_len s) out @ lenstring_bytes s
      else (case cstring s of Some str \<Rightarrow> writeCString str out | None \<Rightarrow> writeInt 0 out))"

text \<open>The string read keeps what it held where nothing is stored; the result is the flag, the string and the new position.\<close>

definition readMQTTLenString :: "cptr \<Rightarrow> MQTTString \<Rightarrow> nat \<Rightarrow> nat \<Rightarrow> bool \<times> MQTTString \<times> nat" where
  "readMQTTLenString buf s ptr enddata =
     (if int enddata - int ptr > 1 then
        (case readInt buf ptr of
           (len, ptr1) \<Rightarrow>
             let s1 = s\<lparr>lenstring_len := len\<rparr> in
             if ptr1 + len \<le> enddata
             then (True, s1\<lparr>lenstring_data := Some (\<lambda>i. buf (ptr1 + i)), cstring := None\<rparr>, ptr1 + len)
             else (False, s1\<lparr>cstring := None\<rparr>, ptr1))
      else (False, s\<lparr>cstring := None\<rparr>, ptr))"

definition MQTTstrlen :: "MQTTString \<Rightarrow> nat" where
  "MQTTstrlen s = (case cstring s of Some str \<Rightarrow> length str | None \<Rightarrow> lenstring_len s)"

definition MQTTPacket_equals :: "MQTTString \<Rightarrow> byte list \<Rightarrow> bool" where
  "MQTTPacket_equals a bptr =
     (let alen = MQTTstrlen a;
          astr = (case cstring a of Some str \<Rightarrow> str | None \<Rightarrow> lenstring_bytes a) in
      alen = length bptr \<and> astr = bptr)"

section \<open>Reading a packet from a transport\<close>

definition patch :: "nat \<Rightarrow> byte list \<Rightarrow> byte list \<Rightarrow> byte list" where
  "patch i bs buf = take i buf @ bs @ drop (i + length bs) buf"

text \<open>One byte through the callback that reads any number.\<close>

definition getchar_of :: "(nat \<Rightarrow> 's \<Rightarrow> int \<times> byte list \<times> 's) \<Rightarrow> 's \<Rightarrow> int \<times> byte \<times> 's" where
  "getchar_of getfn s = (case getfn 1 s of (rc, bs, s1) \<Rightarrow> (rc, bs ! 0, s1))"

definition MQTTPacket_read ::
  "byte list \<Rightarrow> nat \<Rightarrow> (nat \<Rightarrow> 's \<Rightarrow> int \<times> byte list \<times> 's) \<Rightarrow> 's \<Rightarrow> int \<times> byte list \<times> 's" where
  "MQTTPacket_read buf buflen getfn s =
     (case getfn 1 s of
        (rc, bs, s1) \<Rightarrow>
          let buf1 = patch 0 bs buf in
          if rc \<noteq> 1 then (-1, buf1, s1)
          else
            (case MQTTPacket_decode (getchar_of getfn) s1 of
               (_, rem_len, s2) \<Rightarrow>
                 let enc = MQTTPacket_encode rem_len;
                     buf2 = patch 1 enc buf1;
                     len = 1 + length enc in
                 if rem_len + len > buflen then (-1, buf2, s2)
                 else
                   (case getfn rem_len s2 of
                      (rc, bs, s3) \<Rightarrow>
                        let buf3 = patch len bs buf2 in
                        if rc \<noteq> int rem_len then (-1, buf3, s3)
                        else (int (header_type (buf3 ! 0)), buf3, s3))))"

record MQTTTransport =
  tr_multiplier :: nat
  tr_rem_len :: int
  tr_len :: nat
  tr_state :: nat

function decodenb_loop ::
  "(nat \<Rightarrow> 's \<Rightarrow> int \<times> byte list \<times> 's) \<Rightarrow> MQTTTransport \<Rightarrow> 's \<Rightarrow> int \<times> MQTTTransport \<times> 's" where
  "decodenb_loop getfn trp s =
     (let trp1 = trp\<lparr>tr_len := tr_len trp + 1\<rparr> in
      if tr_len trp1 > MAX_NO_OF_REMAINING_LENGTH_BYTES then (MQTTPACKET_READ_ERROR, trp1, s)
      else
        (case getfn 1 s of
           (frc, bs, s1) \<Rightarrow>
             if frc = -1 then (MQTTPACKET_READ_ERROR, trp1, s1)
             else if frc = 0 then (0, trp1, s1)
             else
               let c = bs ! 0;
                   trp2 = trp1\<lparr>tr_rem_len := tr_rem_len trp1 + int (unat (c AND 127) * tr_multiplier trp1),
                               tr_multiplier := tr_multiplier trp1 * 128\<rparr> in
               if c AND 128 \<noteq> 0 then decodenb_loop getfn trp2 s1
               else (int (tr_len trp2), trp2, s1)))"
  by pat_completeness auto
termination
  by (relation "measure (\<lambda>(getfn, trp, s). 4 - tr_len trp)") (auto simp: MAX_NO_OF_REMAINING_LENGTH_BYTES_def)

declare decodenb_loop.simps [simp del]

definition MQTTPacket_decodenb ::
  "(nat \<Rightarrow> 's \<Rightarrow> int \<times> byte list \<times> 's) \<Rightarrow> MQTTTransport \<Rightarrow> 's \<Rightarrow> int \<times> MQTTTransport \<times> 's" where
  "MQTTPacket_decodenb getfn trp s =
     decodenb_loop getfn (if tr_len trp = 0 then trp\<lparr>tr_multiplier := 1, tr_rem_len := 0\<rparr> else trp) s"

text \<open>The states of the non-blocking read; a state falls through to the next one.\<close>

definition readnb_rest ::
  "byte list \<Rightarrow> (nat \<Rightarrow> 's \<Rightarrow> int \<times> byte list \<times> 's) \<Rightarrow> MQTTTransport \<Rightarrow> 's \<Rightarrow> int \<times> byte list \<times> MQTTTransport \<times> 's" where
  "readnb_rest buf getfn trp s =
     (case getfn (nat (tr_rem_len trp)) s of
        (frc, bs, s1) \<Rightarrow>
          let buf1 = patch (tr_len trp) bs buf in
          if frc = -1 then (-1, buf1, trp\<lparr>tr_state := 0\<rparr>, s1)
          else if frc = 0 then (0, buf1, trp, s1)
          else
            let trp1 = trp\<lparr>tr_rem_len := tr_rem_len trp - frc, tr_len := nat (int (tr_len trp) + frc)\<rparr> in
            if tr_rem_len trp1 \<noteq> 0 then (0, buf1, trp1, s1)
            else (int (header_type (buf1 ! 0)), buf1, trp1\<lparr>tr_state := 0\<rparr>, s1))"

definition readnb_length ::
  "byte list \<Rightarrow> nat \<Rightarrow> (nat \<Rightarrow> 's \<Rightarrow> int \<times> byte list \<times> 's) \<Rightarrow> MQTTTransport \<Rightarrow> 's \<Rightarrow> int \<times> byte list \<times> MQTTTransport \<times> 's" where
  "readnb_length buf buflen getfn trp s =
     (case MQTTPacket_decodenb getfn trp s of
        (frc, trp1, s1) \<Rightarrow>
          if frc = MQTTPACKET_READ_ERROR then (-1, buf, trp1\<lparr>tr_state := 0\<rparr>, s1)
          else if frc = 0 then (0, buf, trp1, s1)
          else
            let enc = MQTTPacket_encode (nat (tr_rem_len trp1));
                buf1 = patch 1 enc buf;
                trp2 = trp1\<lparr>tr_len := 1 + length enc\<rparr> in
            if tr_rem_len trp2 + int (tr_len trp2) > int buflen then (-1, buf1, trp2\<lparr>tr_state := 0\<rparr>, s1)
            else readnb_rest buf1 getfn (trp2\<lparr>tr_state := tr_state trp2 + 1\<rparr>) s1)"

definition MQTTPacket_readnb ::
  "byte list \<Rightarrow> nat \<Rightarrow> (nat \<Rightarrow> 's \<Rightarrow> int \<times> byte list \<times> 's) \<Rightarrow> MQTTTransport \<Rightarrow> 's \<Rightarrow> int \<times> byte list \<times> MQTTTransport \<times> 's" where
  "MQTTPacket_readnb buf buflen getfn trp s =
     (if tr_state trp = 2 then readnb_rest buf getfn trp s
      else if tr_state trp = 1 then readnb_length buf buflen getfn trp s
      else
        let trp0 = trp\<lparr>tr_state := 0\<rparr> in
        (case getfn 1 s of
           (frc, bs, s1) \<Rightarrow>
             let buf1 = patch 0 bs buf in
             if frc = -1 then (-1, buf1, trp0, s1)
             else if frc = 0 then (0, buf1, trp0, s1)
             else readnb_length buf1 buflen getfn (trp0\<lparr>tr_len := 0, tr_state := 1\<rparr>) s1))"

end
