(* ===== verification/MQTTMessages.thy ===== *)
theory MQTTMessages
  imports MQTTPacket
begin

text \<open>
  The messages of the MQTT client: \<^verbatim>\<open>MQTTConnectClient.c\<close>, \<^verbatim>\<open>MQTTSerializePublish.c\<close>,
  \<^verbatim>\<open>MQTTDeserializePublish.c\<close>, \<^verbatim>\<open>MQTTSubscribeClient.c\<close> and \<^verbatim>\<open>MQTTUnsubscribeClient.c\<close> under
  \<^verbatim>\<open>src/extras/paho_mqtt_c\<close>. A serializer returns its result code and the bytes it wrote from the start of
  the buffer on. A deserializer is given the values its output parameters had and returns the new ones.
\<close>

section \<open>Connecting\<close>

record MQTTPacket_willOptions =
  will_topicName :: MQTTString
  will_message :: MQTTString
  will_retained :: nat
  will_qos :: nat

record MQTTPacket_connectData =
  MQTTVersion :: nat
  clientID :: MQTTString
  keepAliveInterval :: nat
  cleansession :: nat
  willFlag :: nat
  will :: MQTTPacket_willOptions
  username :: MQTTString
  password :: MQTTString

definition string_set :: "MQTTString \<Rightarrow> bool" where
  "string_set s \<longleftrightarrow> cstring s \<noteq> None \<or> lenstring_data s \<noteq> None"

definition MQTTSerialize_connectLength :: "MQTTPacket_connectData \<Rightarrow> nat" where
  "MQTTSerialize_connectLength options =
     (if MQTTVersion options = 3 then 12 else if MQTTVersion options = 4 then 10 else 0)
     + (MQTTstrlen (clientID options) + 2)
     + (if willFlag options \<noteq> 0
        then MQTTstrlen (will_topicName (will options)) + 2 + MQTTstrlen (will_message (will options)) + 2 else 0)
     + (if string_set (username options) then MQTTstrlen (username options) + 2 else 0)
     + (if string_set (password options) then MQTTstrlen (password options) + 2 else 0)"

text \<open>The flags byte: bit fields from bit 1 up, each keeping its low bits.\<close>

definition MQTTConnectFlags :: "MQTTPacket_connectData \<Rightarrow> byte" where
  "MQTTConnectFlags options =
     of_nat (2 * (cleansession options mod 2)
       + (if willFlag options \<noteq> 0
          then 4 + 8 * (will_qos (will options) mod 4) + 32 * (will_retained (will options) mod 2) else 0)
       + (if string_set (password options) then 64 else 0) + (if string_set (username options) then 128 else 0))"

definition connect_body :: "MQTTPacket_connectData \<Rightarrow> byte list \<Rightarrow> byte list" where
  "connect_body options out =
     (let out1 = (if MQTTVersion options = 4 then writeChar 4 (writeCString [77, 81, 84, 84] out)
                  else writeChar 3 (writeCString [77, 81, 73, 115, 100, 112] out));
          out2 = writeMQTTString (clientID options) (writeInt (keepAliveInterval options) (writeChar (MQTTConnectFlags options) out1));
          out3 = (if willFlag options \<noteq> 0
                  then writeMQTTString (will_message (will options)) (writeMQTTString (will_topicName (will options)) out2) else out2);
          out4 = (if string_set (username options) then writeMQTTString (username options) out3 else out3) in
      if string_set (password options) then writeMQTTString (password options) out4 else out4)"

definition MQTTSerialize_connect :: "int \<Rightarrow> MQTTPacket_connectData \<Rightarrow> int \<times> byte list" where
  "MQTTSerialize_connect buflen options =
     (let len = MQTTSerialize_connectLength options in
      if int (MQTTPacket_len len) > buflen then (MQTTPACKET_BUFFER_TOO_SHORT, [])
      else
        let out = connect_body options (writeChar (MQTTHeader CONNECT 0 0 0) [] @ MQTTPacket_encode len) in
        (int (length out), out))"

text \<open>The session-present bit is the top bit of the flags byte: the bit field is declared behind seven unused bits.\<close>

definition MQTTDeserialize_connack :: "cptr \<Rightarrow> byte \<times> byte \<Rightarrow> int \<times> byte \<times> byte" where
  "MQTTDeserialize_connack buf vals =
     (case vals of
        (sessionPresent, connack_rc) \<Rightarrow>
          (case readChar buf 0 of
             (header, cur) \<Rightarrow>
               if header_type header \<noteq> CONNACK then (0, sessionPresent, connack_rc)
               else
                 (case MQTTPacket_decodeBuf buf cur of
                    (rc, mylen) \<Rightarrow>
                      if mylen < 2 then (int rc, sessionPresent, connack_rc)
                      else
                        (case readChar buf (cur + rc) of
                           (flags, cur1) \<Rightarrow> (1, drop_bit 7 flags, fst (readChar buf cur1))))))"

definition MQTTSerialize_zero :: "int \<Rightarrow> nat \<Rightarrow> int \<times> byte list" where
  "MQTTSerialize_zero buflen packettype =
     (if buflen < 2 then (MQTTPACKET_BUFFER_TOO_SHORT, [])
      else
        let out = writeChar (MQTTHeader packettype 0 0 0) [] @ MQTTPacket_encode 0 in
        (int (length out), out))"

definition MQTTSerialize_disconnect :: "int \<Rightarrow> int \<times> byte list" where
  "MQTTSerialize_disconnect buflen = MQTTSerialize_zero buflen DISCONNECT"

definition MQTTSerialize_pingreq :: "int \<Rightarrow> int \<times> byte list" where
  "MQTTSerialize_pingreq buflen = MQTTSerialize_zero buflen PINGREQ"

section \<open>Publishing\<close>

definition MQTTSerialize_publishLength :: "int \<Rightarrow> MQTTString \<Rightarrow> nat \<Rightarrow> nat" where
  "MQTTSerialize_publishLength qos topicName payloadlen =
     2 + MQTTstrlen topicName + payloadlen + (if qos > 0 then 2 else 0)"

definition MQTTSerialize_publish ::
  "int \<Rightarrow> nat \<Rightarrow> int \<Rightarrow> nat \<Rightarrow> nat \<Rightarrow> MQTTString \<Rightarrow> byte list \<Rightarrow> int \<times> byte list" where
  "MQTTSerialize_publish buflen dup qos retained packetid topicName payload =
     (let rem_len = MQTTSerialize_publishLength qos topicName (length payload) in
      if int (MQTTPacket_len rem_len) > buflen then (MQTTPACKET_BUFFER_TOO_SHORT, [])
      else
        let out1 = writeChar (MQTTHeader PUBLISH dup qos retained) [] @ MQTTPacket_encode rem_len;
            out2 = writeMQTTString topicName out1;
            out3 = (if qos > 0 then writeInt packetid out2 else out2);
            out4 = out3 @ payload in
        (int (length out4), out4))"

definition MQTTSerialize_ack :: "int \<Rightarrow> nat \<Rightarrow> nat \<Rightarrow> nat \<Rightarrow> int \<times> byte list" where
  "MQTTSerialize_ack buflen packettype dup packetid =
     (if buflen < 4 then (MQTTPACKET_BUFFER_TOO_SHORT, [])
      else
        let out = writeInt packetid
          (writeChar (MQTTHeader packettype dup (if packettype = PUBREL then 1 else 0) 0) [] @ MQTTPacket_encode 2) in
        (int (length out), out))"

definition MQTTSerialize_puback :: "int \<Rightarrow> nat \<Rightarrow> int \<times> byte list" where
  "MQTTSerialize_puback buflen packetid = MQTTSerialize_ack buflen PUBACK 0 packetid"

definition MQTTSerialize_pubrel :: "int \<Rightarrow> nat \<Rightarrow> nat \<Rightarrow> int \<times> byte list" where
  "MQTTSerialize_pubrel buflen dup packetid = MQTTSerialize_ack buflen PUBREL dup packetid"

definition MQTTSerialize_pubcomp :: "int \<Rightarrow> nat \<Rightarrow> int \<times> byte list" where
  "MQTTSerialize_pubcomp buflen packetid = MQTTSerialize_ack buflen PUBCOMP 0 packetid"

text \<open>The payload is a position in the buffer and a length, which can come out negative.\<close>

record publish_data =
  pd_dup :: nat
  pd_qos :: nat
  pd_retained :: nat
  pd_packetid :: nat
  pd_topicName :: MQTTString
  pd_payload :: nat
  pd_payloadlen :: int

definition MQTTDeserialize_publish :: "cptr \<Rightarrow> publish_data \<Rightarrow> int \<times> publish_data" where
  "MQTTDeserialize_publish buf p =
     (case readChar buf 0 of
        (header, cur) \<Rightarrow>
          if header_type header \<noteq> PUBLISH then (0, p)
          else
            let p1 = p\<lparr>pd_dup := header_dup header, pd_qos := header_qos header, pd_retained := header_retain header\<rparr> in
            (case MQTTPacket_decodeBuf buf cur of
               (rc, mylen) \<Rightarrow>
                 let cur1 = cur + rc;
                     enddata = cur1 + mylen in
                 (case readMQTTLenString buf (pd_topicName p1) cur1 enddata of
                    (ok, topic, cur2) \<Rightarrow>
                      let p2 = p1\<lparr>pd_topicName := topic\<rparr> in
                      if \<not> ok \<or> int enddata - int cur2 < 0 then (int rc, p2)
                      else
                        let (p3, cur3) = (if pd_qos p2 > 0
                              then (case readInt buf cur2 of (v, c) \<Rightarrow> (p2\<lparr>pd_packetid := v\<rparr>, c)) else (p2, cur2)) in
                        (1, p3\<lparr>pd_payloadlen := int enddata - int cur3, pd_payload := cur3\<rparr>))))"

text \<open>The output values are the packet type, the duplicate flag and the packet identifier.\<close>

definition MQTTDeserialize_ack :: "cptr \<Rightarrow> nat \<Rightarrow> int \<times> nat \<times> nat \<times> nat" where
  "MQTTDeserialize_ack buf packetid =
     (case readChar buf 0 of
        (header, cur) \<Rightarrow>
          (case MQTTPacket_decodeBuf buf cur of
             (rc, mylen) \<Rightarrow>
               if mylen < 2 then (int rc, header_type header, header_dup header, packetid)
               else (1, header_type header, header_dup header, fst (readInt buf (cur + rc)))))"

section \<open>Subscribing\<close>

definition MQTTSerialize_subscribeLength :: "MQTTString list \<Rightarrow> nat" where
  "MQTTSerialize_subscribeLength topicFilters = foldl (\<lambda>len t. len + (2 + MQTTstrlen t + 1)) 2 topicFilters"

definition MQTTSerialize_subscribe :: "int \<Rightarrow> nat \<Rightarrow> nat \<Rightarrow> (MQTTString \<times> byte) list \<Rightarrow> int \<times> byte list" where
  "MQTTSerialize_subscribe buflen dup packetid filters =
     (let rem_len = MQTTSerialize_subscribeLength (map fst filters) in
      if int (MQTTPacket_len rem_len) > buflen then (MQTTPACKET_BUFFER_TOO_SHORT, [])
      else
        let out1 = writeInt packetid (writeChar (MQTTHeader SUBSCRIBE dup 1 0) [] @ MQTTPacket_encode rem_len);
            out2 = foldl (\<lambda>out (t, q). writeChar q (writeMQTTString t out)) out1 filters in
        (int (length out2), out2))"

text \<open>The loop over the granted qualities of service: the stored values, and whether the count check stopped it.\<close>

fun suback_loop :: "cptr \<Rightarrow> nat \<Rightarrow> nat \<Rightarrow> nat \<Rightarrow> byte list \<Rightarrow> bool \<times> byte list" where
  "suback_loop buf maxcount 0 cur granted = (True, granted)"
| "suback_loop buf maxcount (Suc n) cur granted =
     (if length granted > maxcount then (False, granted)
      else (case readChar buf cur of (c, cur1) \<Rightarrow> suback_loop buf maxcount n cur1 (granted @ [c])))"

definition MQTTDeserialize_suback :: "cptr \<Rightarrow> nat \<Rightarrow> nat \<times> byte list \<Rightarrow> int \<times> nat \<times> byte list" where
  "MQTTDeserialize_suback buf maxcount vals =
     (case vals of
        (packetid, granted) \<Rightarrow>
          (case readChar buf 0 of
             (header, cur) \<Rightarrow>
               if header_type header \<noteq> SUBACK then (0, packetid, granted)
               else
                 (case MQTTPacket_decodeBuf buf cur of
                    (rc, mylen) \<Rightarrow>
                      if mylen < 2 then (int rc, packetid, granted)
                      else
                        (case readInt buf (cur + rc) of
                           (packetid1, cur1) \<Rightarrow>
                             (case suback_loop buf maxcount (mylen - 2) cur1 [] of
                                (ok, granted1) \<Rightarrow> (if ok then 1 else -1, packetid1, granted1))))))"

definition MQTTSerialize_unsubscribeLength :: "MQTTString list \<Rightarrow> nat" where
  "MQTTSerialize_unsubscribeLength topicFilters = foldl (\<lambda>len t. len + (2 + MQTTstrlen t)) 2 topicFilters"

definition MQTTSerialize_unsubscribe :: "int \<Rightarrow> nat \<Rightarrow> nat \<Rightarrow> MQTTString list \<Rightarrow> int \<times> byte list" where
  "MQTTSerialize_unsubscribe buflen dup packetid topicFilters =
     (let rem_len = MQTTSerialize_unsubscribeLength topicFilters in
      if int (MQTTPacket_len rem_len) > buflen then (MQTTPACKET_BUFFER_TOO_SHORT, [])
      else
        let out1 = writeInt packetid (writeChar (MQTTHeader UNSUBSCRIBE dup 1 0) [] @ MQTTPacket_encode rem_len);
            out2 = foldl (\<lambda>out t. writeMQTTString t out) out1 topicFilters in
        (int (length out2), out2))"

definition MQTTDeserialize_unsuback :: "cptr \<Rightarrow> nat \<Rightarrow> int \<times> nat" where
  "MQTTDeserialize_unsuback buf packetid =
     (case MQTTDeserialize_ack buf packetid of
        (rc, type, dup, packetid1) \<Rightarrow> (if type = UNSUBACK then 1 else rc, packetid1))"

end
