(* ===== verification/MQTTClient.thy ===== *)
theory MQTTClient
  imports MQTTMessages
begin

text \<open>
  The MQTT client of \<^verbatim>\<open>src/extras/paho_mqtt_c/MQTTClient.c\<close> and its port \<^verbatim>\<open>MQTTESP8266.c\<close>. The world \<open>'w\<close> has the
  sockets, the tick counter and whatever the message handlers change. lwIP and the tick counter are the fields
  of \<open>lwip\<close>; the network a client uses is the pair of functions the port installs. A store that goes past the end of the read buffer is a fault. Loops that wait for the
  network or a timer have fuel; \<open>None\<close> is such a fault or a loop that was still running. What uninitialised local variables hold is
  the field \<open>stack\<close>, what lies behind the read buffer \<open>beyond\<close>.
\<close>

section \<open>The port\<close>

record 'w lwip =
  select_read :: "int \<Rightarrow> 'w \<Rightarrow> int \<times> bool \<times> 'w"
  select_write :: "int \<Rightarrow> 'w \<Rightarrow> int \<times> bool \<times> 'w"
  recv :: "nat \<Rightarrow> 'w \<Rightarrow> int \<times> byte list \<times> 'w"
  send :: "byte list \<Rightarrow> 'w \<Rightarrow> int \<times> 'w"
  xTaskGetTickCount :: "'w \<Rightarrow> 32 word \<times> 'w"
  stack :: publish_data
  beyond :: cptr

definition portTICK_RATE_MS :: nat where "portTICK_RATE_MS = 10"

text \<open>A timer is its end time, in ticks.\<close>

type_synonym Timer = "32 word"

definition expired :: "'w lwip \<Rightarrow> Timer \<Rightarrow> 'w \<Rightarrow> bool \<times> 'w" where
  "expired ip timer w = (case xTaskGetTickCount ip w of (now, w1) \<Rightarrow> (sint (timer - now) < 0, w1))"

definition countdown_ms :: "'w lwip \<Rightarrow> nat \<Rightarrow> 'w \<Rightarrow> Timer \<times> 'w" where
  "countdown_ms ip timeout w =
     (case xTaskGetTickCount ip w of (now, w1) \<Rightarrow> (now + of_nat (timeout div portTICK_RATE_MS), w1))"

definition countdown :: "'w lwip \<Rightarrow> nat \<Rightarrow> 'w \<Rightarrow> Timer \<times> 'w" where
  "countdown ip timeout w = countdown_ms ip (u32 (timeout * 1000)) w"

definition left_ms :: "'w lwip \<Rightarrow> Timer \<Rightarrow> 'w \<Rightarrow> int \<times> 'w" where
  "left_ms ip timer w =
     (case xTaskGetTickCount ip w of
        (now, w1) \<Rightarrow> (if sint (timer - now) < 0 then 0 else sint (timer - now) div int portTICK_RATE_MS, w1))"

definition InitTimer :: Timer where "InitTimer = 0"

text \<open>The timeout divided by the tick rate goes into the seconds field. A failing \<^verbatim>\<open>select\<close> gives -1.\<close>

definition mqtt_esp_read :: "'w lwip \<Rightarrow> nat \<Rightarrow> int \<Rightarrow> 'w \<Rightarrow> int \<times> byte list \<times> 'w" where
  "mqtt_esp_read ip len timeout_ms w =
     (case select_read ip (timeout_ms div int portTICK_RATE_MS) w of
        (rc, isset, w1) \<Rightarrow> if rc > 0 \<and> isset then recv ip len w1 else (-1, [], w1))"

definition mqtt_esp_write :: "'w lwip \<Rightarrow> byte list \<Rightarrow> int \<Rightarrow> 'w \<Rightarrow> int \<times> 'w" where
  "mqtt_esp_write ip buffer timeout_ms w =
     (case select_write ip (timeout_ms div int portTICK_RATE_MS) w of
        (rc, isset, w1) \<Rightarrow> if rc > 0 \<and> isset then send ip buffer w1 else (-1, w1))"

section \<open>The client\<close>

definition MAX_PACKET_ID :: nat where "MAX_PACKET_ID = 65535"
definition MAX_MESSAGE_HANDLERS :: nat where "MAX_MESSAGE_HANDLERS = 5"
definition MAX_FAIL_ALLOWED :: nat where "MAX_FAIL_ALLOWED = 2"
definition READ_ERROR :: int where "READ_ERROR = -4"
definition DISCONNECTED :: int where "DISCONNECTED = -3"
definition FAILURE :: int where "FAILURE = -1"
definition SUCCESS :: int where "SUCCESS = 0"
definition PUBREC :: nat where "PUBREC = 5"
definition PINGRESP :: nat where "PINGRESP = 13"

text \<open>A message handed to a handler is the data the packet was taken apart into, with the buffer its payload points into.\<close>

type_synonym 'w messageHandler = "publish_data \<Rightarrow> byte list \<Rightarrow> 'w \<Rightarrow> 'w"

record 'w MQTTClient =
  next_packetid :: nat
  command_timeout_ms :: nat
  buf_size :: nat
  readbuf_size :: nat
  wbuf :: "byte list"
  readbuf :: "byte list"
  ka_interval :: nat
  ping_outstanding :: bool
  fail_count :: nat
  isconnected :: bool
  messageHandlers :: "(byte list option \<times> 'w messageHandler option) list"
  defaultMessageHandler :: "'w messageHandler option"
  ping_timer :: Timer

definition getNextPacketId :: "'w MQTTClient \<Rightarrow> nat \<times> 'w MQTTClient" where
  "getNextPacketId c =
     (let n = (if next_packetid c = MAX_PACKET_ID then 1 else u32 (next_packetid c + 1)) in (n, c\<lparr>next_packetid := n\<rparr>))"

fun send_loop :: "nat \<Rightarrow> 'w lwip \<Rightarrow> byte list \<Rightarrow> nat \<Rightarrow> nat \<Rightarrow> Timer \<Rightarrow> 'w \<Rightarrow> (nat \<times> 'w) option" where
  "send_loop 0 ip buf sent len timer w = None"
| "send_loop (Suc fuel) ip buf sent len timer w =
     (if sent < len then
        (case expired ip timer w of
           (e, w1) \<Rightarrow>
             if e then Some (sent, w1)
             else
               (case left_ms ip timer w1 of
                  (ms, w2) \<Rightarrow>
                    (case mqtt_esp_write ip (take (len - sent) (drop sent buf)) ms w2 of
                       (rc, w3) \<Rightarrow> if rc < 0 then Some (sent, w3) else send_loop fuel ip buf (sent + nat rc) len timer w3)))
      else Some (sent, w))"

definition sendPacket :: "nat \<Rightarrow> 'w lwip \<Rightarrow> 'w MQTTClient \<Rightarrow> nat \<Rightarrow> Timer \<Rightarrow> 'w \<Rightarrow> (int \<times> 'w MQTTClient \<times> 'w) option" where
  "sendPacket fuel ip c len timer w =
     (case send_loop fuel ip (wbuf c) 0 len timer w of
        None \<Rightarrow> None
      | Some (sent, w1) \<Rightarrow>
          if sent = len then (case countdown ip (ka_interval c) w1 of (t, w2) \<Rightarrow> Some (SUCCESS, c\<lparr>ping_timer := t\<rparr>, w2))
          else Some (FAILURE, c, w1))"

text \<open>The timeout is the same for every byte of the remaining length.\<close>

definition decodePacket :: "'w lwip \<Rightarrow> int \<Rightarrow> 'w \<Rightarrow> nat \<times> nat \<times> 'w" where
  "decodePacket ip timeout w =
     MQTTPacket_decode_loop (getchar_of (\<lambda>n. mqtt_esp_read ip n timeout)) 0 1 0 w"

text \<open>Storing bytes into the read buffer; \<open>None\<close> if they do not all lie in it.\<close>

definition store_read :: "nat \<Rightarrow> byte list \<Rightarrow> 'w MQTTClient \<Rightarrow> 'w MQTTClient option" where
  "store_read i bs c = (if i + length bs \<le> length (readbuf c) then Some (c\<lparr>readbuf := patch i bs (readbuf c)\<rparr>) else None)"

definition readPacket :: "'w lwip \<Rightarrow> 'w MQTTClient \<Rightarrow> Timer \<Rightarrow> 'w \<Rightarrow> (int \<times> 'w MQTTClient \<times> 'w) option" where
  "readPacket ip c timer w =
     (case left_ms ip timer w of
        (ms, w1) \<Rightarrow>
          (case mqtt_esp_read ip 1 ms w1 of
             (rc, bs, w2) \<Rightarrow> do {
               c1 \<leftarrow> store_read 0 bs c;
               if rc \<noteq> 1 then Some (FAILURE, c1, w2)
               else
                 (case left_ms ip timer w2 of
                    (ms1, w3) \<Rightarrow>
                      (case decodePacket ip ms1 w3 of
                         (_, rem_len, w4) \<Rightarrow> do {
                           let enc = MQTTPacket_encode rem_len;
                           let len = 1 + length enc;
                           c2 \<leftarrow> store_read 1 enc c1;
                           if rem_len > 0 then
                             (case left_ms ip timer w4 of
                                (ms2, w5) \<Rightarrow>
                                  (case mqtt_esp_read ip rem_len ms2 w5 of
                                     (rc, bs, w6) \<Rightarrow> do {
                                       c3 \<leftarrow> store_read len bs c2;
                                       if rc \<noteq> int rem_len then Some (READ_ERROR, c3, w6)
                                       else Some (int (header_type (readbuf c3 ! 0)), c3, w6)
                                     }))
                           else Some (int (header_type (readbuf c2 ! 0)), c2, w4)
                         }))
             }))"

section \<open>Topics\<close>

text \<open>The inner loop: up to the last character of the level.\<close>

fun skip_level :: "byte list \<Rightarrow> byte list" where
  "skip_level (c # d # cs) = (if d \<noteq> 47 then skip_level (d # cs) else c # d # cs)"
| "skip_level cs = cs"

fun match_loop :: "byte list \<Rightarrow> byte list \<Rightarrow> byte list \<times> byte list" where
  "match_loop (f # fs) (n # ns) =
     (if n = 47 \<and> f \<noteq> 47 then (f # fs, n # ns)
      else if f \<noteq> 43 \<and> f \<noteq> 35 \<and> f \<noteq> n then (f # fs, n # ns)
      else if f = 43 then match_loop fs (tl (skip_level (n # ns)))
      else if f = 35 then match_loop fs []
      else match_loop fs ns)"
| "match_loop fs ns = (fs, ns)"

definition isTopicMatched :: "byte list \<Rightarrow> MQTTString \<Rightarrow> bool" where
  "isTopicMatched topicFilter topicName =
     (case match_loop topicFilter (lenstring_bytes topicName) of (curf, curn) \<Rightarrow> curn = [] \<and> curf = [])"

fun deliver_loop ::
  "(byte list option \<times> 'w messageHandler option) list \<Rightarrow> publish_data \<Rightarrow> byte list \<Rightarrow> bool \<Rightarrow> 'w \<Rightarrow> bool \<times> 'w" where
  "deliver_loop [] msg buf done w = (done, w)"
| "deliver_loop (h # hs) msg buf done w =
     (case h of
        (Some flt, Some fp) \<Rightarrow>
          if MQTTPacket_equals (pd_topicName msg) flt \<or> isTopicMatched flt (pd_topicName msg)
          then deliver_loop hs msg buf True (fp msg buf w) else deliver_loop hs msg buf done w
      | _ \<Rightarrow> deliver_loop hs msg buf done w)"

definition deliverMessage :: "'w MQTTClient \<Rightarrow> publish_data \<Rightarrow> 'w \<Rightarrow> int \<times> 'w" where
  "deliverMessage c msg w =
     (case deliver_loop (messageHandlers c) msg (readbuf c) False w of
        (True, w1) \<Rightarrow> (SUCCESS, w1)
      | (False, w1) \<Rightarrow>
          (case defaultMessageHandler c of
             Some fp \<Rightarrow> (SUCCESS, fp msg (readbuf c) w1)
           | None \<Rightarrow> (FAILURE, w1)))"

section \<open>The session\<close>

text \<open>Serializers write into the client's buffer and return the length.\<close>

definition in_buf :: "'w MQTTClient \<Rightarrow> int \<times> byte list \<Rightarrow> int \<times> 'w MQTTClient" where
  "in_buf c r = (case r of (len, out) \<Rightarrow> (len, c\<lparr>wbuf := overwrite out (wbuf c)\<rparr>))"

definition keepalive :: "nat \<Rightarrow> 'w lwip \<Rightarrow> 'w MQTTClient \<Rightarrow> 'w \<Rightarrow> (int \<times> 'w MQTTClient \<times> 'w) option" where
  "keepalive fuel ip c w =
     (if ka_interval c = 0 then Some (SUCCESS, c, w)
      else
        (case expired ip (ping_timer c) w of
           (e, w1) \<Rightarrow>
             if \<not> e then Some (SUCCESS, c, w1)
             else if ping_outstanding c \<and> fail_count c + 1 \<ge> MAX_FAIL_ALLOWED
             then Some (DISCONNECTED, c\<lparr>fail_count := fail_count c + 1\<rparr>, w1)
             else do {
               (c1, w2) \<leftarrow>
                 (if ping_outstanding c then Some (c\<lparr>fail_count := fail_count c + 1\<rparr>, w1)
                  else
                    (case countdown_ms ip 1000 w1 of
                       (timer, w2) \<Rightarrow>
                         (case in_buf (c\<lparr>ping_outstanding := True\<rparr>) (MQTTSerialize_pingreq (int (buf_size c))) of
                            (len, c1) \<Rightarrow>
                              if len > 0 then
                                map_option (\<lambda>(rc, c2, w3). (c2, w3)) (sendPacket fuel ip c1 (nat len) timer w2)
                              else Some (c1, w2))));
               case countdown ip (ka_interval c1) w2 of (t, w3) \<Rightarrow> Some (SUCCESS, c1\<lparr>ping_timer := t\<rparr>, w3)
             }))"

text \<open>Sending an answer: the result code, with everything that is not success turned into failure.\<close>

definition send_ack :: "nat \<Rightarrow> 'w lwip \<Rightarrow> nat \<Rightarrow> nat \<Rightarrow> 'w MQTTClient \<Rightarrow> Timer \<Rightarrow> 'w \<Rightarrow> (int \<times> 'w MQTTClient \<times> 'w) option" where
  "send_ack fuel ip type packetid c timer w =
     (case in_buf c (MQTTSerialize_ack (int (buf_size c)) type 0 packetid) of
        (len, c1) \<Rightarrow> if len \<le> 0 then Some (FAILURE, c1, w) else sendPacket fuel ip c1 (nat len) timer w)"

definition handle_publish :: "nat \<Rightarrow> 'w lwip \<Rightarrow> 'w MQTTClient \<Rightarrow> Timer \<Rightarrow> 'w \<Rightarrow> (bool \<times> int \<times> 'w MQTTClient \<times> 'w) option" where
  "handle_publish fuel ip c timer w =
     (case MQTTDeserialize_publish (cbuf (readbuf c) (beyond ip)) (stack ip) of
        (r, msg) \<Rightarrow>
          if r \<noteq> 1 then Some (True, SUCCESS, c, w)
          else
            (case deliverMessage c msg w of
               (_, w1) \<Rightarrow>
                 if pd_qos msg = 0 then Some (False, SUCCESS, c, w1)
                 else do {
                   (rc, c1, w2) \<leftarrow>
                     (if pd_qos msg = 1 then send_ack fuel ip PUBACK (pd_packetid msg) c timer w1
                      else if pd_qos msg = 2 then send_ack fuel ip PUBREC (pd_packetid msg) c timer w1
                      else Some (FAILURE, c, w1));
                   Some (rc = FAILURE, rc, c1, w2)
                 }))"

definition handle_pubrec :: "nat \<Rightarrow> 'w lwip \<Rightarrow> 'w MQTTClient \<Rightarrow> Timer \<Rightarrow> 'w \<Rightarrow> (bool \<times> int \<times> 'w MQTTClient \<times> 'w) option" where
  "handle_pubrec fuel ip c timer w =
     (case MQTTDeserialize_ack (cbuf (readbuf c) (beyond ip)) (pd_packetid (stack ip)) of
        (r, type, dup, mypacketid) \<Rightarrow>
          if r \<noteq> 1 then Some (True, FAILURE, c, w)
          else do {
            (rc, c1, w1) \<leftarrow> send_ack fuel ip PUBREL mypacketid c timer w;
            Some (rc \<noteq> SUCCESS, if rc \<noteq> SUCCESS then FAILURE else rc, c1, w1)
          })"

text \<open>The first component of an answer says that the packet handler jumped to the exit.\<close>

definition cycle :: "nat \<Rightarrow> 'w lwip \<Rightarrow> 'w MQTTClient \<Rightarrow> Timer \<Rightarrow> 'w \<Rightarrow> (int \<times> 'w MQTTClient \<times> 'w) option" where
  "cycle fuel ip c timer w =
     do {
          (packet_type, c1, w1) \<leftarrow> readPacket ip c timer w;
          (leave, rc, c2, w2) \<leftarrow>
            (if packet_type = int PUBLISH then handle_publish fuel ip c1 timer w1
             else if packet_type = int PUBREC then handle_pubrec fuel ip c1 timer w1
             else if packet_type = int PINGRESP then Some (False, SUCCESS, c1\<lparr>ping_outstanding := False, fail_count := 0\<rparr>, w1)
             else if packet_type = READ_ERROR then Some (False, DISCONNECTED, c1\<lparr>isconnected := False\<rparr>, w1)
             else Some (False, SUCCESS, c1, w1));
          (rc1, c3, w3) \<leftarrow> (if \<not> leave \<and> isconnected c2 then keepalive fuel ip c2 w2 else Some (rc, c2, w2));
          Some (if rc1 = SUCCESS then packet_type else rc1, c3, w3)
     }"

definition NewMQTTClient :: "nat \<Rightarrow> byte list \<Rightarrow> nat \<Rightarrow> byte list \<Rightarrow> nat \<Rightarrow> 'w MQTTClient \<Rightarrow> 'w MQTTClient" where
  "NewMQTTClient timeout buf bsize rbuf rsize c =
     c\<lparr>messageHandlers := map (\<lambda>h. (None, snd h)) (messageHandlers c),
       command_timeout_ms := timeout, wbuf := buf, buf_size := bsize, readbuf := rbuf, readbuf_size := rsize,
       isconnected := False, ping_outstanding := False, fail_count := 0, defaultMessageHandler := None,
       ping_timer := InitTimer\<rparr>"

fun yield_loop :: "nat \<Rightarrow> 'w lwip \<Rightarrow> Timer \<Rightarrow> int \<Rightarrow> 'w MQTTClient \<Rightarrow> 'w \<Rightarrow> (int \<times> 'w MQTTClient \<times> 'w) option" where
  "yield_loop 0 ip timer rc c w = None"
| "yield_loop (Suc fuel) ip timer rc c w =
     (case expired ip timer w of
        (e, w1) \<Rightarrow>
          if e then Some (rc, c, w1)
          else do {
            (rc1, c1, w2) \<leftarrow> cycle fuel ip c timer w1;
            if rc1 = DISCONNECTED then Some (rc1, c1, w2) else yield_loop fuel ip timer SUCCESS c1 w2
          })"

definition MQTTYield :: "nat \<Rightarrow> 'w lwip \<Rightarrow> 'w MQTTClient \<Rightarrow> nat \<Rightarrow> 'w \<Rightarrow> (int \<times> 'w MQTTClient \<times> 'w) option" where
  "MQTTYield fuel ip c timeout_ms w =
     (case countdown_ms ip timeout_ms w of (timer, w1) \<Rightarrow> yield_loop fuel ip timer SUCCESS c w1)"

fun wait_loop :: "nat \<Rightarrow> 'w lwip \<Rightarrow> nat \<Rightarrow> Timer \<Rightarrow> int \<Rightarrow> 'w MQTTClient \<Rightarrow> 'w \<Rightarrow> (int \<times> 'w MQTTClient \<times> 'w) option" where
  "wait_loop 0 ip packet_type timer rc c w = None"
| "wait_loop (Suc fuel) ip packet_type timer rc c w =
     (case expired ip timer w of
        (e, w1) \<Rightarrow>
          if e then Some (rc, c, w1)
          else do {
            (rc1, c1, w2) \<leftarrow> cycle fuel ip c timer w1;
            if rc1 = int packet_type then Some (rc1, c1, w2) else wait_loop fuel ip packet_type timer rc1 c1 w2
          })"

definition waitfor :: "nat \<Rightarrow> 'w lwip \<Rightarrow> 'w MQTTClient \<Rightarrow> nat \<Rightarrow> Timer \<Rightarrow> 'w \<Rightarrow> (int \<times> 'w MQTTClient \<times> 'w) option" where
  "waitfor fuel ip c packet_type timer w = wait_loop fuel ip packet_type timer FAILURE c w"

section \<open>Commands\<close>

definition MQTTString_initializer :: MQTTString where
  "MQTTString_initializer = \<lparr>cstring = None, lenstring_len = 0, lenstring_data = None\<rparr>"

definition MQTTPacket_connectData_initializer :: MQTTPacket_connectData where
  "MQTTPacket_connectData_initializer =
     \<lparr>MQTTVersion = 4, clientID = MQTTString_initializer, keepAliveInterval = 60, cleansession = 1, willFlag = 0,
      will = \<lparr>will_topicName = MQTTString_initializer, will_message = MQTTString_initializer, will_retained = 0, will_qos = 0\<rparr>,
      username = MQTTString_initializer, password = MQTTString_initializer\<rparr>"

definition MQTTConnect ::
  "nat \<Rightarrow> 'w lwip \<Rightarrow> 'w MQTTClient \<Rightarrow> MQTTPacket_connectData option \<Rightarrow> 'w \<Rightarrow> (int \<times> 'w MQTTClient \<times> 'w) option" where
  "MQTTConnect fuel ip c options w =
     (case countdown_ms ip (command_timeout_ms c) w of
        (connect_timer, w1) \<Rightarrow>
          if isconnected c then Some (FAILURE, c, w1)
          else
            let opts = (case options of Some x \<Rightarrow> x | None \<Rightarrow> MQTTPacket_connectData_initializer);
                c1 = c\<lparr>ka_interval := keepAliveInterval opts\<rparr> in
            (case countdown ip (ka_interval c1) w1 of
               (t, w2) \<Rightarrow>
                 (case in_buf (c1\<lparr>ping_timer := t\<rparr>) (MQTTSerialize_connect (int (buf_size c)) opts) of
                    (len, c2) \<Rightarrow>
                      if len \<le> 0 then Some (FAILURE, c2, w2)
                      else do {
                        (rc, c3, w3) \<leftarrow> sendPacket fuel ip c2 (nat len) connect_timer w2;
                        if rc \<noteq> SUCCESS then Some (rc, c3, w3)
                        else do {
                          (r, c4, w4) \<leftarrow> waitfor fuel ip c3 CONNACK connect_timer w3;
                          let rc1 = (if r = int CONNACK then
                                (case MQTTDeserialize_connack (cbuf (readbuf c4) (beyond ip)) (0, 255) of
                                   (d, _, connack_rc) \<Rightarrow> if d = 1 then int (unat connack_rc) else FAILURE)
                              else FAILURE);
                          Some (rc1, if rc1 = SUCCESS then c4\<lparr>isconnected := True\<rparr> else c4, w4)
                        }
                      })))"

text \<open>The first free slot takes the handler.\<close>

fun add_handler ::
  "byte list \<Rightarrow> 'w messageHandler option \<Rightarrow> (byte list option \<times> 'w messageHandler option) list \<Rightarrow>
     (byte list option \<times> 'w messageHandler option) list option" where
  "add_handler topic fp [] = None"
| "add_handler topic fp (h # hs) =
     (if fst h = None then Some ((Some topic, fp) # hs) else map_option ((#) h) (add_handler topic fp hs))"

definition MQTTSubscribe ::
  "nat \<Rightarrow> 'w lwip \<Rightarrow> 'w MQTTClient \<Rightarrow> byte list \<Rightarrow> nat \<Rightarrow> 'w messageHandler option \<Rightarrow> 'w \<Rightarrow> (int \<times> 'w MQTTClient \<times> 'w) option" where
  "MQTTSubscribe fuel ip c topic qos handler w =
     (case countdown_ms ip (command_timeout_ms c) w of
        (timer, w1) \<Rightarrow>
          if \<not> isconnected c then Some (FAILURE, c, w1)
          else
            (case getNextPacketId c of
               (pid, c1) \<Rightarrow>
                 (case in_buf c1 (MQTTSerialize_subscribe (int (buf_size c1)) 0 pid
                         [(MQTTString_initializer\<lparr>cstring := Some topic\<rparr>, of_nat qos)]) of
                    (len, c2) \<Rightarrow>
                      if len \<le> 0 then Some (FAILURE, c2, w1)
                      else do {
                        (rc, c3, w2) \<leftarrow> sendPacket fuel ip c2 (nat len) timer w1;
                        if rc \<noteq> SUCCESS then Some (rc, c3, w2)
                        else do {
                          (r, c4, w3) \<leftarrow> waitfor fuel ip c3 SUBACK timer w2;
                          if r = int SUBACK then
                            let rc1 = (case MQTTDeserialize_suback (cbuf (readbuf c4) (beyond ip)) 1 (pd_packetid (stack ip), []) of
                                (d, _, granted) \<Rightarrow>
                                  if d = 1 then (case granted of [] \<Rightarrow> -1 | g # _ \<Rightarrow> int (unat g)) else rc) in
                            if rc1 \<noteq> 0x80 then
                              (case add_handler topic handler (messageHandlers c4) of
                                 Some hs \<Rightarrow> Some (0, c4\<lparr>messageHandlers := hs\<rparr>, w3)
                               | None \<Rightarrow> Some (rc1, c4, w3))
                            else Some (rc1, c4, w3)
                          else Some (FAILURE, c4, w3)
                        }
                      })))"

definition MQTTUnsubscribe :: "nat \<Rightarrow> 'w lwip \<Rightarrow> 'w MQTTClient \<Rightarrow> byte list \<Rightarrow> 'w \<Rightarrow> (int \<times> 'w MQTTClient \<times> 'w) option" where
  "MQTTUnsubscribe fuel ip c topicFilter w =
     (case countdown_ms ip (command_timeout_ms c) w of
        (timer, w1) \<Rightarrow>
          if \<not> isconnected c then Some (FAILURE, c, w1)
          else
            (case getNextPacketId c of
               (pid, c1) \<Rightarrow>
                 (case in_buf c1 (MQTTSerialize_unsubscribe (int (buf_size c1)) 0 pid [MQTTString_initializer\<lparr>cstring := Some topicFilter\<rparr>]) of
                    (len, c2) \<Rightarrow>
                      if len \<le> 0 then Some (FAILURE, c2, w1)
                      else do {
                        (rc, c3, w2) \<leftarrow> sendPacket fuel ip c2 (nat len) timer w1;
                        if rc \<noteq> SUCCESS then Some (rc, c3, w2)
                        else do {
                          (r, c4, w3) \<leftarrow> waitfor fuel ip c3 UNSUBACK timer w2;
                          Some (if r = int UNSUBACK
                                then (if fst (MQTTDeserialize_unsuback (cbuf (readbuf c4) (beyond ip)) (pd_packetid (stack ip))) = 1 then 0 else rc)
                                else FAILURE, c4, w3)
                        }
                      })))"

record MQTTMessage =
  msg_qos :: nat
  msg_retained :: nat
  msg_id :: nat
  msg_payload :: "byte list"

text \<open>Waiting for the answer to a published message.\<close>

definition publish_wait :: "nat \<Rightarrow> 'w lwip \<Rightarrow> 'w MQTTClient \<Rightarrow> nat \<Rightarrow> Timer \<Rightarrow> 'w \<Rightarrow> (int \<times> 'w MQTTClient \<times> 'w) option" where
  "publish_wait fuel ip c packet_type timer w =
     do {
       (r, c1, w1) \<leftarrow> waitfor fuel ip c packet_type timer w;
       if r = int packet_type then
         Some (if fst (MQTTDeserialize_ack (cbuf (readbuf c1) (beyond ip)) (pd_packetid (stack ip))) \<noteq> 1 then FAILURE else SUCCESS,
               c1\<lparr>fail_count := 0\<rparr>, w1)
       else Some (FAILURE, c1, w1)
     }"

definition MQTTPublish ::
  "nat \<Rightarrow> 'w lwip \<Rightarrow> 'w MQTTClient \<Rightarrow> byte list \<Rightarrow> MQTTMessage \<Rightarrow> 'w \<Rightarrow> (int \<times> MQTTMessage \<times> 'w MQTTClient \<times> 'w) option" where
  "MQTTPublish fuel ip c topic message w =
     (case countdown_ms ip (command_timeout_ms c) w of
        (timer, w1) \<Rightarrow>
          if \<not> isconnected c then Some (FAILURE, message, c, w1)
          else
            let (message1, c1) = (if msg_qos message = 1 \<or> msg_qos message = 2
                  then (case getNextPacketId c of (pid, c1) \<Rightarrow> (message\<lparr>msg_id := u16 pid\<rparr>, c1)) else (message, c)) in
            (case in_buf c1 (MQTTSerialize_publish (int (buf_size c1)) 0 (int (msg_qos message1)) (msg_retained message1)
                    (msg_id message1) (MQTTString_initializer\<lparr>cstring := Some topic\<rparr>) (msg_payload message1)) of
               (len, c2) \<Rightarrow>
                 if len \<le> 0 then Some (FAILURE, message1, c2, w1)
                 else do {
                   (rc, c3, w2) \<leftarrow> sendPacket fuel ip c2 (nat len) timer w1;
                   if rc \<noteq> SUCCESS then Some (rc, message1, c3, w2)
                   else if msg_qos message1 = 1 then
                     map_option (\<lambda>(r, c4, w3). (r, message1, c4, w3)) (publish_wait fuel ip c3 PUBACK timer w2)
                   else if msg_qos message1 = 2 then
                     map_option (\<lambda>(r, c4, w3). (r, message1, c4, w3)) (publish_wait fuel ip c3 PUBCOMP timer w2)
                   else Some (rc, message1, c3, w2)
                 }))"

definition MQTTDisconnect :: "nat \<Rightarrow> 'w lwip \<Rightarrow> 'w MQTTClient \<Rightarrow> 'w \<Rightarrow> (int \<times> 'w MQTTClient \<times> 'w) option" where
  "MQTTDisconnect fuel ip c w =
     (case in_buf c (MQTTSerialize_disconnect (int (buf_size c))) of
        (len, c1) \<Rightarrow>
          (case countdown_ms ip (command_timeout_ms c1) w of
             (timer, w1) \<Rightarrow> do {
               (rc, c2, w2) \<leftarrow> (if len > 0 then sendPacket fuel ip c1 (nat len) timer w1 else Some (FAILURE, c1, w1));
               Some (rc, c2\<lparr>isconnected := False\<rparr>, w2)
             }))"

end
