(* ===== verification/MQTT_Codec.thy ===== *)
theory MQTT_Codec
  imports MQTTMessages
begin

text \<open>
  The MQTT codec: the remaining length and published messages survive encoding and decoding, no serializer leaves
  its buffer, packets are taken off a transport one at a time, and packets that are too short are accepted. The locale
  \<open>mqtt_stream\<close> is the contract of a blocking transport.
\<close>

section \<open>The remaining length\<close>

lemma low7: "(127 :: byte) = mask 7" by (simp add: mask_eq_exp_minus_1)

lemma digit_byte:
  assumes "x < 128"
  shows "unat (of_nat x AND 127 :: byte) = x" "(of_nat x :: byte) AND 128 = 0"
    "unat ((of_nat x OR 0x80) AND 127 :: byte) = x" "(of_nat x OR 0x80 :: byte) AND 128 \<noteq> 0"
proof -
  have t: "take_bit 7 (of_nat x :: byte) = of_nat x" 
    by (intro unsigned_word_eqI[where ?'a = nat]) (use assms in \<open>simp add: unsigned_take_bit_eq unsigned_of_nat take_bit_nat_eq_self\<close>)
  have b: "\<not> bit (of_nat x :: byte) 7" using t by (metis bit_take_bit_iff less_irrefl)
  have u: "unat (of_nat x :: byte) = x" using assms by (simp add: unsigned_of_nat take_bit_nat_eq_self)
  show "unat (of_nat x AND 127 :: byte) = x" using t u by (simp add: low7 take_bit_eq_mask)
  have "(of_nat x :: byte) AND 2 ^ 7 = 0" using b by (simp only: and_exp_eq_0_iff_not_bit not_False_eq_True)
  then show "(of_nat x :: byte) AND 128 = 0" by simp
  then have "(of_nat x OR 0x80 :: byte) AND 128 = 128" by (simp add: bit.conj_disj_distrib2)
  then show "(of_nat x OR 0x80 :: byte) AND 128 \<noteq> 0" by simp
  have "(of_nat x OR 0x80) AND 127 = (of_nat x AND 127 :: byte)" by (simp add: bit.conj_disj_distrib2)
  then show "unat ((of_nat x OR 0x80) AND 127 :: byte) = x" using t u by (simp add: low7 take_bit_eq_mask)
qed

text \<open>A source of characters that delivers \<open>bs\<close>, going from \<open>s\<close> to \<open>s'\<close>.\<close>

fun feeds :: "('s \<Rightarrow> int \<times> byte \<times> 's) \<Rightarrow> 's \<Rightarrow> byte list \<Rightarrow> 's \<Rightarrow> bool" where
  "feeds get s [] s' \<longleftrightarrow> s = s'"
| "feeds get s (b # bs) s' \<longleftrightarrow> (\<exists>s1. get s = (1, b, s1) \<and> feeds get s1 bs s')"

lemma encode_nonempty: "0 < length (MQTTPacket_encode n)"
  by (subst MQTTPacket_encode.simps) simp

lemma decode_loop_encode:
  assumes "feeds get s (MQTTPacket_encode n) s'" and "len + length (MQTTPacket_encode n) \<le> 4"
  shows "MQTTPacket_decode_loop get len mult v s = (len + length (MQTTPacket_encode n), v + n * mult, s')"
  using assms
proof (induction n arbitrary: s len mult v rule: MQTTPacket_encode.induct)
  case (1 n)
  note d = digit_byte[of "n mod 128", simplified]
  show ?case
  proof (cases "0 < n div 128")
    case True
    then have e: "MQTTPacket_encode n = (of_nat (n mod 128) OR 0x80) # MQTTPacket_encode (n div 128)"
      by (subst MQTTPacket_encode.simps) simp
    obtain s1 where s1: "get s = (1, of_nat (n mod 128) OR 0x80, s1)" "feeds get s1 (MQTTPacket_encode (n div 128)) s'"
      using "1.prems"(1) unfolding e by auto
    have "MQTTPacket_decode_loop get (len + 1) (mult * 128) (v + n mod 128 * mult) s1 =
        (len + 1 + length (MQTTPacket_encode (n div 128)), v + n mod 128 * mult + n div 128 * (mult * 128), s')"
      using "1.IH"[OF True s1(2)] "1.prems"(2) e by simp
    moreover have "n mod 128 * mult + n div 128 * (mult * 128) = n * mult"
    proof -
      have "n mod 128 * mult + n div 128 * (mult * 128) = (n mod 128 + n div 128 * 128) * mult" by (simp only: algebra_simps)
      then show ?thesis by (simp only: mod_div_mult_eq)
    qed
    moreover have "MQTTPacket_decode_loop get len mult v s = MQTTPacket_decode_loop get (len + 1) (mult * 128) (v + n mod 128 * mult) s1"
      using "1.prems"(2) e encode_nonempty[of "n div 128"] s1(1) d
      by (subst MQTTPacket_decode_loop.simps) (simp add: MAX_NO_OF_REMAINING_LENGTH_BYTES_def)
    ultimately show ?thesis by (simp add: e add.assoc)
  next
    case False
    then have n: "n mod 128 = n" by (metis div_mult_mod_eq add_0 mult_0 not_gr_zero)
    then have e: "MQTTPacket_encode n = [of_nat n]" using False by (subst MQTTPacket_encode.simps) simp
    show ?thesis using "1.prems" d n unfolding e
      by (subst MQTTPacket_decode_loop.simps) (auto simp: MAX_NO_OF_REMAINING_LENGTH_BYTES_def)
  qed
qed

lemma encode_length:
  "n < 268435456 \<Longrightarrow> length (MQTTPacket_encode n) =
     (if n < 128 then 1 else if n < 16384 then 2 else if n < 2097152 then 3 else 4)"
proof -
  assume n: "n < 268435456"
  have s: "length (MQTTPacket_encode m) = (if m < 128 then 1 else 1 + length (MQTTPacket_encode (m div 128)))" for m
    by (subst MQTTPacket_encode.simps) (auto simp: div_eq_0_iff)
  have d: "n div 128 div 128 = n div 16384" "n div 16384 div 128 = n div 2097152" by (simp_all flip: div_mult2_eq)
  show ?thesis
    using n d by (simp add: s[of n] s[of "n div 128"] s[of "n div 16384"] s[of "n div 2097152"] div_less_iff_less_mult)
qed

lemma decode_encode:
  assumes "feeds get s (MQTTPacket_encode n) s'" and "n < 268435456"
  shows "MQTTPacket_decode get s = (length (MQTTPacket_encode n), n, s')"
  using decode_loop_encode[OF assms(1), of 0 1 0] encode_length[OF assms(2)] by (auto simp: MQTTPacket_decode_def split: if_splits)

text \<open>The bytes of a buffer from a position on.\<close>

definition holds_at :: "cptr \<Rightarrow> nat \<Rightarrow> byte list \<Rightarrow> bool" where
  "holds_at buf pos bs \<longleftrightarrow> (\<forall>i < length bs. buf (pos + i) = bs ! i)"

lemma holds_at_Nil [simp]: "holds_at buf pos []"
  by (simp add: holds_at_def)

lemma holds_at_Cons [simp]: "holds_at buf pos (b # bs) \<longleftrightarrow> buf pos = b \<and> holds_at buf (pos + 1) bs"
  by (simp add: holds_at_def All_less_Suc2)

lemma holds_at_append [simp]: "holds_at buf pos (xs @ ys) \<longleftrightarrow> holds_at buf pos xs \<and> holds_at buf (pos + length xs) ys"
  by (induction xs arbitrary: pos) auto

lemma holds_at_cbuf: "holds_at (cbuf xs junk) 0 xs"
  by (simp add: holds_at_def)

lemma holds_at_map: "holds_at buf pos bs \<Longrightarrow> map (\<lambda>i. buf (pos + i)) [0..<length bs] = bs"
  by (rule nth_equalityI) (simp_all add: holds_at_def)

lemma bufchar_feeds: "holds_at buf pos bs \<Longrightarrow> feeds (bufchar buf) pos bs (pos + length bs)"
proof (induction bs arbitrary: pos)
  case (Cons b bs)
  from Cons.IH[of "pos + 1"] Cons.prems show ?case by (simp add: bufchar_def)
qed simp

lemma decodeBuf_encode:
  assumes "holds_at buf pos (MQTTPacket_encode n)" and "n < 268435456"
  shows "MQTTPacket_decodeBuf buf pos = (length (MQTTPacket_encode n), n)"
  using decode_encode[OF bufchar_feeds[OF assms(1)] assms(2)] by (simp add: MQTTPacket_decodeBuf_def)

lemma packet_len_bound:
  "n < 268435456 \<Longrightarrow> 1 + length (MQTTPacket_encode n) + n \<le> MQTTPacket_len n
     \<and> MQTTPacket_len n \<le> 2 + length (MQTTPacket_encode n) + n"
  by (simp add: encode_length MQTTPacket_len_def Let_def)

text \<open>The remaining length of a packet survives encoding. For every length MQTT allows, the encoder writes one to
  four bytes, the decoder reads exactly these bytes back as the length, whatever follows them, and
  \<open>MQTTPacket_len\<close> is the size of the whole packet or one more.\<close>

theorem remaining_length_roundtrip:
  assumes "n \<le> 268435455"
  shows "MQTTPacket_decodeBuf (cbuf (MQTTPacket_encode n @ rest) junk) 0 = (length (MQTTPacket_encode n), n)
    \<and> 1 \<le> length (MQTTPacket_encode n) \<and> length (MQTTPacket_encode n) \<le> 4
    \<and> MQTTPacket_len n \<in> {1 + length (MQTTPacket_encode n) + n, 2 + length (MQTTPacket_encode n) + n}"
proof -
  have n: "n < 268435456" using assms by simp
  have "holds_at (cbuf (MQTTPacket_encode n @ rest) junk) 0 (MQTTPacket_encode n)"
    using holds_at_cbuf[of "MQTTPacket_encode n @ rest" junk] by simp
  from decodeBuf_encode[OF this n] show ?thesis using packet_len_bound[OF n] encode_length[OF n] by auto
qed

theorem remaining_length_roundtrip_witness:
  "MQTTPacket_decodeBuf (cbuf (MQTTPacket_encode 321 @ [7]) (\<lambda>_. 0)) 0 = (2, 321) \<and> MQTTPacket_len 321 = 324"
proof -
  have "MQTTPacket_encode 321 = [193, 2]" by (simp add: MQTTPacket_encode.simps[of 321] MQTTPacket_encode.simps[of 2])
  then show ?thesis using remaining_length_roundtrip[of 321 "[7]" "\<lambda>_. 0"] by (simp add: MQTTPacket_len_def)
qed

section \<open>Strings and headers\<close>

text \<open>The bytes of a string as written, and a string whose length is well defined.\<close>

definition str_bytes :: "MQTTString \<Rightarrow> byte list" where
  "str_bytes s = (if lenstring_len s > 0 then lenstring_bytes s else case cstring s of Some str \<Rightarrow> str | None \<Rightarrow> [])"

definition str_ok :: "MQTTString \<Rightarrow> bool" where
  "str_ok s \<longleftrightarrow> (cstring s = None \<or> lenstring_len s = 0) \<and> length (str_bytes s) < 65536"

definition str_wire :: "byte list \<Rightarrow> byte list" where
  "str_wire bs = [of_nat (length bs div 256), of_nat (length bs mod 256)] @ bs"

lemma lenstring_bytes_length [simp]: "length (lenstring_bytes s) = lenstring_len s"
  by (simp add: lenstring_bytes_def split: option.splits)

lemma write_string: "writeMQTTString s out = out @ str_wire (str_bytes s)"
  by (auto simp: writeMQTTString_def writeInt_def writeCString_def str_bytes_def str_wire_def split: option.splits)

lemma strlen_bytes: "str_ok s \<Longrightarrow> MQTTstrlen s = length (str_bytes s)"
  by (auto simp: MQTTstrlen_def str_bytes_def str_ok_def split: option.splits)

lemma str_wire_length [simp]: "length (str_wire bs) = 2 + length bs"
  by (simp add: str_wire_def)

lemma readInt_at:
  assumes "v < 65536" and "holds_at buf p [of_nat (v div 256), of_nat (v mod 256)]"
  shows "readInt buf p = (v, p + 2)"
proof -
  have "unat (of_nat (v div 256) :: byte) = v div 256" "unat (of_nat (v mod 256) :: byte) = v mod 256"
    using assms(1) by (simp_all add: unsigned_of_nat take_bit_eq_mod div_less_iff_less_mult)
  then show ?thesis using assms(2) by (simp add: readInt_def)
qed

lemma read_string:
  assumes "holds_at buf p (str_wire bs)" and "length bs < 65536" and "p + 2 + length bs \<le> e"
  shows "\<exists>s'. readMQTTLenString buf s p e = (True, s', p + 2 + length bs) \<and> cstring s' = None \<and> lenstring_bytes s' = bs
    \<and> lenstring_len s' = length bs"
proof -
  have r: "readInt buf p = (length bs, p + 2)" using readInt_at[OF assms(2), of buf p] assms(1) by (simp add: str_wire_def)
  have b: "map (\<lambda>i. buf (p + 2 + i)) [0..<length bs] = bs"
    using holds_at_map[of buf "p + 2" bs] assms(1) by (simp add: str_wire_def)
  show ?thesis using assms(3) b by (simp add: readMQTTLenString_def r Let_def lenstring_bytes_def)
qed

lemma header_fields:
  assumes "type < 16" and "dup < 2" and "0 \<le> qos" and "qos < 4" and "retain < 2"
  shows "header_type (MQTTHeader type dup qos retain) = type" "header_dup (MQTTHeader type dup qos retain) = dup"
    "header_qos (MQTTHeader type dup qos retain) = nat qos" "header_retain (MQTTHeader type dup qos retain) = retain"
proof -
  define q where "q = nat qos"
  have q: "q < 4" "nat (qos mod 4) = q" using assms(3,4) by (simp_all add: q_def)
  define v where "v = retain + 2 * q + 8 * dup + 16 * type"
  have "v < 256" using assms q by (simp add: v_def)
  then have "unat (of_nat v :: byte) = v" by (simp add: unsigned_of_nat take_bit_nat_eq_self)
  moreover have "MQTTHeader type dup qos retain = of_nat v"
    using assms q unfolding MQTTHeader_def v_def by (simp only: mod_less)
  ultimately have u: "unat (MQTTHeader type dup qos retain) = v" by simp
  have "v = type * 16 + (retain + 2 * q + 8 * dup)" "v = (type * 2 + dup) * 8 + (retain + 2 * q)"
    "v = ((type * 2 + dup) * 4 + q) * 2 + retain" by (simp_all add: v_def)
  then have "v div 16 = type" "v div 8 = type * 2 + dup" "v div 2 = (type * 2 + dup) * 4 + q" "v mod 2 = retain"
    using assms q div_small[of "retain + 2 * q + 8 * dup" 16 type] div_small[of "retain + 2 * q" 8 "type * 2 + dup"]
      div_small[of retain 2 "(type * 2 + dup) * 4 + q"] by simp_all
  then have "v div 16 = type" "v div 8 mod 2 = dup" "v div 2 mod 4 = q" "v mod 2 = retain"
    using assms q div_small(2)[of dup 2 type] div_small(2)[of q 4 "type * 2 + dup"] by simp_all
  then show "header_type (MQTTHeader type dup qos retain) = type" "header_dup (MQTTHeader type dup qos retain) = dup"
    "header_qos (MQTTHeader type dup qos retain) = nat qos" "header_retain (MQTTHeader type dup qos retain) = retain"
    by (simp_all add: header_type_def header_dup_def header_qos_def header_retain_def u q_def)
qed

section \<open>Messages\<close>

text \<open>The body of a packet behind its fixed header.\<close>

definition packet :: "byte \<Rightarrow> byte list \<Rightarrow> byte list" where
  "packet header body = [header] @ MQTTPacket_encode (length body) @ body"

definition publish_body :: "int \<Rightarrow> nat \<Rightarrow> MQTTString \<Rightarrow> byte list \<Rightarrow> byte list" where
  "publish_body qos packetid topic payload =
     str_wire (str_bytes topic) @ (if qos > 0 then [of_nat (packetid div 256), of_nat (packetid mod 256)] else []) @ payload"

lemma serialize_publish:
  assumes "str_ok topic"
  shows "MQTTSerialize_publish buflen dup qos retained packetid topic payload =
     (let body = publish_body qos packetid topic payload; p = packet (MQTTHeader PUBLISH dup qos retained) body in
      if int (MQTTPacket_len (length body)) > buflen then (MQTTPACKET_BUFFER_TOO_SHORT, []) else (int (length p), p))"
proof -
  have "MQTTSerialize_publishLength qos topic (length payload) = length (publish_body qos packetid topic payload)"
    using strlen_bytes[OF assms] by (simp add: MQTTSerialize_publishLength_def publish_body_def)
  then show ?thesis
    by (simp add: MQTTSerialize_publish_def Let_def packet_def publish_body_def write_string writeChar_def writeInt_def)
qed

lemma packet_fits:
  assumes "length body < 268435456" and "int (MQTTPacket_len (length body)) \<le> buflen"
  shows "int (length (packet header body)) \<le> buflen"
proof -
  have "length (packet header body) \<le> MQTTPacket_len (length body)"
    using packet_len_bound[OF assms(1)] by (simp add: packet_def)
  then show ?thesis using assms(2) by linarith
qed

lemma packet_at:
  assumes "holds_at buf 0 (packet header body)" and "length body < 268435456"
  shows "buf 0 = header" "MQTTPacket_decodeBuf buf 1 = (length (MQTTPacket_encode (length body)), length body)"
    "holds_at buf (1 + length (MQTTPacket_encode (length body))) body"
  using assms decodeBuf_encode[of buf 1 "length body"] by (simp_all add: packet_def)

lemma publish_at:
  assumes "holds_at buf 0 (packet (MQTTHeader PUBLISH dup qos retained) (publish_body qos packetid topic payload))"
    and "str_ok topic" and "dup < 2" and "0 \<le> qos" and "qos < 4" and "retained < 2" and "packetid < 65536"
    and "length (publish_body qos packetid topic payload) < 268435456"
  shows "\<exists>p'. MQTTDeserialize_publish buf p = (1, p')
    \<and> pd_dup p' = dup \<and> pd_qos p' = nat qos \<and> pd_retained p' = retained
    \<and> pd_packetid p' = (if qos > 0 then packetid else pd_packetid p)
    \<and> cstring (pd_topicName p') = None \<and> lenstring_bytes (pd_topicName p') = str_bytes topic
    \<and> pd_payloadlen p' = int (length payload)
    \<and> map (\<lambda>i. buf (pd_payload p' + i)) [0..<length payload] = payload"
proof -
  define body where "body = publish_body qos packetid topic payload"
  define t where "t = str_bytes topic"
  define c where "c = 1 + length (MQTTPacket_encode (length body))"
  note h = packet_at[of buf "MQTTHeader PUBLISH dup qos retained" body]
  have at: "buf 0 = MQTTHeader PUBLISH dup qos retained" "MQTTPacket_decodeBuf buf 1 = (c - 1, length body)" "holds_at buf c body"
    using h assms(1,8) by (simp_all add: body_def c_def)
  have hf: "header_type (buf 0) = PUBLISH" "header_dup (buf 0) = dup" "header_qos (buf 0) = nat qos" "header_retain (buf 0) = retained"
    using header_fields[of PUBLISH dup qos retained] assms unfolding at(1) by (simp_all add: PUBLISH_def)
  have b: "body = str_wire t @ (if qos > 0 then [of_nat (packetid div 256), of_nat (packetid mod 256)] else []) @ payload"
    by (simp add: body_def publish_body_def t_def)
  have hb: "holds_at buf c (str_wire t)" "qos > 0 \<Longrightarrow> holds_at buf (c + 2 + length t) [of_nat (packetid div 256), of_nat (packetid mod 256)]"
    "holds_at buf (c + 2 + length t + (if qos > 0 then 2 else 0)) payload"
    using at(3) unfolding b by (auto simp: add.assoc split: if_splits)
  have lb: "length body = 2 + length t + (if qos > 0 then 2 else 0) + length payload" by (simp add: b)
  obtain s' where s': "readMQTTLenString buf (pd_topicName p) c (c + length body) = (True, s', c + 2 + length t)" "cstring s' = None"
      "lenstring_bytes s' = t"
    using read_string[OF hb(1), of "c + length body" "pd_topicName p"] assms(2) lb by (auto simp: str_ok_def t_def)
  have ri: "qos > 0 \<Longrightarrow> readInt buf (c + 2 + length t) = (packetid, c + 2 + length t + 2)"
    using readInt_at[OF assms(7) hb(2)] by simp
  have c1: "Suc (c - Suc 0) = c" by (simp add: c_def)
  let ?e = "c + 2 + length t + (if qos > 0 then 2 else 0)"
  have "\<exists>p'. MQTTDeserialize_publish buf p = (1, p') \<and> pd_dup p' = dup \<and> pd_qos p' = nat qos \<and> pd_retained p' = retained
    \<and> pd_packetid p' = (if qos > 0 then packetid else pd_packetid p) \<and> pd_topicName p' = s' \<and> pd_payload p' = ?e
    \<and> pd_payloadlen p' = int (length payload)"
    using at(2) hf s'(1) ri lb assms(4) c1
    by (cases "qos > 0") (simp_all add: MQTTDeserialize_publish_def readChar_def Let_def)
  then show ?thesis using s'(2,3) holds_at_map[OF hb(3)] unfolding t_def by fastforce
qed

text \<open>A published message arrives as it was sent. For every topic and payload that fit, \<open>MQTTSerialize_publish\<close>
  followed by \<open>MQTTDeserialize_publish\<close> on the bytes written, whatever follows them in the buffer, succeeds and gives back
  the flags, the topic, the payload, and for a positive quality of service the packet identifier.\<close>

theorem publish_roundtrip:
  assumes "str_ok topic" and "dup < 2" and "0 \<le> qos" and "qos < 4" and "retained < 2" and "packetid < 65536"
    and "length (publish_body qos packetid topic payload) < 268435456"
    and "int (MQTTPacket_len (length (publish_body qos packetid topic payload))) \<le> buflen"
  shows "\<exists>out p'. MQTTSerialize_publish buflen dup qos retained packetid topic payload = (int (length out), out)
    \<and> MQTTDeserialize_publish (cbuf out junk) p = (1, p')
    \<and> pd_dup p' = dup \<and> pd_qos p' = nat qos \<and> pd_retained p' = retained
    \<and> pd_packetid p' = (if qos > 0 then packetid else pd_packetid p)
    \<and> cstring (pd_topicName p') = None \<and> lenstring_bytes (pd_topicName p') = str_bytes topic
    \<and> pd_payloadlen p' = int (length payload)
    \<and> map (\<lambda>i. cbuf out junk (pd_payload p' + i)) [0..<length payload] = payload"
proof -
  define out where "out = packet (MQTTHeader PUBLISH dup qos retained) (publish_body qos packetid topic payload)"
  have "MQTTSerialize_publish buflen dup qos retained packetid topic payload = (int (length out), out)"
    using assms(8) unfolding serialize_publish[OF assms(1)] by (simp add: out_def Let_def)
  then show ?thesis
    using publish_at[OF holds_at_cbuf[of out junk, unfolded out_def] assms(1-7), of p] unfolding out_def by blast
qed

definition sample_topic :: MQTTString where
  "sample_topic = \<lparr>cstring = Some [97, 47, 98], lenstring_len = 0, lenstring_data = None\<rparr>"

definition sample_data :: publish_data where
  "sample_data = \<lparr>pd_dup = 9, pd_qos = 9, pd_retained = 9, pd_packetid = 9, pd_topicName = sample_topic, pd_payload = 0, pd_payloadlen = 0\<rparr>"

theorem publish_roundtrip_witness:
  "\<exists>out p'. MQTTSerialize_publish 64 0 1 1 1000 sample_topic [1, 2, 3] = (int (length out), out)
    \<and> MQTTDeserialize_publish (cbuf out (\<lambda>_. 0)) sample_data = (1, p') \<and> pd_qos p' = 1 \<and> pd_packetid p' = 1000
    \<and> lenstring_bytes (pd_topicName p') = [97, 47, 98] \<and> pd_payloadlen p' = 3"
proof -
  have t: "str_ok sample_topic" "str_bytes sample_topic = [97, 47, 98]"
    by (simp_all add: str_ok_def str_bytes_def sample_topic_def)
  have l: "length (publish_body 1 1000 sample_topic [1, 2, 3]) = 10" by (simp add: publish_body_def t)
  show ?thesis
    using publish_roundtrip[OF t(1), of 0 1 1 1000 "[1, 2, 3]" 64 "\<lambda>_. 0" sample_data]
    unfolding l t(2) by (auto simp: MQTTPacket_len_def)
qed

section \<open>No serializer leaves its buffer\<close>

definition in_bounds :: "int \<Rightarrow> int \<times> byte list \<Rightarrow> bool" where
  "in_bounds buflen r \<longleftrightarrow> r = (MQTTPACKET_BUFFER_TOO_SHORT, []) \<or> fst r = int (length (snd r)) \<and> fst r \<le> buflen"

definition connect_strings_ok :: "MQTTPacket_connectData \<Rightarrow> bool" where
  "connect_strings_ok c \<longleftrightarrow> str_ok (clientID c) \<and> str_ok (will_topicName (will c)) \<and> str_ok (will_message (will c))
     \<and> str_ok (username c) \<and> str_ok (password c)"

lemma connect_body_length:
  assumes "connect_strings_ok c" and "MQTTVersion c \<in> {3, 4}"
  shows "length (connect_body c out) = length out + MQTTSerialize_connectLength c"
  using assms strlen_bytes
  by (auto simp: connect_body_def connect_strings_ok_def MQTTSerialize_connectLength_def Let_def write_string
      writeChar_def writeInt_def writeCString_def)

lemma subscribe_out:
  "\<forall>(t, q) \<in> set filters. str_ok t \<Longrightarrow>
     length (foldl (\<lambda>out (t, q). writeChar q (writeMQTTString t out)) out filters) + n =
       length out + foldl (\<lambda>len t. len + (2 + MQTTstrlen t + 1)) n (map fst filters)"
proof (induction filters arbitrary: out n)
  case (Cons f fs)
  obtain t q where f: "f = (t, q)" by fastforce
  have "str_ok t" "\<forall>(t, q) \<in> set fs. str_ok t" using Cons.prems f by auto
  then show ?case
    using Cons.IH[of "writeChar q (writeMQTTString t out)" "n + (2 + MQTTstrlen t + 1)"] strlen_bytes[of t]
    by (simp add: f write_string writeChar_def)
qed simp

lemma unsubscribe_out:
  "\<forall>t \<in> set filters. str_ok t \<Longrightarrow>
     length (foldl (\<lambda>out t. writeMQTTString t out) out filters) + n =
       length out + foldl (\<lambda>len t. len + (2 + MQTTstrlen t)) n filters"
proof (induction filters arbitrary: out n)
  case (Cons t fs)
  have "str_ok t" "\<forall>t \<in> set fs. str_ok t" using Cons.prems by auto
  then show ?case
    using Cons.IH[of "writeMQTTString t out" "n + (2 + MQTTstrlen t)"] strlen_bytes[of t] by (simp add: write_string)
qed simp

lemma fits_len:
  assumes "n < 268435456" and "int (MQTTPacket_len n) \<le> buflen" and "length out = 1 + length (MQTTPacket_encode n) + n"
  shows "in_bounds buflen (int (length out), out)"
  using packet_len_bound[OF assms(1)] assms(2,3) by (auto simp: in_bounds_def)

text \<open>C31: For well-formed input the serializers stay within their buffers. Let every string be given one way (not both as a C string and with a
  length) and be shorter than 64 KiB, let the message be within the limit of 268435455 bytes, and let a connect message have the protocol version
  3 or 4. Then each of the six serializers either refuses with the buffer-too-short code having written nothing, or returns the number of bytes it
  wrote, which is at most the buffer length. Outside these conditions they are not bounded by the buffer: a connect message of another version has
  twelve bytes more than the check counts, and a string given both ways is written with another length than the one that was checked.\<close>

theorem serialize_in_bounds:
  assumes "str_ok topic" and "MQTTSerialize_publishLength qos topic (length payload) < 268435456"
    and "connect_strings_ok c" and "MQTTVersion c \<in> {3, 4}" and "MQTTSerialize_connectLength c < 268435456"
    and "\<forall>(t, q) \<in> set filters. str_ok t" and "MQTTSerialize_subscribeLength (map fst filters) < 268435456"
  shows "in_bounds buflen (MQTTSerialize_publish buflen dup qos retained packetid topic payload)
    \<and> in_bounds buflen (MQTTSerialize_connect buflen c)
    \<and> in_bounds buflen (MQTTSerialize_subscribe buflen dup packetid filters)
    \<and> in_bounds buflen (MQTTSerialize_unsubscribe buflen dup packetid (map fst filters))
    \<and> in_bounds buflen (MQTTSerialize_ack buflen packettype dup packetid)
    \<and> in_bounds buflen (MQTTSerialize_zero buflen packettype)"
proof (intro conjI)
  have one: "length (MQTTPacket_encode 0) = 1" "length (MQTTPacket_encode 2) = 1" by (simp_all add: encode_length)
  show "in_bounds buflen (MQTTSerialize_publish buflen dup qos retained packetid topic payload)"
  proof -
    let ?n = "MQTTSerialize_publishLength qos topic (length payload)"
    have "length (publish_body qos packetid topic payload) = ?n"
      using strlen_bytes[OF assms(1)] by (simp add: MQTTSerialize_publishLength_def publish_body_def)
    then show ?thesis
      unfolding serialize_publish[OF assms(1)] Let_def using assms(2)
      by (auto simp: packet_def in_bounds_def dest!: packet_len_bound)
  qed
  show "in_bounds buflen (MQTTSerialize_connect buflen c)"
    using fits_len[OF assms(5), of buflen "connect_body c (writeChar (MQTTHeader CONNECT 0 0 0) [] @ MQTTPacket_encode (MQTTSerialize_connectLength c))"]
      connect_body_length[OF assms(3,4)]
    by (auto simp: MQTTSerialize_connect_def Let_def writeChar_def in_bounds_def)
  show "in_bounds buflen (MQTTSerialize_subscribe buflen dup packetid filters)"
  proof (cases "int (MQTTPacket_len (MQTTSerialize_subscribeLength (map fst filters))) > buflen")
    case False
    let ?out = "writeInt packetid (writeChar (MQTTHeader SUBSCRIBE dup 1 0) [] @ MQTTPacket_encode (MQTTSerialize_subscribeLength (map fst filters)))"
    have "length (foldl (\<lambda>out (t, q). writeChar q (writeMQTTString t out)) ?out filters) + 2 =
        length ?out + MQTTSerialize_subscribeLength (map fst filters)"
      using subscribe_out[OF assms(6), of ?out 2] by (simp add: MQTTSerialize_subscribeLength_def)
    then show ?thesis using fits_len[OF assms(7), of buflen "foldl (\<lambda>out (t, q). writeChar q (writeMQTTString t out)) ?out filters"] False
      by (simp add: MQTTSerialize_subscribe_def Let_def writeInt_def writeChar_def)
  qed (simp add: MQTTSerialize_subscribe_def in_bounds_def)
  show "in_bounds buflen (MQTTSerialize_unsubscribe buflen dup packetid (map fst filters))"
  proof (cases "int (MQTTPacket_len (MQTTSerialize_unsubscribeLength (map fst filters))) > buflen")
    case False
    let ?n = "MQTTSerialize_unsubscribeLength (map fst filters)"
    let ?out = "writeInt packetid (writeChar (MQTTHeader UNSUBSCRIBE dup 1 0) [] @ MQTTPacket_encode ?n)"
    have ok: "\<forall>t \<in> set (map fst filters). str_ok t" using assms(6) by auto
    have "foldl (\<lambda>len t. len + (2 + MQTTstrlen t)) k ts \<le> foldl (\<lambda>len t. len + (2 + MQTTstrlen t + 1)) k' ts" if "k \<le> k'" for k k' ts
      using that by (induction ts arbitrary: k k') auto
    then have "?n < 268435456" using assms(7) by (auto simp: MQTTSerialize_unsubscribeLength_def MQTTSerialize_subscribeLength_def intro: le_less_trans)
    moreover have "length (foldl (\<lambda>out t. writeMQTTString t out) ?out (map fst filters)) + 2 = length ?out + ?n"
      using unsubscribe_out[OF ok, of ?out 2] by (simp add: MQTTSerialize_unsubscribeLength_def)
    ultimately show ?thesis using fits_len[of ?n buflen "foldl (\<lambda>out t. writeMQTTString t out) ?out (map fst filters)"] False
      by (simp add: MQTTSerialize_unsubscribe_def Let_def writeInt_def writeChar_def)
  qed (simp add: MQTTSerialize_unsubscribe_def in_bounds_def)
  show "in_bounds buflen (MQTTSerialize_ack buflen packettype dup packetid)" "in_bounds buflen (MQTTSerialize_zero buflen packettype)"
    by (auto simp: MQTTSerialize_ack_def MQTTSerialize_zero_def Let_def in_bounds_def writeInt_def writeChar_def one)
qed

definition sample_connect :: MQTTPacket_connectData where
  "sample_connect = \<lparr>MQTTVersion = 4, clientID = sample_topic, keepAliveInterval = 60, cleansession = 1, willFlag = 1,
     will = \<lparr>will_topicName = sample_topic, will_message = sample_topic, will_retained = 0, will_qos = 1\<rparr>,
     username = \<lparr>cstring = None, lenstring_len = 0, lenstring_data = None\<rparr>, password = sample_topic\<rparr>"

theorem serialize_in_bounds_witness:
  "in_bounds 40 (MQTTSerialize_publish 40 0 1 0 7 sample_topic [1]) \<and> in_bounds 40 (MQTTSerialize_connect 40 sample_connect)
    \<and> in_bounds 40 (MQTTSerialize_subscribe 40 0 7 [(sample_topic, 1), (sample_topic, 0)])
    \<and> in_bounds 40 (MQTTSerialize_unsubscribe 40 0 7 [sample_topic, sample_topic])"
proof -
  have t: "str_ok sample_topic" "MQTTstrlen sample_topic = 3"
    by (simp_all add: str_ok_def str_bytes_def sample_topic_def MQTTstrlen_def)
  have c: "connect_strings_ok sample_connect" "MQTTVersion sample_connect \<in> {3, 4}" "MQTTSerialize_connectLength sample_connect < 268435456"
    using t by (simp_all add: connect_strings_ok_def sample_connect_def MQTTSerialize_connectLength_def str_ok_def str_bytes_def string_set_def)
  show ?thesis
    using serialize_in_bounds[OF t(1) _ c, of 1 "[1]" "[(sample_topic, 1), (sample_topic, 0)]" 40 0 0 7 4] t
    by (simp add: MQTTSerialize_publishLength_def MQTTSerialize_subscribeLength_def)
qed

text \<open>For any other protocol version the announced length misses the twelve bytes of the protocol name, version,
  flags and keep-alive interval: the buffer check passes for a buffer twelve bytes too short.\<close>

lemma connect_other_version:
  assumes "connect_strings_ok c" and "MQTTVersion c \<notin> {3, 4}"
  shows "length (connect_body c out) = length out + MQTTSerialize_connectLength c + 12"
  using assms strlen_bytes
  by (auto simp: connect_body_def connect_strings_ok_def MQTTSerialize_connectLength_def Let_def write_string
      writeChar_def writeInt_def writeCString_def)

section \<open>Reading packets from a transport\<close>

text \<open>A transport that delivers what is asked for as long as it has it.\<close>

locale byte_source =
  fixes getfn :: "nat \<Rightarrow> 's \<Rightarrow> int \<times> byte list \<times> 's" and pending :: "'s \<Rightarrow> byte list"
  assumes get: "0 < n \<Longrightarrow> n \<le> length (pending s) \<Longrightarrow>
    \<exists>s'. getfn n s = (int n, take n (pending s), s') \<and> pending s' = drop n (pending s)"
begin

lemma get_all:
  "pending s = bs @ rest \<Longrightarrow> bs \<noteq> [] \<Longrightarrow> \<exists>s'. getfn (length bs) s = (int (length bs), bs, s') \<and> pending s' = rest"
  using get[of "length bs" s] by simp

lemma feeds_pending:
  "pending s = bs @ rest \<Longrightarrow> \<exists>s'. feeds (getchar_of getfn) s bs s' \<and> pending s' = rest"
proof (induction bs arbitrary: s)
  case (Cons b bs)
  obtain s1 where s1: "getfn 1 s = (1, [b], s1)" "pending s1 = bs @ rest" using get_all[of s "[b]" "bs @ rest"] Cons.prems by auto
  then obtain s' where "feeds (getchar_of getfn) s1 bs s'" "pending s' = rest" using Cons.IH by blast
  moreover have "getchar_of getfn s = (1, b, s1)" using s1(1) by (simp add: getchar_of_def)
  ultimately show ?case by auto
qed auto

end

text \<open>\<open>MQTTPacket_read\<close> also asks for the empty rest of a packet without a body.\<close>

locale mqtt_stream = byte_source +
  assumes get_none: "\<exists>s'. getfn 0 s = (0, [], s') \<and> pending s' = pending s"
begin

lemma read_packet:
  assumes "pending s = packet header body @ rest" and "length body < 268435456"
    and "length (packet header body) \<le> buflen" and "buflen \<le> length buf"
  shows "\<exists>s'. MQTTPacket_read buf buflen getfn s =
      (int (header_type header), packet header body @ drop (length (packet header body)) buf, s') \<and> pending s' = rest"
proof -
  define e where "e = MQTTPacket_encode (length body)"
  have p: "packet header body = header # e @ body" by (simp add: packet_def e_def)
  obtain s1 where s1: "getfn 1 s = (1, [header], s1)" "pending s1 = e @ body @ rest"
    using get_all[of s "[header]" "e @ body @ rest"] assms(1) p by auto
  obtain s2 where s2: "feeds (getchar_of getfn) s1 e s2" "pending s2 = body @ rest" using feeds_pending[OF s1(2)] by blast
  have d: "MQTTPacket_decode (getchar_of getfn) s1 = (length e, length body, s2)"
    using decode_encode[OF s2(1)[unfolded e_def] assms(2)] by (simp add: e_def)
  obtain s3 where s3: "getfn (length body) s2 = (int (length body), body, s3)" "pending s3 = rest"
    using get_all[OF s2(2)] get_none[of s2] s2(2) by (cases "body = []") auto
  have l: "length body + (1 + length e) \<le> buflen" using assms(3) p by simp
  have b: "patch (1 + length e) body (patch 1 e (patch 0 [header] buf)) = header # e @ body @ drop (1 + length e + length body) buf"
    using l assms(4) by (cases buf) (simp_all add: patch_def add.commute)
  have "MQTTPacket_read buf buflen getfn s = (int (header_type header), header # e @ body @ drop (1 + length e + length body) buf, s3)"
    using s1(1) d s3(1) l b unfolding MQTTPacket_read_def
    by (simp add: Let_def e_def[symmetric] split: prod.splits)
  then show ?thesis using s3(2) by (simp add: p)
qed

end

text \<open>A transport backed by a list of bytes.\<close>

definition list_transport :: "nat \<Rightarrow> byte list \<Rightarrow> int \<times> byte list \<times> byte list" where
  "list_transport n bs = (int (min n (length bs)), take n bs, drop n bs)"

interpretation list_stream: mqtt_stream list_transport "\<lambda>bs. bs"
  by unfold_locales (simp_all add: list_transport_def)

text \<open>Packets are taken off a transport one at a time. From a transport that delivers the bytes asked for,
  \<open>MQTTPacket_read\<close> stores exactly the next packet at the start of the buffer, returns its type, and leaves the
  transport at the first byte behind it; the rest of the buffer is as it was.\<close>

theorem read_takes_one_packet:
  assumes "mqtt_stream getfn pending" and "pending s = packet header body @ rest" and "length body < 268435456"
    and "length (packet header body) \<le> buflen" and "buflen \<le> length buf"
  shows "\<exists>s'. MQTTPacket_read buf buflen getfn s =
      (int (header_type header), packet header body @ drop (length (packet header body)) buf, s') \<and> pending s' = rest"
  using mqtt_stream.read_packet[OF assms(1), OF assms(2), OF assms(3), OF assms(4), OF assms(5)] .

theorem read_takes_one_packet_witness:
  "\<exists>s'. MQTTPacket_read (replicate 8 0) 8 list_transport [0x40, 2, 0, 7, 0x30] = (4, [0x40, 2, 0, 7] @ replicate 4 0, s') \<and> s' = [0x30]"
proof -
  have p: "packet 0x40 [0, 7] = [0x40, 2, 0, 7]" by (simp add: packet_def MQTTPacket_encode.simps[of "Suc (Suc 0)"])
  then show ?thesis
    using read_takes_one_packet[OF list_stream.mqtt_stream_axioms, of "[0x40, 2, 0, 7, 0x30]" "0x40" "[0, 7]" "[0x30]" 8 "replicate 8 0"]
    by (simp add: header_type_def)
qed

section \<open>Errors that look like success\<close>

text \<open>A packet too short for its contents is reported as success. Each of the deserializers returns the number of bytes
  the remaining length took when it finds the packet too short; for a short packet that is one, the code for
  success. An acknowledgement, a connection acknowledgement and a subscription acknowledgement with a body of fewer than
  two bytes, and a published message with an empty body, are accepted, and none of the outputs that were to be read from
  the body is set.\<close>

theorem short_packets_accepted:
  assumes "holds_at buf 0 (packet header body)" and "length body < 2"
  shows "fst (MQTTDeserialize_ack buf pid) = 1 \<and> snd (snd (snd (MQTTDeserialize_ack buf pid))) = pid
    \<and> (header_type header = CONNACK \<longrightarrow> MQTTDeserialize_connack buf vals = (1, vals))
    \<and> (header_type header = SUBACK \<longrightarrow> MQTTDeserialize_suback buf maxcount (pid, granted) = (1, pid, granted))
    \<and> (header_type header = PUBLISH \<longrightarrow> fst (MQTTDeserialize_publish buf p) = 1
        \<and> pd_payload (snd (MQTTDeserialize_publish buf p)) = pd_payload p
        \<and> lenstring_bytes (pd_topicName (snd (MQTTDeserialize_publish buf p))) = lenstring_bytes (pd_topicName p))"
proof -
  have l: "length (MQTTPacket_encode (length body)) = 1" using assms(2) by (simp add: encode_length)
  note h = packet_at[OF assms(1)]
  have "length body < 268435456" using assms(2) by simp
  then have d: "buf 0 = header" "MQTTPacket_decodeBuf buf (Suc 0) = (1, length body)" using h l by simp_all
  show ?thesis
    using d assms(2)
    by (auto simp: MQTTDeserialize_ack_def MQTTDeserialize_connack_def MQTTDeserialize_suback_def MQTTDeserialize_publish_def
        readChar_def readMQTTLenString_def Let_def lenstring_bytes_def split: prod.splits option.splits)
qed

theorem short_packets_accepted_witness:
  "fst (MQTTDeserialize_publish (cbuf [0x30, 0] (\<lambda>_. 0)) sample_data) = 1
    \<and> fst (MQTTDeserialize_ack (cbuf [0x30, 0] (\<lambda>_. 0)) 5) = 1"
proof -
  have "packet 0x30 [] = [0x30, 0]" by (simp add: packet_def MQTTPacket_encode.simps[of 0])
  then have "holds_at (cbuf [0x30, 0] (\<lambda>_. 0)) 0 (packet 0x30 [])" using holds_at_cbuf by metis
  from short_packets_accepted[OF this, of 5 "(0, 0)" 0 "[]" sample_data] show ?thesis
    by (simp add: header_type_def PUBLISH_def)
qed

text \<open>The count check of the subscription acknowledgement lets one value more through than the array holds.\<close>

lemma suback_loop_length: "length granted \<le> maxcount + 1 \<Longrightarrow> length (snd (suback_loop buf maxcount n cur granted)) \<le> maxcount + 1"
  by (induction n arbitrary: cur granted) (auto simp: readChar_def)

lemma suback_overrun: "length (snd (suback_loop buf maxcount (maxcount + 1) cur [])) = maxcount + 1"
proof -
  have "length (snd (suback_loop buf maxcount n cur granted)) = length granted + n" if "length granted + n \<le> maxcount + 1" for n cur granted
    using that by (induction n arbitrary: cur granted) (auto simp: readChar_def)
  from this[of "[]" "maxcount + 1"] show ?thesis by simp
qed

end
