(* ===== verification/MQTT_Session.thy ===== *)
theory MQTT_Session
  imports MQTTClient MQTT_Codec
begin

text \<open>
  The MQTT client on a connection. Topic filters are compared with a level-by-level definition. What lwIP promises is
  stated in three locales over its interface: sending (\<open>tcp_out\<close>), receiving (\<open>tcp_in\<close>, which makes the port's
  read function a \<open>byte_source\<close> of the codec) and both together (\<open>tcp\<close>); the client's lemmas are proved in them once, and a
  connection that cuts what is sent into pieces shows that they can hold.
\<close>

section \<open>Topic filters\<close>

text \<open>The levels of a topic, and what a filter matches level by level: \<^verbatim>\<open>+\<close> any level that is not empty, \<^verbatim>\<open>#\<close> the rest if
  it does not start with an empty level.\<close>

fun levels :: "byte list \<Rightarrow> byte list list" where
  "levels [] = [[]]"
| "levels (c # cs) = (if c = 47 then [] # levels cs else (c # hd (levels cs)) # tl (levels cs))"

fun levels_match :: "byte list list \<Rightarrow> byte list list \<Rightarrow> bool" where
  "levels_match [] [] = True"
| "levels_match (f # fs) (n # ns) =
     (if f = [35] then n \<noteq> [] else if f = [43] then n \<noteq> [] \<and> levels_match fs ns else f = n \<and> levels_match fs ns)"
| "levels_match _ _ = False"

fun wf_levels :: "byte list list \<Rightarrow> bool" where
  "wf_levels [] = True"
| "wf_levels (f # fs) = ((f = [43] \<or> f = [35] \<and> fs = [] \<or> 43 \<notin> set f \<and> 35 \<notin> set f) \<and> wf_levels fs)"

lemma levels_ne [simp]: "levels cs \<noteq> []"
  by (cases cs) simp_all

lemma levels_cons: "\<exists>l ls. levels cs = l # ls"
  by (cases "levels cs") simp_all

lemma levels_match_Nil [simp]: "levels_match [] (levels cs) = False" "levels_match (levels cs) [] = False"
  by (cases "levels cs"; simp)+

lemma hd_levels: "(hd (levels cs) = []) \<longleftrightarrow> cs = [] \<or> hd cs = 47"
  by (cases cs) auto

lemma levels_skip:
  "n \<noteq> 47 \<Longrightarrow> levels (tl (skip_level (n # ns))) = [] # tl (levels (n # ns))"
proof (induction ns arbitrary: n)
  case (Cons m ns)
  then show ?case by (cases "m = 47") simp_all
qed simp

lemma match_empty:
  "(match_loop [] ns = ([], [])) = levels_match (levels []) (levels ns)"
  "wf_levels (levels fs) \<Longrightarrow> (match_loop fs [] = ([], [])) = levels_match (levels fs) (levels [])"
  by (cases ns; auto) (cases fs; auto split: if_splits)

lemma match_loop_levels:
  "wf_levels (levels fs) \<Longrightarrow> (match_loop fs ns = ([], [])) = levels_match (levels fs) (levels ns)"
proof (induction fs ns rule: match_loop.induct)
  case (1 f fs n ns)
  obtain lf lfs where lf: "levels fs = lf # lfs" using levels_cons by blast
  obtain ln lns where ln: "levels ns = ln # lns" using levels_cons by blast
  consider "n = 47" "f \<noteq> 47" | "f = 47" "n \<noteq> 47" | "f = 47" "n = 47" | "f = 43" "n \<noteq> 47" | "f = 35" "n \<noteq> 47"
    | "f \<notin> {47, 43, 35}" "n \<noteq> 47" "f \<noteq> n" | "f \<notin> {47, 43, 35}" "n \<noteq> 47" "f = n" by blast
  then show ?case
  proof cases
    case 4
    then have w: "lf = []" "wf_levels lfs" using "1.prems" lf by auto
    then have "wf_levels (levels fs)" using lf by simp
    then have "(match_loop fs (tl (skip_level (n # ns))) = ([], [])) = levels_match (levels fs) (levels (tl (skip_level (n # ns))))"
      using "1.IH"(1) 4 by simp
    then show ?thesis using 4 w lf ln levels_skip[of n ns] by simp
  next
    case 5
    then have "lf = []" "lfs = []" using "1.prems" lf by auto
    then have "fs = []" using lf hd_levels[of fs] by (cases fs) auto
    then show ?thesis using 5 ln by simp
  next
    case 7
    then have "43 \<notin> set lf" "35 \<notin> set lf" "wf_levels lfs" using "1.prems" lf by auto
    moreover from this have "wf_levels (levels fs)" "lf \<noteq> [43]" "lf \<noteq> [35]" using lf by auto
    ultimately show ?thesis using "1.IH"(3) 7 lf ln by auto
  qed (use "1.prems" "1.IH" lf ln in auto)
qed (simp_all only: match_empty)

text \<open>C29: Topic filters match level by level. For a filter whose wildcards stand alone in their level, with \<^verbatim>\<open>#\<close> only at
  the end, the character-by-character comparison accepts a topic exactly when the levels match: \<^verbatim>\<open>+\<close> stands for one level that
  is not empty, \<^verbatim>\<open>#\<close> for all remaining levels if the first of them is not empty, any other level for itself.\<close>

theorem topic_filter_levels:
  assumes "wf_levels (levels topicFilter)"
  shows "isTopicMatched topicFilter topicName = levels_match (levels topicFilter) (levels (lenstring_bytes topicName))"
  using match_loop_levels[OF assms, of "lenstring_bytes topicName"]
  by (auto simp: isTopicMatched_def split: prod.splits)

theorem topic_filter_levels_witness:
  "isTopicMatched [97, 47, 43, 47, 35] \<lparr>cstring = None, lenstring_len = 5, lenstring_data = Some (\<lambda>i. [97, 47, 98, 47, 99] ! i)\<rparr>
    \<and> \<not> isTopicMatched [97, 47, 35] \<lparr>cstring = None, lenstring_len = 1, lenstring_data = Some (\<lambda>i. [97] ! i)\<rparr>"
proof -
  have b: "lenstring_bytes \<lparr>cstring = None, lenstring_len = 5, lenstring_data = Some (\<lambda>i. [97, 47, 98, 47, 99] ! i)\<rparr> = [97, 47, 98, 47, 99]"
    "lenstring_bytes \<lparr>cstring = None, lenstring_len = 1, lenstring_data = Some (\<lambda>i. [97] ! i)\<rparr> = [97]"
    by (simp_all add: lenstring_bytes_def upt_rec)
  show ?thesis
    using topic_filter_levels[of "[97, 47, 43, 47, 35]" "\<lparr>cstring = None, lenstring_len = 5, lenstring_data = Some (\<lambda>i. [97, 47, 98, 47, 99] ! i)\<rparr>"]
      topic_filter_levels[of "[97, 47, 35]" "\<lparr>cstring = None, lenstring_len = 1, lenstring_data = Some (\<lambda>i. [97] ! i)\<rparr>"]
    unfolding b by simp
qed

section \<open>Sending\<close>

lemma take_overwrite: "k \<le> length xs \<Longrightarrow> take k (overwrite xs buf) = take k xs"
  by (simp add: overwrite_def)

text \<open>A connection that records what it accepted: a send takes some bytes or fails; asking for the time or for
  readiness sends nothing.\<close>

locale tcp_out =
  fixes ip :: "'w lwip" and out :: "'w \<Rightarrow> byte list"
  assumes tick: "out (snd (xTaskGetTickCount ip w)) = out w"
    and ready: "out (snd (snd (select_write ip t w))) = out w"
    and sent: "bs \<noteq> [] \<Longrightarrow> send ip bs w = (rc, w') \<Longrightarrow> rc \<noteq> 0 \<and> rc \<le> int (length bs) \<and> out w' = out w @ take (nat rc) bs"
begin

lemma clock_out:
  "out (snd (expired ip t w)) = out w" "out (snd (countdown_ms ip n w)) = out w" "out (snd (countdown ip n w)) = out w"
  "out (snd (left_ms ip t w)) = out w"
  using tick[of w] by (auto simp: expired_def countdown_ms_def countdown_def left_ms_def split: prod.splits)

lemma write_out:
  assumes "mqtt_esp_write ip bs ms w = (rc, w')" and "bs \<noteq> []"
  shows "rc \<noteq> 0 \<and> rc \<le> int (length bs) \<and> out w' = out w @ take (nat rc) bs"
proof -
  obtain r isset w1 where s: "select_write ip (ms div int portTICK_RATE_MS) w = (r, isset, w1)" by (cases "select_write ip (ms div int portTICK_RATE_MS) w") auto
  have o: "out w1 = out w" using ready[of "ms div int portTICK_RATE_MS" w] s by simp
  show ?thesis
  proof (cases "r > 0 \<and> isset")
    case True
    then show ?thesis using assms s o sent[of bs w1 rc w'] by (simp add: mqtt_esp_write_def)
  next
    case False
    then have "rc = -1" "w' = w1" using assms(1) s by (auto simp: mqtt_esp_write_def)
    then show ?thesis using o by simp
  qed
qed

lemma send_loop_out:
  assumes "sent \<le> len" and "len \<le> length buf" and "len - sent < fuel"
  shows "\<exists>sent' w'. send_loop fuel ip buf sent len timer w = Some (sent', w') \<and> sent \<le> sent' \<and> sent' \<le> len
    \<and> out w' = out w @ take (sent' - sent) (drop sent buf)"
  using assms
proof (induction fuel arbitrary: sent w)
  case (Suc fuel)
  show ?case
  proof (cases "sent < len")
    case True
    obtain e w1 where e: "expired ip timer w = (e, w1)" by fastforce
    obtain ms w2 where l: "left_ms ip timer w1 = (ms, w2)" by fastforce
    let ?bs = "take (len - sent) (drop sent buf)"
    obtain rc w3 where r: "mqtt_esp_write ip ?bs ms w2 = (rc, w3)" by fastforce
    have o: "out w1 = out w" "out w2 = out w" using clock_out(1)[of timer w] clock_out(4)[of timer w1] e l by simp_all
    have bs: "?bs \<noteq> []" "length ?bs = len - sent" using True Suc.prems(2) by auto
    have w3: "rc \<noteq> 0" "rc \<le> int (len - sent)" "out w3 = out w @ take (nat rc) ?bs" using write_out[OF r bs(1)] o bs(2) by simp_all
    show ?thesis
    proof (cases "e \<or> rc < 0")
      case True
      then show ?thesis using \<open>sent < len\<close> e l r o w3(3) by auto
    next
      case False
      then have rc: "0 < nat rc" "sent + nat rc \<le> len" using w3(1,2) True by linarith+
      have "len - (sent + nat rc) < fuel" using rc Suc.prems(3) True by linarith
      from Suc.IH[OF rc(2) Suc.prems(2) this, of w3] obtain sent' w' where
        i: "send_loop fuel ip buf (sent + nat rc) len timer w3 = Some (sent', w')" "sent + nat rc \<le> sent'" "sent' \<le> len"
          "out w' = out w3 @ take (sent' - (sent + nat rc)) (drop (sent + nat rc) buf)" by blast
      have "take (nat rc) ?bs = take (nat rc) (drop sent buf)" using rc(2) by (simp add: min_def)
      moreover have "take (nat rc) (drop sent buf) @ take (sent' - (sent + nat rc)) (drop (sent + nat rc) buf) = take (sent' - sent) (drop sent buf)"
        using take_add[of "nat rc" "sent' - (sent + nat rc)" "drop sent buf"] i(2) by (simp add: add.commute)
      ultimately have "out w' = out w @ take (sent' - sent) (drop sent buf)" using i(4) w3(3) by simp
      then show ?thesis using i True False e l r by auto
    qed
  next
    case False
    then show ?thesis using Suc.prems by auto
  qed
qed simp

lemma sendPacket_out:
  assumes "len \<le> length (wbuf c)" and "len < fuel"
  shows "\<exists>rc c' w' k. sendPacket fuel ip c len timer w = Some (rc, c', w') \<and> c' = c\<lparr>ping_timer := ping_timer c'\<rparr>
    \<and> k \<le> len \<and> out w' = out w @ take k (wbuf c)
    \<and> (k = len \<and> rc = SUCCESS \<or> k < len \<and> rc = FAILURE)"
proof -
  obtain k w1 where l: "send_loop fuel ip (wbuf c) 0 len timer w = Some (k, w1)" "k \<le> len" "out w1 = out w @ take k (wbuf c)"
    using send_loop_out[of 0 len "wbuf c" fuel timer w] assms by auto
  show ?thesis
  proof (cases "k = len")
    case True
    obtain t w2 where t: "countdown ip (ka_interval c) w1 = (t, w2)" by fastforce
    then have "out w2 = out w1" using clock_out(3)[of "ka_interval c" w1] by simp
    then show ?thesis using l t True by (auto simp: sendPacket_def)
  next
    case False
    then show ?thesis using l by (auto simp: sendPacket_def)
  qed
qed

lemma publish_qos0:
  fixes m :: MQTTMessage and topic :: "byte list"
  defines "body \<equiv> publish_body 0 (msg_id m) (MQTTString_initializer\<lparr>cstring := Some topic\<rparr>) (msg_payload m)"
  defines "pkt \<equiv> packet (MQTTHeader PUBLISH 0 0 (msg_retained m)) body"
  assumes "isconnected c" and "msg_qos m = 0" and "length topic < 65536"
    and "length body < 268435456" and "MQTTPacket_len (length body) \<le> buf_size c" and "length pkt < fuel"
  shows "\<exists>rc c' w' k. MQTTPublish fuel ip c topic m w = Some (rc, m, c', w') \<and> out w' = out w @ take k pkt
    \<and> (k = length pkt \<and> rc = SUCCESS \<or> k < length pkt \<and> rc = FAILURE)"
proof -
  let ?s = "MQTTString_initializer\<lparr>cstring := Some topic\<rparr>"
  let ?c = "c\<lparr>wbuf := overwrite pkt (wbuf c)\<rparr>"
  have ok: "str_ok ?s" using assms(5) by (simp add: str_ok_def str_bytes_def MQTTString_initializer_def)
  have ser: "MQTTSerialize_publish (int (buf_size c)) 0 0 (msg_retained m) (msg_id m) ?s (msg_payload m) = (int (length pkt), pkt)"
    unfolding serialize_publish[OF ok] Let_def using assms(7) by (simp add: body_def[symmetric] pkt_def)
  obtain timer w1 where t: "countdown_ms ip (command_timeout_ms c) w = (timer, w1)" by fastforce
  have o: "out w1 = out w" using clock_out(2)[of "command_timeout_ms c" w] t by simp
  have pos: "0 < length pkt" by (simp add: pkt_def packet_def)
  have "length pkt \<le> length (wbuf ?c)" by (simp add: overwrite_def)
  from sendPacket_out[OF this assms(8), of timer w1] obtain rc c' w' k where
    p: "sendPacket fuel ip ?c (length pkt) timer w1 = Some (rc, c', w')" "c' = ?c\<lparr>ping_timer := ping_timer c'\<rparr>" "k \<le> length pkt"
      "out w' = out w1 @ take k (wbuf ?c)" "k = length pkt \<and> rc = SUCCESS \<or> k < length pkt \<and> rc = FAILURE" by blast
  have "take k (wbuf ?c) = take k pkt" using p(3) by (simp add: take_overwrite)
  moreover have "MQTTPublish fuel ip c topic m w = Some (rc, m, c', w')"
    using t assms(3,4) ser pos p(1) by (auto simp: MQTTPublish_def in_buf_def Let_def)
  ultimately show ?thesis using p(4,5) o by metis
qed

end

section \<open>Receiving\<close>

text \<open>A connection that delivers what has arrived.\<close>

locale tcp_in =
  fixes ip :: "'w lwip" and pending :: "'w \<Rightarrow> byte list"
  assumes clock: "pending (snd (xTaskGetTickCount ip w)) = pending w"
    and arrived: "pending w \<noteq> [] \<Longrightarrow> \<exists>rc w'. select_read ip t w = (rc, True, w') \<and> rc > 0 \<and> pending w' = pending w"
    and received: "n \<le> length (pending w) \<Longrightarrow>
      \<exists>w'. recv ip n w = (int n, take n (pending w), w') \<and> pending w' = drop n (pending w)"
begin

lemma left_pending: "pending (snd (left_ms ip t w)) = pending w"
  using clock[of w] by (auto simp: left_ms_def split: prod.splits)

lemma esp_get:
  assumes "0 < n" and "n \<le> length (pending w)"
  shows "\<exists>w'. mqtt_esp_read ip n ms w = (int n, take n (pending w), w') \<and> pending w' = drop n (pending w)"
proof -
  obtain rc w1 where s: "select_read ip (ms div int portTICK_RATE_MS) w = (rc, True, w1)" "rc > 0" "pending w1 = pending w"
    using arrived[of w "ms div int portTICK_RATE_MS"] assms by (metis le_zero_eq list.size(3) not_less0)
  then show ?thesis using received[of n w1] assms by (simp add: mqtt_esp_read_def)
qed

end

text \<open>The read function of the port is a source of bytes for the codec, whatever the timeout.\<close>

sublocale tcp_in \<subseteq> esp: byte_source "\<lambda>n. mqtt_esp_read ip n ms" pending for ms
  by unfold_locales (rule esp_get)

context tcp_in
begin

lemma readPacket_takes:
  assumes "pending w = packet header body @ rest" and "length body < 268435456"
  shows "length (packet header body) \<le> length (readbuf c) \<Longrightarrow> \<exists>w'. readPacket ip c timer w =
      Some (int (header_type header), c\<lparr>readbuf := packet header body @ drop (length (packet header body)) (readbuf c)\<rparr>, w')
    \<and> pending w' = rest"
    "length (readbuf c) < length (packet header body) \<Longrightarrow> readPacket ip c timer w = None"
proof -
  define e where "e = MQTTPacket_encode (length body)"
  have p: "packet header body = header # e @ body" by (simp add: packet_def e_def)
  obtain ms w1 where l1: "left_ms ip timer w = (ms, w1)" "pending w1 = pending w" using left_pending[of timer w] by (metis prod.exhaust_sel snd_conv)
  obtain w2 where r1: "mqtt_esp_read ip 1 ms w1 = (1, [header], w2)" "pending w2 = e @ body @ rest"
    using esp.get_all[of w1 "[header]" "e @ body @ rest" ms] l1(2) assms(1) p by auto
  obtain ms1 w3 where l2: "left_ms ip timer w2 = (ms1, w3)" "pending w3 = e @ body @ rest" using left_pending[of timer w2] r1(2) by (metis prod.exhaust_sel snd_conv)
  obtain w4 where f: "feeds (getchar_of (\<lambda>n. mqtt_esp_read ip n ms1)) w3 e w4" "pending w4 = body @ rest"
    using esp.feeds_pending[OF l2(2)] by blast
  have d: "decodePacket ip ms1 w3 = (length e, length body, w4)"
    using decode_encode[OF f(1)[unfolded e_def] assms(2)] by (simp add: decodePacket_def MQTTPacket_decode_def e_def)
  obtain ms2 w5 where l3: "left_ms ip timer w4 = (ms2, w5)" "pending w5 = body @ rest" using left_pending[of timer w4] f(2) by (metis prod.exhaust_sel snd_conv)
  have r3: "body \<noteq> [] \<Longrightarrow> \<exists>w6. mqtt_esp_read ip (length body) ms2 w5 = (int (length body), body, w6) \<and> pending w6 = rest"
    using esp.get_all[OF l3(2)] by blast
  note step = l1(1) r1(1) l2(1) d l3(1)
  show "\<exists>w'. readPacket ip c timer w =
      Some (int (header_type header), c\<lparr>readbuf := packet header body @ drop (length (packet header body)) (readbuf c)\<rparr>, w') \<and> pending w' = rest"
    if fits: "length (packet header body) \<le> length (readbuf c)"
  proof -
    have b1: "patch 1 e (patch 0 [header] (readbuf c)) = header # e @ drop (1 + length e) (readbuf c)"
      using fits p by (cases "readbuf c") (simp_all add: patch_def)
    have b2: "patch (1 + length e) body (header # e @ drop (1 + length e) (readbuf c)) = packet header body @ drop (length (packet header body)) (readbuf c)"
      by (simp add: patch_def p add.commute)
    have s1: "store_read 0 [header] c = Some (c\<lparr>readbuf := patch 0 [header] (readbuf c)\<rparr>)" using fits p by (simp add: store_read_def)
    have s2: "store_read 1 e (c\<lparr>readbuf := patch 0 [header] (readbuf c)\<rparr>) = Some (c\<lparr>readbuf := header # e @ drop (1 + length e) (readbuf c)\<rparr>)"
      using fits p b1 by (simp add: store_read_def patch_def)
    have s3: "store_read (1 + length e) body (c\<lparr>readbuf := header # e @ drop (1 + length e) (readbuf c)\<rparr>)
        = Some (c\<lparr>readbuf := packet header body @ drop (length (packet header body)) (readbuf c)\<rparr>)"
      using fits p b2 by (simp add: store_read_def)
    show ?thesis
    proof (cases "body = []")
      case True
      then have "readPacket ip c timer w = Some (int (header_type header), c\<lparr>readbuf := header # e @ drop (1 + length e) (readbuf c)\<rparr>, w4)"
        using step s1 s2 e_def by (simp add: readPacket_def)
      then show ?thesis using f(2) True p by simp
    next
      case False
      then obtain w6 where r: "mqtt_esp_read ip (length body) ms2 w5 = (int (length body), body, w6)" "pending w6 = rest" using r3 by blast
      have "readPacket ip c timer w =
          Some (int (header_type header), c\<lparr>readbuf := packet header body @ drop (length (packet header body)) (readbuf c)\<rparr>, w6)"
        using step s1 s2 s3 r(1) False p by (simp add: readPacket_def Let_def e_def[symmetric])
      then show ?thesis using r(2) by blast
    qed
  qed
  show "readPacket ip c timer w = None" if over: "length (readbuf c) < length (packet header body)"
  proof (cases "1 + length e \<le> length (readbuf c)")
    case False
    then show ?thesis using step by (cases "readbuf c = []") (auto simp: readPacket_def Let_def e_def[symmetric] store_read_def patch_def)
  next
    case True
    then have "body \<noteq> []" using over p by auto
    then obtain w6 where "mqtt_esp_read ip (length body) ms2 w5 = (int (length body), body, w6)" using r3 by blast
    then show ?thesis using step True over p \<open>body \<noteq> []\<close>
      by (auto simp: readPacket_def Let_def e_def[symmetric] store_read_def patch_def min_def)
  qed
qed

end

section \<open>Answering\<close>

text \<open>A connection in both directions: reading sends nothing.\<close>

locale tcp = tcp_in ip pending + tcp_out ip out for ip :: "'w lwip" and pending out +
  assumes select_read_out: "out (snd (snd (select_read ip t w))) = out w"
    and recv_out: "out (snd (snd (recv ip n w))) = out w"
begin

lemma esp_read_out: "out (snd (snd (mqtt_esp_read ip n ms w))) = out w"
  using select_read_out[of "ms div int portTICK_RATE_MS" w] recv_out[of n]
  by (auto simp: mqtt_esp_read_def split: prod.splits)

lemma getchar_out: "getchar_of (\<lambda>n. mqtt_esp_read ip n ms) w = (rc, b, w') \<Longrightarrow> out w' = out w"
  using esp_read_out[of 1 ms w] by (auto simp: getchar_of_def split: prod.splits)

lemma decode_out:
  "out (snd (snd (MQTTPacket_decode_loop (getchar_of (\<lambda>n. mqtt_esp_read ip n ms)) len mult val w))) = out w"
proof (induction "getchar_of (\<lambda>n. mqtt_esp_read ip n ms)" len mult val w rule: MQTTPacket_decode_loop.induct)
  case (1 len mult val w)
  obtain rc b w1 where g: "getchar_of (\<lambda>n. mqtt_esp_read ip n ms) w = (rc, b, w1)" by (cases "getchar_of (\<lambda>n. mqtt_esp_read ip n ms) w") auto
  show ?case
    using "1.hyps"[OF _ g[symmetric]] getchar_out[OF g] g
    by (subst MQTTPacket_decode_loop.simps) (simp add: Let_def)
qed

lemma readPacket_out:
  assumes "readPacket ip c timer w = Some (rc, c', w')"
  shows "out w' = out w"
proof -
  obtain ms w1 where a: "left_ms ip timer w = (ms, w1)" by fastforce
  obtain r bs w2 where b: "mqtt_esp_read ip 1 ms w1 = (r, bs, w2)" by (metis prod.exhaust)
  obtain ms1 w3 where c: "left_ms ip timer w2 = (ms1, w3)" by fastforce
  obtain k v w4 where d: "decodePacket ip ms1 w3 = (k, v, w4)" by (metis prod.exhaust)
  obtain ms2 w5 where e: "left_ms ip timer w4 = (ms2, w5)" by fastforce
  obtain r' bs' w6 where f: "mqtt_esp_read ip v ms2 w5 = (r', bs', w6)" by (metis prod.exhaust)
  have "out w1 = out w" "out w3 = out w2" "out w5 = out w4"
    using clock_out(4)[of timer w] clock_out(4)[of timer w2] clock_out(4)[of timer w4] a c e by simp_all
  moreover have "out w2 = out w1" "out w6 = out w5" using esp_read_out[of 1 ms w1] esp_read_out[of v ms2 w5] b f by simp_all
  moreover have "out w4 = out w3" using decode_out[of ms1 0 1 0 w3] d by (simp add: decodePacket_def)
  moreover have "w' \<in> {w2, w4, w6}" using assms a b c d e f by (auto simp: readPacket_def Let_def bind_eq_Some_conv split: if_splits)
  ultimately show ?thesis by auto
qed

lemma send_ack_out:
  assumes "4 \<le> buf_size c" and "4 < fuel" and "type \<in> {PUBACK, PUBREC}"
  shows "\<exists>rc c' w' k. send_ack fuel ip type pid c timer w = Some (rc, c', w') \<and> buf_size c' = buf_size c
    \<and> out w' = out w @ take k [of_nat (16 * type), 2, of_nat (pid div 256), of_nat (pid mod 256)]
    \<and> (k = 4 \<and> rc = SUCCESS \<or> k < 4 \<and> rc = FAILURE)"
proof -
  let ?p = "[of_nat (16 * type), 2, of_nat (pid div 256), of_nat (pid mod 256)] :: byte list"
  let ?c = "c\<lparr>wbuf := overwrite ?p (wbuf c)\<rparr>"
  have s: "MQTTSerialize_ack (int (buf_size c)) type 0 pid = (4, ?p)"
    using assms(1,3) by (auto simp: MQTTSerialize_ack_def writeInt_def writeChar_def MQTTHeader_def PUBACK_def PUBREC_def PUBREL_def
        MQTTPacket_encode.simps[of 2] Let_def)
  have "4 \<le> length (wbuf ?c)" by (simp add: overwrite_def)
  from sendPacket_out[OF this assms(2), of timer w] obtain rc c' w' k where
    p: "sendPacket fuel ip ?c 4 timer w = Some (rc, c', w')" "c' = ?c\<lparr>ping_timer := ping_timer c'\<rparr>" "k \<le> 4"
      "out w' = out w @ take k (wbuf ?c)" "k = 4 \<and> rc = SUCCESS \<or> k < 4 \<and> rc = FAILURE" by blast
  have "take k (wbuf ?c) = take k ?p" using p(3) take_overwrite[of k ?p "wbuf c"] by simp
  moreover have "send_ack fuel ip type pid c timer w = Some (rc, c', w')" using s p(1) by (simp add: send_ack_def in_buf_def)
  moreover have "buf_size c' = buf_size c" by (subst p(2)) simp
  ultimately show ?thesis using p(4,5) by metis
qed

lemma keepalive_out:
  assumes "2 \<le> buf_size c" and "2 < fuel"
  shows "\<exists>rc c' w' k. keepalive fuel ip c w = Some (rc, c', w') \<and> out w' = out w @ take k [0xC0, 0]
    \<and> (rc = SUCCESS \<or> rc = DISCONNECTED)"
proof -
  obtain e w1 where e: "expired ip (ping_timer c) w = (e, w1)" by fastforce
  have o: "out w1 = out w" using clock_out(1)[of "ping_timer c" w] e by simp
  consider "ka_interval c = 0" | "ka_interval c \<noteq> 0" "\<not> e" | "ka_interval c \<noteq> 0" e "ping_outstanding c"
    | "ka_interval c \<noteq> 0" e "\<not> ping_outstanding c" by blast
  then show ?thesis
  proof cases
    case 1
    then show ?thesis by (auto simp: keepalive_def intro: exI[of _ 0])
  next
    case 2
    then show ?thesis using e o by (auto simp: keepalive_def intro: exI[of _ 0])
  next
    case 3
    obtain t w2 where "countdown ip (ka_interval c) w1 = (t, w2)" by fastforce
    moreover from this have "out w2 = out w1" using clock_out(3)[of "ka_interval c" w1] by simp
    ultimately show ?thesis using 3 e o by (auto simp: keepalive_def intro: exI[of _ 0])
  next
    case 4
    let ?c = "c\<lparr>ping_outstanding := True, wbuf := overwrite [0xC0, 0] (wbuf c)\<rparr>"
    obtain timer w2 where t: "countdown_ms ip 1000 w1 = (timer, w2)" by fastforce
    have s: "MQTTSerialize_pingreq (int (buf_size c)) = (2, [0xC0, 0])"
      using assms(1) by (simp add: MQTTSerialize_pingreq_def MQTTSerialize_zero_def writeChar_def MQTTHeader_def PINGREQ_def
          MQTTPacket_encode.simps[of 0] Let_def)
    have "2 \<le> length (wbuf ?c)" by (simp add: overwrite_def)
    from sendPacket_out[OF this assms(2), of timer w2] obtain rc c' w3 k where
      p: "sendPacket fuel ip ?c 2 timer w2 = Some (rc, c', w3)" "k \<le> 2" "out w3 = out w2 @ take k (wbuf ?c)" by blast
    have tk: "take k (wbuf ?c) = take k [0xC0, 0]" using p(2) take_overwrite[of k "[0xC0, 0]" "wbuf c"] by simp
    obtain t' w4 where t': "countdown ip (ka_interval c') w3 = (t', w4)" by fastforce
    have "out w4 = out w @ take k [0xC0, 0]"
      using clock_out(3)[of "ka_interval c'" w3] clock_out(2)[of 1000 w1] t' t p(3) tk o by simp
    moreover have "keepalive fuel ip c w = Some (SUCCESS, c'\<lparr>ping_timer := t'\<rparr>, w4)"
      using 4 e t s p(1) t' by (simp add: keepalive_def in_buf_def)
    ultimately show ?thesis by blast
  qed
qed

lemma cycle_publish:
  fixes topic :: MQTTString and payload :: "byte list" and c :: "'w MQTTClient" and pid dup ret :: nat
  defines "body \<equiv> publish_body 1 pid topic payload"
  defines "pkt \<equiv> packet (MQTTHeader PUBLISH dup 1 ret) body"
  defines "buf \<equiv> pkt @ drop (length pkt) (readbuf c)"
  assumes "pending w = pkt @ rest" and "str_ok topic" and "dup < 2" and "ret < 2" and "pid < 65536" and "length body < 268435456"
    and "length pkt \<le> length (readbuf c)" and "5 \<le> length (readbuf c)" and "4 \<le> buf_size c" and "4 < fuel"
  shows "\<exists>msg w1 w2. pending w1 = rest \<and> out w1 = out w
    \<and> lenstring_bytes (pd_topicName msg) = str_bytes topic \<and> cstring (pd_topicName msg) = None
    \<and> pd_payloadlen msg = int (length payload) \<and> map (\<lambda>i. cbuf buf (beyond ip) (pd_payload msg + i)) [0..<length payload] = payload
    \<and> w2 = snd (deliverMessage (c\<lparr>readbuf := buf\<rparr>) msg w1)
    \<and> (\<exists>rc c' w' k j. cycle fuel ip c timer w = Some (rc, c', w')
        \<and> out w' = out w2 @ take k [0x40, 2, of_nat (pid div 256), of_nat (pid mod 256)] @ take j [0xC0, 0]
        \<and> (k = 4 \<and> rc \<in> {int PUBLISH, DISCONNECTED} \<or> k < 4 \<and> j = 0 \<and> rc = FAILURE))"
proof -
  let ?c = "c\<lparr>readbuf := buf\<rparr>"
  let ?ack = "[0x40, 2, of_nat (pid div 256), of_nat (pid mod 256)] :: byte list"
  have ht: "header_type (MQTTHeader PUBLISH dup 1 ret) = PUBLISH"
    using header_fields[of PUBLISH dup 1 ret] assms(6,7) by (simp add: PUBLISH_def)
  obtain w1 where r: "readPacket ip c timer w = Some (int PUBLISH, ?c, w1)" "pending w1 = rest"
    using readPacket_takes(1)[OF assms(4)[unfolded pkt_def] assms(9) assms(10)[unfolded pkt_def], of timer] ht unfolding buf_def pkt_def by auto
  have o1: "out w1 = out w" using readPacket_out[OF r(1)] .
  have at: "holds_at (cbuf buf (beyond ip)) 0 pkt" using holds_at_cbuf[of buf "beyond ip"] by (simp add: buf_def)
  from publish_at[OF at[unfolded pkt_def body_def] assms(5,6) _ _ assms(7,8) assms(9)[unfolded body_def], of "stack ip"]
  obtain msg where m: "MQTTDeserialize_publish (cbuf buf (beyond ip)) (stack ip) = (1, msg)" "pd_qos msg = 1" "pd_packetid msg = pid"
      "cstring (pd_topicName msg) = None" "lenstring_bytes (pd_topicName msg) = str_bytes topic" "pd_payloadlen msg = int (length payload)"
      "map (\<lambda>i. cbuf buf (beyond ip) (pd_payload msg + i)) [0..<length payload] = payload" by auto
  define w2 where "w2 = snd (deliverMessage ?c msg w1)"
  obtain r where d: "deliverMessage ?c msg w1 = (r, w2)" by (simp add: w2_def prod_eq_iff)
  have "4 \<le> buf_size ?c" using assms(12) by simp
  from send_ack_out[OF this assms(13), of PUBACK pid timer w2] obtain rc c' w' k where
    a: "send_ack fuel ip PUBACK pid ?c timer w2 = Some (rc, c', w')" "buf_size c' = buf_size c" "out w' = out w2 @ take k ?ack"
      "k = 4 \<and> rc = SUCCESS \<or> k < 4 \<and> rc = FAILURE" by (auto simp: PUBACK_def)
  have hp: "handle_publish fuel ip ?c timer w1 = Some (rc = FAILURE, rc, c', w')" using m(1-3) a(1) d by (simp add: handle_publish_def)
  have "\<exists>rc' c'' w'' j. cycle fuel ip c timer w = Some (rc', c'', w'') \<and> out w'' = out w2 @ take k ?ack @ take j [0xC0, 0]
        \<and> (k = 4 \<and> rc' \<in> {int PUBLISH, DISCONNECTED} \<or> k < 4 \<and> j = 0 \<and> rc' = FAILURE)"
  proof (cases "k = 4")
    case False
    then have "rc = FAILURE" "k < 4" using a(4) by auto
    then show ?thesis using r(1) hp a(3) by (auto simp: cycle_def SUCCESS_def FAILURE_def intro!: exI[of _ 0])
  next
    case True
    then have rc: "rc = SUCCESS" "rc \<noteq> FAILURE" using a(4) by (auto simp: SUCCESS_def FAILURE_def)
    show ?thesis
    proof (cases "isconnected c'")
      case False
      then show ?thesis using r(1) hp a(3) rc True by (auto simp: cycle_def intro!: exI[of _ 0])
    next
      case con: True
      have "2 \<le> buf_size c'" "2 < fuel" using a(2) assms(12,13) by simp_all
      from keepalive_out[OF this, of w'] obtain r' c'' w'' j where
        ka: "keepalive fuel ip c' w' = Some (r', c'', w'')" "out w'' = out w' @ take j [0xC0, 0]" "r' = SUCCESS \<or> r' = DISCONNECTED" by blast
      have "cycle fuel ip c timer w = Some (if r' = SUCCESS then int PUBLISH else r', c'', w'')"
        using r(1) hp rc con ka(1) by (simp add: cycle_def)
      then show ?thesis using a(3) ka(2,3) True by auto
    qed
  qed
  then show ?thesis using r(2) o1 m(4-7) w2_def by blast
qed

end

section \<open>A connection\<close>

text \<open>Bytes that have arrived, bytes sent, and a clock that advances when it is read; a send accepts at most \<open>chunk + 1\<close> bytes.\<close>

record sim =
  inbox :: "byte list"
  outbox :: "byte list"
  ticks :: "32 word"

definition sim_ip :: "nat \<Rightarrow> sim lwip" where
  "sim_ip chunk =
     \<lparr>select_read = (\<lambda>t w. (if inbox w = [] then 0 else 1, inbox w \<noteq> [], w)),
      select_write = (\<lambda>t w. (1, True, w)),
      recv = (\<lambda>n w. (int (min n (length (inbox w))), take n (inbox w), w\<lparr>inbox := drop n (inbox w)\<rparr>)),
      send = (\<lambda>bs w. (int (min (chunk + 1) (length bs)), w\<lparr>outbox := outbox w @ take (chunk + 1) bs\<rparr>)),
      xTaskGetTickCount = (\<lambda>w. (ticks w, w\<lparr>ticks := ticks w + 1\<rparr>)),
      stack = sample_data, beyond = (\<lambda>_. 0)\<rparr>"

interpretation sim: tcp "sim_ip chunk" inbox outbox
proof (unfold_locales, goal_cases)
  case (6 bs w rc w')
  then have "rc = int (min (Suc chunk) (length bs))" "outbox w' = outbox w @ take (Suc chunk) bs" by (auto simp: sim_ip_def)
  moreover have "take (min (Suc chunk) (length bs)) bs = take (Suc chunk) bs" by (simp add: min_def)
  ultimately show ?case using 6(1) by simp
qed (simp_all add: sim_ip_def)

definition sim_start :: "byte list \<Rightarrow> sim" where
  "sim_start bs = \<lparr>inbox = bs, outbox = [], ticks = 100\<rparr>"

definition sample_client :: "sim MQTTClient" where
  "sample_client =
     \<lparr>next_packetid = 0, command_timeout_ms = 5000, buf_size = 32, readbuf_size = 8, wbuf = replicate 32 0, readbuf = replicate 8 0,
      ka_interval = 60, ping_outstanding = False, fail_count = 0, isconnected = True, messageHandlers = [],
      defaultMessageHandler = None, ping_timer = 0\<rparr>"

text \<open>C28: Publishing puts the message on the wire. On a connection that accepts bytes or fails, \<open>MQTTPublish\<close> with
  quality of service 0 on a connected client returns within one step per byte of the packet, whatever the pieces the
  connection accepts and however the clock runs; what it has sent is a prefix of the one PUBLISH packet for this topic
  and payload, and it reports success exactly when that is the whole packet.\<close>

theorem publish_on_wire:
  fixes m :: MQTTMessage and topic :: "byte list"
  defines "body \<equiv> publish_body 0 (msg_id m) (MQTTString_initializer\<lparr>cstring := Some topic\<rparr>) (msg_payload m)"
  defines "pkt \<equiv> packet (MQTTHeader PUBLISH 0 0 (msg_retained m)) body"
  assumes "tcp_out ip out" and "isconnected c" and "msg_qos m = 0" and "length topic < 65536"
    and "length body < 268435456" and "MQTTPacket_len (length body) \<le> buf_size c" and "length pkt < fuel"
  shows "\<exists>rc c' w' k. MQTTPublish fuel ip c topic m w = Some (rc, m, c', w') \<and> out w' = out w @ take k pkt
    \<and> (k = length pkt \<and> rc = SUCCESS \<or> k < length pkt \<and> rc = FAILURE)"
  using tcp_out.publish_qos0[OF assms(3), OF assms(4), OF assms(5), OF assms(6)] assms(7-9) unfolding body_def pkt_def by blast

theorem publish_on_wire_witness:
  "\<exists>rc m c' w' k. MQTTPublish 20 (sim_ip 2) sample_client [97] \<lparr>msg_qos = 0, msg_retained = 0, msg_id = 0, msg_payload = [1, 2]\<rparr> (sim_start [])
       = Some (rc, m, c', w')
     \<and> outbox w' = take k [0x30, 5, 0, 1, 97, 1, 2] \<and> (k = 7 \<and> rc = SUCCESS \<or> k < 7 \<and> rc = FAILURE)"
proof -
  let ?m = "\<lparr>msg_qos = 0, msg_retained = 0, msg_id = 0, msg_payload = [1, 2]\<rparr>"
  have b: "publish_body 0 0 (MQTTString_initializer\<lparr>cstring := Some [97]\<rparr>) [1, 2] = [0, 1, 97, 1, 2]"
    by (simp add: publish_body_def str_bytes_def str_wire_def MQTTString_initializer_def)
  have p: "packet (MQTTHeader PUBLISH 0 0 0) [0, 1, 97, 1, 2] = [0x30, 5, 0, 1, 97, 1, 2]"
    by (simp add: packet_def MQTTHeader_def PUBLISH_def MQTTPacket_encode.simps[of "Suc (Suc (Suc (Suc (Suc 0))))"])
  have l: "length [0x30, 5, 0, 1, 97, 1, 2 :: byte] = 7" by simp
  have "\<exists>rc c' w' k. MQTTPublish 20 (sim_ip 2) sample_client [97] ?m (sim_start []) = Some (rc, ?m, c', w')
     \<and> outbox w' = outbox (sim_start []) @ take k [0x30, 5, 0, 1, 97, 1, 2] \<and> (k = 7 \<and> rc = SUCCESS \<or> k < 7 \<and> rc = FAILURE)"
    using publish_on_wire[OF sim.tcp_out_axioms, of sample_client ?m "[97]" 20 2 "sim_start []"]
    unfolding MQTTMessage.simps b p l by (simp add: sample_client_def MQTTPacket_len_def)
  then show ?thesis by (simp add: sim_start_def) blast
qed





end
