(* ===== verification/Netconn.thy ===== *)
theory Netconn
  imports CString
begin

text \<open>
  What the UDP servers use of lwIP. A received packet is the chain of its segments, each with its address in memory
  and its bytes, and the address and port of the sender. The operations on a connection are the fields
  of \<open>netconn\<close>, parameters of the code that calls them; \<open>'n\<close> is the state of the network. Sending takes the bytes of the buffer
  that the code has allocated and filled. \<open>raw\<close> is what an uninitialised local variable holds. The helpers
  are those of \<^verbatim>\<open>src/lwip/include/netbuf_helpers.h\<close>.
\<close>

record netbuf =
  nb_segs :: "(nat \<times> byte list) list"
  nb_fromaddr :: "32 word"
  nb_fromport :: nat

record 'n netconn =
  netconn_new :: "'n \<Rightarrow> bool \<times> 'n"
  netconn_bind :: "nat \<Rightarrow> 'n \<Rightarrow> int \<times> 'n"
  netconn_connect :: "32 word \<Rightarrow> nat \<Rightarrow> 'n \<Rightarrow> 'n"
  netconn_disconnect :: "'n \<Rightarrow> 'n"
  netconn_delete :: "'n \<Rightarrow> 'n"
  netconn_set_recvtimeout :: "nat \<Rightarrow> 'n \<Rightarrow> 'n"
  netconn_gethostbyname :: "byte list \<Rightarrow> 'n \<Rightarrow> int \<times> 32 word \<times> 'n"
  netconn_recv :: "'n \<Rightarrow> int \<times> netbuf option \<times> 'n"
  netconn_send :: "byte list \<Rightarrow> 'n \<Rightarrow> int \<times> 'n"
  netconn_sendto :: "byte list \<Rightarrow> 32 word \<Rightarrow> nat \<Rightarrow> 'n \<Rightarrow> int \<times> 'n"
  netbuf_delete :: "netbuf \<Rightarrow> 'n \<Rightarrow> 'n"
  raw :: "byte list"

definition ERR_OK :: int where "ERR_OK = 0"
definition ERR_TIMEOUT :: int where "ERR_TIMEOUT = -3"
definition ERR_VAL :: int where "ERR_VAL = -6"
definition ERR_USE :: int where "ERR_USE = -8"
definition ERR_IF :: int where "ERR_IF = -15"

definition nb_bytes :: "netbuf \<Rightarrow> byte list" where
  "nb_bytes nb = concat (map snd (nb_segs nb))"

definition netbuf_len :: "netbuf \<Rightarrow> nat" where
  "netbuf_len nb = u16 (length (nb_bytes nb))"

text \<open>Copying out stops at the end of the packet; the rest of the destination keeps what it held.\<close>

definition netbuf_copy_partial :: "netbuf \<Rightarrow> byte list \<Rightarrow> nat \<Rightarrow> nat \<Rightarrow> byte list" where
  "netbuf_copy_partial nb dest len offs = overwrite (take len (drop offs (nb_bytes nb))) dest"

definition be16 :: "nat \<Rightarrow> byte list" where
  "be16 x = [of_nat (x div 256), of_nat x]"

definition netbuf_read_u16_n :: "'n netconn \<Rightarrow> netbuf \<Rightarrow> nat \<Rightarrow> nat" where
  "netbuf_read_u16_n nc nb offs =
     (let r = netbuf_copy_partial nb (take 2 (raw nc)) 2 offs in 256 * unat (r ! 0) + unat (r ! 1))"

definition netbuf_read_u8 :: "'n netconn \<Rightarrow> netbuf \<Rightarrow> nat \<Rightarrow> byte" where
  "netbuf_read_u8 nc nb offs = netbuf_copy_partial nb (take 1 (raw nc)) 1 offs ! 0"

definition ascii :: "string \<Rightarrow> byte list" where
  "ascii s = map of_char s"

lemma be16_length [simp]: "length (be16 x) = 2"
  by (simp add: be16_def)

lemma be16_value: "x < 65536 \<Longrightarrow> 256 * unat (be16 x ! 0) + unat (be16 x ! 1) = x"
  by (simp add: be16_def unat_of_nat)

lemma read_u16:
  assumes "nb_bytes nb = xs @ be16 x @ ys" and "x < 65536" and "length xs = offs"
  shows "netbuf_read_u16_n nc nb offs = x"
  using assms be16_value[of x] by (simp add: netbuf_read_u16_n_def netbuf_copy_partial_def overwrite_def be16_def)

section \<open>A connection that works\<close>

text \<open>What the network delivers to the connection next and what the connection has sent.\<close>

locale udp_conn =
  fixes nc :: "'n netconn" and arriving :: "'n \<Rightarrow> (int \<times> netbuf option) list" and sent :: "'n \<Rightarrow> byte list list"
  assumes recv: "arriving n = (err, nb) # es \<Longrightarrow> \<exists>n'. netconn_recv nc n = (err, nb, n') \<and> arriving n' = es \<and> sent n' = sent n"
    and send: "\<exists>n'. netconn_send nc bs n = (ERR_OK, n') \<and> arriving n' = arriving n \<and> sent n' = sent n @ [bs]"
    and sendto: "\<exists>n'. netconn_sendto nc bs addr port n = (ERR_OK, n') \<and> arriving n' = arriving n \<and> sent n' = sent n @ [bs]"
    and delete_quiet: "arriving (netbuf_delete nc b n) = arriving n" "sent (netbuf_delete nc b n) = sent n"
    and connect_quiet: "arriving (netconn_connect nc addr port n) = arriving n" "sent (netconn_connect nc addr port n) = sent n"
    and disconnect_quiet: "arriving (netconn_disconnect nc n) = arriving n" "sent (netconn_disconnect nc n) = sent n"
    and timeout_quiet: "arriving (netconn_set_recvtimeout nc t n) = arriving n" "sent (netconn_set_recvtimeout nc t n) = sent n"

text \<open>A simulated connection: what will arrive, and what was sent.\<close>

record simnet =
  net_in :: "(int \<times> netbuf option) list"
  net_out :: "byte list list"

definition sim_nc :: "simnet netconn" where
  "sim_nc =
     \<lparr>netconn_new = (\<lambda>n. (True, n)), netconn_bind = (\<lambda>p n. (ERR_OK, n)), netconn_connect = (\<lambda>a p n. n), netconn_disconnect = (\<lambda>n. n),
      netconn_delete = (\<lambda>n. n), netconn_set_recvtimeout = (\<lambda>t n. n), netconn_gethostbyname = (\<lambda>s n. (ERR_OK, 0, n)),
      netconn_recv = (\<lambda>n. case net_in n of [] \<Rightarrow> (ERR_TIMEOUT, None, n) | (err, nb) # es \<Rightarrow> (err, nb, n\<lparr>net_in := es\<rparr>)),
      netconn_send = (\<lambda>bs n. (ERR_OK, n\<lparr>net_out := net_out n @ [bs]\<rparr>)),
      netconn_sendto = (\<lambda>bs a p n. (ERR_OK, n\<lparr>net_out := net_out n @ [bs]\<rparr>)),
      netbuf_delete = (\<lambda>b n. n), raw = [0, 0]\<rparr>"

interpretation sim_udp: udp_conn sim_nc net_in net_out
  by unfold_locales (simp_all add: sim_nc_def)

end
