(* ===== verification/OtaTftp.thy ===== *)
theory OtaTftp
  imports Netconn RbootApi
begin

text \<open>
  Updates over TFTP, \<^verbatim>\<open>src/extras/rboot-ota/ota-tftp.c\<close>. The state is the network and the flash device. A loop
  iteration that may not come back is given fuel: \<open>Running\<close> is a loop that was still running, \<open>Fault\<close> a processor
  exception. \<open>alloc\<close> says whether memory for a copied string is there, \<open>after\<close> what lies behind a packet segment in memory,
  \<open>outside\<close> what the code reads when it indexes the ROM table outside the configuration structure.
\<close>

datatype 'a outcome = Done 'a | Fault | Running

record 'n tftp_env =
  tftp_nc :: "'n netconn"
  tftp_alloc :: bool
  tftp_after :: "nat \<Rightarrow> cptr"
  tftp_outside :: "int \<Rightarrow> 32 word"

definition TFTP_FIRMWARE_FILE :: "byte list" where "TFTP_FIRMWARE_FILE = ascii ''firmware.bin''"
definition TFTP_OCTET_MODE :: "byte list" where "TFTP_OCTET_MODE = ascii ''octet''"
definition TFTP_OP_RRQ :: nat where "TFTP_OP_RRQ = 1"
definition TFTP_OP_WRQ :: nat where "TFTP_OP_WRQ = 2"
definition TFTP_OP_DATA :: nat where "TFTP_OP_DATA = 3"
definition TFTP_OP_ACK :: nat where "TFTP_OP_ACK = 4"
definition TFTP_OP_ERROR :: nat where "TFTP_OP_ERROR = 5"
definition TFTP_ERR_FILENOTFOUND :: nat where "TFTP_ERR_FILENOTFOUND = 1"
definition TFTP_ERR_FULL :: nat where "TFTP_ERR_FULL = 3"
definition TFTP_ERR_ILLEGAL :: nat where "TFTP_ERR_ILLEGAL = 4"
definition MAX_IMAGE_SIZE :: nat where "MAX_IMAGE_SIZE = 0x100000"
definition TFTP_TIMEOUT_RETRANSMITS :: nat where "TFTP_TIMEOUT_RETRANSMITS = 10"
definition DATA_PACKET_SZ :: nat where "DATA_PACKET_SZ = 516"

section \<open>Messages\<close>

definition tftp_ack :: "nat \<Rightarrow> byte list" where
  "tftp_ack block = be16 TFTP_OP_ACK @ be16 block"

definition tftp_send_ack :: "'n netconn \<Rightarrow> nat \<Rightarrow> 'n \<Rightarrow> int \<times> 'n" where
  "tftp_send_ack nc block n = netconn_send nc (tftp_ack block) n"

definition tftp_send_error :: "'n netconn \<Rightarrow> nat \<Rightarrow> byte list \<Rightarrow> 'n \<Rightarrow> 'n" where
  "tftp_send_error nc err_code err_msg n =
     snd (netconn_send nc (be16 TFTP_OP_ERROR @ be16 err_code @ err_msg @ [0]) n)"

definition tftp_send_rrq :: "'n netconn \<Rightarrow> byte list \<Rightarrow> 'n \<Rightarrow> int \<times> 'n" where
  "tftp_send_rrq nc filename n = netconn_send nc (be16 TFTP_OP_RRQ @ filename @ [0] @ TFTP_OCTET_MODE @ [0]) n"

text \<open>The search for a field of a request: the field number, the offset reached, where the field starts and its length,
  terminator included.\<close>

function get_field_loop :: "'n netconn \<Rightarrow> netbuf \<Rightarrow> int \<Rightarrow> nat \<Rightarrow> nat \<Rightarrow> nat \<Rightarrow> int \<times> nat \<times> nat" where
  "get_field_loop nc nb field offs field_offs field_len =
     (if field \<ge> 0 \<and> offs < netbuf_len nb then
        let c = netbuf_read_u8 nc nb offs;
            len1 = (if field = 0 then field_len + 1 else field_len) in
        if c = 0 then get_field_loop nc nb (field - 1) (offs + 1) (if field = 1 then offs + 1 else field_offs) len1
        else get_field_loop nc nb field (offs + 1) field_offs len1
      else (field, field_offs, field_len))"
  by pat_completeness auto
termination
  by (relation "measure (\<lambda>(nc, nb, field, offs, field_offs, field_len). netbuf_len nb - offs)") auto

declare get_field_loop.simps [simp del]

definition tftp_get_field :: "'n tftp_env \<Rightarrow> int \<Rightarrow> netbuf \<Rightarrow> byte list option" where
  "tftp_get_field env field nb =
     (case get_field_loop (tftp_nc env) nb field 2 2 0 of
        (field1, field_offs, field_len) \<Rightarrow>
          if field1 \<noteq> -1 \<or> \<not> tftp_alloc env then None
          else Some (cstr (take field_len (drop field_offs (nb_bytes nb)))))"

section \<open>Receiving\<close>

text \<open>One write for each segment of the packet. A payload that is not word aligned is written as its first word and the
  rest, moved down to the next aligned address; what follows the rest there is what was there before.
  Moving a rest of negative length runs through all of memory.\<close>

fun write_segs ::
  "'n tftp_env \<Rightarrow> 'd flashdev \<Rightarrow> nat \<Rightarrow> nat \<Rightarrow> bool \<Rightarrow> (nat \<times> byte list) list \<Rightarrow> 'd \<Rightarrow> 'd option" where
  "write_segs env fd write_offs offset first [] d = Some d"
| "write_segs env fd write_offs offset first ((addr, bs) # segs) d =
     (let skip = (if first then 4 else 0);
          a = addr + skip;
          chunk = cbuf (drop skip bs) (tftp_after env (a + (length bs - skip)));
          chunk_len = u16 (length bs + 65536 - skip) in
      if chunk_len \<noteq> 0 \<and> a mod 4 \<noteq> 0 then
        if chunk_len < 4 then None
        else
          let d1 = snd (sdk_spi_flash_write fd (u32 (write_offs + offset)) (Some chunk) 4 d);
              up = 4 - a mod 4;
              rest = (\<lambda>i. if i < chunk_len - 4 then chunk (i + 4) else chunk (i + up));
              d2 = snd (sdk_spi_flash_write fd (u32 (write_offs + offset + 4)) (Some rest) (chunk_len - 4) d1) in
          write_segs env fd write_offs (offset + chunk_len) False segs d2
      else
        let d1 = snd (sdk_spi_flash_write fd (u32 (write_offs + offset)) (Some chunk) chunk_len d) in
        write_segs env fd write_offs (offset + chunk_len) False segs d1)"

fun verify_message :: "verify_error \<Rightarrow> byte list" where
  "verify_message Unaligned_flash_offset = ascii ''Unaligned flash offset''"
| "verify_message Flash_fail = ascii ''Flash fail''"
| "verify_message Missing_initial_magic = ascii ''Missing initial magic''"
| "verify_message Header_length_not_modulo_4 = ascii ''Header length not modulo 4''"
| "verify_message Bad_second_magic = ascii ''Bad second magic''"
| "verify_message Image_truncated = ascii ''Image truncated''"
| "verify_message Invalid_checksum = ascii ''Invalid checksum''"

text \<open>The connection to a peer whose port is not known yet, around a receive.\<close>

definition tftp_recv :: "'n netconn \<Rightarrow> (32 word \<times> nat) option \<Rightarrow> 'n \<Rightarrow> int \<times> netbuf option \<times> (32 word \<times> nat) option \<times> 'n" where
  "tftp_recv nc peer n =
     (case peer of
        None \<Rightarrow> (case netconn_recv nc n of (err, nb, n1) \<Rightarrow> (err, nb, None, n1))
      | Some (addr, port) \<Rightarrow>
          (case netconn_recv nc (netconn_disconnect nc n) of
             (err, Some nb, n1) \<Rightarrow> (err, Some nb, None, netconn_connect nc (nb_fromaddr nb) (nb_fromport nb) n1)
           | (err, None, n1) \<Rightarrow> (err, None, peer, netconn_connect nc addr port n1)))"

text \<open>Storing an accepted block and answering it: the result is the error the transfer ends with, or none to go on.
  The packet is not deleted when it does not fit.\<close>

definition tftp_accept ::
  "'n tftp_env \<Rightarrow> 'd flashdev \<Rightarrow> (nat \<Rightarrow> 'n \<Rightarrow> 'n) option \<Rightarrow> nat \<Rightarrow> nat \<Rightarrow> nat \<Rightarrow> nat \<Rightarrow> nat \<Rightarrow> netbuf \<Rightarrow> 'n \<Rightarrow> 'd \<Rightarrow>
     (int option \<times> nat \<times> 'n \<times> 'd) option" where
  "tftp_accept env fd receive_cb start_offs write_offs limit_offs block received_len nb n d =
     (let nc = tftp_nc env;
          d1 = (if write_offs mod SECTOR_SIZE = 0 then snd (sdk_spi_flash_erase_sector fd (u16 (write_offs div SECTOR_SIZE)) d) else d);
          len = netbuf_len nb in
      if u32 (write_offs + len) \<ge> limit_offs
      then Some (Some ERR_VAL, received_len, tftp_send_error nc TFTP_ERR_FULL (ascii ''Image too large'') n, d1)
      else do {
        d2 \<leftarrow> write_segs env fd write_offs 0 True (nb_segs nb) d1;
        let n1 = netbuf_delete nc nb n;
        let rlen = u32 (received_len + 2 ^ 32 + len - 4);
        let (bad, d3) =
          (if len < DATA_PACKET_SZ then
             (case rboot_verify_image fd start_offs d2 of
                (Inl e, _, d3) \<Rightarrow> (Some (verify_message e), d3)
              | (Inr _, image_length, d3) \<Rightarrow>
                  (if image_length \<noteq> rlen then Some (ascii ''Unknown validation error'') else None, d3))
           else (None, d2));
        case bad of
          Some msg \<Rightarrow> Some (Some ERR_VAL, rlen, tftp_send_error nc TFTP_ERR_ILLEGAL msg n1, d3)
        | None \<Rightarrow>
            (case tftp_send_ack nc block n1 of
               (ack_err, n2) \<Rightarrow>
                 if ack_err \<noteq> ERR_OK then Some (Some ack_err, rlen, n2, d3)
                 else
                   let n3 = (case receive_cb of Some cb \<Rightarrow> cb rlen n2 | None \<Rightarrow> n2) in
                   Some (if len < DATA_PACKET_SZ then Some ERR_OK else None, rlen, n3, d3))
      })"

fun receive_loop ::
  "nat \<Rightarrow> 'n tftp_env \<Rightarrow> 'd flashdev \<Rightarrow> (nat \<Rightarrow> 'n \<Rightarrow> 'n) option \<Rightarrow> nat \<Rightarrow> nat \<Rightarrow> (32 word \<times> nat) option \<Rightarrow>
     nat \<Rightarrow> nat \<Rightarrow> int \<Rightarrow> nat \<Rightarrow> 'n \<Rightarrow> 'd \<Rightarrow> (int \<times> nat \<times> 'n \<times> 'd) outcome" where
  "receive_loop 0 env fd receive_cb start_offs limit_offs peer write_offs block retries received_len n d = Running"
| "receive_loop (Suc fuel) env fd receive_cb start_offs limit_offs peer write_offs block retries received_len n d =
     (let nc = tftp_nc env in
      case tftp_recv nc peer n of
        (err, buf, peer1, n1) \<Rightarrow>
          if err = ERR_TIMEOUT then
            if retries > 0 \<and> block > 1
            then receive_loop fuel env fd receive_cb start_offs limit_offs peer1 write_offs block (retries - 1) received_len
                   (snd (tftp_send_ack nc (block - 1) n1)) d
            else Done (ERR_TIMEOUT, received_len, tftp_send_error nc TFTP_ERR_ILLEGAL (ascii ''Timeout'') n1, d)
          else if err \<noteq> ERR_OK
          then Done (err, received_len, tftp_send_error nc TFTP_ERR_ILLEGAL (ascii ''Failed to receive packet'') n1, d)
          else
            (case buf of
               None \<Rightarrow> Fault
             | Some nb \<Rightarrow>
                 if netbuf_read_u16_n nc nb 0 \<noteq> TFTP_OP_DATA
                 then Done (ERR_VAL, received_len, netbuf_delete nc nb (tftp_send_error nc TFTP_ERR_ILLEGAL (ascii ''Unknown opcode'') n1), d)
                 else
                   let client_block = netbuf_read_u16_n nc nb 2 in
                   if client_block \<noteq> block then
                     let n2 = netbuf_delete nc nb n1 in
                     if int client_block = int block - 1
                     then receive_loop fuel env fd receive_cb start_offs limit_offs peer1 write_offs block retries received_len
                            (snd (tftp_send_ack nc (block - 1) n2)) d
                     else Done (ERR_VAL, received_len, tftp_send_error nc TFTP_ERR_ILLEGAL (ascii ''Block# out of order'') n2, d)
                   else
                     (case tftp_accept env fd receive_cb start_offs write_offs limit_offs block received_len nb n1 d of
                        None \<Rightarrow> Fault
                      | Some (Some e, rlen, n2, d2) \<Rightarrow> Done (e, rlen, n2, d2)
                      | Some (None, rlen, n2, d2) \<Rightarrow>
                          receive_loop fuel env fd receive_cb start_offs limit_offs peer1 (u32 (write_offs + 512)) (block + 1)
                            (int TFTP_TIMEOUT_RETRANSMITS) rlen n2 d2)))"

definition tftp_receive_data ::
  "nat \<Rightarrow> 'n tftp_env \<Rightarrow> 'd flashdev \<Rightarrow> nat \<Rightarrow> nat \<Rightarrow> (32 word \<times> nat) option \<Rightarrow> (nat \<Rightarrow> 'n \<Rightarrow> 'n) option \<Rightarrow> 'n \<Rightarrow> 'd \<Rightarrow>
     (int \<times> nat \<times> 'n \<times> 'd) outcome" where
  "tftp_receive_data fuel env fd write_offs limit_offs peer receive_cb n d =
     receive_loop fuel env fd receive_cb write_offs limit_offs peer write_offs 1 (int TFTP_TIMEOUT_RETRANSMITS) 0 n d"

section \<open>Client and server\<close>

text \<open>Reading the ROM table at any index: inside the configuration structure these are its bytes.\<close>

definition rom_at :: "'n tftp_env \<Rightarrow> rboot_config \<Rightarrow> int \<Rightarrow> nat" where
  "rom_at env conf slot =
     (let p = 8 + 4 * slot; b = config_bytes conf in
      if 0 \<le> p \<and> p + 4 \<le> int (length b)
      then unat (of_le32 (b ! nat p) (b ! (nat p + 1)) (b ! (nat p + 2)) (b ! (nat p + 3)))
      else unat (tftp_outside env slot))"

text \<open>Binding the first of eleven ports that is free.\<close>

fun bind_loop :: "nat \<Rightarrow> 'n netconn \<Rightarrow> nat \<Rightarrow> 'n \<Rightarrow> int \<times> 'n" where
  "bind_loop 0 nc port n = netconn_bind nc port n"
| "bind_loop (Suc more_ports) nc port n =
     (case netconn_bind nc port n of
        (err, n1) \<Rightarrow> if err = ERR_USE then bind_loop more_ports nc (port + 1) n1 else (err, n1))"

definition ota_tftp_download ::
  "nat \<Rightarrow> 'n tftp_env \<Rightarrow> 'd flashdev \<Rightarrow> byte list \<Rightarrow> nat \<Rightarrow> byte list \<Rightarrow> nat \<Rightarrow> int \<Rightarrow> (nat \<Rightarrow> 'n \<Rightarrow> 'n) option \<Rightarrow> 'n \<Rightarrow> 'd \<Rightarrow>
     (int \<times> 'n \<times> 'd) outcome" where
  "ota_tftp_download fuel env fd server port filename timeout ota_slot receive_cb n d =
     (let nc = tftp_nc env in
      case rboot_get_config fd d of
        (conf, d1) \<Rightarrow>
          if int (unat (rc_current_rom conf)) = ota_slot \<or> int (unat (rc_count conf)) \<le> ota_slot then Done (ERR_VAL, n, d1)
          else
            let flash_offset = rom_at env conf ota_slot in
            (case netconn_new nc n of
               (False, n1) \<Rightarrow> Done (ERR_IF, n1, d1)
             | (True, n1) \<Rightarrow>
                 (case bind_loop 10 nc port (netconn_set_recvtimeout nc timeout n1) of
                    (err, n2) \<Rightarrow>
                      if err \<noteq> 0 then Done (err, netconn_delete nc n2, d1)
                      else
                        (case netconn_gethostbyname nc server n2 of
                           (err, addr, n3) \<Rightarrow>
                             if err \<noteq> 0 then Done (err, netconn_delete nc n3, d1)
                             else
                               (case tftp_send_rrq nc filename (netconn_connect nc addr port n3) of
                                  (err, n4) \<Rightarrow>
                                    if err \<noteq> 0 then Done (err, netconn_delete nc n4, d1)
                                    else
                                      (case tftp_receive_data fuel env fd flash_offset (u32 (flash_offset + MAX_IMAGE_SIZE))
                                              (Some (addr, port)) receive_cb n4 d1 of
                                         Done (err, _, n5, d2) \<Rightarrow> Done (err, netconn_delete nc n5, d2)
                                       | Fault \<Rightarrow> Fault
                                       | Running \<Rightarrow> Running))))))"

text \<open>One turn of the server's loop. Dividing by a ROM count of zero is an exception. The last component says that the
  system restarts. \<open>set_alloc\<close> is what the allocation of the sector buffer answers.\<close>

definition tftp_request_ok :: "'n tftp_env \<Rightarrow> netbuf \<Rightarrow> 'n \<Rightarrow> bool \<times> 'n" where
  "tftp_request_ok env nb n =
     (let nc = tftp_nc env in
      if netbuf_len nb < 6 \<or> netbuf_read_u16_n nc nb 0 \<noteq> TFTP_OP_WRQ then (False, netbuf_delete nc nb n)
      else if tftp_get_field env 0 nb \<noteq> Some TFTP_FIRMWARE_FILE
      then (False, netbuf_delete nc nb (tftp_send_error nc TFTP_ERR_FILENOTFOUND (ascii ''File must be firmware.bin'') n))
      else if tftp_get_field env 1 nb \<noteq> Some TFTP_OCTET_MODE
      then (False, netbuf_delete nc nb (tftp_send_error nc TFTP_ERR_ILLEGAL (ascii ''Mode must be octet/binary'') n))
      else (True, netbuf_delete nc nb (netconn_connect nc (nb_fromaddr nb) (nb_fromport nb) n)))"

definition tftp_task_step ::
  "nat \<Rightarrow> 'n tftp_env \<Rightarrow> 'd flashdev \<Rightarrow> bool \<Rightarrow> (nat \<Rightarrow> 'd \<Rightarrow> bool \<times> 'd) option \<Rightarrow> 'n \<Rightarrow> 'd \<Rightarrow> ('n \<times> 'd \<times> bool) outcome" where
  "tftp_task_step fuel env fd set_alloc verify_cb n d =
     (let nc = tftp_nc env in
      case netconn_recv nc (netconn_set_recvtimeout nc 0 n) of
        (err, buf, n1) \<Rightarrow>
          if err \<noteq> ERR_OK then Done (n1, d, False)
          else
            (case buf of
               None \<Rightarrow> Fault
             | Some nb \<Rightarrow>
                 (case tftp_request_ok env nb n1 of
                    (False, n2) \<Rightarrow> Done (n2, d, False)
                  | (True, n2) \<Rightarrow>
                      (case rboot_get_config fd d of
                         (conf, d1) \<Rightarrow>
                           if rc_count conf = 0 then Fault
                           else
                             let slot = (unat (rc_current_rom conf) + 1) mod unat (rc_count conf) in
                             if slot = unat (rc_current_rom conf)
                             then Done (netconn_disconnect nc (tftp_send_error nc TFTP_ERR_ILLEGAL (ascii ''Only one OTA slot!'') n2), d1, False)
                             else
                               (case tftp_send_ack nc 0 n2 of
                                  (ack_err, n3) \<Rightarrow>
                                    if ack_err \<noteq> 0 then Done (netconn_disconnect nc n3, d1, False)
                                    else
                                      let offs = rom_at env conf (int slot) in
                                      (case tftp_receive_data fuel env fd offs (u32 (offs + MAX_IMAGE_SIZE)) None None
                                              (netconn_set_recvtimeout nc 10000 n3) d1 of
                                         Fault \<Rightarrow> Fault
                                       | Running \<Rightarrow> Running
                                       | Done (recv_err, _, n4, d2) \<Rightarrow>
                                           let n5 = netconn_disconnect nc n4 in
                                           if recv_err \<noteq> ERR_OK then Done (n5, d2, False)
                                           else
                                             (case (case verify_cb of Some cb \<Rightarrow> cb slot d2 | None \<Rightarrow> (True, d2)) of
                                                (reboot, d3) \<Rightarrow>
                                                  if reboot
                                                  then Done (n5, snd (rboot_set_current_rom fd set_alloc (of_nat slot) d3), True)
                                                  else Done (n5, d3, False))))))))"

text \<open>The task runs until the system restarts.\<close>

fun tftp_task_loop ::
  "nat \<Rightarrow> 'n tftp_env \<Rightarrow> 'd flashdev \<Rightarrow> bool \<Rightarrow> (nat \<Rightarrow> 'd \<Rightarrow> bool \<times> 'd) option \<Rightarrow> 'n \<Rightarrow> 'd \<Rightarrow> ('n \<times> 'd) outcome" where
  "tftp_task_loop 0 env fd set_alloc verify_cb n d = Running"
| "tftp_task_loop (Suc fuel) env fd set_alloc verify_cb n d =
     (case tftp_task_step fuel env fd set_alloc verify_cb n d of
        Done (n1, d1, True) \<Rightarrow> Done (n1, d1)
      | Done (n1, d1, False) \<Rightarrow> tftp_task_loop fuel env fd set_alloc verify_cb n1 d1
      | Fault \<Rightarrow> Fault
      | Running \<Rightarrow> Running)"

definition tftp_task ::
  "nat \<Rightarrow> 'n tftp_env \<Rightarrow> 'd flashdev \<Rightarrow> bool \<Rightarrow> (nat \<Rightarrow> 'd \<Rightarrow> bool \<times> 'd) option \<Rightarrow> nat \<Rightarrow> 'n \<Rightarrow> 'd \<Rightarrow> ('n \<times> 'd) outcome" where
  "tftp_task fuel env fd set_alloc verify_cb listen_port n d =
     (case netconn_new (tftp_nc env) n of
        (False, n1) \<Rightarrow> Done (n1, d)
      | (True, n1) \<Rightarrow>
          tftp_task_loop fuel env fd set_alloc verify_cb (snd (netconn_bind (tftp_nc env) listen_port n1)) d)"

end
