(* ===== verification/Tftp_Upload.thy ===== *)
theory Tftp_Upload
  imports OtaTftp Rboot_Update
begin

text \<open>
  An update over TFTP, from the packets to the next boot. Storing a packet is followed on the flash array (in the context of
  \<open>ota_flash\<close>); \<open>udp_conn\<close> is what the transfer relies on of the connection; \<open>delivers\<close> is what a peer can make arrive. In \<open>tftp_link\<close>,
  which has both, the transfer is shown to store the file, and one turn of the server to end with the new
  firmware in place. A peer and a connection that are simulated show that all of this can happen.
\<close>

section \<open>Storing a packet\<close>

lemma nor_write_parts:
  "nor_write (a + length x) (cbuf y j) (length y) (nor_write a (cbuf x j') (length x) m) = nor_write a (cbuf (x @ y) j) (length (x @ y)) m"
  by (rule ext) (auto simp: nor_write_def cbuf_def nth_append)

context ota_flash
begin

text \<open>Sector numbers fit 16 bits.\<close>

lemma chip_max: "chip_size (sdk_flashchip fd) \<le> 0x10000000"
  using chip_24bit by simp

lemma write_unaligned:
  assumes "4 dvd a" and "4 dvd length x" and "4 \<le> length x" and "a + length x \<le> chip_size (sdk_flashchip fd)"
    and "\<And>i. i < length x \<Longrightarrow> chunk i = x ! i" and "\<And>i. i < length x - 4 \<Longrightarrow> rest i = chunk (i + 4)"
  shows "mem (snd (sdk_spi_flash_write fd (u32 (a + 4)) (Some rest) (length x - 4)
      (snd (sdk_spi_flash_write fd (u32 a) (Some chunk) 4 d)))) = nor_write a (cbuf x j) (length x) (mem d)"
proof -
  have u: "u32 a = a" "u32 (a + 4) = a + 4" using assms(3,4) chip_max by (simp_all add: u32_def)
  obtain d1 where d1: "sdk_spi_flash_write fd a (Some chunk) 4 d = (SPI_FLASH_RESULT_OK, d1)" "mem d1 = nor_write a chunk 4 (mem d)"
    using write_all[of a 4 chunk d] assms(1,3,4) by auto
  obtain d2 where d2: "sdk_spi_flash_write fd (a + 4) (Some rest) (length x - 4) d1 = (SPI_FLASH_RESULT_OK, d2)"
      "mem d2 = nor_write (a + 4) rest (length x - 4) (mem d1)"
    using write_all[of "a + 4" "length x - 4" rest d1] assms(1-4) by auto
  have "nor_write (a + 4) rest (length x - 4) (nor_write a chunk 4 (mem d)) = nor_write a (cbuf x j) (length x) (mem d)"
    using nor_write_append[of a 4 chunk "length x - 4" "mem d"] nor_write_cong[of "length x - 4" rest "\<lambda>i. chunk (4 + i)" "a + 4"]
      nor_write_cong[of "length x" chunk "cbuf x j" a] assms(3,5,6)
    by (simp add: cbuf_def add.commute)
  then show ?thesis using d1 d2 u by simp
qed

lemma write_aligned:
  assumes "4 dvd a" and "4 dvd length x" and "a + length x \<le> chip_size (sdk_flashchip fd)"
    and "\<And>i. i < length x \<Longrightarrow> chunk i = x ! i"
  shows "mem (snd (sdk_spi_flash_write fd (u32 a) (Some chunk) (length x) d)) = nor_write a (cbuf x j) (length x) (mem d)"
proof -
  have "u32 a = a" using assms(3) chip_max by (simp add: u32_def)
  moreover obtain d1 where "sdk_spi_flash_write fd a (Some chunk) (length x) d = (SPI_FLASH_RESULT_OK, d1)"
      "mem d1 = nor_write a chunk (length x) (mem d)" using write_all[OF assms(1-3)] by blast
  ultimately show ?thesis using nor_write_cong[of "length x" chunk "cbuf x j"] assms(4) by (simp add: cbuf_def)
qed

lemma write_segs_mem:
  assumes "4 dvd w" and "4 dvd offset" and "\<forall>s \<in> set segs. 4 dvd length (snd s) \<and> length (snd s) < 65536"
    and "first \<longrightarrow> segs \<noteq> [] \<and> 4 \<le> length (snd (hd segs))"
    and "x = drop (if first then 4 else 0) (concat (map snd segs))" and "w + offset + length x \<le> chip_size (sdk_flashchip fd)"
  shows "\<exists>d'. write_segs env fd w offset first segs d = Some d' \<and> mem d' = nor_write (w + offset) (cbuf x j) (length x) (mem d)"
  using assms
proof (induction segs arbitrary: offset first x d)
  case (Cons s segs)
  obtain addr bs where s: "s = (addr, bs)" by fastforce
  define k where "k = (if first then 4 else 0 :: nat)"
  define y where "y = drop k bs"
  define z where "z = concat (map snd segs)"
  have k: "k \<le> length bs" "4 dvd length bs" "length bs < 65536" using Cons.prems(3,4) s by (auto simp: k_def)
  have x: "x = y @ z" using Cons.prems(5) s k(1) by (simp add: k_def y_def z_def)
  have y: "4 dvd length y" "length y = length bs - k" using k by (auto simp: y_def k_def)
  have len: "u16 (length bs + 65536 - k) = length y"
  proof -
    have "length bs + 65536 - k = length y + 65536" using k(1) y(2) by linarith
    moreover have "length y < 65536" using k(3) y(2) by linarith
    then have "u16 (length y + 65536) = length y" by (simp add: u16_def)
    ultimately show ?thesis by (simp only:)
  qed
  define a where "a = addr + k"
  define chunk where "chunk = cbuf y (tftp_after env (a + length y))"
  have c: "\<And>i. i < length y \<Longrightarrow> chunk i = y ! i" by (simp add: chunk_def cbuf_def)
  have wo: "4 dvd w + offset" "w + offset + length y \<le> chip_size (sdk_flashchip fd)" using Cons.prems(1,2,6) x by auto
  have ih: "\<exists>d'. write_segs env fd w (offset + length y) False segs d1 = Some d'
      \<and> mem d' = nor_write (w + offset) (cbuf x j) (length x) (mem d)"
    if "mem d1 = nor_write (w + offset) (cbuf y j) (length y) (mem d)" for d1
  proof -
    have "4 dvd offset + length y" using Cons.prems(2) y(1) by simp
    from Cons.IH[OF Cons.prems(1) this, of False z d1] obtain d'
      where "write_segs env fd w (offset + length y) False segs d1 = Some d'"
        "mem d' = nor_write (w + (offset + length y)) (cbuf z j) (length z) (mem d1)"
      using Cons.prems(3,6) x by (auto simp: z_def)
    then show ?thesis using that nor_write_parts[of "w + offset" y z j j "mem d"] by (simp add: x add.assoc)
  qed
  define rest where "rest = (\<lambda>i. if i < length y - 4 then chunk (i + 4) else chunk (i + (4 - a mod 4)))"
  have eq: "write_segs env fd w offset first (s # segs) d =
      (if length y \<noteq> 0 \<and> a mod 4 \<noteq> 0 then
         if length y < 4 then None
         else write_segs env fd w (offset + length y) False segs
           (snd (sdk_spi_flash_write fd (u32 (w + offset + 4)) (Some rest) (length y - 4)
             (snd (sdk_spi_flash_write fd (u32 (w + offset)) (Some chunk) 4 d))))
       else write_segs env fd w (offset + length y) False segs (snd (sdk_spi_flash_write fd (u32 (w + offset)) (Some chunk) (length y) d)))"
    unfolding s write_segs.simps Let_def k_def[symmetric] a_def[symmetric] len y_def[symmetric] y(2)[symmetric] chunk_def[symmetric] rest_def ..
  show ?case
  proof (cases "length y \<noteq> 0 \<and> a mod 4 \<noteq> 0")
    case True
    then have "4 \<le> length y" using y(1) by (auto dest: dvd_imp_le)
    moreover from this have "mem (snd (sdk_spi_flash_write fd (u32 (w + offset + 4)) (Some rest) (length y - 4)
        (snd (sdk_spi_flash_write fd (u32 (w + offset)) (Some chunk) 4 d)))) = nor_write (w + offset) (cbuf y j) (length y) (mem d)"
      using write_unaligned[OF wo(1) y(1) _ wo(2) c, of rest d j] by (simp add: rest_def)
    ultimately show ?thesis using ih True unfolding eq by (simp only: if_True if_False not_less[symmetric]) simp
  next
    case False
    then show ?thesis using ih[OF write_aligned[OF wo(1) y(1) wo(2) c]] unfolding eq by (simp only: if_False)
  qed
qed simp

end

text \<open>The flash array while an update arrives: \<open>img\<close> at \<open>offs\<close>, erased up to \<open>e\<close> bytes behind \<open>offs\<close>.\<close>

definition upload_mem :: "nat \<Rightarrow> byte list \<Rightarrow> nat \<Rightarrow> cptr \<Rightarrow> cptr" where
  "upload_mem offs img e m i =
     (if offs \<le> i \<and> i < offs + length img then img ! (i - offs) else if offs \<le> i \<and> i < offs + e then 255 else m i)"

definition erased_for :: "nat \<Rightarrow> nat" where
  "erased_for n = 4096 * ((n + 4095) div 4096)"

lemma upload_mem_empty: "upload_mem offs [] (erased_for 0) m = m"
  by (rule ext) (auto simp: upload_mem_def erased_for_def)

lemma upload_mem_bytes: "bytes_at (upload_mem offs img e m) offs (length img) = img"
  by (rule nth_equalityI) (auto simp: upload_mem_def)

lemma sector_rest:
  assumes "n mod 512 = (0 :: nat)"
  shows "\<exists>t. n mod 4096 = 512 * t \<and> t \<le> 7"
proof -
  have "n mod 4096 mod 512 = 0" using assms by (simp add: mod_mod_cancel)
  then obtain t where t: "n mod 4096 = 512 * t" by auto
  moreover have "n mod 4096 < 4096" by simp
  ultimately show ?thesis by (intro exI[of _ t]) linarith
qed

lemma sector_end_div:
  assumes "n mod 512 = (0 :: nat)" and "k < 512"
  shows "(n + k) div 4096 = n div 4096"
proof -
  obtain t where t: "n mod 4096 = 512 * t" "t \<le> 7" using sector_rest[OF assms(1)] by blast
  then have "n + k = (n div 4096) * 4096 + (512 * t + k)" using mult_div_mod_eq[of 4096 n] by simp
  moreover have "512 * t + k < 4096" using t(2) assms(2) by simp
  ultimately show ?thesis by (metis div_small(1))
qed

lemma erased_for_next:
  assumes "n mod 512 = 0"
  shows "erased_for (n + 512) = 4096 * (n div 4096 + 1)"
    and "n mod 4096 \<noteq> 0 \<Longrightarrow> erased_for n = 4096 * (n div 4096 + 1)" and "n mod 4096 = 0 \<Longrightarrow> erased_for n = n"
proof -
  define q r where "q = n div 4096" and "r = n mod 4096"
  have n: "n = q * 4096 + r" "r < 4096" by (simp_all add: q_def r_def)
  obtain t where t: "r = 512 * t" and t8: "t \<le> 7" using sector_rest[OF assms] by (auto simp: r_def)
  have "n + 512 + 4095 = (q + 1) * 4096 + (512 * t + 511)" using n(1) t by simp
  moreover have "512 * t + 511 < 4096" using t8 by linarith
  ultimately have "(n + 512 + 4095) div 4096 = q + 1" by (simp only: div_small)
  then show "erased_for (n + 512) = 4096 * (n div 4096 + 1)" by (simp only: erased_for_def q_def)
  show "erased_for n = 4096 * (n div 4096 + 1)" if "n mod 4096 \<noteq> 0"
  proof -
    have "n + 4095 = (q + 1) * 4096 + (r - 1)" "r - 1 < 4096" using n that by (simp_all add: r_def)
    then have "(n + 4095) div 4096 = q + 1" by (simp only: div_small)
    then show ?thesis by (simp only: erased_for_def q_def)
  qed
  show "erased_for n = n" if "n mod 4096 = 0"
  proof -
    have r0: "n = q * 4096" using n(1) that by (simp add: r_def)
    then have "n + 4095 = q * 4096 + 4095" by simp
    moreover have "(4095 :: nat) < 4096" by simp
    ultimately have "(n + 4095) div 4096 = q" by (simp only: div_small)
    then show ?thesis by (simp add: erased_for_def r0)
  qed
qed

lemma upload_mem_erase:
  assumes "length img \<le> e"
  shows "nor_erase (offs + e) n (upload_mem offs img e m) = upload_mem offs img (e + n) m"
  by (rule ext) (use assms in \<open>auto simp: nor_erase_def upload_mem_def\<close>)

lemma upload_mem_write:
  assumes "length img + length x \<le> e"
  shows "nor_write (offs + length img) (cbuf x j) (length x) (upload_mem offs img e m) = upload_mem offs (img @ x) e m"
  by (rule ext) (use assms in \<open>auto simp: nor_write_def upload_mem_def cbuf_def nth_append\<close>)

context ota_flash
begin

lemma read_mem: "sdk_spi_flash_read fd a False n d = (r, bs, d') \<Longrightarrow> mem d' = mem d"
  using io.rd_mem[of a n d] by simp

lemma verify_sum_mem: "mem (snd (verify_sum fd offset i len chunk checksum d)) = mem d"
proof (induction "len - i" arbitrary: i chunk checksum d)
  case 0
  then show ?case by (subst verify_sum.simps) simp
next
  case (Suc k)
  then have "i < len" "k = len - (i + 1)" by linarith+
  then show ?case using Suc.hyps(1) io.rd_mem[of "u32 (offset + i)" 16 d]
    by (subst verify_sum.simps) (auto split: prod.splits)
qed

lemma verify_sections_mem:
  "mem (snd (snd (snd (snd (verify_loop fd lim False remaining offset checksum d))))) = mem d"
proof (induction remaining arbitrary: offset checksum d)
  case 0
  then show ?case by (subst verify_loop.simps) simp
next
  case (Suc k)
  obtain r bs d1 where r: "sdk_spi_flash_read fd offset False 8 d = (r, bs, d1)" by (cases "sdk_spi_flash_read fd offset False 8 d") auto
  obtain c d2 where v: "verify_sum fd (u32 (offset + 8)) 0 (word_at bs 4) [] checksum d1 = (c, d2)" by fastforce
  have "mem d2 = mem d" using read_mem[OF r] verify_sum_mem[of "u32 (offset + 8)" 0 "word_at bs 4" "[]" checksum d1] v by simp
  then show ?case using Suc.IH[of "align 4 (u32 (u32 (offset + 8) + word_at bs 4))" c d2] read_mem[OF r] r v
    by (subst verify_loop.simps) (simp add: Let_def)
qed

lemma verify_loop_mem: "mem (snd (snd (snd (snd (verify_loop fd lim is_new remaining offset checksum d))))) = mem d"
proof (cases is_new)
  case True
  obtain r bs d1 where r: "sdk_spi_flash_read fd offset False 8 d = (r, bs, d1)" by (cases "sdk_spi_flash_read fd offset False 8 d") auto
  let ?o = "align 16 (align 4 (u32 (u32 (offset + 8) + word_at bs 4)))"
  obtain r' hd d2 where h: "sdk_spi_flash_read fd ?o False 8 d1 = (r', hd, d2)" by (cases "sdk_spi_flash_read fd ?o False 8 d1") auto
  show ?thesis using read_mem[OF r] read_mem[OF h] r h True verify_sections_mem[of lim "unat (hd ! 1)" "u32 (?o + 8)" checksum d2]
    by (subst verify_loop.simps) (simp add: Let_def)
qed (simp add: verify_sections_mem)

lemma verify_image_mem: "rboot_verify_image fd a d = (r, len, d') \<Longrightarrow> mem d' = mem d"
proof -
  assume v: "rboot_verify_image fd a d = (r, len, d')"
  have l: "mem d2 = mem d1" if "verify_loop fd lim b k offset c d1 = (e, k', offset', c', d2)" for lim b k offset c d1 e k' offset' c' d2
    using verify_loop_mem[of lim b k offset c d1] that by simp
  show ?thesis using v unfolding rboot_verify_image_def
    by (auto simp: Let_def split: if_splits prod.splits option.splits dest!: read_mem l)
qed

end

section \<open>The transfer\<close>

context udp_conn
begin

lemma send_error_quiet:
  "arriving (tftp_send_error nc code msg n) = arriving n"
  "sent (tftp_send_error nc code msg n) = sent n @ [be16 TFTP_OP_ERROR @ be16 code @ msg @ [0]]"
  using send[of "be16 TFTP_OP_ERROR @ be16 code @ msg @ [0]" n] by (auto simp: tftp_send_error_def)

lemma recv_plain:
  "arriving n = (err, nb) # es \<Longrightarrow> \<exists>n'. tftp_recv nc None n = (err, nb, None, n') \<and> arriving n' = es \<and> sent n' = sent n"
  using recv by (fastforce simp: tftp_recv_def)

end

text \<open>A data packet, in word-sized segments of which the first has the header.\<close>

definition data_packet :: "nat \<Rightarrow> byte list \<Rightarrow> netbuf \<Rightarrow> bool" where
  "data_packet block x nb \<longleftrightarrow>
     nb_bytes nb = be16 TFTP_OP_DATA @ be16 block @ x \<and> nb_segs nb \<noteq> [] \<and> 4 \<le> length (snd (hd (nb_segs nb)))
   \<and> (\<forall>s \<in> set (nb_segs nb). 4 dvd length (snd s))"

lemma data_packet_len: "data_packet block x nb \<Longrightarrow> length x \<le> 512 \<Longrightarrow> netbuf_len nb = 4 + length x"
  by (simp add: data_packet_def netbuf_len_def u16_def)

lemma data_packet_segs:
  assumes "data_packet block x nb" and "length x \<le> 512"
  shows "\<forall>s \<in> set (nb_segs nb). 4 dvd length (snd s) \<and> length (snd s) < 65536" "drop 4 (concat (map snd (nb_segs nb))) = x"
proof -
  have len: "length (nb_bytes nb) = 4 + length x" and d: "\<forall>s \<in> set (nb_segs nb). 4 dvd length (snd s)"
    using assms(1) by (auto simp: data_packet_def)
  have "length (snd s) \<le> length (nb_bytes nb)" if "s \<in> set (nb_segs nb)" for s
    using that unfolding nb_bytes_def length_concat by (intro member_le_sum_list) (auto simp: image_image)
  then show "\<forall>s \<in> set (nb_segs nb). 4 dvd length (snd s) \<and> length (snd s) < 65536" using len d assms(2) by fastforce
  show "drop 4 (concat (map snd (nb_segs nb))) = x" using assms(1) by (simp add: data_packet_def nb_bytes_def be16_def)
qed

text \<open>The answer to the last block: an acknowledgement if the image verifies and is as long as what was received.\<close>

fun upload_answer :: "verify_error + unit \<Rightarrow> nat \<Rightarrow> nat \<Rightarrow> nat \<Rightarrow> int \<times> byte list" where
  "upload_answer (Inl e) len received block = (ERR_VAL, be16 TFTP_OP_ERROR @ be16 TFTP_ERR_ILLEGAL @ verify_message e @ [0])"
| "upload_answer (Inr u) len received block =
     (if len = received then (ERR_OK, tftp_ack block)
      else (ERR_VAL, be16 TFTP_OP_ERROR @ be16 TFTP_ERR_ILLEGAL @ ascii ''Unknown validation error'' @ [0]))"

locale tftp_link = ota_flash fd mem wel + udp_conn "tftp_nc env" arriving sent
  for fd :: "'d flashdev" and mem wel and env :: "'n tftp_env" and arriving sent
begin

definition quiet_cb :: "(nat \<Rightarrow> 'n \<Rightarrow> 'n) option \<Rightarrow> bool" where
  "quiet_cb cb \<longleftrightarrow> (\<forall>f k n. cb = Some f \<longrightarrow> arriving (f k n) = arriving n \<and> sent (f k n) = sent n)"

lemma store_block:
  assumes "data_packet block x nb" and "length x \<le> 512" and "4 dvd length x" and "4096 dvd offs" and "length img mod 512 = 0"
    and "mem d = upload_mem offs img (erased_for (length img)) m"
    and "offs + 4096 * (length img div 4096 + 1) \<le> chip_size (sdk_flashchip fd)"
  shows "\<exists>d2. write_segs env fd (offs + length img) 0 True (nb_segs nb)
        (if (offs + length img) mod SECTOR_SIZE = 0
         then snd (sdk_spi_flash_erase_sector fd (u16 ((offs + length img) div SECTOR_SIZE)) d) else d) = Some d2
      \<and> mem d2 = upload_mem offs (img @ x) (4096 * (length img div 4096 + 1)) m"
proof -
  let ?n = "length img" and ?cs = "chip_size (sdk_flashchip fd)"
  obtain t where t: "offs = 4096 * t" using assms(4) by blast
  define d1 where "d1 = (if (offs + ?n) mod SECTOR_SIZE = 0 then snd (sdk_spi_flash_erase_sector fd (u16 ((offs + ?n) div SECTOR_SIZE)) d) else d)"
  have fits: "?n + length x \<le> 4096 * (?n div 4096 + 1)"
  proof -
    define q r where "q = ?n div 4096" and "r = ?n mod 4096"
    have "r \<le> 3584" using sector_rest[OF assms(5)] by (auto simp: r_def)
    moreover have "?n = 4096 * q + r" by (simp add: q_def r_def)
    ultimately show ?thesis using assms(2) unfolding q_def[symmetric] by simp
  qed
  have m1: "mem d1 = upload_mem offs img (4096 * (?n div 4096 + 1)) m"
  proof (cases "?n mod 4096 = 0")
    case True
    then have e: "erased_for ?n = ?n" and n: "4096 * (?n div 4096) = ?n" using erased_for_next(3)[OF assms(5)] by auto
    have sec: "4096 * (t + ?n div 4096) + 4096 \<le> ?cs" "4096 * (t + ?n div 4096) = offs + ?n" using assms(7) n t by auto
    then have "4096 * (t + ?n div 4096) < 4096 * 65536" using chip_max by simp
    then have "t + ?n div 4096 < 65536" by (simp only: mult_less_cancel1)
    then have u: "u16 ((offs + ?n) div SECTOR_SIZE) = t + ?n div 4096" "(offs + ?n) mod SECTOR_SIZE = 0"
      using sec(2) True by (auto simp: SECTOR_SIZE_def u16_def t)
    obtain d' where "sdk_spi_flash_erase_sector fd (t + ?n div 4096) d = (SPI_FLASH_RESULT_OK, d')" "mem d' = nor_erase (offs + ?n) 4096 (mem d)"
      using erase_one[OF sec(1), of d] sec(2) by auto
    then show ?thesis using u upload_mem_erase[of img ?n offs 4096 m] assms(6) n e by (simp add: d1_def add.commute)
  next
    case False
    then show ?thesis using erased_for_next(2)[OF assms(5)] assms(6) t by (simp add: d1_def SECTOR_SIZE_def)
  qed
  have "4 dvd ?n" using assms(5) dvd_trans[of 4 512 ?n] by (simp add: dvd_eq_mod_eq_0)
  moreover have "4 dvd offs" using assms(4) dvd_trans[of 4 4096 offs] by simp
  ultimately have w: "4 dvd offs + ?n" by simp
  have fst: "True \<longrightarrow> nb_segs nb \<noteq> [] \<and> 4 \<le> length (snd (hd (nb_segs nb)))" using assms(1) by (simp add: data_packet_def)
  have "offs + ?n + 0 + length x \<le> ?cs" using fits assms(7) by linarith
  from write_segs_mem[OF w _ data_packet_segs(1)[OF assms(1,2)] fst _ this, of env d1]
  obtain d2 where "write_segs env fd (offs + ?n) 0 True (nb_segs nb) d1 = Some d2"
      "mem d2 = nor_write (offs + ?n) (cbuf x undefined) (length x) (mem d1)"
    using data_packet_segs(2)[OF assms(1,2)] by auto
  then show ?thesis using upload_mem_write[OF fits, of offs undefined m] m1 by (simp add: d1_def)
qed

lemma accept_block:
  assumes "data_packet block x nb" and "length x \<le> 512" and "4 dvd length x" and "4096 dvd offs" and "length img mod 512 = 0"
    and "mem d = upload_mem offs img (erased_for (length img)) m"
    and "offs + 4096 * (length img div 4096 + 1) \<le> chip_size (sdk_flashchip fd)"
    and "length img + length x + 4 < MAX_IMAGE_SIZE" and "quiet_cb cb"
  shows "\<exists>d2. mem d2 = upload_mem offs (img @ x) (4096 * (length img div 4096 + 1)) m
    \<and> (length x = 512 \<longrightarrow> (\<exists>n'. tftp_accept env fd cb offs (offs + length img) (u32 (offs + MAX_IMAGE_SIZE)) block (length img) nb n d
          = Some (None, length (img @ x), n', d2) \<and> arriving n' = arriving n \<and> sent n' = sent n @ [tftp_ack block]))
    \<and> (length x < 512 \<longrightarrow> (\<exists>v len d3 n'. rboot_verify_image fd offs d2 = (v, len, d3)
          \<and> tftp_accept env fd cb offs (offs + length img) (u32 (offs + MAX_IMAGE_SIZE)) block (length img) nb n d
              = Some (Some (fst (upload_answer v len (length (img @ x)) block)), length (img @ x), n', d3)
          \<and> arriving n' = arriving n \<and> sent n' = sent n @ [snd (upload_answer v len (length (img @ x)) block)]))"
proof -
  obtain d2 where w: "write_segs env fd (offs + length img) 0 True (nb_segs nb)
        (if (offs + length img) mod SECTOR_SIZE = 0
         then snd (sdk_spi_flash_erase_sector fd (u16 ((offs + length img) div SECTOR_SIZE)) d) else d) = Some d2"
      "mem d2 = upload_mem offs (img @ x) (4096 * (length img div 4096 + 1)) m"
    using store_block[OF assms(1-7)] by blast
  have len: "netbuf_len nb = 4 + length x" using data_packet_len[OF assms(1,2)] .
  have "offs + MAX_IMAGE_SIZE < 2 ^ 32" using assms(7) chip_max by (simp add: MAX_IMAGE_SIZE_def)
  then have lim: "\<not> u32 (offs + MAX_IMAGE_SIZE) \<le> u32 (offs + length img + netbuf_len nb)"
    using assms(8) len by (simp add: u32_def)
  have rlen: "u32 (length img + 2 ^ 32 + netbuf_len nb - 4) = length (img @ x)"
    using assms(8) len by (simp add: u32_def MAX_IMAGE_SIZE_def)
  let ?n1 = "netbuf_delete (tftp_nc env) nb n"
  obtain n2 where a: "tftp_send_ack (tftp_nc env) block ?n1 = (ERR_OK, n2)" "arriving n2 = arriving n" "sent n2 = sent n @ [tftp_ack block]"
    using send[of "tftp_ack block" ?n1] by (auto simp: tftp_send_ack_def delete_quiet)
  define n3 where "n3 = (case cb of Some f \<Rightarrow> f (length (img @ x)) n2 | None \<Rightarrow> n2)"
  have n3: "arriving n3 = arriving n" "sent n3 = sent n @ [tftp_ack block]"
    using a assms(9) by (auto simp: n3_def quiet_cb_def split: option.split)
  obtain v l d3 where v: "rboot_verify_image fd offs d2 = (v, l, d3)" by (cases "rboot_verify_image fd offs d2") auto
  have full: "tftp_accept env fd cb offs (offs + length img) (u32 (offs + MAX_IMAGE_SIZE)) block (length img) nb n d
      = Some (None, length (img @ x), n3, d2)" if "length x = 512"
    using lim rlen a(1) that len n3_def unfolding tftp_accept_def by (cases cb) (simp_all add: Let_def w(1) DATA_PACKET_SZ_def)
  have part: "\<exists>n'. tftp_accept env fd cb offs (offs + length img) (u32 (offs + MAX_IMAGE_SIZE)) block (length img) nb n d
      = Some (Some (fst (upload_answer v l (length (img @ x)) block)), length (img @ x), n', d3)
      \<and> arriving n' = arriving n \<and> sent n' = sent n @ [snd (upload_answer v l (length (img @ x)) block)]" if "length x < 512"
  proof (cases v)
    case (Inl e)
    then show ?thesis using lim rlen that len v unfolding tftp_accept_def
      by (simp add: Let_def w(1) DATA_PACKET_SZ_def send_error_quiet delete_quiet)
  next
    case (Inr u)
    then show ?thesis using lim rlen that len v a(1) n3 n3_def unfolding tftp_accept_def
      by (cases cb) (simp_all add: Let_def w(1) DATA_PACKET_SZ_def send_error_quiet delete_quiet)
  qed
  show ?thesis using w(2) full part n3 v by blast
qed

end

text \<open>What a peer that sends \<open>img\<close> from block \<open>block\<close> on can make arrive, and the blocks acknowledged before the last: timeouts,
  as long as the retransmits last, and repetitions of the previous block can come before each new block.\<close>

inductive delivers :: "nat \<Rightarrow> nat \<Rightarrow> byte list \<Rightarrow> (int \<times> netbuf option) list \<Rightarrow> nat list \<Rightarrow> bool" where
  timeout: "block > 1 \<Longrightarrow> delivers block retries img es acks \<Longrightarrow>
    delivers block (Suc retries) img ((ERR_TIMEOUT, None) # es) ((block - 1) # acks)"
| again: "nb_bytes nb = be16 TFTP_OP_DATA @ be16 (block - 1) @ x \<Longrightarrow> block > 0 \<Longrightarrow> delivers block retries img es acks \<Longrightarrow>
    delivers block retries img ((ERR_OK, Some nb) # es) ((block - 1) # acks)"
| next_block: "512 \<le> length img \<Longrightarrow> data_packet block (take 512 img) nb \<Longrightarrow>
    delivers (block + 1) TFTP_TIMEOUT_RETRANSMITS (drop 512 img) es acks \<Longrightarrow>
    delivers block retries img ((ERR_OK, Some nb) # es) (block # acks)"
| last_block: "length img < 512 \<Longrightarrow> data_packet block img nb \<Longrightarrow> delivers block retries img ((ERR_OK, Some nb) # es) []"

context tftp_link
begin

lemma read_data:
  assumes "nb_bytes nb = be16 TFTP_OP_DATA @ be16 block @ x" and "block < 65536"
  shows "netbuf_read_u16_n nc nb 0 = TFTP_OP_DATA" "netbuf_read_u16_n nc nb 2 = block"
  using read_u16[of nb "[]" TFTP_OP_DATA "be16 block @ x" 0 nc] read_u16[of nb "be16 TFTP_OP_DATA" block x 2 nc] assms
  by (simp_all add: TFTP_OP_DATA_def)

lemma receive_data:
  assumes "tftp_recv (tftp_nc env) None n = (ERR_OK, Some nb, None, n1)" and "nb_bytes nb = be16 TFTP_OP_DATA @ be16 b @ x" and "b < 65536"
  shows "receive_loop (Suc f) env fd cb offs lim None w block retries len n d =
    (if b \<noteq> block then
       if int b = int block - 1
       then receive_loop f env fd cb offs lim None w block retries len (snd (tftp_send_ack (tftp_nc env) (block - 1) (netbuf_delete (tftp_nc env) nb n1))) d
       else Done (ERR_VAL, len, tftp_send_error (tftp_nc env) TFTP_ERR_ILLEGAL (ascii ''Block# out of order'') (netbuf_delete (tftp_nc env) nb n1), d)
     else
       (case tftp_accept env fd cb offs w lim block len nb n1 d of
          None \<Rightarrow> Fault
        | Some (Some e, rlen, n2, d2) \<Rightarrow> Done (e, rlen, n2, d2)
        | Some (None, rlen, n2, d2) \<Rightarrow>
            receive_loop f env fd cb offs lim None (u32 (w + 512)) (block + 1) (int TFTP_TIMEOUT_RETRANSMITS) rlen n2 d2))"
  using assms(1) read_data[OF assms(2,3), of "tftp_nc env"] by (simp add: ERR_OK_def ERR_TIMEOUT_def Let_def)

lemma receive_loop_run:
  assumes "delivers block retries rest es acks" and "arriving n = es" and "length es < fuel" and "block = length img div 512 + 1"
    and "length img mod 512 = 0" and "mem d = upload_mem offs img (erased_for (length img)) m"
    and "4096 dvd offs" and "4 dvd length rest" and "length img + length rest + 4 < MAX_IMAGE_SIZE"
    and "offs + 4096 * ((length img + length rest) div 4096 + 1) \<le> chip_size (sdk_flashchip fd)" and "quiet_cb cb"
  shows "\<exists>d2 v len d3 n'. mem d2 = upload_mem offs (img @ rest) (4096 * (length (img @ rest) div 4096 + 1)) m
    \<and> rboot_verify_image fd offs d2 = (v, len, d3)
    \<and> receive_loop fuel env fd cb offs (u32 (offs + MAX_IMAGE_SIZE)) None (offs + length img) block (int retries) (length img) n d
        = Done (fst (upload_answer v len (length (img @ rest)) (length (img @ rest) div 512 + 1)), length (img @ rest), n', d3)
    \<and> sent n' = sent n @ map tftp_ack acks @ [snd (upload_answer v len (length (img @ rest)) (length (img @ rest) div 512 + 1))]"
  using assms
proof (induction arbitrary: fuel img n d rule: delivers.induct)
  case (timeout block retries rest es acks)
  obtain f where f: "fuel = Suc f" "length es < f" using timeout.prems(2) by (cases fuel) auto
  obtain n1 where r: "tftp_recv (tftp_nc env) None n = (ERR_TIMEOUT, None, None, n1)" "arriving n1 = es" "sent n1 = sent n"
    using recv_plain[OF timeout.prems(1)] by blast
  obtain n2 where a: "tftp_send_ack (tftp_nc env) (block - 1) n1 = (ERR_OK, n2)" "arriving n2 = es" "sent n2 = sent n @ [tftp_ack (block - 1)]"
    using send[of "tftp_ack (block - 1)" n1] r(2,3) by (auto simp: tftp_send_ack_def)
  have "receive_loop fuel env fd cb offs (u32 (offs + MAX_IMAGE_SIZE)) None (offs + length img) block (int (Suc retries)) (length img) n d
      = receive_loop f env fd cb offs (u32 (offs + MAX_IMAGE_SIZE)) None (offs + length img) block (int retries) (length img) n2 d"
    using f(1) r(1) a(1) timeout.hyps(1) by simp
  then show ?case
    using timeout.IH[OF a(2) f(2) timeout.prems(3-10)] a(3) by simp
next
  case (again nb block x retries rest es acks)
  obtain f where f: "fuel = Suc f" "length es < f" using again.prems(2) by (cases fuel) auto
  obtain n1 where r: "tftp_recv (tftp_nc env) None n = (ERR_OK, Some nb, None, n1)" "arriving n1 = es" "sent n1 = sent n"
    using recv_plain[OF again.prems(1)] by blast
  let ?n1 = "netbuf_delete (tftp_nc env) nb n1"
  obtain n2 where a: "tftp_send_ack (tftp_nc env) (block - 1) ?n1 = (ERR_OK, n2)" "arriving n2 = es" "sent n2 = sent n @ [tftp_ack (block - 1)]"
    using send[of "tftp_ack (block - 1)" ?n1] r(2,3) by (auto simp: tftp_send_ack_def delete_quiet)
  have "length img div 512 < 65536" using again.prems(8) by (simp add: MAX_IMAGE_SIZE_def)
  then have b: "block - 1 < 65536" using again.prems(3) by simp
  have "receive_loop fuel env fd cb offs (u32 (offs + MAX_IMAGE_SIZE)) None (offs + length img) block (int retries) (length img) n d
      = receive_loop f env fd cb offs (u32 (offs + MAX_IMAGE_SIZE)) None (offs + length img) block (int retries) (length img) n2 d"
    unfolding f(1) receive_data[OF r(1) again.hyps(1) b] using a(1) again.hyps(2) by auto
  then show ?case
    using again.IH[OF a(2) f(2) again.prems(3-10)] a(3) by simp
next
  case (next_block rest block nb es acks retries)
  obtain f where f: "fuel = Suc f" "length es < f" using next_block.prems(2) by (cases fuel) auto
  obtain n1 where r: "tftp_recv (tftp_nc env) None n = (ERR_OK, Some nb, None, n1)" "arriving n1 = es" "sent n1 = sent n"
    using recv_plain[OF next_block.prems(1)] by blast
  let ?x = "take 512 rest" and ?rest = "drop 512 rest"
  have x: "length ?x = 512" "length img + length ?x + length ?rest = length img + length rest" using next_block.hyps(1) by simp_all
  have "length img div 4096 \<le> (length img + length rest) div 4096" by (intro div_le_mono) simp
  then have chip: "offs + 4096 * (length img div 4096 + 1) \<le> chip_size (sdk_flashchip fd)" using next_block.prems(9) by simp
  have small: "length img + length ?x + 4 < MAX_IMAGE_SIZE" using next_block.prems(8) x by linarith
  have "length img div 512 + 1 < 65536" using next_block.prems(8) by (simp add: MAX_IMAGE_SIZE_def)
  then have b: "block < 65536" using next_block.prems(3) by simp
  have nb: "nb_bytes nb = be16 TFTP_OP_DATA @ be16 block @ ?x" using next_block.hyps(2) by (simp add: data_packet_def)
  obtain d2 n2 where ac: "mem d2 = upload_mem offs (img @ ?x) (4096 * (length img div 4096 + 1)) m"
      "tftp_accept env fd cb offs (offs + length img) (u32 (offs + MAX_IMAGE_SIZE)) block (length img) nb n1 d = Some (None, length (img @ ?x), n2, d2)"
      "arriving n2 = es" "sent n2 = sent n @ [tftp_ack block]"
    using accept_block[OF next_block.hyps(2) _ _ next_block.prems(6,4,5) chip small next_block.prems(10), of n1] x r(2,3) by auto
  have "u32 (offs + length img + 512) = offs + length (img @ ?x)"
    using x(1) small chip chip_max by (simp add: u32_def MAX_IMAGE_SIZE_def)
  then have step: "receive_loop fuel env fd cb offs (u32 (offs + MAX_IMAGE_SIZE)) None (offs + length img) block (int retries) (length img) n d
      = receive_loop f env fd cb offs (u32 (offs + MAX_IMAGE_SIZE)) None (offs + length (img @ ?x)) (block + 1) (int TFTP_TIMEOUT_RETRANSMITS)
          (length (img @ ?x)) n2 d2"
    unfolding f(1) receive_data[OF r(1) nb b] using ac(2) by simp
  have m: "mem d2 = upload_mem offs (img @ ?x) (erased_for (length (img @ ?x))) m"
    using ac(1) erased_for_next(1)[OF next_block.prems(4)] x(1) by simp
  have l: "block + 1 = length (img @ ?x) div 512 + 1" "length (img @ ?x) mod 512 = 0" "4 dvd length ?rest"
    using next_block.prems(3,4,7) x(1) by (auto simp: dvd_diff_nat)
  have e: "(img @ ?x) @ ?rest = img @ rest" by simp
  have sz: "length (img @ ?x) + length ?rest + 4 < MAX_IMAGE_SIZE"
    "offs + 4096 * ((length (img @ ?x) + length ?rest) div 4096 + 1) \<le> chip_size (sdk_flashchip fd)"
    using next_block.prems(8,9) x by simp_all
  show ?case
    using next_block.IH[OF ac(3) f(2) l(1,2) m next_block.prems(6) l(3) sz next_block.prems(10)] ac(4) unfolding step e by auto
next
  case (last_block rest block nb retries es)
  obtain f where f: "fuel = Suc f" using last_block.prems(2) by (cases fuel) auto
  obtain n1 where r: "tftp_recv (tftp_nc env) None n = (ERR_OK, Some nb, None, n1)" "arriving n1 = es" "sent n1 = sent n"
    using recv_plain[OF last_block.prems(1)] by blast
  have len: "length rest \<le> 512" using last_block.hyps(1) by simp
  define q r' where "q = length img div 512" and "r' = length rest"
  have i: "length img = 512 * q" using last_block.prems(4) by (auto simp: q_def)
  have blk: "length (img @ rest) div 512 + 1 = block" using last_block.prems(3) last_block.hyps(1) i by simp
  have sec: "length (img @ rest) div 4096 = length img div 4096"
    using sector_end_div last_block.hyps(1) last_block.prems(4) by simp
  have b: "block < 65536" using last_block.prems(3,8) by (simp add: MAX_IMAGE_SIZE_def)
  have nb: "nb_bytes nb = be16 TFTP_OP_DATA @ be16 block @ rest" using last_block.hyps(2) by (simp add: data_packet_def)
  have chip: "offs + 4096 * (length img div 4096 + 1) \<le> chip_size (sdk_flashchip fd)" using last_block.prems(9) sec by simp
  obtain d2 v l d3 n2 where ac: "mem d2 = upload_mem offs (img @ rest) (4096 * (length img div 4096 + 1)) m"
      "rboot_verify_image fd offs d2 = (v, l, d3)"
      "tftp_accept env fd cb offs (offs + length img) (u32 (offs + MAX_IMAGE_SIZE)) block (length img) nb n1 d
        = Some (Some (fst (upload_answer v l (length (img @ rest)) block)), length (img @ rest), n2, d3)"
      "sent n2 = sent n @ [snd (upload_answer v l (length (img @ rest)) block)]"
    using accept_block[OF last_block.hyps(2) len last_block.prems(7,6,4,5) chip last_block.prems(8,10), of n1] last_block.hyps(1) r(3) by auto
  have "receive_loop fuel env fd cb offs (u32 (offs + MAX_IMAGE_SIZE)) None (offs + length img) block (int retries) (length img) n d
      = Done (fst (upload_answer v l (length (img @ rest)) block), length (img @ rest), n2, d3)"
    unfolding f(1) receive_data[OF r(1) nb b] using ac(3) by simp
  then show ?case using ac(1,2,4) blk unfolding sec by auto
qed

lemma receive_upload:
  assumes "delivers 1 TFTP_TIMEOUT_RETRANSMITS img (arriving n) acks"
    and "length (arriving n) < fuel" and "4096 dvd offs" and "4 dvd length img" and "length img + 4 < MAX_IMAGE_SIZE"
    and "offs + 4096 * (length img div 4096 + 1) \<le> chip_size (sdk_flashchip fd)"
  shows "\<exists>d2 v len d' n'. mem d2 = upload_mem offs img (4096 * (length img div 4096 + 1)) (mem d)
    \<and> rboot_verify_image fd offs d2 = (v, len, d') \<and> mem d' = mem d2
    \<and> tftp_receive_data fuel env fd offs (u32 (offs + MAX_IMAGE_SIZE)) None None n d
        = Done (fst (upload_answer v len (length img) (length img div 512 + 1)), length img, n', d')
    \<and> sent n' = sent n @ map tftp_ack acks @ [snd (upload_answer v len (length img) (length img div 512 + 1))]"
proof -
  have "quiet_cb None" by (simp add: quiet_cb_def)
  from receive_loop_run[OF assms(1) refl assms(2), of "[]" d offs "mem d" None] this assms(3-6) upload_mem_empty
  obtain d2 v len d' n' where r: "mem d2 = upload_mem offs img (4096 * (length img div 4096 + 1)) (mem d)"
    "rboot_verify_image fd offs d2 = (v, len, d')"
    "tftp_receive_data fuel env fd offs (u32 (offs + MAX_IMAGE_SIZE)) None None n d
        = Done (fst (upload_answer v len (length img) (length img div 512 + 1)), length img, n', d')"
    "sent n' = sent n @ map tftp_ack acks @ [snd (upload_answer v len (length img) (length img div 512 + 1))]"
    unfolding tftp_receive_data_def by auto
  then show ?thesis using verify_image_mem[OF r(2)] by blast
qed

end

text \<open>C32: An uploaded file is in flash as it was sent. Let a peer send a file over TFTP in blocks of 512 bytes, the packets
  arriving in one or several word-sized segments at any address, with blocks repeated and timeouts in between as long
  as the ten retransmits last. Then \<open>tftp_receive_data\<close> returns, having written the file to flash at its place and erased the
  rest of the sectors it reaches, everything else as it was; it has acknowledged each block in turn, and reports success, with an
  acknowledgement of the last block, exactly if the image then verifies and has the length of the file.\<close>

theorem upload_received:
  assumes "tftp_link fd mem wel env arriving sent" and "delivers 1 TFTP_TIMEOUT_RETRANSMITS img (arriving n) acks"
    and "length (arriving n) < fuel" and "4096 dvd offs" and "4 dvd length img" and "length img + 4 < MAX_IMAGE_SIZE"
    and "offs + 4096 * (length img div 4096 + 1) \<le> chip_size (sdk_flashchip fd)"
  shows "\<exists>d2 v len d' n'. mem d2 = upload_mem offs img (4096 * (length img div 4096 + 1)) (mem d)
    \<and> rboot_verify_image fd offs d2 = (v, len, d') \<and> mem d' = mem d2 \<and> bytes_at (mem d') offs (length img) = img
    \<and> tftp_receive_data fuel env fd offs (u32 (offs + MAX_IMAGE_SIZE)) None None n d
        = Done (fst (upload_answer v len (length img) (length img div 512 + 1)), length img, n', d')
    \<and> sent n' = sent n @ map tftp_ack acks @ [snd (upload_answer v len (length img) (length img div 512 + 1))]"
  using tftp_link.receive_upload[OF assms(1), OF assms(2), OF assms(3), OF assms(4), OF assms(5), OF assms(6), OF assms(7), of d]
    upload_mem_bytes[of offs img] by metis

section \<open>The request\<close>

lemma read_u8: "offs < length (nb_bytes nb) \<Longrightarrow> netbuf_read_u8 nc nb offs = nb_bytes nb ! offs"
  by (simp add: netbuf_read_u8_def netbuf_copy_partial_def overwrite_def nth_append)

lemma get_field_last:
  assumes "nb_bytes nb = xs @ f @ 0 # ys" and "0 \<notin> set f" and "length (nb_bytes nb) < 65536"
  shows "get_field_loop nc nb 0 (length xs) fo len = (-1, fo, len + length f + 1)"
  using assms
proof (induction f arbitrary: xs len)
  case Nil
  then have "netbuf_read_u8 nc nb (length xs) = 0" "length xs < netbuf_len nb" by (simp_all add: read_u8 netbuf_len_def u16_def)
  then show ?case by (subst get_field_loop.simps) (simp add: get_field_loop.simps[of nc nb "-1"])
next
  case (Cons c f)
  then have "netbuf_read_u8 nc nb (length xs) = c" "length xs < netbuf_len nb" "c \<noteq> 0" by (auto simp: read_u8 netbuf_len_def u16_def)
  then show ?case using Cons.IH[of "xs @ [c]" "len + 1"] Cons.prems by (subst get_field_loop.simps) simp
qed

lemma get_field_skip:
  assumes "nb_bytes nb = xs @ f @ 0 # ys" and "0 \<notin> set f" and "length (nb_bytes nb) < 65536"
  shows "get_field_loop nc nb 1 (length xs) fo len = get_field_loop nc nb 0 (length xs + length f + 1) (length xs + length f + 1) len"
  using assms
proof (induction f arbitrary: xs)
  case Nil
  then have "netbuf_read_u8 nc nb (length xs) = 0" "length xs < netbuf_len nb" by (simp_all add: read_u8 netbuf_len_def u16_def)
  then show ?case by (subst get_field_loop.simps) simp
next
  case (Cons c f)
  then have "netbuf_read_u8 nc nb (length xs) = c" "length xs < netbuf_len nb" "c \<noteq> 0" by (auto simp: read_u8 netbuf_len_def u16_def)
  then show ?case using Cons.IH[of "xs @ [c]"] Cons.prems by (subst get_field_loop.simps) simp
qed

lemma get_fields:
  assumes "nb_bytes nb = [x, y] @ f @ 0 # g @ 0 # ys" and "0 \<notin> set f" and "0 \<notin> set g" and "length (nb_bytes nb) < 65536"
    and "tftp_alloc env"
  shows "tftp_get_field env 0 nb = Some f" "tftp_get_field env 1 nb = Some g"
proof -
  have c: "cstr (f @ 0 # zs) = f" "cstr (g @ 0 # zs) = g" for zs using assms(2,3) by (auto simp: cstr_terminated)
  have "get_field_loop (tftp_nc env) nb 0 2 2 0 = (-1, 2, length f + 1)"
    using get_field_last[of nb "[x, y]" f "g @ 0 # ys" "tftp_nc env" 2 0] assms by (simp add: numeral_2_eq_2)
  then show "tftp_get_field env 0 nb = Some f" using assms(1,5) c(1)[of "[]"] by (simp add: tftp_get_field_def)
  have "get_field_loop (tftp_nc env) nb 1 2 2 0 = (-1, 3 + length f, length g + 1)"
    using get_field_skip[of nb "[x, y]" f "g @ 0 # ys" "tftp_nc env" 2 0]
      get_field_last[of nb "[x, y] @ f @ [0]" g ys "tftp_nc env" "3 + length f" 0] assms by (simp add: numeral_2_eq_2 numeral_3_eq_3)
  moreover have "drop (3 + length f) (nb_bytes nb) = g @ 0 # ys" using assms(1) by (simp add: eval_nat_numeral)
  ultimately show "tftp_get_field env 1 nb = Some g" using assms(5) c(2)[of "[]"] by (simp add: tftp_get_field_def)
qed

text \<open>A write request for the firmware file in octet mode, and whatever options may follow.\<close>

definition write_request :: "netbuf \<Rightarrow> bool" where
  "write_request nb \<longleftrightarrow> length (nb_bytes nb) < 65536
     \<and> (\<exists>opts. nb_bytes nb = be16 TFTP_OP_WRQ @ TFTP_FIRMWARE_FILE @ 0 # TFTP_OCTET_MODE @ 0 # opts)"

lemma request_accepted:
  assumes "write_request nb" and "tftp_alloc env"
  shows "tftp_request_ok env nb n =
    (True, netbuf_delete (tftp_nc env) nb (netconn_connect (tftp_nc env) (nb_fromaddr nb) (nb_fromport nb) n))"
proof -
  obtain opts where o: "nb_bytes nb = be16 TFTP_OP_WRQ @ TFTP_FIRMWARE_FILE @ 0 # TFTP_OCTET_MODE @ 0 # opts"
    and l: "length (nb_bytes nb) < 65536" using assms(1) by (auto simp: write_request_def)
  have z: "0 \<notin> set TFTP_FIRMWARE_FILE" "0 \<notin> set TFTP_OCTET_MODE"
    by (simp_all add: TFTP_FIRMWARE_FILE_def TFTP_OCTET_MODE_def ascii_def of_char_def)
  have "\<exists>x y. be16 TFTP_OP_WRQ = [x, y]" by (simp add: be16_def)
  then obtain x y where xy: "be16 TFTP_OP_WRQ = [x, y]" by blast
  have f: "tftp_get_field env 0 nb = Some TFTP_FIRMWARE_FILE" "tftp_get_field env 1 nb = Some TFTP_OCTET_MODE"
    using get_fields[OF _ z l assms(2)] o unfolding xy by blast+
  have "netbuf_read_u16_n (tftp_nc env) nb 0 = TFTP_OP_WRQ"
    using read_u16[of nb "[]" TFTP_OP_WRQ _ 0 "tftp_nc env"] o by (simp add: TFTP_OP_WRQ_def)
  moreover have "\<not> netbuf_len nb < 6" using o l by (simp add: netbuf_len_def u16_def TFTP_FIRMWARE_FILE_def ascii_def)
  ultimately show ?thesis using f by (simp add: tftp_request_ok_def Let_def)
qed

section \<open>From upload to boot\<close>

lemma config_bytes_of:
  assumes "24 \<le> length bs" and "i < 24"
  shows "config_bytes (config_of bs) ! i = bs ! i"
proof -
  have "config_of bs\<lparr>rc_current_rom := bs ! 3\<rparr> = config_of bs" by (simp add: config_of_def)
  then have "config_body (config_of bs) = take 24 bs" using config_of_body[OF assms(1), of "bs ! 3"] assms(1) by (simp add: list_update_same_conv)
  then show ?thesis using assms by (simp add: config_bytes_def nth_append)
qed

lemma rom_at_config:
  assumes "slot < 4"
  shows "rom_at env (config_of (bytes_at m 0x1000 28)) (int slot) = conf_rom (bytes_at m 0x1000 4096) (int slot)"
proof -
  let ?b = "bytes_at m 0x1000 28"
  have n: "nat (8 + 4 * int slot) = 8 + 4 * slot" by simp
  have "config_bytes (config_of ?b) ! i = bytes_at m 0x1000 4096 ! i" if "i < 24" for i using config_bytes_of[of ?b i] that by simp
  then show ?thesis using assms config_bytes_length[OF config_of_ok(1), of ?b]
    by (simp add: rom_at_def conf_rom_def word_at_def Let_def n)
qed

context tftp_link
begin

lemma task_receives:
  fixes d n
  defines "conf \<equiv> config_of (bytes_at (mem d) 0x1000 28)"
  defines "slot \<equiv> (unat (rc_current_rom conf) + 1) mod unat (rc_count conf)"
  defines "offs \<equiv> rom_at env conf (int slot)"
  assumes "arriving n = (ERR_OK, Some nb) # es" and "write_request nb" and "tftp_alloc env"
    and "rc_count conf \<noteq> 0" and "slot \<noteq> unat (rc_current_rom conf)"
    and "delivers 1 TFTP_TIMEOUT_RETRANSMITS img es acks" and "length es < fuel"
    and "4096 dvd offs" and "4 dvd length img" and "length img + 4 < MAX_IMAGE_SIZE"
    and "offs + 4096 * (length img div 4096 + 1) \<le> chip_size (sdk_flashchip fd)"
    and "\<And>d2. mem d2 = upload_mem offs img (4096 * (length img div 4096 + 1)) (mem d) \<Longrightarrow>
           \<exists>d3. rboot_verify_image fd offs d2 = (Inr (), length img, d3)"
  shows "\<exists>n' d2. tftp_task_step fuel env fd True None n d = Done (n', snd (rboot_set_current_rom fd True (of_nat slot) d2), True)
    \<and> mem d2 = upload_mem offs img (4096 * (length img div 4096 + 1)) (mem d)
    \<and> sent n' = sent n @ map tftp_ack (0 # acks @ [length img div 512 + 1])"
proof -
  let ?nc = "tftp_nc env"
  obtain n1 where n1: "netconn_recv ?nc (netconn_set_recvtimeout ?nc 0 n) = (ERR_OK, Some nb, n1)" "arriving n1 = es" "sent n1 = sent n"
    using recv[of "netconn_set_recvtimeout ?nc 0 n"] assms(4) by (auto simp: timeout_quiet)
  define n2 where "n2 = netbuf_delete ?nc nb (netconn_connect ?nc (nb_fromaddr nb) (nb_fromport nb) n1)"
  obtain d1 where d1: "rboot_get_config fd d = (conf, d1)" "mem d1 = mem d" using get_config_run[of d] by (auto simp: conf_def)
  obtain n3 where n3: "tftp_send_ack ?nc 0 n2 = (ERR_OK, n3)" "arriving n3 = es" "sent n3 = sent n @ [tftp_ack 0]"
    using send[of "tftp_ack 0" n2] n1 by (auto simp: tftp_send_ack_def n2_def delete_quiet connect_quiet)
  let ?n4 = "netconn_set_recvtimeout ?nc 10000 n3"
  have n4: "arriving ?n4 = es" "sent ?n4 = sent n @ [tftp_ack 0]" using n3 by (simp_all add: timeout_quiet)
  obtain d2 v len d' n5 where r: "mem d2 = upload_mem offs img (4096 * (length img div 4096 + 1)) (mem d1)"
      "rboot_verify_image fd offs d2 = (v, len, d')" "mem d' = mem d2"
      "tftp_receive_data fuel env fd offs (u32 (offs + MAX_IMAGE_SIZE)) None None ?n4 d1
        = Done (fst (upload_answer v len (length img) (length img div 512 + 1)), length img, n5, d')"
      "sent n5 = sent ?n4 @ map tftp_ack acks @ [snd (upload_answer v len (length img) (length img div 512 + 1))]"
    using receive_upload[of img ?n4 acks fuel offs d1] assms(9-14) n4(1) by auto
  have ok: "v = Inr ()" "len = length img" using assms(15)[of d2] r(1,2) d1(2) by auto
  have sl: "Suc (unat (rc_current_rom conf)) mod unat (rc_count conf) = slot" by (simp add: slot_def)
  have "tftp_task_step fuel env fd True None n d
      = Done (netconn_disconnect ?nc n5, snd (rboot_set_current_rom fd True (of_nat slot) d'), True)"
    unfolding tftp_task_step_def Let_def
    using n1(1) request_accepted[OF assms(5,6), of n1] d1(1) assms(7,8) n3(1) r(4) ok
    by (simp add: n2_def[symmetric] sl offs_def[symmetric] ERR_OK_def)
  moreover have "sent (netconn_disconnect ?nc n5) = sent n @ map tftp_ack (0 # acks @ [length img div 512 + 1])"
    using r(5) n4(2) ok by (simp add: disconnect_quiet)
  ultimately show ?thesis using r(1,3) d1(2) by auto
qed

end

text \<open>C8: Firmware uploaded over TFTP is what boots next. Let the boot configuration be valid, with two to four ROMs, and let a
  peer request to write the firmware and send a file that is a good image of its own length for the slot after
  the current one. Then one turn of the server's task acknowledges the request and each block and ends in a restart, and the boot
  loader, started on the flash it leaves, starts this image.\<close>

theorem tftp_update_boots:
  fixes d :: 'd and mem :: "'d \<Rightarrow> cptr" and img :: "byte list"
  defines "buf \<equiv> bytes_at (mem d) 0x1000 4096"
  defines "slot \<equiv> (unat (conf_current_rom buf) + 1) mod unat (conf_count buf)"
  defines "offs \<equiv> conf_rom buf (int slot)"
  defines "m' \<equiv> upload_mem offs img (4096 * (length img div 4096 + 1)) (mem d)"
  assumes "tftp_link fd mem wel env arriving sent" and "config_valid opt buf" and "2 \<le> unat (conf_count buf)" and "unat (conf_count buf) \<le> 4"
    and "conf_current_rom buf < conf_count buf"
    and "\<And>i. i < unat (conf_count buf) \<Longrightarrow> conf_rom buf (int i) \<in> {0, 0xffffffff} \<union> {0x2000..}
           \<and> image_fits (chip_size (sdk_flashchip fd)) m' (conf_rom buf (int i))"
    and "arriving n = (ERR_OK, Some nb) # es" and "write_request nb" and "tftp_alloc env"
    and "delivers 1 TFTP_TIMEOUT_RETRANSMITS img es acks" and "length es < fuel"
    and "4096 dvd offs" and "4 dvd length img" and "length img + 4 < MAX_IMAGE_SIZE"
    and "offs + 4096 * (length img div 4096 + 1) \<le> chip_size (sdk_flashchip fd)"
    and "verifiable (chip_size (sdk_flashchip fd)) m' offs s" and "image_sum_ok m' s" and "image_end m' s + 1 = offs + length img"
    and "boot_hw br bmem rtcw (chip_size (sdk_flashchip fd))" and "\<not> BOOT_IROM_CHKSUM opt" and "\<not> BOOT_GPIO_ENABLED opt"
    and "length rtc = 12" and "ptr \<noteq> 0" and "4 dvd ptr"
  shows "\<exists>n' d'. tftp_task_step fuel env fd True None n d = Done (n', d', True)
    \<and> sent n' = sent n @ map tftp_ack (0 # acks @ [length img div 512 + 1])
    \<and> (\<forall>b. bmem b = mem d' \<and> (BOOT_RTC_ENABLED opt \<longrightarrow> \<not> temp_requested (rtcw b)) \<longrightarrow>
         (\<exists>b'. find_image 5 opt br ptr rtc b = Some (s, b') \<and> bmem b' = bmem b))"
proof -
  have ota: "ota_flash fd mem wel" using assms(5) by (simp add: tftp_link_def)
  let ?conf = "config_of (bytes_at (mem d) 0x1000 28)"
  have c: "rc_current_rom ?conf = conf_current_rom buf" "rc_count ?conf = conf_count buf"
    by (simp_all add: config_of_def conf_current_rom_def conf_count_def buf_def)
  have cnt: "conf_count buf \<noteq> 0" using assms(7) by auto
  have lt: "slot < unat (conf_count buf)" using assms(7) by (simp add: slot_def)
  have "unat (conf_current_rom buf) < unat (conf_count buf)" using assms(9) by (simp add: word_less_nat_alt)
  then have ne: "slot \<noteq> unat (conf_current_rom buf)" using assms(7) unfolding slot_def
    by (cases "unat (conf_current_rom buf) + 1 = unat (conf_count buf)") auto
  have rom: "rom_at env ?conf (int slot) = offs" using rom_at_config[of slot env "mem d"] lt assms(8) by (simp add: offs_def buf_def)
  have st: "image_start m' offs = Some s" using assms(20) by (simp add: verifiable_def)
  then have a2: "0x2000 \<le> offs" using assms(10)[OF lt] by (auto simp: image_start_def offs_def)
  have ver: "\<exists>d3. rboot_verify_image fd offs d2 = (Inr (), length img, d3)" if "mem d2 = m'" for d2
    using ota_flash.verify_image_run[OF ota, of d2 offs s] assms(20-22) that by auto
  obtain n' d2 where t: "tftp_task_step fuel env fd True None n d = Done (n', snd (rboot_set_current_rom fd True (of_nat slot) d2), True)"
      "mem d2 = m'" "sent n' = sent n @ map tftp_ack (0 # acks @ [length img div 512 + 1])"
    using tftp_link.task_receives[OF assms(5), of n nb es d img acks fuel] assms(11-19) c cnt ne ver rom
    unfolding m'_def slot_def by auto
  have b2: "bytes_at (mem d2) 0x1000 4096 = buf"
    using a2 unfolding t(2) buf_def m'_def by (intro bytes_at_cong) (simp add: upload_mem_def)
  have s8: "unat (of_nat slot :: byte) = slot" "(of_nat slot :: byte) < conf_count buf"
    using lt assms(8) by (simp_all add: unat_of_nat word_less_nat_alt)
  have "\<exists>b'. find_image 5 opt br ptr rtc b = Some (s, b') \<and> bmem b' = bmem b"
    if "bmem b = mem (snd (rboot_set_current_rom fd True (of_nat slot) d2))" "BOOT_RTC_ENABLED opt \<longrightarrow> \<not> temp_requested (rtcw b)" for b
    using ota_flash.verified_boot[OF ota, of buf d2 opt "of_nat slot" s br bmem rtcw b rtc ptr 5] ver[OF t(2)] that assms(6,8,10,20,23-28) b2 t(2) s8
    by (auto simp: offs_def)
  then show ?thesis using t(1,3) by blast
qed

section \<open>A simulated peer\<close>

definition sim_env :: "simnet tftp_env" where
  "sim_env = \<lparr>tftp_nc = sim_nc, tftp_alloc = True, tftp_after = (\<lambda>_ _. 0), tftp_outside = (\<lambda>_. 0)\<rparr>"

interpretation sim_link: tftp_link sim_flash sim_mem "\<lambda>_. True" sim_env net_in net_out
  by unfold_locales (simp_all add: sim_env_def sim_nc_def)

text \<open>A request, a packet with block number 0, and the one data packet, at an address that is not word aligned.\<close>

definition sample_img :: "byte list" where
  "sample_img = [0xe9, 1, 0, 0, 0, 0, 0x10, 0x40, 0, 0, 0x10, 0x40, 4, 0, 0, 0, 1, 2, 4, 8, 255, 255, 255, 255, 255, 255, 255, 255, 255, 255, 255, 0xe0]"

definition sample_wrq :: netbuf where
  "sample_wrq = \<lparr>nb_segs = [(0x3ffe0000, [0, 2] @ TFTP_FIRMWARE_FILE @ 0 # TFTP_OCTET_MODE @ [0])], nb_fromaddr = 0x0a000002, nb_fromport = 1069\<rparr>"

definition sample_data_packet :: netbuf where
  "sample_data_packet = \<lparr>nb_segs = [(0x3ffe0002, [0, 3, 0, 1] @ sample_img)], nb_fromaddr = 0x0a000002, nb_fromport = 1069\<rparr>"

definition sample_dup :: netbuf where
  "sample_dup = \<lparr>nb_segs = [(0x3ffe0002, [0, 3, 0, 0])], nb_fromaddr = 0x0a000002, nb_fromport = 1069\<rparr>"

definition sample_events :: "(int \<times> netbuf option) list" where
  "sample_events = [(ERR_OK, Some sample_dup), (ERR_OK, Some sample_data_packet)]"

lemma sample_img_length: "length sample_img = 32"
  by (simp add: sample_img_def)

lemma sample_delivers: "delivers 1 TFTP_TIMEOUT_RETRANSMITS sample_img sample_events [0]"
proof -
  have "data_packet 1 sample_img sample_data_packet"
    by (simp add: data_packet_def sample_data_packet_def nb_bytes_def be16_def TFTP_OP_DATA_def sample_img_length)
  moreover have "length sample_img < 512" by (simp add: sample_img_length)
  moreover have "nb_bytes sample_dup = be16 TFTP_OP_DATA @ be16 (1 - 1) @ []"
    by (simp add: sample_dup_def nb_bytes_def be16_def TFTP_OP_DATA_def)
  ultimately show ?thesis
    using delivers.again[of sample_dup 1 "[]"] delivers.last_block[of sample_img 1 sample_data_packet TFTP_TIMEOUT_RETRANSMITS "[]"]
    by (simp add: sample_events_def)
qed

definition sample_two_slots :: sim_dev where
  "sample_two_slots =
     [(0x1000, 0xe1), (0x1001, 1), (0x1002, 0), (0x1003, 0), (0x1005, 2), (0x1008, 0), (0x1009, 0x20), (0x100a, 0), (0x100b, 0),
      (0x100c, 0), (0x100d, 0x30), (0x100e, 0), (0x100f, 0)]"

definition sample_uploaded :: cptr where
  "sample_uploaded = upload_mem 0x3000 sample_img 4096 (sim_mem sample_two_slots)"

lemma sample_uploaded_image:
  "image_start sample_uploaded 0x3000 = Some 0x3000" "image_end sample_uploaded 0x3000 = 0x301f" "image_sum_ok sample_uploaded 0x3000"
  "verifiable (chip_size (sdk_flashchip sim_flash)) sample_uploaded 0x3000 0x3000"
  "image_fits (chip_size (sdk_flashchip sim_flash)) sample_uploaded 0x3000"
  "image_fits (chip_size (sdk_flashchip sim_flash)) sample_uploaded 0x2000"
proof -
  have at: "sample_uploaded (0x3000 + i) = sample_img ! i" if "i < 32" for i
    using that by (simp add: sample_uploaded_def upload_mem_def sample_img_length)
  have m: "sample_uploaded 0x3000 = ROM_MAGIC" "sample_uploaded 0x3001 = 1" "sample_uploaded 0x301f = 0xe0"
    "mword sample_uploaded 0x300c = 4" "bytes_at sample_uploaded 0x3010 4 = [1, 2, 4, 8]"
    using at[of 0] at[of 1] at[of 12] at[of 13] at[of 14] at[of 15] at[of 16] at[of 17] at[of 18] at[of 19] at[of 31]
    by (simp_all add: sample_img_def ROM_MAGIC_def mword_def of_le32_def bytes_at_4)
  have n: "sample_uploaded 0x2000 = 255" by (simp add: sample_uploaded_def upload_mem_def sim_mem_def sample_two_slots_def)
  show s: "image_start sample_uploaded 0x3000 = Some 0x3000" "image_end sample_uploaded 0x3000 = 0x301f"
    using m by (simp_all add: image_start_def image_end_def sum_pos_def)
  show "image_sum_ok sample_uploaded 0x3000" unfolding image_sum_ok_def s by (simp add: m calc_chksum_def CHKSUM_INIT_def)
  show "verifiable (chip_size (sdk_flashchip sim_flash)) sample_uploaded 0x3000 0x3000"
    "image_fits (chip_size (sdk_flashchip sim_flash)) sample_uploaded 0x3000"
    using s m by (simp_all add: verifiable_def image_fits_def sim_flash_def sdk_flashchip_init_def)
  show "image_fits (chip_size (sdk_flashchip sim_flash)) sample_uploaded 0x2000"
    using n by (simp add: image_fits_def image_start_def ROM_MAGIC_def ROM_MAGIC_NEW1_def sim_flash_def sdk_flashchip_init_def)
qed

lemma sample_slots:
  fixes buf defines "buf \<equiv> bytes_at (sim_mem sample_two_slots) 0x1000 4096"
  shows "config_valid repo_options buf" "conf_count buf = 2" "conf_current_rom buf = 0" "conf_rom buf 0 = 0x2000" "conf_rom buf 1 = 0x3000"
  by (simp_all add: buf_def config_valid_def conf_count_def conf_current_rom_def conf_rom_def word_at_def sim_mem_def sample_two_slots_def
      BOOT_CONFIG_MAGIC_def BOOT_CONFIG_VERSION_def repo_options_def of_le32_def)

theorem upload_received_witness:
  "\<exists>v len d' n'. tftp_receive_data 5 sim_env sim_flash 0x3000 (u32 (0x3000 + MAX_IMAGE_SIZE)) None None \<lparr>net_in = sample_events, net_out = []\<rparr> sample_two_slots
     = Done (fst (upload_answer v len 32 1), 32, n', d')
   \<and> bytes_at (sim_mem d') 0x3000 32 = sample_img \<and> net_out n' = [tftp_ack 0, snd (upload_answer v len 32 1)]"
proof -
  have "4096 dvd (0x3000 :: nat)" "4 dvd length sample_img" by (simp_all add: sample_img_length)
  then show ?thesis
    using upload_received[OF sim_link.tftp_link_axioms, of sample_img "\<lparr>net_in = sample_events, net_out = []\<rparr>" "[0]" 5 "0x3000" sample_two_slots]
      sample_delivers
    by (auto simp: sample_img_length sample_events_def MAX_IMAGE_SIZE_def sim_flash_def sdk_flashchip_init_def)
qed

theorem tftp_update_boots_witness:
  "\<exists>n' d'. tftp_task_step 5 sim_env sim_flash True None \<lparr>net_in = (ERR_OK, Some sample_wrq) # sample_events, net_out = []\<rparr> sample_two_slots
       = Done (n', d', True)
     \<and> net_out n' = map tftp_ack [0, 0, 1]
     \<and> (\<exists>b'. find_image 5 repo_options sim_bootrom 0x3ffe0000 (replicate 12 0) (sim_mem d', \<lambda>_. 0) = Some (0x3000, b'))"
proof -
  have wrq: "write_request sample_wrq"
    by (simp add: write_request_def sample_wrq_def nb_bytes_def be16_def TFTP_OP_WRQ_def TFTP_FIRMWARE_FILE_def TFTP_OCTET_MODE_def ascii_def)
  have t: "\<not> temp_requested (\<lambda>_. 0)" by (simp add: temp_requested_def rtc_bytes_def le32_def)
  let ?buf = "bytes_at (sim_mem sample_two_slots) 0x1000 4096"
  have offs: "conf_rom ?buf (int ((unat (conf_current_rom ?buf) + 1) mod unat (conf_count ?buf))) = 0x3000"
    by (simp add: sample_slots)
  have up: "upload_mem 0x3000 sample_img (4096 * (length sample_img div 4096 + 1)) (sim_mem sample_two_slots) = sample_uploaded"
    by (simp add: sample_uploaded_def sample_img_length)
  have roms: "conf_rom ?buf (int i) \<in> {0, 0xffffffff} \<union> {0x2000..} \<and> image_fits (chip_size (sdk_flashchip sim_flash)) sample_uploaded (conf_rom ?buf (int i))"
    if "i < unat (conf_count ?buf)" for i
  proof -
    have "i = 0 \<or> i = 1" using that by (auto simp: sample_slots)
    then show ?thesis using sample_uploaded_image(5,6) by (auto simp: sample_slots)
  qed
  have sz: "4096 dvd (0x3000 :: nat)" "4 dvd length sample_img" "length sample_img + 4 < MAX_IMAGE_SIZE"
    "0x3000 + 4096 * (length sample_img div 4096 + 1) \<le> chip_size (sdk_flashchip sim_flash)" "tftp_alloc sim_env"
    "image_end sample_uploaded 0x3000 + 1 = 0x3000 + length sample_img" "length sample_events < 5"
    by (simp_all add: sample_img_length MAX_IMAGE_SIZE_def sim_flash_def sdk_flashchip_init_def sim_env_def sample_uploaded_image(2) sample_events_def)
  let ?n = "\<lparr>net_in = (ERR_OK, Some sample_wrq) # sample_events, net_out = []\<rparr>"
  have "\<exists>n' d'. tftp_task_step 5 sim_env sim_flash True None ?n sample_two_slots = Done (n', d', True)
    \<and> net_out n' = net_out ?n @ map tftp_ack (0 # [0] @ [length sample_img div 512 + 1])
    \<and> (\<forall>b. fst b = sim_mem d' \<and> (BOOT_RTC_ENABLED repo_options \<longrightarrow> \<not> temp_requested (snd b)) \<longrightarrow>
         (\<exists>b'. find_image 5 repo_options sim_bootrom 0x3ffe0000 (replicate 12 0) b = Some (0x3000, b') \<and> fst b' = fst b))"
    by (rule tftp_update_boots[OF sim_link.tftp_link_axioms, where d = sample_two_slots and img = sample_img and opt = repo_options, unfolded offs up,
        OF sample_slots(1) _ _ _ roms _ wrq sz(5) sample_delivers sz(7) sz(1-4) sample_uploaded_image(4,3) sz(6) sample_rom_boot repo_options_off(1,2)])
      (simp_all add: sample_slots)
  then show ?thesis using t by (fastforce simp: sample_img_length)
qed

end
