(* ===== verification/Dhcpserver.thy ===== *)
theory Dhcpserver
  imports Netconn
begin

text \<open>
  The DHCP server of \<^verbatim>\<open>src/extras/dhcpserver/dhcpserver.c\<close>. A message is the list of the 552 bytes of the structure
  \<^verbatim>\<open>dhcp_msg\<close> with its options field grown to 312 bytes; its fields are read and stored at their offsets. An IP address is the list of
  its four octets. The lease table has one entry for each address, counted from the first client address.
  The tick counter, the interface and what an uninitialised address holds are the fields of \<open>dhcp_env\<close>.
\<close>

definition DHCP_OPTIONS_LEN :: nat where "DHCP_OPTIONS_LEN = 312"
definition DHCP_OPTIONS_OFS :: nat where "DHCP_OPTIONS_OFS = 240"
definition DHCP_MSG_SIZE :: nat where "DHCP_MSG_SIZE = DHCP_OPTIONS_OFS + DHCP_OPTIONS_LEN"
definition DHCPSERVER_LEASE_TIME :: nat where "DHCPSERVER_LEASE_TIME = 3600 * 24"
definition configTICK_RATE_HZ :: nat where "configTICK_RATE_HZ = 100"
definition NETIF_MAX_HWADDR_LEN :: nat where "NETIF_MAX_HWADDR_LEN = 6"
definition DHCP_BOOTREPLY :: byte where "DHCP_BOOTREPLY = 2"
definition DHCP_HTYPE_ETH :: byte where "DHCP_HTYPE_ETH = 1"
definition DHCP_DISCOVER :: byte where "DHCP_DISCOVER = 1"
definition DHCP_OFFER :: byte where "DHCP_OFFER = 2"
definition DHCP_REQUEST :: byte where "DHCP_REQUEST = 3"
definition DHCP_ACK :: byte where "DHCP_ACK = 5"
definition DHCP_NAK :: byte where "DHCP_NAK = 6"
definition DHCP_RELEASE :: byte where "DHCP_RELEASE = 7"
definition DHCP_OPTION_SUBNET_MASK :: byte where "DHCP_OPTION_SUBNET_MASK = 1"
definition DHCP_OPTION_ROUTER :: byte where "DHCP_OPTION_ROUTER = 3"
definition DHCP_OPTION_REQUESTED_IP :: byte where "DHCP_OPTION_REQUESTED_IP = 50"
definition DHCP_OPTION_LEASE_TIME :: byte where "DHCP_OPTION_LEASE_TIME = 51"
definition DHCP_OPTION_MESSAGE_TYPE :: byte where "DHCP_OPTION_MESSAGE_TYPE = 53"
definition DHCP_OPTION_SERVER_ID :: byte where "DHCP_OPTION_SERVER_ID = 54"
definition DHCP_OPTION_END :: byte where "DHCP_OPTION_END = 255"

record dhcp_lease =
  hwaddr :: "byte list"
  expires :: nat

record server_state =
  max_leases :: nat
  first_client_addr :: "byte list"
  leases :: "dhcp_lease list"

record 'n dhcp_env =
  dhcp_nc :: "'n netconn"
  dhcp_ticks :: "'n \<Rightarrow> nat"
  dhcp_stack_ip :: "byte list"
  if_ip_addr :: "byte list"
  if_netmask :: "byte list"
  if_gw :: "byte list"

section \<open>Message fields\<close>

definition put_field :: "nat \<Rightarrow> byte list \<Rightarrow> byte list \<Rightarrow> byte list" where
  "put_field i bs msg = take i msg @ bs @ drop (i + length bs) msg"

definition get_field :: "nat \<Rightarrow> nat \<Rightarrow> byte list \<Rightarrow> byte list" where
  "get_field i n msg = take n (drop i msg)"

definition msg_htype :: "byte list \<Rightarrow> byte" where "msg_htype msg = msg ! 1"
definition msg_hlen :: "byte list \<Rightarrow> nat" where "msg_hlen msg = unat (msg ! 2)"
definition msg_ciaddr :: "byte list \<Rightarrow> byte list" where "msg_ciaddr msg = get_field 12 4 msg"
definition msg_yiaddr :: "byte list \<Rightarrow> byte list" where "msg_yiaddr msg = get_field 16 4 msg"
definition msg_chaddr :: "byte list \<Rightarrow> byte list" where "msg_chaddr msg = get_field 28 16 msg"

text \<open>The position of the data of an option.\<close>

function find_option_loop :: "byte list \<Rightarrow> byte \<Rightarrow> nat \<Rightarrow> nat \<Rightarrow> nat option" where
  "find_option_loop msg option_num min_length p =
     (if p < DHCP_MSG_SIZE - 2 then
        let type = msg ! p;
            len = unat (msg ! (p + 1));
            p2 = p + 2 in
        if type = DHCP_OPTION_END then None
        else if p2 + len \<ge> DHCP_MSG_SIZE then None
        else if type = option_num then (if len < min_length then None else Some p2)
        else find_option_loop msg option_num min_length (p2 + len)
      else None)"
  by pat_completeness auto
termination
  by (relation "measure (\<lambda>(msg, option_num, min_length, p). DHCP_MSG_SIZE - p)") (auto simp: DHCP_MSG_SIZE_def)

declare find_option_loop.simps [simp del]

definition find_dhcp_option :: "byte list \<Rightarrow> byte \<Rightarrow> nat \<Rightarrow> nat option" where
  "find_dhcp_option msg option_num min_length = find_option_loop msg option_num min_length DHCP_OPTIONS_OFS"

text \<open>The option writers append to what has been written so far.\<close>

definition add_dhcp_option_byte :: "byte list \<Rightarrow> byte \<Rightarrow> byte \<Rightarrow> byte list" where
  "add_dhcp_option_byte opt type value = opt @ [type, 1, value]"

definition add_dhcp_option_bytes :: "byte list \<Rightarrow> byte \<Rightarrow> byte list \<Rightarrow> byte list" where
  "add_dhcp_option_bytes opt type value =
     opt @ type # (if length value \<noteq> 0 then of_nat (length value) # value else [])"

text \<open>The options written over the cleared field.\<close>

definition set_options :: "byte list \<Rightarrow> byte list \<Rightarrow> byte list" where
  "set_options opt msg = put_field DHCP_OPTIONS_OFS (overwrite opt (replicate DHCP_OPTIONS_LEN 0)) msg"

definition send_reply :: "'n dhcp_env \<Rightarrow> byte list \<Rightarrow> 'n \<Rightarrow> 'n" where
  "send_reply env msg n = snd (netconn_sendto (dhcp_nc env) msg 0xffffffff 68 n)"

section \<open>Leases\<close>

text \<open>The search loop: the first free slot seen so far, and the slots still to look at.\<close>

fun find_lease_loop :: "byte list \<Rightarrow> nat \<Rightarrow> nat option \<Rightarrow> dhcp_lease list \<Rightarrow> nat option" where
  "find_lease_loop hw i empty_lease [] = empty_lease"
| "find_lease_loop hw i empty_lease (l # ls) =
     (if expires l = 0 \<and> empty_lease = None then find_lease_loop hw (i + 1) (Some i) ls
      else if take 6 hw = take 6 (hwaddr l) then Some i
      else find_lease_loop hw (i + 1) empty_lease ls)"

definition find_lease_slot :: "byte list \<Rightarrow> server_state \<Rightarrow> nat option" where
  "find_lease_slot hw st = find_lease_loop hw 0 None (take (max_leases st) (leases st))"

definition expire_leases :: "nat \<Rightarrow> server_state \<Rightarrow> server_state" where
  "expire_leases now st =
     st\<lparr>leases := map (\<lambda>l. if expires l \<noteq> 0 \<and> expires l < now then l\<lparr>expires := 0\<rparr> else l) (leases st)\<rparr>"

definition handle_dhcp_discover :: "'n dhcp_env \<Rightarrow> byte list \<Rightarrow> server_state \<Rightarrow> 'n \<Rightarrow> 'n" where
  "handle_dhcp_discover env msg st n =
     (if msg_htype msg \<noteq> DHCP_HTYPE_ETH \<or> msg_hlen msg > NETIF_MAX_HWADDR_LEN then n
      else
        (case find_lease_slot (msg_chaddr msg) st of
           None \<Rightarrow> n
         | Some slot \<Rightarrow>
             let addr = first_client_addr st;
                 yiaddr = addr[3 := addr ! 3 + of_nat slot];
                 opt1 = add_dhcp_option_byte [] DHCP_OPTION_MESSAGE_TYPE DHCP_OFFER;
                 opt2 = add_dhcp_option_bytes opt1 DHCP_OPTION_SERVER_ID (if_ip_addr env);
                 opt3 = add_dhcp_option_bytes opt2 DHCP_OPTION_SUBNET_MASK (if_netmask env);
                 opt4 = add_dhcp_option_bytes opt3 DHCP_OPTION_END [] in
             send_reply env (put_field 16 yiaddr (set_options opt4 (put_field 0 [DHCP_BOOTREPLY] msg))) n))"

definition send_dhcp_nak :: "'n dhcp_env \<Rightarrow> byte list \<Rightarrow> 'n \<Rightarrow> 'n" where
  "send_dhcp_nak env msg n =
     (let opt1 = add_dhcp_option_byte [] DHCP_OPTION_MESSAGE_TYPE DHCP_NAK;
          opt2 = add_dhcp_option_bytes opt1 DHCP_OPTION_SERVER_ID (if_ip_addr env);
          opt3 = add_dhcp_option_bytes opt2 DHCP_OPTION_END [] in
      send_reply env (set_options opt3 (put_field 0 [DHCP_BOOTREPLY] msg)) n)"

text \<open>The address asked for: the option, or the client's address if the uninitialised variable happens to be zero.\<close>

definition requested_ip :: "'n dhcp_env \<Rightarrow> byte list \<Rightarrow> byte list option" where
  "requested_ip env msg =
     (case find_dhcp_option msg DHCP_OPTION_REQUESTED_IP 4 of
        Some p \<Rightarrow> Some (get_field p 4 msg)
      | None \<Rightarrow> if dhcp_stack_ip env = [0, 0, 0, 0] then Some (msg_ciaddr msg) else None)"

definition dhcp_ack_msg :: "'n dhcp_env \<Rightarrow> byte list \<Rightarrow> byte list \<Rightarrow> byte list" where
  "dhcp_ack_msg env ip msg =
     (let opt1 = add_dhcp_option_byte [] DHCP_OPTION_MESSAGE_TYPE DHCP_ACK;
          opt2 = add_dhcp_option_bytes opt1 DHCP_OPTION_LEASE_TIME (rev (le32 (of_nat DHCPSERVER_LEASE_TIME)));
          opt3 = add_dhcp_option_bytes opt2 DHCP_OPTION_SERVER_ID (if_ip_addr env);
          opt4 = add_dhcp_option_bytes opt3 DHCP_OPTION_SUBNET_MASK (if_netmask env);
          opt5 = add_dhcp_option_bytes opt4 DHCP_OPTION_ROUTER (if_gw env);
          opt6 = add_dhcp_option_bytes opt5 DHCP_OPTION_END [] in
      put_field 16 ip (set_options opt6 (put_field 0 [DHCP_BOOTREPLY] msg)))"

definition handle_dhcp_request :: "'n dhcp_env \<Rightarrow> byte list \<Rightarrow> server_state \<Rightarrow> 'n \<Rightarrow> server_state \<times> 'n" where
  "handle_dhcp_request env msg st n =
     (if msg_htype msg \<noteq> DHCP_HTYPE_ETH \<or> msg_hlen msg > NETIF_MAX_HWADDR_LEN then (st, n)
      else
        (case requested_ip env msg of
           None \<Rightarrow> (st, send_dhcp_nak env msg n)
         | Some ip \<Rightarrow>
             if take 3 ip \<noteq> take 3 (first_client_addr st) then (st, send_dhcp_nak env msg n)
             else
               let octet_offs = int (unat (ip ! 3)) - int (unat (first_client_addr st ! 3)) in
               if octet_offs < 0 \<or> octet_offs \<ge> int (max_leases st) then (st, send_dhcp_nak env msg n)
               else
                 let i = nat octet_offs;
                     l = leases st ! i;
                     hw = take (msg_hlen msg) (msg_chaddr msg) in
                 if expires l \<noteq> 0 \<and> take (msg_hlen msg) (hwaddr l) \<noteq> hw then (st, send_dhcp_nak env msg n)
                 else
                   (st\<lparr>leases := (leases st)[i := \<lparr>hwaddr = overwrite hw (hwaddr l),
                                                expires = u32 (DHCPSERVER_LEASE_TIME * configTICK_RATE_HZ)\<rparr>]\<rparr>,
                    send_reply env (dhcp_ack_msg env ip msg) n)))"

definition handle_dhcp_release :: "byte list \<Rightarrow> server_state \<Rightarrow> server_state" where
  "handle_dhcp_release msg st =
     (case find_lease_slot (msg_chaddr msg) st of
        None \<Rightarrow> st
      | Some i \<Rightarrow> st\<lparr>leases := (leases st)[i := (leases st ! i)\<lparr>expires := 0\<rparr>]\<rparr>)"

section \<open>The task\<close>

text \<open>One received packet.\<close>

definition dhcp_packet :: "'n dhcp_env \<Rightarrow> netbuf \<Rightarrow> server_state \<Rightarrow> 'n \<Rightarrow> server_state \<times> 'n" where
  "dhcp_packet env nb st n =
     (let st1 = expire_leases (dhcp_ticks env n) st;
          n1 = netbuf_delete (dhcp_nc env) nb n in
      if netbuf_len nb < DHCP_OPTIONS_OFS then (st1, n1)
      else
        let msg = netbuf_copy_partial nb (replicate DHCP_MSG_SIZE 0) DHCP_MSG_SIZE 0 in
        (case find_dhcp_option msg DHCP_OPTION_MESSAGE_TYPE 1 of
           None \<Rightarrow> (st1, n1)
         | Some p \<Rightarrow>
             if msg ! p = DHCP_DISCOVER then (st1, handle_dhcp_discover env msg st1 n1)
             else if msg ! p = DHCP_REQUEST then handle_dhcp_request env msg st1 n1
             else if msg ! p = DHCP_RELEASE then (handle_dhcp_release msg st1, n1)
             else (st1, n1)))"

text \<open>One turn of the loop. With \<open>ERR_OK\<close> lwIP always hands over a buffer; without a buffer nothing is done.\<close>

definition dhcp_step :: "'n dhcp_env \<Rightarrow> server_state \<Rightarrow> 'n \<Rightarrow> server_state \<times> 'n" where
  "dhcp_step env st n =
     (case netconn_recv (dhcp_nc env) n of
        (err, Some nb, n1) \<Rightarrow> if err \<noteq> ERR_OK then (st, n1) else dhcp_packet env nb st n1
      | (err, None, n1) \<Rightarrow> (st, n1))"

text \<open>The task ends only when the connection cannot be had; otherwise it has turned \<open>k\<close> times.\<close>

fun dhcp_turns :: "nat \<Rightarrow> 'n dhcp_env \<Rightarrow> server_state \<Rightarrow> 'n \<Rightarrow> server_state \<times> 'n" where
  "dhcp_turns 0 env st n = (st, n)"
| "dhcp_turns (Suc k) env st n = (case dhcp_step env st n of (st1, n1) \<Rightarrow> dhcp_turns k env st1 n1)"

definition dhcpserver_task :: "nat \<Rightarrow> 'n dhcp_env \<Rightarrow> server_state \<Rightarrow> 'n \<Rightarrow> server_state \<times> 'n" where
  "dhcpserver_task k env st n =
     (case netconn_new (dhcp_nc env) n of
        (False, n1) \<Rightarrow> (st, n1)
      | (True, n1) \<Rightarrow> dhcp_turns k env st (snd (netconn_bind (dhcp_nc env) 67 n1)))"

definition dhcpserver_start :: "byte list \<Rightarrow> nat \<Rightarrow> server_state" where
  "dhcpserver_start first_addr n =
     \<lparr>max_leases = n, first_client_addr = first_addr, leases = replicate n \<lparr>hwaddr = replicate 6 0, expires = 0\<rparr>\<rparr>"

end
