(* ===== verification/Dhcp_Leases.thy ===== *)
theory Dhcp_Leases
  imports Dhcpserver
begin

text \<open>
  What the DHCP server promises its clients, over the contract of a UDP connection: while the uptime is below the lease time, a lease that
  runs is offered and acknowledged to its holder only; past it, every lease has expired before the next
  packet is looked at. And that the options the server writes are found by its own search.
\<close>

section \<open>Options\<close>

text \<open>Options as a list of types and values; the bytes the writers produce for them.\<close>

definition encode_options :: "(byte \<times> byte list) list \<Rightarrow> byte list" where
  "encode_options os = concat (map (\<lambda>(t, v). t # of_nat (length v) # v) os)"

fun first_option :: "(byte \<times> byte list) list \<Rightarrow> byte \<Rightarrow> byte list option" where
  "first_option [] t = None"
| "first_option ((u, v) # os) t = (if u = t then Some v else first_option os t)"

lemma encode_Cons: "encode_options ((t, v) # os) = t # of_nat (length v) # v @ encode_options os"
  by (simp add: encode_options_def)

lemma find_option_encoded:
  assumes "length pre = p" and "msg = pre @ encode_options os @ DHCP_OPTION_END # rest" and "length msg = DHCP_MSG_SIZE"
    and "\<forall>(t, v) \<in> set os. t \<noteq> DHCP_OPTION_END \<and> length v < 256" and "length rest \<ge> 2"
  shows "case first_option os t of
      None \<Rightarrow> find_option_loop msg t m p = None
    | Some v \<Rightarrow> if length v < m then find_option_loop msg t m p = None
                else \<exists>q. find_option_loop msg t m p = Some q \<and> get_field q (length v) msg = v"
  using assms
proof (induction os arbitrary: pre p)
  case Nil
  then have "msg ! p = DHCP_OPTION_END" "p < DHCP_MSG_SIZE - 2" by (auto simp: encode_options_def nth_append)
  then show ?case by (simp add: find_option_loop.simps[of msg t m p] Let_def)
next
  case (Cons tv os)
  obtain u v where tv: "tv = (u, v)" by fastforce
  have v: "u \<noteq> DHCP_OPTION_END" "length v < 256" using Cons.prems(4) tv by auto
  have msg: "msg = pre @ [u, of_nat (length v)] @ v @ encode_options os @ DHCP_OPTION_END # rest" using Cons.prems(2) tv by (simp add: encode_Cons)
  have at: "msg ! p = u" "msg ! (p + 1) = of_nat (length v)" using Cons.prems(1) msg by (simp_all add: nth_append)
  have len: "unat (msg ! (p + 1)) = length v" using at(2) v(2) by (simp add: unat_of_nat)
  have fits: "p < DHCP_MSG_SIZE - 2" "p + 2 + length v < DHCP_MSG_SIZE"
    using Cons.prems(1,3,5) msg by auto
  have step: "find_option_loop msg t m p =
      (if u = t then (if length v < m then None else Some (p + 2)) else find_option_loop msg t m (p + 2 + length v))"
    using fits len at(1) v(1) by (simp add: find_option_loop.simps[of msg t m p] Let_def)
  have got: "get_field (p + 2) (length v) msg = v" using Cons.prems(1) msg by (simp add: get_field_def)
  show ?case
  proof (cases "u = t")
    case True
    then show ?thesis using step got tv by auto
  next
    case False
    have l: "length (pre @ [u, of_nat (length v)] @ v) = p + 2 + length v" using Cons.prems(1) by simp
    have m: "msg = (pre @ [u, of_nat (length v)] @ v) @ encode_options os @ DHCP_OPTION_END # rest" using msg by simp
    have o: "\<forall>(t, v) \<in> set os. t \<noteq> DHCP_OPTION_END \<and> length v < 256" using Cons.prems(4) by simp
    have "find_option_loop msg t m p = find_option_loop msg t m (p + 2 + length v)" using step False by (simp only: if_False)
    then show ?thesis using Cons.IH[OF l m Cons.prems(3) o Cons.prems(5)] False tv by (simp only: first_option.simps if_False)
  qed
qed

section \<open>Messages\<close>

lemma put_field_length: "i + length bs \<le> length msg \<Longrightarrow> length (put_field i bs msg) = length msg"
  by (simp add: put_field_def)

lemma get_put_before: "i + n \<le> j \<Longrightarrow> j + length bs \<le> length msg \<Longrightarrow> get_field i n (put_field j bs msg) = get_field i n msg"
  by (simp add: get_field_def put_field_def take_drop min_def)

lemma get_put_behind: "j + length bs \<le> i \<Longrightarrow> j + length bs \<le> length msg \<Longrightarrow> get_field i n (put_field j bs msg) = get_field i n msg"
  by (simp add: get_field_def put_field_def)

lemma get_put_same: "i + length bs \<le> length msg \<Longrightarrow> get_field i (length bs) (put_field i bs msg) = bs"
  by (simp add: get_field_def put_field_def)


section \<open>The lease table\<close>

definition wf_server :: "server_state \<Rightarrow> bool" where
  "wf_server st \<longleftrightarrow> length (leases st) = max_leases st \<and> max_leases st < 256 \<and> length (first_client_addr st) = 4
     \<and> (\<forall>l \<in> set (leases st). length (hwaddr l) = 6)"

definition same_server :: "server_state \<Rightarrow> server_state \<Rightarrow> bool" where
  "same_server st st' \<longleftrightarrow> wf_server st' \<and> max_leases st' = max_leases st \<and> first_client_addr st' = first_client_addr st"

lemma same_refl [simp]: "wf_server st \<Longrightarrow> same_server st st"
  by (simp add: same_server_def)

lemma same_update:
  assumes "wf_server st" and "length (hwaddr l) = 6"
  shows "same_server st (st\<lparr>leases := (leases st)[i := l]\<rparr>)"
  using assms set_update_subset_insert[of "leases st" i l] by (auto simp: same_server_def wf_server_def)

lemma expire_same: "wf_server st \<Longrightarrow> same_server st (expire_leases now st)"
  by (auto simp: same_server_def wf_server_def expire_leases_def)

lemma slot_in_table: "find_lease_loop hw i e ls = Some j \<Longrightarrow> e = Some j \<or> i \<le> j \<and> j < i + length ls"
  by (induction hw i e ls rule: find_lease_loop.induct) (fastforce split: if_splits)+

lemma release_same:
  assumes "wf_server st"
  shows "same_server st (handle_dhcp_release msg st)"
proof (cases "find_lease_slot (msg_chaddr msg) st")
  case None
  then show ?thesis using assms by (simp add: handle_dhcp_release_def)
next
  case (Some i)
  then have "i < length (leases st)" using slot_in_table[of _ 0 None _ i] by (fastforce simp: find_lease_slot_def)
  then show ?thesis using Some assms same_update[OF assms, of "(leases st ! i)\<lparr>expires := 0\<rparr>" i] by (simp add: handle_dhcp_release_def wf_server_def)
qed

lemma request_same:
  assumes "wf_server st" and "handle_dhcp_request env msg st n = (st', n')"
  shows "same_server st st'"
proof (cases "st' = st")
  case True
  then show ?thesis using assms(1) by simp
next
  case False
  then obtain ip where h: "msg_hlen msg \<le> NETIF_MAX_HWADDR_LEN" and ip: "requested_ip env msg = Some ip"
    using assms(2) by (auto simp: handle_dhcp_request_def split: if_splits option.splits)
  define i where "i = nat (int (unat (ip ! 3)) - int (unat (first_client_addr st ! 3)))"
  have i: "i < max_leases st"
    and st': "st' = st\<lparr>leases := (leases st)[i := \<lparr>hwaddr = overwrite (take (msg_hlen msg) (msg_chaddr msg)) (hwaddr (leases st ! i)),
      expires = u32 (DHCPSERVER_LEASE_TIME * configTICK_RATE_HZ)\<rparr>]\<rparr>"
    using assms(2) False ip unfolding i_def by (auto simp: handle_dhcp_request_def Let_def split: if_splits)
  have "length (hwaddr (leases st ! i)) = 6" using assms(1) i by (simp add: wf_server_def)
  then have "length (overwrite (take (msg_hlen msg) (msg_chaddr msg)) (hwaddr (leases st ! i))) = 6"
    using h by (simp add: overwrite_def NETIF_MAX_HWADDR_LEN_def)
  then show ?thesis unfolding st' by (intro same_update[OF assms(1)]) simp
qed

lemma packet_same:
  assumes "wf_server st" and "dhcp_packet env nb st n = (st', n')"
  shows "same_server st st'"
proof -
  have e: "same_server st (expire_leases (dhcp_ticks env n) st)" using expire_same[OF assms(1)] .
  then have w: "wf_server (expire_leases (dhcp_ticks env n) st)" by (simp add: same_server_def)
  have "same_server (expire_leases (dhcp_ticks env n) st) st'"
    using assms(2) release_same[OF w] request_same[OF w] w
    by (auto simp: dhcp_packet_def Let_def split: if_splits option.splits)
  then show ?thesis using e by (simp add: same_server_def)
qed

lemma turns_same: "wf_server st \<Longrightarrow> dhcp_turns k env st n = (st', n') \<Longrightarrow> same_server st st'"
proof (induction k arbitrary: st n)
  case (Suc k)
  obtain st1 n1 where s: "dhcp_step env st n = (st1, n1)" by fastforce
  then have "same_server st st1" using packet_same[OF Suc.prems(1)] Suc.prems(1)
    by (auto simp: dhcp_step_def split: prod.splits option.splits if_splits)
  moreover from this Suc have "same_server st1 st'" using s by (auto simp: same_server_def)
  ultimately show ?case by (simp add: same_server_def)
qed simp

text \<open>Whatever arrives, after any number of turns of the task the table is well-formed and the range of addresses is the one the server
  was started with.\<close>

lemma server_same:
  assumes "length addr = 4" and "c < 256" and "dhcpserver_task k env (dhcpserver_start addr c) n = (st', n')"
  shows "wf_server st'" "max_leases st' = c" "first_client_addr st' = addr"
proof -
  have w: "wf_server (dhcpserver_start addr c)" using assms(1,2) by (simp add: wf_server_def dhcpserver_start_def)
  have "same_server (dhcpserver_start addr c) st'"
    using assms(3) turns_same[OF w] same_refl[OF w] by (auto simp: dhcpserver_task_def split: prod.splits bool.splits)
  then show "wf_server st'" "max_leases st' = c" "first_client_addr st' = addr" by (auto simp: same_server_def dhcpserver_start_def)
qed

section \<open>Who is offered what\<close>

definition LEASE_TICKS :: nat where
  "LEASE_TICKS = u32 (DHCPSERVER_LEASE_TIME * configTICK_RATE_HZ)"

definition holds_lease :: "server_state \<Rightarrow> nat \<Rightarrow> byte list \<Rightarrow> bool" where
  "holds_lease st i h \<longleftrightarrow> i < max_leases st \<and> leases st ! i = \<lparr>hwaddr = h, expires = LEASE_TICKS\<rparr>"

definition lease_addr :: "server_state \<Rightarrow> nat \<Rightarrow> byte list" where
  "lease_addr st i = (first_client_addr st)[3 := first_client_addr st ! 3 + of_nat i]"

lemma lease_addr_inj:
  assumes "wf_server st" and "i < 256" and "j < 256" and "lease_addr st i = lease_addr st j"
  shows "i = j"
proof -
  have "lease_addr st i ! 3 = lease_addr st j ! 3" using assms(4) by simp
  then have "(of_nat i :: byte) = of_nat j" using assms(1) by (simp add: lease_addr_def wf_server_def)
  then have "unat (of_nat i :: byte) = unat (of_nat j :: byte)" by simp
  then show ?thesis using assms(2,3) by (simp add: unat_of_nat)
qed

lemma find_lease_loop_slot:
  "find_lease_loop hw i e ls = Some j \<Longrightarrow>
     e = Some j \<or> i \<le> j \<and> j < i + length ls \<and> (expires (ls ! (j - i)) = 0 \<or> take 6 hw = take 6 (hwaddr (ls ! (j - i))))"
proof (induction hw i e ls rule: find_lease_loop.induct)
  case (2 hw i e l ls)
  show ?case
  proof (cases "expires l = 0 \<and> e = None")
    case True
    then have "Some i = Some j \<or> i + 1 \<le> j \<and> j < i + 1 + length ls \<and> (expires (ls ! (j - (i + 1))) = 0 \<or> take 6 hw = take 6 (hwaddr (ls ! (j - (i + 1)))))"
      using "2.IH"(1)[OF True] "2.prems" by simp
    then show ?thesis using True by (auto simp: nth_Cons')
  next
    case False
    then show ?thesis using "2.IH"(2)[OF False] "2.prems" by (auto simp: nth_Cons' split: if_splits)
  qed
qed simp

lemma find_lease_slot_free:
  assumes "find_lease_slot hw st = Some j" and "wf_server st"
  shows "j < max_leases st" "expires (leases st ! j) = 0 \<or> take 6 hw = hwaddr (leases st ! j)"
proof -
  have l: "take (max_leases st) (leases st) = leases st" using assms(2) by (simp add: wf_server_def)
  have j: "j < length (leases st)" "expires (leases st ! j) = 0 \<or> take 6 hw = take 6 (hwaddr (leases st ! j))"
    using find_lease_loop_slot[OF assms(1)[unfolded find_lease_slot_def l]] by auto
  moreover from j(1) have "length (hwaddr (leases st ! j)) = 6" using assms(2) by (simp add: wf_server_def)
  ultimately show "j < max_leases st" "expires (leases st ! j) = 0 \<or> take 6 hw = hwaddr (leases st ! j)"
    using assms(2) by (simp_all add: wf_server_def)
qed

text \<open>With the server's state kept well-formed, a lease that is running is not given to anybody else.\<close>

definition reply_type :: "byte list \<Rightarrow> byte" where "reply_type m = m ! 242"

lemma set_options_type:
  assumes "length msg = DHCP_MSG_SIZE" and "opt = [DHCP_OPTION_MESSAGE_TYPE, 1, t] @ rest" and "length opt \<le> DHCP_OPTIONS_LEN"
  shows "reply_type (set_options opt msg) = t" "length (set_options opt msg) = DHCP_MSG_SIZE"
    "get_field 28 16 (set_options opt msg) = get_field 28 16 msg"
proof -
  have l: "length (overwrite opt (replicate DHCP_OPTIONS_LEN 0)) = DHCP_OPTIONS_LEN" using assms(3) by (simp add: overwrite_def)
  then show "length (set_options opt msg) = DHCP_MSG_SIZE" using assms(1)
    by (simp add: set_options_def put_field_length DHCP_MSG_SIZE_def)
  show "get_field 28 16 (set_options opt msg) = get_field 28 16 msg" using assms(1) l
    by (simp add: set_options_def get_put_before DHCP_MSG_SIZE_def DHCP_OPTIONS_OFS_def)
  show "reply_type (set_options opt msg) = t" using assms(1,2)
    by (simp add: reply_type_def set_options_def put_field_def overwrite_def nth_append DHCP_MSG_SIZE_def DHCP_OPTIONS_OFS_def)
qed

definition fair_reply :: "server_state \<Rightarrow> nat \<Rightarrow> byte list \<Rightarrow> byte list \<Rightarrow> bool" where
  "fair_reply st i h m \<longleftrightarrow> (reply_type m \<noteq> DHCP_NAK \<and> msg_yiaddr m = lease_addr st i \<longrightarrow> take 6 (msg_chaddr m) = h)"

text \<open>A reply with its address put in.\<close>

lemma reply_fields:
  assumes "length msg = DHCP_MSG_SIZE" and "opt = [DHCP_OPTION_MESSAGE_TYPE, 1, t] @ rest" and "length opt \<le> DHCP_OPTIONS_LEN" and "length ip = 4"
  shows "reply_type (put_field 16 ip (set_options opt (put_field 0 [DHCP_BOOTREPLY] msg))) = t"
    "msg_yiaddr (put_field 16 ip (set_options opt (put_field 0 [DHCP_BOOTREPLY] msg))) = ip"
    "msg_chaddr (put_field 16 ip (set_options opt (put_field 0 [DHCP_BOOTREPLY] msg))) = msg_chaddr msg"
proof -
  have l: "length (put_field 0 [DHCP_BOOTREPLY] msg) = DHCP_MSG_SIZE" using assms(1) by (simp add: put_field_def DHCP_MSG_SIZE_def DHCP_OPTIONS_OFS_def)
  note o = set_options_type[OF l assms(2,3)]
  show "reply_type (put_field 16 ip (set_options opt (put_field 0 [DHCP_BOOTREPLY] msg))) = t"
    using o(1,2) assms(4) by (simp add: reply_type_def put_field_def nth_append DHCP_MSG_SIZE_def DHCP_OPTIONS_OFS_def)
  show "msg_yiaddr (put_field 16 ip (set_options opt (put_field 0 [DHCP_BOOTREPLY] msg))) = ip"
    using get_put_same[of 16 ip] o(2) assms(4) by (simp add: msg_yiaddr_def DHCP_MSG_SIZE_def DHCP_OPTIONS_OFS_def)
  show "msg_chaddr (put_field 16 ip (set_options opt (put_field 0 [DHCP_BOOTREPLY] msg))) = msg_chaddr msg"
    using o(2,3) assms(1,4) by (simp add: msg_chaddr_def get_put_behind DHCP_MSG_SIZE_def DHCP_OPTIONS_OFS_def)
qed

lemma nak_type:
  assumes "length msg = DHCP_MSG_SIZE" and "opt = [DHCP_OPTION_MESSAGE_TYPE, 1, t] @ rest" and "length opt \<le> DHCP_OPTIONS_LEN"
  shows "reply_type (set_options opt (put_field 0 [DHCP_BOOTREPLY] msg)) = t"
  using set_options_type(1)[of "put_field 0 [DHCP_BOOTREPLY] msg" opt t rest] assms put_field_length[of 0 "[DHCP_BOOTREPLY]" msg]
  by (simp add: DHCP_MSG_SIZE_def DHCP_OPTIONS_OFS_def)

text \<open>A packet of a client with a six-byte hardware address, and no release by the holder of the lease.\<close>

definition good_packet :: "byte list \<Rightarrow> netbuf \<Rightarrow> bool" where
  "good_packet h nb \<longleftrightarrow>
     (let msg = netbuf_copy_partial nb (replicate DHCP_MSG_SIZE 0) DHCP_MSG_SIZE 0 in
      msg_hlen msg = 6
      \<and> (\<forall>p. find_dhcp_option msg DHCP_OPTION_MESSAGE_TYPE 1 = Some p \<and> msg ! p = DHCP_RELEASE \<longrightarrow> take 6 (msg_chaddr msg) \<noteq> h))"

text \<open>The table is kept and the lease with it.\<close>

definition keeps_lease :: "server_state \<Rightarrow> nat \<Rightarrow> byte list \<Rightarrow> server_state \<Rightarrow> bool" where
  "keeps_lease st i h st' \<longleftrightarrow> wf_server st' \<and> holds_lease st' i h \<and> first_client_addr st' = first_client_addr st \<and> max_leases st' = max_leases st"

locale dhcp_link = udp_conn "dhcp_nc env" arriving sent
  for env :: "'n dhcp_env" and arriving sent +
  assumes if_addrs: "length (if_ip_addr env) = 4" "length (if_netmask env) = 4" "length (if_gw env) = 4"
begin

lemma send_reply_sent: "sent (send_reply env m n) = sent n @ [m]" "arriving (send_reply env m n) = arriving n"
  using sendto[of m "0xffffffff" 68 n] by (auto simp: send_reply_def)

definition replies_fair :: "server_state \<Rightarrow> nat \<Rightarrow> byte list \<Rightarrow> 'n \<Rightarrow> 'n \<Rightarrow> bool" where
  "replies_fair st i h n n' \<longleftrightarrow> arriving n' = arriving n \<and> (\<exists>ms. sent n' = sent n @ ms \<and> (\<forall>m \<in> set ms. fair_reply st i h m))"

lemma fair_none: "replies_fair st i h n n"
  by (simp add: replies_fair_def)

lemma fair_one: "fair_reply st i h m \<Longrightarrow> replies_fair st i h n (send_reply env m n)"
  by (simp add: replies_fair_def send_reply_sent)

lemma nak_fair:
  assumes "length msg = DHCP_MSG_SIZE"
  shows "replies_fair st i h n (send_dhcp_nak env msg n)"
proof -
  define opt where "opt = add_dhcp_option_bytes (add_dhcp_option_bytes (add_dhcp_option_byte [] DHCP_OPTION_MESSAGE_TYPE DHCP_NAK)
      DHCP_OPTION_SERVER_ID (if_ip_addr env)) DHCP_OPTION_END []"
  have "\<exists>rest. opt = [DHCP_OPTION_MESSAGE_TYPE, 1, DHCP_NAK] @ rest" "length opt \<le> DHCP_OPTIONS_LEN"
    by (simp_all add: opt_def add_dhcp_option_byte_def add_dhcp_option_bytes_def if_addrs DHCP_OPTIONS_LEN_def)
  then have "reply_type (set_options opt (put_field 0 [DHCP_BOOTREPLY] msg)) = DHCP_NAK" using nak_type[OF assms] by blast
  then show ?thesis using fair_one[of st i h "set_options opt (put_field 0 [DHCP_BOOTREPLY] msg)" n]
    by (simp add: fair_reply_def send_dhcp_nak_def Let_def opt_def)
qed

lemma discover_fair:
  assumes "wf_server st" and "holds_lease st i h" and "length msg = DHCP_MSG_SIZE"
  shows "replies_fair st i h n (handle_dhcp_discover env msg st n)"
proof (cases "msg_htype msg \<noteq> DHCP_HTYPE_ETH \<or> msg_hlen msg > NETIF_MAX_HWADDR_LEN \<or> find_lease_slot (msg_chaddr msg) st = None")
  case True
  then show ?thesis using fair_none by (auto simp: handle_dhcp_discover_def)
next
  case False
  then obtain j where j: "find_lease_slot (msg_chaddr msg) st = Some j" by blast
  note fj = find_lease_slot_free[OF j assms(1)]
  define opt where "opt = add_dhcp_option_bytes (add_dhcp_option_bytes (add_dhcp_option_bytes
      (add_dhcp_option_byte [] DHCP_OPTION_MESSAGE_TYPE DHCP_OFFER) DHCP_OPTION_SERVER_ID (if_ip_addr env))
      DHCP_OPTION_SUBNET_MASK (if_netmask env)) DHCP_OPTION_END []"
  have o: "\<exists>rest. opt = [DHCP_OPTION_MESSAGE_TYPE, 1, DHCP_OFFER] @ rest" "length opt \<le> DHCP_OPTIONS_LEN"
    by (simp_all add: opt_def add_dhcp_option_byte_def add_dhcp_option_bytes_def if_addrs DHCP_OPTIONS_LEN_def)
  let ?m = "put_field 16 (lease_addr st j) (set_options opt (put_field 0 [DHCP_BOOTREPLY] msg))"
  have s: "handle_dhcp_discover env msg st n = send_reply env ?m n"
    using False j by (simp add: handle_dhcp_discover_def Let_def opt_def lease_addr_def)
  have "length (lease_addr st j) = 4" using assms(1) by (simp add: lease_addr_def wf_server_def)
  then have r: "msg_yiaddr ?m = lease_addr st j" "msg_chaddr ?m = msg_chaddr msg" using reply_fields[OF assms(3) _ o(2)] o(1) by blast+
  have "j = i \<Longrightarrow> take 6 (msg_chaddr msg) = h"
    using fj(2) assms(2) by (auto simp: holds_lease_def LEASE_TICKS_def DHCPSERVER_LEASE_TIME_def configTICK_RATE_HZ_def u32_def)
  moreover have "lease_addr st j = lease_addr st i \<Longrightarrow> j = i"
    using lease_addr_inj[OF assms(1), of j i] fj(1) assms(1,2) by (auto simp: wf_server_def holds_lease_def)
  ultimately have "fair_reply st i h ?m" using r by (auto simp: fair_reply_def)
  then show ?thesis unfolding s by (rule fair_one)
qed

lemma find_option_bound:
  "find_option_loop msg t m p = Some q \<Longrightarrow> q + unat (msg ! (q - 1)) < DHCP_MSG_SIZE \<and> m \<le> unat (msg ! (q - 1))"
proof (induction msg t m p rule: find_option_loop.induct)
  case (1 msg t m p)
  show ?case using "1.prems"[unfolded find_option_loop.simps[of msg t m p] Let_def] "1.IH"[OF _ refl refl refl] by (auto split: if_splits)
qed

lemma requested_length:
  assumes "requested_ip env msg = Some ip" and "length msg = DHCP_MSG_SIZE"
  shows "length ip = 4"
proof (cases "find_dhcp_option msg DHCP_OPTION_REQUESTED_IP 4")
  case None
  then show ?thesis using assms by (auto simp: requested_ip_def msg_ciaddr_def get_field_def DHCP_MSG_SIZE_def DHCP_OPTIONS_OFS_def split: if_splits)
next
  case (Some q)
  then have "q + 4 \<le> length msg" using find_option_bound[of msg _ 4 _ q] assms(2) by (fastforce simp: find_dhcp_option_def)
  then show ?thesis using assms Some by (auto simp: requested_ip_def get_field_def)
qed

lemma ack_fields:
  assumes "length msg = DHCP_MSG_SIZE" and "length ip = 4"
  shows "msg_yiaddr (dhcp_ack_msg env ip msg) = ip" "msg_chaddr (dhcp_ack_msg env ip msg) = msg_chaddr msg"
    "reply_type (dhcp_ack_msg env ip msg) = DHCP_ACK"
proof -
  define opt where "opt = add_dhcp_option_bytes (add_dhcp_option_bytes (add_dhcp_option_bytes (add_dhcp_option_bytes (add_dhcp_option_bytes
      (add_dhcp_option_byte [] DHCP_OPTION_MESSAGE_TYPE DHCP_ACK) DHCP_OPTION_LEASE_TIME (rev (le32 (of_nat DHCPSERVER_LEASE_TIME))))
      DHCP_OPTION_SERVER_ID (if_ip_addr env)) DHCP_OPTION_SUBNET_MASK (if_netmask env)) DHCP_OPTION_ROUTER (if_gw env)) DHCP_OPTION_END []"
  have o: "\<exists>rest. opt = [DHCP_OPTION_MESSAGE_TYPE, 1, DHCP_ACK] @ rest" "length opt \<le> DHCP_OPTIONS_LEN"
    by (simp_all add: opt_def add_dhcp_option_byte_def add_dhcp_option_bytes_def if_addrs DHCP_OPTIONS_LEN_def)
  have a: "dhcp_ack_msg env ip msg = put_field 16 ip (set_options opt (put_field 0 [DHCP_BOOTREPLY] msg))"
    by (simp add: dhcp_ack_msg_def Let_def opt_def)
  show "msg_yiaddr (dhcp_ack_msg env ip msg) = ip" "msg_chaddr (dhcp_ack_msg env ip msg) = msg_chaddr msg"
    "reply_type (dhcp_ack_msg env ip msg) = DHCP_ACK"
    unfolding a using reply_fields[OF assms(1) _ o(2) assms(2)] o(1) by blast+
qed

text \<open>A request in range names a slot.\<close>

lemma requested_slot:
  assumes "wf_server st" and "length ip = 4" and "take 3 ip = take 3 (first_client_addr st)"
    and "j = nat (int (unat (ip ! 3)) - int (unat (first_client_addr st ! 3)))"
    and "int (unat (ip ! 3)) - int (unat (first_client_addr st ! 3)) \<ge> 0"
  shows "ip = lease_addr st j"
proof (rule nth_equalityI)
  show "length ip = length (lease_addr st j)" using assms(1,2) by (simp add: wf_server_def lease_addr_def)
next
  fix k assume k: "k < length ip"
  have u: "unat (ip ! 3) = unat (first_client_addr st ! 3) + j" using assms(4,5) by linarith
  have "ip ! 3 = of_nat (unat (ip ! 3))" by simp
  then have "ip ! 3 = first_client_addr st ! 3 + of_nat j" unfolding u by simp
  moreover have "ip ! k = first_client_addr st ! k" if "k < 3" using assms(3) that by (metis nth_take)
  moreover have "k < 3 \<or> k = 3" using k assms(2) by auto
  ultimately show "ip ! k = lease_addr st j ! k" using assms(1) by (auto simp: lease_addr_def wf_server_def)
qed

lemma request_kept:
  assumes "wf_server st" and "holds_lease st i h" and "length msg = DHCP_MSG_SIZE" and "msg_hlen msg = 6"
    and "handle_dhcp_request env msg st n = (st', n')"
  shows "keeps_lease st i h st' \<and> replies_fair st i h n n'"
proof -
  have same: "keeps_lease st i h st" using assms(1,2) by (simp add: keeps_lease_def)
  show ?thesis
  proof (cases "(st', n') = (st, n) \<or> (st', n') = (st, send_dhcp_nak env msg n)")
    case True
    then show ?thesis using same fair_none nak_fair[OF assms(3)] by auto
  next
    case False
    then obtain ip where ip: "requested_ip env msg = Some ip" "take 3 ip = take 3 (first_client_addr st)"
        "int (unat (ip ! 3)) - int (unat (first_client_addr st ! 3)) \<ge> 0"
        "int (unat (ip ! 3)) - int (unat (first_client_addr st ! 3)) < int (max_leases st)"
      using assms(5) by (auto simp: handle_dhcp_request_def Let_def split: if_splits option.splits)
    define j where "j = nat (int (unat (ip ! 3)) - int (unat (first_client_addr st ! 3)))"
    define l where "l = leases st ! j"
    have j: "j < max_leases st" using ip(3,4) by (simp add: j_def)
    have len: "length ip = 4" using requested_length[OF ip(1) assms(3)] .
    have addr: "ip = lease_addr st j" using requested_slot[OF assms(1) len ip(2) j_def ip(3)] .
    let ?hw = "take 6 (msg_chaddr msg)"
    have free: "expires l = 0 \<or> take 6 (hwaddr l) = ?hw"
      and r: "st' = st\<lparr>leases := (leases st)[j := \<lparr>hwaddr = overwrite ?hw (hwaddr l), expires = LEASE_TICKS\<rparr>]\<rparr>"
        "n' = send_reply env (dhcp_ack_msg env ip msg) n"
      using assms(4,5) False ip
      by (auto simp: handle_dhcp_request_def Let_def j_def l_def LEASE_TICKS_def split: if_splits)
    have hl: "length (hwaddr l) = 6" using assms(1) j by (simp add: l_def wf_server_def)
    have ch: "length ?hw = 6" using assms(3) by (simp add: msg_chaddr_def get_field_def DHCP_MSG_SIZE_def DHCP_OPTIONS_OFS_def)
    then have ov: "overwrite ?hw (hwaddr l) = ?hw" using hl by (simp add: overwrite_def)
    have own: "?hw = h" if "j = i"
      using free assms(2) that hl by (auto simp: l_def holds_lease_def LEASE_TICKS_def DHCPSERVER_LEASE_TIME_def configTICK_RATE_HZ_def u32_def)
    have "same_server st st'" unfolding r(1) ov using ch by (intro same_update[OF assms(1)]) simp
    then have "keeps_lease st i h st'"
      using assms(2) j own unfolding r(1) ov by (auto simp: keeps_lease_def same_server_def wf_server_def holds_lease_def nth_list_update)
    moreover have "lease_addr st j = lease_addr st i \<Longrightarrow> j = i"
      using lease_addr_inj[OF assms(1), of j i] j assms(1,2) by (auto simp: wf_server_def holds_lease_def)
    then have "fair_reply st i h (dhcp_ack_msg env ip msg)"
      using ack_fields[OF assms(3) len] own addr by (auto simp: fair_reply_def)
    ultimately show ?thesis unfolding r(2) by (simp add: fair_one)
  qed
qed

lemma expire_kept:
  assumes "wf_server st" and "holds_lease st i h" and "now \<le> LEASE_TICKS"
  shows "keeps_lease st i h (expire_leases now st)"
  using assms by (auto simp: keeps_lease_def expire_leases_def wf_server_def holds_lease_def)

lemma release_kept:
  assumes "wf_server st" and "holds_lease st i h" and "take 6 (msg_chaddr msg) \<noteq> h"
  shows "keeps_lease st i h (handle_dhcp_release msg st)"
proof (cases "find_lease_slot (msg_chaddr msg) st")
  case None
  then show ?thesis using assms by (simp add: handle_dhcp_release_def keeps_lease_def)
next
  case (Some j)
  note fj = find_lease_slot_free[OF Some assms(1)]
  have "0 < LEASE_TICKS" by (simp add: LEASE_TICKS_def DHCPSERVER_LEASE_TIME_def configTICK_RATE_HZ_def u32_def)
  then have "j \<noteq> i" using fj(2) assms(2,3) by (auto simp: holds_lease_def)
  moreover have "same_server st (handle_dhcp_release msg st)" using release_same[OF assms(1)] .
  ultimately show ?thesis using assms(2) Some by (simp add: handle_dhcp_release_def keeps_lease_def same_server_def holds_lease_def)
qed

lemma fair_cong:
  "first_client_addr st' = first_client_addr st \<Longrightarrow> replies_fair st' i h n n' = replies_fair st i h n n'"
  by (simp add: replies_fair_def fair_reply_def lease_addr_def)

lemma fair_trans: "replies_fair st i h n1 n2 \<Longrightarrow> sent n1 = sent n \<Longrightarrow> arriving n1 = arriving n \<Longrightarrow> replies_fair st i h n n2"
  by (simp add: replies_fair_def)

lemma packet_kept:
  assumes "wf_server st" and "holds_lease st i h" and "good_packet h nb" and "dhcp_ticks env n \<le> LEASE_TICKS"
    and "dhcp_packet env nb st n = (st', n')"
  shows "keeps_lease st i h st' \<and> replies_fair st i h n n'"
proof -
  define st1 where "st1 = expire_leases (dhcp_ticks env n) st"
  define n1 where "n1 = netbuf_delete (dhcp_nc env) nb n"
  define msg where "msg = netbuf_copy_partial nb (replicate DHCP_MSG_SIZE 0) DHCP_MSG_SIZE 0"
  have k1: "keeps_lease st i h st1" using expire_kept[OF assms(1,2,4)] by (simp add: st1_def)
  then have w1: "wf_server st1" "holds_lease st1 i h" "first_client_addr st1 = first_client_addr st" by (simp_all add: keeps_lease_def)
  have q: "sent n1 = sent n" "arriving n1 = arriving n" by (simp_all add: n1_def delete_quiet)
  have len: "length msg = DHCP_MSG_SIZE" by (simp add: msg_def netbuf_copy_partial_def overwrite_def)
  have g: "msg_hlen msg = 6" "find_dhcp_option msg DHCP_OPTION_MESSAGE_TYPE 1 = Some p \<Longrightarrow> msg ! p = DHCP_RELEASE \<Longrightarrow> take 6 (msg_chaddr msg) \<noteq> h" for p
    using assms(3) by (auto simp: good_packet_def Let_def msg_def)
  have f: "replies_fair st1 i h n1 n1" by (rule fair_none)
  have eq: "(st', n') = (if netbuf_len nb < DHCP_OPTIONS_OFS then (st1, n1)
      else (case find_dhcp_option msg DHCP_OPTION_MESSAGE_TYPE 1 of
              None \<Rightarrow> (st1, n1)
            | Some p \<Rightarrow>
                if msg ! p = DHCP_DISCOVER then (st1, handle_dhcp_discover env msg st1 n1)
                else if msg ! p = DHCP_REQUEST then handle_dhcp_request env msg st1 n1
                else if msg ! p = DHCP_RELEASE then (handle_dhcp_release msg st1, n1)
                else (st1, n1)))"
    unfolding assms(5)[symmetric] dhcp_packet_def Let_def st1_def n1_def msg_def ..
  have "keeps_lease st1 i h st' \<and> replies_fair st1 i h n1 n'"
  proof (cases "netbuf_len nb < DHCP_OPTIONS_OFS \<or> find_dhcp_option msg DHCP_OPTION_MESSAGE_TYPE 1 = None")
    case True
    then have "st' = st1" "n' = n1" using eq by (auto split: if_splits)
    then show ?thesis using w1 f by (simp add: keeps_lease_def)
  next
    case False
    then obtain p where p: "find_dhcp_option msg DHCP_OPTION_MESSAGE_TYPE 1 = Some p" by blast
    have r: "(st', n') = (if msg ! p = DHCP_DISCOVER then (st1, handle_dhcp_discover env msg st1 n1)
             else if msg ! p = DHCP_REQUEST then handle_dhcp_request env msg st1 n1
             else if msg ! p = DHCP_RELEASE then (handle_dhcp_release msg st1, n1)
             else (st1, n1))"
      using eq False p by auto
    have same: "keeps_lease st1 i h st1" using w1 by (simp add: keeps_lease_def)
    show ?thesis
      using r discover_fair[OF w1(1,2) len, of n1] request_kept[OF w1(1,2) len g(1), of n1 st' n'] release_kept[OF w1(1,2) g(2)[OF p]] same f
      by (cases "msg ! p = DHCP_DISCOVER"; cases "msg ! p = DHCP_REQUEST"; cases "msg ! p = DHCP_RELEASE") auto
  qed
  moreover from this w1(3) have "keeps_lease st i h st'" using k1 by (simp add: keeps_lease_def)
  ultimately show ?thesis using fair_trans[OF _ q] fair_cong[OF w1(3)] by blast
qed

lemma turns_kept:
  assumes "wf_server st" and "holds_lease st i h" and "\<forall>n. dhcp_ticks env n \<le> LEASE_TICKS"
    and "k \<le> length (arriving n)" and "\<forall>(err, nb) \<in> set (arriving n). \<forall>b \<in> set_option nb. good_packet h b"
    and "dhcp_turns k env st n = (st', n')"
  shows "keeps_lease st i h st' \<and> arriving n' = drop k (arriving n) \<and> (\<exists>ms. sent n' = sent n @ ms \<and> (\<forall>m \<in> set ms. fair_reply st i h m))"
  using assms
proof (induction k arbitrary: st n)
  case 0
  then show ?case by (simp add: keeps_lease_def)
next
  case (Suc k)
  obtain err nb es where a: "arriving n = (err, nb) # es" using Suc.prems(4) by (cases "arriving n") auto
  obtain n1 where n1: "netconn_recv (dhcp_nc env) n = (err, nb, n1)" "arriving n1 = es" "sent n1 = sent n" using recv[OF a] by blast
  obtain st2 n2 where s2: "dhcp_step env st n = (st2, n2)" by fastforce
  have k: "keeps_lease st i h st2 \<and> replies_fair st i h n1 n2"
  proof (cases "\<exists>b. nb = Some b \<and> err = ERR_OK")
    case True
    then obtain b where b: "nb = Some b" "err = ERR_OK" by blast
    then have "dhcp_packet env b st n1 = (st2, n2)" using s2 n1(1) by (simp add: dhcp_step_def)
    moreover have "good_packet h b" using Suc.prems(5) a b by simp
    ultimately show ?thesis using packet_kept[OF Suc.prems(1,2) _ spec[OF Suc.prems(3)]] by blast
  next
    case False
    then have "st2 = st" "n2 = n1" using s2 n1(1) by (auto simp: dhcp_step_def split: option.splits if_splits)
    then show ?thesis using Suc.prems(1,2) fair_none by (simp add: keeps_lease_def)
  qed
  then have w: "wf_server st2" "holds_lease st2 i h" "first_client_addr st2 = first_client_addr st" "max_leases st2 = max_leases st"
    and f: "arriving n2 = es" "\<exists>ms. sent n2 = sent n @ ms \<and> (\<forall>m \<in> set ms. fair_reply st i h m)"
    using n1(2,3) by (auto simp: keeps_lease_def replies_fair_def)
  have "dhcp_turns k env st2 n2 = (st', n')" using Suc.prems(6) s2 by simp
  then have "keeps_lease st2 i h st' \<and> arriving n' = drop k (arriving n2) \<and> (\<exists>ms. sent n' = sent n2 @ ms \<and> (\<forall>m \<in> set ms. fair_reply st2 i h m))"
    using Suc.IH[OF w(1,2) Suc.prems(3), of n2] Suc.prems(4,5) a f(1) by auto
  moreover have "fair_reply st2 i h = fair_reply st i h" using w(3) by (auto simp: fair_reply_def lease_addr_def)
  ultimately show ?case using w f a by (fastforce simp: keeps_lease_def)
qed

end

text \<open>C10: A running lease is not given to anybody else. While the uptime is below the lease time, for every sequence of packets from
  clients with six-byte hardware addresses in which the holder does not release its lease, the holder keeps the
  lease, and every offer or acknowledgement the server sends for its address goes to the holder.\<close>

theorem lease_exclusive:
  assumes "dhcp_link env arriving sent" and "wf_server st" and "holds_lease st i h" and "\<forall>n. dhcp_ticks env n \<le> LEASE_TICKS"
    and "k \<le> length (arriving n)" and "\<forall>(err, nb) \<in> set (arriving n). \<forall>b \<in> set_option nb. good_packet h b"
  shows "\<exists>st' n' ms. dhcp_turns k env st n = (st', n') \<and> wf_server st' \<and> holds_lease st' i h \<and> sent n' = sent n @ ms
    \<and> (\<forall>m \<in> set ms. reply_type m \<noteq> DHCP_NAK \<and> msg_yiaddr m = lease_addr st i \<longrightarrow> take 6 (msg_chaddr m) = h)"
proof -
  obtain st' n' where t: "dhcp_turns k env st n = (st', n')" by fastforce
  show ?thesis using dhcp_link.turns_kept[OF assms t] t unfolding keeps_lease_def fair_reply_def by blast
qed

section \<open>After the lease time\<close>

text \<open>A request of a client for an address.\<close>

definition request_for :: "'n dhcp_env \<Rightarrow> byte list \<Rightarrow> byte list \<Rightarrow> netbuf \<Rightarrow> bool" where
  "request_for env h ip nb \<longleftrightarrow>
     (let msg = netbuf_copy_partial nb (replicate DHCP_MSG_SIZE 0) DHCP_MSG_SIZE 0 in
      DHCP_OPTIONS_OFS \<le> netbuf_len nb \<and> msg_htype msg = DHCP_HTYPE_ETH \<and> msg_hlen msg = 6 \<and> take 6 (msg_chaddr msg) = h
      \<and> (\<exists>p. find_dhcp_option msg DHCP_OPTION_MESSAGE_TYPE 1 = Some p \<and> msg ! p = DHCP_REQUEST) \<and> requested_ip env msg = Some ip)"

text \<open>A table entry that a client may be given at a time, and the table with the client's lease in it.\<close>

definition free_for :: "nat \<Rightarrow> byte list \<Rightarrow> dhcp_lease \<Rightarrow> bool" where
  "free_for now h l \<longleftrightarrow> expires l = 0 \<or> expires l < now \<or> hwaddr l = h"

definition grant_lease :: "nat \<Rightarrow> nat \<Rightarrow> byte list \<Rightarrow> server_state \<Rightarrow> server_state" where
  "grant_lease now i h st =
     (expire_leases now st)\<lparr>leases := (leases (expire_leases now st))[i := \<lparr>hwaddr = h, expires = LEASE_TICKS\<rparr>]\<rparr>"

lemma grant_keeps:
  assumes "wf_server st" and "i < max_leases st" and "length h = 6"
  shows "keeps_lease st i h (grant_lease now i h st)"
proof -
  note e = expire_same[OF assms(1), of now]
  then have "same_server (expire_leases now st) (grant_lease now i h st)" using assms(3) unfolding grant_lease_def
    by (intro same_update) (simp_all add: same_server_def)
  then show ?thesis using e assms(2) by (simp add: keeps_lease_def same_server_def holds_lease_def grant_lease_def wf_server_def)
qed

context dhcp_link
begin

lemma request_handled:
  assumes "request_for env h ip nb"
  shows "\<exists>msg. length msg = DHCP_MSG_SIZE \<and> msg_htype msg = DHCP_HTYPE_ETH \<and> msg_hlen msg = 6 \<and> take 6 (msg_chaddr msg) = h
    \<and> requested_ip env msg = Some ip
    \<and> dhcp_packet env nb st n = handle_dhcp_request env msg (expire_leases (dhcp_ticks env n) st) (netbuf_delete (dhcp_nc env) nb n)"
proof -
  define msg where "msg = netbuf_copy_partial nb (replicate DHCP_MSG_SIZE 0) DHCP_MSG_SIZE 0"
  have len: "length msg = DHCP_MSG_SIZE" by (simp add: msg_def netbuf_copy_partial_def overwrite_def)
  obtain p where r: "DHCP_OPTIONS_OFS \<le> netbuf_len nb" "msg_htype msg = DHCP_HTYPE_ETH" "msg_hlen msg = 6" "take 6 (msg_chaddr msg) = h"
      "find_dhcp_option msg DHCP_OPTION_MESSAGE_TYPE 1 = Some p" "msg ! p = DHCP_REQUEST" "requested_ip env msg = Some ip"
    using assms by (auto simp: request_for_def Let_def msg_def)
  then have "dhcp_packet env nb st n = handle_dhcp_request env msg (expire_leases (dhcp_ticks env n) st) (netbuf_delete (dhcp_nc env) nb n)"
    unfolding dhcp_packet_def Let_def msg_def[symmetric] by (simp add: DHCP_REQUEST_def DHCP_DISCOVER_def)
  then show ?thesis using len r by blast
qed

lemma request_granted:
  assumes "wf_server st" and "i < max_leases st" and "unat (first_client_addr st ! 3) + i < 256"
    and "request_for env h (lease_addr st i) nb" and "free_for (dhcp_ticks env n) h (leases st ! i)"
  shows "\<exists>n' m. dhcp_packet env nb st n = (grant_lease (dhcp_ticks env n) i h st, n') \<and> arriving n' = arriving n \<and> sent n' = sent n @ [m]
    \<and> reply_type m = DHCP_ACK \<and> msg_yiaddr m = lease_addr st i \<and> take 6 (msg_chaddr m) = h"
proof -
  define st1 where "st1 = expire_leases (dhcp_ticks env n) st"
  let ?n1 = "netbuf_delete (dhcp_nc env) nb n" and ?ip = "lease_addr st i"
  obtain msg where r: "length msg = DHCP_MSG_SIZE" "msg_htype msg = DHCP_HTYPE_ETH" "msg_hlen msg = 6" "take 6 (msg_chaddr msg) = h"
      "requested_ip env msg = Some ?ip" "dhcp_packet env nb st n = handle_dhcp_request env msg st1 ?n1"
    using request_handled[OF assms(4), of st n] by (auto simp: st1_def)
  have st1: "wf_server st1" "max_leases st1 = max_leases st" "first_client_addr st1 = first_client_addr st"
    "expires (leases st1 ! i) = 0 \<or> hwaddr (leases st1 ! i) = h"
    using assms(1,2,5) by (auto simp: st1_def expire_leases_def wf_server_def free_for_def)
  have ip: "length ?ip = 4" "take 3 ?ip = take 3 (first_client_addr st1)" "unat (?ip ! 3) = unat (first_client_addr st1 ! 3) + i"
    using assms(1,3) st1(3) by (simp_all add: lease_addr_def wf_server_def unat_word_ariths unat_of_nat)
  define l where "l = leases st1 ! i"
  have hl: "length (hwaddr l) = 6" using st1(1,2) assms(2) by (simp add: l_def wf_server_def)
  have h6: "length h = 6" using r(1,4) by (auto simp: msg_chaddr_def get_field_def DHCP_MSG_SIZE_def DHCP_OPTIONS_OFS_def)
  have ok: "\<not> (expires l \<noteq> 0 \<and> take 6 (hwaddr l) \<noteq> h)" using st1(4) hl by (auto simp: l_def)
  have "handle_dhcp_request env msg st1 ?n1 = (grant_lease (dhcp_ticks env n) i h st, send_reply env (dhcp_ack_msg env ?ip msg) ?n1)"
    using r(2-5) ip st1(2) assms(2) ok hl h6
    by (auto simp: handle_dhcp_request_def Let_def l_def NETIF_MAX_HWADDR_LEN_def LEASE_TICKS_def overwrite_def grant_lease_def st1_def)
  then show ?thesis using ack_fields[OF r(1) ip(1)] r(4,6) by (simp add: send_reply_sent delete_quiet)
qed

lemma nak_sent:
  assumes "length msg = DHCP_MSG_SIZE"
  shows "\<exists>m. send_dhcp_nak env msg n = send_reply env m n \<and> reply_type m = DHCP_NAK \<and> msg_chaddr m = msg_chaddr msg"
proof -
  define opt where "opt = add_dhcp_option_bytes (add_dhcp_option_bytes (add_dhcp_option_byte [] DHCP_OPTION_MESSAGE_TYPE DHCP_NAK)
      DHCP_OPTION_SERVER_ID (if_ip_addr env)) DHCP_OPTION_END []"
  let ?b = "put_field 0 [DHCP_BOOTREPLY] msg"
  have o: "\<exists>rest. opt = [DHCP_OPTION_MESSAGE_TYPE, 1, DHCP_NAK] @ rest" "length opt \<le> DHCP_OPTIONS_LEN"
    by (simp_all add: opt_def add_dhcp_option_byte_def add_dhcp_option_bytes_def if_addrs DHCP_OPTIONS_LEN_def)
  have b: "length ?b = DHCP_MSG_SIZE" using assms by (simp add: put_field_def DHCP_MSG_SIZE_def DHCP_OPTIONS_OFS_def)
  have "reply_type (set_options opt ?b) = DHCP_NAK" "get_field 28 16 (set_options opt ?b) = get_field 28 16 ?b"
    using set_options_type[OF b _ o(2)] o(1) by blast+
  moreover have "get_field 28 16 ?b = get_field 28 16 msg" using assms by (intro get_put_behind) (simp_all add: DHCP_MSG_SIZE_def DHCP_OPTIONS_OFS_def)
  ultimately show ?thesis by (intro exI[of _ "set_options opt ?b"]) (simp add: send_dhcp_nak_def Let_def opt_def msg_chaddr_def)
qed

lemma request_refused:
  assumes "wf_server st" and "request_for env h ip nb"
    and "\<not> (\<exists>i < max_leases st. ip = lease_addr st i \<and> free_for (dhcp_ticks env n) h (leases st ! i))"
  shows "\<exists>n' m. dhcp_packet env nb st n = (expire_leases (dhcp_ticks env n) st, n') \<and> arriving n' = arriving n \<and> sent n' = sent n @ [m]
    \<and> reply_type m = DHCP_NAK \<and> take 6 (msg_chaddr m) = h"
proof -
  define st1 where "st1 = expire_leases (dhcp_ticks env n) st"
  let ?n1 = "netbuf_delete (dhcp_nc env) nb n"
  obtain msg where r: "length msg = DHCP_MSG_SIZE" "msg_htype msg = DHCP_HTYPE_ETH" "msg_hlen msg = 6" "take 6 (msg_chaddr msg) = h"
      "requested_ip env msg = Some ip" "dhcp_packet env nb st n = handle_dhcp_request env msg st1 ?n1"
    using request_handled[OF assms(2), of st n] by (auto simp: st1_def)
  have st1: "wf_server st1" "max_leases st1 = max_leases st" "first_client_addr st1 = first_client_addr st"
    using expire_same[OF assms(1)] by (simp_all add: st1_def same_server_def)
  define d where "d = int (unat (ip ! 3)) - int (unat (first_client_addr st1 ! 3))"
  have no: "\<not> (take 3 ip = take 3 (first_client_addr st1) \<and> 0 \<le> d \<and> d < int (max_leases st1)
      \<and> (expires (leases st1 ! nat d) = 0 \<or> take 6 (hwaddr (leases st1 ! nat d)) = h))"
  proof
    assume a: "take 3 ip = take 3 (first_client_addr st1) \<and> 0 \<le> d \<and> d < int (max_leases st1)
      \<and> (expires (leases st1 ! nat d) = 0 \<or> take 6 (hwaddr (leases st1 ! nat d)) = h)"
    have i: "nat d < max_leases st" "nat d < length (leases st)" using a st1(2) assms(1) by (auto simp: wf_server_def)
    have "ip = lease_addr st1 (nat d)" using requested_slot[OF st1(1) requested_length[OF r(5,1)] _ refl] a by (simp add: d_def)
    then have "ip = lease_addr st (nat d)" using st1(3) by (simp add: lease_addr_def)
    moreover have "free_for (dhcp_ticks env n) h (leases st ! nat d)"
      using a i assms(1) by (auto simp: st1_def expire_leases_def free_for_def wf_server_def split: if_splits)
    ultimately show False using assms(3) i(1) by blast
  qed
  have "handle_dhcp_request env msg st1 ?n1 = (st1, send_dhcp_nak env msg ?n1)"
    using no r(2-5) unfolding d_def by (auto simp: handle_dhcp_request_def Let_def NETIF_MAX_HWADDR_LEN_def not_le)
  then show ?thesis using nak_sent[OF r(1), of ?n1] r(4,6) by (auto simp: send_reply_sent delete_quiet st1_def)
qed

lemma request_length: "request_for env h ip nb \<Longrightarrow> length h = 6"
  by (auto simp: request_for_def Let_def msg_chaddr_def get_field_def netbuf_copy_partial_def overwrite_def DHCP_MSG_SIZE_def DHCP_OPTIONS_OFS_def)

lemma request_step:
  assumes "wf_server st" and "i < max_leases st" and "unat (first_client_addr st ! 3) + i < 256"
    and "arriving n = (ERR_OK, Some nb) # es" and "request_for env h (lease_addr st i) nb"
    and "\<forall>n. expires (leases st ! i) < dhcp_ticks env n \<or> expires (leases st ! i) = 0"
  shows "\<exists>st' n' m. dhcp_step env st n = (st', n') \<and> wf_server st' \<and> max_leases st' = max_leases st \<and> first_client_addr st' = first_client_addr st
    \<and> holds_lease st' i h \<and> arriving n' = es \<and> sent n' = sent n @ [m]
    \<and> reply_type m = DHCP_ACK \<and> msg_yiaddr m = lease_addr st i \<and> take 6 (msg_chaddr m) = h"
proof -
  obtain n1 where n1: "netconn_recv (dhcp_nc env) n = (ERR_OK, Some nb, n1)" "arriving n1 = es" "sent n1 = sent n" using recv[OF assms(4)] by blast
  then have "dhcp_step env st n = dhcp_packet env nb st n1" by (simp add: dhcp_step_def)
  moreover have "free_for (dhcp_ticks env n1) h (leases st ! i)" using assms(6) by (auto simp: free_for_def)
  moreover note grant_keeps[OF assms(1,2) request_length[OF assms(5)], of "dhcp_ticks env n1"]
  ultimately show ?thesis using request_granted[OF assms(1-3,5), of n1] n1(2,3) by (auto simp: keeps_lease_def)
qed

end

text \<open>C33: How a request is answered. At any time in the life of a server whose addresses differ in the last octet only, a request that names an address and comes from a
  client with a six-byte hardware address gets exactly one reply, addressed to that client. It is an acknowledgement of the address asked for when this is one of the server's
  addresses and its entry is free, expired or the client's own, and that entry is then the client's lease; otherwise it
  is a refusal and nobody is given a lease. In both cases the leases that have expired are dropped and no other entry changes.\<close>

theorem request_answered:
  assumes "dhcp_link env arriving sent" and "length addr = 4" and "c < 256" and "unat (addr ! 3) + c \<le> 256"
    and "dhcpserver_task k env (dhcpserver_start addr c) n0 = (st, n)"
    and "netconn_recv (dhcp_nc env) n = (ERR_OK, Some nb, n1)" and "now = dhcp_ticks env n1" and "request_for env h ip nb"
  shows "\<exists>st' n' m. dhcp_step env st n = (st', n') \<and> sent n' = sent n1 @ [m] \<and> take 6 (msg_chaddr m) = h
    \<and> (\<forall>i < c. ip = addr[3 := addr ! 3 + of_nat i] \<and> free_for now h (leases st ! i)
         \<longrightarrow> reply_type m = DHCP_ACK \<and> msg_yiaddr m = ip \<and> st' = grant_lease now i h st)
    \<and> (\<not> (\<exists>i < c. ip = addr[3 := addr ! 3 + of_nat i] \<and> free_for now h (leases st ! i))
         \<longrightarrow> reply_type m = DHCP_NAK \<and> st' = expire_leases now st)"
proof -
  note st = server_same[OF assms(2,3,5)]
  have a: "addr[3 := addr ! 3 + of_nat i] = lease_addr st i" for i using st(3) by (simp add: lease_addr_def)
  have step: "dhcp_step env st n = dhcp_packet env nb st n1" using assms(6) by (simp add: dhcp_step_def)
  show ?thesis
  proof (cases "\<exists>i < c. ip = lease_addr st i \<and> free_for now h (leases st ! i)")
    case False
    then show ?thesis using dhcp_link.request_refused[OF assms(1) st(1) assms(8), of n1] unfolding a step st(2) assms(7)[symmetric] by metis
  next
    case True
    then obtain i where i: "i < c" "ip = lease_addr st i" "free_for now h (leases st ! i)" by blast
    have only: "\<forall>j < c. ip = lease_addr st j \<and> free_for now h (leases st ! j) \<longrightarrow> grant_lease now i h st = grant_lease now j h st"
      using lease_addr_inj[OF st(1), of i] i(1,2) assms(3) by (metis order.strict_trans)
    have b: "i < max_leases st" "unat (first_client_addr st ! 3) + i < 256" using i(1) assms(4) st(2,3) by simp_all
    obtain n' m where g: "dhcp_packet env nb st n1 = (grant_lease now i h st, n')" "sent n' = sent n1 @ [m]" "reply_type m = DHCP_ACK"
        "msg_yiaddr m = ip" "take 6 (msg_chaddr m) = h"
      using dhcp_link.request_granted[OF assms(1) st(1) b assms(8)[unfolded i(2)] i(3)[unfolded assms(7)]]
      unfolding assms(7)[symmetric] i(2)[symmetric] by blast
    show ?thesis unfolding a step
      by (intro exI[of _ "grant_lease now i h st"] exI[of _ n'] exI[of _ m] conjI; use g only i in blast)
  qed
qed

text \<open>Leases do not outlast the lease time of the uptime. Once the tick counter is past the lease time, two clients that ask for the same
  address one after the other are both sent an acknowledgement for it, and the first has lost its lease.\<close>

theorem lease_given_twice:
  assumes "dhcp_link env arriving sent" and "wf_server st" and "i < max_leases st" and "unat (first_client_addr st ! 3) + i < 256"
    and "\<forall>n. LEASE_TICKS < dhcp_ticks env n" and "expires (leases st ! i) \<le> LEASE_TICKS"
    and "arriving n = [(ERR_OK, Some nb1), (ERR_OK, Some nb2)]"
    and "request_for env h1 (lease_addr st i) nb1" and "request_for env h2 (lease_addr st i) nb2"
  shows "\<exists>st' n' m1 m2. dhcp_turns 2 env st n = (st', n') \<and> sent n' = sent n @ [m1, m2] \<and> holds_lease st' i h2
    \<and> reply_type m1 = DHCP_ACK \<and> msg_yiaddr m1 = lease_addr st i \<and> take 6 (msg_chaddr m1) = h1
    \<and> reply_type m2 = DHCP_ACK \<and> msg_yiaddr m2 = lease_addr st i \<and> take 6 (msg_chaddr m2) = h2"
proof -
  note step = dhcp_link.request_step[OF assms(1)]
  have e: "\<forall>n. expires (leases st ! i) < dhcp_ticks env n \<or> expires (leases st ! i) = 0" using assms(5,6) le_less_trans by blast
  obtain st1 n1 m1 where s1: "dhcp_step env st n = (st1, n1)" "wf_server st1" "max_leases st1 = max_leases st"
      "first_client_addr st1 = first_client_addr st" "holds_lease st1 i h1" "arriving n1 = [(ERR_OK, Some nb2)]" "sent n1 = sent n @ [m1]"
      and m1: "reply_type m1 = DHCP_ACK \<and> msg_yiaddr m1 = lease_addr st i \<and> take 6 (msg_chaddr m1) = h1"
    using step[OF assms(2-4,7,8) e] by blast
  have a: "lease_addr st1 i = lease_addr st i" using s1(4) by (simp add: lease_addr_def)
  have e1: "\<forall>n. expires (leases st1 ! i) < dhcp_ticks env n \<or> expires (leases st1 ! i) = 0" using s1(5) assms(5) by (simp add: holds_lease_def)
  obtain st2 n2 m2 where s2: "dhcp_step env st1 n1 = (st2, n2)" "holds_lease st2 i h2" "sent n2 = sent n1 @ [m2]"
      and m2: "reply_type m2 = DHCP_ACK \<and> msg_yiaddr m2 = lease_addr st i \<and> take 6 (msg_chaddr m2) = h2"
    using step[OF s1(2), of i n1 nb2 "[]" h2] e1 s1(3,4,6) assms(3,4,9) a by auto
  have "dhcp_turns 2 env st n = (st2, n2)" using s1(1) s2(1) by (simp add: numeral_2_eq_2)
  then show ?thesis using s1(7) s2(2,3) m1 m2 by auto
qed

section \<open>Options, written and found\<close>

lemma written_options:
  assumes "\<forall>(t, v) \<in> set os. v \<noteq> []"
  shows "foldl (\<lambda>opt (t, v). add_dhcp_option_bytes opt t v) acc os = acc @ encode_options os"
  using assms by (induction os arbitrary: acc) (auto simp: encode_options_def add_dhcp_option_bytes_def)

text \<open>Options survive the message. What the option writers put into the options field, the search finds: the first option of a
  type with its value when it has the length asked for at least, and nothing for a type that was not written or is shorter.\<close>

theorem options_roundtrip:
  assumes "length msg = DHCP_MSG_SIZE" and "length (encode_options os) + 3 \<le> DHCP_OPTIONS_LEN"
    and "\<forall>(t, v) \<in> set os. t \<noteq> DHCP_OPTION_END \<and> v \<noteq> [] \<and> length v < 256"
    and "opt = add_dhcp_option_bytes (foldl (\<lambda>opt (t, v). add_dhcp_option_bytes opt t v) [] os) DHCP_OPTION_END []"
  shows "case first_option os t of
      None \<Rightarrow> find_dhcp_option (set_options opt msg) t m = None
    | Some v \<Rightarrow> if length v < m then find_dhcp_option (set_options opt msg) t m = None
        else \<exists>q. find_dhcp_option (set_options opt msg) t m = Some q \<and> get_field q (length v) (set_options opt msg) = v"
proof -
  let ?pre = "take DHCP_OPTIONS_OFS msg" and ?rest = "replicate (DHCP_OPTIONS_LEN - (length (encode_options os) + 1)) (0 :: byte)"
  have "\<forall>(t, v) \<in> set os. v \<noteq> []" using assms(3) by fast
  from written_options[OF this, of "[]"] have opt: "opt = encode_options os @ [DHCP_OPTION_END]" using assms(4) by (simp add: add_dhcp_option_bytes_def)
  have pre: "length ?pre = DHCP_OPTIONS_OFS" using assms(1) by (simp add: DHCP_MSG_SIZE_def)
  have d: "drop (DHCP_OPTIONS_OFS + DHCP_OPTIONS_LEN) msg = []" using assms(1) by (simp add: DHCP_MSG_SIZE_def)
  have full: "set_options opt msg = ?pre @ encode_options os @ DHCP_OPTION_END # ?rest"
    using assms(2) d by (simp add: set_options_def put_field_def opt overwrite_def)
  have len: "length (set_options opt msg) = DHCP_MSG_SIZE" unfolding full using pre assms(2) by (simp add: DHCP_MSG_SIZE_def)
  have o: "\<forall>(t, v) \<in> set os. t \<noteq> DHCP_OPTION_END \<and> length v < 256" using assms(3) by fast
  have r: "length ?rest \<ge> 2" using assms(2) by simp
  show ?thesis using find_option_encoded[OF pre full len o r, of t m] unfolding find_dhcp_option_def .
qed

section \<open>A server on a simulated network\<close>

definition sim_dhcp :: "nat \<Rightarrow> simnet dhcp_env" where
  "sim_dhcp t = \<lparr>dhcp_nc = sim_nc, dhcp_ticks = (\<lambda>n. t), dhcp_stack_ip = [0, 0, 0, 0], if_ip_addr = [172, 16, 0, 1],
     if_netmask = [255, 255, 0, 0], if_gw = [172, 16, 0, 1]\<rparr>"

interpretation sim_link: dhcp_link "sim_dhcp t" net_in net_out for t
  by (intro dhcp_link.intro dhcp_link_axioms.intro) (simp_all add: sim_dhcp_def sim_udp.udp_conn_axioms)

definition client_msg :: "byte list \<Rightarrow> (byte \<times> byte list) list \<Rightarrow> byte list" where
  "client_msg h os = ([1, 1, 6, 0] @ replicate 24 0 @ h @ replicate 206 0) @ encode_options os @ DHCP_OPTION_END
     # replicate (DHCP_OPTIONS_LEN - (length (encode_options os) + 1)) 0"

definition client_packet :: "byte list \<Rightarrow> (byte \<times> byte list) list \<Rightarrow> netbuf" where
  "client_packet h os = \<lparr>nb_segs = [(0, client_msg h os)], nb_fromaddr = 0, nb_fromport = 68\<rparr>"

lemma client_received:
  assumes "length h = 6" and "length (encode_options os) + 3 \<le> DHCP_OPTIONS_LEN"
  shows "netbuf_copy_partial (client_packet h os) (replicate DHCP_MSG_SIZE 0) DHCP_MSG_SIZE 0 = client_msg h os"
    "length (client_msg h os) = DHCP_MSG_SIZE" "netbuf_len (client_packet h os) = DHCP_MSG_SIZE"
    "msg_htype (client_msg h os) = DHCP_HTYPE_ETH" "msg_hlen (client_msg h os) = 6" "take 6 (msg_chaddr (client_msg h os)) = h"
proof -
  show len: "length (client_msg h os) = DHCP_MSG_SIZE" using assms
    by (simp add: client_msg_def DHCP_MSG_SIZE_def DHCP_OPTIONS_OFS_def DHCP_OPTIONS_LEN_def)
  then show "netbuf_copy_partial (client_packet h os) (replicate DHCP_MSG_SIZE 0) DHCP_MSG_SIZE 0 = client_msg h os"
    by (simp add: netbuf_copy_partial_def client_packet_def nb_bytes_def overwrite_def)
  show "netbuf_len (client_packet h os) = DHCP_MSG_SIZE" using len
    by (simp add: netbuf_len_def client_packet_def nb_bytes_def u16_def DHCP_MSG_SIZE_def DHCP_OPTIONS_OFS_def DHCP_OPTIONS_LEN_def)
  show "msg_htype (client_msg h os) = DHCP_HTYPE_ETH" "msg_hlen (client_msg h os) = 6" "take 6 (msg_chaddr (client_msg h os)) = h"
    using assms(1) by (simp_all add: client_msg_def msg_htype_def msg_hlen_def msg_chaddr_def get_field_def DHCP_HTYPE_ETH_def)
qed

lemma client_option:
  assumes "length h = 6" and "length (encode_options os) + 3 \<le> DHCP_OPTIONS_LEN"
    and "\<forall>(t, v) \<in> set os. t \<noteq> DHCP_OPTION_END \<and> length v < 256" and "first_option os t = Some v" and "m \<le> length v"
  shows "\<exists>q. find_dhcp_option (client_msg h os) t m = Some q \<and> get_field q (length v) (client_msg h os) = v"
proof -
  have r: "2 \<le> length (replicate (DHCP_OPTIONS_LEN - (length (encode_options os) + 1)) (0 :: byte))" using assms(2) by simp
  have "length ([1, 1, 6, 0] @ replicate 24 0 @ h @ replicate 206 (0 :: byte)) = DHCP_OPTIONS_OFS" using assms(1) by (simp add: DHCP_OPTIONS_OFS_def)
  from find_option_encoded[OF this client_msg_def client_received(2)[OF assms(1,2)] assms(3) r, of t m]
  show ?thesis using assms(4,5) by (simp add: find_dhcp_option_def split: if_splits)
qed

lemma field_byte: "get_field q 1 msg = [b] \<Longrightarrow> msg ! q = b"
  by (cases "q < length msg") (auto simp: get_field_def hd_drop_conv_nth take_Suc)

abbreviation request_options :: "byte list \<Rightarrow> (byte \<times> byte list) list" where
  "request_options ip \<equiv> [(DHCP_OPTION_MESSAGE_TYPE, [DHCP_REQUEST]), (DHCP_OPTION_REQUESTED_IP, ip)]"

lemma request_options_fit:
  assumes "length ip = 4"
  shows "length (encode_options (request_options ip)) + 3 \<le> DHCP_OPTIONS_LEN"
    "\<forall>(t, v) \<in> set (request_options ip). t \<noteq> DHCP_OPTION_END \<and> length v < 256"
  using assms by (simp_all add: encode_options_def DHCP_OPTIONS_LEN_def DHCP_OPTION_MESSAGE_TYPE_def DHCP_OPTION_REQUESTED_IP_def DHCP_OPTION_END_def)

lemma client_requests:
  assumes "length h = 6" and "length ip = 4"
  shows "request_for env h ip (client_packet h (request_options ip))"
    "h \<noteq> h' \<Longrightarrow> good_packet h' (client_packet h (request_options ip))"
proof -
  let ?m = "client_msg h (request_options ip)"
  note fit = request_options_fit[OF assms(2)] and c = client_received[OF assms(1) request_options_fit(1)[OF assms(2)]]
  obtain q where q: "find_dhcp_option ?m DHCP_OPTION_MESSAGE_TYPE 1 = Some q" "?m ! q = DHCP_REQUEST"
    using client_option[OF assms(1) fit, of DHCP_OPTION_MESSAGE_TYPE "[DHCP_REQUEST]" 1] field_byte by auto
  obtain r where r: "find_dhcp_option ?m DHCP_OPTION_REQUESTED_IP 4 = Some r" "get_field r 4 ?m = ip"
    using client_option[OF assms(1) fit, of DHCP_OPTION_REQUESTED_IP ip 4] assms(2)
    by (auto simp: DHCP_OPTION_MESSAGE_TYPE_def DHCP_OPTION_REQUESTED_IP_def)
  show "request_for env h ip (client_packet h (request_options ip))" unfolding request_for_def Let_def c(1)
    using c q r by (simp add: requested_ip_def DHCP_MSG_SIZE_def)
  show "h \<noteq> h' \<Longrightarrow> good_packet h' (client_packet h (request_options ip))" unfolding good_packet_def Let_def c(1) using c by simp
qed

definition sim_server :: server_state where
  "sim_server = (dhcpserver_start [172, 16, 0, 2] 2)\<lparr>leases := [\<lparr>hwaddr = [2, 0, 0, 0, 0, 1], expires = LEASE_TICKS\<rparr>,
     \<lparr>hwaddr = replicate 6 0, expires = 0\<rparr>]\<rparr>"

lemma sim_server_wf: "wf_server sim_server" "holds_lease sim_server 0 [2, 0, 0, 0, 0, 1]" "lease_addr sim_server 0 = [172, 16, 0, 2]"
  "max_leases sim_server = 2" "unat (first_client_addr sim_server ! 3) = 2" "expires (leases sim_server ! 0) = LEASE_TICKS"
  by (simp_all add: sim_server_def dhcpserver_start_def wf_server_def holds_lease_def lease_addr_def)

theorem lease_exclusive_witness:
  "\<exists>st' n' ms. dhcp_turns 1 (sim_dhcp 5) sim_server
      \<lparr>net_in = [(ERR_OK, Some (client_packet [2, 0, 0, 0, 0, 7] (request_options [172, 16, 0, 2])))], net_out = []\<rparr> = (st', n')
    \<and> holds_lease st' 0 [2, 0, 0, 0, 0, 1] \<and> net_out n' = ms
    \<and> (\<forall>m \<in> set ms. reply_type m \<noteq> DHCP_NAK \<and> msg_yiaddr m = [172, 16, 0, 2] \<longrightarrow> take 6 (msg_chaddr m) = [2, 0, 0, 0, 0, 1])"
proof -
  let ?n = "\<lparr>net_in = [(ERR_OK, Some (client_packet [2, 0, 0, 0, 0, 7] (request_options [172, 16, 0, 2])))], net_out = []\<rparr>"
  have "good_packet [2, 0, 0, 0, 0, 1] (client_packet [2, 0, 0, 0, 0, 7] (request_options [172, 16, 0, 2]))"
    by (rule client_requests) simp_all
  then show ?thesis
    using lease_exclusive[OF sim_link.dhcp_link_axioms sim_server_wf(1,2), of 5 1 ?n]
    by (auto simp: sim_server_wf(3) sim_dhcp_def LEASE_TICKS_def u32_def DHCPSERVER_LEASE_TIME_def configTICK_RATE_HZ_def)
qed

theorem request_answered_witness:
  "(\<exists>st' n' m. dhcp_step (sim_dhcp 8640001) (dhcpserver_start [172, 16, 0, 2] 2)
      \<lparr>net_in = [(ERR_OK, Some (client_packet [2, 0, 0, 0, 0, 7] (request_options [172, 16, 0, 3])))], net_out = []\<rparr> = (st', n')
    \<and> net_out n' = [m] \<and> reply_type m = DHCP_ACK \<and> msg_yiaddr m = [172, 16, 0, 3]
    \<and> leases st' = [\<lparr>hwaddr = [0, 0, 0, 0, 0, 0], expires = 0\<rparr>, \<lparr>hwaddr = [2, 0, 0, 0, 0, 7], expires = LEASE_TICKS\<rparr>])
   \<and> (\<exists>st' n' m. dhcp_step (sim_dhcp 8640001) (dhcpserver_start [172, 16, 0, 2] 2)
      \<lparr>net_in = [(ERR_OK, Some (client_packet [2, 0, 0, 0, 0, 7] (request_options [172, 16, 0, 9])))], net_out = []\<rparr> = (st', n')
    \<and> net_out n' = [m] \<and> reply_type m = DHCP_NAK \<and> leases st' = replicate 2 \<lparr>hwaddr = [0, 0, 0, 0, 0, 0], expires = 0\<rparr>)"
proof (rule conjI)
  let ?st = "dhcpserver_start [172, 16, 0, 2] 2" and ?h = "[2, 0, 0, 0, 0, 7] :: byte list"
  let ?n = "\<lambda>b. \<lparr>net_in = [(ERR_OK, Some b)], net_out = []\<rparr>"
  have task: "dhcpserver_task 0 (sim_dhcp 8640001) ?st (?n b) = (?st, ?n b)" for b
    by (simp add: dhcpserver_task_def sim_dhcp_def sim_nc_def)
  have rec: "netconn_recv (dhcp_nc (sim_dhcp 8640001)) (?n b) = (ERR_OK, Some b, \<lparr>net_in = [], net_out = []\<rparr>)" for b
    by (simp add: sim_dhcp_def sim_nc_def)
  have start: "leases ?st = replicate 2 \<lparr>hwaddr = [0, 0, 0, 0, 0, 0], expires = 0\<rparr>" by (simp add: dhcpserver_start_def eval_nat_numeral)
  have q: "request_for (sim_dhcp 8640001) ?h ip (client_packet ?h (request_options ip))" if "length ip = 4" for ip
    by (rule client_requests) (simp_all add: that)
  have len4: "length [a, b, c, d :: byte] = 4" for a b c d by simp
  have sim_dhcp_ticks: "dhcp_ticks (sim_dhcp t) n = t" for t n by (simp add: sim_dhcp_def)
  have len: "length [172, 16, 0, 2 :: byte] = 4" "(2 :: nat) < 256" "unat ([172, 16, 0, 2 :: byte] ! 3) + 2 \<le> 256" by simp_all
  note ans = request_answered[OF sim_link.dhcp_link_axioms len task rec refl q]
  let ?l0 = "\<lparr>hwaddr = [0, 0, 0, 0, 0, 0], expires = 0\<rparr>" and ?l1 = "\<lparr>hwaddr = ?h, expires = LEASE_TICKS\<rparr>"
  have given: "[172, 16, 0, 3 :: byte] = [172, 16, 0, 2][3 := [172, 16, 0, 2] ! 3 + of_nat 1] \<and> free_for 8640001 ?h (leases ?st ! 1)"
    by (simp add: start free_for_def)
  have two: "leases ?st = [?l0, ?l0]" by (simp add: dhcpserver_start_def eval_nat_numeral)
  have "leases (grant_lease 8640001 1 ?h ?st) = [?l0, ?l1]" 
    by (simp add: grant_lease_def expire_leases_def two)
  then show "\<exists>st' n' m. dhcp_step (sim_dhcp 8640001) ?st (?n (client_packet ?h (request_options [172, 16, 0, 3]))) = (st', n')
    \<and> net_out n' = [m] \<and> reply_type m = DHCP_ACK \<and> msg_yiaddr m = [172, 16, 0, 3]
    \<and> leases st' = [\<lparr>hwaddr = [0, 0, 0, 0, 0, 0], expires = 0\<rparr>, \<lparr>hwaddr = [2, 0, 0, 0, 0, 7], expires = LEASE_TICKS\<rparr>]"
    using ans[of "[172, 16, 0, 3]"] given unfolding sim_dhcp_ticks by (metis one_less_numeral_iff semiring_norm(76) append_Nil simnet.select_convs(2) len4)
  have kept: "leases (expire_leases 8640001 ?st) = replicate 2 ?l0" by (simp add: expire_leases_def start)
  have "[172, 16, 0, 9 :: byte] \<noteq> [172, 16, 0, 2][3 := [172, 16, 0, 2] ! 3 + of_nat i]" if "i < 2" for i using less_2_cases[OF that] by auto
  then show "\<exists>st' n' m. dhcp_step (sim_dhcp 8640001) ?st (?n (client_packet ?h (request_options [172, 16, 0, 9]))) = (st', n')
    \<and> net_out n' = [m] \<and> reply_type m = DHCP_NAK \<and> leases st' = replicate 2 \<lparr>hwaddr = [0, 0, 0, 0, 0, 0], expires = 0\<rparr>"
    using ans[of "[172, 16, 0, 9]"] unfolding sim_dhcp_ticks by (metis append_Nil simnet.select_convs(2) len4 kept)
qed

theorem lease_given_twice_witness:
  "\<exists>st' n' m1 m2. dhcp_turns 2 (sim_dhcp 8640001) sim_server
      \<lparr>net_in = [(ERR_OK, Some (client_packet [2, 0, 0, 0, 0, 7] (request_options [172, 16, 0, 2]))),
                (ERR_OK, Some (client_packet [2, 0, 0, 0, 0, 8] (request_options [172, 16, 0, 2])))], net_out = []\<rparr> = (st', n')
    \<and> net_out n' = [m1, m2] \<and> holds_lease st' 0 [2, 0, 0, 0, 0, 8] \<and> msg_yiaddr m1 = [172, 16, 0, 2] \<and> msg_yiaddr m2 = [172, 16, 0, 2]"
proof -
  let ?b1 = "client_packet [2, 0, 0, 0, 0, 7] (request_options [172, 16, 0, 2])"
    and ?b2 = "client_packet [2, 0, 0, 0, 0, 8] (request_options [172, 16, 0, 2])"
  have r: "request_for (sim_dhcp 8640001) [2, 0, 0, 0, 0, 7] (lease_addr sim_server 0) ?b1"
    "request_for (sim_dhcp 8640001) [2, 0, 0, 0, 0, 8] (lease_addr sim_server 0) ?b2"
    unfolding sim_server_wf(3) by (rule client_requests; simp)+
  have t: "\<forall>n. LEASE_TICKS < dhcp_ticks (sim_dhcp 8640001) n"
    by (simp add: sim_dhcp_def LEASE_TICKS_def u32_def DHCPSERVER_LEASE_TIME_def configTICK_RATE_HZ_def)
  show ?thesis
    using lease_given_twice[OF sim_link.dhcp_link_axioms sim_server_wf(1) _ _ t _ _ r, of "\<lparr>net_in = [(ERR_OK, Some ?b1), (ERR_OK, Some ?b2)], net_out = []\<rparr>"]
    by (auto simp: sim_server_wf)
qed

theorem options_roundtrip_witness:
  "\<exists>q. find_dhcp_option (set_options (add_dhcp_option_bytes (add_dhcp_option_bytes [] DHCP_OPTION_ROUTER [10, 0, 0, 1]) DHCP_OPTION_END [])
      (replicate DHCP_MSG_SIZE 0)) DHCP_OPTION_ROUTER 4 = Some q"
  using options_roundtrip[of "replicate DHCP_MSG_SIZE 0" "[(DHCP_OPTION_ROUTER, [10, 0, 0, 1])]" _ DHCP_OPTION_ROUTER 4]
  by (auto simp: encode_options_def DHCP_OPTIONS_LEN_def DHCP_OPTION_ROUTER_def DHCP_OPTION_END_def)

end
