(* ===== verification/CArith.thy ===== *)
theory CArith
  imports Complex_Main Prelude "HOL-Library.Signed_Division"
begin

text \<open>
  Signed arithmetic of C. A sum, difference, product or quotient of two \<^verbatim>\<open>int32_t\<close> or \<^verbatim>\<open>int64_t\<close> values that does not fit
  the type is undefined behaviour, which is the value \<open>None\<close> of the expression it happens in; so is a division by zero.
  A shift to the left drops the bits that leave the type and a shift to the right
  keeps the sign, as the compiler documents. Division rounds towards zero (\<open>sdiv\<close>). A conversion to a narrower type wraps.
\<close>

definition s32 :: "int \<Rightarrow> int option" where
  "s32 x = (if - (2 ^ 31) \<le> x \<and> x < 2 ^ 31 then Some x else None)"

definition s64 :: "int \<Rightarrow> int option" where
  "s64 x = (if - (2 ^ 63) \<le> x \<and> x < 2 ^ 63 then Some x else None)"

definition wrap32 :: "int \<Rightarrow> int" where
  "wrap32 x = (x + 2 ^ 31) mod 2 ^ 32 - 2 ^ 31"

definition wrap64 :: "int \<Rightarrow> int" where
  "wrap64 x = (x + 2 ^ 63) mod 2 ^ 64 - 2 ^ 63"

definition shl32 :: "int \<Rightarrow> nat \<Rightarrow> int" where
  "shl32 x n = wrap32 (x * 2 ^ n)"

definition shl64 :: "int \<Rightarrow> nat \<Rightarrow> int" where
  "shl64 x n = wrap64 (x * 2 ^ n)"

definition shr :: "int \<Rightarrow> nat \<Rightarrow> int" where
  "shr x n = x div 2 ^ n"

definition div32 :: "int \<Rightarrow> int \<Rightarrow> int option" where
  "div32 x y = (if y = 0 then None else s32 (x sdiv y))"

definition div64 :: "int \<Rightarrow> int \<Rightarrow> int option" where
  "div64 x y = (if y = 0 then None else s64 (x sdiv y))"

text \<open>The types as ranges.\<close>

definition is_u8 :: "int \<Rightarrow> bool" where "is_u8 x \<longleftrightarrow> 0 \<le> x \<and> x < 2 ^ 8"
definition is_s8 :: "int \<Rightarrow> bool" where "is_s8 x \<longleftrightarrow> - (2 ^ 7) \<le> x \<and> x < 2 ^ 7"
definition is_u16 :: "int \<Rightarrow> bool" where "is_u16 x \<longleftrightarrow> 0 \<le> x \<and> x < 2 ^ 16"
definition is_s16 :: "int \<Rightarrow> bool" where "is_s16 x \<longleftrightarrow> - (2 ^ 15) \<le> x \<and> x < 2 ^ 15"

lemma s32_in: "- (2 ^ 31) \<le> x \<Longrightarrow> x < 2 ^ 31 \<Longrightarrow> s32 x = Some x"
  by (simp add: s32_def)

lemma s64_in: "- (2 ^ 63) \<le> x \<Longrightarrow> x < 2 ^ 63 \<Longrightarrow> s64 x = Some x"
  by (simp add: s64_def)

lemma s32_SomeD: "s32 x = Some y \<Longrightarrow> y = x \<and> - (2 ^ 31) \<le> x \<and> x < 2 ^ 31"
  by (simp add: s32_def split: if_splits)

lemma shl32_in: "- (2 ^ 31) \<le> x * 2 ^ n \<Longrightarrow> x * 2 ^ n < 2 ^ 31 \<Longrightarrow> shl32 x n = x * 2 ^ n"
  by (simp add: shl32_def wrap32_def)

lemma shl64_in: "- (2 ^ 63) \<le> x * 2 ^ n \<Longrightarrow> x * 2 ^ n < 2 ^ 63 \<Longrightarrow> shl64 x n = x * 2 ^ n"
  by (simp add: shl64_def wrap64_def)

text \<open>A product of two bounded numbers is bounded.\<close>

lemma abs_mult_le: "\<bar>x\<bar> \<le> a \<Longrightarrow> \<bar>y\<bar> \<le> b \<Longrightarrow> \<bar>x * y\<bar> \<le> a * b" for x y a b :: "'a :: linordered_idom"
  unfolding abs_mult by (intro mult_mono) auto

lemma shr_bounds: "x - (2 ^ n - 1) \<le> shr x n * 2 ^ n" "shr x n * 2 ^ n \<le> x"
proof -
  have e: "shr x n * 2 ^ n = x - x mod 2 ^ n" by (simp add: shr_def minus_mod_eq_div_mult)
  have m: "0 \<le> x mod 2 ^ n" "x mod 2 ^ n < 2 ^ n" by simp_all
  show "x - (2 ^ n - 1) \<le> shr x n * 2 ^ n" using e m by linarith
  show "shr x n * 2 ^ n \<le> x" using e m by linarith
qed

lemma shr_abs: "\<bar>x\<bar> \<le> a * 2 ^ n \<Longrightarrow> \<bar>shr x n\<bar> \<le> a"
proof -
  assume x: "\<bar>x\<bar> \<le> a * 2 ^ n"
  have "shr x n \<le> a" using x zdiv_mono1[of x "a * 2 ^ n" "2 ^ n"] by (simp add: shr_def)
  moreover have "- a * 2 ^ n div 2 ^ n = - a" by (rule nonzero_mult_div_cancel_right) simp
  moreover have "- a * 2 ^ n \<le> x" using x by (simp add: abs_le_iff)
  then have "- a * 2 ^ n div 2 ^ n \<le> shr x n" unfolding shr_def by (rule zdiv_mono1) simp
  ultimately show ?thesis by simp
qed

lemma sint16_range: "is_s16 (sint (w :: 16 word))"
  using sint_range_size[of w] by (simp add: is_s16_def word_size)

lemma uint16_range: "is_u16 (uint (w :: 16 word))"
  using uint_range_size[of w] by (simp add: is_u16_def word_size)

lemma s64_abs: "\<bar>x\<bar> \<le> 9200000000000000000 \<Longrightarrow> s64 x = Some x"
  by (auto simp: s64_def)

lemma s64_factor: "\<bar>x * k\<bar> \<le> 9200000000000000000 \<Longrightarrow> 1 \<le> k \<Longrightarrow> s64 x = Some x"
  using mult_left_mono[of 1 k "\<bar>x\<bar>"] by (intro s64_abs) (simp add: abs_mult)

lemma shl64_abs: "\<bar>x * 2 ^ n\<bar> \<le> 9200000000000000000 \<Longrightarrow> shl64 x n = x * 2 ^ n"
  by (intro shl64_in) auto

section \<open>How far a rounded result is from the exact one\<close>

text \<open>A shift to the right, as a real number.\<close>

lemma shr_real: "of_int (shr x n) \<le> real_of_int x / 2 ^ n" "real_of_int x / 2 ^ n - 1 < of_int (shr x n)"
proof -
  have "real_of_int (shr x n * 2 ^ n) \<le> of_int x" using shr_bounds(2)[of x n] by (rule of_int_le_iff[THEN iffD2])
  then show "of_int (shr x n) \<le> real_of_int x / 2 ^ n" by (simp add: pos_le_divide_eq)
  have "x < (shr x n + 1) * 2 ^ n" using shr_bounds(1)[of x n] by (simp add: distrib_right)
  then have "real_of_int x < of_int ((shr x n + 1) * 2 ^ n)" by (rule of_int_less_iff[THEN iffD2])
  then have "real_of_int x / 2 ^ n < of_int (shr x n) + 1" by (simp add: pos_divide_less_eq)
  then show "real_of_int x / 2 ^ n - 1 < of_int (shr x n)" by simp
qed

lemma shr_close: "\<bar>of_int x - r\<bar> \<le> e \<Longrightarrow> \<bar>of_int (shr x n) - r / 2 ^ n\<bar> \<le> e / 2 ^ n + 1" for r e :: real
proof -
  assume a: "\<bar>of_int x - r\<bar> \<le> e"
  then have "\<bar>real_of_int x / 2 ^ n - r / 2 ^ n\<bar> \<le> e / 2 ^ n" unfolding diff_divide_distrib[symmetric] abs_divide by (simp add: divide_right_mono)
  then show ?thesis using shr_real[where x = x and n = n] by linarith
qed

lemma mult_close: "\<bar>x - y\<bar> \<le> e \<Longrightarrow> \<bar>c\<bar> \<le> b \<Longrightarrow> \<bar>x * c - y * c\<bar> \<le> e * b" for x y c :: real
  unfolding left_diff_distrib[symmetric] by (rule abs_mult_le)

lemma square_close: "\<bar>x - y\<bar> \<le> e \<Longrightarrow> \<bar>x + y\<bar> \<le> b \<Longrightarrow> \<bar>x * x - y\<^sup>2\<bar> \<le> e * b" for x y :: real
  using abs_mult_le[of "x - y" e "x + y" b] by (simp add: power2_eq_square algebra_simps)

lemma is_s16_abs: "is_s16 x \<Longrightarrow> \<bar>x\<bar> \<le> 2 ^ 15" by (auto simp: is_s16_def)

lemma sdiv_pos:
  fixes x y :: int
  assumes "0 < y"
  shows "\<bar>x sdiv y\<bar> * y \<le> \<bar>x\<bar>" "\<bar>x\<bar> < (\<bar>x sdiv y\<bar> + 1) * y"
proof -
  have a: "\<bar>x sdiv y\<bar> = \<bar>x\<bar> div y" using assms by (cases "x = 0") (simp_all add: signed_divide_int_def abs_mult pos_imp_zdiv_nonneg_iff)
  show "\<bar>x sdiv y\<bar> * y \<le> \<bar>x\<bar>" unfolding a using pos_mod_sign[OF assms, of "\<bar>x\<bar>"] minus_mod_eq_div_mult[of "\<bar>x\<bar>" y] by linarith
  show "\<bar>x\<bar> < (\<bar>x sdiv y\<bar> + 1) * y" unfolding a distrib_right using pos_mod_bound[OF assms, of "\<bar>x\<bar>"] minus_mod_eq_div_mult[of "\<bar>x\<bar>" y] by linarith
qed

lemma sdiv_close:
  assumes "0 < y"
  shows "\<bar>of_int (x sdiv y) - real_of_int x / of_int y\<bar> \<le> 1"
proof -
  note d = sdiv_pos[OF assms, of x]
  have y: "0 < real_of_int y" using assms by simp
  have "\<bar>x - (x sdiv y) * y\<bar> \<le> y"
  proof (cases "0 \<le> x")
    case True
    then have "0 \<le> x sdiv y" using assms by (simp add: signed_divide_int_def sgn_if pos_imp_zdiv_nonneg_iff)
    then show ?thesis using d(1,2) True by (simp add: distrib_right)
  next
    case False
    then have "x sdiv y \<le> 0" using assms by (simp add: signed_divide_int_def sgn_if pos_imp_zdiv_nonneg_iff)
    then show ?thesis using d(1,2) False by (simp add: left_diff_distrib)
  qed
  then have "\<bar>real_of_int (x - (x sdiv y) * y)\<bar> \<le> of_int y" by linarith
  then have "\<bar>real_of_int x - of_int (x sdiv y) * of_int y\<bar> / of_int y \<le> 1" using y by (simp add: pos_divide_le_eq)
  moreover have "of_int (x sdiv y) - real_of_int x / of_int y = - ((real_of_int x - of_int (x sdiv y) * of_int y) / of_int y)"
    using y by (simp add: field_simps)
  ultimately show ?thesis using y by (simp add: abs_divide)
qed

text \<open>A quotient whose denominator is a little off.\<close>

lemma quot_close:
  fixes n d x :: real
  assumes "\<bar>n\<bar> \<le> N" and "D \<le> d" and "X \<le> x" and "\<bar>d - x\<bar> \<le> e" and "0 < D" and "0 < X"
  shows "\<bar>n / d - n / x\<bar> \<le> N * e / (D * X)"
proof -
  have dx: "D * X \<le> d * x" using assms by (intro mult_mono) auto
  have "n / d - n / x = n * (x - d) / (d * x)" using assms by (simp add: field_simps)
  then have "\<bar>n / d - n / x\<bar> = \<bar>n * (x - d)\<bar> / (d * x)" using assms by (simp add: abs_divide abs_mult)
  also have "\<dots> \<le> N * e / (D * X)"
  proof (rule frac_le)
    show "\<bar>n * (x - d)\<bar> \<le> N * e" using assms(1,4) by (intro abs_mult_le) (auto simp: abs_minus_commute)
    then show "0 \<le> N * e" by (rule order_trans[OF abs_ge_zero])
  qed (use dx assms in simp_all)
  finally show ?thesis .
qed

end
