(* ===== verification/BMP280.thy ===== *)
theory BMP280
  imports Complex_Main I2C CArith
begin

text \<open>
  The BMP280 and BME280 driver, \<^verbatim>\<open>src/extras/bmp280/bmp280.c\<close>, over the I2C master. The compensation formulas are
  computed in signed arithmetic of 32 and 64 bits, where an overflow is undefined behaviour (\<open>None\<close>, theory \<open>CArith\<close>).
  Output parameters are passed in and returned. Arithmetic on \<^verbatim>\<open>float\<close> is exact arithmetic followed by
  the rounding \<open>rnd\<close>. The debug messages are left out.
\<close>

definition BMP280_REG_CONFIG :: byte where "BMP280_REG_CONFIG = 0xF5"
definition BMP280_REG_CTRL :: byte where "BMP280_REG_CTRL = 0xF4"
definition BMP280_REG_STATUS :: byte where "BMP280_REG_STATUS = 0xF3"
definition BMP280_REG_CTRL_HUM :: byte where "BMP280_REG_CTRL_HUM = 0xF2"
definition BMP280_REG_RESET :: byte where "BMP280_REG_RESET = 0xE0"
definition BMP280_REG_ID :: byte where "BMP280_REG_ID = 0xD0"
definition BMP280_RESET_VALUE :: byte where "BMP280_RESET_VALUE = 0xB6"
definition BMP280_I2C_ADDRESS_0 :: byte where "BMP280_I2C_ADDRESS_0 = 0x76"
definition BMP280_I2C_ADDRESS_1 :: byte where "BMP280_I2C_ADDRESS_1 = 0x77"
definition BMP280_CHIP_ID :: byte where "BMP280_CHIP_ID = 0x58"
definition BME280_CHIP_ID :: byte where "BME280_CHIP_ID = 0x60"

datatype BMP280_Mode = BMP280_MODE_SLEEP | BMP280_MODE_FORCED | BMP280_MODE_NORMAL

datatype BMP280_Filter = BMP280_FILTER_OFF | BMP280_FILTER_2 | BMP280_FILTER_4 | BMP280_FILTER_8 | BMP280_FILTER_16

datatype BMP280_Oversampling =
  BMP280_ULTRA_LOW_POWER | BMP280_LOW_POWER | BMP280_STANDARD | BMP280_HIGH_RES | BMP280_ULTRA_HIGH_RES

datatype BMP280_StandbyTime =
  BMP280_STANDBY_05 | BMP280_STANDBY_62 | BMP280_STANDBY_125 | BMP280_STANDBY_250
| BMP280_STANDBY_500 | BMP280_STANDBY_1000 | BMP280_STANDBY_2000 | BMP280_STANDBY_4000

primrec mode_code :: "BMP280_Mode \<Rightarrow> byte" where
  "mode_code BMP280_MODE_SLEEP = 0"
| "mode_code BMP280_MODE_FORCED = 1"
| "mode_code BMP280_MODE_NORMAL = 3"

primrec filter_code :: "BMP280_Filter \<Rightarrow> byte" where
  "filter_code BMP280_FILTER_OFF = 0"
| "filter_code BMP280_FILTER_2 = 1"
| "filter_code BMP280_FILTER_4 = 2"
| "filter_code BMP280_FILTER_8 = 3"
| "filter_code BMP280_FILTER_16 = 4"

primrec oversampling_code :: "BMP280_Oversampling \<Rightarrow> byte" where
  "oversampling_code BMP280_ULTRA_LOW_POWER = 1"
| "oversampling_code BMP280_LOW_POWER = 2"
| "oversampling_code BMP280_STANDARD = 3"
| "oversampling_code BMP280_HIGH_RES = 4"
| "oversampling_code BMP280_ULTRA_HIGH_RES = 5"

primrec standby_code :: "BMP280_StandbyTime \<Rightarrow> byte" where
  "standby_code BMP280_STANDBY_05 = 0"
| "standby_code BMP280_STANDBY_62 = 1"
| "standby_code BMP280_STANDBY_125 = 2"
| "standby_code BMP280_STANDBY_250 = 3"
| "standby_code BMP280_STANDBY_500 = 4"
| "standby_code BMP280_STANDBY_1000 = 5"
| "standby_code BMP280_STANDBY_2000 = 6"
| "standby_code BMP280_STANDBY_4000 = 7"

record bmp280_params =
  mode :: BMP280_Mode
  filter_setting :: BMP280_Filter
  oversampling :: BMP280_Oversampling
  oversampling_humidity :: BMP280_Oversampling
  standby :: BMP280_StandbyTime

record bmp280 =
  dig_T1 :: int
  dig_T2 :: int
  dig_T3 :: int
  dig_P1 :: int
  dig_P2 :: int
  dig_P3 :: int
  dig_P4 :: int
  dig_P5 :: int
  dig_P6 :: int
  dig_P7 :: int
  dig_P8 :: int
  dig_P9 :: int
  dig_H1 :: int
  dig_H2 :: int
  dig_H3 :: int
  dig_H4 :: int
  dig_H5 :: int
  dig_H6 :: int
  i2c_addr :: byte
  chip_id :: byte

definition bmp280_init_default_params :: bmp280_params where
  "bmp280_init_default_params =
     \<lparr>mode = BMP280_MODE_NORMAL, filter_setting = BMP280_FILTER_OFF, oversampling = BMP280_STANDARD,
      oversampling_humidity = BMP280_STANDARD, standby = BMP280_STANDBY_250\<rparr>"

section \<open>Registers\<close>

definition read_register16 :: "'g gpiodev \<Rightarrow> byte \<Rightarrow> byte \<Rightarrow> 16 word \<Rightarrow> 'g i2c_state \<Rightarrow> bool \<times> 16 word \<times> 'g i2c_state" where
  "read_register16 gp i2c_address addr v s =
     (case i2c_slave_read gp i2c_address addr [0, 0] 2 s of
        (ok, d, s1) \<Rightarrow> if ok then (True, of_le16 (d ! 0) (d ! 1), s1) else (False, v, s1))"

text \<open>A chain of register reads joined by \<open>&&\<close>: each names a register and where its value goes; the first that fails ends it.\<close>

fun read_registers :: "'g gpiodev \<Rightarrow> byte \<Rightarrow> (byte \<times> (16 word \<Rightarrow> 'a \<Rightarrow> 'a)) list \<Rightarrow> 'a \<Rightarrow> 'g i2c_state \<Rightarrow> bool \<times> 'a \<times> 'g i2c_state" where
  "read_registers gp i2c_address [] dev s = (True, dev, s)"
| "read_registers gp i2c_address ((addr, put) # rs) dev s =
     (case read_register16 gp i2c_address addr 0 s of
        (ok, v, s1) \<Rightarrow> if ok then read_registers gp i2c_address rs (put v dev) s1 else (False, dev, s1))"

definition calibration_registers :: "(byte \<times> (16 word \<Rightarrow> bmp280 \<Rightarrow> bmp280)) list" where
  "calibration_registers =
     [(0x88, \<lambda>v dev. dev\<lparr>dig_T1 := uint v\<rparr>), (0x8a, \<lambda>v dev. dev\<lparr>dig_T2 := sint v\<rparr>), (0x8c, \<lambda>v dev. dev\<lparr>dig_T3 := sint v\<rparr>),
      (0x8e, \<lambda>v dev. dev\<lparr>dig_P1 := uint v\<rparr>), (0x90, \<lambda>v dev. dev\<lparr>dig_P2 := sint v\<rparr>), (0x92, \<lambda>v dev. dev\<lparr>dig_P3 := sint v\<rparr>),
      (0x94, \<lambda>v dev. dev\<lparr>dig_P4 := sint v\<rparr>), (0x96, \<lambda>v dev. dev\<lparr>dig_P5 := sint v\<rparr>), (0x98, \<lambda>v dev. dev\<lparr>dig_P6 := sint v\<rparr>),
      (0x9a, \<lambda>v dev. dev\<lparr>dig_P7 := sint v\<rparr>), (0x9c, \<lambda>v dev. dev\<lparr>dig_P8 := sint v\<rparr>), (0x9e, \<lambda>v dev. dev\<lparr>dig_P9 := sint v\<rparr>)]"

definition read_calibration_data :: "'g gpiodev \<Rightarrow> bmp280 \<Rightarrow> 'g i2c_state \<Rightarrow> bool \<times> bmp280 \<times> 'g i2c_state" where
  "read_calibration_data gp dev s = read_registers gp (i2c_addr dev) calibration_registers dev s"

definition read_hum_calibration_data :: "'g gpiodev \<Rightarrow> bmp280 \<Rightarrow> 'g i2c_state \<Rightarrow> bool \<times> bmp280 \<times> 'g i2c_state" where
  "read_hum_calibration_data gp dev s =
     (let a = i2c_addr dev in
      case i2c_slave_read gp a 0xa1 [word_of_int (dig_H1 dev)] 1 s of (ok1, d1, s1) \<Rightarrow>
        let dev1 = dev\<lparr>dig_H1 := uint (d1 ! 0)\<rparr> in
        if \<not> ok1 then (False, dev1, s1) else
      (case read_register16 gp a 0xe1 (word_of_int (dig_H2 dev1)) s1 of (ok2, h2, s2) \<Rightarrow>
        let dev2 = dev1\<lparr>dig_H2 := sint h2\<rparr> in
        if \<not> ok2 then (False, dev2, s2) else
      (case i2c_slave_read gp a 0xe3 [word_of_int (dig_H3 dev2)] 1 s2 of (ok3, d3, s3) \<Rightarrow>
        let dev3 = dev2\<lparr>dig_H3 := uint (d3 ! 0)\<rparr> in
        if \<not> ok3 then (False, dev3, s3) else
      (case read_register16 gp a 0xe4 0 s3 of (ok4, h4, s4) \<Rightarrow>
        if \<not> ok4 then (False, dev3, s4) else
      (case read_register16 gp a 0xe5 0 s4 of (ok5, h5, s5) \<Rightarrow>
        if \<not> ok5 then (False, dev3, s5) else
      (case i2c_slave_read gp a 0xe7 [word_of_int (dig_H6 dev3)] 1 s5 of (ok6, d6, s6) \<Rightarrow>
        let dev6 = dev3\<lparr>dig_H6 := sint (d6 ! 0)\<rparr> in
        if \<not> ok6 then (False, dev6, s6) else
        (True, dev6\<lparr>dig_H4 := sint (push_bit 4 (h4 AND 0x00ff) OR drop_bit 8 (h4 AND 0x0f00)), dig_H5 := sint (drop_bit 4 h5)\<rparr>, s6)))))))"

definition write_register8 :: "'g gpiodev \<Rightarrow> byte \<Rightarrow> byte \<Rightarrow> byte \<Rightarrow> 'g i2c_state \<Rightarrow> bool \<times> 'g i2c_state" where
  "write_register8 gp i2c_address addr v s = i2c_slave_write gp i2c_address [addr, v] s"

section \<open>Initialisation\<close>

text \<open>Waiting until the calibration data has been copied; the wait has fuel.\<close>

fun wait_copied :: "nat \<Rightarrow> 'g gpiodev \<Rightarrow> byte \<Rightarrow> byte \<Rightarrow> 'g i2c_state \<Rightarrow> 'g i2c_state option" where
  "wait_copied 0 gp i2c_address status s = None"
| "wait_copied (Suc fuel) gp i2c_address status s =
     (case i2c_slave_read gp i2c_address BMP280_REG_STATUS [status] 1 s of
        (ok, d, s1) \<Rightarrow> if ok \<and> d ! 0 AND 1 = 0 then Some s1 else wait_copied fuel gp i2c_address (d ! 0) s1)"

definition config_byte :: "bmp280_params \<Rightarrow> byte" where
  "config_byte params = push_bit 5 (standby_code (standby params)) OR push_bit 2 (filter_code (filter_setting params))"

definition ctrl_byte :: "bmp280_params \<Rightarrow> byte" where
  "ctrl_byte params =
     push_bit 5 (if oversampling params = BMP280_ULTRA_HIGH_RES then 2 else 1)
     OR push_bit 2 (oversampling_code (oversampling params)) OR mode_code (mode params)"

text \<open>Sending the configuration to the chip.\<close>

definition bmp280_configure :: "'g gpiodev \<Rightarrow> bmp280 \<Rightarrow> bmp280_params \<Rightarrow> 'g i2c_state \<Rightarrow> bool \<times> bmp280_params \<times> 'g i2c_state" where
  "bmp280_configure gp dev params s =
     (case write_register8 gp (i2c_addr dev) BMP280_REG_CONFIG (config_byte params) s of (ok, s1) \<Rightarrow>
      if \<not> ok then (False, params, s1) else
      let params1 = (if mode params = BMP280_MODE_FORCED then params\<lparr>mode := BMP280_MODE_SLEEP\<rparr> else params);
          ctrl = ctrl_byte params1;
          (ok2, s2) =
            (if chip_id dev = BME280_CHIP_ID
             then write_register8 gp (i2c_addr dev) BMP280_REG_CTRL_HUM (oversampling_code (oversampling_humidity params1)) s1
             else (True, s1)) in
      if \<not> ok2 then (False, params1, s2) else
      (case write_register8 gp (i2c_addr dev) BMP280_REG_CTRL ctrl s2 of (ok3, s3) \<Rightarrow> (ok3, params1, s3)))"

definition bmp280_init ::
  "nat \<Rightarrow> 'g gpiodev \<Rightarrow> byte \<Rightarrow> bmp280 \<Rightarrow> bmp280_params \<Rightarrow> 'g i2c_state \<Rightarrow> (bool \<times> bmp280 \<times> bmp280_params \<times> 'g i2c_state) option" where
  "bmp280_init fuel gp status dev params s =
     (if i2c_addr dev \<noteq> BMP280_I2C_ADDRESS_0 \<and> i2c_addr dev \<noteq> BMP280_I2C_ADDRESS_1 then Some (False, dev, params, s) else
      (case i2c_slave_read gp (i2c_addr dev) BMP280_REG_ID [chip_id dev] 1 s of (ok1, d, s1) \<Rightarrow>
       let dev1 = dev\<lparr>chip_id := d ! 0\<rparr> in
       if \<not> ok1 then Some (False, dev1, params, s1)
       else if chip_id dev1 \<noteq> BMP280_CHIP_ID \<and> chip_id dev1 \<noteq> BME280_CHIP_ID then Some (False, dev1, params, s1)
       else
      (case write_register8 gp (i2c_addr dev) BMP280_REG_RESET BMP280_RESET_VALUE s1 of (ok2, s2) \<Rightarrow>
       if \<not> ok2 then Some (False, dev1, params, s2)
       else do {
         s3 \<leftarrow> wait_copied fuel gp (i2c_addr dev) status s2;
         let (ok4, dev4, s4) = read_calibration_data gp dev1 s3;
         if \<not> ok4 then Some (False, dev4, params, s4)
         else
           let (ok5, dev5, s5) = (if chip_id dev4 = BME280_CHIP_ID then read_hum_calibration_data gp dev4 s4 else (True, dev4, s4)) in
           if \<not> ok5 then Some (False, dev5, params, s5)
           else (case bmp280_configure gp dev5 params s5 of (ok6, params6, s6) \<Rightarrow> Some (ok6, dev5, params6, s6))
       })))"

definition bmp280_force_measurement :: "'g gpiodev \<Rightarrow> byte \<Rightarrow> bmp280 \<Rightarrow> 'g i2c_state \<Rightarrow> bool \<times> 'g i2c_state" where
  "bmp280_force_measurement gp ctrl dev s =
     (case i2c_slave_read gp (i2c_addr dev) BMP280_REG_CTRL [ctrl] 1 s of
        (ok, d, s1) \<Rightarrow>
          if \<not> ok then (False, s1)
          else write_register8 gp (i2c_addr dev) BMP280_REG_CTRL ((d ! 0 AND NOT 3) OR mode_code BMP280_MODE_FORCED) s1)"

definition bmp280_is_measuring :: "'g gpiodev \<Rightarrow> byte \<Rightarrow> bmp280 \<Rightarrow> 'g i2c_state \<Rightarrow> bool \<times> 'g i2c_state" where
  "bmp280_is_measuring gp status dev s =
     (case i2c_slave_read gp (i2c_addr dev) BMP280_REG_STATUS [status] 1 s of
        (ok, d, s1) \<Rightarrow> (ok \<and> d ! 0 AND push_bit 3 1 \<noteq> 0, s1))"

section \<open>Compensation\<close>

text \<open>The temperature in hundredths of a degree, and the fine temperature the other two formulas use.\<close>

definition compensate_temperature :: "bmp280 \<Rightarrow> int \<Rightarrow> (int \<times> int) option" where
  "compensate_temperature dev adc_temp =
     do {
       a1 \<leftarrow> s32 (shr adc_temp 3 - shl32 (dig_T1 dev) 1);
       a2 \<leftarrow> s32 (a1 * dig_T2 dev);
       let var1 = shr a2 11;
       b1 \<leftarrow> s32 (shr adc_temp 4 - dig_T1 dev);
       b2 \<leftarrow> s32 (b1 * b1);
       b3 \<leftarrow> s32 (shr b2 12 * dig_T3 dev);
       let var2 = shr b3 14;
       fine_temp \<leftarrow> s32 (var1 + var2);
       t1 \<leftarrow> s32 (fine_temp * 5);
       t2 \<leftarrow> s32 (t1 + 128);
       Some (shr t2 8, fine_temp)
     }"

text \<open>The pressure in 256ths of a Pascal.\<close>

definition compensate_pressure :: "bmp280 \<Rightarrow> int \<Rightarrow> int \<Rightarrow> int option" where
  "compensate_pressure dev adc_press fine_temp =
     do {
       var1 \<leftarrow> s64 (fine_temp - 128000);
       sq \<leftarrow> s64 (var1 * var1);
       a1 \<leftarrow> s64 (sq * dig_P6 dev);
       a2 \<leftarrow> s64 (var1 * dig_P5 dev);
       a3 \<leftarrow> s64 (a1 + shl64 a2 17);
       var2 \<leftarrow> s64 (a3 + shl64 (dig_P4 dev) 35);
       b1 \<leftarrow> s64 (sq * dig_P3 dev);
       b2 \<leftarrow> s64 (var1 * dig_P2 dev);
       b3 \<leftarrow> s64 (shr b1 8 + shl64 b2 12);
       b4 \<leftarrow> s64 (shl64 1 47 + b3);
       b5 \<leftarrow> s64 (b4 * dig_P1 dev);
       let v1 = shr b5 33;
       if v1 = 0 then Some 0
       else do {
         p1 \<leftarrow> s32 (1048576 - adc_press);
         p2 \<leftarrow> s64 (shl64 p1 31 - var2);
         p3 \<leftarrow> s64 (p2 * 3125);
         p \<leftarrow> div64 p3 v1;
         c1 \<leftarrow> s64 (dig_P9 dev * shr p 13);
         c2 \<leftarrow> s64 (c1 * shr p 13);
         d1 \<leftarrow> s64 (dig_P8 dev * p);
         e1 \<leftarrow> s64 (p + shr c2 25);
         e2 \<leftarrow> s64 (e1 + shr d1 19);
         e3 \<leftarrow> s64 (shr e2 8 + shl64 (dig_P7 dev) 4);
         Some (e3 mod 2 ^ 32)
       }
     }"

text \<open>The humidity in 1024ths of a percent.\<close>

definition compensate_humidity :: "bmp280 \<Rightarrow> int \<Rightarrow> int \<Rightarrow> int option" where
  "compensate_humidity dev adc_hum fine_temp =
     do {
       x \<leftarrow> s32 (fine_temp - 76800);
       a1 \<leftarrow> s32 (shl32 adc_hum 14 - shl32 (dig_H4 dev) 20);
       a2 \<leftarrow> s32 (dig_H5 dev * x);
       a3 \<leftarrow> s32 (a1 - a2);
       a4 \<leftarrow> s32 (a3 + 16384);
       b1 \<leftarrow> s32 (x * dig_H6 dev);
       b2 \<leftarrow> s32 (x * dig_H3 dev);
       b3 \<leftarrow> s32 (shr b2 11 + 32768);
       b4 \<leftarrow> s32 (shr b1 10 * b3);
       b5 \<leftarrow> s32 (shr b4 10 + 2097152);
       b6 \<leftarrow> s32 (b5 * dig_H2 dev);
       b7 \<leftarrow> s32 (b6 + 8192);
       y \<leftarrow> s32 (shr a4 15 * shr b7 14);
       c1 \<leftarrow> s32 (shr y 15 * shr y 15);
       c2 \<leftarrow> s32 (shr c1 7 * dig_H1 dev);
       z \<leftarrow> s32 (y - shr c2 4);
       let z1 = (if z < 0 then 0 else z);
       let z2 = (if z1 > 419430400 then 419430400 else z1);
       Some (shr z2 12)
     }"

definition adc20 :: "byte \<Rightarrow> byte \<Rightarrow> byte \<Rightarrow> int" where
  "adc20 msb lsb xlsb = (uint msb * 2 ^ 12) OR (uint lsb * 2 ^ 4) OR uint (drop_bit 4 xlsb)"

text \<open>\<open>out\<close> holds what the three pointers point to; without the last the caller passes a null pointer for the humidity.\<close>

definition bmp280_read_fixed ::
  "'g gpiodev \<Rightarrow> bmp280 \<Rightarrow> byte list \<Rightarrow> int \<times> int \<times> int option \<Rightarrow> 'g i2c_state \<Rightarrow> (bool \<times> (int \<times> int \<times> int option) \<times> 'g i2c_state) option" where
  "bmp280_read_fixed gp dev data out s =
     (case out of (temperature, pressure, humidity) \<Rightarrow>
      let hum_out = (if chip_id dev \<noteq> BME280_CHIP_ID then map_option (\<lambda>_. 0) humidity else humidity);
          want_hum = (chip_id dev = BME280_CHIP_ID \<and> humidity \<noteq> None);
          size = (if want_hum then 8 else 6) in
      case i2c_slave_read gp (i2c_addr dev) 0xf7 data size s of (ok, d, s1) \<Rightarrow>
      if \<not> ok then Some (False, (temperature, pressure, hum_out), s1)
      else do {
        (t, fine_temp) \<leftarrow> compensate_temperature dev (adc20 (d ! 3) (d ! 4) (d ! 5));
        p \<leftarrow> compensate_pressure dev (adc20 (d ! 0) (d ! 1) (d ! 2)) fine_temp;
        if want_hum
        then do {
          h \<leftarrow> compensate_humidity dev ((uint (d ! 6) * 2 ^ 8) OR uint (d ! 7)) fine_temp;
          Some (True, (t, p, Some h), s1)
        }
        else Some (True, (t, p, hum_out), s1)
      })"

definition bmp280_read_float ::
  "(real \<Rightarrow> real) \<Rightarrow> 'g gpiodev \<Rightarrow> bmp280 \<Rightarrow> byte list \<Rightarrow> int \<times> int \<times> int \<Rightarrow> real \<times> real \<times> real option \<Rightarrow> 'g i2c_state \<Rightarrow>
     (bool \<times> (real \<times> real \<times> real option) \<times> 'g i2c_state) option" where
  "bmp280_read_float rnd gp dev data fixed out s =
     (case (fixed, out) of ((ft, fp, fh), (temperature, pressure, humidity)) \<Rightarrow>
      do {
        (ok, (t, p, h), s1) \<leftarrow> bmp280_read_fixed gp dev data (ft, fp, map_option (\<lambda>_. fh) humidity) s;
        if ok
        then Some (True, (rnd (rnd (of_int t) / 100), rnd (rnd (of_int p) / 256), map_option (\<lambda>x. rnd (rnd (of_int x) / 1024)) h), s1)
        else Some (False, out, s1)
      })"

end
