(* ===== verification/BMP280_Formulas.thy ===== *)
theory BMP280_Formulas
  imports BMP280
begin

text \<open>
  The compensation formulas of the BMP280 driver against the same formulas over the real numbers: in the range of calibration
  values named by \<open>temp_range\<close> and \<open>press_range\<close> no step overflows, and the rounding of all
  shifts and of the division adds up to at most a hundredth of a degree and a quarter of a Pascal.
\<close>

section \<open>Temperature\<close>

definition exact_fine :: "bmp280 \<Rightarrow> int \<Rightarrow> real" where
  "exact_fine dev adc =
     (let x = real_of_int adc / 16 - of_int (dig_T1 dev) in x * of_int (dig_T2 dev) / 2 ^ 10 + x\<^sup>2 * of_int (dig_T3 dev) / 2 ^ 26)"

definition exact_temperature :: "bmp280 \<Rightarrow> int \<Rightarrow> real" where
  "exact_temperature dev adc = exact_fine dev adc * 5 / 256"

definition temp_range :: "bmp280 \<Rightarrow> int \<Rightarrow> bool" where
  "temp_range dev adc \<longleftrightarrow> is_u16 (dig_T1 dev) \<and> is_s16 (dig_T2 dev) \<and> \<bar>dig_T3 dev\<bar> \<le> 2 ^ 13 \<and> \<bar>shr adc 4 - dig_T1 dev\<bar> < 2 ^ 15 - 1"

lemma temperature_defined:
  assumes "temp_range dev adc"
  shows "compensate_temperature dev adc =
     (let var1 = shr ((shr adc 3 - 2 * dig_T1 dev) * dig_T2 dev) 11;
          b = shr adc 4 - dig_T1 dev;
          fine = var1 + shr (shr (b * b) 12 * dig_T3 dev) 14 in
      Some (shr (fine * 5 + 128) 8, fine))"
    "\<bar>shr adc 3 - 2 * dig_T1 dev\<bar> \<le> 65533"
proof -
  have T: "is_u16 (dig_T1 dev)" "\<bar>dig_T2 dev\<bar> \<le> 32768" "\<bar>dig_T3 dev\<bar> \<le> 8192" and b: "\<bar>shr adc 4 - dig_T1 dev\<bar> \<le> 32766"
    using assms is_s16_abs[of "dig_T2 dev"] by (auto simp: temp_range_def)
  define a1 where "a1 = shr adc 3 - 2 * dig_T1 dev"
  define b1 where "b1 = shr adc 4 - dig_T1 dev"
  have "shr adc 3 = 2 * shr adc 4 + (adc div 8) mod 2" using div_mult_mod_eq[of "adc div 8" 2] by (simp add: shr_def zdiv_zmult2_eq[symmetric])
  then have a1: "\<bar>a1\<bar> \<le> 65533" using b pos_mod_bound[of 2 "adc div 8"] pos_mod_sign[of 2 "adc div 8"] unfolding a1_def by linarith
  then show "\<bar>shr adc 3 - 2 * dig_T1 dev\<bar> \<le> 65533" by (simp add: a1_def)
  have sh: "shl32 (dig_T1 dev) 1 = 2 * dig_T1 dev" using T(1) shl32_in[of "dig_T1 dev" 1] by (simp add: is_u16_def)
  have a2: "\<bar>a1 * dig_T2 dev\<bar> \<le> 65533 * 32768" using abs_mult_le[OF a1 T(2)] .
  then have v1: "\<bar>shr (a1 * dig_T2 dev) 11\<bar> \<le> 1048528" using shr_abs[of "a1 * dig_T2 dev" 1048528 11] by simp
  have b2: "\<bar>b1 * b1\<bar> \<le> 32766 * 32766" using abs_mult_le[OF b b] by (simp add: b1_def)
  have b2': "\<bar>shr (b1 * b1) 12\<bar> \<le> 262113" using shr_abs[of "b1 * b1" 262113 12] b2 by simp
  have b3: "\<bar>shr (b1 * b1) 12 * dig_T3 dev\<bar> \<le> 262113 * 8192" using abs_mult_le[OF b2' T(3)] .
  have v2: "\<bar>shr (shr (b1 * b1) 12 * dig_T3 dev) 14\<bar> \<le> 131057" using shr_abs[of "shr (b1 * b1) 12 * dig_T3 dev" 131057 14] b3 by simp
  define fine where "fine = shr (a1 * dig_T2 dev) 11 + shr (shr (b1 * b1) 12 * dig_T3 dev) 14"
  have f: "\<bar>fine\<bar> \<le> 1179585" using v1 v2 unfolding fine_def by linarith
  have "s32 a1 = Some a1" using a1 by (intro s32_in) auto
  moreover have "s32 (a1 * dig_T2 dev) = Some (a1 * dig_T2 dev)" using a2 by (intro s32_in) auto
  moreover have "s32 b1 = Some b1" using b by (intro s32_in) (auto simp: b1_def)
  moreover have "s32 (b1 * b1) = Some (b1 * b1)" using b2 order_trans[OF _ zero_le_square, of "- (2 ^ 31)" b1] by (intro s32_in) auto
  moreover have "s32 (shr (b1 * b1) 12 * dig_T3 dev) = Some (shr (b1 * b1) 12 * dig_T3 dev)" using b3 by (intro s32_in) auto
  moreover have "s32 fine = Some fine" "s32 (fine * 5) = Some (fine * 5)" "s32 (fine * 5 + 128) = Some (fine * 5 + 128)"
    using f by (auto simp: s32_def)
  ultimately show "compensate_temperature dev adc =
     (let var1 = shr ((shr adc 3 - 2 * dig_T1 dev) * dig_T2 dev) 11;
          b = shr adc 4 - dig_T1 dev;
          fine = var1 + shr (shr (b * b) 12 * dig_T3 dev) 14 in
      Some (shr (fine * 5 + 128) 8, fine))"
    unfolding compensate_temperature_def sh Let_def a1_def[symmetric] b1_def[symmetric] by (simp add: fine_def)
qed

lemma fine_close:
  assumes "temp_range dev adc" and "compensate_temperature dev adc = Some (t, fine)"
  shows "\<bar>of_int fine - exact_fine dev adc\<bar> \<le> 27" "t = shr (fine * 5 + 128) 8"
proof -
  define a1 where "a1 = shr adc 3 - 2 * dig_T1 dev"
  define b1 where "b1 = shr adc 4 - dig_T1 dev"
  define x where "x = real_of_int adc / 16 - of_int (dig_T1 dev)"
  let ?T2 = "real_of_int (dig_T2 dev)" and ?T3 = "real_of_int (dig_T3 dev)"
  have r: "fine = shr (a1 * dig_T2 dev) 11 + shr (shr (b1 * b1) 12 * dig_T3 dev) 14" "t = shr (fine * 5 + 128) 8"
    using assms temperature_defined(1)[OF assms(1)] by (auto simp: Let_def a1_def b1_def)
  show "t = shr (fine * 5 + 128) 8" by (rule r)
  have T2: "\<bar>?T2\<bar> \<le> 32768" and T3: "\<bar>?T3\<bar> \<le> 8192" and b: "\<bar>real_of_int b1\<bar> \<le> 32766"
    using assms(1) by (auto simp: temp_range_def is_s16_def b1_def)
  have "\<bar>of_int a1 - 2 * x\<bar> \<le> 1" using shr_real[of adc 3] unfolding a1_def x_def by (simp add: field_simps abs_le_iff)
  then have "\<bar>of_int (a1 * dig_T2 dev) - 2 * x * ?T2\<bar> \<le> 32768" using mult_close[OF _ T2, of "of_int a1" "2 * x" 1] by simp
  from shr_close[OF this, of 11] have v1: "\<bar>of_int (shr (a1 * dig_T2 dev) 11) - x * ?T2 / 2 ^ 10\<bar> \<le> 17" by simp
  have bx: "\<bar>of_int b1 - x\<bar> \<le> 1" using shr_real[of adc 4] unfolding b1_def x_def by (simp add: field_simps abs_le_iff)
  have "\<bar>of_int b1 + x\<bar> \<le> 65536" using bx b by linarith
  from square_close[OF bx this] have "\<bar>of_int (b1 * b1) - x\<^sup>2\<bar> \<le> 65536" by simp
  from shr_close[OF this, of 12] have "\<bar>of_int (shr (b1 * b1) 12) - x\<^sup>2 / 2 ^ 12\<bar> \<le> 17" by simp
  from mult_close[OF this T3] have "\<bar>of_int (shr (b1 * b1) 12 * dig_T3 dev) - x\<^sup>2 / 2 ^ 12 * ?T3\<bar> \<le> 139264" by simp
  from shr_close[OF this, of 14] have v2: "\<bar>of_int (shr (shr (b1 * b1) 12 * dig_T3 dev) 14) - x\<^sup>2 * ?T3 / 2 ^ 26\<bar> \<le> 19/2" by simp
  have "exact_fine dev adc = x * ?T2 / 2 ^ 10 + x\<^sup>2 * ?T3 / 2 ^ 26" by (simp add: exact_fine_def x_def Let_def)
  moreover have "real_of_int fine = of_int (shr (a1 * dig_T2 dev) 11) + of_int (shr (shr (b1 * b1) 12 * dig_T3 dev) 14)" unfolding r(1) by simp
  ultimately show "\<bar>of_int fine - exact_fine dev adc\<bar> \<le> 27" using v1 v2 by linarith
qed

text \<open>With calibration values in the range named, no operation of the 32-bit formula overflows, and
  its result is within 0.011 degrees of the same formula evaluated over the real numbers.\<close>

lemma temperature_accurate:
  assumes "temp_range dev adc"
  shows "\<exists>t fine. compensate_temperature dev adc = Some (t, fine) \<and> \<bar>of_int t - exact_temperature dev adc\<bar> < 11 / 10"
proof -
  obtain t fine where c: "compensate_temperature dev adc = Some (t, fine)" using temperature_defined(1)[OF assms] by (auto simp: Let_def)
  note f = fine_close[OF assms c]
  have "of_int t * 256 \<le> real_of_int fine * 5 + 128" "real_of_int fine * 5 < of_int t * 256 + 128"
    using shr_real[of "fine * 5 + 128" 8] f(2) by (simp_all add: field_simps)
  then have "\<bar>of_int t * 256 - exact_fine dev adc * 5\<bar> < 281" using f(1) by linarith
  then have "\<bar>of_int t - exact_temperature dev adc\<bar> < 11 / 10" unfolding exact_temperature_def abs_less_iff by (simp add: field_simps)
  then show ?thesis using c by blast
qed

section \<open>Pressure\<close>

text \<open>The integer formula in three steps: numerator, denominator, and the correction of the quotient.\<close>

definition press_num :: "bmp280 \<Rightarrow> int \<Rightarrow> int \<Rightarrow> int" where
  "press_num dev adc fine =
     (let v = fine - 128000 in
      ((2 ^ 20 - adc) * 2 ^ 31 - (v * v * dig_P6 dev + v * dig_P5 dev * 2 ^ 17 + dig_P4 dev * 2 ^ 35)) * 3125)"

definition press_den :: "bmp280 \<Rightarrow> int \<Rightarrow> int" where
  "press_den dev fine =
     (let v = fine - 128000 in shr ((2 ^ 47 + (shr (v * v * dig_P3 dev) 8 + v * dig_P2 dev * 2 ^ 12)) * dig_P1 dev) 33)"

definition press_corr :: "bmp280 \<Rightarrow> int \<Rightarrow> int" where
  "press_corr dev p = shr (p + shr (dig_P9 dev * shr p 13 * shr p 13) 25 + shr (dig_P8 dev * p) 19) 8 + dig_P7 dev * 2 ^ 4"

definition press_range :: "bmp280 \<Rightarrow> int \<Rightarrow> int \<Rightarrow> bool" where
  "press_range dev adc fine \<longleftrightarrow> \<bar>fine\<bar> \<le> 2 ^ 19 \<and> 0 \<le> adc \<and> adc \<le> 2 ^ 20 \<and> 20000 \<le> dig_P1 dev \<and> dig_P1 dev \<le> 43000
     \<and> \<bar>dig_P2 dev\<bar> \<le> 2 ^ 14 \<and> \<bar>dig_P3 dev\<bar> \<le> 2 ^ 14 \<and> \<bar>dig_P4 dev\<bar> \<le> 2 ^ 13 \<and> \<bar>dig_P5 dev\<bar> \<le> 2 ^ 12 \<and> \<bar>dig_P6 dev\<bar> \<le> 2 ^ 7
     \<and> is_s16 (dig_P7 dev) \<and> is_s16 (dig_P8 dev) \<and> is_s16 (dig_P9 dev)"

lemma press_parts:
  assumes "press_range dev adc fine"
  defines "v \<equiv> fine - 128000"
  shows "\<bar>v\<bar> \<le> 652288" "\<bar>v * v\<bar> \<le> 425479634944" "\<bar>v * v * dig_P6 dev\<bar> \<le> 54461393272832" "\<bar>v * dig_P5 dev\<bar> \<le> 2671771648"
    "\<bar>v * v * dig_P3 dev\<bar> \<le> 6971058338922496" "\<bar>v * dig_P2 dev\<bar> \<le> 10687086592"
    "\<bar>shr (v * v * dig_P3 dev) 8\<bar> \<le> 27230696636416"
proof -
  note r = assms(1)[unfolded press_range_def]
  show v: "\<bar>v\<bar> \<le> 652288" using r unfolding v_def by (simp add: abs_le_iff)
  show sq: "\<bar>v * v\<bar> \<le> 425479634944" using abs_mult_le[OF v v] by simp
  show "\<bar>v * v * dig_P6 dev\<bar> \<le> 54461393272832" using abs_mult_le[OF sq, of "dig_P6 dev" 128] r by simp
  show "\<bar>v * dig_P5 dev\<bar> \<le> 2671771648" using abs_mult_le[OF v, of "dig_P5 dev" 4096] r by simp
  show b: "\<bar>v * v * dig_P3 dev\<bar> \<le> 6971058338922496" using abs_mult_le[OF sq, of "dig_P3 dev" 16384] r by simp
  show "\<bar>v * dig_P2 dev\<bar> \<le> 10687086592" using abs_mult_le[OF v, of "dig_P2 dev" 16384] r by simp
  show "\<bar>shr (v * v * dig_P3 dev) 8\<bar> \<le> 27230696636416" using shr_abs[of "v * v * dig_P3 dev" 27230696636416 8] b by simp
qed

lemma press_num_den:
  assumes "press_range dev adc fine"
  shows "\<bar>press_num dev adc fine\<bar> \<le> 9190000000000000000" "162000000 \<le> press_den dev fine"
proof -
  define v where "v = fine - 128000"
  note r = assms[unfolded press_range_def] and b = press_parts[OF assms, folded v_def]
  have "\<bar>(2 ^ 20 - adc) * 2 ^ 31 - (v * v * dig_P6 dev + v * dig_P5 dev * 2 ^ 17 + dig_P4 dev * 2 ^ 35)\<bar> \<le> 2940000000000000"
    using r b(3,4) by (simp add: abs_le_iff)
  from abs_mult_le[OF this, of 3125 3125] show "\<bar>press_num dev adc fine\<bar> \<le> 9190000000000000000"
    unfolding press_num_def Let_def v_def[symmetric] by simp
  have "69732485038080 \<le> 2 ^ 47 + (shr (v * v * dig_P3 dev) 8 + v * dig_P2 dev * 2 ^ 12)" using b(6,7) by (simp add: abs_le_iff)
  from mult_mono[OF this, of 20000 "dig_P1 dev"]
  have "1394649700761600000 \<le> (2 ^ 47 + (shr (v * v * dig_P3 dev) 8 + v * dig_P2 dev * 2 ^ 12)) * dig_P1 dev"
    using r b(6,7) by (simp add: abs_le_iff)
  from zdiv_mono1[OF this, of "2 ^ 33"] show "162000000 \<le> press_den dev fine"
    unfolding press_den_def Let_def v_def[symmetric] shr_def by simp
qed

text \<open>The correction of a quotient of that size does not overflow.\<close>

lemma press_corr_parts:
  assumes "\<bar>p\<bar> \<le> 56800000000" and "is_s16 (dig_P8 dev)" and "is_s16 (dig_P9 dev)"
  shows "\<bar>shr p 13\<bar> \<le> 6933594" "\<bar>dig_P9 dev * shr p 13\<bar> \<le> 227200008192" "\<bar>dig_P9 dev * shr p 13 * shr p 13\<bar> \<le> 1575320000000000000"
    "\<bar>dig_P8 dev * p\<bar> \<le> 1861222400000000"
    "\<bar>shr (dig_P9 dev * shr p 13 * shr p 13) 25\<bar> \<le> 46948195458" "\<bar>shr (dig_P8 dev * p) 19\<bar> \<le> 3550000000"
proof -
  have 8: "\<bar>dig_P8 dev\<bar> \<le> 32768" and 9: "\<bar>dig_P9 dev\<bar> \<le> 32768" using is_s16_abs assms(2,3) by fastforce+
  show q: "\<bar>shr p 13\<bar> \<le> 6933594" using shr_abs[of p 6933594 13] assms(1) by simp
  show c: "\<bar>dig_P9 dev * shr p 13\<bar> \<le> 227200008192" using abs_mult_le[OF 9 q] by simp
  show c2: "\<bar>dig_P9 dev * shr p 13 * shr p 13\<bar> \<le> 1575320000000000000" using abs_mult_le[OF c q] by simp
  show d: "\<bar>dig_P8 dev * p\<bar> \<le> 1861222400000000" using abs_mult_le[OF 8 assms(1)] by simp
  show "\<bar>shr (dig_P9 dev * shr p 13 * shr p 13) 25\<bar> \<le> 46948195458" using shr_abs[of "dig_P9 dev * shr p 13 * shr p 13" 46948195458 25] c2 by simp
  show "\<bar>shr (dig_P8 dev * p) 19\<bar> \<le> 3550000000" using shr_abs[of "dig_P8 dev * p" 3550000000 19] d by simp
qed

lemma press_quot:
  assumes "press_range dev adc fine"
  shows "\<bar>press_num dev adc fine sdiv press_den dev fine\<bar> \<le> 56800000000"
proof -
  let ?N = "press_num dev adc fine" and ?D = "press_den dev fine"
  note n = press_num_den[OF assms]
  have "\<bar>?N sdiv ?D\<bar> * ?D \<le> 9190000000000000000" using sdiv_pos(1)[of ?D ?N] n by linarith
  moreover have "\<bar>?N sdiv ?D\<bar> * 162000000 \<le> \<bar>?N sdiv ?D\<bar> * ?D" using n(2) by (intro mult_left_mono) auto
  ultimately show ?thesis by linarith
qed

lemma press_num_steps:
  assumes "press_range dev adc fine"
  defines "v \<equiv> fine - 128000"
  defines "var2 \<equiv> v * v * dig_P6 dev + v * dig_P5 dev * 2 ^ 17 + dig_P4 dev * 2 ^ 35"
  shows "s64 v = Some v" "s64 (v * v) = Some (v * v)" "s64 (v * v * dig_P6 dev) = Some (v * v * dig_P6 dev)"
    "s64 (v * dig_P5 dev) = Some (v * dig_P5 dev)"
    "s64 (v * v * dig_P6 dev + shl64 (v * dig_P5 dev) 17) = Some (v * v * dig_P6 dev + v * dig_P5 dev * 2 ^ 17)"
    "s64 (v * v * dig_P6 dev + v * dig_P5 dev * 2 ^ 17 + shl64 (dig_P4 dev) 35) = Some var2"
    "s32 (1048576 - adc) = Some (1048576 - adc)" "s64 (shl64 (1048576 - adc) 31 - var2) = Some ((1048576 - adc) * 2 ^ 31 - var2)"
    "press_num dev adc fine = ((1048576 - adc) * 2 ^ 31 - var2) * 3125" "s64 (((1048576 - adc) * 2 ^ 31 - var2) * 3125) = Some (press_num dev adc fine)"
proof -
  note r = assms(1)[unfolded press_range_def] and b = press_parts[OF assms(1), folded v_def]
  show n: "press_num dev adc fine = ((1048576 - adc) * 2 ^ 31 - var2) * 3125" by (simp add: press_num_def Let_def v_def var2_def)
  have sh: "shl64 (v * dig_P5 dev) 17 = v * dig_P5 dev * 2 ^ 17" "shl64 (dig_P4 dev) 35 = dig_P4 dev * 2 ^ 35"
    "shl64 (1048576 - adc) 31 = (1048576 - adc) * 2 ^ 31"
    using r b(4) by (intro shl64_abs; simp add: abs_le_iff)+
  have m: "\<bar>((1048576 - adc) * 2 ^ 31 - var2) * 3125\<bar> \<le> 9190000000000000000" using press_num_den(1)[OF assms(1)] unfolding n .
  show "s64 v = Some v" "s64 (v * v) = Some (v * v)" "s64 (v * v * dig_P6 dev) = Some (v * v * dig_P6 dev)"
    "s64 (v * dig_P5 dev) = Some (v * dig_P5 dev)"
    using b by (intro s64_abs; simp)+
  show "s64 (v * v * dig_P6 dev + shl64 (v * dig_P5 dev) 17) = Some (v * v * dig_P6 dev + v * dig_P5 dev * 2 ^ 17)"
    unfolding sh using b(3,4) by (intro s64_abs) (simp add: abs_le_iff)
  show "s64 (v * v * dig_P6 dev + v * dig_P5 dev * 2 ^ 17 + shl64 (dig_P4 dev) 35) = Some var2"
    unfolding sh var2_def using r b(3,4) by (intro s64_abs) (simp add: abs_le_iff)
  show "s32 (1048576 - adc) = Some (1048576 - adc)" using r by (simp add: s32_def)
  show "s64 (((1048576 - adc) * 2 ^ 31 - var2) * 3125) = Some (press_num dev adc fine)" unfolding n using m by (intro s64_abs) simp
  show "s64 (shl64 (1048576 - adc) 31 - var2) = Some ((1048576 - adc) * 2 ^ 31 - var2)" unfolding sh using m by (intro s64_factor[of _ 3125]) auto
qed

lemma press_den_steps:
  assumes "press_range dev adc fine"
  defines "v \<equiv> fine - 128000"
  defines "b3 \<equiv> shr (v * v * dig_P3 dev) 8 + v * dig_P2 dev * 2 ^ 12"
  shows "s64 (v * v * dig_P3 dev) = Some (v * v * dig_P3 dev)" "s64 (v * dig_P2 dev) = Some (v * dig_P2 dev)"
    "s64 (shr (v * v * dig_P3 dev) 8 + shl64 (v * dig_P2 dev) 12) = Some b3" "s64 (shl64 1 47 + b3) = Some (2 ^ 47 + b3)"
    "s64 ((2 ^ 47 + b3) * dig_P1 dev) = Some ((2 ^ 47 + b3) * dig_P1 dev)" "shr ((2 ^ 47 + b3) * dig_P1 dev) 33 = press_den dev fine"
proof -
  note b = press_parts[OF assms(1), folded v_def]
  have P1: "\<bar>dig_P1 dev\<bar> \<le> 43000" using assms(1) by (simp add: press_range_def)
  have b4: "\<bar>2 ^ 47 + b3\<bar> \<le> 211742491672576" using b(6,7) unfolding b3_def by (simp add: abs_le_iff)
  have sh: "shl64 1 47 = 2 ^ 47" by (simp add: shl64_def wrap64_def)
  have sh2: "shl64 (v * dig_P2 dev) 12 = v * dig_P2 dev * 2 ^ 12" using b(6) by (intro shl64_abs) (simp add: abs_le_iff)
  show "s64 (v * v * dig_P3 dev) = Some (v * v * dig_P3 dev)" "s64 (v * dig_P2 dev) = Some (v * dig_P2 dev)"
    using b by (intro s64_abs; simp)+
  show "s64 (shr (v * v * dig_P3 dev) 8 + shl64 (v * dig_P2 dev) 12) = Some b3"
    unfolding sh2 b3_def using b(6,7) by (intro s64_abs) (simp add: abs_le_iff)
  show "s64 (shl64 1 47 + b3) = Some (2 ^ 47 + b3)" unfolding sh using b4 by (intro s64_abs) simp
  show "s64 ((2 ^ 47 + b3) * dig_P1 dev) = Some ((2 ^ 47 + b3) * dig_P1 dev)" using abs_mult_le[OF b4 P1] by (intro s64_abs) simp
  show "shr ((2 ^ 47 + b3) * dig_P1 dev) 33 = press_den dev fine" by (simp add: press_den_def b3_def v_def Let_def)
qed

lemma press_corr_steps:
  assumes "\<bar>p\<bar> \<le> 56800000000" and "is_s16 (dig_P7 dev)" and "is_s16 (dig_P8 dev)" and "is_s16 (dig_P9 dev)"
  defines "c \<equiv> dig_P9 dev * shr p 13 * shr p 13" and "d \<equiv> dig_P8 dev * p"
  shows "s64 (dig_P9 dev * shr p 13) = Some (dig_P9 dev * shr p 13)" "s64 c = Some c" "s64 d = Some d"
    "s64 (p + shr c 25) = Some (p + shr c 25)" "s64 (p + shr c 25 + shr d 19) = Some (p + shr c 25 + shr d 19)"
    "s64 (shr (p + shr c 25 + shr d 19) 8 + shl64 (dig_P7 dev) 4) = Some (press_corr dev p)"
    "\<bar>press_corr dev p\<bar> \<le> 500000000"
proof -
  note b = press_corr_parts[OF assms(1,3,4), folded c_def d_def]
  have P7: "\<bar>dig_P7 dev\<bar> \<le> 32768" using is_s16_abs[OF assms(2)] by simp
  have e1: "\<bar>p + shr c 25\<bar> \<le> 110000000000" using b(5) assms(1) by linarith
  have e2: "\<bar>p + shr c 25 + shr d 19\<bar> \<le> 120000000000" using e1 b(6) by linarith
  have e3: "\<bar>shr (p + shr c 25 + shr d 19) 8\<bar> \<le> 468750000" using e2 shr_abs[of "p + shr c 25 + shr d 19" 468750000 8] by simp
  have sh: "shl64 (dig_P7 dev) 4 = dig_P7 dev * 2 ^ 4" using P7 by (intro shl64_abs) (simp add: abs_le_iff)
  show "s64 (dig_P9 dev * shr p 13) = Some (dig_P9 dev * shr p 13)" "s64 c = Some c" "s64 d = Some d"
    using b by (intro s64_abs; simp)+
  show "s64 (p + shr c 25) = Some (p + shr c 25)" "s64 (p + shr c 25 + shr d 19) = Some (p + shr c 25 + shr d 19)"
    using e1 e2 by (intro s64_abs; simp)+
  have p: "press_corr dev p = shr (p + shr c 25 + shr d 19) 8 + dig_P7 dev * 2 ^ 4" by (simp add: press_corr_def c_def d_def)
  then show l: "\<bar>press_corr dev p\<bar> \<le> 500000000" using e3 P7 by (simp add: abs_le_iff)
  show "s64 (shr (p + shr c 25 + shr d 19) 8 + shl64 (dig_P7 dev) 4) = Some (press_corr dev p)"
    unfolding sh p[symmetric] using l by (intro s64_abs) simp
qed

lemma pressure_defined:
  assumes "press_range dev adc fine"
  shows "compensate_pressure dev adc fine = Some (press_corr dev (press_num dev adc fine sdiv press_den dev fine) mod 2 ^ 32)"
proof -
  define p where "p = press_num dev adc fine sdiv press_den dev fine"
  have p: "\<bar>p\<bar> \<le> 56800000000" using press_quot[OF assms] by (simp add: p_def)
  have den: "press_den dev fine \<noteq> 0" using press_num_den(2)[OF assms] by simp
  have q: "div64 (press_num dev adc fine) (press_den dev fine) = Some p" using den p s64_abs[of p] by (simp add: div64_def p_def)
  have c: "is_s16 (dig_P7 dev)" "is_s16 (dig_P8 dev)" "is_s16 (dig_P9 dev)" using assms by (simp_all add: press_range_def)
  show ?thesis
    unfolding compensate_pressure_def Let_def
    by (simp only: press_num_steps(1-8,10)[OF assms] press_den_steps[OF assms] den q if_False Option.bind.simps
        press_corr_steps[OF p c] p_def[symmetric])
qed

text \<open>The formula over the real numbers.\<close>

definition exact_den :: "bmp280 \<Rightarrow> int \<Rightarrow> real" where
  "exact_den dev fine =
     (let v = real_of_int fine - 128000 in (2 ^ 47 + v * v * of_int (dig_P3 dev) / 2 ^ 8 + v * of_int (dig_P2 dev) * 2 ^ 12) * of_int (dig_P1 dev) / 2 ^ 33)"

definition exact_corr :: "bmp280 \<Rightarrow> real \<Rightarrow> real" where
  "exact_corr dev p =
     (p + of_int (dig_P9 dev) * (p / 2 ^ 13)\<^sup>2 / 2 ^ 25 + of_int (dig_P8 dev) * p / 2 ^ 19) / 2 ^ 8 + of_int (dig_P7 dev) * 2 ^ 4"

definition exact_pressure :: "bmp280 \<Rightarrow> int \<Rightarrow> int \<Rightarrow> real" where
  "exact_pressure dev adc fine = exact_corr dev (of_int (press_num dev adc fine) / exact_den dev fine)"

lemma den_close:
  assumes "press_range dev adc fine"
  shows "\<bar>of_int (press_den dev fine) - exact_den dev fine\<bar> \<le> 2"
proof -
  define v where "v = fine - 128000"
  let ?b = "v * v * dig_P3 dev" and ?x = "real_of_int v * of_int v * of_int (dig_P3 dev) / 2 ^ 8"
  let ?c = "2 ^ 47 + real_of_int v * of_int (dig_P2 dev) * 2 ^ 12"
  have P1: "\<bar>real_of_int (dig_P1 dev)\<bar> \<le> 43000" using assms by (simp add: press_range_def)
  have "\<bar>of_int (shr ?b 8) - ?x\<bar> \<le> 1" using shr_close[of ?b "real_of_int ?b" 0 8] by simp
  then have "\<bar>(of_int (shr ?b 8) + ?c) - (?x + ?c)\<bar> \<le> 1" by simp
  from mult_close[OF this P1]
  have "\<bar>of_int ((2 ^ 47 + (shr ?b 8 + v * dig_P2 dev * 2 ^ 12)) * dig_P1 dev) - (?x + ?c) * of_int (dig_P1 dev)\<bar> \<le> 43000"
    by (simp add: add.assoc add.left_commute)
  from shr_close[OF this, of 33] show ?thesis
    by (simp add: press_den_def exact_den_def Let_def v_def[symmetric] v_def[THEN arg_cong[where f = real_of_int], simplified, symmetric] add_ac)
qed

lemma corr_close:
  assumes "\<bar>p\<bar> \<le> 56800000000" and "is_s16 (dig_P8 dev)" and "is_s16 (dig_P9 dev)" and "\<bar>of_int p - x\<bar> \<le> 702"
  shows "\<bar>of_int (press_corr dev p) - exact_corr dev x\<bar> < 64"
proof -
  let ?q = "real_of_int (shr p 13)"
  have P: "\<bar>real_of_int (dig_P8 dev)\<bar> \<le> 32768" "\<bar>real_of_int (dig_P9 dev)\<bar> \<le> 32768" using assms(2,3) by (auto simp: is_s16_def)
  have q: "\<bar>?q - x / 2 ^ 13\<bar> \<le> 11 / 10" using shr_close[OF assms(4), of 13] by simp
  have "\<bar>?q\<bar> \<le> 6933594" using press_corr_parts(1)[OF assms(1-3)] by linarith
  then have "\<bar>?q + x / 2 ^ 13\<bar> \<le> 13867190" using q by linarith
  from square_close[OF q this] have "\<bar>?q * ?q - (x / 2 ^ 13)\<^sup>2\<bar> \<le> 15253909" by simp
  from mult_close[OF this P(2)]
  have "\<bar>of_int (dig_P9 dev * shr p 13 * shr p 13) - of_int (dig_P9 dev) * (x / 2 ^ 13)\<^sup>2\<bar> \<le> 499840090112" by (simp add: ac_simps)
  from shr_close[OF this, of 25]
  have c: "\<bar>of_int (shr (dig_P9 dev * shr p 13 * shr p 13) 25) - of_int (dig_P9 dev) * (x / 2 ^ 13)\<^sup>2 / 2 ^ 25\<bar> \<le> 14898" by simp
  from mult_close[OF assms(4) P(1)] have "\<bar>of_int (dig_P8 dev * p) - of_int (dig_P8 dev) * x\<bar> \<le> 23003136" by (simp add: ac_simps)
  from shr_close[OF this, of 19] have d: "\<bar>of_int (shr (dig_P8 dev * p) 19) - of_int (dig_P8 dev) * x / 2 ^ 19\<bar> \<le> 45" by simp
  have "\<bar>of_int (p + shr (dig_P9 dev * shr p 13 * shr p 13) 25 + shr (dig_P8 dev * p) 19)
      - (x + of_int (dig_P9 dev) * (x / 2 ^ 13)\<^sup>2 / 2 ^ 25 + of_int (dig_P8 dev) * x / 2 ^ 19)\<bar> \<le> 15645"
    using assms(4) c d unfolding of_int_add by linarith
  from shr_close[OF this, of 8] show ?thesis unfolding press_corr_def exact_corr_def by simp
qed

text \<open>With calibration values in the range named, no operation of the 64-bit formula overflows or divides by zero,
  and unless the true value is below a quarter of a Pascal the result is within a quarter of a Pascal of the same formula
  evaluated over the real numbers.\<close>

lemma pressure_accurate:
  assumes "press_range dev adc fine" and "64 \<le> exact_pressure dev adc fine"
  shows "\<exists>p. compensate_pressure dev adc fine = Some p \<and> \<bar>of_int p - exact_pressure dev adc fine\<bar> < 64"
proof -
  let ?n = "press_num dev adc fine" and ?d = "press_den dev fine"
  define p where "p = ?n sdiv ?d"
  note r = assms(1)[unfolded press_range_def] and nd = press_num_den[OF assms(1)] and q = press_quot[OF assms(1), folded p_def]
  have n: "\<bar>real_of_int ?n\<bar> \<le> 9190000000000000000" and d: "162000000 \<le> real_of_int ?d" using nd by linarith+
  have "161999998 \<le> exact_den dev fine" using d den_close[OF assms(1)] by linarith
  from quot_close[OF n d this den_close[OF assms(1)]] have "\<bar>real_of_int ?n / of_int ?d - of_int ?n / exact_den dev fine\<bar> \<le> 701" by simp
  moreover have "\<bar>of_int p - real_of_int ?n / of_int ?d\<bar> \<le> 1" using sdiv_close[of ?d ?n] nd(2) by (simp add: p_def)
  ultimately have "\<bar>of_int p - of_int ?n / exact_den dev fine\<bar> \<le> 702" by linarith
  then have c: "\<bar>of_int (press_corr dev p) - exact_pressure dev adc fine\<bar> < 64" using corr_close[OF q] r by (simp add: exact_pressure_def)
  then have "0 \<le> press_corr dev p" using assms(2) by linarith
  moreover have "\<bar>press_corr dev p\<bar> \<le> 500000000" using press_corr_steps(7)[OF q] r by blast
  ultimately have "press_corr dev p mod 2 ^ 32 = press_corr dev p" by simp
  then show ?thesis using c pressure_defined[OF assms(1)] by (simp add: p_def)
qed

section \<open>Humidity\<close>

text \<open>Whatever the calibration, a humidity that is computed at all is between 0 and 100 percent.\<close>

lemma humidity_bounded: "compensate_humidity dev adc fine = Some h \<Longrightarrow> 0 \<le> h \<and> h \<le> 100 * 1024"
  by (auto simp: compensate_humidity_def shr_def Let_def bind_eq_Some_conv)

end
