(* ===== verification/BMP280_Chip.thy ===== *)
theory BMP280_Chip
  imports BMP280_Formulas I2C_Bus
begin

text \<open>
  The BMP280 driver on a chip: the locale \<open>bmp280_chip\<close> is the registers, with a soft reset that keeps the factory calibration
  and takes some time; it is interpreted on the I2C slave of \<open>I2C_Bus\<close>.
\<close>

section \<open>The chip\<close>

text \<open>What the chip keeps through a reset.\<close>

definition factory :: "byte set" where
  "factory = {m. 0x88 \<le> m \<and> m < 0xa2 \<or> m = 0xd0 \<or> 0xe1 \<le> m \<and> m < 0xe8}"

text \<open>The chip's registers as the driver sees them. After a soft reset it copies its calibration data for a number of status reads.\<close>

locale bmp280_chip =
  fixes gp :: "'g gpiodev" and a :: byte and holds :: "'g i2c_state \<Rightarrow> (byte \<Rightarrow> byte) \<Rightarrow> bool"
    and copying :: "nat \<Rightarrow> 'g i2c_state \<Rightarrow> (byte \<Rightarrow> byte) \<Rightarrow> bool"
  assumes read_regs: "holds s r \<Longrightarrow> 0 < k \<Longrightarrow> \<exists>s'. i2c_slave_read gp a n buf k s = (True, overwrite (fetch r n k) buf, s') \<and> holds s' r"
    and write_reg: "holds s r \<Longrightarrow> n \<noteq> BMP280_REG_RESET \<Longrightarrow> n \<noteq> BMP280_REG_STATUS \<Longrightarrow>
      \<exists>s'. i2c_slave_write gp a [n, v] s = (True, s') \<and> holds s' (r(n := v))"
    and soft_reset: "holds s r \<Longrightarrow> \<exists>k s' r'. i2c_slave_write gp a [BMP280_REG_RESET, BMP280_RESET_VALUE] s = (True, s')
      \<and> copying k s' r' \<and> (\<forall>m \<in> factory. r' m = r m)"
    and copy_busy: "copying (Suc k) s r \<Longrightarrow> \<exists>d s'. i2c_slave_read gp a BMP280_REG_STATUS [b] 1 s = (True, [d], s') \<and> d AND 1 \<noteq> 0 \<and> copying k s' r"
    and copy_done: "copying 0 s r \<Longrightarrow> \<exists>d s'. i2c_slave_read gp a BMP280_REG_STATUS [b] 1 s = (True, [d], s') \<and> d AND 1 = 0 \<and> holds s' r"

text \<open>The calibration in the registers.\<close>

definition reg16 :: "(byte \<Rightarrow> byte) \<Rightarrow> byte \<Rightarrow> 16 word" where
  "reg16 r n = of_le16 (r n) (r (n + 1))"

definition calibrated :: "(byte \<Rightarrow> byte) \<Rightarrow> bmp280 \<Rightarrow> bmp280" where
  "calibrated r dev = fold (\<lambda>(addr, put). put (reg16 r addr)) calibration_registers dev"

definition hum_calibrated :: "(byte \<Rightarrow> byte) \<Rightarrow> bmp280 \<Rightarrow> bmp280" where
  "hum_calibrated r dev =
     dev\<lparr>dig_H1 := uint (r 0xa1), dig_H2 := sint (reg16 r 0xe1), dig_H3 := uint (r 0xe3),
         dig_H4 := sint (push_bit 4 (reg16 r 0xe4 AND 0x00ff) OR drop_bit 8 (reg16 r 0xe4 AND 0x0f00)),
         dig_H5 := sint (drop_bit 4 (reg16 r 0xe5)), dig_H6 := sint (r 0xe7)\<rparr>"

definition initialised :: "(byte \<Rightarrow> byte) \<Rightarrow> bmp280 \<Rightarrow> bmp280" where
  "initialised r dev =
     (let dev1 = calibrated r (dev\<lparr>chip_id := r BMP280_REG_ID\<rparr>) in if r BMP280_REG_ID = BME280_CHIP_ID then hum_calibrated r dev1 else dev1)"

definition initial_params :: "bmp280_params \<Rightarrow> bmp280_params" where
  "initial_params params = (if mode params = BMP280_MODE_FORCED then params\<lparr>mode := BMP280_MODE_SLEEP\<rparr> else params)"

lemma calibrated_id: "chip_id (calibrated r dev) = chip_id dev" "i2c_addr (calibrated r dev) = i2c_addr dev"
  by (simp_all add: calibrated_def calibration_registers_def)

lemma fold_regs_cong:
  "\<forall>(addr, put) \<in> set rs. reg16 r addr = reg16 r' addr \<Longrightarrow> fold (\<lambda>(addr, put). put (reg16 r addr)) rs dev = fold (\<lambda>(addr, put). put (reg16 r' addr)) rs dev"
  by (induction rs arbitrary: dev) auto

lemma factory_calibration:
  assumes "\<forall>m \<in> factory. r' m = r m"
  shows "calibrated r' dev = calibrated r dev" "hum_calibrated r' dev = hum_calibrated r dev"
proof -
  have m: "m \<in> factory" if "m \<in> {0x88, 0x89, 0x8a, 0x8b, 0x8c, 0x8d, 0x8e, 0x8f, 0x90, 0x91, 0x92, 0x93, 0x94, 0x95, 0x96, 0x97,
      0x98, 0x99, 0x9a, 0x9b, 0x9c, 0x9d, 0x9e, 0x9f, 0xa1, 0xe1, 0xe2, 0xe3, 0xe4, 0xe5, 0xe6, 0xe7}" for m
    using that by (auto simp: factory_def)
  show "calibrated r' dev = calibrated r dev" unfolding calibrated_def
    by (rule fold_regs_cong) (simp add: calibration_registers_def reg16_def assms m)
  show "hum_calibrated r' dev = hum_calibrated r dev" by (simp add: hum_calibrated_def reg16_def assms m)
qed

context bmp280_chip
begin

lemma read8: "holds s r \<Longrightarrow> \<exists>s'. i2c_slave_read gp a n [b] 1 s = (True, [r n], s') \<and> holds s' r"
  using read_regs[of s r 1 n "[b]"] by (simp add: overwrite_def)

lemma read16: "holds s r \<Longrightarrow> \<exists>s'. read_register16 gp a n v s = (True, reg16 r n, s') \<and> holds s' r"
  using read_regs[of s r 2 n "[0, 0]"] by (auto simp: read_register16_def overwrite_def reg16_def numeral_2_eq_2)

lemma read_all:
  "holds s r \<Longrightarrow> \<exists>s'. read_registers gp a rs dev s = (True, fold (\<lambda>(addr, put). put (reg16 r addr)) rs dev, s') \<and> holds s' r"
proof (induction rs arbitrary: dev s)
  case (Cons e rs)
  obtain addr put where e: "e = (addr, put)" by fastforce
  obtain s1 where s1: "read_register16 gp a addr 0 s = (True, reg16 r addr, s1)" "holds s1 r" using read16[OF Cons.prems] by blast
  then show ?case using Cons.IH[OF s1(2), of "put (reg16 r addr) dev"] e by simp
qed simp

lemma calibration_read: "holds s r \<Longrightarrow> i2c_addr dev = a \<Longrightarrow> \<exists>s'. read_calibration_data gp dev s = (True, calibrated r dev, s') \<and> holds s' r"
  using read_all[of s r calibration_registers dev] by (simp add: read_calibration_data_def calibrated_def)

lemma hum_calibration_read:
  assumes "holds s r" and "i2c_addr dev = a"
  shows "\<exists>s'. read_hum_calibration_data gp dev s = (True, hum_calibrated r dev, s') \<and> holds s' r"
proof -
  obtain s1 where 1: "i2c_slave_read gp a 0xa1 [word_of_int (dig_H1 dev)] 1 s = (True, [r 0xa1], s1)" "holds s1 r" using read8[OF assms(1)] by blast
  obtain s2 where 2: "read_register16 gp a 0xe1 (word_of_int (dig_H2 dev)) s1 = (True, reg16 r 0xe1, s2)" "holds s2 r" using read16[OF 1(2)] by blast
  obtain s3 where 3: "i2c_slave_read gp a 0xe3 [word_of_int (dig_H3 dev)] 1 s2 = (True, [r 0xe3], s3)" "holds s3 r" using read8[OF 2(2)] by blast
  obtain s4 where 4: "read_register16 gp a 0xe4 0 s3 = (True, reg16 r 0xe4, s4)" "holds s4 r" using read16[OF 3(2)] by blast
  obtain s5 where 5: "read_register16 gp a 0xe5 0 s4 = (True, reg16 r 0xe5, s5)" "holds s5 r" using read16[OF 4(2)] by blast
  obtain s6 where 6: "i2c_slave_read gp a 0xe7 [word_of_int (dig_H6 dev)] 1 s5 = (True, [r 0xe7], s6)" "holds s6 r" using read8[OF 5(2)] by blast
  show ?thesis using 1(1) 2(1) 3(1) 4(1) 5(1) 6 assms(2) by (simp add: read_hum_calibration_data_def hum_calibrated_def)
qed

lemma wait_ends: "copying k s r \<Longrightarrow> k < fuel \<Longrightarrow> \<exists>s'. wait_copied fuel gp a b s = Some s' \<and> holds s' r"
proof (induction k arbitrary: fuel b s)
  case 0
  then obtain d s1 where "i2c_slave_read gp a BMP280_REG_STATUS [b] 1 s = (True, [d], s1)" "d AND 1 = 0" "holds s1 r" using copy_done by blast
  then show ?case using 0 by (cases fuel) simp_all
next
  case (Suc k)
  then obtain d s1 where d: "i2c_slave_read gp a BMP280_REG_STATUS [b] 1 s = (True, [d], s1)" "d AND 1 \<noteq> 0" "copying k s1 r" using copy_busy by blast
  then show ?case using Suc.IH[OF d(3), of "fuel - 1" d] Suc.prems(2) by (cases fuel) simp_all
qed

lemma wait_same: "wait_copied fuel gp a b s = Some s' \<Longrightarrow> fuel \<le> fuel' \<Longrightarrow> wait_copied fuel' gp a b s = Some s'"
proof (induction fuel arbitrary: fuel' b s)
  case (Suc fuel)
  then obtain f where "fuel' = Suc f" "fuel \<le> f" by (cases fuel') auto
  then show ?case using Suc.IH[of _ _ f] Suc.prems(1) by (auto split: prod.splits if_splits)
qed simp

lemma configured:
  assumes "holds s r" and "i2c_addr dev = a"
  shows "\<exists>s' r'. bmp280_configure gp dev params s = (True, initial_params params, s') \<and> holds s' r'
    \<and> r' BMP280_REG_CONFIG = config_byte params \<and> r' BMP280_REG_CTRL = ctrl_byte (initial_params params)
    \<and> (chip_id dev = BME280_CHIP_ID \<longrightarrow> r' BMP280_REG_CTRL_HUM = oversampling_code (oversampling_humidity params))"
proof -
  note regs = BMP280_REG_CONFIG_def BMP280_REG_CTRL_def BMP280_REG_CTRL_HUM_def BMP280_REG_RESET_def BMP280_REG_STATUS_def
  let ?p = "initial_params params" and ?h = "oversampling_code (oversampling_humidity params)"
  let ?r1 = "r(BMP280_REG_CONFIG := config_byte params)"
  let ?r2 = "if chip_id dev = BME280_CHIP_ID then ?r1(BMP280_REG_CTRL_HUM := ?h) else ?r1"
  have oh: "oversampling_humidity ?p = oversampling_humidity params" by (simp add: initial_params_def)
  obtain s1 where 1: "i2c_slave_write gp a [BMP280_REG_CONFIG, config_byte params] s = (True, s1)" "holds s1 ?r1"
    using write_reg[OF assms(1), of BMP280_REG_CONFIG] by (auto simp: regs)
  obtain s2 where 2: "(if chip_id dev = BME280_CHIP_ID then i2c_slave_write gp a [BMP280_REG_CTRL_HUM, ?h] s1 else (True, s1)) = (True, s2)" "holds s2 ?r2"
    using 1(2) write_reg[OF 1(2), of BMP280_REG_CTRL_HUM ?h] by (cases "chip_id dev = BME280_CHIP_ID") (auto simp: regs)
  obtain s3 where 3: "i2c_slave_write gp a [BMP280_REG_CTRL, ctrl_byte ?p] s2 = (True, s3)" "holds s3 (?r2(BMP280_REG_CTRL := ctrl_byte ?p))"
    using write_reg[OF 2(2), of BMP280_REG_CTRL] by (auto simp: regs)
  have "bmp280_configure gp dev params s = (True, ?p, s3)"
    unfolding bmp280_configure_def write_register8_def assms(2) Let_def initial_params_def[symmetric] oh
    using 1(1) 2(1) 3(1) by simp
  then show ?thesis using 3(2) by (intro exI[of _ s3] exI[of _ "?r2(BMP280_REG_CTRL := ctrl_byte ?p)"]) (simp add: regs)
qed

lemma init_works:
  assumes "holds s r" and "i2c_addr dev = a" and "a = BMP280_I2C_ADDRESS_0 \<or> a = BMP280_I2C_ADDRESS_1"
    and "r BMP280_REG_ID = BMP280_CHIP_ID \<or> r BMP280_REG_ID = BME280_CHIP_ID"
  shows "\<exists>k s' r'. (\<forall>fuel > k. bmp280_init fuel gp b dev params s = Some (True, initialised r dev, initial_params params, s')) \<and> holds s' r'
    \<and> r' BMP280_REG_CONFIG = config_byte params \<and> r' BMP280_REG_CTRL = ctrl_byte (initial_params params)
    \<and> (r BMP280_REG_ID = BME280_CHIP_ID \<longrightarrow> r' BMP280_REG_CTRL_HUM = oversampling_code (oversampling_humidity params))"
proof -
  let ?dev1 = "dev\<lparr>chip_id := r BMP280_REG_ID\<rparr>"
  obtain s1 where 1: "i2c_slave_read gp a BMP280_REG_ID [chip_id dev] 1 s = (True, [r BMP280_REG_ID], s1)" "holds s1 r" using read8[OF assms(1)] by blast
  obtain k s2 r2 where 2: "i2c_slave_write gp a [BMP280_REG_RESET, BMP280_RESET_VALUE] s1 = (True, s2)" "copying k s2 r2" "\<forall>m \<in> factory. r2 m = r m"
    using soft_reset[OF 1(2)] by blast
  obtain s3 where 3: "wait_copied (Suc k) gp a b s2 = Some s3" "holds s3 r2" using wait_ends[OF 2(2), of "Suc k" b] by blast
  obtain s4 where 4: "read_calibration_data gp ?dev1 s3 = (True, calibrated r ?dev1, s4)" "holds s4 r2"
    using calibration_read[OF 3(2), of ?dev1] assms(2) factory_calibration(1)[OF 2(3)] by auto
  have i4: "i2c_addr (calibrated r ?dev1) = a" "chip_id (calibrated r ?dev1) = r BMP280_REG_ID" using assms(2) by (simp_all add: calibrated_id)
  obtain s5 where 5: "(if chip_id (calibrated r ?dev1) = BME280_CHIP_ID then read_hum_calibration_data gp (calibrated r ?dev1) s4 else (True, calibrated r ?dev1, s4))
      = (True, initialised r dev, s5)" "holds s5 r2"
    using hum_calibration_read[OF 4(2) i4(1)] 4(2) factory_calibration(2)[OF 2(3)] i4(2)
    by (cases "r BMP280_REG_ID = BME280_CHIP_ID") (auto simp: initialised_def Let_def)
  have i5: "i2c_addr (initialised r dev) = a" "chip_id (initialised r dev) = r BMP280_REG_ID"
    using assms(2) by (simp_all add: initialised_def Let_def hum_calibrated_def calibrated_id)
  obtain s6 r6 where 6: "bmp280_configure gp (initialised r dev) params s5 = (True, initial_params params, s6)" "holds s6 r6"
      "r6 BMP280_REG_CONFIG = config_byte params" "r6 BMP280_REG_CTRL = ctrl_byte (initial_params params)"
      "r BMP280_REG_ID = BME280_CHIP_ID \<longrightarrow> r6 BMP280_REG_CTRL_HUM = oversampling_code (oversampling_humidity params)"
    using configured[OF 5(2) i5(1), of params] i5(2) by auto
  have "bmp280_init fuel gp b dev params s = Some (True, initialised r dev, initial_params params, s6)" if "k < fuel" for fuel
    using assms(2-4) 1(1) 2(1) wait_same[OF 3(1), of fuel] that 4(1) 5(1) 6(1) by (auto simp: bmp280_init_def write_register8_def)
  then show ?thesis using 6 by blast
qed

lemma read_works:
  assumes "holds s r" and "i2c_addr dev = a" and "length data = 8"
    and "compensate_temperature dev (adc20 (r 0xfa) (r 0xfb) (r 0xfc)) = Some (t, fine)"
    and "compensate_pressure dev (adc20 (r 0xf7) (r 0xf8) (r 0xf9)) fine = Some p"
  shows "\<exists>s'. bmp280_read_fixed gp dev data (t0, p0, None) s = Some (True, (t, p, None), s') \<and> holds s' r"
proof -
  have f: "fetch r 0xf7 6 = [r 0xf7, r 0xf8, r 0xf9, r 0xfa, r 0xfb, r 0xfc]" by (simp add: numeral_eq_Suc)
  obtain s' where "i2c_slave_read gp a 0xf7 data 6 s = (True, overwrite (fetch r 0xf7 6) data, s')" "holds s' r"
    using read_regs[OF assms(1), of 6] by fastforce
  then show ?thesis using assms(2,4,5) by (simp add: bmp280_read_fixed_def f overwrite_def Let_def)
qed

end

interpretation bmp_wires: bmp280_chip "wires a" a "\<lambda>s r. r BMP280_REG_STATUS AND 1 = 0 \<and> (\<exists>n. s = bus False True True (idle r n))"
    "\<lambda>k s r. k = 0 \<and> r BMP280_REG_STATUS AND 1 = 0 \<and> (\<exists>n. s = bus False True True (idle r n))" for a
proof
  fix s :: "lines i2c_state" and r n buf and k :: nat
  assume "r BMP280_REG_STATUS AND 1 = 0 \<and> (\<exists>n. s = bus False True True (idle r n))" and "0 < k"
  then show "\<exists>s'. i2c_slave_read (wires a) a n buf k s = (True, overwrite (fetch r n k) buf, s')
      \<and> r BMP280_REG_STATUS AND 1 = 0 \<and> (\<exists>n. s' = bus False True True (idle r n))"
    using wires.read_regs[of s r k a n buf] by auto
next
  fix s :: "lines i2c_state" and r :: "byte \<Rightarrow> byte" and n v
  assume "r BMP280_REG_STATUS AND 1 = 0 \<and> (\<exists>n. s = bus False True True (idle r n))" and "n \<noteq> BMP280_REG_RESET" and "n \<noteq> BMP280_REG_STATUS"
  then show "\<exists>s'. i2c_slave_write (wires a) a [n, v] s = (True, s')
      \<and> (r(n := v)) BMP280_REG_STATUS AND 1 = 0 \<and> (\<exists>m. s' = bus False True True (idle (r(n := v)) m))"
    by (auto simp: slave_write_wires)
next
  fix s :: "lines i2c_state" and r :: "byte \<Rightarrow> byte"
  assume h: "r BMP280_REG_STATUS AND 1 = 0 \<and> (\<exists>n. s = bus False True True (idle r n))"
  have "BMP280_REG_RESET \<notin> factory" by (simp add: factory_def BMP280_REG_RESET_def)
  then show "\<exists>k s' r'. i2c_slave_write (wires a) a [BMP280_REG_RESET, BMP280_RESET_VALUE] s = (True, s')
      \<and> (k = 0 \<and> r' BMP280_REG_STATUS AND 1 = 0 \<and> (\<exists>n. s' = bus False True True (idle r' n))) \<and> (\<forall>m \<in> factory. r' m = r m)"
    using h by (intro exI[of _ 0] exI[of _ "bus False True True (idle (r(BMP280_REG_RESET := BMP280_RESET_VALUE)) (BMP280_REG_RESET + 1))"]
        exI[of _ "r(BMP280_REG_RESET := BMP280_RESET_VALUE)"]) (auto simp: slave_write_wires BMP280_REG_RESET_def BMP280_REG_STATUS_def)
next
  fix s :: "lines i2c_state" and r :: "byte \<Rightarrow> byte" and b
  assume h: "0 = (0 :: nat) \<and> r BMP280_REG_STATUS AND 1 = 0 \<and> (\<exists>n. s = bus False True True (idle r n))"
  then obtain s' where "i2c_slave_read (wires a) a BMP280_REG_STATUS [b] 1 s = (True, overwrite (fetch r BMP280_REG_STATUS 1) [b], s')"
      "\<exists>n. s' = bus False True True (idle r n)"
    using wires.read_regs[of s r 1 a BMP280_REG_STATUS "[b]"] by auto
  then show "\<exists>d s'. i2c_slave_read (wires a) a BMP280_REG_STATUS [b] 1 s = (True, [d], s') \<and> d AND 1 = 0
      \<and> r BMP280_REG_STATUS AND 1 = 0 \<and> (\<exists>n. s' = bus False True True (idle r n))"
    using h by (simp add: overwrite_def)
qed simp

text \<open>C34: The driver measures. For a chip with one of the two identifiers at one of the two addresses, \<open>bmp280_init\<close> ends (whatever time the
  chip takes to copy its calibration), reads the calibration and configures the chip as asked; from then on, whenever the
  chip holds raw values within the range of its calibration, \<open>bmp280_read_fixed\<close> returns a temperature within 0.011 degrees and a
  pressure within a quarter of a Pascal of the formulas over the real numbers.\<close>

theorem bmp280_measures:
  assumes "bmp280_chip gp a holds copying" and "holds s r" and "i2c_addr dev = a" and "a = BMP280_I2C_ADDRESS_0 \<or> a = BMP280_I2C_ADDRESS_1"
    and "r BMP280_REG_ID = BMP280_CHIP_ID \<or> r BMP280_REG_ID = BME280_CHIP_ID"
  shows "\<exists>k s1 r1 dev1. (\<forall>fuel > k. bmp280_init fuel gp b dev params s = Some (True, dev1, initial_params params, s1)) \<and> dev1 = initialised r dev
    \<and> holds s1 r1 \<and> r1 BMP280_REG_CONFIG = config_byte params \<and> r1 BMP280_REG_CTRL = ctrl_byte (initial_params params)
    \<and> (\<forall>s2 r2 data t0 p0. holds s2 r2 \<and> length data = 8 \<and> temp_range dev1 (adc20 (r2 0xfa) (r2 0xfb) (r2 0xfc)) \<longrightarrow>
         (\<exists>t fine. compensate_temperature dev1 (adc20 (r2 0xfa) (r2 0xfb) (r2 0xfc)) = Some (t, fine)
           \<and> (press_range dev1 (adc20 (r2 0xf7) (r2 0xf8) (r2 0xf9)) fine \<and> 64 \<le> exact_pressure dev1 (adc20 (r2 0xf7) (r2 0xf8) (r2 0xf9)) fine \<longrightarrow>
             (\<exists>p s3. bmp280_read_fixed gp dev1 data (t0, p0, None) s2 = Some (True, (t, p, None), s3) \<and> holds s3 r2
               \<and> \<bar>of_int t - exact_temperature dev1 (adc20 (r2 0xfa) (r2 0xfb) (r2 0xfc))\<bar> < 11 / 10
               \<and> \<bar>of_int p - exact_pressure dev1 (adc20 (r2 0xf7) (r2 0xf8) (r2 0xf9)) fine\<bar> < 64))))"
proof -
  note init = bmp280_chip.init_works[OF assms, of b params]
  obtain k s1 r1 where i: "\<forall>fuel > k. bmp280_init fuel gp b dev params s = Some (True, initialised r dev, initial_params params, s1)" "holds s1 r1"
      "r1 BMP280_REG_CONFIG = config_byte params" "r1 BMP280_REG_CTRL = ctrl_byte (initial_params params)"
    using init by blast
  have addr: "i2c_addr (initialised r dev) = a" using assms(3) by (simp add: initialised_def Let_def hum_calibrated_def calibrated_id)
  have reads: "\<exists>t fine. compensate_temperature (initialised r dev) adc_t = Some (t, fine)
      \<and> (press_range (initialised r dev) adc_p fine \<and> 64 \<le> exact_pressure (initialised r dev) adc_p fine \<longrightarrow>
        (\<exists>p s3. bmp280_read_fixed gp (initialised r dev) data (t0, p0, None) s2 = Some (True, (t, p, None), s3) \<and> holds s3 r2
          \<and> \<bar>of_int t - exact_temperature (initialised r dev) adc_t\<bar> < 11 / 10 \<and> \<bar>of_int p - exact_pressure (initialised r dev) adc_p fine\<bar> < 64))"
    if h: "holds s2 r2" and l: "length data = 8" and t: "temp_range (initialised r dev) adc_t"
      and adc: "adc_t = adc20 (r2 0xfa) (r2 0xfb) (r2 0xfc)" "adc_p = adc20 (r2 0xf7) (r2 0xf8) (r2 0xf9)" for s2 r2 data t0 p0 adc_t adc_p
  proof -
    obtain t fine where t: "compensate_temperature (initialised r dev) adc_t = Some (t, fine)" "\<bar>of_int t - exact_temperature (initialised r dev) adc_t\<bar> < 11 / 10"
      using temperature_accurate[OF t] by blast
    then show ?thesis
      using pressure_accurate[of "initialised r dev" adc_p fine] bmp280_chip.read_works[OF assms(1) h addr l t(1)[unfolded adc(1)], of _ t0 p0] adc by blast
  qed
  show ?thesis using i reads by (intro exI[of _ k] exI[of _ s1] exI[of _ r1] exI[of _ "initialised r dev"]) blast
qed

text \<open>A chip with calibration values of the usual size.\<close>

definition demo_regs :: "byte \<Rightarrow> byte" where
  "demo_regs m = (if m = BMP280_REG_ID then BMP280_CHIP_ID
     else if 0x88 \<le> m \<and> m < 0xa0 then [0x70, 0x6b, 0x43, 0x67, 0x18, 0xfc, 0x7d, 0x8e, 0x43, 0xd6, 0xd0, 0x0b, 0x27, 0x0b, 0x8c, 0x00, 0xf9, 0xff, 0x8c, 0x3c, 0xf8, 0xc6, 0x70, 0x17] ! unat (m - 0x88)
     else if 0xf7 \<le> m \<and> m < 0xfd then [0x65, 0x5a, 0xc0, 0x7e, 0xed, 0x00] ! unat (m - 0xf7) else 0)"

definition demo_dev :: bmp280 where
  "demo_dev = \<lparr>dig_T1 = 0, dig_T2 = 0, dig_T3 = 0, dig_P1 = 0, dig_P2 = 0, dig_P3 = 0, dig_P4 = 0, dig_P5 = 0, dig_P6 = 0, dig_P7 = 0,
     dig_P8 = 0, dig_P9 = 0, dig_H1 = 0, dig_H2 = 0, dig_H3 = 0, dig_H4 = 0, dig_H5 = 0, dig_H6 = 0, i2c_addr = 0x76, chip_id = 0\<rparr>"

lemma demo_initialised:
  "initialised demo_regs demo_dev = \<lparr>dig_T1 = 27504, dig_T2 = 26435, dig_T3 = - 1000, dig_P1 = 36477, dig_P2 = - 10685, dig_P3 = 3024,
     dig_P4 = 2855, dig_P5 = 140, dig_P6 = - 7, dig_P7 = 15500, dig_P8 = - 14600, dig_P9 = 6000, dig_H1 = 0, dig_H2 = 0, dig_H3 = 0,
     dig_H4 = 0, dig_H5 = 0, dig_H6 = 0, i2c_addr = 0x76, chip_id = 0x58\<rparr>"
  by code_simp

lemma demo_adc: "adc20 (demo_regs 0xfa) (demo_regs 0xfb) (demo_regs 0xfc) = 519888" "adc20 (demo_regs 0xf7) (demo_regs 0xf8) (demo_regs 0xf9) = 415148"
  by code_simp+

lemma demo_temp: "compensate_temperature (initialised demo_regs demo_dev) 519888 = Some (2508, 128422)"
  unfolding demo_initialised by (simp add: compensate_temperature_def s32_def shr_def shl32_def wrap32_def)

lemma demo_range: "temp_range (initialised demo_regs demo_dev) 519888" "press_range (initialised demo_regs demo_dev) 415148 128422"
  "64 \<le> exact_pressure (initialised demo_regs demo_dev) 415148 128422"
  unfolding demo_initialised
  by (simp_all add: temp_range_def press_range_def is_u16_def is_s16_def shr_def exact_pressure_def exact_corr_def exact_den_def press_num_def Let_def power2_eq_square)

theorem bmp280_measures_witness:
  "\<exists>k s1 t p s3. (\<forall>fuel > k. bmp280_init fuel (wires 0x76) 0 demo_dev bmp280_init_default_params (bus False True True (idle demo_regs 0))
        = Some (True, initialised demo_regs demo_dev, bmp280_init_default_params, s1))
    \<and> bmp280_read_fixed (wires 0x76) (initialised demo_regs demo_dev) (replicate 8 0) (0, 0, None) (bus False True True (idle demo_regs 0))
        = Some (True, (2508, p, None), s3)
    \<and> \<bar>of_int p - exact_pressure (initialised demo_regs demo_dev) 415148 128422\<bar> < 64"
proof -
  let ?s = "bus False True True (idle demo_regs 0)" and ?h = "\<lambda>s r. r BMP280_REG_STATUS AND 1 = 0 \<and> (\<exists>n. s = bus False True True (idle r n))"
  have d: "?h ?s demo_regs" "demo_regs BMP280_REG_ID = BMP280_CHIP_ID" by (auto simp: demo_regs_def BMP280_REG_STATUS_def BMP280_REG_ID_def)
  have ini: "initial_params bmp280_init_default_params = bmp280_init_default_params" by (simp add: initial_params_def bmp280_init_default_params_def)
  have a: "i2c_addr demo_dev = 0x76" "0x76 = BMP280_I2C_ADDRESS_0 \<or> 0x76 = BMP280_I2C_ADDRESS_1" by (simp_all add: demo_dev_def BMP280_I2C_ADDRESS_0_def)
  obtain k s1 r1 where "\<forall>fuel > k. bmp280_init fuel (wires 0x76) 0 demo_dev bmp280_init_default_params ?s
        = Some (True, initialised demo_regs demo_dev, bmp280_init_default_params, s1)"
    and r: "\<forall>s2 r2 data t0 p0. ?h s2 r2 \<and> length data = 8 \<and> temp_range (initialised demo_regs demo_dev) (adc20 (r2 0xfa) (r2 0xfb) (r2 0xfc)) \<longrightarrow>
         (\<exists>t fine. compensate_temperature (initialised demo_regs demo_dev) (adc20 (r2 0xfa) (r2 0xfb) (r2 0xfc)) = Some (t, fine)
           \<and> (press_range (initialised demo_regs demo_dev) (adc20 (r2 0xf7) (r2 0xf8) (r2 0xf9)) fine
               \<and> 64 \<le> exact_pressure (initialised demo_regs demo_dev) (adc20 (r2 0xf7) (r2 0xf8) (r2 0xf9)) fine \<longrightarrow>
             (\<exists>p s3. bmp280_read_fixed (wires 0x76) (initialised demo_regs demo_dev) data (t0, p0, None) s2 = Some (True, (t, p, None), s3) \<and> ?h s3 r2
               \<and> \<bar>of_int t - exact_temperature (initialised demo_regs demo_dev) (adc20 (r2 0xfa) (r2 0xfb) (r2 0xfc))\<bar> < 11 / 10
               \<and> \<bar>of_int p - exact_pressure (initialised demo_regs demo_dev) (adc20 (r2 0xf7) (r2 0xf8) (r2 0xf9)) fine\<bar> < 64)))"
    using bmp280_measures[OF bmp_wires.bmp280_chip_axioms[of "0x76"], where s = ?s and r = demo_regs and dev = demo_dev and b = 0
        and params = bmp280_init_default_params, OF d(1) a disjI1[OF d(2)], unfolded ini]
    by (elim exE conjE) (simp only:)
  moreover have "\<exists>p s3. bmp280_read_fixed (wires 0x76) (initialised demo_regs demo_dev) (replicate 8 0) (0, 0, None) ?s = Some (True, (2508, p, None), s3)
      \<and> \<bar>of_int p - exact_pressure (initialised demo_regs demo_dev) 415148 128422\<bar> < 64"
    using r[THEN spec[where x = ?s], THEN spec[where x = demo_regs], THEN spec[where x = "replicate 8 0"], THEN spec[where x = 0], THEN spec[where x = 0], unfolded demo_adc demo_temp] d(1) demo_range by auto
  ultimately show ?thesis by blast
qed

end
