(* ===== verification/BMP180.thy ===== *)
theory BMP180
  imports Complex_Main I2C CArith
begin

text \<open>
  The BMP180 driver, \<^verbatim>\<open>src/extras/bmp180/bmp180.c\<close>, over the I2C master. An overflow of signed arithmetic and a division by zero
  are undefined behaviour, the value \<open>None\<close>. Unsigned 32-bit arithmetic wraps. A pointer that may be null is an option.
  The queues and tasks of the operating system are the operations of \<open>bmp180_os\<close>, with \<open>'q\<close> a queue and \<open>'k\<close> the state of the system.
  Arithmetic on \<^verbatim>\<open>float\<close> and \<^verbatim>\<open>double\<close> is exact arithmetic followed by a rounding.
\<close>

definition BMP180_RX_QUEUE_SIZE :: nat where "BMP180_RX_QUEUE_SIZE = 10"
definition BMP180_DEVICE_ADDRESS :: byte where "BMP180_DEVICE_ADDRESS = 0x77"
definition BMP180_VERSION_REG :: byte where "BMP180_VERSION_REG = 0xD0"
definition BMP180_CONTROL_REG :: byte where "BMP180_CONTROL_REG = 0xF4"
definition BMP180_OUT_MSB_REG :: byte where "BMP180_OUT_MSB_REG = 0xF6"
definition BMP180_CALIBRATION_REG :: byte where "BMP180_CALIBRATION_REG = 0xAA"
definition BMP180_MEASURE_TEMP :: byte where "BMP180_MEASURE_TEMP = 0x2E"
definition BMP180_MEASURE_PRESS :: byte where "BMP180_MEASURE_PRESS = 0x34"
definition BMP180_CHIP_ID :: byte where "BMP180_CHIP_ID = 0x55"
definition BMP180_TEMPERATURE :: byte where "BMP180_TEMPERATURE = 1"
definition BMP180_PRESSURE :: byte where "BMP180_PRESSURE = 2"

record bmp180_constants =
  AC1 :: int
  AC2 :: int
  AC3 :: int
  AC4 :: int
  AC5 :: int
  AC6 :: int
  B1 :: int
  B2 :: int
  MB :: int
  MC :: int
  MD :: int

section \<open>Registers\<close>

definition bmp180_readRegister16 :: "'g gpiodev \<Rightarrow> byte \<Rightarrow> 16 word \<Rightarrow> 'g i2c_state \<Rightarrow> bool \<times> 16 word \<times> 'g i2c_state" where
  "bmp180_readRegister16 gp reg r s =
     (case i2c_slave_read gp BMP180_DEVICE_ADDRESS reg [0, 0] 2 s of
        (ok, d, s1) \<Rightarrow> if \<not> ok then (False, r, s1) else (True, push_bit 8 (ucast (d ! 0)) OR ucast (d ! 1), s1))"

definition bmp180_start_Messurement :: "'g gpiodev \<Rightarrow> byte \<Rightarrow> 'g i2c_state \<Rightarrow> bool \<times> 'g i2c_state" where
  "bmp180_start_Messurement gp cmd s = i2c_slave_write gp BMP180_DEVICE_ADDRESS [BMP180_CONTROL_REG, cmd] s"

definition os_delay :: "'g gpiodev \<Rightarrow> nat \<Rightarrow> 'g i2c_state \<Rightarrow> 'g i2c_state" where
  "os_delay gp us s = s\<lparr>i2c_pins := os_delay_us gp us (i2c_pins s)\<rparr>"

definition bmp180_get_uncompensated_temperature :: "'g gpiodev \<Rightarrow> int \<Rightarrow> 'g i2c_state \<Rightarrow> bool \<times> int \<times> 'g i2c_state" where
  "bmp180_get_uncompensated_temperature gp ut s =
     (case bmp180_start_Messurement gp BMP180_MEASURE_TEMP s of (ok1, s1) \<Rightarrow>
      if \<not> ok1 then (False, ut, s1)
      else (case bmp180_readRegister16 gp BMP180_OUT_MSB_REG 0 (os_delay gp 5000 s1) of (ok2, v, s2) \<Rightarrow>
        if \<not> ok2 then (False, ut, s2) else (True, sint v, s2)))"

text \<open>The oversampling setting, limited, and the time a measurement takes.\<close>

definition press_setting :: "nat \<Rightarrow> nat \<times> nat" where
  "press_setting oss = (if oss = 0 then (0, 5000) else if oss = 1 then (1, 8000) else if oss = 2 then (2, 14000) else (3, 26000))"

definition bmp180_get_uncompensated_pressure :: "'g gpiodev \<Rightarrow> nat \<Rightarrow> int \<Rightarrow> 'g i2c_state \<Rightarrow> bool \<times> int \<times> 'g i2c_state" where
  "bmp180_get_uncompensated_pressure gp oss up s =
     (case press_setting oss of (oss1, us) \<Rightarrow>
      case bmp180_start_Messurement gp (BMP180_MEASURE_PRESS OR push_bit 6 (of_nat oss1)) s of (ok1, s1) \<Rightarrow>
      if \<not> ok1 then (False, up, s1)
      else (case i2c_slave_read gp BMP180_DEVICE_ADDRESS BMP180_OUT_MSB_REG [0, 0, 0] 3 (os_delay gp us s1) of (ok2, d, s2) \<Rightarrow>
        if \<not> ok2 then (False, up, s2)
        else (True, uint (drop_bit (8 - oss1) (push_bit 16 (ucast (d ! 0)) OR push_bit 8 (ucast (d ! 1)) OR ucast (d ! 2) :: 32 word)), s2)))"

text \<open>The reads of the calibration in their order; the first that fails ends the chain.\<close>

definition constant_registers :: "(byte \<times> (16 word \<Rightarrow> bmp180_constants \<Rightarrow> bmp180_constants)) list" where
  "constant_registers =
     [(0, \<lambda>v c. c\<lparr>AC1 := sint v\<rparr>), (2, \<lambda>v c. c\<lparr>AC2 := sint v\<rparr>), (4, \<lambda>v c. c\<lparr>AC3 := sint v\<rparr>),
      (6, \<lambda>v c. c\<lparr>AC4 := uint v\<rparr>), (8, \<lambda>v c. c\<lparr>AC5 := uint v\<rparr>), (10, \<lambda>v c. c\<lparr>AC6 := uint v\<rparr>),
      (12, \<lambda>v c. c\<lparr>B1 := sint v\<rparr>), (14, \<lambda>v c. c\<lparr>B2 := sint v\<rparr>),
      (16, \<lambda>v c. c\<lparr>MB := sint v\<rparr>), (18, \<lambda>v c. c\<lparr>MC := sint v\<rparr>), (20, \<lambda>v c. c\<lparr>MD := sint v\<rparr>)]"

fun read_constants ::
  "'g gpiodev \<Rightarrow> (byte \<times> (16 word \<Rightarrow> 'c \<Rightarrow> 'c)) list \<Rightarrow> 'c \<Rightarrow> 'g i2c_state \<Rightarrow> bool \<times> 'c \<times> 'g i2c_state" where
  "read_constants gp [] c s = (True, c, s)"
| "read_constants gp ((offs, put) # rs) c s =
     (case bmp180_readRegister16 gp (BMP180_CALIBRATION_REG + offs) 0 s of
        (ok, v, s1) \<Rightarrow> if \<not> ok then (False, c, s1) else read_constants gp rs (put v c) s1)"

definition constants_bad :: "bmp180_constants \<Rightarrow> bool" where
  "constants_bad c \<longleftrightarrow>
     AC1 c = 0x0000 \<or> AC2 c = 0x0000 \<or> AC3 c = 0x0000 \<or> AC4 c = 0x0000 \<or> AC5 c = 0x0000 \<or> AC6 c = 0x0000 \<or>
     B1 c = 0x0000 \<or> B2 c = 0x0000 \<or> MB c = 0x0000 \<or> MC c = 0x0000 \<or> MD c = 0x0000 \<or>
     AC1 c = 0xffff \<or> AC2 c = 0xffff \<or> AC3 c = 0xffff \<or> AC4 c = 0xffff \<or> AC5 c = 0xffff \<or> AC6 c = 0xffff \<or>
     B1 c = 0xffff \<or> B2 c = 0xffff \<or> MB c = 0xffff \<or> MC c = 0xffff \<or> MD c = 0xffff"

definition bmp180_fillInternalConstants :: "'g gpiodev \<Rightarrow> bmp180_constants \<Rightarrow> 'g i2c_state \<Rightarrow> bool \<times> bmp180_constants \<times> 'g i2c_state" where
  "bmp180_fillInternalConstants gp c s =
     (case read_constants gp constant_registers c s of (ok, c1, s1) \<Rightarrow> (ok \<and> \<not> constants_bad c1, c1, s1))"

definition bmp180_is_available :: "'g gpiodev \<Rightarrow> byte \<Rightarrow> 'g i2c_state \<Rightarrow> bool \<times> 'g i2c_state" where
  "bmp180_is_available gp chip_ident s =
     (case i2c_slave_read gp BMP180_DEVICE_ADDRESS BMP180_VERSION_REG [chip_ident] 1 s of
        (ok, d, s1) \<Rightarrow> (ok \<and> d ! 0 = BMP180_CHIP_ID, s1))"

section \<open>Measuring\<close>

text \<open>The true temperature in tenths of a degree, and the value the pressure formula uses.\<close>

definition bmp180_temperature :: "bmp180_constants \<Rightarrow> int \<Rightarrow> (int \<times> int) option" where
  "bmp180_temperature c UT =
     do {
       a1 \<leftarrow> s32 (UT - AC6 c);
       a2 \<leftarrow> s32 (a1 * AC5 c);
       let X1 = shr a2 15;
       b1 \<leftarrow> s32 (X1 + MD c);
       X2 \<leftarrow> div32 (shl32 (MC c) 11) b1;
       B5 \<leftarrow> s32 (X1 + X2);
       t \<leftarrow> s32 (B5 + 8);
       Some (shr t 4, B5)
     }"

text \<open>The true pressure in Pascal. A shift by the width of the type or more is undefined.\<close>

definition bmp180_pressure :: "bmp180_constants \<Rightarrow> nat \<Rightarrow> int \<Rightarrow> int \<Rightarrow> int option" where
  "bmp180_pressure c oss B5 UP =
     do {
       B6 \<leftarrow> s32 (B5 - 4000);
       sq \<leftarrow> s32 (B6 * B6);
       x1 \<leftarrow> s32 (B2 c * shr sq 12);
       x2 \<leftarrow> s32 (AC2 c * B6);
       x3 \<leftarrow> s32 (shr x1 11 + shr x2 11);
       b1 \<leftarrow> s32 (AC1 c * 4 + x3);
       b2 \<leftarrow> (if oss < 32 then s32 (shl32 b1 oss + 2) else None);
       let B3 = shr b2 2;
       y1 \<leftarrow> s32 (AC3 c * B6);
       y2 \<leftarrow> s32 (B1 c * shr sq 12);
       y3 \<leftarrow> s32 (shr y1 13 + shr y2 16);
       y4 \<leftarrow> s32 (y3 + 2);
       y5 \<leftarrow> s32 (shr y4 2 + 32768);
       let B4 = (AC4 c * (y5 mod 2 ^ 32)) mod 2 ^ 32 div 2 ^ 15;
       let B7 = ((UP - B3) mod 2 ^ 32 * (50000 div 2 ^ oss)) mod 2 ^ 32;
       P \<leftarrow> (if B4 = 0 then None
              else if B7 < 0x80000000 then Some (wrap32 ((B7 * 2) mod 2 ^ 32 div B4)) else Some (wrap32 ((B7 div B4 * 2) mod 2 ^ 32)));
       p1 \<leftarrow> s32 (shr P 8 * shr P 8);
       p2 \<leftarrow> s32 (p1 * 3038);
       p3 \<leftarrow> s32 (- 7357 * P);
       p4 \<leftarrow> s32 (shr p2 16 + shr p3 16);
       p5 \<leftarrow> s32 (p4 + 3791);
       p6 \<leftarrow> s32 (P + shr p5 4);
       Some (p6 mod 2 ^ 32)
     }"

definition bmp180_measure ::
  "'g gpiodev \<Rightarrow> bmp180_constants \<Rightarrow> int \<Rightarrow> int option \<Rightarrow> int option \<Rightarrow> nat \<Rightarrow> 'g i2c_state \<Rightarrow>
     (bool \<times> int option \<times> int option \<times> 'g i2c_state) option" where
  "bmp180_measure gp c uninit temperature pressure oss s =
     (if temperature = None \<and> pressure = None then Some (False, temperature, pressure, s)
      else
        (case bmp180_get_uncompensated_temperature gp uninit s of (ok1, UT, s1) \<Rightarrow>
         if \<not> ok1 then Some (False, temperature, pressure, s1)
         else do {
           (T, B5) \<leftarrow> bmp180_temperature c UT;
           let temperature1 = map_option (\<lambda>_. T) temperature;
           if pressure = None then Some (True, temperature1, None, s1)
           else
             (case bmp180_get_uncompensated_pressure gp oss uninit s1 of (ok2, UP, s2) \<Rightarrow>
              if \<not> ok2 then Some (False, temperature1, pressure, s2)
              else do { P \<leftarrow> bmp180_pressure c oss B5 UP; Some (True, temperature1, Some P, s2) })
         }))"

section \<open>The driver task\<close>

record 'q bmp180_command =
  cmd :: byte
  resultQueue :: "'q option"

record bmp180_result =
  result_cmd :: byte
  temperature :: real
  pressure :: int

record ('q, 'k) bmp180_os =
  os_queue_create :: "nat \<Rightarrow> 'k \<Rightarrow> 'q option \<times> 'k"
  os_send_command :: "'q \<Rightarrow> 'q bmp180_command \<Rightarrow> 'k \<Rightarrow> bool \<times> 'k"
  os_receive_command :: "'q \<Rightarrow> 'k \<Rightarrow> 'q bmp180_command option \<times> 'k"
  os_send_result :: "'q \<Rightarrow> bmp180_result \<Rightarrow> 'k \<Rightarrow> bool \<times> 'k"
  os_task_create :: "'k \<Rightarrow> bool \<times> 'k"

text \<open>The file-scope variables: the command queue and whether the task exists.\<close>

record 'q bmp180_globals =
  bmp180_rx_queue :: "'q option"
  bmp180_task_handle :: bool

definition bmp180_informUser_Impl :: "('q, 'k) bmp180_os \<Rightarrow> 'q \<Rightarrow> byte \<Rightarrow> real \<Rightarrow> int \<Rightarrow> 'k \<Rightarrow> bool \<times> 'k" where
  "bmp180_informUser_Impl os q command t p k = os_send_result os q \<lparr>result_cmd = command, temperature = t, pressure = p\<rparr> k"

text \<open>One turn of the task; \<open>informUser\<close> is what the function pointer holds. A measurement with undefined behaviour is \<open>None\<close>.\<close>

definition bmp180_task_step ::
  "(real \<Rightarrow> real) \<Rightarrow> (real \<Rightarrow> real) \<Rightarrow> 'g gpiodev \<Rightarrow> ('q, 'k) bmp180_os \<Rightarrow> ('q \<Rightarrow> byte \<Rightarrow> real \<Rightarrow> int \<Rightarrow> 'k \<Rightarrow> bool \<times> 'k) \<Rightarrow>
     'q \<Rightarrow> bmp180_constants \<Rightarrow> int \<Rightarrow> 'g i2c_state \<Rightarrow> 'k \<Rightarrow> ('g i2c_state \<times> 'k) option" where
  "bmp180_task_step to_float to_double gp os informUser rx_queue c uninit s k =
     (case os_receive_command os rx_queue k of
        (None, k1) \<Rightarrow> Some (s, k1)
      | (Some command, k1) \<Rightarrow>
          (case resultQueue command of
             None \<Rightarrow> Some (s, k1)
           | Some q \<Rightarrow> do {
               (ok, T, P, s1) \<leftarrow> bmp180_measure gp c uninit (Some 0) (if cmd command AND BMP180_PRESSURE \<noteq> 0 then Some 0 else None) 3 s;
               if ok
               then Some (s1, snd (informUser q (cmd command) (to_float (to_double (to_float (of_int (the T)) / 10)))
                                    (case P of Some p \<Rightarrow> p | None \<Rightarrow> 0) k1))
               else Some (s1, k1)
             }))"

fun bmp180_task_turns ::
  "nat \<Rightarrow> (real \<Rightarrow> real) \<Rightarrow> (real \<Rightarrow> real) \<Rightarrow> 'g gpiodev \<Rightarrow> ('q, 'k) bmp180_os \<Rightarrow> ('q \<Rightarrow> byte \<Rightarrow> real \<Rightarrow> int \<Rightarrow> 'k \<Rightarrow> bool \<times> 'k) \<Rightarrow>
     'q \<Rightarrow> bmp180_constants \<Rightarrow> int \<Rightarrow> 'g i2c_state \<Rightarrow> 'k \<Rightarrow> ('g i2c_state \<times> 'k) option" where
  "bmp180_task_turns 0 to_float to_double gp os informUser rx_queue c uninit s k = Some (s, k)"
| "bmp180_task_turns (Suc n) to_float to_double gp os informUser rx_queue c uninit s k =
     do { (s1, k1) \<leftarrow> bmp180_task_step to_float to_double gp os informUser rx_queue c uninit s k;
          bmp180_task_turns n to_float to_double gp os informUser rx_queue c uninit s1 k1 }"

text \<open>The task deletes itself when the calibration cannot be read; otherwise it has turned \<open>n\<close> times.\<close>

definition bmp180_driver_task ::
  "nat \<Rightarrow> (real \<Rightarrow> real) \<Rightarrow> (real \<Rightarrow> real) \<Rightarrow> 'g gpiodev \<Rightarrow> ('q, 'k) bmp180_os \<Rightarrow> ('q \<Rightarrow> byte \<Rightarrow> real \<Rightarrow> int \<Rightarrow> 'k \<Rightarrow> bool \<times> 'k) \<Rightarrow>
     'q \<Rightarrow> bmp180_constants \<Rightarrow> int \<Rightarrow> 'g i2c_state \<Rightarrow> 'k \<Rightarrow> ('g i2c_state \<times> 'k) option" where
  "bmp180_driver_task n to_float to_double gp os informUser rx_queue c uninit s k =
     (case bmp180_fillInternalConstants gp c s of
        (ok, c1, s1) \<Rightarrow> if \<not> ok then Some (s1, k) else bmp180_task_turns n to_float to_double gp os informUser rx_queue c1 uninit s1 k)"

definition bmp180_create_communication_queues :: "('q, 'k) bmp180_os \<Rightarrow> 'q bmp180_globals \<Rightarrow> 'k \<Rightarrow> bool \<times> 'q bmp180_globals \<times> 'k" where
  "bmp180_create_communication_queues os g k =
     (case (if bmp180_rx_queue g = None then os_queue_create os BMP180_RX_QUEUE_SIZE k else (bmp180_rx_queue g, k)) of
        (q, k1) \<Rightarrow> (q \<noteq> None, g\<lparr>bmp180_rx_queue := q\<rparr>, k1))"

definition bmp180_createTask :: "('q, 'k) bmp180_os \<Rightarrow> 'q bmp180_globals \<Rightarrow> 'k \<Rightarrow> bool \<times> 'q bmp180_globals \<times> 'k" where
  "bmp180_createTask os g k =
     (if \<not> bmp180_task_handle g
      then (case os_task_create os k of (ok, k1) \<Rightarrow> (ok, g\<lparr>bmp180_task_handle := ok\<rparr>, k1))
      else (True, g, k))"

definition bmp180_init ::
  "'g gpiodev \<Rightarrow> ('q, 'k) bmp180_os \<Rightarrow> byte \<Rightarrow> nat \<Rightarrow> nat \<Rightarrow> 'q bmp180_globals \<Rightarrow> 'g i2c_state \<Rightarrow> 'k \<Rightarrow> bool \<times> 'q bmp180_globals \<times> 'g i2c_state \<times> 'k" where
  "bmp180_init gp os uninit scl sda g s k =
     (case bmp180_create_communication_queues os g k of (ok, g1, k1) \<Rightarrow>
      if \<not> ok then (False, g1, s, k1)
      else
        (case bmp180_is_available gp uninit (i2c_init gp scl sda s) of (there, s1) \<Rightarrow>
         if \<not> there then (False, g1, s1, k1)
         else (case bmp180_createTask os g1 k1 of (ok2, g2, k2) \<Rightarrow> (ok2, g2, s1, k2))))"

definition bmp180_trigger :: "('q, 'k) bmp180_os \<Rightarrow> byte \<Rightarrow> 'q \<Rightarrow> 'q option \<Rightarrow> 'k \<Rightarrow> 'k" where
  "bmp180_trigger os command rx_queue q k = snd (os_send_command os rx_queue \<lparr>cmd = command, resultQueue = q\<rparr> k)"

definition bmp180_trigger_measurement :: "('q, 'k) bmp180_os \<Rightarrow> 'q \<Rightarrow> 'q option \<Rightarrow> 'k \<Rightarrow> 'k" where
  "bmp180_trigger_measurement os = bmp180_trigger os (BMP180_PRESSURE + BMP180_TEMPERATURE)"

definition bmp180_trigger_pressure_measurement :: "('q, 'k) bmp180_os \<Rightarrow> 'q \<Rightarrow> 'q option \<Rightarrow> 'k \<Rightarrow> 'k" where
  "bmp180_trigger_pressure_measurement os = bmp180_trigger os BMP180_PRESSURE"

definition bmp180_trigger_temperature_measurement :: "('q, 'k) bmp180_os \<Rightarrow> 'q \<Rightarrow> 'q option \<Rightarrow> 'k \<Rightarrow> 'k" where
  "bmp180_trigger_temperature_measurement os = bmp180_trigger os BMP180_TEMPERATURE"

end
