(* ===== verification/BMP180_Chip.thy ===== *)
theory BMP180_Chip
  imports BMP180 I2C_Bus
begin

text \<open>
  The BMP180 driver on a chip: the locale \<open>bmp180_chip\<close> gives the calibration words and the results of conversions once their time
  has passed; it is interpreted on the I2C slave of \<open>I2C_Bus\<close>. The temperature formula is compared with
  the one over the real numbers.
\<close>

section \<open>Temperature\<close>

text \<open>The formula over the real numbers, in tenths of a degree.\<close>

definition exact_b5 :: "bmp180_constants \<Rightarrow> int \<Rightarrow> real" where
  "exact_b5 c UT =
     (let x1 = (real_of_int UT - of_int (AC6 c)) * of_int (AC5 c) / 2 ^ 15 in x1 + of_int (MC c) * 2 ^ 11 / (x1 + of_int (MD c)))"

definition bmp180_range :: "bmp180_constants \<Rightarrow> int \<Rightarrow> bool" where
  "bmp180_range c UT \<longleftrightarrow> \<bar>UT - AC6 c\<bar> < 2 ^ 15 \<and> is_u16 (AC5 c) \<and> is_s16 (MC c) \<and> is_s16 (MD c) \<and> 2 ^ 12 \<le> shr ((UT - AC6 c) * AC5 c) 15 + MD c"

lemma bmp180_temperature_accurate:
  assumes "bmp180_range c UT"
  shows "\<exists>T B5. bmp180_temperature c UT = Some (T, B5) \<and> \<bar>of_int T - exact_b5 c UT / 16\<bar> < 3 / 2"
proof -
  define a where "a = UT - AC6 c"
  define X1 where "X1 = shr (a * AC5 c) 15"
  define d where "d = X1 + MD c"
  define X2 where "X2 = MC c * 2 ^ 11 sdiv d"
  define x1 where "x1 = (real_of_int UT - of_int (AC6 c)) * of_int (AC5 c) / 2 ^ 15"
  note r = assms[unfolded bmp180_range_def, folded a_def, folded X1_def, folded d_def]
  have a: "\<bar>a\<bar> \<le> 32767" and AC5: "\<bar>AC5 c\<bar> \<le> 65535" and MC: "\<bar>MC c\<bar> \<le> 32768" and MD: "\<bar>MD c\<bar> \<le> 32768" and d: "4096 \<le> d"
    using r is_s16_abs[of "MC c"] is_s16_abs[of "MD c"] by (auto simp: is_u16_def)
  have p: "\<bar>a * AC5 c\<bar> \<le> 2147385345" using abs_mult_le[OF a AC5] by simp
  have X1: "\<bar>X1\<bar> \<le> 65534" using shr_abs[of "a * AC5 c" 65534 15] p by (simp add: X1_def)
  have sh: "shl32 (MC c) 11 = MC c * 2 ^ 11" using MC by (intro shl32_in) (auto simp: abs_le_iff)
  have "\<bar>X2\<bar> * d \<le> 67108864" using sdiv_pos(1)[of d "MC c * 2 ^ 11"] d MC by (simp add: X2_def abs_mult)
  moreover have "\<bar>X2\<bar> * 4096 \<le> \<bar>X2\<bar> * d" using d by (intro mult_left_mono) auto
  ultimately have X2: "\<bar>X2\<bar> \<le> 16384" by linarith
  have s: "s32 a = Some a" "s32 (a * AC5 c) = Some (a * AC5 c)" "s32 d = Some d" "s32 X2 = Some X2" "s32 (X1 + X2) = Some (X1 + X2)"
    "s32 (X1 + X2 + 8) = Some (X1 + X2 + 8)"
    using a p X1 X2 MD by (auto simp: s32_def d_def abs_le_iff)
  have "div32 (MC c * 2 ^ 11) d = Some X2" using d s(4) by (simp add: div32_def X2_def)
  then have t: "bmp180_temperature c UT = Some (shr (X1 + X2 + 8) 4, X1 + X2)"
    using s unfolding bmp180_temperature_def Let_def a_def[symmetric] by (simp add: X1_def[symmetric] d_def[symmetric] sh)
  have e1: "of_int X1 \<le> x1" "x1 - 1 < of_int X1" using shr_real[of "a * AC5 c" 15] by (simp_all add: X1_def x1_def a_def)
  have "\<bar>of_int X2 - real_of_int (MC c * 2 ^ 11) / of_int d\<bar> \<le> 1" unfolding X2_def using d by (intro sdiv_close) simp
  moreover have "\<bar>real_of_int (MC c * 2 ^ 11) / of_int d - of_int (MC c * 2 ^ 11) / (x1 + of_int (MD c))\<bar> \<le> 4"
    using quot_close[of "of_int (MC c * 2 ^ 11)" 67108864 4096 "of_int d" 4096 "x1 + of_int (MD c)" 1] MC d e1 by (simp add: d_def abs_le_iff)
  ultimately have "\<bar>real_of_int (X1 + X2) - exact_b5 c UT\<bar> \<le> 6"
    using e1 unfolding exact_b5_def Let_def x1_def[symmetric] by simp
  moreover have "of_int (shr (X1 + X2 + 8) 4) * 16 \<le> real_of_int (X1 + X2) + 8" "real_of_int (X1 + X2) < of_int (shr (X1 + X2 + 8) 4) * 16 + 8"
    using shr_real[of "X1 + X2 + 8" 4] by (simp_all add: field_simps)
  ultimately have "\<bar>of_int (shr (X1 + X2 + 8) 4) * 16 - exact_b5 c UT\<bar> < 24" by linarith
  then have "\<bar>of_int (shr (X1 + X2 + 8) 4) - exact_b5 c UT / 16\<bar> < 3 / 2" unfolding abs_less_iff by (simp add: field_simps)
  then show ?thesis using t by blast
qed

section \<open>The chip\<close>

text \<open>How long the chip takes for a conversion, in microseconds, as the comments of the driver state it.\<close>

definition conversion_time :: "byte \<Rightarrow> nat" where
  "conversion_time command =
     (if command = 0x74 then 7500 else if command = 0xB4 then 13500 else if command = 0xF4 then 25500 else 4500)"

definition word16 :: "byte list \<Rightarrow> 16 word" where
  "word16 d = push_bit 8 (ucast (d ! 0)) OR ucast (d ! 1)"

definition constants_of  :: "(nat \<Rightarrow> byte list) \<Rightarrow> bmp180_constants" where
  "constants_of cal = \<lparr>AC1 = sint (word16 (cal 0)), AC2 = sint (word16 (cal 1)), AC3 = sint (word16 (cal 2)), AC4 = uint (word16 (cal 3)),
     AC5 = uint (word16 (cal 4)), AC6 = uint (word16 (cal 5)), B1 = sint (word16 (cal 6)), B2 = sint (word16 (cal 7)), MB = sint (word16 (cal 8)),
     MC = sint (word16 (cal 9)), MD = sint (word16 (cal 10))\<rparr>"

definition raw_pressure :: "(byte \<Rightarrow> byte list) \<Rightarrow> nat \<Rightarrow> int" where
  "raw_pressure raw oss =
     (let d = raw (BMP180_MEASURE_PRESS OR push_bit 6 (of_nat oss)) in
      uint (drop_bit (8 - oss) (push_bit 16 (ucast (d ! 0)) OR push_bit 8 (ucast (d ! 1)) OR ucast (d ! 2) :: 32 word)))"

text \<open>\<open>cal i\<close> is the \<open>i\<close>th word of the calibration and \<open>raw command\<close> what a conversion yields once its time has passed.\<close>

locale bmp180_chip =
  fixes gp :: "'g gpiodev" and ready :: "'g i2c_state \<Rightarrow> bool" and converted :: "byte \<Rightarrow> 'g i2c_state \<Rightarrow> bool"
    and cal :: "nat \<Rightarrow> byte list" and raw :: "byte \<Rightarrow> byte list"
  assumes lengths: "length (cal i) = 2" "length (raw command) = 3"
    and read_cal: "ready s \<Longrightarrow> i < 11 \<Longrightarrow>
      \<exists>s'. i2c_slave_read gp BMP180_DEVICE_ADDRESS (BMP180_CALIBRATION_REG + 2 * of_nat i) [0, 0] 2 s = (True, cal i, s') \<and> ready s'"
    and start: "ready s \<Longrightarrow> \<exists>s'. i2c_slave_write gp BMP180_DEVICE_ADDRESS [BMP180_CONTROL_REG, command] s = (True, s')
      \<and> (\<forall>us \<ge> conversion_time command. converted command (os_delay gp us s'))"
    and result: "converted command s \<Longrightarrow> 0 < k \<Longrightarrow> k \<le> 3 \<Longrightarrow>
      \<exists>s'. i2c_slave_read gp BMP180_DEVICE_ADDRESS BMP180_OUT_MSB_REG (replicate k 0) k s = (True, take k (raw command), s') \<and> ready s'"
begin

lemma read_temperature:
  assumes "ready s"
  shows "\<exists>s'. bmp180_get_uncompensated_temperature gp u s = (True, sint (word16 (raw BMP180_MEASURE_TEMP)), s') \<and> ready s'"
proof -
  obtain s1 where 1: "i2c_slave_write gp BMP180_DEVICE_ADDRESS [BMP180_CONTROL_REG, BMP180_MEASURE_TEMP] s = (True, s1)"
      "converted BMP180_MEASURE_TEMP (os_delay gp 5000 s1)"
    using start[OF assms, of BMP180_MEASURE_TEMP] by (auto simp: conversion_time_def BMP180_MEASURE_TEMP_def)
  obtain s2 where 2: "i2c_slave_read gp BMP180_DEVICE_ADDRESS BMP180_OUT_MSB_REG [0, 0] 2 (os_delay gp 5000 s1) = (True, take 2 (raw BMP180_MEASURE_TEMP), s2)" "ready s2"
    using result[OF 1(2), of 2] by (auto simp: numeral_2_eq_2)
  then show ?thesis using 1(1)
    by (simp add: bmp180_get_uncompensated_temperature_def bmp180_start_Messurement_def bmp180_readRegister16_def word16_def)
qed

lemma read_pressure:
  assumes "ready s" and "oss \<le> 3"
  shows "\<exists>s'. bmp180_get_uncompensated_pressure gp oss u s = (True, raw_pressure raw oss, s') \<and> ready s'"
proof -
  define us where "us = snd (press_setting oss)"
  define command where "command = BMP180_MEASURE_PRESS OR push_bit 6 (of_nat oss)"
  have o: "oss = 0 \<or> oss = 1 \<or> oss = 2 \<or> oss = 3" using assms(2) by auto
  then have set: "press_setting oss = (oss, us)" by (auto simp: press_setting_def us_def)
  have time: "conversion_time command \<le> us"
    using o by (elim disjE) (simp_all add: us_def press_setting_def command_def conversion_time_def BMP180_MEASURE_PRESS_def)
  obtain s1 where 1: "i2c_slave_write gp BMP180_DEVICE_ADDRESS [BMP180_CONTROL_REG, command] s = (True, s1)" "converted command (os_delay gp us s1)"
    using start[OF assms(1), of command] time by auto
  have r: "replicate 3 0 = [0, 0, 0]" by (simp add: numeral_3_eq_3)
  obtain s2 where 2: "i2c_slave_read gp BMP180_DEVICE_ADDRESS BMP180_OUT_MSB_REG [0, 0, 0] 3 (os_delay gp us s1) = (True, take 3 (raw command), s2)" "ready s2"
    using result[OF 1(2), of 3] unfolding r by auto
  then show ?thesis using 1(1) set
    by (simp add: bmp180_get_uncompensated_pressure_def bmp180_start_Messurement_def command_def raw_pressure_def Let_def)
qed

lemma measure_works:
  assumes "ready s" and "oss \<le> 3" and "bmp180_temperature c (sint (word16 (raw BMP180_MEASURE_TEMP))) = Some (T, B5)"
    and "bmp180_pressure c oss B5 (raw_pressure raw oss) = Some P"
  shows "\<exists>s'. bmp180_measure gp c u (Some t0) (Some p0) oss s = Some (True, Some T, Some P, s') \<and> ready s'"
proof -
  obtain s1 where 1: "bmp180_get_uncompensated_temperature gp u s = (True, sint (word16 (raw BMP180_MEASURE_TEMP)), s1)" "ready s1"
    using read_temperature[OF assms(1)] by blast
  obtain s2 where 2: "bmp180_get_uncompensated_pressure gp oss u s1 = (True, raw_pressure raw oss, s2)" "ready s2" using read_pressure[OF 1(2) assms(2)] by blast
  show ?thesis using 1(1) 2 assms(3,4) by (simp add: bmp180_measure_def)
qed

lemma read_words:
  assumes "ready s" and "\<forall>j < length rs. fst (rs ! j) = 2 * of_nat (i + j)" and "i + length rs \<le> 11"
  shows "\<exists>s'. read_constants gp rs c s = (True, fold (\<lambda>(j, f). f (word16 (cal j))) (zip [i..<i + length rs] (map snd rs)) c, s') \<and> ready s'"
  using assms
proof (induction rs arbitrary: i c s)
  case (Cons e rs)
  obtain put where e: "e = (2 * of_nat i, put)" using Cons.prems(2)[rule_format, of 0] by (cases e) auto
  have i: "i < 11" using Cons.prems(3) by simp
  obtain s1 where s1: "i2c_slave_read gp BMP180_DEVICE_ADDRESS (BMP180_CALIBRATION_REG + 2 * of_nat i) [0, 0] 2 s = (True, cal i, s1)" "ready s1"
    using read_cal[OF Cons.prems(1) i] by blast
  have rest: "\<forall>j < length rs. fst (rs ! j) = 2 * of_nat (Suc i + j)" using Cons.prems(2) by (auto simp: nth_Cons' dest: spec[of _ "Suc _"])
  obtain s2 where "read_constants gp rs (put (word16 (cal i)) c) s1
      = (True, fold (\<lambda>(j, f). f (word16 (cal j))) (zip [Suc i..<Suc i + length rs] (map snd rs)) (put (word16 (cal i)) c), s2)" "ready s2"
    using Cons.IH[OF s1(2) rest] Cons.prems(3) by fastforce
  moreover have "[i..<i + length (e # rs)] = i # [Suc i..<Suc i + length rs]" by (simp add: upt_conv_Cons del: upt_Suc)
  ultimately show ?case using s1(1) e by (simp add: bmp180_readRegister16_def word16_def del: upt_Suc)
qed simp

lemma constants_read:
  assumes "ready s"
  shows "\<exists>s'. read_constants gp constant_registers c s = (True, constants_of cal, s') \<and> ready s'"
proof -
  have l: "length constant_registers = 11" by (simp add: constant_registers_def)
  have "\<forall>j < length constant_registers. fst (constant_registers ! j) = 2 * of_nat (0 + j)"
    unfolding l by (simp add: constant_registers_def numeral_eq_Suc All_less_Suc)
  from read_words[OF assms this, of c] obtain s' where
      "read_constants gp constant_registers c s = (True, fold (\<lambda>(j, f). f (word16 (cal j))) (zip [0..<11] (map snd constant_registers)) c, s')" "ready s'"
    by (auto simp: l)
  moreover have "fold (\<lambda>(j, f). f (word16 (cal j))) (zip [0..<11] (map snd constant_registers)) c = constants_of cal"
    by (cases c) (simp add: constant_registers_def constants_of_def numeral_eq_Suc upt_rec)
  ultimately show ?thesis by auto
qed

end

lemma sint_zero: "sint (w :: 16 word) = 0 \<longleftrightarrow> w = 0"
  using signed_eq_0_iff by blast

lemma sint_ffff: "sint (w :: 16 word) \<noteq> 0xffff"
  using sint16_range[of w] by (simp add: is_s16_def)

lemma uint_numeral_ffff: "uint (0xffff :: 16 word) = 0xffff"
  by simp

lemma uint_ffff: "uint (w :: 16 word) = 0xffff \<longleftrightarrow> w = 0xffff"
  by (metis uint_numeral_ffff word_uint_eq_iff)

lemma temperature_only:
  assumes "bmp180_chip gp ready converted cal raw" and "ready s" and "bmp180_temperature c (sint (word16 (raw BMP180_MEASURE_TEMP))) = Some (T, B5)"
  shows "\<exists>s'. bmp180_measure gp c u (Some t0) None oss s = Some (True, Some T, None, s') \<and> ready s'"
  using bmp180_chip.read_temperature[OF assms(1,2), of u] assms(3) by (auto simp: bmp180_measure_def)

section \<open>On the bus\<close>

lemma wires_delay: "os_delay (wires a) us s = s"
  by (simp add: os_delay_def wires_def)

lemma fetch_few: "fetch r n 2 = [r n, r (n + 1)]" "fetch r n 3 = [r n, r (n + 1), r (n + 2)]" "fetch r n 1 = [r n]"
  by (simp_all add: numeral_2_eq_2 numeral_3_eq_3 add.assoc)

interpretation bus180: bmp180_chip "wires BMP180_DEVICE_ADDRESS"
    "\<lambda>s. \<exists>n v. s = bus False True True (idle (r(BMP180_CONTROL_REG := v)) n)" "\<lambda>_ s. \<exists>n v. s = bus False True True (idle (r(BMP180_CONTROL_REG := v)) n)"
    "\<lambda>i. fetch r (BMP180_CALIBRATION_REG + 2 * of_nat i) 2" "\<lambda>_. fetch r BMP180_OUT_MSB_REG 3" for r
proof
  fix s :: "lines i2c_state" and i :: nat
  assume "\<exists>n v. s = bus False True True (idle (r(BMP180_CONTROL_REG := v)) n)" and i: "i < 11"
  then obtain n v where s: "s = bus False True True (idle (r(BMP180_CONTROL_REG := v)) n)" by blast
  have "i \<in> {0, 1, 2, 3, 4, 5, 6, 7, 8, 9, 10}" using i by simp presburger
  then have f: "fetch (r(BMP180_CONTROL_REG := v)) (BMP180_CALIBRATION_REG + 2 * of_nat i) 2 = fetch r (BMP180_CALIBRATION_REG + 2 * of_nat i) 2"
    by (auto simp: fetch_few BMP180_CONTROL_REG_def BMP180_CALIBRATION_REG_def)
  have ov: "overwrite (fetch r m 2) [0, 0] = fetch r m 2" for m by (simp add: overwrite_def fetch_few)
  show "\<exists>s'. i2c_slave_read (wires BMP180_DEVICE_ADDRESS) BMP180_DEVICE_ADDRESS (BMP180_CALIBRATION_REG + 2 * of_nat i) [0, 0] 2 s
      = (True, fetch r (BMP180_CALIBRATION_REG + 2 * of_nat i) 2, s') \<and> (\<exists>n v. s' = bus False True True (idle (r(BMP180_CONTROL_REG := v)) n))"
    using slave_read_wires[of 2 BMP180_DEVICE_ADDRESS "BMP180_CALIBRATION_REG + 2 * of_nat i" "[0, 0]" "r(BMP180_CONTROL_REG := v)" n] s f ov by auto
next
  fix s :: "lines i2c_state" and command
  assume "\<exists>n v. s = bus False True True (idle (r(BMP180_CONTROL_REG := v)) n)"
  then show "\<exists>s'. i2c_slave_write (wires BMP180_DEVICE_ADDRESS) BMP180_DEVICE_ADDRESS [BMP180_CONTROL_REG, command] s = (True, s')
      \<and> (\<forall>us \<ge> conversion_time command. \<exists>n v. os_delay (wires BMP180_DEVICE_ADDRESS) us s' = bus False True True (idle (r(BMP180_CONTROL_REG := v)) n))"
    by (auto simp: slave_write_wires wires_delay simp del: fun_upd_apply) blast
next
  fix s :: "lines i2c_state" and k :: nat
  assume "\<exists>n v. s = bus False True True (idle (r(BMP180_CONTROL_REG := v)) n)" and k: "0 < k" "k \<le> 3"
  then obtain n v where s: "s = bus False True True (idle (r(BMP180_CONTROL_REG := v)) n)" by blast
  have "k = 1 \<or> k = 2 \<or> k = 3" using k by auto
  then have f: "overwrite (fetch (r(BMP180_CONTROL_REG := v)) BMP180_OUT_MSB_REG k) (replicate k 0) = take k (fetch r BMP180_OUT_MSB_REG 3)"
    by (elim disjE) (simp_all add: overwrite_def fetch_few[simplified] BMP180_CONTROL_REG_def BMP180_OUT_MSB_REG_def)
  show "\<exists>s'. i2c_slave_read (wires BMP180_DEVICE_ADDRESS) BMP180_DEVICE_ADDRESS BMP180_OUT_MSB_REG (replicate k 0) k s
      = (True, take k (fetch r BMP180_OUT_MSB_REG 3), s') \<and> (\<exists>n v. s' = bus False True True (idle (r(BMP180_CONTROL_REG := v)) n))"
    using slave_read_wires[OF k(1), of BMP180_DEVICE_ADDRESS BMP180_OUT_MSB_REG "replicate k 0" "r(BMP180_CONTROL_REG := v)" n] s f by auto
qed (simp_all add: fetch_few)

section \<open>Properties\<close>

text \<open>The driver measures. Over a chip that needs the conversion times stated in the driver, with a calibration and a raw temperature in range,
  \<open>bmp180_measure\<close> waits long enough for both conversions and returns the temperature, within 0.15 degrees of the formula over
  the real numbers applied to the raw value read as a signed number, and the pressure the integer formula gives.\<close>

theorem bmp180_measures:
  assumes "bmp180_chip gp ready converted cal raw" and "ready s" and "oss \<le> 3" and "UT = sint (word16 (raw BMP180_MEASURE_TEMP))" and "bmp180_range c UT"
  shows "\<exists>T B5. bmp180_temperature c UT = Some (T, B5) \<and> \<bar>of_int T - exact_b5 c UT / 16\<bar> < 3 / 2
    \<and> (\<forall>P. bmp180_pressure c oss B5 (raw_pressure raw oss) = Some P \<longrightarrow>
         (\<exists>s'. bmp180_measure gp c u (Some t0) (Some p0) oss s = Some (True, Some T, Some P, s') \<and> ready s'))"
proof -
  obtain T B5 where t: "bmp180_temperature c UT = Some (T, B5)" "\<bar>of_int T - exact_b5 c UT / 16\<bar> < 3 / 2"
    using bmp180_temperature_accurate[OF assms(5)] by blast
  then show ?thesis using bmp180_chip.measure_works[OF assms(1-3) t(1)[unfolded assms(4)]] assms(4) by blast
qed

text \<open>What the check of the calibration catches. \<open>bmp180_fillInternalConstants\<close> fails exactly if one of the eleven words is zero or one of the
  three unsigned ones is 0xffff; a signed one that reads as 0xffff, as on a bus that nobody drives, passes.\<close>

theorem constants_checked:
  assumes "bmp180_chip gp ready converted cal raw" and "ready s"
  shows "\<exists>s'. bmp180_fillInternalConstants gp c s
      = ((\<forall>i < 11. word16 (cal i) \<noteq> 0) \<and> word16 (cal 3) \<noteq> 0xffff \<and> word16 (cal 4) \<noteq> 0xffff \<and> word16 (cal 5) \<noteq> 0xffff, constants_of cal, s') \<and> ready s'"
proof -
  have "constants_bad (constants_of cal) \<longleftrightarrow> \<not> ((\<forall>i < 11. word16 (cal i) \<noteq> 0) \<and> word16 (cal 3) \<noteq> 0xffff \<and> word16 (cal 4) \<noteq> 0xffff \<and> word16 (cal 5) \<noteq> 0xffff)"
    by (simp add: constants_bad_def constants_of_def sint_zero sint_ffff uint_ffff uint_0_iff numeral_eq_Suc All_less_Suc) auto
  then show ?thesis using bmp180_chip.constants_read[OF assms, of c] by (auto simp: bmp180_fillInternalConstants_def)
qed

text \<open>The example of the data sheet.\<close>

definition sheet_constants :: bmp180_constants where
  "sheet_constants = \<lparr>AC1 = 408, AC2 = - 72, AC3 = - 14383, AC4 = 32741, AC5 = 32757, AC6 = 23153, B1 = 6190, B2 = 4, MB = - 32768, MC = - 8711, MD = 2868\<rparr>"

definition sheet_regs :: "byte list \<Rightarrow> byte \<Rightarrow> byte" where
  "sheet_regs d m = (if 0xaa \<le> m \<and> m < 0xc0 then [0x01, 0x98, 0xff, 0xb8, 0xc7, 0xd1, 0x7f, 0xe5, 0x7f, 0xf5, 0x5a, 0x71, 0x18, 0x2e, 0x00, 0x04, 0x80, 0x00, 0xdd, 0xf9, 0x0b, 0x34] ! unat (m - 0xaa)
     else if 0xf6 \<le> m \<and> m < 0xf9 then d ! unat (m - 0xf6) else 0)"

abbreviation sheet_state :: "byte list \<Rightarrow> lines i2c_state" where
  "sheet_state d \<equiv> bus False True True (idle ((sheet_regs d)(BMP180_CONTROL_REG := 0)) 0)"

text \<open>Above about fifty degrees the driver reports nonsense. The raw temperature is an unsigned 16-bit number that the driver reads as a signed one: with
  the calibration of the data sheet's example, the raw value 0x8000, for which the formula gives 51.1 degrees, is reported as
  347.3 degrees below zero, as a success.\<close>

theorem hot_reads_cold:
  assumes "bmp180_chip gp ready converted cal raw" and "ready s" and "word16 (raw BMP180_MEASURE_TEMP) = 0x8000"
  shows "bmp180_temperature sheet_constants (uint (word16 (raw BMP180_MEASURE_TEMP))) = Some (511, 8182)
    \<and> (\<exists>s'. bmp180_measure gp sheet_constants u (Some t0) None oss s = Some (True, Some (- 3473), None, s'))"
proof -
  have "bmp180_temperature sheet_constants 0x8000 = Some (511, 8182)" "bmp180_temperature sheet_constants (- 0x8000) = Some (- 3473, - 55567)"
    by code_simp+
  moreover have "sint (0x8000 :: 16 word) = - 0x8000" "uint (0x8000 :: 16 word) = 0x8000" by simp_all
  ultimately show ?thesis using temperature_only[OF assms(1,2), of sheet_constants "- 3473" "- 55567" u t0 oss] assms(3) by auto
qed

theorem hot_reads_cold_witness:
  "\<exists>s'. bmp180_measure (wires BMP180_DEVICE_ADDRESS) sheet_constants 0 (Some 0) None 0 (sheet_state [0x80, 0, 0]) = Some (True, Some (- 3473), None, s')"
proof -
  have r: "\<exists>n v. sheet_state [0x80, 0, 0] = bus False True True (idle ((sheet_regs [0x80, 0, 0])(BMP180_CONTROL_REG := v)) n)" by blast
  have "word16 (fetch (sheet_regs [0x80, 0, 0]) BMP180_OUT_MSB_REG 3) = 0x8000" by code_simp
  from hot_reads_cold[OF bus180.bmp180_chip_axioms r this, of 0 0 0] show ?thesis by blast
qed

lemma sheet_values: "sint (word16 (fetch (sheet_regs [0x6c, 0xfa, 0]) BMP180_OUT_MSB_REG 3)) = 27898"
  "bmp180_temperature sheet_constants 27898 = Some (150, 2400)"
  "bmp180_pressure sheet_constants 0 2400 (raw_pressure (\<lambda>_. fetch (sheet_regs [0x6c, 0xfa, 0]) BMP180_OUT_MSB_REG 3) 0) = Some 82080"
  "bmp180_pressure sheet_constants 0 2400 23843 = Some 69964"
  by code_simp+

theorem bmp180_measures_witness:
  "\<exists>s'. bmp180_measure (wires BMP180_DEVICE_ADDRESS) sheet_constants 0 (Some 0) (Some 0) 0 (sheet_state [0x6c, 0xfa, 0]) = Some (True, Some 150, Some 82080, s')"
proof -
  have r: "\<exists>n v. sheet_state [0x6c, 0xfa, 0] = bus False True True (idle ((sheet_regs [0x6c, 0xfa, 0])(BMP180_CONTROL_REG := v)) n)" by blast
  have "bmp180_range sheet_constants 27898" by code_simp
  then have rng: "bmp180_range sheet_constants (sint (word16 (fetch (sheet_regs [0x6c, 0xfa, 0]) BMP180_OUT_MSB_REG 3)))" unfolding sheet_values .
  obtain T B5 where t: "bmp180_temperature sheet_constants 27898 = Some (T, B5)"
    and m: "\<forall>P. bmp180_pressure sheet_constants 0 B5 (raw_pressure (\<lambda>_. fetch (sheet_regs [0x6c, 0xfa, 0]) BMP180_OUT_MSB_REG 3) 0) = Some P \<longrightarrow>
      (\<exists>s'. bmp180_measure (wires BMP180_DEVICE_ADDRESS) sheet_constants 0 (Some 0) (Some 0) 0 (sheet_state [0x6c, 0xfa, 0]) = Some (True, Some T, Some P, s'))"
    using bmp180_measures[OF bus180.bmp180_chip_axioms r _ refl rng, of 0 0 0 0] unfolding sheet_values(1) by blast
  have "T = 150" "B5 = 2400" using t sheet_values(2) by simp_all
  then show ?thesis using m sheet_values(3) by blast
qed

theorem constants_checked_witness:
  "\<exists>s'. bmp180_fillInternalConstants (wires BMP180_DEVICE_ADDRESS) sheet_constants (sheet_state [0, 0, 0]) = (True, sheet_constants, s')"
proof -
  have r: "\<exists>n v. sheet_state [0, 0, 0] = bus False True True (idle ((sheet_regs [0, 0, 0])(BMP180_CONTROL_REG := v)) n)" by blast
  have c: "constants_of (\<lambda>i. fetch (sheet_regs [0, 0, 0]) (BMP180_CALIBRATION_REG + 2 * of_nat i) 2) = sheet_constants" by code_simp
  let ?cal = "\<lambda>i. fetch (sheet_regs [0, 0, 0]) (BMP180_CALIBRATION_REG + 2 * of_nat i) 2"
  define good where "good \<longleftrightarrow> (\<forall>i < 11. word16 (?cal i) \<noteq> 0) \<and> word16 (?cal 3) \<noteq> 0xffff \<and> word16 (?cal 4) \<noteq> 0xffff \<and> word16 (?cal 5) \<noteq> 0xffff"
  have "good" unfolding good_def by code_simp
  then show ?thesis using constants_checked[OF bus180.bmp180_chip_axioms r, of sheet_constants] unfolding c good_def[symmetric] by (elim exE conjE) (simp only: simp_thms, rule exI, rule refl)
qed

end
