(* ===== verification/DHT.thy ===== *)
theory DHT
  imports Complex_Main Gpio
begin

text \<open>
  The driver of the DHT11 and DHT22 sensors, \<^verbatim>\<open>src/extras/dht/dht.c\<close>, at the level of pin reads and delays. The sensor type, a
  build option, is an argument. Output parameters are passed in and returned. Arithmetic on \<^verbatim>\<open>float\<close> is
  exact arithmetic followed by the rounding \<open>rnd\<close>.
\<close>

datatype dht_type = DHT11 | DHT22

definition DHT_TIMER_INTERVAL :: nat where "DHT_TIMER_INTERVAL = 2"
definition DHT_DATA_BITS :: nat where "DHT_DATA_BITS = 40"

text \<open>The waiting loop from the time \<open>i\<close> on; the elapsed time, if the level is seen before the timeout.\<close>

function await_loop :: "'g gpiodev \<Rightarrow> nat \<Rightarrow> nat \<Rightarrow> bool \<Rightarrow> nat \<Rightarrow> 'g \<Rightarrow> nat option \<times> 'g" where
  "await_loop gp pin timeout expected i g =
     (if i < timeout then
        case gpio_read gp pin (os_delay_us gp DHT_TIMER_INTERVAL g) of
          (level, g1) \<Rightarrow> if level = expected then (Some i, g1) else await_loop gp pin timeout expected (i + DHT_TIMER_INTERVAL) g1
      else (None, g))"
  by pat_completeness auto
termination
  by (relation "measure (\<lambda>(gp, pin, timeout, expected, i, g). timeout - i)") (auto simp: DHT_TIMER_INTERVAL_def)

declare await_loop.simps [simp del]

definition dht_await_pin_state :: "'g gpiodev \<Rightarrow> nat \<Rightarrow> nat \<Rightarrow> bool \<Rightarrow> 'g \<Rightarrow> nat option \<times> 'g" where
  "dht_await_pin_state gp pin timeout expected_pin_state g = await_loop gp pin timeout expected_pin_state 0 g"

text \<open>The loop over the data bits.\<close>

fun fetch_bits :: "'g gpiodev \<Rightarrow> nat \<Rightarrow> nat \<Rightarrow> 'g \<Rightarrow> bool list option \<times> 'g" where
  "fetch_bits gp pin 0 g = (Some [], g)"
| "fetch_bits gp pin (Suc n) g =
     (case dht_await_pin_state gp pin 65 True g of
        (None, g1) \<Rightarrow> (None, g1)
      | (Some low_duration, g1) \<Rightarrow>
          (case dht_await_pin_state gp pin 75 False g1 of
             (None, g2) \<Rightarrow> (None, g2)
           | (Some high_duration, g2) \<Rightarrow>
               (case fetch_bits gp pin n g2 of (rest, g3) \<Rightarrow> (map_option (\<lambda>bs. (high_duration > low_duration) # bs) rest, g3))))"

definition dht_fetch_data :: "'g gpiodev \<Rightarrow> nat \<Rightarrow> 'g \<Rightarrow> bool list option \<times> 'g" where
  "dht_fetch_data gp pin g =
     (let g0 = gpio_write gp pin True (os_delay_us gp 20000 (gpio_write gp pin False g)) in
      case dht_await_pin_state gp pin 40 False g0 of
        (None, g1) \<Rightarrow> (None, g1)
      | (Some _, g1) \<Rightarrow>
          (case dht_await_pin_state gp pin 88 True g1 of
             (None, g2) \<Rightarrow> (None, g2)
           | (Some _, g2) \<Rightarrow>
               (case dht_await_pin_state gp pin 88 False g2 of
                  (None, g3) \<Rightarrow> (None, g3)
                | (Some _, g3) \<Rightarrow> fetch_bits gp pin DHT_DATA_BITS g3)))"

definition dht_convert_data :: "dht_type \<Rightarrow> byte \<Rightarrow> byte \<Rightarrow> 16 word" where
  "dht_convert_data ty msb lsb =
     (case ty of
        DHT22 \<Rightarrow>
          (let d = push_bit 8 (ucast (msb AND 0x7F)) OR ucast lsb in
           if msb AND push_bit 7 1 \<noteq> 0 then 0 - d else d)
      | DHT11 \<Rightarrow> of_nat (unat msb * 10))"

text \<open>The bits shifted into the five bytes.\<close>

definition pack_bits :: "bool list \<Rightarrow> byte list" where
  "pack_bits bits =
     fold (\<lambda>i data. data[i div 8 := push_bit 1 (data ! (i div 8)) OR of_bool (bits ! i)]) [0..<DHT_DATA_BITS] (replicate (DHT_DATA_BITS div 8) 0)"

definition dht_read_data :: "dht_type \<Rightarrow> 'g gpiodev \<Rightarrow> nat \<Rightarrow> 16 word \<times> 16 word \<Rightarrow> 'g \<Rightarrow> bool \<times> (16 word \<times> 16 word) \<times> 'g" where
  "dht_read_data ty gp pin out g =
     (case dht_fetch_data gp pin (ENTER_CRITICAL gp (gpio_enable gp pin GPIO_OUT_OPEN_DRAIN g)) of
        (result, g1) \<Rightarrow>
          let g2 = EXIT_CRITICAL gp g1 in
          (case result of
             None \<Rightarrow> (False, out, g2)
           | Some bits \<Rightarrow>
               let data = pack_bits bits in
               if unat (data ! 4) \<noteq> (unat (data ! 0) + unat (data ! 1) + unat (data ! 2) + unat (data ! 3)) mod 256
               then (False, out, g2)
               else (True, (dht_convert_data ty (data ! 0) (data ! 1), dht_convert_data ty (data ! 2) (data ! 3)), g2)))"

definition dht_read_float_data ::
  "(real \<Rightarrow> real) \<Rightarrow> dht_type \<Rightarrow> 'g gpiodev \<Rightarrow> nat \<Rightarrow> 16 word \<times> 16 word \<Rightarrow> real \<times> real \<Rightarrow> 'g \<Rightarrow> bool \<times> (real \<times> real) \<times> 'g" where
  "dht_read_float_data rnd ty gp pin uninit out g =
     (case dht_read_data ty gp pin uninit g of
        (ok, (i_humidity, i_temp), g1) \<Rightarrow>
          if ok then (True, (rnd (rnd (of_int (sint i_humidity)) / 10), rnd (rnd (of_int (sint i_temp)) / 10)), g1) else (False, out, g1))"

end
