(* ===== verification/DHT_Signal.thy ===== *)
theory DHT_Signal
  imports DHT
begin

text \<open>
  The DHT driver against the signal of the sensor: the locale \<open>dht_line\<close> is a line whose future levels are known and that answers
  a start signal of 18 ms; sampling every two microseconds tells the bits of every frame within the limits of the protocol.
\<close>

section \<open>Signals\<close>

text \<open>A signal as levels that last for some microseconds each; behind them the line is high.\<close>

fun level_of :: "(bool \<times> nat) list \<Rightarrow> nat \<Rightarrow> bool" where
  "level_of [] t = True"
| "level_of ((b, n) # ps) t = (if t < n then b else level_of ps (t - n))"

lemma level_shift: "k \<le> n \<Longrightarrow> (\<lambda>t. level_of ((b, n) # ps) (t + k)) = level_of ((b, n - k) # ps)"
  by (rule ext) (auto simp: less_diff_conv)

lemma level_skip: "(\<lambda>t. level_of ((b, n) # ps) (t + n)) = level_of ps"
  by (rule ext) simp

declare level_of.simps [simp del]

text \<open>The answer of the sensor: it lets the line stay high for \<open>b\<close>, pulls it low for \<open>c\<close>, releases it for \<open>d\<close>, and sends each bit as a low
  level and a high level; a bit is one if the high level is the longer one.\<close>

definition pulses_signal :: "(nat \<times> nat) list \<Rightarrow> nat \<Rightarrow> (bool \<times> nat) list" where
  "pulses_signal pulses fin = concat (map (\<lambda>(l, h). [(False, l), (True, h)]) pulses) @ [(False, fin)]"

definition frame :: "nat \<Rightarrow> nat \<Rightarrow> nat \<Rightarrow> (nat \<times> nat) list \<Rightarrow> nat \<Rightarrow> (bool \<times> nat) list" where
  "frame b c d pulses fin = [(True, b), (False, c), (True, d)] @ pulses_signal pulses fin"

definition good_pulse :: "nat \<times> nat \<Rightarrow> bool" where
  "good_pulse p \<longleftrightarrow> (case p of (l, h) \<Rightarrow> 4 \<le> l \<and> l \<le> 65 \<and> 4 \<le> h \<and> h \<le> 75 \<and> (l + 3 \<le> h \<or> h + 3 \<le> l))"

definition good_frame :: "nat \<Rightarrow> nat \<Rightarrow> nat \<Rightarrow> (nat \<times> nat) list \<Rightarrow> nat \<Rightarrow> bool" where
  "good_frame b c d pulses fin \<longleftrightarrow> 0 < b \<and> b \<le> 40 \<and> 4 \<le> c \<and> c \<le> 88 \<and> 4 \<le> d \<and> d \<le> 88 \<and> 2 \<le> fin \<and> (\<forall>p \<in> set pulses. good_pulse p)"

definition pulse_bit :: "nat \<times> nat \<Rightarrow> bool" where
  "pulse_bit p \<longleftrightarrow> (case p of (l, h) \<Rightarrow> l < h)"

locale dht_line =
  fixes gp :: "'g gpiodev" and pin :: nat and level :: "'g \<Rightarrow> nat \<Rightarrow> bool" and answer :: "nat \<Rightarrow> bool"
  assumes delay: "level (os_delay_us gp n g) = (\<lambda>t. level g (t + n))"
    and read: "\<exists>g'. gpio_read gp pin g = (level g 0, g') \<and> level g' = level g"
    and request: "18000 \<le> n \<Longrightarrow> level (gpio_write gp pin True (os_delay_us gp n (gpio_write gp pin False g))) = answer"
begin

lemma await_phase:
  assumes "level g = level_of ((\<not> e, w) # (e, h) # ps)" and "0 < w" and "2 \<le> h" and "i + w \<le> timeout"
  shows "\<exists>d k g'. await_loop gp pin timeout e i g = (Some (i + d), g') \<and> d + 2 = w + k \<and> k < 2 \<and> level g' = level_of ((e, h - k) # ps)"
  using assms
proof (induction w arbitrary: i g rule: less_induct)
  case (less w)
  obtain g1 where g1: "gpio_read gp pin (os_delay_us gp 2 g) = (level g 2, g1)" "level g1 = (\<lambda>t. level g (t + 2))"
    using read[of "os_delay_us gp 2 g"] unfolding delay add_0 by blast
  have step: "await_loop gp pin timeout e i g = (if level g 2 = e then (Some i, g1) else await_loop gp pin timeout e (i + 2) g1)"
    using g1(1) less.prems(2,4) by (simp add: await_loop.simps[of gp pin timeout e i g] DHT_TIMER_INTERVAL_def)
  show ?case
  proof (cases "w \<le> 2")
    case True
    have "level g (t + 2) = level_of ((e, h - (2 - w)) # ps) t" for t using less.prems(1,3) True
      by (auto simp: level_of.simps less_diff_conv add.commute)
    then have l1: "level g1 = level_of ((e, h - (2 - w)) # ps)" unfolding g1(2) by blast
    have "level g 2 = e" using less.prems(1,2,3) True by (auto simp: level_of.simps)
    then show ?thesis using step l1 True less.prems(2) by (intro exI[of _ 0] exI[of _ "2 - w"] exI[of _ g1]) auto
  next
    case False
    then have "level g 2 = (\<not> e)" using less.prems(1) by (simp add: level_of.simps)
    then have st: "await_loop gp pin timeout e i g = await_loop gp pin timeout e (i + 2) g1" using step by simp
    have l1: "level g1 = level_of ((\<not> e, w - 2) # (e, h) # ps)" unfolding g1(2) less.prems(1) using False by (intro level_shift) simp
    obtain d k g' where "await_loop gp pin timeout e (i + 2) g1 = (Some (i + 2 + d), g')" "d + 2 = w - 2 + k" "k < 2" "level g' = level_of ((e, h - k) # ps)"
      using less.IH[OF _ l1, of "i + 2"] False less.prems(3,4) by fastforce
    then show ?thesis using st False by (intro exI[of _ "d + 2"] exI[of _ k] exI[of _ g']) auto
  qed
qed

lemma await_state:
  assumes "level g = level_of ((\<not> e, w) # (e, h) # ps)" and "0 < w" and "2 \<le> h" and "w \<le> timeout"
  shows "\<exists>d k g'. dht_await_pin_state gp pin timeout e g = (Some d, g') \<and> d + 2 = w + k \<and> k < 2 \<and> level g' = level_of ((e, h - k) # ps)"
  using await_phase[OF assms(1-3), of 0 timeout] assms(4) by (simp add: dht_await_pin_state_def)

lemma bits_fetched:
  assumes "\<forall>p \<in> set pulses. good_pulse p" and "2 \<le> fin" and "k < 2" and "n = length pulses"
    and "level g = (case pulses_signal pulses fin of (b, m) # ps \<Rightarrow> level_of ((b, m - k) # ps))"
  shows "\<exists>g'. fetch_bits gp pin n g = (Some (map pulse_bit pulses), g')"
  using assms
proof (induction pulses arbitrary: k n g)
  case (Cons p pulses)
  obtain l h where p: "p = (l, h)" by fastforce
  have b: "4 \<le> l" "l \<le> 65" "4 \<le> h" "h \<le> 75" "l + 3 \<le> h \<or> h + 3 \<le> l" using Cons.prems(1) p by (auto simp: good_pulse_def)
  obtain m ps where rest: "pulses_signal pulses fin = (False, m) # ps" "2 \<le> m"
    using Cons.prems(1,2) by (cases pulses) (auto simp: pulses_signal_def good_pulse_def)
  have lg: "level g = level_of ((\<not> True, l - k) # (True, h) # (False, m) # ps)"
    using Cons.prems(5) rest(1) p by (simp add: pulses_signal_def)
  obtain d1 k1 g1 where 1: "dht_await_pin_state gp pin 65 True g = (Some d1, g1)" "d1 + 2 = l - k + k1" "k1 < 2"
      "level g1 = level_of ((\<not> False, h - k1) # (False, m) # ps)"
    using await_state[OF lg, where timeout = 65] b Cons.prems(3) by fastforce
  obtain d2 k2 g2 where 2: "dht_await_pin_state gp pin 75 False g1 = (Some d2, g2)" "d2 + 2 = h - k1 + k2" "k2 < 2" "level g2 = level_of ((False, m - k2) # ps)"
    using await_state[OF 1(4), where timeout = 75] b rest(2) 1(3) by fastforce
  have bit: "(d2 > d1) = pulse_bit p" using 1(2,3) 2(2,3) Cons.prems(3) b p by (auto simp: pulse_bit_def)
  obtain g3 where "fetch_bits gp pin (length pulses) g2 = (Some (map pulse_bit pulses), g3)"
    using Cons.IH[OF _ Cons.prems(2) 2(3) refl, of g2] Cons.prems(1) rest(1) 2(4) by auto
  then show ?case using Cons.prems(4) 1(1) 2(1) bit by simp
qed simp

lemma data_fetched:
  assumes "answer = level_of (frame b c d pulses fin)" and "good_frame b c d pulses fin" and "length pulses = 40"
  shows "\<exists>g'. dht_fetch_data gp pin g = (Some (map pulse_bit pulses), g')"
proof -
  note f = assms(2)[unfolded good_frame_def]
  define g0 where "g0 = gpio_write gp pin True (os_delay_us gp 20000 (gpio_write gp pin False g))"
  obtain l h ps where p: "pulses_signal pulses fin = (False, l) # ps" "2 \<le> l"
    using assms(3) f by (cases pulses) (auto simp: pulses_signal_def good_pulse_def)
  have l0: "level g0 = level_of ((\<not> False, b) # (False, c) # (True, d) # (False, l) # ps)"
    using request[of 20000 g] assms(1) p(1) by (simp add: g0_def frame_def)
  obtain d1 k1 g1 where 1: "dht_await_pin_state gp pin 40 False g0 = (Some d1, g1)" "k1 < 2" "level g1 = level_of ((\<not> True, c - k1) # (True, d) # (False, l) # ps)"
    using await_state[OF l0, of 40] f by auto
  obtain d2 k2 g2 where 2: "dht_await_pin_state gp pin 88 True g1 = (Some d2, g2)" "k2 < 2" "level g2 = level_of ((\<not> False, d - k2) # (False, l) # ps)"
    using await_state[OF 1(3), of 88] f 1(2) by fastforce
  obtain d3 k3 g3 where 3: "dht_await_pin_state gp pin 88 False g2 = (Some d3, g3)" "k3 < 2" "level g3 = level_of ((False, l - k3) # ps)"
    using await_state[OF 2(3), of 88] f 2(2) p(2) by fastforce
  obtain g4 where "fetch_bits gp pin 40 g3 = (Some (map pulse_bit pulses), g4)"
    using bits_fetched[of pulses fin k3 40 g3] f assms(3) 3(2,3) p(1) by auto
  then show ?thesis using 1(1) 2(1) 3(1) by (simp add: dht_fetch_data_def Let_def g0_def[symmetric] DHT_DATA_BITS_def)
qed

end

section \<open>Bytes\<close>

lemma bits_value_append: "bits_value v (xs @ [b]) = push_bit 1 (bits_value v xs) OR of_bool b"
  by (induction v xs rule: bits_value.induct) simp_all

abbreviation shift_in :: "bool list \<Rightarrow> nat \<Rightarrow> byte list \<Rightarrow> byte list" where
  "shift_in bits i data \<equiv> data[i div 8 := push_bit 1 (data ! (i div 8)) OR of_bool (bits ! i)]"

lemma pack_block:
  assumes "k < length data" and "n \<le> 8"
  shows "fold (shift_in bits) [8 * k..<8 * k + n] data = data[k := bits_value (data ! k) (map ((!) bits) [8 * k..<8 * k + n])]"
  using assms(2)
proof (induction n)
  case (Suc n)
  then have "(8 * k + n) div 8 = k" by simp
  then show ?case using Suc assms(1) by (simp add: bits_value_append del: bits_value.simps)
qed simp

lemma map_nth_slice: "m + n \<le> length xs \<Longrightarrow> map ((!) xs) [m..<m + n] = take n (drop m xs)"
  by (rule nth_equalityI) simp_all

lemma pack_msb_bits:
  assumes "length bs = 5"
  shows "pack_bits (concat (map msb_bits bs)) = bs"
proof -
  obtain a b c d e where bs: "bs = [a, b, c, d, e]" using assms by (auto simp: length_Suc_conv numeral_eq_Suc)
  let ?bits = "concat (map msb_bits bs)"
  have u: "[0..<40] = [8 * 0..<8 * 0 + 8] @ [8 * 1..<8 * 1 + 8] @ [8 * 2..<8 * 2 + 8] @ [8 * 3..<8 * 3 + 8] @ [8 * 4..<8 * 4 + (8 :: nat)]"
    by (simp add: upt_rec)
  have v: "map ((!) ?bits) [8 * 0..<8 * 0 + 8] = msb_bits a" "map ((!) ?bits) [8 * 1..<8 * 1 + 8] = msb_bits b" "map ((!) ?bits) [8 * 2..<8 * 2 + 8] = msb_bits c"
    "map ((!) ?bits) [8 * 3..<8 * 3 + 8] = msb_bits d" "map ((!) ?bits) [8 * 4..<8 * 4 + 8] = msb_bits e"
    by (subst map_nth_slice; simp add: bs)+
  have "(40 :: nat) div 8 = Suc (Suc (Suc (Suc (Suc 0))))" by simp
  then have r: "replicate (40 div 8) (0 :: byte) = [0, 0, 0, 0, 0]" by (simp only: replicate.simps)
  have f: "fold (shift_in ?bits) [8 * k..<8 * k + 8] xs = xs[k := bits_value (xs ! k) (map ((!) ?bits) [8 * k..<8 * k + 8])]" if "k < length xs" for k xs
    by (rule pack_block[OF that]) simp
  have "fold (shift_in ?bits) [8 * 0..<8 * 0 + 8] [0, 0, 0, 0, 0] = [a, 0, 0, 0, 0]"
    by (rule trans[OF f]) (simp, unfold v(1), simp add: bits_value_msb)
  moreover have "fold (shift_in ?bits) [8 * 1..<8 * 1 + 8] [a, 0, 0, 0, 0] = [a, b, 0, 0, 0]"
    by (rule trans[OF f]) (simp, unfold v(2), simp add: bits_value_msb)
  moreover have "fold (shift_in ?bits) [8 * 2..<8 * 2 + 8] [a, b, 0, 0, 0] = [a, b, c, 0, 0]"
    by (rule trans[OF f]) (simp, unfold v(3), simp add: bits_value_msb)
  moreover have "fold (shift_in ?bits) [8 * 3..<8 * 3 + 8] [a, b, c, 0, 0] = [a, b, c, d, 0]"
    by (rule trans[OF f]) (simp, unfold v(4), simp add: bits_value_msb)
  moreover have "fold (shift_in ?bits) [8 * 4..<8 * 4 + 8] [a, b, c, d, 0] = [a, b, c, d, e]"
    by (rule trans[OF f]) (simp, unfold v(5), simp add: bits_value_msb)
  ultimately have "fold (shift_in ?bits) [0..<40] [0, 0, 0, 0, 0] = bs" unfolding u fold_append o_apply bs by (simp only:)
  then show ?thesis unfolding pack_bits_def DHT_DATA_BITS_def r .
qed

text \<open>The DHT22 sends sign and magnitude.\<close>

lemma word_unat_id: "of_nat (unat w) = (w :: 16 word)"
  by simp

lemma convert_dht22:
  "sint (dht_convert_data DHT22 msb lsb) = (if 128 \<le> unat msb then -1 else 1) * int (256 * (unat msb mod 128) + unat lsb)"
proof -
  define v where "v = 256 * (unat msb mod 128) + unat lsb"
  have "(0x7F :: byte) = mask 7" by (simp add: mask_eq_exp_minus_1)
  then have "msb AND 0x7F = take_bit 7 msb" by (simp only: take_bit_eq_mask)
  then have "unat (msb AND 0x7F) = unat msb mod 128" by (simp only: unsigned_take_bit_eq) (simp add: take_bit_eq_mod)
  then have "unat (push_bit 8 (ucast (msb AND 0x7F)) OR ucast lsb :: 16 word) = v"
    using unat_of_le16[of lsb "msb AND 0x7F"] by (simp add: of_le16_def or.commute v_def)
  then have d: "push_bit 8 (ucast (msb AND 0x7F)) OR ucast lsb = (of_int (int v) :: 16 word)" by (metis of_int_of_nat_eq word_unat_id)
  have m: "unat msb < 256" using unsigned_less[of msb] by simp
  have "msb AND push_bit 7 1 \<noteq> 0 \<longleftrightarrow> odd (unat msb div 128)"
    using and_exp_eq_0_iff_not_bit[of msb 7] bit_unsigned_iff[of msb 7, where 'a = nat] by (simp add: push_bit_eq_mult bit_iff_odd)
  moreover have "unat msb div 128 = (if 128 \<le> unat msb then 1 else 0)" using m by (auto simp: div_nat_eqI)
  ultimately have b: "msb AND push_bit 7 1 \<noteq> 0 \<longleftrightarrow> 128 \<le> unat msb" by simp
  have "unat lsb < 256" using unsigned_less[of lsb] by simp
  moreover have "unat msb mod 128 < 128" by simp
  ultimately have v: "v < 32768" unfolding v_def by linarith
  then have "sint (of_int (int v) :: 16 word) = int v" "sint (- of_int (int v) :: 16 word) = - int v"
    using sint_sbintrunc'[of "int v", where 'a = 16] sint_sbintrunc'[of "- int v", where 'a = 16] by (simp_all add: signed_take_bit_int_eq_self)
  then show ?thesis unfolding dht_convert_data_def Let_def dht_type.case d b v_def[symmetric] by simp
qed

section \<open>Properties\<close>

text \<open>C35: The driver reads what the sensor sends. When the sensor answers the start signal of at least 18 ms with a frame whose levels are within the
  limits of the protocol (each bit's high level at least three microseconds longer or shorter than its low level), \<open>dht_read_data\<close>
  returns the humidity and the temperature of the five bytes sent if the checksum is right, and otherwise fails
  and leaves the results as they were.\<close>

theorem dht_reads:
  assumes "dht_line gp pin level answer" and "answer = level_of (frame b c d pulses fin)" and "good_frame b c d pulses fin"
    and "map pulse_bit pulses = concat (map msb_bits [h1, h2, t1, t2, ck])"
  shows "\<exists>g'. dht_read_data ty gp pin out g =
    (if unat ck = (unat h1 + unat h2 + unat t1 + unat t2) mod 256 then (True, (dht_convert_data ty h1 h2, dht_convert_data ty t1 t2), g') else (False, out, g'))"
proof -
  have "length (map pulse_bit pulses) = 40" unfolding assms(4) by simp
  then have "length pulses = 40" by simp
  then obtain g' where "dht_fetch_data gp pin (ENTER_CRITICAL gp (gpio_enable gp pin GPIO_OUT_OPEN_DRAIN g)) = (Some (concat (map msb_bits [h1, h2, t1, t2, ck])), g')"
    using dht_line.data_fetched[OF assms(1-3)] assms(4) by metis
  moreover have "pack_bits (concat (map msb_bits [h1, h2, t1, t2, ck])) = [h1, h2, t1, t2, ck]" by (rule pack_msb_bits) simp
  ultimately show ?thesis by (auto simp: dht_read_data_def Let_def simp del: list.map concat.simps)
qed

section \<open>A simulated sensor\<close>

fun advance :: "nat \<Rightarrow> (bool \<times> nat) list \<Rightarrow> (bool \<times> nat) list" where
  "advance k [] = []"
| "advance k ((b, n) # ps) = (if k < n then (b, n - k) # ps else advance (k - n) ps)"

lemma level_advance: "level_of (advance k ps) = (\<lambda>t. level_of ps (t + k))"
proof (induction k ps rule: advance.induct)
  case (2 k b n ps)
  then show ?case by (auto simp: level_of.simps fun_eq_iff)
qed (simp add: level_of.simps)

record dht_sim =
  future :: "(bool \<times> nat) list"
  low_for :: nat

definition sim_dht :: "(bool \<times> nat) list \<Rightarrow> dht_sim gpiodev" where
  "sim_dht ans = \<lparr>gpio_enable = (\<lambda>_ _ g. g), gpio_set_pullup = (\<lambda>_ _ _ g. g),
     gpio_write = (\<lambda>_ v g. if v then (if 18000 \<le> low_for g then g\<lparr>future := ans\<rparr> else g) else g\<lparr>low_for := 0\<rparr>),
     gpio_read = (\<lambda>_ g. (level_of (future g) 0, g)),
     os_delay_us = (\<lambda>n g. g\<lparr>future := advance n (future g), low_for := low_for g + n\<rparr>),
     ENTER_CRITICAL = (\<lambda>g. g), EXIT_CRITICAL = (\<lambda>g. g), vTaskDelay_ms = (\<lambda>_ g. g)\<rparr>"

interpretation sim_line: dht_line "sim_dht ans" pin "\<lambda>g. level_of (future g)" "level_of ans" for ans pin
  by unfold_locales (simp_all add: sim_dht_def level_advance)

theorem dht_reads_witness:
  "\<exists>g'. dht_read_data DHT22 (sim_dht (frame 30 80 80 (map (\<lambda>b. if b then (50, 70) else (50, 27)) (concat (map msb_bits [2, 140, 128, 105, 119]))) 50)) 4
      (0, 0) \<lparr>future = [], low_for = 0\<rparr> = (True, (652, - 105), g')"
proof -
  let ?p = "map (\<lambda>b. if b then (50, 70) else (50, 27)) (concat (map msb_bits [2, 140, 128, 105, 119]))"
  have "pulse_bit (if b then (50, 70) else (50, 27)) = b" for b by (simp add: pulse_bit_def)
  then have p: "map pulse_bit ?p = concat (map msb_bits [2, 140, 128, 105, 119])" by (simp only: map_map o_def map_ident)
  have "good_frame 30 80 80 ?p 50" by (auto simp: good_frame_def good_pulse_def)
  moreover have "dht_convert_data DHT22 2 140 = 652" "dht_convert_data DHT22 128 105 = - 105" by code_simp+
  ultimately show ?thesis
    using dht_reads[OF sim_line.dht_line_axioms refl _ p, where ty = DHT22 and pin = 4 and out = "(0, 0)" and g = "\<lparr>future = [], low_for = 0\<rparr>"] by fastforce
qed

end
