(* ===== verification/EspTimer.thy ===== *)
theory EspTimer
  imports Prelude
begin

text \<open>
  The hardware timers FRC1 and FRC2, \<^verbatim>\<open>src/core/esp_timer.c\<close> and the inline functions of \<^verbatim>\<open>src/core/include/esp/timer.h\<close>, over the
  registers they write: the two timers, the interrupt enable register of \<^verbatim>\<open>DPORT\<close> and the interrupt mask of the processor. A
  divider is the number of its enumeration value. A division by zero is the value \<open>None\<close>.
\<close>

datatype timer_frc_t = FRC1 | FRC2

record timer_regs =
  LOAD :: nat
  COUNT :: nat
  CTRL :: "32 word"
  ALARM :: nat

record soc =
  timer0 :: timer_regs
  timer1 :: timer_regs
  INT_ENABLE :: "32 word"
  intenable :: "32 word"

definition TIMER_FRC1_MAX_LOAD :: nat where "TIMER_FRC1_MAX_LOAD = 0x7fffff"
definition TIMER_CTRL_CLKDIV_M :: "32 word" where "TIMER_CTRL_CLKDIV_M = 3"
definition TIMER_CTRL_CLKDIV_S :: nat where "TIMER_CTRL_CLKDIV_S = 2"
definition TIMER_CTRL_RELOAD :: "32 word" where "TIMER_CTRL_RELOAD = 0x40"
definition TIMER_CTRL_RUN :: "32 word" where "TIMER_CTRL_RUN = 0x80"
definition TIMER_CLKDIV_1 :: nat where "TIMER_CLKDIV_1 = 0"
definition TIMER_CLKDIV_16 :: nat where "TIMER_CLKDIV_16 = 1"
definition TIMER_CLKDIV_256 :: nat where "TIMER_CLKDIV_256 = 2"
definition DPORT_INT_ENABLE_FRC1 :: "32 word" where "DPORT_INT_ENABLE_FRC1 = 2"
definition DPORT_INT_ENABLE_FRC2 :: "32 word" where "DPORT_INT_ENABLE_FRC2 = 4"
definition INUM_TIMER_FRC1 :: nat where "INUM_TIMER_FRC1 = 9"
definition INUM_TIMER_FRC2 :: nat where "INUM_TIMER_FRC2 = 10"
definition FREQ_DIV1 :: nat where "FREQ_DIV1 = 80 * 1000 * 1000"
definition FREQ_DIV16 :: nat where "FREQ_DIV16 = 5 * 1000 * 1000"
definition FREQ_DIV256 :: nat where "FREQ_DIV256 = 312500"
definition TIMER_FREQS :: "nat list" where "TIMER_FREQS = [FREQ_DIV1, FREQ_DIV16, FREQ_DIV256]"
definition EINVAL :: int where "EINVAL = 22"
definition UINT32_MAX :: nat where "UINT32_MAX = 2 ^ 32 - 1"

section \<open>Registers\<close>

definition regs_of :: "timer_frc_t \<Rightarrow> soc \<Rightarrow> timer_regs" where
  "regs_of frc s = (case frc of FRC1 \<Rightarrow> timer0 s | FRC2 \<Rightarrow> timer1 s)"

definition set_regs :: "timer_frc_t \<Rightarrow> (timer_regs \<Rightarrow> timer_regs) \<Rightarrow> soc \<Rightarrow> soc" where
  "set_regs frc f s = (case frc of FRC1 \<Rightarrow> s\<lparr>timer0 := f (timer0 s)\<rparr> | FRC2 \<Rightarrow> s\<lparr>timer1 := f (timer1 s)\<rparr>)"

definition timer_get_load :: "timer_frc_t \<Rightarrow> soc \<Rightarrow> nat" where
  "timer_get_load frc s = LOAD (regs_of frc s)"

definition timer_set_load :: "timer_frc_t \<Rightarrow> nat \<Rightarrow> soc \<Rightarrow> soc" where
  "timer_set_load frc load s = set_regs frc (\<lambda>r. r\<lparr>LOAD := load\<rparr>) s"

definition timer_max_load :: "timer_frc_t \<Rightarrow> nat" where
  "timer_max_load frc = (if frc = FRC1 then TIMER_FRC1_MAX_LOAD else UINT32_MAX)"

definition timer_set_divider :: "timer_frc_t \<Rightarrow> nat \<Rightarrow> soc \<Rightarrow> soc" where
  "timer_set_divider frc dv s =
     (if dv < TIMER_CLKDIV_1 \<or> dv > TIMER_CLKDIV_256 then s
      else set_regs frc (\<lambda>r. r\<lparr>CTRL := (CTRL r AND NOT (push_bit TIMER_CTRL_CLKDIV_S TIMER_CTRL_CLKDIV_M)) OR push_bit TIMER_CTRL_CLKDIV_S (of_nat dv)\<rparr>) s)"

definition xt_isr_unmask :: "32 word \<Rightarrow> soc \<Rightarrow> soc" where
  "xt_isr_unmask unmask s = s\<lparr>intenable := intenable s OR unmask\<rparr>"

definition xt_isr_mask :: "32 word \<Rightarrow> soc \<Rightarrow> soc" where
  "xt_isr_mask m s = s\<lparr>intenable := intenable s AND NOT m\<rparr>"

definition timer_set_interrupts :: "timer_frc_t \<Rightarrow> bool \<Rightarrow> soc \<Rightarrow> soc" where
  "timer_set_interrupts frc enable s =
     (let dp_bit = (if frc = FRC1 then DPORT_INT_ENABLE_FRC1 else DPORT_INT_ENABLE_FRC2);
          int_mask = push_bit (if frc = FRC1 then INUM_TIMER_FRC1 else INUM_TIMER_FRC2) 1 in
      if enable then xt_isr_unmask int_mask (s\<lparr>INT_ENABLE := INT_ENABLE s OR dp_bit\<rparr>)
      else xt_isr_mask int_mask (s\<lparr>INT_ENABLE := INT_ENABLE s AND NOT dp_bit\<rparr>))"

definition timer_set_run :: "timer_frc_t \<Rightarrow> bool \<Rightarrow> soc \<Rightarrow> soc" where
  "timer_set_run frc run s =
     set_regs frc (\<lambda>r. r\<lparr>CTRL := (if run then CTRL r OR TIMER_CTRL_RUN else CTRL r AND NOT TIMER_CTRL_RUN)\<rparr>) s"

definition timer_get_run :: "timer_frc_t \<Rightarrow> soc \<Rightarrow> bool" where
  "timer_get_run frc s \<longleftrightarrow> CTRL (regs_of frc s) AND TIMER_CTRL_RUN \<noteq> 0"

definition timer_set_reload :: "timer_frc_t \<Rightarrow> bool \<Rightarrow> soc \<Rightarrow> soc" where
  "timer_set_reload frc reload s =
     set_regs frc (\<lambda>r. r\<lparr>CTRL := (if reload then CTRL r OR TIMER_CTRL_RELOAD else CTRL r AND NOT TIMER_CTRL_RELOAD)\<rparr>) s"

definition timer_get_reload :: "timer_frc_t \<Rightarrow> soc \<Rightarrow> bool" where
  "timer_get_reload frc s \<longleftrightarrow> CTRL (regs_of frc s) AND TIMER_CTRL_RELOAD \<noteq> 0"

section \<open>Counts\<close>

definition timer_freq_to_count :: "timer_frc_t \<Rightarrow> nat \<Rightarrow> nat \<Rightarrow> nat option" where
  "timer_freq_to_count frc freq dv =
     (if dv < TIMER_CLKDIV_1 \<or> dv > TIMER_CLKDIV_256 then Some 0
      else if freq > TIMER_FREQS ! dv then Some 0
      else if freq = 0 then None
      else Some (TIMER_FREQS ! dv div freq))"

definition timer_freq_to_div :: "nat \<Rightarrow> nat" where
  "timer_freq_to_div freq = (if freq > 100 * 1000 then TIMER_CLKDIV_1 else if freq > 100 then TIMER_CLKDIV_16 else TIMER_CLKDIV_256)"

definition timer_time_to_div :: "nat \<Rightarrow> nat" where
  "timer_time_to_div us = (if us < 1000 then TIMER_CLKDIV_1 else if us < 10 * 1000 then TIMER_CLKDIV_16 else TIMER_CLKDIV_256)"

definition timer_time_to_count :: "timer_frc_t \<Rightarrow> nat \<Rightarrow> nat \<Rightarrow> nat" where
  "timer_time_to_count frc us dv =
     (if dv < TIMER_CLKDIV_1 \<or> dv > TIMER_CLKDIV_256 then 0
      else
        let TIMER_MAX = timer_max_load frc in
        if dv \<noteq> TIMER_CLKDIV_256 then
          let counts_per_us = (if dv = TIMER_CLKDIV_1 then FREQ_DIV1 else FREQ_DIV16) div 1000 div 1000 in
          if us > TIMER_MAX div counts_per_us then 0 else u32 (us * counts_per_us)
        else
          let scalar = FREQ_DIV256 div 500 in
          if us > 1 + UINT32_MAX div scalar then 0
          else
            let counts = u32 (us * scalar) div 2000 in
            if counts > TIMER_MAX then 0 else counts)"

text \<open>The common end of the setters: FRC1 counts down from its load, FRC2 counts up to its alarm.\<close>

definition timer_set_frequency :: "timer_frc_t \<Rightarrow> nat \<Rightarrow> soc \<Rightarrow> (int \<times> soc) option" where
  "timer_set_frequency frc freq s =
     (let dv = timer_freq_to_div freq in
      case timer_freq_to_count frc freq dv of
        None \<Rightarrow> None
      | Some counts \<Rightarrow>
          if counts = 0 then Some (- EINVAL, s)
          else
            let s1 = timer_set_divider frc dv s in
            Some (0, if frc = FRC1 then timer_set_reload frc True (timer_set_load frc counts s1)
                     else s1\<lparr>timer1 := (timer1 s1)\<lparr>ALARM := u32 (counts + COUNT (timer1 s1))\<rparr>\<rparr>))"

definition timer_set_timeout :: "timer_frc_t \<Rightarrow> nat \<Rightarrow> soc \<Rightarrow> int \<times> soc" where
  "timer_set_timeout frc us s =
     (let dv = timer_time_to_div us;
          counts = timer_time_to_count frc us dv in
      if counts = 0 then (- EINVAL, s)
      else
        let s1 = timer_set_divider frc dv s in
        (0, if frc = FRC1 then timer_set_load frc counts s1
            else s1\<lparr>timer1 := (timer1 s1)\<lparr>ALARM := u32 (counts + COUNT (timer1 s1))\<rparr>\<rparr>))"

section \<open>Properties\<close>

text \<open>The clock a divider leaves.\<close>

definition clock_of :: "soc \<Rightarrow> nat" where
  "clock_of s = TIMER_FREQS ! unat (drop_bit 2 (CTRL (timer0 s)) AND 3)"

lemma field_value: "j + k \<le> 32 \<Longrightarrow> drop_bit j ((c AND NOT (push_bit j (mask k))) OR push_bit j v) AND mask k = v AND mask k" for c v :: "32 word"
  by (rule bit_eqI) (auto simp: bit_simps)

lemma field_other: "i < j \<or> i \<ge> j + k \<Longrightarrow> drop_bit j (c OR push_bit i 1) AND mask k = drop_bit j c AND mask k"
  "i < j \<or> i \<ge> j + k \<Longrightarrow> drop_bit j (c AND NOT (push_bit i 1)) AND mask k = drop_bit j c AND mask k" for c :: "32 word"
  by (rule bit_eqI; auto simp: bit_simps dest: bit_imp_le_length)+

lemma mask_three: "mask 2 = (3 :: 32 word)"
  by (simp add: mask_eq_exp_minus_1)

lemma divider_field:
  assumes "d < 3"
  shows "drop_bit 2 ((c AND NOT (push_bit 2 3)) OR push_bit 2 (of_nat d)) AND 3 = (of_nat d :: 32 word)"
proof -
  have "d = 0 \<or> d = 1 \<or> d = 2" using assms by auto
  then have "of_nat d AND 3 = (of_nat d :: 32 word)" by auto
  then show ?thesis using field_value[of 2 2 c "of_nat d"] unfolding mask_three by simp
qed

lemma set_divider_clock:
  assumes "dv < 3"
  shows "clock_of (timer_set_divider FRC1 dv s) = TIMER_FREQS ! dv" "timer1 (timer_set_divider FRC1 dv s) = timer1 s"
proof -
  have "unat (of_nat dv :: 32 word) = dv" using assms by (simp add: unat_of_nat)
  then show "clock_of (timer_set_divider FRC1 dv s) = TIMER_FREQS ! dv"
    using divider_field[of dv "CTRL (timer0 s)"] assms
    by (simp add: clock_of_def timer_set_divider_def set_regs_def TIMER_CLKDIV_1_def TIMER_CLKDIV_256_def TIMER_CTRL_CLKDIV_S_def TIMER_CTRL_CLKDIV_M_def)
  show "timer1 (timer_set_divider FRC1 dv s) = timer1 s" by (simp add: timer_set_divider_def set_regs_def)
qed

lemma reload_clock: "clock_of (timer_set_reload FRC1 b s) = clock_of s" "LOAD (timer0 (timer_set_reload FRC1 b s)) = LOAD (timer0 s)"
  "timer1 (timer_set_reload FRC1 b s) = timer1 s" "timer_get_reload FRC1 (timer_set_reload FRC1 b s) = b"
proof -
  have c: "(0x40 :: 32 word) = push_bit 6 1" by simp
  show "clock_of (timer_set_reload FRC1 b s) = clock_of s"
    using field_other[of 6 2 2 "CTRL (timer0 s)"] unfolding clock_of_def timer_set_reload_def set_regs_def TIMER_CTRL_RELOAD_def c mask_three by simp
  have "(c AND NOT (push_bit 6 1)) AND push_bit 6 1 = (0 :: 32 word)" "(c OR push_bit 6 1) AND push_bit 6 1 = (push_bit 6 1 :: 32 word)" for c
    by (rule bit_eqI; auto simp: bit_simps)+
  then show "timer_get_reload FRC1 (timer_set_reload FRC1 b s) = b"
    unfolding timer_get_reload_def timer_set_reload_def set_regs_def regs_of_def TIMER_CTRL_RELOAD_def c by (cases b) simp_all
qed (simp_all add: timer_set_reload_def set_regs_def)

lemma load_clock: "clock_of (timer_set_load FRC1 n s) = clock_of s" "LOAD (timer0 (timer_set_load FRC1 n s)) = n" "timer1 (timer_set_load FRC1 n s) = timer1 s"
  by (simp_all add: clock_of_def timer_set_load_def set_regs_def)

lemmas timer_consts = TIMER_CLKDIV_1_def TIMER_CLKDIV_16_def TIMER_CLKDIV_256_def FREQ_DIV1_def FREQ_DIV16_def FREQ_DIV256_def TIMER_FREQS_def

lemma freq_div: "timer_freq_to_div freq < 3" "timer_time_to_div us < 3"
  by (simp_all add: timer_freq_to_div_def timer_time_to_div_def timer_consts)

text \<open>For every frequency from 1 Hz to 80 MHz the load fits the counter.\<close>

lemma freq_count:
  assumes "0 < freq" and "freq \<le> 80000000"
  shows "timer_freq_to_count FRC1 freq (timer_freq_to_div freq) = Some (TIMER_FREQS ! timer_freq_to_div freq div freq)"
    "0 < TIMER_FREQS ! timer_freq_to_div freq div freq" "TIMER_FREQS ! timer_freq_to_div freq div freq \<le> TIMER_FRC1_MAX_LOAD"
proof -
  have le: "freq \<le> TIMER_FREQS ! timer_freq_to_div freq" using assms(2) by (simp add: timer_freq_to_div_def timer_consts)
  then show "timer_freq_to_count FRC1 freq (timer_freq_to_div freq) = Some (TIMER_FREQS ! timer_freq_to_div freq div freq)"
    using assms(1) freq_div(1)[of freq] by (simp add: timer_freq_to_count_def TIMER_CLKDIV_1_def TIMER_CLKDIV_256_def)
  show "0 < TIMER_FREQS ! timer_freq_to_div freq div freq" using le assms(1) by (simp add: div_greater_zero_iff)
  have "TIMER_FREQS ! timer_freq_to_div freq \<le> 800 * freq \<or> TIMER_FREQS ! timer_freq_to_div freq = 312500 \<or> TIMER_FREQS ! timer_freq_to_div freq = 5000000"
    by (auto simp: timer_freq_to_div_def timer_consts)
  then show "TIMER_FREQS ! timer_freq_to_div freq div freq \<le> TIMER_FRC1_MAX_LOAD"
  proof (elim disjE)
    assume "TIMER_FREQS ! timer_freq_to_div freq \<le> 800 * freq"
    then have "TIMER_FREQS ! timer_freq_to_div freq div freq \<le> 800" using assms(1) div_le_mono[of _ "800 * freq" freq] by fastforce
    then show ?thesis by (simp add: TIMER_FRC1_MAX_LOAD_def)
  qed (auto simp: TIMER_FRC1_MAX_LOAD_def intro: order_trans[OF div_le_dividend])
qed

text \<open>The frequency that was asked for. For every frequency from 1 Hz to 80 MHz \<open>timer_set_frequency\<close> sets a load that fits the 23 bits
  of FRC1 and a divider with which the timer is the slowest that is not slower than asked, with automatic reload; FRC2 is not touched.\<close>

theorem frequency_set:
  assumes "0 < freq" and "freq \<le> 80000000"
  shows "\<exists>s' n. timer_set_frequency FRC1 freq s = Some (0, s') \<and> LOAD (timer0 s') = n \<and> 0 < n \<and> n \<le> TIMER_FRC1_MAX_LOAD
    \<and> freq * n \<le> clock_of s' \<and> clock_of s' < freq * (n + 1) \<and> timer_get_reload FRC1 s' \<and> timer1 s' = timer1 s"
proof -
  let ?d = "timer_freq_to_div freq"
  let ?n = "TIMER_FREQS ! ?d div freq"
  let ?s = "timer_set_reload FRC1 True (timer_set_load FRC1 ?n (timer_set_divider FRC1 ?d s))"
  note c = freq_count[OF assms]
  have r: "timer_set_frequency FRC1 freq s = Some (0, ?s)" using c(1,2) by (simp add: timer_set_frequency_def Let_def)
  have k: "clock_of ?s = TIMER_FREQS ! ?d" "LOAD (timer0 ?s) = ?n" "timer1 ?s = timer1 s" "timer_get_reload FRC1 ?s"
    using set_divider_clock[OF freq_div(1)] by (simp_all add: reload_clock load_clock)
  have "freq * ?n \<le> TIMER_FREQS ! ?d" by simp
  moreover have "TIMER_FREQS ! ?d < freq * (?n + 1)" using dividend_less_div_times[OF assms(1), of "TIMER_FREQS ! ?d"] by (simp add: algebra_simps)
  ultimately show ?thesis using r k c(2,3) by (intro exI[of _ ?s] exI[of _ ?n]) simp
qed

theorem frequency_set_witness:
  "\<exists>s' n. timer_set_frequency FRC1 1000 \<lparr>timer0 = \<lparr>LOAD = 0, COUNT = 0, CTRL = 0, ALARM = 0\<rparr>, timer1 = \<lparr>LOAD = 0, COUNT = 0, CTRL = 0, ALARM = 0\<rparr>,
      INT_ENABLE = 0, intenable = 0\<rparr> = Some (0, s') \<and> LOAD (timer0 s') = n \<and> 1000 * n \<le> clock_of s' \<and> clock_of s' < 1000 * (n + 1)"
  using frequency_set[of 1000 "\<lparr>timer0 = \<lparr>LOAD = 0, COUNT = 0, CTRL = 0, ALARM = 0\<rparr>, timer1 = \<lparr>LOAD = 0, COUNT = 0, CTRL = 0, ALARM = 0\<rparr>,
      INT_ENABLE = 0, intenable = 0\<rparr>"] by auto

lemma time_count:
  assumes "us < 2 ^ 32"
  shows "timer_time_to_count FRC1 us (timer_time_to_div us) =
    (if us = 0 \<or> 6871947 < us then 0 else us * (TIMER_FREQS ! timer_time_to_div us) div 1000000)"
    "0 < us \<and> us \<le> 6871947 \<Longrightarrow> 0 < us * (TIMER_FREQS ! timer_time_to_div us) div 1000000"
    "0 < us \<and> us \<le> 6871947 \<Longrightarrow> us * (TIMER_FREQS ! timer_time_to_div us) div 1000000 \<le> TIMER_FRC1_MAX_LOAD"
proof -
  consider "us < 1000" | "1000 \<le> us" "us < 10000" | "10000 \<le> us" "us \<le> 6871947" | "us = 6871948" | "6871948 < us" by linarith
  then show "timer_time_to_count FRC1 us (timer_time_to_div us) =
    (if us = 0 \<or> 6871947 < us then 0 else us * (TIMER_FREQS ! timer_time_to_div us) div 1000000)"
  proof cases
    case 3
    have "us * 625 div 2000 \<le> 8388607" "us * 312500 div 1000000 = us * 625 div 2000"
      using 3 div_mult_mult1[of 500 "us * 625" 2000] div_le_mono[of "us * 625" "6871947 * 625" 2000] by simp_all
    then show ?thesis using 3
      by (simp add: timer_time_to_count_def timer_time_to_div_def timer_consts timer_max_load_def TIMER_FRC1_MAX_LOAD_def UINT32_MAX_def u32_def)
  qed (simp_all add: timer_time_to_count_def timer_time_to_div_def timer_consts timer_max_load_def TIMER_FRC1_MAX_LOAD_def UINT32_MAX_def u32_def)
  assume us: "0 < us \<and> us \<le> 6871947"
  then consider "us < 1000" | "1000 \<le> us" "us < 10000" | "10000 \<le> us" by linarith
  then show "0 < us * (TIMER_FREQS ! timer_time_to_div us) div 1000000"
    by cases (use us in \<open>simp_all add: timer_time_to_div_def timer_consts div_greater_zero_iff\<close>)
  show "us * (TIMER_FREQS ! timer_time_to_div us) div 1000000 \<le> TIMER_FRC1_MAX_LOAD"
  proof -
    have "us * (TIMER_FREQS ! timer_time_to_div us) \<le> 6871947 * 312500"
      using us mult_right_mono[of us 6871947 312500] by (auto simp: timer_time_to_div_def timer_consts)
    from div_le_mono[OF this, of 1000000] show ?thesis by (simp add: TIMER_FRC1_MAX_LOAD_def)
  qed
qed

text \<open>The timeout that was asked for. \<open>timer_set_timeout\<close> sets FRC1 to the largest number of ticks that is not longer than the time asked for, for every
  time from one microsecond to 6871947 microseconds, and refuses every other one without touching a register; the
  test against overflow, which lets one value too many through, does no harm.\<close>

theorem timeout_set:
  assumes "us < 2 ^ 32"
  shows "if us = 0 \<or> 6871947 < us then timer_set_timeout FRC1 us s = (- EINVAL, s)
    else \<exists>s' n. timer_set_timeout FRC1 us s = (0, s') \<and> LOAD (timer0 s') = n \<and> 0 < n \<and> n \<le> TIMER_FRC1_MAX_LOAD
      \<and> n * 1000000 \<le> us * clock_of s' \<and> us * clock_of s' < (n + 1) * 1000000 \<and> timer1 s' = timer1 s"
proof (cases "us = 0 \<or> 6871947 < us")
  case True
  then show ?thesis using time_count(1)[OF assms] by (auto simp: timer_set_timeout_def Let_def)
next
  case False
  let ?d = "timer_time_to_div us"
  let ?n = "us * (TIMER_FREQS ! ?d) div 1000000"
  let ?s = "timer_set_load FRC1 ?n (timer_set_divider FRC1 ?d s)"
  have c: "0 < ?n" "?n \<le> TIMER_FRC1_MAX_LOAD" using time_count(2,3)[OF assms] False by simp_all
  then have r: "timer_set_timeout FRC1 us s = (0, ?s)" using time_count(1)[OF assms] False by (simp add: timer_set_timeout_def Let_def)
  have k: "clock_of ?s = TIMER_FREQS ! ?d" "LOAD (timer0 ?s) = ?n" "timer1 ?s = timer1 s"
    using set_divider_clock[OF freq_div(2)] by (simp_all add: load_clock)
  have "?n * 1000000 \<le> us * (TIMER_FREQS ! ?d)" by (simp add: mult.commute times_div_less_eq_dividend)
  moreover have "us * (TIMER_FREQS ! ?d) < (?n + 1) * 1000000" using dividend_less_div_times[of 1000000 "us * (TIMER_FREQS ! ?d)"] by (simp add: algebra_simps)
  ultimately show ?thesis using False r k c by auto
qed

theorem timeout_set_witness:
  "timer_set_timeout FRC1 6871948 \<lparr>timer0 = \<lparr>LOAD = 0, COUNT = 0, CTRL = 0, ALARM = 0\<rparr>, timer1 = \<lparr>LOAD = 0, COUNT = 0, CTRL = 0, ALARM = 0\<rparr>,
      INT_ENABLE = 0, intenable = 0\<rparr> = (- EINVAL, \<lparr>timer0 = \<lparr>LOAD = 0, COUNT = 0, CTRL = 0, ALARM = 0\<rparr>,
      timer1 = \<lparr>LOAD = 0, COUNT = 0, CTRL = 0, ALARM = 0\<rparr>, INT_ENABLE = 0, intenable = 0\<rparr>)"
  using timeout_set[of 6871948] by simp

end
