(* ===== verification/Pwm.thy ===== *)
theory Pwm
  imports EspTimer Gpio
begin

text \<open>
  The pulse-width modulation of \<^verbatim>\<open>src/extras/pwm/pwm.c\<close> on the timer FRC1: its file-scope structure, the registers of the timers, the output
  latches and modes of the pins, and whether the interrupt handler is attached. Each timer interrupt is one call of
  the handler.
\<close>

datatype pwm_step_t = PERIOD_ON | PERIOD_OFF

record PWMInfo =
  running :: bool
  freq :: nat
  dutyCicle :: nat
  maxLoad :: nat
  onLoad :: nat
  offLoad :: nat
  pwm_step :: pwm_step_t
  usedPins :: nat
  pwm_pins :: "nat list"

record pwm_world =
  pwmInfo :: PWMInfo
  chip :: soc
  out_latch :: "nat \<Rightarrow> bool"
  pin_mode :: "nat \<Rightarrow> gpio_direction_t option"
  frc1_attached :: bool

definition MAX_PWM_PINS :: nat where "MAX_PWM_PINS = 8"
definition UINT16_MAX :: nat where "UINT16_MAX = 65535"

text \<open>Only the pins below 16 have an output latch.\<close>

definition pin_write :: "nat \<Rightarrow> bool \<Rightarrow> pwm_world \<Rightarrow> pwm_world" where
  "pin_write pin v w = (if pin < 16 then w\<lparr>out_latch := (out_latch w)(pin := v)\<rparr> else w)"

definition write_pins :: "bool \<Rightarrow> pwm_world \<Rightarrow> pwm_world" where
  "write_pins v w = fold (\<lambda>i w. pin_write (pwm_pins (pwmInfo w) ! i) v w) [0..<usedPins (pwmInfo w)] w"

definition frc1_interrupt_handler :: "pwm_world \<Rightarrow> pwm_world" where
  "frc1_interrupt_handler w =
     (let (out, load, step) =
        (if pwm_step (pwmInfo w) = PERIOD_ON then (False, offLoad (pwmInfo w), PERIOD_OFF) else (True, onLoad (pwmInfo w), PERIOD_ON));
          w1 = write_pins out w;
          w2 = w1\<lparr>chip := timer_set_load FRC1 load (chip w1)\<rparr> in
      w2\<lparr>pwmInfo := (pwmInfo w2)\<lparr>pwm_step := step\<rparr>\<rparr>)"

definition pwm_stop :: "pwm_world \<Rightarrow> pwm_world" where
  "pwm_stop w =
     w\<lparr>chip := timer_set_run FRC1 False (timer_set_interrupts FRC1 False (chip w)), pwmInfo := (pwmInfo w)\<lparr>running := False\<rparr>\<rparr>"

definition pwm_start :: "pwm_world \<Rightarrow> pwm_world" where
  "pwm_start w =
     (let on = u32 (dutyCicle (pwmInfo w) * maxLoad (pwmInfo w)) div UINT16_MAX;
          off = sub32 (maxLoad (pwmInfo w)) on;
          w1 = w\<lparr>pwmInfo := (pwmInfo w)\<lparr>onLoad := on, offLoad := off, pwm_step := PERIOD_ON\<rparr>\<rparr>;
          w2 = write_pins True w1;
          w3 = w2\<lparr>chip := timer_set_run FRC1 True (timer_set_interrupts FRC1 True (timer_set_reload FRC1 False
                            (timer_set_load FRC1 (onLoad (pwmInfo w2)) (chip w2))))\<rparr> in
      w3\<lparr>pwmInfo := (pwmInfo w3)\<lparr>running := True\<rparr>\<rparr>)"

definition pwm_restart :: "pwm_world \<Rightarrow> pwm_world" where
  "pwm_restart w = (if running (pwmInfo w) then pwm_start (pwm_stop w) else w)"

definition pwm_init :: "nat list \<Rightarrow> pwm_world \<Rightarrow> pwm_world" where
  "pwm_init pins w =
     (let npins = length pins in
      if npins > MAX_PWM_PINS then w
      else
        let w1 = w\<lparr>pwmInfo := (pwmInfo w)\<lparr>maxLoad := 0, onLoad := 0, offLoad := 0, pwm_step := PERIOD_ON, usedPins := npins\<rparr>\<rparr>;
            w2 = fold (\<lambda>i w. w\<lparr>pwmInfo := (pwmInfo w)\<lparr>pwm_pins := (pwm_pins (pwmInfo w))[i := pins ! i]\<rparr>,
                               pin_mode := (pin_mode w)(pins ! i := Some GPIO_OUTPUT)\<rparr>) [0..<npins] w1;
            w3 = (pwm_stop w2)\<lparr>frc1_attached := True\<rparr> in
        w3\<lparr>pwmInfo := (pwmInfo w3)\<lparr>running := False\<rparr>\<rparr>)"

text \<open>The result of setting the timer's frequency is not looked at; a frequency of zero divides by zero.\<close>

definition pwm_set_freq :: "nat \<Rightarrow> pwm_world \<Rightarrow> pwm_world option" where
  "pwm_set_freq f w =
     (let w1 = w\<lparr>pwmInfo := (pwmInfo w)\<lparr>freq := f\<rparr>\<rparr>;
          w2 = (if running (pwmInfo w1) then let w' = pwm_stop w1 in w'\<lparr>pwmInfo := (pwmInfo w')\<lparr>running := True\<rparr>\<rparr> else w1) in
      case timer_set_frequency FRC1 f (chip w2) of
        None \<Rightarrow> None
      | Some (_, c) \<Rightarrow>
          let w3 = w2\<lparr>chip := c, pwmInfo := (pwmInfo w2)\<lparr>maxLoad := timer_get_load FRC1 c\<rparr>\<rparr> in
          Some (if running (pwmInfo w3) then pwm_start w3 else w3))"

definition pwm_set_duty :: "nat \<Rightarrow> pwm_world \<Rightarrow> pwm_world" where
  "pwm_set_duty duty w =
     (let w1 = w\<lparr>pwmInfo := (pwmInfo w)\<lparr>dutyCicle := duty\<rparr>\<rparr> in
      if duty > 0 \<and> duty < UINT16_MAX then pwm_restart w1
      else
        let w2 = pwm_stop w1;
            w3 = w2\<lparr>pwmInfo := (pwmInfo w2)\<lparr>running := True\<rparr>\<rparr> in
        write_pins (duty = UINT16_MAX) w3)"

section \<open>Pins\<close>

definition pins_used :: "pwm_world \<Rightarrow> nat set" where
  "pins_used w = {pwm_pins (pwmInfo w) ! i |i. i < usedPins (pwmInfo w)}"

lemma write_pins_fold:
  "fold (\<lambda>i w. pin_write (pwm_pins (pwmInfo w) ! i) v w) is w =
     w\<lparr>out_latch := (\<lambda>p. if p < 16 \<and> p \<in> (\<lambda>i. pwm_pins (pwmInfo w) ! i) ` set is then v else out_latch w p)\<rparr>"
proof (induction "is" arbitrary: w)
  case (Cons i "is")
  show ?case unfolding fold_simps Cons.IH by (auto simp: pin_write_def fun_eq_iff intro!: pwm_world.equality)
qed simp

lemma write_pins_result: "write_pins v w = w\<lparr>out_latch := (\<lambda>p. if p < 16 \<and> p \<in> pins_used w then v else out_latch w p)\<rparr>"
proof -
  have "(!) (pwm_pins (pwmInfo w)) ` set [0..<usedPins (pwmInfo w)] = pins_used w" by (auto simp: pins_used_def)
  then show ?thesis unfolding write_pins_def write_pins_fold by simp
qed

section \<open>The waveform\<close>

text \<open>What every interrupt keeps: while the step is ON the pins are high and the timer counts the ON time, otherwise the opposite.\<close>

definition pwm_inv :: "pwm_world \<Rightarrow> bool" where
  "pwm_inv w \<longleftrightarrow> (let on = (pwm_step (pwmInfo w) = PERIOD_ON) in
     (\<forall>p \<in> pins_used w. p < 16 \<longrightarrow> out_latch w p = on)
     \<and> LOAD (timer0 (chip w)) = (if on then onLoad (pwmInfo w) else offLoad (pwmInfo w)))"

lemma handler_inv: "pwm_inv (frc1_interrupt_handler w)"
  "pwm_step (pwmInfo (frc1_interrupt_handler w)) = (if pwm_step (pwmInfo w) = PERIOD_ON then PERIOD_OFF else PERIOD_ON)"
  "pins_used (frc1_interrupt_handler w) = pins_used w" "onLoad (pwmInfo (frc1_interrupt_handler w)) = onLoad (pwmInfo w)"
  "offLoad (pwmInfo (frc1_interrupt_handler w)) = offLoad (pwmInfo w)" "clock_of (chip (frc1_interrupt_handler w)) = clock_of (chip w)"
  by (auto simp: frc1_interrupt_handler_def write_pins_result pwm_inv_def pins_used_def Let_def timer_set_load_def set_regs_def clock_of_def)

lemma interrupts_inv:
  assumes "pwm_inv w" and "pwm_step (pwmInfo w) = PERIOD_ON" and "w' = (frc1_interrupt_handler ^^ n) w"
  shows "pwm_inv w'" "pwm_step (pwmInfo w') = (if even n then PERIOD_ON else PERIOD_OFF)" "pins_used w' = pins_used w"
    "onLoad (pwmInfo w') = onLoad (pwmInfo w)" "offLoad (pwmInfo w') = offLoad (pwmInfo w)" "clock_of (chip w') = clock_of (chip w)"
  unfolding assms(3) by (induction n) (simp_all add: assms(1,2) handler_inv)

lemma start_inv:
  assumes "dutyCicle (pwmInfo w) * maxLoad (pwmInfo w) < 2 ^ 32" and "dutyCicle (pwmInfo w) \<le> UINT16_MAX" and "maxLoad (pwmInfo w) < 2 ^ 32"
  shows "pwm_inv (pwm_start w)" "pwm_step (pwmInfo (pwm_start w)) = PERIOD_ON" "pins_used (pwm_start w) = pins_used w"
    "onLoad (pwmInfo (pwm_start w)) = dutyCicle (pwmInfo w) * maxLoad (pwmInfo w) div UINT16_MAX"
    "onLoad (pwmInfo (pwm_start w)) + offLoad (pwmInfo (pwm_start w)) = maxLoad (pwmInfo w)"
    "clock_of (chip (pwm_start w)) = clock_of (chip w)"
proof -
  let ?on = "dutyCicle (pwmInfo w) * maxLoad (pwmInfo w) div UINT16_MAX"
  have on: "u32 (dutyCicle (pwmInfo w) * maxLoad (pwmInfo w)) div UINT16_MAX = ?on" using assms(1) by (simp add: u32_def)
  have "dutyCicle (pwmInfo w) * maxLoad (pwmInfo w) \<le> UINT16_MAX * maxLoad (pwmInfo w)" using assms(2) by (rule mult_le_mono1)
  from div_le_mono[OF this, of UINT16_MAX] have le: "?on \<le> maxLoad (pwmInfo w)" by (simp add: UINT16_MAX_def)
  have off: "sub32 (maxLoad (pwmInfo w)) ?on = maxLoad (pwmInfo w) - ?on" using le assms(3) by (intro sub32_small) simp_all
  show "onLoad (pwmInfo (pwm_start w)) + offLoad (pwmInfo (pwm_start w)) = maxLoad (pwmInfo w)"
    using le by (simp add: pwm_start_def Let_def write_pins_result on off)
  have run: "LOAD (timer0 (timer_set_run FRC1 b c)) = LOAD (timer0 c)" "clock_of (timer_set_run FRC1 b c) = clock_of c" for b c
    using field_other[of 7 2 2 "CTRL (timer0 c)"] by (simp_all add: timer_set_run_def set_regs_def clock_of_def TIMER_CTRL_RUN_def mask_three)
  have int: "timer0 (timer_set_interrupts FRC1 b c) = timer0 c" "clock_of (timer_set_interrupts FRC1 b c) = clock_of c" for b c
    by (simp_all add: timer_set_interrupts_def xt_isr_mask_def xt_isr_unmask_def clock_of_def Let_def)
  show "pwm_inv (pwm_start w)" by (auto simp: pwm_inv_def pwm_start_def Let_def write_pins_result pins_used_def run int reload_clock load_clock)
  show "clock_of (chip (pwm_start w)) = clock_of (chip w)" by (simp add: pwm_start_def Let_def write_pins_result run int reload_clock load_clock)
qed (use assms(1) in \<open>simp_all add: pwm_start_def Let_def write_pins_result pins_used_def u32_def\<close>)

text \<open>For 5 Hz and more the product of the duty cycle and the period fits 32 bits.\<close>

lemma set_freq_stopped:
  assumes "5 \<le> f" and "f < 65536" and "\<not> running (pwmInfo w)"
  shows "\<exists>c. timer_set_frequency FRC1 f (chip w) = Some (0, c)
    \<and> pwm_set_freq f w = Some (w\<lparr>chip := c, pwmInfo := (pwmInfo w)\<lparr>freq := f, maxLoad := LOAD (timer0 c)\<rparr>\<rparr>)
    \<and> f * LOAD (timer0 c) \<le> clock_of c \<and> clock_of c < f * (LOAD (timer0 c) + 1) \<and> UINT16_MAX * LOAD (timer0 c) < 2 ^ 32"
proof -
  let ?n = "TIMER_FREQS ! timer_freq_to_div f div f"
  note k = freq_count[of f] and d = set_divider_clock[OF freq_div(1)[of f], of "chip w"]
  define c where "c = timer_set_reload FRC1 True (timer_set_load FRC1 ?n (timer_set_divider FRC1 (timer_freq_to_div f) (chip w)))"
  have t: "timer_set_frequency FRC1 f (chip w) = Some (0, c)" using k assms(1,2) by (simp add: timer_set_frequency_def Let_def c_def)
  have c: "LOAD (timer0 c) = ?n" "clock_of c = TIMER_FREQS ! timer_freq_to_div f" by (simp_all add: c_def reload_clock load_clock d)
  have "TIMER_FREQS ! timer_freq_to_div f \<le> 62500 * f" using assms(1,2) by (simp add: timer_freq_to_div_def timer_consts)
  from div_le_mono[OF this, of f] have "?n \<le> 62500" using assms(1) by simp
  moreover have "TIMER_FREQS ! timer_freq_to_div f < f * (?n + 1)"
    using dividend_less_div_times[of f "TIMER_FREQS ! timer_freq_to_div f"] assms(1) by (simp add: algebra_simps)
  ultimately show ?thesis using t c assms(3) by (intro exI[of _ c]) (simp add: pwm_set_freq_def Let_def timer_get_load_def regs_of_def UINT16_MAX_def)
qed

text \<open>C36: The waveform. From 5 Hz up, after the frequency and the duty cycle are set and the modulation is started, every interrupt switches all pins and
  loads the time of the next part: the ON part is the duty cycle's share of the period, rounded down to one tick of the timer,
  both parts together are the period, and the period is the longest that is not longer than the frequency asks for.\<close>

theorem pwm_waveform:
  assumes "5 \<le> f" and "f < 65536" and "0 < duty" and "duty < UINT16_MAX" and "\<not> running (pwmInfo w)" and "\<forall>p \<in> pins_used w. p < 16"
  shows "\<exists>w1 period on. pwm_set_freq f w = Some w1 \<and> on * UINT16_MAX \<le> duty * period \<and> duty * period < (on + 1) * UINT16_MAX
    \<and> (\<forall>n. let w' = (frc1_interrupt_handler ^^ n) (pwm_start (pwm_set_duty duty w1)) in
         (\<forall>p \<in> pins_used w. out_latch w' p = even n) \<and> LOAD (timer0 (chip w')) = (if even n then on else period - on)
         \<and> f * period \<le> clock_of (chip w') \<and> clock_of (chip w') < f * (period + 1))"
proof -
  obtain c where c: "pwm_set_freq f w = Some (w\<lparr>chip := c, pwmInfo := (pwmInfo w)\<lparr>freq := f, maxLoad := LOAD (timer0 c)\<rparr>\<rparr>)"
      "f * LOAD (timer0 c) \<le> clock_of c" "clock_of c < f * (LOAD (timer0 c) + 1)" "UINT16_MAX * LOAD (timer0 c) < 2 ^ 32"
    using set_freq_stopped[OF assms(1,2,5)] by blast
  define w1 where "w1 = w\<lparr>chip := c, pwmInfo := (pwmInfo w)\<lparr>freq := f, maxLoad := LOAD (timer0 c)\<rparr>\<rparr>"
  define w2 where "w2 = pwm_set_duty duty w1"
  let ?period = "LOAD (timer0 c)" and ?on = "duty * LOAD (timer0 c) div UINT16_MAX"
  have w2: "dutyCicle (pwmInfo w2) = duty" "maxLoad (pwmInfo w2) = ?period" "pins_used w2 = pins_used w" "chip w2 = c"
    using assms(3-5) by (simp_all add: w2_def w1_def pwm_set_duty_def pwm_restart_def Let_def pins_used_def)
  have "duty * ?period < 2 ^ 32" using order.strict_trans1[OF mult_le_mono1[OF less_imp_le[OF assms(4)]] c(4)] .
  moreover have "?period < 2 ^ 32" using c(4) by (simp add: UINT16_MAX_def)
  ultimately have s: "pwm_inv (pwm_start w2)" "pwm_step (pwmInfo (pwm_start w2)) = PERIOD_ON" "pins_used (pwm_start w2) = pins_used w"
      "onLoad (pwmInfo (pwm_start w2)) = ?on" "onLoad (pwmInfo (pwm_start w2)) + offLoad (pwmInfo (pwm_start w2)) = ?period" "clock_of (chip (pwm_start w2)) = clock_of c"
    using start_inv[of w2] w2 assms(4) by simp_all
  have "let w' = (frc1_interrupt_handler ^^ n) (pwm_start w2) in
         (\<forall>p \<in> pins_used w. out_latch w' p = even n) \<and> LOAD (timer0 (chip w')) = (if even n then ?on else ?period - ?on)
         \<and> f * ?period \<le> clock_of (chip w') \<and> clock_of (chip w') < f * (?period + 1)" for n
  proof -
    define w' where "w' = (frc1_interrupt_handler ^^ n) (pwm_start w2)"
    note i = interrupts_inv[OF s(1,2) w'_def]
    have "pins_used w' = pins_used w" "onLoad (pwmInfo w') = ?on" "offLoad (pwmInfo w') = ?period - ?on" using i(3-5) s(3-5) by simp_all
    then show ?thesis using i(1,2,6) s(6) c(2,3) assms(6) by (auto simp: pwm_inv_def Let_def w'_def[symmetric])
  qed
  moreover have "?on * UINT16_MAX \<le> duty * ?period" "duty * ?period < (?on + 1) * UINT16_MAX"
    using dividend_less_div_times[of UINT16_MAX "duty * ?period"] by (simp_all add: UINT16_MAX_def times_div_less_eq_dividend algebra_simps)
  ultimately show ?thesis using c(1) unfolding w2_def w1_def by blast
qed

text \<open>A stopped device with one pin.\<close>

definition demo_pwm :: pwm_world where
  "demo_pwm = pwm_init [4] \<lparr>pwmInfo = \<lparr>running = False, freq = 0, dutyCicle = 0, maxLoad = 0, onLoad = 0, offLoad = 0, pwm_step = PERIOD_ON,
     usedPins = 0, pwm_pins = replicate 8 0\<rparr>, chip = \<lparr>timer0 = \<lparr>LOAD = 0, COUNT = 0, CTRL = 0, ALARM = 0\<rparr>, timer1 = \<lparr>LOAD = 0, COUNT = 0, CTRL = 0, ALARM = 0\<rparr>,
     INT_ENABLE = 0, intenable = 0\<rparr>, out_latch = (\<lambda>_. False), pin_mode = (\<lambda>_. None), frc1_attached = False\<rparr>"

lemma demo_pwm_pins: "pins_used demo_pwm = {4}" "\<not> running (pwmInfo demo_pwm)"
  by (auto simp: demo_pwm_def pwm_init_def MAX_PWM_PINS_def pins_used_def pwm_stop_def Let_def eval_nat_numeral)

theorem pwm_waveform_witness:
  "\<exists>w1 period on. pwm_set_freq 1000 demo_pwm = Some w1 \<and> on * UINT16_MAX \<le> 16384 * period
    \<and> out_latch ((frc1_interrupt_handler ^^ 3) (pwm_start (pwm_set_duty 16384 w1))) 4 = False"
proof -
  have d: "16384 < UINT16_MAX" by (simp add: UINT16_MAX_def)
  obtain w1 period on where w: "pwm_set_freq 1000 demo_pwm = Some w1" "on * UINT16_MAX \<le> 16384 * period"
      "\<forall>n. let w' = (frc1_interrupt_handler ^^ n) (pwm_start (pwm_set_duty 16384 w1)) in (\<forall>p \<in> {4}. out_latch w' p = even n)
         \<and> LOAD (timer0 (chip w')) = (if even n then on else period - on) \<and> 1000 * period \<le> clock_of (chip w') \<and> clock_of (chip w') < 1000 * (period + 1)"
    using pwm_waveform[OF _ _ _ d demo_pwm_pins(2), of 1000] demo_pwm_pins(1) by auto
  then have "out_latch ((frc1_interrupt_handler ^^ 3) (pwm_start (pwm_set_duty 16384 w1))) 4 = even (3 :: nat)" unfolding Let_def by blast
  then show ?thesis using w(1,2) by auto
qed

text \<open>A duty cycle of zero does not last. \<open>pwm_set_duty\<close> with zero pulls the pins low for good and marks the modulation as running; setting
  a frequency afterwards starts it again and drives every pin high.\<close>

theorem zero_duty_lost:
  assumes "0 < f" and "f < 65536" and "\<forall>p \<in> pins_used w. p < 16"
  shows "(\<forall>p \<in> pins_used w. \<not> out_latch (pwm_set_duty 0 w) p)
    \<and> (\<exists>w'. pwm_set_freq f (pwm_set_duty 0 w) = Some w' \<and> dutyCicle (pwmInfo w') = 0 \<and> (\<forall>p \<in> pins_used w. out_latch w' p))"
proof -
  have z: "out_latch (pwm_set_duty 0 w) = (\<lambda>p. if p < 16 \<and> p \<in> pins_used w then False else out_latch w p)" "running (pwmInfo (pwm_set_duty 0 w))"
    "pins_used (pwm_set_duty 0 w) = pins_used w" "dutyCicle (pwmInfo (pwm_set_duty 0 w)) = 0"
    by (simp_all add: pwm_set_duty_def Let_def write_pins_result pins_used_def pwm_stop_def UINT16_MAX_def)
  obtain c where "timer_set_frequency FRC1 f (timer_set_run FRC1 False (timer_set_interrupts FRC1 False (chip (pwm_set_duty 0 w)))) = Some (0, c)"
    using freq_count[of f] assms(1,2) by (simp add: timer_set_frequency_def Let_def)
  then obtain w' where w': "pwm_set_freq f (pwm_set_duty 0 w) = Some (pwm_start w')" "pins_used w' = pins_used w" "dutyCicle (pwmInfo w') = 0"
    using z by (simp add: pwm_set_freq_def Let_def pwm_stop_def pins_used_def)
  have "dutyCicle (pwmInfo (pwm_start w')) = 0" using w'(3) by (simp add: pwm_start_def Let_def write_pins_result)
  moreover have "out_latch (pwm_start w') = (\<lambda>p. if p < 16 \<and> p \<in> pins_used w' then True else out_latch w' p)"
    by (auto simp: pwm_start_def Let_def write_pins_result pins_used_def fun_eq_iff)
  ultimately show ?thesis using w'(1,2) z(1) assms(3) by auto
qed

theorem zero_duty_lost_witness:
  "\<not> out_latch (pwm_set_duty 0 demo_pwm) 4 \<and> (\<exists>w'. pwm_set_freq 1000 (pwm_set_duty 0 demo_pwm) = Some w' \<and> out_latch w' 4)"
  using zero_duty_lost[of 1000 demo_pwm] unfolding demo_pwm_pins(1) by simp blast

end
