(* ===== verification/Interrupts.thy ===== *)
theory Interrupts
  imports Pwm
begin

text \<open>
  Interrupt dispatch: the handler table and the common handler of \<^verbatim>\<open>src/core/esp_interrupts.c\<close>, and the handler of the pins' interrupt of
  \<^verbatim>\<open>src/core/esp_gpio_interrupts.c\<close>. A handler is a name that \<open>call\<close> gives a meaning; it may change everything, the table and the
  pending interrupts included, so the state is open for extension. A call through an empty entry of the table is \<open>None\<close>.
\<close>

section \<open>Find first set\<close>

definition ffs :: "'a :: len word \<Rightarrow> nat" where
  "ffs x = (case find (bit x) [0..<LENGTH('a)] of None \<Rightarrow> 0 | Some i \<Rightarrow> Suc i)"

definition BIT :: "nat \<Rightarrow> 'a :: len word" where "BIT i = push_bit i 1"

lemma ffs_zero: "ffs x = 0 \<longleftrightarrow> x = 0" for x :: "'a :: len word"
proof -
  have "x = 0 \<longleftrightarrow> (\<forall>i < LENGTH('a). \<not> bit x i)" by (auto intro: bit_word_eqI)
  then show ?thesis by (auto simp: ffs_def find_None_iff find_Some_iff atLeast0LessThan split: option.splits)
qed

text \<open>The lowest bit of a word and the word without it.\<close>

lemma ffs_lowest:
  fixes x :: "'a :: len word"
  assumes "x \<noteq> 0"
  obtains i where "ffs x = Suc i" "bit x i" "i < LENGTH('a)" "\<And>j. j < i \<Longrightarrow> \<not> bit x j"
proof -
  obtain i where i: "find (bit x) [0..<LENGTH('a)] = Some i" using assms ffs_zero[of x] by (auto simp: ffs_def split: option.splits)
  then obtain k where "k < LENGTH('a)" "bit x ([0..<LENGTH('a)] ! k)" "i = [0..<LENGTH('a)] ! k" "\<forall>j < k. \<not> bit x ([0..<LENGTH('a)] ! j)"
    by (auto simp: find_Some_iff)
  then show ?thesis using i by (intro that[of i]) (auto simp: ffs_def)
qed

lemma clear_bit: "bit (x AND NOT (BIT i)) j \<longleftrightarrow> bit x j \<and> j \<noteq> i" for x :: "'a :: len word"
  by (auto simp: BIT_def bit_simps dest: bit_imp_le_length)

lemma bit_BIT: "bit (BIT i :: 'a :: len word) j \<longleftrightarrow> j = i \<and> i < LENGTH('a)"
  by (auto simp: BIT_def bit_simps)

lemma minus_lowest: "bit x i \<Longrightarrow> x - BIT i = x AND NOT (BIT i)" for x :: "'a :: len word"
  by (intro disjunctive_diff_eq_and_not bit_word_eqI) (auto simp: BIT_def bit_simps)

definition set_bits_of :: "'a :: len word \<Rightarrow> nat list" where
  "set_bits_of x = filter (bit x) [0..<LENGTH('a)]"

lemma set_bits_of_zero: "set_bits_of 0 = []"
  by (simp add: set_bits_of_def)

lemma set_set_bits_of: "set (set_bits_of x) = {i. bit x i}" "distinct (set_bits_of x)" "sorted (set_bits_of x)"
  by (auto simp: set_bits_of_def sorted_wrt_filter dest: bit_imp_le_length)

lemma set_bits_of_lowest:
  assumes "x \<noteq> 0"
  shows "bit x (ffs x - 1)" "set_bits_of x = (ffs x - 1) # set_bits_of (x AND NOT (BIT (ffs x - 1)))"
proof -
  obtain i where i: "ffs x = Suc i" "bit x i" "i < LENGTH('a)" "\<And>j. j < i \<Longrightarrow> \<not> bit x j" using ffs_lowest[OF assms] by blast
  then show "bit x (ffs x - 1)" by simp
  have "[0..<LENGTH('a)] = [0..<i] @ i # [Suc i..<LENGTH('a)]"
    using i(3) upt_add_eq_append[of 0 i "LENGTH('a) - i"] by (simp add: upt_conv_Cons)
  moreover have "filter (bit x) [0..<i] = []" "filter (bit (x AND NOT (BIT i))) [0..<i] = []" using i(4) by (auto simp: filter_empty_conv clear_bit)
  moreover have "filter (bit x) [Suc i..<LENGTH('a)] = filter (bit (x AND NOT (BIT i))) [Suc i..<LENGTH('a)]"
    by (rule filter_cong) (auto simp: clear_bit)
  ultimately show "set_bits_of x = (ffs x - 1) # set_bits_of (x AND NOT (BIT (ffs x - 1)))" using i(1,2) by (simp add: set_bits_of_def clear_bit)
qed

lemma fewer_bits': "x \<noteq> 0 \<Longrightarrow> length (set_bits_of (x AND NOT (BIT (ffs x - 1)))) < length (set_bits_of x)"
  unfolding set_bits_of_lowest(2)[of x] by simp

lemma fewer_bits: "x \<noteq> 0 \<Longrightarrow> length (set_bits_of (x - BIT (ffs x - 1))) < length (set_bits_of x)"
  unfolding set_bits_of_lowest(2)[of x] minus_lowest[OF set_bits_of_lowest(1)] by simp

section \<open>The common handler\<close>

definition INUM_GPIO :: nat where "INUM_GPIO = 4"
definition INUM_WDT :: nat where "INUM_WDT = 8"

record 'h xt_state =
  isr :: "'h option list"
  esp_in_isr :: bool
  interrupt :: "32 word"

definition xt_isr_attach :: "nat \<Rightarrow> 'h \<Rightarrow> ('h, 'e) xt_state_scheme \<Rightarrow> ('h, 'e) xt_state_scheme option" where
  "xt_isr_attach i func w = (if i < 16 then Some (w\<lparr>isr := (isr w)[i := Some func]\<rparr>) else None)"

definition xt_clear_ints :: "32 word \<Rightarrow> ('h, 'e) xt_state_scheme \<Rightarrow> ('h, 'e) xt_state_scheme" where
  "xt_clear_ints m w = w\<lparr>interrupt := interrupt w AND NOT m\<rparr>"

text \<open>Clear the flag, then call the handler.\<close>

definition isr_serve :: "('h \<Rightarrow> ('h, 'e) xt_state_scheme \<Rightarrow> ('h, 'e) xt_state_scheme) \<Rightarrow> nat \<Rightarrow> ('h, 'e) xt_state_scheme \<Rightarrow> ('h, 'e) xt_state_scheme option" where
  "isr_serve call i w = (let w1 = xt_clear_ints (BIT i) w in case isr w1 ! i of None \<Rightarrow> None | Some h \<Rightarrow> Some (call h w1))"

function isr_loop :: "('h \<Rightarrow> ('h, 'e) xt_state_scheme \<Rightarrow> ('h, 'e) xt_state_scheme) \<Rightarrow> 16 word \<Rightarrow> ('h, 'e) xt_state_scheme \<Rightarrow> ('h, 'e) xt_state_scheme option" where
  "isr_loop call intset w =
     (if intset = 0 then Some w
      else
        let index = ffs intset - 1 in
        case isr_serve call index w of None \<Rightarrow> None | Some w' \<Rightarrow> isr_loop call (intset - BIT index) w')"
  by auto

termination
  by (relation "measure (\<lambda>(_, intset, _). length (set_bits_of intset))") (auto dest: fewer_bits)

declare isr_loop.simps [simp del]

definition xt_isr_handler :: "('h \<Rightarrow> ('h, 'e) xt_state_scheme \<Rightarrow> ('h, 'e) xt_state_scheme) \<Rightarrow> 16 word \<Rightarrow> ('h, 'e) xt_state_scheme \<Rightarrow> (nat \<times> ('h, 'e) xt_state_scheme) option" where
  "xt_isr_handler call intset w =
     (let w0 = w\<lparr>esp_in_isr := True\<rparr>;
          first = (if intset AND BIT INUM_WDT \<noteq> 0 then map_option (Pair (intset - BIT INUM_WDT)) (isr_serve call INUM_WDT w0) else Some (intset, w0)) in
      case first of
        None \<Rightarrow> None
      | Some (intset1, w1) \<Rightarrow>
          case isr_loop call intset1 w1 of None \<Rightarrow> None | Some w2 \<Rightarrow> Some (0, w2\<lparr>esp_in_isr := False\<rparr>))"

text \<open>The reference: the interrupts of a list served one after the other.\<close>

fun serve_all :: "('h \<Rightarrow> ('h, 'e) xt_state_scheme \<Rightarrow> ('h, 'e) xt_state_scheme) \<Rightarrow> nat list \<Rightarrow> ('h, 'e) xt_state_scheme \<Rightarrow> ('h, 'e) xt_state_scheme option" where
  "serve_all call [] w = Some w"
| "serve_all call (i # is) w = (case isr_serve call i w of None \<Rightarrow> None | Some w' \<Rightarrow> serve_all call is w')"

definition isr_order :: "16 word \<Rightarrow> nat list" where
  "isr_order intset = (if bit intset INUM_WDT then [INUM_WDT] else []) @ filter (\<lambda>i. i \<noteq> INUM_WDT) (set_bits_of intset)"

lemma isr_order_set: "distinct (isr_order intset)" "set (isr_order intset) = {i. bit intset i}"
  by (auto simp: isr_order_def set_set_bits_of)

lemma isr_loop_all: "isr_loop call intset w = serve_all call (set_bits_of intset) w"
proof (induction call intset w rule: isr_loop.induct)
  case (1 call intset w)
  show ?case
  proof (cases "intset = 0")
    case False
    then show ?thesis using 1[OF False refl] set_bits_of_lowest[OF False]
      by (simp add: isr_loop.simps[of call intset w] Let_def minus_lowest split: option.splits)
  qed (simp add: isr_loop.simps set_bits_of_zero)
qed

lemma and_BIT: "x AND BIT i \<noteq> 0 \<longleftrightarrow> bit x i" for x :: "'a :: len word"
  by (simp add: BIT_def push_bit_eq_mult and_exp_eq_0_iff_not_bit)

lemma set_bits_of_clear: "set_bits_of (x AND NOT (BIT i)) = filter (\<lambda>j. j \<noteq> i) (set_bits_of x)"
  by (auto simp: set_bits_of_def clear_bit intro: filter_cong)

lemma handler_all:
  "xt_isr_handler call intset w =
     map_option (\<lambda>w'. (0, w'\<lparr>esp_in_isr := False\<rparr>)) (serve_all call (isr_order intset) (w\<lparr>esp_in_isr := True\<rparr>))"
proof (cases "bit intset INUM_WDT")
  case True
  then show ?thesis
    by (simp add: xt_isr_handler_def isr_order_def Let_def and_BIT isr_loop_all minus_lowest set_bits_of_clear option.case_eq_if map_option_case split: option.splits)
next
  case False
  then have "filter (\<lambda>i. i \<noteq> INUM_WDT) (set_bits_of intset) = set_bits_of intset" by (auto simp: filter_id_conv set_set_bits_of)
  with False show ?thesis by (simp add: xt_isr_handler_def isr_order_def Let_def and_BIT isr_loop_all map_option_case)
qed

text \<open>C37: Interrupt dispatch. The common handler serves exactly the interrupts of the set it is given, each once, the watchdog first and then from the
  lowest number up, clearing the flag of an interrupt before it calls the handler; around the calls it marks that an interrupt is being handled, and it
  returns 0. It fails exactly when one of these calls goes through an empty entry of the table.\<close>

theorem isr_dispatch:
  "xt_isr_handler call intset w =
     map_option (\<lambda>w'. (0, w'\<lparr>esp_in_isr := False\<rparr>)) (serve_all call (isr_order intset) (w\<lparr>esp_in_isr := True\<rparr>))
   \<and> distinct (isr_order intset) \<and> set (isr_order intset) = {i. bit intset i}
   \<and> (\<exists>rest. isr_order intset = (if bit intset INUM_WDT then [INUM_WDT] else []) @ rest \<and> sorted rest)"
  using handler_all[of call intset w] isr_order_set[of intset] set_set_bits_of(3)[of intset] by (auto simp: isr_order_def sorted_wrt_filter)

section \<open>Handlers that keep the table\<close>


section \<open>The modulation behind the dispatcher\<close>












end
