(* ===== verification/GpioRegs.thy ===== *)
theory GpioRegs
  imports Interrupts
begin

text \<open>
  The pins over their registers: \<^verbatim>\<open>src/core/esp_gpio.c\<close>, \<^verbatim>\<open>src/core/esp_iomux.c\<close>, the inline functions of \<^verbatim>\<open>gpio.h\<close> and
  \<^verbatim>\<open>iomux.h\<close>, and the handler of the pins' interrupt of \<^verbatim>\<open>src/core/esp_gpio_interrupts.c\<close>. The state holds the registers of the two
  blocks next to the interrupt table; a write to a register whose name ends in SET or CLEAR changes the bits of the main register.
  The functions take a \<open>uint8_t\<close>: an access outside a register array or a shift by 32 and more is the value \<open>None\<close>.
\<close>

record 'h pins = "'h xt_state" +
  OUT :: "32 word"
  ENABLE_OUT :: "32 word"
  IN :: "32 word"
  STATUS :: "32 word"
  CONF :: "32 word list"
  IOMUX_PIN :: "32 word list"
  cpu :: soc

definition GPIO_OUT_PIN_MASK :: "32 word" where "GPIO_OUT_PIN_MASK = 0xFFFF"
definition GPIO_CONF_INTTYPE_M :: "32 word" where "GPIO_CONF_INTTYPE_M = 7"
definition GPIO_CONF_INTTYPE_S :: nat where "GPIO_CONF_INTTYPE_S = 7"
definition GPIO_CONF_OPEN_DRAIN :: "32 word" where "GPIO_CONF_OPEN_DRAIN = BIT 2"
definition IOMUX_PIN_OUTPUT_ENABLE :: "32 word" where "IOMUX_PIN_OUTPUT_ENABLE = BIT 0"
definition IOMUX_PIN_OUTPUT_ENABLE_SLEEP :: "32 word" where "IOMUX_PIN_OUTPUT_ENABLE_SLEEP = BIT 1"
definition IOMUX_PIN_PULLDOWN_SLEEP :: "32 word" where "IOMUX_PIN_PULLDOWN_SLEEP = BIT 2"
definition IOMUX_PIN_PULLUP_SLEEP :: "32 word" where "IOMUX_PIN_PULLUP_SLEEP = BIT 3"
definition IOMUX_PIN_PULLDOWN :: "32 word" where "IOMUX_PIN_PULLDOWN = BIT 6"
definition IOMUX_PIN_PULLUP :: "32 word" where "IOMUX_PIN_PULLUP = BIT 7"
definition IOMUX_PIN_FUNC_MASK :: "32 word" where "IOMUX_PIN_FUNC_MASK = 0x130"

lemmas pin_consts = GPIO_OUT_PIN_MASK_def GPIO_CONF_INTTYPE_M_def GPIO_CONF_INTTYPE_S_def GPIO_CONF_OPEN_DRAIN_def IOMUX_PIN_OUTPUT_ENABLE_def
  IOMUX_PIN_OUTPUT_ENABLE_SLEEP_def IOMUX_PIN_PULLDOWN_SLEEP_def IOMUX_PIN_PULLUP_SLEEP_def IOMUX_PIN_PULLDOWN_def IOMUX_PIN_PULLUP_def
  IOMUX_PIN_FUNC_MASK_def

definition IOMUX_FUNC :: "32 word \<Rightarrow> 32 word" where
  "IOMUX_FUNC v = push_bit 4 (v AND 3) OR push_bit 6 (v AND 4)"

datatype gpio_inttype_t = GPIO_INTTYPE_NONE | GPIO_INTTYPE_EDGE_POS | GPIO_INTTYPE_EDGE_NEG | GPIO_INTTYPE_EDGE_ANY
  | GPIO_INTTYPE_LEVEL_LOW | GPIO_INTTYPE_LEVEL_HIGH

fun gpio_inttype_code :: "gpio_inttype_t \<Rightarrow> 32 word" where
  "gpio_inttype_code GPIO_INTTYPE_NONE = 0"
| "gpio_inttype_code GPIO_INTTYPE_EDGE_POS = 1"
| "gpio_inttype_code GPIO_INTTYPE_EDGE_NEG = 2"
| "gpio_inttype_code GPIO_INTTYPE_EDGE_ANY = 3"
| "gpio_inttype_code GPIO_INTTYPE_LEVEL_LOW = 4"
| "gpio_inttype_code GPIO_INTTYPE_LEVEL_HIGH = 5"

section \<open>The multiplexer\<close>

definition IOMUX_TO_GPIO :: "nat list" where "IOMUX_TO_GPIO = [12, 13, 14, 15, 3, 1, 6, 7, 8, 9, 10, 11, 0, 2, 4, 5]"
definition GPIO_TO_IOMUX :: "nat list" where "GPIO_TO_IOMUX = [12, 5, 13, 4, 14, 15, 6, 7, 8, 9, 10, 11, 0, 1, 2, 3]"

definition gpio_to_iomux :: "nat \<Rightarrow> nat option" where
  "gpio_to_iomux n = (if n < 16 then Some (GPIO_TO_IOMUX ! n) else None)"

definition iomux_to_gpio :: "nat \<Rightarrow> nat option" where
  "iomux_to_gpio n = (if n < 16 then Some (IOMUX_TO_GPIO ! n) else None)"

text \<open>The functions that follow take the index of a register, which the tables give.\<close>

definition iomux_put :: "nat \<Rightarrow> 32 word \<Rightarrow> 32 word \<Rightarrow> ('h, 'e) pins_scheme \<Rightarrow> ('h, 'e) pins_scheme" where
  "iomux_put k m v w = (let prev = IOMUX_PIN w ! k AND NOT m in w\<lparr>IOMUX_PIN := (IOMUX_PIN w)[k := v OR prev]\<rparr>)"

definition iomux_set_function :: "nat \<Rightarrow> 32 word \<Rightarrow> ('h, 'e) pins_scheme \<Rightarrow> ('h, 'e) pins_scheme" where
  "iomux_set_function k func w = iomux_put k IOMUX_PIN_FUNC_MASK func w"

definition iomux_set_direction_flags :: "nat \<Rightarrow> 32 word \<Rightarrow> ('h, 'e) pins_scheme \<Rightarrow> ('h, 'e) pins_scheme" where
  "iomux_set_direction_flags k flags w = iomux_put k (IOMUX_PIN_OUTPUT_ENABLE OR IOMUX_PIN_OUTPUT_ENABLE_SLEEP) flags w"

definition iomux_set_pullup_flags :: "nat \<Rightarrow> 32 word \<Rightarrow> ('h, 'e) pins_scheme \<Rightarrow> ('h, 'e) pins_scheme" where
  "iomux_set_pullup_flags k flags w =
     iomux_put k (IOMUX_PIN_PULLUP OR IOMUX_PIN_PULLDOWN OR IOMUX_PIN_PULLUP_SLEEP OR IOMUX_PIN_PULLDOWN_SLEEP) flags w"

definition iomux_set_gpio_function :: "nat \<Rightarrow> bool \<Rightarrow> ('h, 'e) pins_scheme \<Rightarrow> ('h, 'e) pins_scheme option" where
  "iomux_set_gpio_function gpio_number output_enable w =
     (case gpio_to_iomux gpio_number of
        None \<Rightarrow> None
      | Some k \<Rightarrow>
          let func = (if k > 11 then IOMUX_FUNC 0 else IOMUX_FUNC 3) in
          Some (iomux_set_direction_flags k (if output_enable then IOMUX_PIN_OUTPUT_ENABLE else 0) (iomux_set_function k func w)))"

section \<open>Pins\<close>

definition conf_put :: "nat \<Rightarrow> (32 word \<Rightarrow> 32 word) \<Rightarrow> ('h, 'e) pins_scheme \<Rightarrow> ('h, 'e) pins_scheme" where
  "conf_put n f w = w\<lparr>CONF := (CONF w)[n := f (CONF w ! n)]\<rparr>"

definition gpio_enable_regs :: "nat \<Rightarrow> gpio_direction_t \<Rightarrow> ('h, 'e) pins_scheme \<Rightarrow> ('h, 'e) pins_scheme option" where
  "gpio_enable_regs n direction w =
     (if n \<ge> 16 then None
      else case direction of
        GPIO_INPUT \<Rightarrow> iomux_set_gpio_function n False (w\<lparr>ENABLE_OUT := ENABLE_OUT w AND NOT (BIT n)\<rparr>)
      | GPIO_OUTPUT \<Rightarrow>
          let w1 = conf_put n (\<lambda>c. c AND NOT GPIO_CONF_OPEN_DRAIN) w in
          iomux_set_gpio_function n True (w1\<lparr>ENABLE_OUT := ENABLE_OUT w1 OR BIT n\<rparr>)
      | GPIO_OUT_OPEN_DRAIN \<Rightarrow>
          let w1 = conf_put n (\<lambda>c. c OR GPIO_CONF_OPEN_DRAIN) w in
          iomux_set_gpio_function n True (w1\<lparr>ENABLE_OUT := ENABLE_OUT w1 OR BIT n\<rparr>))"

definition gpio_set_pullup_regs :: "nat \<Rightarrow> bool \<Rightarrow> bool \<Rightarrow> ('h, 'e) pins_scheme \<Rightarrow> ('h, 'e) pins_scheme option" where
  "gpio_set_pullup_regs n enabled enabled_during_sleep w =
     (let flags = (if enabled then IOMUX_PIN_PULLUP else 0);
          flags = (if enabled_during_sleep then flags OR IOMUX_PIN_PULLUP_SLEEP else flags) in
      case gpio_to_iomux n of None \<Rightarrow> None | Some k \<Rightarrow> Some (iomux_set_pullup_flags k flags w))"

definition gpio_disable :: "nat \<Rightarrow> ('h, 'e) pins_scheme \<Rightarrow> ('h, 'e) pins_scheme option" where
  "gpio_disable n w =
     (if n \<ge> 32 then None
      else case gpio_to_iomux n of
        None \<Rightarrow> None
      | Some k \<Rightarrow>
          let w1 = w\<lparr>ENABLE_OUT := ENABLE_OUT w AND NOT (BIT n)\<rparr> in
          Some (w1\<lparr>IOMUX_PIN := (IOMUX_PIN w1)[k := IOMUX_PIN w1 ! k AND NOT IOMUX_PIN_OUTPUT_ENABLE]\<rparr>))"

definition gpio_set_output_on_sleep :: "nat \<Rightarrow> bool \<Rightarrow> ('h, 'e) pins_scheme \<Rightarrow> ('h, 'e) pins_scheme option" where
  "gpio_set_output_on_sleep n enabled w =
     (case gpio_to_iomux n of
        None \<Rightarrow> None
      | Some k \<Rightarrow>
          let old = IOMUX_PIN w ! k;
              new = (if enabled then old OR IOMUX_PIN_OUTPUT_ENABLE_SLEEP else old AND NOT IOMUX_PIN_OUTPUT_ENABLE_SLEEP) in
          Some (w\<lparr>IOMUX_PIN := (IOMUX_PIN w)[k := new]\<rparr>))"

definition gpio_write_regs :: "nat \<Rightarrow> bool \<Rightarrow> ('h, 'e) pins_scheme \<Rightarrow> ('h, 'e) pins_scheme option" where
  "gpio_write_regs n v w =
     (if n \<ge> 32 then None
      else Some (w\<lparr>OUT := (if v then OUT w OR (BIT n AND GPIO_OUT_PIN_MASK) else OUT w AND NOT (BIT n AND GPIO_OUT_PIN_MASK))\<rparr>))"

definition gpio_toggle :: "nat \<Rightarrow> ('h, 'e) pins_scheme \<Rightarrow> ('h, 'e) pins_scheme option" where
  "gpio_toggle n w =
     (if n \<ge> 32 then None
      else Some (w\<lparr>OUT := (if OUT w AND BIT n \<noteq> 0 then OUT w AND NOT (BIT n AND GPIO_OUT_PIN_MASK) else OUT w OR (BIT n AND GPIO_OUT_PIN_MASK))\<rparr>))"

definition gpio_read_regs :: "nat \<Rightarrow> ('h, 'e) pins_scheme \<Rightarrow> bool option" where
  "gpio_read_regs n w = (if n \<ge> 32 then None else Some (IN w AND BIT n \<noteq> 0))"

definition gpio_set_interrupt :: "'h \<Rightarrow> nat \<Rightarrow> gpio_inttype_t \<Rightarrow> ('h, 'e) pins_scheme \<Rightarrow> ('h, 'e) pins_scheme option" where
  "gpio_set_interrupt gpio_interrupt_handler n int_type w =
     (if n \<ge> 16 then None
      else
        let w1 = conf_put n (\<lambda>c. (c AND NOT (push_bit GPIO_CONF_INTTYPE_S GPIO_CONF_INTTYPE_M)) OR push_bit GPIO_CONF_INTTYPE_S (gpio_inttype_code int_type)) w in
        if int_type \<noteq> GPIO_INTTYPE_NONE then
          map_option (\<lambda>w2. w2\<lparr>cpu := xt_isr_unmask (BIT INUM_GPIO) (cpu w2)\<rparr>) (xt_isr_attach INUM_GPIO gpio_interrupt_handler w1)
        else Some w1)"

definition gpio_inttype_field :: "32 word \<Rightarrow> 32 word" where
  "gpio_inttype_field conf = drop_bit GPIO_CONF_INTTYPE_S conf AND GPIO_CONF_INTTYPE_M"

definition gpio_get_interrupt :: "nat \<Rightarrow> ('h, 'e) pins_scheme \<Rightarrow> 32 word option" where
  "gpio_get_interrupt n w = (if n \<ge> 16 then None else Some (gpio_inttype_field (CONF w ! n)))"

definition gpio_set_iomux_function :: "nat \<Rightarrow> 32 word \<Rightarrow> ('h, 'e) pins_scheme \<Rightarrow> ('h, 'e) pins_scheme option" where
  "gpio_set_iomux_function n func w =
     (case gpio_to_iomux n of None \<Rightarrow> None | Some k \<Rightarrow> Some (iomux_put k IOMUX_PIN_FUNC_MASK func w))"

section \<open>The interrupt of the pins\<close>

text \<open>The table of handlers has an entry for every pin, the empty handler where the application gives none.\<close>

function gpio_loop :: "(nat \<Rightarrow> ('h, 'e) pins_scheme \<Rightarrow> ('h, 'e) pins_scheme) \<Rightarrow> 32 word \<Rightarrow> ('h, 'e) pins_scheme \<Rightarrow> ('h, 'e) pins_scheme option" where
  "gpio_loop handlers status_reg w =
     (if ffs status_reg = 0 then Some w
      else
        let gpio_idx = ffs status_reg - 1;
            status_reg' = status_reg AND NOT (BIT gpio_idx) in
        if gpio_idx \<ge> 16 then None
        else gpio_loop handlers status_reg' (if gpio_inttype_field (CONF w ! gpio_idx) \<noteq> 0 then handlers gpio_idx w else w))"
  by auto

termination
  by (relation "measure (\<lambda>(_, s, _). length (set_bits_of s))") (auto simp: ffs_zero dest: fewer_bits')

declare gpio_loop.simps [simp del]

definition gpio_interrupt_handler :: "(nat \<Rightarrow> ('h, 'e) pins_scheme \<Rightarrow> ('h, 'e) pins_scheme) \<Rightarrow> ('h, 'e) pins_scheme \<Rightarrow> ('h, 'e) pins_scheme option" where
  "gpio_interrupt_handler handlers w =
     (let status_reg = STATUS w in gpio_loop handlers status_reg (w\<lparr>STATUS := STATUS w AND NOT status_reg\<rparr>))"

text \<open>The reference: the pins of a status from the lowest up, each with an interrupt type gets its handler called once.\<close>

definition serve_pin :: "(nat \<Rightarrow> ('h, 'e) pins_scheme \<Rightarrow> ('h, 'e) pins_scheme) \<Rightarrow> nat \<Rightarrow> ('h, 'e) pins_scheme \<Rightarrow> ('h, 'e) pins_scheme" where
  "serve_pin handlers i w = (if gpio_get_interrupt i w = Some 0 then w else handlers i w)"

lemma gpio_loop_all:
  assumes "\<forall>i. bit s i \<longrightarrow> i < 16"
  shows "gpio_loop handlers s w = Some (fold (serve_pin handlers) (set_bits_of s) w)"
  using assms
proof (induction handlers s w rule: gpio_loop.induct)
  case (1 handlers s w)
  show ?case
  proof (cases "s = 0")
    case False
    define j where "j = ffs s - 1"
    note low = set_bits_of_lowest[OF False, folded j_def]
    have i: "j < 16" using 1(2) low(1) by blast
    have sv: "serve_pin handlers j w = (if gpio_inttype_field (CONF w ! j) \<noteq> 0 then handlers j w else w)"
      using i by (simp add: serve_pin_def gpio_get_interrupt_def)
    have "\<forall>i. bit (s AND NOT (BIT j)) i \<longrightarrow> i < 16" using 1(2) by (simp add: clear_bit)
    from 1(1)[OF _ j_def refl _ this] False i
    have "gpio_loop handlers (s AND NOT (BIT j)) (serve_pin handlers j w) = Some (fold (serve_pin handlers) (set_bits_of (s AND NOT (BIT j))) (serve_pin handlers j w))"
      by (simp add: ffs_zero sv)
    with False i show ?thesis unfolding low(2) gpio_loop.simps[of handlers s w] j_def[symmetric] sv[symmetric] Let_def
      by (simp add: ffs_zero)
  qed (simp add: gpio_loop.simps ffs_zero set_bits_of_zero)
qed

text \<open>Interrupts of the pins. When only pins that exist have raised an interrupt, the handler clears all of them at once and then calls, from the lowest
  pin up and once each, the handlers of the pins that have an interrupt type at that moment.\<close>

theorem gpio_dispatch:
  assumes "\<forall>i. bit (STATUS w) i \<longrightarrow> i < 16"
  shows "gpio_interrupt_handler handlers w = Some (fold (serve_pin handlers) (set_bits_of (STATUS w)) (w\<lparr>STATUS := 0\<rparr>))"
  using gpio_loop_all[OF assms] by (simp add: gpio_interrupt_handler_def Let_def)

section \<open>Configuration of a pin\<close>

lemma put_bits:
  fixes x m v k :: "'a :: len word"
  assumes "v AND m = v"
  shows "(v OR (x AND NOT m)) AND m = v" "m AND k = 0 \<Longrightarrow> (v OR (x AND NOT m)) AND k = x AND k"
  using assms by (auto simp: bit_eq_iff bit_simps)

lemma iomux_bijection:
  "n < 16 \<Longrightarrow> GPIO_TO_IOMUX ! n < 16 \<and> IOMUX_TO_GPIO ! (GPIO_TO_IOMUX ! n) = n"
  "n < 16 \<Longrightarrow> IOMUX_TO_GPIO ! n < 16 \<and> GPIO_TO_IOMUX ! (IOMUX_TO_GPIO ! n) = n"
proof -
  have "list_all (\<lambda>n. GPIO_TO_IOMUX ! n < 16 \<and> IOMUX_TO_GPIO ! (GPIO_TO_IOMUX ! n) = n) [0..<16]"
    "list_all (\<lambda>n. IOMUX_TO_GPIO ! n < 16 \<and> GPIO_TO_IOMUX ! (IOMUX_TO_GPIO ! n) = n) [0..<16]" by code_simp+
  then show "n < 16 \<Longrightarrow> GPIO_TO_IOMUX ! n < 16 \<and> IOMUX_TO_GPIO ! (GPIO_TO_IOMUX ! n) = n"
    "n < 16 \<Longrightarrow> IOMUX_TO_GPIO ! n < 16 \<and> GPIO_TO_IOMUX ! (IOMUX_TO_GPIO ! n) = n" by (simp_all add: list_all_iff)
qed

lemma iomux_inj: "n < 16 \<Longrightarrow> p < 16 \<Longrightarrow> GPIO_TO_IOMUX ! n = GPIO_TO_IOMUX ! p \<longleftrightarrow> n = p"
  using iomux_bijection(1)[of n] iomux_bijection(1)[of p] by metis

text \<open>What the registers say about one pin.\<close>

record pin_view =
  driven :: bool
  drains :: bool
  function_of :: "32 word"
  direction_of :: "32 word"
  pulls :: "32 word"
  int_type_of :: "32 word"

definition PULL_MASK :: "32 word" where
  "PULL_MASK = IOMUX_PIN_PULLUP OR IOMUX_PIN_PULLDOWN OR IOMUX_PIN_PULLUP_SLEEP OR IOMUX_PIN_PULLDOWN_SLEEP"

definition DIR_MASK :: "32 word" where "DIR_MASK = IOMUX_PIN_OUTPUT_ENABLE OR IOMUX_PIN_OUTPUT_ENABLE_SLEEP"

definition view_pin :: "('h, 'e) pins_scheme \<Rightarrow> nat \<Rightarrow> pin_view" where
  "view_pin w p = (let r = IOMUX_PIN w ! (GPIO_TO_IOMUX ! p) in
     \<lparr>driven = bit (ENABLE_OUT w) p, drains = (CONF w ! p AND GPIO_CONF_OPEN_DRAIN \<noteq> 0), function_of = r AND IOMUX_PIN_FUNC_MASK,
      direction_of = r AND DIR_MASK, pulls = r AND PULL_MASK, int_type_of = gpio_inttype_field (CONF w ! p)\<rparr>)"

definition pins_wf :: "('h, 'e) pins_scheme \<Rightarrow> bool" where
  "pins_wf w \<longleftrightarrow> length (CONF w) = 16 \<and> length (IOMUX_PIN w) = 16 \<and> length (isr w) = 16"

definition gpio_function :: "nat \<Rightarrow> 32 word" where
  "gpio_function n = (if n \<in> {0, 2, 4, 5} then IOMUX_FUNC 0 else IOMUX_FUNC 3)"

lemma masks: "IOMUX_PIN_FUNC_MASK AND DIR_MASK = 0" "DIR_MASK AND IOMUX_PIN_FUNC_MASK = 0" "IOMUX_PIN_FUNC_MASK AND PULL_MASK = 0"
  "DIR_MASK AND PULL_MASK = 0" "PULL_MASK AND DIR_MASK = 0" "PULL_MASK AND IOMUX_PIN_FUNC_MASK = 0"
  "gpio_function n AND IOMUX_PIN_FUNC_MASK = gpio_function n" "IOMUX_PIN_OUTPUT_ENABLE AND DIR_MASK = IOMUX_PIN_OUTPUT_ENABLE"
  "IOMUX_PIN_PULLUP AND PULL_MASK = IOMUX_PIN_PULLUP" "IOMUX_PIN_PULLUP_SLEEP AND PULL_MASK = IOMUX_PIN_PULLUP_SLEEP"
  "(IOMUX_PIN_PULLUP OR IOMUX_PIN_PULLUP_SLEEP) AND PULL_MASK = IOMUX_PIN_PULLUP OR IOMUX_PIN_PULLUP_SLEEP"
  by (simp_all add: pin_consts DIR_MASK_def PULL_MASK_def BIT_def push_bit_eq_mult gpio_function_def IOMUX_FUNC_def)

lemma gpio_function_table: "n < 16 \<Longrightarrow> (if GPIO_TO_IOMUX ! n > 11 then IOMUX_FUNC 0 else IOMUX_FUNC 3) = gpio_function n"
proof -
  have "list_all (\<lambda>n. (GPIO_TO_IOMUX ! n > 11) = (n \<in> {0, 2, 4, 5})) [0..<16]" by code_simp
  then show "n < 16 \<Longrightarrow> (if GPIO_TO_IOMUX ! n > 11 then IOMUX_FUNC 0 else IOMUX_FUNC 3) = gpio_function n"
    unfolding gpio_function_def list_all_iff by (metis atLeast_upt lessThan_iff)
qed

lemma iomux_put_nth: "length (IOMUX_PIN w) = 16 \<Longrightarrow> n < 16 \<Longrightarrow> p < 16 \<Longrightarrow>
    IOMUX_PIN (iomux_put (GPIO_TO_IOMUX ! n) m v w) ! (GPIO_TO_IOMUX ! p)
      = (if p = n then v OR (IOMUX_PIN w ! (GPIO_TO_IOMUX ! n) AND NOT m) else IOMUX_PIN w ! (GPIO_TO_IOMUX ! p))"
  using iomux_inj[of n p] iomux_bijection(1)[of n] by (auto simp: iomux_put_def Let_def)

lemma iomux_put_other [simp]: "ENABLE_OUT (iomux_put k m v w) = ENABLE_OUT w" "CONF (iomux_put k m v w) = CONF w" "OUT (iomux_put k m v w) = OUT w"
  "length (IOMUX_PIN (iomux_put k m v w)) = length (IOMUX_PIN w)" "isr (iomux_put k m v w) = isr w"
  by (simp_all add: iomux_put_def Let_def)

lemma set_gpio_function_view:
  assumes "pins_wf w" and "n < 16"
  shows "\<exists>w'. iomux_set_gpio_function n out w = Some w' \<and> pins_wf w' \<and> OUT w' = OUT w
    \<and> (\<forall>p < 16. view_pin w' p = (if p = n then (view_pin w n)\<lparr>function_of := gpio_function n, direction_of := of_bool out\<rparr> else view_pin w p))"
proof -
  let ?k = "GPIO_TO_IOMUX ! n" and ?d = "if out then IOMUX_PIN_OUTPUT_ENABLE else 0"
  define w1 where "w1 = iomux_put ?k IOMUX_PIN_FUNC_MASK (gpio_function n) w"
  define w2 where "w2 = iomux_put ?k DIR_MASK ?d w1"
  have d: "?d AND DIR_MASK = ?d" "?d = of_bool out" by (simp_all add: masks) (simp add: IOMUX_PIN_OUTPUT_ENABLE_def BIT_def)
  note f = put_bits[OF masks(7)[of n]] and g = put_bits[OF d(1)]
  have "iomux_set_gpio_function n out w = Some w2"
    using assms(2) gpio_function_table[OF assms(2)]
    by (simp add: iomux_set_gpio_function_def gpio_to_iomux_def iomux_set_function_def iomux_set_direction_flags_def w2_def w1_def DIR_MASK_def)
  moreover have "view_pin w2 p = (if p = n then (view_pin w n)\<lparr>function_of := gpio_function n, direction_of := of_bool out\<rparr> else view_pin w p)" if "p < 16" for p
    using assms that
    by (simp add: view_pin_def Let_def w2_def w1_def pins_wf_def iomux_put_nth f g masks) (simp add: IOMUX_PIN_OUTPUT_ENABLE_def BIT_def)
  ultimately show ?thesis using assms(1) by (simp add: pins_wf_def w2_def w1_def)
qed

text \<open>The two fields of a pin's configuration register.\<close>

lemma conf_fields:
  "gpio_inttype_field (c OR GPIO_CONF_OPEN_DRAIN) = gpio_inttype_field c"
  "gpio_inttype_field (c AND NOT GPIO_CONF_OPEN_DRAIN) = gpio_inttype_field c"
  "(c OR GPIO_CONF_OPEN_DRAIN) AND GPIO_CONF_OPEN_DRAIN \<noteq> 0" "(c AND NOT GPIO_CONF_OPEN_DRAIN) AND GPIO_CONF_OPEN_DRAIN = 0"
  "GPIO_CONF_OPEN_DRAIN \<noteq> 0"
proof -
  show "gpio_inttype_field (c OR GPIO_CONF_OPEN_DRAIN) = gpio_inttype_field c"
    by (rule bit_word_eqI) (auto simp: gpio_inttype_field_def GPIO_CONF_INTTYPE_S_def GPIO_CONF_OPEN_DRAIN_def BIT_def bit_simps)
  show "gpio_inttype_field (c AND NOT GPIO_CONF_OPEN_DRAIN) = gpio_inttype_field c"
    by (rule bit_word_eqI) (auto simp: gpio_inttype_field_def GPIO_CONF_INTTYPE_S_def GPIO_CONF_OPEN_DRAIN_def bit_BIT bit_and_iff bit_not_iff bit_drop_bit_eq dest: bit_imp_le_length)
  show "(c OR GPIO_CONF_OPEN_DRAIN) AND GPIO_CONF_OPEN_DRAIN \<noteq> 0" by (simp add: GPIO_CONF_OPEN_DRAIN_def and_BIT) (simp add: BIT_def bit_simps)
  show "(c AND NOT GPIO_CONF_OPEN_DRAIN) AND GPIO_CONF_OPEN_DRAIN = 0" by (rule bit_word_eqI) (simp add: bit_and_iff bit_not_iff)
  show "GPIO_CONF_OPEN_DRAIN \<noteq> 0" by (simp add: GPIO_CONF_OPEN_DRAIN_def BIT_def)
qed

lemma conf_put_view:
  assumes "pins_wf w" and "n < 16" and "p < 16"
  shows "view_pin (conf_put n f w) p = (if p = n then (view_pin w n)\<lparr>drains := (f (CONF w ! n) AND GPIO_CONF_OPEN_DRAIN \<noteq> 0),
    int_type_of := gpio_inttype_field (f (CONF w ! n))\<rparr> else view_pin w p)" "pins_wf (conf_put n f w)"
  using assms by (auto simp: conf_put_def view_pin_def Let_def pins_wf_def)

lemma view_enable:
  assumes "p < 16"
  shows "view_pin (w\<lparr>ENABLE_OUT := ENABLE_OUT w AND NOT (BIT n)\<rparr>) p = (if p = n then (view_pin w n)\<lparr>driven := False\<rparr> else view_pin w p)"
    "view_pin (w\<lparr>ENABLE_OUT := ENABLE_OUT w OR BIT n\<rparr>) p = (if p = n then (view_pin w n)\<lparr>driven := True\<rparr> else view_pin w p)"
  using assms by (auto simp: view_pin_def Let_def clear_bit) (auto simp: BIT_def bit_simps)

definition enabled_view :: "nat \<Rightarrow> gpio_direction_t \<Rightarrow> pin_view \<Rightarrow> pin_view" where
  "enabled_view n d v = v\<lparr>driven := (d \<noteq> GPIO_INPUT), drains := (if d = GPIO_INPUT then drains v else d = GPIO_OUT_OPEN_DRAIN),
     function_of := gpio_function n, direction_of := of_bool (d \<noteq> GPIO_INPUT)\<rparr>"

lemma enable_view:
  assumes "pins_wf w" and "n < 16"
  shows "\<exists>w'. gpio_enable_regs n d w = Some w' \<and> pins_wf w' \<and> OUT w' = OUT w
    \<and> (\<forall>p < 16. view_pin w' p = (if p = n then enabled_view n d (view_pin w n) else view_pin w p))"
proof (cases d)
  case GPIO_INPUT
  define w1 where "w1 = w\<lparr>ENABLE_OUT := ENABLE_OUT w AND NOT (BIT n)\<rparr>"
  have w1: "pins_wf w1" "OUT w1 = OUT w" using assms(1) by (simp_all add: pins_wf_def w1_def)
  from set_gpio_function_view[OF w1(1) assms(2), of False] show ?thesis
    using assms(2) w1(2) GPIO_INPUT by (auto simp: gpio_enable_regs_def w1_def view_enable enabled_view_def)
next
  case GPIO_OUTPUT
  define w0 where "w0 = conf_put n (\<lambda>c. c AND NOT GPIO_CONF_OPEN_DRAIN) w"
  define w1 where "w1 = w0\<lparr>ENABLE_OUT := ENABLE_OUT w0 OR BIT n\<rparr>"
  have w1: "pins_wf w1" "OUT w1 = OUT w" using assms by (simp_all add: w1_def w0_def conf_put_def pins_wf_def)
  from set_gpio_function_view[OF w1(1) assms(2), of True] show ?thesis
    using assms w1(2) GPIO_OUTPUT by (auto simp: gpio_enable_regs_def Let_def w1_def w0_def view_enable conf_put_view conf_fields enabled_view_def) (simp add: view_pin_def Let_def)
next
  case GPIO_OUT_OPEN_DRAIN
  define w0 where "w0 = conf_put n (\<lambda>c. c OR GPIO_CONF_OPEN_DRAIN) w"
  define w1 where "w1 = w0\<lparr>ENABLE_OUT := ENABLE_OUT w0 OR BIT n\<rparr>"
  have w1: "pins_wf w1" "OUT w1 = OUT w" using assms by (simp_all add: w1_def w0_def conf_put_def pins_wf_def)
  from set_gpio_function_view[OF w1(1) assms(2), of True] show ?thesis
    using assms w1(2) GPIO_OUT_OPEN_DRAIN by (auto simp: gpio_enable_regs_def Let_def w1_def w0_def view_enable conf_put_view conf_fields enabled_view_def) (simp add: view_pin_def Let_def)
qed

text \<open>Configuration of a pin. Enabling a pin as input, output or open-drain output selects its pin function in the right register of the multiplexer, sets its
  direction in both register blocks and its drain mode, keeps its pull resistors, its interrupt type and its output level, and changes
  nothing of any other pin; setting its pull-up changes only its pull resistors.\<close>

theorem pin_configured:
  assumes "pins_wf w" and "n < 16"
  shows "(\<exists>w'. gpio_enable_regs n d w = Some w' \<and> pins_wf w' \<and> OUT w' = OUT w
      \<and> (\<forall>p < 16. view_pin w' p = (if p = n then enabled_view n d (view_pin w n) else view_pin w p)))
    \<and> (\<exists>w'. gpio_set_pullup_regs n up up_sleep w = Some w' \<and> pins_wf w' \<and> OUT w' = OUT w
      \<and> (\<forall>p < 16. view_pin w' p = (if p = n
           then (view_pin w n)\<lparr>pulls := (if up then IOMUX_PIN_PULLUP else 0) OR (if up_sleep then IOMUX_PIN_PULLUP_SLEEP else 0)\<rparr> else view_pin w p)))"
proof -
  let ?k = "GPIO_TO_IOMUX ! n" and ?f = "(if up then IOMUX_PIN_PULLUP else 0) OR (if up_sleep then IOMUX_PIN_PULLUP_SLEEP else 0)"
  define w2 where "w2 = iomux_put ?k PULL_MASK ?f w"
  have f: "?f AND PULL_MASK = ?f" by (simp add: masks)
  have "gpio_set_pullup_regs n up up_sleep w = Some w2"
    using assms(2) by (simp add: gpio_set_pullup_regs_def gpio_to_iomux_def iomux_set_pullup_flags_def w2_def PULL_MASK_def Let_def)
  moreover have "view_pin w2 p = (if p = n then (view_pin w n)\<lparr>pulls := ?f\<rparr> else view_pin w p)" if "p < 16" for p
    using assms that put_bits[OF f] by (simp add: view_pin_def Let_def w2_def pins_wf_def iomux_put_nth masks del: if_split cong: if_cong)
  moreover have "pins_wf w2" "OUT w2 = OUT w" using assms(1) by (simp_all add: pins_wf_def w2_def)
  ultimately show ?thesis using enable_view[OF assms] by blast
qed

section \<open>Levels and interrupt types\<close>

lemma pin_mask_bit: "bit (BIT n AND GPIO_OUT_PIN_MASK) p \<longleftrightarrow> p = n \<and> n < 16"
proof -
  have m: "GPIO_OUT_PIN_MASK = mask 16" by (simp add: GPIO_OUT_PIN_MASK_def mask_eq_exp_minus_1)
  have "bit GPIO_OUT_PIN_MASK p \<longleftrightarrow> p < 16" unfolding m bit_mask_iff possible_bit_word by auto
  then show ?thesis by (auto simp: bit_and_iff bit_BIT)
qed

text \<open>Writing and toggling a level touches one bit of the output register, and only for a pin that exists.\<close>

lemma masked_bits: "bit (x OR (BIT n AND GPIO_OUT_PIN_MASK)) p \<longleftrightarrow> bit x p \<or> p = n \<and> n < 16"
  "bit (x AND (NOT (BIT n) OR NOT GPIO_OUT_PIN_MASK)) p \<longleftrightarrow> bit x p \<and> \<not> (p = n \<and> n < 16)"
  using pin_mask_bit[of n p] unfolding bit_or_iff bit_and_iff bit_not_iff by (auto dest: bit_imp_le_length)

lemma gpio_write_bit: "n < 32 \<Longrightarrow> \<exists>w'. gpio_write_regs n v w = Some w' \<and> (\<forall>p. bit (OUT w') p = (if p = n \<and> n < 16 then v else bit (OUT w) p))"
  by (auto simp: gpio_write_regs_def masked_bits)

lemma gpio_toggle_bit: "n < 32 \<Longrightarrow> \<exists>w'. gpio_toggle n w = Some w' \<and> (\<forall>p. bit (OUT w') p = (if p = n \<and> n < 16 then \<not> bit (OUT w) p else bit (OUT w) p))"
  by (auto simp: gpio_toggle_def and_BIT masked_bits)

text \<open>The interrupt type set is the type read back, and the drain mode stays.\<close>

lemma inttype_field_put:
  "gpio_inttype_field ((c AND NOT (push_bit GPIO_CONF_INTTYPE_S GPIO_CONF_INTTYPE_M)) OR push_bit GPIO_CONF_INTTYPE_S (gpio_inttype_code t)) = gpio_inttype_code t"
proof -
  have v: "gpio_inttype_code t AND GPIO_CONF_INTTYPE_M = gpio_inttype_code t" by (cases t) (simp_all add: GPIO_CONF_INTTYPE_M_def)
  have m: "bit GPIO_CONF_INTTYPE_M j \<Longrightarrow> 7 + j < 32" for j
  proof -
    have m3: "GPIO_CONF_INTTYPE_M = mask 3" by (simp add: GPIO_CONF_INTTYPE_M_def mask_eq_exp_minus_1)
    show "bit GPIO_CONF_INTTYPE_M j \<Longrightarrow> 7 + j < 32" unfolding m3 bit_mask_iff by simp
  qed
  have "bit (gpio_inttype_code t) j \<Longrightarrow> bit GPIO_CONF_INTTYPE_M j" for j using v by (metis bit_and_iff)
  then show ?thesis using m
    by (intro bit_word_eqI) (auto simp: gpio_inttype_field_def GPIO_CONF_INTTYPE_S_def bit_and_iff bit_or_iff bit_not_iff bit_drop_bit_eq bit_push_bit_iff)
qed

lemma drain_kept:
  "((c AND NOT (push_bit GPIO_CONF_INTTYPE_S GPIO_CONF_INTTYPE_M)) OR push_bit GPIO_CONF_INTTYPE_S v) AND GPIO_CONF_OPEN_DRAIN = c AND GPIO_CONF_OPEN_DRAIN"
  by (intro bit_word_eqI) (auto simp: GPIO_CONF_INTTYPE_S_def GPIO_CONF_OPEN_DRAIN_def bit_and_iff bit_or_iff bit_not_iff bit_push_bit_iff bit_BIT)

text \<open>The interrupt of a pin. Setting the interrupt type of a pin is read back as that type, leaves every other pin and the rest of this one as they were, and, for a type
  other than none, attaches the handler of the pins and lets the processor take its interrupt; the other entries of the table stay.\<close>

theorem gpio_interrupt_set:
  assumes "pins_wf w" and "n < 16"
  shows "\<exists>w'. gpio_set_interrupt h n t w = Some w' \<and> pins_wf w' \<and> gpio_get_interrupt n w' = Some (gpio_inttype_code t)
    \<and> (\<forall>p < 16. view_pin w' p = (if p = n then (view_pin w n)\<lparr>int_type_of := gpio_inttype_code t\<rparr> else view_pin w p))
    \<and> isr w' = (if t = GPIO_INTTYPE_NONE then isr w else (isr w)[INUM_GPIO := Some h])
    \<and> intenable (cpu w') = (if t = GPIO_INTTYPE_NONE then intenable (cpu w) else intenable (cpu w) OR BIT INUM_GPIO)"
proof -
  let ?f = "\<lambda>c. (c AND NOT (push_bit GPIO_CONF_INTTYPE_S GPIO_CONF_INTTYPE_M)) OR push_bit GPIO_CONF_INTTYPE_S (gpio_inttype_code t)"
  define w1 where "w1 = conf_put n ?f w"
  define w2 where "w2 = (if t = GPIO_INTTYPE_NONE then w1 else w1\<lparr>isr := (isr w1)[INUM_GPIO := Some h], cpu := xt_isr_unmask (BIT INUM_GPIO) (cpu w1)\<rparr>)"
  have "gpio_set_interrupt h n t w = Some w2"
    using assms(2) by (simp add: gpio_set_interrupt_def w2_def w1_def xt_isr_attach_def INUM_GPIO_def Let_def)
  moreover have "view_pin w2 p = view_pin w1 p" for p by (simp add: w2_def view_pin_def Let_def)
  moreover have "view_pin w1 p = (if p = n then (view_pin w n)\<lparr>int_type_of := gpio_inttype_code t\<rparr> else view_pin w p)" if "p < 16" for p
    unfolding w1_def conf_put_view(1)[OF assms that] inttype_field_put drain_kept by (simp add: view_pin_def Let_def)
  moreover have "CONF w2 ! n = ?f (CONF w ! n)" using assms by (simp add: w2_def w1_def conf_put_def pins_wf_def)
  then have "gpio_get_interrupt n w2 = Some (gpio_inttype_code t)" using assms(2) by (simp add: gpio_get_interrupt_def inttype_field_put)
  moreover have "pins_wf w2" using assms by (simp add: w2_def w1_def conf_put_def pins_wf_def)
  ultimately show ?thesis by (simp add: w2_def w1_def conf_put_def xt_isr_unmask_def)
qed

section \<open>A chip\<close>

definition demo_pins :: "nat pins" where
  "demo_pins = \<lparr>isr = replicate 16 None, esp_in_isr = False, interrupt = 0, OUT = 0, ENABLE_OUT = 0, IN = 0, STATUS = 0b100010,
     CONF = (replicate 16 0)[1 := 0x80], IOMUX_PIN = replicate 16 0,
     cpu = \<lparr>timer0 = \<lparr>LOAD = 0, COUNT = 0, CTRL = 0, ALARM = 0\<rparr>, timer1 = \<lparr>LOAD = 0, COUNT = 0, CTRL = 0, ALARM = 0\<rparr>, INT_ENABLE = 0, intenable = 0\<rparr>\<rparr>"

lemma demo_pins_wf: "pins_wf demo_pins" by (simp add: pins_wf_def demo_pins_def)

theorem pin_configured_witness:
  "\<exists>w'. gpio_enable_regs 5 GPIO_OUT_OPEN_DRAIN demo_pins = Some w' \<and> driven (view_pin w' 5) \<and> drains (view_pin w' 5)"
  using pin_configured[OF demo_pins_wf, of 5 GPIO_OUT_OPEN_DRAIN True True] by (auto simp: enabled_view_def)

theorem gpio_interrupt_set_witness:
  "\<exists>w'. gpio_set_interrupt 7 5 GPIO_INTTYPE_EDGE_NEG demo_pins = Some w' \<and> gpio_get_interrupt 5 w' = Some 2 \<and> isr w' ! 4 = Some 7"
  using gpio_interrupt_set[OF demo_pins_wf, of 5 7 GPIO_INTTYPE_EDGE_NEG] by (auto simp: INUM_GPIO_def demo_pins_def)

lemma demo_status: "bit (STATUS demo_pins) i \<longleftrightarrow> i = 1 \<or> i = 5"
proof -
  have s: "STATUS demo_pins = BIT 1 OR BIT 5" by (simp add: demo_pins_def BIT_def)
  show ?thesis unfolding s bit_or_iff bit_BIT by auto
qed

lemma demo_bits: "set_bits_of (STATUS demo_pins) = [1, 5]"
  using set_set_bits_of[of "STATUS demo_pins"] by (intro sorted_distinct_set_unique) (auto simp: demo_status)

text \<open>Pins 1 and 5 have raised an interrupt; only pin 1 has an interrupt type.\<close>

theorem gpio_dispatch_witness:
  "\<exists>w'. gpio_interrupt_handler (\<lambda>i w. w\<lparr>OUT := OUT w OR BIT i\<rparr>) demo_pins = Some w' \<and> OUT w' = 2 \<and> STATUS w' = 0"
proof -
  have "\<forall>i. bit (STATUS demo_pins) i \<longrightarrow> i < 16" by (auto simp: demo_status)
  from gpio_dispatch[OF this, of "\<lambda>i w. w\<lparr>OUT := OUT w OR BIT i\<rparr>"] show ?thesis unfolding demo_bits
    by (simp add: serve_pin_def gpio_get_interrupt_def gpio_inttype_field_def pin_consts demo_pins_def BIT_def)
qed

end
