(* ===== verification/KList.thy ===== *)
theory KList
  imports Prelude "HOL-Library.Monad_Syntax"
begin

text \<open>
  The doubly linked lists of the kernel, \<^verbatim>\<open>src/FreeRTOS/Source/list.c\<close> and \<^verbatim>\<open>include/list.h\<close>, over a heap with one function for every field. A
  reference is an item or the end marker of a list, the small item inside the list structure. \<open>None\<close> is the result
  where the code would follow a null pointer, read the owner of an end marker, or walk a broken chain forever. The number of items of a
  list is a natural number: an item takes twenty bytes of a 32-bit address space, so the count does not wrap.
\<close>

datatype ('l, 'i) lref = Item 'i | End 'l

record ('l, 'i, 'o) lheap =
  xItemValue :: "('l, 'i) lref \<Rightarrow> 32 word"
  pxNext :: "('l, 'i) lref \<Rightarrow> ('l, 'i) lref"
  pxPrevious :: "('l, 'i) lref \<Rightarrow> ('l, 'i) lref"
  pvOwner :: "'i \<Rightarrow> 'o"
  pvContainer :: "'i \<Rightarrow> 'l option"
  pxIndex :: "'l \<Rightarrow> ('l, 'i) lref"
  uxNumberOfItems :: "'l \<Rightarrow> nat"

definition portMAX_DELAY :: "32 word" where "portMAX_DELAY = 0xffffffff"

definition vListInitialise :: "'l \<Rightarrow> ('l, 'i, 'o) lheap \<Rightarrow> ('l, 'i, 'o) lheap" where
  "vListInitialise l h = h\<lparr>pxIndex := (pxIndex h)(l := End l), xItemValue := (xItemValue h)(End l := portMAX_DELAY),
     pxNext := (pxNext h)(End l := End l), pxPrevious := (pxPrevious h)(End l := End l), uxNumberOfItems := (uxNumberOfItems h)(l := 0)\<rparr>"

definition vListInitialiseItem :: "'i \<Rightarrow> ('l, 'i, 'o) lheap \<Rightarrow> ('l, 'i, 'o) lheap" where
  "vListInitialiseItem i h = h\<lparr>pvContainer := (pvContainer h)(i := None)\<rparr>"

definition vListInsertEnd :: "'l \<Rightarrow> 'i \<Rightarrow> ('l, 'i, 'o) lheap \<Rightarrow> ('l, 'i, 'o) lheap" where
  "vListInsertEnd l i h =
     (let index = pxIndex h l;
          h1 = h\<lparr>pxNext := (pxNext h)(Item i := index)\<rparr>;
          h2 = h1\<lparr>pxPrevious := (pxPrevious h1)(Item i := pxPrevious h1 index)\<rparr>;
          h3 = h2\<lparr>pxNext := (pxNext h2)(pxPrevious h2 index := Item i)\<rparr>;
          h4 = h3\<lparr>pxPrevious := (pxPrevious h3)(index := Item i)\<rparr> in
      h4\<lparr>pvContainer := (pvContainer h4)(i := Some l), uxNumberOfItems := (uxNumberOfItems h4)(l := uxNumberOfItems h4 l + 1)\<rparr>)"

partial_function (option) insert_position :: "32 word \<Rightarrow> ('l, 'i, 'o) lheap \<Rightarrow> ('l, 'i) lref \<Rightarrow> ('l, 'i) lref option" where
  "insert_position v h iterator =
     (if xItemValue h (pxNext h iterator) \<le> v then insert_position v h (pxNext h iterator) else Some iterator)"

definition vListInsert :: "'l \<Rightarrow> 'i \<Rightarrow> ('l, 'i, 'o) lheap \<Rightarrow> ('l, 'i, 'o) lheap option" where
  "vListInsert l i h =
     (let v = xItemValue h (Item i) in
      do {
        iterator \<leftarrow> (if v = portMAX_DELAY then Some (pxPrevious h (End l)) else insert_position v h (End l));
        let h1 = h\<lparr>pxNext := (pxNext h)(Item i := pxNext h iterator)\<rparr>;
        let h2 = h1\<lparr>pxPrevious := (pxPrevious h1)(pxNext h1 (Item i) := Item i)\<rparr>;
        let h3 = h2\<lparr>pxPrevious := (pxPrevious h2)(Item i := iterator)\<rparr>;
        let h4 = h3\<lparr>pxNext := (pxNext h3)(iterator := Item i)\<rparr>;
        Some (h4\<lparr>pvContainer := (pvContainer h4)(i := Some l), uxNumberOfItems := (uxNumberOfItems h4)(l := uxNumberOfItems h4 l + 1)\<rparr>)
      })"

definition uxListRemove :: "'i \<Rightarrow> ('l, 'i, 'o) lheap \<Rightarrow> (nat \<times> ('l, 'i, 'o) lheap) option" where
  "uxListRemove i h =
     (let h1 = h\<lparr>pxPrevious := (pxPrevious h)(pxNext h (Item i) := pxPrevious h (Item i))\<rparr>;
          h2 = h1\<lparr>pxNext := (pxNext h1)(pxPrevious h1 (Item i) := pxNext h1 (Item i))\<rparr> in
      do {
        l \<leftarrow> pvContainer h2 i;
        let h3 = (if pxIndex h2 l = Item i then h2\<lparr>pxIndex := (pxIndex h2)(l := pxPrevious h2 (Item i))\<rparr> else h2);
        let h4 = h3\<lparr>pvContainer := (pvContainer h3)(i := None), uxNumberOfItems := (uxNumberOfItems h3)(l := uxNumberOfItems h3 l - 1)\<rparr>;
        Some (uxNumberOfItems h4 l, h4)
      })"

definition listSET_LIST_ITEM_OWNER :: "'i \<Rightarrow> 'o \<Rightarrow> ('l, 'i, 'o) lheap \<Rightarrow> ('l, 'i, 'o) lheap" where
  "listSET_LIST_ITEM_OWNER i ow h = h\<lparr>pvOwner := (pvOwner h)(i := ow)\<rparr>"

definition listSET_LIST_ITEM_VALUE :: "'i \<Rightarrow> 32 word \<Rightarrow> ('l, 'i, 'o) lheap \<Rightarrow> ('l, 'i, 'o) lheap" where
  "listSET_LIST_ITEM_VALUE i v h = h\<lparr>xItemValue := (xItemValue h)(Item i := v)\<rparr>"

definition listGET_LIST_ITEM_VALUE :: "'i \<Rightarrow> ('l, 'i, 'o) lheap \<Rightarrow> 32 word" where
  "listGET_LIST_ITEM_VALUE i h = xItemValue h (Item i)"

definition listLIST_IS_EMPTY :: "'l \<Rightarrow> ('l, 'i, 'o) lheap \<Rightarrow> bool" where
  "listLIST_IS_EMPTY l h \<longleftrightarrow> uxNumberOfItems h l = 0"

definition listCURRENT_LIST_LENGTH :: "'l \<Rightarrow> ('l, 'i, 'o) lheap \<Rightarrow> nat" where
  "listCURRENT_LIST_LENGTH l h = uxNumberOfItems h l"

definition owner_of :: "('l, 'i) lref \<Rightarrow> ('l, 'i, 'o) lheap \<Rightarrow> 'o option" where
  "owner_of r h = (case r of Item i \<Rightarrow> Some (pvOwner h i) | End _ \<Rightarrow> None)"

definition listGET_OWNER_OF_NEXT_ENTRY :: "'l \<Rightarrow> ('l, 'i, 'o) lheap \<Rightarrow> ('o \<times> ('l, 'i, 'o) lheap) option" where
  "listGET_OWNER_OF_NEXT_ENTRY l h =
     (let h1 = h\<lparr>pxIndex := (pxIndex h)(l := pxNext h (pxIndex h l))\<rparr>;
          h2 = (if pxIndex h1 l = End l then h1\<lparr>pxIndex := (pxIndex h1)(l := pxNext h1 (pxIndex h1 l))\<rparr> else h1) in
      map_option (\<lambda>ow. (ow, h2)) (owner_of (pxIndex h2 l) h2))"

definition listGET_OWNER_OF_HEAD_ENTRY :: "'l \<Rightarrow> ('l, 'i, 'o) lheap \<Rightarrow> 'o option" where
  "listGET_OWNER_OF_HEAD_ENTRY l h = owner_of (pxNext h (End l)) h"

definition listIS_CONTAINED_WITHIN :: "'l option \<Rightarrow> 'i \<Rightarrow> ('l, 'i, 'o) lheap \<Rightarrow> bool" where
  "listIS_CONTAINED_WITHIN l i h \<longleftrightarrow> pvContainer h i = l"

definition listLIST_ITEM_CONTAINER :: "'i \<Rightarrow> ('l, 'i, 'o) lheap \<Rightarrow> 'l option" where
  "listLIST_ITEM_CONTAINER i h = pvContainer h i"

lemmas list_macros = listSET_LIST_ITEM_OWNER_def listSET_LIST_ITEM_VALUE_def listGET_LIST_ITEM_VALUE_def listLIST_IS_EMPTY_def
  listCURRENT_LIST_LENGTH_def listIS_CONTAINED_WITHIN_def listLIST_ITEM_CONTAINER_def

section \<open>Chains\<close>

text \<open>A chain of references from one to another, and a list as a cycle of them through its end marker, in both directions.\<close>

fun path :: "('r \<Rightarrow> 'r) \<Rightarrow> 'r \<Rightarrow> 'r list \<Rightarrow> 'r \<Rightarrow> bool" where
  "path f a [] b \<longleftrightarrow> f a = b"
| "path f a (x # xs) b \<longleftrightarrow> f a = x \<and> path f x xs b"

lemma path_append: "path f a (xs @ x # ys) b \<longleftrightarrow> path f a xs x \<and> path f x ys b"
  by (induction xs arbitrary: a) auto

lemma path_upd: "p \<notin> insert a (set xs) \<Longrightarrow> path (f(p := q)) a xs b \<longleftrightarrow> path f a xs b"
  by (induction xs arbitrary: a) auto

lemma path_cong: "(\<And>r. r \<in> insert a (set xs) \<Longrightarrow> f r = g r) \<Longrightarrow> path f a xs b \<longleftrightarrow> path g a xs b"
  by (induction xs arbitrary: a) auto

lemma path_step: "path f a (us @ vs) b \<Longrightarrow> f (last (a # us)) = hd (vs @ [b])"
  by (induction us arbitrary: a; cases vs) auto

text \<open>Linking a reference in behind \<open>us\<close>, and unlinking it.\<close>

lemma path_insert:
  "path f a (us @ vs) b \<Longrightarrow> distinct (a # us @ vs) \<Longrightarrow> x \<notin> set (a # us @ vs)
    \<Longrightarrow> path (f(x := hd (vs @ [b]), last (a # us) := x)) a (us @ x # vs) b"
proof (induction us arbitrary: a)
  case Nil
  have "path (f(x := hd (vs @ [b]), a := x)) (hd vs) (tl vs) b \<longleftrightarrow> path f (hd vs) (tl vs) b" if "vs \<noteq> []"
    using Nil that by (intro path_cong) (cases vs; auto)
  then show ?case using Nil by (cases vs) (auto simp: fun_upd_def)
qed auto

lemma path_remove:
  "path f a (us @ x # vs) b \<Longrightarrow> distinct (a # us @ x # vs) \<Longrightarrow> path (f(last (a # us) := hd (vs @ [b]))) a (us @ vs) b"
proof (induction us arbitrary: a)
  case Nil
  have "path (f(a := hd (vs @ [b]))) (hd vs) (tl vs) b \<longleftrightarrow> path f (hd vs) (tl vs) b" if "vs \<noteq> []"
    using Nil that by (intro path_cong) (cases vs; auto)
  then show ?case using Nil by (cases vs) (auto simp: fun_upd_def)
qed auto

definition cyc :: "('l, 'i, 'o) lheap \<Rightarrow> 'l \<Rightarrow> 'i list \<Rightarrow> bool" where
  "cyc h l is \<longleftrightarrow> path (pxNext h) (End l) (map Item is) (End l) \<and> path (pxPrevious h) (End l) (rev (map Item is)) (End l)
     \<and> distinct is \<and> xItemValue h (End l) = portMAX_DELAY \<and> uxNumberOfItems h l = length is \<and> pxIndex h l \<in> insert (End l) (Item ` set is)"

text \<open>All lists of a heap: \<open>A\<close> gives the items of every list, and an item is in the list its container field names.\<close>

definition heap_ok :: "('l, 'i, 'o) lheap \<Rightarrow> ('l \<Rightarrow> 'i list) \<Rightarrow> bool" where
  "heap_ok h A \<longleftrightarrow> (\<forall>l. cyc h l (A l)) \<and> (\<forall>i l. pvContainer h i = Some l \<longleftrightarrow> i \<in> set (A l))"

lemma ends: "last (End l # map Item xs) = hd (rev (map Item xs) @ [End l])" "hd (map Item ys @ [End l]) = last (End l # rev (map Item ys))"
  by (cases xs rule: rev_cases; simp) (cases ys; simp)

lemma cyc_frame:
  assumes "cyc h l is" and "\<And>r. r \<in> insert (End l) (Item ` set is) \<Longrightarrow> pxNext h' r = pxNext h r \<and> pxPrevious h' r = pxPrevious h r"
    and "xItemValue h' (End l) = xItemValue h (End l)" and "uxNumberOfItems h' l = uxNumberOfItems h l" and "pxIndex h' l = pxIndex h l"
  shows "cyc h' l is"
proof -
  have "path (pxNext h') (End l) (map Item is) (End l)" "path (pxPrevious h') (End l) (rev (map Item is)) (End l)"
    using assms(1,2) path_cong[of "End l" "map Item is" "pxNext h'" "pxNext h"] path_cong[of "End l" "rev (map Item is)" "pxPrevious h'" "pxPrevious h"]
    by (auto simp: cyc_def)
  then show ?thesis using assms by (simp add: cyc_def)
qed

lemma cyc_insert:
  assumes "cyc h l (xs @ ys)" and "i \<notin> set (xs @ ys)"
    and "pxNext h' = (pxNext h)(Item i := hd (map Item ys @ [End l]), last (End l # map Item xs) := Item i)"
    and "pxPrevious h' = (pxPrevious h)(Item i := last (End l # map Item xs), hd (map Item ys @ [End l]) := Item i)"
    and "xItemValue h' (End l) = xItemValue h (End l)" and "uxNumberOfItems h' l = uxNumberOfItems h l + 1" and "pxIndex h' l = pxIndex h l"
  shows "cyc h' l (xs @ i # ys)"
proof -
  have d: "distinct (End l # map Item xs @ map Item ys)" "distinct (End l # rev (map Item ys) @ rev (map Item xs))"
    using assms(1) by (auto simp: cyc_def distinct_map inj_on_def)
  have "path (pxNext h') (End l) (map Item xs @ Item i # map Item ys) (End l)" unfolding assms(3)
    using assms(1,2) by (intro path_insert d) (auto simp: cyc_def)
  moreover have "path (pxPrevious h') (End l) (rev (map Item ys) @ Item i # rev (map Item xs)) (End l)" unfolding assms(4) ends
    using assms(1,2) by (intro path_insert d) (auto simp: cyc_def)
  ultimately show ?thesis using assms by (auto simp: cyc_def)
qed

lemma cyc_remove:
  assumes "cyc h l (xs @ i # ys)"
    and "pxNext h' = (pxNext h)(last (End l # map Item xs) := hd (map Item ys @ [End l]))"
    and "pxPrevious h' = (pxPrevious h)(hd (map Item ys @ [End l]) := last (End l # map Item xs))"
    and "xItemValue h' (End l) = xItemValue h (End l)" and "uxNumberOfItems h' l = uxNumberOfItems h l - 1"
    and "pxIndex h' l = (if pxIndex h l = Item i then last (End l # map Item xs) else pxIndex h l)"
  shows "cyc h' l (xs @ ys)"
proof -
  have d: "distinct (End l # map Item xs @ Item i # map Item ys)" "distinct (End l # rev (map Item ys) @ Item i # rev (map Item xs))"
    using assms(1) by (auto simp: cyc_def distinct_map inj_on_def)
  have "path (pxNext h') (End l) (map Item xs @ map Item ys) (End l)" unfolding assms(2)
    using assms(1) by (intro path_remove[OF _ d(1)]) (auto simp: cyc_def)
  moreover have "path (pxPrevious h') (End l) (rev (map Item ys) @ rev (map Item xs)) (End l)" unfolding assms(3) ends
    using assms(1) by (intro path_remove[OF _ d(2)]) (auto simp: cyc_def)
  moreover have "last (End l # map Item xs) \<in> insert (End l) (Item ` set xs)" by (cases xs rule: rev_cases) auto
  ultimately show ?thesis using assms by (auto simp: cyc_def split: if_splits)
qed

text \<open>What the links of a cycle say.\<close>

lemma cyc_links:
  assumes "cyc h l (xs @ ys)"
  shows "pxNext h (last (End l # map Item xs)) = hd (map Item ys @ [End l])" "pxPrevious h (hd (map Item ys @ [End l])) = last (End l # map Item xs)"
  using assms path_step[of "pxNext h" "End l" "map Item xs" "map Item ys" "End l"]
    path_step[of "pxPrevious h" "End l" "rev (map Item ys)" "rev (map Item xs)" "End l"]
  unfolding ends by (auto simp: cyc_def)

section \<open>The operations on a heap of lists\<close>

lemma heap_cyc: "heap_ok h A \<Longrightarrow> cyc h l (A l)" and heap_cont: "heap_ok h A \<Longrightarrow> pvContainer h i = Some l \<longleftrightarrow> i \<in> set (A l)"
  by (simp_all add: heap_ok_def)

lemma heap_facts: "heap_ok h A \<Longrightarrow> distinct (A l)" "heap_ok h A \<Longrightarrow> uxNumberOfItems h l = length (A l)"
  "heap_ok h A \<Longrightarrow> xItemValue h (End l) = portMAX_DELAY"
  using heap_cyc[of h A l] by (simp_all add: cyc_def)

lemma heap_index: "heap_ok h A \<Longrightarrow> pxIndex h l = End l \<or> (\<exists>j \<in> set (A l). pxIndex h l = Item j)"
  using heap_cyc[of h A l] by (auto simp: cyc_def)

lemma heap_free: "heap_ok h A \<Longrightarrow> pvContainer h i = None \<longleftrightarrow> (\<forall>l. i \<notin> set (A l))"
  using heap_cont[of h A i] by (metis option.distinct(1) option.exhaust)

lemma heap_disjoint: "heap_ok h A \<Longrightarrow> i \<in> set (A l) \<Longrightarrow> i \<in> set (A l') \<Longrightarrow> l = l'"
  using heap_cont[of h A i l] heap_cont[of h A i l'] by simp

lemma heap_insert:
  assumes "heap_ok h A" and "pvContainer h i = None" and "A l = xs @ ys"
    and "pxNext h' = (pxNext h)(Item i := hd (map Item ys @ [End l]), last (End l # map Item xs) := Item i)"
    and "pxPrevious h' = (pxPrevious h)(Item i := last (End l # map Item xs), hd (map Item ys @ [End l]) := Item i)"
    and "xItemValue h' = xItemValue h" and "uxNumberOfItems h' = (uxNumberOfItems h)(l := uxNumberOfItems h l + 1)" and "pxIndex h' = pxIndex h"
    and "pvContainer h' = (pvContainer h)(i := Some l)"
  shows "heap_ok h' (A(l := xs @ i # ys))"
proof -
  have n: "i \<notin> set (A l')" for l' using assms(1,2) by (simp add: heap_free)
  have c: "cyc h l (xs @ ys)" using heap_cyc[OF assms(1), of l] assms(3) by simp
  have "i \<notin> set (xs @ ys)" using n[of l] assms(3) by simp
  then have "cyc h' l (xs @ i # ys)" by (rule cyc_insert[OF c _ assms(4,5)]) (simp_all only: assms(6-8) fun_upd_same)
  moreover have "cyc h' l' (A l')" if l': "l' \<noteq> l" for l'
  proof (rule cyc_frame)
    show "cyc h l' (A l')" using assms(1) by (rule heap_cyc)
    fix r assume r: "r \<in> insert (End l') (Item ` set (A l'))"
    have "last (End l # map Item xs) \<in> insert (End l) (Item ` set (A l))" "hd (map Item ys @ [End l]) \<in> insert (End l) (Item ` set (A l))"
      unfolding assms(3) by (cases xs rule: rev_cases; auto) (cases ys; auto)
    moreover have "r \<notin> insert (End l) (Item ` set (A l))" using r l' heap_disjoint[OF assms(1), of _ l l'] by auto
    ultimately have "r \<noteq> last (End l # map Item xs)" "r \<noteq> hd (map Item ys @ [End l])" "r \<noteq> Item i" using r n[of l'] by (metis, metis, auto)
    then show "pxNext h' r = pxNext h r \<and> pxPrevious h' r = pxPrevious h r" unfolding assms(4,5) by (simp only: fun_upd_other simp_thms not_False_eq_True)
  qed (use l' assms(6-8) in auto)
  moreover have "pvContainer h' j = Some l' \<longleftrightarrow> j \<in> set ((A(l := xs @ i # ys)) l')" for j l'
    using heap_cont[OF assms(1), of j l'] assms(3,9) n[of l'] by auto
  ultimately show ?thesis by (simp add: heap_ok_def)
qed

lemma heap_remove:
  assumes "heap_ok h A" and "A l = xs @ i # ys"
    and "pxNext h' = (pxNext h)(last (End l # map Item xs) := hd (map Item ys @ [End l]))"
    and "pxPrevious h' = (pxPrevious h)(hd (map Item ys @ [End l]) := last (End l # map Item xs))"
    and "xItemValue h' = xItemValue h" and "uxNumberOfItems h' = (uxNumberOfItems h)(l := uxNumberOfItems h l - 1)"
    and "pxIndex h' = (pxIndex h)(l := if pxIndex h l = Item i then last (End l # map Item xs) else pxIndex h l)"
    and "pvContainer h' = (pvContainer h)(i := None)"
  shows "heap_ok h' (A(l := xs @ ys))"
proof -
  have c: "cyc h l (xs @ i # ys)" using heap_cyc[OF assms(1), of l] assms(2) by simp
  have d: "distinct (A l)" using assms(1) by (rule heap_facts)
  have "cyc h' l (xs @ ys)" by (rule cyc_remove[OF c assms(3,4)]) (simp_all only: assms(5-7) fun_upd_same)
  moreover have "cyc h' l' (A l')" if l': "l' \<noteq> l" for l'
  proof (rule cyc_frame)
    show "cyc h l' (A l')" using assms(1) by (rule heap_cyc)
    fix r assume r: "r \<in> insert (End l') (Item ` set (A l'))"
    have "last (End l # map Item xs) \<in> insert (End l) (Item ` set (A l))" "hd (map Item ys @ [End l]) \<in> insert (End l) (Item ` set (A l))"
      unfolding assms(2) by (cases xs rule: rev_cases; auto) (cases ys; auto)
    moreover have "r \<notin> insert (End l) (Item ` set (A l))" using r l' heap_disjoint[OF assms(1), of _ l l'] by auto
    ultimately have "r \<noteq> last (End l # map Item xs)" "r \<noteq> hd (map Item ys @ [End l])" by (metis, metis)
    then show "pxNext h' r = pxNext h r \<and> pxPrevious h' r = pxPrevious h r" unfolding assms(3,4) by (simp only: fun_upd_other simp_thms not_False_eq_True)
  qed (use l' assms(5-7) in auto)
  moreover have "pvContainer h' j = Some l' \<longleftrightarrow> j \<in> set ((A(l := xs @ ys)) l')" for j l'
  proof (cases "l' = l")
    case True
    have "set (xs @ ys) = set (A l) - {i}" using d assms(2) by auto
    then show ?thesis using heap_cont[OF assms(1), of j l] True by (simp add: assms(8))
  next
    case False
    then have "i \<notin> set (A l')" using heap_disjoint[OF assms(1), of i l l'] assms(2) by auto
    then show ?thesis using heap_cont[OF assms(1), of j l'] False by (auto simp: assms(8))
  qed
  ultimately show ?thesis by (simp add: heap_ok_def)
qed

text \<open>Where the three operations put an item, or take it from.\<close>

definition ins_end :: "('l, 'i) lref \<Rightarrow> 'i \<Rightarrow> 'i list \<Rightarrow> 'i list" where
  "ins_end r i is = (case r of End _ \<Rightarrow> is @ [i] | Item j \<Rightarrow> takeWhile (\<lambda>k. k \<noteq> j) is @ i # dropWhile (\<lambda>k. k \<noteq> j) is)"

definition ins_val :: "('i \<Rightarrow> 32 word) \<Rightarrow> 'i \<Rightarrow> 'i list \<Rightarrow> 'i list" where
  "ins_val f i is = takeWhile (\<lambda>j. f j \<le> f i) is @ i # dropWhile (\<lambda>j. f j \<le> f i) is"

lemma ins_end_set: "set (ins_end r i is) = insert i (set is)"
proof (cases r)
  case (Item j)
  have "set is = set (takeWhile (\<lambda>k. k \<noteq> j) is) \<union> set (dropWhile (\<lambda>k. k \<noteq> j) is)" by (metis set_append takeWhile_dropWhile_id)
  then show ?thesis using Item by (auto simp: ins_end_def)
qed (simp add: ins_end_def)

lemma ins_val_set: "set (ins_val f i is) = insert i (set is)"
proof -
  have "set is = set (takeWhile (\<lambda>j. f j \<le> f i) is) \<union> set (dropWhile (\<lambda>j. f j \<le> f i) is)" by (metis set_append takeWhile_dropWhile_id)
  then show ?thesis by (auto simp: ins_val_def)
qed

lemma dropWhile_greater: "sorted (map f is) \<Longrightarrow> y \<in> set (dropWhile (\<lambda>j. f j \<le> v) is) \<Longrightarrow> v < f y" for v :: "'a :: linorder"
  by (induction "is") (auto split: if_splits)

lemma ins_val_sorted:
  assumes "sorted (map f is)"
  shows "sorted (map f (ins_val f i is))"
proof -
  let ?t = "takeWhile (\<lambda>j. f j \<le> f i) is" and ?d = "dropWhile (\<lambda>j. f j \<le> f i) is"
  have "sorted (map f ?t @ map f ?d)" using assms by (metis map_append takeWhile_dropWhile_id)
  then have s: "sorted (map f ?t)" "sorted (map f ?d)" by (simp_all only: sorted_append)
  have le: "x \<in> set ?t \<Longrightarrow> f x \<le> f i" for x by (drule set_takeWhileD) simp
  have ge: "y \<in> set ?d \<Longrightarrow> f i \<le> f y" for y using dropWhile_greater[OF assms] less_imp_le by blast
  have "sorted (f i # map f ?d)" using s(2) ge by simp
  moreover have "\<forall>x \<in> set (map f ?t). \<forall>y \<in> set (f i # map f ?d). x \<le> y" using le ge order_trans by fastforce
  ultimately show ?thesis using s(1) by (simp only: ins_val_def map_append list.map sorted_append simp_thms)
qed

lemma hd_dropWhile_item: "j \<in> set is \<Longrightarrow> hd (map Item (dropWhile (\<lambda>k. k \<noteq> j) is)) = Item j"
  by (induction "is") auto

lemma vListInsertEnd_fields:
  assumes "pxIndex h l \<noteq> Item i"
  shows "pxNext (vListInsertEnd l i h) = (pxNext h)(Item i := pxIndex h l, pxPrevious h (pxIndex h l) := Item i)"
    "pxPrevious (vListInsertEnd l i h) = (pxPrevious h)(Item i := pxPrevious h (pxIndex h l), pxIndex h l := Item i)"
    "xItemValue (vListInsertEnd l i h) = xItemValue h" "pvOwner (vListInsertEnd l i h) = pvOwner h" "pxIndex (vListInsertEnd l i h) = pxIndex h"
    "uxNumberOfItems (vListInsertEnd l i h) = (uxNumberOfItems h)(l := uxNumberOfItems h l + 1)"
    "pvContainer (vListInsertEnd l i h) = (pvContainer h)(i := Some l)"
  using assms by (simp_all add: vListInsertEnd_def Let_def)

lemma insert_end_ok:
  assumes "heap_ok h A" and "pvContainer h i = None"
  shows "heap_ok (vListInsertEnd l i h) (A(l := ins_end (pxIndex h l) i (A l)))"
proof -
  let ?r = "pxIndex h l"
  obtain xs ys where s: "A l = xs @ ys" "ins_end ?r i (A l) = xs @ i # ys" "hd (map Item ys @ [End l]) = ?r"
  proof (cases "?r = End l")
    case True
    then show ?thesis using that[of "A l" "[]"] by (simp add: ins_end_def)
  next
    case False
    then obtain j where j: "j \<in> set (A l)" "?r = Item j" using heap_index[OF assms(1), of l] by blast
    then show ?thesis using that[of "takeWhile (\<lambda>k. k \<noteq> j) (A l)" "dropWhile (\<lambda>k. k \<noteq> j) (A l)"] by (simp add: ins_end_def hd_dropWhile_item)
  qed
  have c: "cyc h l (xs @ ys)" using heap_cyc[OF assms(1), of l] s(1) by simp
  have r: "?r \<noteq> Item i" using heap_index[OF assms(1), of l] assms by (auto simp: heap_free)
  show ?thesis unfolding s(2)
    by (rule heap_insert[OF assms s(1)]) (simp_all only: vListInsertEnd_fields[OF r] s(3) cyc_links(2)[OF c, unfolded s(3)])
qed

lemma max_delay: "v \<le> portMAX_DELAY" "portMAX_DELAY \<le> v \<longleftrightarrow> v = portMAX_DELAY"
proof -
  have m: "portMAX_DELAY = - 1" by (simp add: portMAX_DELAY_def)
  show "v \<le> portMAX_DELAY" unfolding m by (rule word_n1_ge)
  then show "portMAX_DELAY \<le> v \<longleftrightarrow> v = portMAX_DELAY" by auto
qed

text \<open>The search for the place ends, at the first item with a greater value or at the end marker.\<close>

lemma insert_position_found:
  assumes "cyc h l (xs @ ys)" and "v \<noteq> portMAX_DELAY"
  shows "insert_position v h (last (End l # map Item xs)) = Some (last (End l # map Item (xs @ takeWhile (\<lambda>j. xItemValue h (Item j) \<le> v) ys)))"
  using assms(1)
proof (induction ys arbitrary: xs)
  case Nil
  have "xItemValue h (End l) = portMAX_DELAY" using Nil by (simp add: cyc_def)
  then show ?case using cyc_links(1)[OF Nil] assms(2) max_delay(2) by (subst insert_position.simps) simp
next
  case (Cons y ys)
  have n: "pxNext h (last (End l # map Item xs)) = Item y" using cyc_links(1)[OF Cons.prems] by simp
  show ?case
  proof (cases "xItemValue h (Item y) \<le> v")
    case True
    have "insert_position v h (last (End l # map Item xs)) = insert_position v h (last (End l # map Item (xs @ [y])))"
      using True n by (subst insert_position.simps) simp
    then show ?thesis using Cons.IH[of "xs @ [y]"] Cons.prems True by simp
  next
    case False
    then show ?thesis using n by (subst insert_position.simps) simp
  qed
qed

lemma insert_iterator:
  fixes l
  assumes "heap_ok h A" and "v = xItemValue h (Item i)"
  defines "xs \<equiv> takeWhile (\<lambda>j. xItemValue h (Item j) \<le> v) (A l)"
  shows "(if v = portMAX_DELAY then Some (pxPrevious h (End l)) else insert_position v h (End l)) = Some (last (End l # map Item xs))"
proof (cases "v = portMAX_DELAY")
  case True
  have "xItemValue h (Item j) \<le> v" for j unfolding True by (rule max_delay(1))
  then have "xs = A l" by (simp add: xs_def)
  then show ?thesis using True cyc_links(2)[of h l "A l" "[]"] heap_cyc[OF assms(1), of l] by simp
next
  case False
  then show ?thesis using insert_position_found[of h l "[]" "A l" v] heap_cyc[OF assms(1), of l] by (simp add: xs_def)
qed

lemma insert_ok:
  assumes "heap_ok h A" and "pvContainer h i = None"
  shows "\<exists>h'. vListInsert l i h = Some h' \<and> heap_ok h' (A(l := ins_val (\<lambda>j. xItemValue h (Item j)) i (A l)))
    \<and> xItemValue h' = xItemValue h \<and> pvOwner h' = pvOwner h \<and> pxIndex h' = pxIndex h \<and> pvContainer h' = (pvContainer h)(i := Some l)"
proof -
  let ?P = "\<lambda>j. xItemValue h (Item j) \<le> xItemValue h (Item i)"
  define xs ys p q where "xs = takeWhile ?P (A l)" and "ys = dropWhile ?P (A l)" and "p = last (End l # map Item xs)" and "q = hd (map Item ys @ [End l])"
  have s: "A l = xs @ ys" by (simp add: xs_def ys_def)
  have c: "cyc h l (xs @ ys)" using heap_cyc[OF assms(1), of l] s by simp
  have "q \<in> insert (End l) (Item ` set (A l))" unfolding s q_def by (cases ys) auto
  then have q: "q \<noteq> Item i" "pxNext h p = q" using assms cyc_links(1)[OF c] by (auto simp: heap_free p_def q_def)
  define h' where "h' = h\<lparr>pxNext := (pxNext h)(Item i := q, p := Item i), pxPrevious := (pxPrevious h)(Item i := p, q := Item i),
    pvContainer := (pvContainer h)(i := Some l), uxNumberOfItems := (uxNumberOfItems h)(l := uxNumberOfItems h l + 1)\<rparr>"
  have "vListInsert l i h = Some h'"
    using insert_iterator[OF assms(1) refl, of i l] q unfolding vListInsert_def Let_def h'_def p_def[symmetric] xs_def[symmetric]
    by (simp add: fun_upd_twist[of q "Item i"])
  moreover have "heap_ok h' (A(l := xs @ i # ys))" by (rule heap_insert[OF assms s]) (simp_all add: h'_def p_def q_def)
  ultimately show ?thesis by (simp add: ins_val_def xs_def ys_def h'_def)
qed

lemma split_at: "i \<in> set is \<Longrightarrow> is = takeWhile (\<lambda>j. j \<noteq> i) is @ i # tl (dropWhile (\<lambda>j. j \<noteq> i) is)"
  by (induction "is") auto

lemma remove_ok:
  assumes "heap_ok h A" and "i \<in> set (A l)"
  shows "\<exists>h'. uxListRemove i h = Some (length (A l) - 1, h') \<and> heap_ok h' (A(l := remove1 i (A l)))
    \<and> xItemValue h' = xItemValue h \<and> pvOwner h' = pvOwner h \<and> pvContainer h' = (pvContainer h)(i := None)
    \<and> pxIndex h' = (pxIndex h)(l := if pxIndex h l = Item i then last (End l # map Item (takeWhile (\<lambda>j. j \<noteq> i) (A l))) else pxIndex h l)"
proof -
  define xs ys where "xs = takeWhile (\<lambda>j. j \<noteq> i) (A l)" and "ys = tl (dropWhile (\<lambda>j. j \<noteq> i) (A l))"
  define p q where "p = last (End l # map Item xs)" and "q = hd (map Item ys @ [End l])"
  have s: "A l = xs @ i # ys" using split_at[OF assms(2)] by (simp add: xs_def ys_def)
  have c: "cyc h l (xs @ i # ys)" using heap_cyc[OF assms(1), of l] s by simp
  have d: "distinct (xs @ i # ys)" using heap_facts(1)[OF assms(1), of l] s by simp
  have "pxNext h (Item i) = q" using cyc_links(1)[of h l "xs @ [i]" ys] c by (simp add: q_def)
  moreover have "pxPrevious h (Item i) = p" using cyc_links(2)[of h l xs "i # ys"] c by (simp add: p_def)
  moreover have "q \<noteq> Item i" using d by (cases ys) (auto simp: q_def)
  moreover have "pvContainer h i = Some l" using assms by (simp add: heap_cont)
  moreover define h' where "h' = h\<lparr>pxNext := (pxNext h)(p := q), pxPrevious := (pxPrevious h)(q := p), pvContainer := (pvContainer h)(i := None),
    uxNumberOfItems := (uxNumberOfItems h)(l := uxNumberOfItems h l - 1), pxIndex := (pxIndex h)(l := if pxIndex h l = Item i then p else pxIndex h l)\<rparr>"
  ultimately have "uxListRemove i h = Some (uxNumberOfItems h l - 1, h')" by (simp add: uxListRemove_def Let_def)
  moreover have "heap_ok h' (A(l := xs @ ys))" by (rule heap_remove[OF assms(1) s]) (simp_all add: h'_def p_def q_def)
  moreover have "remove1 i (A l) = xs @ ys" using d s by (simp add: remove1_append)
  ultimately show ?thesis using heap_facts(2)[OF assms(1), of l] by (simp add: h'_def p_def xs_def)
qed

section \<open>Taking turns\<close>

text \<open>The items of a list in the order their turns come: behind the index first.\<close>

definition turns :: "('l, 'i) lref \<Rightarrow> 'i list \<Rightarrow> 'i list" where
  "turns r is = (case r of End _ \<Rightarrow> is | Item j \<Rightarrow> tl (dropWhile (\<lambda>k. k \<noteq> j) is) @ takeWhile (\<lambda>k. k \<noteq> j) is @ [j])"

lemma turns_split: "distinct (xs @ j # ys) \<Longrightarrow> turns (Item j) (xs @ j # ys) = ys @ xs @ [j]"
proof -
  assume "distinct (xs @ j # ys)"
  then have "\<forall>x \<in> set xs. x \<noteq> j" by auto
  then show ?thesis by (simp add: turns_def takeWhile_append dropWhile_append)
qed

lemma turns_set: "r = End l \<or> (\<exists>j \<in> set is. r = Item j) \<Longrightarrow> distinct is \<Longrightarrow> set (turns r is) = set is \<and> distinct (turns r is) \<and> length (turns r is) = length is"
proof (elim disjE bexE)
  fix j assume j: "j \<in> set is" "r = Item j" "distinct is"
  obtain xs ys where s: "is = xs @ j # ys" using j(1) by (auto simp: in_set_conv_decomp)
  have "turns r is = ys @ xs @ [j]" unfolding j(2) s by (rule turns_split) (use j(3) s in simp)
  then show ?thesis using j(3) s by auto
qed (simp add: turns_def)

lemma next_ok:
  fixes h :: "('l, 'i, 'o) lheap"
  assumes "heap_ok h A" and "A l \<noteq> []"
  shows "\<exists>h' i ts. turns (pxIndex h l) (A l) = i # ts \<and> listGET_OWNER_OF_NEXT_ENTRY l h = Some (pvOwner h i, h') \<and> h' = h\<lparr>pxIndex := (pxIndex h)(l := Item i)\<rparr>
    \<and> i \<in> set (A l) \<and> heap_ok h' A \<and> turns (Item i :: ('l, 'i) lref) (A l) = ts @ [i]"
proof -
  note c = heap_cyc[OF assms(1), of l] and d = heap_facts(1)[OF assms(1), of l]
  obtain i xs ys where i: "A l = xs @ i # ys" "turns (pxIndex h l) (A l) = i # ys @ xs"
      "pxNext h (pxIndex h l) = (if xs = [] \<and> pxIndex h l \<noteq> End l then End l else Item i)" "pxIndex h l \<noteq> End l \<longrightarrow> xs = [] \<longrightarrow> pxNext h (End l) = Item i"
  proof (cases "pxIndex h l = End l")
    case True
    then show ?thesis using that[of "[]" "hd (A l)" "tl (A l)"] cyc_links(1)[of h l "[]" "A l"] c assms(2) by (cases "A l") (simp_all add: turns_def)
  next
    case False
    then obtain j where j: "j \<in> set (A l)" "pxIndex h l = Item j" using heap_index[OF assms(1), of l] by blast
    obtain us vs where u: "A l = us @ j # vs" using j(1) by (auto simp: in_set_conv_decomp)
    have t: "turns (pxIndex h l) (A l) = vs @ us @ [j]" unfolding j(2) u by (rule turns_split) (use d u in simp)
    have n: "pxNext h (Item j) = hd (map Item vs @ [End l])" using cyc_links(1)[of h l "us @ [j]" vs] c u by simp
    show ?thesis
    proof (cases vs)
      case Nil
      have "pxNext h (End l) = Item (hd (us @ [j]))" using cyc_links(1)[of h l "[]" "us @ [j]"] c u Nil by (cases us) simp_all
      then show ?thesis using that[of "[]" "hd (us @ [j])" "tl (us @ [j])"] u t n j(2) Nil by (cases us) simp_all
    next
      case (Cons v vs')
      then show ?thesis using that[of "us @ [j]" v vs'] u t n j(2) by simp
    qed
  qed
  define h' where "h' = h\<lparr>pxIndex := (pxIndex h)(l := Item i)\<rparr>"
  have "listGET_OWNER_OF_NEXT_ENTRY l h = Some (pvOwner h i, h')"
    using i(3,4) by (auto simp: listGET_OWNER_OF_NEXT_ENTRY_def Let_def owner_of_def h'_def)
  moreover have "heap_ok h' A" using assms(1) i(1) by (auto simp: heap_ok_def cyc_def h'_def)
  moreover have "turns (Item i :: ('l, 'i) lref) (A l) = (ys @ xs) @ [i]" unfolding i(1) append_assoc by (rule turns_split) (use d i(1) in simp)
  ultimately show ?thesis using i(1,2) h'_def by auto
qed

lemma head_ok: "heap_ok h A \<Longrightarrow> listGET_OWNER_OF_HEAD_ENTRY l h = (case A l of [] \<Rightarrow> None | i # _ \<Rightarrow> Some (pvOwner h i))"
  using cyc_links(1)[of h l "[]" "A l"] heap_cyc[of h A l] by (cases "A l") (simp_all add: listGET_OWNER_OF_HEAD_ENTRY_def owner_of_def)

text \<open>A source whose answers come round in a fixed order: what as many calls as there are participants return.\<close>

fun nexts :: "('h \<Rightarrow> ('o \<times> 'h) option) \<Rightarrow> nat \<Rightarrow> 'h \<Rightarrow> ('o list \<times> 'h) option" where
  "nexts nxt 0 h = Some ([], h)"
| "nexts nxt (Suc n) h = (case nxt h of None \<Rightarrow> None | Some (x, h') \<Rightarrow> map_option (\<lambda>(xs, h''). (x # xs, h'')) (nexts nxt n h'))"

locale round_robin =
  fixes ok :: "'h \<Rightarrow> bool" and order :: "'h \<Rightarrow> 'o list" and nxt :: "'h \<Rightarrow> ('o \<times> 'h) option"
  assumes turn: "ok h \<Longrightarrow> order h = x # xs \<Longrightarrow> \<exists>h'. nxt h = Some (x, h') \<and> ok h' \<and> order h' = xs @ [x]"
begin

lemma nexts_order:
  assumes "ok h" and "order h = xs @ ys"
  shows "\<exists>h'. nexts nxt (length xs) h = Some (xs, h') \<and> ok h' \<and> order h' = ys @ xs"
  using assms
proof (induction xs arbitrary: h ys)
  case (Cons x xs)
  obtain h1 where h1: "nxt h = Some (x, h1)" "ok h1" "order h1 = xs @ (ys @ [x])" using turn[of h x "xs @ ys"] Cons.prems by auto
  then show ?case using Cons.IH[OF h1(2,3)] by auto
qed simp

lemma one_round: "ok h \<Longrightarrow> \<exists>h'. nexts nxt (length (order h)) h = Some (order h, h') \<and> ok h' \<and> order h' = order h"
  using nexts_order[of h "order h" "[]"] by simp

end

interpretation lists: round_robin "\<lambda>h. heap_ok h A" "\<lambda>h. map (pvOwner h) (turns (pxIndex h l) (A l))" "listGET_OWNER_OF_NEXT_ENTRY l"
  for A :: "'l \<Rightarrow> 'i list" and l :: 'l
proof
  fix h :: "('l, 'i, 'o) lheap" and x xs
  assume h: "heap_ok h A" and x: "map (pvOwner h) (turns (pxIndex h l) (A l)) = x # xs"
  have "A l \<noteq> []" using x heap_index[OF h, of l] by (auto simp: turns_def)
  then show "\<exists>h'. listGET_OWNER_OF_NEXT_ENTRY l h = Some (x, h') \<and> heap_ok h' A \<and> map (pvOwner h') (turns (pxIndex h' l) (A l)) = xs @ [x]"
    using next_ok[OF h, of l] x by auto
qed

theorem list_round_robin:
  assumes "heap_ok h A"
  shows "\<exists>h' is. nexts (listGET_OWNER_OF_NEXT_ENTRY l) (length (A l)) h = Some (map (pvOwner h) is, h') \<and> heap_ok h' A
    \<and> set is = set (A l) \<and> distinct is \<and> length is = length (A l)"
proof -
  have "set (turns (pxIndex h l) (A l)) = set (A l) \<and> distinct (turns (pxIndex h l) (A l)) \<and> length (turns (pxIndex h l) (A l)) = length (A l)"
    using heap_index[OF assms, of l] heap_facts(1)[OF assms, of l] by (intro turns_set) auto
  then show ?thesis using lists.one_round[OF assms, of l] by auto
qed

text \<open>A new item gets its turn behind all others, but for the item at the index, whose turn it has just been.\<close>

lemma turns_ins_end:
  assumes "r = End l \<or> (\<exists>j \<in> set is. r = Item j)" and "distinct is" and "i \<notin> set is"
  shows "\<exists>us vs. turns r is = us @ vs \<and> length vs \<le> 1 \<and> turns r (ins_end r i is) = us @ i # vs"
  using assms(1)
proof (elim disjE bexE)
  assume "r = End l"
  then show ?thesis by (intro exI[of _ "is"] exI[of _ "[]"]) (simp add: turns_def ins_end_def)
next
  fix j assume j: "j \<in> set is" "r = Item j"
  obtain xs ys where s: "is = xs @ j # ys" using j(1) by (auto simp: in_set_conv_decomp)
  have nj: "\<forall>x \<in> set xs. x \<noteq> j" using assms(2) s by auto
  have "turns r is = ys @ xs @ [j]" unfolding j(2) s by (rule turns_split) (use assms(2) s in simp)
  moreover have "ins_end r i is = (xs @ [i]) @ j # ys" using j(2) s nj by (simp add: ins_end_def takeWhile_append dropWhile_append)
  moreover have "turns r ((xs @ [i]) @ j # ys) = ys @ (xs @ [i]) @ [j]" unfolding j(2) by (rule turns_split) (use assms(2,3) s in auto)
  ultimately show ?thesis by (intro exI[of _ "ys @ xs"] exI[of _ "[j]"]) simp
qed

definition empty_lists :: "(nat, nat, nat) lheap" where
  "empty_lists = \<lparr>xItemValue = (\<lambda>r. case r of Item i \<Rightarrow> of_nat i | End _ \<Rightarrow> portMAX_DELAY), pxNext = (\<lambda>r. r), pxPrevious = (\<lambda>r. r), pvOwner = (\<lambda>i. i), pvContainer = (\<lambda>_. None), pxIndex = End,
     uxNumberOfItems = (\<lambda>_. 0)\<rparr>"

lemma empty_lists_ok: "heap_ok empty_lists (\<lambda>_. [])"
  by (simp add: heap_ok_def cyc_def empty_lists_def)

text \<open>C22: The operations on the linked lists, on every heap of well-linked lists: an item that is in no list is added so that its turn comes behind all others but the
  one at the index, or behind the last item whose value is not greater, and the search for that place ends and keeps a list sorted that was; and an item is
  taken out of its list, with the number of those left as the result. All other lists keep their items.\<close>

theorem lists_refined:
  assumes "heap_ok h A"
  shows "(pvContainer h i = None \<longrightarrow> (\<exists>is us vs. heap_ok (vListInsertEnd l i h) (A(l := is)) \<and> set is = insert i (set (A l))
           \<and> turns (pxIndex h l) (A l) = us @ vs \<and> length vs \<le> 1 \<and> turns (pxIndex h l) is = us @ i # vs))
    \<and> (pvContainer h i = None \<longrightarrow> (\<exists>h'. vListInsert l i h = Some h' \<and> heap_ok h' (A(l := ins_val (\<lambda>j. xItemValue h (Item j)) i (A l))) \<and> xItemValue h' = xItemValue h
           \<and> (sorted (map (\<lambda>j. xItemValue h (Item j)) (A l)) \<longrightarrow> sorted (map (\<lambda>j. xItemValue h (Item j)) (ins_val (\<lambda>j. xItemValue h (Item j)) i (A l))))))
    \<and> (i \<in> set (A l) \<longrightarrow> (\<exists>h'. uxListRemove i h = Some (length (A l) - 1, h') \<and> heap_ok h' (A(l := remove1 i (A l))) \<and> xItemValue h' = xItemValue h))"
proof (intro conjI impI)
  assume f: "pvContainer h i = None"
  then have "i \<notin> set (A l)" using heap_free[OF assms] by blast
  from turns_ins_end[OF _ heap_facts(1)[OF assms] this, of "pxIndex h l" l] heap_index[OF assms, of l]
  show "\<exists>is us vs. heap_ok (vListInsertEnd l i h) (A(l := is)) \<and> set is = insert i (set (A l)) \<and> turns (pxIndex h l) (A l) = us @ vs \<and> length vs \<le> 1 \<and> turns (pxIndex h l) is = us @ i # vs"
    using insert_end_ok[OF assms f, of l] ins_end_set[of "pxIndex h l" i "A l"] by blast
next
  assume "pvContainer h i = None"
  then show "\<exists>h'. vListInsert l i h = Some h' \<and> heap_ok h' (A(l := ins_val (\<lambda>j. xItemValue h (Item j)) i (A l))) \<and> xItemValue h' = xItemValue h
      \<and> (sorted (map (\<lambda>j. xItemValue h (Item j)) (A l)) \<longrightarrow> sorted (map (\<lambda>j. xItemValue h (Item j)) (ins_val (\<lambda>j. xItemValue h (Item j)) i (A l))))"
    using insert_ok[OF assms, of i l] ins_val_sorted[of "\<lambda>j. xItemValue h (Item j)" "A l" i] by blast
next
  assume "i \<in> set (A l)"
  then show "\<exists>h'. uxListRemove i h = Some (length (A l) - 1, h') \<and> heap_ok h' (A(l := remove1 i (A l))) \<and> xItemValue h' = xItemValue h"
    using remove_ok[OF assms] by blast
qed

theorem lists_refined_witness: "\<exists>h' is. heap_ok (vListInsertEnd 0 5 empty_lists) ((\<lambda>_. [])(0 := is)) \<and> set is = {5} \<and> vListInsert 0 5 empty_lists = Some h' \<and> heap_ok h' ((\<lambda>_. [])(0 := [5]))"
  using lists_refined[OF empty_lists_ok, of 5 0] by (auto simp: empty_lists_def ins_val_def)

end
