(* ===== verification/KTasks.thy ===== *)
theory KTasks
  imports KList
begin

text \<open>
  The task scheduler of the kernel, \<^verbatim>\<open>src/FreeRTOS/Source/tasks.c\<close>, in the configuration of \<^verbatim>\<open>include/FreeRTOSConfig.h\<close>: preemption and time
  slicing, 32-bit ticks, 15 priorities, mutexes, no tick hook, assertions compiled out. The state holds the file-scope variables, the task
  control blocks that are allocated, and the heap of lists; a task is the address of its control block. A yield only requests the software interrupt
  (\<^verbatim>\<open>PendSV\<close>), which switches the context later. \<open>None\<close> is the result of following a null or dangling pointer, of an access behind
  the array of ready lists, and of a loop that does not end. Stacks are left out, and with them the check for their overflow.
\<close>

datatype klist = pxReadyTasksLists nat | xDelayedTaskList1 | xDelayedTaskList2 | xPendingReadyList | xTasksWaitingTermination | xSuspendedTaskList
  | xEventList nat

datatype titem = xGenericListItem nat | xEventListItem nat

type_synonym kheap = "(klist, titem, nat) lheap"

record tskTCB =
  uxPriority :: nat
  uxBasePriority :: nat
  pcTaskName :: "byte list"

record kernel =
  pxCurrentTCB :: "nat option"
  heap :: kheap
  tcbs :: "nat \<Rightarrow> tskTCB option"
  pxDelayedTaskList :: klist
  pxOverflowDelayedTaskList :: klist
  uxTasksDeleted :: nat
  xIdleTaskHandle :: "nat option"
  uxCurrentNumberOfTasks :: nat
  xTickCount :: "32 word"
  uxTopReadyPriority :: nat
  xSchedulerRunning :: bool
  uxSchedulerSuspended :: nat
  uxPendedTicks :: nat
  xYieldPending :: bool
  xNumOfOverflows :: int
  uxTaskNumber :: nat
  xNextTaskUnblockTime :: "32 word"
  pending_soft_sv :: bool

definition configMAX_PRIORITIES :: nat where "configMAX_PRIORITIES = 15"
definition configMAX_TASK_NAME_LEN :: nat where "configMAX_TASK_NAME_LEN = 16"
definition tskIDLE_PRIORITY :: nat where "tskIDLE_PRIORITY = 0"

definition portYIELD_WITHIN_API :: "kernel \<Rightarrow> kernel" where
  "portYIELD_WITHIN_API k = k\<lparr>pending_soft_sv := True\<rparr>"

definition yield_if :: "bool \<Rightarrow> kernel \<Rightarrow> kernel" where
  "yield_if b k = (if b then portYIELD_WITHIN_API k else k)"

section \<open>Access to lists and control blocks\<close>

definition remove_item :: "titem \<Rightarrow> kernel \<Rightarrow> kernel option" where
  "remove_item i k = map_option (\<lambda>(_, h). k\<lparr>heap := h\<rparr>) (uxListRemove i (heap k))"

definition remove_event_item :: "nat \<Rightarrow> kernel \<Rightarrow> kernel option" where
  "remove_event_item t k =
     (if listLIST_ITEM_CONTAINER (xEventListItem t) (heap k) \<noteq> None then remove_item (xEventListItem t) k else Some k)"

definition append_item :: "klist \<Rightarrow> titem \<Rightarrow> kernel \<Rightarrow> kernel" where
  "append_item l i k = k\<lparr>heap := vListInsertEnd l i (heap k)\<rparr>"

definition insert_item :: "klist \<Rightarrow> titem \<Rightarrow> kernel \<Rightarrow> kernel option" where
  "insert_item l i k = map_option (\<lambda>h. k\<lparr>heap := h\<rparr>) (vListInsert l i (heap k))"

definition priority_of :: "nat \<Rightarrow> kernel \<Rightarrow> nat option" where
  "priority_of t k = map_option uxPriority (tcbs k t)"

definition current_priority :: "kernel \<Rightarrow> nat option" where
  "current_priority k = do { c \<leftarrow> pxCurrentTCB k; priority_of c k }"

definition set_event_value :: "nat \<Rightarrow> nat \<Rightarrow> kernel \<Rightarrow> kernel" where
  "set_event_value t prio k = k\<lparr>heap := listSET_LIST_ITEM_VALUE (xEventListItem t) (of_nat configMAX_PRIORITIES - of_nat prio) (heap k)\<rparr>"

definition prvGetTCBFromHandle :: "nat option \<Rightarrow> kernel \<Rightarrow> nat option" where
  "prvGetTCBFromHandle handle k = (case handle of None \<Rightarrow> pxCurrentTCB k | Some t \<Rightarrow> Some t)"

definition prvAddTaskToReadyList :: "nat \<Rightarrow> kernel \<Rightarrow> kernel option" where
  "prvAddTaskToReadyList t k =
     do {
       p \<leftarrow> priority_of t k;
       let k1 = (if p > uxTopReadyPriority k then k\<lparr>uxTopReadyPriority := p\<rparr> else k);
       if p < configMAX_PRIORITIES then Some (append_item (pxReadyTasksLists p) (xGenericListItem t) k1) else None
     }"

section \<open>Switching\<close>

text \<open>Going below priority 0 leaves the array of ready lists.\<close>

fun top_ready :: "kheap \<Rightarrow> nat \<Rightarrow> nat option" where
  "top_ready h 0 = (if listLIST_IS_EMPTY (pxReadyTasksLists 0) h then None else Some 0)"
| "top_ready h (Suc p) = (if listLIST_IS_EMPTY (pxReadyTasksLists (Suc p)) h then top_ready h p else Some (Suc p))"

definition taskSELECT_HIGHEST_PRIORITY_TASK :: "kernel \<Rightarrow> kernel option" where
  "taskSELECT_HIGHEST_PRIORITY_TASK k =
     do {
       top \<leftarrow> top_ready (heap k) (uxTopReadyPriority k);
       (t, h) \<leftarrow> listGET_OWNER_OF_NEXT_ENTRY (pxReadyTasksLists top) (heap k);
       Some (k\<lparr>uxTopReadyPriority := top, heap := h, pxCurrentTCB := Some t\<rparr>)
     }"

definition vTaskSwitchContext :: "kernel \<Rightarrow> kernel option" where
  "vTaskSwitchContext k = (if uxSchedulerSuspended k \<noteq> 0 then Some (k\<lparr>xYieldPending := True\<rparr>) else taskSELECT_HIGHEST_PRIORITY_TASK k)"

section \<open>Ticks\<close>

definition head_wake_time :: "kernel \<Rightarrow> 32 word option" where
  "head_wake_time k =
     map_option (\<lambda>t. listGET_LIST_ITEM_VALUE (xGenericListItem t) (heap k)) (listGET_OWNER_OF_HEAD_ENTRY (pxDelayedTaskList k) (heap k))"

definition taskSWITCH_DELAYED_LISTS :: "kernel \<Rightarrow> kernel option" where
  "taskSWITCH_DELAYED_LISTS k =
     (let k1 = k\<lparr>pxDelayedTaskList := pxOverflowDelayedTaskList k, pxOverflowDelayedTaskList := pxDelayedTaskList k,
                 xNumOfOverflows := xNumOfOverflows k + 1\<rparr> in
      if listLIST_IS_EMPTY (pxDelayedTaskList k1) (heap k1) then Some (k1\<lparr>xNextTaskUnblockTime := portMAX_DELAY\<rparr>)
      else do { v \<leftarrow> head_wake_time k1; Some (k1\<lparr>xNextTaskUnblockTime := v\<rparr>) })"

definition unblock_task :: "nat \<Rightarrow> kernel \<Rightarrow> kernel option" where
  "unblock_task t k = do { k1 \<leftarrow> remove_item (xGenericListItem t) k; k2 \<leftarrow> remove_event_item t k1; prvAddTaskToReadyList t k2 }"

partial_function (option) unblock_loop :: "bool \<Rightarrow> kernel \<Rightarrow> (bool \<times> kernel) option" where
  "unblock_loop switch k =
     (if listLIST_IS_EMPTY (pxDelayedTaskList k) (heap k) then Some (switch, k\<lparr>xNextTaskUnblockTime := portMAX_DELAY\<rparr>)
      else do {
        t \<leftarrow> listGET_OWNER_OF_HEAD_ENTRY (pxDelayedTaskList k) (heap k);
        let v = listGET_LIST_ITEM_VALUE (xGenericListItem t) (heap k);
        if xTickCount k < v then Some (switch, k\<lparr>xNextTaskUnblockTime := v\<rparr>)
        else do {
          k1 \<leftarrow> unblock_task t k;
          p \<leftarrow> priority_of t k1;
          c \<leftarrow> current_priority k1;
          unblock_loop (switch \<or> p \<ge> c) k1
        }
      })"

definition xTaskIncrementTick :: "kernel \<Rightarrow> (bool \<times> kernel) option" where
  "xTaskIncrementTick k =
     (if uxSchedulerSuspended k = 0 then
        do {
          let k1 = k\<lparr>xTickCount := xTickCount k + 1\<rparr>;
          k2 \<leftarrow> (if xTickCount k1 = 0 then taskSWITCH_DELAYED_LISTS k1 else Some k1);
          (switch, k3) \<leftarrow> (if xTickCount k2 \<ge> xNextTaskUnblockTime k2 then unblock_loop False k2 else Some (False, k2));
          c \<leftarrow> current_priority k3;
          Some (switch \<or> listCURRENT_LIST_LENGTH (pxReadyTasksLists c) (heap k3) > 1, k3)
        }
      else Some (False, k\<lparr>uxPendedTicks := u32 (uxPendedTicks k + 1)\<rparr>))"

section \<open>Suspending the scheduler\<close>

definition vTaskSuspendAll :: "kernel \<Rightarrow> kernel" where
  "vTaskSuspendAll k = k\<lparr>uxSchedulerSuspended := u32 (uxSchedulerSuspended k + 1)\<rparr>"

partial_function (option) pending_loop :: "bool \<Rightarrow> kernel \<Rightarrow> (bool \<times> kernel) option" where
  "pending_loop yield k =
     (if listLIST_IS_EMPTY xPendingReadyList (heap k) then Some (yield, k)
      else do {
        t \<leftarrow> listGET_OWNER_OF_HEAD_ENTRY xPendingReadyList (heap k);
        k1 \<leftarrow> remove_item (xEventListItem t) k;
        k2 \<leftarrow> remove_item (xGenericListItem t) k1;
        k3 \<leftarrow> prvAddTaskToReadyList t k2;
        p \<leftarrow> priority_of t k3;
        c \<leftarrow> current_priority k3;
        pending_loop (yield \<or> p \<ge> c) k3
      })"

partial_function (option) pended_loop :: "bool \<Rightarrow> kernel \<Rightarrow> (bool \<times> kernel) option" where
  "pended_loop yield k =
     (if uxPendedTicks k > 0 then
        do { (s, k1) \<leftarrow> xTaskIncrementTick k; pended_loop (yield \<or> s) (k1\<lparr>uxPendedTicks := uxPendedTicks k1 - 1\<rparr>) }
      else Some (yield, k))"

text \<open>The count of suspensions is unsigned: resuming without a suspension wraps it and leaves the scheduler suspended.\<close>

definition xTaskResumeAll :: "kernel \<Rightarrow> (bool \<times> kernel) option" where
  "xTaskResumeAll k =
     (let k1 = k\<lparr>uxSchedulerSuspended := sub32 (uxSchedulerSuspended k) 1\<rparr> in
      if uxSchedulerSuspended k1 = 0 \<and> uxCurrentNumberOfTasks k1 > 0 then
        do {
          (y1, k2) \<leftarrow> pending_loop False k1;
          (y2, k3) \<leftarrow> pended_loop y1 k2;
          if y2 \<or> xYieldPending k3 then Some (True, portYIELD_WITHIN_API (k3\<lparr>xYieldPending := False\<rparr>)) else Some (False, k3)
        }
      else Some (False, k1))"

section \<open>Blocking\<close>

definition prvAddCurrentTaskToDelayedList :: "32 word \<Rightarrow> kernel \<Rightarrow> kernel option" where
  "prvAddCurrentTaskToDelayedList xTimeToWake k =
     do {
       c \<leftarrow> pxCurrentTCB k;
       let k1 = k\<lparr>heap := listSET_LIST_ITEM_VALUE (xGenericListItem c) xTimeToWake (heap k)\<rparr>;
       if xTimeToWake < xTickCount k1 then insert_item (pxOverflowDelayedTaskList k1) (xGenericListItem c) k1
       else do {
         k2 \<leftarrow> insert_item (pxDelayedTaskList k1) (xGenericListItem c) k1;
         Some (if xTimeToWake < xNextTaskUnblockTime k2 then k2\<lparr>xNextTaskUnblockTime := xTimeToWake\<rparr> else k2)
       }
     }"

definition delay_current :: "32 word \<Rightarrow> kernel \<Rightarrow> kernel option" where
  "delay_current xTimeToWake k =
     do { c \<leftarrow> pxCurrentTCB k; k1 \<leftarrow> remove_item (xGenericListItem c) k; prvAddCurrentTaskToDelayedList xTimeToWake k1 }"

definition vTaskDelay :: "32 word \<Rightarrow> kernel \<Rightarrow> kernel option" where
  "vTaskDelay xTicksToDelay k =
     do {
       (yielded, k1) \<leftarrow>
         (if xTicksToDelay > 0 then do { let s = vTaskSuspendAll k; k0 \<leftarrow> delay_current (xTickCount s + xTicksToDelay) s; xTaskResumeAll k0 } else Some (False, k));
       Some (yield_if (\<not> yielded) k1)
     }"

definition should_delay :: "32 word \<Rightarrow> 32 word \<Rightarrow> 32 word \<Rightarrow> bool" where
  "should_delay previous wake tick =
     (if tick < previous then wake < previous \<and> wake > tick else wake < previous \<or> wake > tick)"

definition vTaskDelayUntil :: "32 word \<Rightarrow> 32 word \<Rightarrow> kernel \<Rightarrow> (32 word \<times> kernel) option" where
  "vTaskDelayUntil xPreviousWakeTime xTimeIncrement k =
     do {
       let s = vTaskSuspendAll k;
       let wake = xPreviousWakeTime + xTimeIncrement;
       k0 \<leftarrow> (if should_delay xPreviousWakeTime wake (xTickCount s) then delay_current wake s else Some s);
       (yielded, k1) \<leftarrow> xTaskResumeAll k0;
       Some (wake, yield_if (\<not> yielded) k1)
     }"

section \<open>Waiting for events\<close>

definition vTaskPlaceOnEventList :: "klist \<Rightarrow> 32 word \<Rightarrow> kernel \<Rightarrow> kernel option" where
  "vTaskPlaceOnEventList pxEventList xTicksToWait k =
     do {
       c \<leftarrow> pxCurrentTCB k;
       k1 \<leftarrow> insert_item pxEventList (xEventListItem c) k;
       k2 \<leftarrow> remove_item (xGenericListItem c) k1;
       if xTicksToWait = portMAX_DELAY then Some (append_item xSuspendedTaskList (xGenericListItem c) k2)
       else prvAddCurrentTaskToDelayedList (xTickCount k2 + xTicksToWait) k2
     }"

definition vTaskPlaceOnEventListRestricted :: "klist \<Rightarrow> 32 word \<Rightarrow> kernel \<Rightarrow> kernel option" where
  "vTaskPlaceOnEventListRestricted pxEventList xTicksToWait k =
     do {
       c \<leftarrow> pxCurrentTCB k;
       k2 \<leftarrow> remove_item (xGenericListItem c) (append_item pxEventList (xEventListItem c) k);
       prvAddCurrentTaskToDelayedList (xTickCount k2 + xTicksToWait) k2
     }"

definition xTaskRemoveFromEventList :: "klist \<Rightarrow> kernel \<Rightarrow> (bool \<times> kernel) option" where
  "xTaskRemoveFromEventList pxEventList k =
     do {
       t \<leftarrow> listGET_OWNER_OF_HEAD_ENTRY pxEventList (heap k);
       k1 \<leftarrow> remove_item (xEventListItem t) k;
       k2 \<leftarrow> (if uxSchedulerSuspended k1 = 0 then do { k' \<leftarrow> remove_item (xGenericListItem t) k1; prvAddTaskToReadyList t k' }
             else Some (append_item xPendingReadyList (xEventListItem t) k1));
       p \<leftarrow> priority_of t k2;
       c \<leftarrow> current_priority k2;
       Some (p \<ge> c, k2)
     }"

record xTimeOutType =
  xOverflowCount :: int
  xTimeOnEntering :: "32 word"

definition vTaskSetTimeOutState :: "kernel \<Rightarrow> xTimeOutType" where
  "vTaskSetTimeOutState k = \<lparr>xOverflowCount = xNumOfOverflows k, xTimeOnEntering = xTickCount k\<rparr>"

text \<open>The result, the structure and the ticks left to wait.\<close>

definition xTaskCheckForTimeOut :: "xTimeOutType \<Rightarrow> 32 word \<Rightarrow> kernel \<Rightarrow> bool \<times> xTimeOutType \<times> 32 word" where
  "xTaskCheckForTimeOut pxTimeOut xTicksToWait k =
     (if xTicksToWait = portMAX_DELAY then (False, pxTimeOut, xTicksToWait)
      else if xNumOfOverflows k \<noteq> xOverflowCount pxTimeOut \<and> xTickCount k \<ge> xTimeOnEntering pxTimeOut then (True, pxTimeOut, xTicksToWait)
      else if xTickCount k - xTimeOnEntering pxTimeOut < xTicksToWait then
        (False, vTaskSetTimeOutState k, xTicksToWait - (xTickCount k - xTimeOnEntering pxTimeOut))
      else (True, pxTimeOut, xTicksToWait))"

definition vTaskMissedYield :: "kernel \<Rightarrow> kernel" where
  "vTaskMissedYield k = k\<lparr>xYieldPending := True\<rparr>"

section \<open>Suspending and resuming tasks\<close>

definition vTaskSuspend :: "nat option \<Rightarrow> kernel \<Rightarrow> kernel option" where
  "vTaskSuspend xTaskToSuspend k =
     do {
       t \<leftarrow> prvGetTCBFromHandle xTaskToSuspend k;
       k1 \<leftarrow> remove_item (xGenericListItem t) k;
       k2 \<leftarrow> remove_event_item t k1;
       let k3 = append_item xSuspendedTaskList (xGenericListItem t) k2;
       if pxCurrentTCB k3 = Some t then
         if xSchedulerRunning k3 then Some (portYIELD_WITHIN_API k3)
         else if listCURRENT_LIST_LENGTH xSuspendedTaskList (heap k3) = uxCurrentNumberOfTasks k3 then Some (k3\<lparr>pxCurrentTCB := None\<rparr>)
         else vTaskSwitchContext k3
       else Some k3
     }"

definition xTaskIsTaskSuspended :: "nat \<Rightarrow> kernel \<Rightarrow> bool" where
  "xTaskIsTaskSuspended t k \<longleftrightarrow>
     listIS_CONTAINED_WITHIN (Some xSuspendedTaskList) (xGenericListItem t) (heap k)
     \<and> \<not> listIS_CONTAINED_WITHIN (Some xPendingReadyList) (xEventListItem t) (heap k)
     \<and> listIS_CONTAINED_WITHIN None (xEventListItem t) (heap k)"

definition vTaskResume :: "nat option \<Rightarrow> kernel \<Rightarrow> kernel option" where
  "vTaskResume xTaskToResume k =
     (case xTaskToResume of
        None \<Rightarrow> Some k
      | Some t \<Rightarrow>
          if pxCurrentTCB k \<noteq> Some t \<and> xTaskIsTaskSuspended t k then
            do {
              k1 \<leftarrow> remove_item (xGenericListItem t) k;
              k2 \<leftarrow> prvAddTaskToReadyList t k1;
              p \<leftarrow> priority_of t k2;
              c \<leftarrow> current_priority k2;
              Some (yield_if (p \<ge> c) k2)
            }
          else Some k)"

definition xTaskResumeFromISR :: "nat \<Rightarrow> kernel \<Rightarrow> (bool \<times> kernel) option" where
  "xTaskResumeFromISR t k =
     (if xTaskIsTaskSuspended t k then
        if uxSchedulerSuspended k = 0 then
          do {
            p \<leftarrow> priority_of t k;
            c \<leftarrow> current_priority k;
            k1 \<leftarrow> remove_item (xGenericListItem t) k;
            k2 \<leftarrow> prvAddTaskToReadyList t k1;
            Some (p \<ge> c, k2)
          }
        else Some (False, append_item xPendingReadyList (xEventListItem t) k)
      else Some (False, k))"

section \<open>Priorities\<close>

definition uxTaskPriorityGet :: "nat option \<Rightarrow> kernel \<Rightarrow> nat option" where
  "uxTaskPriorityGet xTask k = do { t \<leftarrow> prvGetTCBFromHandle xTask k; priority_of t k }"

definition set_priority :: "nat \<Rightarrow> nat \<Rightarrow> kernel \<Rightarrow> kernel" where
  "set_priority t p k = k\<lparr>tcbs := (tcbs k)(t := map_option (\<lambda>b. b\<lparr>uxPriority := p\<rparr>) (tcbs k t))\<rparr>"

definition set_base_priority :: "nat \<Rightarrow> nat \<Rightarrow> kernel \<Rightarrow> kernel" where
  "set_base_priority t p k = k\<lparr>tcbs := (tcbs k)(t := map_option (\<lambda>b. b\<lparr>uxBasePriority := p\<rparr>) (tcbs k t))\<rparr>"

definition vTaskPrioritySet :: "nat option \<Rightarrow> nat \<Rightarrow> kernel \<Rightarrow> kernel option" where
  "vTaskPrioritySet xTask uxNewPriority k =
     (let new = (if uxNewPriority \<ge> configMAX_PRIORITIES then configMAX_PRIORITIES - 1 else uxNewPriority) in
      do {
        t \<leftarrow> prvGetTCBFromHandle xTask k;
        b \<leftarrow> tcbs k t;
        if uxBasePriority b = new then Some k
        else do {
          yield \<leftarrow> (if new > uxBasePriority b
                    then if pxCurrentTCB k \<noteq> Some t then do { c \<leftarrow> current_priority k; Some (new \<ge> c) } else Some False
                    else Some (pxCurrentTCB k = Some t));
          let entry = uxPriority b;
          let k1 = (if uxBasePriority b = uxPriority b then set_priority t new k else k);
          let k2 = set_event_value t new (set_base_priority t new k1);
          k3 \<leftarrow> (if listIS_CONTAINED_WITHIN (Some (pxReadyTasksLists entry)) (xGenericListItem t) (heap k2)
                then do { k' \<leftarrow> remove_item (xGenericListItem t) k2; prvAddTaskToReadyList t k' }
                else Some k2);
          Some (yield_if yield k3)
        }
      })"

definition vTaskPriorityInherit :: "nat option \<Rightarrow> kernel \<Rightarrow> kernel option" where
  "vTaskPriorityInherit pxMutexHolder k =
     (case pxMutexHolder of
        None \<Rightarrow> Some k
      | Some t \<Rightarrow>
          do {
            p \<leftarrow> priority_of t k;
            c \<leftarrow> current_priority k;
            if p < c then
              do {
                let k1 = set_event_value t c k;
                if listIS_CONTAINED_WITHIN (Some (pxReadyTasksLists p)) (xGenericListItem t) (heap k1)
                then do { k2 \<leftarrow> remove_item (xGenericListItem t) k1; prvAddTaskToReadyList t (set_priority t c k2) }
                else Some (set_priority t c k1)
              }
            else Some k
          })"

definition vTaskPriorityDisinherit :: "nat option \<Rightarrow> kernel \<Rightarrow> kernel option" where
  "vTaskPriorityDisinherit pxMutexHolder k =
     (case pxMutexHolder of
        None \<Rightarrow> Some k
      | Some t \<Rightarrow>
          do {
            b \<leftarrow> tcbs k t;
            if uxPriority b \<noteq> uxBasePriority b then
              do {
                k1 \<leftarrow> remove_item (xGenericListItem t) k;
                prvAddTaskToReadyList t (set_event_value t (uxBasePriority b) (set_priority t (uxBasePriority b) k1))
              }
            else Some k
          })"

section \<open>Creating and deleting tasks\<close>

text \<open>What the allocator answers is an argument: the address of the control block, and whether there was room for the stack.\<close>

definition prvAllocateTCBAndStack :: "nat option \<Rightarrow> bool \<Rightarrow> nat option" where
  "prvAllocateTCBAndStack tcb stack = (case tcb of None \<Rightarrow> None | Some t \<Rightarrow> if stack then Some t else None)"

definition prvInitialiseTCBVariables :: "nat \<Rightarrow> byte list \<Rightarrow> nat \<Rightarrow> kernel \<Rightarrow> kernel" where
  "prvInitialiseTCBVariables t pcName prio k =
     (let p = (if prio \<ge> configMAX_PRIORITIES then configMAX_PRIORITIES - 1 else prio);
          name = take (configMAX_TASK_NAME_LEN - 1) (takeWhile (\<lambda>c. c \<noteq> 0) pcName);
          h1 = vListInitialiseItem (xEventListItem t) (vListInitialiseItem (xGenericListItem t) (heap k));
          h2 = listSET_LIST_ITEM_OWNER (xGenericListItem t) t h1;
          h3 = listSET_LIST_ITEM_VALUE (xEventListItem t) (of_nat configMAX_PRIORITIES - of_nat p) h2;
          h4 = listSET_LIST_ITEM_OWNER (xEventListItem t) t h3 in
      k\<lparr>tcbs := (tcbs k)(t \<mapsto> \<lparr>uxPriority = p, uxBasePriority = p, pcTaskName = name\<rparr>), heap := h4\<rparr>)"

definition prvInitialiseTaskLists :: "kernel \<Rightarrow> kernel" where
  "prvInitialiseTaskLists k =
     (let h1 = fold (\<lambda>p. vListInitialise (pxReadyTasksLists p)) [0..<configMAX_PRIORITIES] (heap k);
          h2 = vListInitialise xPendingReadyList (vListInitialise xDelayedTaskList2 (vListInitialise xDelayedTaskList1 h1));
          h3 = vListInitialise xSuspendedTaskList (vListInitialise xTasksWaitingTermination h2) in
      k\<lparr>heap := h3, pxDelayedTaskList := xDelayedTaskList1, pxOverflowDelayedTaskList := xDelayedTaskList2\<rparr>)"

definition admit_task :: "nat \<Rightarrow> nat \<Rightarrow> kernel \<Rightarrow> kernel option" where
  "admit_task t uxPriority_arg k =
     do {
       let k1 = k\<lparr>uxCurrentNumberOfTasks := uxCurrentNumberOfTasks k + 1\<rparr>;
       k2 \<leftarrow> (case pxCurrentTCB k1 of
               None \<Rightarrow> (let k' = k1\<lparr>pxCurrentTCB := Some t\<rparr> in Some (if uxCurrentNumberOfTasks k' = 1 then prvInitialiseTaskLists k' else k'))
             | Some c \<Rightarrow> if xSchedulerRunning k1 then Some k1
                        else do { p \<leftarrow> priority_of c k1; Some (if p \<le> uxPriority_arg then k1\<lparr>pxCurrentTCB := Some t\<rparr> else k1) });
       prvAddTaskToReadyList t (k2\<lparr>uxTaskNumber := uxTaskNumber k2 + 1\<rparr>)
     }"

text \<open>The result says whether the task was created.\<close>

definition xTaskGenericCreate :: "nat option \<Rightarrow> bool \<Rightarrow> byte list \<Rightarrow> nat \<Rightarrow> kernel \<Rightarrow> (bool \<times> kernel) option" where
  "xTaskGenericCreate tcb stack pcName prio k =
     (case prvAllocateTCBAndStack tcb stack of
        None \<Rightarrow> Some (False, k)
      | Some t \<Rightarrow>
          do {
            k1 \<leftarrow> admit_task t prio (prvInitialiseTCBVariables t pcName prio k);
            if xSchedulerRunning k1 then do { c \<leftarrow> current_priority k1; Some (True, yield_if (c < prio) k1) } else Some (True, k1)
          })"

definition vTaskDelete :: "nat option \<Rightarrow> kernel \<Rightarrow> kernel option" where
  "vTaskDelete xTaskToDelete k =
     do {
       t \<leftarrow> prvGetTCBFromHandle xTaskToDelete k;
       k1 \<leftarrow> remove_item (xGenericListItem t) k;
       k2 \<leftarrow> remove_event_item t k1;
       let k3 = append_item xTasksWaitingTermination (xGenericListItem t) k2;
       let k4 = k3\<lparr>uxTasksDeleted := uxTasksDeleted k3 + 1, uxTaskNumber := uxTaskNumber k3 + 1\<rparr>;
       Some (yield_if (xSchedulerRunning k4 \<and> pxCurrentTCB k4 = Some t) k4)
     }"

text \<open>The idle task's work: as long as the count says so and the list has an entry, a control block is freed. The loop never ends when the count is
  greater than the list is long.\<close>

definition prvDeleteTCB :: "nat \<Rightarrow> kernel \<Rightarrow> kernel" where
  "prvDeleteTCB t k = k\<lparr>tcbs := (tcbs k)(t := None)\<rparr>"

partial_function (option) prvCheckTasksWaitingTermination :: "kernel \<Rightarrow> kernel option" where
  "prvCheckTasksWaitingTermination k =
     (if uxTasksDeleted k > 0 then
        do {
          let s = vTaskSuspendAll k;
          let empty = listLIST_IS_EMPTY xTasksWaitingTermination (heap s);
          (_, k1) \<leftarrow> xTaskResumeAll s;
          if empty then prvCheckTasksWaitingTermination k1
          else do {
            t \<leftarrow> listGET_OWNER_OF_HEAD_ENTRY xTasksWaitingTermination (heap k1);
            k2 \<leftarrow> remove_item (xGenericListItem t) k1;
            let k3 = k2\<lparr>uxCurrentNumberOfTasks := sub32 (uxCurrentNumberOfTasks k2) 1, uxTasksDeleted := uxTasksDeleted k2 - 1\<rparr>;
            prvCheckTasksWaitingTermination (prvDeleteTCB t k3)
          }
        }
      else Some k)"

text \<open>One turn of the idle task's endless loop.\<close>

definition prvIdleTask :: "kernel \<Rightarrow> kernel option" where
  "prvIdleTask k =
     do {
       k1 \<leftarrow> prvCheckTasksWaitingTermination k;
       Some (yield_if (listCURRENT_LIST_LENGTH (pxReadyTasksLists tskIDLE_PRIORITY) (heap k1) > 1) k1)
     }"

section \<open>Starting, and small accessors\<close>

text \<open>The task of the software timers (\<^verbatim>\<open>timers.c\<close>) gets its queue first; whether there was room for it is an argument. The port then switches to
  the first task and does not return.\<close>

definition configTIMER_TASK_PRIORITY :: nat where "configTIMER_TASK_PRIORITY = tskIDLE_PRIORITY + 2"

definition xTimerCreateTimerTask :: "bool \<Rightarrow> nat option \<Rightarrow> bool \<Rightarrow> kernel \<Rightarrow> (bool \<times> kernel) option" where
  "xTimerCreateTimerTask queue tcb stack k =
     (if queue then xTaskGenericCreate tcb stack [0x54, 0x6d, 0x72, 0x20, 0x53, 0x76, 0x63] configTIMER_TASK_PRIORITY k else Some (False, k))"

definition vTaskStartScheduler :: "nat option \<Rightarrow> bool \<Rightarrow> bool \<Rightarrow> nat option \<Rightarrow> bool \<Rightarrow> kernel \<Rightarrow> kernel option" where
  "vTaskStartScheduler tcb stack queue timer_tcb timer_stack k =
     do {
       (created, k1) \<leftarrow> xTaskGenericCreate tcb stack [0x49, 0x44, 0x4c, 0x45] tskIDLE_PRIORITY k;
       let k1' = (if created then k1\<lparr>xIdleTaskHandle := tcb\<rparr> else k1);
       (created2, k2) \<leftarrow> (if created then xTimerCreateTimerTask queue timer_tcb timer_stack k1' else Some (False, k1'));
       if created2 then vTaskSwitchContext (k2\<lparr>xSchedulerRunning := True, xTickCount := 0\<rparr>) else Some k2
     }"

definition vTaskEndScheduler :: "kernel \<Rightarrow> kernel" where
  "vTaskEndScheduler k = k\<lparr>xSchedulerRunning := False\<rparr>"

definition xTaskGetTickCount :: "kernel \<Rightarrow> 32 word" where
  "xTaskGetTickCount k = xTickCount k"

definition uxTaskGetNumberOfTasks :: "kernel \<Rightarrow> nat" where
  "uxTaskGetNumberOfTasks k = uxCurrentNumberOfTasks k"

definition xTaskGetIdleTaskHandle :: "kernel \<Rightarrow> nat option" where
  "xTaskGetIdleTaskHandle k = xIdleTaskHandle k"

definition xTaskGetCurrentTaskHandle :: "kernel \<Rightarrow> nat option" where
  "xTaskGetCurrentTaskHandle k = pxCurrentTCB k"

definition xTaskGetSchedulerState :: "kernel \<Rightarrow> nat" where
  "xTaskGetSchedulerState k = (if \<not> xSchedulerRunning k then 0 else if uxSchedulerSuspended k = 0 then 1 else 2)"

section \<open>The port\<close>

text \<open>The tick interrupt and the software interrupt of \<^verbatim>\<open>portable/esp8266/port.c\<close>; the handler of the radio's closed library is an argument.\<close>

definition xPortSysTickHandle :: "kernel \<Rightarrow> kernel option" where
  "xPortSysTickHandle k = do { (switch, k1) \<leftarrow> xTaskIncrementTick k; if switch then vTaskSwitchContext k1 else Some k1 }"

definition SV_ISR :: "bool \<Rightarrow> (kernel \<Rightarrow> bool \<times> kernel) \<Rightarrow> kernel \<Rightarrow> kernel option" where
  "SV_ISR pending_maclayer_sv sdk_MacIsrSigPostDefHdl k =
     (let (woken, k1) = (if pending_maclayer_sv then sdk_MacIsrSigPostDefHdl k else (False, k)) in
      if woken \<or> pending_soft_sv k1 then map_option (\<lambda>k2. k2\<lparr>pending_soft_sv := False\<rparr>) (vTaskSwitchContext k1) else Some k1)"

end
