(* ===== verification/KSched.thy ===== *)
theory KSched
  imports KTasks
begin

text \<open>
  The invariant of the scheduler and what the operations that move a task between lists keep of it. Every task is in exactly one list with its generic item,
  the ready lists hold the tasks of their priority, the two lists of delayed tasks are sorted by wake time and separated by the tick count,
  and nothing above the recorded top priority is ready.
\<close>

section \<open>Invariants\<close>

definition blocked_list :: "klist \<Rightarrow> bool" where
  "blocked_list l \<longleftrightarrow> l = xDelayedTaskList1 \<or> l = xDelayedTaskList2 \<or> l = xSuspendedTaskList"

fun place_ok :: "kernel \<Rightarrow> klist \<Rightarrow> titem \<Rightarrow> bool" where
  "place_ok k (pxReadyTasksLists p) (xGenericListItem t) \<longleftrightarrow> priority_of t k = Some p"
| "place_ok k xPendingReadyList (xGenericListItem t) \<longleftrightarrow> False"
| "place_ok k (xEventList e) (xGenericListItem t) \<longleftrightarrow> False"
| "place_ok k _ (xGenericListItem t) \<longleftrightarrow> tcbs k t \<noteq> None"
| "place_ok k xPendingReadyList (xEventListItem t) \<longleftrightarrow> tcbs k t \<noteq> None"
| "place_ok k (xEventList e) (xEventListItem t) \<longleftrightarrow> tcbs k t \<noteq> None"
| "place_ok k _ (xEventListItem t) \<longleftrightarrow> False"

text \<open>The tasks of \<open>F\<close> are being moved and are in no list.\<close>

definition tasks_inv :: "nat set \<Rightarrow> kernel \<Rightarrow> (klist \<Rightarrow> titem list) \<Rightarrow> bool" where
  "tasks_inv F k A \<longleftrightarrow> heap_ok (heap k) A \<and> (\<forall>l. \<forall>i \<in> set (A l). place_ok k l i)
     \<and> (\<forall>t. tcbs k t \<noteq> None \<longrightarrow> pvOwner (heap k) (xGenericListItem t) = t \<and> pvOwner (heap k) (xEventListItem t) = t)
     \<and> (\<forall>t b. tcbs k t = Some b \<longrightarrow> uxPriority b < configMAX_PRIORITIES \<and> uxBasePriority b < configMAX_PRIORITIES)
     \<and> (\<forall>t. tcbs k t \<noteq> None \<longrightarrow> t \<notin> F \<longrightarrow> (\<exists>l. xGenericListItem t \<in> set (A l)))
     \<and> (\<forall>t \<in> F. tcbs k t \<noteq> None \<and> (\<forall>l. xGenericListItem t \<notin> set (A l)))
     \<and> (\<forall>t l. xEventListItem t \<in> set (A l) \<longrightarrow> t \<in> F \<or> (\<exists>l'. blocked_list l' \<and> xGenericListItem t \<in> set (A l')))"

text \<open>Every task of the current list wakes at \<open>m\<close> or later: after the tick count, except while a tick is being worked off.\<close>

definition wake_time :: "kernel \<Rightarrow> titem \<Rightarrow> 32 word" where
  "wake_time k i = xItemValue (heap k) (Item i)"

definition time_inv :: "nat \<Rightarrow> kernel \<Rightarrow> (klist \<Rightarrow> titem list) \<Rightarrow> bool" where
  "time_inv m k A \<longleftrightarrow>
     (pxDelayedTaskList k, pxOverflowDelayedTaskList k) \<in> {(xDelayedTaskList1, xDelayedTaskList2), (xDelayedTaskList2, xDelayedTaskList1)}
     \<and> sorted (map (wake_time k) (A (pxDelayedTaskList k))) \<and> sorted (map (wake_time k) (A (pxOverflowDelayedTaskList k)))
     \<and> (\<forall>i \<in> set (A (pxDelayedTaskList k)). m \<le> unat (wake_time k i) \<and> xNextTaskUnblockTime k \<le> wake_time k i)
     \<and> (\<forall>i \<in> set (A (pxOverflowDelayedTaskList k)). wake_time k i < xTickCount k)"

definition prio_inv :: "kernel \<Rightarrow> (klist \<Rightarrow> titem list) \<Rightarrow> bool" where
  "prio_inv k A \<longleftrightarrow> uxTopReadyPriority k < configMAX_PRIORITIES \<and> (\<forall>p. A (pxReadyTasksLists p) \<noteq> [] \<longrightarrow> p \<le> uxTopReadyPriority k)
     \<and> (\<forall>c. pxCurrentTCB k = Some c \<longrightarrow> tcbs k c \<noteq> None)"

definition kinv :: "nat \<Rightarrow> nat set \<Rightarrow> kernel \<Rightarrow> (klist \<Rightarrow> titem list) \<Rightarrow> bool" where
  "kinv m F k A \<longleftrightarrow> tasks_inv F k A \<and> time_inv m k A \<and> prio_inv k A"

lemma tasks_invD:
  assumes "tasks_inv F k A"
  shows "heap_ok (heap k) A" "i \<in> set (A l) \<Longrightarrow> place_ok k l i" "tcbs k t \<noteq> None \<Longrightarrow> pvOwner (heap k) (xGenericListItem t) = t"
    "tcbs k t \<noteq> None \<Longrightarrow> pvOwner (heap k) (xEventListItem t) = t" "tcbs k t = Some b \<Longrightarrow> uxPriority b < configMAX_PRIORITIES"
    "tcbs k t = Some b \<Longrightarrow> uxBasePriority b < configMAX_PRIORITIES" "tcbs k t \<noteq> None \<Longrightarrow> t \<notin> F \<Longrightarrow> \<exists>l. xGenericListItem t \<in> set (A l)"
    "t \<in> F \<Longrightarrow> tcbs k t \<noteq> None" "t \<in> F \<Longrightarrow> xGenericListItem t \<notin> set (A l)"
    "xEventListItem t \<in> set (A l) \<Longrightarrow> t \<in> F \<or> (\<exists>l'. blocked_list l' \<and> xGenericListItem t \<in> set (A l'))"
  using assms unfolding tasks_inv_def by blast+

lemma kinvD: "kinv m F k A \<Longrightarrow> tasks_inv F k A" "kinv m F k A \<Longrightarrow> time_inv m k A" "kinv m F k A \<Longrightarrow> prio_inv k A"
  by (simp_all add: kinv_def)

abbreviation kok :: "kernel \<Rightarrow> (klist \<Rightarrow> titem list) \<Rightarrow> bool" where
  "kok k A \<equiv> kinv (Suc (unat (xTickCount k))) {} k A"

text \<open>The items of a list that is not a list of events, and the lists of a task.\<close>

lemma remove_everywhere: "heap_ok h A \<Longrightarrow> i \<in> set (A l) \<Longrightarrow> A(l := remove1 i (A l)) = (\<lambda>l. remove1 i (A l))"
proof (rule ext)
  fix m assume "heap_ok h A" "i \<in> set (A l)"
  then have "m \<noteq> l \<Longrightarrow> i \<notin> set (A m)" using heap_disjoint[of h A i l m] by blast
  then show "(A(l := remove1 i (A l))) m = remove1 i (A m)" by (cases "m = l") (simp_all add: remove1_idem)
qed

definition without :: "titem \<Rightarrow> (klist \<Rightarrow> titem list) \<Rightarrow> klist \<Rightarrow> titem list" where
  "without i A = (\<lambda>l. remove1 i (A l))"

lemma without_set: "heap_ok h A \<Longrightarrow> set (without i A l) = set (A l) - {i}"
  using heap_facts(1)[of h A l] by (simp add: without_def)

lemma without_idle: "(\<forall>l. i \<notin> set (A l)) \<Longrightarrow> without i A = A"
  by (simp add: without_def remove1_idem fun_eq_iff)

lemma without_Nil: "without i A l \<noteq> [] \<Longrightarrow> A l \<noteq> []"
  by (auto simp: without_def)

lemma remove_item_ok:
  assumes "heap_ok (heap k) A" and "i \<in> set (A l)"
  shows "\<exists>h. remove_item i k = Some (k\<lparr>heap := h\<rparr>) \<and> heap_ok h (without i A) \<and> xItemValue h = xItemValue (heap k) \<and> pvOwner h = pvOwner (heap k)"
  using remove_ok[OF assms] remove_everywhere[OF assms] by (auto simp: remove_item_def without_def)

lemma sorted_without: "sorted (map f xs) \<Longrightarrow> sorted (map f (remove1 i xs))"
  by (induction xs) auto

lemma place_ok_heap: "place_ok (k\<lparr>heap := h\<rparr>) l i = place_ok k l i"
  by (cases l; cases i) (simp_all add: priority_of_def)

lemma place_ok_frame: "place_ok (k\<lparr>xNextTaskUnblockTime := n\<rparr>) l i = place_ok k l i"
  by (cases l; cases i) (simp_all add: priority_of_def)

text \<open>A task that enters a list of events is put there before it leaves its ready list: \<open>kpre t\<close> is the invariant up to that.\<close>

definition kpre :: "nat \<Rightarrow> nat \<Rightarrow> kernel \<Rightarrow> (klist \<Rightarrow> titem list) \<Rightarrow> bool" where
  "kpre t m k A \<longleftrightarrow> heap_ok (heap k) A \<and> (\<forall>l. \<forall>i \<in> set (A l). place_ok k l i)
     \<and> (\<forall>t. tcbs k t \<noteq> None \<longrightarrow> pvOwner (heap k) (xGenericListItem t) = t \<and> pvOwner (heap k) (xEventListItem t) = t)
     \<and> (\<forall>t b. tcbs k t = Some b \<longrightarrow> uxPriority b < configMAX_PRIORITIES \<and> uxBasePriority b < configMAX_PRIORITIES)
     \<and> (\<forall>s. tcbs k s \<noteq> None \<longrightarrow> (\<exists>l. xGenericListItem s \<in> set (A l)))
     \<and> (\<forall>s l. xEventListItem s \<in> set (A l) \<longrightarrow> s = t \<or> (\<exists>l'. blocked_list l' \<and> xGenericListItem s \<in> set (A l')))
     \<and> time_inv m k A \<and> prio_inv k A"

lemma kinv_pre: "kinv m {} k A \<Longrightarrow> kpre t m k A"
  unfolding kinv_def tasks_inv_def kpre_def by blast

lemma take_generic_pre:
  assumes pre: "kpre t m k A" and live: "tcbs k t \<noteq> None"
  shows "\<exists>h. remove_item (xGenericListItem t) k = Some (k\<lparr>heap := h\<rparr>) \<and> kinv m {t} (k\<lparr>heap := h\<rparr>) (without (xGenericListItem t) A) \<and> xItemValue h = xItemValue (heap k)"
proof -
  have P: "heap_ok (heap k) A" "time_inv m k A" "prio_inv k A" using pre by (simp_all add: kpre_def)
  obtain l where l: "xGenericListItem t \<in> set (A l)" using pre live unfolding kpre_def by blast
  obtain h where h: "remove_item (xGenericListItem t) k = Some (k\<lparr>heap := h\<rparr>)" "heap_ok h (without (xGenericListItem t) A)" "xItemValue h = xItemValue (heap k)" "pvOwner h = pvOwner (heap k)"
    using remove_item_ok[OF P(1) l] by blast
  note W = without_set[OF P(1), of "xGenericListItem t"]
  have "s = t \<or> (\<exists>l'. blocked_list l' \<and> xGenericListItem s \<in> set (A l') - {xGenericListItem t})" if "xEventListItem s \<in> set (A l)" for s l
    using pre that unfolding kpre_def by blast
  then have "tasks_inv {t} (k\<lparr>heap := h\<rparr>) (without (xGenericListItem t) A)"
    using pre h(2,4) live unfolding tasks_inv_def kpre_def W place_ok_heap by auto
  moreover have "time_inv m (k\<lparr>heap := h\<rparr>) (without (xGenericListItem t) A)"
    using P(2) unfolding time_inv_def W wake_time_def by (auto simp: h(3) without_def intro: sorted_without)
  moreover have "prio_inv (k\<lparr>heap := h\<rparr>) (without (xGenericListItem t) A)"
    using P(3) unfolding prio_inv_def by (auto dest: without_Nil)
  ultimately show ?thesis using h(1,3) by (auto simp: kinv_def)
qed

lemmas take_generic = take_generic_pre[OF kinv_pre]

lemma drop_event:
  assumes "kinv m F k A"
  shows "\<exists>h. remove_event_item t k = Some (k\<lparr>heap := h\<rparr>) \<and> kinv m F (k\<lparr>heap := h\<rparr>) (without (xEventListItem t) A) \<and> xItemValue h = xItemValue (heap k)"
proof (cases "pvContainer (heap k) (xEventListItem t)")
  case None
  then have "without (xEventListItem t) A = A" using tasks_invD(1)[OF kinvD(1)[OF assms]] by (intro without_idle) (simp add: heap_free)
  then show ?thesis using None assms by (auto simp: remove_event_item_def list_macros intro!: exI[of _ "heap k"])
next
  case (Some l)
  note T = kinvD(1)[OF assms] and D = tasks_invD[OF kinvD(1)[OF assms]]
  have l: "xEventListItem t \<in> set (A l)" using Some heap_cont[OF D(1)] by blast
  obtain h where h: "remove_item (xEventListItem t) k = Some (k\<lparr>heap := h\<rparr>)" "heap_ok h (without (xEventListItem t) A)" "xItemValue h = xItemValue (heap k)" "pvOwner h = pvOwner (heap k)"
    using remove_item_ok[OF D(1) l] by blast
  note W = without_set[OF D(1), of "xEventListItem t"]
  have "tasks_inv F (k\<lparr>heap := h\<rparr>) (without (xEventListItem t) A)"
    using T h(2,4) unfolding tasks_inv_def W place_ok_heap by auto
  moreover have "time_inv m (k\<lparr>heap := h\<rparr>) (without (xEventListItem t) A)"
    using kinvD(2)[OF assms] unfolding time_inv_def W wake_time_def by (auto simp: h(3) without_def intro: sorted_without)
  moreover have "prio_inv (k\<lparr>heap := h\<rparr>) (without (xEventListItem t) A)"
    using kinvD(3)[OF assms] unfolding prio_inv_def by (auto dest: without_Nil)
  ultimately show ?thesis using h(1,3) Some by (auto simp: kinv_def remove_event_item_def list_macros)
qed

text \<open>Putting the floating task into a list with its generic item.\<close>

lemma put_tasks_inv:
  assumes "tasks_inv {t} k A" and "heap_ok h (A(l := is))" and "set is = insert (xGenericListItem t) (set (A l))" and "pvOwner h = pvOwner (heap k)"
    and "place_ok k l (xGenericListItem t)" and "blocked_list l \<or> (\<forall>l. xEventListItem t \<notin> set (A l))"
  shows "tasks_inv {} (k\<lparr>heap := h\<rparr>) (A(l := is))"
proof -
  note D = tasks_invD[OF assms(1)]
  have S: "set ((A(l := is)) m) = (if m = l then insert (xGenericListItem t) (set (A l)) else set (A m))" for m using assms(3) by simp
  have ev: "\<exists>l'. blocked_list l' \<and> xGenericListItem s \<in> set ((A(l := is)) l')" if "xEventListItem s \<in> set ((A(l := is)) m)" for s m
  proof -
    have e: "xEventListItem s \<in> set (A m)" using that unfolding S by (auto split: if_splits)
    show ?thesis
    proof (cases "s = t")
      case True
      then have "blocked_list l" using assms(6) e by blast
      then show ?thesis using True unfolding S by auto
    next
      case False
      then obtain l' where "blocked_list l'" "xGenericListItem s \<in> set (A l')" using D(10)[OF e] by auto
      then show ?thesis unfolding S by auto
    qed
  qed
  have gen: "\<exists>m. xGenericListItem s \<in> set ((A(l := is)) m)" if live: "tcbs k s \<noteq> None" for s
  proof (cases "s = t")
    case True then show ?thesis unfolding S by auto
  next
    case False
    then obtain m where "xGenericListItem s \<in> set (A m)" using D(7)[OF live] by auto
    then show ?thesis unfolding S by auto
  qed
  have "place_ok k m i" if "i \<in> set ((A(l := is)) m)" for m i using that D(2)[of i m] assms(5) unfolding S by (auto split: if_splits)
  then show ?thesis using assms(2,4) D(3-6) ev gen unfolding tasks_inv_def place_ok_heap by auto
qed

lemma delayed_lists: "time_inv m k A \<Longrightarrow> blocked_list (pxDelayedTaskList k) \<and> blocked_list (pxOverflowDelayedTaskList k) \<and> pxDelayedTaskList k \<noteq> pxOverflowDelayedTaskList k
    \<and> pxDelayedTaskList k \<in> {xDelayedTaskList1, xDelayedTaskList2} \<and> pxOverflowDelayedTaskList k \<in> {xDelayedTaskList1, xDelayedTaskList2}"
  unfolding time_inv_def blocked_list_def by auto

lemma time_inv_frame:
  assumes "time_inv m k A" and "A' xDelayedTaskList1 = A xDelayedTaskList1" and "A' xDelayedTaskList2 = A xDelayedTaskList2" and "\<forall>t. wake_time k' (xGenericListItem t) = wake_time k (xGenericListItem t)"
    and "\<forall>l i. i \<in> set (A l) \<longrightarrow> l \<in> {xDelayedTaskList1, xDelayedTaskList2} \<longrightarrow> (\<exists>t. i = xGenericListItem t)"
    and "pxDelayedTaskList k' = pxDelayedTaskList k" and "pxOverflowDelayedTaskList k' = pxOverflowDelayedTaskList k" and "xTickCount k' = xTickCount k"
    and "xNextTaskUnblockTime k' = xNextTaskUnblockTime k"
  shows "time_inv m k' A'"
proof -
  note L = delayed_lists[OF assms(1)]
  have A: "A' (pxDelayedTaskList k) = A (pxDelayedTaskList k)" "A' (pxOverflowDelayedTaskList k) = A (pxOverflowDelayedTaskList k)" using L assms(2,3) by auto
  have W: "wake_time k' i = wake_time k i" if "i \<in> set (A (pxDelayedTaskList k)) \<or> i \<in> set (A (pxOverflowDelayedTaskList k))" for i
    using that L assms(4,5) by metis
  then have M: "map (wake_time k') (A (pxDelayedTaskList k)) = map (wake_time k) (A (pxDelayedTaskList k))"
    "map (wake_time k') (A (pxOverflowDelayedTaskList k)) = map (wake_time k) (A (pxOverflowDelayedTaskList k))" by auto
  show ?thesis using assms(1) W unfolding time_inv_def assms(6-9) A M by auto
qed

lemma delayed_generic: "tasks_inv F k A \<Longrightarrow> \<forall>l i. i \<in> set (A l) \<longrightarrow> l \<in> {xDelayedTaskList1, xDelayedTaskList2} \<longrightarrow> (\<exists>t. i = xGenericListItem t)"
proof (intro allI impI)
  fix l i assume "tasks_inv F k A" "i \<in> set (A l)" "l \<in> {xDelayedTaskList1, xDelayedTaskList2}"
  then have "place_ok k l i" by (auto dest: tasks_invD(2))
  then show "\<exists>t. i = xGenericListItem t" using \<open>l \<in> _\<close> by (cases i) auto
qed

lemma free_item: "tasks_inv {t} k A \<Longrightarrow> pvContainer (heap k) (xGenericListItem t) = None"
  using tasks_invD(1,9)[of "{t}" k A] by (simp add: heap_free)

lemma append_fields: "heap_ok h A \<Longrightarrow> pvContainer h i = None \<Longrightarrow> xItemValue (vListInsertEnd l i h) = xItemValue h \<and> pvOwner (vListInsertEnd l i h) = pvOwner h \<and> pxIndex (vListInsertEnd l i h) = pxIndex h"
proof -
  assume "heap_ok h A" "pvContainer h i = None"
  then have "pxIndex h l \<noteq> Item i" using heap_index[of h A l] heap_free[of h A i] by auto
  then show ?thesis by (simp add: vListInsertEnd_fields)
qed

lemma put_append:
  assumes "kinv m {t} k A" and "place_ok k l (xGenericListItem t)" and "blocked_list l \<or> (\<forall>l. xEventListItem t \<notin> set (A l))" and "l \<notin> {xDelayedTaskList1, xDelayedTaskList2}"
    and "\<forall>p. l = pxReadyTasksLists p \<longrightarrow> p \<le> uxTopReadyPriority k"
  shows "kinv m {} (append_item l (xGenericListItem t) k) (A(l := ins_end (pxIndex (heap k) l) (xGenericListItem t) (A l)))"
proof -
  let ?A = "A(l := ins_end (pxIndex (heap k) l) (xGenericListItem t) (A l))"
  note T = kinvD(1)[OF assms(1)]
  note D = tasks_invD(1)[OF T] and f = free_item[OF T]
  note F = append_fields[OF D f, of l]
  have "tasks_inv {} (append_item l (xGenericListItem t) k) ?A" unfolding append_item_def
    using F assms(2,3) by (intro put_tasks_inv[OF T insert_end_ok[OF D f]]) (auto simp: ins_end_set)
  moreover have "time_inv m (append_item l (xGenericListItem t) k) ?A"
    by (rule time_inv_frame[OF kinvD(2)[OF assms(1)] _ _ _ delayed_generic[OF T]]) (use assms(4) F in \<open>auto simp: append_item_def wake_time_def\<close>)
  moreover have "prio_inv (append_item l (xGenericListItem t) k) ?A"
    using kinvD(3)[OF assms(1)] assms(5) by (auto simp: prio_inv_def append_item_def)
  ultimately show ?thesis by (simp add: kinv_def)
qed

definition ready_after :: "nat \<Rightarrow> kernel \<Rightarrow> (klist \<Rightarrow> titem list) \<Rightarrow> nat \<Rightarrow> klist \<Rightarrow> titem list" where
  "ready_after t k A p = A(pxReadyTasksLists p := ins_end (pxIndex (heap k) (pxReadyTasksLists p)) (xGenericListItem t) (A (pxReadyTasksLists p)))"

lemma put_ready:
  assumes "kinv m {t} k A" and "\<forall>l. xEventListItem t \<notin> set (A l)"
  shows "\<exists>k' p. priority_of t k = Some p \<and> prvAddTaskToReadyList t k = Some k' \<and> kinv m {} k' (ready_after t k A p)
    \<and> k' = k\<lparr>uxTopReadyPriority := uxTopReadyPriority k', heap := heap k'\<rparr> \<and> xItemValue (heap k') = xItemValue (heap k)"
proof -
  note T = kinvD(1)[OF assms(1)] and D = tasks_invD[OF kinvD(1)[OF assms(1)]]
  obtain b where b: "tcbs k t = Some b" using D(8)[of t] by auto
  let ?p = "uxPriority b"
  have p: "priority_of t k = Some ?p" "?p < configMAX_PRIORITIES" using b D(5)[OF b] by (simp_all add: priority_of_def)
  define k1 where "k1 = (if ?p > uxTopReadyPriority k then k\<lparr>uxTopReadyPriority := ?p\<rparr> else k)"
  have same: "heap k1 = heap k" "tcbs k1 = tcbs k" "priority_of s k1 = priority_of s k" for s by (simp_all add: k1_def priority_of_def)
  have "place_ok k1 l i = place_ok k l i" for l i by (cases l; cases i) (simp_all add: same)
  then have "tasks_inv {t} k1 A" using T by (simp add: tasks_inv_def same)
  moreover have "time_inv m k1 A" by (rule time_inv_frame[OF kinvD(2)[OF assms(1)] refl refl _ delayed_generic[OF T]]) (simp_all add: wake_time_def k1_def)
  moreover have "prio_inv k1 A" using kinvD(3)[OF assms(1)] p(2) by (auto simp: prio_inv_def k1_def)
  ultimately have i: "kinv m {t} k1 A" by (simp add: kinv_def)
  have "kinv m {} (append_item (pxReadyTasksLists ?p) (xGenericListItem t) k1) (ready_after t k A ?p)" unfolding ready_after_def same(1)[symmetric]
    using assms(2) p(1) same by (intro put_append[OF i]) (auto simp: k1_def)
  moreover have "prvAddTaskToReadyList t k = Some (append_item (pxReadyTasksLists ?p) (xGenericListItem t) k1)"
    using p by (simp add: prvAddTaskToReadyList_def k1_def Let_def)
  ultimately show ?thesis using p(1) append_fields[OF D(1) free_item[OF T], of "pxReadyTasksLists ?p"] by (auto simp: append_item_def k1_def)
qed

lemma heap_ok_value: "heap_ok (listSET_LIST_ITEM_VALUE i v h) A = heap_ok h A"
  by (simp add: heap_ok_def cyc_def listSET_LIST_ITEM_VALUE_def)

definition delay_list :: "32 word \<Rightarrow> kernel \<Rightarrow> klist" where
  "delay_list wake k = (if wake < xTickCount k then pxOverflowDelayedTaskList k else pxDelayedTaskList k)"

lemma put_delayed:
  assumes "kinv (Suc (unat (xTickCount k))) {t} k A" and "pxCurrentTCB k = Some t" and "wake \<noteq> xTickCount k"
  shows "\<exists>k' js. prvAddCurrentTaskToDelayedList wake k = Some k' \<and> kok k' (A(delay_list wake k := js)) \<and> set js = insert (xGenericListItem t) (set (A (delay_list wake k)))
    \<and> k' = k\<lparr>heap := heap k', xNextTaskUnblockTime := xNextTaskUnblockTime k'\<rparr> \<and> wake_time k' = (wake_time k)(xGenericListItem t := wake)"
proof -
  let ?g = "xGenericListItem t" and ?l = "delay_list wake k"
  note T = kinvD(1)[OF assms(1)] and D = tasks_invD[OF kinvD(1)[OF assms(1)]]
  note L = delayed_lists[OF kinvD(2)[OF assms(1)]]
  define h1 where "h1 = listSET_LIST_ITEM_VALUE ?g wake (heap k)"
  have h1: "heap_ok h1 A" "pvContainer h1 ?g = None" using D(1) free_item[OF T] by (simp_all add: h1_def heap_ok_value) (simp add: listSET_LIST_ITEM_VALUE_def)
  define f where "f = (wake_time k)(?g := wake)"
  have f1: "(\<lambda>j. xItemValue h1 (Item j)) = f" by (auto simp: h1_def f_def wake_time_def listSET_LIST_ITEM_VALUE_def)
  obtain h where h: "vListInsert ?l ?g h1 = Some h" "heap_ok h (A(?l := ins_val f ?g (A ?l)))" "xItemValue h = xItemValue h1" "pvOwner h = pvOwner h1"
    using insert_ok[OF h1, of ?l] unfolding f1 by blast
  define js n where "js = ins_val f ?g (A ?l)" and "n = (if \<not> wake < xTickCount k \<and> wake < xNextTaskUnblockTime k then wake else xNextTaskUnblockTime k)"
  define k' where "k' = k\<lparr>heap := h, xNextTaskUnblockTime := n\<rparr>"
  have "prvAddCurrentTaskToDelayedList wake k = Some k'"
    using h(1) assms(2) by (auto simp: prvAddCurrentTaskToDelayedList_def insert_item_def h1_def[symmetric] delay_list_def k'_def n_def Let_def)
  moreover have S: "set js = insert ?g (set (A ?l))" by (simp add: js_def ins_val_set)
  moreover have w: "wake_time k' = f" unfolding f1[symmetric] by (simp add: k'_def wake_time_def h(3) fun_eq_iff)
  moreover have "tasks_inv {} (k\<lparr>heap := h\<rparr>) (A(?l := js))"
    using S L by (intro put_tasks_inv[OF T h(2)[folded js_def]]) (auto simp: h(4) h1_def listSET_LIST_ITEM_VALUE_def delay_list_def D(8))
  then have "tasks_inv {} k' (A(?l := js))" by (simp add: tasks_inv_def k'_def place_ok_frame)
  moreover have "time_inv (Suc (unat (xTickCount k'))) k' (A(?l := js))"
  proof -
    have g: "?g \<notin> set (A m)" for m using D(9)[of t] by simp
    have fo: "f i = wake_time k i" if "i \<in> set (A m)" for i m using g[of m] that by (auto simp: f_def)
    have sd: "sorted (map f (A m))" if "m = pxDelayedTaskList k \<or> m = pxOverflowDelayedTaskList k" for m
    proof -
      have e: "map f (A m) = map (wake_time k) (A m)" using fo[of _ m] by simp
      show ?thesis unfolding e using that kinvD(2)[OF assms(1)] by (auto simp: time_inv_def)
    qed
    have si: "sorted (map f js)" unfolding js_def using L by (intro ins_val_sorted sd) (auto simp: delay_list_def)
    have "f ?g = wake" by (simp add: f_def)
    moreover have "Suc (unat (xTickCount k)) \<le> unat wake" if "\<not> wake < xTickCount k"
      using that assms(3) by (metis Suc_leI linorder_neqE word_less_nat_alt)
    ultimately show ?thesis using kinvD(2)[OF assms(1)] sd si S fo assms(3) L unfolding time_inv_def w
      by (auto simp: k'_def delay_list_def n_def split: if_splits)
  qed
  moreover have "prio_inv k' (A(?l := js))" using kinvD(3)[OF assms(1)] L by (auto simp: prio_inv_def k'_def delay_list_def split: if_splits)
  ultimately show ?thesis unfolding kinv_def f_def k'_def by auto
qed

lemma kinv_frame:
  assumes "kinv m F k A" and "heap_ok (heap k') A" and "xItemValue (heap k') = xItemValue (heap k)" and "pvOwner (heap k') = pvOwner (heap k)"
    and "tcbs k' = tcbs k" and "pxDelayedTaskList k' = pxDelayedTaskList k" and "pxOverflowDelayedTaskList k' = pxOverflowDelayedTaskList k"
    and "xTickCount k' = xTickCount k" and "xNextTaskUnblockTime k' = xNextTaskUnblockTime k" and "prio_inv k' A"
  shows "kinv m F k' A"
proof -
  have "place_ok k' l i = place_ok k l i" for l i by (cases l; cases i) (simp_all add: assms(5) priority_of_def)
  then have "tasks_inv F k' A" using kinvD(1)[OF assms(1)] assms(2) by (simp add: tasks_inv_def assms(4,5))
  moreover have "wake_time k' = wake_time k" by (simp add: wake_time_def assms(3) fun_eq_iff)
  then have "time_inv m k' A" using kinvD(2)[OF assms(1)] by (simp add: time_inv_def assms(6-9))
  ultimately show ?thesis using assms(10) by (simp add: kinv_def)
qed

end
