(* ===== verification/KRun.thy ===== *)
theory KRun
  imports KSched
begin

text \<open>
  The scheduler at work: the context switch takes the tasks of the highest priority in turn, a tick releases exactly the tasks whose time has come, also when the
  tick count wraps, and the loops behind a tick and behind resuming the scheduler end.
\<close>

section \<open>Switching\<close>

definition highest_ready :: "(klist \<Rightarrow> titem list) \<Rightarrow> nat \<Rightarrow> bool" where
  "highest_ready A p \<longleftrightarrow> A (pxReadyTasksLists p) \<noteq> [] \<and> (\<forall>q > p. A (pxReadyTasksLists q) = [])"

definition ready_turns :: "kernel \<Rightarrow> (klist \<Rightarrow> titem list) \<Rightarrow> nat \<Rightarrow> nat list" where
  "ready_turns k A p = map (pvOwner (heap k)) (turns (pxIndex (heap k) (pxReadyTasksLists p)) (A (pxReadyTasksLists p)))"

lemma top_ready_found:
  assumes "heap_ok h A" and "highest_ready A p" and "p \<le> n"
  shows "top_ready h n = Some p"
  using assms(3)
proof (induction n)
  case 0
  then show ?case using assms(1,2) by (simp add: list_macros heap_facts(2) highest_ready_def)
next
  case (Suc n)
  then show ?case using assms(1,2) by (cases "p = Suc n") (simp_all add: list_macros heap_facts(2) highest_ready_def)
qed

lemma switch_ok:
  assumes "kinv m {} k A" and "uxSchedulerSuspended k = 0" and "highest_ready A p"
  shows "\<exists>k' h t ts. ready_turns k A p = t # ts \<and> vTaskSwitchContext k = Some k' \<and> kinv m {} k' A \<and> pxCurrentTCB k' = Some t \<and> priority_of t k' = Some p \<and> ready_turns k' A p = ts @ [t]
    \<and> wake_time k' = wake_time k \<and> k' = k\<lparr>uxTopReadyPriority := p, heap := h, pxCurrentTCB := Some t\<rparr>"
proof -
  note D = tasks_invD[OF kinvD(1)[OF assms(1)]] and P = kinvD(3)[OF assms(1)]
  let ?l = "pxReadyTasksLists p"
  have ne: "A ?l \<noteq> []" "p \<le> uxTopReadyPriority k" using assms(3) P by (auto simp: highest_ready_def prio_inv_def)
  have top: "top_ready (heap k) (uxTopReadyPriority k) = Some p" by (rule top_ready_found[OF D(1) assms(3) ne(2)])
  obtain h i js where i: "turns (pxIndex (heap k) ?l) (A ?l) = i # js" "listGET_OWNER_OF_NEXT_ENTRY ?l (heap k) = Some (pvOwner (heap k) i, h)"
      "h = (heap k)\<lparr>pxIndex := (pxIndex (heap k))(?l := Item i)\<rparr>" "i \<in> set (A ?l)" "heap_ok h A" "turns (Item i :: (klist, titem) lref) (A ?l) = js @ [i]"
    using next_ok[OF D(1) ne(1)] by blast
  obtain t where t: "i = xGenericListItem t" "priority_of t k = Some p" using D(2)[OF i(4)] by (cases i) auto
  then have live: "tcbs k t \<noteq> None" by (auto simp: priority_of_def)
  define k' where "k' = k\<lparr>uxTopReadyPriority := p, heap := h, pxCurrentTCB := Some t\<rparr>"
  have own: "pvOwner (heap k) i = t" using D(3)[OF live] t(1) by simp
  have "vTaskSwitchContext k = Some k'" using top i(2) own assms(2) by (simp add: vTaskSwitchContext_def taskSELECT_HIGHEST_PRIORITY_TASK_def k'_def)
  moreover have "kinv m {} k' A"
  proof (rule kinv_frame[OF assms(1)])
    show "prio_inv k' A" using P assms(3) live ne(2) unfolding prio_inv_def highest_ready_def k'_def by (auto simp: not_less[symmetric])
  qed (use i(3,5) in \<open>simp_all add: k'_def\<close>)
  moreover have "ready_turns k A p = t # map (pvOwner (heap k)) js" using i(1) own by (simp add: ready_turns_def)
  moreover have "ready_turns k' A p = map (pvOwner (heap k)) js @ [t]" using i(3,6) own by (simp add: ready_turns_def k'_def)
  moreover have "wake_time k' = wake_time k" using i(3) by (simp add: k'_def wake_time_def fun_eq_iff)
  moreover have "priority_of t k' = Some p" "pxCurrentTCB k' = Some t" using t(2) by (simp_all add: k'_def priority_of_def)
  ultimately show ?thesis unfolding k'_def by blast
qed

definition switch_to :: "kernel \<Rightarrow> (nat \<times> kernel) option" where
  "switch_to k = do { k' \<leftarrow> vTaskSwitchContext k; t \<leftarrow> pxCurrentTCB k'; Some (t, k') }"

interpretation slices: round_robin "\<lambda>k. kok k A \<and> uxSchedulerSuspended k = 0 \<and> highest_ready A p" "\<lambda>k. ready_turns k A p" switch_to
  for A :: "klist \<Rightarrow> titem list" and p :: nat
proof
  fix k x xs
  assume k: "kok k A \<and> uxSchedulerSuspended k = 0 \<and> highest_ready A p" and x: "ready_turns k A p = x # xs"
  obtain k' h where k': "vTaskSwitchContext k = Some k'" "kinv (Suc (unat (xTickCount k))) {} k' A" "pxCurrentTCB k' = Some x" "ready_turns k' A p = xs @ [x]"
      "k' = k\<lparr>uxTopReadyPriority := p, heap := h, pxCurrentTCB := Some x\<rparr>"
    using switch_ok[of "Suc (unat (xTickCount k))" k A p] k x by (metis list.inject)
  have "xTickCount k' = xTickCount k" "uxSchedulerSuspended k' = uxSchedulerSuspended k" by (simp_all add: k'(5))
  then show "\<exists>k'. switch_to k = Some (x, k') \<and> (kok k' A \<and> uxSchedulerSuspended k' = 0 \<and> highest_ready A p) \<and> ready_turns k' A p = xs @ [x]"
    using k k' by (intro exI[of _ k']) (simp add: switch_to_def)
qed

lemma ready_turns_tasks:
  assumes "kinv m F k A"
  shows "set (ready_turns k A p) = {t. xGenericListItem t \<in> set (A (pxReadyTasksLists p))} \<and> distinct (ready_turns k A p)"
proof -
  note D = tasks_invD[OF kinvD(1)[OF assms]]
  let ?l = "pxReadyTasksLists p"
  have s: "set (turns (pxIndex (heap k) ?l) (A ?l)) = set (A ?l)" "distinct (turns (pxIndex (heap k) ?l) (A ?l))"
    using turns_set[of _ ?l "A ?l"] heap_index[OF D(1), of ?l] heap_facts(1)[OF D(1), of ?l] by auto
  have g: "i = xGenericListItem (pvOwner (heap k) i)" if "i \<in> set (A ?l)" for i using D(2)[OF that] D(3) by (cases i) (auto simp: priority_of_def)
  then have "inj_on (pvOwner (heap k)) (set (A ?l))" by (metis inj_onI)
  moreover have "pvOwner (heap k) ` set (A ?l) = {t. xGenericListItem t \<in> set (A ?l)}" using g by force
  ultimately show ?thesis by (simp add: ready_turns_def distinct_map s)
qed

section \<open>Releasing tasks\<close>

fun task_of :: "titem \<Rightarrow> nat" where
  "task_of (xGenericListItem t) = t"
| "task_of (xEventListItem t) = t"

text \<open>The tasks of \<open>D\<close> leave every list they wait in and join the ready lists of their priorities; the order of the other tasks stays.\<close>

definition released :: "nat set \<Rightarrow> kernel \<Rightarrow> (klist \<Rightarrow> titem list) \<Rightarrow> (klist \<Rightarrow> titem list) \<Rightarrow> bool" where
  "released D k A A' \<longleftrightarrow> (\<forall>l. (\<forall>p. l \<noteq> pxReadyTasksLists p) \<longrightarrow> A' l = filter (\<lambda>i. task_of i \<notin> D) (A l))
     \<and> (\<forall>p. set (A' (pxReadyTasksLists p)) = set (A (pxReadyTasksLists p)) \<union> xGenericListItem ` {t \<in> D. priority_of t k = Some p})"

definition ready_grows :: "(klist \<Rightarrow> titem list) \<Rightarrow> (klist \<Rightarrow> titem list) \<Rightarrow> bool" where
  "ready_grows A A' \<longleftrightarrow> (\<forall>p. set (A (pxReadyTasksLists p)) \<subseteq> set (A' (pxReadyTasksLists p)))"

definition fixed :: "kernel \<Rightarrow> nat option \<times> bool" where
  [simp]: "fixed k = (xIdleTaskHandle k, xSchedulerRunning k)"

lemma ready_grows_refl: "ready_grows A A" and ready_grows_trans: "ready_grows A B \<Longrightarrow> ready_grows B C \<Longrightarrow> ready_grows A C"
  by (auto simp: ready_grows_def)

lemma released_grows: "released D k A A' \<Longrightarrow> ready_grows A A'"
  by (auto simp: released_def ready_grows_def)

lemma released_none: "released {} k A A"
  by (simp add: released_def)

lemma released_trans: "released D k A A' \<Longrightarrow> released E k A' A'' \<Longrightarrow> released (D \<union> E) k A A''"
  unfolding released_def by (auto simp: conj_commute)

lemma without_filter: "distinct xs \<Longrightarrow> remove1 (xEventListItem t) (remove1 (xGenericListItem t) xs) = filter (\<lambda>i. task_of i \<notin> {t}) xs"
proof -
  assume d: "distinct xs"
  have "(\<lambda>i. task_of i \<notin> {t}) = (\<lambda>i. xGenericListItem t \<noteq> i \<and> xEventListItem t \<noteq> i)" by (rule ext, case_tac i) auto
  then show ?thesis using d by (simp add: distinct_remove1_removeAll removeAll_filter_not_eq conj_commute)
qed

lemma event_free:
  assumes "heap_ok h A"
  shows "xEventListItem t \<notin> set (without (xEventListItem t) A l)"
  using without_set[OF assms] by blast

lemma released_one:
  assumes "heap_ok h A" and "xGenericListItem t \<in> set (A l)" and "\<forall>p. l \<noteq> pxReadyTasksLists p" and "priority_of t k = Some p"
    and "\<forall>p. xEventListItem t \<notin> set (A (pxReadyTasksLists p))"
  shows "released {t} k A (ready_after t k' (without (xEventListItem t) (without (xGenericListItem t) A)) p)"
proof -
  have "xGenericListItem t \<notin> set (A (pxReadyTasksLists q))" for q using heap_disjoint[OF assms(1,2)] assms(3) by blast
  then have r: "without (xEventListItem t) (without (xGenericListItem t) A) (pxReadyTasksLists q) = A (pxReadyTasksLists q)" for q
    using assms(5) by (simp add: without_def remove1_idem)
  have "without (xEventListItem t) (without (xGenericListItem t) A) m = filter (\<lambda>i. task_of i \<notin> {t}) (A m)" for m
    unfolding without_def by (rule without_filter[OF heap_facts(1)[OF assms(1)]])
  then show ?thesis using assms(4) r by (auto simp: released_def ready_after_def ins_end_set split: if_splits)
qed

lemma ready_no_event: "kinv m F k A \<Longrightarrow> xEventListItem t \<notin> set (A (pxReadyTasksLists p))"
  using tasks_invD(2)[OF kinvD(1), of m F k A "xEventListItem t" "pxReadyTasksLists p"] by auto

lemma unblock_ok:
  assumes "kinv m {} k A" and "xGenericListItem t \<in> set (A l)" and "\<forall>p. l \<noteq> pxReadyTasksLists p"
  shows "\<exists>n h A'. unblock_task t k = Some (k\<lparr>uxTopReadyPriority := n, heap := h\<rparr>) \<and> kinv m {} (k\<lparr>uxTopReadyPriority := n, heap := h\<rparr>) A' \<and> released {t} k A A' \<and> xItemValue h = xItemValue (heap k)"
proof -
  note D = tasks_invD[OF kinvD(1)[OF assms(1)]]
  have live: "tcbs k t \<noteq> None" using D(2)[OF assms(2)] by (cases l) (auto simp: priority_of_def)
  obtain h1 where h1: "remove_item (xGenericListItem t) k = Some (k\<lparr>heap := h1\<rparr>)" "kinv m {t} (k\<lparr>heap := h1\<rparr>) (without (xGenericListItem t) A)" "xItemValue h1 = xItemValue (heap k)"
    using take_generic[OF assms(1) live] by blast
  obtain h2 where h2: "remove_event_item t (k\<lparr>heap := h1\<rparr>) = Some (k\<lparr>heap := h2\<rparr>)" "kinv m {t} (k\<lparr>heap := h2\<rparr>) (without (xEventListItem t) (without (xGenericListItem t) A))" "xItemValue h2 = xItemValue h1"
    using drop_event[OF h1(2), of t] by auto
  have "\<forall>l. xEventListItem t \<notin> set (without (xEventListItem t) (without (xGenericListItem t) A) l)"
    using event_free[OF tasks_invD(1)[OF kinvD(1)[OF h1(2)]]] by blast
  from put_ready[OF h2(2) this] obtain k' p where k': "priority_of t k = Some p" "prvAddTaskToReadyList t (k\<lparr>heap := h2\<rparr>) = Some k'"
      "kinv m {} k' (ready_after t (k\<lparr>heap := h2\<rparr>) (without (xEventListItem t) (without (xGenericListItem t) A)) p)"
      "k' = k\<lparr>heap := h2\<rparr>\<lparr>uxTopReadyPriority := uxTopReadyPriority k', heap := heap k'\<rparr>" "xItemValue (heap k') = xItemValue h2"
    by (auto simp: priority_of_def)
  have "k' = k\<lparr>uxTopReadyPriority := uxTopReadyPriority k', heap := heap k'\<rparr>" by (subst k'(4)) simp
  then obtain n h where n: "k' = k\<lparr>uxTopReadyPriority := n, heap := h\<rparr>" by blast
  have "unblock_task t k = Some k'" using h1(1) h2(1) k'(2) by (simp add: unblock_task_def)
  moreover have "xItemValue (heap k') = xItemValue (heap k)" using k'(5) h2(3) h1(3) by simp
  ultimately show ?thesis using k'(3) released_one[OF D(1) assms(2,3) k'(1)] ready_no_event[OF assms(1)] n by auto
qed

section \<open>Ticks\<close>

definition due :: "kernel \<Rightarrow> (klist \<Rightarrow> titem list) \<Rightarrow> nat set" where
  "due k A = {t. xGenericListItem t \<in> set (A (pxDelayedTaskList k)) \<and> wake_time k (xGenericListItem t) \<le> xTickCount k}"

lemma kinv_next:
  assumes "kinv m {} k A" and "\<forall>i \<in> set (A (pxDelayedTaskList k)). m' \<le> unat (wake_time k i) \<and> n \<le> wake_time k i"
  shows "kinv m' {} (k\<lparr>xNextTaskUnblockTime := n\<rparr>) A"
proof -
  have "tasks_inv {} (k\<lparr>xNextTaskUnblockTime := n\<rparr>) A" using kinvD(1)[OF assms(1)] by (simp add: tasks_inv_def place_ok_frame)
  moreover have "wake_time (k\<lparr>xNextTaskUnblockTime := n\<rparr>) = wake_time k" by (simp add: wake_time_def fun_eq_iff)
  then have "time_inv m' (k\<lparr>xNextTaskUnblockTime := n\<rparr>) A" using kinvD(2)[OF assms(1)] assms(2) by (simp add: time_inv_def)
  moreover have "prio_inv (k\<lparr>xNextTaskUnblockTime := n\<rparr>) A" using kinvD(3)[OF assms(1)] by (simp add: prio_inv_def)
  ultimately show ?thesis by (simp add: kinv_def)
qed

lemma delayed_head:
  assumes "kinv m {} k A" and "A (pxDelayedTaskList k) = i # js"
  shows "\<exists>t. i = xGenericListItem t \<and> tcbs k t \<noteq> None \<and> listGET_OWNER_OF_HEAD_ENTRY (pxDelayedTaskList k) (heap k) = Some t"
proof -
  note D = tasks_invD[OF kinvD(1)[OF assms(1)]] and L = delayed_lists[OF kinvD(2)[OF assms(1)]]
  have i: "i \<in> set (A (pxDelayedTaskList k))" using assms(2) by simp
  then obtain t where t: "i = xGenericListItem t" using L delayed_generic[OF kinvD(1)[OF assms(1)]] by blast
  have "tcbs k t \<noteq> None" using D(2)[OF i] L t by auto
  then show ?thesis using head_ok[OF D(1), of "pxDelayedTaskList k"] assms(2) t D(3) by simp
qed

lemma delayed_not_ready: "time_inv m k A \<Longrightarrow> pxDelayedTaskList k \<noteq> pxReadyTasksLists p"
  by (drule delayed_lists) auto

lemma unblock_exit:
  assumes "kinv m {} k A" and "\<forall>i \<in> set (A (pxDelayedTaskList k)). xTickCount k < wake_time k i"
  shows "\<exists>u. unblock_loop s k = Some (s, k\<lparr>xNextTaskUnblockTime := u\<rparr>) \<and> kok (k\<lparr>xNextTaskUnblockTime := u\<rparr>) A \<and> due k A = {}"
proof -
  note D = tasks_invD[OF kinvD(1)[OF assms(1)]]
  have suc: "Suc (unat (xTickCount k)) \<le> unat (wake_time k i)" if "i \<in> set (A (pxDelayedTaskList k))" for i
    using assms(2) that by (simp add: Suc_leI word_less_nat_alt)
  have e: "listLIST_IS_EMPTY (pxDelayedTaskList k) (heap k) \<longleftrightarrow> A (pxDelayedTaskList k) = []" using heap_facts(2)[OF D(1)] by (simp add: list_macros)
  have d: "due k A = {}" using assms(2) by (force simp: due_def)
  show ?thesis
  proof (cases "A (pxDelayedTaskList k)")
    case Nil
    then have "kok (k\<lparr>xNextTaskUnblockTime := portMAX_DELAY\<rparr>) A" using kinv_next[OF assms(1)] by simp
    then show ?thesis using Nil d e by (subst unblock_loop.simps) auto
  next
    case (Cons i js)
    obtain t where t: "i = xGenericListItem t" "listGET_OWNER_OF_HEAD_ENTRY (pxDelayedTaskList k) (heap k) = Some t"
      using delayed_head[OF assms(1) Cons] by blast
    have "wake_time k i \<le> wake_time k j" if "j \<in> set (A (pxDelayedTaskList k))" for j using kinvD(2)[OF assms(1)] Cons that by (auto simp: time_inv_def)
    then have "kok (k\<lparr>xNextTaskUnblockTime := wake_time k i\<rparr>) A" using kinv_next[OF assms(1), of _ "wake_time k i"] suc by simp
    then show ?thesis using Cons t d e assms(2) by (subst unblock_loop.simps) (auto simp: list_macros wake_time_def)
  qed
qed

lemma unblock_step:
  assumes "kinv m {} k A" and "current_priority k = Some c" and "A (pxDelayedTaskList k) = i # js" and "\<not> xTickCount k < wake_time k i"
  shows "\<exists>t p n h A'. let k' = k\<lparr>uxTopReadyPriority := n, heap := h\<rparr> in unblock_loop s k = unblock_loop (s \<or> c \<le> p) k' \<and> kinv m {} k' A' \<and> priority_of t k = Some p
    \<and> released {t} k A A' \<and> xItemValue h = xItemValue (heap k) \<and> A' (pxDelayedTaskList k) = js \<and> due k A = insert t (due k' A')"
proof -
  note D = tasks_invD[OF kinvD(1)[OF assms(1)]] and T = kinvD(2)[OF assms(1)]
  obtain t where t: "i = xGenericListItem t" "tcbs k t \<noteq> None" "listGET_OWNER_OF_HEAD_ENTRY (pxDelayedTaskList k) (heap k) = Some t"
    using delayed_head[OF assms(1,3)] by blast
  obtain p where p: "priority_of t k = Some p" using t(2) by (auto simp: priority_of_def)
  have "xGenericListItem t \<in> set (A (pxDelayedTaskList k))" using assms(3) t(1) by simp
  from unblock_ok[OF assms(1) this] delayed_not_ready[OF T] obtain n h A' where u: "unblock_task t k = Some (k\<lparr>uxTopReadyPriority := n, heap := h\<rparr>)"
      "kinv m {} (k\<lparr>uxTopReadyPriority := n, heap := h\<rparr>) A'" "released {t} k A A'" "xItemValue h = xItemValue (heap k)" by blast
  let ?k = "k\<lparr>uxTopReadyPriority := n, heap := h\<rparr>"
  have "i \<notin> set js" using heap_facts(1)[OF D(1), of "pxDelayedTaskList k"] assms(3) by simp
  moreover have "j = xGenericListItem (task_of j)" if "j \<in> set js" for j
    using that assms(3) delayed_generic[OF kinvD(1)[OF assms(1)]] delayed_lists[OF T] by (metis list.set_intros(2) task_of.simps(1))
  ultimately have "\<forall>j \<in> set js. task_of j \<noteq> t" using t(1) by metis
  then have A': "A' (pxDelayedTaskList k) = js" using u(3) delayed_not_ready[OF T] assms(3) t(1) by (simp add: released_def)
  have "wake_time ?k = wake_time k" using u(4) by (simp add: wake_time_def fun_eq_iff)
  then have "due k A = insert t (due ?k A')" using assms(3,4) t(1) A' by (auto simp: due_def)
  moreover have "priority_of t ?k = Some p" "current_priority ?k = Some c" using p assms(2) by (simp_all add: priority_of_def current_priority_def)
  then have "unblock_loop s k = unblock_loop (s \<or> c \<le> p) ?k"
    using heap_facts(2)[OF D(1)] assms(3,4) t(1,3) u(1) by (subst unblock_loop.simps) (simp add: list_macros wake_time_def)
  ultimately show ?thesis using u p A' unfolding Let_def by blast
qed

lemma unblock_loop_ok:
  assumes "kinv m {} k A" and "current_priority k = Some c"
  shows "\<exists>s' n h u A'. unblock_loop s k = Some (s', k\<lparr>uxTopReadyPriority := n, heap := h, xNextTaskUnblockTime := u\<rparr>)
    \<and> kok (k\<lparr>uxTopReadyPriority := n, heap := h, xNextTaskUnblockTime := u\<rparr>) A' \<and> released (due k A) k A A' \<and> xItemValue h = xItemValue (heap k)
    \<and> (s' \<longleftrightarrow> s \<or> (\<exists>t \<in> due k A. \<exists>p. priority_of t k = Some p \<and> c \<le> p))"
  using assms
proof (induction "length (A (pxDelayedTaskList k))" arbitrary: k A s rule: less_induct)
  case less
  show ?case
  proof (cases "\<forall>i \<in> set (A (pxDelayedTaskList k)). xTickCount k < wake_time k i")
    case True
    then obtain u where u: "unblock_loop s k = Some (s, k\<lparr>xNextTaskUnblockTime := u\<rparr>)" "kok (k\<lparr>xNextTaskUnblockTime := u\<rparr>) A" "due k A = {}"
      using unblock_exit[OF less.prems(1), of s] by blast
    show ?thesis using u released_none by (intro exI[of _ s] exI[of _ "uxTopReadyPriority k"] exI[of _ "heap k"] exI[of _ u] exI[of _ A]) simp
  next
    case False
    then obtain i js where ij: "A (pxDelayedTaskList k) = i # js" by (cases "A (pxDelayedTaskList k)") auto
    have "\<not> xTickCount k < wake_time k i" using False ij kinvD(2)[OF less.prems(1)] by (auto simp: time_inv_def dest: order_less_le_trans)
    from unblock_step[OF less.prems ij this, of s] obtain t p n h A' where u: "unblock_loop s k = unblock_loop (s \<or> c \<le> p) (k\<lparr>uxTopReadyPriority := n, heap := h\<rparr>)"
        "kinv m {} (k\<lparr>uxTopReadyPriority := n, heap := h\<rparr>) A'" "priority_of t k = Some p" "released {t} k A A'" "xItemValue h = xItemValue (heap k)"
        "A' (pxDelayedTaskList k) = js" "due k A = insert t (due (k\<lparr>uxTopReadyPriority := n, heap := h\<rparr>) A')"
      unfolding Let_def by blast
    let ?k = "k\<lparr>uxTopReadyPriority := n, heap := h\<rparr>"
    have pr: "priority_of x ?k = priority_of x k" "current_priority ?k = current_priority k" for x by (simp_all add: priority_of_def current_priority_def)
    obtain s' n' h' u' A'' where r: "unblock_loop (s \<or> c \<le> p) ?k = Some (s', ?k\<lparr>uxTopReadyPriority := n', heap := h', xNextTaskUnblockTime := u'\<rparr>)"
        "kok (?k\<lparr>uxTopReadyPriority := n', heap := h', xNextTaskUnblockTime := u'\<rparr>) A''" "released (due ?k A') ?k A' A''" "xItemValue h' = xItemValue (heap ?k)"
        "s' \<longleftrightarrow> (s \<or> c \<le> p) \<or> (\<exists>t \<in> due ?k A'. \<exists>p. priority_of t ?k = Some p \<and> c \<le> p)"
      using less.hyps[of A' ?k "s \<or> c \<le> p"] u(2,6) less.prems(2) ij pr by auto
    have "released (due ?k A') k A' A''" using r(3) by (simp add: released_def pr)
    then have "released (due k A) k A A''" using released_trans[OF u(4)] by (simp add: u(7))
    moreover have "s' \<longleftrightarrow> s \<or> (\<exists>t \<in> due k A. \<exists>p. priority_of t k = Some p \<and> c \<le> p)" using r(5) u(3) by (auto simp: u(7) pr)
    ultimately show ?thesis using r u(1,5)
      by (intro exI[of _ s'] exI[of _ n'] exI[of _ h'] exI[of _ u'] exI[of _ A'']) simp
  qed
qed

text \<open>The tasks whose delay ends with the next tick.\<close>

definition wakes :: "32 word \<Rightarrow> kernel \<Rightarrow> (klist \<Rightarrow> titem list) \<Rightarrow> nat set" where
  "wakes now k A = {t. wake_time k (xGenericListItem t) = now \<and> (xGenericListItem t \<in> set (A xDelayedTaskList1) \<or> xGenericListItem t \<in> set (A xDelayedTaskList2))}"

lemma unat_suc: "x + 1 \<noteq> 0 \<Longrightarrow> unat (x + 1) = Suc (unat x)" for x :: "32 word"
  using unatSuc[of x] by (simp add: add.commute)

lemma wakes_pair: "time_inv m k A \<Longrightarrow> wakes now k A = {t. wake_time k (xGenericListItem t) = now
    \<and> (xGenericListItem t \<in> set (A (pxDelayedTaskList k)) \<or> xGenericListItem t \<in> set (A (pxOverflowDelayedTaskList k)))}"
  by (auto simp: time_inv_def wakes_def)

lemma tick_count_ok:
  fixes k defines "k1 \<equiv> k\<lparr>xTickCount := xTickCount k + 1\<rparr>"
  assumes "kok k A" and "xTickCount k + 1 \<noteq> 0"
  shows "kinv (unat (xTickCount k1)) {} k1 A" "due k1 A = wakes (xTickCount k1) k A"
proof -
  note T = kinvD(2)[OF assms(2)] and u = unat_suc[OF assms(3)]
  have w: "wake_time k1 = wake_time k" by (simp add: k1_def wake_time_def fun_eq_iff)
  have "place_ok k1 l i = place_ok k l i" for l i by (cases l; cases i) (simp_all add: k1_def priority_of_def)
  then have "tasks_inv {} k1 A" using kinvD(1)[OF assms(2)] by (simp add: tasks_inv_def k1_def)
  moreover have "x < xTickCount k \<Longrightarrow> x < xTickCount k + 1" for x using u by (simp add: word_less_nat_alt)
  then have "time_inv (unat (xTickCount k1)) k1 A" using T u unfolding time_inv_def w by (auto simp: k1_def)
  moreover have "prio_inv k1 A" using kinvD(3)[OF assms(2)] by (simp add: prio_inv_def k1_def)
  ultimately show "kinv (unat (xTickCount k1)) {} k1 A" by (simp add: kinv_def)
  have "\<not> wake_time k i < xTickCount k + 1" if "i \<in> set (A (pxDelayedTaskList k))" for i
    using T that u by (auto simp: time_inv_def word_less_nat_alt not_less)
  moreover have "wake_time k i \<noteq> xTickCount k + 1" if "i \<in> set (A (pxOverflowDelayedTaskList k))" for i
    using T that u by (auto simp: time_inv_def word_less_nat_alt)
  ultimately show "due k1 A = wakes (xTickCount k1) k A"
    unfolding due_def wakes_pair[OF T] w by (auto simp: k1_def not_less intro: order.antisym)
qed

lemma wrap_max: "x + 1 = 0 \<Longrightarrow> unat x = 2 ^ 32 - 1" for x :: "32 word"
proof -
  assume "x + 1 = 0"
  then have "x = - 1" by (simp add: eq_neg_iff_add_eq_0)
  also have "\<dots> = 0xffffffff" by simp
  finally show ?thesis by simp
qed

lemma switch_lists_ok:
  fixes k defines "k1 \<equiv> k\<lparr>xTickCount := xTickCount k + 1\<rparr>"
  assumes "kok k A" and "xTickCount k + 1 = 0"
  shows "\<exists>u. let k' = k1\<lparr>pxDelayedTaskList := pxOverflowDelayedTaskList k, pxOverflowDelayedTaskList := pxDelayedTaskList k, xNumOfOverflows := xNumOfOverflows k + 1, xNextTaskUnblockTime := u\<rparr>
    in taskSWITCH_DELAYED_LISTS k1 = Some k' \<and> kinv (unat (xTickCount k')) {} k' A \<and> due k' A = wakes (xTickCount k1) k A"
proof -
  note D = tasks_invD[OF kinvD(1)[OF assms(2)]] and T = kinvD(2)[OF assms(2)]
  let ?o = "pxOverflowDelayedTaskList k"
  have "unat (wake_time k i) < 2 ^ 32" for i using unsigned_less[of "wake_time k i"] by simp
  then have e: "A (pxDelayedTaskList k) = []" using T wrap_max[OF assms(3)] unfolding time_inv_def by (cases "A (pxDelayedTaskList k)") (auto simp: not_le[symmetric])
  define k2 where "k2 = (\<lambda>u. k1\<lparr>pxDelayedTaskList := ?o, pxOverflowDelayedTaskList := pxDelayedTaskList k, xNumOfOverflows := xNumOfOverflows k + 1, xNextTaskUnblockTime := u\<rparr>)"
  have w: "wake_time (k2 u) = wake_time k" for u by (simp add: k1_def k2_def wake_time_def fun_eq_iff)
  have "place_ok (k2 u) l i = place_ok k l i" for u l i by (cases l; cases i) (simp_all add: k1_def k2_def priority_of_def)
  then have "tasks_inv {} (k2 u) A" for u using kinvD(1)[OF assms(2)] by (simp add: tasks_inv_def k1_def k2_def)
  moreover have "prio_inv (k2 u) A" for u using kinvD(3)[OF assms(2)] by (simp add: prio_inv_def k1_def k2_def)
  moreover have "time_inv 0 (k2 u) A" if "\<forall>i \<in> set (A ?o). u \<le> wake_time k i" for u
    using T e that unfolding time_inv_def w by (auto simp: k1_def k2_def)
  ultimately have i: "kinv (unat (xTickCount (k2 u))) {} (k2 u) A" if "\<forall>i \<in> set (A ?o). u \<le> wake_time k i" for u using that assms(3) by (simp add: kinv_def k1_def k2_def)
  have d: "due (k2 u) A = wakes (xTickCount k1) k A" for u
    unfolding due_def wakes_pair[OF T] w using e assms(3) by (auto simp: k1_def k2_def)
  have "\<exists>u. taskSWITCH_DELAYED_LISTS k1 = Some (k2 u) \<and> (\<forall>i \<in> set (A ?o). u \<le> wake_time k i)"
  proof (cases "A ?o")
    case Nil
    then show ?thesis using heap_facts(2)[OF D(1)] by (intro exI[of _ portMAX_DELAY]) (simp add: taskSWITCH_DELAYED_LISTS_def k1_def k2_def list_macros)
  next
    case (Cons i js)
    have "A (pxDelayedTaskList (k2 0)) = i # js" using Cons by (simp add: k2_def)
    from delayed_head[OF i[of 0] this] obtain t where t: "i = xGenericListItem t" "listGET_OWNER_OF_HEAD_ENTRY ?o (heap k) = Some t" by (auto simp: k1_def k2_def)
    have "\<forall>j \<in> set (A ?o). wake_time k i \<le> wake_time k j" using T Cons by (auto simp: time_inv_def)
    then show ?thesis using t Cons heap_facts(2)[OF D(1)]
      by (intro exI[of _ "wake_time k i"]) (simp add: taskSWITCH_DELAYED_LISTS_def head_wake_time_def k1_def k2_def list_macros wake_time_def)
  qed
  then show ?thesis using i d unfolding Let_def k2_def by blast
qed

text \<open>Both cases of the tick count, and the loop behind the test of the next time to unblock a task.\<close>

lemma tick_lists_ok:
  assumes "kok k A"
  shows "\<exists>k2. (let k1 = k\<lparr>xTickCount := xTickCount k + 1\<rparr> in if xTickCount k1 = 0 then taskSWITCH_DELAYED_LISTS k1 else Some k1) = Some k2
    \<and> kinv (unat (xTickCount k2)) {} k2 A \<and> due k2 A = wakes (xTickCount k + 1) k A \<and> heap k2 = heap k \<and> tcbs k2 = tcbs k \<and> pxCurrentTCB k2 = pxCurrentTCB k
    \<and> xTickCount k2 = xTickCount k + 1 \<and> uxSchedulerSuspended k2 = uxSchedulerSuspended k \<and> uxPendedTicks k2 = uxPendedTicks k \<and> fixed k2 = fixed k
    \<and> xNumOfOverflows k2 = xNumOfOverflows k + (if xTickCount k + 1 = 0 then 1 else 0)"
proof (cases "xTickCount k + 1 = 0")
  case True
  then show ?thesis using switch_lists_ok[OF assms True] by (auto simp: Let_def)
next
  case False
  then show ?thesis using tick_count_ok[OF assms False] by (simp add: Let_def)
qed

lemma tick_unblocks:
  assumes "kinv (unat (xTickCount k)) {} k A" and "current_priority k = Some c"
  shows "\<exists>s n h u A'. (if xTickCount k \<ge> xNextTaskUnblockTime k then unblock_loop False k else Some (False, k)) = Some (s, k\<lparr>uxTopReadyPriority := n, heap := h, xNextTaskUnblockTime := u\<rparr>)
    \<and> kok (k\<lparr>uxTopReadyPriority := n, heap := h, xNextTaskUnblockTime := u\<rparr>) A' \<and> released (due k A) k A A' \<and> xItemValue h = xItemValue (heap k)
    \<and> (s \<longleftrightarrow> (\<exists>t \<in> due k A. \<exists>p. priority_of t k = Some p \<and> c \<le> p))"
proof (cases "xNextTaskUnblockTime k \<le> xTickCount k")
  case True
  then show ?thesis using unblock_loop_ok[OF assms, of False] by simp
next
  case False
  have later: "xTickCount k < wake_time k i" "xNextTaskUnblockTime k \<le> wake_time k i" if "i \<in> set (A (pxDelayedTaskList k))" for i
    using kinvD(2)[OF assms(1)] that False by (auto simp: time_inv_def)
  then have "due k A = {}" by (force simp: due_def)
  moreover have "kok k A" using kinv_next[OF assms(1), of "Suc (unat (xTickCount k))" "xNextTaskUnblockTime k"] later by (simp add: word_less_nat_alt Suc_leI)
  ultimately show ?thesis using False released_none
    by (intro exI[of _ False] exI[of _ "uxTopReadyPriority k"] exI[of _ "heap k"] exI[of _ "xNextTaskUnblockTime k"] exI[of _ A]) simp
qed

lemma tick_ok:
  assumes "kok k A" and "uxSchedulerSuspended k = 0" and "current_priority k = Some c"
  shows "\<exists>k' A'. xTaskIncrementTick k = Some ((\<exists>t \<in> wakes (xTickCount k + 1) k A. \<exists>p. priority_of t k = Some p \<and> c \<le> p) \<or> length (A' (pxReadyTasksLists c)) > 1, k')
    \<and> kok k' A' \<and> released (wakes (xTickCount k + 1) k A) k A A' \<and> xTickCount k' = xTickCount k + 1 \<and> wake_time k' = wake_time k
    \<and> tcbs k' = tcbs k \<and> pxCurrentTCB k' = pxCurrentTCB k \<and> uxSchedulerSuspended k' = 0 \<and> uxPendedTicks k' = uxPendedTicks k \<and> fixed k' = fixed k
    \<and> xNumOfOverflows k' = xNumOfOverflows k + (if xTickCount k + 1 = 0 then 1 else 0)"
proof -
  obtain k2 where k2: "(let k1 = k\<lparr>xTickCount := xTickCount k + 1\<rparr> in if xTickCount k1 = 0 then taskSWITCH_DELAYED_LISTS k1 else Some k1) = Some k2"
      "kinv (unat (xTickCount k2)) {} k2 A" "due k2 A = wakes (xTickCount k + 1) k A" "heap k2 = heap k" "tcbs k2 = tcbs k" "pxCurrentTCB k2 = pxCurrentTCB k"
      "xTickCount k2 = xTickCount k + 1" "uxSchedulerSuspended k2 = uxSchedulerSuspended k" "uxPendedTicks k2 = uxPendedTicks k" "fixed k2 = fixed k"
      "xNumOfOverflows k2 = xNumOfOverflows k + (if xTickCount k + 1 = 0 then 1 else 0)"
    using tick_lists_ok[OF assms(1)] by blast
  have pr: "priority_of t k2 = priority_of t k" "current_priority k2 = Some c" for t using assms(3) k2(5,6) by (simp_all add: priority_of_def current_priority_def)
  obtain s n h u A' where u: "(if xTickCount k2 \<ge> xNextTaskUnblockTime k2 then unblock_loop False k2 else Some (False, k2)) = Some (s, k2\<lparr>uxTopReadyPriority := n, heap := h, xNextTaskUnblockTime := u\<rparr>)"
      "kok (k2\<lparr>uxTopReadyPriority := n, heap := h, xNextTaskUnblockTime := u\<rparr>) A'" "released (due k2 A) k2 A A'" "xItemValue h = xItemValue (heap k2)"
      "s \<longleftrightarrow> (\<exists>t \<in> due k2 A. \<exists>p. priority_of t k2 = Some p \<and> c \<le> p)"
    using tick_unblocks[OF k2(2) pr(2)] by blast
  define k' where "k' = k2\<lparr>uxTopReadyPriority := n, heap := h, xNextTaskUnblockTime := u\<rparr>"
  have "uxNumberOfItems h l = length (A' l)" for l using heap_facts(2)[OF tasks_invD(1)[OF kinvD(1)[OF u(2)]]] by simp
  moreover have "current_priority k' = Some c" using pr(2) by (simp add: k'_def current_priority_def priority_of_def)
  ultimately have "xTaskIncrementTick k = Some (s \<or> length (A' (pxReadyTasksLists c)) > 1, k')"
    using assms(2) k2(1) u(1) unfolding xTaskIncrementTick_def Let_def k'_def by (simp add: list_macros)
  moreover have "released (wakes (xTickCount k + 1) k A) k A A'" using u(3) k2(3) pr(1) by (simp add: released_def)
  moreover have "wake_time k' = wake_time k" using u(4) k2(4) by (simp add: k'_def wake_time_def fun_eq_iff)
  ultimately show ?thesis using u(2,5) k2(3,5-11) pr(1) assms(2) by (intro exI[of _ k'] exI[of _ A']) (simp add: k'_def)
qed

lemma some_highest: "prio_inv k A \<Longrightarrow> A (pxReadyTasksLists q) \<noteq> [] \<Longrightarrow> \<exists>p. highest_ready A p"
proof -
  assume P: "prio_inv k A" and q: "A (pxReadyTasksLists q) \<noteq> []"
  have "\<forall>p. A (pxReadyTasksLists p) \<noteq> [] \<longrightarrow> p \<le> uxTopReadyPriority k" using P by (simp add: prio_inv_def)
  then obtain p where "A (pxReadyTasksLists p) \<noteq> []" "\<forall>q. A (pxReadyTasksLists q) \<noteq> [] \<longrightarrow> q \<le> p"
    using ex_has_greatest_nat[of "\<lambda>p. A (pxReadyTasksLists p) \<noteq> []" q id "Suc (uxTopReadyPriority k)"] q by (auto simp: less_Suc_eq_le)
  then show ?thesis by (auto simp: highest_ready_def not_le[symmetric])
qed

lemma current_live: "prio_inv k A \<Longrightarrow> (\<exists>c. current_priority k = Some c) \<longleftrightarrow> pxCurrentTCB k \<noteq> None"
  by (cases "pxCurrentTCB k") (auto simp: prio_inv_def current_priority_def priority_of_def)

text \<open>The whole tick interrupt: the tick, and the switch it asks for, which always finds a task.\<close>

lemma tick_isr_ok:
  assumes "kok k A" and "uxSchedulerSuspended k = 0" and "pxCurrentTCB k \<noteq> None"
  shows "\<exists>k' A'. xPortSysTickHandle k = Some k' \<and> kok k' A' \<and> released (wakes (xTickCount k + 1) k A) k A A' \<and> xTickCount k' = xTickCount k + 1 \<and> wake_time k' = wake_time k
    \<and> tcbs k' = tcbs k \<and> pxCurrentTCB k' \<noteq> None \<and> uxSchedulerSuspended k' = 0 \<and> fixed k' = fixed k"
proof -
  obtain c where c: "current_priority k = Some c" using current_live[OF kinvD(3)[OF assms(1)]] assms(3) by blast
  obtain k1 A1 where k1: "xTaskIncrementTick k = Some ((\<exists>t \<in> wakes (xTickCount k + 1) k A. \<exists>p. priority_of t k = Some p \<and> c \<le> p) \<or> length (A1 (pxReadyTasksLists c)) > 1, k1)"
      "kok k1 A1" "released (wakes (xTickCount k + 1) k A) k A A1" "xTickCount k1 = xTickCount k + 1" "wake_time k1 = wake_time k" "tcbs k1 = tcbs k"
      "pxCurrentTCB k1 = pxCurrentTCB k" "uxSchedulerSuspended k1 = 0" "fixed k1 = fixed k"
    using tick_ok[OF assms(1,2) c] by blast
  show ?thesis
  proof (cases "(\<exists>t \<in> wakes (xTickCount k + 1) k A. \<exists>p. priority_of t k = Some p \<and> c \<le> p) \<or> length (A1 (pxReadyTasksLists c)) > 1")
    case True
    then have "\<exists>q. A1 (pxReadyTasksLists q) \<noteq> []"
    proof
      assume "\<exists>t \<in> wakes (xTickCount k + 1) k A. \<exists>p. priority_of t k = Some p \<and> c \<le> p"
      then obtain t p where "t \<in> wakes (xTickCount k + 1) k A" "priority_of t k = Some p" by blast
      then have "xGenericListItem t \<in> set (A1 (pxReadyTasksLists p))" using k1(3) by (simp add: released_def)
      then show ?thesis by (metis empty_iff empty_set)
    qed (intro exI[of _ c], auto)
    then obtain p where p: "highest_ready A1 p" using some_highest[OF kinvD(3)[OF k1(2)]] by blast
    obtain k2 h t where k2: "vTaskSwitchContext k1 = Some k2" "kinv (Suc (unat (xTickCount k1))) {} k2 A1" "wake_time k2 = wake_time k1"
        "k2 = k1\<lparr>uxTopReadyPriority := p, heap := h, pxCurrentTCB := Some t\<rparr>"
      using switch_ok[OF k1(2,8) p] by blast
    moreover have "xTickCount k2 = xTickCount k1" "tcbs k2 = tcbs k1" "uxSchedulerSuspended k2 = 0" "pxCurrentTCB k2 = Some t" "fixed k2 = fixed k1" using k1(8) by (simp_all add: k2(4))
    ultimately show ?thesis using k1 True by (intro exI[of _ k2] exI[of _ A1]) (simp add: xPortSysTickHandle_def)
  next
    case False
    then show ?thesis using k1 assms(3) by (auto simp: xPortSysTickHandle_def)
  qed
qed

section \<open>Delays\<close>

fun tick_interrupts :: "nat \<Rightarrow> kernel \<Rightarrow> kernel option" where
  "tick_interrupts 0 k = Some k"
| "tick_interrupts (Suc n) k = do { k1 \<leftarrow> tick_interrupts n k; xPortSysTickHandle k1 }"

definition asleep :: "nat \<Rightarrow> kernel \<Rightarrow> (klist \<Rightarrow> titem list) \<Rightarrow> bool" where
  "asleep t k A \<longleftrightarrow> xGenericListItem t \<in> set (A xDelayedTaskList1) \<or> xGenericListItem t \<in> set (A xDelayedTaskList2)"

lemma sleeps_on: "asleep t k A \<Longrightarrow> released D k A A' \<Longrightarrow> t \<notin> D \<Longrightarrow> asleep t k' A'"
  by (auto simp: asleep_def released_def)

lemma distance_suc: "n < unat (w - x) \<Longrightarrow> x + of_nat n \<noteq> w" "w = x + of_nat (unat (w - x))" for x :: "32 word"
proof -
  show "n < unat (w - x) \<Longrightarrow> x + of_nat n \<noteq> w"
  proof
    assume n: "n < unat (w - x)" and "x + of_nat n = w"
    then have "w - x = of_nat n" by (auto simp: algebra_simps)
    then have "unat (w - x) = n" using n unsigned_less[of "w - x"] by (simp add: unat_of_nat)
    then show False using n by simp
  qed
qed simp

lemma sleep_ticks:
  assumes "kok k A" and "uxSchedulerSuspended k = 0" and "pxCurrentTCB k \<noteq> None" and "asleep t k A" and "n < unat (wake_time k (xGenericListItem t) - xTickCount k)"
  shows "\<exists>k' A'. tick_interrupts n k = Some k' \<and> kok k' A' \<and> uxSchedulerSuspended k' = 0 \<and> pxCurrentTCB k' \<noteq> None \<and> asleep t k' A' \<and> wake_time k' = wake_time k
    \<and> tcbs k' = tcbs k \<and> xTickCount k' = xTickCount k + of_nat n"
  using assms(5)
proof (induction n)
  case 0
  then show ?case using assms(1-4) by auto
next
  case (Suc n)
  then obtain k1 A1 where k1: "tick_interrupts n k = Some k1" "kok k1 A1" "uxSchedulerSuspended k1 = 0" "pxCurrentTCB k1 \<noteq> None" "asleep t k1 A1" "wake_time k1 = wake_time k"
      "tcbs k1 = tcbs k" "xTickCount k1 = xTickCount k + of_nat n" by auto
  obtain k2 A2 where k2: "xPortSysTickHandle k1 = Some k2" "kok k2 A2" "released (wakes (xTickCount k1 + 1) k1 A1) k1 A1 A2" "xTickCount k2 = xTickCount k1 + 1" "wake_time k2 = wake_time k1"
      "tcbs k2 = tcbs k1" "pxCurrentTCB k2 \<noteq> None" "uxSchedulerSuspended k2 = 0"
    using tick_isr_ok[OF k1(2-4)] by blast
  have "t \<notin> wakes (xTickCount k1 + 1) k1 A1" using distance_suc(1)[OF Suc.prems] k1(6,8) by (auto simp: wakes_def algebra_simps)
  then have "asleep t k2 A2" using sleeps_on[OF k1(5) k2(3)] by simp
  then show ?case using k1 k2 by (auto simp: algebra_simps)
qed

lemma sleep_ends:
  assumes "kok k A" and "uxSchedulerSuspended k = 0" and "pxCurrentTCB k \<noteq> None" and "asleep t k A"
    and "wake_time k (xGenericListItem t) \<noteq> xTickCount k" and "priority_of t k = Some p"
  shows "\<exists>k' A'. tick_interrupts (unat (wake_time k (xGenericListItem t) - xTickCount k)) k = Some k' \<and> kok k' A' \<and> xGenericListItem t \<in> set (A' (pxReadyTasksLists p))
    \<and> xTickCount k' = wake_time k (xGenericListItem t)"
proof -
  let ?d = "unat (wake_time k (xGenericListItem t) - xTickCount k)"
  have d: "?d \<noteq> 0" using assms(5) by (simp add: unsigned_eq_0_iff)
  then obtain n where n: "?d = Suc n" by (cases ?d) auto
  obtain k1 A1 where k1: "tick_interrupts n k = Some k1" "kok k1 A1" "uxSchedulerSuspended k1 = 0" "pxCurrentTCB k1 \<noteq> None" "asleep t k1 A1" "wake_time k1 = wake_time k"
      "tcbs k1 = tcbs k" "xTickCount k1 = xTickCount k + of_nat n"
    using sleep_ticks[OF assms(1-4), of n] n by auto
  obtain k2 A2 where k2: "xPortSysTickHandle k1 = Some k2" "kok k2 A2" "released (wakes (xTickCount k1 + 1) k1 A1) k1 A1 A2" "xTickCount k2 = xTickCount k1 + 1"
    using tick_isr_ok[OF k1(2-4)] by blast
  have w: "xTickCount k1 + 1 = wake_time k (xGenericListItem t)" using distance_suc(2)[of "wake_time k (xGenericListItem t)" "xTickCount k"] n k1(8) by (simp add: algebra_simps)
  then have "t \<in> wakes (xTickCount k1 + 1) k1 A1" using k1(5,6) by (simp add: wakes_def asleep_def)
  moreover have "priority_of t k1 = Some p" using assms(6) k1(7) by (simp add: priority_of_def)
  ultimately have "xGenericListItem t \<in> set (A2 (pxReadyTasksLists p))" using k2(3) by (simp add: released_def)
  then show ?thesis using k1(1) k2 w n by auto
qed

section \<open>Resuming the scheduler\<close>

definition pending_tasks :: "(klist \<Rightarrow> titem list) \<Rightarrow> nat set" where
  "pending_tasks A = {t. xEventListItem t \<in> set (A xPendingReadyList)}"

lemma without_commute: "without i (without j A) = without j (without i A)"
  by (simp add: without_def remove1_commute)

lemma pending_step:
  assumes "kinv m {} k A" and "A xPendingReadyList = i # js" and "current_priority k = Some c"
  shows "\<exists>t p n h A'. let k' = k\<lparr>uxTopReadyPriority := n, heap := h\<rparr> in pending_loop y k = pending_loop (y \<or> c \<le> p) k' \<and> kinv m {} k' A' \<and> priority_of t k = Some p
    \<and> released {t} k A A' \<and> xItemValue h = xItemValue (heap k) \<and> A' xPendingReadyList = js \<and> pending_tasks A = insert t (pending_tasks A')"
proof -
  note D = tasks_invD[OF kinvD(1)[OF assms(1)]]
  have ev: "\<exists>t. j = xEventListItem t \<and> tcbs k t \<noteq> None" if "j \<in> set (i # js)" for j using D(2)[of j xPendingReadyList] that assms(2) by (cases j) auto
  obtain t where t: "i = xEventListItem t" "tcbs k t \<noteq> None" using ev[of i] by auto
  have e: "xEventListItem t \<in> set (A xPendingReadyList)" using assms(2) t(1) by simp
  obtain l where l: "blocked_list l" "xGenericListItem t \<in> set (A l)" using D(10)[OF e] by auto
  have hd: "listGET_OWNER_OF_HEAD_ENTRY xPendingReadyList (heap k) = Some t" using head_ok[OF D(1), of xPendingReadyList] assms(2) t D(4) by simp
  obtain h1 where h1: "remove_event_item t k = Some (k\<lparr>heap := h1\<rparr>)" "kinv m {} (k\<lparr>heap := h1\<rparr>) (without (xEventListItem t) A)" "xItemValue h1 = xItemValue (heap k)"
    using drop_event[OF assms(1), of t] by blast
  have r1: "remove_item (xEventListItem t) k = Some (k\<lparr>heap := h1\<rparr>)" using h1(1) heap_cont[OF D(1), of "xEventListItem t" xPendingReadyList] e by (simp add: remove_event_item_def list_macros)
  obtain h2 where h2: "remove_item (xGenericListItem t) (k\<lparr>heap := h1\<rparr>) = Some (k\<lparr>heap := h2\<rparr>)" "kinv m {t} (k\<lparr>heap := h2\<rparr>) (without (xGenericListItem t) (without (xEventListItem t) A))"
      "xItemValue h2 = xItemValue h1"
    using take_generic[OF h1(2)] t(2) by auto
  let ?A = "without (xEventListItem t) (without (xGenericListItem t) A)"
  have "\<forall>l. xEventListItem t \<notin> set (?A l)" using heap_facts(1)[OF D(1)] by (simp add: without_def)
  then obtain k' p where k': "priority_of t k = Some p" "prvAddTaskToReadyList t (k\<lparr>heap := h2\<rparr>) = Some k'" "kinv m {} k' (ready_after t (k\<lparr>heap := h2\<rparr>) ?A p)"
      "k' = k\<lparr>heap := h2\<rparr>\<lparr>uxTopReadyPriority := uxTopReadyPriority k', heap := heap k'\<rparr>" "xItemValue (heap k') = xItemValue h2"
    using put_ready[OF h2(2)[unfolded without_commute[of "xGenericListItem t"]]] by (auto simp: priority_of_def)
  have "k' = k\<lparr>uxTopReadyPriority := uxTopReadyPriority k', heap := heap k'\<rparr>" by (subst k'(4)) simp
  then obtain n h where n: "k' = k\<lparr>uxTopReadyPriority := n, heap := h\<rparr>" by blast
  let ?A' = "ready_after t (k\<lparr>heap := h2\<rparr>) ?A p"
  have "\<forall>p. l \<noteq> pxReadyTasksLists p" using l(1) by (auto simp: blocked_list_def)
  then have r: "released {t} k A ?A'" using released_one[OF D(1) l(2) _ k'(1)] ready_no_event[OF assms(1)] by blast
  have "i \<notin> set js" using heap_facts(1)[OF D(1), of xPendingReadyList] assms(2) by simp
  then have "\<forall>j \<in> set js. task_of j \<noteq> t" using ev t(1) by (metis list.set_intros(2) task_of.simps(2))
  then have A': "?A' xPendingReadyList = js" using r assms(2) t(1) by (simp add: released_def)
  have pr: "priority_of t k' = Some p" "current_priority k' = Some c" using k'(1) assms(3) by (simp_all add: n priority_of_def current_priority_def)
  have "pending_loop y k = pending_loop (y \<or> c \<le> p) k'"
    using heap_facts(2)[OF D(1)] assms(2) hd r1 h2(1) k'(2) pr by (subst pending_loop.simps) (simp add: list_macros)
  moreover have "pending_tasks A = insert t (pending_tasks ?A')" using assms(2) t(1) A' by (auto simp: pending_tasks_def)
  moreover have "xItemValue h = xItemValue (heap k)" using k'(5) h1(3) h2(3) by (simp add: n)
  ultimately show ?thesis using k'(1,3) r A' unfolding n Let_def by blast
qed

lemma pending_loop_ok:
  assumes "kinv m {} k A" and "current_priority k = Some c"
  shows "\<exists>y' n h A'. pending_loop y k = Some (y', k\<lparr>uxTopReadyPriority := n, heap := h\<rparr>) \<and> kinv m {} (k\<lparr>uxTopReadyPriority := n, heap := h\<rparr>) A'
    \<and> released (pending_tasks A) k A A' \<and> xItemValue h = xItemValue (heap k)"
  using assms
proof (induction "length (A xPendingReadyList)" arbitrary: k A y rule: less_induct)
  case less
  note D = tasks_invD[OF kinvD(1)[OF less.prems(1)]]
  show ?case
  proof (cases "A xPendingReadyList")
    case Nil
    then have "pending_loop y k = Some (y, k)" using heap_facts(2)[OF D(1)] by (subst pending_loop.simps) (simp add: list_macros)
    moreover have "pending_tasks A = {}" using Nil by (simp add: pending_tasks_def)
    ultimately show ?thesis using less.prems(1) released_none by (intro exI[of _ y] exI[of _ "uxTopReadyPriority k"] exI[of _ "heap k"] exI[of _ A]) simp
  next
    case (Cons i js)
    from pending_step[OF less.prems(1) Cons less.prems(2), of y] obtain t p n h A' where u: "pending_loop y k = pending_loop (y \<or> c \<le> p) (k\<lparr>uxTopReadyPriority := n, heap := h\<rparr>)"
        "kinv m {} (k\<lparr>uxTopReadyPriority := n, heap := h\<rparr>) A'" "released {t} k A A'" "xItemValue h = xItemValue (heap k)" "A' xPendingReadyList = js"
        "pending_tasks A = insert t (pending_tasks A')"
      unfolding Let_def by blast
    let ?k = "k\<lparr>uxTopReadyPriority := n, heap := h\<rparr>"
    have pr: "priority_of x ?k = priority_of x k" "current_priority ?k = current_priority k" for x by (simp_all add: priority_of_def current_priority_def)
    obtain y' n' h' A'' where r: "pending_loop (y \<or> c \<le> p) ?k = Some (y', ?k\<lparr>uxTopReadyPriority := n', heap := h'\<rparr>)" "kinv m {} (?k\<lparr>uxTopReadyPriority := n', heap := h'\<rparr>) A''"
        "released (pending_tasks A') ?k A' A''" "xItemValue h' = xItemValue (heap ?k)"
      using less.hyps[of A' ?k "y \<or> c \<le> p"] u(2,5) less.prems(2) Cons pr by auto
    have "released (pending_tasks A') k A' A''" using r(3) by (simp add: released_def pr)
    then have "released (pending_tasks A) k A A''" using released_trans[OF u(3)] by (simp add: u(6))
    then show ?thesis using r u(1,4) by (intro exI[of _ y'] exI[of _ n'] exI[of _ h'] exI[of _ A'']) simp
  qed
qed

text \<open>The ticks counted while the scheduler was suspended are worked off one by one.\<close>

lemma pended_loop_ok:
  assumes "kok k A" and "uxSchedulerSuspended k = 0" and "pxCurrentTCB k \<noteq> None"
  shows "\<exists>y' k' A'. pended_loop y k = Some (y', k') \<and> kok k' A' \<and> xTickCount k' = xTickCount k + of_nat (uxPendedTicks k) \<and> uxPendedTicks k' = 0
    \<and> uxSchedulerSuspended k' = 0 \<and> pxCurrentTCB k' = pxCurrentTCB k \<and> tcbs k' = tcbs k \<and> wake_time k' = wake_time k \<and> fixed k' = fixed k \<and> ready_grows A A'"
  using assms
proof (induction "uxPendedTicks k" arbitrary: k A y)
  case 0
  then have "pended_loop y k = Some (y, k)" by (subst pended_loop.simps) simp
  then show ?case using "0" by (intro exI[of _ y] exI[of _ k] exI[of _ A]) (simp add: ready_grows_refl)
next
  case (Suc n)
  obtain c where c: "current_priority k = Some c" using current_live[OF kinvD(3)[OF Suc.prems(1)]] Suc.prems(3) by blast
  obtain s k1 A1 where k1: "xTaskIncrementTick k = Some (s, k1)" "kok k1 A1" "xTickCount k1 = xTickCount k + 1" "wake_time k1 = wake_time k" "tcbs k1 = tcbs k"
      "pxCurrentTCB k1 = pxCurrentTCB k" "uxSchedulerSuspended k1 = 0" "uxPendedTicks k1 = uxPendedTicks k" "fixed k1 = fixed k" "ready_grows A A1"
    using tick_ok[OF Suc.prems(1,2) c] released_grows by blast
  let ?k = "k1\<lparr>uxPendedTicks := uxPendedTicks k1 - 1\<rparr>"
  have ok: "kok ?k A1" using k1(2) kinv_frame[OF k1(2), of ?k] kinvD(1,3)[OF k1(2)] by (simp add: tasks_inv_def prio_inv_def)
  have n: "n = uxPendedTicks ?k" "uxSchedulerSuspended ?k = 0" "pxCurrentTCB ?k \<noteq> None" using Suc.hyps(2) Suc.prems(3) k1(6-8) by simp_all
  obtain y' k' A' where r: "pended_loop (y \<or> s) ?k = Some (y', k')" "kok k' A'" "xTickCount k' = xTickCount ?k + of_nat (uxPendedTicks ?k)" "uxPendedTicks k' = 0"
      "uxSchedulerSuspended k' = 0" "pxCurrentTCB k' = pxCurrentTCB ?k" "tcbs k' = tcbs ?k" "wake_time k' = wake_time ?k" "fixed k' = fixed ?k" "ready_grows A1 A'"
    using Suc.hyps(1)[OF n(1) ok n(2,3), of "y \<or> s"] by blast
  have "pended_loop y k = pended_loop (y \<or> s) ?k" using k1(1) Suc.hyps(2) by (subst pended_loop.simps) simp
  moreover have "wake_time ?k = wake_time k" using k1(4) by (simp add: wake_time_def fun_eq_iff)
  moreover have "xTickCount k' = xTickCount k + of_nat (uxPendedTicks k)" unfolding r(3) n(1)[symmetric] Suc.hyps(2)[symmetric] using k1(3) by simp
  ultimately show ?case using r(1,2,4-10) k1(5,6,9) ready_grows_trans[OF k1(10)] by (intro exI[of _ y'] exI[of _ k'] exI[of _ A']) simp
qed

lemma kok_fields:
  assumes "kok k A" and "heap k' = heap k" "tcbs k' = tcbs k" "pxDelayedTaskList k' = pxDelayedTaskList k" "pxOverflowDelayedTaskList k' = pxOverflowDelayedTaskList k"
    "xTickCount k' = xTickCount k" "xNextTaskUnblockTime k' = xNextTaskUnblockTime k" "uxTopReadyPriority k' = uxTopReadyPriority k" "pxCurrentTCB k' = pxCurrentTCB k"
  shows "kok k' A"
  using kinv_frame[OF assms(1), of k'] kinvD(1,3)[OF assms(1)] assms(2-) by (simp add: tasks_inv_def prio_inv_def)

lemma resume_ok:
  assumes "kok k A" and "pxCurrentTCB k \<noteq> None" and "uxSchedulerSuspended k < 2 ^ 32"
  shows "\<exists>b k' A'. xTaskResumeAll k = Some (b, k') \<and> kok k' A' \<and> pxCurrentTCB k' = pxCurrentTCB k \<and> tcbs k' = tcbs k \<and> wake_time k' = wake_time k
    \<and> fixed k' = fixed k \<and> ready_grows A A' \<and> uxSchedulerSuspended k' = sub32 (uxSchedulerSuspended k) 1"
proof (cases "sub32 (uxSchedulerSuspended k) 1 = 0 \<and> uxCurrentNumberOfTasks k > 0")
  case False
  let ?k = "k\<lparr>uxSchedulerSuspended := sub32 (uxSchedulerSuspended k) 1\<rparr>"
  have "kok ?k A" "wake_time ?k = wake_time k" by (rule kok_fields[OF assms(1)]) (simp_all add: wake_time_def fun_eq_iff)
  then show ?thesis using False by (intro exI[of _ False] exI[of _ ?k] exI[of _ A]) (auto simp: xTaskResumeAll_def Let_def ready_grows_refl)
next
  case True
  define k1 where "k1 = k\<lparr>uxSchedulerSuspended := 0\<rparr>"
  have k1: "kok k1 A" and c1: "uxSchedulerSuspended k1 = 0" "uxCurrentNumberOfTasks k1 > 0" by (rule kok_fields[OF assms(1)]) (use True in \<open>simp_all add: k1_def\<close>)
  obtain c where c: "current_priority k1 = Some c" using current_live[OF kinvD(3)[OF k1]] assms(2) by (auto simp: k1_def)
  obtain y1 n h A1 where p: "pending_loop False k1 = Some (y1, k1\<lparr>uxTopReadyPriority := n, heap := h\<rparr>)" "kok (k1\<lparr>uxTopReadyPriority := n, heap := h\<rparr>) A1" "xItemValue h = xItemValue (heap k1)" "ready_grows A A1"
    using pending_loop_ok[OF k1 c, of False] released_grows by fastforce
  define k2 where "k2 = k1\<lparr>uxTopReadyPriority := n, heap := h\<rparr>"
  have k2: "uxSchedulerSuspended k2 = 0" "pxCurrentTCB k2 \<noteq> None" "wake_time k2 = wake_time k" using assms(2) p(3) by (simp_all add: k2_def k1_def wake_time_def fun_eq_iff)
  obtain y2 k3 A3 where k3: "pended_loop y1 k2 = Some (y2, k3)" "kok k3 A3" "uxSchedulerSuspended k3 = 0" "pxCurrentTCB k3 = pxCurrentTCB k2" "tcbs k3 = tcbs k2" "wake_time k3 = wake_time k2"
      "fixed k3 = fixed k2" "ready_grows A1 A3"
    using pended_loop_ok[OF p(2)[folded k2_def] k2(1,2), of y1] by blast
  define k4 where "k4 = (if y2 \<or> xYieldPending k3 then portYIELD_WITHIN_API (k3\<lparr>xYieldPending := False\<rparr>) else k3)"
  have "kok k4 A3" "wake_time k4 = wake_time k3" by (rule kok_fields[OF k3(2)]) (simp_all add: k4_def portYIELD_WITHIN_API_def wake_time_def fun_eq_iff)
  moreover have "xTaskResumeAll k = Some (y2 \<or> xYieldPending k3, k4)"
    using True p(1) k3(1) c1 by (simp add: xTaskResumeAll_def Let_def k1_def[symmetric] k2_def[symmetric] k4_def)
  moreover have "ready_grows A A3" by (rule ready_grows_trans[OF p(4) k3(8)])
  ultimately show ?thesis using k3 k2(3) True
    by (intro exI[of _ "y2 \<or> xYieldPending k3"] exI[of _ k4] exI[of _ A3]) (auto simp: k4_def portYIELD_WITHIN_API_def k2_def k1_def)
qed

lemma resume_quiet:
  assumes "kok k A" and "uxSchedulerSuspended k = 1" and "A xPendingReadyList = []" and "uxPendedTicks k = 0"
  shows "\<exists>b k'. xTaskResumeAll k = Some (b, k') \<and> kok k' A \<and> wake_time k' = wake_time k \<and> uxSchedulerSuspended k' = 0 \<and> pxCurrentTCB k' = pxCurrentTCB k \<and> tcbs k' = tcbs k
    \<and> xTickCount k' = xTickCount k"
proof -
  define k1 where "k1 = k\<lparr>uxSchedulerSuspended := 0\<rparr>"
  have "pending_loop False k1 = Some (False, k1)"
    using heap_facts(2)[OF tasks_invD(1)[OF kinvD(1)[OF assms(1)]]] assms(3) by (subst pending_loop.simps) (simp add: list_macros k1_def)
  moreover have "pended_loop False k1 = Some (False, k1)" using assms(4) by (subst pended_loop.simps) (simp add: k1_def)
  moreover have "sub32 1 1 = 0" by (simp add: sub32_def)
  moreover define k' where "k' = (if uxCurrentNumberOfTasks k1 > 0 \<and> xYieldPending k1 then portYIELD_WITHIN_API (k1\<lparr>xYieldPending := False\<rparr>) else k1)"
  ultimately have "xTaskResumeAll k = Some (uxCurrentNumberOfTasks k1 > 0 \<and> xYieldPending k1, k')"
    using assms(2) by (simp add: xTaskResumeAll_def Let_def k1_def[symmetric]) (simp add: k1_def)
  moreover have "kok k' A" "wake_time k' = wake_time k" by (rule kok_fields[OF assms(1)]) (simp_all add: k'_def k1_def portYIELD_WITHIN_API_def wake_time_def fun_eq_iff)
  ultimately show ?thesis by (auto simp: k'_def k1_def portYIELD_WITHIN_API_def)
qed

lemma delay_current_ok:
  assumes "kok k A" and "pxCurrentTCB k = Some t" and "wake \<noteq> xTickCount k"
  shows "\<exists>h u A'. let k' = k\<lparr>heap := h, xNextTaskUnblockTime := u\<rparr> in delay_current wake k = Some k' \<and> kok k' A' \<and> asleep t k' A' \<and> wake_time k' = (wake_time k)(xGenericListItem t := wake)
    \<and> (\<forall>l. l \<notin> {xDelayedTaskList1, xDelayedTaskList2} \<longrightarrow> A' l = without (xGenericListItem t) A l)"
proof -
  have live: "tcbs k t \<noteq> None" using kinvD(3)[OF assms(1)] assms(2) by (simp add: prio_inv_def)
  obtain h1 where h1: "remove_item (xGenericListItem t) k = Some (k\<lparr>heap := h1\<rparr>)" "kinv (Suc (unat (xTickCount k))) {t} (k\<lparr>heap := h1\<rparr>) (without (xGenericListItem t) A)" "xItemValue h1 = xItemValue (heap k)"
    using take_generic[OF assms(1) live] by blast
  let ?k = "k\<lparr>heap := h1\<rparr>" and ?A = "without (xGenericListItem t) A"
  obtain k' js where k': "prvAddCurrentTaskToDelayedList wake ?k = Some k'" "kok k' (?A(delay_list wake ?k := js))" "set js = insert (xGenericListItem t) (set (?A (delay_list wake ?k)))"
      "k' = ?k\<lparr>heap := heap k', xNextTaskUnblockTime := xNextTaskUnblockTime k'\<rparr>" "wake_time k' = (wake_time ?k)(xGenericListItem t := wake)"
    using put_delayed[of ?k t ?A wake] h1(2) assms(2,3) by auto
  have "k' = k\<lparr>heap := heap k', xNextTaskUnblockTime := xNextTaskUnblockTime k'\<rparr>" by (subst k'(4)) simp
  then obtain h u where n: "k' = k\<lparr>heap := h, xNextTaskUnblockTime := u\<rparr>" by blast
  have l: "delay_list wake ?k \<in> {xDelayedTaskList1, xDelayedTaskList2}" using delayed_lists[OF kinvD(2)[OF assms(1)]] by (auto simp: delay_list_def)
  have "delay_current wake k = Some k'" using h1(1) k'(1) assms(2) by (simp add: delay_current_def)
  moreover have "asleep t k' (?A(delay_list wake ?k := js))" using k'(3) l by (auto simp: asleep_def)
  moreover have "wake_time ?k = wake_time k" using h1(3) by (simp add: wake_time_def fun_eq_iff)
  then have "wake_time k' = (wake_time k)(xGenericListItem t := wake)" using k'(5) by simp
  moreover have "\<forall>m. m \<notin> {xDelayedTaskList1, xDelayedTaskList2} \<longrightarrow> (?A(delay_list wake ?k := js)) m = ?A m" using l by auto
  ultimately show ?thesis using k'(2) unfolding n Let_def by blast
qed

lemma delay_ok:
  assumes "kok k A" and "uxSchedulerSuspended k = 0" and "A xPendingReadyList = []" and "uxPendedTicks k = 0" and "pxCurrentTCB k = Some t" and "d \<noteq> 0"
  shows "\<exists>k' A'. vTaskDelay d k = Some k' \<and> kok k' A' \<and> asleep t k' A' \<and> wake_time k' (xGenericListItem t) = xTickCount k + d \<and> xTickCount k' = xTickCount k
    \<and> uxSchedulerSuspended k' = 0 \<and> pxCurrentTCB k' = Some t \<and> tcbs k' = tcbs k"
proof -
  let ?s = "vTaskSuspendAll k"
  have s: "kok ?s A" "wake_time ?s = wake_time k" by (rule kok_fields[OF assms(1)]) (simp_all add: vTaskSuspendAll_def wake_time_def fun_eq_iff)
  have "xTickCount k + d \<noteq> xTickCount ?s" "pxCurrentTCB ?s = Some t" using assms(5,6) by (simp_all add: vTaskSuspendAll_def)
  from delay_current_ok[OF s(1) this(2,1)] obtain h u A' where d: "delay_current (xTickCount k + d) ?s = Some (?s\<lparr>heap := h, xNextTaskUnblockTime := u\<rparr>)"
      "kok (?s\<lparr>heap := h, xNextTaskUnblockTime := u\<rparr>) A'" "asleep t (?s\<lparr>heap := h, xNextTaskUnblockTime := u\<rparr>) A'"
      "wake_time (?s\<lparr>heap := h, xNextTaskUnblockTime := u\<rparr>) = (wake_time ?s)(xGenericListItem t := xTickCount k + d)"
      "\<forall>l. l \<notin> {xDelayedTaskList1, xDelayedTaskList2} \<longrightarrow> A' l = without (xGenericListItem t) A l"
    unfolding Let_def by blast
  let ?k = "?s\<lparr>heap := h, xNextTaskUnblockTime := u\<rparr>"
  have q: "A' xPendingReadyList = []" "uxSchedulerSuspended ?k = 1" "uxPendedTicks ?k = 0" using d(5) assms(2-4) by (simp_all add: without_def vTaskSuspendAll_def u32_def)
  obtain b k' where k': "xTaskResumeAll ?k = Some (b, k')" "kok k' A'" "wake_time k' = wake_time ?k" "uxSchedulerSuspended k' = 0" "pxCurrentTCB k' = pxCurrentTCB ?k" "tcbs k' = tcbs ?k"
      "xTickCount k' = xTickCount ?k"
    using resume_quiet[OF d(2) q(2,1,3)] by blast
  have "d > 0" using assms(6) by (simp add: word_gt_0)
  then have "vTaskDelay d k = Some (yield_if (\<not> b) k')" using d(1) k'(1) by (simp add: vTaskDelay_def) (simp add: vTaskSuspendAll_def)
  moreover have "kok (yield_if (\<not> b) k') A'" "wake_time (yield_if (\<not> b) k') = wake_time k'"
    by (rule kok_fields[OF k'(2)]) (simp_all add: yield_if_def portYIELD_WITHIN_API_def wake_time_def fun_eq_iff)
  ultimately show ?thesis using k' d(3,4) assms(5) by (intro exI[of _ "yield_if (\<not> b) k'"] exI[of _ A']) (simp add: asleep_def yield_if_def portYIELD_WITHIN_API_def vTaskSuspendAll_def)
qed

lemma delay_then_ticks:
  assumes "kok k A" and "uxSchedulerSuspended k = 0" and "A xPendingReadyList = []" and "uxPendedTicks k = 0" and "pxCurrentTCB k = Some t" and "priority_of t k = Some p" and "d \<noteq> 0"
  shows "\<exists>k'. vTaskDelay d k = Some k' \<and> (\<forall>n < unat d. \<exists>kn An. tick_interrupts n k' = Some kn \<and> kok kn An \<and> asleep t kn An)
    \<and> (\<exists>kd Ad. tick_interrupts (unat d) k' = Some kd \<and> kok kd Ad \<and> xTickCount kd = xTickCount k + d \<and> xGenericListItem t \<in> set (Ad (pxReadyTasksLists p)))"
proof -
  obtain k' A' where k': "vTaskDelay d k = Some k'" "kok k' A'" "asleep t k' A'" "wake_time k' (xGenericListItem t) = xTickCount k + d" "xTickCount k' = xTickCount k"
      "uxSchedulerSuspended k' = 0" "pxCurrentTCB k' = Some t" "tcbs k' = tcbs k"
    using delay_ok[OF assms(1-5,7)] by blast
  have w: "wake_time k' (xGenericListItem t) - xTickCount k' = d" "wake_time k' (xGenericListItem t) \<noteq> xTickCount k'" using k'(4,5) assms(7) by simp_all
  have c: "pxCurrentTCB k' \<noteq> None" "priority_of t k' = Some p" using k'(7,8) assms(6) by (simp_all add: priority_of_def)
  have "\<exists>kn An. tick_interrupts n k' = Some kn \<and> kok kn An \<and> asleep t kn An" if "n < unat d" for n
    using sleep_ticks[OF k'(2,6) c(1) k'(3)] that unfolding w by blast
  moreover have "\<exists>kd Ad. tick_interrupts (unat d) k' = Some kd \<and> kok kd Ad \<and> xGenericListItem t \<in> set (Ad (pxReadyTasksLists p)) \<and> xTickCount kd = xTickCount k + d"
    using sleep_ends[OF k'(2,6) c(1) k'(3) w(2) c(2), unfolded w(1), unfolded k'(4)] by blast
  ultimately show ?thesis using k'(1) by blast
qed
end
