(* ===== verification/KMoves.thy ===== *)
theory KMoves
  imports KRun
begin

text \<open>
  Moving one task: out of its lists and back to a ready list, to the list of suspended or of deleted tasks, or into a list of events; and with that the calls that
  suspend, resume and delete a task. The idle task stays ready as long as it does not block itself.
\<close>

section \<open>Moves of one task\<close>

definition keeps_ready :: "nat \<Rightarrow> (klist \<Rightarrow> titem list) \<Rightarrow> (klist \<Rightarrow> titem list) \<Rightarrow> bool" where
  "keeps_ready t A A' \<longleftrightarrow> (\<forall>s p. s \<noteq> t \<longrightarrow> xGenericListItem s \<in> set (A (pxReadyTasksLists p)) \<longrightarrow> xGenericListItem s \<in> set (A' (pxReadyTasksLists p)))"

lemma keeps_grows: "ready_grows A A' \<Longrightarrow> keeps_ready t A A'"
  by (auto simp: ready_grows_def keeps_ready_def)

lemma keeps_trans: "keeps_ready t A B \<Longrightarrow> keeps_ready t B C \<Longrightarrow> keeps_ready t A C"
  by (simp add: keeps_ready_def)

lemma keeps_without: "task_of i = t \<Longrightarrow> keeps_ready t A (without i A)"
  by (auto simp: keeps_ready_def without_def intro: in_set_remove1[THEN iffD2])

lemma keeps_list: "(\<forall>i \<in> set (A l). i \<in> set js) \<Longrightarrow> keeps_ready t A (A(l := js))"
  by (auto simp: keeps_ready_def)

lemma keeps_ready_after: "keeps_ready t A (ready_after s k A p)"
  by (auto simp: keeps_ready_def ready_after_def ins_end_set)

lemma put_ready_lists:
  assumes "kinv m {t} k A" and "\<forall>l. xEventListItem t \<notin> set (A l)"
  shows "\<exists>n h A'. prvAddTaskToReadyList t k = Some (k\<lparr>uxTopReadyPriority := n, heap := h\<rparr>) \<and> kinv m {} (k\<lparr>uxTopReadyPriority := n, heap := h\<rparr>) A' \<and> keeps_ready t A A'
    \<and> (\<exists>p. xGenericListItem t \<in> set (A' (pxReadyTasksLists p))) \<and> (\<forall>l. (\<forall>p. l \<noteq> pxReadyTasksLists p) \<longrightarrow> A' l = A l)"
proof -
  obtain k' p where k': "prvAddTaskToReadyList t k = Some k'" "kinv m {} k' (ready_after t k A p)" "k' = k\<lparr>uxTopReadyPriority := uxTopReadyPriority k', heap := heap k'\<rparr>"
    using put_ready[OF assms] by blast
  have "\<exists>p'. xGenericListItem t \<in> set (ready_after t k A p (pxReadyTasksLists p'))" by (intro exI[of _ p]) (simp add: ready_after_def ins_end_set)
  moreover have "\<forall>l. (\<forall>p. l \<noteq> pxReadyTasksLists p) \<longrightarrow> ready_after t k A p l = A l" by (simp add: ready_after_def)
  moreover obtain n h where "k' = k\<lparr>uxTopReadyPriority := n, heap := h\<rparr>" using k'(3) by blast
  ultimately show ?thesis using k'(1,2) keeps_ready_after[of t A t k p] by blast
qed

lemma put_ready_fields:
  assumes "kinv m {t} k A" and "\<forall>l. xEventListItem t \<notin> set (A l)"
  shows "\<exists>n h A'. prvAddTaskToReadyList t k = Some (k\<lparr>uxTopReadyPriority := n, heap := h\<rparr>) \<and> kinv m {} (k\<lparr>uxTopReadyPriority := n, heap := h\<rparr>) A' \<and> keeps_ready t A A'
    \<and> (\<exists>p. xGenericListItem t \<in> set (A' (pxReadyTasksLists p)))"
  using put_ready_lists[OF assms] by blast

lemma no_event_if_ready:
  assumes "kinv m {} k A" and "xGenericListItem t \<in> set (A l)" and "\<not> blocked_list l"
  shows "xEventListItem t \<notin> set (A l')"
  using tasks_invD(10)[OF kinvD(1)[OF assms(1)], of t l'] assms(2,3) heap_disjoint[OF tasks_invD(1)[OF kinvD(1)[OF assms(1)]] assms(2)] by blast

text \<open>Back to the ready lists, from where no event is waited for.\<close>

lemma to_ready:
  assumes "kok k A" and "tcbs k t \<noteq> None" and "\<forall>l. xEventListItem t \<notin> set (A l)"
  shows "\<exists>h n h' A'. remove_item (xGenericListItem t) k = Some (k\<lparr>heap := h\<rparr>) \<and> prvAddTaskToReadyList t (k\<lparr>heap := h\<rparr>) = Some (k\<lparr>uxTopReadyPriority := n, heap := h'\<rparr>)
    \<and> kok (k\<lparr>uxTopReadyPriority := n, heap := h'\<rparr>) A' \<and> keeps_ready t A A' \<and> (\<exists>p. xGenericListItem t \<in> set (A' (pxReadyTasksLists p)))"
proof -
  obtain h where h: "remove_item (xGenericListItem t) k = Some (k\<lparr>heap := h\<rparr>)" "kinv (Suc (unat (xTickCount k))) {t} (k\<lparr>heap := h\<rparr>) (without (xGenericListItem t) A)"
    using take_generic[OF assms(1,2)] by blast
  have "\<forall>l. xEventListItem t \<notin> set (without (xGenericListItem t) A l)" using assms(3) by (auto simp: without_def dest: notin_set_remove1)
  from put_ready_fields[OF h(2) this] obtain n h' A' where p: "prvAddTaskToReadyList t (k\<lparr>heap := h\<rparr>) = Some (k\<lparr>uxTopReadyPriority := n, heap := h'\<rparr>)"
      "kok (k\<lparr>uxTopReadyPriority := n, heap := h'\<rparr>) A'" "keeps_ready t (without (xGenericListItem t) A) A'" "\<exists>p. xGenericListItem t \<in> set (A' (pxReadyTasksLists p))"
    by auto
  moreover have "keeps_ready t A A'" using keeps_trans[OF keeps_without p(3)] by simp
  ultimately show ?thesis using h(1) by blast
qed

text \<open>Out of every list, and to the end of another.\<close>

lemma to_list:
  assumes "kinv m {} k A" and "tcbs k t \<noteq> None" and "l = xSuspendedTaskList \<or> l = xTasksWaitingTermination"
  shows "\<exists>h1 h2 h A'. remove_item (xGenericListItem t) k = Some (k\<lparr>heap := h1\<rparr>) \<and> remove_event_item t (k\<lparr>heap := h1\<rparr>) = Some (k\<lparr>heap := h2\<rparr>)
    \<and> append_item l (xGenericListItem t) (k\<lparr>heap := h2\<rparr>) = k\<lparr>heap := h\<rparr> \<and> kinv m {} (k\<lparr>heap := h\<rparr>) A' \<and> keeps_ready t A A'"
proof -
  obtain h1 where h1: "remove_item (xGenericListItem t) k = Some (k\<lparr>heap := h1\<rparr>)" "kinv m {t} (k\<lparr>heap := h1\<rparr>) (without (xGenericListItem t) A)"
    using take_generic[OF assms(1,2)] by blast
  let ?A = "without (xEventListItem t) (without (xGenericListItem t) A)"
  obtain h2 where h2: "remove_event_item t (k\<lparr>heap := h1\<rparr>) = Some (k\<lparr>heap := h2\<rparr>)" "kinv m {t} (k\<lparr>heap := h2\<rparr>) ?A"
    using drop_event[OF h1(2), of t] by auto
  have e: "\<forall>l. xEventListItem t \<notin> set (?A l)" using event_free[OF tasks_invD(1)[OF kinvD(1)[OF h1(2)]]] by blast
  have "kinv m {} (append_item l (xGenericListItem t) (k\<lparr>heap := h2\<rparr>)) (?A(l := ins_end (pxIndex h2 l) (xGenericListItem t) (?A l)))"
    using put_append[OF h2(2), of l] e assms(2,3) by auto
  moreover have "keeps_ready t A (?A(l := ins_end (pxIndex h2 l) (xGenericListItem t) (?A l)))"
    by (intro keeps_trans[OF keeps_without keeps_trans[OF keeps_without keeps_list]]) (auto simp: ins_end_set)
  ultimately show ?thesis using h1(1) h2(1) by (auto simp: append_item_def)
qed

section \<open>Entering a list of events\<close>

lemma place_ok_tcbs: "tcbs k' = tcbs k \<Longrightarrow> place_ok k' l i = place_ok k l i"
  by (cases l; cases i) (simp_all add: priority_of_def)

lemma event_list_pre:
  assumes "kinv m {} k A" and "tcbs k t \<noteq> None" and "heap_ok h (A(l := js))" and "set js = insert (xEventListItem t) (set (A l))"
    and "xItemValue h = xItemValue (heap k)" and "pvOwner h = pvOwner (heap k)" and "l = xPendingReadyList \<or> (\<exists>e. l = xEventList e)"
  shows "kpre t m (k\<lparr>heap := h\<rparr>) (A(l := js))"
proof -
  note T = kinvD(1)[OF assms(1)] and D = tasks_invD[OF kinvD(1)[OF assms(1)]]
  have S: "set ((A(l := js)) m) = (if m = l then insert (xEventListItem t) (set (A l)) else set (A m))" for m using assms(4) by simp
  have "place_ok k m i" if "i \<in> set ((A(l := js)) m)" for m i using that D(2)[of i m] assms(2,7) unfolding S by (auto split: if_splits)
  moreover have "\<exists>m. xGenericListItem s \<in> set ((A(l := js)) m)" if "tcbs k s \<noteq> None" for s using D(7)[OF that] unfolding S by auto
  moreover have "s = t \<or> (\<exists>l'. blocked_list l' \<and> xGenericListItem s \<in> set ((A(l := js)) l'))" if "xEventListItem s \<in> set ((A(l := js)) m)" for s m
    using that D(10)[of s m] D(10)[of s l] unfolding S by (auto split: if_splits)
  moreover have "time_inv m (k\<lparr>heap := h\<rparr>) (A(l := js))"
    by (rule time_inv_frame[OF kinvD(2)[OF assms(1)] _ _ _ delayed_generic[OF T]]) (use assms(5,7) in \<open>auto simp: wake_time_def\<close>)
  moreover have "prio_inv (k\<lparr>heap := h\<rparr>) (A(l := js))" using kinvD(3)[OF assms(1)] assms(7) by (auto simp: prio_inv_def)
  ultimately show ?thesis using assms(3,6) D(3-6) unfolding kpre_def place_ok_heap by auto
qed

lemma event_insert:
  assumes "kinv m {} k A" and "tcbs k t \<noteq> None" and "\<forall>l. xEventListItem t \<notin> set (A l)" and "l = xPendingReadyList \<or> (\<exists>e. l = xEventList e)"
  shows "\<exists>h A'. insert_item l (xEventListItem t) k = Some (k\<lparr>heap := h\<rparr>) \<and> kpre t m (k\<lparr>heap := h\<rparr>) A' \<and> keeps_ready t A A'"
    "\<exists>h A'. append_item l (xEventListItem t) k = k\<lparr>heap := h\<rparr> \<and> kpre t m (k\<lparr>heap := h\<rparr>) A' \<and> keeps_ready t A A' \<and> (\<forall>m. m \<noteq> l \<longrightarrow> A' m = A m) \<and> set (A' l) = insert (xEventListItem t) (set (A l))"
proof -
  note D = tasks_invD[OF kinvD(1)[OF assms(1)]]
  have f: "pvContainer (heap k) (xEventListItem t) = None" using assms(3) by (simp add: heap_free[OF D(1)])
  obtain h where h: "vListInsert l (xEventListItem t) (heap k) = Some h" "heap_ok h (A(l := ins_val (\<lambda>j. xItemValue (heap k) (Item j)) (xEventListItem t) (A l)))"
      "xItemValue h = xItemValue (heap k)" "pvOwner h = pvOwner (heap k)"
    using insert_ok[OF D(1) f, of l] by blast
  have "kpre t m (k\<lparr>heap := h\<rparr>) (A(l := ins_val (\<lambda>j. xItemValue (heap k) (Item j)) (xEventListItem t) (A l)))"
    by (rule event_list_pre[OF assms(1,2) h(2) ins_val_set h(3,4) assms(4)])
  moreover have "keeps_ready t A (A(l := ins_val (\<lambda>j. xItemValue (heap k) (Item j)) (xEventListItem t) (A l)))" by (rule keeps_list) (auto simp: ins_val_set)
  ultimately show "\<exists>h A'. insert_item l (xEventListItem t) k = Some (k\<lparr>heap := h\<rparr>) \<and> kpre t m (k\<lparr>heap := h\<rparr>) A' \<and> keeps_ready t A A'"
    using h(1) unfolding insert_item_def by auto
  have a: "xItemValue (vListInsertEnd l (xEventListItem t) (heap k)) = xItemValue (heap k)" "pvOwner (vListInsertEnd l (xEventListItem t) (heap k)) = pvOwner (heap k)"
    using append_fields[OF D(1) f, of l] by simp_all
  let ?A = "A(l := ins_end (pxIndex (heap k) l) (xEventListItem t) (A l))"
  have "kpre t m (k\<lparr>heap := vListInsertEnd l (xEventListItem t) (heap k)\<rparr>) ?A" by (rule event_list_pre[OF assms(1,2) insert_end_ok[OF D(1) f] ins_end_set a assms(4)])
  moreover have "keeps_ready t A ?A" by (rule keeps_list) (auto simp: ins_end_set)
  ultimately show "\<exists>h A'. append_item l (xEventListItem t) k = k\<lparr>heap := h\<rparr> \<and> kpre t m (k\<lparr>heap := h\<rparr>) A' \<and> keeps_ready t A A' \<and> (\<forall>m. m \<noteq> l \<longrightarrow> A' m = A m) \<and> set (A' l) = insert (xEventListItem t) (set (A l))"
    unfolding append_item_def by (intro exI[of _ "vListInsertEnd l (xEventListItem t) (heap k)"] exI[of _ ?A]) (simp add: ins_end_set)
qed

lemma pre_kinv:
  assumes "kpre t m k A" and "xGenericListItem t \<in> set (A l)" and "blocked_list l"
  shows "kinv m {} k A"
  using assms unfolding kpre_def kinv_def tasks_inv_def by blast


section \<open>The operations\<close>

text \<open>The state once the scheduler runs: the idle task is ready, and there is a current task.\<close>

definition kernel_ok :: "kernel \<Rightarrow> (klist \<Rightarrow> titem list) \<Rightarrow> bool" where
  "kernel_ok k A \<longleftrightarrow> kok k A \<and> pxCurrentTCB k \<noteq> None \<and> xSchedulerRunning k \<and> uxSchedulerSuspended k < 2 ^ 32
     \<and> (\<exists>i p. xIdleTaskHandle k = Some i \<and> xGenericListItem i \<in> set (A (pxReadyTasksLists p)))"

lemma kernel_okD: "kernel_ok k A \<Longrightarrow> kok k A" "kernel_ok k A \<Longrightarrow> pxCurrentTCB k \<noteq> None" "kernel_ok k A \<Longrightarrow> xSchedulerRunning k"
  "kernel_ok k A \<Longrightarrow> uxSchedulerSuspended k < 2 ^ 32"
  by (simp_all add: kernel_ok_def)

lemma kernel_keep:
  assumes "kernel_ok k A" and "kok k' A'" and "keeps_ready t A A'" and "xIdleTaskHandle k \<noteq> Some t \<or> (\<exists>p. xGenericListItem t \<in> set (A' (pxReadyTasksLists p)))"
    and "pxCurrentTCB k' \<noteq> None" and "fixed k' = fixed k" and "uxSchedulerSuspended k' < 2 ^ 32"
  shows "kernel_ok k' A'"
proof -
  obtain i p where i: "xIdleTaskHandle k = Some i" "xGenericListItem i \<in> set (A (pxReadyTasksLists p))" using assms(1) by (auto simp: kernel_ok_def)
  then have "\<exists>p. xGenericListItem i \<in> set (A' (pxReadyTasksLists p))" using assms(3,4) by (cases "i = t") (auto simp: keeps_ready_def)
  then show ?thesis using assms i(1) by (auto simp: kernel_ok_def)
qed

lemma current_some: "kernel_ok k A \<Longrightarrow> \<exists>t c. pxCurrentTCB k = Some t \<and> tcbs k t \<noteq> None \<and> current_priority k = Some c"
proof -
  assume k: "kernel_ok k A"
  then obtain t where t: "pxCurrentTCB k = Some t" using kernel_okD(2) by auto
  then obtain b where "tcbs k t = Some b" using kinvD(3)[OF kernel_okD(1)[OF k]] by (auto simp: prio_inv_def)
  then show ?thesis using t by (simp add: current_priority_def priority_of_def)
qed

lemma yield_ok: "kernel_ok k A \<Longrightarrow> kernel_ok (yield_if b k) A"
proof -
  assume k: "kernel_ok k A"
  have "kok (yield_if b k) A" by (rule kok_fields[OF kernel_okD(1)[OF k]]) (simp_all add: yield_if_def portYIELD_WITHIN_API_def)
  then show ?thesis using k by (auto simp: kernel_ok_def yield_if_def portYIELD_WITHIN_API_def)
qed

lemma suspend_ok:
  assumes "kernel_ok k A" and "prvGetTCBFromHandle handle k = Some t" and "tcbs k t \<noteq> None" and "xIdleTaskHandle k \<noteq> Some t"
  shows "\<exists>k' A'. vTaskSuspend handle k = Some k' \<and> kernel_ok k' A'"
proof -
  obtain h1 h2 h A' where m: "remove_item (xGenericListItem t) k = Some (k\<lparr>heap := h1\<rparr>)" "remove_event_item t (k\<lparr>heap := h1\<rparr>) = Some (k\<lparr>heap := h2\<rparr>)"
      "append_item xSuspendedTaskList (xGenericListItem t) (k\<lparr>heap := h2\<rparr>) = k\<lparr>heap := h\<rparr>" "kok (k\<lparr>heap := h\<rparr>) A'" "keeps_ready t A A'"
    using to_list[OF kernel_okD(1)[OF assms(1)] assms(3), of xSuspendedTaskList] by auto
  have ok: "kernel_ok (k\<lparr>heap := h\<rparr>) A'" by (rule kernel_keep[OF assms(1) m(4,5)]) (use assms kernel_okD(2,4)[OF assms(1)] in simp_all)
  have "vTaskSuspend handle k = Some (yield_if (pxCurrentTCB k = Some t) (k\<lparr>heap := h\<rparr>))"
    using assms(2) m(1-3) kernel_okD(3)[OF assms(1)] by (simp add: vTaskSuspend_def Let_def yield_if_def)
  then show ?thesis using yield_ok[OF ok] by blast
qed

lemma delete_ok:
  assumes "kernel_ok k A" and "prvGetTCBFromHandle handle k = Some t" and "tcbs k t \<noteq> None" and "xIdleTaskHandle k \<noteq> Some t"
  shows "\<exists>k' A'. vTaskDelete handle k = Some k' \<and> kernel_ok k' A'"
proof -
  obtain h1 h2 h A' where m: "remove_item (xGenericListItem t) k = Some (k\<lparr>heap := h1\<rparr>)" "remove_event_item t (k\<lparr>heap := h1\<rparr>) = Some (k\<lparr>heap := h2\<rparr>)"
      "append_item xTasksWaitingTermination (xGenericListItem t) (k\<lparr>heap := h2\<rparr>) = k\<lparr>heap := h\<rparr>" "kok (k\<lparr>heap := h\<rparr>) A'" "keeps_ready t A A'"
    using to_list[OF kernel_okD(1)[OF assms(1)] assms(3), of xTasksWaitingTermination] by auto
  let ?k = "k\<lparr>heap := h, uxTasksDeleted := uxTasksDeleted k + 1, uxTaskNumber := uxTaskNumber k + 1\<rparr>"
  have "kok ?k A'" by (rule kok_fields[OF m(4)]) simp_all
  then have ok: "kernel_ok ?k A'" by (rule kernel_keep[OF assms(1) _ m(5)]) (use assms kernel_okD(2,4)[OF assms(1)] in simp_all)
  have "vTaskDelete handle k = Some (yield_if (xSchedulerRunning k \<and> pxCurrentTCB k = Some t) ?k)" using assms(2) m(1-3) by (simp add: vTaskDelete_def Let_def)
  then show ?thesis using yield_ok[OF ok] by blast
qed

text \<open>A suspended task waits for no event.\<close>

lemma suspended_facts:
  assumes "kok k A" and "xTaskIsTaskSuspended t k"
  shows "xGenericListItem t \<in> set (A xSuspendedTaskList) \<and> tcbs k t \<noteq> None \<and> (\<forall>l. xEventListItem t \<notin> set (A l))"
proof -
  note D = tasks_invD[OF kinvD(1)[OF assms(1)]]
  have "xGenericListItem t \<in> set (A xSuspendedTaskList)" "\<forall>l. xEventListItem t \<notin> set (A l)"
    using assms(2) heap_cont[OF D(1)] heap_free[OF D(1)] by (simp_all add: xTaskIsTaskSuspended_def list_macros)
  then show ?thesis using D(2)[of "xGenericListItem t" xSuspendedTaskList] by simp
qed

lemma suspended_to_ready:
  assumes "kernel_ok k A" and "xTaskIsTaskSuspended t k"
  shows "\<exists>h n h' A'. remove_item (xGenericListItem t) k = Some (k\<lparr>heap := h\<rparr>) \<and> prvAddTaskToReadyList t (k\<lparr>heap := h\<rparr>) = Some (k\<lparr>uxTopReadyPriority := n, heap := h'\<rparr>)
    \<and> kernel_ok (k\<lparr>uxTopReadyPriority := n, heap := h'\<rparr>) A'"
proof -
  note K = kernel_okD(1)[OF assms(1)]
  have f: "tcbs k t \<noteq> None" "\<forall>l. xEventListItem t \<notin> set (A l)" using suspended_facts[OF K assms(2)] by simp_all
  from to_ready[OF K f] obtain h n h' A' where m: "remove_item (xGenericListItem t) k = Some (k\<lparr>heap := h\<rparr>)"
      "prvAddTaskToReadyList t (k\<lparr>heap := h\<rparr>) = Some (k\<lparr>uxTopReadyPriority := n, heap := h'\<rparr>)" "kok (k\<lparr>uxTopReadyPriority := n, heap := h'\<rparr>) A'" "keeps_ready t A A'"
      "\<exists>p. xGenericListItem t \<in> set (A' (pxReadyTasksLists p))" by blast
  have "kernel_ok (k\<lparr>uxTopReadyPriority := n, heap := h'\<rparr>) A'" by (rule kernel_keep[OF assms(1) m(3,4)]) (use m(5) kernel_okD(2,4)[OF assms(1)] in simp_all)
  then show ?thesis using m(1,2) by blast
qed

lemma priorities_known:
  assumes "kernel_ok k A" and "tcbs k t \<noteq> None" and "tcbs k' = tcbs k" and "pxCurrentTCB k' = pxCurrentTCB k"
  shows "\<exists>p c. priority_of t k' = Some p \<and> current_priority k' = Some c"
  using current_some[OF assms(1)] assms(2-) by (auto simp: priority_of_def current_priority_def)

lemma task_resume_ok:
  assumes "kernel_ok k A"
  shows "\<exists>k' A'. vTaskResume handle k = Some k' \<and> kernel_ok k' A'"
proof (cases "\<exists>t. handle = Some t \<and> pxCurrentTCB k \<noteq> Some t \<and> xTaskIsTaskSuspended t k")
  case True
  then obtain t where t: "handle = Some t" "pxCurrentTCB k \<noteq> Some t" "xTaskIsTaskSuspended t k" by blast
  obtain h n h' A' where m: "remove_item (xGenericListItem t) k = Some (k\<lparr>heap := h\<rparr>)" "prvAddTaskToReadyList t (k\<lparr>heap := h\<rparr>) = Some (k\<lparr>uxTopReadyPriority := n, heap := h'\<rparr>)"
      "kernel_ok (k\<lparr>uxTopReadyPriority := n, heap := h'\<rparr>) A'" using suspended_to_ready[OF assms t(3)] by blast
  obtain p c where "priority_of t (k\<lparr>uxTopReadyPriority := n, heap := h'\<rparr>) = Some p" "current_priority (k\<lparr>uxTopReadyPriority := n, heap := h'\<rparr>) = Some c"
    using priorities_known[OF assms, of t "k\<lparr>uxTopReadyPriority := n, heap := h'\<rparr>"] suspended_facts[OF kernel_okD(1)[OF assms] t(3)] by auto
  then have "vTaskResume handle k = Some (yield_if (p \<ge> c) (k\<lparr>uxTopReadyPriority := n, heap := h'\<rparr>))" using t m(1,2) by (simp add: vTaskResume_def)
  then show ?thesis using yield_ok[OF m(3)] by blast
next
  case False
  then have "vTaskResume handle k = Some k" by (auto simp: vTaskResume_def split: option.splits)
  then show ?thesis using assms by blast
qed

lemma resume_from_isr_ok:
  assumes "kernel_ok k A"
  shows "\<exists>b k' A'. xTaskResumeFromISR t k = Some (b, k') \<and> kernel_ok k' A'"
proof (cases "xTaskIsTaskSuspended t k")
  case True
  note K = kernel_okD(1)[OF assms]
  have f: "xGenericListItem t \<in> set (A xSuspendedTaskList)" "tcbs k t \<noteq> None" "\<forall>l. xEventListItem t \<notin> set (A l)" using suspended_facts[OF K True] by simp_all
  obtain p c where p: "priority_of t k = Some p" "current_priority k = Some c" using priorities_known[OF assms f(2) refl refl] by blast
  obtain h A' where e: "append_item xPendingReadyList (xEventListItem t) k = k\<lparr>heap := h\<rparr>" "kpre t (Suc (unat (xTickCount k))) (k\<lparr>heap := h\<rparr>) A'" "keeps_ready t A A'"
      "\<forall>m. m \<noteq> xPendingReadyList \<longrightarrow> A' m = A m"
    using event_insert(2)[OF K f(2,3)] by blast
  have "xGenericListItem t \<in> set (A' xSuspendedTaskList)" using f(1) e(4) by simp
  from pre_kinv[OF e(2) this] have ok: "kok (k\<lparr>heap := h\<rparr>) A'" by (simp add: blocked_list_def)
  have "xGenericListItem t \<notin> set (A (pxReadyTasksLists p))" for p using heap_disjoint[OF tasks_invD(1)[OF kinvD(1)[OF K]] f(1), of "pxReadyTasksLists p"] by auto
  then have "xIdleTaskHandle k \<noteq> Some t" using assms by (auto simp: kernel_ok_def)
  then have "kernel_ok (k\<lparr>heap := h\<rparr>) A'" using kernel_keep[OF assms ok e(3)] kernel_okD(2,4)[OF assms] by simp
  moreover obtain h1 n h2 A2 where "remove_item (xGenericListItem t) k = Some (k\<lparr>heap := h1\<rparr>)" "prvAddTaskToReadyList t (k\<lparr>heap := h1\<rparr>) = Some (k\<lparr>uxTopReadyPriority := n, heap := h2\<rparr>)"
      "kernel_ok (k\<lparr>uxTopReadyPriority := n, heap := h2\<rparr>) A2" using suspended_to_ready[OF assms True] by blast
  ultimately show ?thesis using True p e(1) by (cases "uxSchedulerSuspended k = 0") (auto simp: xTaskResumeFromISR_def)
next
  case False
  then show ?thesis using assms by (auto simp: xTaskResumeFromISR_def)
qed
end
