(* ===== verification/KApi.thy ===== *)
theory KApi
  imports KMoves
begin

text \<open>
  The calls that wait for events and end such waits, delays, the two interrupts, and the calls that change priorities: each returns, and the state is sound again.
\<close>

section \<open>Waiting for events\<close>

lemma delay_task:
  assumes "kinv (Suc (unat (xTickCount k))) {t} k A" and "pxCurrentTCB k = Some t" and "wake \<noteq> xTickCount k"
  shows "\<exists>h u A'. prvAddCurrentTaskToDelayedList wake k = Some (k\<lparr>heap := h, xNextTaskUnblockTime := u\<rparr>) \<and> kok (k\<lparr>heap := h, xNextTaskUnblockTime := u\<rparr>) A' \<and> keeps_ready t A A'"
proof -
  obtain k' js where k': "prvAddCurrentTaskToDelayedList wake k = Some k'" "kok k' (A(delay_list wake k := js))" "set js = insert (xGenericListItem t) (set (A (delay_list wake k)))"
      "k' = k\<lparr>heap := heap k', xNextTaskUnblockTime := xNextTaskUnblockTime k'\<rparr>"
    using put_delayed[OF assms] by blast
  obtain h u where n: "k' = k\<lparr>heap := h, xNextTaskUnblockTime := u\<rparr>" using k'(4) by blast
  have "keeps_ready t A (A(delay_list wake k := js))" by (rule keeps_list) (simp add: k'(3))
  then show ?thesis using k'(1,2) unfolding n by blast
qed

lemma block_current:
  assumes "kernel_ok k A" and "pxCurrentTCB k = Some t" and "xIdleTaskHandle k \<noteq> Some t" and "kpre t (Suc (unat (xTickCount k))) (k\<lparr>heap := h0\<rparr>) A0" and "keeps_ready t A A0" and "n \<noteq> 0"
  shows "\<exists>h. remove_item (xGenericListItem t) (k\<lparr>heap := h0\<rparr>) = Some (k\<lparr>heap := h\<rparr>)
    \<and> (\<exists>A'. kernel_ok (append_item xSuspendedTaskList (xGenericListItem t) (k\<lparr>heap := h\<rparr>)) A')
    \<and> (\<exists>k' A'. prvAddCurrentTaskToDelayedList (xTickCount k + n) (k\<lparr>heap := h\<rparr>) = Some k' \<and> kernel_ok k' A')"
proof -
  have live: "tcbs k t \<noteq> None" using kinvD(3)[OF kernel_okD(1)[OF assms(1)]] assms(2) by (simp add: prio_inv_def)
  let ?A = "without (xGenericListItem t) A0"
  obtain h where h: "remove_item (xGenericListItem t) (k\<lparr>heap := h0\<rparr>) = Some (k\<lparr>heap := h\<rparr>)" "kinv (Suc (unat (xTickCount k))) {t} (k\<lparr>heap := h\<rparr>) ?A"
    using take_generic_pre[OF assms(4)] live by auto
  have k1: "keeps_ready t A ?A" using keeps_trans[OF assms(5) keeps_without] by simp
  note K = kernel_okD[OF assms(1)]
  have "kok (append_item xSuspendedTaskList (xGenericListItem t) (k\<lparr>heap := h\<rparr>)) (?A(xSuspendedTaskList := ins_end (pxIndex h xSuspendedTaskList) (xGenericListItem t) (?A xSuspendedTaskList)))"
    using put_append[OF h(2), of xSuspendedTaskList] live by (simp add: blocked_list_def append_item_def)
  moreover have "keeps_ready t A (?A(xSuspendedTaskList := ins_end (pxIndex h xSuspendedTaskList) (xGenericListItem t) (?A xSuspendedTaskList)))"
    by (rule keeps_trans[OF k1 keeps_list]) (simp add: ins_end_set)
  ultimately have "\<exists>A'. kernel_ok (append_item xSuspendedTaskList (xGenericListItem t) (k\<lparr>heap := h\<rparr>)) A'"
    using kernel_keep[OF assms(1)] assms(3) K(2,4) by (fastforce simp: append_item_def)
  moreover obtain h' u A' where d: "prvAddCurrentTaskToDelayedList (xTickCount k + n) (k\<lparr>heap := h\<rparr>) = Some (k\<lparr>heap := h', xNextTaskUnblockTime := u\<rparr>)"
      "kok (k\<lparr>heap := h', xNextTaskUnblockTime := u\<rparr>) A'" "keeps_ready t ?A A'"
    using delay_task[of "k\<lparr>heap := h\<rparr>" t ?A "xTickCount k + n"] h(2) assms(2,6) by auto
  moreover have "kernel_ok (k\<lparr>heap := h', xNextTaskUnblockTime := u\<rparr>) A'"
    by (rule kernel_keep[OF assms(1) d(2) keeps_trans[OF k1 d(3)]]) (use assms(3) K(2,4) in simp_all)
  ultimately show ?thesis using h(1) by blast
qed

lemma place_event_ok:
  assumes "kernel_ok k A" and "pxCurrentTCB k = Some t" and "xIdleTaskHandle k \<noteq> Some t" and "listLIST_ITEM_CONTAINER (xEventListItem t) (heap k) = None" and "n \<noteq> 0"
  shows "\<exists>k' A'. vTaskPlaceOnEventList (xEventList e) n k = Some k' \<and> kernel_ok k' A'" "\<exists>k' A'. vTaskPlaceOnEventListRestricted (xEventList e) n k = Some k' \<and> kernel_ok k' A'"
proof -
  note K = kernel_okD(1)[OF assms(1)]
  have live: "tcbs k t \<noteq> None" using kinvD(3)[OF K] assms(2) by (simp add: prio_inv_def)
  have f: "\<forall>l. xEventListItem t \<notin> set (A l)" using assms(4) by (simp add: list_macros heap_free[OF tasks_invD(1)[OF kinvD(1)[OF K]]])
  obtain h1 A1 where i: "insert_item (xEventList e) (xEventListItem t) k = Some (k\<lparr>heap := h1\<rparr>)" "kpre t (Suc (unat (xTickCount k))) (k\<lparr>heap := h1\<rparr>) A1" "keeps_ready t A A1"
    using event_insert(1)[OF K live f, of "xEventList e"] by blast
  show "\<exists>k' A'. vTaskPlaceOnEventList (xEventList e) n k = Some k' \<and> kernel_ok k' A'"
    using block_current[OF assms(1-3) i(2,3) assms(5)] i(1) assms(2) by (auto simp: vTaskPlaceOnEventList_def)
  obtain h2 A2 where a: "append_item (xEventList e) (xEventListItem t) k = k\<lparr>heap := h2\<rparr>" "kpre t (Suc (unat (xTickCount k))) (k\<lparr>heap := h2\<rparr>) A2" "keeps_ready t A A2"
    using event_insert(2)[OF K live f, of "xEventList e"] by blast
  show "\<exists>k' A'. vTaskPlaceOnEventListRestricted (xEventList e) n k = Some k' \<and> kernel_ok k' A'"
    using block_current[OF assms(1-3) a(2,3) assms(5)] a(1) assms(2) by (auto simp: vTaskPlaceOnEventListRestricted_def)
qed

lemma event_head:
  assumes "kok k A" and "A (xEventList e) = i # js"
  shows "\<exists>t. i = xEventListItem t \<and> tcbs k t \<noteq> None \<and> listGET_OWNER_OF_HEAD_ENTRY (xEventList e) (heap k) = Some t"
proof -
  note D = tasks_invD[OF kinvD(1)[OF assms(1)]]
  have "place_ok k (xEventList e) i" using D(2)[of i "xEventList e"] assms(2) by simp
  then obtain t where "i = xEventListItem t" "tcbs k t \<noteq> None" by (cases i) auto
  then show ?thesis using head_ok[OF D(1), of "xEventList e"] assms(2) D(4) by simp
qed

text \<open>The task has left the list of events: it becomes ready, or pending while the scheduler is suspended.\<close>

lemma event_over:
  assumes "kernel_ok k A" and "tcbs k t \<noteq> None" and "\<forall>l. xEventListItem t \<notin> set (A l)" and "xGenericListItem t \<in> set (A l)" and "blocked_list l" and "xIdleTaskHandle k \<noteq> Some t"
  shows "\<exists>k' A'. (if uxSchedulerSuspended k = 0 then do { k' \<leftarrow> remove_item (xGenericListItem t) k; prvAddTaskToReadyList t k' }
      else Some (append_item xPendingReadyList (xEventListItem t) k)) = Some k' \<and> kernel_ok k' A' \<and> tcbs k' = tcbs k \<and> pxCurrentTCB k' = pxCurrentTCB k"
proof (cases "uxSchedulerSuspended k = 0")
  case True
  obtain h1 n h2 A2 where m: "remove_item (xGenericListItem t) k = Some (k\<lparr>heap := h1\<rparr>)" "prvAddTaskToReadyList t (k\<lparr>heap := h1\<rparr>) = Some (k\<lparr>uxTopReadyPriority := n, heap := h2\<rparr>)"
      "kok (k\<lparr>uxTopReadyPriority := n, heap := h2\<rparr>) A2" "keeps_ready t A A2"
    using to_ready[OF kernel_okD(1)[OF assms(1)] assms(2,3)] by blast
  have "kernel_ok (k\<lparr>uxTopReadyPriority := n, heap := h2\<rparr>) A2" by (rule kernel_keep[OF assms(1) m(3,4)]) (use assms(6) kernel_okD(2,4)[OF assms(1)] in simp_all)
  then show ?thesis using True m(1,2) by auto
next
  case False
  obtain h1 A1 where a: "append_item xPendingReadyList (xEventListItem t) k = k\<lparr>heap := h1\<rparr>" "kpre t (Suc (unat (xTickCount k))) (k\<lparr>heap := h1\<rparr>) A1" "keeps_ready t A A1"
      "\<forall>m. m \<noteq> xPendingReadyList \<longrightarrow> A1 m = A m"
    using event_insert(2)[OF kernel_okD(1)[OF assms(1)] assms(2,3), of xPendingReadyList] by blast
  have "l \<noteq> xPendingReadyList" using assms(5) by (auto simp: blocked_list_def)
  then have "xGenericListItem t \<in> set (A1 l)" using a(4) assms(4) by simp
  from pre_kinv[OF a(2) this assms(5)] have ok: "kok (k\<lparr>heap := h1\<rparr>) A1" by simp
  have "kernel_ok (k\<lparr>heap := h1\<rparr>) A1" by (rule kernel_keep[OF assms(1) ok a(3)]) (use assms(6) kernel_okD(2,4)[OF assms(1)] in simp_all)
  then show ?thesis using False a(1) by auto
qed

lemma remove_event_ok:
  assumes "kernel_ok k A" and "\<not> listLIST_IS_EMPTY (xEventList e) (heap k)"
  shows "\<exists>b k' A'. xTaskRemoveFromEventList (xEventList e) k = Some (b, k') \<and> kernel_ok k' A'"
proof -
  note K = kernel_okD(1)[OF assms(1)] and D = tasks_invD[OF kinvD(1)[OF kernel_okD(1)[OF assms(1)]]]
  obtain i js where ij: "A (xEventList e) = i # js" using assms(2) heap_facts(2)[OF D(1), of "xEventList e"] by (cases "A (xEventList e)") (auto simp: list_macros)
  obtain t where t: "i = xEventListItem t" "tcbs k t \<noteq> None" "listGET_OWNER_OF_HEAD_ENTRY (xEventList e) (heap k) = Some t" using event_head[OF K ij] by blast
  have e: "xEventListItem t \<in> set (A (xEventList e))" using ij t(1) by simp
  obtain l where l: "blocked_list l" "xGenericListItem t \<in> set (A l)" using D(10)[OF e] by auto
  let ?A = "without (xEventListItem t) A"
  obtain h where h: "remove_event_item t k = Some (k\<lparr>heap := h\<rparr>)" "kok (k\<lparr>heap := h\<rparr>) ?A" using drop_event[OF K, of t] by auto
  have r: "remove_item (xEventListItem t) k = Some (k\<lparr>heap := h\<rparr>)" using h(1) heap_cont[OF D(1), of "xEventListItem t" "xEventList e"] e by (simp add: remove_event_item_def list_macros)
  have "\<forall>p. l \<noteq> pxReadyTasksLists p" using l(1) by (auto simp: blocked_list_def)
  then have "xGenericListItem t \<notin> set (A (pxReadyTasksLists p))" for p using heap_disjoint[OF D(1) l(2), of "pxReadyTasksLists p"] by auto
  then have idle: "xIdleTaskHandle k \<noteq> Some t" using assms(1) by (auto simp: kernel_ok_def)
  have ok: "kernel_ok (k\<lparr>heap := h\<rparr>) ?A" by (rule kernel_keep[OF assms(1) h(2) keeps_without[of "xEventListItem t" t]]) (use idle kernel_okD(2,4)[OF assms(1)] in simp_all)
  have "\<forall>l. xEventListItem t \<notin> set (?A l)" "tcbs (k\<lparr>heap := h\<rparr>) t \<noteq> None" "xGenericListItem t \<in> set (?A l)" "xIdleTaskHandle (k\<lparr>heap := h\<rparr>) \<noteq> Some t"
    using event_free[OF D(1)] t(2) l(2) idle by (auto simp: without_def)
  from event_over[OF ok this(2,1,3) l(1) this(4)] obtain k2 A2 where k2: "(if uxSchedulerSuspended (k\<lparr>heap := h\<rparr>) = 0 then do { k' \<leftarrow> remove_item (xGenericListItem t) (k\<lparr>heap := h\<rparr>); prvAddTaskToReadyList t k' }
      else Some (append_item xPendingReadyList (xEventListItem t) (k\<lparr>heap := h\<rparr>))) = Some k2" "kernel_ok k2 A2" "tcbs k2 = tcbs k" "pxCurrentTCB k2 = pxCurrentTCB k" by auto
  obtain p c where "priority_of t k2 = Some p" "current_priority k2 = Some c" using priorities_known[OF assms(1) t(2) k2(3,4)] by blast
  then show ?thesis using t(3) r k2(1,2) by (auto simp: xTaskRemoveFromEventList_def)
qed

section \<open>Delays, ticks and the scheduler\<close>

lemma delay_current_keep:
  assumes "kernel_ok k A" and "pxCurrentTCB k = Some t" and "xIdleTaskHandle k \<noteq> Some t" and "wake \<noteq> xTickCount k"
  shows "\<exists>k' A'. delay_current wake k = Some k' \<and> kernel_ok k' A' \<and> uxSchedulerSuspended k' = uxSchedulerSuspended k"
proof -
  obtain h u A' where d: "delay_current wake k = Some (k\<lparr>heap := h, xNextTaskUnblockTime := u\<rparr>)" "kok (k\<lparr>heap := h, xNextTaskUnblockTime := u\<rparr>) A'"
      "\<forall>l. l \<notin> {xDelayedTaskList1, xDelayedTaskList2} \<longrightarrow> A' l = without (xGenericListItem t) A l"
    using delay_current_ok[OF kernel_okD(1)[OF assms(1)] assms(2,4)] unfolding Let_def by blast
  have "keeps_ready t A A'" using keeps_without[of "xGenericListItem t" t A] d(3) by (simp add: keeps_ready_def)
  then have "kernel_ok (k\<lparr>heap := h, xNextTaskUnblockTime := u\<rparr>) A'" by (rule kernel_keep[OF assms(1) d(2)]) (use assms(3) kernel_okD(2,4)[OF assms(1)] in simp_all)
  then show ?thesis using d(1) by auto
qed

lemma kernel_grows:
  assumes "kernel_ok k A" and "kok k' A'" and "ready_grows A A'" and "pxCurrentTCB k' \<noteq> None" and "fixed k' = fixed k" and "uxSchedulerSuspended k' < 2 ^ 32"
  shows "kernel_ok k' A'"
proof -
  obtain i p where "xIdleTaskHandle k = Some i" "xGenericListItem i \<in> set (A (pxReadyTasksLists p))" "xSchedulerRunning k" using assms(1) by (auto simp: kernel_ok_def)
  then have "xIdleTaskHandle k' = Some i" "xGenericListItem i \<in> set (A' (pxReadyTasksLists p))" "xSchedulerRunning k'" using assms(3,5) by (auto simp: ready_grows_def)
  then show ?thesis using assms(2,4,6) by (auto simp: kernel_ok_def)
qed

lemma suspend_all_ok: "kernel_ok k A \<Longrightarrow> uxSchedulerSuspended k + 1 < 2 ^ 32 \<Longrightarrow> kernel_ok (vTaskSuspendAll k) A"
proof -
  assume k: "kernel_ok k A" and n: "uxSchedulerSuspended k + 1 < 2 ^ 32"
  have "kok (vTaskSuspendAll k) A" by (rule kok_fields[OF kernel_okD(1)[OF k]]) (simp_all add: vTaskSuspendAll_def)
  then show ?thesis using k n by (simp add: kernel_ok_def vTaskSuspendAll_def u32_def)
qed

lemma resume_all_ok:
  assumes "kernel_ok k A"
  shows "\<exists>b k' A'. xTaskResumeAll k = Some (b, k') \<and> kernel_ok k' A'"
proof -
  obtain b k' A' where r: "xTaskResumeAll k = Some (b, k')" "kok k' A'" "pxCurrentTCB k' = pxCurrentTCB k" "fixed k' = fixed k" "ready_grows A A'"
      "uxSchedulerSuspended k' = sub32 (uxSchedulerSuspended k) 1"
    using resume_ok[OF kernel_okD(1,2,4)[OF assms]] by blast
  have "sub32 (uxSchedulerSuspended k) 1 < 2 ^ 32" by (simp add: sub32_def)
  then have "kernel_ok k' A'" using kernel_grows[OF assms r(2,5) _ r(4)] r(3,6) kernel_okD(2)[OF assms] by simp
  then show ?thesis using r(1) by blast
qed

lemma task_delay_ok:
  assumes "kernel_ok k A" and "pxCurrentTCB k \<noteq> xIdleTaskHandle k" and "uxSchedulerSuspended k + 1 < 2 ^ 32"
  shows "\<exists>k' A'. vTaskDelay n k = Some k' \<and> kernel_ok k' A'"
proof (cases "n > 0")
  case True
  obtain t where t: "pxCurrentTCB k = Some t" using kernel_okD(2)[OF assms(1)] by blast
  have s: "kernel_ok (vTaskSuspendAll k) A" by (rule suspend_all_ok[OF assms(1,3)])
  have "pxCurrentTCB (vTaskSuspendAll k) = Some t" "xIdleTaskHandle (vTaskSuspendAll k) \<noteq> Some t" "xTickCount (vTaskSuspendAll k) + n \<noteq> xTickCount (vTaskSuspendAll k)"
    using True t assms(2) by (auto simp: vTaskSuspendAll_def)
  from delay_current_keep[OF s this] obtain k1 A1 where k1: "delay_current (xTickCount (vTaskSuspendAll k) + n) (vTaskSuspendAll k) = Some k1" "kernel_ok k1 A1" by blast
  obtain b k2 A2 where "xTaskResumeAll k1 = Some (b, k2)" "kernel_ok k2 A2" using resume_all_ok[OF k1(2)] by blast
  then show ?thesis using True k1(1) yield_ok by (auto simp: vTaskDelay_def)
next
  case False
  then show ?thesis using yield_ok[OF assms(1)] by (auto simp: vTaskDelay_def)
qed

text \<open>A wake time in the past of a periodic task does not delay it; one that is delayed never waits for the current tick.\<close>

lemma should_delay_later: "should_delay previous wake tick \<Longrightarrow> wake \<noteq> tick"
  by (auto simp: should_delay_def split: if_splits)

lemma delay_until_ok:
  assumes "kernel_ok k A" and "pxCurrentTCB k \<noteq> xIdleTaskHandle k" and "uxSchedulerSuspended k + 1 < 2 ^ 32"
  shows "\<exists>w k' A'. vTaskDelayUntil previous increment k = Some (w, k') \<and> kernel_ok k' A'"
proof -
  let ?s = "vTaskSuspendAll k" and ?w = "previous + increment"
  obtain t where t: "pxCurrentTCB k = Some t" using kernel_okD(2)[OF assms(1)] by blast
  have s: "kernel_ok ?s A" by (rule suspend_all_ok[OF assms(1,3)])
  have f: "pxCurrentTCB ?s = Some t" "xIdleTaskHandle ?s \<noteq> Some t" using t assms(2) by (auto simp: vTaskSuspendAll_def)
  have "\<exists>k1 A1. (if should_delay previous ?w (xTickCount ?s) then delay_current ?w ?s else Some ?s) = Some k1 \<and> kernel_ok k1 A1"
    using delay_current_keep[OF s f, of ?w] should_delay_later s by auto
  then obtain k1 A1 where k1: "(if should_delay previous ?w (xTickCount ?s) then delay_current ?w ?s else Some ?s) = Some k1" "kernel_ok k1 A1" by blast
  obtain b k2 A2 where "xTaskResumeAll k1 = Some (b, k2)" "kernel_ok k2 A2" using resume_all_ok[OF k1(2)] by blast
  then show ?thesis using k1(1) yield_ok by (auto simp: vTaskDelayUntil_def Let_def)
qed

lemma tick_interrupt_ok:
  assumes "kernel_ok k A"
  shows "\<exists>k' A'. xPortSysTickHandle k = Some k' \<and> kernel_ok k' A'"
proof (cases "uxSchedulerSuspended k = 0")
  case True
  obtain k' A' where k': "xPortSysTickHandle k = Some k'" "kok k' A'" "released (wakes (xTickCount k + 1) k A) k A A'" "pxCurrentTCB k' \<noteq> None" "uxSchedulerSuspended k' = 0" "fixed k' = fixed k"
    using tick_isr_ok[OF kernel_okD(1)[OF assms] True kernel_okD(2)[OF assms]] by blast
  have "kernel_ok k' A'" by (rule kernel_grows[OF assms k'(2) released_grows[OF k'(3)] k'(4,6)]) (simp add: k'(5))
  then show ?thesis using k'(1) by blast
next
  case False
  let ?k = "k\<lparr>uxPendedTicks := u32 (uxPendedTicks k + 1)\<rparr>"
  have "kok ?k A" by (rule kok_fields[OF kernel_okD(1)[OF assms]]) simp_all
  then have "kernel_ok ?k A" using assms by (simp add: kernel_ok_def)
  then show ?thesis using False by (auto simp: xPortSysTickHandle_def xTaskIncrementTick_def)
qed

lemma switch_keeps:
  assumes "kernel_ok k A" and "uxSchedulerSuspended k = 0"
  shows "\<exists>k'. vTaskSwitchContext k = Some k' \<and> kernel_ok k' A \<and> uxSchedulerSuspended k' = 0 \<and> uxPendedTicks k' = uxPendedTicks k \<and> fixed k' = fixed k"
proof -
  obtain q where "A (pxReadyTasksLists q) \<noteq> []" using assms unfolding kernel_ok_def by (metis empty_iff empty_set)
  then obtain p where p: "highest_ready A p" using some_highest[OF kinvD(3)[OF kernel_okD(1)[OF assms(1)]]] by blast
  obtain k' h t where k': "vTaskSwitchContext k = Some k'" "kinv (Suc (unat (xTickCount k))) {} k' A" "k' = k\<lparr>uxTopReadyPriority := p, heap := h, pxCurrentTCB := Some t\<rparr>"
    using switch_ok[OF kernel_okD(1)[OF assms(1)] assms(2) p] by blast
  have ok: "kok k' A" using k'(2) by (simp add: k'(3))
  have "kernel_ok k' A" by (rule kernel_grows[OF assms(1) ok ready_grows_refl]) (use kernel_okD(4)[OF assms(1)] in \<open>simp_all add: k'(3)\<close>)
  then show ?thesis using k'(1) assms(2) by (simp add: k'(3))
qed

lemma switch_interrupt_ok:
  assumes "kernel_ok k A"
  shows "\<exists>k' A'. SV_ISR False handler k = Some k' \<and> kernel_ok k' A'"
proof -
  have "\<exists>k' A'. vTaskSwitchContext k = Some k' \<and> kernel_ok k' A'"
  proof (cases "uxSchedulerSuspended k = 0")
    case True
    then show ?thesis using switch_keeps[OF assms] by blast
  next
    case False
    have "kok (k\<lparr>xYieldPending := True\<rparr>) A" by (rule kok_fields[OF kernel_okD(1)[OF assms]]) simp_all
    then have "kernel_ok (k\<lparr>xYieldPending := True\<rparr>) A" using assms by (simp add: kernel_ok_def)
    then show ?thesis using False by (auto simp: vTaskSwitchContext_def)
  qed
  then obtain k1 A1 where k1: "vTaskSwitchContext k = Some k1" "kernel_ok k1 A1" by blast
  have "kok (k1\<lparr>pending_soft_sv := False\<rparr>) A1" by (rule kok_fields[OF kernel_okD(1)[OF k1(2)]]) simp_all
  then have "kernel_ok (k1\<lparr>pending_soft_sv := False\<rparr>) A1" using k1(2) by (simp add: kernel_ok_def)
  then show ?thesis using k1(1) assms by (auto simp: SV_ISR_def)
qed

section \<open>Priorities\<close>

lemma place_ok_priority: "(\<forall>p. l \<noteq> pxReadyTasksLists p) \<or> i \<noteq> xGenericListItem t \<Longrightarrow> place_ok (set_priority t n k) l i = place_ok k l i"
  by (cases l; cases i) (auto simp: set_priority_def priority_of_def)

lemma place_ok_base: "place_ok (set_base_priority t n k) l i = place_ok k l i"
  by (cases l; cases i) (auto simp: set_base_priority_def priority_of_def option.map_comp comp_def)

lemma set_priority_ok:
  assumes "kinv m F k A" and "n < configMAX_PRIORITIES" and "\<forall>p. xGenericListItem t \<notin> set (A (pxReadyTasksLists p))"
  shows "kinv m F (set_priority t n k) A"
proof -
  note T = kinvD(1)[OF assms(1)]
  have "place_ok (set_priority t n k) l i" if "i \<in> set (A l)" for l i using place_ok_priority[of l i t n k] tasks_invD(2)[OF T that] assms(3) that by blast
  moreover have live: "tcbs (set_priority t n k) s \<noteq> None \<longleftrightarrow> tcbs k s \<noteq> None" for s by (simp add: set_priority_def)
  ultimately have "tasks_inv F (set_priority t n k) A" using T assms(2) unfolding tasks_inv_def live by (auto simp: set_priority_def split: if_splits)
  moreover have "time_inv m (set_priority t n k) A"
    by (rule time_inv_frame[OF kinvD(2)[OF assms(1)] refl refl _ delayed_generic[OF T]]) (simp_all add: set_priority_def wake_time_def)
  moreover have "prio_inv (set_priority t n k) A" using kinvD(3)[OF assms(1)] by (auto simp: prio_inv_def set_priority_def)
  ultimately show ?thesis by (simp add: kinv_def)
qed

lemma set_base_ok:
  assumes "kinv m F k A" and "n < configMAX_PRIORITIES"
  shows "kinv m F (set_base_priority t n k) A"
proof -
  note T = kinvD(1)[OF assms(1)]
  have live: "tcbs (set_base_priority t n k) s \<noteq> None \<longleftrightarrow> tcbs k s \<noteq> None" for s by (simp add: set_base_priority_def)
  have "tasks_inv F (set_base_priority t n k) A" using T assms(2) unfolding tasks_inv_def live place_ok_base by (auto simp: set_base_priority_def split: if_splits)
  moreover have "time_inv m (set_base_priority t n k) A"
    by (rule time_inv_frame[OF kinvD(2)[OF assms(1)] refl refl _ delayed_generic[OF T]]) (simp_all add: set_base_priority_def wake_time_def)
  moreover have "prio_inv (set_base_priority t n k) A" using kinvD(3)[OF assms(1)] by (auto simp: prio_inv_def set_base_priority_def)
  ultimately show ?thesis by (simp add: kinv_def)
qed

lemma event_value_ok:
  assumes "kinv m F k A"
  shows "kinv m F (set_event_value t n k) A"
proof -
  note T = kinvD(1)[OF assms(1)]
  have "tasks_inv F (set_event_value t n k) A" using T unfolding tasks_inv_def set_event_value_def by (simp add: place_ok_heap heap_ok_value) (simp add: list_macros)
  moreover have "time_inv m (set_event_value t n k) A"
    by (rule time_inv_frame[OF kinvD(2)[OF assms(1)] refl refl _ delayed_generic[OF T]]) (simp_all add: set_event_value_def wake_time_def list_macros)
  moreover have "prio_inv (set_event_value t n k) A" using kinvD(3)[OF assms(1)] by (auto simp: prio_inv_def set_event_value_def)
  ultimately show ?thesis by (simp add: kinv_def)
qed

lemma remove_commutes:
  assumes "remove_item i k = Some (k\<lparr>heap := h\<rparr>)"
  shows "remove_item i (set_priority t n k) = Some (set_priority t n (k\<lparr>heap := h\<rparr>))" "remove_item i (set_base_priority t n k) = Some (set_base_priority t n (k\<lparr>heap := h\<rparr>))"
    "remove_item i (set_event_value t n k) = Some (set_event_value t n (k\<lparr>heap := h\<rparr>))"
proof -
  obtain c where c: "uxListRemove i (heap k) = Some (c, h)" using assms by (cases "uxListRemove i (heap k)") (auto simp: remove_item_def dest: arg_cong[where f = heap])
  then show "remove_item i (set_priority t n k) = Some (set_priority t n (k\<lparr>heap := h\<rparr>))" "remove_item i (set_base_priority t n k) = Some (set_base_priority t n (k\<lparr>heap := h\<rparr>))"
    by (simp_all add: remove_item_def set_priority_def set_base_priority_def)
  obtain l where l: "pvContainer (heap k) i = Some l" using c by (cases "pvContainer (heap k) i") (auto simp: uxListRemove_def Let_def)
  have "uxListRemove i (listSET_LIST_ITEM_VALUE j v (heap k)) = Some (c, listSET_LIST_ITEM_VALUE j v h)" for j v
    using c l by (auto simp: uxListRemove_def Let_def listSET_LIST_ITEM_VALUE_def)
  then show "remove_item i (set_event_value t n k) = Some (set_event_value t n (k\<lparr>heap := h\<rparr>))" by (simp add: remove_item_def set_event_value_def)
qed

lemma change_fields:
  shows "xTickCount (set_priority t n (set_event_value t m k)) = xTickCount k \<and> fixed (set_priority t n (set_event_value t m k)) = fixed k
      \<and> pxCurrentTCB (set_priority t n (set_event_value t m k)) = pxCurrentTCB k \<and> uxSchedulerSuspended (set_priority t n (set_event_value t m k)) = uxSchedulerSuspended k"
    "xTickCount (set_event_value t m (set_priority t n k)) = xTickCount k \<and> fixed (set_event_value t m (set_priority t n k)) = fixed k
      \<and> pxCurrentTCB (set_event_value t m (set_priority t n k)) = pxCurrentTCB k \<and> uxSchedulerSuspended (set_event_value t m (set_priority t n k)) = uxSchedulerSuspended k"
  by (simp_all add: set_priority_def set_event_value_def)

text \<open>A task is taken out, something about it is changed, and it is ready again.\<close>

lemma change_and_ready:
  assumes "kernel_ok k A" and "tcbs k t \<noteq> None" and "\<forall>l. xEventListItem t \<notin> set (A l)"
    and "\<And>m k A. kinv m {t} k A \<Longrightarrow> kinv m {t} (f k) A" and "\<And>k. xTickCount (f k) = xTickCount k \<and> fixed (f k) = fixed k \<and> pxCurrentTCB (f k) = pxCurrentTCB k \<and> uxSchedulerSuspended (f k) = uxSchedulerSuspended k"
  shows "\<exists>h. remove_item (xGenericListItem t) k = Some (k\<lparr>heap := h\<rparr>) \<and> (\<exists>k' A'. prvAddTaskToReadyList t (f (k\<lparr>heap := h\<rparr>)) = Some k' \<and> kernel_ok k' A')"
proof -
  let ?A = "without (xGenericListItem t) A"
  obtain h where h: "remove_item (xGenericListItem t) k = Some (k\<lparr>heap := h\<rparr>)" "kinv (Suc (unat (xTickCount k))) {t} (k\<lparr>heap := h\<rparr>) ?A"
    using take_generic[OF kernel_okD(1)[OF assms(1)] assms(2)] by blast
  define k1 where "k1 = f (k\<lparr>heap := h\<rparr>)"
  have k1: "kinv (Suc (unat (xTickCount k))) {t} k1 ?A" unfolding k1_def by (rule assms(4)[OF h(2)])
  have f: "xTickCount k1 = xTickCount k" "fixed k1 = fixed k" "pxCurrentTCB k1 = pxCurrentTCB k" "uxSchedulerSuspended k1 = uxSchedulerSuspended k"
    using assms(5)[of "k\<lparr>heap := h\<rparr>"] by (simp_all add: k1_def)
  have "\<forall>l. xEventListItem t \<notin> set (?A l)" using assms(3) by (auto simp: without_def dest: notin_set_remove1)
  from put_ready_fields[OF k1 this] obtain n h' A' where p: "prvAddTaskToReadyList t k1 = Some (k1\<lparr>uxTopReadyPriority := n, heap := h'\<rparr>)"
      "kinv (Suc (unat (xTickCount k))) {} (k1\<lparr>uxTopReadyPriority := n, heap := h'\<rparr>) A'" "keeps_ready t ?A A'" "\<exists>p. xGenericListItem t \<in> set (A' (pxReadyTasksLists p))" by blast
  have ok: "kok (k1\<lparr>uxTopReadyPriority := n, heap := h'\<rparr>) A'" using p(2) f(1) by simp
  have "keeps_ready t A A'" using keeps_trans[OF keeps_without p(3)] by simp
  then have "kernel_ok (k1\<lparr>uxTopReadyPriority := n, heap := h'\<rparr>) A'" by (rule kernel_keep[OF assms(1) ok]) (use p(4) f(2-4) kernel_okD(2,4)[OF assms(1)] in simp_all)
  then show ?thesis using h(1) p(1) unfolding k1_def by blast
qed

lemma change_in_place:
  assumes "kernel_ok k A" and "kok k' A" and "fixed k' = fixed k \<and> pxCurrentTCB k' = pxCurrentTCB k \<and> uxSchedulerSuspended k' = uxSchedulerSuspended k"
  shows "kernel_ok k' A"
  by (rule kernel_grows[OF assms(1,2) ready_grows_refl]) (use assms(3) kernel_okD(2,4)[OF assms(1)] in simp_all)

lemma free_of_ready:
  assumes "tasks_inv {t} k A"
  shows "\<forall>p. xGenericListItem t \<notin> set (A (pxReadyTasksLists p))"
  using tasks_invD(9)[OF assms] by blast

lemma ready_facts:
  assumes "kok k A" and "priority_of t k = Some p"
  shows "listIS_CONTAINED_WITHIN (Some (pxReadyTasksLists p)) (xGenericListItem t) (heap k) \<Longrightarrow> \<forall>l. xEventListItem t \<notin> set (A l)"
    "\<not> listIS_CONTAINED_WITHIN (Some (pxReadyTasksLists p)) (xGenericListItem t) (heap k) \<Longrightarrow> \<forall>q. xGenericListItem t \<notin> set (A (pxReadyTasksLists q))"
proof -
  note D = tasks_invD[OF kinvD(1)[OF assms(1)]]
  have c: "listIS_CONTAINED_WITHIN (Some (pxReadyTasksLists p)) (xGenericListItem t) (heap k) \<longleftrightarrow> xGenericListItem t \<in> set (A (pxReadyTasksLists p))" using heap_cont[OF D(1)] by (simp add: list_macros)
  show "listIS_CONTAINED_WITHIN (Some (pxReadyTasksLists p)) (xGenericListItem t) (heap k) \<Longrightarrow> \<forall>l. xEventListItem t \<notin> set (A l)"
    unfolding c using no_event_if_ready[OF assms(1), of t "pxReadyTasksLists p"] by (simp add: blocked_list_def)
  show "\<not> listIS_CONTAINED_WITHIN (Some (pxReadyTasksLists p)) (xGenericListItem t) (heap k) \<Longrightarrow> \<forall>q. xGenericListItem t \<notin> set (A (pxReadyTasksLists q))"
    unfolding c using D(2)[of "xGenericListItem t"] assms(2) by fastforce
qed

lemma inherit_ok:
  assumes "kernel_ok k A" and "\<forall>t. holder = Some t \<longrightarrow> tcbs k t \<noteq> None"
  shows "\<exists>k' A'. vTaskPriorityInherit holder k = Some k' \<and> kernel_ok k' A'"
proof (cases "\<exists>t p c. holder = Some t \<and> priority_of t k = Some p \<and> current_priority k = Some c \<and> p < c")
  case True
  then obtain t p c where t: "holder = Some t" "priority_of t k = Some p" "current_priority k = Some c" "p < c" by blast
  note K = kernel_okD(1)[OF assms(1)]
  have live: "tcbs k t \<noteq> None" using t(2) by (auto simp: priority_of_def)
  have c: "c < configMAX_PRIORITIES" using t(3) tasks_invD(5)[OF kinvD(1)[OF K]] by (auto simp: current_priority_def priority_of_def split: Option.bind_splits)
  have same: "listIS_CONTAINED_WITHIN (Some (pxReadyTasksLists p)) (xGenericListItem t) (heap (set_event_value t c k)) \<longleftrightarrow> listIS_CONTAINED_WITHIN (Some (pxReadyTasksLists p)) (xGenericListItem t) (heap k)"
    by (simp add: set_event_value_def list_macros)
  show ?thesis
  proof (cases "listIS_CONTAINED_WITHIN (Some (pxReadyTasksLists p)) (xGenericListItem t) (heap k)")
    case True
    have "kinv m {t} (set_priority t c (set_event_value t c k)) A" if "kinv m {t} k A" for m k A
      using set_priority_ok[OF event_value_ok[OF that] c] free_of_ready[OF kinvD(1)[OF that]] by blast
    from change_and_ready[where f = "\<lambda>k. set_priority t c (set_event_value t c k)", OF assms(1) live ready_facts(1)[OF K t(2) True] this change_fields(1)] obtain h k' A' where h: "remove_item (xGenericListItem t) k = Some (k\<lparr>heap := h\<rparr>)"
        "prvAddTaskToReadyList t (set_priority t c (set_event_value t c (k\<lparr>heap := h\<rparr>))) = Some k'" "kernel_ok k' A'" by blast
    show ?thesis using t True h remove_commutes(3)[OF h(1)] by (auto simp: vTaskPriorityInherit_def Let_def same)
  next
    case False
    have "kok (set_priority t c (set_event_value t c k)) A"
      using set_priority_ok[OF event_value_ok[OF K] c ready_facts(2)[OF K t(2) False]] by (simp add: set_priority_def set_event_value_def)
    then have "kernel_ok (set_priority t c (set_event_value t c k)) A" by (rule change_in_place[OF assms(1)]) (simp add: set_priority_def set_event_value_def)
    then show ?thesis using t False by (auto simp: vTaskPriorityInherit_def Let_def same)
  qed
next
  case False
  have "vTaskPriorityInherit holder k = Some k"
  proof (cases holder)
    case (Some t)
    then obtain p c where "priority_of t k = Some p" "current_priority k = Some c" using priorities_known[OF assms(1) _ refl refl, of t] assms(2) by auto
    then show ?thesis using False Some by (auto simp: vTaskPriorityInherit_def)
  qed (simp add: vTaskPriorityInherit_def)
  then show ?thesis using assms(1) by blast
qed

lemma disinherit_ok:
  assumes "kernel_ok k A" and "\<forall>t. holder = Some t \<longrightarrow> tcbs k t \<noteq> None \<and> listLIST_ITEM_CONTAINER (xEventListItem t) (heap k) = None"
  shows "\<exists>k' A'. vTaskPriorityDisinherit holder k = Some k' \<and> kernel_ok k' A'"
proof (cases "\<exists>t b. holder = Some t \<and> tcbs k t = Some b \<and> uxPriority b \<noteq> uxBasePriority b")
  case True
  then obtain t b where t: "holder = Some t" "tcbs k t = Some b" "uxPriority b \<noteq> uxBasePriority b" by blast
  note K = kernel_okD(1)[OF assms(1)]
  have live: "tcbs k t \<noteq> None" and p: "uxBasePriority b < configMAX_PRIORITIES" using t(2) tasks_invD(6)[OF kinvD(1)[OF K] t(2)] by auto
  have e: "\<forall>l. xEventListItem t \<notin> set (A l)" using assms(2) t(1) by (simp add: list_macros heap_free[OF tasks_invD(1)[OF kinvD(1)[OF K]]])
  have "kinv m {t} (set_event_value t (uxBasePriority b) (set_priority t (uxBasePriority b) k)) A" if "kinv m {t} k A" for m k A
    using event_value_ok[OF set_priority_ok[OF that p]] free_of_ready[OF kinvD(1)[OF that]] by blast
  from change_and_ready[where f = "\<lambda>k. set_event_value t (uxBasePriority b) (set_priority t (uxBasePriority b) k)", OF assms(1) live e this change_fields(2)] obtain h k' A' where "remove_item (xGenericListItem t) k = Some (k\<lparr>heap := h\<rparr>)"
      "prvAddTaskToReadyList t (set_event_value t (uxBasePriority b) (set_priority t (uxBasePriority b) (k\<lparr>heap := h\<rparr>))) = Some k'" "kernel_ok k' A'" by blast
  then show ?thesis using t by (auto simp: vTaskPriorityDisinherit_def)
next
  case False
  then have "vTaskPriorityDisinherit holder k = Some k" using assms(2) by (cases holder) (auto simp: vTaskPriorityDisinherit_def)
  then show ?thesis using assms(1) by blast
qed

definition new_priority :: "nat \<Rightarrow> bool \<Rightarrow> nat \<Rightarrow> kernel \<Rightarrow> kernel" where
  "new_priority t both n k = set_event_value t n (set_base_priority t n (if both then set_priority t n k else k))"

lemma new_priority_fields: "xTickCount (new_priority t b n k) = xTickCount k \<and> fixed (new_priority t b n k) = fixed k \<and> pxCurrentTCB (new_priority t b n k) = pxCurrentTCB k
    \<and> uxSchedulerSuspended (new_priority t b n k) = uxSchedulerSuspended k"
  by (simp add: new_priority_def set_event_value_def set_base_priority_def set_priority_def)

lemma new_priority_ok:
  assumes "kinv m F k A" and "n < configMAX_PRIORITIES" and "\<forall>p. xGenericListItem t \<notin> set (A (pxReadyTasksLists p))"
  shows "kinv m F (new_priority t b n k) A"
  unfolding new_priority_def using set_priority_ok[OF assms] assms(1) by (intro event_value_ok set_base_ok[OF _ assms(2)]) simp

lemma remove_new_priority:
  assumes "remove_item i k = Some (k\<lparr>heap := h\<rparr>)"
  shows "remove_item i (new_priority t both n k) = Some (new_priority t both n (k\<lparr>heap := h\<rparr>))"
proof -
  define k0 where "k0 = (if both then set_priority t n k else k)"
  have "remove_item i k0 = Some (k0\<lparr>heap := h\<rparr>)" using assms remove_commutes(1)[OF assms, of t n] by (simp add: k0_def set_priority_def)
  from remove_commutes(2)[OF this, of t n] have "remove_item i (set_base_priority t n k0) = Some ((set_base_priority t n k0)\<lparr>heap := h\<rparr>)" by (simp add: set_base_priority_def)
  from remove_commutes(3)[OF this, of t n] show ?thesis by (simp add: new_priority_def k0_def set_event_value_def set_base_priority_def set_priority_def)
qed

lemma priority_set_moves:
  assumes "kernel_ok k A" and "tcbs k t = Some b" and "n < configMAX_PRIORITIES"
  shows "\<exists>k' A'. (if listIS_CONTAINED_WITHIN (Some (pxReadyTasksLists (uxPriority b))) (xGenericListItem t) (heap (new_priority t both n k))
      then do { k' \<leftarrow> remove_item (xGenericListItem t) (new_priority t both n k); prvAddTaskToReadyList t k' } else Some (new_priority t both n k)) = Some k' \<and> kernel_ok k' A'"
proof (cases "listIS_CONTAINED_WITHIN (Some (pxReadyTasksLists (uxPriority b))) (xGenericListItem t) (heap k)")
  case True
  note K = kernel_okD(1)[OF assms(1)]
  have live: "tcbs k t \<noteq> None" and p: "priority_of t k = Some (uxPriority b)" using assms(2) by (auto simp: priority_of_def)
  have "kinv m {t} (new_priority t both n k) A" if "kinv m {t} k A" for m k A by (rule new_priority_ok[OF that assms(3) free_of_ready[OF kinvD(1)[OF that]]])
  from change_and_ready[where f = "new_priority t both n", OF assms(1) live ready_facts(1)[OF K p True] this new_priority_fields] obtain h k' A' where
      h: "remove_item (xGenericListItem t) k = Some (k\<lparr>heap := h\<rparr>)" "prvAddTaskToReadyList t (new_priority t both n (k\<lparr>heap := h\<rparr>)) = Some k'" "kernel_ok k' A'" by blast
  have "remove_item (xGenericListItem t) (new_priority t both n k) = Some (new_priority t both n (k\<lparr>heap := h\<rparr>))"
    by (rule remove_new_priority[OF h(1)])
  then show ?thesis using True h(2,3) by (auto simp: new_priority_def set_event_value_def set_base_priority_def set_priority_def list_macros)
next
  case False
  note K = kernel_okD(1)[OF assms(1)]
  have p: "priority_of t k = Some (uxPriority b)" using assms(2) by (auto simp: priority_of_def)
  have "kok (new_priority t both n k) A" using new_priority_ok[OF K assms(3) ready_facts(2)[OF K p False]] new_priority_fields by simp
  then have "kernel_ok (new_priority t both n k) A" by (rule change_in_place[OF assms(1)]) (use new_priority_fields in simp)
  then show ?thesis using False by (auto simp: new_priority_def set_event_value_def set_base_priority_def set_priority_def list_macros)
qed

lemma priority_set_ok:
  assumes "kernel_ok k A" and "prvGetTCBFromHandle handle k = Some t" and "tcbs k t \<noteq> None"
  shows "\<exists>k' A'. vTaskPrioritySet handle n k = Some k' \<and> kernel_ok k' A'"
proof -
  let ?n = "if n \<ge> configMAX_PRIORITIES then configMAX_PRIORITIES - 1 else n"
  have n: "?n < configMAX_PRIORITIES" by (simp add: configMAX_PRIORITIES_def)
  obtain b where b: "tcbs k t = Some b" using assms(3) by blast
  obtain c where c: "current_priority k = Some c" using current_some[OF assms(1)] by blast
  show ?thesis
  proof (cases "uxBasePriority b = ?n")
    case True
    then have "vTaskPrioritySet handle n k = Some k" using assms(2) b by (simp add: vTaskPrioritySet_def Let_def)
    then show ?thesis using assms(1) by blast
  next
    case False
    let ?both = "uxBasePriority b = uxPriority b"
    obtain k' A' where k': "(if listIS_CONTAINED_WITHIN (Some (pxReadyTasksLists (uxPriority b))) (xGenericListItem t) (heap (new_priority t ?both ?n k))
        then do { k' \<leftarrow> remove_item (xGenericListItem t) (new_priority t ?both ?n k); prvAddTaskToReadyList t k' } else Some (new_priority t ?both ?n k)) = Some k'" "kernel_ok k' A'"
      using priority_set_moves[OF assms(1) b n] by blast
    let ?y = "if ?n > uxBasePriority b then pxCurrentTCB k \<noteq> Some t \<and> ?n \<ge> c else pxCurrentTCB k = Some t"
    have y: "(if ?n > uxBasePriority b then if pxCurrentTCB k \<noteq> Some t then do { c \<leftarrow> current_priority k; Some (?n \<ge> c) } else Some False
        else Some (pxCurrentTCB k = Some t)) = Some ?y" using c by simp
    have "vTaskPrioritySet handle n k = Some (yield_if ?y k')"
      using assms(2) b False k'(1) y unfolding vTaskPrioritySet_def Let_def new_priority_def by (simp del: if_split_asm cong: if_cong)
    then show ?thesis using yield_ok[OF k'(2)] by blast
  qed
qed
end
