(* ===== verification/KSystem.thy ===== *)
theory KSystem
  imports KApi
begin

text \<open>
  Creating tasks, starting the scheduler, and the system as a whole: the calls of its interface and the two interrupts in any order. Every state reached is sound, and
  in every such state each call that is allowed returns.
\<close>

section \<open>Creating tasks\<close>

lemma dead_task:
  assumes "tasks_inv F k A" and "tcbs k t = None"
  shows "xGenericListItem t \<notin> set (A l)" "xEventListItem t \<notin> set (A l)"
  using tasks_invD(2)[OF assms(1), of "xGenericListItem t" l] tasks_invD(2)[OF assms(1), of "xEventListItem t" l] assms(2) by (cases l; auto simp: priority_of_def)+

lemma heap_ok_item: "heap_ok (vListInitialiseItem i h) A = heap_ok h A" if "pvContainer h i = None"
  using that by (simp add: vListInitialiseItem_def fun_upd_idem)

lemma heap_ok_owner: "heap_ok (listSET_LIST_ITEM_OWNER i ow h) A = heap_ok h A"
  by (simp add: heap_ok_def cyc_def listSET_LIST_ITEM_OWNER_def)

definition clamped :: "nat \<Rightarrow> nat" where
  "clamped prio = (if prio \<ge> configMAX_PRIORITIES then configMAX_PRIORITIES - 1 else prio)"

lemma clamped_less: "clamped prio < configMAX_PRIORITIES"
  by (simp add: clamped_def configMAX_PRIORITIES_def)

lemma init_tcb_fields:
  fixes t name prio k defines "k' \<equiv> prvInitialiseTCBVariables t name prio k"
  shows "\<exists>nm. tcbs k' = (tcbs k)(t \<mapsto> \<lparr>uxPriority = clamped prio, uxBasePriority = clamped prio, pcTaskName = nm\<rparr>)" "k' = k\<lparr>tcbs := tcbs k', heap := heap k'\<rparr>"
    "pvOwner (heap k') = (pvOwner (heap k))(xGenericListItem t := t, xEventListItem t := t)" "xItemValue (heap k') (Item (xGenericListItem s)) = xItemValue (heap k) (Item (xGenericListItem s))"
    "pvContainer (heap k) (xGenericListItem t) = None \<Longrightarrow> pvContainer (heap k) (xEventListItem t) = None \<Longrightarrow> pvContainer (heap k') = pvContainer (heap k)"
  by (auto simp: k'_def prvInitialiseTCBVariables_def Let_def clamped_def list_macros vListInitialiseItem_def fun_upd_idem)

lemma init_tcb_heap:
  assumes "heap_ok (heap k) A" and "pvContainer (heap k) (xGenericListItem t) = None" and "pvContainer (heap k) (xEventListItem t) = None"
  shows "heap_ok (heap (prvInitialiseTCBVariables t name prio k)) A"
proof -
  have e: "vListInitialiseItem (xEventListItem t) (vListInitialiseItem (xGenericListItem t) (heap k)) = heap k" using assms(2,3) by (simp add: vListInitialiseItem_def fun_upd_idem)
  show ?thesis using assms(1) by (simp add: prvInitialiseTCBVariables_def Let_def e heap_ok_owner heap_ok_value)
qed

lemma init_tcb_ok:
  assumes "kinv m {} k A" and "tcbs k t = None"
  shows "kinv m {t} (prvInitialiseTCBVariables t name prio k) A"
proof -
  note T = kinvD(1)[OF assms(1)] and D = tasks_invD[OF kinvD(1)[OF assms(1)]]
  define k' where "k' = prvInitialiseTCBVariables t name prio k"
  note dead = dead_task[OF T assms(2)]
  have c: "pvContainer (heap k) (xGenericListItem t) = None" "pvContainer (heap k) (xEventListItem t) = None" using dead by (simp_all add: heap_free[OF D(1)])
  obtain nm where f: "tcbs k' = (tcbs k)(t \<mapsto> \<lparr>uxPriority = clamped prio, uxBasePriority = clamped prio, pcTaskName = nm\<rparr>)"
    using init_tcb_fields(1)[of t name prio k] unfolding k'_def by blast
  note g = init_tcb_fields(2-4)[of t name prio k, folded k'_def]
  have same: "pxDelayedTaskList k' = pxDelayedTaskList k" "pxOverflowDelayedTaskList k' = pxOverflowDelayedTaskList k" "xTickCount k' = xTickCount k" "xNextTaskUnblockTime k' = xNextTaskUnblockTime k"
    "uxTopReadyPriority k' = uxTopReadyPriority k" "pxCurrentTCB k' = pxCurrentTCB k" by (subst g(1), simp)+
  have "place_ok k' l i" if "i \<in> set (A l)" for l i
  proof -
    have "task_of i \<noteq> t" using that dead[of l] by (cases i rule: titem.exhaust) auto
    then have "place_ok k' l i = place_ok k l i" using f by (cases l; cases i) (simp_all add: priority_of_def)
    then show ?thesis using D(2)[OF that] by simp
  qed
  moreover have "pvOwner (heap k') (xGenericListItem s) = s \<and> pvOwner (heap k') (xEventListItem s) = s" if "tcbs k' s \<noteq> None" for s
    using that D(3,4)[of s] f g(2) by (cases "s = t") simp_all
  moreover have "uxPriority b < configMAX_PRIORITIES \<and> uxBasePriority b < configMAX_PRIORITIES" if "tcbs k' s = Some b" for s b
    using that D(5,6)[of s b] f clamped_less[of prio] by (cases "s = t") auto
  moreover have "\<exists>l. xGenericListItem s \<in> set (A l)" if "tcbs k' s \<noteq> None" "s \<noteq> t" for s using that D(7)[of s] f by simp
  moreover have "tcbs k' t \<noteq> None" using f by simp
  ultimately have "tasks_inv {t} k' A" using init_tcb_heap[OF D(1) c, of name prio] dead D(10) unfolding tasks_inv_def k'_def[symmetric] by auto
  moreover have "time_inv m k' A" by (rule time_inv_frame[OF kinvD(2)[OF assms(1)] refl refl _ delayed_generic[OF T]]) (simp_all add: same wake_time_def g(3))
  moreover have "prio_inv k' A" using kinvD(3)[OF assms(1)] by (auto simp: prio_inv_def same f)
  ultimately show ?thesis by (simp add: kinv_def k'_def)
qed

lemma admit_ok:
  assumes "kinv m {t} k A" and "pxCurrentTCB k = Some c" and "tcbs k c \<noteq> None" and "\<forall>l. xEventListItem t \<notin> set (A l)"
  shows "\<exists>k' A'. admit_task t prio k = Some k' \<and> kinv m {} k' A' \<and> keeps_ready t A A' \<and> (\<exists>p. xGenericListItem t \<in> set (A' (pxReadyTasksLists p)))
    \<and> (\<forall>l. (\<forall>p. l \<noteq> pxReadyTasksLists p) \<longrightarrow> A' l = A l) \<and> pxCurrentTCB k' \<noteq> None \<and> fixed k' = fixed k \<and> uxSchedulerSuspended k' = uxSchedulerSuspended k \<and> tcbs k' = tcbs k \<and> xTickCount k' = xTickCount k
    \<and> uxPendedTicks k' = uxPendedTicks k"
proof -
  obtain b where b: "tcbs k c = Some b" using assms(3) by blast
  define k1 where "k1 = k\<lparr>pxCurrentTCB := Some (if \<not> xSchedulerRunning k \<and> uxPriority b \<le> prio then t else c), uxCurrentNumberOfTasks := uxCurrentNumberOfTasks k + 1,
    uxTaskNumber := uxTaskNumber k + 1\<rparr>"
  have "tcbs k t \<noteq> None" using tasks_invD(8)[OF kinvD(1)[OF assms(1)]] by simp
  then have p: "prio_inv k1 A" using kinvD(3)[OF assms(1)] assms(3) by (simp add: prio_inv_def k1_def)
  have "kinv m {t} k1 A" by (rule kinv_frame[OF assms(1) _ _ _ _ _ _ _ _ p]) (use tasks_invD(1)[OF kinvD(1)[OF assms(1)]] in \<open>simp_all add: k1_def\<close>)
  from put_ready_lists[OF this assms(4)] obtain n h A' where r: "prvAddTaskToReadyList t k1 = Some (k1\<lparr>uxTopReadyPriority := n, heap := h\<rparr>)" "kinv m {} (k1\<lparr>uxTopReadyPriority := n, heap := h\<rparr>) A'"
      "keeps_ready t A A'" "\<exists>p. xGenericListItem t \<in> set (A' (pxReadyTasksLists p))" "\<forall>l. (\<forall>p. l \<noteq> pxReadyTasksLists p) \<longrightarrow> A' l = A l" by blast
  have "admit_task t prio k = prvAddTaskToReadyList t k1" using assms(2) b by (cases k) (simp add: admit_task_def Let_def k1_def priority_of_def)
  then show ?thesis using r by (intro exI[of _ "k1\<lparr>uxTopReadyPriority := n, heap := h\<rparr>"] exI[of _ A']) (simp add: k1_def)
qed

lemma init_tcb_same:
  fixes t name prio k defines "k' \<equiv> prvInitialiseTCBVariables t name prio k"
  shows "pxCurrentTCB k' = pxCurrentTCB k" "xSchedulerRunning k' = xSchedulerRunning k" "xIdleTaskHandle k' = xIdleTaskHandle k" "uxSchedulerSuspended k' = uxSchedulerSuspended k"
    "xTickCount k' = xTickCount k" "pxDelayedTaskList k' = pxDelayedTaskList k" "pxOverflowDelayedTaskList k' = pxOverflowDelayedTaskList k" "xNextTaskUnblockTime k' = xNextTaskUnblockTime k"
    "uxTopReadyPriority k' = uxTopReadyPriority k" "uxCurrentNumberOfTasks k' = uxCurrentNumberOfTasks k" "uxPendedTicks k' = uxPendedTicks k"
  by (simp_all add: k'_def prvInitialiseTCBVariables_def Let_def)

text \<open>A task created when there is a current task, before the scheduler runs or after.\<close>

lemma create_ok:
  assumes "kok k A" and "pxCurrentTCB k \<noteq> None" and "tcbs k t = None"
  shows "\<exists>k' A'. xTaskGenericCreate (Some t) True name prio k = Some (True, k') \<and> kok k' A' \<and> pxCurrentTCB k' \<noteq> None \<and> keeps_ready t A A' \<and> (\<exists>p. xGenericListItem t \<in> set (A' (pxReadyTasksLists p)))
    \<and> (\<forall>l. (\<forall>p. l \<noteq> pxReadyTasksLists p) \<longrightarrow> A' l = A l) \<and> fixed k' = fixed k \<and> uxSchedulerSuspended k' = uxSchedulerSuspended k \<and> {s. tcbs k' s \<noteq> None} = insert t {s. tcbs k s \<noteq> None}
    \<and> uxPendedTicks k' = uxPendedTicks k"
proof -
  define k1 where "k1 = prvInitialiseTCBVariables t name prio k"
  note same = init_tcb_same[of t name prio k, folded k1_def]
  have k1: "kinv (Suc (unat (xTickCount k))) {t} k1 A" unfolding k1_def by (rule init_tcb_ok[OF assms(1,3)])
  obtain c where c: "pxCurrentTCB k1 = Some c" using assms(2) same(1) by auto
  have "tcbs k1 c \<noteq> None" using kinvD(3)[OF k1] c by (simp add: prio_inv_def)
  moreover have "\<forall>l. xEventListItem t \<notin> set (A l)" using dead_task(2)[OF kinvD(1)[OF assms(1)] assms(3)] by blast
  ultimately obtain k2 A2 where k2: "admit_task t prio k1 = Some k2" "kinv (Suc (unat (xTickCount k))) {} k2 A2" "keeps_ready t A A2" "\<exists>p. xGenericListItem t \<in> set (A2 (pxReadyTasksLists p))"
      "\<forall>l. (\<forall>p. l \<noteq> pxReadyTasksLists p) \<longrightarrow> A2 l = A l" "pxCurrentTCB k2 \<noteq> None" "fixed k2 = fixed k1" "uxSchedulerSuspended k2 = uxSchedulerSuspended k1" "tcbs k2 = tcbs k1" "xTickCount k2 = xTickCount k1" "uxPendedTicks k2 = uxPendedTicks k1"
    using admit_ok[OF k1 c] by blast
  obtain cp where cp: "current_priority k2 = Some cp" using current_live[OF kinvD(3)[OF k2(2)]] k2(6) by blast
  define k3 where "k3 = (if xSchedulerRunning k2 then yield_if (cp < prio) k2 else k2)"
  have "xTaskGenericCreate (Some t) True name prio k = Some (True, k3)" using k2(1) cp by (simp add: xTaskGenericCreate_def prvAllocateTCBAndStack_def k1_def[symmetric] k3_def)
  moreover have ok2: "kok k2 A2" using k2(2,10) same(5) by simp
  have "kok k3 A2" by (rule kok_fields[OF ok2]) (simp_all add: k3_def yield_if_def portYIELD_WITHIN_API_def)
  moreover have "{s. tcbs k1 s \<noteq> None} = insert t {s. tcbs k s \<noteq> None}" using init_tcb_fields(1)[of t name prio k] unfolding k1_def by auto
  ultimately show ?thesis using k2(3-9,11) same(2-4,11) by (intro exI[of _ k3] exI[of _ A2]) (simp add: k3_def yield_if_def portYIELD_WITHIN_API_def)
qed

lemma create_keeps:
  assumes "kernel_ok k A" and "\<forall>t. tcb = Some t \<longrightarrow> tcbs k t = None"
  shows "\<exists>b k' A'. xTaskGenericCreate tcb stack name prio k = Some (b, k') \<and> kernel_ok k' A'"
proof (cases "\<exists>t. tcb = Some t \<and> stack")
  case True
  then obtain t where t: "tcb = Some t" "stack" by blast
  have new: "tcbs k t = None" using assms(2) t(1) by simp
  obtain k' A' where k': "xTaskGenericCreate (Some t) True name prio k = Some (True, k')" "kok k' A'" "pxCurrentTCB k' \<noteq> None" "keeps_ready t A A'" "\<exists>p. xGenericListItem t \<in> set (A' (pxReadyTasksLists p))"
      "fixed k' = fixed k" "uxSchedulerSuspended k' = uxSchedulerSuspended k"
    using create_ok[OF kernel_okD(1,2)[OF assms(1)] new, of name prio] by blast
  have "kernel_ok k' A'" by (rule kernel_keep[OF assms(1) k'(2,4)]) (use k'(3,5-7) kernel_okD(4)[OF assms(1)] in simp_all)
  then show ?thesis using k'(1) t by auto
next
  case False
  then have "xTaskGenericCreate tcb stack name prio k = Some (False, k)" by (cases tcb) (auto simp: xTaskGenericCreate_def prvAllocateTCBAndStack_def)
  then show ?thesis using assms(1) by blast
qed

section \<open>Starting\<close>

text \<open>The state at reset: no task, no item in a list, and the lists of events, which belong to other code, empty. The scheduler's own lists may hold anything.\<close>

definition fresh_kernel :: "kernel \<Rightarrow> bool" where
  "fresh_kernel k \<longleftrightarrow> pxCurrentTCB k = None \<and> uxCurrentNumberOfTasks k = 0 \<and> (\<forall>t. tcbs k t = None) \<and> (\<forall>i. pvContainer (heap k) i = None)
     \<and> (\<forall>e. cyc (heap k) (xEventList e) []) \<and> (\<forall>p \<ge> configMAX_PRIORITIES. cyc (heap k) (pxReadyTasksLists p) [])
     \<and> uxTopReadyPriority k = 0 \<and> xTickCount k = 0 \<and> uxPendedTicks k = 0 \<and> uxSchedulerSuspended k = 0 \<and> \<not> xSchedulerRunning k"

lemma vListInitialise_cyc: "cyc (vListInitialise m h) l [] \<longleftrightarrow> l = m \<or> cyc h l []"
  by (auto simp: vListInitialise_def cyc_def)

lemma initialise_all: "cyc (fold (\<lambda>p. vListInitialise (f p)) ps h) l [] \<longleftrightarrow> l \<in> f ` set ps \<or> cyc h l []"
  by (induction ps arbitrary: h) (auto simp: vListInitialise_cyc)

lemma fold_initialise_fields: "pvContainer (fold (\<lambda>p. vListInitialise (f p)) ps h) = pvContainer h" "pvOwner (fold (\<lambda>p. vListInitialise (f p)) ps h) = pvOwner h"
  by (induction ps arbitrary: h) (simp_all add: vListInitialise_def)

lemma task_lists_ok:
  assumes "\<forall>i. pvContainer (heap k) i = None" and "\<forall>e. cyc (heap k) (xEventList e) []" and "\<forall>p \<ge> configMAX_PRIORITIES. cyc (heap k) (pxReadyTasksLists p) []"
  shows "heap_ok (heap (prvInitialiseTaskLists k)) (\<lambda>_. [])" "pvOwner (heap (prvInitialiseTaskLists k)) = pvOwner (heap k)"
proof -
  have "p < configMAX_PRIORITIES \<or> cyc (heap k) (pxReadyTasksLists p) []" for p using assms(3) by (meson not_le)
  then have "cyc (heap (prvInitialiseTaskLists k)) l []" for l
    using assms(2) by (cases l) (auto simp: prvInitialiseTaskLists_def Let_def vListInitialise_cyc initialise_all image_iff)
  moreover have "pvContainer (heap (prvInitialiseTaskLists k)) i = None" for i
    using assms(1) by (simp add: prvInitialiseTaskLists_def Let_def vListInitialise_def fold_initialise_fields)
  ultimately show "heap_ok (heap (prvInitialiseTaskLists k)) (\<lambda>_. [])" by (simp add: heap_ok_def)
  show "pvOwner (heap (prvInitialiseTaskLists k)) = pvOwner (heap k)" by (simp add: prvInitialiseTaskLists_def Let_def vListInitialise_def fold_initialise_fields)
qed

lemma create_first:
  assumes "fresh_kernel k"
  shows "\<exists>k' A'. xTaskGenericCreate (Some t) True name prio k = Some (True, k') \<and> kok k' A' \<and> pxCurrentTCB k' = Some t \<and> (\<exists>p. xGenericListItem t \<in> set (A' (pxReadyTasksLists p)))
    \<and> (\<forall>l. (\<forall>p. l \<noteq> pxReadyTasksLists p) \<longrightarrow> A' l = []) \<and> fixed k' = fixed k \<and> uxSchedulerSuspended k' = 0 \<and> uxPendedTicks k' = 0 \<and> {s. tcbs k' s \<noteq> None} = {t}"
proof -
  note F = assms[unfolded fresh_kernel_def]
  define k1 where "k1 = prvInitialiseTCBVariables t name prio k"
  note same = init_tcb_same[of t name prio k, folded k1_def]
  have c: "pvContainer (heap k1) = pvContainer (heap k)" using F init_tcb_fields(5)[of k t name prio] by (simp add: k1_def)
  have cy: "cyc (heap k1) l [] \<longleftrightarrow> cyc (heap k) l []" for l by (simp add: k1_def prvInitialiseTCBVariables_def Let_def cyc_def list_macros vListInitialiseItem_def)
  obtain nm where f: "tcbs k1 = (tcbs k)(t \<mapsto> \<lparr>uxPriority = clamped prio, uxBasePriority = clamped prio, pcTaskName = nm\<rparr>)"
    using init_tcb_fields(1)[of t name prio k] unfolding k1_def by blast
  have ow: "pvOwner (heap k1) = (pvOwner (heap k))(xGenericListItem t := t, xEventListItem t := t)" using init_tcb_fields(3)[of t name prio k] by (simp add: k1_def)
  define k2 where "k2 = (prvInitialiseTaskLists (k1\<lparr>uxCurrentNumberOfTasks := 1, pxCurrentTCB := Some t\<rparr>))\<lparr>uxTaskNumber := uxTaskNumber k + 1\<rparr>"
  have h: "heap_ok (heap k2) (\<lambda>_. [])" "pvOwner (heap k2) = pvOwner (heap k1)"
    using task_lists_ok[of "k1\<lparr>uxCurrentNumberOfTasks := 1, pxCurrentTCB := Some t\<rparr>"] F c cy by (simp_all add: k2_def)
  have k2: "tcbs k2 = tcbs k1" "pxCurrentTCB k2 = Some t" "xTickCount k2 = 0" "uxTopReadyPriority k2 = 0" "pxDelayedTaskList k2 = xDelayedTaskList1" "pxOverflowDelayedTaskList k2 = xDelayedTaskList2"
      "fixed k2 = fixed k" "uxSchedulerSuspended k2 = 0" "uxPendedTicks k2 = 0"
    using F same by (simp_all add: k2_def prvInitialiseTaskLists_def Let_def)
  have "tasks_inv {t} k2 (\<lambda>_. [])" unfolding tasks_inv_def using h F clamped_less[of prio] by (auto simp: k2(1) f ow split: if_splits)
  then have "kinv (Suc (unat (xTickCount k2))) {t} k2 (\<lambda>_. [])" by (simp add: kinv_def time_inv_def prio_inv_def k2 f configMAX_PRIORITIES_def)
  from put_ready_lists[OF this] obtain n h' A' where r: "prvAddTaskToReadyList t k2 = Some (k2\<lparr>uxTopReadyPriority := n, heap := h'\<rparr>)" "kok (k2\<lparr>uxTopReadyPriority := n, heap := h'\<rparr>) A'"
      "\<exists>p. xGenericListItem t \<in> set (A' (pxReadyTasksLists p))" "\<forall>l. (\<forall>p. l \<noteq> pxReadyTasksLists p) \<longrightarrow> A' l = []" by auto
  have "admit_task t prio k1 = prvAddTaskToReadyList t k2"
    using F same by (simp add: admit_task_def Let_def k2_def prvInitialiseTaskLists_def) (simp add: k1_def prvInitialiseTCBVariables_def Let_def)
  then have "xTaskGenericCreate (Some t) True name prio k = Some (True, k2\<lparr>uxTopReadyPriority := n, heap := h'\<rparr>)"
    using r(1) k2(7) F by (simp add: xTaskGenericCreate_def prvAllocateTCBAndStack_def k1_def[symmetric])
  moreover have "{s. tcbs k2 s \<noteq> None} = {t}" using F by (auto simp: k2(1) f)
  ultimately show ?thesis using r k2 by (intro exI[of _ "k2\<lparr>uxTopReadyPriority := n, heap := h'\<rparr>"] exI[of _ A']) simp
qed

text \<open>Tasks created before the scheduler starts, and the start.\<close>

definition prestart :: "kernel \<Rightarrow> (klist \<Rightarrow> titem list) \<Rightarrow> bool" where
  "prestart k A \<longleftrightarrow> kok k A \<and> pxCurrentTCB k \<noteq> None \<and> \<not> xSchedulerRunning k \<and> uxSchedulerSuspended k = 0 \<and> uxPendedTicks k = 0
     \<and> (\<forall>l. (\<forall>p. l \<noteq> pxReadyTasksLists p) \<longrightarrow> A l = [])"

lemma create_prestart:
  assumes "fresh_kernel k \<or> prestart k A" and "tcbs k t = None"
  shows "\<exists>k' A'. xTaskGenericCreate (Some t) True name prio k = Some (True, k') \<and> prestart k' A' \<and> (\<exists>p. xGenericListItem t \<in> set (A' (pxReadyTasksLists p)))
    \<and> (prestart k A \<longrightarrow> keeps_ready t A A') \<and> fixed k' = fixed k \<and> {s. tcbs k' s \<noteq> None} = insert t {s. tcbs k s \<noteq> None}"
proof (cases "prestart k A")
  case True
  obtain k' A' where k': "xTaskGenericCreate (Some t) True name prio k = Some (True, k')" "kok k' A'" "pxCurrentTCB k' \<noteq> None" "keeps_ready t A A'" "\<exists>p. xGenericListItem t \<in> set (A' (pxReadyTasksLists p))"
      "\<forall>l. (\<forall>p. l \<noteq> pxReadyTasksLists p) \<longrightarrow> A' l = A l" "fixed k' = fixed k" "uxSchedulerSuspended k' = uxSchedulerSuspended k" "{s. tcbs k' s \<noteq> None} = insert t {s. tcbs k s \<noteq> None}" "uxPendedTicks k' = uxPendedTicks k"
    using create_ok[OF _ _ assms(2), of A name prio] True unfolding prestart_def by blast
  have "prestart k' A'" using True k'(2,3,6-8,10) by (simp add: prestart_def)
  then show ?thesis using k' by blast
next
  case False
  then have f: "fresh_kernel k" using assms(1) by blast
  obtain k' A' where k': "xTaskGenericCreate (Some t) True name prio k = Some (True, k')" "kok k' A'" "pxCurrentTCB k' = Some t" "\<exists>p. xGenericListItem t \<in> set (A' (pxReadyTasksLists p))"
      "\<forall>l. (\<forall>p. l \<noteq> pxReadyTasksLists p) \<longrightarrow> A' l = []" "fixed k' = fixed k" "uxSchedulerSuspended k' = 0" "{s. tcbs k' s \<noteq> None} = {t}" "uxPendedTicks k' = 0"
    using create_first[OF f, of t name prio] by blast
  have "prestart k' A'" "{s. tcbs k s \<noteq> None} = {}" using f k'(2,3,5-7,9) by (simp_all add: prestart_def fresh_kernel_def)
  then show ?thesis using k'(1,4,6,8) False by blast
qed

lemma running_ok:
  assumes "prestart k A" and "xIdleTaskHandle k = Some i" and "xGenericListItem i \<in> set (A (pxReadyTasksLists p))"
  shows "kernel_ok (k\<lparr>xSchedulerRunning := True, xTickCount := 0\<rparr>) A"
proof -
  let ?k = "k\<lparr>xSchedulerRunning := True, xTickCount := 0\<rparr>"
  have k: "kok k A" "A xDelayedTaskList1 = []" "A xDelayedTaskList2 = []" using assms(1) by (simp_all add: prestart_def)
  have "tasks_inv {} ?k A" using kinvD(1)[OF k(1)] place_ok_tcbs[of ?k k] by (simp add: tasks_inv_def)
  moreover have "time_inv m ?k A" for m using kinvD(2)[OF k(1)] k(2,3) by (auto simp: time_inv_def)
  moreover have "prio_inv ?k A" using kinvD(3)[OF k(1)] by (simp add: prio_inv_def)
  ultimately show ?thesis using assms by (auto simp: kernel_ok_def kinv_def prestart_def)
qed

lemma start_ok:
  assumes "fresh_kernel k \<or> prestart k A" and "tcbs k i = None" and "tcbs k tm = None" and "i \<noteq> tm"
  shows "\<exists>k' A'. vTaskStartScheduler (Some i) True True (Some tm) True k = Some k' \<and> kernel_ok k' A'
    \<and> (\<forall>l. (\<forall>p. l \<noteq> pxReadyTasksLists p) \<longrightarrow> A' l = []) \<and> uxSchedulerSuspended k' = 0 \<and> uxPendedTicks k' = 0 \<and> xIdleTaskHandle k' = Some i"
proof -
  obtain k1 A1 where k1: "xTaskGenericCreate (Some i) True [0x49, 0x44, 0x4c, 0x45] tskIDLE_PRIORITY k = Some (True, k1)" "prestart k1 A1" "\<exists>p. xGenericListItem i \<in> set (A1 (pxReadyTasksLists p))"
      "{s. tcbs k1 s \<noteq> None} = insert i {s. tcbs k s \<noteq> None}"
    using create_prestart[OF assms(1,2), of "[0x49, 0x44, 0x4c, 0x45]" tskIDLE_PRIORITY] by blast
  let ?k1 = "k1\<lparr>xIdleTaskHandle := Some i\<rparr>"
  have "kok k1 A1" using k1(2) by (simp add: prestart_def)
  then have "kok ?k1 A1" by (rule kok_fields) simp_all
  then have p1: "fresh_kernel ?k1 \<or> prestart ?k1 A1" using k1(2) by (simp add: prestart_def)
  have "tm \<notin> {s. tcbs k1 s \<noteq> None}" unfolding k1(4) using assms(3,4) by simp
  then have new: "tcbs ?k1 tm = None" by simp
  obtain k2 A2 where k2: "xTimerCreateTimerTask True (Some tm) True ?k1 = Some (True, k2)" "prestart k2 A2" "keeps_ready tm A1 A2" "fixed k2 = fixed ?k1"
    using create_prestart[OF p1 new, of "[0x54, 0x6d, 0x72, 0x20, 0x53, 0x76, 0x63]" configTIMER_TASK_PRIORITY] \<open>kok ?k1 A1\<close> k1(2) unfolding xTimerCreateTimerTask_def by (auto simp: prestart_def)
  obtain p where "xGenericListItem i \<in> set (A2 (pxReadyTasksLists p))" using k1(3) k2(3) assms(4) by (auto simp: keeps_ready_def)
  moreover have "xIdleTaskHandle k2 = Some i" using k2(4) by simp
  ultimately have ok: "kernel_ok (k2\<lparr>xSchedulerRunning := True, xTickCount := 0\<rparr>) A2" using running_ok[OF k2(2)] by blast
  let ?k2 = "k2\<lparr>xSchedulerRunning := True, xTickCount := 0\<rparr>"
  have q: "\<forall>l. (\<forall>p. l \<noteq> pxReadyTasksLists p) \<longrightarrow> A2 l = []" "uxSchedulerSuspended ?k2 = 0" "uxPendedTicks ?k2 = 0" using k2(2) by (simp_all add: prestart_def)
  from switch_keeps[OF ok q(2)] obtain k3 where k3: "vTaskSwitchContext ?k2 = Some k3" "kernel_ok k3 A2" "uxSchedulerSuspended k3 = 0" "uxPendedTicks k3 = uxPendedTicks ?k2" "fixed k3 = fixed ?k2" by blast
  have "vTaskStartScheduler (Some i) True True (Some tm) True k = Some k3" using k1(1) k2(1) k3(1) by (simp add: vTaskStartScheduler_def Let_def)
  moreover have "xIdleTaskHandle k3 = Some i" using k3(5) k2(4) by simp
  ultimately show ?thesis using k3(2-4) q(1,3) by (intro exI[of _ k3] exI[of _ A2]) simp
qed

section \<open>The system\<close>

fun create_all :: "(nat \<times> byte list \<times> nat) list \<Rightarrow> kernel \<Rightarrow> kernel option" where
  "create_all [] k = Some k"
| "create_all ((t, name, prio) # us) k = do { (_, k1) \<leftarrow> xTaskGenericCreate (Some t) True name prio k; create_all us k1 }"

datatype kcall = Tick | SoftwareInterrupt | Delay "32 word" | DelayUntil "32 word" "32 word" | Suspend "nat option" | Resume "nat option" | ResumeFromISR nat
  | PrioritySet "nat option" nat | PriorityInherit "nat option" | PriorityDisinherit "nat option" | PlaceOnEventList nat "32 word" | PlaceRestricted nat "32 word"
  | RemoveFromEventList nat | SuspendAll | ResumeAll | Create "nat option" bool "byte list" nat | Delete "nat option"

fun perform :: "kcall \<Rightarrow> kernel \<Rightarrow> kernel option" where
  "perform Tick k = xPortSysTickHandle k"
| "perform SoftwareInterrupt k = SV_ISR False (\<lambda>k. (False, k)) k"
| "perform (Delay n) k = vTaskDelay n k"
| "perform (DelayUntil previous n) k = map_option snd (vTaskDelayUntil previous n k)"
| "perform (Suspend handle) k = vTaskSuspend handle k"
| "perform (Resume handle) k = vTaskResume handle k"
| "perform (ResumeFromISR t) k = map_option snd (xTaskResumeFromISR t k)"
| "perform (PrioritySet handle n) k = vTaskPrioritySet handle n k"
| "perform (PriorityInherit handle) k = vTaskPriorityInherit handle k"
| "perform (PriorityDisinherit handle) k = vTaskPriorityDisinherit handle k"
| "perform (PlaceOnEventList e n) k = vTaskPlaceOnEventList (xEventList e) n k"
| "perform (PlaceRestricted e n) k = vTaskPlaceOnEventListRestricted (xEventList e) n k"
| "perform (RemoveFromEventList e) k = map_option snd (xTaskRemoveFromEventList (xEventList e) k)"
| "perform SuspendAll k = Some (vTaskSuspendAll k)"
| "perform ResumeAll k = map_option snd (xTaskResumeAll k)"
| "perform (Create tcb stack name prio) k = map_option snd (xTaskGenericCreate tcb stack name prio k)"
| "perform (Delete handle) k = vTaskDelete handle k"

text \<open>What a caller has to respect: handles of existing tasks, a new address for a new task, no blocking in the idle task, and at most \<open>2 ^ 32\<close> nested suspensions.\<close>

definition live_task :: "kernel \<Rightarrow> nat option \<Rightarrow> bool" where
  "live_task k handle \<longleftrightarrow> (case prvGetTCBFromHandle handle k of None \<Rightarrow> False | Some t \<Rightarrow> tcbs k t \<noteq> None)"

definition may_block :: "kernel \<Rightarrow> nat option \<Rightarrow> bool" where
  "may_block k handle \<longleftrightarrow> live_task k handle \<and> prvGetTCBFromHandle handle k \<noteq> xIdleTaskHandle k"

definition no_event :: "kernel \<Rightarrow> nat option \<Rightarrow> bool" where
  "no_event k handle \<longleftrightarrow> (case handle of None \<Rightarrow> True | Some t \<Rightarrow> listLIST_ITEM_CONTAINER (xEventListItem t) (heap k) = None)"

fun allowed :: "kcall \<Rightarrow> kernel \<Rightarrow> bool" where
  "allowed (Delay n) k \<longleftrightarrow> may_block k None \<and> uxSchedulerSuspended k + 1 < 2 ^ 32"
| "allowed (DelayUntil previous n) k \<longleftrightarrow> may_block k None \<and> uxSchedulerSuspended k + 1 < 2 ^ 32"
| "allowed (Suspend handle) k \<longleftrightarrow> may_block k handle"
| "allowed (PrioritySet handle n) k \<longleftrightarrow> live_task k handle"
| "allowed (PriorityInherit handle) k \<longleftrightarrow> handle = None \<or> live_task k handle"
| "allowed (PriorityDisinherit handle) k \<longleftrightarrow> handle = None \<or> live_task k handle \<and> no_event k handle"
| "allowed (PlaceOnEventList e n) k \<longleftrightarrow> may_block k None \<and> no_event k (pxCurrentTCB k) \<and> n \<noteq> 0"
| "allowed (PlaceRestricted e n) k \<longleftrightarrow> may_block k None \<and> no_event k (pxCurrentTCB k) \<and> n \<noteq> 0"
| "allowed (RemoveFromEventList e) k \<longleftrightarrow> \<not> listLIST_IS_EMPTY (xEventList e) (heap k)"
| "allowed SuspendAll k \<longleftrightarrow> uxSchedulerSuspended k + 1 < 2 ^ 32"
| "allowed (Create tcb stack name prio) k \<longleftrightarrow> (case tcb of None \<Rightarrow> True | Some t \<Rightarrow> tcbs k t = None)"
| "allowed (Delete handle) k \<longleftrightarrow> may_block k handle"
| "allowed _ k \<longleftrightarrow> True"

inductive reachable :: "kernel \<Rightarrow> bool" where
  start: "fresh_kernel k0 \<Longrightarrow> distinct (i # tm # map fst us) \<Longrightarrow> create_all us k0 = Some k1 \<Longrightarrow> vTaskStartScheduler (Some i) True True (Some tm) True k1 = Some k \<Longrightarrow> reachable k"
| call: "reachable k \<Longrightarrow> allowed c k \<Longrightarrow> perform c k = Some k' \<Longrightarrow> reachable k'"

lemma handle_cases:
  assumes "live_task k handle"
  shows "\<exists>t. prvGetTCBFromHandle handle k = Some t \<and> tcbs k t \<noteq> None"
  using assms by (auto simp: live_task_def split: option.splits)

lemma blocker_cases:
  assumes "may_block k handle"
  shows "\<exists>t. prvGetTCBFromHandle handle k = Some t \<and> tcbs k t \<noteq> None \<and> xIdleTaskHandle k \<noteq> Some t"
  using assms handle_cases[of k handle] by (auto simp: may_block_def)

lemma perform_ok:
  assumes "kernel_ok k A" and "allowed c k"
  shows "\<exists>k' A'. perform c k = Some k' \<and> kernel_ok k' A'"
proof (cases c)
  case (Suspend handle)
  then show ?thesis using blocker_cases[of k handle] suspend_ok[OF assms(1), of handle] assms(2) by auto
next
  case (Delete handle)
  then show ?thesis using blocker_cases[of k handle] delete_ok[OF assms(1), of handle] assms(2) by auto
next
  case (PrioritySet handle n)
  then show ?thesis using handle_cases[of k handle] priority_set_ok[OF assms(1), of handle _ n] assms(2) by auto
next
  case (PriorityInherit handle)
  then show ?thesis using inherit_ok[OF assms(1), of handle] assms(2) by (auto simp: live_task_def prvGetTCBFromHandle_def split: option.splits)
next
  case (PriorityDisinherit handle)
  then show ?thesis using disinherit_ok[OF assms(1), of handle] assms(2) by (auto simp: live_task_def prvGetTCBFromHandle_def no_event_def split: option.splits)
next
  case (PlaceOnEventList e n)
  then obtain t where "pxCurrentTCB k = Some t" "xIdleTaskHandle k \<noteq> Some t" using blocker_cases[of k None] assms(2) by (auto simp: prvGetTCBFromHandle_def)
  then show ?thesis using place_event_ok(1)[OF assms(1), of t n e] PlaceOnEventList assms(2) by (simp add: no_event_def)
next
  case (PlaceRestricted e n)
  then obtain t where "pxCurrentTCB k = Some t" "xIdleTaskHandle k \<noteq> Some t" using blocker_cases[of k None] assms(2) by (auto simp: prvGetTCBFromHandle_def)
  then show ?thesis using place_event_ok(2)[OF assms(1), of t n e] PlaceRestricted assms(2) by (simp add: no_event_def)
next
  case (RemoveFromEventList e)
  then show ?thesis using remove_event_ok[OF assms(1), of e] assms(2) by auto
next
  case (Create tcb stack name prio)
  then show ?thesis using create_keeps[OF assms(1), of tcb stack name prio] assms(2) by (fastforce split: option.splits)
next
  case (Delay n)
  then show ?thesis using task_delay_ok[OF assms(1), of n] assms(2) by (simp add: may_block_def prvGetTCBFromHandle_def)
next
  case (DelayUntil previous n)
  then show ?thesis using delay_until_ok[OF assms(1), of previous n] assms(2) by (auto simp: may_block_def prvGetTCBFromHandle_def)
next
  case Tick
  then show ?thesis using tick_interrupt_ok[OF assms(1)] by simp
next
  case SoftwareInterrupt
  then show ?thesis using switch_interrupt_ok[OF assms(1)] by simp
next
  case (Resume handle)
  then show ?thesis using task_resume_ok[OF assms(1)] by simp
next
  case (ResumeFromISR t)
  then show ?thesis using resume_from_isr_ok[OF assms(1), of t] by auto
next
  case SuspendAll
  then show ?thesis using suspend_all_ok[OF assms(1)] assms(2) by auto
next
  case ResumeAll
  then show ?thesis using resume_all_ok[OF assms(1)] by auto
qed

lemma create_all_ok:
  assumes "fresh_kernel k \<or> prestart k A" and "distinct (map fst us)" and "\<forall>t \<in> fst ` set us. tcbs k t = None"
  shows "\<exists>k' A'. create_all us k = Some k' \<and> (fresh_kernel k' \<or> prestart k' A') \<and> {s. tcbs k' s \<noteq> None} = fst ` set us \<union> {s. tcbs k s \<noteq> None}"
  using assms
proof (induction us arbitrary: k A)
  case Nil
  then show ?case by auto
next
  case (Cons u us)
  obtain t name prio where u: "u = (t, name, prio)" by (cases u)
  obtain k1 A1 where k1: "xTaskGenericCreate (Some t) True name prio k = Some (True, k1)" "prestart k1 A1" "{s. tcbs k1 s \<noteq> None} = insert t {s. tcbs k s \<noteq> None}"
    using create_prestart[OF Cons.prems(1), of t name prio] Cons.prems(3) u by auto
  have "tcbs k1 s = None" if "s \<in> fst ` set us" for s
  proof -
    have "s \<notin> {s. tcbs k1 s \<noteq> None}" unfolding k1(3) using that Cons.prems(2,3) u by auto
    then show ?thesis by simp
  qed
  then obtain k' A' where "create_all us k1 = Some k'" "fresh_kernel k' \<or> prestart k' A'" "{s. tcbs k' s \<noteq> None} = fst ` set us \<union> {s. tcbs k1 s \<noteq> None}"
    using Cons.IH[of k1 A1] k1(2) Cons.prems(2) by auto
  then show ?case using k1(1,3) u by auto
qed

lemma boot_ok:
  assumes "fresh_kernel k0" and "distinct (i # tm # map fst us)"
  shows "\<exists>k1 k A. create_all us k0 = Some k1 \<and> vTaskStartScheduler (Some i) True True (Some tm) True k1 = Some k \<and> kernel_ok k A
    \<and> (\<forall>l. (\<forall>p. l \<noteq> pxReadyTasksLists p) \<longrightarrow> A l = []) \<and> uxSchedulerSuspended k = 0 \<and> uxPendedTicks k = 0 \<and> xIdleTaskHandle k = Some i"
proof -
  have none: "tcbs k0 t = None" for t using assms(1) by (simp add: fresh_kernel_def)
  obtain k1 A1 where k1: "create_all us k0 = Some k1" "fresh_kernel k1 \<or> prestart k1 A1" "{s. tcbs k1 s \<noteq> None} = fst ` set us \<union> {s. tcbs k0 s \<noteq> None}"
    using create_all_ok[of k0 undefined us] assms none by auto
  have "i \<notin> {s. tcbs k1 s \<noteq> None}" "tm \<notin> {s. tcbs k1 s \<noteq> None}" unfolding k1(3) using assms(2) none by auto
  then show ?thesis using start_ok[OF k1(2), of i tm] k1(1) assms(2) by auto
qed

definition power_on :: kernel where
  "power_on = \<lparr>pxCurrentTCB = None,
     heap = \<lparr>xItemValue = (\<lambda>_. portMAX_DELAY), pxNext = (\<lambda>r. r), pxPrevious = (\<lambda>r. r), pvOwner = (\<lambda>_. 0), pvContainer = (\<lambda>_. None), pxIndex = End, uxNumberOfItems = (\<lambda>_. 0)\<rparr>,
     tcbs = (\<lambda>_. None), pxDelayedTaskList = xDelayedTaskList1, pxOverflowDelayedTaskList = xDelayedTaskList2, uxTasksDeleted = 0, xIdleTaskHandle = None, uxCurrentNumberOfTasks = 0,
     xTickCount = 0, uxTopReadyPriority = 0, xSchedulerRunning = False, uxSchedulerSuspended = 0, uxPendedTicks = 0, xYieldPending = False, xNumOfOverflows = 0, uxTaskNumber = 0,
     xNextTaskUnblockTime = portMAX_DELAY, pending_soft_sv = False\<rparr>"

lemma power_on_fresh: "fresh_kernel power_on"
  by (simp add: fresh_kernel_def power_on_def cyc_def)

definition demo :: kernel where
  "demo = the (do { k \<leftarrow> create_all [(3, [0x61], 4), (4, [0x62], 4)] power_on; vTaskStartScheduler (Some 1) True True (Some 2) True k })"


lemma demo_current: "pxCurrentTCB demo = Some 3" "priority_of 3 demo = Some 4" "priority_of 4 demo = Some 4" "xTickCount demo = 0"
  by code_simp+

lemma demo_ok: "reachable demo \<and> (\<exists>A. kernel_ok demo A \<and> (\<forall>l. (\<forall>p. l \<noteq> pxReadyTasksLists p) \<longrightarrow> A l = []) \<and> uxSchedulerSuspended demo = 0 \<and> uxPendedTicks demo = 0)"
proof -
  have d: "distinct (1 # 2 # map fst [(3 :: nat, [0x61 :: byte], 4 :: nat), (4, [0x62], 4)])" by simp
  obtain k1 k A where k: "create_all [(3, [0x61], 4), (4, [0x62], 4)] power_on = Some k1" "vTaskStartScheduler (Some 1) True True (Some 2) True k1 = Some k" "kernel_ok k A"
      "\<forall>l. (\<forall>p. l \<noteq> pxReadyTasksLists p) \<longrightarrow> A l = []" "uxSchedulerSuspended k = 0" "uxPendedTicks k = 0"
    using boot_ok[OF power_on_fresh d] by blast
  have "demo = k" using k(1,2) by (simp add: demo_def)
  then show ?thesis using k(3-6) reachable.start[OF power_on_fresh d k(1,2)] by blast
qed

lemma demo_ready: "\<exists>A. kok demo A \<and> uxSchedulerSuspended demo = 0 \<and> highest_ready A 4 \<and> A xPendingReadyList = [] \<and> uxPendedTicks demo = 0 \<and> kernel_ok demo A"
proof -
  obtain A where A: "kernel_ok demo A" "uxSchedulerSuspended demo = 0" "uxPendedTicks demo = 0" "A xPendingReadyList = []" using demo_ok by auto
  note H = tasks_invD(1)[OF kinvD(1)[OF kernel_okD(1)[OF A(1)]]]
  have "uxTopReadyPriority demo = 4" "uxNumberOfItems (heap demo) (pxReadyTasksLists 4) = 2" by code_simp+
  then have "A (pxReadyTasksLists 4) \<noteq> []" "\<forall>p. A (pxReadyTasksLists p) \<noteq> [] \<longrightarrow> p \<le> 4" using heap_facts(2)[OF H, of "pxReadyTasksLists 4"] kinvD(3)[OF kernel_okD(1)[OF A(1)]] by (auto simp: prio_inv_def)
  then have "highest_ready A 4" by (auto simp: highest_ready_def not_le[symmetric])
  then show ?thesis using A kernel_okD(1)[OF A(1)] by blast
qed

section \<open>What the scheduler guarantees\<close>

text \<open>C2: Whatever the order of calls and interrupts, once tasks have been created and the scheduler has been started: the scheduler's state is sound (every task is in exactly one of the
  lists, in the one its state asks for, the lists are well linked, the delayed tasks are sorted and split by the wrap of the tick count, nothing above the recorded top priority is
  ready, the idle task is ready), and every call that respects the caller's obligations returns and leads to such a state again.\<close>

theorem scheduler_sound:
  assumes "reachable k"
  shows "(\<exists>A. kernel_ok k A) \<and> (\<forall>c. allowed c k \<longrightarrow> (\<exists>k'. perform c k = Some k' \<and> reachable k'))"
proof -
  have "\<exists>A. kernel_ok k A" using assms
  proof (induction rule: reachable.induct)
    case (start k0 i tm us k1 k)
    then show ?case using boot_ok[OF start(1,2)] by auto
  next
    case (call k c k')
    then show ?case using perform_ok[of k _ c] by auto
  qed
  then show ?thesis using perform_ok reachable.call[OF assms] by blast
qed

theorem scheduler_sound_witness: "(\<exists>A. kernel_ok demo A) \<and> (\<exists>k'. perform (Delay 5) demo = Some k' \<and> reachable k')"
proof -
  have "tcbs demo 3 \<noteq> None" using demo_current(2) by (auto simp: priority_of_def)
  moreover have "xIdleTaskHandle demo = Some 1" by code_simp
  ultimately have "allowed (Delay 5) demo" using demo_ready by (auto simp: may_block_def live_task_def prvGetTCBFromHandle_def demo_current)
  then show ?thesis using scheduler_sound[of demo] demo_ok by blast
qed

text \<open>C19: The context switch shares the processor among the ready tasks of the highest priority: as many switches as there are such tasks make each of them the
  current task exactly once, always in the same order, and all of them have that priority.\<close>

theorem time_slicing:
  assumes "kok k A" and "uxSchedulerSuspended k = 0" and "highest_ready A p"
  shows "\<exists>ts k'. nexts switch_to (length ts) k = Some (ts, k') \<and> kok k' A \<and> distinct ts \<and> set ts = {t. xGenericListItem t \<in> set (A (pxReadyTasksLists p))}
    \<and> (\<forall>t \<in> set ts. priority_of t k = Some p) \<and> ready_turns k' A p = ts"
proof -
  obtain k' where k': "nexts switch_to (length (ready_turns k A p)) k = Some (ready_turns k A p, k')" "kok k' A" "ready_turns k' A p = ready_turns k A p"
    using slices.one_round[of k A p] assms by auto
  have "\<forall>t \<in> set (ready_turns k A p). priority_of t k = Some p"
    using ready_turns_tasks[OF assms(1), of p] tasks_invD(2)[OF kinvD(1)[OF assms(1)], of _ "pxReadyTasksLists p"] by fastforce
  then show ?thesis using k' ready_turns_tasks[OF assms(1), of p] by (intro exI[of _ "ready_turns k A p"] exI[of _ k']) simp
qed

theorem time_slicing_witness: "(\<exists>A ts k'. highest_ready A 4 \<and> nexts switch_to (length ts) demo = Some (ts, k') \<and> set ts = {t. xGenericListItem t \<in> set (A (pxReadyTasksLists 4))})
    \<and> map_option fst (nexts switch_to 2 demo) = Some [4, 3]"
proof -
  obtain A where A: "kok demo A" "uxSchedulerSuspended demo = 0" "highest_ready A 4" using demo_ready by blast
  have "map_option fst (nexts switch_to 2 demo) = Some [4, 3]" by code_simp
  then show ?thesis using time_slicing[OF A] A(3) by blast
qed

text \<open>C5: A tick counts on by one, moves exactly the tasks whose time to wake is the new tick count to the ready lists, with the rest of every list kept in order,
  also when the count wraps to zero and the two lists of delayed tasks change their roles, and asks for a context switch exactly if one of the woken tasks has at least the priority of
  the current one or the current one shares its priority with another ready task.\<close>

theorem tick_wakes:
  assumes "kok k A" and "uxSchedulerSuspended k = 0" and "current_priority k = Some c"
  shows "\<exists>k' A'. xTaskIncrementTick k = Some ((\<exists>t \<in> wakes (xTickCount k + 1) k A. \<exists>p. priority_of t k = Some p \<and> c \<le> p) \<or> length (A' (pxReadyTasksLists c)) > 1, k')
    \<and> kok k' A' \<and> xTickCount k' = xTickCount k + 1 \<and> released (wakes (xTickCount k + 1) k A) k A A' \<and> wake_time k' = wake_time k \<and> tcbs k' = tcbs k \<and> pxCurrentTCB k' = pxCurrentTCB k"
  using tick_ok[OF assms] by blast

theorem tick_wakes_witness: "\<exists>A s k' A'. xTaskIncrementTick demo = Some (s, k') \<and> kok k' A' \<and> released (wakes 1 demo A) demo A A' \<and> xTickCount k' = 1"
proof -
  obtain A where A: "kok demo A" "uxSchedulerSuspended demo = 0" using demo_ready by blast
  have "current_priority demo = Some 4" by (simp add: current_priority_def demo_current)
  from tick_wakes[OF A this] show ?thesis unfolding demo_current(4) by auto
qed

text \<open>C4: A task that delays itself by d ticks is blocked during the next d - 1 tick interrupts and ready at the d-th, whatever the tick count was: also across its wrap.\<close>

theorem delay_exact:
  assumes "kok k A" and "uxSchedulerSuspended k = 0" and "A xPendingReadyList = []" and "uxPendedTicks k = 0" and "pxCurrentTCB k = Some t" and "priority_of t k = Some p" and "d \<noteq> 0"
  shows "\<exists>k'. vTaskDelay d k = Some k' \<and> (\<forall>n < unat d. \<exists>kn An. tick_interrupts n k' = Some kn \<and> kok kn An \<and> asleep t kn An)
    \<and> (\<exists>kd Ad. tick_interrupts (unat d) k' = Some kd \<and> kok kd Ad \<and> xTickCount kd = xTickCount k + d \<and> xGenericListItem t \<in> set (Ad (pxReadyTasksLists p)))"
  by (rule delay_then_ticks[OF assms])

theorem delay_exact_witness: "\<exists>k'. vTaskDelay 5 demo = Some k' \<and> (\<forall>n < 5. \<exists>kn An. tick_interrupts n k' = Some kn \<and> kok kn An \<and> asleep 3 kn An)
    \<and> (\<exists>kd Ad. tick_interrupts 5 k' = Some kd \<and> kok kd Ad \<and> xTickCount kd = 5 \<and> xGenericListItem 3 \<in> set (Ad (pxReadyTasksLists 4)))"
proof -
  obtain A where A: "kok demo A" "uxSchedulerSuspended demo = 0" "A xPendingReadyList = []" "uxPendedTicks demo = 0" using demo_ready by blast
  from delay_exact[OF A demo_current(1,2), of 5] show ?thesis unfolding demo_current(4) by simp
qed

section \<open>Time-outs\<close>

definition clock :: "kernel \<Rightarrow> int" where
  "clock k = xNumOfOverflows k * 2 ^ 32 + int (unat (xTickCount k))"

lemma clock_cases:
  assumes "clock k' = clock k + int e" and "e < 2 ^ 32"
  shows "xNumOfOverflows k' = xNumOfOverflows k \<and> unat (xTickCount k') = unat (xTickCount k) + e
    \<or> xNumOfOverflows k' = xNumOfOverflows k + 1 \<and> unat (xTickCount k') + 2 ^ 32 = unat (xTickCount k) + e"
proof -
  define d where "d = xNumOfOverflows k' - xNumOfOverflows k"
  have "unat (xTickCount k) < 4294967296" "unat (xTickCount k') < 4294967296" "e < 4294967296" using unsigned_less[of "xTickCount k"] unsigned_less[of "xTickCount k'"] assms(2) by simp_all
  moreover have e: "d * 4294967296 + int (unat (xTickCount k')) = int (unat (xTickCount k)) + int e" using assms(1) by (simp add: clock_def d_def algebra_simps)
  ultimately have "d < 2" "d > - 1" by linarith+
  then have "d = 0 \<or> d = 1" by linarith
  then show ?thesis
  proof
    assume "d = 0"
    then have "int (unat (xTickCount k')) = int (unat (xTickCount k)) + int e" using e by simp
    then have "unat (xTickCount k') = unat (xTickCount k) + e" by linarith
    then show ?thesis using \<open>d = 0\<close> by (simp add: d_def)
  next
    assume "d = 1"
    then have "4294967296 + int (unat (xTickCount k')) = int (unat (xTickCount k) + e)" using e by simp
    then have "unat (xTickCount k') + 4294967296 = unat (xTickCount k) + e" by linarith
    then show ?thesis using \<open>d = 1\<close> by (simp add: d_def)
  qed
qed

lemma elapsed_ticks: "unat y = unat x + e \<or> unat y + 2 ^ 32 = unat x + e \<Longrightarrow> y - x = of_nat e" for x y :: "32 word"
proof -
  assume "unat y = unat x + e \<or> unat y + 2 ^ 32 = unat x + e"
  then have "of_nat (unat y) = (of_nat (unat x + e) :: 32 word) \<or> of_nat (unat y + 2 ^ 32) = (of_nat (unat x + e) :: 32 word)" by metis
  moreover have "(4294967296 :: 32 word) = 0" by simp
  ultimately have "y = x + of_nat e" by auto
  then show ?thesis by simp
qed

text \<open>C40: A wait of n ticks that began at one clock reading, with no more than a full turn of the tick count gone by since: the check says it is over exactly if at least n ticks have
  passed, and otherwise restarts the measurement with exactly the ticks that are left. The clock is the tick count together with the number of its overflows.\<close>

theorem timeout_exact:
  assumes "clock k' = clock k + int e" and "e < 2 ^ 32" and "n \<noteq> portMAX_DELAY"
  shows "xTaskCheckForTimeOut (vTaskSetTimeOutState k) n k' = (if e < unat n then (False, vTaskSetTimeOutState k', n - of_nat e) else (True, vTaskSetTimeOutState k, n))"
proof -
  note c = clock_cases[OF assms(1,2)]
  have d: "xTickCount k' - xTickCount k = of_nat e" using c by (intro elapsed_ticks) blast
  have u: "of_nat e < n \<longleftrightarrow> e < unat n" using assms(2) by (simp add: word_less_nat_alt unat_of_nat)
  have "xNumOfOverflows k' \<noteq> xNumOfOverflows k \<Longrightarrow> \<not> xTickCount k' \<ge> xTickCount k" using c assms(2) by (auto simp: word_le_nat_alt)
  then show ?thesis using assms(3) d u by (auto simp: xTaskCheckForTimeOut_def vTaskSetTimeOutState_def)
qed

theorem timeout_exact_witness:
  "xTaskCheckForTimeOut (vTaskSetTimeOutState demo) 10 (demo\<lparr>xTickCount := 7\<rparr>) = (False, vTaskSetTimeOutState (demo\<lparr>xTickCount := 7\<rparr>), 3)"
  using timeout_exact[of "demo\<lparr>xTickCount := 7\<rparr>" demo 7 10] by (simp add: clock_def demo_current portMAX_DELAY_def)

section \<open>What moving a task keeps\<close>

lemma remove_fields: "remove_item i k = Some k' \<Longrightarrow> tcbs k' = tcbs k \<and> pxCurrentTCB k' = pxCurrentTCB k"
  by (auto simp: remove_item_def)

lemma add_fields: "prvAddTaskToReadyList t k = Some k' \<Longrightarrow> tcbs k' = tcbs k \<and> pxCurrentTCB k' = pxCurrentTCB k \<and> (\<exists>p. pvContainer (heap k') (xGenericListItem t) = Some (pxReadyTasksLists p))"
  by (auto simp: prvAddTaskToReadyList_def append_item_def vListInsertEnd_def Let_def split: Option.bind_splits if_splits)

end
