(* ===== verification/KQueue.thy ===== *)
theory KQueue
  imports KSystem
begin

text \<open>
  Queues, semaphores and mutexes, \<^verbatim>\<open>src/FreeRTOS/Source/queue.c\<close>, on top of the scheduler. A queue is its address, the structure and the kernel; its two lists of
  waiting tasks are lists of events of the scheduler. The storage is a list of bytes, the pointers into it are offsets from its beginning, and an access behind it
  is \<open>None\<close>. One turn of the endless loop of a send or a receive is a function of its own, in three parts between which interrupts may use the queue: trying, blocking
  with the scheduler suspended and the queue locked, and leaving. Queue sets, recursive mutexes, counting semaphores and the registry are not part of this configuration.
\<close>

record xQUEUE =
  is_mutex :: bool
  pxMutexHolder :: "nat option"
  storage :: "byte list"
  pcWriteTo :: nat
  pcReadFrom :: nat
  uxMessagesWaiting :: nat
  uxLength :: nat
  uxItemSize :: nat
  xRxLock :: int
  xTxLock :: int

datatype position = queueSEND_TO_BACK | queueSEND_TO_FRONT | queueOVERWRITE

definition queueUNLOCKED :: int where "queueUNLOCKED = - 1"
definition queueLOCKED_UNMODIFIED :: int where "queueLOCKED_UNMODIFIED = 0"

definition xTasksWaitingToSend :: "nat \<Rightarrow> klist" where "xTasksWaitingToSend q = xEventList (2 * q)"
definition xTasksWaitingToReceive :: "nat \<Rightarrow> klist" where "xTasksWaitingToReceive q = xEventList (2 * q + 1)"

definition pcTail :: "xQUEUE \<Rightarrow> nat" where
  "pcTail qs = u32 (uxLength qs * uxItemSize qs)"

section \<open>Copying\<close>

definition copy_in :: "nat \<Rightarrow> byte list \<Rightarrow> xQUEUE \<Rightarrow> xQUEUE option" where
  "copy_in off item qs =
     (if off + uxItemSize qs \<le> length (storage qs) \<and> uxItemSize qs \<le> length item
      then Some (qs\<lparr>storage := take off (storage qs) @ take (uxItemSize qs) item @ drop (off + uxItemSize qs) (storage qs)\<rparr>) else None)"

definition copy_out :: "nat \<Rightarrow> xQUEUE \<Rightarrow> byte list option" where
  "copy_out off qs = (if off + uxItemSize qs \<le> length (storage qs) then Some (take (uxItemSize qs) (drop off (storage qs))) else None)"

definition prvCopyDataToQueue :: "byte list \<Rightarrow> position \<Rightarrow> xQUEUE \<Rightarrow> kernel \<Rightarrow> (xQUEUE \<times> kernel) option" where
  "prvCopyDataToQueue item xPosition qs k =
     do {
       (qs1, k1) \<leftarrow>
         (if uxItemSize qs = 0 then
            if is_mutex qs then do { k' \<leftarrow> vTaskPriorityDisinherit (pxMutexHolder qs) k; Some (qs\<lparr>pxMutexHolder := None\<rparr>, k') } else Some (qs, k)
          else if xPosition = queueSEND_TO_BACK then
            do {
              q1 \<leftarrow> copy_in (pcWriteTo qs) item qs;
              let w = pcWriteTo q1 + uxItemSize q1;
              Some (q1\<lparr>pcWriteTo := if w \<ge> pcTail q1 then 0 else w\<rparr>, k)
            }
          else
            do {
              q1 \<leftarrow> copy_in (pcReadFrom qs) item qs;
              let q2 = q1\<lparr>pcReadFrom := if pcReadFrom q1 < uxItemSize q1 then pcTail q1 - uxItemSize q1 else pcReadFrom q1 - uxItemSize q1\<rparr>;
              Some (if xPosition = queueOVERWRITE \<and> uxMessagesWaiting q2 > 0 then q2\<lparr>uxMessagesWaiting := uxMessagesWaiting q2 - 1\<rparr> else q2, k)
            });
       Some (qs1\<lparr>uxMessagesWaiting := uxMessagesWaiting qs1 + 1\<rparr>, k1)
     }"

definition prvCopyDataFromQueue :: "xQUEUE \<Rightarrow> (byte list \<times> xQUEUE) option" where
  "prvCopyDataFromQueue qs =
     (if is_mutex qs then Some ([], qs)
      else do {
        let r = pcReadFrom qs + uxItemSize qs;
        let r' = (if r \<ge> pcTail qs then 0 else r);
        bs \<leftarrow> copy_out r' qs;
        Some (bs, qs\<lparr>pcReadFrom := r'\<rparr>)
      })"

definition prvIsQueueEmpty :: "xQUEUE \<Rightarrow> bool" where "prvIsQueueEmpty qs \<longleftrightarrow> uxMessagesWaiting qs = 0"
definition prvIsQueueFull :: "xQUEUE \<Rightarrow> bool" where "prvIsQueueFull qs \<longleftrightarrow> uxMessagesWaiting qs = uxLength qs"
definition uxQueueMessagesWaiting :: "xQUEUE \<Rightarrow> nat" where "uxQueueMessagesWaiting qs = uxMessagesWaiting qs"

section \<open>Waking and locking\<close>

text \<open>If a task waits, one is unblocked; the result says whether it has at least the priority of the current one.\<close>

definition wake_one :: "klist \<Rightarrow> kernel \<Rightarrow> (bool \<times> kernel) option" where
  "wake_one l k = (if listLIST_IS_EMPTY l (heap k) then Some (False, k) else xTaskRemoveFromEventList l k)"

definition wake_and_yield :: "klist \<Rightarrow> kernel \<Rightarrow> kernel option" where
  "wake_and_yield l k = do { (y, k1) \<leftarrow> wake_one l k; Some (yield_if y k1) }"

definition prvLockQueue :: "xQUEUE \<Rightarrow> xQUEUE" where
  "prvLockQueue qs =
     qs\<lparr>xRxLock := if xRxLock qs = queueUNLOCKED then queueLOCKED_UNMODIFIED else xRxLock qs,
        xTxLock := if xTxLock qs = queueUNLOCKED then queueLOCKED_UNMODIFIED else xTxLock qs\<rparr>"

fun unlock_loop :: "nat \<Rightarrow> klist \<Rightarrow> kernel \<Rightarrow> kernel option" where
  "unlock_loop 0 l k = Some k"
| "unlock_loop (Suc n) l k =
     (if listLIST_IS_EMPTY l (heap k) then Some k
      else do { (y, k1) \<leftarrow> xTaskRemoveFromEventList l k; unlock_loop n l (if y then vTaskMissedYield k1 else k1) })"

definition prvUnlockQueue :: "nat \<Rightarrow> xQUEUE \<Rightarrow> kernel \<Rightarrow> (xQUEUE \<times> kernel) option" where
  "prvUnlockQueue q qs k =
     do {
       k1 \<leftarrow> unlock_loop (nat (xTxLock qs)) (xTasksWaitingToReceive q) k;
       k2 \<leftarrow> unlock_loop (nat (xRxLock qs)) (xTasksWaitingToSend q) k1;
       Some (qs\<lparr>xTxLock := queueUNLOCKED, xRxLock := queueUNLOCKED\<rparr>, k2)
     }"

section \<open>Sending\<close>

datatype attempt = Finished bool | Wait
datatype stage = Blocked | Retry | Expired
datatype 'a turn = Returns 'a | Again xTimeOutType "32 word"

definition entry_time :: "xTimeOutType option \<Rightarrow> kernel \<Rightarrow> xTimeOutType" where
  "entry_time entry k = (case entry of None \<Rightarrow> vTaskSetTimeOutState k | Some to \<Rightarrow> to)"

definition send_try :: "nat \<Rightarrow> byte list \<Rightarrow> position \<Rightarrow> 32 word \<Rightarrow> xQUEUE \<Rightarrow> kernel \<Rightarrow> (attempt \<times> xQUEUE \<times> kernel) option" where
  "send_try q item xCopyPosition xTicksToWait qs k =
     (if uxMessagesWaiting qs < uxLength qs \<or> xCopyPosition = queueOVERWRITE then
        do {
          (qs1, k1) \<leftarrow> prvCopyDataToQueue item xCopyPosition qs k;
          k2 \<leftarrow> wake_and_yield (xTasksWaitingToReceive q) k1;
          Some (Finished True, qs1, k2)
        }
      else if xTicksToWait = 0 then Some (Finished False, qs, k)
      else Some (Wait, qs, k))"

definition send_block :: "nat \<Rightarrow> xTimeOutType \<Rightarrow> 32 word \<Rightarrow> xQUEUE \<Rightarrow> kernel \<Rightarrow> (stage \<times> xTimeOutType \<times> 32 word \<times> xQUEUE \<times> kernel) option" where
  "send_block q xTimeOut xTicksToWait qs k =
     (let k1 = vTaskSuspendAll k; qs1 = prvLockQueue qs; (expired, to, n) = xTaskCheckForTimeOut xTimeOut xTicksToWait k1 in
      if expired then Some (Expired, to, n, qs1, k1)
      else if prvIsQueueFull qs1 then do { k2 \<leftarrow> vTaskPlaceOnEventList (xTasksWaitingToSend q) n k1; Some (Blocked, to, n, qs1, k2) }
      else Some (Retry, to, n, qs1, k1))"

definition leave :: "nat \<Rightarrow> stage \<Rightarrow> xQUEUE \<Rightarrow> kernel \<Rightarrow> (xQUEUE \<times> kernel) option" where
  "leave q stg qs k =
     do {
       (qs1, k1) \<leftarrow> prvUnlockQueue q qs k;
       (yielded, k2) \<leftarrow> xTaskResumeAll k1;
       Some (qs1, yield_if (stg = Blocked \<and> \<not> yielded) k2)
     }"

definition xQueueGenericSend :: "nat \<Rightarrow> byte list \<Rightarrow> position \<Rightarrow> xTimeOutType option \<Rightarrow> 32 word \<Rightarrow> xQUEUE \<Rightarrow> kernel \<Rightarrow> (bool turn \<times> xQUEUE \<times> kernel) option" where
  "xQueueGenericSend q item xCopyPosition entry xTicksToWait qs k =
     do {
       (t, qs1, k1) \<leftarrow> send_try q item xCopyPosition xTicksToWait qs k;
       case t of
         Finished b \<Rightarrow> Some (Returns b, qs1, k1)
       | Wait \<Rightarrow>
           do {
             (stg, to, n, qs2, k2) \<leftarrow> send_block q (entry_time entry k1) xTicksToWait qs1 k1;
             (qs3, k3) \<leftarrow> leave q stg qs2 k2;
             Some (if stg = Expired then Returns False else Again to n, qs3, k3)
           }
     }"

text \<open>From an interrupt: the results are whether there was room, and whether a context switch is due.\<close>

definition xQueueGenericSendFromISR :: "nat \<Rightarrow> byte list \<Rightarrow> position \<Rightarrow> xQUEUE \<Rightarrow> kernel \<Rightarrow> (bool \<times> bool \<times> xQUEUE \<times> kernel) option" where
  "xQueueGenericSendFromISR q item xCopyPosition qs k =
     (if uxMessagesWaiting qs < uxLength qs \<or> xCopyPosition = queueOVERWRITE then
        do {
          (qs1, k1) \<leftarrow> prvCopyDataToQueue item xCopyPosition qs k;
          if xTxLock qs1 = queueUNLOCKED then do { (woken, k2) \<leftarrow> wake_one (xTasksWaitingToReceive q) k1; Some (True, woken, qs1, k2) }
          else Some (True, False, qs1\<lparr>xTxLock := xTxLock qs1 + 1\<rparr>, k1)
        }
      else Some (False, False, qs, k))"

section \<open>Receiving\<close>

text \<open>The item received, if there was one.\<close>

datatype rtry = Received "byte list option" | RWait

definition receive_try :: "nat \<Rightarrow> 32 word \<Rightarrow> bool \<Rightarrow> xQUEUE \<Rightarrow> kernel \<Rightarrow> (rtry \<times> xQUEUE \<times> kernel) option" where
  "receive_try q xTicksToWait xJustPeeking qs k =
     (if uxMessagesWaiting qs > 0 then
        do {
          (bs, qs1) \<leftarrow> prvCopyDataFromQueue qs;
          if \<not> xJustPeeking then
            do {
              let qs2 = qs1\<lparr>uxMessagesWaiting := uxMessagesWaiting qs1 - 1\<rparr>;
              let qs3 = (if is_mutex qs2 then qs2\<lparr>pxMutexHolder := xTaskGetCurrentTaskHandle k\<rparr> else qs2);
              k1 \<leftarrow> wake_and_yield (xTasksWaitingToSend q) k;
              Some (Received (Some bs), qs3, k1)
            }
          else
            do {
              k1 \<leftarrow> wake_and_yield (xTasksWaitingToReceive q) k;
              Some (Received (Some bs), qs1\<lparr>pcReadFrom := pcReadFrom qs\<rparr>, k1)
            }
        }
      else if xTicksToWait = 0 then Some (Received None, qs, k)
      else Some (RWait, qs, k))"

definition receive_block :: "nat \<Rightarrow> xTimeOutType \<Rightarrow> 32 word \<Rightarrow> xQUEUE \<Rightarrow> kernel \<Rightarrow> (stage \<times> xTimeOutType \<times> 32 word \<times> xQUEUE \<times> kernel) option" where
  "receive_block q xTimeOut xTicksToWait qs k =
     (let k1 = vTaskSuspendAll k; qs1 = prvLockQueue qs; (expired, to, n) = xTaskCheckForTimeOut xTimeOut xTicksToWait k1 in
      if expired then Some (Expired, to, n, qs1, k1)
      else if prvIsQueueEmpty qs1 then
        do {
          k2 \<leftarrow> (if is_mutex qs1 then vTaskPriorityInherit (pxMutexHolder qs1) k1 else Some k1);
          k3 \<leftarrow> vTaskPlaceOnEventList (xTasksWaitingToReceive q) n k2;
          Some (Blocked, to, n, qs1, k3)
        }
      else Some (Retry, to, n, qs1, k1))"

definition xQueueGenericReceive :: "nat \<Rightarrow> xTimeOutType option \<Rightarrow> 32 word \<Rightarrow> bool \<Rightarrow> xQUEUE \<Rightarrow> kernel \<Rightarrow> (byte list option turn \<times> xQUEUE \<times> kernel) option" where
  "xQueueGenericReceive q entry xTicksToWait xJustPeeking qs k =
     do {
       (t, qs1, k1) \<leftarrow> receive_try q xTicksToWait xJustPeeking qs k;
       case t of
         Received r \<Rightarrow> Some (Returns r, qs1, k1)
       | RWait \<Rightarrow>
           do {
             (stg, to, n, qs2, k2) \<leftarrow> receive_block q (entry_time entry k1) xTicksToWait qs1 k1;
             (qs3, k3) \<leftarrow> leave q stg qs2 k2;
             Some (if stg = Expired then Returns None else Again to n, qs3, k3)
           }
     }"

definition xQueueReceiveFromISR :: "nat \<Rightarrow> xQUEUE \<Rightarrow> kernel \<Rightarrow> (byte list option \<times> bool \<times> xQUEUE \<times> kernel) option" where
  "xQueueReceiveFromISR q qs k =
     (if uxMessagesWaiting qs > 0 then
        do {
          (bs, qs1) \<leftarrow> prvCopyDataFromQueue qs;
          let qs2 = qs1\<lparr>uxMessagesWaiting := uxMessagesWaiting qs1 - 1\<rparr>;
          if xRxLock qs2 = queueUNLOCKED then do { (woken, k1) \<leftarrow> wake_one (xTasksWaitingToSend q) k; Some (Some bs, woken, qs2, k1) }
          else Some (Some bs, False, qs2\<lparr>xRxLock := xRxLock qs2 + 1\<rparr>, k)
        }
      else Some (None, False, qs, k))"

definition xQueuePeekFromISR :: "xQUEUE \<Rightarrow> (byte list option \<times> xQUEUE) option" where
  "xQueuePeekFromISR qs =
     (if uxMessagesWaiting qs > 0 then do { (bs, qs1) \<leftarrow> prvCopyDataFromQueue qs; Some (Some bs, qs1\<lparr>pcReadFrom := pcReadFrom qs\<rparr>) } else Some (None, qs))"

definition vQueueWaitForMessageRestricted :: "nat \<Rightarrow> 32 word \<Rightarrow> xQUEUE \<Rightarrow> kernel \<Rightarrow> (xQUEUE \<times> kernel) option" where
  "vQueueWaitForMessageRestricted q xTicksToWait qs k =
     do {
       let qs1 = prvLockQueue qs;
       k1 \<leftarrow> (if uxMessagesWaiting qs1 = 0 then vTaskPlaceOnEventListRestricted (xTasksWaitingToReceive q) xTicksToWait k else Some k);
       prvUnlockQueue q qs1 k1
     }"

section \<open>Creating\<close>

definition xQueueGenericReset :: "nat \<Rightarrow> bool \<Rightarrow> xQUEUE \<Rightarrow> kernel \<Rightarrow> (xQUEUE \<times> kernel) option" where
  "xQueueGenericReset q xNewQueue qs k =
     do {
       let qs1 = qs\<lparr>pxMutexHolder := None, uxMessagesWaiting := 0, pcWriteTo := 0, pcReadFrom := u32 ((uxLength qs - 1) * uxItemSize qs), xRxLock := queueUNLOCKED, xTxLock := queueUNLOCKED\<rparr>;
       k1 \<leftarrow> (if xNewQueue then Some (k\<lparr>heap := vListInitialise (xTasksWaitingToReceive q) (vListInitialise (xTasksWaitingToSend q) (heap k))\<rparr>)
             else wake_and_yield (xTasksWaitingToSend q) k);
       Some (qs1, k1)
     }"

text \<open>The arguments behind the size are what the allocator answers: whether there is room for the structure, and the bytes found in the storage, if there is room for it.\<close>

definition xQueueGenericCreate :: "nat \<Rightarrow> nat \<Rightarrow> nat \<Rightarrow> bool \<Rightarrow> (nat \<Rightarrow> byte list option) \<Rightarrow> kernel \<Rightarrow> (xQUEUE option \<times> kernel) option" where
  "xQueueGenericCreate q uxQueueLength uxItemSize_arg room pvPortMalloc k =
     (if uxQueueLength > 0 \<and> room then
        case pvPortMalloc (u32 (u32 (uxQueueLength * uxItemSize_arg) + 1)) of
          None \<Rightarrow> Some (None, k)
        | Some bs \<Rightarrow>
            do {
              (qs, k1) \<leftarrow> xQueueGenericReset q True
                \<lparr>is_mutex = False, pxMutexHolder = None, storage = bs, pcWriteTo = 0, pcReadFrom = 0, uxMessagesWaiting = 0, uxLength = uxQueueLength,
                 uxItemSize = uxItemSize_arg, xRxLock = 0, xTxLock = 0\<rparr> k;
              Some (Some qs, k1)
            }
      else Some (None, k))"

definition xQueueCreateMutex :: "nat \<Rightarrow> bool \<Rightarrow> kernel \<Rightarrow> (xQUEUE option \<times> kernel) option" where
  "xQueueCreateMutex q room k =
     (if room then
        do {
          let qs = \<lparr>is_mutex = True, pxMutexHolder = None, storage = [], pcWriteTo = 0, pcReadFrom = 0, uxMessagesWaiting = 0, uxLength = 1, uxItemSize = 0,
                    xRxLock = queueUNLOCKED, xTxLock = queueUNLOCKED\<rparr>;
          let k1 = k\<lparr>heap := vListInitialise (xTasksWaitingToReceive q) (vListInitialise (xTasksWaitingToSend q) (heap k))\<rparr>;
          (_, qs1, k2) \<leftarrow> xQueueGenericSend q [] queueSEND_TO_BACK None 0 qs k1;
          Some (Some qs1, k2)
        }
      else Some (None, k))"

section \<open>The storage as a ring\<close>

definition slot :: "xQUEUE \<Rightarrow> nat \<Rightarrow> byte list" where
  "slot qs j = take (uxItemSize qs) (drop (j * uxItemSize qs) (storage qs))"

definition sized :: "xQUEUE \<Rightarrow> bool" where
  "sized qs \<longleftrightarrow> \<not> is_mutex qs \<and> 0 < uxLength qs \<and> length (storage qs) = uxLength qs * uxItemSize qs + 1 \<and> uxLength qs * uxItemSize qs + 1 < 2 ^ 32"

text \<open>The slot last read is \<open>r\<close>; the items \<open>xs\<close> follow it, and after them the next one is written.\<close>

definition ring :: "xQUEUE \<Rightarrow> nat \<Rightarrow> byte list list \<Rightarrow> bool" where
  "ring qs r xs \<longleftrightarrow> sized qs \<and> r < uxLength qs \<and> length xs \<le> uxLength qs \<and> uxMessagesWaiting qs = length xs
     \<and> pcReadFrom qs = r * uxItemSize qs \<and> pcWriteTo qs = (Suc (r + length xs) mod uxLength qs) * uxItemSize qs
     \<and> (\<forall>i < length xs. slot qs (Suc (r + i) mod uxLength qs) = xs ! i)"

definition holds_items :: "xQUEUE \<Rightarrow> byte list list \<Rightarrow> bool" where
  "holds_items qs xs \<longleftrightarrow> (\<exists>r. ring qs r xs)"

lemma slot_room: "j < n \<Longrightarrow> j * s + s \<le> n * (s :: nat)"
  using mult_le_mono1[of "Suc j" n s] by simp

lemma sized_tail: "sized qs \<Longrightarrow> pcTail qs = uxLength qs * uxItemSize qs"
  by (simp add: sized_def pcTail_def u32_def)

lemma slot_length: "sized qs \<Longrightarrow> j < uxLength qs \<Longrightarrow> length (slot qs j) = uxItemSize qs"
  using slot_room[of j "uxLength qs" "uxItemSize qs"] by (simp add: sized_def slot_def)

lemma copy_out_slot: "sized qs \<Longrightarrow> j < uxLength qs \<Longrightarrow> copy_out (j * uxItemSize qs) qs = Some (slot qs j)"
  using slot_room[of j "uxLength qs" "uxItemSize qs"] by (simp add: sized_def slot_def copy_out_def)

lemma copy_in_slot:
  assumes "sized qs" and "j < uxLength qs" and "length item = uxItemSize qs"
  shows "\<exists>bs. copy_in (j * uxItemSize qs) item qs = Some (qs\<lparr>storage := bs\<rparr>) \<and> sized (qs\<lparr>storage := bs\<rparr>)
    \<and> (\<forall>i < uxLength qs. slot (qs\<lparr>storage := bs\<rparr>) i = (if i = j then item else slot qs i))"
proof -
  let ?s = "uxItemSize qs" and ?S = "storage qs"
  define bs where "bs = take (j * ?s) ?S @ item @ drop (j * ?s + ?s) ?S"
  have len: "j * ?s + ?s < length ?S" using assms(1) slot_room[OF assms(2), of ?s] by (simp add: sized_def)
  have "copy_in (j * ?s) item qs = Some (qs\<lparr>storage := bs\<rparr>)" using len assms(3) by (simp add: copy_in_def bs_def)
  moreover have "length bs = length ?S" using len assms(3) by (simp add: bs_def)
  moreover have "take ?s (drop (i * ?s) bs) = (if i = j then item else take ?s (drop (i * ?s) ?S))" if "i < uxLength qs" for i
  proof (cases i j rule: linorder_cases)
    case less
    then have "i * ?s + ?s \<le> j * ?s" by (rule slot_room)
    then show ?thesis using less len by (simp add: bs_def drop_take)
  next
    case equal
    then show ?thesis using len assms(3) by (simp add: bs_def)
  next
    case greater
    then have "j * ?s + ?s \<le> i * ?s" by (rule slot_room)
    then show ?thesis using greater len assms(3) by (simp add: bs_def)
  qed
  ultimately show ?thesis using assms(1) by (intro exI[of _ bs]) (simp add: sized_def slot_def)
qed

lemma next_slot: "0 < n \<Longrightarrow> j < n \<Longrightarrow> 0 < s \<Longrightarrow> (if n * s \<le> j * s + s then 0 else j * s + s) = (Suc j mod n) * (s :: nat)"
proof -
  assume n: "0 < n" "j < n" "0 < s"
  have "n * s \<le> j * s + s \<longleftrightarrow> n * s \<le> Suc j * s" by (simp add: add.commute)
  also have "\<dots> \<longleftrightarrow> n \<le> Suc j" using n(3) by (simp only: mult_le_cancel2) simp
  finally show ?thesis using n(2) by (auto simp: mod_Suc)
qed

lemma later_slot: "r < n \<Longrightarrow> i < j \<Longrightarrow> j < n \<Longrightarrow> Suc (r + i) mod n \<noteq> Suc (r + j) mod (n :: nat)"
proof
  assume a: "r < n" "i < j" "j < n" and "Suc (r + i) mod n = Suc (r + j) mod n"
  then have "n dvd Suc (r + j) - Suc (r + i)" by (metis mod_eq_dvd_iff_nat add_le_cancel_left less_imp_le Suc_le_mono)
  then have "n dvd j - i" by simp
  then show False using a by (auto dest: dvd_imp_le)
qed

lemma ring_back:
  assumes "ring qs r xs" and "length xs < uxLength qs" and "length item = uxItemSize qs" and "0 < uxItemSize qs"
  shows "\<exists>qs'. prvCopyDataToQueue item queueSEND_TO_BACK qs k = Some (qs', k) \<and> ring qs' r (xs @ [item]) \<and> uxLength qs' = uxLength qs \<and> uxItemSize qs' = uxItemSize qs
    \<and> xRxLock qs' = xRxLock qs \<and> xTxLock qs' = xTxLock qs"
proof -
  let ?n = "uxLength qs" and ?w = "Suc (r + length xs) mod uxLength qs"
  have R: "sized qs" "r < ?n" "uxMessagesWaiting qs = length xs" "pcReadFrom qs = r * uxItemSize qs" "pcWriteTo qs = ?w * uxItemSize qs"
      "\<forall>i < length xs. slot qs (Suc (r + i) mod ?n) = xs ! i" using assms(1) by (simp_all add: ring_def)
  have w: "?w < ?n" using R(2) by simp
  obtain bs where bs: "copy_in (?w * uxItemSize qs) item qs = Some (qs\<lparr>storage := bs\<rparr>)" "sized (qs\<lparr>storage := bs\<rparr>)"
      "\<forall>i < ?n. slot (qs\<lparr>storage := bs\<rparr>) i = (if i = ?w then item else slot qs i)" using copy_in_slot[OF R(1) w assms(3)] by blast
  define qs' where "qs' = qs\<lparr>storage := bs, pcWriteTo := (Suc ?w mod ?n) * uxItemSize qs, uxMessagesWaiting := Suc (length xs)\<rparr>"
  have "prvCopyDataToQueue item queueSEND_TO_BACK qs k = Some (qs', k)"
    using bs(1) R(1,3,5) next_slot[OF _ w assms(4)] assms(4) sized_tail[OF bs(2)] by (auto simp: prvCopyDataToQueue_def Let_def qs'_def sized_def)
  moreover have s: "slot qs' i = slot (qs\<lparr>storage := bs\<rparr>) i" for i by (simp add: slot_def qs'_def)
  have "slot qs' (Suc (r + i) mod ?n) = (xs @ [item]) ! i" if "i < Suc (length xs)" for i
    using that bs(3) R(2,6) assms(2) later_slot[OF R(2), of i "length xs"] by (cases "i = length xs") (auto simp: s nth_append)
  then have "ring qs' r (xs @ [item])" using bs(2) R assms(2) by (simp add: ring_def qs'_def sized_def mod_Suc_eq)
  ultimately show ?thesis by (simp add: qs'_def)
qed

lemma suc_mod: "Suc (a mod n + b) mod n = Suc (a + b) mod (n :: nat)"
  using mod_add_left_eq[of a n "Suc b"] by simp

lemma previous_slot: "r < n \<Longrightarrow> 0 < s \<Longrightarrow> (if r * s < s then n * s - s else r * s - s) = ((r + n - 1) mod n) * (s :: nat)"
  by (cases r) (auto simp: diff_mult_distrib)

lemma before_next: "r < n \<Longrightarrow> Suc ((r + n - 1) mod n) mod n = r" and before_later: "0 < n \<Longrightarrow> Suc ((r + n - 1) mod n + Suc i) mod n = Suc (r + i) mod n" for n :: nat
proof -
  show "r < n \<Longrightarrow> Suc ((r + n - 1) mod n) mod n = r" by (simp add: mod_Suc_eq)
  assume n: "0 < n"
  have "Suc ((r + n - 1) mod n + Suc i) mod n = (r + n - 1 + (i + 2)) mod n" using suc_mod[of "r + n - 1" n "Suc i"] by simp
  also have "r + n - 1 + (i + 2) = Suc (r + i) + n" using n by simp
  also have "(Suc (r + i) + n) mod n = Suc (r + i) mod n" by (rule mod_add_self2)
  finally show "Suc ((r + n - 1) mod n + Suc i) mod n = Suc (r + i) mod n" .
qed

lemma ring_front:
  assumes "ring qs r xs" and "length xs < uxLength qs" and "length item = uxItemSize qs" and "0 < uxItemSize qs"
  shows "\<exists>qs' r'. prvCopyDataToQueue item queueSEND_TO_FRONT qs k = Some (qs', k) \<and> ring qs' r' (item # xs) \<and> uxLength qs' = uxLength qs \<and> uxItemSize qs' = uxItemSize qs
    \<and> xRxLock qs' = xRxLock qs \<and> xTxLock qs' = xTxLock qs"
proof -
  let ?n = "uxLength qs"
  define r' where "r' = (r + ?n - 1) mod ?n"
  have R: "sized qs" "r < ?n" "uxMessagesWaiting qs = length xs" "pcReadFrom qs = r * uxItemSize qs" "pcWriteTo qs = (Suc (r + length xs) mod ?n) * uxItemSize qs"
      "\<forall>i < length xs. slot qs (Suc (r + i) mod ?n) = xs ! i" using assms(1) by (simp_all add: ring_def)
  have n: "0 < ?n" using R(2) by simp
  obtain bs where bs: "copy_in (r * uxItemSize qs) item qs = Some (qs\<lparr>storage := bs\<rparr>)" "sized (qs\<lparr>storage := bs\<rparr>)"
      "\<forall>i < ?n. slot (qs\<lparr>storage := bs\<rparr>) i = (if i = r then item else slot qs i)" using copy_in_slot[OF R(1,2) assms(3)] by blast
  define qs' where "qs' = qs\<lparr>storage := bs, pcReadFrom := r' * uxItemSize qs, uxMessagesWaiting := Suc (length xs)\<rparr>"
  have "prvCopyDataToQueue item queueSEND_TO_FRONT qs k = Some (qs', k)"
    using bs(1) R(3,4) previous_slot[OF R(2) assms(4)] assms(4) sized_tail[OF bs(2)] by (auto simp: prvCopyDataToQueue_def Let_def qs'_def r'_def)
  moreover have s: "slot qs' i = slot (qs\<lparr>storage := bs\<rparr>) i" for i by (simp add: slot_def qs'_def)
  have "slot qs' (Suc (r' + i) mod ?n) = (item # xs) ! i" if "i < Suc (length xs)" for i
  proof (cases i)
    case 0
    then show ?thesis using before_next[OF R(2)] bs(3) R(2) by (simp add: s r'_def)
  next
    case (Suc j)
    have "Suc (r + j) mod ?n \<noteq> Suc (r + (?n - 1)) mod ?n" using Suc that assms(2) by (intro later_slot[OF R(2)]) simp_all
    moreover have "Suc (r + (?n - 1)) mod ?n = r" using R(2) n by simp
    ultimately show ?thesis using Suc that bs(3) R(6) before_later[OF n, of r j] n by (simp add: s r'_def)
  qed
  moreover have "Suc (r' + Suc (length xs)) mod ?n = Suc (r + length xs) mod ?n" unfolding r'_def by (rule before_later[OF n])
  ultimately have "ring qs' r' (item # xs)" using bs(2) R assms(2) n by (simp add: ring_def qs'_def sized_def r'_def)
  then show ?thesis using \<open>prvCopyDataToQueue item queueSEND_TO_FRONT qs k = Some (qs', k)\<close> by (auto simp: qs'_def)
qed

text \<open>A queue of one item is overwritten by sending to the front and not counting the item that was there.\<close>

lemma ring_overwrite:
  assumes "ring qs r xs" and "uxLength qs = 1" and "length item = uxItemSize qs" and "0 < uxItemSize qs"
  shows "\<exists>qs'. prvCopyDataToQueue item queueOVERWRITE qs k = Some (qs', k) \<and> ring qs' 0 [item] \<and> uxLength qs' = uxLength qs \<and> uxItemSize qs' = uxItemSize qs
    \<and> xRxLock qs' = xRxLock qs \<and> xTxLock qs' = xTxLock qs"
proof -
  have R: "sized qs" "r = 0" "uxMessagesWaiting qs \<le> 1" "pcReadFrom qs = 0" "pcWriteTo qs = 0" using assms(1,2) by (auto simp: ring_def)
  obtain bs where bs: "copy_in 0 item qs = Some (qs\<lparr>storage := bs\<rparr>)" "sized (qs\<lparr>storage := bs\<rparr>)" "slot (qs\<lparr>storage := bs\<rparr>) 0 = item"
    using copy_in_slot[OF R(1) _ assms(3), of 0] assms(2) by auto
  define qs' where "qs' = qs\<lparr>storage := bs, pcReadFrom := 0, uxMessagesWaiting := 1\<rparr>"
  have "prvCopyDataToQueue item queueOVERWRITE qs k = Some (qs', k)"
    using bs(1) R(3,4) assms(2,4) sized_tail[OF bs(2)] by (auto simp: prvCopyDataToQueue_def Let_def qs'_def)
  moreover have "ring qs' 0 [item]" using bs(2,3) R assms(2) by (simp add: ring_def qs'_def sized_def slot_def)
  ultimately show ?thesis by (auto simp: qs'_def)
qed

text \<open>Items of no size, as a semaphore has them, are only counted.\<close>

lemma ring_count:
  assumes "ring qs r xs" and "length xs < uxLength qs" and "uxItemSize qs = 0"
  shows "\<exists>qs'. prvCopyDataToQueue item pos qs k = Some (qs', k) \<and> ring qs' r (xs @ [[]]) \<and> uxLength qs' = uxLength qs \<and> uxItemSize qs' = uxItemSize qs
    \<and> xRxLock qs' = xRxLock qs \<and> xTxLock qs' = xTxLock qs"
proof -
  define qs' where "qs' = qs\<lparr>uxMessagesWaiting := Suc (length xs)\<rparr>"
  have "\<not> is_mutex qs" "uxMessagesWaiting qs = length xs" using assms(1) by (simp_all add: ring_def sized_def)
  then have "prvCopyDataToQueue item pos qs k = Some (qs', k)" using assms(3) by (simp add: prvCopyDataToQueue_def qs'_def)
  moreover have "ring qs' r (xs @ [[]])" using assms by (auto simp: ring_def sized_def qs'_def slot_def nth_append less_Suc_eq)
  ultimately show ?thesis by (auto simp: qs'_def)
qed

lemma ring_sizes: "ring qs r xs \<Longrightarrow> x \<in> set xs \<Longrightarrow> length x = uxItemSize qs"
proof -
  assume R: "ring qs r xs" and "x \<in> set xs"
  then obtain i where i: "i < length xs" "x = xs ! i" by (auto simp: in_set_conv_nth)
  then have "slot qs (Suc (r + i) mod uxLength qs) = x" "sized qs" "0 < uxLength qs" using R by (auto simp: ring_def)
  then show ?thesis using slot_length by force
qed

lemma ring_take:
  assumes "ring qs r (x # xs)"
  shows "\<exists>r'. prvCopyDataFromQueue qs = Some (x, qs\<lparr>pcReadFrom := r'\<rparr>) \<and> holds_items (qs\<lparr>pcReadFrom := r', uxMessagesWaiting := length xs\<rparr>) xs"
proof -
  let ?n = "uxLength qs" and ?r = "Suc r mod uxLength qs"
  have R: "sized qs" "r < ?n" "pcReadFrom qs = r * uxItemSize qs" "pcWriteTo qs = (Suc (r + Suc (length xs)) mod ?n) * uxItemSize qs" "Suc (length xs) \<le> ?n"
      "\<forall>i < Suc (length xs). slot qs (Suc (r + i) mod ?n) = (x # xs) ! i" using assms by (simp_all add: ring_def)
  have n: "0 < ?n" "?r < ?n" using R(2) by simp_all
  have a: "(if pcReadFrom qs + uxItemSize qs \<ge> pcTail qs then 0 else pcReadFrom qs + uxItemSize qs) = ?r * uxItemSize qs"
    using next_slot[OF n(1) R(2), of "uxItemSize qs"] R(3) sized_tail[OF R(1)] by (cases "uxItemSize qs = 0") auto
  have "slot qs ?r = x" using R(6)[rule_format, of 0] by simp
  then have "prvCopyDataFromQueue qs = Some (x, qs\<lparr>pcReadFrom := ?r * uxItemSize qs\<rparr>)"
    using copy_out_slot[OF R(1) n(2)] R(1) by (simp add: prvCopyDataFromQueue_def Let_def a sized_def)
  moreover have "slot qs (Suc (?r + i) mod ?n) = xs ! i" if "i < length xs" for i using R(6)[rule_format, of "Suc i"] that by (simp add: suc_mod)
  then have "ring (qs\<lparr>pcReadFrom := ?r * uxItemSize qs, uxMessagesWaiting := length xs\<rparr>) ?r xs"
    using R n by (simp add: ring_def sized_def slot_def suc_mod)
  ultimately show ?thesis unfolding holds_items_def by blast
qed

definition put_items :: "position \<Rightarrow> byte list \<Rightarrow> byte list list \<Rightarrow> byte list list" where
  "put_items pos item xs = (case pos of queueSEND_TO_BACK \<Rightarrow> xs @ [item] | queueSEND_TO_FRONT \<Rightarrow> item # xs | queueOVERWRITE \<Rightarrow> [item])"

definition same_shape :: "xQUEUE \<Rightarrow> xQUEUE \<Rightarrow> bool" where
  "same_shape qs' qs \<longleftrightarrow> is_mutex qs' = is_mutex qs \<and> uxLength qs' = uxLength qs \<and> uxItemSize qs' = uxItemSize qs"

lemma copy_to_ok:
  assumes "holds_items qs xs" and "length item = uxItemSize qs" and "pos \<noteq> queueOVERWRITE \<Longrightarrow> length xs < uxLength qs" and "pos = queueOVERWRITE \<Longrightarrow> uxLength qs = 1 \<and> 0 < uxItemSize qs"
  shows "\<exists>qs'. prvCopyDataToQueue item pos qs k = Some (qs', k) \<and> holds_items qs' (put_items pos item xs) \<and> same_shape qs' qs \<and> xRxLock qs' = xRxLock qs \<and> xTxLock qs' = xTxLock qs"
proof -
  obtain r where r: "ring qs r xs" using assms(1) by (auto simp: holds_items_def)
  have m: "\<not> is_mutex qs'" if "ring qs' r' ys" for qs' r' ys using that by (simp add: ring_def sized_def)
  have "\<exists>qs' r'. prvCopyDataToQueue item pos qs k = Some (qs', k) \<and> ring qs' r' (put_items pos item xs) \<and> uxLength qs' = uxLength qs \<and> uxItemSize qs' = uxItemSize qs
    \<and> xRxLock qs' = xRxLock qs \<and> xTxLock qs' = xTxLock qs"
  proof (cases "uxItemSize qs = 0")
    case True
    have "\<forall>x \<in> set xs. x = []" using ring_sizes[OF r] True by fastforce
    then have "replicate (length xs) [] = xs" by (rule replicate_length_same)
    then have "[] # xs = xs @ [[]]" by (metis replicate_append_same)
    then have "put_items pos item xs = xs @ [[]]" "pos \<noteq> queueOVERWRITE" using assms(2,4) True by (cases pos; simp add: put_items_def)+
    then show ?thesis using ring_count[OF r _ True, of item pos k] assms(3) by auto
  next
    case False
    then show ?thesis using ring_back[OF r _ assms(2), of k] ring_front[OF r _ assms(2), of k] ring_overwrite[OF r _ assms(2), of k] assms(3,4) by (cases pos) (auto simp: put_items_def)
  qed
  then show ?thesis using m r by (fastforce simp: holds_items_def same_shape_def)
qed

lemma holds_waiting: "holds_items qs xs \<Longrightarrow> uxMessagesWaiting qs = length xs \<and> length xs \<le> uxLength qs \<and> \<not> is_mutex qs"
  by (auto simp: holds_items_def ring_def sized_def)

lemma copy_from_ok:
  assumes "holds_items qs (x # xs)"
  shows "\<exists>r. prvCopyDataFromQueue qs = Some (x, qs\<lparr>pcReadFrom := r\<rparr>) \<and> holds_items (qs\<lparr>pcReadFrom := r, uxMessagesWaiting := length xs\<rparr>) xs"
  using assms ring_take by (auto simp: holds_items_def)

text \<open>The locks say nothing about the items.\<close>

lemma holds_locks: "holds_items (qs\<lparr>xTxLock := i\<rparr>) = holds_items qs" "holds_items (qs\<lparr>xRxLock := j\<rparr>) = holds_items qs"
  by (simp_all add: fun_eq_iff holds_items_def ring_def sized_def slot_def)

section \<open>Waking\<close>

lemma wake_one_ok: "kernel_ok k A \<Longrightarrow> \<exists>b k' A'. wake_one (xEventList e) k = Some (b, k') \<and> kernel_ok k' A'"
  using remove_event_ok[of k A e] by (auto simp: wake_one_def)

lemma wake_and_yield_ok: "kernel_ok k A \<Longrightarrow> \<exists>k' A'. wake_and_yield (xEventList e) k = Some k' \<and> kernel_ok k' A'"
proof -
  assume "kernel_ok k A"
  then obtain b k' A' where k': "wake_one (xEventList e) k = Some (b, k')" "kernel_ok k' A'" using wake_one_ok by blast
  then show ?thesis using yield_ok[OF k'(2), of b] by (auto simp: wake_and_yield_def)
qed

lemmas waiting_lists = xTasksWaitingToSend_def xTasksWaitingToReceive_def

lemma initialise_empty: "heap_ok h A \<Longrightarrow> A l = [] \<Longrightarrow> vListInitialise l h = h"
  using heap_cyc[of h A l] by (simp add: cyc_def vListInitialise_def fun_upd_idem)

lemma new_lists:
  assumes "kernel_ok k A" and "A (xTasksWaitingToSend q) = []" and "A (xTasksWaitingToReceive q) = []"
  shows "k\<lparr>heap := vListInitialise (xTasksWaitingToReceive q) (vListInitialise (xTasksWaitingToSend q) (heap k))\<rparr> = k"
  using initialise_empty[OF tasks_invD(1)[OF kinvD(1)[OF kernel_okD(1)[OF assms(1)]]]] assms(2,3) by simp

section \<open>A queue as a bounded list of items\<close>

record fifo =
  capacity :: nat
  item_size :: nat
  items :: "byte list list"

datatype queue_op = Send position "byte list" | Receive bool | SendFromISR position "byte list" | ReceiveFromISR | PeekFromISR

datatype reply = Sent bool | Got "byte list option"

definition fifo_send :: "position \<Rightarrow> byte list \<Rightarrow> fifo \<Rightarrow> reply \<times> fifo" where
  "fifo_send pos item f = (if length (items f) < capacity f \<or> pos = queueOVERWRITE then (Sent True, f\<lparr>items := put_items pos item (items f)\<rparr>) else (Sent False, f))"

definition fifo_receive :: "bool \<Rightarrow> fifo \<Rightarrow> reply \<times> fifo" where
  "fifo_receive peek f = (case items f of [] \<Rightarrow> (Got None, f) | x # xs \<Rightarrow> (Got (Some x), if peek then f else f\<lparr>items := xs\<rparr>))"

fun fifo_op :: "queue_op \<Rightarrow> fifo \<Rightarrow> reply \<times> fifo" where
  "fifo_op (Send pos item) f = fifo_send pos item f"
| "fifo_op (SendFromISR pos item) f = fifo_send pos item f"
| "fifo_op (Receive peek) f = fifo_receive peek f"
| "fifo_op ReceiveFromISR f = fifo_receive False f"
| "fifo_op PeekFromISR f = fifo_receive True f"

definition legal_send :: "position \<Rightarrow> byte list \<Rightarrow> fifo \<Rightarrow> bool" where
  "legal_send pos item f \<longleftrightarrow> length item = item_size f \<and> (pos = queueOVERWRITE \<longrightarrow> capacity f = 1 \<and> 0 < item_size f)"

fun legal_op :: "queue_op \<Rightarrow> fifo \<Rightarrow> bool" where
  "legal_op (Send pos item) f \<longleftrightarrow> legal_send pos item f"
| "legal_op (SendFromISR pos item) f \<longleftrightarrow> legal_send pos item f"
| "legal_op _ f \<longleftrightarrow> True"

text \<open>The calls of the code that do not wait.\<close>

fun queue_call :: "nat \<Rightarrow> queue_op \<Rightarrow> xQUEUE \<times> kernel \<Rightarrow> (reply \<times> xQUEUE \<times> kernel) option" where
  "queue_call q (Send pos item) (qs, k) =
     (case xQueueGenericSend q item pos None 0 qs k of Some (Returns b, qs', k') \<Rightarrow> Some (Sent b, qs', k') | _ \<Rightarrow> None)"
| "queue_call q (Receive peek) (qs, k) =
     (case xQueueGenericReceive q None 0 peek qs k of Some (Returns r, qs', k') \<Rightarrow> Some (Got r, qs', k') | _ \<Rightarrow> None)"
| "queue_call q (SendFromISR pos item) (qs, k) = map_option (\<lambda>(b, woken, qs', k'). (Sent b, qs', k')) (xQueueGenericSendFromISR q item pos qs k)"
| "queue_call q ReceiveFromISR (qs, k) = map_option (\<lambda>(r, woken, qs', k'). (Got r, qs', k')) (xQueueReceiveFromISR q qs k)"
| "queue_call q PeekFromISR (qs, k) = map_option (\<lambda>(r, qs'). (Got r, qs', k)) (xQueuePeekFromISR qs)"

definition implements :: "xQUEUE \<times> kernel \<Rightarrow> fifo \<Rightarrow> bool" where
  "implements s f \<longleftrightarrow> holds_items (fst s) (items f) \<and> uxLength (fst s) = capacity f \<and> uxItemSize (fst s) = item_size f \<and> (\<exists>A. kernel_ok (snd s) A)"

lemma send_sim:
  assumes "implements (qs, k) f" and "legal_send pos item f"
  shows "\<exists>qs' k'. send_try q item pos 0 qs k = Some (Finished (length (items f) < capacity f \<or> pos = queueOVERWRITE), qs', k') \<and> implements (qs', k') (snd (fifo_send pos item f))"
    "\<exists>w qs' k'. xQueueGenericSendFromISR q item pos qs k = Some (length (items f) < capacity f \<or> pos = queueOVERWRITE, w, qs', k') \<and> implements (qs', k') (snd (fifo_send pos item f))"
proof -
  have I: "holds_items qs (items f)" "uxLength qs = capacity f" "uxItemSize qs = item_size f" using assms(1) by (simp_all add: implements_def)
  obtain A where A: "kernel_ok k A" using assms(1) by (auto simp: implements_def)
  have w: "uxMessagesWaiting qs = length (items f)" using holds_waiting[OF I(1)] by simp
  let ?room = "length (items f) < capacity f \<or> pos = queueOVERWRITE"
  have room: "\<exists>qs1. prvCopyDataToQueue item pos qs k = Some (qs1, k) \<and> holds_items qs1 (put_items pos item (items f)) \<and> same_shape qs1 qs" if ?room
    using copy_to_ok[OF I(1), of item pos k] assms(2) I(2,3) that by (auto simp: legal_send_def)
  obtain k1 A1 where k1: "wake_and_yield (xTasksWaitingToReceive q) k = Some k1" "kernel_ok k1 A1" using wake_and_yield_ok[OF A] unfolding waiting_lists by blast
  obtain b k2 A2 where k2: "wake_one (xTasksWaitingToReceive q) k = Some (b, k2)" "kernel_ok k2 A2" using wake_one_ok[OF A] unfolding waiting_lists by blast
  show "\<exists>qs' k'. send_try q item pos 0 qs k = Some (Finished ?room, qs', k') \<and> implements (qs', k') (snd (fifo_send pos item f))"
  proof (cases ?room)
    case True
    then obtain qs1 where "prvCopyDataToQueue item pos qs k = Some (qs1, k)" "holds_items qs1 (put_items pos item (items f))" "same_shape qs1 qs" using room by blast
    then show ?thesis using True k1 I w by (auto simp: fifo_send_def send_try_def implements_def same_shape_def)
  qed (use w I assms(1) in \<open>simp add: fifo_send_def send_try_def\<close>)
  show "\<exists>w qs' k'. xQueueGenericSendFromISR q item pos qs k = Some (?room, w, qs', k') \<and> implements (qs', k') (snd (fifo_send pos item f))"
  proof (cases ?room)
    case True
    then obtain qs1 where "prvCopyDataToQueue item pos qs k = Some (qs1, k)" "holds_items qs1 (put_items pos item (items f))" "same_shape qs1 qs" using room by blast
    then show ?thesis using True k2 I w A by (auto simp: fifo_send_def xQueueGenericSendFromISR_def implements_def same_shape_def holds_locks)
  qed (use w I assms(1) in \<open>auto simp: fifo_send_def xQueueGenericSendFromISR_def\<close>)
qed

lemma receive_sim:
  assumes "implements (qs, k) f"
  shows "\<exists>qs' k'. receive_try q 0 peek qs k = Some (Received (case items f of [] \<Rightarrow> None | x # xs \<Rightarrow> Some x), qs', k') \<and> implements (qs', k') (snd (fifo_receive peek f))"
    "\<exists>w qs' k'. xQueueReceiveFromISR q qs k = Some (case items f of [] \<Rightarrow> None | x # xs \<Rightarrow> Some x, w, qs', k') \<and> implements (qs', k') (snd (fifo_receive False f))"
    "\<exists>qs'. xQueuePeekFromISR qs = Some (case items f of [] \<Rightarrow> None | x # xs \<Rightarrow> Some x, qs') \<and> implements (qs', k) f"
proof -
  have I: "holds_items qs (items f)" "uxLength qs = capacity f" "uxItemSize qs = item_size f" using assms(1) by (simp_all add: implements_def)
  obtain A where A: "kernel_ok k A" using assms(1) by (auto simp: implements_def)
  have w: "uxMessagesWaiting qs = length (items f)" "\<not> is_mutex qs" using holds_waiting[OF I(1)] by simp_all
  obtain k1 A1 where k1: "wake_and_yield (xTasksWaitingToSend q) k = Some k1" "kernel_ok k1 A1" using wake_and_yield_ok[OF A] unfolding waiting_lists by blast
  obtain k3 A3 where k3: "wake_and_yield (xTasksWaitingToReceive q) k = Some k3" "kernel_ok k3 A3" using wake_and_yield_ok[OF A] unfolding waiting_lists by blast
  obtain b k2 A2 where k2: "wake_one (xTasksWaitingToSend q) k = Some (b, k2)" "kernel_ok k2 A2" using wake_one_ok[OF A] unfolding waiting_lists by blast
  have reset: "qs\<lparr>pcReadFrom := r, pcReadFrom := pcReadFrom qs\<rparr> = qs" for r by simp
  show "\<exists>qs' k'. receive_try q 0 peek qs k = Some (Received (case items f of [] \<Rightarrow> None | x # xs \<Rightarrow> Some x), qs', k') \<and> implements (qs', k') (snd (fifo_receive peek f))"
  proof (cases "items f")
    case (Cons x xs)
    obtain r where r: "prvCopyDataFromQueue qs = Some (x, qs\<lparr>pcReadFrom := r\<rparr>)" "holds_items (qs\<lparr>pcReadFrom := r, uxMessagesWaiting := length xs\<rparr>) xs"
      using copy_from_ok[of qs x xs] I(1) Cons by auto
    show ?thesis using r Cons w k1 k3 I by (cases peek) (auto simp: receive_try_def fifo_receive_def implements_def reset)
  qed (use assms w in \<open>simp add: receive_try_def fifo_receive_def\<close>)
  show "\<exists>w qs' k'. xQueueReceiveFromISR q qs k = Some (case items f of [] \<Rightarrow> None | x # xs \<Rightarrow> Some x, w, qs', k') \<and> implements (qs', k') (snd (fifo_receive False f))"
  proof (cases "items f")
    case (Cons x xs)
    obtain r where r: "prvCopyDataFromQueue qs = Some (x, qs\<lparr>pcReadFrom := r\<rparr>)" "holds_items (qs\<lparr>pcReadFrom := r, uxMessagesWaiting := length xs\<rparr>) xs"
      using copy_from_ok[of qs x xs] I(1) Cons by auto
    show ?thesis using r Cons w k2 A I by (auto simp: xQueueReceiveFromISR_def Let_def fifo_receive_def implements_def holds_locks)
  qed (use assms w in \<open>auto simp: xQueueReceiveFromISR_def fifo_receive_def\<close>)
  show "\<exists>qs'. xQueuePeekFromISR qs = Some (case items f of [] \<Rightarrow> None | x # xs \<Rightarrow> Some x, qs') \<and> implements (qs', k) f"
  proof (cases "items f")
    case (Cons x xs)
    then obtain r where "prvCopyDataFromQueue qs = Some (x, qs\<lparr>pcReadFrom := r\<rparr>)" using copy_from_ok[of qs x xs] I(1) by auto
    then show ?thesis using Cons w assms by (simp add: xQueuePeekFromISR_def reset)
  qed (use assms w in \<open>simp add: xQueuePeekFromISR_def\<close>)
qed

lemma call_sim:
  assumes "implements s f" and "legal_op c f"
  shows "\<exists>s'. queue_call q c s = Some (fst (fifo_op c f), s') \<and> implements s' (snd (fifo_op c f))"
proof -
  obtain qs k where s: "s = (qs, k)" by fastforce
  note I = assms(1)[unfolded s]
  have fst_send: "fst (fifo_send pos item f) = Sent (length (items f) < capacity f \<or> pos = queueOVERWRITE)" for pos item by (simp add: fifo_send_def)
  have fst_receive: "fst (fifo_receive peek f) = Got (case items f of [] \<Rightarrow> None | x # xs \<Rightarrow> Some x)" for peek by (simp add: fifo_receive_def split: list.splits)
  have peeked: "snd (fifo_receive True f) = f" by (simp add: fifo_receive_def split: list.splits)
  show ?thesis
  proof (cases c)
    case (Send pos item)
    then show ?thesis using send_sim(1)[OF I, of pos item q] assms(2) by (auto simp: s fst_send xQueueGenericSend_def)
  next
    case (SendFromISR pos item)
    then show ?thesis using send_sim(2)[OF I, of pos item q] assms(2) by (auto simp: s fst_send)
  next
    case (Receive peek)
    then show ?thesis using receive_sim(1)[OF I, of q peek] by (auto simp: s fst_receive xQueueGenericReceive_def)
  next
    case ReceiveFromISR
    then show ?thesis using receive_sim(2)[OF I, of q] by (auto simp: s fst_receive)
  next
    case PeekFromISR
    then show ?thesis using receive_sim(3)[OF I] by (auto simp: s fst_receive peeked)
  qed
qed

fun run_calls :: "('c \<Rightarrow> 's \<Rightarrow> ('r \<times> 's) option) \<Rightarrow> 'c list \<Rightarrow> 's \<Rightarrow> ('r list \<times> 's) option" where
  "run_calls call [] s = Some ([], s)"
| "run_calls call (c # cs) s = do { (r, s1) \<leftarrow> call c s; (rs, s2) \<leftarrow> run_calls call cs s1; Some (r # rs, s2) }"

fun run_spec :: "('c \<Rightarrow> 'a \<Rightarrow> 'r \<times> 'a) \<Rightarrow> 'c list \<Rightarrow> 'a \<Rightarrow> 'r list \<times> 'a" where
  "run_spec spec [] a = ([], a)"
| "run_spec spec (c # cs) a = (let (r, a1) = spec c a; (rs, a2) = run_spec spec cs a1 in (r # rs, a2))"

fun run_legal :: "('c \<Rightarrow> 'a \<Rightarrow> bool) \<Rightarrow> ('c \<Rightarrow> 'a \<Rightarrow> 'r \<times> 'a) \<Rightarrow> 'c list \<Rightarrow> 'a \<Rightarrow> bool" where
  "run_legal legal spec [] a \<longleftrightarrow> True"
| "run_legal legal spec (c # cs) a \<longleftrightarrow> legal c a \<and> run_legal legal spec cs (snd (spec c a))"

text \<open>A component that answers every legal call as its specification does, and keeps the relation to it, answers every sequence of calls as the specification does.\<close>

locale answers_as =
  fixes rel :: "'s \<Rightarrow> 'a \<Rightarrow> bool" and legal :: "'c \<Rightarrow> 'a \<Rightarrow> bool" and call :: "'c \<Rightarrow> 's \<Rightarrow> ('r \<times> 's) option" and spec :: "'c \<Rightarrow> 'a \<Rightarrow> 'r \<times> 'a"
  assumes answer: "rel s a \<Longrightarrow> legal c a \<Longrightarrow> \<exists>s'. call c s = Some (fst (spec c a), s') \<and> rel s' (snd (spec c a))"
begin

lemma all_answers:
  assumes "rel s a" and "run_legal legal spec cs a"
  shows "\<exists>s'. run_calls call cs s = Some (fst (run_spec spec cs a), s') \<and> rel s' (snd (run_spec spec cs a))"
  using assms
proof (induction cs arbitrary: s a)
  case (Cons c cs)
  obtain s1 where "call c s = Some (fst (spec c a), s1)" "rel s1 (snd (spec c a))" using answer[of s a c] Cons.prems by auto
  moreover from this(2) obtain s2 where "run_calls call cs s1 = Some (fst (run_spec spec cs (snd (spec c a))), s2)" "rel s2 (snd (run_spec spec cs (snd (spec c a))))"
    using Cons.IH Cons.prems(2) by fastforce
  ultimately show ?case by (auto simp: case_prod_beta Let_def)
qed simp

end

interpretation queue: answers_as implements legal_op "queue_call q" fifo_op for q
  by unfold_locales (rule call_sim)

section \<open>A new queue\<close>

lemma reset_items:
  assumes "sized qs"
  shows "holds_items (qs\<lparr>pxMutexHolder := None, uxMessagesWaiting := 0, pcWriteTo := 0, pcReadFrom := u32 ((uxLength qs - 1) * uxItemSize qs), xRxLock := i, xTxLock := j\<rparr>) []"
proof -
  have n: "0 < uxLength qs" "(uxLength qs - 1) * uxItemSize qs < 4294967296" using assms by (auto simp: sized_def diff_mult_distrib)
  then have "ring (qs\<lparr>pxMutexHolder := None, uxMessagesWaiting := 0, pcWriteTo := 0, pcReadFrom := u32 ((uxLength qs - 1) * uxItemSize qs), xRxLock := i, xTxLock := j\<rparr>) (uxLength qs - 1) []"
    using assms by (simp add: ring_def sized_def u32_small)
  then show ?thesis by (auto simp: holds_items_def)
qed

lemma create_holds:
  assumes "kernel_ok k A" and "A (xTasksWaitingToSend q) = []" and "A (xTasksWaitingToReceive q) = []" and "0 < n" and "n * s + 1 < 2 ^ 32"
    and "alloc (n * s + 1) = Some bs" and "length bs = n * s + 1"
  shows "\<exists>qs. xQueueGenericCreate q n s True alloc k = Some (Some qs, k) \<and> implements (qs, k) \<lparr>capacity = n, item_size = s, items = []\<rparr> \<and> xRxLock qs = queueUNLOCKED \<and> xTxLock qs = queueUNLOCKED"
proof -
  let ?qs = "\<lparr>is_mutex = False, pxMutexHolder = None, storage = bs, pcWriteTo = 0, pcReadFrom = 0, uxMessagesWaiting = 0, uxLength = n, uxItemSize = s, xRxLock = 0, xTxLock = 0\<rparr>"
  have "sized ?qs" using assms(4,5,7) by (simp add: sized_def)
  from reset_items[OF this] have "holds_items (fst (the (xQueueGenericReset q True ?qs k))) []" by (simp add: xQueueGenericReset_def Let_def)
  moreover have "u32 (u32 (n * s) + 1) = n * s + 1" using assms(5) by (simp add: u32_small)
  ultimately show ?thesis using assms(1,4,6) new_lists[OF assms(1-3)]
    by (auto simp: xQueueGenericCreate_def xQueueGenericReset_def Let_def implements_def)
qed

text \<open>C7: A queue is a bounded list of items: from its creation on, whatever calls that do not wait follow, from tasks and from interrupts, with the queue locked or not, each answers as
  the list does (sending to the back or the front or overwriting, receiving and peeking at the head, and refusing when full or empty), the bytes received are the bytes sent, no access
  leaves the storage, and the scheduler's state stays sound.\<close>

theorem queue_fifo:
  assumes "kernel_ok k A" and "A (xTasksWaitingToSend q) = []" and "A (xTasksWaitingToReceive q) = []" and "0 < n" and "n * s + 1 < 2 ^ 32"
    and "alloc (n * s + 1) = Some bs" and "length bs = n * s + 1" and "run_legal legal_op fifo_op cs \<lparr>capacity = n, item_size = s, items = []\<rparr>"
  shows "\<exists>qs qs' k' A'. xQueueGenericCreate q n s True alloc k = Some (Some qs, k)
    \<and> run_calls (queue_call q) cs (qs, k) = Some (fst (run_spec fifo_op cs \<lparr>capacity = n, item_size = s, items = []\<rparr>), qs', k') \<and> kernel_ok k' A'
    \<and> uxQueueMessagesWaiting qs' = length (items (snd (run_spec fifo_op cs \<lparr>capacity = n, item_size = s, items = []\<rparr>)))"
proof -
  let ?f = "\<lparr>capacity = n, item_size = s, items = []\<rparr>"
  obtain qs where qs: "xQueueGenericCreate q n s True alloc k = Some (Some qs, k)" "implements (qs, k) ?f" using create_holds[OF assms(1-5), of alloc bs, OF assms(6,7)] by blast
  from queue.all_answers[OF qs(2) assms(8)] obtain qs' k' where s': "run_calls (queue_call q) cs (qs, k) = Some (fst (run_spec fifo_op cs ?f), qs', k')"
      "implements (qs', k') (snd (run_spec fifo_op cs ?f))" by (metis surj_pair)
  then show ?thesis using qs(1) holds_waiting unfolding implements_def uxQueueMessagesWaiting_def by fastforce
qed

theorem queue_fifo_witness:
  "\<exists>qs qs' k'. xQueueGenericCreate 0 2 1 True (\<lambda>n. Some (replicate n 0)) demo = Some (Some qs, demo)
    \<and> run_calls (queue_call 0) [Send queueSEND_TO_BACK [7], SendFromISR queueSEND_TO_FRONT [8], Send queueSEND_TO_BACK [9], Receive True, ReceiveFromISR, Receive False, PeekFromISR] (qs, demo)
      = Some ([Sent True, Sent True, Sent False, Got (Some [8]), Got (Some [8]), Got (Some [7]), Got None], qs', k')"
proof -
  let ?cs = "[Send queueSEND_TO_BACK [7], SendFromISR queueSEND_TO_FRONT [8], Send queueSEND_TO_BACK [9], Receive True, ReceiveFromISR, Receive False, PeekFromISR]"
  obtain A where A: "kernel_ok demo A" "\<forall>l. (\<forall>p. l \<noteq> pxReadyTasksLists p) \<longrightarrow> A l = []" using demo_ok by blast
  have l: "A (xTasksWaitingToSend 0) = []" "A (xTasksWaitingToReceive 0) = []" using A(2) by (simp_all add: waiting_lists)
  have r: "run_legal legal_op fifo_op ?cs \<lparr>capacity = 2, item_size = 1, items = []\<rparr>" by (simp add: legal_send_def fifo_send_def fifo_receive_def put_items_def)
  have "fst (run_spec fifo_op ?cs \<lparr>capacity = 2, item_size = 1, items = []\<rparr>) = [Sent True, Sent True, Sent False, Got (Some [8]), Got (Some [8]), Got (Some [7]), Got None]"
    by (simp add: fifo_send_def fifo_receive_def put_items_def)
  moreover have "(0 :: nat) < 2" "2 * 1 + 1 < (2 :: nat) ^ 32" "(\<lambda>n. Some (replicate n (0 :: byte))) (2 * 1 + 1) = Some (replicate 3 0)" "length (replicate 3 (0 :: byte)) = 2 * 1 + 1" by simp_all
  note queue_fifo[OF A(1) l this(1,2), of "\<lambda>n. Some (replicate n 0)" "replicate 3 0", OF this(3,4) r]
  ultimately show ?thesis by auto
qed

end
