(* ===== verification/KQueueSystem.thy ===== *)
theory KQueueSystem
  imports KQueue
begin

text \<open>
  Queues together with the scheduler: what interrupts do while a queue is locked, waiting for a queue, and the system of all calls of \<open>KSystem\<close> and \<open>KQueue\<close> in any order, with the
  critical sections of a waiting send or receive as steps of their own.
\<close>

section \<open>Locking\<close>

text \<open>With the scheduler suspended, the task at the head of a list of events leaves it for the list of tasks that become ready when the scheduler is resumed.\<close>

lemma remove_pending:
  assumes "kernel_ok k A" and "uxSchedulerSuspended k \<noteq> 0" and "A (xEventList e) = i # js"
  shows "\<exists>b h A'. xTaskRemoveFromEventList (xEventList e) k = Some (b, k\<lparr>heap := h\<rparr>) \<and> kernel_ok (k\<lparr>heap := h\<rparr>) A' \<and> A' (xEventList e) = js
    \<and> set (A' xPendingReadyList) = insert i (set (A xPendingReadyList)) \<and> (\<forall>l. l \<noteq> xEventList e \<longrightarrow> l \<noteq> xPendingReadyList \<longrightarrow> A' l = A l)"
proof -
  note K = kernel_okD(1)[OF assms(1)] and D = tasks_invD[OF kinvD(1)[OF kernel_okD(1)[OF assms(1)]]]
  obtain t where t: "i = xEventListItem t" "tcbs k t \<noteq> None" "listGET_OWNER_OF_HEAD_ENTRY (xEventList e) (heap k) = Some t" using event_head[OF K assms(3)] by blast
  have e: "xEventListItem t \<in> set (A (xEventList e))" using assms(3) t(1) by simp
  obtain l where l: "blocked_list l" "xGenericListItem t \<in> set (A l)" using D(10)[OF e] by auto
  let ?A = "without (xEventListItem t) A"
  obtain h where h: "remove_event_item t k = Some (k\<lparr>heap := h\<rparr>)" "kok (k\<lparr>heap := h\<rparr>) ?A" using drop_event[OF K, of t] by auto
  have r: "remove_item (xEventListItem t) k = Some (k\<lparr>heap := h\<rparr>)" using h(1) heap_cont[OF D(1), of "xEventListItem t" "xEventList e"] e by (simp add: remove_event_item_def list_macros)
  have other: "m \<noteq> xEventList e \<Longrightarrow> ?A m = A m" for m using heap_disjoint[OF D(1) e, of m] by (metis remove1_idem without_def)
  have here: "?A (xEventList e) = js" by (simp add: without_def assms(3) t(1))
  have free: "\<forall>l. xEventListItem t \<notin> set (?A l)" using event_free[OF D(1)] by blast
  obtain h1 A1 where a: "append_item xPendingReadyList (xEventListItem t) (k\<lparr>heap := h\<rparr>) = (k\<lparr>heap := h\<rparr>)\<lparr>heap := h1\<rparr>" "kpre t (Suc (unat (xTickCount k))) (k\<lparr>heap := h1\<rparr>) A1" "keeps_ready t ?A A1"
      "\<forall>m. m \<noteq> xPendingReadyList \<longrightarrow> A1 m = ?A m" "set (A1 xPendingReadyList) = insert (xEventListItem t) (set (?A xPendingReadyList))"
    using event_insert(2)[OF h(2) _ free, of xPendingReadyList] t(2) by auto
  have lg: "xGenericListItem t \<in> set (A1 l)" using a(4) l other[of l] by (auto simp: blocked_list_def)
  from pre_kinv[OF a(2) lg l(1)] have ok: "kok (k\<lparr>heap := h1\<rparr>) A1" by simp
  have "\<forall>p. l \<noteq> pxReadyTasksLists p" using l(1) by (auto simp: blocked_list_def)
  then have "xGenericListItem t \<notin> set (A (pxReadyTasksLists p))" for p using heap_disjoint[OF D(1) l(2), of "pxReadyTasksLists p"] by auto
  then have idle: "xIdleTaskHandle k \<noteq> Some t" using assms(1) by (auto simp: kernel_ok_def)
  have "keeps_ready t A A1" by (rule keeps_trans[OF keeps_without[of "xEventListItem t" t] a(3)]) simp
  then have kernel: "kernel_ok (k\<lparr>heap := h1\<rparr>) A1" by (rule kernel_keep[OF assms(1) ok]) (use idle kernel_okD(2,4)[OF assms(1)] in simp_all)
  obtain p c where "priority_of t (k\<lparr>heap := h1\<rparr>) = Some p" "current_priority (k\<lparr>heap := h1\<rparr>) = Some c" using priorities_known[OF assms(1) t(2), of "k\<lparr>heap := h1\<rparr>"] by auto
  then have "xTaskRemoveFromEventList (xEventList e) k = Some (p \<ge> c, k\<lparr>heap := h1\<rparr>)" using t(3) r a(1) assms(2) by (simp add: xTaskRemoveFromEventList_def)
  then show ?thesis using kernel a(4,5) here other t(1) by (intro exI[of _ "p \<ge> c"] exI[of _ h1] exI[of _ A1]) simp
qed

lemma missed_ok: "kernel_ok k A \<Longrightarrow> kernel_ok (vTaskMissedYield k) A"
proof -
  assume k: "kernel_ok k A"
  have "kok (vTaskMissedYield k) A" by (rule kok_fields[OF kernel_okD(1)[OF k]]) (simp_all add: vTaskMissedYield_def)
  then show ?thesis using k by (simp add: kernel_ok_def vTaskMissedYield_def)
qed

lemma list_empty: "kernel_ok k A \<Longrightarrow> listLIST_IS_EMPTY l (heap k) \<longleftrightarrow> A l = []"
  using heap_facts(2)[OF tasks_invD(1)[OF kinvD(1)[OF kernel_okD(1)]], of k A l] by (simp add: list_macros)

text \<open>As many tasks leave the list as calls were counted, and there are.\<close>

lemma unlock_loop_moves:
  assumes "kernel_ok k A" and "uxSchedulerSuspended k \<noteq> 0"
  shows "\<exists>k' A'. unlock_loop n (xEventList e) k = Some k' \<and> kernel_ok k' A' \<and> A' (xEventList e) = drop n (A (xEventList e)) \<and> uxSchedulerSuspended k' = uxSchedulerSuspended k
    \<and> set (A' xPendingReadyList) = set (A xPendingReadyList) \<union> set (take n (A (xEventList e))) \<and> (\<forall>l. l \<noteq> xEventList e \<longrightarrow> l \<noteq> xPendingReadyList \<longrightarrow> A' l = A l)"
  using assms
proof (induction n arbitrary: k A)
  case (Suc n)
  show ?case
  proof (cases "A (xEventList e)")
    case Nil
    then show ?thesis using list_empty[OF Suc.prems(1), of "xEventList e"] Suc.prems(1) by auto
  next
    case (Cons i js)
    obtain b h A1 where r: "xTaskRemoveFromEventList (xEventList e) k = Some (b, k\<lparr>heap := h\<rparr>)" "kernel_ok (k\<lparr>heap := h\<rparr>) A1" "A1 (xEventList e) = js"
        "set (A1 xPendingReadyList) = insert i (set (A xPendingReadyList))" "\<forall>l. l \<noteq> xEventList e \<longrightarrow> l \<noteq> xPendingReadyList \<longrightarrow> A1 l = A l"
      using remove_pending[OF Suc.prems Cons] by blast
    define k1 where "k1 = (if b then vTaskMissedYield (k\<lparr>heap := h\<rparr>) else k\<lparr>heap := h\<rparr>)"
    have k1: "kernel_ok k1 A1" "uxSchedulerSuspended k1 = uxSchedulerSuspended k" using r(2) missed_ok[OF r(2)] by (auto simp: k1_def vTaskMissedYield_def)
    then obtain k' A' where k': "unlock_loop n (xEventList e) k1 = Some k'" "kernel_ok k' A'" "A' (xEventList e) = drop n js" "uxSchedulerSuspended k' = uxSchedulerSuspended k"
        "set (A' xPendingReadyList) = set (A1 xPendingReadyList) \<union> set (take n js)" "\<forall>l. l \<noteq> xEventList e \<longrightarrow> l \<noteq> xPendingReadyList \<longrightarrow> A' l = A1 l"
      using Suc.IH[OF k1(1)] Suc.prems(2) r(3) by auto
    have "unlock_loop (Suc n) (xEventList e) k = Some k'" using r(1) k'(1) list_empty[OF Suc.prems(1), of "xEventList e"] Cons by (simp add: k1_def)
    then show ?thesis using k'(2-6) r(4,5) Cons by (intro exI[of _ k'] exI[of _ A']) auto
  qed
qed auto

lemma unlock_moves:
  assumes "kernel_ok k A" and "uxSchedulerSuspended k \<noteq> 0"
  shows "\<exists>qs' k' A'. prvUnlockQueue q qs k = Some (qs', k') \<and> kernel_ok k' A' \<and> qs' = qs\<lparr>xTxLock := queueUNLOCKED, xRxLock := queueUNLOCKED\<rparr> \<and> uxSchedulerSuspended k' = uxSchedulerSuspended k
    \<and> A' (xTasksWaitingToReceive q) = drop (nat (xTxLock qs)) (A (xTasksWaitingToReceive q)) \<and> A' (xTasksWaitingToSend q) = drop (nat (xRxLock qs)) (A (xTasksWaitingToSend q))
    \<and> set (A' xPendingReadyList) = set (A xPendingReadyList) \<union> set (take (nat (xTxLock qs)) (A (xTasksWaitingToReceive q))) \<union> set (take (nat (xRxLock qs)) (A (xTasksWaitingToSend q)))"
proof -
  obtain k1 A1 where k1: "unlock_loop (nat (xTxLock qs)) (xTasksWaitingToReceive q) k = Some k1" "kernel_ok k1 A1" "A1 (xTasksWaitingToReceive q) = drop (nat (xTxLock qs)) (A (xTasksWaitingToReceive q))"
      "uxSchedulerSuspended k1 = uxSchedulerSuspended k" "set (A1 xPendingReadyList) = set (A xPendingReadyList) \<union> set (take (nat (xTxLock qs)) (A (xTasksWaitingToReceive q)))"
      "\<forall>l. l \<noteq> xTasksWaitingToReceive q \<longrightarrow> l \<noteq> xPendingReadyList \<longrightarrow> A1 l = A l"
    using unlock_loop_moves[OF assms] unfolding waiting_lists by blast
  have "uxSchedulerSuspended k1 \<noteq> 0" using k1(4) assms(2) by simp
  from unlock_loop_moves[OF k1(2) this] obtain k2 A2 where k2: "unlock_loop (nat (xRxLock qs)) (xTasksWaitingToSend q) k1 = Some k2" "kernel_ok k2 A2"
      "A2 (xTasksWaitingToSend q) = drop (nat (xRxLock qs)) (A1 (xTasksWaitingToSend q))" "uxSchedulerSuspended k2 = uxSchedulerSuspended k1"
      "set (A2 xPendingReadyList) = set (A1 xPendingReadyList) \<union> set (take (nat (xRxLock qs)) (A1 (xTasksWaitingToSend q)))" "\<forall>l. l \<noteq> xTasksWaitingToSend q \<longrightarrow> l \<noteq> xPendingReadyList \<longrightarrow> A2 l = A1 l"
    unfolding waiting_lists by blast
  have "xTasksWaitingToReceive q \<noteq> xTasksWaitingToSend q" "xTasksWaitingToReceive q \<noteq> xPendingReadyList" "xTasksWaitingToSend q \<noteq> xPendingReadyList" by (simp_all add: waiting_lists)
  then show ?thesis using k1 k2 by (intro exI[of _ "qs\<lparr>xTxLock := queueUNLOCKED, xRxLock := queueUNLOCKED\<rparr>"] exI[of _ k2] exI[of _ A2]) (simp add: prvUnlockQueue_def)
qed

text \<open>What interrupts do to a locked queue is counted in its locks, and the scheduler is left alone.\<close>

fun from_isr :: "queue_op \<Rightarrow> bool" where
  "from_isr (Send pos item) \<longleftrightarrow> False"
| "from_isr (Receive peek) \<longleftrightarrow> False"
| "from_isr _ \<longleftrightarrow> True"

definition posted :: "queue_op list \<Rightarrow> reply list \<Rightarrow> nat" where
  "posted cs rs = length (filter (\<lambda>(c, r). r = Sent True) (zip cs rs))"

definition taken :: "queue_op list \<Rightarrow> reply list \<Rightarrow> nat" where
  "taken cs rs = length (filter (\<lambda>(c, r). c = ReceiveFromISR \<and> r \<noteq> Got None) (zip cs rs))"

lemma posted_append: "length cs = length rs \<Longrightarrow> posted (cs @ cs') (rs @ rs') = posted cs rs + posted cs' rs'" "length cs = length rs \<Longrightarrow> taken (cs @ cs') (rs @ rs') = taken cs rs + taken cs' rs'"
  by (simp_all add: posted_def taken_def)

lemma copy_to_locks: "prvCopyDataToQueue item pos qs k = Some (qs', k') \<Longrightarrow> xRxLock qs' = xRxLock qs \<and> xTxLock qs' = xTxLock qs \<and> is_mutex qs' = is_mutex qs \<and> (\<not> is_mutex qs \<longrightarrow> k' = k)"
  by (auto simp: prvCopyDataToQueue_def copy_in_def Let_def split: Option.bind_splits if_splits)

lemma copy_from_locks: "prvCopyDataFromQueue qs = Some (bs, qs') \<Longrightarrow> xRxLock qs' = xRxLock qs \<and> xTxLock qs' = xTxLock qs \<and> is_mutex qs' = is_mutex qs"
  by (auto simp: prvCopyDataFromQueue_def Let_def split: Option.bind_splits if_splits)

lemma isr_counts:
  assumes "queue_call q c (qs, k) = Some (r, qs', k')" and "from_isr c" and "\<not> is_mutex qs" and "xTxLock qs \<ge> 0" and "xRxLock qs \<ge> 0"
  shows "k' = k \<and> \<not> is_mutex qs' \<and> xTxLock qs' = xTxLock qs + int (posted [c] [r]) \<and> xRxLock qs' = xRxLock qs + int (taken [c] [r])"
proof (cases c)
  case (SendFromISR pos item)
  then show ?thesis using assms copy_to_locks[of item pos qs k]
    by (auto simp: xQueueGenericSendFromISR_def posted_def taken_def queueUNLOCKED_def split: Option.bind_splits if_splits)
next
  case ReceiveFromISR
  then show ?thesis using assms copy_from_locks[of qs]
    by (auto simp: xQueueReceiveFromISR_def Let_def posted_def taken_def queueUNLOCKED_def split: Option.bind_splits if_splits)
next
  case PeekFromISR
  then show ?thesis using assms copy_from_locks[of qs]
    by (auto simp: xQueuePeekFromISR_def posted_def taken_def split: Option.bind_splits if_splits)
qed (use assms(2) in simp_all)

lemma isr_run_counts:
  assumes "run_calls (queue_call q) cs (qs, k) = Some (rs, qs', k')" and "\<forall>c \<in> set cs. from_isr c" and "\<not> is_mutex qs" and "xTxLock qs \<ge> 0" and "xRxLock qs \<ge> 0"
  shows "k' = k \<and> \<not> is_mutex qs' \<and> xTxLock qs' = xTxLock qs + int (posted cs rs) \<and> xRxLock qs' = xRxLock qs + int (taken cs rs) \<and> length rs = length cs"
  using assms
proof (induction cs arbitrary: qs rs)
  case (Cons c cs)
  obtain r qs1 k1 rs1 where r: "queue_call q c (qs, k) = Some (r, qs1, k1)" "run_calls (queue_call q) cs (qs1, k1) = Some (rs1, qs', k')" "rs = r # rs1"
    using Cons.prems(1) by (auto split: Option.bind_splits)
  note c = isr_counts[OF r(1) _ Cons.prems(3-5)]
  have "k' = k \<and> \<not> is_mutex qs' \<and> xTxLock qs' = xTxLock qs1 + int (posted cs rs1) \<and> xRxLock qs' = xRxLock qs1 + int (taken cs rs1) \<and> length rs1 = length cs"
    using Cons.IH[of qs1 rs1] r(2) c Cons.prems(2,4,5) by simp
  then show ?case using c r(3) Cons.prems(2) posted_append[of "[c]" "[r]" cs rs1] by simp
qed (simp add: posted_def taken_def)

lemma run_append: "run_legal legal spec (cs @ ds) a \<longleftrightarrow> run_legal legal spec cs a \<and> run_legal legal spec ds (snd (run_spec spec cs a))"
  "run_spec spec (cs @ ds) a = (fst (run_spec spec cs a) @ fst (run_spec spec ds (snd (run_spec spec cs a))), snd (run_spec spec ds (snd (run_spec spec cs a))))"
  by (induction cs arbitrary: a) (simp_all add: case_prod_beta Let_def)

lemma item_moves:
  "insert_item l i k = Some k' \<Longrightarrow> pvContainer (heap k') = (pvContainer (heap k))(i := Some l) \<and> pxCurrentTCB k' = pxCurrentTCB k \<and> uxSchedulerSuspended k' = uxSchedulerSuspended k"
  "remove_item i k = Some k' \<Longrightarrow> pvContainer (heap k') = (pvContainer (heap k))(i := None) \<and> pxCurrentTCB k' = pxCurrentTCB k \<and> uxSchedulerSuspended k' = uxSchedulerSuspended k"
  "pvContainer (heap (append_item l i k)) = (pvContainer (heap k))(i := Some l) \<and> uxSchedulerSuspended (append_item l i k) = uxSchedulerSuspended k"
  subgoal by (auto simp: insert_item_def vListInsert_def Let_def split: Option.bind_splits)
  subgoal by (auto simp: remove_item_def uxListRemove_def Let_def split: Option.bind_splits)
  subgoal by (simp add: append_item_def vListInsertEnd_def Let_def)
  done

lemma delayed_container:
  assumes "prvAddCurrentTaskToDelayedList wake k = Some k'"
  shows "pvContainer (heap k') (xEventListItem t) = pvContainer (heap k) (xEventListItem t) \<and> uxSchedulerSuspended k' = uxSchedulerSuspended k"
  using assms by (auto simp: prvAddCurrentTaskToDelayedList_def Let_def listSET_LIST_ITEM_VALUE_def dest!: item_moves(1) split: Option.bind_splits if_splits)

lemma place_container:
  assumes "vTaskPlaceOnEventList l n k = Some k'" and "pxCurrentTCB k = Some t"
  shows "pvContainer (heap k') (xEventListItem t) = Some l \<and> uxSchedulerSuspended k' = uxSchedulerSuspended k"
proof -
  obtain k1 k2 where k: "insert_item l (xEventListItem t) k = Some k1" "remove_item (xGenericListItem t) k1 = Some k2"
      "(if n = portMAX_DELAY then Some (append_item xSuspendedTaskList (xGenericListItem t) k2) else prvAddCurrentTaskToDelayedList (xTickCount k2 + n) k2) = Some k'"
    using assms by (auto simp: vTaskPlaceOnEventList_def split: Option.bind_splits)
  then show ?thesis using item_moves(1)[OF k(1)] item_moves(2)[OF k(2)] item_moves(3)[of xSuspendedTaskList "xGenericListItem t" k2] delayed_container[of "xTickCount k2 + n" k2 k' t]
    by (auto split: if_splits)
qed

lemma suspended_same: "pxCurrentTCB (vTaskSuspendAll k) = pxCurrentTCB k" "xIdleTaskHandle (vTaskSuspendAll k) = xIdleTaskHandle k" "heap (vTaskSuspendAll k) = heap k" "tcbs (vTaskSuspendAll k) = tcbs k"
  by (simp_all add: vTaskSuspendAll_def)

lemma lock_zero: "xRxLock qs = queueUNLOCKED \<Longrightarrow> xTxLock qs = queueUNLOCKED \<Longrightarrow> xRxLock (prvLockQueue qs) = 0 \<and> xTxLock (prvLockQueue qs) = 0"
  by (simp add: prvLockQueue_def queueLOCKED_UNMODIFIED_def)

lemma lock_holds: "holds_items (prvLockQueue qs) = holds_items qs" "is_mutex (prvLockQueue qs) = is_mutex qs" "uxLength (prvLockQueue qs) = uxLength qs" "uxItemSize (prvLockQueue qs) = uxItemSize qs"
  by (simp_all add: fun_eq_iff prvLockQueue_def holds_items_def ring_def sized_def slot_def)

lemma lock_implements: "implements (qs, k) f \<Longrightarrow> implements (prvLockQueue qs, k) f"
  by (simp add: implements_def lock_holds)

text \<open>C20: No wake-up is lost while a task goes to sleep on a queue: with the scheduler suspended and the queue locked, interrupts may send and receive before and after the
  task enters the list of waiting tasks; the answers are those of the bounded list, the lists of waiting tasks are not touched, and unlocking releases exactly as many
  receivers as items were accepted and as many senders as items were taken, those that are first in the lists, to become ready when the scheduler is resumed.\<close>

theorem no_lost_wakeup:
  assumes "implements (qs, k) f" and "xRxLock qs = queueUNLOCKED" and "xTxLock qs = queueUNLOCKED" and "uxSchedulerSuspended k \<noteq> 0"
    and "run_legal legal_op fifo_op (cs @ ds) f" and "\<forall>c \<in> set (cs @ ds). from_isr c"
    and "pxCurrentTCB k = Some t" and "xIdleTaskHandle k \<noteq> Some t" and "listLIST_ITEM_CONTAINER (xEventListItem t) (heap k) = None" and "n \<noteq> 0"
  shows "\<exists>rs qs1 k1 A1 rs' qs2 qs3 k3 A3. run_calls (queue_call q) cs (prvLockQueue qs, k) = Some (rs, qs1, k)
    \<and> vTaskPlaceOnEventList (xTasksWaitingToReceive q) n k = Some k1 \<and> kernel_ok k1 A1 \<and> xEventListItem t \<in> set (A1 (xTasksWaitingToReceive q))
    \<and> run_calls (queue_call q) ds (qs1, k1) = Some (rs', qs2, k1) \<and> rs @ rs' = fst (run_spec fifo_op (cs @ ds) f)
    \<and> prvUnlockQueue q qs2 k1 = Some (qs3, k3) \<and> kernel_ok k3 A3
    \<and> A3 (xTasksWaitingToReceive q) = drop (posted (cs @ ds) (rs @ rs')) (A1 (xTasksWaitingToReceive q)) \<and> A3 (xTasksWaitingToSend q) = drop (taken (cs @ ds) (rs @ rs')) (A1 (xTasksWaitingToSend q))
    \<and> set (A3 xPendingReadyList) = set (A1 xPendingReadyList) \<union> set (take (posted (cs @ ds) (rs @ rs')) (A1 (xTasksWaitingToReceive q))) \<union> set (take (taken (cs @ ds) (rs @ rs')) (A1 (xTasksWaitingToSend q)))"
proof -
  obtain A where A: "kernel_ok k A" using assms(1) by (auto simp: implements_def)
  note L = assms(5)[unfolded run_append]
  obtain k1 A1 where k1: "vTaskPlaceOnEventList (xTasksWaitingToReceive q) n k = Some k1" "kernel_ok k1 A1" using place_event_ok(1)[OF A assms(7-10)] unfolding waiting_lists by blast
  note P = place_container[OF k1(1) assms(7)]
  have m: "xEventListItem t \<in> set (A1 (xTasksWaitingToReceive q))" using P heap_cont[OF tasks_invD(1)[OF kinvD(1)[OF kernel_okD(1)[OF k1(2)]]]] by blast
  obtain rs qs1 k0 where r: "run_calls (queue_call q) cs (prvLockQueue qs, k) = Some (rs, qs1, k0)" "rs = fst (run_spec fifo_op cs f)" "implements (qs1, k0) (snd (run_spec fifo_op cs f))"
    using queue.all_answers[OF lock_implements[OF assms(1)]] L by (metis surj_pair)
  have mutex: "\<not> is_mutex (prvLockQueue qs)" using assms(1) holds_waiting by (auto simp: implements_def lock_holds)
  have c: "k0 = k \<and> \<not> is_mutex qs1 \<and> xTxLock qs1 = int (posted cs rs) \<and> xRxLock qs1 = int (taken cs rs) \<and> length rs = length cs"
    using isr_run_counts[OF r(1) _ mutex] lock_zero[OF assms(2,3)] assms(6) by simp
  have "implements (qs1, k1) (snd (run_spec fifo_op cs f))" using r(3) k1(2) by (auto simp: implements_def)
  then obtain rs' qs2 k2 where r': "run_calls (queue_call q) ds (qs1, k1) = Some (rs', qs2, k2)" "rs' = fst (run_spec fifo_op ds (snd (run_spec fifo_op cs f)))"
    using queue.all_answers L by (metis surj_pair)
  have c': "k2 = k1 \<and> xTxLock qs2 = int (posted cs rs) + int (posted ds rs') \<and> xRxLock qs2 = int (taken cs rs) + int (taken ds rs')"
    using isr_run_counts[OF r'(1)] c assms(6) by simp
  have n: "nat (xTxLock qs2) = posted (cs @ ds) (rs @ rs')" "nat (xRxLock qs2) = taken (cs @ ds) (rs @ rs')" using c c' posted_append[of cs rs ds rs'] by simp_all
  have "uxSchedulerSuspended k1 \<noteq> 0" using P assms(4) by simp
  from unlock_moves[OF k1(2) this, of q qs2, unfolded n] show ?thesis
    using r(1,2) r' c c' k1 m run_append(2)[of fifo_op cs ds f] by (metis fst_conv)
qed

theorem no_lost_wakeup_witness:
  "\<exists>qs qs1 k1 A1 qs2 qs3 k3 A3. xQueueGenericCreate 0 2 1 True (\<lambda>n. Some (replicate n 0)) (vTaskSuspendAll demo) = Some (Some qs, vTaskSuspendAll demo)
    \<and> run_calls (queue_call 0) [SendFromISR queueSEND_TO_BACK [7]] (prvLockQueue qs, vTaskSuspendAll demo) = Some ([Sent True], qs1, vTaskSuspendAll demo)
    \<and> vTaskPlaceOnEventList (xTasksWaitingToReceive 0) 5 (vTaskSuspendAll demo) = Some k1 \<and> kernel_ok k1 A1 \<and> xEventListItem 3 \<in> set (A1 (xTasksWaitingToReceive 0))
    \<and> prvUnlockQueue 0 qs2 k1 = Some (qs3, k3) \<and> A3 (xTasksWaitingToReceive 0) = drop 1 (A1 (xTasksWaitingToReceive 0))"
proof -
  let ?k = "vTaskSuspendAll demo" and ?f = "\<lparr>capacity = 2, item_size = 1, items = []\<rparr>" and ?cs = "[SendFromISR queueSEND_TO_BACK [7 :: byte]]"
  obtain A where A: "kernel_ok demo A" "\<forall>l. (\<forall>p. l \<noteq> pxReadyTasksLists p) \<longrightarrow> A l = []" "uxSchedulerSuspended demo = 0" using demo_ok by blast
  have k: "kernel_ok ?k A" using suspend_all_ok[OF A(1)] A(3) by simp
  have l: "A (xTasksWaitingToSend 0) = []" "A (xTasksWaitingToReceive 0) = []" using A(2) by (simp_all add: waiting_lists)
  have a: "(0 :: nat) < 2" "2 * 1 + 1 < (2 :: nat) ^ 32" "(\<lambda>n. Some (replicate n (0 :: byte))) (2 * 1 + 1) = Some (replicate 3 0)" "length (replicate 3 (0 :: byte)) = 2 * 1 + 1" by simp_all
  obtain qs where qs: "xQueueGenericCreate 0 2 1 True (\<lambda>n. Some (replicate n 0)) ?k = Some (Some qs, ?k)" "implements (qs, ?k) ?f" "xRxLock qs = queueUNLOCKED" "xTxLock qs = queueUNLOCKED"
    using create_holds[OF k l a(1,2), of "\<lambda>n. Some (replicate n 0)" "replicate 3 0", OF a(3,4)] by blast
  have r: "run_legal legal_op fifo_op (?cs @ []) ?f" "\<forall>c \<in> set (?cs @ []). from_isr c" by (simp_all add: legal_send_def)
  have c: "pxCurrentTCB ?k = Some 3" "xIdleTaskHandle ?k \<noteq> Some 3" "listLIST_ITEM_CONTAINER (xEventListItem 3) (heap ?k) = None" unfolding suspended_same by code_simp+
  have sus: "uxSchedulerSuspended ?k \<noteq> 0" using A(3) by (simp add: vTaskSuspendAll_def u32_def)
  have s: "fst (run_spec fifo_op (?cs @ []) ?f) = [Sent True]" "posted (?cs @ []) [Sent True] = 1" by (simp_all add: fifo_send_def posted_def)
  from no_lost_wakeup[OF qs(2-4) sus r c(1-3), of 5 0] obtain rs qs1 k1 A1 rs' qs2 qs3 k3 A3 where w: "run_calls (queue_call 0) ?cs (prvLockQueue qs, ?k) = Some (rs, qs1, ?k)"
      "vTaskPlaceOnEventList (xTasksWaitingToReceive 0) 5 ?k = Some k1" "kernel_ok k1 A1" "xEventListItem 3 \<in> set (A1 (xTasksWaitingToReceive 0))" "run_calls (queue_call 0) [] (qs1, k1) = Some (rs', qs2, k1)"
      "rs @ rs' = [Sent True]" "prvUnlockQueue 0 qs2 k1 = Some (qs3, k3)" "A3 (xTasksWaitingToReceive 0) = drop (posted (?cs @ []) (rs @ rs')) (A1 (xTasksWaitingToReceive 0))" unfolding s(1) by auto
  have "rs' = []" using w(5) by simp
  then show ?thesis using qs(1) w s(2) by (metis append_Nil2)
qed

section \<open>Queues, mutexes and the scheduler together\<close>

text \<open>A queue holds a list of items; a mutex is free and has no holder, or it is taken.\<close>

definition queue_ok :: "xQUEUE \<Rightarrow> bool" where
  "queue_ok qs \<longleftrightarrow> (if is_mutex qs then uxLength qs = 1 \<and> uxItemSize qs = 0 \<and> uxMessagesWaiting qs \<le> 1 \<and> (uxMessagesWaiting qs = 1 \<longrightarrow> pxMutexHolder qs = None)
     else \<exists>xs. holds_items qs xs)"

definition holder_known :: "xQUEUE \<Rightarrow> kernel \<Rightarrow> bool" where
  "holder_known qs k \<longleftrightarrow> is_mutex qs \<longrightarrow> (\<forall>t. pxMutexHolder qs = Some t \<longrightarrow> tcbs k t \<noteq> None \<and> listLIST_ITEM_CONTAINER (xEventListItem t) (heap k) = None)"

definition may_send :: "position \<Rightarrow> byte list \<Rightarrow> xQUEUE \<Rightarrow> kernel \<Rightarrow> bool" where
  "may_send pos item qs k \<longleftrightarrow> length item = uxItemSize qs \<and> (pos = queueOVERWRITE \<longrightarrow> uxLength qs = 1 \<and> 0 < uxItemSize qs) \<and> holder_known qs k"

definition may_wait :: "32 word \<Rightarrow> kernel \<Rightarrow> bool" where
  "may_wait n k \<longleftrightarrow> n = 0 \<or> may_block k None \<and> no_event k (pxCurrentTCB k) \<and> uxSchedulerSuspended k + 1 < 2 ^ 32"

lemma queue_ok_locks [simp]: "queue_ok (qs\<lparr>xTxLock := i\<rparr>) = queue_ok qs" "queue_ok (qs\<lparr>xRxLock := i\<rparr>) = queue_ok qs" "queue_ok (prvLockQueue qs) = queue_ok qs"
  by (simp_all add: queue_ok_def holds_locks lock_holds) (simp_all add: prvLockQueue_def)

lemma copy_to_keeps:
  assumes "kernel_ok k A" and "queue_ok qs" and "may_send pos item qs k" and "uxMessagesWaiting qs < uxLength qs \<or> pos = queueOVERWRITE"
  shows "\<exists>qs' k' A'. prvCopyDataToQueue item pos qs k = Some (qs', k') \<and> kernel_ok k' A' \<and> queue_ok qs'"
proof (cases "is_mutex qs")
  case True
  then have m: "uxLength qs = 1" "uxItemSize qs = 0" "uxMessagesWaiting qs = 0" using assms(2-4) by (auto simp: queue_ok_def may_send_def)
  obtain k' A' where "vTaskPriorityDisinherit (pxMutexHolder qs) k = Some k'" "kernel_ok k' A'" using disinherit_ok[OF assms(1), of "pxMutexHolder qs"] assms(3) True by (auto simp: may_send_def holder_known_def)
  then show ?thesis using True m by (auto simp: prvCopyDataToQueue_def queue_ok_def)
next
  case False
  then obtain xs where xs: "holds_items qs xs" using assms(2) by (auto simp: queue_ok_def)
  then have "pos \<noteq> queueOVERWRITE \<Longrightarrow> length xs < uxLength qs" using holds_waiting assms(4) by auto
  then show ?thesis using copy_to_ok[OF xs, of item pos k] assms(1,3) False by (auto simp: may_send_def queue_ok_def same_shape_def)
qed

lemma send_try_keeps:
  assumes "kernel_ok k A" and "queue_ok qs" and "may_send pos item qs k"
  shows "\<exists>t qs' k' A'. send_try q item pos n qs k = Some (t, qs', k') \<and> kernel_ok k' A' \<and> queue_ok qs' \<and> (t = Wait \<longrightarrow> n \<noteq> 0 \<and> qs' = qs \<and> k' = k)"
proof (cases "uxMessagesWaiting qs < uxLength qs \<or> pos = queueOVERWRITE")
  case True
  obtain qs1 k1 A1 where c: "prvCopyDataToQueue item pos qs k = Some (qs1, k1)" "kernel_ok k1 A1" "queue_ok qs1" using copy_to_keeps[OF assms True] by blast
  obtain k2 A2 where "wake_and_yield (xTasksWaitingToReceive q) k1 = Some k2" "kernel_ok k2 A2" using wake_and_yield_ok[OF c(2)] unfolding waiting_lists by blast
  then show ?thesis using True c(1,3) by (auto simp: send_try_def)
qed (use assms in \<open>auto simp: send_try_def\<close>)

lemma send_isr_keeps:
  assumes "kernel_ok k A" and "queue_ok qs" and "may_send pos item qs k"
  shows "\<exists>b w qs' k' A'. xQueueGenericSendFromISR q item pos qs k = Some (b, w, qs', k') \<and> kernel_ok k' A' \<and> queue_ok qs'"
proof (cases "uxMessagesWaiting qs < uxLength qs \<or> pos = queueOVERWRITE")
  case True
  obtain qs1 k1 A1 where c: "prvCopyDataToQueue item pos qs k = Some (qs1, k1)" "kernel_ok k1 A1" "queue_ok qs1" using copy_to_keeps[OF assms True] by blast
  obtain b k2 A2 where "wake_one (xTasksWaitingToReceive q) k1 = Some (b, k2)" "kernel_ok k2 A2" using wake_one_ok[OF c(2)] unfolding waiting_lists by blast
  then show ?thesis using True c by (auto simp: xQueueGenericSendFromISR_def)
qed (use assms in \<open>auto simp: xQueueGenericSendFromISR_def\<close>)

text \<open>Receiving: the item is copied out, or the mutex is taken.\<close>

lemma copy_from_keeps:
  assumes "queue_ok qs" and "uxMessagesWaiting qs > 0"
  shows "\<exists>bs r. prvCopyDataFromQueue qs = Some (bs, qs\<lparr>pcReadFrom := r\<rparr>) \<and> (\<forall>h. queue_ok (qs\<lparr>pcReadFrom := r, uxMessagesWaiting := uxMessagesWaiting qs - 1\<rparr>)
    \<and> (is_mutex qs \<longrightarrow> queue_ok (qs\<lparr>pcReadFrom := r, uxMessagesWaiting := uxMessagesWaiting qs - 1, pxMutexHolder := h\<rparr>)))"
proof (cases "is_mutex qs")
  case True
  then show ?thesis using assms by (intro exI[of _ "[]"] exI[of _ "pcReadFrom qs"]) (auto simp: prvCopyDataFromQueue_def queue_ok_def)
next
  case False
  then obtain xs where xs: "holds_items qs xs" "uxMessagesWaiting qs = length xs" using assms(1) holds_waiting by (auto simp: queue_ok_def)
  then obtain y ys where y: "xs = y # ys" using assms(2) by (cases xs) auto
  then show ?thesis using copy_from_ok[of qs y ys] xs False by (auto simp: queue_ok_def)
qed

lemma receive_try_keeps:
  assumes "kernel_ok k A" and "queue_ok qs"
  shows "\<exists>t qs' k' A'. receive_try q n peek qs k = Some (t, qs', k') \<and> kernel_ok k' A' \<and> queue_ok qs' \<and> (t = RWait \<longrightarrow> n \<noteq> 0 \<and> qs' = qs \<and> k' = k)"
proof (cases "uxMessagesWaiting qs > 0")
  case True
  obtain bs r where r: "prvCopyDataFromQueue qs = Some (bs, qs\<lparr>pcReadFrom := r\<rparr>)" "\<And>h. queue_ok (qs\<lparr>pcReadFrom := r, uxMessagesWaiting := uxMessagesWaiting qs - 1\<rparr>)"
      "\<And>h. is_mutex qs \<Longrightarrow> queue_ok (qs\<lparr>pcReadFrom := r, uxMessagesWaiting := uxMessagesWaiting qs - 1, pxMutexHolder := h\<rparr>)" using copy_from_keeps[OF assms(2) True] by blast
  obtain k1 A1 where k1: "wake_and_yield (xTasksWaitingToSend q) k = Some k1" "kernel_ok k1 A1" using wake_and_yield_ok[OF assms(1)] unfolding waiting_lists by blast
  obtain k2 A2 where k2: "wake_and_yield (xTasksWaitingToReceive q) k = Some k2" "kernel_ok k2 A2" using wake_and_yield_ok[OF assms(1)] unfolding waiting_lists by blast
  have reset: "qs\<lparr>pcReadFrom := r, pcReadFrom := pcReadFrom qs\<rparr> = qs" by simp
  show ?thesis
  proof (cases peek)
    case True
    then show ?thesis using \<open>uxMessagesWaiting qs > 0\<close> r(1) k2 assms(2) by (auto simp: receive_try_def reset)
  next
    case False
    then show ?thesis using True r k1 by (cases "is_mutex qs") (auto simp: receive_try_def Let_def)
  qed
qed (use assms in \<open>auto simp: receive_try_def\<close>)

lemma receive_isr_keeps:
  assumes "kernel_ok k A" and "queue_ok qs"
  shows "\<exists>b w qs' k' A'. xQueueReceiveFromISR q qs k = Some (b, w, qs', k') \<and> kernel_ok k' A' \<and> queue_ok qs'" "\<exists>b. xQueuePeekFromISR qs = Some (b, qs)"
proof -
  obtain b k1 A1 where k1: "wake_one (xTasksWaitingToSend q) k = Some (b, k1)" "kernel_ok k1 A1" using wake_one_ok[OF assms(1)] unfolding waiting_lists by blast
  show "\<exists>b w qs' k' A'. xQueueReceiveFromISR q qs k = Some (b, w, qs', k') \<and> kernel_ok k' A' \<and> queue_ok qs'"
    using copy_from_keeps[OF assms(2)] k1 assms by (cases "uxMessagesWaiting qs > 0") (fastforce simp: xQueueReceiveFromISR_def Let_def)+
  show "\<exists>b. xQueuePeekFromISR qs = Some (b, qs)"
    using copy_from_keeps[OF assms(2)] by (cases "uxMessagesWaiting qs > 0") (auto simp: xQueuePeekFromISR_def)
qed

section \<open>Waiting\<close>

lemma unlock_loop_keeps: "kernel_ok k A \<Longrightarrow> \<exists>k' A'. unlock_loop n (xEventList e) k = Some k' \<and> kernel_ok k' A'"
proof (induction n arbitrary: k A)
  case (Suc n)
  show ?case
  proof (cases "listLIST_IS_EMPTY (xEventList e) (heap k)")
    case False
    obtain b k1 A1 where r: "xTaskRemoveFromEventList (xEventList e) k = Some (b, k1)" "kernel_ok k1 A1" using remove_event_ok[OF Suc.prems False] by blast
    have "kernel_ok (if b then vTaskMissedYield k1 else k1) A1" using r(2) missed_ok[OF r(2)] by simp
    from Suc.IH[OF this] show ?thesis using False r(1) by simp
  qed (use Suc.prems in auto)
qed auto

lemma unlock_keeps:
  assumes "kernel_ok k A" and "queue_ok qs"
  shows "\<exists>qs' k' A'. prvUnlockQueue q qs k = Some (qs', k') \<and> kernel_ok k' A' \<and> queue_ok qs'"
proof -
  obtain k1 A1 where k1: "unlock_loop (nat (xTxLock qs)) (xTasksWaitingToReceive q) k = Some k1" "kernel_ok k1 A1" using unlock_loop_keeps[OF assms(1)] unfolding waiting_lists by blast
  obtain k2 A2 where "unlock_loop (nat (xRxLock qs)) (xTasksWaitingToSend q) k1 = Some k2" "kernel_ok k2 A2" using unlock_loop_keeps[OF k1(2)] unfolding waiting_lists by blast
  then show ?thesis using k1(1) assms(2) by (auto simp: prvUnlockQueue_def)
qed

lemma leave_keeps:
  assumes "kernel_ok k A" and "queue_ok qs"
  shows "\<exists>qs' k' A'. leave q stg qs k = Some (qs', k') \<and> kernel_ok k' A' \<and> queue_ok qs'"
proof -
  obtain qs1 k1 A1 where u: "prvUnlockQueue q qs k = Some (qs1, k1)" "kernel_ok k1 A1" "queue_ok qs1" using unlock_keeps[OF assms] by blast
  obtain b k2 A2 where "xTaskResumeAll k1 = Some (b, k2)" "kernel_ok k2 A2" using resume_all_ok[OF u(2)] by blast
  then show ?thesis using u(1,3) yield_ok[of k2 A2 "stg = Blocked \<and> \<not> b"] by (auto simp: leave_def)
qed

lemma time_left: "xTaskCheckForTimeOut to n k = (False, to', n') \<Longrightarrow> n \<noteq> 0 \<Longrightarrow> n' \<noteq> 0"
  by (auto simp: xTaskCheckForTimeOut_def portMAX_DELAY_def split: if_splits)

lemma waiting_task:
  assumes "may_wait n k" and "n \<noteq> 0"
  shows "\<exists>t. pxCurrentTCB k = Some t \<and> xIdleTaskHandle k \<noteq> Some t \<and> listLIST_ITEM_CONTAINER (xEventListItem t) (heap k) = None"
  using assms blocker_cases[of k None] by (auto simp: may_wait_def prvGetTCBFromHandle_def no_event_def)

lemma send_block_keeps:
  assumes "kernel_ok k A" and "queue_ok qs" and "may_wait n k" and "n \<noteq> 0"
  shows "\<exists>stg to' n' qs' k' A'. send_block q to n qs k = Some (stg, to', n', qs', k') \<and> kernel_ok k' A' \<and> queue_ok qs'"
proof -
  obtain t where t: "pxCurrentTCB k = Some t" "xIdleTaskHandle k \<noteq> Some t" "listLIST_ITEM_CONTAINER (xEventListItem t) (heap k) = None" using waiting_task[OF assms(3,4)] by blast
  have k: "kernel_ok (vTaskSuspendAll k) A" using suspend_all_ok[OF assms(1)] assms(3,4) by (simp add: may_wait_def)
  obtain expired to' n' where c: "xTaskCheckForTimeOut to n (vTaskSuspendAll k) = (expired, to', n')" by (cases "xTaskCheckForTimeOut to n (vTaskSuspendAll k)")
  have "\<exists>k' A'. vTaskPlaceOnEventList (xTasksWaitingToSend q) n' (vTaskSuspendAll k) = Some k' \<and> kernel_ok k' A'" if "\<not> expired"
    using place_event_ok(1)[OF k, of t n'] time_left[of to n _ to' n'] c that t assms(4) by (simp add: suspended_same waiting_lists)
  then show ?thesis using k c assms(2) by (cases expired) (auto simp: send_block_def Let_def)
qed

lemma inherit_frame:
  assumes "vTaskPriorityInherit holder k = Some k'"
  shows "pxCurrentTCB k' = pxCurrentTCB k \<and> xIdleTaskHandle k' = xIdleTaskHandle k \<and> pvContainer (heap k') (xEventListItem t) = pvContainer (heap k) (xEventListItem t)"
  using assms by (auto simp: vTaskPriorityInherit_def Let_def prvAddTaskToReadyList_def set_event_value_def set_priority_def remove_item_def append_item_def uxListRemove_def vListInsertEnd_def
      listSET_LIST_ITEM_VALUE_def split: Option.bind_splits option.splits if_splits)

lemma receive_block_keeps:
  assumes "kernel_ok k A" and "queue_ok qs" and "may_wait n k" and "n \<noteq> 0" and "is_mutex qs \<Longrightarrow> \<forall>t. pxMutexHolder qs = Some t \<longrightarrow> tcbs k t \<noteq> None"
  shows "\<exists>stg to' n' qs' k' A'. receive_block q to n qs k = Some (stg, to', n', qs', k') \<and> kernel_ok k' A' \<and> queue_ok qs'"
proof -
  obtain t where t: "pxCurrentTCB k = Some t" "xIdleTaskHandle k \<noteq> Some t" "listLIST_ITEM_CONTAINER (xEventListItem t) (heap k) = None" using waiting_task[OF assms(3,4)] by blast
  have k: "kernel_ok (vTaskSuspendAll k) A" using suspend_all_ok[OF assms(1)] assms(3,4) by (simp add: may_wait_def)
  obtain expired to' n' where c: "xTaskCheckForTimeOut to n (vTaskSuspendAll k) = (expired, to', n')" by (cases "xTaskCheckForTimeOut to n (vTaskSuspendAll k)")
  have l: "is_mutex (prvLockQueue qs) = is_mutex qs" "pxMutexHolder (prvLockQueue qs) = pxMutexHolder qs" by (simp_all add: prvLockQueue_def)
  obtain k2 A2 where k2: "(if is_mutex qs then vTaskPriorityInherit (pxMutexHolder qs) (vTaskSuspendAll k) else Some (vTaskSuspendAll k)) = Some k2" "kernel_ok k2 A2"
    using inherit_ok[OF k, of "pxMutexHolder qs"] k assms(5) by (cases "is_mutex qs") (auto simp: suspended_same)
  have "pxCurrentTCB k2 = Some t \<and> xIdleTaskHandle k2 \<noteq> Some t \<and> listLIST_ITEM_CONTAINER (xEventListItem t) (heap k2) = None"
    using k2(1) inherit_frame[of "pxMutexHolder qs" "vTaskSuspendAll k" k2 t] t by (auto simp: suspended_same list_macros split: if_splits)
  then have "\<exists>k' A'. vTaskPlaceOnEventList (xTasksWaitingToReceive q) n' k2 = Some k' \<and> kernel_ok k' A'" if "\<not> expired"
    using place_event_ok(1)[OF k2(2), of t n'] time_left[of to n _ to' n'] c that assms(4) by (simp add: waiting_lists)
  then show ?thesis using k k2(1) c assms(2) by (cases expired) (auto simp: receive_block_def Let_def l)
qed

text \<open>A turn of the loop of a send or a receive.\<close>

lemma send_keeps:
  assumes "kernel_ok k A" and "queue_ok qs" and "may_send pos item qs k" and "may_wait n k"
  shows "\<exists>r qs' k' A'. xQueueGenericSend q item pos entry n qs k = Some (r, qs', k') \<and> kernel_ok k' A' \<and> queue_ok qs'"
proof -
  obtain t qs1 k1 A1 where t: "send_try q item pos n qs k = Some (t, qs1, k1)" "kernel_ok k1 A1" "queue_ok qs1" "t = Wait \<longrightarrow> n \<noteq> 0 \<and> qs1 = qs \<and> k1 = k"
    using send_try_keeps[OF assms(1-3)] by blast
  show ?thesis
  proof (cases t)
    case Wait
    obtain stg to' n' qs2 k2 A2 where b: "send_block q (entry_time entry k1) n qs1 k1 = Some (stg, to', n', qs2, k2)" "kernel_ok k2 A2" "queue_ok qs2"
      using send_block_keeps[OF t(2,3), of n q] t(4) Wait assms(4) by blast
    obtain qs3 k3 A3 where "leave q stg qs2 k2 = Some (qs3, k3)" "kernel_ok k3 A3" "queue_ok qs3" using leave_keeps[OF b(2,3)] by blast
    then show ?thesis using t(1) Wait b(1) by (auto simp: xQueueGenericSend_def)
  qed (use t in \<open>auto simp: xQueueGenericSend_def\<close>)
qed

lemma receive_keeps:
  assumes "kernel_ok k A" and "queue_ok qs" and "may_wait n k" and "is_mutex qs \<Longrightarrow> \<forall>t. pxMutexHolder qs = Some t \<longrightarrow> tcbs k t \<noteq> None"
  shows "\<exists>r qs' k' A'. xQueueGenericReceive q entry n peek qs k = Some (r, qs', k') \<and> kernel_ok k' A' \<and> queue_ok qs'"
proof -
  obtain t qs1 k1 A1 where t: "receive_try q n peek qs k = Some (t, qs1, k1)" "kernel_ok k1 A1" "queue_ok qs1" "t = RWait \<longrightarrow> n \<noteq> 0 \<and> qs1 = qs \<and> k1 = k"
    using receive_try_keeps[OF assms(1,2)] by blast
  show ?thesis
  proof (cases t)
    case RWait
    obtain stg to' n' qs2 k2 A2 where b: "receive_block q (entry_time entry k1) n qs1 k1 = Some (stg, to', n', qs2, k2)" "kernel_ok k2 A2" "queue_ok qs2"
      using receive_block_keeps[OF t(2,3), of n q] t(4) RWait assms(3,4) by blast
    obtain qs3 k3 A3 where "leave q stg qs2 k2 = Some (qs3, k3)" "kernel_ok k3 A3" "queue_ok qs3" using leave_keeps[OF b(2,3)] by blast
    then show ?thesis using t(1) RWait b(1) by (auto simp: xQueueGenericReceive_def)
  qed (use t in \<open>auto simp: xQueueGenericReceive_def\<close>)
qed

section \<open>The system with its queues\<close>

type_synonym system = "(nat \<Rightarrow> xQUEUE option) \<times> kernel"

definition vQueueDelete :: "nat \<Rightarrow> (nat \<Rightarrow> xQUEUE option) \<Rightarrow> nat \<Rightarrow> xQUEUE option" where
  "vQueueDelete q Q = Q(q := None)"

text \<open>Calls of the scheduler and of the queues; trying, locking and unlocking are steps of their own, for what interrupts may do between them.\<close>

datatype qcall = Kernel kcall | CreateQueue nat nat nat bool "nat \<Rightarrow> byte list option" | CreateMutex nat bool | DeleteQueue nat | ResetQueue nat
  | SendCall nat "byte list" position "xTimeOutType option" "32 word" | ReceiveCall nat "xTimeOutType option" "32 word" bool
  | SendTry nat "byte list" position "32 word" | ReceiveTry nat "32 word" bool | LockQueue nat | UnlockQueue nat | WaitRestricted nat "32 word"
  | SendISR nat "byte list" position | ReceiveISR nat | PeekISR nat

definition on_queue :: "nat \<Rightarrow> (xQUEUE \<Rightarrow> kernel \<Rightarrow> (xQUEUE \<times> kernel) option) \<Rightarrow> system \<Rightarrow> system option" where
  "on_queue q f s = do { qs \<leftarrow> fst s q; (qs', k') \<leftarrow> f qs (snd s); Some ((fst s)(q \<mapsto> qs'), k') }"

fun qperform :: "qcall \<Rightarrow> system \<Rightarrow> system option" where
  "qperform (Kernel c) s = map_option (Pair (fst s)) (perform c (snd s))"
| "qperform (CreateQueue q n m room alloc) s = map_option (\<lambda>(qs, k'). ((fst s)(q := qs), k')) (xQueueGenericCreate q n m room alloc (snd s))"
| "qperform (CreateMutex q room) s = map_option (\<lambda>(qs, k'). ((fst s)(q := qs), k')) (xQueueCreateMutex q room (snd s))"
| "qperform (DeleteQueue q) s = Some (vQueueDelete q (fst s), snd s)"
| "qperform (ResetQueue q) s = on_queue q (xQueueGenericReset q False) s"
| "qperform (SendCall q item pos entry n) s = on_queue q (\<lambda>qs k. map_option snd (xQueueGenericSend q item pos entry n qs k)) s"
| "qperform (ReceiveCall q entry n peek) s = on_queue q (\<lambda>qs k. map_option snd (xQueueGenericReceive q entry n peek qs k)) s"
| "qperform (SendTry q item pos n) s = on_queue q (\<lambda>qs k. map_option snd (send_try q item pos n qs k)) s"
| "qperform (ReceiveTry q n peek) s = on_queue q (\<lambda>qs k. map_option snd (receive_try q n peek qs k)) s"
| "qperform (LockQueue q) s = on_queue q (\<lambda>qs k. Some (prvLockQueue qs, k)) s"
| "qperform (UnlockQueue q) s = on_queue q (prvUnlockQueue q) s"
| "qperform (WaitRestricted q n) s = on_queue q (vQueueWaitForMessageRestricted q n) s"
| "qperform (SendISR q item pos) s = on_queue q (\<lambda>qs k. map_option (\<lambda>(b, w, r). r) (xQueueGenericSendFromISR q item pos qs k)) s"
| "qperform (ReceiveISR q) s = on_queue q (\<lambda>qs k. map_option (\<lambda>(b, w, r). r) (xQueueReceiveFromISR q qs k)) s"
| "qperform (PeekISR q) s = on_queue q (\<lambda>qs k. map_option (\<lambda>(b, r). (r, k)) (xQueuePeekFromISR qs)) s"

definition no_waiters :: "nat \<Rightarrow> kernel \<Rightarrow> bool" where
  "no_waiters q k \<longleftrightarrow> listLIST_IS_EMPTY (xTasksWaitingToSend q) (heap k) \<and> listLIST_IS_EMPTY (xTasksWaitingToReceive q) (heap k)"

definition for_queue :: "nat \<Rightarrow> (xQUEUE \<Rightarrow> kernel \<Rightarrow> bool) \<Rightarrow> system \<Rightarrow> bool" where
  "for_queue q P s \<longleftrightarrow> (case fst s q of None \<Rightarrow> False | Some qs \<Rightarrow> P qs (snd s))"

definition holder_live :: "xQUEUE \<Rightarrow> kernel \<Rightarrow> bool" where
  "holder_live qs k \<longleftrightarrow> is_mutex qs \<longrightarrow> (\<forall>t. pxMutexHolder qs = Some t \<longrightarrow> tcbs k t \<noteq> None)"

text \<open>What callers respect: handles of existing queues, items of the right size, overwriting only in queues of one item, mutexes whose holder exists and, when they are
  given, does not wait itself, no waiting in the idle task, and sizes that the address arithmetic of the code can count. The allocator answers with a block of the size asked for.\<close>

fun qallowed :: "qcall \<Rightarrow> system \<Rightarrow> bool" where
  "qallowed (Kernel c) s \<longleftrightarrow> allowed c (snd s)"
| "qallowed (CreateQueue q n m room alloc) s \<longleftrightarrow> fst s q = None \<and> no_waiters q (snd s) \<and> n * m + 1 < 2 ^ 32 \<and> (\<forall>bs. alloc (n * m + 1) = Some bs \<longrightarrow> length bs = n * m + 1)"
| "qallowed (CreateMutex q room) s \<longleftrightarrow> fst s q = None \<and> no_waiters q (snd s)"
| "qallowed (DeleteQueue q) s \<longleftrightarrow> no_waiters q (snd s)"
| "qallowed (SendCall q item pos entry n) s \<longleftrightarrow> for_queue q (\<lambda>qs k. may_send pos item qs k \<and> may_wait n k) s"
| "qallowed (ReceiveCall q entry n peek) s \<longleftrightarrow> for_queue q (\<lambda>qs k. may_wait n k \<and> holder_live qs k) s"
| "qallowed (SendTry q item pos n) s \<longleftrightarrow> for_queue q (may_send pos item) s"
| "qallowed (SendISR q item pos) s \<longleftrightarrow> for_queue q (may_send pos item) s"
| "qallowed (WaitRestricted q n) s \<longleftrightarrow> for_queue q (\<lambda>qs k. n \<noteq> 0 \<and> may_wait n k) s"
| "qallowed (ResetQueue q) s \<longleftrightarrow> fst s q \<noteq> None"
| "qallowed (ReceiveTry q n peek) s \<longleftrightarrow> fst s q \<noteq> None"
| "qallowed (LockQueue q) s \<longleftrightarrow> fst s q \<noteq> None"
| "qallowed (UnlockQueue q) s \<longleftrightarrow> fst s q \<noteq> None"
| "qallowed (ReceiveISR q) s \<longleftrightarrow> fst s q \<noteq> None"
| "qallowed (PeekISR q) s \<longleftrightarrow> fst s q \<noteq> None"

inductive qreachable :: "system \<Rightarrow> bool" where
  started: "reachable k \<Longrightarrow> qreachable (\<lambda>_. None, k)"
| called: "qreachable s \<Longrightarrow> qallowed c s \<Longrightarrow> qperform c s = Some s' \<Longrightarrow> qreachable s'"

definition system_ok :: "system \<Rightarrow> bool" where
  "system_ok s \<longleftrightarrow> (\<exists>A. kernel_ok (snd s) A) \<and> (\<forall>q qs. fst s q = Some qs \<longrightarrow> queue_ok qs)"

lemma on_queue_ok:
  assumes "system_ok s" and "fst s q = Some qs" and "\<And>A. kernel_ok (snd s) A \<Longrightarrow> queue_ok qs \<Longrightarrow> \<exists>qs' k' A'. f qs (snd s) = Some (qs', k') \<and> kernel_ok k' A' \<and> queue_ok qs'"
  shows "\<exists>s'. on_queue q f s = Some s' \<and> system_ok s'"
proof -
  obtain A where "kernel_ok (snd s) A" using assms(1) by (auto simp: system_ok_def)
  then obtain qs' k' A' where "f qs (snd s) = Some (qs', k')" "kernel_ok k' A'" "queue_ok qs'" using assms by (metis system_ok_def)
  then show ?thesis using assms(1,2) by (auto simp: on_queue_def system_ok_def)
qed

lemma no_waiters_lists: "kernel_ok k A \<Longrightarrow> no_waiters q k \<longleftrightarrow> A (xTasksWaitingToSend q) = [] \<and> A (xTasksWaitingToReceive q) = []"
  by (simp add: no_waiters_def list_empty)

lemma create_queue_keeps:
  assumes "kernel_ok k A" and "no_waiters q k" and "n * m + 1 < 2 ^ 32" and "\<forall>bs. alloc (n * m + 1) = Some bs \<longrightarrow> length bs = n * m + 1"
  shows "\<exists>r. xQueueGenericCreate q n m room alloc k = Some (r, k) \<and> (\<forall>qs. r = Some qs \<longrightarrow> queue_ok qs)"
proof (cases "n > 0 \<and> room \<and> alloc (n * m + 1) \<noteq> None")
  case True
  then obtain bs where bs: "alloc (n * m + 1) = Some bs" by blast
  have "length bs = n * m + 1" using assms(4) bs by blast
  from create_holds[OF assms(1) _ _ _ assms(3), of q alloc bs, OF _ _ _ bs this] obtain qs where "xQueueGenericCreate q n m True alloc k = Some (Some qs, k)" "implements (qs, k) \<lparr>capacity = n, item_size = m, items = []\<rparr>"
    using no_waiters_lists[OF assms(1)] assms(2) True by blast
  moreover from this(2) have "queue_ok qs" using holds_waiting by (auto simp: queue_ok_def implements_def)
  ultimately show ?thesis using True by auto
next
  case False
  have "u32 (u32 (n * m) + 1) = n * m + 1" using assms(3) by (simp add: u32_small)
  then show ?thesis using False by (auto simp: xQueueGenericCreate_def)
qed

lemma create_mutex_keeps:
  assumes "kernel_ok k A" and "no_waiters q k"
  shows "\<exists>r k' A'. xQueueCreateMutex q room k = Some (r, k') \<and> kernel_ok k' A' \<and> (\<forall>qs. r = Some qs \<longrightarrow> queue_ok qs)"
proof (cases room)
  case True
  let ?qs = "\<lparr>is_mutex = True, pxMutexHolder = None, storage = [], pcWriteTo = 0, pcReadFrom = 0, uxMessagesWaiting = 0, uxLength = 1, uxItemSize = 0, xRxLock = queueUNLOCKED, xTxLock = queueUNLOCKED\<rparr>"
  have "queue_ok ?qs" "may_send queueSEND_TO_BACK [] ?qs k" "may_wait 0 k" by (simp_all add: queue_ok_def may_send_def holder_known_def may_wait_def)
  from send_keeps[OF assms(1) this, of q None] obtain r qs' k' A' where "xQueueGenericSend q [] queueSEND_TO_BACK None 0 ?qs k = Some (r, qs', k')" "kernel_ok k' A'" "queue_ok qs'" by blast
  moreover have "k\<lparr>heap := vListInitialise (xTasksWaitingToReceive q) (vListInitialise (xTasksWaitingToSend q) (heap k))\<rparr> = k"
    using new_lists[OF assms(1)] no_waiters_lists[OF assms(1)] assms(2) by blast
  ultimately show ?thesis using True by (auto simp: xQueueCreateMutex_def Let_def)
qed (use assms(1) in \<open>auto simp: xQueueCreateMutex_def\<close>)

lemma reset_keeps:
  assumes "kernel_ok k A" and "queue_ok qs"
  shows "\<exists>qs' k' A'. xQueueGenericReset q False qs k = Some (qs', k') \<and> kernel_ok k' A' \<and> queue_ok qs'"
proof -
  obtain k1 A1 where k1: "wake_and_yield (xTasksWaitingToSend q) k = Some k1" "kernel_ok k1 A1" using wake_and_yield_ok[OF assms(1)] unfolding waiting_lists by blast
  have "\<not> is_mutex qs \<Longrightarrow> sized qs" using assms(2) by (auto simp: queue_ok_def holds_items_def ring_def)
  then have "queue_ok (fst (the (xQueueGenericReset q False qs k)))"
    using reset_items[of qs queueUNLOCKED queueUNLOCKED] assms(2) k1(1) by (cases "is_mutex qs") (auto simp: xQueueGenericReset_def Let_def queue_ok_def)
  then show ?thesis using k1 by (auto simp: xQueueGenericReset_def Let_def)
qed

lemma wait_restricted_keeps:
  assumes "kernel_ok k A" and "queue_ok qs" and "may_wait n k" and "n \<noteq> 0"
  shows "\<exists>qs' k' A'. vQueueWaitForMessageRestricted q n qs k = Some (qs', k') \<and> kernel_ok k' A' \<and> queue_ok qs'"
proof -
  obtain t where t: "pxCurrentTCB k = Some t" "xIdleTaskHandle k \<noteq> Some t" "listLIST_ITEM_CONTAINER (xEventListItem t) (heap k) = None" using waiting_task[OF assms(3,4)] by blast
  obtain k1 A1 where k1: "(if uxMessagesWaiting (prvLockQueue qs) = 0 then vTaskPlaceOnEventListRestricted (xTasksWaitingToReceive q) n k else Some k) = Some k1" "kernel_ok k1 A1"
    using place_event_ok(2)[OF assms(1) t assms(4), of "2 * q + 1"] assms(1) by (cases "uxMessagesWaiting (prvLockQueue qs) = 0") (auto simp: waiting_lists)
  then show ?thesis using unlock_keeps[OF k1(2), of "prvLockQueue qs" q] assms(2) by (auto simp: vQueueWaitForMessageRestricted_def Let_def)
qed

lemma qperform_ok:
  assumes "system_ok s" and "qallowed c s"
  shows "\<exists>s'. qperform c s = Some s' \<and> system_ok s'"
proof -
  obtain A where A: "kernel_ok (snd s) A" using assms(1) by (auto simp: system_ok_def)
  have Q: "fst s q = Some qs \<Longrightarrow> queue_ok qs" for q qs using assms(1) by (simp add: system_ok_def)
  have queue: "\<exists>qs. fst s q = Some qs \<and> P qs (snd s)" if "for_queue q P s" for q P using that by (auto simp: for_queue_def split: option.splits)
  note on = on_queue_ok[OF assms(1)]
  show ?thesis
  proof (cases c)
    case (Kernel c)
    then show ?thesis using perform_ok[OF A, of c] Q assms(2) by (auto simp: system_ok_def)
  next
    case (CreateQueue q n m room alloc)
    then show ?thesis using create_queue_keeps[OF A, of q n m alloc room] A Q assms(2) by (auto simp: system_ok_def)
  next
    case (CreateMutex q room)
    then show ?thesis using create_mutex_keeps[OF A, of q room] Q assms(2) by (fastforce simp: system_ok_def)
  next
    case (DeleteQueue q)
    then show ?thesis using assms(1) by (auto simp: system_ok_def vQueueDelete_def)
  next
    case (ResetQueue q)
    then show ?thesis using on[of q _ "xQueueGenericReset q False"] reset_keeps[of "snd s"] assms(2) by auto
  next
    case (SendCall q item pos entry n)
    then obtain qs where qs: "fst s q = Some qs" "may_send pos item qs (snd s)" "may_wait n (snd s)" using queue assms(2) by fastforce
    have "\<exists>s'. on_queue q (\<lambda>qs k. map_option snd (xQueueGenericSend q item pos entry n qs k)) s = Some s' \<and> system_ok s'"
      by (rule on[OF qs(1)]) (use send_keeps[OF _ _ qs(2,3), of _ q entry] in fastforce)
    then show ?thesis using SendCall by simp
  next
    case (ReceiveCall q entry n peek)
    then obtain qs where qs: "fst s q = Some qs" "may_wait n (snd s)" "holder_live qs (snd s)" using queue assms(2) by fastforce
    have "\<exists>s'. on_queue q (\<lambda>qs k. map_option snd (xQueueGenericReceive q entry n peek qs k)) s = Some s' \<and> system_ok s'"
      by (rule on[OF qs(1)]) (use receive_keeps[OF _ _ qs(2), of _ qs q entry peek] qs(3) in \<open>fastforce simp: holder_live_def\<close>)
    then show ?thesis using ReceiveCall by simp
  next
    case (SendTry q item pos n)
    then obtain qs where qs: "fst s q = Some qs" "may_send pos item qs (snd s)" using queue assms(2) by fastforce
    have "\<exists>s'. on_queue q (\<lambda>qs k. map_option snd (send_try q item pos n qs k)) s = Some s' \<and> system_ok s'"
      by (rule on[OF qs(1)]) (use send_try_keeps[OF _ _ qs(2), of _ q n] in fastforce)
    then show ?thesis using SendTry by simp
  next
    case (ReceiveTry q n peek)
    then obtain qs where qs: "fst s q = Some qs" using assms(2) by auto
    have "\<exists>s'. on_queue q (\<lambda>qs k. map_option snd (receive_try q n peek qs k)) s = Some s' \<and> system_ok s'"
      by (rule on[OF qs]) (use receive_try_keeps[of "snd s" _ qs q n peek] in fastforce)
    then show ?thesis using ReceiveTry by simp
  next
    case (LockQueue q)
    then show ?thesis using on[of q _ "\<lambda>qs k. Some (prvLockQueue qs, k)"] assms(2) by auto
  next
    case (UnlockQueue q)
    then show ?thesis using on[of q _ "prvUnlockQueue q"] unlock_keeps[of "snd s"] assms(2) by auto
  next
    case (WaitRestricted q n)
    then obtain qs where qs: "fst s q = Some qs" "n \<noteq> 0" "may_wait n (snd s)" using queue assms(2) by fastforce
    then show ?thesis using WaitRestricted on[OF qs(1), of "vQueueWaitForMessageRestricted q n"] wait_restricted_keeps[OF _ _ qs(3,2)] by auto
  next
    case (SendISR q item pos)
    then obtain qs where qs: "fst s q = Some qs" "may_send pos item qs (snd s)" using queue assms(2) by fastforce
    have "\<exists>s'. on_queue q (\<lambda>qs k. map_option (\<lambda>(b, w, r). r) (xQueueGenericSendFromISR q item pos qs k)) s = Some s' \<and> system_ok s'"
      by (rule on[OF qs(1)]) (use send_isr_keeps[OF _ _ qs(2), of _ q] in fastforce)
    then show ?thesis using SendISR by simp
  next
    case (ReceiveISR q)
    then obtain qs where qs: "fst s q = Some qs" using assms(2) by auto
    have "\<exists>s'. on_queue q (\<lambda>qs k. map_option (\<lambda>(b, w, r). r) (xQueueReceiveFromISR q qs k)) s = Some s' \<and> system_ok s'"
      by (rule on[OF qs]) (use receive_isr_keeps(1)[of "snd s" _ qs q] in fastforce)
    then show ?thesis using ReceiveISR by simp
  next
    case (PeekISR q)
    then obtain qs where qs: "fst s q = Some qs" using assms(2) by auto
    have "\<exists>s'. on_queue q (\<lambda>qs k. map_option (\<lambda>(b, r). (r, k)) (xQueuePeekFromISR qs)) s = Some s' \<and> system_ok s'"
      by (rule on[OF qs]) (use receive_isr_keeps(2)[of "snd s" _ qs] in fastforce)
    then show ?thesis using PeekISR by simp
  qed
qed

lemma reachable_ok: "reachable k \<Longrightarrow> \<exists>A. kernel_ok k A"
proof (induction rule: reachable.induct)
  case (start k0 i tm us k1 k)
  then show ?case using boot_ok[OF start(1,2)] by auto
next
  case (call k c k')
  then show ?case using perform_ok[of k _ c] by auto
qed

lemma qreachable_ok: "qreachable s \<Longrightarrow> system_ok s"
proof (induction rule: qreachable.induct)
  case (started k)
  then show ?case using reachable_ok by (simp add: system_ok_def)
next
  case (called s c s')
  then show ?case using qperform_ok[of s c] by auto
qed

text \<open>C6: Whatever the order of the calls of the scheduler, of the queues and of the interrupts, with the steps of a waiting send or receive interleaved with the rest: the scheduler's
  state is sound, every queue holds a list of items within its storage, every mutex is free without a holder or taken, and every call whose caller respects its obligations returns, never
  leaves the storage and leads to such a state again.\<close>

theorem queues_sound:
  assumes "qreachable s"
  shows "(\<exists>A. kernel_ok (snd s) A) \<and> (\<forall>q qs. fst s q = Some qs \<longrightarrow> queue_ok qs) \<and> (\<forall>c. qallowed c s \<longrightarrow> (\<exists>s'. qperform c s = Some s' \<and> qreachable s'))"
  using qreachable_ok[OF assms] qperform_ok[OF qreachable_ok[OF assms]] qreachable.called[OF assms] unfolding system_ok_def by blast

text \<open>The system of the two tasks of \<open>demo\<close>, with a mutex that the current task has taken.\<close>

definition demo_system :: system where
  "demo_system = the (do { s \<leftarrow> qperform (CreateMutex 0 True) (\<lambda>_. None, demo); qperform (ReceiveCall 0 None 0 False) s })"

lemma demo_mutex: "map_option (\<lambda>qs. (is_mutex qs, pxMutexHolder qs)) (fst demo_system 0) = Some (True, Some 3)" "pxCurrentTCB (snd demo_system) = Some 3"
    "map_option uxPriority (tcbs (snd demo_system) 3) = Some 4"
    "map_option (\<lambda>s. map_option (\<lambda>qs. (is_mutex qs, pxMutexHolder qs)) (fst s 0)) (qperform (CreateMutex 0 True) (\<lambda>_. None, demo)) = Some (Some (True, None))"
  by code_simp+

lemma demo_system_reachable: "qreachable demo_system"
proof -
  have d: "qreachable (\<lambda>_. None, demo)" using demo_ok qreachable.started by blast
  have "no_waiters 0 demo" by code_simp
  then have c: "qallowed (CreateMutex 0 True) (\<lambda>_. None, demo)" by simp
  from qperform_ok[OF qreachable_ok[OF d] c] obtain s1 where s1: "qperform (CreateMutex 0 True) (\<lambda>_. None, demo) = Some s1" "system_ok s1" by blast
  have r1: "qreachable s1" by (rule qreachable.called[OF d c s1(1)])
  have "for_queue 0 (\<lambda>qs k. may_wait 0 k \<and> holder_live qs k) s1" using demo_mutex(4) s1(1) by (auto simp: for_queue_def may_wait_def holder_live_def)
  then have c1: "qallowed (ReceiveCall 0 None 0 False) s1" by simp
  from qperform_ok[OF s1(2) c1] obtain s2 where s2: "qperform (ReceiveCall 0 None 0 False) s1 = Some s2" by blast
  have "demo_system = s2" using s2 unfolding demo_system_def s1(1) by (simp del: qperform.simps)
  then show ?thesis using qreachable.called[OF r1 c1 s2] by simp
qed

theorem queues_sound_witness: "(\<exists>qs. fst demo_system 0 = Some qs \<and> queue_ok qs) \<and> (\<exists>s'. qperform (UnlockQueue 0) demo_system = Some s' \<and> qreachable s')"
proof -
  obtain qs where "fst demo_system 0 = Some qs" using demo_mutex(1) by blast
  moreover from this have "qallowed (UnlockQueue 0) demo_system" by simp
  ultimately show ?thesis using queues_sound[OF demo_system_reachable] by blast
qed

text \<open>C21: A mutex excludes: a task that takes it is recorded as its holder, and while it has a holder no task and no interrupt takes it, however long the caller is ready to wait;
  the attempt leaves the mutex and the scheduler as they were.\<close>

theorem mutex_excludes:
  assumes "qreachable (Q, k)" and "Q q = Some qs" and "is_mutex qs"
  shows "(\<forall>n qs' k'. receive_try q n False qs k = Some (Received (Some bs), qs', k') \<longrightarrow> pxMutexHolder qs = None \<and> pxMutexHolder qs' = pxCurrentTCB k \<and> uxQueueMessagesWaiting qs' = 0)
    \<and> (pxMutexHolder qs = Some t \<longrightarrow> receive_try q n peek qs k = Some (if n = 0 then Received None else RWait, qs, k) \<and> xQueueReceiveFromISR q qs k = Some (None, False, qs, k))"
proof -
  have "queue_ok qs" using qreachable_ok[OF assms(1)] assms(2) by (simp add: system_ok_def)
  then have ok: "uxMessagesWaiting qs \<le> 1" "uxMessagesWaiting qs = 1 \<longrightarrow> pxMutexHolder qs = None" using assms(3) by (simp_all add: queue_ok_def)
  have take: "pxMutexHolder qs = None \<and> pxMutexHolder qs' = pxCurrentTCB k \<and> uxQueueMessagesWaiting qs' = 0" if "receive_try q n False qs k = Some (Received (Some bs), qs', k')" for n qs' k'
    using that ok assms(3) by (auto simp: receive_try_def Let_def prvCopyDataFromQueue_def xTaskGetCurrentTaskHandle_def uxQueueMessagesWaiting_def split: Option.bind_splits if_splits)
  have "uxMessagesWaiting qs = 0" if "pxMutexHolder qs = Some t" using that ok by (cases "uxMessagesWaiting qs") auto
  then have "receive_try q n peek qs k = Some (if n = 0 then Received None else RWait, qs, k) \<and> xQueueReceiveFromISR q qs k = Some (None, False, qs, k)" if "pxMutexHolder qs = Some t"
    using that by (simp add: receive_try_def xQueueReceiveFromISR_def)
  then show ?thesis using take by blast
qed

theorem mutex_excludes_witness: "\<exists>qs. fst demo_system 0 = Some qs \<and> pxMutexHolder qs = Some 3 \<and> receive_try 0 10 False qs (snd demo_system) = Some (RWait, qs, snd demo_system)"
proof -
  obtain qs where qs: "fst demo_system 0 = Some qs" "is_mutex qs" "pxMutexHolder qs = Some 3" using demo_mutex(1) by auto
  have "qreachable (fst demo_system, snd demo_system)" using demo_system_reachable by simp
  from mutex_excludes[OF this qs(1,2)] qs(3) have "receive_try 0 10 False qs (snd demo_system) = Some (if (10 :: 32 word) = 0 then Received None else RWait, qs, snd demo_system)" by blast
  then show ?thesis using qs by simp
qed

section \<open>Priority inheritance of mutexes\<close>

lemma ready_place:
  assumes "kernel_ok k A" and "pvContainer (heap k) (xGenericListItem t) = Some (pxReadyTasksLists p)" and "tcbs k t = Some b"
  shows "p = uxPriority b"
proof -
  note D = tasks_invD[OF kinvD(1)[OF kernel_okD(1)[OF assms(1)]]]
  have "xGenericListItem t \<in> set (A (pxReadyTasksLists p))" using assms(2) heap_cont[OF D(1)] by blast
  then show ?thesis using D(2)[of "xGenericListItem t" "pxReadyTasksLists p"] assms(3) by (simp add: priority_of_def)
qed

lemma inherit_effect:
  assumes "vTaskPriorityInherit (Some h) k = Some k'" and "tcbs k h = Some b" and "current_priority k = Some c"
  shows "tcbs k' = (tcbs k)(h \<mapsto> b\<lparr>uxPriority := max (uxPriority b) c\<rparr>)"
    "pvContainer (heap k) (xGenericListItem h) = Some (pxReadyTasksLists (uxPriority b)) \<Longrightarrow> \<exists>p. pvContainer (heap k') (xGenericListItem h) = Some (pxReadyTasksLists p)"
proof -
  have p: "priority_of h k = Some (uxPriority b)" using assms(2) by (simp add: priority_of_def)
  let ?k = "set_event_value h c k"
  have same: "tcbs ?k = tcbs k" "pvContainer (heap ?k) = pvContainer (heap k)" by (simp_all add: set_event_value_def list_macros)
  have "tcbs k' = (tcbs k)(h \<mapsto> b\<lparr>uxPriority := max (uxPriority b) c\<rparr>)
    \<and> (pvContainer (heap k) (xGenericListItem h) = Some (pxReadyTasksLists (uxPriority b)) \<longrightarrow> (\<exists>p. pvContainer (heap k') (xGenericListItem h) = Some (pxReadyTasksLists p)))"
  proof (cases "uxPriority b < c")
    case False
    then have "k' = k" using assms(1,3) p by (simp add: vTaskPriorityInherit_def)
    then show ?thesis using False assms(2) by (auto simp: max_def)
  next
    case less: True
    show ?thesis
    proof (cases "pvContainer (heap k) (xGenericListItem h) = Some (pxReadyTasksLists (uxPriority b))")
      case True
      obtain k1 where k1: "remove_item (xGenericListItem h) ?k = Some k1" "prvAddTaskToReadyList h (set_priority h c k1) = Some k'"
        using assms(1,3) p less True same(2) by (auto simp: vTaskPriorityInherit_def Let_def list_macros split: Option.bind_splits)
      then show ?thesis using add_fields[OF k1(2)] remove_fields[OF k1(1)] assms(2) same(1) less by (simp add: set_priority_def max_def)
    next
      case False
      then have "k' = set_priority h c ?k" using assms(1,3) p less same(2) by (simp add: vTaskPriorityInherit_def Let_def list_macros)
      then show ?thesis using False assms(2) same(1) less by (simp add: set_priority_def max_def)
    qed
  qed
  then show "tcbs k' = (tcbs k)(h \<mapsto> b\<lparr>uxPriority := max (uxPriority b) c\<rparr>)"
    "pvContainer (heap k) (xGenericListItem h) = Some (pxReadyTasksLists (uxPriority b)) \<Longrightarrow> \<exists>p. pvContainer (heap k') (xGenericListItem h) = Some (pxReadyTasksLists p)"
    by blast+
qed

lemma place_frame:
  assumes "vTaskPlaceOnEventList l n k = Some k'" and "pxCurrentTCB k = Some t"
  shows "tcbs k' = tcbs k" "h \<noteq> t \<Longrightarrow> pvContainer (heap k') (xGenericListItem h) = pvContainer (heap k) (xGenericListItem h)"
proof -
  obtain k1 k2 where k: "insert_item l (xEventListItem t) k = Some k1" "remove_item (xGenericListItem t) k1 = Some k2"
      "(if n = portMAX_DELAY then Some (append_item xSuspendedTaskList (xGenericListItem t) k2) else prvAddCurrentTaskToDelayedList (xTickCount k2 + n) k2) = Some k'"
    using assms by (auto simp: vTaskPlaceOnEventList_def split: Option.bind_splits)
  have i: "tcbs y = tcbs x \<and> pvContainer (heap y) = (pvContainer (heap x))(i := Some l')" if "insert_item l' i x = Some y" for l' i x y
    using item_moves(1)[OF that] that by (auto simp: insert_item_def)
  have c: "pxCurrentTCB k2 = Some t" using item_moves(1)[OF k(1)] item_moves(2)[OF k(2)] assms(2) by simp
  have d: "tcbs k' = tcbs k2 \<and> (h \<noteq> t \<longrightarrow> pvContainer (heap k') (xGenericListItem h) = pvContainer (heap k2) (xGenericListItem h))" for h
  proof (cases "n = portMAX_DELAY")
    case True
    then show ?thesis using k(3) item_moves(3)[of xSuspendedTaskList "xGenericListItem t" k2] by (auto simp: append_item_def)
  next
    case False
    then show ?thesis using k(3) c
      by (auto simp: prvAddCurrentTaskToDelayedList_def Let_def listSET_LIST_ITEM_VALUE_def dest!: i split: Option.bind_splits if_splits)
  qed
  show "tcbs k' = tcbs k" using d i[OF k(1)] remove_fields[OF k(2)] by simp
  show "h \<noteq> t \<Longrightarrow> pvContainer (heap k') (xGenericListItem h) = pvContainer (heap k) (xGenericListItem h)"
    using d item_moves(1)[OF k(1)] item_moves(2)[OF k(2)] by simp
qed

lemma disinherit_effect:
  assumes "vTaskPriorityDisinherit (Some h) k = Some k'" and "tcbs k h = Some b"
  shows "tcbs k' = (tcbs k)(h \<mapsto> b\<lparr>uxPriority := uxBasePriority b\<rparr>)"
    "uxPriority b \<noteq> uxBasePriority b \<Longrightarrow> \<exists>p. pvContainer (heap k') (xGenericListItem h) = Some (pxReadyTasksLists p)"
proof -
  show "tcbs k' = (tcbs k)(h \<mapsto> b\<lparr>uxPriority := uxBasePriority b\<rparr>)"
    using assms by (cases "uxPriority b = uxBasePriority b")
      (auto simp: vTaskPriorityDisinherit_def set_event_value_def set_priority_def fun_eq_iff split: Option.bind_splits dest!: add_fields remove_fields)
  show "uxPriority b \<noteq> uxBasePriority b \<Longrightarrow> \<exists>p. pvContainer (heap k') (xGenericListItem h) = Some (pxReadyTasksLists p)"
    using assms by (auto simp: vTaskPriorityDisinherit_def split: Option.bind_splits dest!: add_fields)
qed

text \<open>Waking a task takes no task out of the ready lists.\<close>

lemma wake_frame:
  assumes "wake_and_yield l k = Some k'"
  shows "tcbs k' = tcbs k"
    "\<exists>p. pvContainer (heap k) (xGenericListItem h) = Some (pxReadyTasksLists p) \<Longrightarrow> \<exists>p. pvContainer (heap k') (xGenericListItem h) = Some (pxReadyTasksLists p)"
proof -
  let ?ready = "\<lambda>k. \<exists>p. pvContainer (heap k) (xGenericListItem h) = Some (pxReadyTasksLists p)"
  have y: "tcbs (yield_if y x) = tcbs x" "heap (yield_if y x) = heap x" for y x by (simp_all add: yield_if_def portYIELD_WITHIN_API_def)
  obtain y k1 where w: "wake_one l k = Some (y, k1)" "k' = yield_if y k1" using assms by (auto simp: wake_and_yield_def split: Option.bind_splits)
  have "tcbs k1 = tcbs k \<and> (?ready k \<longrightarrow> ?ready k1)"
  proof (cases "listLIST_IS_EMPTY l (heap k)")
    case False
    then obtain t k2 where t: "remove_item (xEventListItem t) k = Some k2"
        "(if uxSchedulerSuspended k2 = 0 then do { x \<leftarrow> remove_item (xGenericListItem t) k2; prvAddTaskToReadyList t x } else Some (append_item xPendingReadyList (xEventListItem t) k2)) = Some k1"
      using w(1) by (auto simp: wake_one_def xTaskRemoveFromEventList_def bind_eq_Some_conv)
    have k2: "tcbs k2 = tcbs k" "?ready k \<longrightarrow> ?ready k2" using remove_fields[OF t(1)] item_moves(2)[OF t(1)] by auto
    show ?thesis
    proof (cases "uxSchedulerSuspended k2 = 0")
      case True
      then obtain x where x: "remove_item (xGenericListItem t) k2 = Some x" "prvAddTaskToReadyList t x = Some k1" using t(2) by (auto split: Option.bind_splits)
      have "?ready k2 \<longrightarrow> ?ready k1"
      proof (cases "h = t")
        case False
        then show ?thesis using item_moves(2)[OF x(1)] x(2) by (auto simp: prvAddTaskToReadyList_def Let_def append_item_def vListInsertEnd_def bind_eq_Some_conv split: if_splits)
      qed (use add_fields[OF x(2)] in simp)
      then show ?thesis using k2 remove_fields[OF x(1)] add_fields[OF x(2)] by auto
    next
      case False
      then have "k1 = append_item xPendingReadyList (xEventListItem t) k2" using t(2) by simp
      then show ?thesis using k2 item_moves(3)[of xPendingReadyList "xEventListItem t" k2] by (auto simp: append_item_def)
    qed
  qed (use w(1) in \<open>simp add: wake_one_def\<close>)
  then show "tcbs k' = tcbs k" "?ready k \<Longrightarrow> ?ready k'" using w(2) y by auto
qed

lemma mutex_wait:
  assumes "kernel_ok k A" and "queue_ok qs" and "is_mutex qs" and "pxMutexHolder qs = Some h" and "tcbs k h = Some b"
    and t: "pxCurrentTCB k = Some t" "t \<noteq> h" "tcbs k t = Some bt" and w: "n \<noteq> 0" "may_wait n k" "xTaskCheckForTimeOut to n k = (False, to', n')"
  shows "\<exists>qs' k'. receive_block q to n qs k = Some (Blocked, to', n', qs', k') \<and> pxMutexHolder qs' = Some h
    \<and> listIS_CONTAINED_WITHIN (Some (xTasksWaitingToReceive q)) (xEventListItem t) (heap k')
    \<and> tcbs k' h = Some (b\<lparr>uxPriority := max (uxPriority b) (uxPriority bt)\<rparr>)
    \<and> (listIS_CONTAINED_WITHIN (Some (pxReadyTasksLists (uxPriority b))) (xGenericListItem h) (heap k)
         \<longrightarrow> listIS_CONTAINED_WITHIN (Some (pxReadyTasksLists (max (uxPriority b) (uxPriority bt)))) (xGenericListItem h) (heap k'))"
proof -
  have qs: "uxMessagesWaiting qs = 0" using assms(2-4) by (auto simp: queue_ok_def le_Suc_eq)
  have l: "is_mutex (prvLockQueue qs)" "pxMutexHolder (prvLockQueue qs) = Some h" "prvIsQueueEmpty (prvLockQueue qs)"
    using assms(3,4) qs by (simp_all add: prvLockQueue_def prvIsQueueEmpty_def)
  have "xTaskCheckForTimeOut to n (vTaskSuspendAll k) = xTaskCheckForTimeOut to n k" by (simp add: xTaskCheckForTimeOut_def vTaskSetTimeOutState_def vTaskSuspendAll_def)
  then have c: "xTaskCheckForTimeOut to n (vTaskSuspendAll k) = (False, to', n')" using w(3) by simp
  obtain stg to'' n'' qs' k' A' where r: "receive_block q to n qs k = Some (stg, to'', n'', qs', k')" "kernel_ok k' A'"
    using receive_block_keeps[OF assms(1,2) w(2,1), of q to] assms(4,5) by auto
  then obtain k2 where k2: "vTaskPriorityInherit (Some h) (vTaskSuspendAll k) = Some k2" "vTaskPlaceOnEventList (xTasksWaitingToReceive q) n' k2 = Some k'"
      "qs' = prvLockQueue qs" "stg = Blocked" "to'' = to'" "n'' = n'"
    using c l by (auto simp: receive_block_def Let_def split: Option.bind_splits)
  have p: "current_priority (vTaskSuspendAll k) = Some (uxPriority bt)" "tcbs (vTaskSuspendAll k) h = Some b"
    using t assms(5) by (simp_all add: current_priority_def priority_of_def suspended_same)
  note e = inherit_effect[OF k2(1) p(2,1), unfolded suspended_same]
  have t2: "pxCurrentTCB k2 = Some t" using inherit_frame[OF k2(1), of t] t(1) by (simp add: suspended_same)
  note f = place_frame[OF k2(2) t2] and g = place_container[OF k2(2) t2]
  have b': "tcbs k' h = Some (b\<lparr>uxPriority := max (uxPriority b) (uxPriority bt)\<rparr>)" using f(1) e(1) by simp
  have "pvContainer (heap k') (xGenericListItem h) = Some (pxReadyTasksLists (max (uxPriority b) (uxPriority bt)))"
    if "pvContainer (heap k) (xGenericListItem h) = Some (pxReadyTasksLists (uxPriority b))"
    using e(2)[OF that] f(2)[of h] t(2) ready_place[OF r(2) _ b'] by auto
  then show ?thesis using r(1) k2(3-6) l(2) b' g by (auto simp: list_macros)
qed

lemma mutex_give:
  assumes "kernel_ok k A" and "queue_ok qs" and "is_mutex qs" and "pxMutexHolder qs = Some h" and "tcbs k h = Some b" and s: "may_send queueSEND_TO_BACK [] qs k"
  shows "\<exists>qs' k'. send_try q [] queueSEND_TO_BACK m qs k = Some (Finished True, qs', k') \<and> pxMutexHolder qs' = None \<and> uxQueueMessagesWaiting qs' = 1
    \<and> tcbs k' h = Some (b\<lparr>uxPriority := uxBasePriority b\<rparr>)
    \<and> (uxPriority b \<noteq> uxBasePriority b \<longrightarrow> listIS_CONTAINED_WITHIN (Some (pxReadyTasksLists (uxBasePriority b))) (xGenericListItem h) (heap k'))"
proof -
  have qs: "uxMessagesWaiting qs = 0" "uxLength qs = 1" "uxItemSize qs = 0" using assms(2-4) by (auto simp: queue_ok_def le_Suc_eq)
  obtain r qs' k' A' where st: "send_try q [] queueSEND_TO_BACK m qs k = Some (r, qs', k')" "kernel_ok k' A'" using send_try_keeps[OF assms(1,2) s] by blast
  then obtain k1 where k1: "vTaskPriorityDisinherit (Some h) k = Some k1" "wake_and_yield (xTasksWaitingToReceive q) k1 = Some k'" "r = Finished True"
      "qs' = qs\<lparr>pxMutexHolder := None, uxMessagesWaiting := 1\<rparr>"
    using qs assms(3,4) by (auto simp: send_try_def prvCopyDataToQueue_def bind_eq_Some_conv)
  note e = disinherit_effect[OF k1(1) assms(5)] and f = wake_frame[OF k1(2)]
  have b': "tcbs k' h = Some (b\<lparr>uxPriority := uxBasePriority b\<rparr>)" using f(1) e(1) by simp
  have "pvContainer (heap k') (xGenericListItem h) = Some (pxReadyTasksLists (uxBasePriority b))" if "uxPriority b \<noteq> uxBasePriority b"
    using f(2)[OF e(2)[OF that]] ready_place[OF st(2) _ b'] by auto
  then show ?thesis using st(1) k1(3,4) b' by (auto simp: list_macros uxQueueMessagesWaiting_def)
qed

text \<open>C39: Priority inheritance of a mutex, in every reachable system. While task \<open>h\<close> holds the mutex and another task \<open>t\<close>, the running one, which may wait and whose time is not up, goes to wait for it, the wait
  enters \<open>t\<close> into the mutex's list of waiting tasks and raises the priority of \<open>h\<close> to that of \<open>t\<close> if it is lower, moving \<open>h\<close> to the ready list of its new priority if it was ready; the
  mutex stays with \<open>h\<close>. When later \<open>h\<close> is the running task, waits for nothing itself and gives the mutex back, it is at its base priority, in the ready list of that priority if it had inherited
  another one, and the mutex is free. (It is at its base priority even if tasks still wait for other mutexes that it holds.)\<close>

theorem mutex_inheritance:
  assumes "qreachable (Q, k)" and "Q q = Some qs" and "is_mutex qs" and "pxMutexHolder qs = Some h" and "tcbs k h = Some b"
  shows "(pxCurrentTCB k = Some t \<and> t \<noteq> h \<and> tcbs k t = Some bt \<and> n \<noteq> 0 \<and> may_wait n k \<and> xTaskCheckForTimeOut to n k = (False, to', n')
      \<longrightarrow> (\<exists>qs' k'. receive_block q to n qs k = Some (Blocked, to', n', qs', k') \<and> pxMutexHolder qs' = Some h
        \<and> listIS_CONTAINED_WITHIN (Some (xTasksWaitingToReceive q)) (xEventListItem t) (heap k')
        \<and> tcbs k' h = Some (b\<lparr>uxPriority := max (uxPriority b) (uxPriority bt)\<rparr>)
        \<and> (listIS_CONTAINED_WITHIN (Some (pxReadyTasksLists (uxPriority b))) (xGenericListItem h) (heap k)
             \<longrightarrow> listIS_CONTAINED_WITHIN (Some (pxReadyTasksLists (max (uxPriority b) (uxPriority bt)))) (xGenericListItem h) (heap k'))))
    \<and> (pxCurrentTCB k = Some h \<and> may_send queueSEND_TO_BACK [] qs k
      \<longrightarrow> (\<exists>qs' k'. send_try q [] queueSEND_TO_BACK m qs k = Some (Finished True, qs', k') \<and> pxMutexHolder qs' = None \<and> uxQueueMessagesWaiting qs' = 1
        \<and> tcbs k' h = Some (b\<lparr>uxPriority := uxBasePriority b\<rparr>)
        \<and> (uxPriority b \<noteq> uxBasePriority b \<longrightarrow> listIS_CONTAINED_WITHIN (Some (pxReadyTasksLists (uxBasePriority b))) (xGenericListItem h) (heap k'))))"
proof -
  have ok: "system_ok (Q, k)" using qreachable_ok[OF assms(1)] .
  then obtain A where A: "kernel_ok k A" by (auto simp: system_ok_def)
  have Q: "queue_ok qs" using ok assms(2) by (simp add: system_ok_def)
  show ?thesis using mutex_wait[OF A Q assms(3-5)] mutex_give[OF A Q assms(3-5)] by blast
qed

text \<open>The mutex of \<open>demo_system\<close> with its holder at a lower priority and the other task running, and later the holder running at the inherited priority.\<close>

fun krun :: "kcall list \<Rightarrow> kernel \<Rightarrow> kernel option" where
  "krun [] k = Some k"
| "krun (c # cs) k = do { k1 \<leftarrow> perform c k; krun cs k1 }"

fun klegal :: "kcall list \<Rightarrow> kernel \<Rightarrow> bool" where
  "klegal [] k \<longleftrightarrow> True"
| "klegal (c # cs) k \<longleftrightarrow> allowed c k \<and> (case perform c k of None \<Rightarrow> False | Some k1 \<Rightarrow> klegal cs k1)"

lemma krun_reachable: "qreachable (Q, k) \<Longrightarrow> klegal cs k \<Longrightarrow> \<exists>k'. krun cs k = Some k' \<and> qreachable (Q, k')"
proof (induction cs arbitrary: k)
  case (Cons c cs)
  then obtain k1 where k1: "perform c k = Some k1" "klegal cs k1" "allowed c k" by (auto split: option.splits)
  have "qreachable (Q, k1)" by (rule qreachable.called[OF Cons.prems(1), of "Kernel c"]) (simp_all add: k1)
  from Cons.IH[OF this k1(2)] show ?case using k1(1) by simp
qed simp

definition waiting_kernel :: kernel where
  "waiting_kernel = the (krun [PrioritySet (Some 3) 1, SoftwareInterrupt] (snd demo_system))"

definition giving_kernel :: kernel where
  "giving_kernel = the (krun [PriorityInherit (Some 3), Tick] waiting_kernel)"

lemma waiting_states: "pxCurrentTCB waiting_kernel = Some 4" "map_option (\<lambda>b. (uxPriority b, uxBasePriority b)) (tcbs waiting_kernel 3) = Some (1, 1)"
  "map_option uxPriority (tcbs waiting_kernel 4) = Some 4" "may_block waiting_kernel None" "no_event waiting_kernel (Some 4)"
  by code_simp+

lemma giving_states: "uxSchedulerSuspended waiting_kernel = 0" "pxCurrentTCB giving_kernel = Some 3" "map_option (\<lambda>b. (uxPriority b, uxBasePriority b)) (tcbs giving_kernel 3) = Some (4, 1)"
  "listLIST_ITEM_CONTAINER (xEventListItem 3) (heap giving_kernel) = None" "map_option uxItemSize (fst demo_system 0) = Some 0"
  by code_simp+

lemmas kernel_states = waiting_states giving_states

lemma kernels_legal: "klegal [PrioritySet (Some 3) 1, SoftwareInterrupt] (snd demo_system)" "klegal [PriorityInherit (Some 3), Tick] waiting_kernel"
  by code_simp+

lemma kernels_reachable: "qreachable (fst demo_system, waiting_kernel)" "qreachable (fst demo_system, giving_kernel)"
proof -
  have d: "qreachable (fst demo_system, snd demo_system)" using demo_system_reachable by simp
  show w: "qreachable (fst demo_system, waiting_kernel)" using krun_reachable[OF d kernels_legal(1)] by (auto simp: waiting_kernel_def)
  show "qreachable (fst demo_system, giving_kernel)" using krun_reachable[OF w kernels_legal(2)] by (auto simp: giving_kernel_def)
qed

theorem mutex_inheritance_witness:
  "\<exists>qs. fst demo_system 0 = Some qs
    \<and> map_option uxPriority (tcbs waiting_kernel 3) = Some 1
    \<and> (\<exists>to n qs' k'. receive_block 0 (vTaskSetTimeOutState waiting_kernel) 10 qs waiting_kernel = Some (Blocked, to, n, qs', k')
         \<and> map_option uxPriority (tcbs k' 3) = Some 4)
    \<and> map_option uxPriority (tcbs giving_kernel 3) = Some 4
    \<and> (\<exists>qs' k'. send_try 0 [] queueSEND_TO_BACK 0 qs giving_kernel = Some (Finished True, qs', k') \<and> map_option uxPriority (tcbs k' 3) = Some 1)"
proof -
  obtain qs where qs: "fst demo_system 0 = Some qs" "is_mutex qs" "pxMutexHolder qs = Some 3" "uxItemSize qs = 0" using demo_mutex(1) kernel_states(10) by auto
  obtain b bt where b: "tcbs waiting_kernel 3 = Some b" "uxPriority b = 1" "tcbs waiting_kernel 4 = Some bt" "uxPriority bt = 4" using kernel_states(2,3) by auto
  obtain b' where b': "tcbs giving_kernel 3 = Some b'" "uxPriority b' = 4" "uxBasePriority b' = 1" using kernel_states(8) by auto
  have w: "may_wait 10 waiting_kernel" using kernel_states(1,4-6) by (simp add: may_wait_def)
  have c: "xTaskCheckForTimeOut (vTaskSetTimeOutState waiting_kernel) 10 waiting_kernel = (False, vTaskSetTimeOutState waiting_kernel, 10)"
    by (simp add: xTaskCheckForTimeOut_def vTaskSetTimeOutState_def portMAX_DELAY_def)
  have s: "may_send queueSEND_TO_BACK [] qs giving_kernel" using qs b'(1) kernel_states(9) by (simp add: may_send_def holder_known_def)
  have "\<exists>to n qs' k'. receive_block 0 (vTaskSetTimeOutState waiting_kernel) 10 qs waiting_kernel = Some (Blocked, to, n, qs', k')
      \<and> tcbs k' 3 = Some (b\<lparr>uxPriority := max (uxPriority b) (uxPriority bt)\<rparr>)"
    using mutex_inheritance[OF kernels_reachable(1) qs(1-3) b(1), of 4 bt 10] kernel_states(1) b(3) w c by fastforce
  moreover have "\<exists>qs' k'. send_try 0 [] queueSEND_TO_BACK 0 qs giving_kernel = Some (Finished True, qs', k') \<and> tcbs k' 3 = Some (b'\<lparr>uxPriority := uxBasePriority b'\<rparr>)"
    using mutex_inheritance[OF kernels_reachable(2) qs(1-3) b'(1), of 0 undefined 0 undefined undefined undefined 0] kernel_states(7) s by blast
  ultimately show ?thesis using qs(1) b b' by fastforce
qed

text \<open>The size of the storage is computed in 32 bits: a queue of 65536 items of 65536 bytes is created with a storage of one byte, and the first send leaves it.\<close>

lemma queue_size_wraps:
  "\<exists>qs k'. xQueueGenericCreate q 65536 65536 True (\<lambda>n. Some (replicate n 0)) k = Some (Some qs, k') \<and> length (storage qs) = 1
    \<and> (length item = 65536 \<longrightarrow> xQueueGenericSend q item queueSEND_TO_BACK None 0 qs k' = None)"
  by (simp add: xQueueGenericCreate_def xQueueGenericReset_def Let_def u32_def xQueueGenericSend_def send_try_def prvCopyDataToQueue_def copy_in_def)

end
