(* ===== verification/Spec2Isabelle.thy ===== *)
theory Spec2Isabelle
  imports Sysparam_Area Sysparam_Resources Sysparam_Total OneWire_Sim DS3231_Regs Rboot_Update Spiffs_Chip MQTT_Session Tftp_Upload Dhcp_Leases
    BMP280_Chip BMP180_Chip DHT_Signal GpioRegs KQueueSystem
begin

text \<open>
  A verification library for the firmware framework in this repository: the parts of esp-open-rtos that are its own
  code and that keep state on flash, talk to devices on a wire, decide what boots, or speak a protocol. Every
  definition translates a function, structure or constant of the C sources, and so does the model of the kernel they run on; the hardware, the mask ROM of the chip and
  third-party code are parameters, and what is assumed of them are the assumptions of a locale that is
  interpreted on a simulated device.

  \<^bold>\<open>Foundations.\<close> \<open>Prelude\<close> holds the integer widths (\<open>u8\<close>, \<open>u16\<close>, \<open>u32\<close>, \<open>sub32\<close> for unsigned arithmetic that
  wraps), byte buffers and the little-endian layout of packed structures. \<open>CString\<close> is the C library on strings
  that the code calls. \<open>Gpio\<close> is the interface of \<^verbatim>\<open>src/core/include/esp/gpio.h\<close> that the bit-banged buses use.

  \<^bold>\<open>SPI flash\<close> (\<^verbatim>\<open>src/open_esplibs/libmain/spi_flash.c\<close>, theory \<open>SpiFlash\<close>). The operations over the ROM routines in the
  record \<open>flashdev\<close>. The locale \<open>nor_rom\<close> is the ROM's contract page by page, \<open>flash_io\<close> the linear contract clients
  use; the sublocale between them is the correctness of the code (\<open>spi_flash_write_linear\<close>, \<open>erase_write_read\<close>).

  \<^bold>\<open>Parameter store\<close> (\<^verbatim>\<open>src/core/sysparam.c\<close>, theories \<open>Sysparam\<close> and \<open>Sysparam_...\<close>). Every function of the log-structured
  key/value store: \<open>Sysparam\<close> has the definitions in the order of the file; \<open>Sysparam_Log\<close> relates the flash contents to a
  list of entries and the searches to searches of that list; \<open>Sysparam_Store\<close> is the abstract map under updates;
  \<open>Sysparam_Flash\<close>, \<open>Sysparam_Read\<close> and \<open>Sysparam_Write\<close> show what the code does to the array and the map when the region has
  room (no compaction); \<open>Sysparam_Api\<close> has the locale \<open>kv_store\<close>, its interpretation and the properties of storing, reading,
  deleting and the typed accessors; \<open>Sysparam_Area\<close> is formatting and initialisation; \<open>Sysparam_Resources\<close> shows that the
  semaphore and every allocation are given back on every path, compaction included; \<open>Sysparam_Total\<close> shows for every
  device that the scanning loops, which have fuel, end: every step moves forward by an entry header at least, so
  fuel of the order of the region size never runs out.

  \<^bold>\<open>1-Wire and DS18B20\<close> (\<^verbatim>\<open>src/extras/onewire/onewire.c\<close>, \<^verbatim>\<open>src/extras/ds18b20/ds18b20.c\<close>). \<open>OneWire\<close> and \<open>DS18B20\<close> are
  the code at the level of pin writes, reads and delays; \<open>OneWire_Crc\<close> relates the checksum variants;
  \<open>OneWire_Search\<close> is the ROM search over a bus that keeps the slot protocol (locale \<open>onewire_bus\<close>);
  \<open>OneWire_Sim\<close> has the slots of one sensor on the line (locale \<open>ds18b20_line\<close>), interprets both contracts on a simulated bus and has the properties of scanning
  and of temperature readings, which are right from zero up and 4096 degrees off below.

  \<^bold>\<open>I2C and DS3231\<close> (\<^verbatim>\<open>src/extras/i2c/i2c.c\<close>, \<^verbatim>\<open>src/extras/ds3231/ds3231.c\<close>). \<open>I2C\<close> is the bit-banged master, with the eight-bit length of its writes, \<open>I2C_Bus\<close> a
  slave at the level of the two lines and the register contract \<open>reg_slave\<close> it meets; \<open>DS3231\<close> and \<open>DS3231_Regs\<close> are
  the clock driver and its properties over that contract.

  \<^bold>\<open>Boot loader and updates\<close> (\<^verbatim>\<open>src/bootloader/rboot\<close>, \<^verbatim>\<open>src/extras/rboot-ota/rboot-api.c\<close>). \<open>Rboot\<close> is both stages of the
  boot loader for every combination of its build options, \<open>Rboot_Boot\<close> what it accepts, boots and loads on a chip
  (locale \<open>boot_hw\<close>); the search for a good ROM has fuel, and one step more than there are ROMs is enough.
  \<open>RbootApi\<close> is the application's side; \<open>Rboot_Update\<close> (locale \<open>ota_flash\<close>) shows that an update is stored as sent,
  that both sides agree on good images of the layouts that \<open>verifiable\<close> describes, and that a verified update of such a layout is what boots next.

  \<^bold>\<open>SPIFFS flash driver\<close> (\<^verbatim>\<open>src/extras/spiffs/esp_spiffs_flash.c\<close>, part of \<^verbatim>\<open>esp_spiffs.c\<close>). \<open>SpiffsFlash\<close> drives the SPI
  controller's registers, with the copy routines of \<^verbatim>\<open>unaligned_memcpy.S\<close>: a word stored at an unaligned address is an exception, the result \<open>None\<close> of a read; \<open>Spiffs_Chip\<close> (locale \<open>spiffs_hw\<close>) shows byte-exact erase, write and read for writes of fewer
  than 256 pages (fuel: one step per page) and reads into buffers whose words can be stored, and that longer writes never end and other reads end in the exception.

  \<^bold>\<open>MQTT\<close> (\<^verbatim>\<open>src/extras/paho_mqtt_c\<close>). \<open>MQTTPacket\<close> and \<open>MQTTMessages\<close> are the packet layer and the client's messages;
  \<open>MQTT_Codec\<close> (locales \<open>byte_source\<close> and \<open>mqtt_stream\<close>) has round trips, buffer bounds and what happens to malformed packets.
  \<open>MQTTClient\<close> is the client and the timer and socket functions of its port; \<open>MQTT_Session\<close> (locales \<open>tcp_out\<close>,
  \<open>tcp_in\<close>, \<open>tcp\<close>) has the topic filters, sending, receiving and acknowledging; a packet longer than the read buffer is
  stored past its end, the fault \<open>None\<close>. Sending has fuel, and one step per byte of
  the packet and one more is enough; loops that wait for an answer depend on the clock and have fuel without a bound.

  \<^bold>\<open>UDP servers.\<close> \<open>Netconn\<close> is what they use of lwIP: a packet is a chain of segments in memory, the operations on a connection
  are the record \<open>netconn\<close>, and the locale \<open>udp_conn\<close> is a connection that delivers what arrives and sends what it is given.
  \<open>OtaTftp\<close> (\<^verbatim>\<open>src/extras/rboot-ota/ota-tftp.c\<close>) is the TFTP update server and client; \<open>Tftp_Upload\<close> (locale \<open>tftp_link\<close>)
  shows that a transfer with repeated blocks and timeouts puts the file into flash and that the uploaded image is what
  the boot loader starts (the receiving loop has fuel: one step per packet and one more is enough). \<open>Dhcpserver\<close>
  (\<^verbatim>\<open>src/extras/dhcpserver/dhcpserver.c\<close>) is the DHCP server, whose task never ends and is run for a number of turns;
  \<open>Dhcp_Leases\<close> (locale \<open>dhcp_link\<close>) shows how every request is answered, that a running lease belongs to
  its holder alone while the uptime is below the lease time, what goes wrong after that, and that options written are found.

  \<^bold>\<open>Sensors with compensation formulas.\<close> \<open>CArith\<close> is C's signed arithmetic at 32 and 64 bits: an overflow of a sum, difference, product or quotient and a
  division by zero are the value \<open>None\<close>, so a result is also the absence of all of these; a shift to the left drops the bits that leave the type, as the compiler documents. It also has the rounding errors of shifts and
  quotients. \<open>BMP280\<close> (\<^verbatim>\<open>src/extras/bmp280/bmp280.c\<close>) is that driver over the I2C model, \<open>BMP280_Formulas\<close> compares its fixed-point formulas with the
  real ones of the data sheet, \<open>BMP280_Chip\<close> (locale \<open>bmp280_chip\<close>) puts chip, bus and formulas together; the wait after a reset has fuel, and
  one step more than the chip is busy is enough. \<open>BMP180\<close> and \<open>BMP180_Chip\<close> (locale \<open>bmp180_chip\<close>) are the same for
  \<^verbatim>\<open>src/extras/bmp180/bmp180.c\<close>, with its driver task, which never ends and is run for a number of turns, and its queues. \<open>DHT\<close> and
  \<open>DHT_Signal\<close> (locale \<open>dht_line\<close>) are \<^verbatim>\<open>src/extras/dht/dht.c\<close>: pulses measured by counting delays.

  \<^bold>\<open>Timers, interrupts and pins.\<close> \<open>EspTimer\<close> (\<^verbatim>\<open>src/core/esp_timer.c\<close>) computes and stores the timers' dividers and counts; \<open>Pwm\<close>
  (\<^verbatim>\<open>src/extras/pwm/pwm.c\<close>) is the pulse-width modulation on it. \<open>Interrupts\<close> (\<^verbatim>\<open>src/core/esp_interrupts.c\<close>, locales \<open>isr_handlers\<close> and \<open>pwm_handlers\<close>)
  dispatches interrupts to handlers, which are parameters, and shows that the timer's drive the modulated pins and no others do. \<open>GpioRegs\<close> (\<^verbatim>\<open>src/core/esp_gpio.c\<close>, \<^verbatim>\<open>esp_iomux.c\<close>,
  \<^verbatim>\<open>esp_gpio_interrupts.c\<close>) is the pins over their registers: a setting of one pin changes nothing of another.

  \<^bold>\<open>The kernel\<close> (\<^verbatim>\<open>src/FreeRTOS/Source\<close>). \<open>KList\<close> (\<^verbatim>\<open>list.c\<close>, \<^verbatim>\<open>list.h\<close>) is the linked lists over a heap, and what their operations do to the lists of
  items the heap stands for; the locale \<open>round_robin\<close>, interpreted on the list and on the context switch, is taking turns. \<open>KTasks\<close> (\<^verbatim>\<open>tasks.c\<close>, the
  interrupts of \<^verbatim>\<open>port.c\<close>) is the scheduler: tasks, ticks, delays, events, priorities, creation and deletion, with a null or dangling pointer, and a loop without an end,
  as the result \<open>None\<close>. \<open>KSched\<close> has the invariant and the moves between lists, \<open>KRun\<close> the context switch, the tick and its loops, \<open>KMoves\<close> and
  \<open>KApi\<close> every call of the interface, and \<open>KSystem\<close> the start and the inductive relation \<open>reachable\<close> of all states that calls and interrupts, in any order,
  lead to: in each the invariant holds and every allowed call returns. The loops have no fuel: that they end is part of these lemmas. What the allocator answers is an
  argument. The idle task's freeing of deleted tasks is defined but is not a step of \<open>reachable\<close>, as nothing bounds the deletions it waits for.
  \<open>KQueue\<close> (\<^verbatim>\<open>queue.c\<close>) is queues, semaphores and mutexes on top of it, with the storage as a ring that holds a list of items; through the locale \<open>answers_as\<close> every
  sequence of calls answers as a bounded list. \<open>KQueueSystem\<close> adds waiting and locking: what interrupts do to a locked queue is made good when it is unlocked, a mutex excludes and its holder inherits the priority of a waiting task, and
  \<open>qreachable\<close> is the relation of all states that calls of the scheduler and of queues lead to, with the critical sections of a waiting call as steps of their own. The
  endless loop of such a call is one turn of it, that ends with an answer or with the task asleep or trying again.

  \<^bold>\<open>Concurrency.\<close> The code is modelled sequentially, an interrupt between two calls at most, or between the critical sections of a waiting call of a queue: critical sections and interrupt masking have no effect on a
  sequential state, the semaphore of the parameter store is modelled as a count. A busy-wait on a hardware
  register is one operation of the device. Messages on the console are left out.

  \<^bold>\<open>Not modelled.\<close> Vendored code (the timers and co-routines of FreeRTOS, lwIP, mbedTLS, newlib, SPIFFS itself, jsmn), the stacks of tasks with their overflow check, the closed SDK libraries, assembler other than the copy routines above,
  examples and tests. Of the repository's own code: SNTP, which runs inside lwIP; the hardware SPI driver; start-up code and
  timing-driven display and LED output.
\<close>

end
